(* ===== verification/Civan_Prelude.thy ===== *)
theory Civan_Prelude
  imports Main "HOL-Library.Word"
begin

unbundle bit_operations_syntax

section \<open>Shared types, the fault monad and generic list lemmas\<close>

text \<open>
  What every component of the development uses: the machine integer types of
  the C++ sources, the faults an operation can end in (a C++ exception, a failed
  \<open>CIVAN_ASSERT\<close>, or an access whose behaviour C++ leaves undefined), the error
  monad over them, the wrap-around subtraction of \<open>size_t\<close>, and lemmas on lists
  that several components share.
\<close>

subsection \<open>Machine integers\<close>

type_synonym u8 = "8 word"
type_synonym u16 = "16 word"
type_synonym u32 = "32 word"
type_synonym u64 = "64 word"

subsection \<open>Faults\<close>

text \<open>
  \<open>OutOfRange\<close>, \<open>LogicError\<close>, \<open>InvalidArgument\<close>: the exceptions the sources throw.
  \<open>AssertFail\<close>: \<open>CIVAN_ASSERT\<close> / \<open>CIVAN_ASSERT2\<close> of \<open>macro.h\<close> fails and aborts.
  \<open>BadPointer\<close>: a null pointer is dereferenced or a buffer is accessed outside its
  bounds. \<open>BadIterator\<close>: \<open>*begin()\<close> of an empty container or \<open>erase(end())\<close>.
  \<open>DivByZero\<close>: an integer modulus by zero. \<open>BadShift\<close>: a shift by at least the
  width of its left operand. \<open>Indeterminate\<close>: a value is read from memory that was
  never written. \<open>Diverges\<close>: the call never returns (a loop that makes no progress).
\<close>

datatype fault =
    OutOfRange
  | LogicError
  | InvalidArgument
  | AssertFail
  | BadPointer
  | BadIterator
  | DivByZero
  | BadShift
  | Indeterminate
  | Diverges

type_synonym 'a res = "fault + 'a"

fun rbind :: "'a res \<Rightarrow> ('a \<Rightarrow> 'b res) \<Rightarrow> 'b res" where
  "rbind (Inl e) f = Inl e"
| "rbind (Inr v) f = f v"

definition guard_else :: "fault \<Rightarrow> bool \<Rightarrow> 'a res \<Rightarrow> 'a res" where
  "guard_else e b r = (if b then r else Inl e)"

definition is_ok :: "'a res \<Rightarrow> bool" where
  "is_ok r = (case r of Inl _ \<Rightarrow> False | Inr _ \<Rightarrow> True)"

named_theorems civan_simps \<open>unfolding rules of the models' small helper operations\<close>

lemma rbind_cong [fundef_cong]:
  "x = y \<Longrightarrow> (\<And>v. y = Inr v \<Longrightarrow> f v = g v) \<Longrightarrow> rbind x f = rbind y g"
  by (cases y) simp_all

lemma rbind_Inr_conv [simp]: "rbind x f = Inr w \<longleftrightarrow> (\<exists>v. x = Inr v \<and> f v = Inr w)"
  by (cases x) simp_all

lemma rbind_assoc: "rbind (rbind x f) g = rbind x (\<lambda>v. rbind (f v) g)"
  by (cases x) simp_all

lemma is_ok_simps [simp]: "is_ok (Inr v)" "\<not> is_ok (Inl e)"
  by (simp_all add: is_ok_def)

lemma is_ok_conv: "is_ok r \<longleftrightarrow> (\<exists>v. r = Inr v)"
  by (cases r) simp_all

subsection \<open>Subtraction of \<open>size_t\<close> values\<close>

text \<open>A \<open>size_t\<close> is a 64-bit unsigned integer: a difference below zero wraps.\<close>

definition sz_sub :: "nat \<Rightarrow> nat \<Rightarrow> nat" where
  "sz_sub a b = (if b \<le> a then a - b else a + 2 ^ 64 - b)"

lemma sz_sub_le [simp]: "b \<le> a \<Longrightarrow> sz_sub a b = a - b"
  by (simp add: sz_sub_def)

lemma sz_sub_wrap: "a < b \<Longrightarrow> b \<le> 2 ^ 64 \<Longrightarrow> sz_sub a b = 2 ^ 64 - (b - a)"
  by (simp add: sz_sub_def)

text \<open>A \<open>size_t\<close> that is stored in an \<open>int\<close>.\<close>

definition as_int :: "nat \<Rightarrow> int" where
  "as_int n = signed_take_bit 31 (int n)"

lemma as_int_small [simp]: "n < 2 ^ 31 \<Longrightarrow> as_int n = int n"
  by (simp add: as_int_def signed_take_bit_int_eq_self)

lemma unat_drop_bit_div: "unat (drop_bit n w) = unat w div 2 ^ n"
  by (simp only: unat_drop_bit_eq) (simp only: drop_bit_eq_div)

subsection \<open>Overwriting part of a list\<close>

definition overwrite :: "'a list \<Rightarrow> nat \<Rightarrow> 'a list \<Rightarrow> 'a list" where
  "overwrite xs p d = take p xs @ d @ drop (p + length d) xs"

lemma length_overwrite [simp]: "p + length d \<le> length xs \<Longrightarrow> length (overwrite xs p d) = length xs"
  by (simp add: overwrite_def)

lemma overwrite_Nil [simp]: "overwrite xs p [] = xs"
  by (simp add: overwrite_def)

lemma take_overwrite_before [simp]: "q \<le> p \<Longrightarrow> p \<le> length xs \<Longrightarrow> take q (overwrite xs p d) = take q xs"
  by (simp add: overwrite_def min_def)

lemma take_overwrite_all:
  "p \<le> length xs \<Longrightarrow> take (p + length d) (overwrite xs p d) = take p xs @ d"
  by (simp add: overwrite_def)

lemma drop_overwrite [simp]:
  "p \<le> length xs \<Longrightarrow> p + length d \<le> q \<Longrightarrow> drop q (overwrite xs p d) = drop q xs"
  by (simp add: overwrite_def min_def)

lemma window_overwrite:
  "p \<le> length xs \<Longrightarrow> take (length d) (drop p (overwrite xs p d)) = d"
  by (simp add: overwrite_def)

lemma overwrite_overwrite:
  assumes "p + length d \<le> length xs"
  shows "overwrite (overwrite xs p d) (p + length d) e = overwrite xs p (d @ e)"
proof -
  have "take (p + length d) (overwrite xs p d) = take p xs @ d"
    using assms by (simp add: take_overwrite_all)
  then show ?thesis
    using assms by (simp add: overwrite_def ac_simps)
qed

lemma overwrite_append_right:
  assumes "length xs \<le> p"
  shows "overwrite (xs @ ys) p d = xs @ overwrite ys (p - length xs) d"
  using assms by (simp add: overwrite_def)

lemma overwrite_append_left:
  assumes "p + length d \<le> length xs"
  shows "overwrite (xs @ ys) p d = overwrite xs p d @ ys"
  using assms by (simp add: overwrite_def)

lemma take_max_overwrite:
  assumes "p \<le> s" "p + length d \<le> length xs" "s \<le> length xs"
  shows "take (max (p + length d) s) (overwrite xs p d) = overwrite (take s xs) p d"
proof (cases "s \<le> p + length d")
  case True
  then have "take (max (p + length d) s) (overwrite xs p d) = take p xs @ d"
    using assms by (simp add: take_overwrite_all max_def)
  then show ?thesis
    using assms True by (simp add: overwrite_def min_def)
next
  case False
  with assms show ?thesis
    by (simp add: overwrite_def max_def min_def drop_take)
qed

subsection \<open>Lists of equally long blocks\<close>

definition uniform :: "nat \<Rightarrow> 'a list list \<Rightarrow> bool" where
  "uniform b ns \<longleftrightarrow> (\<forall>n \<in> set ns. length n = b)"

lemma uniform_simps [simp]:
  "uniform b []" "uniform b (n # ns) \<longleftrightarrow> length n = b \<and> uniform b ns"
  "uniform b (ms @ ns) \<longleftrightarrow> uniform b ms \<and> uniform b ns"
  by (auto simp: uniform_def)

lemma uniform_nth [simp]: "uniform b ns \<Longrightarrow> i < length ns \<Longrightarrow> length (ns ! i) = b"
  by (simp add: uniform_def)

lemma uniform_update: "uniform b ns \<Longrightarrow> length n = b \<Longrightarrow> uniform b (ns[i := n])"
  by (auto simp: uniform_def dest: set_update_subset_insert [THEN subsetD])

lemma uniform_replicate [simp]: "length n = b \<Longrightarrow> uniform b (replicate k n)"
  by (simp add: uniform_def)

lemma length_concat_uniform: "uniform b ns \<Longrightarrow> length (concat ns) = length ns * b"
  by (induction ns) simp_all

lemma drop_concat_uniform: "uniform b ns \<Longrightarrow> drop (i * b) (concat ns) = concat (drop i ns)"
proof (induction ns arbitrary: i)
  case Nil
  show ?case by simp
next
  case (Cons n ns)
  then show ?case by (cases i) (simp_all add: add.commute)
qed

lemma take_concat_uniform: "uniform b ns \<Longrightarrow> take (i * b) (concat ns) = concat (take i ns)"
proof (induction ns arbitrary: i)
  case Nil
  show ?case by simp
next
  case (Cons n ns)
  then show ?case by (cases i) (simp_all add: add.commute)
qed

lemma concat_split_nth:
  "i < length ns \<Longrightarrow> concat ns = concat (take i ns) @ ns ! i @ concat (drop (Suc i) ns)"
  by (metis concat.simps(2) concat_append id_take_nth_drop)

lemma concat_update_overwrite:
  assumes u: "uniform b ns" and i: "i < length ns" and p: "pos + length d \<le> b"
  shows "concat (ns[i := overwrite (ns ! i) pos d]) = overwrite (concat ns) (i * b + pos) d"
proof -
  have len: "length (concat (take i ns)) = i * b"
    using u i by (simp add: take_concat_uniform [OF u, symmetric] length_concat_uniform)
  have "concat (ns[i := overwrite (ns ! i) pos d])
      = concat (take i ns) @ overwrite (ns ! i) pos d @ concat (drop (Suc i) ns)"
    using i by (simp add: upd_conv_take_nth_drop)
  also have "\<dots> = overwrite (concat (take i ns) @ ns ! i @ concat (drop (Suc i) ns)) (i * b + pos) d"
    using len u i p by (simp add: overwrite_append_right overwrite_append_left)
  finally show ?thesis
    by (simp add: concat_split_nth [OF i, symmetric])
qed

lemma window_concat_uniform:
  assumes u: "uniform b ns" and i: "i < length ns" and p: "pos + k \<le> b"
  shows "take k (drop pos (ns ! i)) = take k (drop (i * b + pos) (concat ns))"
proof -
  have len: "length (concat (take i ns)) = i * b"
    using u i by (simp add: take_concat_uniform [OF u, symmetric] length_concat_uniform)
  have "drop (i * b + pos) (concat ns) = drop pos (ns ! i) @ concat (drop (Suc i) ns)"
    using u i p by (subst concat_split_nth [OF i]) (simp add: len)
  then show ?thesis using u i p by simp
qed

lemma last_block_index: "0 < b \<Longrightarrow> (Suc k * b - 1) div b = k"
  by (rule div_nat_eqI) (auto simp: mult.commute [of b])

text \<open>The index of the block that holds a position, or none past the last block.\<close>

definition block_at :: "'a list list \<Rightarrow> nat \<Rightarrow> nat \<Rightarrow> nat option" where
  "block_at ns b p = (if p div b < length ns then Some (p div b) else None)"

definition ceil_div :: "nat \<Rightarrow> nat \<Rightarrow> nat" where
  "ceil_div a b = (a + b - 1) div b"

lemma ceil_div_mult_ge: "0 < b \<Longrightarrow> a \<le> ceil_div a b * b"
proof -
  assume b: "0 < b"
  have "a + b - 1 = (a + b - 1) div b * b + (a + b - 1) mod b" by simp
  moreover have "(a + b - 1) mod b < b" using b by simp
  ultimately show ?thesis unfolding ceil_div_def by linarith
qed

lemma ceil_div_mult_less: "0 < b \<Longrightarrow> 0 < a \<Longrightarrow> ceil_div a b * b < a + b"
proof -
  assume b: "0 < b" "0 < a"
  have "(a + b - 1) div b * b \<le> a + b - 1" by simp
  then show ?thesis using b unfolding ceil_div_def by linarith
qed

end
