(* ===== verification/Civan_Endian.thy ===== *)
theory Civan_Endian
  imports Civan_Prelude
begin

section \<open>Byte order: \<open>civan/endian.h\<close>\<close>

text \<open>
  \<open>endian.h\<close> swaps the bytes of 16, 32 and 64 bit integers and, from the byte
  order of the build host (\<open>CIVAN_BYTE_ORDER\<close>), derives
  \<open>byteswapOnLittleEndian\<close> and \<open>byteswapOnBigEndian\<close>. The host order is a
  parameter of the model, the object representation of an integer (what
  \<open>write(&value, sizeof(value))\<close> copies) is \<open>mem_bytes\<close>. The round trips show
  that swapping twice is the identity and that the swap turns the representation
  around.
\<close>

unbundle bit_operations_syntax

datatype endian = CIVAN_LITTLE_ENDIAN | CIVAN_BIG_ENDIAN

subsection \<open>Object representation\<close>

definition bytes_le :: "'a::len word \<Rightarrow> u8 list" where
  "bytes_le w = map (\<lambda>i. ucast (drop_bit (8 * i) w)) [0..<LENGTH('a) div 8]"

fun word_of_le :: "u8 list \<Rightarrow> 'a::len word" where
  "word_of_le [] = 0"
| "word_of_le (b # bs) = ucast b OR push_bit 8 (word_of_le bs)"

definition mem_bytes :: "endian \<Rightarrow> 'a::len word \<Rightarrow> u8 list" where
  "mem_bytes host w = (case host of CIVAN_LITTLE_ENDIAN \<Rightarrow> bytes_le w
     | CIVAN_BIG_ENDIAN \<Rightarrow> rev (bytes_le w))"

definition mem_word :: "endian \<Rightarrow> u8 list \<Rightarrow> 'a::len word" where
  "mem_word host bs = (case host of CIVAN_LITTLE_ENDIAN \<Rightarrow> word_of_le bs
     | CIVAN_BIG_ENDIAN \<Rightarrow> word_of_le (rev bs))"

subsection \<open>The swaps of \<open>endian.h\<close>\<close>

definition byteswap :: "'a::len word \<Rightarrow> 'a word" where
  "byteswap w = word_of_le (rev (bytes_le w))"

definition byteswapOnLittleEndian :: "endian \<Rightarrow> 'a::len word \<Rightarrow> 'a word" where
  "byteswapOnLittleEndian host t =
     (if host = CIVAN_BIG_ENDIAN then t else byteswap t)"

definition byteswapOnBigEndian :: "endian \<Rightarrow> 'a::len word \<Rightarrow> 'a word" where
  "byteswapOnBigEndian host t =
     (if host = CIVAN_BIG_ENDIAN then byteswap t else t)"

subsection \<open>Round trips\<close>

lemma length_bytes_le [simp]: "length (bytes_le (w :: 'a::len word)) = LENGTH('a) div 8"
  by (simp add: bytes_le_def)

lemma length_mem_bytes [simp]: "length (mem_bytes h (w :: 'a::len word)) = LENGTH('a) div 8"
  by (simp add: mem_bytes_def split: endian.split)

lemma bit_word_of_le:
  "bit (word_of_le bs :: 'a::len word) k \<longleftrightarrow>
     k < LENGTH('a) \<and> k div 8 < length bs \<and> bit (bs ! (k div 8)) (k mod 8)"
proof (induction bs arbitrary: k)
  case Nil
  show ?case by simp
next
  case (Cons b bs)
  show ?case
  proof (cases "k < 8")
    case True
    then show ?thesis by (auto simp: bit_simps)
  next
    case False
    then have "k div 8 = Suc ((k - 8) div 8)" "k mod 8 = (k - 8) mod 8"
      by (simp_all add: le_div_geq le_mod_geq)
    with False Cons.IH [of "k - 8"] show ?thesis
      by (auto simp: bit_simps dest: bit_imp_le_length)
  qed
qed

lemma nth_bytes_le:
  "i < LENGTH('a) div 8 \<Longrightarrow> bytes_le (w :: 'a::len word) ! i = ucast (drop_bit (8 * i) w)"
  by (simp add: bytes_le_def)

lemma word_of_le_bytes_le:
  assumes "8 dvd LENGTH('a)"
  shows "word_of_le (bytes_le (w :: 'a::len word)) = w"
proof (rule bit_word_eqI)
  fix k assume k: "k < LENGTH('a)"
  with assms have "k div 8 < LENGTH('a) div 8" by (simp add: less_mult_imp_div_less)
  with k show "bit (word_of_le (bytes_le w) :: 'a word) k = bit w k"
    by (simp add: bit_word_of_le nth_bytes_le bit_simps)
qed

lemma bytes_le_word_of_le:
  assumes "8 dvd LENGTH('a)" and "length bs = LENGTH('a) div 8"
  shows "bytes_le (word_of_le bs :: 'a::len word) = bs"
proof (rule nth_equalityI)
  show "length (bytes_le (word_of_le bs :: 'a word)) = length bs" using assms by simp
next
  fix i assume "i < length (bytes_le (word_of_le bs :: 'a word))"
  then have i: "i < LENGTH('a) div 8" by simp
  show "bytes_le (word_of_le bs :: 'a word) ! i = bs ! i"
  proof (rule bit_word_eqI)
    fix k assume k: "k < LENGTH(8)"
    then have "8 * i + k < LENGTH('a)" using i by simp
    moreover have "(8 * i + k) div 8 = i" "(8 * i + k) mod 8 = k" using k by simp_all
    ultimately show "bit (bytes_le (word_of_le bs :: 'a word) ! i) k = bit (bs ! i) k"
      using i k assms(2) by (simp add: nth_bytes_le bit_simps bit_word_of_le)
  qed
qed

lemma byteswap_byteswap:
  "8 dvd LENGTH('a) \<Longrightarrow> byteswap (byteswap w) = (w :: 'a::len word)"
  by (simp add: byteswap_def bytes_le_word_of_le word_of_le_bytes_le)

lemma bytes_le_byteswap:
  "8 dvd LENGTH('a) \<Longrightarrow> bytes_le (byteswap (w :: 'a::len word)) = rev (bytes_le w)"
  by (simp add: byteswap_def bytes_le_word_of_le)

lemma mem_word_mem_bytes:
  "8 dvd LENGTH('a) \<Longrightarrow> mem_word h (mem_bytes h w) = (w :: 'a::len word)"
  by (simp add: mem_word_def mem_bytes_def word_of_le_bytes_le split: endian.split)

lemma mem_bytes_byteswap:
  assumes "8 dvd LENGTH('a)" and "h \<noteq> e"
  shows "mem_bytes h (byteswap (w :: 'a::len word)) = mem_bytes e w"
  using assms by (cases h; cases e) (simp_all add: mem_bytes_def bytes_le_byteswap)

lemma byteswapOnLittleEndian_involution:
  "8 dvd LENGTH('a) \<Longrightarrow>
   byteswapOnLittleEndian h (byteswapOnLittleEndian h w) = (w :: 'a::len word)"
  by (simp add: byteswapOnLittleEndian_def byteswap_byteswap)

end
