(* ===== verification/Civan_Byte_Specs.thy ===== *)
theory Civan_Byte_Specs
  imports Civan_Prelude
begin

section \<open>Interfaces of byte sinks and byte sources\<close>

text \<open>
  What the clients of a byte buffer rely on. A sink appends what it is given; a
  source hands out what is left, in order, and reports a request that is too long.
  The lemmas of the two locales are proved once for any sequence of operations; the
  chained buffer of \<open>civan/bytearray.cc\<close> is the instance (theory
  \<open>Civan_ByteArray_IO\<close>), and the codec, the logger and the stream layer are clients.
\<close>

fun put_all :: "('b \<Rightarrow> 'c list \<Rightarrow> 'b res) \<Rightarrow> 'b \<Rightarrow> 'c list list \<Rightarrow> 'b res" where
  "put_all put b [] = Inr b"
| "put_all put b (d # ds) = rbind (put b d) (\<lambda>b'. put_all put b' ds)"

fun get_all :: "('b \<Rightarrow> nat \<Rightarrow> ('c list \<times> 'b) res) \<Rightarrow> 'b \<Rightarrow> nat list \<Rightarrow> ('c list list \<times> 'b) res" where
  "get_all get b [] = Inr ([], b)"
| "get_all get b (n # ns) = rbind (get b n) (\<lambda>(d, b').
     rbind (get_all get b' ns) (\<lambda>(ds, b''). Inr (d # ds, b'')))"

locale byte_sink =
  fixes put :: "'b \<Rightarrow> 'c list \<Rightarrow> 'b res"
    and out :: "'b \<Rightarrow> 'c list"
    and sink_inv :: "'b \<Rightarrow> bool"
  assumes put_ok: "sink_inv b \<Longrightarrow> \<exists>b'. put b d = Inr b' \<and> sink_inv b' \<and> out b' = out b @ d"
begin

lemma put_all_ok:
  "sink_inv b \<Longrightarrow> \<exists>b'. put_all put b ds = Inr b' \<and> sink_inv b' \<and> out b' = out b @ concat ds"
proof (induction ds arbitrary: b)
  case Nil
  then show ?case by simp
next
  case (Cons d ds)
  then show ?case using put_ok [of b d] by fastforce
qed

lemma put_all_append:
  "put_all put b (ds @ es) = rbind (put_all put b ds) (\<lambda>b'. put_all put b' es)"
  by (induction ds arbitrary: b) (simp_all add: rbind_assoc)

end

locale byte_source =
  fixes get :: "'b \<Rightarrow> nat \<Rightarrow> ('c list \<times> 'b) res"
    and left :: "'b \<Rightarrow> 'c list"
    and source_inv :: "'b \<Rightarrow> bool"
  assumes get_ok: "source_inv b \<Longrightarrow> 0 < n \<Longrightarrow> n \<le> length (left b) \<Longrightarrow>
      \<exists>b'. get b n = Inr (take n (left b), b') \<and> source_inv b' \<and> left b' = drop n (left b)"
    and get_short: "source_inv b \<Longrightarrow> length (left b) < n \<Longrightarrow> get b n = Inl OutOfRange"
begin

lemma get_prefix:
  assumes "source_inv b" "left b = d @ r" "d \<noteq> []"
  shows "\<exists>b'. get b (length d) = Inr (d, b') \<and> source_inv b' \<and> left b' = r"
  using get_ok [OF assms(1), of "length d"] assms by auto

lemma get_all_frames:
  "source_inv b \<Longrightarrow> left b = concat ds @ r \<Longrightarrow> [] \<notin> set ds \<Longrightarrow>
     \<exists>b'. get_all get b (map length ds) = Inr (ds, b') \<and> source_inv b' \<and> left b' = r"
proof (induction ds arbitrary: b)
  case Nil
  then show ?case by simp
next
  case (Cons d ds)
  then obtain b1 where "get b (length d) = Inr (d, b1)" "source_inv b1" "left b1 = concat ds @ r"
    using get_prefix [of b d "concat ds @ r"] by auto
  with Cons show ?case by fastforce
qed

end

end
