(* ===== verification/Civan_ByteArray.thy ===== *)
theory Civan_ByteArray
  imports Civan_Endian Civan_Byte_Specs
begin

section \<open>The chained byte buffer: \<open>civan/bytearray.cc\<close>\<close>

text \<open>
  A \<open>ByteArray\<close> is a singly linked chain of nodes of \<open>m_baseSize\<close> bytes, a position
  \<open>m_position\<close>, the number of valid bytes \<open>m_size\<close>, and a pointer \<open>m_cur\<close> to the
  node of the position. The model keeps the chain from \<open>m_root\<close> as a list of
  buffers; a node pointer is an index into that list and the null pointer is
  \<open>None\<close>. A cell is \<open>None\<close> until it is written (\<open>new char[s]\<close> leaves the memory
  indeterminate). Sizes are \<open>nat\<close>: sums are bounded by the memory allocated, and
  the differences that can go below zero wrap (\<open>sz_sub\<close>).

  This theory holds the node chain, \<open>write\<close>, both \<open>read\<close>s, \<open>setPosition\<close>,
  \<open>clear\<close>, \<open>addCapacity\<close> and \<open>toString\<close>, with the invariant
  \<open>ba_wf\<close>, the two cursor conditions \<open>cur_wr\<close> and \<open>cur_rd\<close>, and the refinement of the chain to one flat array.
\<close>

type_synonym cell = "u8 option"

record bytearray =
  m_baseSize :: nat
  m_position :: nat
  m_capacity :: nat
  m_size :: nat
  m_endian :: endian
  m_nodes :: "cell list list"
  m_cur :: "nat option"

subsection \<open>Nodes\<close>

definition new_Node :: "nat \<Rightarrow> cell list" where
  "new_Node s = replicate s None"

definition next_of :: "'a list \<Rightarrow> nat \<Rightarrow> nat option" where
  "next_of ns i = (if Suc i < length ns then Some (Suc i) else None)"

fun deref :: "'a list \<Rightarrow> nat option \<Rightarrow> nat res" where
  "deref ns None = Inl BadPointer"
| "deref ns (Some i) = (if i < length ns then Inr i else Inl BadPointer)"

text \<open>\<open>memcpy\<close> into and out of the buffer of one node.\<close>

definition poke :: "'a list list \<Rightarrow> nat \<Rightarrow> nat \<Rightarrow> 'a list \<Rightarrow> 'a list list res" where
  "poke ns i pos d =
     (if i < length ns \<and> pos + length d \<le> length (ns ! i)
      then Inr (ns[i := overwrite (ns ! i) pos d]) else Inl BadPointer)"

definition peek :: "'a list list \<Rightarrow> nat \<Rightarrow> nat \<Rightarrow> nat \<Rightarrow> 'a list res" where
  "peek ns i pos k =
     (if i < length ns \<and> pos + k \<le> length (ns ! i)
      then Inr (take k (drop pos (ns ! i))) else Inl BadPointer)"

subsection \<open>Construction, capacity, position\<close>

definition new_ByteArray :: "nat \<Rightarrow> bytearray" where
  "new_ByteArray base_size =
     \<lparr>m_baseSize = base_size, m_position = 0, m_capacity = base_size, m_size = 0,
      m_endian = CIVAN_BIG_ENDIAN, m_nodes = [new_Node base_size], m_cur = Some 0\<rparr>"

definition isLittleEndian :: "bytearray \<Rightarrow> bool" where
  "isLittleEndian ba = (m_endian ba = CIVAN_LITTLE_ENDIAN)"

definition setIsLittleEndian :: "bytearray \<Rightarrow> bool \<Rightarrow> bytearray" where
  "setIsLittleEndian ba val =
     (if val then ba\<lparr>m_endian := CIVAN_LITTLE_ENDIAN\<rparr> else ba\<lparr>m_endian := CIVAN_BIG_ENDIAN\<rparr>)"

definition getCapacity :: "bytearray \<Rightarrow> nat" where
  "getCapacity ba = sz_sub (m_capacity ba) (m_position ba)"

definition getReadSize :: "bytearray \<Rightarrow> nat" where
  "getReadSize ba = sz_sub (m_size ba) (m_position ba)"

definition getSize :: "bytearray \<Rightarrow> nat" where
  "getSize ba = m_position ba"

text \<open>
  \<open>addCapacity\<close> walks from \<open>m_cur\<close> to the end of the chain (a null \<open>m_cur\<close> is
  dereferenced) and appends \<open>ceil (size / m_baseSize)\<close> nodes; the conversion of the
  quotient by a zero \<open>m_baseSize\<close> to \<open>size_t\<close> is undefined.
\<close>

definition addCapacity :: "bytearray \<Rightarrow> nat \<Rightarrow> bytearray res" where
  "addCapacity ba sz =
     (if sz = 0 then Inr ba
      else let old_cap = getCapacity ba in
        if old_cap \<ge> sz then Inr ba
        else if m_baseSize ba = 0 then Inl DivByZero
        else let count = ceil_div (sz - old_cap) (m_baseSize ba) in
          rbind (deref (m_nodes ba) (m_cur ba)) (\<lambda>_.
            let ba' = ba\<lparr>m_nodes := m_nodes ba @ replicate count (new_Node (m_baseSize ba)),
                         m_capacity := m_capacity ba + count * m_baseSize ba\<rparr> in
            Inr (if old_cap = 0 then ba'\<lparr>m_cur := Some (length (m_nodes ba))\<rparr> else ba')))"

text \<open>\<open>setPosition\<close> walks the chain from \<open>m_root\<close>.\<close>

function seek_loop :: "'a list list \<Rightarrow> nat \<Rightarrow> nat \<Rightarrow> (nat \<times> nat) res" where
  "seek_loop ns i v =
     (if i < length ns
      then if v > length (ns ! i) then seek_loop ns (Suc i) (v - length (ns ! i)) else Inr (i, v)
      else Inl BadPointer)"
  by pat_completeness auto
termination
  by (relation "measure (\<lambda>(ns, i, v). length ns - i)") auto

declare seek_loop.simps [simp del]

definition setPosition :: "bytearray \<Rightarrow> nat \<Rightarrow> bytearray res" where
  "setPosition ba v =
     (if m_capacity ba < v then Inl OutOfRange
      else let ba' = ba\<lparr>m_position := v, m_size := (if v > m_size ba then v else m_size ba)\<rparr> in
        rbind (seek_loop (m_nodes ba) 0 v) (\<lambda>(i, r).
          Inr (ba'\<lparr>m_cur := (if r = length (m_nodes ba ! i) then next_of (m_nodes ba) i
                            else Some i)\<rparr>)))"

definition ba_clear :: "bytearray \<Rightarrow> bytearray res" where
  "ba_clear ba = (case m_nodes ba of [] \<Rightarrow> Inl BadPointer
     | root # _ \<Rightarrow> Inr (ba\<lparr>m_size := 0, m_capacity := length root, m_position := 0,
                        m_cur := Some 0, m_nodes := [root]\<rparr>))"

subsection \<open>Writing\<close>

lemma length_poke: "poke ns i pos d = Inr ns' \<Longrightarrow> length ns' = length ns"
  by (auto simp: poke_def split: if_splits)

function write_loop :: "'a list list \<Rightarrow> nat \<Rightarrow> nat \<Rightarrow> nat \<Rightarrow> 'a list \<Rightarrow> ('a list list \<times> nat) res"
where
  "write_loop ns i pos ncap src =
     (if src = [] then Inr (ns, i)
      else if length src \<le> ncap then rbind (poke ns i pos src) (\<lambda>ns'. Inr (ns', i))
      else rbind (poke ns i pos (take ncap src)) (\<lambda>ns'.
        if Suc i < length ns'
        then write_loop ns' (Suc i) 0 (length (ns' ! Suc i)) (drop ncap src)
        else Inl BadPointer))"
  by pat_completeness auto
termination
  by (relation "measure (\<lambda>(ns, i, pos, ncap, src). length ns - i)") (auto dest: length_poke)

declare write_loop.simps [simp del]

definition ba_write :: "bytearray \<Rightarrow> cell list \<Rightarrow> bytearray res" where
  "ba_write ba buf =
     (if buf = [] then Inr ba
      else rbind (addCapacity ba (length buf)) (\<lambda>ba1.
        if m_baseSize ba1 = 0 then Inl DivByZero
        else let pos = m_position ba1 mod m_baseSize ba1 in
          rbind (deref (m_nodes ba1) (m_cur ba1)) (\<lambda>i.
          rbind (write_loop (m_nodes ba1) i pos (sz_sub (length (m_nodes ba1 ! i)) pos) buf)
            (\<lambda>(ns, i'). let p = m_position ba1 + length buf in
              Inr (ba1\<lparr>m_nodes := ns, m_cur := Some i', m_position := p,
                       m_size := max p (m_size ba1)\<rparr>)))))"

subsection \<open>Reading\<close>

function read_loop :: "'a list list \<Rightarrow> nat \<Rightarrow> nat \<Rightarrow> nat \<Rightarrow> nat \<Rightarrow> ('a list \<times> nat option) res"
where
  "read_loop ns i npos ncap sz =
     (if sz = 0 then Inr ([], Some i)
      else if ncap \<ge> sz then rbind (peek ns i npos sz) (\<lambda>d.
        Inr (d, if length (ns ! i) = npos + sz then next_of ns i else Some i))
      else rbind (peek ns i npos ncap) (\<lambda>d.
        if Suc i < length ns
        then rbind (read_loop ns (Suc i) 0 (length (ns ! Suc i)) (sz - ncap))
               (\<lambda>(d', c). Inr (d @ d', c))
        else Inl BadPointer))"
  by pat_completeness auto
termination
  by (relation "measure (\<lambda>(ns, i, npos, ncap, sz). length ns - i)") auto

declare read_loop.simps [simp del]

text \<open>\<open>read(buf, size)\<close>: throws when fewer bytes are left, and moves the cursor.\<close>

definition ba_read :: "bytearray \<Rightarrow> nat \<Rightarrow> (cell list \<times> bytearray) res" where
  "ba_read ba sz =
     (if sz > getReadSize ba then Inl OutOfRange
      else if m_baseSize ba = 0 then Inl DivByZero
      else let npos = m_position ba mod m_baseSize ba in
        rbind (deref (m_nodes ba) (m_cur ba)) (\<lambda>i.
        rbind (read_loop (m_nodes ba) i npos (sz_sub (length (m_nodes ba ! i)) npos) sz)
          (\<lambda>(d, c). Inr (d, ba\<lparr>m_position := m_position ba + sz, m_cur := c\<rparr>))))"

text \<open>\<open>read(buf, size, position) const\<close>: starts at the node \<open>m_cur\<close> whatever \<open>position\<close> is.\<close>

definition ba_read_at :: "bytearray \<Rightarrow> nat \<Rightarrow> nat \<Rightarrow> cell list res" where
  "ba_read_at ba sz position =
     (if sz > sz_sub (m_size ba) position then Inl OutOfRange
      else if m_baseSize ba = 0 then Inl DivByZero
      else let npos = position mod m_baseSize ba in
        rbind (deref (m_nodes ba) (m_cur ba)) (\<lambda>i.
        rbind (read_loop (m_nodes ba) i npos (sz_sub (length (m_nodes ba ! i)) npos) sz)
          (\<lambda>(d, c). Inr d)))"

definition toString :: "bytearray \<Rightarrow> cell list res" where
  "toString ba = (if getReadSize ba = 0 then Inr []
                  else ba_read_at ba (getReadSize ba) (m_position ba))"

subsection \<open>The loops on a uniform chain\<close>

lemma block_at_less: "0 < b \<Longrightarrow> p < length ns * b \<Longrightarrow> block_at ns b p = Some (p div b)"
  by (simp add: block_at_def less_mult_imp_div_less)

lemma block_at_end: "0 < b \<Longrightarrow> block_at ns b (length ns * b) = None"
  by (simp add: block_at_def)

lemma block_index_less:
  "i * b + p < n * b \<Longrightarrow> i < (n :: nat)"
  by (metis add_leD1 mult_less_cancel2 not_le less_le_trans le_add1 le_less_trans)

lemma seek_loop_uniform:
  assumes "uniform b ns" "0 < b" "i < length ns" "v \<le> (length ns - i) * b"
  shows "\<exists>j r. seek_loop ns i v = Inr (j, r) \<and> i \<le> j \<and> j < length ns \<and> r \<le> b \<and>
           j * b + r = i * b + v \<and> (0 < v \<longrightarrow> 0 < r)"
  using assms
proof (induction ns i v rule: seek_loop.induct)
  case (1 ns i v)
  show ?case
  proof (cases "v > b")
    case False
    with "1.prems" show ?thesis by (simp add: seek_loop.simps [of ns i v])
  next
    case True
    with "1.prems" have i: "Suc i < length ns"
      by (cases "length ns - i = 1") auto
    have "v - b \<le> (length ns - Suc i) * b"
      using "1.prems"(4) i by (simp add: diff_mult_distrib)
    with "1.IH" "1.prems" True i obtain j r where
      "seek_loop ns (Suc i) (v - b) = Inr (j, r)" "Suc i \<le> j" "j < length ns" "r \<le> b"
      "j * b + r = Suc i * b + (v - b)" "0 < r"
      by auto
    with "1.prems" True i show ?thesis by (auto simp: seek_loop.simps [of ns i v])
  qed
qed

lemma read_loop_flat:
  assumes "uniform b ns" "0 < b" "i < length ns" "npos < b" "ncap = b - npos"
    "i * b + npos + sz \<le> length ns * b" "0 < sz"
  shows "read_loop ns i npos ncap sz =
    Inr (take sz (drop (i * b + npos) (concat ns)), block_at ns b (i * b + npos + sz))"
  using assms
proof (induction ns i npos ncap sz rule: read_loop.induct)
  case (1 ns i npos ncap sz)
  note u = "1.prems"(1) and b = "1.prems"(2) and i = "1.prems"(3) and np = "1.prems"(4,5)
  show ?case
  proof (cases "sz \<le> ncap")
    case True
    have "block_at ns b (i * b + npos + sz) = (if b = npos + sz then next_of ns i else Some i)"
    proof (cases "b = npos + sz")
      case True
      then have "i * b + npos + sz = Suc i * b" by simp
      with b True show ?thesis by (simp only: block_at_def next_of_def) (simp del: mult_Suc)
    next
      case False
      with np \<open>sz \<le> ncap\<close> have "(i * b + npos + sz) div b = i" by (simp add: add.assoc)
      with False i show ?thesis by (simp add: block_at_def)
    qed
    moreover have "peek ns i npos sz = Inr (take sz (drop (i * b + npos) (concat ns)))"
      using True np i u by (simp add: peek_def window_concat_uniform [OF u i])
    ultimately show ?thesis
      using True "1.prems"(7) i u by (subst read_loop.simps) auto
  next
    case False
    have "i * b + b < length ns * b" using False np "1.prems"(6) by linarith
    then have si: "Suc i < length ns"
      by (metis add.commute mult_Suc mult_less_cancel2)
    have d: "peek ns i npos ncap = Inr (take ncap (drop (i * b + npos) (concat ns)))"
      using np i u window_concat_uniform [OF u i, of npos ncap] by (simp add: peek_def)
    have e1: "i * b + npos + ncap = Suc i * b" using np by simp
    have "read_loop ns (Suc i) 0 (length (ns ! Suc i)) (sz - ncap) =
      Inr (take (sz - ncap) (drop (Suc i * b + 0) (concat ns)), block_at ns b (Suc i * b + 0 + (sz - ncap)))"
      by (rule "1.IH" [OF _ _ d si u b si b]) (use False "1.prems" si e1 in auto)
    moreover have "Suc i * b + 0 + (sz - ncap) = i * b + npos + sz" using e1 False by linarith
    moreover have "take sz (drop (i * b + npos) (concat ns)) =
      take ncap (drop (i * b + npos) (concat ns)) @ take (sz - ncap) (drop (Suc i * b) (concat ns))"
      using False take_add [of ncap "sz - ncap" "drop (i * b + npos) (concat ns)"]
      by (simp only: e1 [symmetric]) (simp add: ac_simps)
    ultimately show ?thesis
      using False d si "1.prems"(7) by (simp add: read_loop.simps [of ns i npos ncap sz])
  qed
qed

lemma write_loop_flat:
  assumes "uniform b ns" "0 < b" "i < length ns" "pos < b" "ncap = b - pos"
    "i * b + pos + length src \<le> length ns * b" "src \<noteq> []"
  shows "\<exists>ns'. write_loop ns i pos ncap src = Inr (ns', (i * b + pos + length src - 1) div b) \<and>
    uniform b ns' \<and> length ns' = length ns \<and> concat ns' = overwrite (concat ns) (i * b + pos) src"
  using assms
proof (induction ns i pos ncap src rule: write_loop.induct)
  case (1 ns i pos ncap src)
  note u = "1.prems"(1) and b = "1.prems"(2) and i = "1.prems"(3) and np = "1.prems"(4,5)
  show ?case
  proof (cases "length src \<le> ncap")
    case True
    have "(i * b + pos + length src - 1) div b = i"
    proof -
      have "i * b + pos + length src - 1 = i * b + (pos + length src - 1)"
        using "1.prems"(7) by (cases src) simp_all
      moreover have "pos + length src - 1 < b" using np b True by linarith
      ultimately show ?thesis by simp
    qed
    moreover have "poke ns i pos src = Inr (ns[i := overwrite (ns ! i) pos src])"
      using True np i u by (simp add: poke_def)
    moreover have "concat (ns[i := overwrite (ns ! i) pos src]) = overwrite (concat ns) (i * b + pos) src"
      using True np by (intro concat_update_overwrite [OF u i]) simp
    moreover have "uniform b (ns[i := overwrite (ns ! i) pos src])"
      using True np i u by (simp add: uniform_update)
    ultimately show ?thesis
      using True "1.prems"(7) by (subst write_loop.simps) simp
  next
    case False
    let ?d = "take ncap src"
    have "i * b + b < length ns * b" using False np "1.prems"(6) by linarith
    then have si: "Suc i < length ns"
      by (metis add.commute mult_Suc mult_less_cancel2)
    define ns1 where "ns1 = ns[i := overwrite (ns ! i) pos ?d]"
    have ld: "length ?d = ncap" using False by simp
    have p: "poke ns i pos ?d = Inr ns1"
      using np i u ld by (simp add: poke_def ns1_def)
    have u1: "uniform b ns1" and l1: "length ns1 = length ns"
      using u i np ld by (simp_all add: ns1_def uniform_update)
    have c1: "concat ns1 = overwrite (concat ns) (i * b + pos) ?d"
      unfolding ns1_def using np ld by (intro concat_update_overwrite [OF u i]) simp
    have e1: "i * b + pos + ncap = Suc i * b" using np by simp
    obtain ns' where ns': "write_loop ns1 (Suc i) 0 (length (ns1 ! Suc i)) (drop ncap src) =
        Inr (ns', (Suc i * b + 0 + length (drop ncap src) - 1) div b)"
      "uniform b ns'" "length ns' = length ns1"
      "concat ns' = overwrite (concat ns1) (Suc i * b + 0) (drop ncap src)"
      using "1.IH" [OF _ _ p] "1.prems" False si l1 u1 e1 by auto
    have "Suc i * b + 0 + length (drop ncap src) = i * b + pos + length src"
      using e1 False by simp
    moreover have "concat ns' = overwrite (concat ns) (i * b + pos) src"
    proof -
      have "i * b + pos + length ?d \<le> length (concat ns)"
        using "1.prems"(6) ld False u by (simp add: length_concat_uniform)
      from overwrite_overwrite [OF this, of "drop ncap src"] show ?thesis
        using ns'(4) unfolding c1 ld e1 by simp
    qed
    ultimately show ?thesis
      using False p si l1 ns' "1.prems"(7) by (simp add: write_loop.simps [of ns i pos ncap src])
  qed
qed

subsection \<open>Invariant and cursor conditions\<close>

text \<open>
  \<open>ba_wf\<close> is kept by every operation. The pointer \<open>m_cur\<close> has two lives: after
  \<open>setPosition\<close> and \<open>read\<close> it is the block of the position, null at the end of the
  chain (\<open>cur_rd\<close>); \<open>write\<close> leaves it on the block it wrote last, so at the end of
  the chain it is the last block (\<open>cur_wr\<close>), which is what \<open>addCapacity\<close> needs. The
  two agree below the capacity.
\<close>

definition flat :: "bytearray \<Rightarrow> cell list" where
  "flat ba = concat (m_nodes ba)"

definition ba_wf :: "bytearray \<Rightarrow> bool" where
  "ba_wf ba \<longleftrightarrow> 0 < m_baseSize ba \<and> m_nodes ba \<noteq> [] \<and> uniform (m_baseSize ba) (m_nodes ba) \<and>
     m_capacity ba = length (m_nodes ba) * m_baseSize ba \<and>
     m_position ba \<le> m_size ba \<and> m_size ba \<le> m_capacity ba"

definition cur_rd :: "bytearray \<Rightarrow> bool" where
  "cur_rd ba \<longleftrightarrow> m_cur ba = block_at (m_nodes ba) (m_baseSize ba) (m_position ba)"

definition cur_wr :: "bytearray \<Rightarrow> bool" where
  "cur_wr ba \<longleftrightarrow> m_cur ba = (if m_position ba < m_capacity ba
     then Some (m_position ba div m_baseSize ba) else Some (length (m_nodes ba) - 1))"

definition content :: "bytearray \<Rightarrow> cell list" where
  "content ba = take (m_size ba) (flat ba)"

definition rest :: "bytearray \<Rightarrow> cell list" where
  "rest ba = drop (m_position ba) (content ba)"

lemma ba_wfD:
  assumes "ba_wf ba"
  shows "0 < m_baseSize ba" "m_nodes ba \<noteq> []" "uniform (m_baseSize ba) (m_nodes ba)"
    "m_capacity ba = length (m_nodes ba) * m_baseSize ba"
    "m_position ba \<le> m_size ba" "m_size ba \<le> m_capacity ba"
  using assms by (simp_all add: ba_wf_def)

lemma length_flat [simp]: "ba_wf ba \<Longrightarrow> length (flat ba) = m_capacity ba"
  by (simp add: flat_def ba_wf_def length_concat_uniform)

lemma length_content [simp]: "ba_wf ba \<Longrightarrow> length (content ba) = m_size ba"
  using ba_wfD(6) [of ba] by (simp add: content_def)

lemma rest_flat:
  "rest ba = take (m_size ba - m_position ba) (drop (m_position ba) (flat ba))"
  by (simp add: rest_def content_def drop_take)

lemma length_rest [simp]: "ba_wf ba \<Longrightarrow> length (rest ba) = m_size ba - m_position ba"
  by (simp add: rest_def)

lemma getReadSize_wf [simp]: "ba_wf ba \<Longrightarrow> getReadSize ba = length (rest ba)"
  by (simp add: getReadSize_def ba_wfD)

lemma getCapacity_wf [simp]: "ba_wf ba \<Longrightarrow> getCapacity ba = m_capacity ba - m_position ba"
  unfolding getCapacity_def by (rule sz_sub_le) (use ba_wfD [of ba] in linarith)

lemma cur_rd_below:
  "ba_wf ba \<Longrightarrow> m_position ba < m_capacity ba \<Longrightarrow> cur_rd ba \<longleftrightarrow> cur_wr ba"
  by (simp add: cur_rd_def cur_wr_def ba_wfD block_at_less)

lemma position_split:
  "ba_wf ba \<Longrightarrow> m_position ba div m_baseSize ba * m_baseSize ba + m_position ba mod m_baseSize ba
     = m_position ba"
  by simp

lemma new_ByteArray_wf: "0 < b \<Longrightarrow> ba_wf (new_ByteArray b) \<and> cur_wr (new_ByteArray b)"
  by (simp add: new_ByteArray_def ba_wf_def cur_wr_def new_Node_def)

subsection \<open>Capacity\<close>

lemma addCapacity_wr:
  assumes wf: "ba_wf ba" and cur: "cur_wr ba"
  shows "\<exists>ba'. addCapacity ba n = Inr ba' \<and> ba_wf ba' \<and> cur_wr ba' \<and>
    m_position ba' = m_position ba \<and> m_size ba' = m_size ba \<and> m_baseSize ba' = m_baseSize ba \<and>
    m_endian ba' = m_endian ba \<and> take (m_capacity ba) (flat ba') = flat ba \<and>
    m_capacity ba \<le> m_capacity ba' \<and> m_position ba + n \<le> m_capacity ba' \<and>
    (m_capacity ba' = m_capacity ba \<or> m_capacity ba' < m_position ba + n + m_baseSize ba)"
proof (cases "n = 0 \<or> n \<le> getCapacity ba")
  case True
  then show ?thesis using wf cur ba_wfD [OF wf] by (auto simp: addCapacity_def)
next
  case False
  let ?b = "m_baseSize ba" and ?old = "m_capacity ba - m_position ba"
  let ?k = "ceil_div (n - ?old) ?b"
  note w = ba_wfD [OF wf]
  have old: "?old < n" using False wf by simp
  have pc: "m_position ba \<le> m_capacity ba" using w by linarith
  have k: "n - ?old \<le> ?k * ?b" "?k * ?b < n - ?old + ?b"
    using ceil_div_mult_ge [OF w(1), of "n - ?old"] ceil_div_mult_less [OF w(1), of "n - ?old"] old
    by linarith+
  have d: "\<exists>i. deref (m_nodes ba) (m_cur ba) = Inr i"
    using cur w by (auto simp: cur_wr_def less_mult_imp_div_less)
  define ba1 where "ba1 = ba\<lparr>m_nodes := m_nodes ba @ replicate ?k (new_Node ?b),
    m_capacity := m_capacity ba + ?k * ?b\<rparr>"
  define ba' where "ba' = (if ?old = 0 then ba1\<lparr>m_cur := Some (length (m_nodes ba))\<rparr> else ba1)"
  have "addCapacity ba n = Inr ba'"
    using d False w(1) wf by (auto simp: addCapacity_def ba'_def ba1_def Let_def)
  moreover have "ba_wf ba'"
    using w by (auto simp: ba_wf_def ba'_def ba1_def new_Node_def algebra_simps)
  moreover have "cur_wr ba'"
  proof (cases "?old = 0")
    case True
    then have "m_position ba = length (m_nodes ba) * ?b" using w pc by simp
    then show ?thesis using True k old w by (auto simp: cur_wr_def ba'_def ba1_def)
  next
    case False
    then show ?thesis using cur by (auto simp: cur_wr_def ba'_def ba1_def)
  qed
  moreover have "take (m_capacity ba) (flat ba') = flat ba"
    using length_flat [OF wf] by (simp add: flat_def ba'_def ba1_def)
  ultimately show ?thesis
    using k pc old by (auto simp: ba'_def ba1_def)
qed

text \<open>With a null \<open>m_cur\<close> the walk of \<open>addCapacity\<close> dereferences it.\<close>

lemma addCapacity_null:
  assumes "ba_wf ba" "m_cur ba = None" "m_capacity ba - m_position ba < n"
  shows "addCapacity ba n = Inl BadPointer"
  using assms ba_wfD [OF assms(1)] by (auto simp: addCapacity_def)

subsection \<open>Writing refines overwriting the flat array\<close>

lemma pred_div_eq_iff:
  "0 < b \<Longrightarrow> 0 < p \<Longrightarrow> (p - 1) div b = p div b \<longleftrightarrow> p mod b \<noteq> (0::nat)"
  by (cases p) (auto simp: div_Suc mod_Suc)

lemma write_nonempty:
  assumes wf: "ba_wf ba" and cur: "cur_wr ba" and ne: "buf \<noteq> []"
  shows "\<exists>ba'. ba_write ba buf = Inr ba' \<and> ba_wf ba' \<and>
    content ba' = overwrite (content ba) (m_position ba) buf \<and>
    m_position ba' = m_position ba + length buf \<and>
    m_size ba' = max (m_position ba + length buf) (m_size ba) \<and>
    m_baseSize ba' = m_baseSize ba \<and> m_endian ba' = m_endian ba \<and>
    m_cur ba' = Some ((m_position ba' - 1) div m_baseSize ba) \<and>
    (m_capacity ba' = m_capacity ba \<or> m_capacity ba' < m_position ba' + m_baseSize ba)"
proof -
  obtain ba1 where a: "addCapacity ba (length buf) = Inr ba1" and wf1: "ba_wf ba1"
    and cur1: "cur_wr ba1" and same: "m_position ba1 = m_position ba" "m_size ba1 = m_size ba"
      "m_baseSize ba1 = m_baseSize ba" "m_endian ba1 = m_endian ba"
    and fl: "take (m_capacity ba) (flat ba1) = flat ba"
    and cap: "m_capacity ba \<le> m_capacity ba1" "m_position ba + length buf \<le> m_capacity ba1"
    and cap': "m_capacity ba1 = m_capacity ba \<or>
      m_capacity ba1 < m_position ba + length buf + m_baseSize ba"
    using addCapacity_wr [OF wf cur, of "length buf"] by blast
  let ?b = "m_baseSize ba" and ?p = "m_position ba"
  let ?i = "?p div ?b" and ?pos = "?p mod ?b"
  note w = ba_wfD [OF wf] and w1 = ba_wfD [OF wf1]
  have lb: "0 < length buf" using ne by simp
  have pc: "?p < m_capacity ba1" using cap(2) lb by linarith
  have i: "?i < length (m_nodes ba1)"
    using pc w1(4) same by (simp add: less_mult_imp_div_less)
  have dr: "deref (m_nodes ba1) (m_cur ba1) = Inr ?i"
    using cur1 pc i same by (simp add: cur_wr_def)
  have sp: "?i * ?b + ?pos = ?p" by simp
  have li: "length (m_nodes ba1 ! ?i) = ?b" using i w1(3) same by simp
  have u1: "uniform ?b (m_nodes ba1)" and b1: "0 < ?b" and m: "?pos < ?b" using w1 same w(1) by simp_all
  have bnd: "?i * ?b + ?pos + length buf \<le> length (m_nodes ba1) * ?b"
    using cap(2) w1(4) same unfolding sp by simp
  obtain ns where ns: "write_loop (m_nodes ba1) ?i ?pos (?b - ?pos) buf =
      Inr (ns, (?i * ?b + ?pos + length buf - 1) div ?b)"
    "uniform ?b ns" "length ns = length (m_nodes ba1)"
    "concat ns = overwrite (concat (m_nodes ba1)) (?i * ?b + ?pos) buf"
    using write_loop_flat [OF u1 b1 i m refl bnd ne] by blast
  define ba' where "ba' = ba1\<lparr>m_nodes := ns, m_cur := Some ((?p + length buf - 1) div ?b),
    m_position := ?p + length buf, m_size := max (?p + length buf) (m_size ba)\<rparr>"
  have "sz_sub (length (m_nodes ba1 ! ?i)) ?pos = ?b - ?pos"
    using li m by simp
  then have "ba_write ba buf = Inr ba'"
    using ne a dr ns(1) same w(1) unfolding sp
    by (simp add: ba_write_def ba'_def Let_def)
  moreover have "ba_wf ba'"
    using w1 ns(2,3) cap(2) same by (auto simp: ba_wf_def ba'_def)
  moreover have "content ba' = overwrite (content ba) ?p buf"
  proof -
    have fa: "flat ba' = overwrite (flat ba1) ?p buf"
      using ns(4) unfolding sp by (simp add: flat_def ba'_def)
    have "content ba = take (m_size ba) (flat ba1)"
      using fl w(6) by (metis content_def min.absorb1 take_take)
    then show ?thesis
      using w(5) w1(6) cap(2) same length_flat [OF wf1]
        take_max_overwrite [of ?p "m_size ba" buf "flat ba1"]
      unfolding content_def fa by (simp add: ba'_def)
  qed
  ultimately show ?thesis
    using cap' by (auto simp: ba'_def same)
qed

lemma write_cursor:
  assumes "ba_wf ba'" "0 < m_position ba'"
    and "m_cur ba' = Some ((m_position ba' - 1) div m_baseSize ba')"
  shows "cur_wr ba' \<longleftrightarrow> m_position ba' mod m_baseSize ba' \<noteq> 0 \<or> m_position ba' = m_capacity ba'"
proof (cases "m_position ba' < m_capacity ba'")
  case True
  then show ?thesis
    using assms pred_div_eq_iff [OF ba_wfD(1) [OF assms(1)] assms(2)] by (simp add: cur_wr_def)
next
  case False
  then have p: "m_position ba' = length (m_nodes ba') * m_baseSize ba'"
    using ba_wfD [OF assms(1)] by linarith
  have "(length (m_nodes ba') * m_baseSize ba' - 1) div m_baseSize ba' = length (m_nodes ba') - 1"
  proof (cases "length (m_nodes ba')")
    case 0
    then show ?thesis using ba_wfD [OF assms(1)] by simp
  next
    case (Suc k)
    then show ?thesis
      using last_block_index [OF ba_wfD(1) [OF assms(1)], of k] by simp
  qed
  with False p assms(3) ba_wfD(4) [OF assms(1)] show ?thesis
    by (simp add: cur_wr_def)
qed

subsection \<open>Reading and positioning\<close>

lemma read_nonempty:
  assumes wf: "ba_wf ba" and cur: "cur_rd ba" and n: "0 < n" "n \<le> length (rest ba)"
  shows "\<exists>ba'. ba_read ba n = Inr (take n (rest ba), ba') \<and> ba_wf ba' \<and> cur_rd ba' \<and>
    rest ba' = drop n (rest ba) \<and> content ba' = content ba \<and>
    m_position ba' = m_position ba + n \<and> m_endian ba' = m_endian ba"
proof -
  let ?b = "m_baseSize ba" and ?p = "m_position ba"
  let ?i = "?p div ?b" and ?pos = "?p mod ?b"
  note w = ba_wfD [OF wf]
  have nb: "?p + n \<le> m_size ba" using n wf w(5) by simp
  then have pc: "?p < m_capacity ba" using n w(6) by linarith
  then have i: "?i < length (m_nodes ba)" using w(4) by (simp add: less_mult_imp_div_less)
  have sp: "?i * ?b + ?pos = ?p" by simp
  have dr: "deref (m_nodes ba) (m_cur ba) = Inr ?i"
    using cur i by (simp add: cur_rd_def block_at_def)
  have bnd: "?i * ?b + ?pos + n \<le> length (m_nodes ba) * ?b"
    using nb w(4,6) unfolding sp by linarith
  have m: "?pos < ?b" using w(1) by simp
  have rl: "read_loop (m_nodes ba) ?i ?pos (?b - ?pos) n =
      Inr (take n (drop ?p (flat ba)), block_at (m_nodes ba) ?b (?p + n))"
    using read_loop_flat [OF w(3) w(1) i m refl bnd n(1)] unfolding sp by (simp add: flat_def)
  have win: "take n (drop ?p (flat ba)) = take n (rest ba)"
    using nb by (simp add: rest_def content_def drop_take min_def)
  define ba' where "ba' = ba\<lparr>m_position := ?p + n, m_cur := block_at (m_nodes ba) ?b (?p + n)\<rparr>"
  have "sz_sub (length (m_nodes ba ! ?i)) ?pos = ?b - ?pos" using w(3) i m by simp
  then have "ba_read ba n = Inr (take n (rest ba), ba')"
    using dr rl w(1) n wf by (simp add: ba_read_def ba'_def Let_def win)
  moreover have "ba_wf ba'" using w nb by (simp add: ba_wf_def ba'_def)
  moreover have "cur_rd ba'" by (simp add: cur_rd_def ba'_def)
  moreover have "content ba' = content ba" by (simp add: content_def flat_def ba'_def)
  ultimately show ?thesis by (auto simp: rest_def ba'_def add.commute)
qed

lemma read_short: "ba_wf ba \<Longrightarrow> length (rest ba) < n \<Longrightarrow> ba_read ba n = Inl OutOfRange"
  by (simp add: ba_read_def)

text \<open>A read of zero bytes still looks at \<open>m_cur->size\<close>.\<close>

lemma read_zero:
  "ba_wf ba \<Longrightarrow> cur_rd ba \<Longrightarrow>
     ba_read ba 0 = (if m_position ba < m_capacity ba then Inr ([], ba) else Inl BadPointer)"
  by (simp add: ba_read_def cur_rd_def ba_wfD block_at_def read_loop.simps Let_def
      less_mult_imp_div_less div_less_iff_less_mult)

lemma setPosition_ok:
  assumes wf: "ba_wf ba" and v: "v \<le> m_capacity ba"
  shows "\<exists>ba'. setPosition ba v = Inr ba' \<and> ba_wf ba' \<and> cur_rd ba' \<and> m_position ba' = v \<and>
    m_size ba' = max v (m_size ba) \<and> flat ba' = flat ba \<and> m_capacity ba' = m_capacity ba \<and>
    m_baseSize ba' = m_baseSize ba \<and> m_endian ba' = m_endian ba"
proof -
  let ?b = "m_baseSize ba" and ?ns = "m_nodes ba"
  note w = ba_wfD [OF wf]
  obtain i r where s: "seek_loop ?ns 0 v = Inr (i, r)" and i: "i < length ?ns" and r: "r \<le> ?b"
    and e: "i * ?b + r = v"
    using seek_loop_uniform [OF w(3) w(1), of 0 v] w v by auto
  have c: "block_at ?ns ?b v = (if r = ?b then next_of ?ns i else Some i)"
  proof (cases "r = ?b")
    case True
    with e have "v = Suc i * ?b" by simp
    then have "v div ?b = Suc i" using w(1) by (simp del: mult_Suc)
    with True show ?thesis by (simp add: block_at_def next_of_def)
  next
    case False
    with e r have "v div ?b = i" by auto
    with False i show ?thesis by (simp add: block_at_def)
  qed
  have "setPosition ba v = Inr (ba\<lparr>m_position := v, m_size := (if v > m_size ba then v else m_size ba),
      m_cur := block_at ?ns ?b v\<rparr>)"
    using v s i w(3) c by (simp add: setPosition_def Let_def)
  then show ?thesis
    using w v by (auto simp: ba_wf_def cur_rd_def flat_def max_def)
qed

lemma setPosition_throws: "m_capacity ba < v \<Longrightarrow> setPosition ba v = Inl OutOfRange"
  by (simp add: setPosition_def)

lemma clear_ok:
  assumes "ba_wf ba"
  shows "\<exists>ba'. ba_clear ba = Inr ba' \<and> ba_wf ba' \<and> cur_wr ba' \<and> content ba' = [] \<and>
    m_position ba' = 0 \<and> m_size ba' = 0 \<and> m_capacity ba' = m_baseSize ba \<and>
    m_baseSize ba' = m_baseSize ba"
  using ba_wfD [OF assms]
  by (auto simp: ba_clear_def ba_wf_def cur_wr_def content_def split: list.split)

lemma toString_ok:
  assumes wf: "ba_wf ba" and cur: "cur_rd ba"
  shows "toString ba = Inr (rest ba)"
proof (cases "rest ba = []")
  case True
  with wf show ?thesis by (simp add: toString_def)
next
  case False
  then have ne: "0 < length (rest ba)" by simp
  from read_nonempty [OF wf cur this order.refl] wf
  have "rbind (ba_read ba (length (rest ba))) (\<lambda>(d, _). Inr d) = Inr (rest ba)" by auto
  moreover have "ba_read_at ba (length (rest ba)) (m_position ba)
      = rbind (ba_read ba (length (rest ba))) (\<lambda>(d, _). Inr d)"
    using wf getReadSize_wf [OF wf]
    by (simp add: ba_read_at_def ba_read_def Let_def rbind_assoc getReadSize_def split_def)
  ultimately show ?thesis using ne wf by (simp add: toString_def)
qed

subsection \<open>Appending from a fresh or cleared buffer\<close>

text \<open>
  A buffer that is only appended to (\<open>ba_tail\<close>) never has a whole free node beyond
  its position, so \<open>write\<close> never stops on a node boundary below the capacity and its
  cursor stays right.
\<close>

definition ba_tail :: "bytearray \<Rightarrow> bool" where
  "ba_tail ba \<longleftrightarrow> ba_wf ba \<and> cur_wr ba \<and> m_position ba = m_size ba \<and>
     (m_capacity ba = m_baseSize ba \<or> m_capacity ba < m_position ba + m_baseSize ba)"

lemma multiple_gap: "p mod b = 0 \<Longrightarrow> p \<le> k * b \<Longrightarrow> k * b < p + b \<Longrightarrow> p = k * (b::nat)"
  by (metis add.commute dvd_diff_nat dvd_imp_le dvd_triv_right le_add_diff_inverse
      less_diff_conv linorder_not_le mod_0_imp_dvd nat_less_le zero_less_diff)

lemma tail_new: "0 < b \<Longrightarrow> ba_tail (new_ByteArray b)"
  using new_ByteArray_wf [of b] by (simp add: ba_tail_def new_ByteArray_def)

lemma tail_write:
  assumes "ba_tail ba"
  shows "\<exists>ba'. ba_write ba buf = Inr ba' \<and> ba_tail ba' \<and> content ba' = content ba @ buf \<and>
    m_endian ba' = m_endian ba"
proof (cases "buf = []")
  case True
  with assms show ?thesis by (simp add: ba_write_def)
next
  case False
  have wf: "ba_wf ba" and cur: "cur_wr ba" and ps: "m_position ba = m_size ba"
    using assms by (simp_all add: ba_tail_def)
  obtain ba' where ba': "ba_write ba buf = Inr ba'" "ba_wf ba'"
    "content ba' = overwrite (content ba) (m_position ba) buf"
    "m_position ba' = m_position ba + length buf" "m_size ba' = max (m_position ba + length buf) (m_size ba)"
    "m_baseSize ba' = m_baseSize ba" "m_endian ba' = m_endian ba"
    "m_cur ba' = Some ((m_position ba' - 1) div m_baseSize ba)"
    "m_capacity ba' = m_capacity ba \<or> m_capacity ba' < m_position ba' + m_baseSize ba"
    using write_nonempty [OF wf cur False] by blast
  have w': "m_capacity ba' = length (m_nodes ba') * m_baseSize ba" "m_position ba' \<le> m_capacity ba'"
    using ba_wfD [OF ba'(2)] ba'(6) by auto
  have pos: "0 < m_position ba'" using False ba'(4) by simp
  have cap: "m_capacity ba' = m_baseSize ba \<or> m_capacity ba' < m_position ba' + m_baseSize ba"
    using ba'(4,9) assms by (auto simp: ba_tail_def)
  have "m_position ba' mod m_baseSize ba = 0 \<Longrightarrow> m_position ba' = m_capacity ba'"
    using cap w' pos multiple_gap [of "m_position ba'" "m_baseSize ba" "length (m_nodes ba')"] by auto
  then have "cur_wr ba'" using write_cursor [OF ba'(2) pos] ba'(6,8) by auto
  moreover have "content ba' = content ba @ buf"
    using ba'(3) ps length_content [OF wf] by (simp add: overwrite_def)
  ultimately show ?thesis using ba' ps cap by (auto simp: ba_tail_def)
qed

end
