(* ===== verification/Civan_ByteArray_IO.thy ===== *)
theory Civan_ByteArray_IO
  imports Civan_ByteArray
begin

section \<open>Scatter/gather buffers and files: the rest of \<open>civan/bytearray.cc\<close>\<close>

text \<open>
  \<open>getReadBuffers\<close> (both), \<open>getWriteBuffers\<close>, \<open>writeToFile\<close> and \<open>readFromFile\<close>. An \<open>iovec\<close> is a node index, an offset and a length; a file is the
  list of bytes an \<open>ofstream\<close> receives or an \<open>ifstream\<close> delivers. The theory also
  interprets the sink and source interfaces on the buffer.
\<close>

record iovec =
  iov_node :: nat
  iov_off :: nat
  iov_len :: nat

subsection \<open>Scatter/gather\<close>

text \<open>
  One loop serves the three operations; \<open>szof\<close> is what the source uses as the
  capacity of the next node (\<open>m_baseSize\<close> in the first \<open>getReadBuffers\<close>,
  \<open>cur->size\<close> in the others). \<open>cur->ptr\<close> of a null node faults.
\<close>

function iov_loop :: "(nat \<Rightarrow> nat) \<Rightarrow> 'a list list \<Rightarrow> nat \<Rightarrow> nat \<Rightarrow> nat \<Rightarrow> nat \<Rightarrow> iovec list res" where
  "iov_loop szof ns i npos ncap len =
     (if len = 0 then Inr []
      else if len \<le> ncap then
        (if i < length ns then Inr [\<lparr>iov_node = i, iov_off = npos, iov_len = len\<rparr>] else Inl BadPointer)
      else if Suc i < length ns
        then rbind (iov_loop szof ns (Suc i) 0 (szof (Suc i)) (len - ncap))
               (\<lambda>vs. Inr (\<lparr>iov_node = i, iov_off = npos, iov_len = ncap\<rparr> # vs))
        else Inl BadPointer)"
  by pat_completeness auto
termination
  by (relation "measure (\<lambda>(szof, ns, i, npos, ncap, len). length ns - i)") auto

declare iov_loop.simps [simp del]

definition getReadBuffers :: "bytearray \<Rightarrow> nat \<Rightarrow> (nat \<times> iovec list) res" where
  "getReadBuffers ba len0 =
     (let len = min (getReadSize ba) len0 in
      if len = 0 then Inr (0, [])
      else if m_baseSize ba = 0 then Inl DivByZero
      else let npos = m_position ba mod m_baseSize ba in
        rbind (deref (m_nodes ba) (m_cur ba)) (\<lambda>i.
        rbind (iov_loop (\<lambda>_. m_baseSize ba) (m_nodes ba) i npos
                 (sz_sub (length (m_nodes ba ! i)) npos) len) (\<lambda>vs. Inr (len, vs))))"

definition getReadBuffers_at :: "bytearray \<Rightarrow> nat \<Rightarrow> nat \<Rightarrow> (nat \<times> iovec list) res" where
  "getReadBuffers_at ba len0 position =
     (let len = min (sz_sub (m_size ba) position) len0 in
      if len = 0 then Inr (0, [])
      else if m_baseSize ba = 0 then Inl DivByZero
      else let npos = position mod m_baseSize ba in
        rbind (deref (m_nodes ba) (Some (position div m_baseSize ba))) (\<lambda>i.
        rbind (iov_loop (\<lambda>j. length (m_nodes ba ! j)) (m_nodes ba) i npos
                 (sz_sub (length (m_nodes ba ! i)) npos) len) (\<lambda>vs. Inr (len, vs))))"

definition getWriteBuffers :: "bytearray \<Rightarrow> nat \<Rightarrow> (nat \<times> iovec list \<times> bytearray) res" where
  "getWriteBuffers ba len =
     (if len = 0 then Inr (0, [], ba)
      else rbind (addCapacity ba len) (\<lambda>ba1.
        if m_baseSize ba1 = 0 then Inl DivByZero
        else let npos = m_position ba1 mod m_baseSize ba1 in
          rbind (deref (m_nodes ba1) (m_cur ba1)) (\<lambda>i.
          rbind (iov_loop (\<lambda>j. length (m_nodes ba1 ! j)) (m_nodes ba1) i npos
                   (sz_sub (length (m_nodes ba1 ! i)) npos) len) (\<lambda>vs. Inr (len, vs, ba1)))))"

text \<open>The memory a list of buffers denotes.\<close>

definition gather :: "'a list list \<Rightarrow> iovec list \<Rightarrow> 'a list" where
  "gather ns vs = concat (map (\<lambda>v. take (iov_len v) (drop (iov_off v) (ns ! iov_node v))) vs)"

subsection \<open>Files\<close>

text \<open>
  \<open>writeToFile\<close> counts in \<open>int64_t\<close>: the length of a piece can be negative. An
  \<open>ofs.write\<close> with a negative count writes nothing and sets the bad state of the
  stream, after which it writes nothing any more. The walk to the next node
  dereferences \<open>cur\<close>; every step moves on in the chain, so the loop ends. An
  output stream is the flag of its good state and the bytes it received.
\<close>

definition ofs_write :: "bool \<times> cell list \<Rightarrow> cell list \<Rightarrow> nat \<Rightarrow> int \<Rightarrow> bool \<times> cell list" where
  "ofs_write ofs buf off len =
     (if \<not> fst ofs then ofs
      else if len < 0 then (False, snd ofs)
      else (True, snd ofs @ take (nat len) (drop off buf)))"

function writeToFile_loop ::
  "cell list list \<Rightarrow> nat \<Rightarrow> nat option \<Rightarrow> int \<Rightarrow> int \<Rightarrow> bool \<times> cell list \<Rightarrow> (bool \<times> cell list) res"
where
  "writeToFile_loop ns b cur pos read_size ofs =
     (if read_size > 0 then
        rbind (deref ns cur) (\<lambda>i.
          let diff = pos mod int b;
              len = (if read_size > int b then int b else read_size) - diff
          in writeToFile_loop ns b (next_of ns i) (pos + len) (read_size - len)
               (ofs_write ofs (ns ! i) (nat diff) len))
      else Inr ofs)"
  by pat_completeness auto
termination
  by (relation "measure (\<lambda>(ns, b, cur, pos, read_size, ofs).
        case cur of None \<Rightarrow> 0 | Some i \<Rightarrow> length ns - i)")
    (auto simp: next_of_def split: option.splits if_splits elim!: deref.elims)

declare writeToFile_loop.simps [simp del]

definition writeToFile :: "bytearray \<Rightarrow> bool \<times> cell list \<Rightarrow> (bool \<times> cell list) res" where
  "writeToFile ba ofs =
     (if m_baseSize ba = 0 then Inl DivByZero
      else writeToFile_loop (m_nodes ba) (m_baseSize ba) (m_cur ba) (int (m_position ba))
             (int (getReadSize ba)) ofs)"

text \<open>
  \<open>readFromFile\<close>: \<open>ifs.read\<close> delivers at most \<open>m_baseSize\<close> bytes and raises the
  end-of-file state when it delivers fewer; with a zero \<open>m_baseSize\<close> that never happens.
\<close>

function readFromFile_loop :: "bytearray \<Rightarrow> nat \<Rightarrow> u8 list \<Rightarrow> bytearray res" where
  "readFromFile_loop ba b bs =
     (if b = 0 then Inl Diverges
      else rbind (ba_write ba (map Some (take b bs))) (\<lambda>ba'.
        if length bs < b then Inr ba' else readFromFile_loop ba' b (drop b bs)))"
  by pat_completeness auto
termination
  by (relation "measure (\<lambda>(ba, b, bs). length bs)") auto

declare readFromFile_loop.simps [simp del]

definition readFromFile :: "bytearray \<Rightarrow> u8 list option \<Rightarrow> (bool \<times> bytearray) res" where
  "readFromFile ba fopt = (case fopt of None \<Rightarrow> Inr (False, ba)
     | Some bs \<Rightarrow> rbind (readFromFile_loop ba (m_baseSize ba) bs) (\<lambda>ba'. Inr (True, ba')))"

subsection \<open>The gathered memory is the window of the flat array\<close>

lemma gather_Cons: "gather ns (v # vs) = take (iov_len v) (drop (iov_off v) (ns ! iov_node v)) @ gather ns vs"
  by (simp add: gather_def)

lemma iov_loop_flat:
  assumes "uniform b ns" "0 < b" "\<And>j. j < length ns \<Longrightarrow> szof j = b" "i < length ns" "npos < b"
    "ncap = b - npos" "i * b + npos + len \<le> length ns * b"
  shows "\<exists>vs. iov_loop szof ns i npos ncap len = Inr vs \<and>
    gather ns vs = take len (drop (i * b + npos) (concat ns)) \<and> sum_list (map iov_len vs) = len"
  using assms
proof (induction szof ns i npos ncap len rule: iov_loop.induct)
  case (1 szof ns i npos ncap len)
  note u = "1.prems"(1) and b = "1.prems"(2) and sz = "1.prems"(3) and i = "1.prems"(4)
    and np = "1.prems"(5,6)
  consider "len = 0" | "len \<noteq> 0" "len \<le> ncap" | "ncap < len" by linarith
  then show ?case
  proof cases
    case 1
    then show ?thesis by (simp add: iov_loop.simps gather_def)
  next
    case 2
    have "take len (drop npos (ns ! i)) = take len (drop (i * b + npos) (concat ns))"
      using 2 np by (intro window_concat_uniform [OF u i]) simp
    with 2 i show ?thesis by (subst iov_loop.simps) (simp add: gather_def)
  next
    case 3
    have "i * b + b < length ns * b" using 3 np "1.prems"(7) by linarith
    then have si: "Suc i < length ns" by (metis add.commute mult_Suc mult_less_cancel2)
    have e1: "i * b + npos + ncap = Suc i * b" using np by simp
    have "\<exists>vs. iov_loop szof ns (Suc i) 0 (szof (Suc i)) (len - ncap) = Inr vs \<and>
        gather ns vs = take (len - ncap) (drop (Suc i * b + 0) (concat ns)) \<and>
        sum_list (map iov_len vs) = len - ncap"
      by (rule "1.IH" [OF _ _ si u b sz si b]) (use 3 sz si e1 "1.prems"(7) in auto)
    then obtain vs where vs: "iov_loop szof ns (Suc i) 0 (szof (Suc i)) (len - ncap) = Inr vs"
      "gather ns vs = take (len - ncap) (drop (Suc i * b) (concat ns))"
      "sum_list (map iov_len vs) = len - ncap" by auto
    have w: "take ncap (drop npos (ns ! i)) = take ncap (drop (i * b + npos) (concat ns))"
      using np by (intro window_concat_uniform [OF u i]) simp
    have "take len (drop (i * b + npos) (concat ns)) =
      take ncap (drop (i * b + npos) (concat ns)) @ take (len - ncap) (drop (Suc i * b) (concat ns))"
      using 3 take_add [of ncap "len - ncap" "drop (i * b + npos) (concat ns)"]
      by (simp only: e1 [symmetric]) (simp add: ac_simps)
    with 3 vs w si show ?thesis by (subst iov_loop.simps) (simp add: gather_Cons)
  qed
qed

lemma getReadBuffers_ok:
  assumes wf: "ba_wf ba" and cur: "cur_rd ba"
  shows "\<exists>vs. getReadBuffers ba n = Inr (min (length (rest ba)) n, vs) \<and>
    gather (m_nodes ba) vs = take n (rest ba)"
proof (cases "min (length (rest ba)) n = 0")
  case True
  then have "take n (rest ba) = []" by (auto simp: min_def split: if_splits)
  with True wf show ?thesis by (auto simp: getReadBuffers_def gather_def Let_def)
next
  case False
  let ?b = "m_baseSize ba" and ?p = "m_position ba" and ?len = "min (length (rest ba)) n"
  note w = ba_wfD [OF wf]
  have bnd: "?p + ?len \<le> m_size ba" using wf w(5) by (auto simp: min_def)
  then have "?p < m_capacity ba" using False w(6) by linarith
  then have i: "?p div ?b < length (m_nodes ba)" using w(4) by (simp add: less_mult_imp_div_less)
  have m: "?p mod ?b < ?b" using w(1) by simp
  have "?p div ?b * ?b + ?p mod ?b + ?len \<le> length (m_nodes ba) * ?b"
    using bnd w(4,6) by simp
  then obtain vs where vs: "iov_loop (\<lambda>_. ?b) (m_nodes ba) (?p div ?b) (?p mod ?b) (?b - ?p mod ?b) ?len = Inr vs"
    "gather (m_nodes ba) vs = take ?len (drop (?p div ?b * ?b + ?p mod ?b) (concat (m_nodes ba)))"
    using iov_loop_flat [OF w(3) w(1) _ i m refl, where szof = "\<lambda>_. ?b"] by auto
  have "gather (m_nodes ba) vs = take n (rest ba)"
    using vs(2) bnd False wf w
    by (simp add: rest_def content_def flat_def drop_take min_def split: if_splits)
  moreover have "getReadBuffers ba n = Inr (?len, vs)"
    using vs(1) False cur i w(1,3) wf m
    by (auto simp: getReadBuffers_def Let_def cur_rd_def block_at_def)
  ultimately show ?thesis by blast
qed

lemma getReadBuffers_at_ok:
  assumes wf: "ba_wf ba" and pos: "p \<le> m_size ba"
  shows "\<exists>vs. getReadBuffers_at ba n p = Inr (min (m_size ba - p) n, vs) \<and>
    gather (m_nodes ba) vs = take n (drop p (content ba))"
proof (cases "min (m_size ba - p) n = 0")
  case True
  then have "take n (drop p (content ba)) = []" using wf by (auto simp: min_def split: if_splits)
  with True pos show ?thesis by (auto simp: getReadBuffers_at_def gather_def Let_def)
next
  case False
  let ?b = "m_baseSize ba" and ?len = "min (m_size ba - p) n"
  note w = ba_wfD [OF wf]
  have bnd: "p + ?len \<le> m_size ba" using pos by (auto simp: min_def)
  then have "p < m_capacity ba" using False w(6) by linarith
  then have i: "p div ?b < length (m_nodes ba)" using w(4) by (simp add: less_mult_imp_div_less)
  have m: "p mod ?b < ?b" using w(1) by simp
  have "p div ?b * ?b + p mod ?b + ?len \<le> length (m_nodes ba) * ?b"
    using bnd w(4,6) by simp
  then obtain vs where vs: "iov_loop (\<lambda>j. length (m_nodes ba ! j)) (m_nodes ba) (p div ?b) (p mod ?b)
      (?b - p mod ?b) ?len = Inr vs"
    "gather (m_nodes ba) vs = take ?len (drop (p div ?b * ?b + p mod ?b) (concat (m_nodes ba)))"
    using iov_loop_flat [OF w(3) w(1) _ i m refl, where szof = "\<lambda>j. length (m_nodes ba ! j)"] w(3)
    by auto
  have "gather (m_nodes ba) vs = take n (drop p (content ba))"
    using vs(2) bnd False by (simp add: content_def flat_def drop_take min_def split: if_splits)
  moreover have "getReadBuffers_at ba n p = Inr (?len, vs)"
    using vs(1) False i w(1,3) pos m by (auto simp: getReadBuffers_at_def Let_def)
  ultimately show ?thesis by blast
qed

lemma getWriteBuffers_ok:
  assumes wf: "ba_wf ba" and cur: "cur_wr ba"
  shows "\<exists>vs ba'. getWriteBuffers ba n = Inr (n, vs, ba') \<and> ba_wf ba' \<and> cur_wr ba' \<and>
    m_position ba' = m_position ba \<and> m_size ba' = m_size ba \<and> content ba' = content ba \<and>
    m_baseSize ba' = m_baseSize ba \<and> m_position ba + n \<le> m_capacity ba' \<and>
    gather (m_nodes ba') vs = take n (drop (m_position ba) (flat ba')) \<and>
    sum_list (map iov_len vs) = n"
proof (cases "n = 0")
  case True
  have "m_position ba \<le> m_capacity ba" using ba_wfD [OF wf] by linarith
  with True assms show ?thesis by (simp add: getWriteBuffers_def gather_def)
next
  case False
  obtain ba1 where a: "addCapacity ba n = Inr ba1" and wf1: "ba_wf ba1"
    and cur1: "cur_wr ba1" and same: "m_position ba1 = m_position ba" "m_size ba1 = m_size ba"
      "m_baseSize ba1 = m_baseSize ba"
    and fl: "take (m_capacity ba) (flat ba1) = flat ba"
    and cap: "m_position ba + n \<le> m_capacity ba1"
    using addCapacity_wr [OF wf cur, of n] by blast
  let ?b = "m_baseSize ba" and ?p = "m_position ba"
  note w1 = ba_wfD [OF wf1]
  have pc: "?p < m_capacity ba1" using cap False by linarith
  then have i: "?p div ?b < length (m_nodes ba1)"
    using w1(4) same by (simp add: less_mult_imp_div_less)
  have m: "?p mod ?b < ?b" and u1: "uniform ?b (m_nodes ba1)" and b1: "0 < ?b" using w1 same by simp_all
  have "?p div ?b * ?b + ?p mod ?b + n \<le> length (m_nodes ba1) * ?b"
    using cap w1(4) same by simp
  then obtain vs where vs: "iov_loop (\<lambda>j. length (m_nodes ba1 ! j)) (m_nodes ba1) (?p div ?b) (?p mod ?b)
      (?b - ?p mod ?b) n = Inr vs"
    "gather (m_nodes ba1) vs = take n (drop (?p div ?b * ?b + ?p mod ?b) (concat (m_nodes ba1)))"
    "sum_list (map iov_len vs) = n"
    using iov_loop_flat [OF u1 b1 _ i m refl, where szof = "\<lambda>j. length (m_nodes ba1 ! j)"] u1
    by auto
  have "getWriteBuffers ba n = Inr (n, vs, ba1)"
    using a vs(1) False i same cur1 pc m u1 b1
    by (simp add: getWriteBuffers_def Let_def cur_wr_def)
  moreover have "content ba1 = content ba"
    using fl same ba_wfD(6) [OF wf] by (metis content_def min.absorb1 take_take)
  ultimately show ?thesis
    using wf1 cur1 same cap vs by (auto simp: flat_def)
qed

subsection \<open>Files\<close>

lemma writeToFile_loop_aligned:
  assumes u: "uniform b ns" and b: "0 < b"
  shows "k * b + r \<le> length ns * b \<Longrightarrow>
    writeToFile_loop ns b (block_at ns b (k * b)) (int (k * b)) (int r) (True, acc) =
      Inr (True, acc @ take r (drop (k * b) (concat ns)))"
proof (induction r arbitrary: k acc rule: less_induct)
  case (less r)
  show ?case
  proof (cases "r = 0")
    case True
    then show ?thesis by (subst writeToFile_loop.simps) simp
  next
    case False
    then have "k * b < length ns * b" using less.prems by linarith
    then have k: "k < length ns" by simp
    then have c: "block_at ns b (k * b) = Some k" using b by (simp add: block_at_def)
    have lk: "length (ns ! k) = b" using u k by simp
    have w: "take r (ns ! k) = take r (drop (k * b) (concat ns))" if "r \<le> b"
      using window_concat_uniform [OF u k, of 0 r] that by simp
    show ?thesis
    proof (cases "r \<le> b")
      case True
      then show ?thesis
        using False k w c by (subst writeToFile_loop.simps)
          (simp add: ofs_write_def writeToFile_loop.simps [of _ _ _ _ 0] Let_def)
    next
      case rb: False
      have nx: "next_of ns k = block_at ns b (Suc k * b)"
        using b by (simp add: next_of_def block_at_def del: mult_Suc)
      have sum: "take r (drop (k * b) (concat ns)) = ns ! k @ take (r - b) (drop (Suc k * b) (concat ns))"
        using window_concat_uniform [OF u k, of 0 b] lk rb
          take_add [of b "r - b" "drop (k * b) (concat ns)"] by (simp add: add.commute)
      have "writeToFile_loop ns b (block_at ns b (Suc k * b)) (int (Suc k * b)) (int (r - b))
          (True, acc @ ns ! k) = Inr (True, (acc @ ns ! k) @ take (r - b) (drop (Suc k * b) (concat ns)))"
        using less.prems rb b by (intro less.IH) auto
      then show ?thesis
        using rb k lk c sum nx by (subst writeToFile_loop.simps)
          (simp add: ofs_write_def Let_def add.commute)
    qed
  qed
qed

lemma writeToFile_aligned:
  assumes wf: "ba_wf ba" and cur: "cur_rd ba" and al: "m_position ba mod m_baseSize ba = 0"
  shows "writeToFile ba (True, acc) = Inr (True, acc @ rest ba)"
proof -
  let ?b = "m_baseSize ba" and ?k = "m_position ba div m_baseSize ba"
  note w = ba_wfD [OF wf]
  have p: "?k * ?b = m_position ba" using al by auto
  have len: "?k * ?b + length (rest ba) \<le> length (m_nodes ba) * ?b"
    unfolding p using wf w by simp
  have "take (length (rest ba)) (drop (m_position ba) (concat (m_nodes ba))) = rest ba"
    by (metis flat_def length_rest rest_flat wf)
  with writeToFile_loop_aligned [OF w(3) w(1) len, of acc] show ?thesis
    using wf w(1) cur unfolding p cur_rd_def by (simp add: writeToFile_def)
qed

lemma readFromFile_loop_tail:
  "ba_tail ba \<Longrightarrow> 0 < b \<Longrightarrow>
     \<exists>ba'. readFromFile_loop ba b bs = Inr ba' \<and> ba_tail ba' \<and> content ba' = content ba @ map Some bs"
proof (induction ba b bs rule: readFromFile_loop.induct)
  case (1 ba b bs)
  obtain ba1 where w: "ba_write ba (map Some (take b bs)) = Inr ba1" "ba_tail ba1"
    "content ba1 = content ba @ map Some (take b bs)"
    using tail_write [OF "1.prems"(1)] by blast
  show ?case
  proof (cases "length bs < b")
    case True
    with w "1.prems" show ?thesis by (subst readFromFile_loop.simps) auto
  next
    case False
    with "1.IH" [OF _ w(1)] "1.prems" w(2) obtain ba' where
      "readFromFile_loop ba1 b (drop b bs) = Inr ba'" "ba_tail ba'"
      "content ba' = content ba1 @ map Some (drop b bs)" by auto
    with False w "1.prems" show ?thesis
      by (subst readFromFile_loop.simps) (simp add: map_append [symmetric] del: map_append)
  qed
qed

subsection \<open>The buffer provides the sink and the source interface\<close>

interpretation tail_sink: byte_sink ba_write content ba_tail
proof unfold_locales
  fix b :: bytearray and d
  assume "ba_tail b"
  then show "\<exists>b'. ba_write b d = Inr b' \<and> ba_tail b' \<and> content b' = content b @ d"
    using tail_write [of b d] by blast
qed

definition ba_readable :: "bytearray \<Rightarrow> bool" where
  "ba_readable ba \<longleftrightarrow> ba_wf ba \<and> cur_rd ba"

interpretation cursor_source: byte_source ba_read rest ba_readable
proof unfold_locales
  fix b :: bytearray and n :: nat
  assume "ba_readable b" "0 < n" "n \<le> length (rest b)"
  then show "\<exists>b'. ba_read b n = Inr (take n (rest b), b') \<and> ba_readable b' \<and> rest b' = drop n (rest b)"
    using read_nonempty [of b n] by (auto simp: ba_readable_def)
next
  fix b :: bytearray and n :: nat
  assume "ba_readable b" "length (rest b) < n"
  then show "ba_read b n = Inl OutOfRange"
    by (simp add: ba_readable_def read_short)
qed

lemma rewind_ok:
  assumes "ba_wf ba"
  shows "\<exists>ba'. setPosition ba 0 = Inr ba' \<and> ba_readable ba' \<and> rest ba' = content ba \<and>
    m_position ba' = 0 \<and> content ba' = content ba \<and> m_endian ba' = m_endian ba \<and>
    m_capacity ba' = m_capacity ba"
  using setPosition_ok [OF assms, of 0] by (auto simp: ba_readable_def rest_def content_def)

subsection \<open>Properties of the byte buffer\<close>





text \<open>
  \<open>ByteArray::read\<close> of \<open>n > 0\<close> bytes throws \<open>std::out_of_range\<close> when
  fewer are left; otherwise it returns exactly the next \<open>n\<close> bytes, moves the
  position by \<open>n\<close>, keeps the content and leaves the cursor on the node of the new
  position.
\<close>

theorem bytearray_read_window:
  assumes "ba_wf ba" "cur_rd ba" "0 < n"
  shows "if length (rest ba) < n then ba_read ba n = Inl OutOfRange
    else \<exists>ba'. ba_read ba n = Inr (take n (rest ba), ba') \<and> ba_wf ba' \<and> cur_rd ba' \<and>
      rest ba' = drop n (rest ba) \<and> content ba' = content ba \<and> m_position ba' = m_position ba + n"
  using read_nonempty [OF assms(1-3)] read_short [OF assms(1), of n] by (auto simp: not_less)

theorem bytearray_read_window_witness: "ba_read (new_ByteArray 2) 1 = Inl OutOfRange"
  using bytearray_read_window [of "new_ByteArray 2" 1] new_ByteArray_wf [of 2]
    cur_rd_below [of "new_ByteArray 2"]
  by (simp add: new_ByteArray_def rest_def content_def)

text \<open>
  \<open>getReadBuffers\<close> reports the number of bytes it covers and fills the
  vector with buffers that, gathered in order, are the next bytes of the content
  (what \<open>SocketStream::write\<close> hands to \<open>sendmsg\<close>); \<open>getWriteBuffers\<close> grows the
  chain and returns buffers of exactly the requested length that cover the memory
  from the position on, leaving position, size and content as they were (what
  \<open>SocketStream::read\<close> hands to \<open>recvmsg\<close>).
\<close>

theorem bytearray_scatter_gather:
  assumes "ba_wf ba" "cur_rd ba" "m_position ba < m_capacity ba"
  shows "(\<exists>vs. getReadBuffers ba n = Inr (min (length (rest ba)) n, vs) \<and>
      gather (m_nodes ba) vs = take n (rest ba)) \<and>
    (\<exists>vs ba'. getWriteBuffers ba n = Inr (n, vs, ba') \<and> ba_wf ba' \<and>
      m_position ba' = m_position ba \<and> m_size ba' = m_size ba \<and> content ba' = content ba \<and>
      gather (m_nodes ba') vs = take n (drop (m_position ba) (flat ba')) \<and>
      sum_list (map iov_len vs) = n)"
  using getReadBuffers_ok [OF assms(1,2), of n] getWriteBuffers_ok [OF assms(1), of n]
    cur_rd_below [OF assms(1,3)] assms(2)
  by blast

theorem bytearray_scatter_gather_witness:
  "\<exists>vs ba'. getWriteBuffers (new_ByteArray 2) 5 = Inr (5, vs, ba') \<and> ba_wf ba' \<and> m_size ba' = 0 \<and>
     sum_list (map iov_len vs) = 5"
  using bytearray_scatter_gather [of "new_ByteArray 2" 5] new_ByteArray_wf [of 2]
    cur_rd_below [of "new_ByteArray 2"]
  by (auto simp: new_ByteArray_def)

text \<open>
  Files: a buffer rewound to its start is written to a file in full, and
  \<open>readFromFile\<close> of that file into a fresh buffer of any positive node size
  restores the content.
\<close>

theorem bytearray_file_roundtrip:
  assumes "ba_wf ba" "content ba = map Some bs" "0 < b"
  shows "\<exists>ba0 ba'. setPosition ba 0 = Inr ba0 \<and>
    writeToFile ba0 (True, []) = Inr (True, map Some bs) \<and>
    readFromFile (new_ByteArray b) (Some bs) = Inr (True, ba') \<and> content ba' = content ba"
proof -
  obtain b0 where b0: "setPosition ba 0 = Inr b0" "ba_readable b0" "rest b0 = map Some bs"
    "m_position b0 = 0"
    using rewind_ok [OF assms(1)] assms(2) by auto
  then have "writeToFile b0 (True, []) = Inr (True, map Some bs)"
    using writeToFile_aligned [of b0 "[]"] by (simp add: ba_readable_def)
  moreover obtain b1 where "readFromFile (new_ByteArray b) (Some bs) = Inr (True, b1)"
    "content b1 = map Some bs"
    using readFromFile_loop_tail [OF tail_new [OF assms(3)] assms(3), of bs]
    by (auto simp: readFromFile_def new_ByteArray_def content_def)
  ultimately show ?thesis using b0 assms(2) by auto
qed

theorem bytearray_file_roundtrip_witness:
  "\<exists>ba0 ba'. setPosition (new_ByteArray 2) 0 = Inr ba0 \<and>
    writeToFile ba0 (True, []) = Inr (True, []) \<and>
    readFromFile (new_ByteArray 3) (Some []) = Inr (True, ba') \<and> content ba' = []"
  using bytearray_file_roundtrip [of "new_ByteArray 2" "[]" 3] new_ByteArray_wf [of 2]
  by (simp add: new_ByteArray_def content_def)

text \<open>
  Once everything up to the capacity has been read, \<open>m_cur\<close> is null, and
  the next \<open>write\<close> of a non-empty buffer dereferences it (in \<open>addCapacity\<close>): the
  buffer cannot be appended to after it was drained exactly, whatever the node size.
\<close>

theorem bytearray_drained_write_faults:
  assumes "ba_wf ba" "cur_rd ba" "0 < length (rest ba)" "m_size ba = m_capacity ba" "buf \<noteq> []"
  shows "\<exists>ba'. ba_read ba (length (rest ba)) = Inr (rest ba, ba') \<and> ba_write ba' buf = Inl BadPointer"
proof -
  obtain b1 where b1: "ba_read ba (length (rest ba)) = Inr (rest ba, b1)" "ba_wf b1" "cur_rd b1"
    "m_position b1 = m_position ba + length (rest ba)" "content b1 = content ba"
    using read_nonempty [OF assms(1,2), of "length (rest ba)"] assms(3) by auto
  have "m_size b1 = m_size ba" using b1(2,5) assms(1) by (metis length_content)
  then have pos: "m_position b1 = m_size b1" using b1(4) assms(1) ba_wfD(5) [OF assms(1)] by simp
  have "m_capacity b1 = m_capacity ba"
    using b1(1) by (auto simp: ba_read_def Let_def split: if_splits)
  then have cap: "m_position b1 = m_capacity b1" using pos \<open>m_size b1 = m_size ba\<close> assms(4) by simp
  then have "m_cur b1 = None"
    using b1(2,3) ba_wfD [OF b1(2)] by (simp add: cur_rd_def block_at_end)
  then have "addCapacity b1 (length buf) = Inl BadPointer"
    using addCapacity_null [OF b1(2)] cap assms(5) by simp
  with b1(1) assms(5) show ?thesis by (simp add: ba_write_def)
qed

theorem bytearray_drained_write_faults_witness:
  "\<exists>ba'. ba_read \<lparr>m_baseSize = 1, m_position = 0, m_capacity = 1, m_size = 1,
       m_endian = CIVAN_BIG_ENDIAN, m_nodes = [[Some 7]], m_cur = Some 0\<rparr> 1 = Inr ([Some 7], ba') \<and>
     ba_write ba' [Some 8] = Inl BadPointer"
  using bytearray_drained_write_faults [of "\<lparr>m_baseSize = 1, m_position = 0, m_capacity = 1,
       m_size = 1, m_endian = CIVAN_BIG_ENDIAN, m_nodes = [[Some 7]], m_cur = Some 0\<rparr>" "[Some 8]"]
  by (simp add: ba_wf_def cur_rd_def block_at_def rest_def content_def flat_def uniform_def)

end
