(* ===== verification/Civan_Codec.thy ===== *)
theory Civan_Codec
  imports Civan_ByteArray_IO
begin

section \<open>Typed reads and writes: the codec of \<open>civan/bytearray.cc\<close>\<close>

text \<open>
  Fixed-width integers in the buffer's byte order, variable-length integers with
  ZigZag for the signed ones, floating point values by their bit patterns, and
  strings with a fixed or variable-length prefix. \<open>host\<close> is \<open>CIVAN_BYTE_ORDER\<close> of the
  build. Signed integers are words of their width (two's complement, conversions
  and the negation in \<open>EncodeZigzag\<close> wrap as the compiled code does); a
  \<open>std::string\<close> is a list of bytes. A shift of a 32-bit value by 32 or more, which
  \<open>readUint64\<close> reaches, is the fault \<open>BadShift\<close>.
\<close>

unbundle bit_operations_syntax

subsection \<open>Object representations through the buffer\<close>

definition bytes_of_cells :: "cell list \<Rightarrow> u8 list res" where
  "bytes_of_cells cs = (if None \<in> set cs then Inl Indeterminate else Inr (map the cs))"

definition write_raw :: "endian \<Rightarrow> bytearray \<Rightarrow> 'a::len word \<Rightarrow> bytearray res" where
  "write_raw host ba v = ba_write ba (map Some (mem_bytes host v))"

definition read_raw :: "endian \<Rightarrow> bytearray \<Rightarrow> ('a::len word \<times> bytearray) res" where
  "read_raw host ba = rbind (ba_read ba (LENGTH('a) div 8)) (\<lambda>(d, ba').
     rbind (bytes_of_cells d) (\<lambda>bs. Inr (mem_word host bs, ba')))"

definition write_swapped :: "endian \<Rightarrow> bytearray \<Rightarrow> 'a::len word \<Rightarrow> bytearray res" where
  "write_swapped host ba v = write_raw host ba (if m_endian ba \<noteq> host then byteswap v else v)"

definition read_swapped :: "endian \<Rightarrow> bytearray \<Rightarrow> ('a::len word \<times> bytearray) res" where
  "read_swapped host ba = rbind (read_raw host ba) (\<lambda>(v, ba').
     Inr (if m_endian ba' \<noteq> host then byteswap v else v, ba'))"

subsection \<open>Fixed width\<close>

definition writeFint8 :: "endian \<Rightarrow> bytearray \<Rightarrow> u8 \<Rightarrow> bytearray res" where
  "writeFint8 = write_raw"
definition writeFuint8 :: "endian \<Rightarrow> bytearray \<Rightarrow> u8 \<Rightarrow> bytearray res" where
  "writeFuint8 = write_raw"
definition writeFint16 :: "endian \<Rightarrow> bytearray \<Rightarrow> u16 \<Rightarrow> bytearray res" where
  "writeFint16 = write_swapped"
definition writeFuint16 :: "endian \<Rightarrow> bytearray \<Rightarrow> u16 \<Rightarrow> bytearray res" where
  "writeFuint16 = write_swapped"
definition writeFint32 :: "endian \<Rightarrow> bytearray \<Rightarrow> u32 \<Rightarrow> bytearray res" where
  "writeFint32 = write_swapped"
definition writeFuint32 :: "endian \<Rightarrow> bytearray \<Rightarrow> u32 \<Rightarrow> bytearray res" where
  "writeFuint32 = write_swapped"
definition writeFint64 :: "endian \<Rightarrow> bytearray \<Rightarrow> u64 \<Rightarrow> bytearray res" where
  "writeFint64 = write_swapped"
definition writeFuint64 :: "endian \<Rightarrow> bytearray \<Rightarrow> u64 \<Rightarrow> bytearray res" where
  "writeFuint64 = write_swapped"

definition readFint8 :: "endian \<Rightarrow> bytearray \<Rightarrow> (u8 \<times> bytearray) res" where
  "readFint8 = read_raw"
definition readFuint8 :: "endian \<Rightarrow> bytearray \<Rightarrow> (u8 \<times> bytearray) res" where
  "readFuint8 = read_raw"
definition readFint16 :: "endian \<Rightarrow> bytearray \<Rightarrow> (u16 \<times> bytearray) res" where
  "readFint16 = read_swapped"
definition readFuint16 :: "endian \<Rightarrow> bytearray \<Rightarrow> (u16 \<times> bytearray) res" where
  "readFuint16 = read_swapped"
definition readFint32 :: "endian \<Rightarrow> bytearray \<Rightarrow> (u32 \<times> bytearray) res" where
  "readFint32 = read_swapped"
definition readFuint32 :: "endian \<Rightarrow> bytearray \<Rightarrow> (u32 \<times> bytearray) res" where
  "readFuint32 = read_swapped"
definition readFint64 :: "endian \<Rightarrow> bytearray \<Rightarrow> (u64 \<times> bytearray) res" where
  "readFint64 = read_swapped"
definition readFuint64 :: "endian \<Rightarrow> bytearray \<Rightarrow> (u64 \<times> bytearray) res" where
  "readFuint64 = read_swapped"

text \<open>\<open>float\<close> and \<open>double\<close> travel as the integer with the same bit pattern.\<close>

definition writeFloat :: "endian \<Rightarrow> bytearray \<Rightarrow> u32 \<Rightarrow> bytearray res" where
  "writeFloat host ba v = writeFuint32 host ba v"
definition writeDouble :: "endian \<Rightarrow> bytearray \<Rightarrow> u64 \<Rightarrow> bytearray res" where
  "writeDouble host ba v = writeFuint64 host ba v"
definition readFloat :: "endian \<Rightarrow> bytearray \<Rightarrow> (u32 \<times> bytearray) res" where
  "readFloat host ba = readFuint32 host ba"
definition readDouble :: "endian \<Rightarrow> bytearray \<Rightarrow> (u64 \<times> bytearray) res" where
  "readDouble host ba = readFuint64 host ba"

subsection \<open>ZigZag\<close>

definition EncodeZigzag32 :: "u32 \<Rightarrow> u32" where
  "EncodeZigzag32 v = (if v <s 0 then (- v) * 2 - 1 else v * 2)"

definition EncodeZigzag64 :: "u64 \<Rightarrow> u64" where
  "EncodeZigzag64 v = (if v <s 0 then (- v) * 2 - 1 else v * 2)"

definition DecodeZigzag32 :: "u64 \<Rightarrow> u64" where
  "DecodeZigzag32 v = signed_drop_bit 1 v XOR - (v AND 1)"

definition DecodeZigzag64 :: "u64 \<Rightarrow> u64" where
  "DecodeZigzag64 v = signed_drop_bit 1 v XOR - (v AND 1)"

subsection \<open>Variable-length integers\<close>

function varint_tmp32 :: "u32 \<Rightarrow> u8 list" where
  "varint_tmp32 v = (if v \<ge> 0x80
     then (ucast (v AND 0x7F) OR 0x80) # varint_tmp32 (drop_bit 7 v) else [ucast v])"
  by pat_completeness auto
termination
proof (relation "measure unat", goal_cases)
  case 1
  show ?case by simp
next
  case (2 v)
  then have "128 \<le> unat v" by (simp add: word_le_nat_alt)
  then show ?case by (simp add: unat_drop_bit_div)
qed

function varint_tmp64 :: "u64 \<Rightarrow> u8 list" where
  "varint_tmp64 v = (if v \<ge> 0x80
     then (ucast (v AND 0x7F) OR 0x80) # varint_tmp64 (drop_bit 7 v) else [ucast v])"
  by pat_completeness auto
termination
proof (relation "measure unat", goal_cases)
  case 1
  show ?case by simp
next
  case (2 v)
  then have "128 \<le> unat v" by (simp add: word_le_nat_alt)
  then show ?case by (simp add: unat_drop_bit_div)
qed

declare varint_tmp32.simps [simp del] varint_tmp64.simps [simp del]

definition writeUint32 :: "bytearray \<Rightarrow> u32 \<Rightarrow> bytearray res" where
  "writeUint32 ba v = ba_write ba (map Some (varint_tmp32 v))"
definition writeUint64 :: "bytearray \<Rightarrow> u64 \<Rightarrow> bytearray res" where
  "writeUint64 ba v = ba_write ba (map Some (varint_tmp64 v))"
definition writeInt32 :: "bytearray \<Rightarrow> u32 \<Rightarrow> bytearray res" where
  "writeInt32 ba v = writeUint32 ba (EncodeZigzag32 v)"
definition writeInt64 :: "bytearray \<Rightarrow> u64 \<Rightarrow> bytearray res" where
  "writeInt64 ba v = writeUint64 ba (EncodeZigzag64 v)"

function readUint32_loop :: "endian \<Rightarrow> bytearray \<Rightarrow> nat \<Rightarrow> u32 \<Rightarrow> (u32 \<times> bytearray) res" where
  "readUint32_loop host ba i v =
     (if i < 32 then rbind (readFuint8 host ba) (\<lambda>(b, ba').
        if b < 0x80 then Inr (v OR push_bit i (ucast b), ba')
        else readUint32_loop host ba' (i + 7) (v OR push_bit i (ucast (b AND 0x7f))))
      else Inr (v, ba))"
  by pat_completeness auto
termination
  by (relation "measure (\<lambda>(host, ba, i, v). 32 - i)") auto

text \<open>\<open>readUint64\<close> accumulates in a \<open>uint32_t\<close> while it shifts up to 63.\<close>

function readUint64_loop :: "endian \<Rightarrow> bytearray \<Rightarrow> nat \<Rightarrow> u32 \<Rightarrow> (u32 \<times> bytearray) res" where
  "readUint64_loop host ba i v =
     (if i < 64 then rbind (readFuint8 host ba) (\<lambda>(b, ba').
        if 32 \<le> i then Inl BadShift
        else if b < 0x80 then Inr (v OR push_bit i (ucast b), ba')
        else readUint64_loop host ba' (i + 7) (v OR push_bit i (ucast (b AND 0x7f))))
      else Inr (v, ba))"
  by pat_completeness auto
termination
  by (relation "measure (\<lambda>(host, ba, i, v). 64 - i)") auto

declare readUint32_loop.simps [simp del] readUint64_loop.simps [simp del]

definition readUint32 :: "endian \<Rightarrow> bytearray \<Rightarrow> (u32 \<times> bytearray) res" where
  "readUint32 host ba = readUint32_loop host ba 0 0"
definition readUint64 :: "endian \<Rightarrow> bytearray \<Rightarrow> (u64 \<times> bytearray) res" where
  "readUint64 host ba = rbind (readUint64_loop host ba 0 0) (\<lambda>(v, ba'). Inr (ucast v, ba'))"
definition readInt32 :: "endian \<Rightarrow> bytearray \<Rightarrow> (u32 \<times> bytearray) res" where
  "readInt32 host ba = rbind (readUint32 host ba) (\<lambda>(v, ba'). Inr (ucast (DecodeZigzag32 (ucast v)), ba'))"
definition readInt64 :: "endian \<Rightarrow> bytearray \<Rightarrow> (u64 \<times> bytearray) res" where
  "readInt64 host ba = rbind (readUint64 host ba) (\<lambda>(v, ba'). Inr (DecodeZigzag64 v, ba'))"

subsection \<open>Strings\<close>

definition writeStringWithoutLength :: "bytearray \<Rightarrow> u8 list \<Rightarrow> bytearray res" where
  "writeStringWithoutLength ba s = ba_write ba (map Some s)"
definition writeStringF16 :: "endian \<Rightarrow> bytearray \<Rightarrow> u8 list \<Rightarrow> bytearray res" where
  "writeStringF16 host ba s = rbind (writeFuint16 host ba (of_nat (length s))) (\<lambda>ba'. ba_write ba' (map Some s))"
definition writeStringF32 :: "endian \<Rightarrow> bytearray \<Rightarrow> u8 list \<Rightarrow> bytearray res" where
  "writeStringF32 host ba s = rbind (writeFuint32 host ba (of_nat (length s))) (\<lambda>ba'. ba_write ba' (map Some s))"
definition writeStringF64 :: "endian \<Rightarrow> bytearray \<Rightarrow> u8 list \<Rightarrow> bytearray res" where
  "writeStringF64 host ba s = rbind (writeFuint64 host ba (of_nat (length s))) (\<lambda>ba'. ba_write ba' (map Some s))"
definition writeStringVint :: "bytearray \<Rightarrow> u8 list \<Rightarrow> bytearray res" where
  "writeStringVint ba s = rbind (writeUint64 ba (of_nat (length s))) (\<lambda>ba'. ba_write ba' (map Some s))"

definition read_chars :: "bytearray \<Rightarrow> nat \<Rightarrow> (u8 list \<times> bytearray) res" where
  "read_chars ba n = rbind (ba_read ba n) (\<lambda>(d, ba').
     rbind (bytes_of_cells d) (\<lambda>bs. Inr (bs, ba')))"
definition readStringF16 :: "endian \<Rightarrow> bytearray \<Rightarrow> (u8 list \<times> bytearray) res" where
  "readStringF16 host ba = rbind (readFuint16 host ba) (\<lambda>(n, ba'). read_chars ba' (unat n))"
definition readStringF32 :: "endian \<Rightarrow> bytearray \<Rightarrow> (u8 list \<times> bytearray) res" where
  "readStringF32 host ba = rbind (readFuint32 host ba) (\<lambda>(n, ba'). read_chars ba' (unat n))"
definition readStringF64 :: "endian \<Rightarrow> bytearray \<Rightarrow> (u8 list \<times> bytearray) res" where
  "readStringF64 host ba = rbind (readFuint64 host ba) (\<lambda>(n, ba'). read_chars ba' (unat n))"
definition readStringVint :: "endian \<Rightarrow> bytearray \<Rightarrow> (u8 list \<times> bytearray) res" where
  "readStringVint host ba = rbind (readUint64 host ba) (\<lambda>(n, ba'). read_chars ba' (unat n))"

subsection \<open>Hexadecimal dump\<close>

definition hexdigit :: "nat \<Rightarrow> char" where
  "hexdigit n = ''0123456789abcdef'' ! n"

fun hex_from :: "nat \<Rightarrow> u8 list \<Rightarrow> string" where
  "hex_from i [] = ''''"
| "hex_from i (b # bs) = (if i > 0 \<and> i mod 32 = 0 then [CHR 0x0A] else []) @
     [hexdigit (unat b div 16), hexdigit (unat b mod 16), CHR '' ''] @ hex_from (Suc i) bs"

definition toHexString :: "bytearray \<Rightarrow> string res" where
  "toHexString ba = rbind (toString ba) (\<lambda>d. rbind (bytes_of_cells d) (\<lambda>bs. Inr (hex_from 0 bs)))"

subsection \<open>The variable-length encoding fits its stack buffer\<close>

lemma length_varint_tmp32_le: "unat v < 128 ^ Suc k \<Longrightarrow> length (varint_tmp32 v) \<le> Suc k"
proof (induction v arbitrary: k rule: varint_tmp32.induct)
  case (1 v)
  show ?case
  proof (cases "0x80 \<le> v")
    case True
    then have "128 \<le> unat v" by (simp add: word_le_nat_alt)
    with "1.prems" obtain j where k: "k = Suc j" by (cases k) auto
    have "unat (drop_bit 7 v) < 128 ^ Suc j"
      using "1.prems" k by (simp add: unat_drop_bit_div less_mult_imp_div_less)
    with "1.IH" [OF True] k True show ?thesis by (subst varint_tmp32.simps) simp
  next
    case False
    then show ?thesis by (subst varint_tmp32.simps) simp
  qed
qed

lemma length_varint_tmp64_le: "unat v < 128 ^ Suc k \<Longrightarrow> length (varint_tmp64 v) \<le> Suc k"
proof (induction v arbitrary: k rule: varint_tmp64.induct)
  case (1 v)
  show ?case
  proof (cases "0x80 \<le> v")
    case True
    then have "128 \<le> unat v" by (simp add: word_le_nat_alt)
    with "1.prems" obtain j where k: "k = Suc j" by (cases k) auto
    have "unat (drop_bit 7 v) < 128 ^ Suc j"
      using "1.prems" k by (simp add: unat_drop_bit_div less_mult_imp_div_less)
    with "1.IH" [OF True] k True show ?thesis by (subst varint_tmp64.simps) simp
  next
    case False
    then show ?thesis by (subst varint_tmp64.simps) simp
  qed
qed

subsection \<open>ZigZag round trips\<close>

lemma double_eq_push: "(v :: 'a::len word) * 2 = push_bit 1 v"
  by (simp add: push_bit_eq_mult)

lemma neg_double_pred: "(- v) * 2 - 1 = NOT (push_bit 1 (v :: 'a::len word))"
  by (simp add: not_eq_complement push_bit_eq_mult algebra_simps)

lemma sless_zero_bit: "(v :: 'a::len word) <s 0 \<longleftrightarrow> bit v (LENGTH('a) - 1)"
  by (simp add: word_sless_alt bit_last_iff)

lemma uminus_low_bit: "- (v AND 1) = (if bit v 0 then - 1 else (0 :: 'a::len word))"
  by (simp add: and_one_eq bit_0 odd_iff_mod_2_eq_one)

lemma EncodeZigzag32_bits: "EncodeZigzag32 v = (if bit v 31 then NOT (push_bit 1 v) else push_bit 1 v)"
  unfolding EncodeZigzag32_def sless_zero_bit neg_double_pred unfolding double_eq_push by simp

lemma EncodeZigzag64_bits: "EncodeZigzag64 v = (if bit v 63 then NOT (push_bit 1 v) else push_bit 1 v)"
  unfolding EncodeZigzag64_def sless_zero_bit neg_double_pred unfolding double_eq_push by simp

lemma bit_zigzag_push:
  fixes v :: "'a::len word"
  assumes "n < LENGTH('a)"
  shows "bit (if s then NOT (push_bit 1 v) else push_bit 1 v) n \<longleftrightarrow> (if n = 0 then s else bit v (n - 1) \<noteq> s)"
proof -
  have "bit (push_bit 1 v) n \<longleftrightarrow> n \<noteq> 0 \<and> bit v (n - 1)"
    unfolding bit_push_bit_iff possible_bit_word using assms by (cases n) auto
  moreover have "bit (NOT (push_bit 1 v)) n \<longleftrightarrow> \<not> bit (push_bit 1 v) n"
    unfolding bit_not_iff possible_bit_word using assms by blast
  ultimately show ?thesis by (cases s) auto
qed

lemma bit_sshift1: "n < 64 \<Longrightarrow> bit (signed_drop_bit 1 (v::u64)) n \<longleftrightarrow> bit v (if n = 63 then 63 else n + 1)"
  by (cases "n = 62") (auto simp add: bit_signed_drop_bit_iff)

lemma bit_DecodeZigzag:
  assumes "n < 64"
  shows "bit (DecodeZigzag64 v) n \<longleftrightarrow> (bit v (if n = 63 then 63 else n + 1) \<noteq> bit v 0)"
proof -
  have "bit (- (v AND 1)) n \<longleftrightarrow> bit v 0"
    unfolding uminus_low_bit using assms by (simp del: bit_0)
  then show ?thesis
    unfolding DecodeZigzag64_def bit_xor_iff bit_sshift1 [OF assms] by blast
qed

lemma DecodeZigzag32_64: "DecodeZigzag32 = DecodeZigzag64"
  by (simp add: fun_eq_iff DecodeZigzag32_def DecodeZigzag64_def)

lemma zigzag32_roundtrip_word: "ucast (DecodeZigzag32 (ucast (EncodeZigzag32 v))) = v"
proof (rule bit_word_eqI)
  fix n assume n: "n < LENGTH(32)"
  let ?e = "ucast (EncodeZigzag32 v) :: u64"
  have hi: "\<not> bit ?e 32"
    unfolding bit_ucast_iff using bit_imp_le_length [of "EncodeZigzag32 v" 32] by auto
  have b: "bit ?e m \<longleftrightarrow> (if m = 0 then bit v 31 else bit v (m - 1) \<noteq> bit v 31)" if "m < 32" for m
    unfolding bit_ucast_iff EncodeZigzag32_bits using that by (subst bit_zigzag_push) auto
  have n': "n < 64" "n \<noteq> 63" using n by auto
  have "bit (ucast (DecodeZigzag32 ?e) :: u32) n \<longleftrightarrow> (bit ?e (n + 1) \<noteq> bit v 31)"
    using n n'(2) b [of 0] bit_DecodeZigzag [OF n'(1), of ?e]
    by (subst bit_ucast_iff) (simp only: DecodeZigzag32_64, simp)
  also have "\<dots> \<longleftrightarrow> bit v n"
  proof (cases "n = 31")
    case True with hi show ?thesis by auto
  next
    case False with n b [of "n + 1"] show ?thesis by auto
  qed
  finally show "bit (ucast (DecodeZigzag32 ?e) :: u32) n = bit v n" .
qed

lemma zigzag64_roundtrip_word:
  assumes "bit v 62 \<longleftrightarrow> bit v 63"
  shows "DecodeZigzag64 (EncodeZigzag64 v) = v"
proof (rule bit_word_eqI)
  fix n assume n: "n < LENGTH(64)"
  have b: "bit (EncodeZigzag64 v) m \<longleftrightarrow> (if m = 0 then bit v 63 else bit v (m - 1) \<noteq> bit v 63)" if "m < 64" for m
    unfolding EncodeZigzag64_bits using that by (subst bit_zigzag_push) auto
  have n': "n < 64" using n by simp
  show "bit (DecodeZigzag64 (EncodeZigzag64 v)) n = bit v n"
    unfolding bit_DecodeZigzag [OF n'] using b [of 0] b [of 63] b [of "n + 1"] assms n'
    by (cases "n = 63") auto
qed

subsection \<open>The contract of a codec\<close>

text \<open>
  A writer and a reader that agree on a wire format: at the tail of a buffer the
  writer appends the wire format of the value, and a cursor in front of that wire
  format reads the value back and stops right behind it. \<open>ok\<close> is the set of values
  the pair supports. The lemmas follow for every writer and reader of this theory
  by the interpretations below.
\<close>

fun enc_all :: "(bytearray \<Rightarrow> 'v \<Rightarrow> bytearray res) \<Rightarrow> bytearray \<Rightarrow> 'v list \<Rightarrow> bytearray res" where
  "enc_all enc ba [] = Inr ba"
| "enc_all enc ba (v # vs) = rbind (enc ba v) (\<lambda>ba'. enc_all enc ba' vs)"

fun dec_all :: "(bytearray \<Rightarrow> ('v \<times> bytearray) res) \<Rightarrow> bytearray \<Rightarrow> nat \<Rightarrow> ('v list \<times> bytearray) res" where
  "dec_all dec ba 0 = Inr ([], ba)"
| "dec_all dec ba (Suc n) = rbind (dec ba) (\<lambda>(v, ba').
     rbind (dec_all dec ba' n) (\<lambda>(vs, ba''). Inr (v # vs, ba'')))"

locale byte_codec =
  fixes enc :: "bytearray \<Rightarrow> 'v \<Rightarrow> bytearray res"
    and dec :: "bytearray \<Rightarrow> ('v \<times> bytearray) res"
    and wire :: "endian \<Rightarrow> 'v \<Rightarrow> u8 list"
    and ok :: "'v \<Rightarrow> bool"
  assumes enc_ok: "ba_tail ba \<Longrightarrow> ok v \<Longrightarrow> \<exists>ba'. enc ba v = Inr ba' \<and> ba_tail ba' \<and>
      content ba' = content ba @ map Some (wire (m_endian ba) v) \<and> m_endian ba' = m_endian ba"
    and dec_ok: "ba_readable ba \<Longrightarrow> ok v \<Longrightarrow> rest ba = map Some (wire (m_endian ba) v) @ r \<Longrightarrow>
      \<exists>ba'. dec ba = Inr (v, ba') \<and> ba_readable ba' \<and> rest ba' = r \<and> m_endian ba' = m_endian ba"
begin

lemma enc_all_ok:
  "ba_tail ba \<Longrightarrow> list_all ok vs \<Longrightarrow> \<exists>ba'. enc_all enc ba vs = Inr ba' \<and> ba_tail ba' \<and>
     content ba' = content ba @ map Some (concat (map (wire (m_endian ba)) vs)) \<and>
     m_endian ba' = m_endian ba"
proof (induction vs arbitrary: ba)
  case Nil
  then show ?case by simp
next
  case (Cons v vs)
  then obtain b where "enc ba v = Inr b" "ba_tail b" "m_endian b = m_endian ba"
    "content b = content ba @ map Some (wire (m_endian ba) v)"
    using enc_ok [of ba v] by auto
  with Cons.IH [of b] Cons.prems show ?case by auto
qed

lemma dec_all_ok:
  "ba_readable ba \<Longrightarrow> list_all ok vs \<Longrightarrow>
     rest ba = map Some (concat (map (wire (m_endian ba)) vs)) @ r \<Longrightarrow>
     \<exists>ba'. dec_all dec ba (length vs) = Inr (vs, ba') \<and> ba_readable ba' \<and> rest ba' = r \<and>
       m_endian ba' = m_endian ba"
proof (induction vs arbitrary: ba)
  case Nil
  then show ?case by simp
next
  case (Cons v vs)
  then obtain b where "dec ba = Inr (v, b)" "ba_readable b" "m_endian b = m_endian ba"
    "rest b = map Some (concat (map (wire (m_endian ba)) vs)) @ r"
    using dec_ok [of ba v "map Some (concat (map (wire (m_endian ba)) vs)) @ r"] by auto
  with Cons.IH [of b] Cons.prems show ?case by fastforce
qed

lemma roundtrip_all:
  assumes "ba_tail ba" "content ba = []" "list_all ok vs"
  shows "\<exists>ba1 ba2 ba3. enc_all enc ba vs = Inr ba1 \<and> setPosition ba1 0 = Inr ba2 \<and>
    dec_all dec ba2 (length vs) = Inr (vs, ba3) \<and> rest ba3 = []"
proof -
  obtain b1 where b1: "enc_all enc ba vs = Inr b1" "ba_tail b1" "m_endian b1 = m_endian ba"
    "content b1 = map Some (concat (map (wire (m_endian ba)) vs))"
    using enc_all_ok [OF assms(1,3)] assms(2) by auto
  obtain b2 where b2: "setPosition b1 0 = Inr b2" "ba_readable b2" "m_endian b2 = m_endian ba"
    "rest b2 = map Some (concat (map (wire (m_endian b2)) vs)) @ []"
    using rewind_ok [of b1] b1 by (auto simp: ba_tail_def)
  show ?thesis
    using dec_all_ok [OF b2(2) assms(3) b2(4)] b1 b2 by blast
qed

end

text \<open>Two codecs in sequence are a codec of pairs, which gives the records of a protocol.\<close>

definition enc_pair ::
  "(bytearray \<Rightarrow> 'v \<Rightarrow> bytearray res) \<Rightarrow> (bytearray \<Rightarrow> 'w \<Rightarrow> bytearray res) \<Rightarrow>
     bytearray \<Rightarrow> 'v \<times> 'w \<Rightarrow> bytearray res" where
  "enc_pair e f ba p = rbind (e ba (fst p)) (\<lambda>ba'. f ba' (snd p))"

definition dec_pair ::
  "(bytearray \<Rightarrow> ('v \<times> bytearray) res) \<Rightarrow> (bytearray \<Rightarrow> ('w \<times> bytearray) res) \<Rightarrow>
     bytearray \<Rightarrow> (('v \<times> 'w) \<times> bytearray) res" where
  "dec_pair d g ba = rbind (d ba) (\<lambda>(v, ba'). rbind (g ba') (\<lambda>(w, ba''). Inr ((v, w), ba'')))"

locale codec_pair = l: byte_codec enc dec wire ok + r: byte_codec enc' dec' wire' ok'
  for enc :: "bytearray \<Rightarrow> 'v \<Rightarrow> bytearray res" and dec wire ok
    and enc' :: "bytearray \<Rightarrow> 'w \<Rightarrow> bytearray res" and dec' wire' ok'

sublocale codec_pair \<subseteq> pair: byte_codec "enc_pair enc enc'" "dec_pair dec dec'"
  "\<lambda>e p. wire e (fst p) @ wire' e (snd p)" "\<lambda>p. ok (fst p) \<and> ok' (snd p)"
proof unfold_locales
  fix ba :: bytearray and p
  assume "ba_tail ba" "ok (fst p) \<and> ok' (snd p)"
  then show "\<exists>ba'. enc_pair enc enc' ba p = Inr ba' \<and> ba_tail ba' \<and>
    content ba' = content ba @ map Some (wire (m_endian ba) (fst p) @ wire' (m_endian ba) (snd p)) \<and>
    m_endian ba' = m_endian ba"
    using l.enc_ok [of ba "fst p"] r.enc_ok [of _ "snd p"] by (fastforce simp: enc_pair_def)
next
  fix ba :: bytearray and p r
  assume a: "ba_readable ba" "ok (fst p) \<and> ok' (snd p)"
    "rest ba = map Some (wire (m_endian ba) (fst p) @ wire' (m_endian ba) (snd p)) @ r"
  then obtain b where b: "dec ba = Inr (fst p, b)" "ba_readable b" "m_endian b = m_endian ba"
    "rest b = map Some (wire' (m_endian b) (snd p)) @ r"
    using l.dec_ok [of ba "fst p" "map Some (wire' (m_endian ba) (snd p)) @ r"] by auto
  then show "\<exists>ba'. dec_pair dec dec' ba = Inr (p, ba') \<and> ba_readable ba' \<and> rest ba' = r \<and>
    m_endian ba' = m_endian ba"
    using r.dec_ok [OF b(2) _ b(4)] a(2) by (auto simp: dec_pair_def)
qed

subsection \<open>Fixed-width integers are codecs, whatever the host's byte order\<close>

lemma bytes_of_cells_Some [simp]: "bytes_of_cells (map Some bs) = Inr bs"
  by (auto simp: bytes_of_cells_def comp_def)

lemma readable_prefix:
  assumes "ba_readable ba" "rest ba = d @ r" "d \<noteq> []"
  shows "\<exists>ba'. ba_read ba (length d) = Inr (d, ba') \<and> ba_readable ba' \<and> rest ba' = r \<and>
    m_endian ba' = m_endian ba"
  using read_nonempty [of ba "length d"] assms by (auto simp: ba_readable_def)

lemma write_raw_tail:
  assumes "ba_tail ba"
  shows "\<exists>ba'. write_raw host ba v = Inr ba' \<and> ba_tail ba' \<and>
    content ba' = content ba @ map Some (mem_bytes host v) \<and> m_endian ba' = m_endian ba"
  unfolding write_raw_def using tail_write [OF assms] .

lemma read_raw_prefix:
  fixes v :: "'a::len word"
  assumes "8 dvd LENGTH('a)" "ba_readable ba" "rest ba = map Some (mem_bytes host v) @ r"
  shows "\<exists>ba'. read_raw host ba = Inr (v, ba') \<and> ba_readable ba' \<and> rest ba' = r \<and>
    m_endian ba' = m_endian ba"
proof -
  have "LENGTH('a) div 8 \<noteq> 0" using assms(1) by (auto simp: dvd_div_eq_0_iff)
  then have "map Some (mem_bytes host v) \<noteq> []" by (metis length_0_conv length_map length_mem_bytes)
  from readable_prefix [OF assms(2,3) this] show ?thesis
    using assms(1) by (auto simp: read_raw_def mem_word_mem_bytes)
qed

lemma mem_bytes_swapped:
  "8 dvd LENGTH('a) \<Longrightarrow>
     mem_bytes host (if e \<noteq> host then byteswap v else (v :: 'a::len word)) = mem_bytes e v"
  by (auto simp: mem_bytes_byteswap)

lemma swapped_codec:
  assumes "8 dvd LENGTH('a)"
  shows "byte_codec (write_swapped host) (read_swapped host) mem_bytes (\<lambda>v :: 'a::len word. True)"
proof unfold_locales
  fix ba :: bytearray and v :: "'a word"
  assume "ba_tail ba"
  then show "\<exists>ba'. write_swapped host ba v = Inr ba' \<and> ba_tail ba' \<and>
    content ba' = content ba @ map Some (mem_bytes (m_endian ba) v) \<and> m_endian ba' = m_endian ba"
    using write_raw_tail [of ba host "if m_endian ba \<noteq> host then byteswap v else v"]
    unfolding write_swapped_def mem_bytes_swapped [OF assms] by blast
next
  fix ba :: bytearray and v :: "'a word" and r
  assume a: "ba_readable ba" "rest ba = map Some (mem_bytes (m_endian ba) v) @ r"
  let ?v = "if m_endian ba \<noteq> host then byteswap v else v"
  have "rest ba = map Some (mem_bytes host ?v) @ r"
    unfolding mem_bytes_swapped [OF assms] by (rule a(2))
  from read_raw_prefix [OF assms a(1) this] obtain b where
    b: "read_raw host ba = Inr (?v, b)" "ba_readable b" "rest b = r" "m_endian b = m_endian ba" by blast
  then have "read_swapped host ba = Inr (v, b)"
    using assms by (simp add: read_swapped_def byteswap_byteswap)
  with b show "\<exists>ba'. read_swapped host ba = Inr (v, ba') \<and> ba_readable ba' \<and> rest ba' = r \<and>
    m_endian ba' = m_endian ba" by blast
qed

interpretation fuint8: byte_codec "writeFuint8 host" "readFuint8 host" "\<lambda>_ v. [v]" "\<lambda>_. True"
  for host
proof unfold_locales
  fix ba :: bytearray and v :: u8
  have [simp]: "mem_bytes host v = [v]"
    by (cases host) (simp_all add: mem_bytes_def bytes_le_def)
  show "ba_tail ba \<Longrightarrow> \<exists>ba'. writeFuint8 host ba v = Inr ba' \<and> ba_tail ba' \<and>
      content ba' = content ba @ map Some [v] \<and> m_endian ba' = m_endian ba"
    using write_raw_tail [of ba host v] by (simp add: writeFuint8_def)
  show "\<exists>ba'. readFuint8 host ba = Inr (v, ba') \<and> ba_readable ba' \<and> rest ba' = r \<and>
      m_endian ba' = m_endian ba" if "ba_readable ba" "rest ba = map Some [v] @ r" for r
    using read_raw_prefix [of ba host v r] that by (simp add: readFuint8_def)
qed

interpretation fuint16: byte_codec "writeFuint16 host" "readFuint16 host" mem_bytes "\<lambda>_. True"
  for host
  unfolding writeFuint16_def readFuint16_def by (rule swapped_codec) simp

interpretation fuint32: byte_codec "writeFuint32 host" "readFuint32 host" mem_bytes "\<lambda>_. True"
  for host
  unfolding writeFuint32_def readFuint32_def by (rule swapped_codec) simp

interpretation fuint64: byte_codec "writeFuint64 host" "readFuint64 host" mem_bytes "\<lambda>_. True"
  for host
  unfolding writeFuint64_def readFuint64_def by (rule swapped_codec) simp

subsection \<open>Variable-length integers are codecs\<close>

lemma less_128_bit: "(b :: u8) < 0x80 \<longleftrightarrow> \<not> bit b 7"
proof -
  have lt: "unat b < 256" using unsigned_less [of b] by simp
  have "unat b div 128 = (if unat b < 128 then 0 else 1)"
    using lt by (auto intro: div_nat_eqI)
  then have "odd (unat b div 2 ^ 7) \<longleftrightarrow> \<not> unat b < 128" by simp
  moreover have "bit b 7 \<longleftrightarrow> odd (unat b div 2 ^ 7)"
    unfolding bit_iff_odd [symmetric] by (simp only: bit_unsigned_iff possible_bit_def) simp
  moreover have "b < 0x80 \<longleftrightarrow> unat b < 128"
    by (simp only: word_less_nat_alt) simp
  ultimately show ?thesis by blast
qed

lemma chunk_flag: "\<not> (ucast (v AND 0x7F) OR 0x80 :: u8) < 0x80"
proof -
  have "bit (0x80 :: u8) 7" by simp
  then show ?thesis unfolding less_128_bit bit_or_iff by blast
qed

lemma mask_7F: "(0x7F :: 'a::len word) = mask 7"
  by (simp add: mask_eq_exp_minus_1)

lemma chunk_value:
  fixes v :: "'a::len word"
  shows "ucast ((ucast (v AND 0x7F) OR 0x80 :: u8) AND 0x7F) = (ucast (take_bit 7 v) :: 'b::len word)"
proof (rule bit_word_eqI)
  fix n assume n: "n < LENGTH('b)"
  have "\<not> bit (0x80 :: u8) n" if "n < 7"
    using that by (auto simp: less_Suc_eq numeral_eq_Suc) 
  then show "bit (ucast ((ucast (v AND 0x7F) OR 0x80 :: u8) AND 0x7F) :: 'b word) n \<longleftrightarrow>
    bit (ucast (take_bit 7 v) :: 'b word) n"
    using n unfolding mask_7F bit_ucast_iff bit_and_iff bit_or_iff bit_mask_iff bit_take_bit_iff
    by (auto dest: bit_imp_le_length)
qed

lemma or_chunks:
  fixes v :: "'a::len word"
  shows "push_bit i (ucast (take_bit 7 v)) OR push_bit (i + 7) (ucast (drop_bit 7 v)) =
    (push_bit i (ucast v) :: 'b::len word)"
proof (rule bit_word_eqI)
  fix n assume "n < LENGTH('b)"
  show "bit (push_bit i (ucast (take_bit 7 v)) OR push_bit (i + 7) (ucast (drop_bit 7 v)) :: 'b word) n
    \<longleftrightarrow> bit (push_bit i (ucast v) :: 'b word) n"
    using \<open>n < LENGTH('b)\<close>
    unfolding bit_or_iff bit_push_bit_iff bit_ucast_iff bit_take_bit_iff bit_drop_bit_eq comp_def
    by (cases "n < i + 7") auto
qed

lemma small_chunk: "unat v < 128 \<Longrightarrow> (ucast v :: u8) < 0x80"
  by (simp add: word_less_nat_alt unsigned_ucast_eq take_bit_eq_mod)

lemma small_chunk_value:
  fixes v :: "'a::len word"
  assumes "unat v < 128"
  shows "ucast (ucast v :: u8) = (ucast v :: 'b::len word)"
proof (rule unsigned_word_eqI [where 'a = nat])
  have u: "unat (ucast v :: u8) = unat v"
    using assms by (simp add: unsigned_ucast_eq take_bit_eq_mod)
  show "unat (ucast (ucast v :: u8) :: 'b word) = unat (ucast v :: 'b word)"
    by (rule trans [OF unsigned_ucast_eq trans [OF _ unsigned_ucast_eq [symmetric]]]) (simp only: u)
qed

text \<open>One step of either decoding loop, on a byte that is in front of the cursor.\<close>

lemma readFuint8_next:
  assumes "ba_readable ba" "rest ba = Some b # r"
  shows "\<exists>ba'. readFuint8 host ba = Inr (b, ba') \<and> ba_readable ba' \<and> rest ba' = r \<and>
    m_endian ba' = m_endian ba"
  using fuint8.dec_ok [of ba b r host] assms by simp

lemma read_loops_varint:
  "ba_readable ba \<Longrightarrow> rest ba = map Some (varint_tmp32 v) @ r \<Longrightarrow> i < 32 \<Longrightarrow>
   unat v < 2 ^ (32 - i) \<Longrightarrow>
   \<exists>ba'. readUint32_loop host ba i acc = Inr (acc OR push_bit i v, ba') \<and>
     readUint64_loop host ba i acc = Inr (acc OR push_bit i v, ba') \<and> ba_readable ba' \<and>
     rest ba' = r \<and> m_endian ba' = m_endian ba"
proof (induction v arbitrary: ba i acc rule: varint_tmp32.induct)
  case (1 v)
  show ?case
  proof (cases "0x80 \<le> v")
    case True
    let ?b = "ucast (v AND 0x7F) OR 0x80 :: u8"
    have ge: "128 \<le> unat v" using True by (simp add: word_le_nat_alt)
    have i: "7 < 32 - i"
    proof (rule ccontr)
      assume "\<not> 7 < 32 - i"
      then have "(2::nat) ^ (32 - i) \<le> 2 ^ 7" by (intro power_increasing) auto
      with "1.prems"(4) ge show False by simp
    qed
    then have i': "i < 32" "i < 64" "\<not> 32 \<le> i" "i + 7 < 32" by auto
    have "rest ba = Some ?b # (map Some (varint_tmp32 (drop_bit 7 v)) @ r)"
      using "1.prems"(2) True by (simp add: varint_tmp32.simps [of v])
    then obtain b1 where b1: "readFuint8 host ba = Inr (?b, b1)" "ba_readable b1"
      "rest b1 = map Some (varint_tmp32 (drop_bit 7 v)) @ r" "m_endian b1 = m_endian ba"
      using readFuint8_next [OF "1.prems"(1)] by blast
    have "(2::nat) ^ (32 - i) = 2 ^ (32 - (i + 7)) * 2 ^ 7"
      unfolding power_add [symmetric] using i by simp
    then have "unat (drop_bit 7 v) < 2 ^ (32 - (i + 7))"
      using "1.prems"(4) by (simp add: unat_drop_bit_div less_mult_imp_div_less)
    note IH = "1.IH" [OF True b1(2,3) _ this, of "acc OR push_bit i (ucast (?b AND 0x7F))"]
    have or: "(acc OR push_bit i (ucast (?b AND 0x7F))) OR push_bit (i + 7) (drop_bit 7 v) =
      acc OR push_bit i v"
      using or_chunks [of i v, where 'b = 32] by (simp add: chunk_value or.assoc del: push_bit_push_bit)
    show ?thesis
      using IH i' b1(4) unfolding or
      by (subst readUint32_loop.simps, subst readUint64_loop.simps) (simp add: b1(1) chunk_flag del: not_less)
  next
    case False
    then have lt: "unat v < 128" by (simp add: word_le_nat_alt)
    have "rest ba = Some (ucast v) # r"
      using "1.prems"(2) False by (simp add: varint_tmp32.simps [of v])
    then obtain b1 where b1: "readFuint8 host ba = Inr (ucast v, b1)" "ba_readable b1"
      "rest b1 = r" "m_endian b1 = m_endian ba"
      using readFuint8_next [OF "1.prems"(1)] by blast
    then show ?thesis
      using small_chunk [OF lt] small_chunk_value [OF lt, where 'b = 32] "1.prems"(3)
      by (subst readUint32_loop.simps, subst readUint64_loop.simps)
         simp
  qed
qed

lemma readUint32_varint:
  assumes "ba_readable ba" "rest ba = map Some (varint_tmp32 v) @ r"
  shows "\<exists>ba'. readUint32 host ba = Inr (v, ba') \<and> readUint64 host ba = Inr (ucast v, ba') \<and>
    ba_readable ba' \<and> rest ba' = r \<and> m_endian ba' = m_endian ba"
  using read_loops_varint [OF assms, of 0 host 0] unsigned_less [of v]
  by (auto simp: readUint32_def readUint64_def)

interpretation uint32: byte_codec writeUint32 "readUint32 host" "\<lambda>_. varint_tmp32" "\<lambda>_. True"
  for host
proof unfold_locales
  fix ba :: bytearray and v :: u32
  show "ba_tail ba \<Longrightarrow> \<exists>ba'. writeUint32 ba v = Inr ba' \<and> ba_tail ba' \<and>
    content ba' = content ba @ map Some (varint_tmp32 v) \<and> m_endian ba' = m_endian ba"
    unfolding writeUint32_def by (rule tail_write)
  show "\<exists>ba'. readUint32 host ba = Inr (v, ba') \<and> ba_readable ba' \<and> rest ba' = r \<and>
      m_endian ba' = m_endian ba" if "ba_readable ba" "rest ba = map Some (varint_tmp32 v) @ r" for r
    using readUint32_varint [OF that] by blast
qed

interpretation int32: byte_codec writeInt32 "readInt32 host"
  "\<lambda>_ v. varint_tmp32 (EncodeZigzag32 v)" "\<lambda>_. True"
  for host
proof unfold_locales
  fix ba :: bytearray and v :: u32
  show "ba_tail ba \<Longrightarrow> \<exists>ba'. writeInt32 ba v = Inr ba' \<and> ba_tail ba' \<and>
    content ba' = content ba @ map Some (varint_tmp32 (EncodeZigzag32 v)) \<and> m_endian ba' = m_endian ba"
    unfolding writeInt32_def using uint32.enc_ok by blast
  show "\<exists>ba'. readInt32 host ba = Inr (v, ba') \<and> ba_readable ba' \<and> rest ba' = r \<and>
      m_endian ba' = m_endian ba"
    if "ba_readable ba" "rest ba = map Some (varint_tmp32 (EncodeZigzag32 v)) @ r" for r
    using uint32.dec_ok [OF that(1) TrueI that(2), of host]
    by (auto simp: readInt32_def zigzag32_roundtrip_word)
qed

text \<open>
  A 64-bit value survives only when it fits 32 bits: the encoding of such a value is
  the 32-bit one; with six bytes or more the decoder shifts its 32-bit accumulator by 35.
\<close>

lemma varint_tmp64_small: "unat v < 2 ^ 32 \<Longrightarrow> varint_tmp64 v = varint_tmp32 (ucast v)"
proof (induction v rule: varint_tmp64.induct)
  case (1 v)
  have u: "unat (ucast v :: u32) = unat v"
    using "1.prems" by (simp add: unsigned_ucast_eq take_bit_eq_mod)
  have d: "ucast (drop_bit 7 v) = (drop_bit 7 (ucast v) :: u32)"
    by (rule unsigned_word_eqI [where 'a = nat])
       (use "1.prems" in \<open>simp add: unat_drop_bit_div u unsigned_ucast_eq take_bit_eq_mod\<close>)
  have a: "ucast (v AND 0x7F) = (ucast ((ucast v :: u32) AND 0x7F) :: u8)"
    by (rule bit_word_eqI) (auto simp: mask_7F bit_ucast_iff bit_and_iff bit_mask_iff)
  have ge: "0x80 \<le> v \<longleftrightarrow> 0x80 \<le> (ucast v :: u32)" by (simp add: word_le_nat_alt u)
  have s: "ucast v = (ucast (ucast v :: u32) :: u8)"
    by (rule bit_word_eqI) (auto simp: bit_ucast_iff)
  show ?case
  proof (cases "0x80 \<le> v")
    case True
    have "unat (drop_bit 7 v) < 2 ^ 32"
      using "1.prems" by (simp add: unat_drop_bit_div less_mult_imp_div_less)
    with "1.IH" [OF True] have IH: "varint_tmp64 (drop_bit 7 v) = varint_tmp32 (drop_bit 7 (ucast v))"
      by (simp only: d)
    show ?thesis
      unfolding varint_tmp64.simps [of v] varint_tmp32.simps [of "ucast v"] ge [symmetric]
      using True by (simp only: if_True IH a)
  next
    case False
    then show ?thesis
      unfolding varint_tmp64.simps [of v] varint_tmp32.simps [of "ucast v"] ge [symmetric]
      using s by (simp only: if_False)
  qed
qed

lemma readUint64_loop_overrun:
  "ba_readable ba \<Longrightarrow> rest ba = map Some (varint_tmp64 v) @ r \<Longrightarrow> i + 7 * k = 35 \<Longrightarrow>
   128 ^ k \<le> unat v \<Longrightarrow> readUint64_loop host ba i acc = Inl BadShift"
proof (induction k arbitrary: ba i acc v)
  case 0
  have "varint_tmp64 v \<noteq> []" by (subst varint_tmp64.simps) simp
  then obtain b ds where "varint_tmp64 v = b # ds" by (cases "varint_tmp64 v") auto
  then show ?case
    using readFuint8_next [OF "0.prems"(1), of b "map Some ds @ r" host] "0.prems"(2,3)
    by (subst readUint64_loop.simps) auto
next
  case (Suc k)
  have "128 * 1 \<le> unat v"
    using Suc.prems(4) mult_le_mono2 [OF one_le_power [of "128::nat" k], of 128]
    unfolding power_Suc by linarith
  then have ge: "0x80 \<le> v" by (simp add: word_le_nat_alt)
  let ?b = "ucast (v AND 0x7F) OR 0x80 :: u8"
  have "rest ba = Some ?b # (map Some (varint_tmp64 (drop_bit 7 v)) @ r)"
    using Suc.prems(2) ge by (simp add: varint_tmp64.simps [of v])
  then obtain b1 where b1: "readFuint8 host ba = Inr (?b, b1)" "ba_readable b1"
    "rest b1 = map Some (varint_tmp64 (drop_bit 7 v)) @ r"
    using readFuint8_next [OF Suc.prems(1)] by blast
  have "128 ^ k \<le> unat (drop_bit 7 v)"
    using Suc.prems(4) by (simp add: unat_drop_bit_div less_eq_div_iff_mult_less_eq mult.commute)
  then have "readUint64_loop host b1 (i + 7) acc' = Inl BadShift" for acc'
    using Suc.IH [OF b1(2,3)] Suc.prems(3) by simp
  then show ?case
    using Suc.prems(3) b1(1) chunk_flag [of v] by (subst readUint64_loop.simps) (simp del: not_less)
qed

lemma readUint64_overrun:
  assumes "ba_readable ba" "rest ba = map Some (varint_tmp64 v) @ r" "2 ^ 35 \<le> unat v"
  shows "readUint64 host ba = Inl BadShift"
  using readUint64_loop_overrun [OF assms(1,2), of 0 5 host 0] assms(3)
  by (simp add: readUint64_def)

abbreviation fits32 :: "u64 \<Rightarrow> bool" where
  "fits32 v \<equiv> unat v < 2 ^ 32"

lemma ucast_up_down: "fits32 v \<Longrightarrow> ucast (ucast v :: u32) = v"
  by (rule unsigned_word_eqI [where 'a = nat], rule trans [OF unsigned_ucast_eq])
     (simp add: unsigned_ucast_eq take_bit_eq_mod)

interpretation uint64: byte_codec writeUint64 "readUint64 host" "\<lambda>_. varint_tmp64" fits32
  for host
proof unfold_locales
  fix ba :: bytearray and v :: u64
  show "ba_tail ba \<Longrightarrow> \<exists>ba'. writeUint64 ba v = Inr ba' \<and> ba_tail ba' \<and>
    content ba' = content ba @ map Some (varint_tmp64 v) \<and> m_endian ba' = m_endian ba"
    unfolding writeUint64_def by (rule tail_write)
  show "\<exists>ba'. readUint64 host ba = Inr (v, ba') \<and> ba_readable ba' \<and> rest ba' = r \<and>
      m_endian ba' = m_endian ba"
    if "ba_readable ba" "fits32 v" "rest ba = map Some (varint_tmp64 v) @ r" for r
    using readUint32_varint [OF that(1), of "ucast v" r host] that(2,3)
    by (auto simp: varint_tmp64_small ucast_up_down)
qed

subsection \<open>Strings are codecs as long as they are not empty\<close>

text \<open>
  Reading an empty string right at the end of the capacity dereferences the null
  \<open>m_cur\<close> (lemma \<open>read_zero\<close>), so the codecs cover the non-empty strings.
\<close>

lemma read_chars_prefix:
  assumes "ba_readable ba" "rest ba = map Some s @ r" "s \<noteq> []"
  shows "\<exists>ba'. read_chars ba (length s) = Inr (s, ba') \<and> ba_readable ba' \<and> rest ba' = r \<and>
    m_endian ba' = m_endian ba"
  using readable_prefix [OF assms(1,2)] assms(3) by (auto simp: read_chars_def)

locale length_codec = byte_codec enc dec wire ok
  for enc :: "bytearray \<Rightarrow> 'a::len word \<Rightarrow> bytearray res" and dec wire ok
begin

abbreviation len :: "u8 list \<Rightarrow> 'a word" where
  "len s \<equiv> of_nat (length s)"

abbreviation str_ok :: "u8 list \<Rightarrow> bool" where
  "str_ok s \<equiv> s \<noteq> [] \<and> length s < 2 ^ LENGTH('a) \<and> ok (len s)"

lemma str_enc:
  assumes "ba_tail ba" "str_ok s"
  shows "\<exists>ba'. rbind (enc ba (len s)) (\<lambda>ba'. ba_write ba' (map Some s)) = Inr ba' \<and> ba_tail ba' \<and>
    content ba' = content ba @ map Some (wire (m_endian ba) (len s) @ s) \<and> m_endian ba' = m_endian ba"
proof -
  obtain b where b: "enc ba (len s) = Inr b" "ba_tail b" "m_endian b = m_endian ba"
    "content b = content ba @ map Some (wire (m_endian ba) (len s))"
    using enc_ok [OF assms(1), of "len s"] assms(2) by auto
  then show ?thesis using tail_write [OF b(2), of "map Some s"] by auto
qed

lemma str_dec:
  assumes "ba_readable ba" "str_ok s" "rest ba = map Some (wire (m_endian ba) (len s) @ s) @ r"
  shows "\<exists>ba'. rbind (dec ba) (\<lambda>(n, ba'). read_chars ba' (unat n)) = Inr (s, ba') \<and>
    ba_readable ba' \<and> rest ba' = r \<and> m_endian ba' = m_endian ba"
proof -
  obtain b where b: "dec ba = Inr (len s, b)" "ba_readable b"
    "rest b = map Some s @ r" "m_endian b = m_endian ba"
    using dec_ok [OF assms(1), of "len s" "map Some s @ r"] assms(2,3) by auto
  have "unat (len s) = length s"
    using assms(2) by (simp add: unsigned_of_nat take_bit_eq_mod)
  with b read_chars_prefix [OF b(2,3)] assms(2) show ?thesis by auto
qed

lemma str_codec:
  "byte_codec (\<lambda>ba s. rbind (enc ba (len s)) (\<lambda>ba'. ba_write ba' (map Some s)))
     (\<lambda>ba. rbind (dec ba) (\<lambda>(n, ba'). read_chars ba' (unat n)))
     (\<lambda>e s. wire e (len s) @ s) str_ok"
  by unfold_locales (blast intro: str_enc, blast intro: str_dec)

end

interpretation len16: length_codec "writeFuint16 host" "readFuint16 host" mem_bytes "\<lambda>_. True" for host ..
interpretation len32: length_codec "writeFuint32 host" "readFuint32 host" mem_bytes "\<lambda>_. True" for host ..
interpretation len64: length_codec "writeFuint64 host" "readFuint64 host" mem_bytes "\<lambda>_. True" for host ..
interpretation lenVint: length_codec writeUint64 "readUint64 host" "\<lambda>_. varint_tmp64" fits32 for host ..

interpretation stringF16: byte_codec "writeStringF16 host" "readStringF16 host"
  "\<lambda>e s. mem_bytes e (of_nat (length s) :: u16) @ s" "\<lambda>s. s \<noteq> [] \<and> length s < 2 ^ 16"
  for host
  using len16.str_codec [of host] by (simp add: writeStringF16_def [abs_def] readStringF16_def [abs_def])

interpretation stringF32: byte_codec "writeStringF32 host" "readStringF32 host"
  "\<lambda>e s. mem_bytes e (of_nat (length s) :: u32) @ s" "\<lambda>s. s \<noteq> [] \<and> length s < 2 ^ 32"
  for host
  using len32.str_codec [of host] by (simp add: writeStringF32_def [abs_def] readStringF32_def [abs_def])

interpretation stringF64: byte_codec "writeStringF64 host" "readStringF64 host"
  "\<lambda>e s. mem_bytes e (of_nat (length s) :: u64) @ s" "\<lambda>s. s \<noteq> [] \<and> length s < 2 ^ 64"
  for host
  using len64.str_codec [of host] by (simp add: writeStringF64_def [abs_def] readStringF64_def [abs_def])

lemma fits32_of_nat: "n < 2 ^ 64 \<Longrightarrow> fits32 (of_nat n) \<longleftrightarrow> n < 2 ^ 32"
  by (simp add: unsigned_of_nat take_bit_eq_mod)

interpretation stringVint: byte_codec writeStringVint "readStringVint host"
  "\<lambda>e s. varint_tmp64 (of_nat (length s)) @ s" "\<lambda>s. s \<noteq> [] \<and> length s < 2 ^ 32"
  for host
proof -
  have "(\<lambda>s :: u8 list. s \<noteq> [] \<and> length s < 2 ^ LENGTH(64) \<and> fits32 (of_nat (length s))) =
    (\<lambda>s. s \<noteq> [] \<and> length s < 2 ^ 32)"
    using fits32_of_nat by fastforce
  then show "byte_codec writeStringVint (readStringVint host)
    (\<lambda>e s. varint_tmp64 (of_nat (length s)) @ s) (\<lambda>s. s \<noteq> [] \<and> length s < 2 ^ 32)"
    using lenVint.str_codec [of host] by (simp add: writeStringVint_def [abs_def] readStringVint_def [abs_def])
qed

text \<open>A message of a length-prefixed protocol: a type tag and a string.\<close>

interpretation tagged: codec_pair "writeFuint16 host" "readFuint16 host" mem_bytes "\<lambda>_. True"
  "writeStringF32 host" "readStringF32 host"
  "\<lambda>e s. mem_bytes e (of_nat (length s) :: u32) @ s" "\<lambda>s. s \<noteq> [] \<and> length s < 2 ^ 32"
  for host ..

subsection \<open>Properties of the codec\<close>

lemma setEndian_tail:
  "0 < b \<Longrightarrow> ba_tail (setIsLittleEndian (new_ByteArray b) le) \<and>
     content (setIsLittleEndian (new_ByteArray b) le) = []"
  using tail_new [of b]
  by (auto simp: setIsLittleEndian_def ba_tail_def ba_wf_def cur_wr_def content_def flat_def new_ByteArray_def)

text \<open>
  The wire format of \<open>writeFuint32\<close> is the value in the buffer's byte
  order, on a little endian and on a big endian host alike, and a host of either
  byte order reads it back: buffers written on one machine are understood on another.
\<close>

theorem fuint32_host_independent:
  assumes "ba_tail ba" "ba_readable rb" "m_endian rb = m_endian ba"
    and "rest rb = map Some (mem_bytes (m_endian ba) v) @ r"
  shows "(\<exists>ba'. writeFuint32 host ba v = Inr ba' \<and>
      content ba' = content ba @ map Some (mem_bytes (m_endian ba) v)) \<and>
    (\<exists>rb'. readFuint32 host' rb = Inr (v, rb') \<and> rest rb' = r)"
  using fuint32.enc_ok [OF assms(1), where v = v and host = host]
    fuint32.dec_ok [OF assms(2), where v = v and r = r and host = host'] assms(3,4)
  by auto

theorem fuint32_host_independent_witness:
  "\<exists>ba'. writeFuint32 CIVAN_LITTLE_ENDIAN (new_ByteArray 2) 0x01020304 = Inr ba' \<and>
     content ba' = map Some [1, 2, 3, 4]"
proof -
  obtain rb where w: "ba_write (new_ByteArray 2) (map Some (mem_bytes CIVAN_BIG_ENDIAN (0x01020304 :: u32))) = Inr rb"
    "ba_tail rb" "content rb = map Some (mem_bytes CIVAN_BIG_ENDIAN (0x01020304 :: u32))"
    "m_endian rb = CIVAN_BIG_ENDIAN"
    using tail_write [OF tail_new [of 2], of "map Some (mem_bytes CIVAN_BIG_ENDIAN (0x01020304 :: u32))"]
    by (auto simp: new_ByteArray_def content_def)
  obtain rb' where "ba_readable rb'" "m_endian rb' = CIVAN_BIG_ENDIAN"
    "rest rb' = map Some (mem_bytes CIVAN_BIG_ENDIAN (0x01020304 :: u32)) @ []"
    using rewind_ok [of rb] w by (auto simp: ba_tail_def)
  moreover have "mem_bytes CIVAN_BIG_ENDIAN (0x01020304 :: u32) = [1, 2, 3, 4]"
    by (simp add: mem_bytes_def bytes_le_def upt_conv_Cons)
  ultimately show ?thesis
    using fuint32_host_independent [where ba = "new_ByteArray 2" and rb = rb' and v = "0x01020304" and r = "[]"
        and host = CIVAN_LITTLE_ENDIAN]
      tail_new [of 2] by (simp add: new_ByteArray_def content_def)
qed

text \<open>
  Any list of \<open>int32_t\<close> values written with \<open>writeInt32\<close> (ZigZag and
  variable-length) to a fresh buffer of any node size is read back by \<open>readInt32\<close>
  after \<open>setPosition(0)\<close>, and nothing is left.
\<close>

theorem int32_list_roundtrip:
  assumes "0 < b"
  shows "\<exists>ba1 ba2 ba3. enc_all writeInt32 (new_ByteArray b) vs = Inr ba1 \<and>
    setPosition ba1 0 = Inr ba2 \<and> dec_all (readInt32 host) ba2 (length vs) = Inr (vs, ba3) \<and>
    rest ba3 = []"
  using int32.roundtrip_all [OF tail_new [OF assms], of vs]
  by (simp add: new_ByteArray_def content_def list_all_iff)

theorem int32_list_roundtrip_witness:
  "\<exists>ba1 ba2 ba3. enc_all writeInt32 (new_ByteArray 1) [- 1, 300, 0x80000000] = Inr ba1 \<and>
    setPosition ba1 0 = Inr ba2 \<and>
    dec_all (readInt32 CIVAN_LITTLE_ENDIAN) ba2 (length [- 1, 300, 0x80000000 :: u32]) =
      Inr ([- 1, 300, 0x80000000], ba3) \<and> rest ba3 = []"
  using int32_list_roundtrip [OF zero_less_one, of "[- 1, 300, 0x80000000]" CIVAN_LITTLE_ENDIAN] .

text \<open>
  Messages of a 16-bit tag and a length-prefixed non-empty string, written
  with \<open>writeFuint16\<close> and \<open>writeStringF32\<close> in either byte order, are recovered in
  order with \<open>readFuint16\<close> and \<open>readStringF32\<close>.
\<close>

theorem tagged_strings_roundtrip:
  assumes "0 < b" "list_all (\<lambda>m. snd m \<noteq> [] \<and> length (snd m) < 2 ^ 32) ms"
  shows "\<exists>ba1 ba2 ba3.
    enc_all (enc_pair (writeFuint16 host) (writeStringF32 host))
      (setIsLittleEndian (new_ByteArray b) le) ms = Inr ba1 \<and>
    setPosition ba1 0 = Inr ba2 \<and>
    dec_all (dec_pair (readFuint16 host) (readStringF32 host)) ba2 (length ms) = Inr (ms, ba3) \<and>
    rest ba3 = []"
  using tagged.pair.roundtrip_all [where ba = "setIsLittleEndian (new_ByteArray b) le" and vs = ms and host = host]
    setEndian_tail [OF assms(1), of le] assms(2)
  by (simp add: list_all_iff)

theorem tagged_strings_roundtrip_witness:
  "\<exists>ba1 ba2 ba3.
    enc_all (enc_pair (writeFuint16 CIVAN_BIG_ENDIAN) (writeStringF32 CIVAN_BIG_ENDIAN))
      (setIsLittleEndian (new_ByteArray 3) True) [(1, [104, 105])] = Inr ba1 \<and>
    setPosition ba1 0 = Inr ba2 \<and>
    dec_all (dec_pair (readFuint16 CIVAN_BIG_ENDIAN) (readStringF32 CIVAN_BIG_ENDIAN)) ba2
      (length [(1 :: u16, [104, 105 :: u8])]) = Inr ([(1, [104, 105])], ba3) \<and>
    rest ba3 = []"
  using tagged_strings_roundtrip [of 3 "[(1, [104, 105])]" CIVAN_BIG_ENDIAN True] by simp

text \<open>
  The loop that fills the stack buffer \<open>tmp\<close> of \<open>writeUint32\<close> never
  needs more than its 5 bytes, the one of \<open>writeUint64\<close> never more than its 10.
\<close>

theorem varint_fits_buffer: "length (varint_tmp32 v) \<le> 5 \<and> length (varint_tmp64 w) \<le> 10"
proof -
  have "(2::nat) ^ 32 \<le> 128 ^ Suc 4" "(2::nat) ^ 64 \<le> 128 ^ Suc 9" by simp_all
  then have "unat v < 128 ^ Suc 4" "unat w < 128 ^ Suc 9"
    using unsigned_less [of v, where 'a = nat] unsigned_less [of w, where 'a = nat] by simp_all
  then show ?thesis using length_varint_tmp32_le [of v 4] length_varint_tmp64_le [of w 9] by simp
qed

text \<open>
  Property C40. \<open>readUint64\<close> returns what \<open>writeUint64\<close> wrote for every value below
  \<open>2 ^ 32\<close>, but its accumulator is a \<open>uint32_t\<close>: on the encoding of any value from
  \<open>2 ^ 35\<close> on it shifts a 32-bit integer by 35, which C++ leaves undefined.
\<close>

theorem uint64_decoding:
  assumes "ba_readable ba" "rest ba = map Some (varint_tmp64 v) @ r"
  shows "(unat v < 2 ^ 32 \<longrightarrow> (\<exists>ba'. readUint64 host ba = Inr (v, ba') \<and> rest ba' = r)) \<and>
    (2 ^ 35 \<le> unat v \<longrightarrow> readUint64 host ba = Inl BadShift)"
  using uint64.dec_ok [OF assms(1) _ assms(2), of host] readUint64_overrun [OF assms] by blast

theorem uint64_decoding_witness:
  "\<exists>ba ba'. ba_readable ba \<and> rest ba = map Some (varint_tmp64 5) \<and>
     readUint64 CIVAN_LITTLE_ENDIAN ba = Inr (5, ba') \<and> rest ba' = []"
proof -
  obtain b1 where "ba_tail b1" "content b1 = map Some (varint_tmp64 5)"
    using tail_write [OF tail_new [of 4], of "map Some (varint_tmp64 5)"]
    by (auto simp: new_ByteArray_def content_def)
  then obtain b2 where "ba_readable b2" "rest b2 = map Some (varint_tmp64 5) @ []"
    using rewind_ok [of b1] by (auto simp: ba_tail_def)
  with uint64_decoding [OF this] show ?thesis by auto
qed

lemma zigzag64_top:
  assumes "DecodeZigzag64 (EncodeZigzag64 v) = v"
  shows "bit v 62 \<longleftrightarrow> bit v 63"
proof -
  have b: "bit (EncodeZigzag64 v) m \<longleftrightarrow> (if m = 0 then bit v 63 else bit v (m - 1) \<noteq> bit v 63)" if "m < 64" for m
    unfolding EncodeZigzag64_bits using that by (subst bit_zigzag_push) auto
  show ?thesis
    using bit_DecodeZigzag [of 63 "EncodeZigzag64 v"] b [of 0] b [of 63] assms by auto
qed

text \<open>
  ZigZag: \<open>EncodeZigzag32\<close> followed by \<open>DecodeZigzag32\<close> and the narrowing
  of \<open>readInt32\<close> is the identity on every \<open>int32_t\<close>; the 64-bit pair is the identity
  exactly when the two top bits of the value agree, because \<open>DecodeZigzag64\<close>
  shifts a signed value arithmetically.
\<close>

theorem zigzag_roundtrip:
  "ucast (DecodeZigzag32 (ucast (EncodeZigzag32 v))) = v \<and>
   (DecodeZigzag64 (EncodeZigzag64 w) = w \<longleftrightarrow> bit w 62 = bit w 63)"
  using zigzag32_roundtrip_word zigzag64_roundtrip_word zigzag64_top by blast

end
