(* ===== verification/Civan_Fiber.thy ===== *)
theory Civan_Fiber
  imports Civan_Prelude
begin

section \<open>Coroutines: \<open>civan/fiber.cc\<close>\<close>

text \<open>
  One thread's view of its fibers. A fiber object has the slot \<open>m_ctx\<close> of a machine
  context; the model records in \<open>ctxs\<close> whose continuation each slot holds and in
  \<open>on_cpu\<close> whose continuation is running, so \<open>swapcontext(&a, &b)\<close> stores the
  running continuation in slot \<open>a\<close> and runs the one of slot \<open>b\<close>. The thread-local
  \<open>t_fiber\<close>, \<open>t_threadFiber\<close> and \<open>t_scheduler_fiber\<close> (of \<open>scheduler.cc\<close>) are
  addresses or null, the counters \<open>s_fiber_id\<close> and \<open>s_fiber_count\<close> are 64-bit. The
  \<open>ucontext\<close> calls and \<open>malloc\<close> succeed; addresses of new fibers are arguments.
\<close>

text \<open>\<open>FTERM\<close> is the state \<open>TERM\<close> of the source.\<close>

datatype State = INIT | HOLD | EXEC | FTERM | READY | EXCEPT

record 'f fiber =
  f_id :: u64
  f_stacksize :: u32
  f_state :: State
  f_stack :: bool
  f_cb :: "'f option"

record 'f fenv =
  fibers :: "nat \<rightharpoonup> 'f fiber"
  ctxs :: "nat \<Rightarrow> nat"
  on_cpu :: nat
  t_fiber :: "nat option"
  t_threadFiber :: "nat option"
  t_scheduler_fiber :: "nat option"
  s_fiber_id :: u64
  s_fiber_count :: u64

fun the_ptr :: "nat option \<Rightarrow> nat res" where
  "the_ptr None = Inl BadPointer"
| "the_ptr (Some p) = Inr p"

definition fiber_at :: "'f fenv \<Rightarrow> nat \<Rightarrow> 'f fiber res" where
  "fiber_at e p = (case fibers e p of None \<Rightarrow> Inl BadPointer | Some f \<Rightarrow> Inr f)"

definition set_fiber :: "nat \<Rightarrow> 'f fiber \<Rightarrow> 'f fenv \<Rightarrow> 'f fenv" where
  "set_fiber p f e = e\<lparr>fibers := (fibers e)(p \<mapsto> f)\<rparr>"

definition set_state :: "nat \<Rightarrow> State \<Rightarrow> 'f fenv \<Rightarrow> 'f fenv res" where
  "set_state p s e = rbind (fiber_at e p) (\<lambda>f. Inr (set_fiber p (f\<lparr>f_state := s\<rparr>) e))"

definition swapcontext :: "nat \<Rightarrow> nat \<Rightarrow> 'f fenv \<Rightarrow> 'f fenv" where
  "swapcontext a b e = e\<lparr>ctxs := (ctxs e)(a := on_cpu e), on_cpu := ctxs e b\<rparr>"

definition SetThis :: "nat option \<Rightarrow> 'f fenv \<Rightarrow> 'f fenv" where
  "SetThis f e = e\<lparr>t_fiber := f\<rparr>"

subsection \<open>Construction, reset and destruction\<close>

definition new_Fiber :: "nat \<Rightarrow> u32 \<Rightarrow> 'f option \<Rightarrow> u32 \<Rightarrow> 'f fenv \<Rightarrow> 'f fenv" where
  "new_Fiber p default_stack cb stacksize e =
     (set_fiber p \<lparr>f_id = s_fiber_id e + 1,
        f_stacksize = (if stacksize \<noteq> 0 then stacksize else default_stack),
        f_state = INIT, f_stack = True, f_cb = cb\<rparr> e)
     \<lparr>s_fiber_id := s_fiber_id e + 1, s_fiber_count := s_fiber_count e + 1, ctxs := (ctxs e)(p := p)\<rparr>"

text \<open>The private constructor turns the code that is running into a fiber.\<close>

definition new_main_Fiber :: "nat \<Rightarrow> 'f fenv \<Rightarrow> 'f fenv" where
  "new_main_Fiber p e =
     (SetThis (Some p) (set_fiber p \<lparr>f_id = 0, f_stacksize = 0, f_state = EXEC, f_stack = False, f_cb = None\<rparr> e))
     \<lparr>on_cpu := p, s_fiber_count := s_fiber_count e + 1\<rparr>"

definition Fiber_GetThis :: "nat \<Rightarrow> 'f fenv \<Rightarrow> nat \<times> 'f fenv" where
  "Fiber_GetThis p e = (case t_fiber e of Some f \<Rightarrow> (f, e)
     | None \<Rightarrow> (p, (new_main_Fiber p e)\<lparr>t_threadFiber := Some p\<rparr>))"

definition Fiber_reset :: "nat \<Rightarrow> 'f option \<Rightarrow> 'f fenv \<Rightarrow> 'f fenv res" where
  "Fiber_reset p cb e = rbind (fiber_at e p) (\<lambda>f.
     if \<not> f_stack f then Inl AssertFail
     else if f_state f \<notin> {FTERM, INIT, EXCEPT} then Inl AssertFail
     else Inr ((set_fiber p (f\<lparr>f_cb := cb, f_state := INIT\<rparr>) e)\<lparr>ctxs := (ctxs e)(p := p)\<rparr>))"

definition delete_Fiber :: "nat \<Rightarrow> 'f fenv \<Rightarrow> 'f fenv res" where
  "delete_Fiber p e = rbind (fiber_at e p) (\<lambda>f.
     let e1 = e\<lparr>s_fiber_count := s_fiber_count e - 1\<rparr> in
     if f_stack f then
       (if f_state f \<in> {FTERM, INIT, EXCEPT} then Inr (e1\<lparr>fibers := (fibers e1)(p := None)\<rparr>) else Inl AssertFail)
     else if f_cb f \<noteq> None then Inl AssertFail
     else if f_state f \<noteq> EXEC then Inl AssertFail
     else let e2 = (if t_fiber e1 = Some p then SetThis None e1 else e1)
          in Inr (e2\<lparr>fibers := (fibers e2)(p := None)\<rparr>))"

subsection \<open>Switching\<close>

definition swapIn :: "nat \<Rightarrow> 'f fenv \<Rightarrow> 'f fenv res" where
  "swapIn p e = rbind (fiber_at e p) (\<lambda>f.
     if f_state f = EXEC then Inl AssertFail
     else rbind (set_state p EXEC (SetThis (Some p) e)) (\<lambda>e1.
       rbind (the_ptr (t_scheduler_fiber e1)) (\<lambda>m. Inr (swapcontext m p e1))))"

definition swapOut :: "nat \<Rightarrow> 'f fenv \<Rightarrow> 'f fenv res" where
  "swapOut p e = (let e1 = SetThis (t_scheduler_fiber e) e in
     rbind (the_ptr (t_scheduler_fiber e1)) (\<lambda>m. Inr (swapcontext p m e1)))"

definition Fiber_call :: "nat \<Rightarrow> 'f fenv \<Rightarrow> 'f fenv res" where
  "Fiber_call p e =
     (if t_fiber e = None \<or> t_fiber e \<noteq> t_threadFiber e then Inl AssertFail
      else rbind (set_state p EXEC (SetThis (Some p) e)) (\<lambda>e1.
        rbind (the_ptr (t_threadFiber e1)) (\<lambda>m. Inr (swapcontext m p e1))))"

definition Fiber_back :: "nat \<Rightarrow> 'f fenv \<Rightarrow> 'f fenv res" where
  "Fiber_back p e = (let e1 = SetThis (t_threadFiber e) e in
     rbind (the_ptr (t_threadFiber e1)) (\<lambda>m. Inr (swapcontext p m e1)))"

text \<open>The yields of a running fiber; its current fiber exists, so \<open>GetThis\<close> creates none.\<close>

definition YieldToReady :: "'f fenv \<Rightarrow> 'f fenv res" where
  "YieldToReady e = rbind (the_ptr (t_fiber e)) (\<lambda>p. rbind (set_state p READY e) (swapOut p))"

definition YieldToHold :: "'f fenv \<Rightarrow> 'f fenv res" where
  "YieldToHold e = rbind (the_ptr (t_fiber e)) (\<lambda>p. rbind (set_state p HOLD e) (swapOut p))"

text \<open>
  The end of \<open>MainFunc\<close> (of \<open>CallerMainFunc\<close>, which goes back to the thread's main
  fiber): the body returned, or it threw.
\<close>

definition finish_body :: "bool \<Rightarrow> nat \<Rightarrow> 'f fenv \<Rightarrow> 'f fenv res" where
  "finish_body threw p e = rbind (fiber_at e p) (\<lambda>f.
     Inr (set_fiber p (if threw then f\<lparr>f_state := EXCEPT\<rparr> else f\<lparr>f_cb := None, f_state := FTERM\<rparr>) e))"

definition MainFunc_end :: "bool \<Rightarrow> 'f fenv \<Rightarrow> 'f fenv res" where
  "MainFunc_end threw e = rbind (the_ptr (t_fiber e)) (\<lambda>p. rbind (finish_body threw p e) (swapOut p))"

definition CallerMainFunc_end :: "bool \<Rightarrow> 'f fenv \<Rightarrow> 'f fenv res" where
  "CallerMainFunc_end threw e = rbind (the_ptr (t_fiber e)) (\<lambda>p. rbind (finish_body threw p e) (Fiber_back p))"

definition TotalFibers :: "'f fenv \<Rightarrow> u64" where
  "TotalFibers e = s_fiber_count e"

definition GetFiberId :: "'f fenv \<Rightarrow> u64 res" where
  "GetFiberId e = (case t_fiber e of None \<Rightarrow> Inr 0
     | Some p \<Rightarrow> rbind (fiber_at e p) (\<lambda>f. Inr (f_id f)))"

lemmas fiber_defs = swapIn_def swapOut_def Fiber_call_def Fiber_back_def YieldToReady_def
  YieldToHold_def finish_body_def MainFunc_end_def CallerMainFunc_end_def set_state_def fiber_at_def
  set_fiber_def swapcontext_def SetThis_def

subsection \<open>The switching discipline\<close>

text \<open>
  On a scheduler thread the scheduler fiber \<open>m\<close> (without a body of its own slot in the
  queue) switches to a fiber, and a fiber switches back. The invariant: the current
  fiber of the thread is the one on the processor, every suspended fiber's slot
  holds its own continuation, the scheduler fiber never leaves \<open>EXEC\<close>, and another
  fiber is on the processor only in state \<open>EXEC\<close>.
\<close>

definition fenv_inv :: "nat \<Rightarrow> 'f fenv \<Rightarrow> bool" where
  "fenv_inv m e \<longleftrightarrow> t_scheduler_fiber e = Some m \<and> t_fiber e = Some (on_cpu e) \<and>
     (\<forall>p\<in>dom (fibers e). p \<noteq> on_cpu e \<longrightarrow> ctxs e p = p) \<and>
     on_cpu e \<in> dom (fibers e) \<and> m \<in> dom (fibers e) \<and>
     f_state (the (fibers e m)) = EXEC \<and> f_state (the (fibers e (on_cpu e))) = EXEC"

text \<open>What a slice of a fiber ends with.\<close>

datatype slice_end = Ready | Hold | Finish bool

fun end_slice :: "slice_end \<Rightarrow> 'f fenv \<Rightarrow> 'f fenv res" where
  "end_slice Ready e = YieldToReady e"
| "end_slice Hold e = YieldToHold e"
| "end_slice (Finish threw) e = MainFunc_end threw e"

fun end_state :: "slice_end \<Rightarrow> State" where
  "end_state Ready = READY"
| "end_state Hold = HOLD"
| "end_state (Finish threw) = (if threw then EXCEPT else FTERM)"

lemma swapIn_ok:
  assumes "fenv_inv m e" "on_cpu e = m" "fibers e p = Some f" "f_state f \<noteq> EXEC"
  shows "\<exists>e'. swapIn p e = Inr e' \<and> fenv_inv m e' \<and> on_cpu e' = p \<and>
    fibers e' = (fibers e)(p \<mapsto> f\<lparr>f_state := EXEC\<rparr>)"
proof -
  have "p \<noteq> m" using assms by (auto simp: fenv_inv_def)
  then show ?thesis using assms by (auto simp: fiber_defs fenv_inv_def dom_def)
qed

fun end_fiber :: "slice_end \<Rightarrow> 'f fiber \<Rightarrow> 'f fiber" where
  "end_fiber (Finish False) f = f\<lparr>f_cb := None, f_state := FTERM\<rparr>"
| "end_fiber s f = f\<lparr>f_state := end_state s\<rparr>"

lemma state_end_fiber [simp]: "f_state (end_fiber s f) = end_state s"
  by (cases "(s, f)" rule: end_fiber.cases) simp_all

lemma end_slice_ok:
  assumes "fenv_inv m e" "on_cpu e = p" "p \<noteq> m" "fibers e p = Some f"
  shows "\<exists>e'. end_slice s e = Inr e' \<and> fenv_inv m e' \<and> on_cpu e' = m \<and> fibers e' = (fibers e)(p \<mapsto> end_fiber s f)"
proof (cases s)
  case (Finish threw)
  with assms show ?thesis by (cases threw) (auto simp: fiber_defs fenv_inv_def dom_def)
qed (use assms in \<open>auto simp: fiber_defs fenv_inv_def dom_def\<close>)

inductive fiber_step :: "nat \<Rightarrow> 'f fenv \<Rightarrow> 'f fenv \<Rightarrow> bool" for m where
  fs_new: "fibers e p = None \<Longrightarrow> fiber_step m e (new_Fiber p ds cb st e)"
| fs_in: "on_cpu e = m \<Longrightarrow> swapIn p e = Inr e' \<Longrightarrow> fiber_step m e e'"
| fs_end: "on_cpu e \<noteq> m \<Longrightarrow> end_slice s e = Inr e' \<Longrightarrow> fiber_step m e e'"
| fs_reset: "p \<noteq> on_cpu e \<Longrightarrow> Fiber_reset p cb e = Inr e' \<Longrightarrow> fiber_step m e e'"
| fs_delete: "p \<noteq> m \<Longrightarrow> p \<noteq> on_cpu e \<Longrightarrow> delete_Fiber p e = Inr e' \<Longrightarrow> fiber_step m e e'"

inductive_cases fiber_stepE: "fiber_step m e e'"

lemma fenv_inv_new: "fenv_inv m e \<Longrightarrow> fibers e p = None \<Longrightarrow> fenv_inv m (new_Fiber p ds cb st e)"
  by (auto simp: fenv_inv_def new_Fiber_def set_fiber_def)

lemma fenv_inv_reset:
  "fenv_inv m e \<Longrightarrow> p \<noteq> on_cpu e \<Longrightarrow> Fiber_reset p cb e = Inr e' \<Longrightarrow> fenv_inv m e'"
  by (auto simp: fenv_inv_def Fiber_reset_def fiber_at_def set_fiber_def split: option.splits if_splits)

lemma fenv_inv_delete:
  assumes "fenv_inv m e" "p \<noteq> m" "p \<noteq> on_cpu e" "delete_Fiber p e = Inr e'"
  shows "fenv_inv m e'"
  using assms
  by (auto simp: fenv_inv_def delete_Fiber_def fiber_at_def SetThis_def Let_def split: option.splits if_splits)

lemma fiber_step_inv: "fiber_step m e e' \<Longrightarrow> fenv_inv m e \<Longrightarrow> fenv_inv m e'"
proof (induction rule: fiber_step.induct)
  case (fs_new e p ds cb st)
  then show ?case by (simp add: fenv_inv_new)
next
  case (fs_in e p e')
  then obtain f where "fibers e p = Some f" "f_state f \<noteq> EXEC"
    by (auto simp: swapIn_def fiber_at_def split: option.splits if_splits)
  then show ?case using swapIn_ok [of m e p f] fs_in by auto
next
  case (fs_end e s e')
  then obtain f where "fibers e (on_cpu e) = Some f" by (auto simp: fenv_inv_def)
  then show ?case using end_slice_ok [of m e "on_cpu e" f s] fs_end by auto
next
  case (fs_reset p e cb e')
  then show ?case by (blast intro: fenv_inv_reset)
next
  case (fs_delete p e e')
  then show ?case by (blast intro: fenv_inv_delete)
qed

lemma fiber_steps_inv: "(fiber_step m)\<^sup>*\<^sup>* e e' \<Longrightarrow> fenv_inv m e \<Longrightarrow> fenv_inv m e'"
  by (induction rule: rtranclp_induct) (auto intro: fiber_step_inv)

text \<open>A scheduler thread starts with \<open>GetThis\<close> on a thread that has no fiber yet.\<close>

definition thread_start :: "nat \<Rightarrow> 'f fenv" where
  "thread_start m = (snd (Fiber_GetThis m \<lparr>fibers = (\<lambda>_. None), ctxs = (\<lambda>p. p), on_cpu = m, t_fiber = None,
      t_threadFiber = None, t_scheduler_fiber = None, s_fiber_id = 0, s_fiber_count = 0\<rparr>))
      \<lparr>t_scheduler_fiber := Some m\<rparr>"

lemma thread_start_inv: "fenv_inv m (thread_start m)"
  by (simp add: thread_start_def Fiber_GetThis_def new_main_Fiber_def fiber_defs fenv_inv_def)

subsection \<open>Properties of the fibers\<close>



end
