(* ===== verification/Civan_Scheduler.thy ===== *)
theory Civan_Scheduler
  imports Civan_Fiber
begin

section \<open>The scheduler: \<open>civan/scheduler.cc\<close>\<close>

text \<open>
  A \<open>Scheduler\<close> runs tasks (a fiber or a callback, possibly pinned to a thread) on its
  threads, each of which executes \<open>Scheduler::run\<close>. The state has the queue, the
  states of the fibers, the counters and, for every thread, where it is in \<open>run\<close>.
  What is done under the mutex, and what is done between two switches, is one step;
  the steps of different threads interleave freely. The counters are \<open>size_t\<close>: the
  invariant shows that the decrements never go below zero, so \<open>nat\<close> is exact.
  User code (the bodies of fibers and callbacks) shows only in how a slice ends.
\<close>

subsection \<open>State\<close>

record 'f ft =
  ft_fiber :: "nat option"
  ft_cb :: "'f option"
  ft_thread :: int

text \<open>Where a thread is in \<open>run\<close>, with what its locals \<open>ft\<close> and \<open>cb_fiber\<close> hold.\<close>

datatype 'f pc =
    Loop
  | Picked "'f ft" bool
  | InFiber nat
  | BackFiber nat
  | InCb nat
  | BackCb nat
  | InIdle
  | Exited

record 'f sched =
  m_fibers :: "'f ft list"
  states :: "nat \<Rightarrow> State"
  m_activeThreadCount :: nat
  m_idleThreadCount :: nat
  m_stopping :: bool
  m_autoStops :: bool
  pcs :: "int \<Rightarrow> 'f pc"
  idle_state :: "int \<Rightarrow> State"

definition fiber_task :: "nat \<Rightarrow> int \<Rightarrow> 'f ft" where
  "fiber_task f thr = \<lparr>ft_fiber = Some f, ft_cb = None, ft_thread = thr\<rparr>"

definition cb_task :: "'f \<Rightarrow> int \<Rightarrow> 'f ft" where
  "cb_task g thr = \<lparr>ft_fiber = None, ft_cb = Some g, ft_thread = thr\<rparr>"

definition new_Scheduler :: "'f sched" where
  "new_Scheduler = \<lparr>m_fibers = [], states = (\<lambda>_. INIT), m_activeThreadCount = 0, m_idleThreadCount = 0,
     m_stopping = True, m_autoStops = False, pcs = (\<lambda>_. Loop), idle_state = (\<lambda>_. INIT)\<rparr>"

definition set_pc :: "int \<Rightarrow> 'f pc \<Rightarrow> 'f sched \<Rightarrow> 'f sched" where
  "set_pc t c s = s\<lparr>pcs := (pcs s)(t := c)\<rparr>"

definition set_fstate :: "nat \<Rightarrow> State \<Rightarrow> 'f sched \<Rightarrow> 'f sched" where
  "set_fstate f x s = s\<lparr>states := (states s)(f := x)\<rparr>"

subsection \<open>Scheduling\<close>

text \<open>The result says whether \<open>tickle\<close> is called.\<close>

definition scheduleNoLock :: "'f ft \<Rightarrow> 'f sched \<Rightarrow> bool \<times> 'f sched" where
  "scheduleNoLock x s =
     (m_fibers s = [],
      if ft_fiber x \<noteq> None \<or> ft_cb x \<noteq> None then s\<lparr>m_fibers := m_fibers s @ [x]\<rparr> else s)"

definition schedule :: "'f ft \<Rightarrow> 'f sched \<Rightarrow> bool \<times> 'f sched" where
  "schedule x s = scheduleNoLock x s"

fun schedule_range :: "'f ft list \<Rightarrow> 'f sched \<Rightarrow> bool \<times> 'f sched" where
  "schedule_range [] s = (False, s)"
| "schedule_range (x # xs) s = (let (n1, s1) = scheduleNoLock x s; (n2, s2) = schedule_range xs s1
     in (n1 \<or> n2, s2))"

definition sched_stopping :: "'f sched \<Rightarrow> bool" where
  "sched_stopping s = (m_autoStops s \<and> m_stopping s \<and> m_fibers s = [] \<and> m_activeThreadCount s = 0)"

definition start_flags :: "'f sched \<Rightarrow> 'f sched" where
  "start_flags s = (if m_stopping s then s\<lparr>m_stopping := False\<rparr> else s)"

definition stop_flags :: "'f sched \<Rightarrow> 'f sched" where
  "stop_flags s = s\<lparr>m_autoStops := True, m_stopping := True\<rparr>"

subsection \<open>Construction, start and stop\<close>

text \<open>
  The part of a scheduler that is fixed while it runs. \<open>m_rootFiber\<close> is the fiber made
  from the calling thread, \<open>this_thread\<close> the id of the caller's thread,
  \<open>is_this\<close> whether \<open>GetThis() == this\<close> there.
\<close>

record sched_cfg =
  m_threadCount :: nat
  m_rootThread :: int
  m_threadIds :: "int list"
  m_threads :: "int list"
  m_rootFiber :: "nat option"

definition Scheduler_ctor :: "nat \<Rightarrow> bool \<Rightarrow> int \<Rightarrow> nat \<Rightarrow> sched_cfg res" where
  "Scheduler_ctor threads use_caller this_thread root =
     (if threads = 0 then Inl AssertFail
      else if use_caller
      then Inr \<lparr>m_threadCount = threads - 1, m_rootThread = this_thread, m_threadIds = [this_thread],
             m_threads = [], m_rootFiber = Some root\<rparr>
      else Inr \<lparr>m_threadCount = threads, m_rootThread = - 1, m_threadIds = [], m_threads = [],
             m_rootFiber = None\<rparr>)"

definition Scheduler_start :: "(nat \<Rightarrow> int) \<Rightarrow> sched_cfg \<Rightarrow> 'f sched \<Rightarrow> (sched_cfg \<times> 'f sched) res" where
  "Scheduler_start new_thread c s =
     (if \<not> m_stopping s then Inr (c, s)
      else if m_threads c \<noteq> [] then Inl AssertFail
      else let ids = map new_thread [0..<m_threadCount c]
           in Inr (c\<lparr>m_threads := ids, m_threadIds := m_threadIds c @ ids\<rparr>, start_flags s))"

text \<open>
  \<open>stop\<close> up to the joins: how often it tickles, whether it runs the root fiber on the
  calling thread, and which threads it joins.
\<close>

record stop_effect =
  tickles :: nat
  calls_root :: bool
  joins :: "int list"

definition Scheduler_stop ::
  "bool \<Rightarrow> sched_cfg \<Rightarrow> 'f sched \<Rightarrow> (stop_effect \<times> sched_cfg \<times> 'f sched) res" where
  "Scheduler_stop is_this c s =
     (let s1 = s\<lparr>m_autoStops := True\<rparr>;
          early = (case m_rootFiber c of None \<Rightarrow> False
            | Some r \<Rightarrow> m_threadCount c = 0 \<and> (states s1 r = FTERM \<or> states s1 r = INIT));
          s2 = (if early then s1\<lparr>m_stopping := True\<rparr> else s1)
      in if early \<and> sched_stopping s2 then Inr (\<lparr>tickles = 0, calls_root = False, joins = []\<rparr>, c, s2)
         else if (m_rootThread c \<noteq> - 1) \<noteq> is_this then Inl AssertFail
         else let s3 = s2\<lparr>m_stopping := True\<rparr>
              in Inr (\<lparr>tickles = m_threadCount c + (if m_rootFiber c \<noteq> None then 1 else 0),
                       calls_root = (m_rootFiber c \<noteq> None \<and> \<not> sched_stopping s3),
                       joins = m_threads c\<rparr>, c\<lparr>m_threads := []\<rparr>, s3))"

text \<open>\<open>Scheduler::~Scheduler\<close>: the scheduler must have been stopped; \<open>t\<close> is the scheduler of the thread.\<close>

definition Scheduler_dtor :: "'p \<Rightarrow> bool \<Rightarrow> 'p option \<Rightarrow> 'p option res" where
  "Scheduler_dtor this stopping t = (if \<not> stopping then Inl AssertFail else Inr (if t = Some this then None else t))"

subsection \<open>The run loop\<close>

text \<open>The walk over \<open>m_fibers\<close>: whether to tickle, and the task taken with what is left.\<close>

fun pick :: "int \<Rightarrow> (nat \<Rightarrow> State) \<Rightarrow> 'f ft list \<Rightarrow> (bool \<times> ('f ft \<times> 'f ft list) option) res" where
  "pick t st [] = Inr (False, None)"
| "pick t st (x # xs) =
     (if ft_thread x \<noteq> - 1 \<and> ft_thread x \<noteq> t
      then rbind (pick t st xs) (\<lambda>(tk, r). Inr (True, map_option (\<lambda>(y, ys). (y, x # ys)) r))
      else if ft_fiber x = None \<and> ft_cb x = None then Inl AssertFail
      else if (case ft_fiber x of Some f \<Rightarrow> st f = EXEC | None \<Rightarrow> False)
      then rbind (pick t st xs) (\<lambda>(tk, r). Inr (tk, map_option (\<lambda>(y, ys). (y, x # ys)) r))
      else Inr (False, Some (x, xs)))"

definition empty_ft :: "'f ft" where
  "empty_ft = \<lparr>ft_fiber = None, ft_cb = None, ft_thread = - 1\<rparr>"

text \<open>The head of the loop: leave it, or take a task under the lock.\<close>

definition run_pick :: "int \<Rightarrow> 'f sched \<Rightarrow> (bool \<times> 'f sched) res" where
  "run_pick t s =
     (if sched_stopping s then Inr (False, set_pc t Exited s)
      else rbind (pick t (states s) (m_fibers s)) (\<lambda>(tk, r). case r of
         None \<Rightarrow> Inr (tk, set_pc t (Picked empty_ft False) s)
       | Some (x, rest) \<Rightarrow> Inr (tk, set_pc t (Picked x True)
           (s\<lparr>m_fibers := rest, m_activeThreadCount := Suc (m_activeThreadCount s)\<rparr>))))"

text \<open>
  From the taken task to the switch; \<open>p\<close> is the address of a new callback fiber
  (\<open>cb_fiber\<close> is null here: every branch that sets it resets it). A fiber whose body
  threw cannot be resumed: its context ends in a failing assertion.
\<close>

definition runnable :: "'f ft \<Rightarrow> 'f sched \<Rightarrow> bool" where
  "runnable x s = (case ft_fiber x of None \<Rightarrow> False
     | Some f \<Rightarrow> states s f \<noteq> FTERM \<and> states s f \<noteq> EXCEPT)"

definition run_enter :: "int \<Rightarrow> nat \<Rightarrow> 'f ft \<Rightarrow> bool \<Rightarrow> 'f sched \<Rightarrow> 'f sched res" where
  "run_enter t p x is_active s =
     (if runnable x s then
        (let f = the (ft_fiber x) in
         if states s f = EXEC then Inl AssertFail
         else Inr (set_pc t (InFiber f) (set_fstate f EXEC s)))
      else if ft_cb x \<noteq> None then Inr (set_pc t (InCb p) (set_fstate p EXEC s))
      else if is_active then Inr (set_pc t Loop (s\<lparr>m_activeThreadCount := m_activeThreadCount s - 1\<rparr>))
      else if idle_state s t = FTERM then Inr (set_pc t Exited s)
      else if idle_state s t = EXEC \<or> idle_state s t = EXCEPT then Inl AssertFail
      else Inr (set_pc t InIdle (s\<lparr>m_idleThreadCount := Suc (m_idleThreadCount s),
                                 idle_state := (idle_state s)(t := EXEC)\<rparr>)))"

text \<open>
  The slice ends: the fiber sets its own state (\<open>None\<close>: a bare \<open>swapOut\<close>, which leaves
  \<open>EXEC\<close>) and the scheduler fiber is resumed.
\<close>

definition slice_ends :: "int \<Rightarrow> State option \<Rightarrow> 'f sched \<Rightarrow> 'f sched res" where
  "slice_ends t x s = (case pcs s t of
     InFiber f \<Rightarrow> Inr (set_pc t (BackFiber f) (case x of None \<Rightarrow> s | Some y \<Rightarrow> set_fstate f y s))
   | InCb f \<Rightarrow> Inr (set_pc t (BackCb f) (case x of None \<Rightarrow> s | Some y \<Rightarrow> set_fstate f y s))
   | InIdle \<Rightarrow> (let y = (case x of None \<Rightarrow> EXEC | Some y \<Rightarrow> y) in
       Inr (set_pc t Loop (s\<lparr>m_idleThreadCount := m_idleThreadCount s - 1,
         idle_state := (idle_state s)(t := if y \<noteq> FTERM \<and> y \<noteq> EXCEPT then HOLD else y)\<rparr>)))
   | _ \<Rightarrow> Inl LogicError)"

text \<open>After the switch back: the counter, and the fiber's fate by its state.\<close>

definition run_after :: "int \<Rightarrow> nat \<Rightarrow> 'f sched \<Rightarrow> 'f sched" where
  "run_after t f s =
     (let s1 = s\<lparr>m_activeThreadCount := m_activeThreadCount s - 1\<rparr>;
          s2 = (if states s1 f = READY then snd (schedule (fiber_task f (- 1)) s1)
                else if states s1 f \<noteq> FTERM \<and> states s1 f \<noteq> EXCEPT then set_fstate f HOLD s1
                else s1)
      in set_pc t Loop s2)"

subsection \<open>What \<open>pick\<close> takes\<close>

definition eligible :: "int \<Rightarrow> (nat \<Rightarrow> State) \<Rightarrow> 'f ft \<Rightarrow> bool" where
  "eligible t st x \<longleftrightarrow> (ft_thread x = - 1 \<or> ft_thread x = t) \<and>
     (case ft_fiber x of Some f \<Rightarrow> st f \<noteq> EXEC | None \<Rightarrow> True)"

definition real_task :: "'f ft \<Rightarrow> bool" where
  "real_task x \<longleftrightarrow> ft_fiber x \<noteq> None \<or> ft_cb x \<noteq> None"

lemma pick_spec:
  "list_all real_task q \<Longrightarrow>
   (\<exists>tk. pick t st q = Inr (tk, None) \<and> list_all (\<lambda>x. \<not> eligible t st x) q) \<or>
   (\<exists>tk us x vs. q = us @ x # vs \<and> pick t st q = Inr (tk, Some (x, us @ vs)) \<and> eligible t st x \<and>
      list_all (\<lambda>x. \<not> eligible t st x) us \<and> (tk \<longleftrightarrow> (\<exists>y\<in>set us. ft_thread y \<noteq> - 1 \<and> ft_thread y \<noteq> t)))"
proof (induction q)
  case (Cons x xs)
  then consider (none) tk where "pick t st xs = Inr (tk, None)" "list_all (\<lambda>x. \<not> eligible t st x) xs"
    | (some) tk us y vs where "xs = us @ y # vs" "pick t st xs = Inr (tk, Some (y, us @ vs))" "eligible t st y"
        "list_all (\<lambda>x. \<not> eligible t st x) us" "tk \<longleftrightarrow> (\<exists>y\<in>set us. ft_thread y \<noteq> - 1 \<and> ft_thread y \<noteq> t)"
    by auto
  note cs = this
  show ?case
  proof (cases "eligible t st x")
    case True
    then have "pick t st (x # xs) = Inr (False, Some (x, xs))"
      using Cons.prems by (auto simp: eligible_def real_task_def split: option.splits)
    with True show ?thesis
      by (intro disjI2 exI [of _ False] exI [of _ "[]"] exI [of _ x] exI [of _ xs]) simp
  next
    case False
    then have p: "pick t st (x # xs) = rbind (pick t st xs) (\<lambda>(tk, r).
        Inr (tk \<or> ft_thread x \<noteq> - 1 \<and> ft_thread x \<noteq> t, map_option (\<lambda>(y, ys). (y, x # ys)) r)) \<or>
      ft_thread x \<noteq> - 1 \<and> ft_thread x \<noteq> t \<and> pick t st (x # xs) = rbind (pick t st xs) (\<lambda>(tk, r).
        Inr (True, map_option (\<lambda>(y, ys). (y, x # ys)) r))"
      using Cons.prems by (auto simp: eligible_def real_task_def split: option.splits)
    show ?thesis
    proof (cases rule: cs)
      case none
      with False p show ?thesis by auto
    next
      case (some tk us y vs)
      let ?tk = "tk \<or> ft_thread x \<noteq> - 1 \<and> ft_thread x \<noteq> t"
      have "x # xs = (x # us) @ y # vs" using some(1) by simp
      moreover have "pick t st (x # xs) = Inr (?tk, Some (y, (x # us) @ vs))"
        using p some(2) by auto
      moreover have "list_all (\<lambda>x. \<not> eligible t st x) (x # us)" using some(4) False by simp
      moreover have "?tk \<longleftrightarrow> (\<exists>y\<in>set (x # us). ft_thread y \<noteq> - 1 \<and> ft_thread y \<noteq> t)"
        using some(5) by auto
      ultimately show ?thesis using some(3) by blast
    qed
  qed
qed auto

subsection \<open>Interleaved runs and their invariant\<close>

fun holds :: "'f pc \<Rightarrow> nat set" where
  "holds (Picked x a) = set_option (ft_fiber x)"
| "holds (InFiber f) = {f}"
| "holds (BackFiber f) = {f}"
| "holds (InCb f) = {f}"
| "holds (BackCb f) = {f}"
| "holds _ = {}"

fun active_pc :: "'f pc \<Rightarrow> bool" where
  "active_pc (Picked x a) = a"
| "active_pc (InFiber f) = True"
| "active_pc (BackFiber f) = True"
| "active_pc (InCb f) = True"
| "active_pc (BackCb f) = True"
| "active_pc _ = False"

fun idle_pc :: "'f pc \<Rightarrow> bool" where
  "idle_pc InIdle = True"
| "idle_pc _ = False"

definition queued :: "'f sched \<Rightarrow> nat list" where
  "queued s = List.map_filter ft_fiber (m_fibers s)"

definition busy :: "int list \<Rightarrow> 'f sched \<Rightarrow> nat set" where
  "busy tids s = set (queued s) \<union> (\<Union>t\<in>set tids. holds (pcs s t))"

text \<open>
  \<open>ss_schedule\<close> is the discipline of the client: a fiber is scheduled only when it is
  neither queued nor held by a thread. \<open>x \<noteq> Some EXEC\<close>: a yield sets another state.
\<close>

inductive sched_step :: "int list \<Rightarrow> 'f sched \<Rightarrow> 'f sched \<Rightarrow> bool" for tids where
  ss_schedule: "set_option (ft_fiber x) \<inter> busy tids s = {} \<Longrightarrow> sched_step tids s (snd (schedule x s))"
| ss_pick: "t \<in> set tids \<Longrightarrow> pcs s t = Loop \<Longrightarrow> run_pick t s = Inr (tk, s') \<Longrightarrow> sched_step tids s s'"
| ss_enter: "t \<in> set tids \<Longrightarrow> pcs s t = Picked x a \<Longrightarrow> p \<notin> busy tids s \<Longrightarrow>
    run_enter t p x a s = Inr s' \<Longrightarrow> sched_step tids s s'"
| ss_end: "t \<in> set tids \<Longrightarrow> slice_ends t x s = Inr s' \<Longrightarrow> sched_step tids s s'"
| ss_after: "t \<in> set tids \<Longrightarrow> pcs s t = BackFiber f \<or> pcs s t = BackCb f \<Longrightarrow>
    sched_step tids s (run_after t f s)"
| ss_start: "sched_step tids s (start_flags s)"
| ss_stop: "sched_step tids s (stop_flags s)"

definition counters_inv :: "int list \<Rightarrow> 'f sched \<Rightarrow> bool" where
  "counters_inv tids s \<longleftrightarrow> distinct tids \<and>
     m_activeThreadCount s = length (filter (\<lambda>t. active_pc (pcs s t)) tids) \<and>
     m_idleThreadCount s = length (filter (\<lambda>t. idle_pc (pcs s t)) tids) \<and>
     list_all real_task (m_fibers s) \<and>
     (\<forall>t\<in>set tids. \<forall>x a. pcs s t = Picked x a \<longrightarrow> (a \<longleftrightarrow> real_task x))"

definition excl_inv :: "int list \<Rightarrow> 'f sched \<Rightarrow> bool" where
  "excl_inv tids s \<longleftrightarrow> distinct (queued s) \<and>
     (\<forall>t\<in>set tids. holds (pcs s t) \<inter> set (queued s) = {}) \<and>
     (\<forall>t\<in>set tids. \<forall>u\<in>set tids. t \<noteq> u \<longrightarrow> holds (pcs s t) \<inter> holds (pcs s u) = {}) \<and>
     (\<forall>t\<in>set tids. \<forall>x a f. pcs s t = Picked x a \<and> ft_fiber x = Some f \<longrightarrow> states s f \<noteq> EXEC) \<and>
     (\<forall>t\<in>set tids. \<forall>f. pcs s t = InFiber f \<or> pcs s t = InCb f \<longrightarrow> states s f = EXEC)"

lemma count_update:
  "distinct xs \<Longrightarrow> t \<in> set xs \<Longrightarrow>
   length (filter (\<lambda>u. P ((g(t := c)) u)) xs) + of_bool (P (g t)) =
   length (filter (\<lambda>u. P (g u)) xs) + of_bool (P c)"
proof (induction xs)
  case (Cons x xs)
  show ?case
  proof (cases "x = t")
    case True
    then have "filter (\<lambda>u. P ((g(t := c)) u)) xs = filter (\<lambda>u. P (g u)) xs"
      using Cons.prems by (intro filter_cong) auto
    then show ?thesis using True by simp
  next
    case False
    then show ?thesis using Cons by auto
  qed
qed simp

lemma pcs_set_pc [simp]: "pcs (set_pc t c s) = (pcs s)(t := c)"
  and fibers_set_pc [simp]: "m_fibers (set_pc t c s) = m_fibers s"
  and states_set_pc [simp]: "states (set_pc t c s) = states s"
  and active_set_pc [simp]: "m_activeThreadCount (set_pc t c s) = m_activeThreadCount s"
  and idle_set_pc [simp]: "m_idleThreadCount (set_pc t c s) = m_idleThreadCount s"
  by (simp_all add: set_pc_def)

lemma pcs_set_fstate [simp]: "pcs (set_fstate f x s) = pcs s"
  and fibers_set_fstate [simp]: "m_fibers (set_fstate f x s) = m_fibers s"
  and states_set_fstate [simp]: "states (set_fstate f x s) = (states s)(f := x)"
  and active_set_fstate [simp]: "m_activeThreadCount (set_fstate f x s) = m_activeThreadCount s"
  and idle_set_fstate [simp]: "m_idleThreadCount (set_fstate f x s) = m_idleThreadCount s"
  by (simp_all add: set_fstate_def)

text \<open>One thread moves: what has to hold of its new place for the counters to stay exact.\<close>

lemma counters_move:
  assumes "counters_inv tids s" "t \<in> set tids" "pcs s' = (pcs s)(t := c)"
    "m_activeThreadCount s' + of_bool (active_pc (pcs s t)) = m_activeThreadCount s + of_bool (active_pc c)"
    "m_idleThreadCount s' + of_bool (idle_pc (pcs s t)) = m_idleThreadCount s + of_bool (idle_pc c)"
    "list_all real_task (m_fibers s')" "\<And>x a. c = Picked x a \<Longrightarrow> a \<longleftrightarrow> real_task x"
  shows "counters_inv tids s'"
proof -
  have d: "distinct tids" using assms(1) by (simp add: counters_inv_def)
  have "m_activeThreadCount s' = length (filter (\<lambda>u. active_pc (pcs s' u)) tids)"
    using count_update [OF d assms(2), of active_pc "pcs s" c] assms(1,4)
    unfolding assms(3) counters_inv_def by linarith
  moreover have "m_idleThreadCount s' = length (filter (\<lambda>u. idle_pc (pcs s' u)) tids)"
    using count_update [OF d assms(2), of idle_pc "pcs s" c] assms(1,5)
    unfolding assms(3) counters_inv_def by linarith
  ultimately show ?thesis
    using assms(1,3,6,7) by (auto simp: counters_inv_def)
qed

lemma counters_pos:
  assumes "counters_inv tids s" "t \<in> set tids"
  shows "active_pc (pcs s t) \<Longrightarrow> 0 < m_activeThreadCount s"
    "idle_pc (pcs s t) \<Longrightarrow> 0 < m_idleThreadCount s"
  using assms by (auto simp: counters_inv_def filter_empty_conv)

lemma pick_cases:
  assumes "list_all real_task (m_fibers s)" "run_pick t s = Inr (tk, s')"
  obtains (exit) "sched_stopping s" "s' = set_pc t Exited s"
  | (none) "\<not> sched_stopping s" "s' = set_pc t (Picked empty_ft False) s"
  | (some) us x vs where "\<not> sched_stopping s" "m_fibers s = us @ x # vs" "eligible t (states s) x"
      "s' = set_pc t (Picked x True)
         (s\<lparr>m_fibers := us @ vs, m_activeThreadCount := Suc (m_activeThreadCount s)\<rparr>)"
proof (cases "sched_stopping s")
  case True
  with assms(2) exit show ?thesis by (simp add: run_pick_def)
next
  case False
  from pick_spec [OF assms(1), of t "states s"] show ?thesis
  proof (elim disjE exE conjE)
    fix tk' assume "pick t (states s) (m_fibers s) = Inr (tk', None)"
    with False assms(2) none show ?thesis by (simp add: run_pick_def)
  next
    fix tk' us x vs assume "m_fibers s = us @ x # vs" "eligible t (states s) x"
      "pick t (states s) (m_fibers s) = Inr (tk', Some (x, us @ vs))"
    with False assms(2) some show ?thesis by (auto simp: run_pick_def)
  qed
qed

lemma runnable_fiber: "runnable x s \<Longrightarrow> \<exists>f. ft_fiber x = Some f"
  by (auto simp: runnable_def split: option.splits)

lemma enter_cases:
  assumes "run_enter t p x a s = Inr s'"
  obtains (fiber) f where "ft_fiber x = Some f" "states s f \<noteq> EXEC"
      "s' = set_pc t (InFiber f) (set_fstate f EXEC s)"
  | (cb) "ft_cb x \<noteq> None" "s' = set_pc t (InCb p) (set_fstate p EXEC s)"
  | (stale) "a" "s' = set_pc t Loop (s\<lparr>m_activeThreadCount := m_activeThreadCount s - 1\<rparr>)"
  | (leave) "\<not> a" "s' = set_pc t Exited s"
  | (idle) "\<not> a" "s' = set_pc t InIdle (s\<lparr>m_idleThreadCount := Suc (m_idleThreadCount s),
                                 idle_state := (idle_state s)(t := EXEC)\<rparr>)"
proof (cases "runnable x s")
  case True
  then obtain f where "ft_fiber x = Some f" using runnable_fiber by blast
  with assms True fiber [of f] show ?thesis by (simp add: run_enter_def Let_def split: if_splits)
next
  case nr: False
  show ?thesis
  proof (cases "ft_cb x = None")
    case False
    with assms nr cb show ?thesis by (simp add: run_enter_def)
  next
    case True
    with assms nr stale leave idle show ?thesis
      by (cases a) (simp_all add: run_enter_def split: if_splits)
  qed
qed

lemma counters_step: "sched_step tids s s' \<Longrightarrow> counters_inv tids s \<Longrightarrow> counters_inv tids s'"
proof (induction rule: sched_step.induct)
  case (ss_schedule x s)
  then show ?case by (auto simp: counters_inv_def schedule_def scheduleNoLock_def real_task_def)
next
  case (ss_pick t s tk s')
  have r: "list_all real_task (m_fibers s)" using ss_pick.prems by (simp add: counters_inv_def)
  note move = counters_move [OF ss_pick.prems ss_pick.hyps(1)]
  show ?case
  proof (rule pick_cases [OF r ss_pick.hyps(3)])
    assume "s' = set_pc t Exited s"
    then show ?thesis by (intro move [where c = Exited]) (use r ss_pick.hyps(2) in simp_all)
  next
    assume "s' = set_pc t (Picked empty_ft False) s"
    then show ?thesis
      by (intro move [where c = "Picked empty_ft False"])
         (use r ss_pick.hyps(2) in \<open>auto simp: empty_ft_def real_task_def\<close>)
  next
    fix us x vs assume "m_fibers s = us @ x # vs"
      "s' = set_pc t (Picked x True) (s\<lparr>m_fibers := us @ vs, m_activeThreadCount := Suc (m_activeThreadCount s)\<rparr>)"
    then show ?thesis
      by (intro move [where c = "Picked x True"]) (use r ss_pick.hyps(2) in simp_all)
  qed
next
  case (ss_enter t s x a p s')
  have r: "list_all real_task (m_fibers s)" and a: "a \<longleftrightarrow> real_task x"
    using ss_enter.prems ss_enter.hyps(1,2) by (auto simp: counters_inv_def)
  note pos = counters_pos(1) [OF ss_enter.prems ss_enter.hyps(1)]
  note move = counters_move [OF ss_enter.prems ss_enter.hyps(1)]
  from ss_enter.hyps(4) show ?case
  proof (cases rule: enter_cases)
    case (fiber f)
    then show ?thesis
      by (intro move [where c = "InFiber f"]) (use r a ss_enter.hyps(2) in \<open>simp_all add: real_task_def\<close>)
  next
    case cb
    then show ?thesis
      by (intro move [where c = "InCb p"]) (use r a ss_enter.hyps(2) in \<open>simp_all add: real_task_def\<close>)
  next
    case stale
    then show ?thesis by (intro move [where c = Loop]) (use r pos ss_enter.hyps(2) in simp_all)
  next
    case leave
    then show ?thesis by (intro move [where c = Exited]) (use r ss_enter.hyps(2) in simp_all)
  next
    case idle
    then show ?thesis by (intro move [where c = InIdle]) (use r ss_enter.hyps(2) in simp_all)
  qed
next
  case (ss_end t x s s')
  have r: "list_all real_task (m_fibers s)" using ss_end.prems by (simp add: counters_inv_def)
  note pos = counters_pos [OF ss_end.prems ss_end.hyps(1)]
  note move = counters_move [OF ss_end.prems ss_end.hyps(1)]
  show ?case
  proof (cases "pcs s t")
    case (InFiber f)
    then show ?thesis
      by (intro move [where c = "BackFiber f"])
         (use r ss_end.hyps(2) in \<open>auto simp: slice_ends_def split: option.splits\<close>)
  next
    case (InCb f)
    then show ?thesis
      by (intro move [where c = "BackCb f"])
         (use r ss_end.hyps(2) in \<open>auto simp: slice_ends_def split: option.splits\<close>)
  next
    case InIdle
    then show ?thesis
      by (intro move [where c = Loop]) (use r pos ss_end.hyps(2) in \<open>auto simp: slice_ends_def Let_def\<close>)
  qed (use ss_end.hyps(2) in \<open>auto simp: slice_ends_def\<close>)
next
  case (ss_after t s f)
  have r: "list_all real_task (m_fibers s)" using ss_after.prems by (simp add: counters_inv_def)
  have a: "active_pc (pcs s t)" "\<not> idle_pc (pcs s t)" using ss_after.hyps(2) by auto
  have "0 < m_activeThreadCount s" using counters_pos(1) [OF ss_after.prems ss_after.hyps(1) a(1)] .
  then show ?case
    by (intro counters_move [OF ss_after.prems ss_after.hyps(1), where c = Loop])
       (use r a in \<open>auto simp: run_after_def Let_def schedule_def scheduleNoLock_def fiber_task_def real_task_def\<close>)
next
  case (ss_start s)
  then show ?case by (simp add: counters_inv_def start_flags_def)
next
  case (ss_stop s)
  then show ?case by (simp add: counters_inv_def stop_flags_def)
qed

text \<open>One thread moves: what has to hold for the fibers to stay exclusive.\<close>

lemma excl_move:
  assumes inv: "excl_inv tids s" and p: "pcs s' = (pcs s)(t := c)"
    and others: "\<And>u. u \<in> set tids \<Longrightarrow> u \<noteq> t \<Longrightarrow> holds (pcs s u) \<inter> (set (queued s') \<union> holds c) = {} \<and>
        (\<forall>f\<in>holds (pcs s u). states s' f = states s f)"
    and own: "distinct (queued s')" "holds c \<inter> set (queued s') = {}"
      "\<And>x a f. c = Picked x a \<Longrightarrow> ft_fiber x = Some f \<Longrightarrow> states s' f \<noteq> EXEC"
      "\<And>f. c = InFiber f \<or> c = InCb f \<Longrightarrow> states s' f = EXEC"
  shows "excl_inv tids s'"
  unfolding excl_inv_def p
proof (intro conjI ballI allI impI)
  show "distinct (queued s')" by (rule own(1))
next
  fix u assume "u \<in> set tids"
  then show "holds (((pcs s)(t := c)) u) \<inter> set (queued s') = {}"
    using others [of u] own(2) by auto
next
  fix u v assume "u \<in> set tids" "v \<in> set tids" "u \<noteq> v"
  then show "holds (((pcs s)(t := c)) u) \<inter> holds (((pcs s)(t := c)) v) = {}"
    using others [of u] others [of v] inv by (cases "u = t"; cases "v = t") (auto simp: excl_inv_def)
next
  fix u x a f assume u: "u \<in> set tids" and pc: "((pcs s)(t := c)) u = Picked x a \<and> ft_fiber x = Some f"
  show "states s' f \<noteq> EXEC"
  proof (cases "u = t")
    case True
    with pc own(3) show ?thesis by auto
  next
    case False
    then have "states s' f = states s f" using others [OF u False] pc by auto
    with False u pc inv show ?thesis by (auto simp: excl_inv_def)
  qed
next
  fix u f assume u: "u \<in> set tids" and pc: "((pcs s)(t := c)) u = InFiber f \<or> ((pcs s)(t := c)) u = InCb f"
  show "states s' f = EXEC"
  proof (cases "u = t")
    case True
    with pc own(4) show ?thesis by auto
  next
    case False
    then have "states s' f = states s f" using others [OF u False] pc by auto
    with False u pc inv show ?thesis by (auto simp: excl_inv_def)
  qed
qed

lemma excl_invD:
  assumes "excl_inv tids s" "t \<in> set tids"
  shows "distinct (queued s)" "holds (pcs s t) \<inter> set (queued s) = {}"
    "u \<in> set tids \<Longrightarrow> u \<noteq> t \<Longrightarrow> holds (pcs s u) \<inter> holds (pcs s t) = {}"
    "pcs s t = Picked x a \<Longrightarrow> ft_fiber x = Some f \<Longrightarrow> states s f \<noteq> EXEC"
  using assms by (auto simp: excl_inv_def)

lemma queued_cong [simp]: "queued (set_pc t c s) = queued s" "queued (set_fstate f x s) = queued s"
  by (simp_all add: queued_def)

lemma map_filter_append: "List.map_filter g (xs @ ys) = List.map_filter g xs @ List.map_filter g ys"
  by (simp add: List.map_filter_def)

lemma excl_step_schedule:
  "set_option (ft_fiber x) \<inter> busy tids s = {} \<Longrightarrow> excl_inv tids s \<Longrightarrow> excl_inv tids (snd (schedule x s))"
  by (cases "ft_fiber x")
     (auto simp: excl_inv_def schedule_def scheduleNoLock_def queued_def busy_def map_filter_append
       List.map_filter_simps split: option.splits)

lemma excl_step_pick:
  assumes inv: "excl_inv tids s" and r: "list_all real_task (m_fibers s)" and t: "t \<in> set tids"
    and l: "pcs s t = Loop" and st: "run_pick t s = Inr (tk, s')"
  shows "excl_inv tids s'"
proof (rule pick_cases [OF r st])
  assume "s' = set_pc t Exited s"
  then show ?thesis
    by (intro excl_move [OF inv, where t = t and c = Exited])
       (use excl_invD(1) [OF inv t] excl_invD(2) [OF inv] in simp_all)
next
  assume "s' = set_pc t (Picked empty_ft False) s"
  then show ?thesis
    by (intro excl_move [OF inv, where t = t and c = "Picked empty_ft False"])
       (use excl_invD(1) [OF inv t] excl_invD(2) [OF inv] in \<open>simp_all add: empty_ft_def\<close>)
next
  fix us x vs assume q: "m_fibers s = us @ x # vs" and e: "eligible t (states s) x"
    and s': "s' = set_pc t (Picked x True) (s\<lparr>m_fibers := us @ vs, m_activeThreadCount := Suc (m_activeThreadCount s)\<rparr>)"
  have q1: "queued s = List.map_filter ft_fiber us @ (case ft_fiber x of None \<Rightarrow> [] | Some f \<Rightarrow> [f]) @ List.map_filter ft_fiber vs"
    by (simp add: queued_def q map_filter_append List.map_filter_simps split: option.split)
  have q2: "queued s' = List.map_filter ft_fiber us @ List.map_filter ft_fiber vs"
    by (simp add: queued_def s' map_filter_append)
  have sub: "set (queued s') \<union> set_option (ft_fiber x) = set (queued s)"
    unfolding q1 q2 by (auto split: option.splits)
  have d: "distinct (queued s)" using excl_invD(1) [OF inv t] .
  show ?thesis
  proof (rule excl_move [OF inv, where t = t and c = "Picked x True"])
    show "pcs s' = (pcs s)(t := Picked x True)" by (simp add: s')
    show "distinct (queued s')" "holds (Picked x True) \<inter> set (queued s') = {}"
      using d unfolding q1 q2 by (auto split: option.splits)
    show "holds (pcs s u) \<inter> (set (queued s') \<union> holds (Picked x True)) = {} \<and>
        (\<forall>f\<in>holds (pcs s u). states s' f = states s f)" if "u \<in> set tids" "u \<noteq> t" for u
      using excl_invD(2) [OF inv that(1)] sub by (auto simp: s')
  qed (use e in \<open>auto simp: eligible_def s'\<close>)
qed

lemma excl_step_enter:
  assumes inv: "excl_inv tids s" and t: "t \<in> set tids" and pc: "pcs s t = Picked x a"
    and p: "p \<notin> busy tids s" and st: "run_enter t p x a s = Inr s'"
  shows "excl_inv tids s'"
proof -
  note d = excl_invD(1,2) [OF inv t]
  have oth: "holds (pcs s u) \<inter> set (queued s) = {}" "holds (pcs s u) \<inter> holds (pcs s t) = {}"
    "p \<notin> holds (pcs s u)" if "u \<in> set tids" "u \<noteq> t" for u
    using excl_invD(2) [OF inv that(1)] excl_invD(3) [OF inv t that] p that by (auto simp: busy_def)
  from st show ?thesis
  proof (cases rule: enter_cases)
    case (fiber f)
    have "f \<in> holds (pcs s t)" using fiber(1) pc by simp
    then show ?thesis
      using fiber(3) d oth
      by (intro excl_move [OF inv, where t = t and c = "InFiber f"]) (auto simp: disjoint_iff)
  next
    case cb
    have "p \<notin> set (queued s)" using p by (simp add: busy_def)
    then show ?thesis
      using cb(2) d oth by (intro excl_move [OF inv, where t = t and c = "InCb p"]) (auto simp: disjoint_iff)
  next
    case stale
    then show ?thesis
      using d oth by (intro excl_move [OF inv, where t = t and c = Loop]) (auto simp: queued_def)
  next
    case leave
    then show ?thesis using d oth by (intro excl_move [OF inv, where t = t and c = Exited]) auto
  next
    case idle
    then show ?thesis
      using d oth by (intro excl_move [OF inv, where t = t and c = InIdle]) (auto simp: queued_def)
  qed
qed

lemma excl_step_end:
  assumes inv: "excl_inv tids s" and t: "t \<in> set tids" and st: "slice_ends t x s = Inr s'"
  shows "excl_inv tids s'"
proof -
  note d = excl_invD(1,2) [OF inv t]
  have oth: "holds (pcs s u) \<inter> set (queued s) = {}" "holds (pcs s u) \<inter> holds (pcs s t) = {}"
    if "u \<in> set tids" "u \<noteq> t" for u
    using excl_invD(2) [OF inv that(1)] excl_invD(3) [OF inv t that] by auto
  show ?thesis
  proof (cases "pcs s t")
    case (InFiber f)
    then show ?thesis using st d oth
      by (intro excl_move [OF inv, where t = t and c = "BackFiber f"])
         (auto simp: slice_ends_def disjoint_iff split: option.splits)
  next
    case (InCb f)
    then show ?thesis using st d oth
      by (intro excl_move [OF inv, where t = t and c = "BackCb f"])
         (auto simp: slice_ends_def disjoint_iff split: option.splits)
  next
    case InIdle
    then show ?thesis using st d oth
      by (intro excl_move [OF inv, where t = t and c = Loop]) (auto simp: slice_ends_def Let_def queued_def disjoint_iff)
  qed (use st in \<open>auto simp: slice_ends_def\<close>)
qed

lemma excl_step_after:
  assumes inv: "excl_inv tids s" and t: "t \<in> set tids" and pc: "pcs s t = BackFiber f \<or> pcs s t = BackCb f"
  shows "excl_inv tids (run_after t f s)"
proof -
  let ?s = "run_after t f s"
  have h: "holds (pcs s t) = {f}" using pc by auto
  have q: "queued ?s = (if states s f = READY then queued s @ [f] else queued s)"
    by (simp add: run_after_def Let_def schedule_def scheduleNoLock_def fiber_task_def queued_def
        map_filter_append List.map_filter_simps)
  have st: "g \<noteq> f \<Longrightarrow> states ?s g = states s g" for g
    by (simp add: run_after_def Let_def schedule_def scheduleNoLock_def)
  show ?thesis
  proof (rule excl_move [OF inv, where t = t and c = Loop])
    show "pcs ?s = (pcs s)(t := Loop)" by (simp add: run_after_def Let_def schedule_def scheduleNoLock_def)
    show "distinct (queued ?s)" using excl_invD(1,2) [OF inv t] h q by auto
    show "holds (pcs s u) \<inter> (set (queued ?s) \<union> holds Loop) = {} \<and>
        (\<forall>g\<in>holds (pcs s u). states ?s g = states s g)" if "u \<in> set tids" "u \<noteq> t" for u
    proof
      have fn: "f \<notin> holds (pcs s u)" using excl_invD(3) [OF inv t that] h by auto
      then show "holds (pcs s u) \<inter> (set (queued ?s) \<union> holds Loop) = {}"
        using excl_invD(2) [OF inv that(1)] q by auto
      show "\<forall>g\<in>holds (pcs s u). states ?s g = states s g" using st fn by metis
    qed
  qed simp_all
qed

lemma excl_flags: "excl_inv tids (start_flags s) = excl_inv tids s" "excl_inv tids (stop_flags s) = excl_inv tids s"
  by (simp_all add: excl_inv_def queued_def start_flags_def stop_flags_def)

lemma excl_step: "sched_step tids s s' \<Longrightarrow> counters_inv tids s \<Longrightarrow> excl_inv tids s \<Longrightarrow> excl_inv tids s'"
proof (induction rule: sched_step.induct)
  case (ss_schedule x s)
  then show ?case by (blast intro: excl_step_schedule)
next
  case (ss_pick t s tk s')
  then show ?case by (intro excl_step_pick [of tids s t tk s']) (simp_all add: counters_inv_def)
next
  case (ss_enter t s x a p s')
  then show ?case by (blast intro: excl_step_enter)
next
  case (ss_end t x s s')
  then show ?case by (blast intro: excl_step_end)
next
  case (ss_after t s f)
  then show ?case by (blast intro: excl_step_after)
qed (simp_all only: excl_flags)

lemma new_Scheduler_inv: "distinct tids \<Longrightarrow> counters_inv tids new_Scheduler \<and> excl_inv tids new_Scheduler"
  by (simp add: counters_inv_def excl_inv_def new_Scheduler_def queued_def List.map_filter_simps)

lemma sched_reachable:
  "(sched_step tids)\<^sup>*\<^sup>* new_Scheduler s \<Longrightarrow> distinct tids \<Longrightarrow> counters_inv tids s \<and> excl_inv tids s"
  by (induction rule: rtranclp_induct) (auto simp: new_Scheduler_inv intro: counters_step excl_step)

lemma stop_sets_flags:
  "Scheduler_stop is_this c s = Inr (e, c', s') \<Longrightarrow> s' = stop_flags s \<and>
     (joins e = m_threads c \<or> sched_stopping s')"
  by (auto simp: Scheduler_stop_def stop_flags_def Let_def split: if_splits option.splits)

subsection \<open>Properties of the scheduler\<close>

text \<open>
  Property C1. As long as clients schedule a fiber only when it is neither queued nor
  held, no interleaving of the threads of a scheduler runs a fiber on two threads: the
  fibers held by different threads are different, none of them is in the queue, no
  fiber is queued twice, and the assertions \<open>m_state != EXEC\<close> of \<open>swapIn\<close> and
  \<open>it->fiber || it->cb\<close> of \<open>run\<close> never fail for a task that was taken.
\<close>

theorem sched_fibers_exclusive:
  assumes "(sched_step tids)\<^sup>*\<^sup>* new_Scheduler s" "distinct tids" "t \<in> set tids" "u \<in> set tids" "t \<noteq> u"
  shows "holds (pcs s t) \<inter> holds (pcs s u) = {} \<and> holds (pcs s t) \<inter> set (queued s) = {} \<and>
    distinct (queued s) \<and> (\<exists>r. pick t (states s) (m_fibers s) = Inr r) \<and>
    (\<forall>x p. pcs s t = Picked x True \<longrightarrow> (\<exists>s'. run_enter t p x True s = Inr s'))"
proof -
  have inv: "counters_inv tids s" "excl_inv tids s" using sched_reachable [OF assms(1,2)] by auto
  then have "\<exists>r. pick t (states s) (m_fibers s) = Inr r"
    using pick_spec [of "m_fibers s" t "states s"] by (auto simp: counters_inv_def)
  moreover have "\<exists>s'. run_enter t p x True s = Inr s'" if "pcs s t = Picked x True" for x p
    using excl_invD(4) [OF inv(2) assms(3) that] runnable_fiber [of x s] by (auto simp: run_enter_def Let_def)
  ultimately show ?thesis
    using excl_invD [OF inv(2) assms(3)] excl_invD(3) [OF inv(2) assms(4) assms(3) assms(5)] by auto
qed

lemma demo_schedule:
  "(sched_step [1, 2])\<^sup>*\<^sup>* new_Scheduler (snd (schedule (fiber_task 5 (- 1)) new_Scheduler))"
  by (intro r_into_rtranclp ss_schedule)
     (simp add: busy_def new_Scheduler_def queued_def List.map_filter_simps)

theorem sched_fibers_exclusive_witness:
  "distinct (queued (snd (schedule (fiber_task 5 (- 1)) (new_Scheduler :: nat sched)))) \<and>
   (\<exists>r. pick 1 (\<lambda>_. INIT) [fiber_task 5 (- 1) :: nat ft] = Inr r)"
  using sched_fibers_exclusive [OF demo_schedule, of 1 2]
  by (simp add: schedule_def scheduleNoLock_def new_Scheduler_def fiber_task_def)



text \<open>
  A thread takes the first task of the queue that is for it (unpinned or
  pinned to it) and whose fiber is not executing; the order of the others is kept; it
  tickles another thread exactly when it passed over a task pinned elsewhere; without
  such a task it takes none.
\<close>

theorem sched_pick_first:
  assumes "list_all real_task q"
  shows "(\<exists>tk. pick t st q = Inr (tk, None) \<and> list_all (\<lambda>x. \<not> eligible t st x) q) \<or>
   (\<exists>tk us x vs. q = us @ x # vs \<and> pick t st q = Inr (tk, Some (x, us @ vs)) \<and> eligible t st x \<and>
      list_all (\<lambda>x. \<not> eligible t st x) us \<and> (tk \<longleftrightarrow> (\<exists>y\<in>set us. ft_thread y \<noteq> - 1 \<and> ft_thread y \<noteq> t)))"
  by (rule pick_spec [OF assms])

theorem sched_pick_first_witness:
  "\<exists>tk us x vs. [fiber_task 5 7, fiber_task 6 (- 1) :: nat ft] = us @ x # vs \<and>
     pick 1 (\<lambda>_. HOLD) [fiber_task 5 7, fiber_task 6 (- 1)] = Inr (tk, Some (x, us @ vs))"
proof -
  have "list_all real_task [fiber_task 5 7, fiber_task 6 (- 1) :: nat ft]"
    by (simp add: real_task_def fiber_task_def)
  from sched_pick_first [OF this, of 1 "\<lambda>_. HOLD"] show ?thesis
    by (auto simp: eligible_def fiber_task_def)
qed

text \<open>
  The discipline of the clients is needed, and \<open>IOManager\<close> does not follow
  it: a fiber that was scheduled while it was still running (its event fired before its
  yield) is taken by another thread as soon as it has set its state to \<open>HOLD\<close>, and the
  first thread then writes \<open>HOLD\<close> over the state of a fiber that is executing on the
  second.
\<close>

theorem sched_hold_overwrites_exec:
  assumes "pcs s t = InFiber f" "pcs s u = Loop" "t \<noteq> u" "m_fibers s = [fiber_task f (- 1)]"
  shows "\<exists>s1 s2 s3. slice_ends t (Some HOLD) s = Inr s1 \<and> run_pick u s1 = Inr (False, s2) \<and>
    pcs s2 u = Picked (fiber_task f (- 1)) True \<and> run_enter u p (fiber_task f (- 1)) True s2 = Inr s3 \<and>
    pcs (run_after t f s3) u = InFiber f \<and> states s3 f = EXEC \<and> states (run_after t f s3) f = HOLD"
proof -
  let ?x = "fiber_task f (- 1)"
  let ?s1 = "set_pc t (BackFiber f) (set_fstate f HOLD s)"
  let ?s2 = "set_pc u (Picked ?x True) (?s1\<lparr>m_fibers := [], m_activeThreadCount := Suc (m_activeThreadCount ?s1)\<rparr>)"
  let ?s3 = "set_pc u (InFiber f) (set_fstate f EXEC ?s2)"
  have "slice_ends t (Some HOLD) s = Inr ?s1" using assms by (simp add: slice_ends_def)
  moreover have "run_pick u ?s1 = Inr (False, ?s2)"
    using assms by (simp add: run_pick_def sched_stopping_def fiber_task_def)
  moreover have "run_enter u p ?x True ?s2 = Inr ?s3"
    by (simp add: run_enter_def runnable_def fiber_task_def)
  moreover have "pcs ?s2 u = Picked ?x True" by simp
  moreover have "states (run_after t f ?s3) f = HOLD" "pcs (run_after t f ?s3) u = InFiber f" "states ?s3 f = EXEC"
    using assms(3) by (simp_all add: run_after_def Let_def)
  ultimately show ?thesis by blast
qed

theorem sched_hold_overwrites_exec_witness:
  "\<exists>s1 s2 s3. slice_ends 1 (Some HOLD) ((new_Scheduler :: nat sched)\<lparr>m_fibers := [fiber_task 5 (- 1)],
       pcs := (\<lambda>_. Loop)(1 := InFiber 5)\<rparr>) = Inr s1 \<and> run_pick 2 s1 = Inr (False, s2) \<and>
    run_enter 2 9 (fiber_task 5 (- 1)) True s2 = Inr s3 \<and> states (run_after 1 5 s3) 5 = HOLD"
  using sched_hold_overwrites_exec [of "(new_Scheduler :: nat sched)\<lparr>m_fibers := [fiber_task 5 (- 1)],
       pcs := (\<lambda>_. Loop)(1 := InFiber 5)\<rparr>" 1 5 2 9] by auto

end
