(* ===== verification/Civan_Std_Set.thy ===== *)
theory Civan_Std_Set
  imports Civan_Prelude
begin

section \<open>\<open>std::set\<close> with a comparator\<close>

text \<open>
  The operations of \<open>std::set\<close> the timers use, on the list of the elements in
  iteration order; an iterator is an index and \<open>end()\<close> is the length. Two keys are
  the same element when neither is less than the other. The locale states what a
  comparator has to promise and proves, once, that the operations are those of a
  finite set kept in order.
\<close>

definition lower_bound :: "('k \<Rightarrow> 'k \<Rightarrow> bool) \<Rightarrow> 'k \<Rightarrow> 'k list \<Rightarrow> nat" where
  "lower_bound lt x xs = length (takeWhile (\<lambda>y. lt y x) xs)"

definition set_find :: "('k \<Rightarrow> 'k \<Rightarrow> bool) \<Rightarrow> 'k \<Rightarrow> 'k list \<Rightarrow> nat" where
  "set_find lt x xs = (let i = lower_bound lt x xs in
     if i < length xs \<and> \<not> lt x (xs ! i) then i else length xs)"

definition set_insert :: "('k \<Rightarrow> 'k \<Rightarrow> bool) \<Rightarrow> 'k \<Rightarrow> 'k list \<Rightarrow> 'k list \<times> nat" where
  "set_insert lt x xs = (let i = lower_bound lt x xs in
     if i < length xs \<and> \<not> lt x (xs ! i) then (xs, i) else (take i xs @ x # drop i xs, i))"

definition set_erase :: "nat \<Rightarrow> 'k list \<Rightarrow> 'k list res" where
  "set_erase i xs = (if i < length xs then Inr (take i xs @ drop (Suc i) xs) else Inl BadIterator)"

locale set_order =
  fixes lt :: "'k \<Rightarrow> 'k \<Rightarrow> bool"
  assumes irrefl: "\<not> lt x x"
    and trans: "lt x y \<Longrightarrow> lt y z \<Longrightarrow> lt x z"
    and total: "x \<noteq> y \<Longrightarrow> lt x y \<or> lt y x"
begin

lemma asym: "lt x y \<Longrightarrow> \<not> lt y x"
  using irrefl trans by blast

lemma ordered_distinct: "sorted_wrt lt xs \<Longrightarrow> distinct xs"
  by (induction xs) (auto simp: irrefl)

lemma takeWhile_filter:
  "sorted_wrt lt xs \<Longrightarrow> takeWhile (\<lambda>y. lt y x) xs = filter (\<lambda>y. lt y x) xs"
proof (induction xs)
  case (Cons a xs)
  then have "\<not> lt a x \<Longrightarrow> filter (\<lambda>y. lt y x) xs = []"
    using trans by (auto simp: filter_empty_conv)
  with Cons show ?case by auto
qed simp

lemma drop_lower:
  "sorted_wrt lt xs \<Longrightarrow> drop (lower_bound lt x xs) xs = filter (\<lambda>y. \<not> lt y x) xs"
proof (induction xs)
  case (Cons a xs)
  then have "\<not> lt a x \<Longrightarrow> filter (\<lambda>y. \<not> lt y x) xs = xs"
    using trans by (auto simp: filter_id_conv)
  with Cons show ?case by (auto simp: lower_bound_def)
qed (simp add: lower_bound_def)

lemma take_lower:
  "sorted_wrt lt xs \<Longrightarrow> take (lower_bound lt x xs) xs = filter (\<lambda>y. lt y x) xs"
  by (metis lower_bound_def takeWhile_eq_take takeWhile_filter)

lemma lower_split:
  assumes "sorted_wrt lt (us @ x # vs)"
  shows "lower_bound lt x (us @ x # vs) = length us"
  using assms by (auto simp: lower_bound_def sorted_wrt_append takeWhile_append irrefl)

lemma find_split: "sorted_wrt lt (us @ x # vs) \<Longrightarrow> set_find lt x (us @ x # vs) = length us"
  using lower_split [of us x vs] by (simp add: set_find_def irrefl)

lemma lower_notin:
  assumes "sorted_wrt lt xs" "x \<notin> set xs" "i = lower_bound lt x xs" "i < length xs"
  shows "lt x (xs ! i)"
proof -
  have "xs ! i \<in> set (drop i xs)" using assms(4) by (metis Cons_nth_drop_Suc list.set_intros(1))
  then have "\<not> lt (xs ! i) x" "xs ! i \<in> set xs"
    using drop_lower [OF assms(1), of x] assms(3) by auto
  with total [of x "xs ! i"] assms(2) show ?thesis by auto
qed

lemma find_notin: "sorted_wrt lt xs \<Longrightarrow> x \<notin> set xs \<Longrightarrow> set_find lt x xs = length xs"
  using lower_notin by (simp add: set_find_def Let_def)

lemma find_iff: "sorted_wrt lt xs \<Longrightarrow> set_find lt x xs < length xs \<longleftrightarrow> x \<in> set xs"
proof (cases "x \<in> set xs")
  case True
  assume a: "sorted_wrt lt xs"
  obtain us vs where "xs = us @ x # vs" using True by (auto simp: in_set_conv_decomp)
  with a True find_split [of us x vs] show ?thesis by simp
qed (simp add: find_notin)

lemma erase_found:
  assumes "sorted_wrt lt xs" "x \<in> set xs"
  shows "set_erase (set_find lt x xs) xs = Inr (filter (\<lambda>y. y \<noteq> x) xs)"
proof -
  obtain us vs where xs: "xs = us @ x # vs" using assms(2) by (auto simp: in_set_conv_decomp)
  have "distinct xs" using assms(1) by (rule ordered_distinct)
  then have "filter (\<lambda>y. y \<noteq> x) us = us" "filter (\<lambda>y. y \<noteq> x) vs = vs"
    by (auto simp: xs filter_id_conv)
  then show ?thesis
    using find_split [of us x vs] assms(1) by (simp add: xs set_erase_def)
qed

lemma insert_new:
  assumes "sorted_wrt lt xs" "x \<notin> set xs"
  shows "set_insert lt x xs =
    (filter (\<lambda>y. lt y x) xs @ x # filter (\<lambda>y. \<not> lt y x) xs, length (filter (\<lambda>y. lt y x) xs))"
  using lower_notin [OF assms] take_lower [OF assms(1), of x] drop_lower [OF assms(1), of x]
  by (auto simp: set_insert_def Let_def lower_bound_def takeWhile_filter [OF assms(1)])

lemma insert_set: "sorted_wrt lt xs \<Longrightarrow> set (fst (set_insert lt x xs)) = insert x (set xs)"
proof (cases "x \<in> set xs")
  case True
  assume "sorted_wrt lt xs"
  with True obtain us vs where "xs = us @ x # vs" by (auto simp: in_set_conv_decomp)
  with \<open>sorted_wrt lt xs\<close> lower_split [of us x vs] show ?thesis
    by (auto simp: set_insert_def irrefl)
qed (auto simp: insert_new)

lemma insert_sorted: "sorted_wrt lt xs \<Longrightarrow> x \<notin> set xs \<Longrightarrow> sorted_wrt lt (fst (set_insert lt x xs))"
proof -
  assume a: "sorted_wrt lt xs" "x \<notin> set xs"
  have "lt x y" if "y \<in> set xs" "\<not> lt y x" for y using total [of x y] that a(2) by auto
  then show ?thesis
    using a trans by (auto simp: insert_new sorted_wrt_append sorted_wrt_filter)
qed

end

end
