(* ===== verification/Civan_Timer.thy ===== *)
theory Civan_Timer
  imports Civan_Std_Set
begin

section \<open>Timers: \<open>civan/timer.cc\<close>\<close>

text \<open>
  A \<open>TimerManager\<close> keeps its timers in a \<open>std::set\<close> ordered by the time of the next
  expiry and then by address. Timers are shared objects: the model has a heap from
  addresses to timers, and the manager's set holds addresses. \<open>live\<close> lists the
  addresses of the timers ever created (somebody may hold a \<open>Timer::ptr\<close> to each).
  The time \<open>civan::GetCurrentMs()\<close> returns and the address \<open>new Timer\<close> returns are
  arguments. Every operation but \<open>listExpiredCb\<close> runs under one lock, so it is one
  step; \<open>listExpiredCb\<close> checks for emptiness under a read lock, releases it, and
  works under the write lock, so it is two. Times are 64-bit words and wrap.
\<close>

subsection \<open>State\<close>

text \<open>A callback is a function, or \<open>std::bind(&OnTimer, weak_cond, cb)\<close>.\<close>

datatype 'f callback = Fn 'f | OnTimer nat 'f

record 'f timer =
  m_recurring :: bool
  m_ms :: u64
  m_next :: u64
  m_cb :: "'f callback option"

record 'f timer_manager =
  m_timers :: "nat list"
  m_tickled :: bool
  m_previousTime :: u64
  heap :: "nat \<Rightarrow> 'f timer"
  live :: "nat list"

definition new_Timer :: "u64 \<Rightarrow> u64 \<Rightarrow> 'f callback option \<Rightarrow> bool \<Rightarrow> 'f timer" where
  "new_Timer now ms cb recurring =
     \<lparr>m_recurring = recurring, m_ms = ms, m_next = now + ms, m_cb = cb\<rparr>"

definition new_Timer_at :: "u64 \<Rightarrow> 'f timer" where
  "new_Timer_at nxt = \<lparr>m_recurring = False, m_ms = 0, m_next = nxt, m_cb = None\<rparr>"

definition new_TimerManager :: "u64 \<Rightarrow> (nat \<Rightarrow> 'f timer) \<Rightarrow> 'f timer_manager" where
  "new_TimerManager now h =
     \<lparr>m_timers = [], m_tickled = False, m_previousTime = now, heap = h, live = []\<rparr>"

definition Comparator :: "(nat \<Rightarrow> 'f timer) \<Rightarrow> nat option \<Rightarrow> nat option \<Rightarrow> bool" where
  "Comparator h lhs rhs = (case (lhs, rhs) of
     (None, None) \<Rightarrow> False
   | (None, Some _) \<Rightarrow> True
   | (Some _, None) \<Rightarrow> False
   | (Some p, Some q) \<Rightarrow>
       if m_next (h p) < m_next (h q) then True
       else if m_next (h p) > m_next (h q) then False
       else p < q)"

abbreviation before :: "(nat \<Rightarrow> 'f timer) \<Rightarrow> nat \<Rightarrow> nat \<Rightarrow> bool" where
  "before h p q \<equiv> Comparator h (Some p) (Some q)"

definition erase_timer :: "nat \<Rightarrow> 'f timer_manager \<Rightarrow> 'f timer_manager res" where
  "erase_timer p m = rbind (set_erase (set_find (before (heap m)) p (m_timers m)) (m_timers m))
     (\<lambda>ts. Inr (m\<lparr>m_timers := ts\<rparr>))"

definition set_timer :: "nat \<Rightarrow> 'f timer \<Rightarrow> 'f timer_manager \<Rightarrow> 'f timer_manager" where
  "set_timer p t m = m\<lparr>heap := (heap m)(p := t)\<rparr>"

subsection \<open>Operations of a timer\<close>

definition Timer_cancel :: "nat \<Rightarrow> 'f timer_manager \<Rightarrow> (bool \<times> 'f timer_manager) res" where
  "Timer_cancel p m =
     (if m_cb (heap m p) \<noteq> None
      then rbind (erase_timer p (set_timer p (heap m p\<lparr>m_cb := None\<rparr>) m)) (\<lambda>m'. Inr (True, m'))
      else Inr (False, m))"

definition insert_timer :: "nat \<Rightarrow> 'f timer_manager \<Rightarrow> nat \<times> 'f timer_manager" where
  "insert_timer p m = (let (ts, i) = set_insert (before (heap m)) p (m_timers m) in
     (i, m\<lparr>m_timers := ts\<rparr>))"

definition Timer_refresh :: "u64 \<Rightarrow> nat \<Rightarrow> 'f timer_manager \<Rightarrow> (bool \<times> 'f timer_manager) res" where
  "Timer_refresh now p m =
     (if m_cb (heap m p) = None then Inr (False, m)
      else if set_find (before (heap m)) p (m_timers m) = length (m_timers m) then Inr (False, m)
      else rbind (erase_timer p m) (\<lambda>m1.
        Inr (True, snd (insert_timer p
               (set_timer p (heap m1 p\<lparr>m_next := now + m_ms (heap m1 p)\<rparr>) m1)))))"

text \<open>
  \<open>TimerManager::addTimer(timer, lock)\<close>: the result says whether
  \<open>onTimerInsertAtFront\<close> is called (after the lock is released).
\<close>

definition addTimer_locked :: "nat \<Rightarrow> 'f timer_manager \<Rightarrow> bool \<times> 'f timer_manager" where
  "addTimer_locked p m =
     (let (i, m1) = insert_timer p m;
          at_front = (i = 0 \<and> \<not> m_tickled m1)
      in (at_front, if at_front then m1\<lparr>m_tickled := True\<rparr> else m1))"

definition Timer_reset ::
  "u64 \<Rightarrow> u64 \<Rightarrow> bool \<Rightarrow> nat \<Rightarrow> 'f timer_manager \<Rightarrow> (bool \<times> bool \<times> 'f timer_manager) res" where
  "Timer_reset now ms from_now p m =
     (if ms = m_ms (heap m p) \<and> \<not> from_now then Inr (True, False, m)
      else if m_cb (heap m p) = None then Inr (False, False, m)
      else if set_find (before (heap m)) p (m_timers m) = length (m_timers m) then Inr (False, False, m)
      else rbind (erase_timer p m) (\<lambda>m1.
        let start = (if from_now then now else m_next (heap m1 p) - m_ms (heap m1 p));
            (front, m2) = addTimer_locked p
              (set_timer p (heap m1 p\<lparr>m_ms := ms, m_next := ms + start\<rparr>) m1)
        in Inr (True, front, m2)))"

subsection \<open>Operations of the manager\<close>

definition addTimer ::
  "u64 \<Rightarrow> nat \<Rightarrow> u64 \<Rightarrow> 'f callback option \<Rightarrow> bool \<Rightarrow> 'f timer_manager \<Rightarrow> bool \<times> 'f timer_manager" where
  "addTimer now p ms cb recurring m =
     addTimer_locked p ((set_timer p (new_Timer now ms cb recurring) m)\<lparr>live := p # live m\<rparr>)"

definition addConditionTimer ::
  "u64 \<Rightarrow> nat \<Rightarrow> u64 \<Rightarrow> 'f \<Rightarrow> nat \<Rightarrow> bool \<Rightarrow> 'f timer_manager \<Rightarrow> bool \<times> 'f timer_manager" where
  "addConditionTimer now p ms f weak_cond recurring m =
     addTimer now p ms (Some (OnTimer weak_cond f)) recurring m"

text \<open>What a callback runs, given which conditions can still be locked.\<close>

definition run_callback :: "(nat \<Rightarrow> bool) \<Rightarrow> 'f callback \<Rightarrow> 'f option" where
  "run_callback alive cb = (case cb of Fn f \<Rightarrow> Some f
     | OnTimer c f \<Rightarrow> if alive c then Some f else None)"

definition getNextTimer :: "u64 \<Rightarrow> 'f timer_manager \<Rightarrow> u64 \<times> 'f timer_manager" where
  "getNextTimer now m =
     (let m1 = m\<lparr>m_tickled := False\<rparr> in
      case m_timers m1 of
        [] \<Rightarrow> (- 1, m1)
      | p # _ \<Rightarrow> (if now \<ge> m_next (heap m1 p) then 0 else m_next (heap m1 p) - now, m1))"

definition detectClockRollover :: "u64 \<Rightarrow> 'f timer_manager \<Rightarrow> bool \<times> 'f timer_manager" where
  "detectClockRollover now m =
     (now < m_previousTime m \<and> now < m_previousTime m - 60 * 60 * 1000, m\<lparr>m_previousTime := now\<rparr>)"

fun fire_all :: "u64 \<Rightarrow> nat list \<Rightarrow> 'f timer_manager \<Rightarrow> 'f callback option list \<times> 'f timer_manager" where
  "fire_all now [] m = ([], m)"
| "fire_all now (p # ps) m =
     (let cb = m_cb (heap m p);
          m1 = (if m_recurring (heap m p)
                then snd (insert_timer p (set_timer p (heap m p\<lparr>m_next := now + m_ms (heap m p)\<rparr>) m))
                else set_timer p (heap m p\<lparr>m_cb := None\<rparr>) m);
          (cbs, m2) = fire_all now ps m1
      in (cb # cbs, m2))"

definition expired_end :: "u64 \<Rightarrow> nat \<Rightarrow> bool \<Rightarrow> 'f timer_manager \<Rightarrow> nat" where
  "expired_end now q rollover m =
     (let ts = m_timers m;
          it = (if rollover then length ts
                else lower_bound (before ((heap m)(q := new_Timer_at now))) q ts)
      in it + length (takeWhile (\<lambda>p. m_next (heap m p) = now) (drop it ts)))"

definition listExpired_locked ::
  "u64 \<Rightarrow> nat \<Rightarrow> 'f timer_manager \<Rightarrow> ('f callback option list \<times> 'f timer_manager) res" where
  "listExpired_locked now q m =
     (let (rollover, m1) = detectClockRollover now m in
      if \<not> rollover \<and> m_timers m1 = [] then Inl BadIterator
      else if \<not> rollover \<and> m_next (heap m1 (hd (m_timers m1))) > now then Inr ([], m1)
      else let it = expired_end now q rollover m1;
               expired = take it (m_timers m1)
           in Inr (fire_all now expired (m1\<lparr>m_timers := drop it (m_timers m1)\<rparr>)))"

definition listExpiredCb ::
  "u64 \<Rightarrow> nat \<Rightarrow> 'f timer_manager \<Rightarrow> ('f callback option list \<times> 'f timer_manager) res" where
  "listExpiredCb now q m = (if m_timers m = [] then Inr ([], m) else listExpired_locked now q m)"

definition hasTimer :: "'f timer_manager \<Rightarrow> bool" where
  "hasTimer m = (m_timers m \<noteq> [])"

subsection \<open>The comparator is an order\<close>

lemma before_iff:
  "before h p q \<longleftrightarrow> m_next (h p) < m_next (h q) \<or> m_next (h p) = m_next (h q) \<and> p < q"
  by (auto simp: Comparator_def)

interpretation timer_set: set_order "before h" for h :: "nat \<Rightarrow> 'f timer"
proof unfold_locales
  fix x y z
  show "\<not> before h x x" by (simp add: before_iff)
  show "before h x y \<Longrightarrow> before h y z \<Longrightarrow> before h x z" by (auto simp: before_iff)
  show "x \<noteq> y \<Longrightarrow> before h x y \<or> before h y x" by (auto simp: before_iff)
qed

lemma sorted_before_cong:
  "sorted_wrt (before h) xs \<Longrightarrow> (\<And>p. p \<in> set xs \<Longrightarrow> m_next (h' p) = m_next (h p)) \<Longrightarrow>
     sorted_wrt (before h') xs"
  by (erule sorted_wrt_mono_rel [rotated]) (simp add: before_iff)

subsection \<open>Invariant\<close>

text \<open>
  The set is ordered, holds timers that exist, and holds every timer whose callback
  is not null: that is what \<open>cancel\<close> relies on when it erases what \<open>find\<close> returned.
\<close>

definition tm_inv :: "'f timer_manager \<Rightarrow> bool" where
  "tm_inv m \<longleftrightarrow> sorted_wrt (before (heap m)) (m_timers m) \<and> set (m_timers m) \<subseteq> set (live m) \<and>
     (\<forall>p\<in>set (live m). m_cb (heap m p) \<noteq> None \<longrightarrow> p \<in> set (m_timers m))"

lemma tm_invD:
  assumes "tm_inv m"
  shows "sorted_wrt (before (heap m)) (m_timers m)" "distinct (m_timers m)"
    "p \<in> set (m_timers m) \<Longrightarrow> p \<in> set (live m)"
    "p \<in> set (live m) \<Longrightarrow> m_cb (heap m p) \<noteq> None \<Longrightarrow> p \<in> set (m_timers m)"
  using assms by (auto simp: tm_inv_def dest: timer_set.ordered_distinct)

lemma erase_timer_ok:
  assumes "sorted_wrt (before (heap m)) (m_timers m)" "p \<in> set (m_timers m)"
  shows "erase_timer p m = Inr (m\<lparr>m_timers := filter (\<lambda>q. q \<noteq> p) (m_timers m)\<rparr>)"
  using timer_set.erase_found [OF assms] by (simp add: erase_timer_def)

lemma insert_timer_ok:
  assumes "sorted_wrt (before (heap m)) (m_timers m)" "p \<notin> set (m_timers m)"
  shows "\<exists>ts i. insert_timer p m = (i, m\<lparr>m_timers := ts\<rparr>) \<and> set ts = insert p (set (m_timers m)) \<and>
    sorted_wrt (before (heap m)) ts \<and> (i = 0 \<longleftrightarrow> hd ts = p)"
proof -
  obtain ts i where t: "set_insert (before (heap m)) p (m_timers m) = (ts, i)" by force
  have "i = 0 \<longleftrightarrow> hd ts = p"
    using timer_set.insert_new [OF assms] t assms(2)
    by (cases "filter (\<lambda>y. before (heap m) y p) (m_timers m)") (auto simp: filter_eq_Cons_iff)
  then show ?thesis
    using timer_set.insert_set [OF assms(1), of p] timer_set.insert_sorted [OF assms] t
    by (intro exI [of _ ts] exI [of _ i]) (simp add: insert_timer_def)
qed

text \<open>Re-inserting a timer that is not in the set, with new fields.\<close>

lemma update_insert_ok:
  assumes "sorted_wrt (before (heap m)) (m_timers m)" "p \<notin> set (m_timers m)"
  shows "\<exists>ts i. insert_timer p (set_timer p t m) = (i, (set_timer p t m)\<lparr>m_timers := ts\<rparr>) \<and>
    set ts = insert p (set (m_timers m)) \<and> sorted_wrt (before ((heap m)(p := t))) ts \<and>
    (i = 0 \<longleftrightarrow> hd ts = p)"
proof -
  have "sorted_wrt (before ((heap m)(p := t))) (m_timers m)"
    using assms by (intro sorted_before_cong [OF assms(1)]) auto
  with insert_timer_ok [of "set_timer p t m" p] assms(2) show ?thesis
    by (simp add: set_timer_def)
qed

lemma filter_inv:
  "sorted_wrt (before h) ts \<Longrightarrow> sorted_wrt (before h) (filter P ts)"
  by (rule sorted_wrt_filter)

subsection \<open>Each operation keeps the invariant\<close>

lemma cancel_ok:
  assumes "tm_inv m" "p \<in> set (live m)"
  shows "\<exists>m'. Timer_cancel p m = Inr (m_cb (heap m p) \<noteq> None, m') \<and> tm_inv m' \<and>
    m_cb (heap m' p) = None \<and> live m' = live m \<and>
    (\<forall>q. q \<noteq> p \<longrightarrow> heap m' q = heap m q) \<and>
    set (m_timers m') = (if m_cb (heap m p) \<noteq> None then set (m_timers m) - {p} else set (m_timers m))"
proof (cases "m_cb (heap m p) = None")
  case True
  with assms(1) show ?thesis by (simp add: Timer_cancel_def)
next
  case False
  let ?m = "set_timer p (heap m p\<lparr>m_cb := None\<rparr>) m"
  have s: "sorted_wrt (before (heap ?m)) (m_timers ?m)"
    using tm_invD(1) [OF assms(1)] by (auto simp: set_timer_def elim: sorted_before_cong)
  have p: "p \<in> set (m_timers ?m)" using tm_invD(4) [OF assms False] by (simp add: set_timer_def)
  show ?thesis
    using erase_timer_ok [OF s p] False s assms(1)
    by (auto simp: Timer_cancel_def tm_inv_def set_timer_def intro: filter_inv)
qed

lemma refresh_ok:
  assumes "tm_inv m" "p \<in> set (live m)"
  shows "\<exists>m'. Timer_refresh now p m = Inr (m_cb (heap m p) \<noteq> None, m') \<and> tm_inv m' \<and>
    live m' = live m \<and> set (m_timers m') = set (m_timers m) \<and>
    heap m' = (if m_cb (heap m p) = None then heap m
      else (heap m)(p := heap m p\<lparr>m_next := now + m_ms (heap m p)\<rparr>))"
proof (cases "m_cb (heap m p) = None")
  case True
  with assms(1) show ?thesis by (simp add: Timer_refresh_def)
next
  case False
  have p: "p \<in> set (m_timers m)" using tm_invD(4) [OF assms False] .
  note s = tm_invD(1) [OF assms(1)]
  let ?m1 = "m\<lparr>m_timers := filter (\<lambda>q. q \<noteq> p) (m_timers m)\<rparr>"
  obtain ts i where "insert_timer p (set_timer p (heap m p\<lparr>m_next := now + m_ms (heap m p)\<rparr>) ?m1) =
      (i, (set_timer p (heap m p\<lparr>m_next := now + m_ms (heap m p)\<rparr>) ?m1)\<lparr>m_timers := ts\<rparr>)"
    "set ts = insert p (set (m_timers m) - {p})"
    "sorted_wrt (before ((heap m)(p := heap m p\<lparr>m_next := now + m_ms (heap m p)\<rparr>))) ts"
    using update_insert_ok [of ?m1 p "heap m p\<lparr>m_next := now + m_ms (heap m p)\<rparr>"]
      filter_inv [OF s] by (auto simp: set_diff_eq)
  moreover have "set_find (before (heap m)) p (m_timers m) < length (m_timers m)"
    using timer_set.find_iff [OF s] p by simp
  ultimately show ?thesis
    using erase_timer_ok [OF s p] False p assms(1)
    by (auto simp: Timer_refresh_def tm_inv_def set_timer_def)
qed

lemma addTimer_locked_ok:
  assumes "sorted_wrt (before (heap m)) (m_timers m)" "p \<notin> set (m_timers m)"
  shows "\<exists>ts. addTimer_locked p (set_timer p t m) =
      (hd ts = p \<and> \<not> m_tickled m,
       (set_timer p t m)\<lparr>m_timers := ts, m_tickled := m_tickled m \<or> hd ts = p\<rparr>) \<and>
    set ts = insert p (set (m_timers m)) \<and> sorted_wrt (before ((heap m)(p := t))) ts"
proof -
  obtain ts i where t: "insert_timer p (set_timer p t m) = (i, (set_timer p t m)\<lparr>m_timers := ts\<rparr>)"
    "set ts = insert p (set (m_timers m))" "sorted_wrt (before ((heap m)(p := t))) ts"
    "i = 0 \<longleftrightarrow> hd ts = p"
    using update_insert_ok [OF assms] by blast
  then have "addTimer_locked p (set_timer p t m) =
      (hd ts = p \<and> \<not> m_tickled m,
       (set_timer p t m)\<lparr>m_timers := ts, m_tickled := m_tickled m \<or> hd ts = p\<rparr>)"
    by (cases m) (auto simp: addTimer_locked_def set_timer_def Let_def)
  with t show ?thesis by blast
qed

lemma addTimer_ok:
  assumes "tm_inv m" "p \<notin> set (live m)"
  shows "\<exists>ts. addTimer now p ms cb rec m =
      (hd ts = p \<and> \<not> m_tickled m, m\<lparr>m_timers := ts, m_tickled := m_tickled m \<or> hd ts = p,
         heap := (heap m)(p := new_Timer now ms cb rec), live := p # live m\<rparr>) \<and>
    set ts = insert p (set (m_timers m)) \<and> tm_inv (snd (addTimer now p ms cb rec m))"
proof -
  let ?t = "new_Timer now ms cb rec" and ?m = "m\<lparr>live := p # live m\<rparr>"
  have p: "p \<notin> set (m_timers ?m)" using tm_invD(3) [OF assms(1)] assms(2) by auto
  have e: "(set_timer p ?t m)\<lparr>live := p # live m\<rparr> = set_timer p ?t ?m" by (simp add: set_timer_def)
  obtain ts where t: "addTimer_locked p (set_timer p ?t ?m) =
      (hd ts = p \<and> \<not> m_tickled m, (set_timer p ?t ?m)\<lparr>m_timers := ts, m_tickled := m_tickled m \<or> hd ts = p\<rparr>)"
    "set ts = insert p (set (m_timers m))" "sorted_wrt (before ((heap m)(p := ?t))) ts"
    using addTimer_locked_ok [of ?m p ?t] tm_invD(1) [OF assms(1)] p by auto
  have a: "addTimer now p ms cb rec m = (hd ts = p \<and> \<not> m_tickled m,
      m\<lparr>m_timers := ts, m_tickled := m_tickled m \<or> hd ts = p, heap := (heap m)(p := ?t), live := p # live m\<rparr>)"
    unfolding addTimer_def e t(1) by (simp add: set_timer_def)
  then have "tm_inv (snd (addTimer now p ms cb rec m))"
    using t assms by (auto simp: tm_inv_def)
  with a t show ?thesis by blast
qed

lemma reset_ok:
  assumes "tm_inv m" "p \<in> set (live m)"
  shows "\<exists>b front m'. Timer_reset now ms from_now p m = Inr (b, front, m') \<and> tm_inv m' \<and>
    live m' = live m \<and> set (m_timers m') = set (m_timers m) \<and>
    (b \<longleftrightarrow> m_cb (heap m p) \<noteq> None \<or> ms = m_ms (heap m p) \<and> \<not> from_now) \<and>
    heap m' = (if ms = m_ms (heap m p) \<and> \<not> from_now \<or> m_cb (heap m p) = None then heap m
      else (heap m)(p := heap m p\<lparr>m_ms := ms, m_next := ms + (if from_now then now
              else m_next (heap m p) - m_ms (heap m p))\<rparr>))"
proof (cases "ms = m_ms (heap m p) \<and> \<not> from_now \<or> m_cb (heap m p) = None")
  case True
  with assms(1) show ?thesis by (auto simp: Timer_reset_def)
next
  case False
  let ?t = "heap m p\<lparr>m_ms := ms, m_next := ms + (if from_now then now else m_next (heap m p) - m_ms (heap m p))\<rparr>"
  let ?m1 = "m\<lparr>m_timers := filter (\<lambda>q. q \<noteq> p) (m_timers m)\<rparr>"
  have p: "p \<in> set (m_timers m)" using tm_invD(4) [OF assms] False by auto
  note s = tm_invD(1) [OF assms(1)]
  obtain ts where t: "addTimer_locked p (set_timer p ?t ?m1) =
      (hd ts = p \<and> \<not> m_tickled m,
       (set_timer p ?t ?m1)\<lparr>m_timers := ts, m_tickled := m_tickled m \<or> hd ts = p\<rparr>)"
    "set ts = insert p (set (m_timers m))" "sorted_wrt (before ((heap m)(p := ?t))) ts"
    using addTimer_locked_ok [of ?m1 p ?t] filter_inv [OF s, of "\<lambda>q. q \<noteq> p"] by fastforce
  have "set_find (before (heap m)) p (m_timers m) < length (m_timers m)"
    using timer_set.find_iff [OF s] p by simp
  then have "Timer_reset now ms from_now p m = Inr (True, hd ts = p \<and> \<not> m_tickled m,
      (set_timer p ?t ?m1)\<lparr>m_timers := ts, m_tickled := m_tickled m \<or> hd ts = p\<rparr>)"
    using erase_timer_ok [OF s p] False t(1) by (auto simp: Timer_reset_def Let_def)
  then show ?thesis
    using False p assms(1) t by (auto simp: tm_inv_def set_timer_def)
qed

subsection \<open>Expiry\<close>

lemma fire_all_ok:
  "sorted_wrt (before (heap m)) (m_timers m) \<Longrightarrow> distinct ps \<Longrightarrow> set ps \<inter> set (m_timers m) = {} \<Longrightarrow>
   \<exists>m'. fire_all now ps m = (map (\<lambda>p. m_cb (heap m p)) ps, m') \<and>
     sorted_wrt (before (heap m')) (m_timers m') \<and>
     set (m_timers m') = set (m_timers m) \<union> {p \<in> set ps. m_recurring (heap m p)} \<and>
     heap m' = (\<lambda>p. if p \<in> set ps then
         (if m_recurring (heap m p) then heap m p\<lparr>m_next := now + m_ms (heap m p)\<rparr>
          else heap m p\<lparr>m_cb := None\<rparr>) else heap m p) \<and>
     live m' = live m \<and> m_tickled m' = m_tickled m \<and> m_previousTime m' = m_previousTime m"
proof (induction ps arbitrary: m)
  case Nil
  then show ?case by (simp add: fun_eq_iff)
next
  case (Cons p ps)
  let ?t = "if m_recurring (heap m p) then heap m p\<lparr>m_next := now + m_ms (heap m p)\<rparr>
            else heap m p\<lparr>m_cb := None\<rparr>"
  have pn: "p \<notin> set (m_timers m)" "p \<notin> set ps" using Cons.prems by auto
  have s: "sorted_wrt (before ((heap m)(p := ?t))) (m_timers m)"
    using pn by (intro sorted_before_cong [OF Cons.prems(1)]) auto
  obtain ts where ts: "(if m_recurring (heap m p)
      then snd (insert_timer p (set_timer p (heap m p\<lparr>m_next := now + m_ms (heap m p)\<rparr>) m))
      else set_timer p (heap m p\<lparr>m_cb := None\<rparr>) m) = (set_timer p ?t m)\<lparr>m_timers := ts\<rparr>"
    "set ts = set (m_timers m) \<union> {q. q = p \<and> m_recurring (heap m p)}"
    "sorted_wrt (before ((heap m)(p := ?t))) ts"
  proof (cases "m_recurring (heap m p)")
    case True
    with update_insert_ok [OF Cons.prems(1) pn(1), of ?t] that show ?thesis by fastforce
  next
    case False
    with that [of "m_timers m"] s show ?thesis by (simp add: set_timer_def)
  qed
  let ?m1 = "(set_timer p ?t m)\<lparr>m_timers := ts\<rparr>"
  have "sorted_wrt (before (heap ?m1)) (m_timers ?m1)" using ts(3) by (simp add: set_timer_def)
  moreover have "set ps \<inter> set (m_timers ?m1) = {}" using Cons.prems(3) pn ts(2) by auto
  ultimately obtain m' where m': "fire_all now ps ?m1 = (map (\<lambda>p. m_cb (heap ?m1 p)) ps, m')"
    "sorted_wrt (before (heap m')) (m_timers m')"
    "set (m_timers m') = set (m_timers ?m1) \<union> {p \<in> set ps. m_recurring (heap ?m1 p)}"
    "heap m' = (\<lambda>p. if p \<in> set ps then
         (if m_recurring (heap ?m1 p) then heap ?m1 p\<lparr>m_next := now + m_ms (heap ?m1 p)\<rparr>
          else heap ?m1 p\<lparr>m_cb := None\<rparr>) else heap ?m1 p)"
    "live m' = live ?m1" "m_tickled m' = m_tickled ?m1" "m_previousTime m' = m_previousTime ?m1"
    using Cons.IH [of ?m1] Cons.prems(2) by auto
  have hp: "heap ?m1 = (heap m)(p := ?t)" by (simp add: set_timer_def)
  have same: "q \<in> set ps \<Longrightarrow> heap ?m1 q = heap m q" for q using pn(2) hp by auto
  have "fire_all now (p # ps) m = (map (\<lambda>p. m_cb (heap m p)) (p # ps), m')"
    unfolding fire_all.simps Let_def ts(1) m'(1) using same by (simp cong: map_cong)
  moreover have "set (m_timers m') = set (m_timers m) \<union> {q \<in> set (p # ps). m_recurring (heap m q)}"
    using m'(3) ts(2) same pn(2) by auto
  moreover have "heap m' = (\<lambda>q. if q \<in> set (p # ps) then
         (if m_recurring (heap m q) then heap m q\<lparr>m_next := now + m_ms (heap m q)\<rparr>
          else heap m q\<lparr>m_cb := None\<rparr>) else heap m q)"
    unfolding m'(4) using same pn(2) hp by (auto simp: fun_eq_iff)
  ultimately show ?case using m' by (auto simp: set_timer_def)
qed

lemma sorted_split_le:
  fixes now :: u64
  assumes s: "sorted_wrt (before h) ts" and q: "q \<notin> set ts"
  defines "i \<equiv> lower_bound (before (h(q := new_Timer_at now))) q ts"
  defines "k \<equiv> i + length (takeWhile (\<lambda>p. m_next (h p) = now) (drop i ts))"
  shows "take k ts = filter (\<lambda>p. m_next (h p) \<le> now) ts \<and> drop k ts = filter (\<lambda>p. now < m_next (h p)) ts"
proof -
  let ?h = "h(q := new_Timer_at now)"
  have s': "sorted_wrt (before ?h) ts" using q by (intro sorted_before_cong [OF s]) auto
  have lt: "before ?h p q \<longleftrightarrow> m_next (h p) < now \<or> m_next (h p) = now \<and> p < q" if "p \<in> set ts" for p
    using that q by (auto simp: before_iff new_Timer_at_def)
  have all: "list_all (\<lambda>p. m_next (h p) \<le> now) (take k ts) \<and> list_all (\<lambda>p. now < m_next (h p)) (drop k ts)"
  proof -
    have d: "drop i ts = filter (\<lambda>p. \<not> before ?h p q) ts" and t: "take i ts = filter (\<lambda>p. before ?h p q) ts"
      unfolding i_def by (rule timer_set.drop_lower [OF s'], rule timer_set.take_lower [OF s'])
    have lo: "list_all (\<lambda>p. m_next (h p) \<le> now) (take i ts)"
      using t lt by (auto simp: list_all_iff)
    let ?w = "takeWhile (\<lambda>p. m_next (h p) = now) (drop i ts)"
    have tk: "take k ts = take i ts @ ?w"
      unfolding k_def by (simp only: take_add takeWhile_eq_take [symmetric])
    have dk: "drop k ts = dropWhile (\<lambda>p. m_next (h p) = now) (drop i ts)"
      unfolding k_def dropWhile_eq_drop by (simp only: drop_drop add.commute)
    have ge: "\<forall>p\<in>set (drop i ts). now \<le> m_next (h p)" using d lt by auto
    have "list_all (\<lambda>p. now < m_next (h p)) (drop k ts)"
    proof (cases "drop k ts")
      case (Cons a ys)
      then have "m_next (h a) \<noteq> now" using dk hd_dropWhile [of "\<lambda>p. m_next (h p) = now" "drop i ts"] by auto
      moreover have "a \<in> set (drop i ts)" using Cons dk by (metis list.set_intros(1) set_dropWhileD)
      ultimately have "now < m_next (h a)" using ge by force
      moreover have "sorted_wrt (before h) (a # ys)" using s Cons by (metis sorted_wrt_drop)
      ultimately show ?thesis unfolding Cons by (auto simp: list_all_iff before_iff)
    qed simp
    then show ?thesis using lo tk by (auto simp: list_all_iff dest: set_takeWhileD)
  qed
  have "filter P ts = filter P (take k ts) @ filter P (drop k ts)" for P
    by (metis append_take_drop_id filter_append)
  then show ?thesis using all by (auto simp: list_all_iff filter_id_conv filter_empty_conv not_le not_less)
qed

text \<open>What is expired: everything after a rollover of the clock, else what is due.\<close>

definition due :: "u64 \<Rightarrow> bool \<Rightarrow> 'f timer_manager \<Rightarrow> nat \<Rightarrow> bool" where
  "due now rollover m p \<longleftrightarrow> rollover \<or> m_next (heap m p) \<le> now"

lemma expired_end_split:
  assumes "sorted_wrt (before (heap m)) (m_timers m)" "q \<notin> set (m_timers m)"
  shows "take (expired_end now q rollover m) (m_timers m) = filter (due now rollover m) (m_timers m) \<and>
    drop (expired_end now q rollover m) (m_timers m) = filter (\<lambda>p. \<not> due now rollover m p) (m_timers m)"
  using sorted_split_le [OF assms, of now]
  by (cases rollover) (simp_all add: expired_end_def due_def [abs_def] Let_def not_le)

lemma listExpired_locked_ok:
  assumes inv: "tm_inv m" and q: "q \<notin> set (live m)"
    and ne: "m_timers m \<noteq> [] \<or> fst (detectClockRollover now m)"
  defines "ps \<equiv> filter (due now (fst (detectClockRollover now m)) m) (m_timers m)"
  shows "\<exists>m'. listExpired_locked now q m = Inr (map (\<lambda>p. m_cb (heap m p)) ps, m') \<and> tm_inv m' \<and>
    live m' = live m \<and> m_previousTime m' = now \<and>
    set (m_timers m') = set (m_timers m) - {p \<in> set ps. \<not> m_recurring (heap m p)} \<and>
    heap m' = (\<lambda>p. if p \<in> set ps then
         (if m_recurring (heap m p) then heap m p\<lparr>m_next := now + m_ms (heap m p)\<rparr>
          else heap m p\<lparr>m_cb := None\<rparr>) else heap m p)"
proof -
  define r where "r = fst (detectClockRollover now m)"
  let ?m1 = "m\<lparr>m_previousTime := now\<rparr>"
  have dr: "detectClockRollover now m = (r, ?m1)" by (simp add: r_def detectClockRollover_def)
  note i = tm_invD [OF inv]
  have qn: "q \<notin> set (m_timers m)" using i(3) q by auto
  show ?thesis
  proof (cases "\<not> r \<and> m_next (heap m (hd (m_timers m))) > now")
    case True
    then obtain p ts where ts: "m_timers m = p # ts" using ne r_def by (cases "m_timers m") auto
    have "ps = []"
      using True i(1) by (auto simp: ps_def ts due_def r_def [symmetric] before_iff filter_empty_conv)
    moreover have "listExpired_locked now q m = Inr ([], ?m1)"
      using True ts by (simp add: listExpired_locked_def dr)
    ultimately show ?thesis using inv by (simp add: tm_inv_def)
  next
    case False
    let ?k = "expired_end now q r ?m1"
    have sp: "take ?k (m_timers m) = ps" "drop ?k (m_timers m) = filter (\<lambda>p. \<not> due now r m p) (m_timers m)"
      using expired_end_split [of ?m1 q now r] i(1) qn
      by (simp_all add: ps_def r_def due_def [abs_def])
    have le: "listExpired_locked now q m = Inr (fire_all now ps (?m1\<lparr>m_timers := drop ?k (m_timers m)\<rparr>))"
      using False ne sp(1) by (auto simp: listExpired_locked_def dr Let_def r_def [symmetric])
    have un: "set ps \<inter> set (drop ?k (m_timers m)) = {}" "distinct ps"
      using i(2) set_take_disj_set_drop_if_distinct [OF i(2) order_refl [of ?k]]
      unfolding sp(1) [symmetric] by simp_all
    let ?m2 = "?m1\<lparr>m_timers := drop ?k (m_timers m)\<rparr>"
    have he: "heap ?m2 = heap m" "m_timers ?m2 = drop ?k (m_timers m)" "live ?m2 = live m"
      "m_previousTime ?m2 = now" by simp_all
    have s2: "sorted_wrt (before (heap ?m2)) (m_timers ?m2)" "set ps \<inter> set (m_timers ?m2) = {}"
      using i(1) un(1) by (simp_all add: sorted_wrt_drop)
    obtain m' where m': "fire_all now ps ?m2 = (map (\<lambda>p. m_cb (heap m p)) ps, m')"
      "sorted_wrt (before (heap m')) (m_timers m')"
      "set (m_timers m') = set (drop ?k (m_timers m)) \<union> {p \<in> set ps. m_recurring (heap m p)}"
      "heap m' = (\<lambda>p. if p \<in> set ps then
         (if m_recurring (heap m p) then heap m p\<lparr>m_next := now + m_ms (heap m p)\<rparr>
          else heap m p\<lparr>m_cb := None\<rparr>) else heap m p)"
      "live m' = live m" "m_previousTime m' = now"
      using fire_all_ok [OF s2(1) un(2) s2(2), of now]
      unfolding he by blast
    have st: "set (m_timers m') = set (m_timers m) - {p \<in> set ps. \<not> m_recurring (heap m p)}"
      unfolding m'(3) sp(2) by (auto simp: ps_def r_def [symmetric])
    have "tm_inv m'"
      unfolding tm_inv_def st m'(5)
      using m'(2) i(3,4) by (auto simp: m'(4) split: if_splits)
    with le m' st show ?thesis by auto
  qed
qed

subsection \<open>Interleaved runs\<close>

text \<open>
  The steps threads can interleave, each under the write lock (\<open>getNextTimer\<close> under
  the read lock). The emptiness check of \<open>listExpiredCb\<close> changes nothing, so only its
  second half is a step.
\<close>

inductive tm_step :: "'f timer_manager \<Rightarrow> 'f timer_manager \<Rightarrow> bool" where
  step_add: "p \<notin> set (live m) \<Longrightarrow> tm_step m (snd (addTimer now p ms cb rec m))"
| step_cancel: "p \<in> set (live m) \<Longrightarrow> Timer_cancel p m = Inr (b, m') \<Longrightarrow> tm_step m m'"
| step_refresh: "p \<in> set (live m) \<Longrightarrow> Timer_refresh now p m = Inr (b, m') \<Longrightarrow> tm_step m m'"
| step_reset: "p \<in> set (live m) \<Longrightarrow> Timer_reset now ms from_now p m = Inr (b, f, m') \<Longrightarrow> tm_step m m'"
| step_next: "tm_step m (snd (getNextTimer now m))"
| step_expire: "q \<notin> set (live m) \<Longrightarrow> listExpired_locked now q m = Inr (cbs, m') \<Longrightarrow> tm_step m m'"

inductive_cases tm_stepE: "tm_step m m'"

lemma getNextTimer_state: "snd (getNextTimer now m) = m\<lparr>m_tickled := False\<rparr>"
  by (simp add: getNextTimer_def Let_def split: list.split)

lemma listExpired_locked_ne:
  "listExpired_locked now q m = Inr r \<Longrightarrow> m_timers m \<noteq> [] \<or> fst (detectClockRollover now m)"
  by (auto simp: listExpired_locked_def detectClockRollover_def split: if_splits)

lemma tm_step_inv: "tm_step m m' \<Longrightarrow> tm_inv m \<Longrightarrow> tm_inv m'"
proof (induction rule: tm_step.induct)
  case (step_add p m now ms cb rec)
  then show ?case using addTimer_ok [of m p now ms cb rec] by auto
next
  case (step_cancel p m b m')
  then show ?case using cancel_ok [of m p] by auto
next
  case (step_refresh p m now b m')
  then show ?case using refresh_ok [of m p now] by auto
next
  case (step_reset p m now ms from_now b f m')
  then show ?case using reset_ok [of m p now ms from_now] by auto
next
  case (step_next m now)
  then show ?case by (simp add: getNextTimer_state tm_inv_def)
next
  case (step_expire q m now cbs m')
  then show ?case using listExpired_locked_ok [of m q now] listExpired_locked_ne [of now q m] by auto
qed

lemma new_TimerManager_inv: "tm_inv (new_TimerManager now h)"
  by (simp add: new_TimerManager_def tm_inv_def)

lemma reachable_inv: "tm_step\<^sup>*\<^sup>* (new_TimerManager now h) m \<Longrightarrow> tm_inv m"
  by (induction rule: rtranclp_induct) (auto intro: new_TimerManager_inv tm_step_inv)

text \<open>A timer that is out of the set and has no callback stays so: it is retired.\<close>

definition retired :: "nat \<Rightarrow> 'f timer_manager \<Rightarrow> bool" where
  "retired p m \<longleftrightarrow> tm_inv m \<and> p \<in> set (live m) \<and> m_cb (heap m p) = None \<and> p \<notin> set (m_timers m)"

lemma retired_step: "tm_step m m' \<Longrightarrow> retired p m \<Longrightarrow> retired p m'"
proof -
  assume st: "tm_step m m'" and r: "retired p m"
  then have inv: "tm_inv m'" and i: "tm_inv m" using tm_step_inv by (auto simp: retired_def)
  from st show "retired p m'"
  proof cases
    case (step_add q now ms cb rec)
    then show ?thesis using addTimer_ok [OF i, of q now ms cb rec] r inv by (auto simp: retired_def)
  next
    case (step_cancel q b)
    then show ?thesis using cancel_ok [OF i, of q] r inv by (cases "q = p") (auto simp: retired_def split: if_splits)
  next
    case (step_refresh q now b)
    then show ?thesis using refresh_ok [OF i, of q now] r inv by (auto simp: retired_def split: if_splits)
  next
    case (step_reset q now ms from_now b f)
    then show ?thesis using reset_ok [OF i, of q now ms from_now] r inv by (auto simp: retired_def split: if_splits)
  next
    case (step_next now)
    then show ?thesis using r by (auto simp: getNextTimer_state retired_def tm_inv_def)
  next
    case (step_expire q now cbs)
    then show ?thesis
      using listExpired_locked_ok [OF i, of q now] listExpired_locked_ne [of now q m] r inv
      by (auto simp: retired_def split: if_splits)
  qed
qed

lemma retired_forever: "tm_step\<^sup>*\<^sup>* m m' \<Longrightarrow> retired p m \<Longrightarrow> retired p m'"
  by (induction rule: rtranclp_induct) (auto intro: retired_step)

subsection \<open>Properties of the timers\<close>

text \<open>
  Property C8. In every state that interleaved calls can reach, no operation on an
  existing timer dereferences \<open>end()\<close>: \<open>cancel\<close> finds what it erases, \<open>refresh\<close> and
  \<open>reset\<close> return; \<open>cancel\<close> returns true exactly when the callback was still set.
\<close>

theorem timer_operations_safe:
  assumes "tm_step\<^sup>*\<^sup>* (new_TimerManager t0 h) m" "p \<in> set (live m)"
  shows "(\<exists>m'. Timer_cancel p m = Inr (m_cb (heap m p) \<noteq> None, m')) \<and>
    (\<exists>m'. Timer_refresh now p m = Inr (m_cb (heap m p) \<noteq> None, m')) \<and>
    (\<exists>r. Timer_reset now ms from_now p m = Inr r)"
  using cancel_ok [OF reachable_inv [OF assms(1)] assms(2)]
    refresh_ok [OF reachable_inv [OF assms(1)] assms(2), of now]
    reset_ok [OF reachable_inv [OF assms(1)] assms(2), of now ms from_now] by blast

text \<open>A small run: one timer of 10 ms created at time 5 in an empty manager.\<close>

definition demo_tm :: "bool \<Rightarrow> nat timer_manager" where
  "demo_tm recurring = snd (addTimer 5 7 10 (Some (Fn 1)) recurring
     (new_TimerManager 0 (\<lambda>_. new_Timer_at 0)))"

lemma demo_tm_eq:
  "demo_tm r = \<lparr>m_timers = [7], m_tickled = True, m_previousTime = 0,
     heap = (\<lambda>_. new_Timer_at 0)(7 := new_Timer 5 10 (Some (Fn 1)) r), live = [7]\<rparr>"
  by (simp add: demo_tm_def addTimer_def addTimer_locked_def insert_timer_def set_insert_def
      lower_bound_def set_timer_def new_TimerManager_def)

lemma demo_tm_reachable: "tm_step\<^sup>*\<^sup>* (new_TimerManager 0 (\<lambda>_. new_Timer_at 0)) (demo_tm r)"
  unfolding demo_tm_def by (intro r_into_rtranclp step_add) (simp add: new_TimerManager_def)

theorem timer_operations_safe_witness: "\<exists>m'. Timer_cancel 7 (demo_tm False) = Inr (True, m')"
  using timer_operations_safe [OF demo_tm_reachable, of 7 False 0 0 False]
  by (simp add: demo_tm_eq new_Timer_def)

text \<open>
  Property C20. \<open>cancel\<close> is final: once it returned true, no later sequence of
  operations, whatever the interleaving, puts the timer back or gives it a callback,
  so \<open>listExpiredCb\<close> never returns it again.
\<close>

theorem timer_cancel_final:
  assumes "tm_inv m" "p \<in> set (live m)" "Timer_cancel p m = Inr (True, m1)" "tm_step\<^sup>*\<^sup>* m1 m2"
  shows "p \<notin> set (m_timers m2) \<and> m_cb (heap m2 p) = None \<and> Timer_cancel p m2 = Inr (False, m2)"
proof -
  have "retired p m1" using cancel_ok [OF assms(1,2)] assms(2,3) by (auto simp: retired_def)
  from retired_forever [OF assms(4) this] show ?thesis by (simp add: retired_def Timer_cancel_def)
qed

theorem timer_cancel_final_witness:
  "\<exists>m1. Timer_cancel 7 (demo_tm True) = Inr (True, m1) \<and> Timer_cancel 7 m1 = Inr (False, m1)"
proof -
  have i: "tm_inv (demo_tm True)" by (rule reachable_inv [OF demo_tm_reachable])
  have l: "7 \<in> set (live (demo_tm True))" by (simp add: demo_tm_eq)
  obtain m1 where "Timer_cancel 7 (demo_tm True) = Inr (True, m1)"
    using cancel_ok [OF i l] by (auto simp: demo_tm_eq new_Timer_def)
  with timer_cancel_final [OF i l this rtranclp.rtrancl_refl] show ?thesis by blast
qed

text \<open>
  Property C9. \<open>listExpiredCb\<close> returns, in the order of their expiry, the callbacks of
  exactly the timers that are due (all of them after the clock jumped back by more
  than an hour), removes the one-shot ones and clears their callbacks, re-arms the
  recurring ones one period after now, leaves every other timer alone and keeps the
  invariant.
\<close>

theorem timer_expiry_exact:
  assumes "tm_inv m" "q \<notin> set (live m)" "m_timers m \<noteq> []"
  shows "\<exists>m'. listExpiredCb now q m = Inr (map (\<lambda>p. m_cb (heap m p))
      (filter (due now (fst (detectClockRollover now m)) m) (m_timers m)), m') \<and>
    tm_inv m' \<and>
    (\<forall>p. p \<in> set (m_timers m') \<longleftrightarrow> p \<in> set (m_timers m) \<and>
       (due now (fst (detectClockRollover now m)) m p \<longrightarrow> m_recurring (heap m p))) \<and>
    (\<forall>p\<in>set (m_timers m). heap m' p =
       (if \<not> due now (fst (detectClockRollover now m)) m p then heap m p
        else if m_recurring (heap m p) then heap m p\<lparr>m_next := now + m_ms (heap m p)\<rparr>
        else heap m p\<lparr>m_cb := None\<rparr>))"
  using listExpired_locked_ok [OF assms(1,2), of now] assms(3)
  by (auto simp: listExpiredCb_def)

theorem timer_expiry_exact_witness:
  "\<exists>m'. listExpiredCb 20 9 (demo_tm True) = Inr ([Some (Fn 1)], m') \<and> tm_inv m'"
proof -
  have "detectClockRollover 20 (demo_tm True) = (False, (demo_tm True)\<lparr>m_previousTime := 20\<rparr>)"
    by (simp add: detectClockRollover_def demo_tm_eq)
  then show ?thesis
    using timer_expiry_exact [OF reachable_inv [OF demo_tm_reachable], of 9 True 20]
    by (auto simp: demo_tm_eq new_Timer_def due_def)
qed

text \<open>
  \<open>getNextTimer\<close> is the right time to sleep: it is 0 exactly when a timer
  is due; otherwise no timer expires before that many milliseconds have passed and one
  expires then; with no timer at all it is \<open>~0ull\<close>.
\<close>

theorem timer_sleep_exact:
  assumes "tm_inv m"
  shows "(let d = fst (getNextTimer now m) in
    (m_timers m = [] \<longrightarrow> d = - 1) \<and>
    (m_timers m \<noteq> [] \<longrightarrow>
      (d = 0 \<longleftrightarrow> (\<exists>p\<in>set (m_timers m). m_next (heap m p) \<le> now)) \<and>
      (d \<noteq> 0 \<longrightarrow> (\<exists>p\<in>set (m_timers m). m_next (heap m p) = now + d) \<and>
         (\<forall>p\<in>set (m_timers m). now + d \<le> m_next (heap m p)))))"
proof (cases "m_timers m")
  case Nil
  then show ?thesis by (simp add: getNextTimer_def)
next
  case (Cons p ts)
  have le: "\<forall>q\<in>set (m_timers m). m_next (heap m p) \<le> m_next (heap m q)"
    using tm_invD(1) [OF assms] unfolding Cons by (auto simp: before_iff)
  show ?thesis
  proof (cases "m_next (heap m p) \<le> now")
    case True
    then show ?thesis by (auto simp: getNextTimer_def Cons)
  next
    case False
    then have "m_next (heap m p) - now \<noteq> 0" by auto
    moreover have "\<not> (\<exists>q\<in>set (m_timers m). m_next (heap m q) \<le> now)" using le False by force
    ultimately show ?thesis using False le by (auto simp: getNextTimer_def Cons)
  qed
qed

theorem timer_sleep_exact_witness: "fst (getNextTimer 6 (demo_tm False)) \<noteq> 0"
  using timer_sleep_exact [OF reachable_inv [OF demo_tm_reachable], of 6 False]
  by (auto simp: demo_tm_eq new_Timer_def Let_def)

text \<open>
  \<open>listExpiredCb\<close> releases the lock between its emptiness check and its
  work. When another thread cancels the only timer in that window, the second half
  dereferences \<open>begin()\<close> of an empty set.
\<close>

theorem timer_expiry_race:
  assumes "tm_inv m" "m_timers m = [p]" "m_cb (heap m p) \<noteq> None" "m_previousTime m \<le> now"
  shows "\<exists>m1. Timer_cancel p m = Inr (True, m1) \<and> listExpired_locked now q m1 = Inl BadIterator"
proof -
  let ?m = "set_timer p (heap m p\<lparr>m_cb := None\<rparr>) m"
  have "erase_timer p ?m = Inr (?m\<lparr>m_timers := []\<rparr>)"
    using erase_timer_ok [of ?m p] assms(2) by (simp add: set_timer_def)
  then have "Timer_cancel p m = Inr (True, ?m\<lparr>m_timers := []\<rparr>)"
    using assms(3) by (simp add: Timer_cancel_def)
  moreover have "listExpired_locked now q (?m\<lparr>m_timers := []\<rparr>) = Inl BadIterator"
    using assms(4) by (auto simp: listExpired_locked_def detectClockRollover_def set_timer_def)
  ultimately show ?thesis by blast
qed

theorem timer_expiry_race_witness:
  "\<exists>m1. Timer_cancel 7 (demo_tm False) = Inr (True, m1) \<and> listExpired_locked 20 9 m1 = Inl BadIterator"
  using timer_expiry_race [OF reachable_inv [OF demo_tm_reachable], of False 7 20 9]
  by (simp add: demo_tm_eq new_Timer_def)

end
