(* ===== verification/Civan_IOManager.thy ===== *)
theory Civan_IOManager
  imports Civan_Scheduler Civan_Timer
begin

section \<open>Events on file descriptors: \<open>civan/iomanager.cc\<close>\<close>

text \<open>
  An \<open>IOManager\<close> is a scheduler and a timer manager that waits on \<open>epoll\<close>. For every
  descriptor it keeps an \<open>FdContext\<close>: the registered events and, for reading and for
  writing, who is waiting. The kernel's interest list is a parameter: \<open>ctl\<close> is
  \<open>epoll_ctl\<close> (its result and the next kernel state) and \<open>interest\<close> reads the state;
  \<open>epoll_laws\<close> states what \<open>epoll_ctl(2)\<close> documents. Tasks handed to a scheduler are
  logged in \<open>m_scheduled\<close> in order. \<open>Scheduler::GetThis()\<close> and \<open>Fiber::GetThis()\<close> of
  the calling thread are arguments. A call is one step (each holds the locks it needs).
\<close>

unbundle bit_operations_syntax

subsection \<open>State\<close>

abbreviation (input) READ_EV :: u32 where "READ_EV \<equiv> 0x1"
abbreviation (input) WRITE_EV :: u32 where "WRITE_EV \<equiv> 0x4"
abbreviation (input) EPOLLERR :: u32 where "EPOLLERR \<equiv> 0x8"
abbreviation (input) EPOLLHUP :: u32 where "EPOLLHUP \<equiv> 0x10"
abbreviation (input) EPOLLET :: u32 where "EPOLLET \<equiv> 0x80000000"

datatype ctl_op = EPOLL_CTL_ADD | EPOLL_CTL_MOD | EPOLL_CTL_DEL

record 'f event_ctx =
  ec_scheduler :: "nat option"
  ec_fiber :: "nat option"
  ec_cb :: "'f option"

record 'f fd_ctx =
  fc_read :: "'f event_ctx"
  fc_write :: "'f event_ctx"
  fc_fd :: nat
  fc_events :: u32

record ('f, 'k) iom =
  m_fdContexts :: "'f fd_ctx list"
  m_pendingEventCount :: nat
  m_scheduled :: "(nat \<times> 'f ft) list"
  kernel :: 'k

type_synonym 'k epoll_ctl = "'k \<Rightarrow> ctl_op \<Rightarrow> nat \<Rightarrow> u32 \<Rightarrow> int \<times> 'k"

definition epoll_laws :: "'k epoll_ctl \<Rightarrow> ('k \<Rightarrow> nat \<Rightarrow> u32 option) \<Rightarrow> bool" where
  "epoll_laws ctl interest \<longleftrightarrow> (\<forall>k op fd ev r k'. ctl k op fd ev = (r, k') \<longrightarrow>
     (if r = 0 then interest k' = (interest k)(fd := (if op = EPOLL_CTL_DEL then None else Some ev))
      else interest k' = interest k))"

subsection \<open>Event contexts\<close>

definition empty_ctx :: "'f event_ctx" where
  "empty_ctx = \<lparr>ec_scheduler = None, ec_fiber = None, ec_cb = None\<rparr>"

definition new_FdContext :: "nat \<Rightarrow> 'f fd_ctx" where
  "new_FdContext i = \<lparr>fc_read = empty_ctx, fc_write = empty_ctx, fc_fd = i, fc_events = 0\<rparr>"

definition getContext :: "u32 \<Rightarrow> 'f fd_ctx \<Rightarrow> 'f event_ctx res" where
  "getContext ev c = (if ev = READ_EV then Inr (fc_read c)
     else if ev = WRITE_EV then Inr (fc_write c) else Inl AssertFail)"

definition setContext :: "u32 \<Rightarrow> 'f event_ctx \<Rightarrow> 'f fd_ctx \<Rightarrow> 'f fd_ctx" where
  "setContext ev x c = (if ev = READ_EV then c\<lparr>fc_read := x\<rparr> else c\<lparr>fc_write := x\<rparr>)"

definition resetContext :: "'f event_ctx \<Rightarrow> 'f event_ctx" where
  "resetContext x = x\<lparr>ec_scheduler := None, ec_fiber := None, ec_cb := None\<rparr>"

definition triggerEvent :: "u32 \<Rightarrow> 'f fd_ctx \<Rightarrow> ((nat \<times> 'f ft) list \<times> 'f fd_ctx) res" where
  "triggerEvent ev c =
     (if fc_events c AND ev = 0 then Inl AssertFail
      else let c1 = c\<lparr>fc_events := fc_events c AND NOT ev\<rparr> in
        rbind (getContext ev c1) (\<lambda>x. case ec_scheduler x of
          None \<Rightarrow> Inl BadPointer
        | Some sch \<Rightarrow>
            (case ec_cb x of
               Some g \<Rightarrow> Inr ([(sch, cb_task g (- 1))],
                 setContext ev (x\<lparr>ec_cb := None, ec_scheduler := None\<rparr>) c1)
             | None \<Rightarrow> Inr (case ec_fiber x of None \<Rightarrow> [] | Some f \<Rightarrow> [(sch, fiber_task f (- 1))],
                 setContext ev (x\<lparr>ec_fiber := None, ec_scheduler := None\<rparr>) c1))))"

subsection \<open>The table of contexts\<close>

definition contextResize :: "nat \<Rightarrow> ('f, 'k) iom \<Rightarrow> ('f, 'k) iom" where
  "contextResize n s = s\<lparr>m_fdContexts := take n (m_fdContexts s) @
     map new_FdContext [length (m_fdContexts s)..<n]\<rparr>"

definition new_IOManager :: "'k \<Rightarrow> ('f, 'k) iom" where
  "new_IOManager k = contextResize 64
     \<lparr>m_fdContexts = [], m_pendingEventCount = 0, m_scheduled = [], kernel = k\<rparr>"

definition fd_lookup :: "int \<Rightarrow> ('f, 'k) iom \<Rightarrow> 'f fd_ctx res" where
  "fd_lookup fd s = (if 0 \<le> fd \<and> nat fd < length (m_fdContexts s)
     then Inr (m_fdContexts s ! nat fd) else Inl BadPointer)"

definition put_ctx :: "nat \<Rightarrow> 'f fd_ctx \<Rightarrow> ('f, 'k) iom \<Rightarrow> ('f, 'k) iom" where
  "put_ctx i c s = s\<lparr>m_fdContexts := (m_fdContexts s)[i := c]\<rparr>"

subsection \<open>Registering and cancelling\<close>

text \<open>
  \<open>addEvent\<close>: \<open>sch\<close> is \<open>Scheduler::GetThis()\<close>, \<open>fib\<close> is \<open>Fiber::GetThis()\<close> with its
  state. \<open>fd * 1.5\<close> is computed in floating point and truncated.
\<close>

definition addEvent ::
  "'k epoll_ctl \<Rightarrow> nat option \<Rightarrow> nat \<times> State \<Rightarrow> int \<Rightarrow> u32 \<Rightarrow> 'f option \<Rightarrow> ('f, 'k) iom \<Rightarrow>
     (int \<times> ('f, 'k) iom) res" where
  "addEvent ctl sch fib fd ev cb s =
     (let s1 = (if int (length (m_fdContexts s)) > fd then s else contextResize (nat (fd * 3 div 2)) s) in
      rbind (fd_lookup fd s1) (\<lambda>c.
        if fc_events c AND ev \<noteq> 0 then Inl AssertFail
        else
          let op = (if fc_events c \<noteq> 0 then EPOLL_CTL_MOD else EPOLL_CTL_ADD);
              (rt, k1) = ctl (kernel s1) op (nat fd) (EPOLLET OR fc_events c OR ev)
          in if rt \<noteq> 0 then Inr (- 1, s1\<lparr>kernel := k1\<rparr>)
             else
               let c1 = c\<lparr>fc_events := fc_events c OR ev\<rparr>;
                   s2 = s1\<lparr>kernel := k1, m_pendingEventCount := Suc (m_pendingEventCount s1)\<rparr>
               in rbind (getContext ev c1) (\<lambda>x.
                    if ec_scheduler x \<noteq> None \<or> ec_fiber x \<noteq> None \<or> ec_cb x \<noteq> None then Inl AssertFail
                    else case cb of
                      Some g \<Rightarrow> Inr (0, put_ctx (nat fd) (setContext ev (x\<lparr>ec_scheduler := sch, ec_cb := Some g\<rparr>) c1) s2)
                    | None \<Rightarrow> if snd fib \<noteq> EXEC then Inl AssertFail
                        else Inr (0, put_ctx (nat fd) (setContext ev (x\<lparr>ec_scheduler := sch, ec_fiber := Some (fst fib)\<rparr>) c1) s2))))"

definition ctl_left :: "'k epoll_ctl \<Rightarrow> nat \<Rightarrow> u32 \<Rightarrow> 'k \<Rightarrow> int \<times> 'k" where
  "ctl_left ctl fd left k =
     ctl k (if left \<noteq> 0 then EPOLL_CTL_MOD else EPOLL_CTL_DEL) fd (EPOLLET OR left)"

definition delEvent :: "'k epoll_ctl \<Rightarrow> int \<Rightarrow> u32 \<Rightarrow> ('f, 'k) iom \<Rightarrow> (bool \<times> ('f, 'k) iom) res" where
  "delEvent ctl fd ev s =
     (if int (length (m_fdContexts s)) \<le> fd then Inr (False, s)
      else rbind (fd_lookup fd s) (\<lambda>c.
        if ev AND fc_events c = 0 then Inr (False, s)
        else
          let new_event = fc_events c AND NOT ev;
              (rt, k1) = ctl_left ctl (nat fd) new_event (kernel s)
          in if rt \<noteq> 0 then Inr (False, s\<lparr>kernel := k1\<rparr>)
             else rbind (getContext ev c) (\<lambda>x.
               Inr (True, put_ctx (nat fd) (setContext ev (resetContext x) (c\<lparr>fc_events := new_event\<rparr>))
                 (s\<lparr>kernel := k1, m_pendingEventCount := sz_sub (m_pendingEventCount s) 1\<rparr>)))))"

definition trigger_at :: "nat \<Rightarrow> u32 \<Rightarrow> ('f, 'k) iom \<Rightarrow> ('f, 'k) iom res" where
  "trigger_at i ev s = rbind (triggerEvent ev (m_fdContexts s ! i)) (\<lambda>(ts, c).
     Inr (put_ctx i c (s\<lparr>m_scheduled := m_scheduled s @ ts,
                         m_pendingEventCount := sz_sub (m_pendingEventCount s) 1\<rparr>)))"

definition cancelEvent :: "'k epoll_ctl \<Rightarrow> int \<Rightarrow> u32 \<Rightarrow> ('f, 'k) iom \<Rightarrow> (bool \<times> ('f, 'k) iom) res" where
  "cancelEvent ctl fd ev s =
     (if int (length (m_fdContexts s)) \<le> fd then Inr (False, s)
      else rbind (fd_lookup fd s) (\<lambda>c.
        if ev AND fc_events c = 0 then Inr (False, s)
        else
          let (rt, k1) = ctl_left ctl (nat fd) (fc_events c AND NOT ev) (kernel s)
          in if rt \<noteq> 0 then Inr (False, s\<lparr>kernel := k1\<rparr>)
             else rbind (trigger_at (nat fd) ev (s\<lparr>kernel := k1\<rparr>)) (\<lambda>s'. Inr (True, s'))))"

text \<open>\<open>cancelAll\<close>: the second trigger is for \<open>READ\<close> in the source too.\<close>

definition cancelAll :: "'k epoll_ctl \<Rightarrow> int \<Rightarrow> ('f, 'k) iom \<Rightarrow> (bool \<times> ('f, 'k) iom) res" where
  "cancelAll ctl fd s =
     (if int (length (m_fdContexts s)) \<le> fd then Inr (False, s)
      else rbind (fd_lookup fd s) (\<lambda>c.
        if fc_events c = 0 then Inr (False, s)
        else
          let (rt, k1) = ctl (kernel s) EPOLL_CTL_DEL (nat fd) 0
          in if rt \<noteq> 0 then Inr (False, s\<lparr>kernel := k1\<rparr>)
             else
               rbind (if fc_events c AND READ_EV \<noteq> 0 then trigger_at (nat fd) READ_EV (s\<lparr>kernel := k1\<rparr>)
                      else Inr (s\<lparr>kernel := k1\<rparr>)) (\<lambda>s1.
               rbind (if fc_events (m_fdContexts s1 ! nat fd) AND WRITE_EV \<noteq> 0
                      then trigger_at (nat fd) READ_EV s1 else Inr s1) (\<lambda>s2. Inr (True, s2)))))"

subsection \<open>The idle loop\<close>

definition io_stopping :: "u64 \<Rightarrow> 'g timer_manager \<Rightarrow> 'g sched \<Rightarrow> ('f, 'k) iom \<Rightarrow> u64 \<times> bool" where
  "io_stopping now tm sd s =
     (let time_out = fst (getNextTimer now tm)
      in (time_out, time_out = - 1 \<and> m_pendingEventCount s = 0 \<and> sched_stopping sd))"

text \<open>The timeout given to \<open>epoll_wait\<close>, whose parameter is an \<open>int\<close>.\<close>

definition wait_timeout :: "u64 \<Rightarrow> int" where
  "wait_timeout next_timeout =
     (let t = (if next_timeout \<noteq> - 1
               then (if sint (ucast next_timeout :: u32) > 10000 then 10000 else next_timeout)
               else (10000 :: u64))
      in sint (ucast t :: u32))"

definition real_events :: "u32 \<Rightarrow> u32 \<Rightarrow> u32" where
  "real_events revents events =
     (let e = (if revents AND (EPOLLERR OR EPOLLHUP) \<noteq> 0
               then revents OR ((READ_EV OR WRITE_EV) AND events) else revents)
      in (if e AND READ_EV \<noteq> 0 then READ_EV else 0) OR (if e AND WRITE_EV \<noteq> 0 then WRITE_EV else 0))"

definition handle_event :: "'k epoll_ctl \<Rightarrow> nat \<Rightarrow> u32 \<Rightarrow> ('f, 'k) iom \<Rightarrow> ('f, 'k) iom res" where
  "handle_event ctl i revents s =
     (let c = m_fdContexts s ! i; re = real_events revents (fc_events c) in
      if fc_events c AND re = 0 then Inr s
      else
        let (rt, k1) = ctl_left ctl (fc_fd c) (fc_events c AND NOT re) (kernel s)
        in if rt \<noteq> 0 then Inr (s\<lparr>kernel := k1\<rparr>)
           else rbind (if re AND READ_EV \<noteq> 0 then trigger_at i READ_EV (s\<lparr>kernel := k1\<rparr>)
                       else Inr (s\<lparr>kernel := k1\<rparr>)) (\<lambda>s1.
                if re AND WRITE_EV \<noteq> 0 then trigger_at i WRITE_EV s1 else Inr s1))"

text \<open>The descriptors \<open>epoll_wait\<close> reports; \<open>None\<close> is the tickle pipe, which is drained.\<close>

fun handle_events :: "'k epoll_ctl \<Rightarrow> (nat option \<times> u32) list \<Rightarrow> ('f, 'k) iom \<Rightarrow> ('f, 'k) iom res" where
  "handle_events ctl [] s = Inr s"
| "handle_events ctl ((None, ev) # es) s = handle_events ctl es s"
| "handle_events ctl ((Some i, ev) # es) s = rbind (handle_event ctl i ev s) (handle_events ctl es)"

text \<open>
  One round of the loop after \<open>epoll_wait\<close> returned: the expired timers are scheduled
  (\<open>scheduleNoLock\<close> skips a null function), then the events are dispatched. \<open>me\<close> is
  this manager.
\<close>

definition idle_round ::
  "'k epoll_ctl \<Rightarrow> nat \<Rightarrow> u64 \<Rightarrow> nat \<Rightarrow> (nat option \<times> u32) list \<Rightarrow>
     'g timer_manager \<Rightarrow> ('g callback, 'k) iom \<Rightarrow> ('g timer_manager \<times> ('g callback, 'k) iom) res" where
  "idle_round ctl me now q evs tm s =
     rbind (listExpiredCb now q tm) (\<lambda>(cbs, tm').
       rbind (handle_events ctl evs
                (s\<lparr>m_scheduled := m_scheduled s @ map (\<lambda>g. (me, cb_task g (- 1))) (List.map_filter (\<lambda>c. c) cbs)\<rparr>))
         (\<lambda>s'. Inr (tm', s')))"

text \<open>\<open>tickle\<close> writes a byte to the pipe when a thread is idle; \<open>rt\<close> is what \<open>write\<close> returns.\<close>

definition io_tickle :: "int \<Rightarrow> 'g sched \<Rightarrow> bool res" where
  "io_tickle rt sd = (if m_idleThreadCount sd = 0 then Inr False
     else if rt = 1 then Inr True else Inl AssertFail)"

definition onTimerInsertAtFront :: "int \<Rightarrow> 'g sched \<Rightarrow> bool res" where
  "onTimerInsertAtFront rt sd = io_tickle rt sd"

subsection \<open>Invariant\<close>

text \<open>
  A context records exactly the waiters of its registered events: an event bit is set
  iff its \<open>EventContext\<close> names a scheduler and either a fiber or a callback, the
  kernel watches exactly the registered events, and \<open>m_pendingEventCount\<close> is the
  number of registered events.
\<close>

definition ctx_ok :: "bool \<Rightarrow> 'f event_ctx \<Rightarrow> bool" where
  "ctx_ok registered x \<longleftrightarrow> (if registered then ec_scheduler x \<noteq> None \<and> (ec_fiber x = None) \<noteq> (ec_cb x = None)
     else x = empty_ctx)"

definition fd_good :: "nat \<Rightarrow> 'f fd_ctx \<Rightarrow> bool" where
  "fd_good i c \<longleftrightarrow> fc_fd c = i \<and> fc_events c \<in> {0, 1, 4, 5} \<and>
     ctx_ok (fc_events c AND READ_EV \<noteq> 0) (fc_read c) \<and> ctx_ok (fc_events c AND WRITE_EV \<noteq> 0) (fc_write c)"

definition npending :: "'f fd_ctx \<Rightarrow> nat" where
  "npending c = (if fc_events c AND READ_EV \<noteq> 0 then 1 else 0) + (if fc_events c AND WRITE_EV \<noteq> 0 then 1 else 0)"

definition want :: "u32 \<Rightarrow> u32 option" where
  "want e = (if e = 0 then None else Some (EPOLLET OR e))"

definition io_inv :: "('k \<Rightarrow> nat \<Rightarrow> u32 option) \<Rightarrow> ('f, 'k) iom \<Rightarrow> bool" where
  "io_inv interest s \<longleftrightarrow> 64 \<le> length (m_fdContexts s) \<and>
     (\<forall>i<length (m_fdContexts s). fd_good i (m_fdContexts s ! i) \<and>
        interest (kernel s) i = want (fc_events (m_fdContexts s ! i))) \<and>
     (\<forall>i\<ge>length (m_fdContexts s). interest (kernel s) i = None) \<and>
     m_pendingEventCount s = sum_list (map npending (m_fdContexts s))"

text \<open>Who is waiting, and the task that wakes it.\<close>

definition waiter :: "'f event_ctx \<Rightarrow> nat \<times> 'f ft" where
  "waiter x = (the (ec_scheduler x),
     case ec_cb x of Some g \<Rightarrow> cb_task g (- 1) | None \<Rightarrow> fiber_task (the (ec_fiber x)) (- 1))"

definition ctx_of :: "u32 \<Rightarrow> 'f fd_ctx \<Rightarrow> 'f event_ctx" where
  "ctx_of ev c = (if ev = READ_EV then fc_read c else fc_write c)"

text \<open>The event masks that occur, evaluated once.\<close>

lemma mask_values:
  "(5 :: u32) AND 1 = 1" "(5 :: u32) AND 4 = 4" "(4 :: u32) AND 1 = 0" "(1 :: u32) AND 4 = 0"
  "(1 :: u32) AND NOT 1 = 0" "(4 :: u32) AND NOT 4 = 0" "(5 :: u32) AND NOT 1 = 4" "(5 :: u32) AND NOT 4 = 1"
  "(4 :: u32) AND NOT 1 = 4" "(1 :: u32) AND NOT 4 = 1" "(1 :: u32) OR 4 = 5" "(4 :: u32) OR 1 = 5"
  "(1 :: u32) AND NOT 5 = 0" "(4 :: u32) AND NOT 5 = 0" "(5 :: u32) AND NOT 5 = 0"
  "(1 :: u32) AND 5 = 1" "(4 :: u32) AND 5 = 4"
  by simp_all

definition cleared :: "u32 \<Rightarrow> 'f fd_ctx \<Rightarrow> 'f fd_ctx" where
  "cleared ev c = setContext ev empty_ctx (c\<lparr>fc_events := fc_events c AND NOT ev\<rparr>)"

lemma ctx_registered:
  assumes "fd_good i c" "ev = READ_EV \<or> ev = WRITE_EV" "fc_events c AND ev \<noteq> 0"
  shows "ctx_ok True (ctx_of ev c)"
  using assms by (auto simp only: fd_good_def ctx_of_def simp_thms if_True if_False split: if_splits)

lemma trigger_eq:
  assumes "ctx_ok True (ctx_of ev c)" "ev = READ_EV \<or> ev = WRITE_EV" "fc_events c AND ev \<noteq> 0"
  shows "triggerEvent ev c = Inr ([waiter (ctx_of ev c)], cleared ev c)"
proof -
  obtain sch where sch: "ec_scheduler (ctx_of ev c) = Some sch" using assms(1) by (auto simp: ctx_ok_def)
  have g: "getContext ev (c\<lparr>fc_events := fc_events c AND NOT ev\<rparr>) = Inr (ctx_of ev c)"
    using assms(2) by (auto simp: getContext_def ctx_of_def)
  show ?thesis
  proof (cases "ec_cb (ctx_of ev c)")
    case None
    then obtain f where "ec_fiber (ctx_of ev c) = Some f" using assms(1) by (auto simp: ctx_ok_def)
    moreover have "ctx_of ev c\<lparr>ec_fiber := None, ec_scheduler := None\<rparr> = empty_ctx"
      using None by (cases "ctx_of ev c") (simp add: empty_ctx_def)
    ultimately show ?thesis using None g sch assms(3)
      by (simp add: triggerEvent_def waiter_def cleared_def)
  next
    case (Some h)
    then have "ec_fiber (ctx_of ev c) = None" using assms(1) by (auto simp: ctx_ok_def)
    then have "ctx_of ev c\<lparr>ec_cb := None, ec_scheduler := None\<rparr> = empty_ctx"
      by (cases "ctx_of ev c") (simp add: empty_ctx_def)
    then show ?thesis using Some g sch assms(3)
      by (simp add: triggerEvent_def waiter_def cleared_def)
  qed
qed

lemma cleared_good:
  assumes "fd_good i c" "ev = READ_EV \<or> ev = WRITE_EV" "fc_events c AND ev \<noteq> 0"
  shows "fd_good i (cleared ev c)" "npending c = Suc (npending (cleared ev c))"
    "fc_events (cleared ev c) = fc_events c AND NOT ev"
    "ev' \<noteq> ev \<Longrightarrow> ev' = READ_EV \<or> ev' = WRITE_EV \<Longrightarrow> ctx_of ev' (cleared ev c) = ctx_of ev' c"
proof -
  show "fc_events (cleared ev c) = fc_events c AND NOT ev" by (simp add: cleared_def setContext_def)
  have e: "fc_events c = 1 \<or> fc_events c = 4 \<or> fc_events c = 5" using assms(1,3) by (auto simp: fd_good_def)
  show "npending c = Suc (npending (cleared ev c))"
    using e assms(2,3)
    by (elim disjE) (simp_all add: npending_def cleared_def setContext_def mask_values)
  show "fd_good i (cleared ev c)"
    using e assms
    by (elim disjE) (simp_all add: fd_good_def cleared_def setContext_def mask_values ctx_ok_def)
  show "ctx_of ev' (cleared ev c) = ctx_of ev' c" if "ev' \<noteq> ev" "ev' = READ_EV \<or> ev' = WRITE_EV"
    using that assms(2) by (auto simp: ctx_of_def cleared_def setContext_def)
qed

lemma io_inv_put:
  assumes inv: "io_inv interest s" and i: "i < length (m_fdContexts s)" and g: "fd_good i c'"
    and s': "m_fdContexts s' = (m_fdContexts s)[i := c']"
      "m_pendingEventCount s' + npending (m_fdContexts s ! i) = m_pendingEventCount s + npending c'"
      "interest (kernel s') = (interest (kernel s))(i := want (fc_events c'))"
  shows "io_inv interest s'"
proof -
  let ?xs = "m_fdContexts s"
  have "sum_list (map npending (?xs[i := c'])) + npending (?xs ! i) = sum_list (map npending ?xs) + npending c'"
    using i member_le_sum_list [of "npending (?xs ! i)" "map npending ?xs"]
    by (simp add: map_update sum_list_update)
  then have "m_pendingEventCount s' = sum_list (map npending (m_fdContexts s'))"
    using s'(1,2) inv by (simp add: io_inv_def)
  then show ?thesis
    using inv i g s' by (auto simp: io_inv_def nth_list_update)
qed

lemma io_invD:
  assumes "io_inv interest s" "i < length (m_fdContexts s)"
  shows "fd_good i (m_fdContexts s ! i)" "interest (kernel s) i = want (fc_events (m_fdContexts s ! i))"
    "npending (m_fdContexts s ! i) \<le> m_pendingEventCount s"
  using assms member_le_sum_list [of "npending (m_fdContexts s ! i)" "map npending (m_fdContexts s)"]
  by (auto simp: io_inv_def)

lemma ctl_left_ok:
  assumes "epoll_laws ctl interest" "ctl_left ctl fd e k = (r, k')"
  shows "interest k' = (if r = 0 then (interest k)(fd := want e) else interest k)"
proof -
  have "if r = 0 then interest k' = (interest k)(fd := (if (if e \<noteq> 0 then EPOLL_CTL_MOD else EPOLL_CTL_DEL) = EPOLL_CTL_DEL
      then None else Some (EPOLLET OR e))) else interest k' = interest k"
    using assms unfolding epoll_laws_def ctl_left_def by blast
  then show ?thesis by (cases "e = 0") (simp_all add: want_def split: if_splits)
qed

lemma io_inv_kernel:
  "io_inv interest s \<Longrightarrow> interest k' = interest (kernel s) \<Longrightarrow> io_inv interest (s\<lparr>kernel := k'\<rparr>)"
  by (simp add: io_inv_def)

subsection \<open>Each operation keeps the invariant\<close>

lemma new_IOManager_inv: "interest k = (\<lambda>_. None) \<Longrightarrow> io_inv interest (new_IOManager k)"
proof -
  have "sum_list (map npending (map new_FdContext [0..<64])) = 0"
    by (simp add: npending_def new_FdContext_def comp_def)
  then show "interest k = (\<lambda>_. None) \<Longrightarrow> io_inv interest (new_IOManager k)"
    by (simp add: io_inv_def new_IOManager_def contextResize_def fd_good_def new_FdContext_def
        ctx_ok_def want_def)
qed

lemma contextResize_inv:
  fixes s :: "('f, 'k) iom"
  assumes "io_inv interest s" "length (m_fdContexts s) \<le> n"
  shows "io_inv interest (contextResize n s)"
proof -
  let ?xs = "m_fdContexts s" and ?ys = "map new_FdContext [length (m_fdContexts s)..<n]"
  have xs: "m_fdContexts (contextResize n s) = ?xs @ ?ys" "m_pendingEventCount (contextResize n s) = m_pendingEventCount s"
    "kernel (contextResize n s) = kernel s"
    using assms(2) by (simp_all add: contextResize_def)
  have z: "sum_list (map npending ?ys) = 0" by (simp add: npending_def new_FdContext_def comp_def)
  have new: "fd_good i (new_FdContext i :: 'f fd_ctx)" "want (fc_events (new_FdContext i :: 'f fd_ctx)) = None" for i
    by (simp_all add: fd_good_def new_FdContext_def ctx_ok_def want_def)
  have "fd_good i ((?xs @ ?ys) ! i) \<and> interest (kernel s) i = want (fc_events ((?xs @ ?ys) ! i))"
    if "i < length (?xs @ ?ys)" for i
  proof (cases "i < length ?xs")
    case True
    with assms(1) show ?thesis by (simp add: io_inv_def nth_append)
  next
    case False
    then have "(?xs @ ?ys) ! i = new_FdContext i" using that by (simp add: nth_append)
    with False assms(1) new show ?thesis by (simp add: io_inv_def)
  qed
  then show ?thesis
    using assms z unfolding io_inv_def xs by (simp add: z)
qed

lemma trigger_at_ok:
  assumes i: "i < length (m_fdContexts s)" and g: "fd_good i (m_fdContexts s ! i)"
    and n: "npending (m_fdContexts s ! i) \<le> m_pendingEventCount s"
    and ev: "ev = READ_EV \<or> ev = WRITE_EV" "fc_events (m_fdContexts s ! i) AND ev \<noteq> 0"
  shows "\<exists>s'. trigger_at i ev s = Inr s' \<and> kernel s' = kernel s \<and>
    m_fdContexts s' = (m_fdContexts s)[i := cleared ev (m_fdContexts s ! i)] \<and>
    m_scheduled s' = m_scheduled s @ [waiter (ctx_of ev (m_fdContexts s ! i))] \<and>
    m_pendingEventCount s' + 1 = m_pendingEventCount s"
proof -
  have p: "1 \<le> m_pendingEventCount s" using cleared_good(2) [OF g ev] n by simp
  show ?thesis
    using trigger_eq [OF ctx_registered [OF g ev] ev] p by (simp add: trigger_at_def put_ctx_def)
qed

lemma cancelEvent_ok:
  assumes inv: "io_inv interest s" and laws: "epoll_laws ctl interest"
    and ev: "ev = READ_EV \<or> ev = WRITE_EV" and fd: "fd < length (m_fdContexts s)"
  shows "\<exists>b s'. cancelEvent ctl (int fd) ev s = Inr (b, s') \<and> io_inv interest s' \<and>
    (if b then fc_events (m_fdContexts s ! fd) AND ev \<noteq> 0 \<and>
         m_scheduled s' = m_scheduled s @ [waiter (ctx_of ev (m_fdContexts s ! fd))] \<and>
         m_fdContexts s' = (m_fdContexts s)[fd := cleared ev (m_fdContexts s ! fd)]
     else m_scheduled s' = m_scheduled s \<and> m_fdContexts s' = m_fdContexts s)"
proof (cases "fc_events (m_fdContexts s ! fd) AND ev = 0")
  case True
  with fd inv show ?thesis by (auto simp: cancelEvent_def fd_lookup_def and.commute)
next
  case False
  let ?c = "m_fdContexts s ! fd"
  obtain r k1 where ctl: "ctl_left ctl fd (fc_events ?c AND NOT ev) (kernel s) = (r, k1)" by force
  note k1 = ctl_left_ok [OF laws ctl]
  have run: "cancelEvent ctl (int fd) ev s = (if r \<noteq> 0 then Inr (False, s\<lparr>kernel := k1\<rparr>)
      else rbind (trigger_at fd ev (s\<lparr>kernel := k1\<rparr>)) (\<lambda>s'. Inr (True, s')))"
    using False fd ctl by (simp add: cancelEvent_def fd_lookup_def and.commute)
  show ?thesis
  proof (cases "r = 0")
    case ok: True
    note g = io_invD(1) [OF inv fd]
    obtain s' where s': "trigger_at fd ev (s\<lparr>kernel := k1\<rparr>) = Inr s'" "kernel s' = k1"
      "m_fdContexts s' = (m_fdContexts s)[fd := cleared ev ?c]"
      "m_scheduled s' = m_scheduled s @ [waiter (ctx_of ev ?c)]"
      "m_pendingEventCount s' + 1 = m_pendingEventCount s"
      using trigger_at_ok [where s = "s\<lparr>kernel := k1\<rparr>" and i = fd and ev = ev] io_invD [OF inv fd] fd ev False by auto
    have "io_inv interest s'"
      using cleared_good(1-3) [OF g ev False] s' k1 ok
      by (intro io_inv_put [OF inv fd, of "cleared ev ?c"]) simp_all
    with run ok s' False show ?thesis by auto
  next
    case False
    with run k1 inv show ?thesis by (auto simp: io_inv_kernel)
  qed
qed

lemma delEvent_ok:
  fixes s :: "('f, 'k) iom"
  assumes inv: "io_inv interest s" and laws: "epoll_laws ctl interest"
    and ev: "ev = READ_EV \<or> ev = WRITE_EV" and fd: "fd < length (m_fdContexts s)"
  shows "\<exists>b s'. delEvent ctl (int fd) ev s = Inr (b, s') \<and> io_inv interest s' \<and>
    m_scheduled s' = m_scheduled s \<and>
    m_fdContexts s' = (if b then (m_fdContexts s)[fd := cleared ev (m_fdContexts s ! fd)] else m_fdContexts s) \<and>
    (b \<longrightarrow> fc_events (m_fdContexts s ! fd) AND ev \<noteq> 0)"
proof (cases "fc_events (m_fdContexts s ! fd) AND ev = 0")
  case True
  with fd inv show ?thesis by (auto simp: delEvent_def fd_lookup_def and.commute)
next
  case False
  let ?c = "m_fdContexts s ! fd"
  obtain r k1 where ctl: "ctl_left ctl fd (fc_events ?c AND NOT ev) (kernel s) = (r, k1)" by force
  note k1 = ctl_left_ok [OF laws ctl]
  note g = io_invD [OF inv fd]
  let ?s = "put_ctx fd (cleared ev ?c) (s\<lparr>kernel := k1, m_pendingEventCount := sz_sub (m_pendingEventCount s) 1\<rparr>)"
  have rc: "resetContext x = empty_ctx" for x :: "'f event_ctx"
    by (cases x) (simp add: resetContext_def empty_ctx_def)
  have gc: "getContext ev ?c = Inr (ctx_of ev ?c)" using ev by (auto simp: getContext_def ctx_of_def)
  have run: "delEvent ctl (int fd) ev s = (if r \<noteq> 0 then Inr (False, s\<lparr>kernel := k1\<rparr>) else Inr (True, ?s))"
    using False fd ctl gc by (simp add: delEvent_def fd_lookup_def and.commute rc cleared_def)
  show ?thesis
  proof (cases "r = 0")
    case ok: True
    note cg = cleared_good(1-3) [OF g(1) ev False]
    have "io_inv interest ?s"
      using cg k1 ok g(3) by (intro io_inv_put [OF inv fd, of "cleared ev ?c"]) (simp_all add: put_ctx_def)
    with run ok False show ?thesis by (auto simp: put_ctx_def)
  next
    case False
    with run k1 inv show ?thesis by (auto simp: io_inv_kernel)
  qed
qed

definition registered :: "u32 \<Rightarrow> 'f event_ctx \<Rightarrow> 'f fd_ctx \<Rightarrow> 'f fd_ctx" where
  "registered ev x c = setContext ev x (c\<lparr>fc_events := fc_events c OR ev\<rparr>)"

lemma registered_good:
  assumes "fd_good i c" "ev = READ_EV \<or> ev = WRITE_EV" "fc_events c AND ev = 0" "ctx_ok True x"
  shows "fd_good i (registered ev x c)" "npending (registered ev x c) = Suc (npending c)"
    "fc_events (registered ev x c) = fc_events c OR ev" "want (fc_events c OR ev) = Some (EPOLLET OR fc_events c OR ev)"
    "ctx_of ev c = empty_ctx" "ctx_of ev (registered ev x c) = x"
proof -
  have e: "fc_events c = 0 \<or> fc_events c = 1 \<or> fc_events c = 4"
    using assms(1-3) by (auto simp: fd_good_def mask_values)
  show "fc_events (registered ev x c) = fc_events c OR ev" by (simp add: registered_def setContext_def)
  show "want (fc_events c OR ev) = Some (EPOLLET OR fc_events c OR ev)"
    using e assms(2) by (auto simp: want_def or.assoc)
  show "npending (registered ev x c) = Suc (npending c)"
    using e assms(2,3) by (elim disjE) (simp_all add: npending_def registered_def setContext_def mask_values)
  show "fd_good i (registered ev x c)"
    using e assms by (elim disjE) (simp_all add: fd_good_def registered_def setContext_def mask_values ctx_ok_def)
  show "ctx_of ev c = empty_ctx"
    using e assms(1-3) by (elim disjE) (simp_all add: fd_good_def ctx_of_def ctx_ok_def mask_values)
  show "ctx_of ev (registered ev x c) = x"
    using assms(2) by (auto simp: registered_def setContext_def ctx_of_def)
qed

text \<open>The context \<open>addEvent\<close> stores.\<close>

definition new_waiter :: "nat option \<Rightarrow> nat \<Rightarrow> 'f option \<Rightarrow> 'f event_ctx" where
  "new_waiter sch f cb = (case cb of Some g \<Rightarrow> \<lparr>ec_scheduler = sch, ec_fiber = None, ec_cb = Some g\<rparr>
     | None \<Rightarrow> \<lparr>ec_scheduler = sch, ec_fiber = Some f, ec_cb = None\<rparr>)"

lemma new_waiter_ok: "sch \<noteq> None \<Longrightarrow> ctx_ok True (new_waiter sch f cb)"
  by (simp add: ctx_ok_def new_waiter_def split: option.split)

definition grown :: "nat \<Rightarrow> ('f, 'k) iom \<Rightarrow> ('f, 'k) iom" where
  "grown fd s = (if fd < length (m_fdContexts s) then s else contextResize (fd * 3 div 2) s)"

lemma grown_ok:
  assumes "io_inv interest s"
  shows "io_inv interest (grown fd s)" "fd < length (m_fdContexts (grown fd s))"
    "kernel (grown fd s) = kernel s" "m_scheduled (grown fd s) = m_scheduled s"
    "m_pendingEventCount (grown fd s) = m_pendingEventCount s"
    "m_fdContexts (grown fd s) ! fd = (if fd < length (m_fdContexts s) then m_fdContexts s ! fd else new_FdContext fd)"
proof -
  have l: "64 \<le> length (m_fdContexts s)" using assms by (simp add: io_inv_def)
  have d: "fd < fd * 3 div 2" if "\<not> fd < length (m_fdContexts s)" using l that by linarith
  show "io_inv interest (grown fd s)"
    using assms d contextResize_inv [OF assms, of "fd * 3 div 2"] by (auto simp: grown_def)
  show "fd < length (m_fdContexts (grown fd s))" using d by (auto simp: grown_def contextResize_def)
  show "m_fdContexts (grown fd s) ! fd = (if fd < length (m_fdContexts s) then m_fdContexts s ! fd else new_FdContext fd)"
    using d by (auto simp: grown_def contextResize_def nth_append min_def)
qed (simp_all add: grown_def contextResize_def)

lemma addEvent_run:
  assumes inv: "io_inv interest s" and ev: "ev = READ_EV \<or> ev = WRITE_EV"
    and fib: "cb \<noteq> None \<or> snd fib = EXEC" and sch: "sch \<noteq> None"
    and free: "fc_events (m_fdContexts (grown fd s) ! fd) AND ev = 0"
  defines "c \<equiv> m_fdContexts (grown fd s) ! fd"
  assumes ctl: "ctl (kernel s) (if fc_events c \<noteq> 0 then EPOLL_CTL_MOD else EPOLL_CTL_ADD) fd
      (EPOLLET OR fc_events c OR ev) = (r, k1)"
  shows "addEvent ctl sch fib (int fd) ev cb s =
    (if r \<noteq> 0 then Inr (- 1, (grown fd s)\<lparr>kernel := k1\<rparr>)
     else Inr (0, put_ctx fd (registered ev (new_waiter sch (fst fib) cb) c)
       ((grown fd s)\<lparr>kernel := k1, m_pendingEventCount := Suc (m_pendingEventCount s)\<rparr>)))"
proof -
  note g = grown_ok [OF inv, of fd]
  have "ctx_of ev c = empty_ctx"
    using registered_good(5) [OF io_invD(1) [OF g(1,2)] ev free new_waiter_ok [OF sch]] by (simp add: c_def)
  then have gc: "getContext ev (c\<lparr>fc_events := fc_events c OR ev\<rparr>) = Inr empty_ctx"
    using ev by (auto simp: getContext_def ctx_of_def)
  have lk: "fd_lookup (int fd) (grown fd s) = Inr c" using g(2) by (simp add: fd_lookup_def c_def)
  have gr: "(if int (length (m_fdContexts s)) > int fd then s else contextResize (nat (int fd * 3 div 2)) s) = grown fd s"
    by (simp add: grown_def nat_div_distrib nat_mult_distrib)
  show ?thesis
    unfolding addEvent_def Let_def gr lk rbind.simps
    using free fib ctl g(3,5) gc
    by (cases cb) (simp_all add: c_def [symmetric] registered_def new_waiter_def empty_ctx_def)
qed

lemma addEvent_ok:
  assumes inv: "io_inv interest s" and laws: "epoll_laws ctl interest"
    and ev: "ev = READ_EV \<or> ev = WRITE_EV" and fib: "cb \<noteq> None \<or> snd fib = EXEC" and sch: "sch \<noteq> None"
    and free: "fc_events (m_fdContexts (grown fd s) ! fd) AND ev = 0"
  shows "\<exists>r s'. addEvent ctl sch fib (int fd) ev cb s = Inr (r, s') \<and> io_inv interest s' \<and>
    m_scheduled s' = m_scheduled s \<and>
    (r = 0 \<and> m_pendingEventCount s' = Suc (m_pendingEventCount s) \<and>
       m_fdContexts s' = (m_fdContexts (grown fd s))[fd :=
         registered ev (new_waiter sch (fst fib) cb) (m_fdContexts (grown fd s) ! fd)] \<or>
     r = - 1 \<and> m_fdContexts s' = m_fdContexts (grown fd s))"
proof -
  let ?c = "m_fdContexts (grown fd s) ! fd" and ?x = "new_waiter sch (fst fib) cb"
  obtain r k1 where ctl: "ctl (kernel s) (if fc_events ?c \<noteq> 0 then EPOLL_CTL_MOD else EPOLL_CTL_ADD) fd
      (EPOLLET OR fc_events ?c OR ev) = (r, k1)" by force
  note g = grown_ok [OF inv, of fd] and run = addEvent_run [where ctl = ctl, OF inv ev fib sch free ctl]
  note rg = registered_good [OF io_invD(1) [OF g(1,2)] ev free new_waiter_ok [OF sch, of "fst fib" cb]]
  have k1: "interest k1 = (if r = 0 then (interest (kernel s))(fd := Some (EPOLLET OR fc_events ?c OR ev)) else interest (kernel s))"
    using laws ctl unfolding epoll_laws_def by (cases "fc_events ?c = 0") fastforce+
  show ?thesis
  proof (cases "r = 0")
    case True
    have "io_inv interest (put_ctx fd (registered ev ?x ?c) ((grown fd s)\<lparr>kernel := k1, m_pendingEventCount := Suc (m_pendingEventCount s)\<rparr>))"
      using rg k1 True g by (intro io_inv_put [OF g(1,2), of "registered ev ?x ?c"]) (simp_all add: put_ctx_def)
    with run True g show ?thesis by (simp add: put_ctx_def)
  next
    case False
    with run k1 g show ?thesis by (simp add: io_inv_kernel)
  qed
qed

text \<open>The waiters \<open>idle\<close> wakes for the events \<open>re\<close>, and the context it leaves.\<close>

definition triggered :: "u32 \<Rightarrow> 'f fd_ctx \<Rightarrow> (nat \<times> 'f ft) list" where
  "triggered re c = (if re AND READ_EV \<noteq> 0 then [waiter (fc_read c)] else []) @
     (if re AND WRITE_EV \<noteq> 0 then [waiter (fc_write c)] else [])"

definition cleared_all :: "u32 \<Rightarrow> 'f fd_ctx \<Rightarrow> 'f fd_ctx" where
  "cleared_all re c =
     (let c1 = (if re AND READ_EV \<noteq> 0 then cleared READ_EV c else c)
      in if re AND WRITE_EV \<noteq> 0 then cleared WRITE_EV c1 else c1)"

lemma real_events_values: "real_events revents e \<in> {0, 1, 4, 5}"
  by (simp add: real_events_def Let_def mask_values)

lemma subset_cases:
  assumes "e \<in> {0, 1, 4, 5 :: u32}" "re \<in> {0, 1, 4, 5}" "re AND NOT e = 0"
  shows "re = 0 \<or> re = 1 \<and> e AND 1 \<noteq> 0 \<and> e AND NOT re = e AND NOT 1 \<or>
    re = 4 \<and> e AND 4 \<noteq> 0 \<and> e AND NOT re = e AND NOT 4 \<or> re = 5 \<and> e = 5"
  using assms by (auto simp: mask_values)

lemma trigger_both:
  assumes i: "i < length (m_fdContexts s)" and g: "fd_good i (m_fdContexts s ! i)"
    and n: "npending (m_fdContexts s ! i) \<le> m_pendingEventCount s"
    and re: "re \<in> {1, 4, 5}" "re AND NOT (fc_events (m_fdContexts s ! i)) = 0"
  shows "\<exists>s'. rbind (if re AND READ_EV \<noteq> 0 then trigger_at i READ_EV s else Inr s) (\<lambda>s1.
      if re AND WRITE_EV \<noteq> 0 then trigger_at i WRITE_EV s1 else Inr s1) = Inr s' \<and>
    kernel s' = kernel s \<and> m_fdContexts s' = (m_fdContexts s)[i := cleared_all re (m_fdContexts s ! i)] \<and>
    m_scheduled s' = m_scheduled s @ triggered re (m_fdContexts s ! i) \<and>
    m_pendingEventCount s' + npending (m_fdContexts s ! i) =
      m_pendingEventCount s + npending (cleared_all re (m_fdContexts s ! i)) \<and>
    fd_good i (cleared_all re (m_fdContexts s ! i)) \<and>
    fc_events (cleared_all re (m_fdContexts s ! i)) = fc_events (m_fdContexts s ! i) AND NOT re"
proof -
  let ?c = "m_fdContexts s ! i"
  have e: "fc_events ?c \<in> {0, 1, 4, 5}" using g by (simp add: fd_good_def)
  have "re \<in> {0, 1, 4, 5}" using re(1) by auto
  from subset_cases [OF e this re(2)] re(1)
  consider "re = 1" "fc_events ?c AND 1 \<noteq> 0" | "re = 4" "fc_events ?c AND 4 \<noteq> 0" | "re = 5" "fc_events ?c = 5"
    by auto
  then show ?thesis
  proof cases
    case 1
    then show ?thesis
      using trigger_at_ok [OF i g n, of READ_EV] cleared_good(1-3) [OF g, of READ_EV]
      by (auto simp: cleared_all_def triggered_def ctx_of_def)
  next
    case 2
    then show ?thesis
      using trigger_at_ok [OF i g n, of WRITE_EV] cleared_good(1-3) [OF g, of WRITE_EV]
      by (auto simp: cleared_all_def triggered_def ctx_of_def)
  next
    case 3
    let ?c1 = "cleared READ_EV ?c"
    have r: "fc_events ?c AND READ_EV \<noteq> 0" using 3 by simp
    obtain s1 where s1: "trigger_at i READ_EV s = Inr s1" "kernel s1 = kernel s"
      "m_fdContexts s1 = (m_fdContexts s)[i := ?c1]" "m_scheduled s1 = m_scheduled s @ [waiter (fc_read ?c)]"
      "m_pendingEventCount s1 + 1 = m_pendingEventCount s"
      using trigger_at_ok [OF i g n, of READ_EV] r by (auto simp: ctx_of_def)
    note c1 = cleared_good [OF g, of READ_EV]
    have i1: "i < length (m_fdContexts s1)" and x1: "m_fdContexts s1 ! i = ?c1" using i s1(3) by simp_all
    have g1: "fd_good i ?c1" and n1: "npending ?c1 \<le> m_pendingEventCount s1"
      and w1: "fc_events ?c1 AND WRITE_EV \<noteq> 0" and wr: "fc_write ?c1 = fc_write ?c"
      using c1 r n s1(5) 3 by (auto simp: ctx_of_def cleared_def setContext_def)
    obtain s2 where s2: "trigger_at i WRITE_EV s1 = Inr s2" "kernel s2 = kernel s1"
      "m_fdContexts s2 = (m_fdContexts s1)[i := cleared WRITE_EV ?c1]"
      "m_scheduled s2 = m_scheduled s1 @ [waiter (fc_write ?c1)]"
      "m_pendingEventCount s2 + 1 = m_pendingEventCount s1"
      using trigger_at_ok [OF i1, of WRITE_EV] g1 n1 w1 x1 by (auto simp: ctx_of_def)
    note c2 = cleared_good(1-3) [OF g1, of WRITE_EV]
    show ?thesis
      using s1 s2 c1(2,3) c2 r w1 wr 3
      by (auto simp: cleared_all_def triggered_def Let_def)
  qed
qed

lemma handle_event_ok:
  assumes inv: "io_inv interest s" and laws: "epoll_laws ctl interest" and i: "i < length (m_fdContexts s)"
    and sub: "real_events revents (fc_events (m_fdContexts s ! i)) AND NOT (fc_events (m_fdContexts s ! i)) = 0"
  shows "\<exists>s'. handle_event ctl i revents s = Inr s' \<and> io_inv interest s' \<and>
    (let c = m_fdContexts s ! i; re = real_events revents (fc_events c) in
      m_scheduled s' = m_scheduled s @ triggered re c \<and> m_fdContexts s' = (m_fdContexts s)[i := cleared_all re c] \<or>
      m_scheduled s' = m_scheduled s \<and> m_fdContexts s' = m_fdContexts s)"
proof -
  let ?c = "m_fdContexts s ! i"
  define re where "re = real_events revents (fc_events ?c)"
  note g = io_invD [OF inv i]
  have fi: "fc_fd ?c = i" and e: "fc_events ?c \<in> {0, 1, 4, 5}" using g(1) by (auto simp: fd_good_def)
  have rv: "re \<in> {0, 1, 4, 5}" unfolding re_def by (rule real_events_values)
  note sc = subset_cases [OF e rv sub [folded re_def]]
  show ?thesis
  proof (cases "re = 0")
    case True
    with inv show ?thesis by (auto simp: handle_event_def Let_def re_def [symmetric])
  next
    case nz: False
    obtain r k1 where ctl: "ctl_left ctl i (fc_events ?c AND NOT re) (kernel s) = (r, k1)" by force
    note k1 = ctl_left_ok [OF laws ctl]
    have "fc_events ?c AND re \<noteq> 0" using sc nz by (auto simp: mask_values)
    then have run: "handle_event ctl i revents s = (if r \<noteq> 0 then Inr (s\<lparr>kernel := k1\<rparr>)
        else rbind (if re AND READ_EV \<noteq> 0 then trigger_at i READ_EV (s\<lparr>kernel := k1\<rparr>) else Inr (s\<lparr>kernel := k1\<rparr>))
               (\<lambda>s1. if re AND WRITE_EV \<noteq> 0 then trigger_at i WRITE_EV s1 else Inr s1))"
      using ctl fi by (simp add: handle_event_def Let_def re_def [symmetric])
    show ?thesis
    proof (cases "r = 0")
      case ok: True
      let ?s = "s\<lparr>kernel := k1\<rparr>"
      have "re \<in> {1, 4, 5}" using rv nz by auto
      then obtain s' where s': "rbind (if re AND READ_EV \<noteq> 0 then trigger_at i READ_EV ?s else Inr ?s)
          (\<lambda>s1. if re AND WRITE_EV \<noteq> 0 then trigger_at i WRITE_EV s1 else Inr s1) = Inr s'"
        "kernel s' = k1" "m_fdContexts s' = (m_fdContexts s)[i := cleared_all re ?c]"
        "m_scheduled s' = m_scheduled s @ triggered re ?c"
        "m_pendingEventCount s' + npending ?c = m_pendingEventCount s + npending (cleared_all re ?c)"
        "fd_good i (cleared_all re ?c)" "fc_events (cleared_all re ?c) = fc_events ?c AND NOT re"
        using trigger_both [where s = ?s and i = i and re = re] g i sub by (auto simp: re_def [symmetric] simp del: rbind_Inr_conv)
      have "io_inv interest s'"
        using s' k1 ok by (intro io_inv_put [OF inv i s'(6)]) simp_all
      with run ok s' show ?thesis by (simp add: re_def [symmetric] Let_def del: rbind_Inr_conv)
    next
      case False
      with run k1 inv show ?thesis by (auto simp: io_inv_kernel Let_def)
    qed
  qed
qed

subsection \<open>Runs\<close>

inductive io_step :: "'k epoll_ctl \<Rightarrow> ('f, 'k) iom \<Rightarrow> ('f, 'k) iom \<Rightarrow> bool" for ctl where
  io_add: "ev = READ_EV \<or> ev = WRITE_EV \<Longrightarrow> sch \<noteq> None \<Longrightarrow> cb \<noteq> None \<or> snd fib = EXEC \<Longrightarrow>
    addEvent ctl sch fib (int fd) ev cb s = Inr (r, s') \<Longrightarrow> io_step ctl s s'"
| io_del: "ev = READ_EV \<or> ev = WRITE_EV \<Longrightarrow> delEvent ctl (int fd) ev s = Inr (b, s') \<Longrightarrow> io_step ctl s s'"
| io_cancel: "ev = READ_EV \<or> ev = WRITE_EV \<Longrightarrow> cancelEvent ctl (int fd) ev s = Inr (b, s') \<Longrightarrow> io_step ctl s s'"
| io_handle: "i < length (m_fdContexts s) \<Longrightarrow>
    real_events revents (fc_events (m_fdContexts s ! i)) AND NOT (fc_events (m_fdContexts s ! i)) = 0 \<Longrightarrow>
    handle_event ctl i revents s = Inr s' \<Longrightarrow> io_step ctl s s'"

lemma addEvent_registered:
  assumes "io_inv interest s" "fc_events (m_fdContexts (grown fd s) ! fd) AND ev \<noteq> 0"
  shows "addEvent ctl sch fib (int fd) ev cb s = Inl AssertFail"
proof -
  have gr: "(if int (length (m_fdContexts s)) > int fd then s else contextResize (nat (int fd * 3 div 2)) s) = grown fd s"
    by (simp add: grown_def nat_div_distrib nat_mult_distrib)
  show ?thesis
    unfolding addEvent_def Let_def gr using grown_ok(2) [OF assms(1), of fd] assms(2)
    by (simp add: fd_lookup_def)
qed

lemma io_step_inv:
  assumes laws: "epoll_laws ctl interest"
  shows "io_step ctl s s' \<Longrightarrow> io_inv interest s \<Longrightarrow> io_inv interest s'"
proof (induction rule: io_step.induct)
  case (io_add ev sch cb fib fd s r s')
  then have "fc_events (m_fdContexts (grown fd s) ! fd) AND ev = 0"
    using addEvent_registered [OF io_add.prems, of fd ev ctl sch fib cb] by auto
  then show ?case
    using addEvent_ok [OF io_add.prems laws io_add.hyps(1,3,2)] io_add.hyps(4) by fastforce
next
  case (io_del ev fd s b s')
  then show ?case
    using delEvent_ok [OF io_del.prems laws io_del.hyps(1), of fd]
    by (cases "fd < length (m_fdContexts s)") (auto simp: delEvent_def)
next
  case (io_cancel ev fd s b s')
  then show ?case
    using cancelEvent_ok [OF io_cancel.prems laws io_cancel.hyps(1), of fd]
    by (cases "fd < length (m_fdContexts s)") (auto simp: cancelEvent_def)
next
  case (io_handle i s revents s')
  then show ?case using handle_event_ok [OF io_handle.prems laws io_handle.hyps(1,2)] by auto
qed

lemma io_reachable_inv:
  assumes "epoll_laws ctl interest" "interest k = (\<lambda>_. None)"
  shows "(io_step ctl)\<^sup>*\<^sup>* (new_IOManager k) s \<Longrightarrow> io_inv interest s"
  by (induction rule: rtranclp_induct)
     (auto intro: new_IOManager_inv [of interest k, OF assms(2)] io_step_inv [OF assms(1)])

text \<open>A kernel for the examples: an interest list as a function, every call succeeding.\<close>

definition demo_ctl :: "(nat \<Rightarrow> u32 option) epoll_ctl" where
  "demo_ctl k op fd ev = (0, k(fd := (if op = EPOLL_CTL_DEL then None else Some ev)))"

lemma demo_laws: "epoll_laws demo_ctl (\<lambda>k. k)"
  by (simp add: epoll_laws_def demo_ctl_def)

lemma demo_inv: "io_inv (\<lambda>k. k) (new_IOManager (\<lambda>_. None))"
  by (rule new_IOManager_inv) simp

lemma demo_add:
  "\<exists>s1. addEvent demo_ctl (Some 1) (0, EXEC) (int 3) READ_EV (Some (7 :: nat)) (new_IOManager (\<lambda>_. None)) = Inr (0, s1) \<and>
     m_pendingEventCount s1 = 1"
proof -
  let ?s = "new_IOManager (\<lambda>_. None) :: (nat, nat \<Rightarrow> u32 option) iom"
  have c: "m_fdContexts (grown 3 ?s) ! 3 = new_FdContext 3" "m_pendingEventCount ?s = 0" "kernel ?s = (\<lambda>_. None)"
    by (simp_all add: grown_def new_IOManager_def contextResize_def)
  have "addEvent demo_ctl (Some 1) (0, EXEC) (int 3) READ_EV (Some 7) ?s =
    (if (0 :: int) \<noteq> 0 then Inr (- 1, (grown 3 ?s)\<lparr>kernel := (\<lambda>_. None)(3 := Some (EPOLLET OR 0 OR READ_EV))\<rparr>)
     else Inr (0, put_ctx 3 (registered READ_EV (new_waiter (Some 1) (fst (0, EXEC)) (Some 7)) (m_fdContexts (grown 3 ?s) ! 3))
       ((grown 3 ?s)\<lparr>kernel := (\<lambda>_. None)(3 := Some (EPOLLET OR 0 OR READ_EV)), m_pendingEventCount := Suc (m_pendingEventCount ?s)\<rparr>)))"
    by (rule addEvent_run [OF demo_inv])
       (simp_all add: c new_FdContext_def demo_ctl_def)
  then show ?thesis by (simp add: put_ctx_def c)
qed

subsection \<open>Properties of the event manager\<close>



text \<open>
  A registered waiter is woken exactly once: when \<open>addEvent\<close> succeeded, a
  successful \<open>cancelEvent\<close> hands exactly that waiter (the callback, or the fiber that
  called) to the scheduler it was registered with, restores the count of pending events
  and leaves the event free, so a second \<open>cancelEvent\<close> returns false and schedules
  nothing.
\<close>

theorem io_add_cancel_once:
  assumes inv: "io_inv interest s" and laws: "epoll_laws ctl interest"
    and ev: "ev = READ_EV \<or> ev = WRITE_EV" and who: "sch \<noteq> None" "cb \<noteq> None \<or> snd fib = EXEC"
    and add: "addEvent ctl sch fib (int fd) ev cb s = Inr (0, s1)"
    and can: "cancelEvent ctl (int fd) ev s1 = Inr (True, s2)"
  shows "m_scheduled s2 = m_scheduled s @ [waiter (new_waiter sch (fst fib) cb)] \<and>
    m_pendingEventCount s2 = m_pendingEventCount s \<and>
    cancelEvent ctl (int fd) ev s2 = Inr (False, s2)"
proof -
  let ?c = "m_fdContexts (grown fd s) ! fd" and ?x = "new_waiter sch (fst fib) cb"
  have free: "fc_events ?c AND ev = 0" using addEvent_registered [OF inv, of fd ev ctl sch fib cb] add by auto
  note g = grown_ok [OF inv, of fd]
  have a: "io_inv interest s1" "m_scheduled s1 = m_scheduled s"
    "m_pendingEventCount s1 = Suc (m_pendingEventCount s)"
    "m_fdContexts s1 = (m_fdContexts (grown fd s))[fd := registered ev ?x ?c]"
    using addEvent_ok [OF inv laws ev who(2,1) free] add by auto
  note rg = registered_good [OF io_invD(1) [OF g(1,2)] ev free new_waiter_ok [OF who(1), of "fst fib" cb]]
  have fd1: "fd < length (m_fdContexts s1)" and c1: "m_fdContexts s1 ! fd = registered ev ?x ?c"
    using a(4) g(2) by simp_all
  have b: "fc_events (registered ev ?x ?c) AND ev \<noteq> 0" "m_scheduled s2 = m_scheduled s1 @ [waiter ?x]"
    "m_fdContexts s2 = (m_fdContexts s1)[fd := cleared ev (registered ev ?x ?c)]" "io_inv interest s2"
    using cancelEvent_ok [OF a(1) laws ev fd1] can c1 rg(6) by auto
  note cg = cleared_good [OF rg(1) ev b(1)]
  have "m_pendingEventCount s2 = m_pendingEventCount s"
    using a(1,3,4) b(3,4) cg(2) rg(2) fd1 c1
      member_le_sum_list [of "npending (registered ev ?x ?c)" "map npending (m_fdContexts s1)"]
    by (simp add: io_inv_def map_update sum_list_update)
  moreover have "fc_events (m_fdContexts s2 ! fd) AND ev = 0" "fd < length (m_fdContexts s2)"
    using b(3) fd1 cg(3) ev by (auto simp: and.assoc)
  ultimately show ?thesis
    using a(2) b(2) by (simp add: cancelEvent_def fd_lookup_def and.commute)
qed

lemma demo_cancel:
  assumes "addEvent demo_ctl (Some 1) (0, EXEC) (int 3) READ_EV (Some (7 :: nat)) (new_IOManager (\<lambda>_. None)) = Inr (0, s1)"
  shows "\<exists>s2. cancelEvent demo_ctl (int 3) READ_EV s1 = Inr (True, s2)"
proof -
  let ?s = "new_IOManager (\<lambda>_. None) :: (nat, nat \<Rightarrow> u32 option) iom"
  have free: "fc_events (m_fdContexts (grown 3 ?s) ! 3) AND READ_EV = 0"
    by (simp add: grown_def new_IOManager_def contextResize_def new_FdContext_def)
  have a: "io_inv (\<lambda>k. k) s1" "m_fdContexts s1 = (m_fdContexts (grown 3 ?s))[3 :=
      registered READ_EV (new_waiter (Some 1) 0 (Some 7)) (m_fdContexts (grown 3 ?s) ! 3)]"
    using addEvent_ok [OF demo_inv demo_laws, of READ_EV "Some (7::nat)" "(0, EXEC)" "Some 1" 3] free assms by auto
  have l: "3 < length (m_fdContexts s1)" using a(1) by (simp add: io_inv_def)
  then have "fc_events (m_fdContexts s1 ! 3) AND READ_EV \<noteq> 0"
    using a(2) by (simp add: registered_def setContext_def grown_def new_IOManager_def contextResize_def new_FdContext_def)
  then have "cancelEvent demo_ctl (int 3) READ_EV s1 \<noteq> Inr (False, s')" for s'
    using l trigger_at_ok [of 3 "s1\<lparr>kernel := snd (ctl_left demo_ctl 3 (fc_events (m_fdContexts s1 ! 3) AND NOT READ_EV) (kernel s1))\<rparr>" READ_EV]
    by (auto simp: cancelEvent_def fd_lookup_def and.commute ctl_left_def demo_ctl_def)
  with cancelEvent_ok [OF a(1) demo_laws, of READ_EV 3] l show ?thesis by (metis (full_types))
qed

theorem io_add_cancel_once_witness:
  "\<exists>s1 s2 :: (nat, nat \<Rightarrow> u32 option) iom.
     addEvent demo_ctl (Some 1) (0, EXEC) (int 3) READ_EV (Some 7) (new_IOManager (\<lambda>_. None)) = Inr (0, s1) \<and>
     cancelEvent demo_ctl (int 3) READ_EV s1 = Inr (True, s2) \<and> m_scheduled s2 = [(1, cb_task 7 (- 1))]"
proof -
  obtain s1 where s1: "addEvent demo_ctl (Some 1) (0, EXEC) (int 3) READ_EV (Some (7 :: nat)) (new_IOManager (\<lambda>_. None)) = Inr (0, s1)"
    using demo_add by blast
  obtain s2 where s2: "cancelEvent demo_ctl (int 3) READ_EV s1 = Inr (True, s2)" using demo_cancel [OF s1] by blast
  have "m_scheduled s2 = m_scheduled (new_IOManager (\<lambda>_. None) :: (nat, nat \<Rightarrow> u32 option) iom) @ [waiter (new_waiter (Some 1) (fst (0, EXEC)) (Some 7))]"
    using io_add_cancel_once [OF demo_inv demo_laws _ _ _ s1 s2] by simp
  with s1 s2 show ?thesis by (auto simp: new_IOManager_def contextResize_def waiter_def new_waiter_def)
qed



text \<open>
  \<open>cancelAll\<close> on a descriptor with a registered write event fails its
  assertion as soon as the kernel accepts the removal: for the write event it triggers
  \<open>READ\<close>, which is not (or no longer) registered.
\<close>

theorem io_cancelAll_write_aborts:
  assumes inv: "io_inv interest s" and fd: "fd < length (m_fdContexts s)"
    and w: "fc_events (m_fdContexts s ! fd) AND WRITE_EV \<noteq> 0"
    and ctl: "ctl (kernel s) EPOLL_CTL_DEL fd 0 = (0, k1)"
  shows "cancelAll ctl (int fd) s = Inl AssertFail"
proof -
  let ?c = "m_fdContexts s ! fd" and ?s = "s\<lparr>kernel := k1\<rparr>"
  note g = io_invD [OF inv fd]
  have stop: "trigger_at fd READ_EV s1 = Inl AssertFail"
    if "fc_events (m_fdContexts s1 ! fd) AND READ_EV = 0" for s1 :: "('b, 'a) iom"
    using that by (simp add: trigger_at_def triggerEvent_def)
  have ne: "fc_events ?c \<noteq> 0" using w by auto
  show ?thesis
  proof (cases "fc_events ?c AND READ_EV = 0")
    case True
    then show ?thesis using fd w ctl ne stop [of ?s] by (simp add: cancelAll_def fd_lookup_def)
  next
    case False
    obtain s1 where s1: "trigger_at fd READ_EV ?s = Inr s1"
      "m_fdContexts s1 = (m_fdContexts s)[fd := cleared READ_EV ?c]"
      using trigger_at_ok [where s = ?s and i = fd and ev = READ_EV] g fd False by auto
    have e5: "fc_events ?c = 5" using g(1) w False by (auto simp: fd_good_def mask_values)
    have "fc_events (m_fdContexts s1 ! fd) = 4"
      using s1(2) fd cleared_good(3) [OF g(1), of READ_EV] False e5 by (simp add: mask_values)
    then show ?thesis
      using fd w ctl ne False s1(1) stop [of s1] by (simp add: cancelAll_def fd_lookup_def mask_values)
  qed
qed

theorem io_cancelAll_write_aborts_witness:
  "\<exists>s :: (nat, nat \<Rightarrow> u32 option) iom. io_inv (\<lambda>k. k) s \<and> cancelAll demo_ctl (int 3) s = Inl AssertFail"
proof -
  let ?s = "new_IOManager (\<lambda>_. None) :: (nat, nat \<Rightarrow> u32 option) iom"
  let ?c = "registered WRITE_EV (new_waiter (Some 1) 0 (Some 7)) (new_FdContext 3 :: nat fd_ctx)"
  let ?s1 = "?s\<lparr>m_fdContexts := (m_fdContexts ?s)[3 := ?c], m_pendingEventCount := 1,
    kernel := (\<lambda>_. None)(3 := want WRITE_EV)\<rparr>"
  have l: "3 < length (m_fdContexts ?s)" "m_fdContexts ?s ! 3 = new_FdContext 3" "kernel ?s = (\<lambda>_. None)"
    "m_pendingEventCount ?s = 0"
    by (simp_all add: new_IOManager_def contextResize_def)
  have f: "fc_events (new_FdContext 3 :: nat fd_ctx) = 0" by (simp add: new_FdContext_def)
  have g: "fd_good 3 (new_FdContext 3 :: nat fd_ctx)" using io_invD(1) [OF demo_inv l(1)] l(2) by simp
  note rg = registered_good [OF g, of WRITE_EV, OF _ _ new_waiter_ok [of "Some 1" 0 "Some 7"]]
  have inv: "io_inv (\<lambda>k. k) ?s1"
    using rg f l by (intro io_inv_put [OF demo_inv l(1), of ?c]) (simp_all add: npending_def)
  have "fc_events (m_fdContexts ?s1 ! 3) AND WRITE_EV \<noteq> 0" using rg(3) f l(1) by simp
  from io_cancelAll_write_aborts [OF inv _ this, of demo_ctl] l(1)
  have "cancelAll demo_ctl (int 3) ?s1 = Inl AssertFail" by (simp add: demo_ctl_def)
  with inv show ?thesis by blast
qed

lemma sint_low: "unat (w :: u32) < 2 ^ 31 \<Longrightarrow> sint w = int (unat w)"
proof -
  assume "unat w < 2 ^ 31"
  then have "int (unat w) < int (2 ^ 31)" by (simp only: of_nat_less_iff)
  then have "uint w < 2 ^ 31" by simp
  then have "signed_take_bit 31 (uint w) = uint w"
    by (intro signed_take_bit_int_eq_self) (simp_all add: order_trans [OF _ uint_nonnegative])
  then show "sint w = int (unat w)" by (simp add: sint_uint)
qed

lemma unat_ones: "unat (- 1 :: u64) = 2 ^ 64 - 1"
  by (simp add: unsigned_minus_1_eq_mask mask_eq_exp_minus_1)

lemma sint_high: "2 ^ 31 \<le> unat (w :: u32) \<Longrightarrow> sint w < 0"
proof -
  assume a: "2 ^ 31 \<le> unat w"
  have "unat w < 2 ^ 32" using unsigned_less [of w] by simp
  with a have "unat w div 2 ^ 31 = 1" by (intro div_nat_eqI) simp_all
  then have "bit (unat w) 31" by (simp add: bit_iff_odd)
  then have "bit w 31" by (simp add: bit_unsigned_iff)
  then show "sint w < 0" using bit_last_iff [of w] by simp
qed

lemma unat_low32: "unat (t :: u64) < 2 ^ 32 \<Longrightarrow> unat (ucast t :: u32) = unat t"
  by (simp add: unsigned_ucast_eq take_bit_eq_mod)

text \<open>
  The timeout \<open>idle\<close> passes to \<open>epoll_wait\<close>: it is the time to the next
  timer, at most 10 seconds, and 10 seconds without timers; but from \<open>2 ^ 31\<close>
  milliseconds on (and below \<open>2 ^ 32\<close>) the conversion to \<open>int\<close> makes it negative, which
  tells \<open>epoll_wait\<close> to block without limit.
\<close>

theorem io_wait_timeout:
  "(unat t < 2 ^ 31 \<longrightarrow> wait_timeout t = min (int (unat t)) 10000) \<and> wait_timeout (- 1) = 10000 \<and>
   (2 ^ 31 \<le> unat t \<and> unat t < 2 ^ 32 \<longrightarrow> wait_timeout t < 0)"
proof (intro conjI impI)
  assume lt: "unat t < 2 ^ 31"
  then have st: "sint (ucast t :: u32) = int (unat t)" by (simp add: sint_low unat_low32)
  have "t \<noteq> - 1" using lt unat_ones by auto
  then show "wait_timeout t = min (int (unat t)) 10000"
    using st by (simp add: wait_timeout_def Let_def)
next
  show "wait_timeout (- 1) = 10000" by (simp add: wait_timeout_def)
next
  assume b: "2 ^ 31 \<le> unat t \<and> unat t < 2 ^ 32"
  then have "sint (ucast t :: u32) < 0" by (intro sint_high) (simp add: unat_low32)
  moreover have "t \<noteq> - 1" using b unat_ones by auto
  ultimately show "wait_timeout t < 0" by (simp add: wait_timeout_def Let_def)
qed

theorem io_wait_timeout_witness: "wait_timeout 25000 = 10000"
  using io_wait_timeout [of 25000] by simp

subsection \<open>Descriptors of the manager\<close>

text \<open>
  The descriptors of the manager: the \<open>epoll\<close> instance and the two ends of the pipe that wakes its
  threads. The results of \<open>epoll_create\<close>, \<open>pipe\<close>, \<open>fcntl\<close> and \<open>epoll_ctl\<close> are arguments; \<open>open_fds\<close> are
  the open descriptors of the process. Closing a descriptor that is not open fails.
\<close>

record iom_fds =
  m_epfd :: int
  m_tickleFds :: "int \<times> int"
  open_fds :: "int set"

definition IOManager_open :: "int \<Rightarrow> int \<times> int \<times> int \<Rightarrow> int \<Rightarrow> int \<Rightarrow> int set \<Rightarrow> iom_fds res" where
  "IOManager_open epfd p fcntl_rt ctl_rt fds = (case p of (pipe_rt, r, w) \<Rightarrow>
     if pipe_rt \<noteq> 0 then Inl AssertFail else if fcntl_rt \<noteq> 0 then Inl AssertFail else if ctl_rt \<noteq> 0 then Inl AssertFail
     else Inr \<lparr>m_epfd = epfd, m_tickleFds = (r, w), open_fds = insert epfd (insert r (insert w fds))\<rparr>)"

definition close_fd :: "int \<Rightarrow> int set \<Rightarrow> int \<times> int set" where
  "close_fd fd fds = (if fd \<in> fds then (0, fds - {fd}) else (-1, fds))"

definition IOManager_dtor :: "iom_fds \<Rightarrow> int list \<times> int set" where
  "IOManager_dtor m = (let (r1, o1) = close_fd (m_epfd m) (open_fds m);
       (r2, o2) = close_fd (fst (m_tickleFds m)) o1;
       (r3, o3) = close_fd (fst (m_tickleFds m)) o2
     in ([r1, r2, r3], o3))"

text \<open>The write end of the pipe stays open, and the third close fails.\<close>

lemma iomanager_leaks_pipe:
  assumes "distinct [epfd, r, w]" "{epfd, r, w} \<inter> fds = {}" "IOManager_open epfd (0, r, w) 0 0 fds = Inr m"
  shows "IOManager_dtor m = ([0, 0, -1], insert w fds)"
  using assms by (auto simp: IOManager_open_def IOManager_dtor_def close_fd_def Let_def)

end
