(* ===== verification/Civan_Hook.thy ===== *)
theory Civan_Hook
  imports Civan_IOManager
begin

section \<open>Descriptors and hooked system calls: \<open>civan/fd_manager.cc\<close>, \<open>civan/hook.cc\<close>\<close>

text \<open>
  \<open>FdManager\<close> keeps an \<open>FdCtx\<close> per descriptor; the hooks replace the blocking calls by
  calls that suspend the fiber. System calls are parameters: \<open>fcntl_f\<close> on an operating
  system state \<open>'o\<close> with \<open>flags_of\<close> reading a descriptor's status flags and
  \<open>fcntl_laws\<close> stating what \<open>fcntl(2)\<close> documents; the results of the successive calls a
  hook makes, and how each wait of the fiber ends, are lists given to the model.
\<close>

unbundle bit_operations_syntax

abbreviation (input) O_NONBLOCK :: u32 where "O_NONBLOCK \<equiv> 0x800"
abbreviation (input) EINTR :: int where "EINTR \<equiv> 4"
abbreviation (input) EBADF :: int where "EBADF \<equiv> 9"
abbreviation (input) EAGAIN :: int where "EAGAIN \<equiv> 11"
abbreviation (input) ETIMEDOUT :: int where "ETIMEDOUT \<equiv> 110"
abbreviation (input) EINPROGRESS :: int where "EINPROGRESS \<equiv> 115"

subsection \<open>Descriptor contexts\<close>

record fdctx =
  m_isInit :: bool
  m_isSocket :: bool
  m_sysNonblock :: bool
  m_userNonblock :: bool
  m_isClosed :: bool
  m_recvTimeout :: u64
  m_sendTimeout :: u64

datatype fcntl_cmd = F_GETFL | F_SETFL

type_synonym 'o fcntl_f = "'o \<Rightarrow> nat \<Rightarrow> fcntl_cmd \<Rightarrow> u32 \<Rightarrow> u32 \<times> 'o"

definition fcntl_laws :: "'o fcntl_f \<Rightarrow> ('o \<Rightarrow> nat \<Rightarrow> u32) \<Rightarrow> bool" where
  "fcntl_laws fcntl_f flags_of \<longleftrightarrow>
     (\<forall>o1 fd a. fcntl_f o1 fd F_GETFL a = (flags_of o1 fd, o1)) \<and>
     (\<forall>o1 fd a. flags_of (snd (fcntl_f o1 fd F_SETFL a)) = (flags_of o1)(fd := a))"

text \<open>\<open>st\<close>: what \<open>fstat\<close> says, \<open>None\<close> an error, else whether it is a socket.\<close>

definition FdCtx_init :: "'o fcntl_f \<Rightarrow> nat \<Rightarrow> bool option \<Rightarrow> fdctx \<Rightarrow> 'o \<Rightarrow> bool \<times> fdctx \<times> 'o" where
  "FdCtx_init fcntl_f fd st c os =
     (if m_isInit c then (True, c, os)
      else
        let c1 = (case st of None \<Rightarrow> c\<lparr>m_isInit := False, m_isSocket := False\<rparr>
                  | Some sock \<Rightarrow> c\<lparr>m_isInit := True, m_isSocket := sock\<rparr>);
            (c2, os1) =
              (if m_isSocket c1 then
                 let (flags, os0) = fcntl_f os fd F_GETFL 0
                 in (c1\<lparr>m_sysNonblock := True\<rparr>,
                     if flags AND O_NONBLOCK = 0 then snd (fcntl_f os0 fd F_SETFL (flags OR O_NONBLOCK)) else os0)
               else (c1\<lparr>m_sysNonblock := False\<rparr>, os));
            c3 = c2\<lparr>m_userNonblock := False, m_isClosed := False\<rparr>
        in (m_isInit c3, c3, os1))"

definition new_FdCtx :: "'o fcntl_f \<Rightarrow> nat \<Rightarrow> bool option \<Rightarrow> 'o \<Rightarrow> fdctx \<times> 'o" where
  "new_FdCtx fcntl_f fd st os = snd (FdCtx_init fcntl_f fd st
     \<lparr>m_isInit = False, m_isSocket = False, m_sysNonblock = False, m_userNonblock = False,
      m_isClosed = False, m_recvTimeout = - 1, m_sendTimeout = - 1\<rparr> os)"

definition setTimeout :: "bool \<Rightarrow> u64 \<Rightarrow> fdctx \<Rightarrow> fdctx" where
  "setTimeout rcv v c = (if rcv then c\<lparr>m_recvTimeout := v\<rparr> else c\<lparr>m_sendTimeout := v\<rparr>)"

definition getTimeout :: "bool \<Rightarrow> fdctx \<Rightarrow> u64" where
  "getTimeout rcv c = (if rcv then m_recvTimeout c else m_sendTimeout c)"

subsection \<open>\<open>FdManager\<close>\<close>

type_synonym fdmgr = "fdctx option list"

definition new_FdManager :: fdmgr where
  "new_FdManager = replicate 64 None"

definition datas_resize :: "nat \<Rightarrow> fdmgr \<Rightarrow> fdmgr" where
  "datas_resize n ds = take n ds @ replicate (n - length ds) None"

definition FdManager_get ::
  "'o fcntl_f \<Rightarrow> int \<Rightarrow> bool \<Rightarrow> bool option \<Rightarrow> fdmgr \<Rightarrow> 'o \<Rightarrow> (fdctx option \<times> fdmgr \<times> 'o) res" where
  "FdManager_get fcntl_f fd auto_create st ds os =
     (if fd = - 1 then Inr (None, ds, os)
      else if int (length ds) \<le> fd \<and> \<not> auto_create then Inr (None, ds, os)
      else if fd < int (length ds) \<and> fd < 0 then Inl BadPointer
      else if fd < int (length ds) \<and> (ds ! nat fd \<noteq> None \<or> \<not> auto_create) then Inr (ds ! nat fd, ds, os)
      else
        let (c, os1) = new_FdCtx fcntl_f (nat fd) st os;
            ds1 = (if int (length ds) \<le> fd then datas_resize (nat (fd * 3 div 2)) ds else ds)
        in if nat fd < length ds1 then Inr (Some c, ds1[nat fd := Some c], os1) else Inl BadPointer)"

definition FdManager_del :: "int \<Rightarrow> fdmgr \<Rightarrow> fdmgr res" where
  "FdManager_del fd ds = (if int (length ds) \<le> fd then Inr ds
     else if fd < 0 then Inl BadPointer else Inr (ds[nat fd := None]))"

text \<open>\<open>get(fd)\<close> without \<open>auto_create\<close> creates nothing.\<close>

definition FdManager_lookup :: "int \<Rightarrow> fdmgr \<Rightarrow> fdctx option res" where
  "FdManager_lookup fd ds = (if fd = - 1 \<or> int (length ds) \<le> fd then Inr None
     else if fd < 0 then Inl BadPointer else Inr (ds ! nat fd))"

lemma lookup_get: "FdManager_get fcntl_f fd False st ds os = rbind (FdManager_lookup fd ds) (\<lambda>c. Inr (c, ds, os))"
  by (auto simp: FdManager_get_def FdManager_lookup_def)

subsection \<open>\<open>do_io\<close>\<close>

text \<open>What a hooked call does besides calling the original function.\<close>

datatype io_act = CallFun | AddTimer u64 | AddEvent u32 | CancelTimer | Yield

text \<open>
  \<open>calls\<close>: the results and \<open>errno\<close> of the successive calls of the original function;
  \<open>waits\<close>: for each wait what \<open>addEvent\<close> returns and the value of \<open>tinfo->cancelled\<close>
  when the fiber runs again. Without a further call or wait the fiber is still
  suspended: no result.
\<close>

fun io_retry :: "u32 \<Rightarrow> u64 \<Rightarrow> (int \<times> int) list \<Rightarrow> (int \<times> int) list \<Rightarrow> (int \<times> int) option \<times> io_act list" where
  "io_retry ev to [] waits = (None, [])"
| "io_retry ev to ((n, e) # calls) waits =
     (if n = - 1 \<and> e = EINTR then
        (let (r, as) = io_retry ev to calls waits in (r, CallFun # as))
      else if n = - 1 \<and> e = EAGAIN then
        (let pre = CallFun # (if to \<noteq> - 1 then [AddTimer to] else []) @ [AddEvent ev];
             post = (if to \<noteq> - 1 then [CancelTimer] else [])
         in case waits of
              [] \<Rightarrow> (None, pre)
            | (rt, cancelled) # ws \<Rightarrow>
                if rt = - 1 then (Some (- 1, e), pre @ post)
                else if cancelled \<noteq> 0 then (Some (- 1, cancelled), pre @ [Yield] @ post)
                else (let (r, as) = io_retry ev to calls ws in (r, pre @ [Yield] @ post @ as)))
      else (Some (n, e), [CallFun]))"

definition do_io ::
  "bool \<Rightarrow> fdctx option \<Rightarrow> u32 \<Rightarrow> bool \<Rightarrow> (int \<times> int) list \<Rightarrow> (int \<times> int) list \<Rightarrow>
     (int \<times> int) option \<times> io_act list" where
  "do_io hook_enable ctx ev rcv calls waits =
     (let plain = (case calls of [] \<Rightarrow> (None, []) | r # _ \<Rightarrow> (Some r, [CallFun])) in
      if \<not> hook_enable then plain
      else case ctx of
        None \<Rightarrow> plain
      | Some c \<Rightarrow>
          if m_isClosed c then (Some (- 1, EBADF), [])
          else if \<not> m_isSocket c \<or> m_userNonblock c then plain
          else io_retry ev (getTimeout rcv c) calls waits)"

text \<open>The hooked calls: the event each waits for, and whether it uses \<open>SO_RCVTIMEO\<close>.\<close>

datatype io_call = C_accept | C_read | C_readv | C_recv | C_recvfrom | C_recvmsg
  | C_write | C_writev | C_send | C_sendto | C_sendmsg

fun io_params :: "io_call \<Rightarrow> u32 \<times> bool" where
  "io_params C_accept = (READ_EV, True)"
| "io_params C_read = (READ_EV, True)"
| "io_params C_readv = (READ_EV, True)"
| "io_params C_recv = (READ_EV, True)"
| "io_params C_recvfrom = (READ_EV, True)"
| "io_params C_recvmsg = (READ_EV, True)"
| "io_params C_write = (WRITE_EV, False)"
| "io_params C_writev = (WRITE_EV, False)"
| "io_params C_send = (WRITE_EV, False)"
| "io_params C_sendto = (WRITE_EV, False)"
| "io_params C_sendmsg = (WRITE_EV, False)"

definition hooked :: "io_call \<Rightarrow> bool \<Rightarrow> fdctx option \<Rightarrow> (int \<times> int) list \<Rightarrow> (int \<times> int) list \<Rightarrow>
    (int \<times> int) option \<times> io_act list" where
  "hooked f hook_enable ctx calls waits =
     (let (ev, rcv) = io_params f in do_io hook_enable ctx ev rcv calls waits)"

subsection \<open>Sleeping\<close>

text \<open>The period of the timer: \<open>unsigned\<close>, \<open>useconds_t\<close> and \<open>int\<close> arithmetic, then \<open>uint64_t\<close>.\<close>

definition sleep_ms :: "u32 \<Rightarrow> u64" where
  "sleep_ms seconds = ucast (seconds * 1000)"

definition usleep_ms :: "u32 \<Rightarrow> u64" where
  "usleep_ms usec = ucast (usec div 1000)"

definition nanosleep_ms :: "int \<Rightarrow> int \<Rightarrow> u64" where
  "nanosleep_ms tv_sec tv_nsec =
     scast (word_of_int (tv_sec * 1000 + tv_nsec div 1000 div 1000) :: u32)"

subsection \<open>\<open>connect\<close>\<close>

text \<open>
  \<open>n\<close>, \<open>e\<close>: result and \<open>errno\<close> of \<open>connect_f\<close>; \<open>rt\<close>, \<open>cancelled\<close>: the wait; \<open>so\<close>: what
  \<open>getsockopt(SO_ERROR)\<close> stores (\<open>None\<close>: the call fails with \<open>errno\<close> \<open>so_e\<close>).
\<close>

definition connect_with_timeout ::
  "bool \<Rightarrow> fdctx option \<Rightarrow> u64 \<Rightarrow> int \<times> int \<Rightarrow> int \<times> int \<Rightarrow> int option \<times> int \<Rightarrow>
     (int \<times> int) \<times> io_act list" where
  "connect_with_timeout hook_enable ctx timeout_ms call wait so =
     (if \<not> hook_enable then (call, [CallFun])
      else case ctx of
        None \<Rightarrow> ((- 1, EBADF), [])
      | Some c \<Rightarrow>
          if m_isClosed c then ((- 1, EBADF), [])
          else if \<not> m_isSocket c \<or> m_userNonblock c then (call, [CallFun])
          else if fst call = 0 then ((0, snd call), [CallFun])
          else if fst call \<noteq> - 1 \<or> snd call \<noteq> EINPROGRESS then (call, [CallFun])
          else
            let pre = CallFun # (if timeout_ms \<noteq> - 1 then [AddTimer timeout_ms] else []) @ [AddEvent WRITE_EV];
                post = (if timeout_ms \<noteq> - 1 then [CancelTimer] else []);
                fin = (case fst so of None \<Rightarrow> (- 1, snd so)
                       | Some err \<Rightarrow> if err = 0 then (0, snd call) else (- 1, err))
            in if fst wait = 0 then
                 (if snd wait \<noteq> 0 then ((- 1, snd wait), pre @ [Yield] @ post)
                  else (fin, pre @ [Yield] @ post))
               else (fin, pre @ post))"

subsection \<open>\<open>fcntl\<close>, \<open>ioctl\<close>, \<open>setsockopt\<close>\<close>

definition managed_socket :: "fdctx option \<Rightarrow> bool" where
  "managed_socket ctx = (case ctx of None \<Rightarrow> False | Some c \<Rightarrow> \<not> m_isClosed c \<and> m_isSocket c)"

text \<open>\<open>F_SETFL\<close> and \<open>F_GETFL\<close>.\<close>

definition hook_setfl ::
  "'o fcntl_f \<Rightarrow> nat \<Rightarrow> u32 \<Rightarrow> fdctx option \<Rightarrow> 'o \<Rightarrow> u32 \<times> fdctx option \<times> 'o" where
  "hook_setfl fcntl_f fd arg ctx os =
     (if \<not> managed_socket ctx then (let (r, os1) = fcntl_f os fd F_SETFL arg in (r, ctx, os1))
      else let c = (the ctx)\<lparr>m_userNonblock := (arg AND O_NONBLOCK \<noteq> 0)\<rparr>;
               arg' = (if m_sysNonblock c then arg OR O_NONBLOCK else arg AND NOT O_NONBLOCK);
               (r, os1) = fcntl_f os fd F_SETFL arg'
           in (r, Some c, os1))"

definition hook_getfl :: "'o fcntl_f \<Rightarrow> nat \<Rightarrow> fdctx option \<Rightarrow> 'o \<Rightarrow> u32 \<times> 'o" where
  "hook_getfl fcntl_f fd ctx os =
     (let (arg, os1) = fcntl_f os fd F_GETFL 0 in
      if \<not> managed_socket ctx then (arg, os1)
      else if m_userNonblock (the ctx) then (arg OR O_NONBLOCK, os1)
      else (arg AND NOT O_NONBLOCK, os1))"

text \<open>
  The other commands of \<open>fcntl\<close> only forward: an \<open>int\<close>, a pointer, or no argument, by the command; the
  numbers are those of Linux.
\<close>

datatype fcntl_arg = NoArg | IntArg u32 | PtrArg nat

definition fcntl_int_cmds :: "int list" where
  "fcntl_int_cmds = [0, 1030, 2, 8, 10, 1024, 1026, 1031]"

definition fcntl_void_cmds :: "int list" where
  "fcntl_void_cmds = [1, 9, 11, 1025, 1032]"

definition fcntl_ptr_cmds :: "int list" where
  "fcntl_ptr_cmds = [6, 7, 5, 16, 15]"

definition fcntl_forward :: "int \<Rightarrow> fcntl_arg \<Rightarrow> fcntl_arg" where
  "fcntl_forward cmd arg =
     (if cmd \<in> set fcntl_int_cmds then arg
      else if cmd \<in> set fcntl_void_cmds then NoArg
      else if cmd \<in> set fcntl_ptr_cmds then arg
      else NoArg)"

definition hook_fcntl ::
  "'o fcntl_f \<Rightarrow> ('o \<Rightarrow> nat \<Rightarrow> int \<Rightarrow> fcntl_arg \<Rightarrow> u32 \<times> 'o) \<Rightarrow> nat \<Rightarrow> int \<Rightarrow> fcntl_arg \<Rightarrow> fdctx option \<Rightarrow> 'o \<Rightarrow> u32 \<times> fdctx option \<times> 'o" where
  "hook_fcntl fcntl_f other_f fd cmd arg ctx os =
     (if cmd = 4 then hook_setfl fcntl_f fd (case arg of IntArg a \<Rightarrow> a | _ \<Rightarrow> 0) ctx os
      else if cmd = 3 then (let (r, os1) = hook_getfl fcntl_f fd ctx os in (r, ctx, os1))
      else let (r, os1) = other_f os fd cmd (fcntl_forward cmd arg) in (r, ctx, os1))"

text \<open>A command that the switch does not list loses its argument (\<open>F_ADD_SEALS\<close> is 1033, \<open>F_OFD_SETLK\<close> 37).\<close>

lemma fcntl_drops_argument: "fcntl_forward 1033 (IntArg a) = NoArg" "fcntl_forward 37 (PtrArg p) = NoArg"
  by (simp_all add: fcntl_forward_def fcntl_int_cmds_def fcntl_void_cmds_def fcntl_ptr_cmds_def)

lemma fcntl_keeps_argument: "cmd \<in> set (fcntl_int_cmds @ fcntl_ptr_cmds) \<Longrightarrow> fcntl_forward cmd arg = arg"
  by (auto simp: fcntl_forward_def fcntl_int_cmds_def fcntl_void_cmds_def fcntl_ptr_cmds_def)

text \<open>\<open>ioctl\<close> returns what \<open>ioctl_f\<close> returns, called with the caller's argument in any case.\<close>

definition hook_ioctl_fionbio ::
  "('o \<Rightarrow> nat \<Rightarrow> int \<Rightarrow> int \<times> 'o) \<Rightarrow> nat \<Rightarrow> int \<Rightarrow> fdctx option \<Rightarrow> 'o \<Rightarrow> int \<times> fdctx option \<times> 'o" where
  "hook_ioctl_fionbio ioctl_f fd arg ctx os =
     (let ctx' = (if managed_socket ctx then Some ((the ctx)\<lparr>m_userNonblock := (arg \<noteq> 0)\<rparr>) else ctx);
          (r, os1) = ioctl_f os fd arg
      in (r, ctx', os1))"

text \<open>\<open>setsockopt\<close> with \<open>SO_RCVTIMEO\<close> or \<open>SO_SNDTIMEO\<close>: the part that changes the context.\<close>

definition hook_timeo :: "bool \<Rightarrow> bool \<Rightarrow> int \<Rightarrow> int \<Rightarrow> fdctx option \<Rightarrow> fdctx option" where
  "hook_timeo hook_enable rcv tv_sec tv_usec ctx =
     (if \<not> hook_enable then ctx
      else map_option (setTimeout rcv (word_of_int (tv_sec * 1000 + tv_usec div 1000))) ctx)"

text \<open>\<open>socket\<close> and \<open>accept\<close> enter the new descriptor in the table.\<close>

definition hook_socket ::
  "'o fcntl_f \<Rightarrow> bool \<Rightarrow> int \<Rightarrow> bool option \<Rightarrow> fdmgr \<Rightarrow> 'o \<Rightarrow> (int \<times> fdmgr \<times> 'o) res" where
  "hook_socket fcntl_f hook_enable fd st ds os =
     (if \<not> hook_enable \<or> fd = - 1 then Inr (fd, ds, os)
      else rbind (FdManager_get fcntl_f fd True st ds os) (\<lambda>(_, ds1, os1). Inr (fd, ds1, os1)))"

definition hook_accept ::
  "'o fcntl_f \<Rightarrow> int \<Rightarrow> bool option \<Rightarrow> fdmgr \<Rightarrow> 'o \<Rightarrow> (int \<times> fdmgr \<times> 'o) res" where
  "hook_accept fcntl_f fd st ds os =
     (if fd \<ge> 0 then rbind (FdManager_get fcntl_f fd True st ds os) (\<lambda>(_, ds1, os1). Inr (fd, ds1, os1))
      else Inr (fd, ds, os))"

text \<open>\<open>close\<close>: wake every waiter of the descriptor, drop its context, then close it.\<close>

definition hook_close ::
  "'k epoll_ctl \<Rightarrow> bool \<Rightarrow> int \<Rightarrow> fdmgr \<Rightarrow> ('f, 'k) iom option \<Rightarrow> (fdmgr \<times> ('f, 'k) iom option) res" where
  "hook_close ctl hook_enable fd ds iom =
     (if \<not> hook_enable then Inr (ds, iom)
      else rbind (FdManager_lookup fd ds) (\<lambda>ctx.
        if ctx = None then Inr (ds, iom)
        else rbind (case iom of None \<Rightarrow> Inr None
                    | Some s \<Rightarrow> rbind (cancelAll ctl fd s) (\<lambda>(_, s'). Inr (Some s'))) (\<lambda>iom'.
             rbind (FdManager_del fd ds) (\<lambda>ds'. Inr (ds', iom')))))"

subsection \<open>The table of descriptors behaves like a map\<close>

lemma get_creates:
  assumes "0 \<le> fd" "64 \<le> length ds"
  shows "\<exists>c ds' os'. FdManager_get fcntl_f fd True st ds os = Inr (Some c, ds', os') \<and>
    FdManager_lookup fd ds' = Inr (Some c) \<and> 64 \<le> length ds' \<and>
    (\<forall>fd'. 0 \<le> fd' \<and> fd' \<noteq> fd \<longrightarrow> FdManager_lookup fd' ds' = FdManager_lookup fd' ds)"
proof (cases "fd < int (length ds) \<and> ds ! nat fd \<noteq> None")
  case True
  then show ?thesis using assms by (auto simp: FdManager_get_def FdManager_lookup_def)
next
  case False
  obtain c os1 where c: "new_FdCtx fcntl_f (nat fd) st os = (c, os1)" by force
  define ds1 where "ds1 = (if int (length ds) \<le> fd then datas_resize (nat (fd * 3 div 2)) ds else ds)"
  have big: "fd < fd * 3 div 2" if "int (length ds) \<le> fd" using that assms by linarith
  have l: "nat fd < length ds1" "length ds \<le> length ds1"
    using big assms by (auto simp: ds1_def datas_resize_def)
  have nth: "FdManager_lookup fd' ds1 = FdManager_lookup fd' ds" if "0 \<le> fd'" for fd'
    using that big by (auto simp: ds1_def datas_resize_def FdManager_lookup_def nth_append)
  have "FdManager_get fcntl_f fd True st ds os = Inr (Some c, ds1[nat fd := Some c], os1)"
    using False assms c l(1) by (auto simp: FdManager_get_def ds1_def Let_def)
  moreover have "FdManager_lookup fd (ds1[nat fd := Some c]) = Inr (Some c)"
    using l(1) assms by (auto simp: FdManager_lookup_def)
  moreover have "FdManager_lookup fd' (ds1[nat fd := Some c]) = FdManager_lookup fd' ds"
    if "0 \<le> fd'" "fd' \<noteq> fd" for fd'
    using nth [OF that(1)] that assms by (auto simp: FdManager_lookup_def nth_list_update)
  ultimately show ?thesis using l assms by auto
qed

lemma del_removes:
  assumes "0 \<le> fd"
  shows "\<exists>ds'. FdManager_del fd ds = Inr ds' \<and> FdManager_lookup fd ds' = Inr None \<and> length ds' = length ds \<and>
    (\<forall>fd'. 0 \<le> fd' \<and> fd' \<noteq> fd \<longrightarrow> FdManager_lookup fd' ds' = FdManager_lookup fd' ds)"
  using assms by (auto simp: FdManager_del_def FdManager_lookup_def nth_list_update)

subsection \<open>Properties of the hooks\<close>

definition timers_added :: "io_act list \<Rightarrow> nat" where
  "timers_added as = length (filter (\<lambda>a. case a of AddTimer _ \<Rightarrow> True | _ \<Rightarrow> False) as)"

definition timers_cancelled :: "io_act list \<Rightarrow> nat" where
  "timers_cancelled as = length (filter (\<lambda>a. a = CancelTimer) as)"

lemma timers_simps [simp]:
  "timers_added [] = 0" "timers_added (xs @ ys) = timers_added xs + timers_added ys"
  "timers_added (a # xs) = (case a of AddTimer _ \<Rightarrow> 1 | _ \<Rightarrow> 0) + timers_added xs"
  "timers_cancelled [] = 0" "timers_cancelled (xs @ ys) = timers_cancelled xs + timers_cancelled ys"
  "timers_cancelled (a # xs) = (if a = CancelTimer then 1 else 0) + timers_cancelled xs"
  by (simp_all add: timers_added_def timers_cancelled_def split: io_act.split)

lemma io_retry_spec:
  "list_all (\<lambda>w. fst w = 0 \<and> (snd w = 0 \<or> snd w = ETIMEDOUT)) waits \<Longrightarrow>
   io_retry ev to calls waits = (Some (n, e), as) \<Longrightarrow>
   timers_added as = timers_cancelled as \<and> (to = - 1 \<longrightarrow> timers_added as = 0) \<and>
   ((n, e) = (- 1, ETIMEDOUT) \<or> (n, e) \<in> set calls \<and> \<not> (n = - 1 \<and> (e = EINTR \<or> e = EAGAIN)))"
proof (induction calls arbitrary: waits as)
  case (Cons mf calls)
  obtain m f where mf: "mf = (m, f)" by force
  consider (intr) "m = - 1" "f = EINTR" | (again) "m = - 1" "f = EAGAIN"
    | (other) "\<not> (m = - 1 \<and> (f = EINTR \<or> f = EAGAIN))" by blast
  then show ?case
  proof cases
    case intr
    obtain r bs where r: "io_retry ev to calls waits = (r, bs)" by force
    then show ?thesis using Cons.IH [OF Cons.prems(1), of bs] Cons.prems(2) intr mf by auto
  next
    case again
    show ?thesis
    proof (cases waits)
      case Nil
      then show ?thesis using again Cons.prems(2) mf by simp
    next
      case wc: (Cons w ws)
      obtain rt c where w: "w = (rt, c)" by force
      have rt: "rt = 0" "c = 0 \<or> c = ETIMEDOUT"
        and ws: "list_all (\<lambda>w. fst w = 0 \<and> (snd w = 0 \<or> snd w = ETIMEDOUT)) ws"
        using Cons.prems(1) wc w by auto
      obtain r bs where r: "io_retry ev to calls ws = (r, bs)" by force
      show ?thesis
        using Cons.IH [OF ws, of bs] Cons.prems(2) again wc w rt r mf by (cases "c = 0") auto
    qed
  next
    case other
    then show ?thesis using Cons.prems(2) mf by auto
  qed
qed simp

lemma bit_nonblock: "bit (O_NONBLOCK) n \<longleftrightarrow> n = 11"
proof -
  have e: "(0x800 :: u32) = 2 ^ 11" by simp
  show ?thesis unfolding e bit_exp_iff by auto
qed

lemma nonblock_flag:
  fixes x :: u32
  shows "(x OR O_NONBLOCK) AND O_NONBLOCK = O_NONBLOCK"
    and "x AND O_NONBLOCK = 0 \<Longrightarrow> (x OR O_NONBLOCK) AND NOT O_NONBLOCK = x"
    and "x AND O_NONBLOCK \<noteq> 0 \<Longrightarrow> x OR O_NONBLOCK = x"
proof -
  show "(x OR O_NONBLOCK) AND O_NONBLOCK = O_NONBLOCK"
    by (rule bit_word_eqI) (simp only: bit_or_iff bit_and_iff, blast)
  have z: "x AND O_NONBLOCK = 0 \<longleftrightarrow> \<not> bit x 11"
  proof
    assume "x AND O_NONBLOCK = 0"
    then have "\<not> bit (x AND O_NONBLOCK) 11" by simp
    then show "\<not> bit x 11" unfolding bit_and_iff bit_nonblock by simp
  next
    assume "\<not> bit x 11"
    then show "x AND O_NONBLOCK = 0"
      by (intro bit_word_eqI) (simp only: bit_and_iff bit_nonblock, auto)
  qed
  show "(x OR O_NONBLOCK) AND NOT O_NONBLOCK = x" if "x AND O_NONBLOCK = 0"
    by (rule bit_word_eqI)
       (use that z in \<open>auto simp only: bit_or_iff bit_and_iff bit_not_iff bit_nonblock possible_bit_word\<close>)
  show "x OR O_NONBLOCK = x" if "x AND O_NONBLOCK \<noteq> 0"
    by (rule bit_word_eqI) (use that z in \<open>auto simp only: bit_or_iff bit_nonblock\<close>)
qed



text \<open>
  \<open>fcntl(F_SETFL)\<close> on a managed socket keeps the socket non-blocking for the
  system, whatever the caller asks for, and \<open>fcntl(F_GETFL)\<close> shows the caller exactly
  the flags it set.
\<close>

theorem hook_fcntl_views:
  assumes "fcntl_laws fcntl_f flags_of" "managed_socket (Some c)" "m_sysNonblock c"
    "hook_setfl fcntl_f fd arg (Some c) os = (r, ctx', os')"
  shows "flags_of os' fd AND O_NONBLOCK \<noteq> 0 \<and> fst (hook_getfl fcntl_f fd ctx' os') = arg"
proof -
  let ?c = "c\<lparr>m_userNonblock := (arg AND O_NONBLOCK \<noteq> 0)\<rparr>"
  have c: "ctx' = Some ?c" "flags_of os' = (flags_of os)(fd := arg OR O_NONBLOCK)"
    using assms by (auto simp: hook_setfl_def fcntl_laws_def managed_socket_def split: prod.splits)
      (metis snd_conv)+
  have m: "managed_socket ctx'" using assms(2) c(1) by (simp add: managed_socket_def)
  have get: "fcntl_f os' fd F_GETFL 0 = (arg OR O_NONBLOCK, os')"
    using assms(1) c(2) by (simp add: fcntl_laws_def)
  show ?thesis
    using m get c nonblock_flag [of arg] by (auto simp: hook_getfl_def simp del: bit_or_iff)
qed

definition demo_fcntl :: "(nat \<Rightarrow> u32) fcntl_f" where
  "demo_fcntl os fd cmd a = (case cmd of F_GETFL \<Rightarrow> (os fd, os) | F_SETFL \<Rightarrow> (0, os(fd := a)))"

lemma demo_fcntl_laws: "fcntl_laws demo_fcntl (\<lambda>os. os)"
  by (simp add: fcntl_laws_def demo_fcntl_def)

theorem hook_fcntl_views_witness:
  "\<exists>ctx' os'. fst (hook_getfl demo_fcntl 3 ctx' os') = 2 \<and> os' 3 AND O_NONBLOCK \<noteq> 0 \<and>
     hook_setfl demo_fcntl 3 2 (Some \<lparr>m_isInit = True, m_isSocket = True, m_sysNonblock = True, m_userNonblock = True,
      m_isClosed = False, m_recvTimeout = - 1, m_sendTimeout = - 1\<rparr>) (\<lambda>_. 0) = (0, ctx', os')"
proof -
  let ?c = "\<lparr>m_isInit = True, m_isSocket = True, m_sysNonblock = True, m_userNonblock = True,
      m_isClosed = False, m_recvTimeout = - 1, m_sendTimeout = - 1\<rparr>"
  have m: "managed_socket (Some ?c)" "m_sysNonblock ?c" by (simp_all add: managed_socket_def)
  obtain r ctx' os' where s: "hook_setfl demo_fcntl 3 2 (Some ?c) (\<lambda>_. 0) = (r, ctx', os')" by (metis surj_pair)
  moreover have "r = 0" using s by (simp add: hook_setfl_def demo_fcntl_def m Let_def split: prod.splits)
  ultimately show ?thesis using hook_fcntl_views [OF demo_fcntl_laws m s] by blast
qed

text \<open>
  The hooked \<open>sleep\<close> sleeps the right time only up to 4294967 seconds: the
  product with 1000 is computed in 32 bits.
\<close>

theorem hook_sleep_period:
  "unat (sleep_ms s) = unat s * 1000 mod 2 ^ 32 \<and> (unat (sleep_ms s) = unat s * 1000 \<longleftrightarrow> unat s \<le> 4294967)"
proof -
  have u: "unat (sleep_ms s) = unat s * 1000 mod 2 ^ 32"
    unfolding sleep_ms_def by (simp add: unsigned_ucast_eq unat_word_ariths take_bit_eq_mod)
  moreover have "unat s * 1000 mod 2 ^ 32 = unat s * 1000 \<longleftrightarrow> unat s * 1000 < 2 ^ 32"
    by (metis mod_less mod_less_divisor zero_less_numeral zero_less_power)
  ultimately show ?thesis by auto
qed

end
