(* ===== verification/Civan_Ragel.thy ===== *)
theory Civan_Ragel
  imports Civan_Prelude
begin

section \<open>Machines in the form Ragel generates\<close>

text \<open>
  \<open>http11_parser.rl.cc\<close>, \<open>httpclient_parser.rl.cc\<close> and \<open>uri.rl.cc\<close> hold automata in the same
  goto form. A state \<open>case n\<close> tests the byte at \<open>p\<close>, a signed \<open>char\<close>, and jumps to \<open>st t\<close>,
  or to a label \<open>tr k\<close> that runs actions at \<open>p\<close> before it jumps to \<open>st t\<close>. There \<open>p\<close> is
  advanced, and at the end of the input the state is stored and the machine is left. \<open>st0\<close>
  is the error state: it leaves the machine with \<open>p\<close> on the byte that was refused. An action
  with \<open>fbreak\<close> advances \<open>p\<close>, stores the target and leaves the machine too.

  A jump is the list of actions and the target here; a machine is its step function, from the
  state and the byte to the jump, with the meaning of its actions on the parser. The lemmas
  are about every such machine: how a run composes, and the soundness of a typing of the
  states that the transitions respect.
\<close>

type_synonym 'a jump = "'a list \<times> nat"

abbreviation goto :: "nat \<Rightarrow> 'a jump" where
  "goto t \<equiv> ([], t)"

type_synonym 'a ragel_step = "nat \<Rightarrow> int \<Rightarrow> 'a jump"
type_synonym ('a, 's) ragel_act = "'a \<Rightarrow> nat \<Rightarrow> 's \<Rightarrow> 's \<times> bool"

text \<open>The value of a byte read through a \<open>const char *\<close>, which is signed on the target.\<close>

definition schar :: "u8 \<Rightarrow> int" where
  "schar c = (if c < 0x80 then uint c else uint c - 0x100)"

text \<open>The flag tells that an action has left the machine.\<close>

fun ragel_actions :: "('a, 's) ragel_act \<Rightarrow> 'a list \<Rightarrow> nat \<Rightarrow> 's \<Rightarrow> 's \<times> bool" where
  "ragel_actions act [] p s = (s, False)"
| "ragel_actions act (a # as) p s =
     (case act a p s of (s', stop) \<Rightarrow> if stop then (s', True) else ragel_actions act as p s')"

text \<open>The result is \<open>p\<close>, the state \<open>cs\<close> and the parser when the machine is left.\<close>

fun ragel_exec ::
  "'a ragel_step \<Rightarrow> ('a, 's) ragel_act \<Rightarrow> u8 list \<Rightarrow> nat \<Rightarrow> nat \<Rightarrow> 's \<Rightarrow> nat \<times> nat \<times> 's" where
  "ragel_exec step act [] p cs s = (p, cs, s)"
| "ragel_exec step act (ch # rest) p cs s =
     (case step cs (schar ch) of (acts, t) \<Rightarrow>
        if t = 0 then (p, 0, s)
        else case ragel_actions act acts p s of (s', stop) \<Rightarrow>
          if stop then (Suc p, t, s') else ragel_exec step act rest (Suc p) t s')"

subsection \<open>Bytes\<close>

lemma uint_u8_range: "0 \<le> uint (c :: u8)" "uint (c :: u8) < 256"
  using uint_range_size [of c] by (simp_all add: word_size)

lemma schar_sint: "schar c = sint c"
proof -
  have "uint c div 128 = (if uint c < 128 then 0 else 1)"
    using uint_u8_range [of c] by auto
  then have "bit (uint c) 7 \<longleftrightarrow> \<not> uint c < 128"
    by (simp add: bit_iff_odd)
  then show ?thesis
    using uint_u8_range [of c]
    by (simp add: schar_def word_less_def sint_uint signed_take_bit_eq_take_bit_minus take_bit_int_eq_self)
qed

lemma schar_bounds: "-128 \<le> schar c" "schar c \<le> 127"
  unfolding schar_sint using sint_range_size [of c] by (simp_all add: word_size)

lemma schar_ascii: "c < 0x80 \<Longrightarrow> schar c = uint c"
  by (simp add: schar_def)

lemma schar_range: "0 \<le> a \<Longrightarrow> b \<le> 127 \<Longrightarrow> a \<le> schar c \<and> schar c \<le> b \<longleftrightarrow> a \<le> uint c \<and> uint c \<le> b"
  using uint_u8_range [of c] by (auto simp: schar_def word_less_def)

subsection \<open>Runs\<close>

text \<open>
  A run that consumes its input without being left: the state and the parser behind it.
\<close>

fun ragel_run ::
  "'a ragel_step \<Rightarrow> ('a, 's) ragel_act \<Rightarrow> u8 list \<Rightarrow> nat \<Rightarrow> nat \<Rightarrow> 's \<Rightarrow> (nat \<times> 's) option" where
  "ragel_run step act [] p cs s = Some (cs, s)"
| "ragel_run step act (ch # rest) p cs s =
     (case step cs (schar ch) of (acts, t) \<Rightarrow>
        if t = 0 then None
        else case ragel_actions act acts p s of (s', stop) \<Rightarrow>
          if stop then None else ragel_run step act rest (Suc p) t s')"

lemma ragel_run_append:
  "ragel_run step act (xs @ ys) p cs s =
     (case ragel_run step act xs p cs s of None \<Rightarrow> None
      | Some (cs', s') \<Rightarrow> ragel_run step act ys (p + length xs) cs' s')"
proof (induction xs arbitrary: p cs s)
  case (Cons ch rest)
  then show ?case by (simp split: prod.split option.split)
qed simp

lemma ragel_exec_append:
  "ragel_run step act xs p cs s = Some (cs', s') \<Longrightarrow>
   ragel_exec step act (xs @ ys) p cs s = ragel_exec step act ys (p + length xs) cs' s'"
  by (induction xs arbitrary: p cs s) (auto split: prod.splits if_splits)

lemma ragel_exec_run:
  "ragel_run step act xs p cs s = Some (cs', s') \<Longrightarrow> ragel_exec step act xs p cs s = (p + length xs, cs', s')"
  using ragel_exec_append [where ys = "[]"] by simp

text \<open>A state that loops on every byte of a string without an action.\<close>

lemma ragel_run_loop:
  "(\<And>c. c \<in> set xs \<Longrightarrow> step cs (schar c) = goto cs) \<Longrightarrow> cs \<noteq> 0 \<Longrightarrow>
   ragel_run step act xs p cs s = Some (cs, s)"
  by (induction xs arbitrary: p) simp_all

lemma ragel_run_Cons:
  "step cs (schar c) = (acts, t) \<Longrightarrow> t \<noteq> 0 \<Longrightarrow> ragel_actions act acts p s = (s', False) \<Longrightarrow>
   ragel_run step act (c # xs) p cs s = ragel_run step act xs (Suc p) t s'"
  by simp

text \<open>The machine reads no byte past the end and never moves back.\<close>

lemma ragel_exec_bounds:
  "ragel_exec step act xs p cs s = (p', cs', s') \<Longrightarrow> p \<le> p' \<and> p' \<le> p + length xs"
proof (induction xs arbitrary: p cs s)
  case (Cons ch rest)
  then show ?case
    by (fastforce split: prod.splits if_splits)
qed simp

text \<open>What no action changes is unchanged.\<close>

lemma ragel_actions_frame:
  "(\<And>a p s. f (fst (act a p s)) = f s) \<Longrightarrow> f (fst (ragel_actions act as p s)) = f s"
  by (induction as arbitrary: s) (simp_all split: prod.split, metis fst_conv)

lemma ragel_exec_frame:
  assumes "\<And>a p s. f (fst (act a p s)) = f s"
  shows "f (snd (snd (ragel_exec step act xs p cs s))) = f s"
proof (induction xs arbitrary: p cs s)
  case (Cons ch rest)
  obtain acts t where j: "step cs (schar ch) = (acts, t)" by fastforce
  obtain s1 stop where a: "ragel_actions act acts p s = (s1, stop)" by fastforce
  have "f s1 = f s" using ragel_actions_frame [of f act acts p s] assms a by simp
  with Cons j a show ?case by simp
qed simp

text \<open>Without an action that leaves the machine, it stops only at an error or at the end.\<close>

lemma ragel_exec_cases:
  assumes "ragel_exec step act xs p cs s = (p', cs', s')"
    and "\<And>acts t p s. (acts, t) \<in> range (\<lambda>(q, c). step q c) \<Longrightarrow> \<not> snd (ragel_actions act acts p s)"
  shows "cs' = 0 \<or> p' = p + length xs"
  using assms(1)
proof (induction xs arbitrary: p cs s)
  case (Cons ch rest)
  obtain acts t where j: "step cs (schar ch) = (acts, t)" by fastforce
  then have "(acts, t) \<in> range (\<lambda>(q, c). step q c)" by (metis (mono_tags) case_prod_conv rangeI)
  then have "\<not> snd (ragel_actions act acts p s)" by (rule assms(2))
  then show ?case using Cons j by (fastforce split: prod.splits if_splits)
qed simp

subsection \<open>Groups of states\<close>

text \<open>
  Where the automaton follows several readings of its input at once, the states fall into groups
  by what has been read: from every state of a group, every byte of a class leads to a state of
  another group, with one of a few lists of actions. Such facts are checked by evaluation.
\<close>

definition in_group :: "nat list \<Rightarrow> nat \<Rightarrow> bool" where
  "in_group ts t \<longleftrightarrow> t \<in> set ts"

definition ragel_lead :: "'a ragel_step \<Rightarrow> nat list \<Rightarrow> (int \<Rightarrow> bool) \<Rightarrow> 'a list list \<Rightarrow> nat list \<Rightarrow> bool" where
  "ragel_lead step qs ok actss ts \<longleftrightarrow>
     list_all (\<lambda>q. \<forall>c. ok c \<longrightarrow> (case step q c of (acts, t) \<Rightarrow> acts \<in> set actss \<and> in_group ts t)) qs"

lemma ragel_leadD:
  "ragel_lead step qs ok actss ts \<Longrightarrow> q \<in> set qs \<Longrightarrow> ok c \<Longrightarrow> \<exists>acts t. step q c = (acts, t) \<and> acts \<in> set actss \<and> t \<in> set ts"
  by (fastforce simp: ragel_lead_def list_all_iff in_group_def)

text \<open>Membership in a group by the number, and a group state by state.\<close>

lemma group_member: "ts = us \<Longrightarrow> list_all (in_group ts) us"
  by (simp add: list_all_iff in_group_def)

lemma group_each: "ts = us \<Longrightarrow> list_all P ts \<longleftrightarrow> list_all P us"
  by simp

lemma all_codes: "(\<forall>c. c \<in> set xs \<longrightarrow> P c) \<longleftrightarrow> list_all P xs"
  by (auto simp: list_all_iff)

lemma ragel_run_group:
  assumes "ragel_lead step qs ok [[]] qs" "0 \<notin> set qs"
  shows "q \<in> set qs \<Longrightarrow> list_all (\<lambda>c. ok (schar c)) xs \<Longrightarrow> \<exists>q'\<in>set qs. ragel_run step act xs p q s = Some (q', s)"
proof (induction xs arbitrary: p q)
  case (Cons c xs)
  then obtain t where t: "step q (schar c) = ([], t)" "t \<in> set qs"
    using ragel_leadD [OF assms(1), of q "schar c"] by auto
  then have "t \<noteq> 0" using assms(2) by metis
  then show ?case using Cons t by simp
qed simp

subsection \<open>Typed states\<close>

text \<open>
  A property of every state of a table, by its number; a property of every jump of a state is
  shown branch by branch.
\<close>

fun states_ok :: "(nat \<Rightarrow> 'x \<Rightarrow> bool) \<Rightarrow> nat \<Rightarrow> 'x list \<Rightarrow> bool" where
  "states_ok P n [] = True"
| "states_ok P n (x # xs) = (P n x \<and> states_ok P (Suc n) xs)"

lemma states_ok_nth: "states_ok P n xs \<Longrightarrow> i < length xs \<Longrightarrow> P (n + i) (xs ! i)"
proof (induction xs arbitrary: n i)
  case (Cons x xs)
  then show ?case by (cases i) fastforce+
qed simp

lemmas states_ok_simps = states_ok.simps One_nat_def [symmetric] Suc_1 Suc_numeral add_num_simps

text \<open>
  A typing gives every state what holds of the position and the parser whenever the machine
  is there. Where each transition, read at a position before the end, leads from the type of
  its source to the type of its target, the types hold along every execution.
\<close>

locale ragel_typed =
  fixes step :: "'a ragel_step"
    and act :: "('a, 's) ragel_act"
    and ty :: "nat \<Rightarrow> nat \<Rightarrow> 's \<Rightarrow> bool"
    and len :: nat
  assumes typed: "ty cs p s \<Longrightarrow> p < len \<Longrightarrow> step cs c = (acts, t) \<Longrightarrow> t \<noteq> 0 \<Longrightarrow>
    ty t (Suc p) (fst (ragel_actions act acts p s))"
begin

lemma run_typed:
  "ty cs p s \<Longrightarrow> p + length xs \<le> len \<Longrightarrow> ragel_run step act xs p cs s = Some (cs', s') \<Longrightarrow>
   ty cs' (p + length xs) s'"
proof (induction xs arbitrary: p cs s)
  case (Cons ch rest)
  obtain acts t where j: "step cs (schar ch) = (acts, t)" by fastforce
  obtain s1 stop where a: "ragel_actions act acts p s = (s1, stop)" by fastforce
  have "t \<noteq> 0" "\<not> stop" "ragel_run step act rest (Suc p) t s1 = Some (cs', s')"
    using Cons.prems(3) j a by (auto split: if_splits)
  with Cons.IH [of t "Suc p" s1] typed [OF Cons.prems(1) _ j] Cons.prems(2) a show ?case by simp
qed simp

text \<open>An error keeps the parser as the last state left it.\<close>

lemma exec_typed:
  "ty cs p s \<Longrightarrow> p + length xs \<le> len \<Longrightarrow> ragel_exec step act xs p cs s = (p', cs', s') \<Longrightarrow>
   (cs' \<noteq> 0 \<longrightarrow> ty cs' p' s') \<and> (\<exists>q. ty q p' s')"
proof (induction xs arbitrary: p cs s)
  case (Cons ch rest)
  obtain acts t where j: "step cs (schar ch) = (acts, t)" by fastforce
  obtain s1 stop where a: "ragel_actions act acts p s = (s1, stop)" by fastforce
  show ?case
  proof (cases "t = 0")
    case True
    then show ?thesis using Cons.prems j by auto
  next
    case False
    then have t1: "ty t (Suc p) s1" using typed [OF Cons.prems(1) _ j] Cons.prems(2) a by simp
    show ?thesis
    proof (cases stop)
      case True
      then show ?thesis using Cons.prems(3) j a False t1 by auto
    next
      case f: False
      then have "ragel_exec step act rest (Suc p) t s1 = (p', cs', s')"
        using Cons.prems(3) j a False by simp
      moreover have "Suc p + length rest \<le> len" using Cons.prems(2) by simp
      ultimately show ?thesis using Cons.IH [OF t1] by blast
    qed
  qed
qed auto

end

end
