(* ===== verification/Civan_Http11_Machine.thy ===== *)
theory Civan_Http11_Machine
  imports Civan_Ragel
begin

section \<open>The HTTP request automaton: \<open>civan/http/http11_parser.rl.cc\<close>\<close>

text \<open>
  The machine of \<open>http_parser_execute\<close>, label by label: \<open>http11_tr<k>\<close> is the label \<open>tr<k>\<close>,
  its actions in order and the state it jumps to, and \<open>http11_st<n>\<close> is the code at \<open>case <n>\<close>.
  The actions are named as in \<open>http11_parser.rl\<close>. \<open>r\<close> is \<open>parser->uri_relaxed\<close> and \<open>c\<close> is \<open>*p\<close>.
\<close>

named_theorems http11_code \<open>the labels of the request automaton\<close>

datatype http11_action =
    Mark | Start_field | Write_field | Start_value | Write_value | Request_method | Request_uri
  | Fragment | Start_query | Query_string | Http_version | Request_path | Done | Xml | Json

text \<open>
  \<open>_widec\<close>: the bytes \<open>^\<close>, \<open>{\<close> and \<open>}\<close>, allowed in a URI by a condition, are tested as
  numbers above 255 that depend on it.
\<close>

definition widec :: "bool \<Rightarrow> int \<Rightarrow> int" where
  "widec r c =
     (let wide = 128 + (c - -128) + (if r then 256 else 0) in
      if c < 123 then (if 94 \<le> c \<and> c \<le> 94 then wide else c)
      else if c > 123 then (if 125 \<le> c \<and> c \<le> 125 then wide else c)
      else wide)"

subsection \<open>Transitions with actions\<close>

definition http11_tr0 :: "http11_action jump" where [http11_code]:
  "http11_tr0 = ([Mark], 2)"

definition http11_tr2 :: "http11_action jump" where [http11_code]:
  "http11_tr2 = ([Mark], 194)"

definition http11_tr3 :: "http11_action jump" where [http11_code]:
  "http11_tr3 = ([Mark], 198)"

definition http11_tr4 :: "http11_action jump" where [http11_code]:
  "http11_tr4 = ([Request_method], 3)"

definition http11_tr6 :: "http11_action jump" where [http11_code]:
  "http11_tr6 = ([Mark, Request_path, Request_uri], 4)"

definition http11_tr7 :: "http11_action jump" where [http11_code]:
  "http11_tr7 = ([Mark], 19)"

definition http11_tr8 :: "http11_action jump" where [http11_code]:
  "http11_tr8 = ([Mark, Request_path, Request_uri], 20)"

definition http11_tr9 :: "http11_action jump" where [http11_code]:
  "http11_tr9 = ([Mark], 24)"

definition http11_tr10 :: "http11_action jump" where [http11_code]:
  "http11_tr10 = ([Mark], 33)"

definition http11_tr11 :: "http11_action jump" where [http11_code]:
  "http11_tr11 = ([Mark, Request_path], 29)"

definition http11_tr12 :: "http11_action jump" where [http11_code]:
  "http11_tr12 = ([Mark], 173)"

definition http11_tr13 :: "http11_action jump" where [http11_code]:
  "http11_tr13 = ([Mark], 5)"

definition http11_tr21 :: "http11_action jump" where [http11_code]:
  "http11_tr21 = ([Http_version], 13)"

definition http11_tr22 :: "http11_action jump" where [http11_code]:
  "http11_tr22 = ([Http_version], 17)"

definition http11_tr23 :: "http11_action jump" where [http11_code]:
  "http11_tr23 = ([Start_field], 14)"

definition http11_tr24 :: "http11_action jump" where [http11_code]:
  "http11_tr24 = ([Start_field, Done], 348)"

definition http11_tr25 :: "http11_action jump" where [http11_code]:
  "http11_tr25 = ([Start_field], 18)"

definition http11_tr27 :: "http11_action jump" where [http11_code]:
  "http11_tr27 = ([Write_field], 15)"

definition http11_tr28 :: "http11_action jump" where [http11_code]:
  "http11_tr28 = ([Start_value], 16)"

definition http11_tr29 :: "http11_action jump" where [http11_code]:
  "http11_tr29 = ([Start_value], 15)"

definition http11_tr30 :: "http11_action jump" where [http11_code]:
  "http11_tr30 = ([Start_value, Write_value], 13)"

definition http11_tr31 :: "http11_action jump" where [http11_code]:
  "http11_tr31 = ([Start_value, Write_value], 17)"

definition http11_tr33 :: "http11_action jump" where [http11_code]:
  "http11_tr33 = ([Write_value], 13)"

definition http11_tr34 :: "http11_action jump" where [http11_code]:
  "http11_tr34 = ([Write_value], 17)"

definition http11_tr36 :: "http11_action jump" where [http11_code]:
  "http11_tr36 = ([Done], 348)"

definition http11_tr37 :: "http11_action jump" where [http11_code]:
  "http11_tr37 = ([Request_path, Request_uri], 4)"

definition http11_tr39 :: "http11_action jump" where [http11_code]:
  "http11_tr39 = ([Request_path, Request_uri], 20)"

definition http11_tr42 :: "http11_action jump" where [http11_code]:
  "http11_tr42 = ([Request_path], 29)"

definition http11_tr43 :: "http11_action jump" where [http11_code]:
  "http11_tr43 = ([Mark], 21)"

definition http11_tr44 :: "http11_action jump" where [http11_code]:
  "http11_tr44 = ([Mark, Fragment], 4)"

definition http11_tr45 :: "http11_action jump" where [http11_code]:
  "http11_tr45 = ([Mark], 22)"

definition http11_tr47 :: "http11_action jump" where [http11_code]:
  "http11_tr47 = ([Fragment], 4)"

definition http11_tr53 :: "http11_action jump" where [http11_code]:
  "http11_tr53 = ([Start_query], 30)"

definition http11_tr54 :: "http11_action jump" where [http11_code]:
  "http11_tr54 = ([Start_query, Query_string, Request_uri], 4)"

definition http11_tr55 :: "http11_action jump" where [http11_code]:
  "http11_tr55 = ([Start_query, Query_string, Request_uri], 20)"

definition http11_tr56 :: "http11_action jump" where [http11_code]:
  "http11_tr56 = ([Start_query], 31)"

definition http11_tr58 :: "http11_action jump" where [http11_code]:
  "http11_tr58 = ([Query_string, Request_uri], 4)"

definition http11_tr59 :: "http11_action jump" where [http11_code]:
  "http11_tr59 = ([Query_string, Request_uri], 20)"

definition http11_tr203 :: "http11_action jump" where [http11_code]:
  "http11_tr203 = ([Mark], 26)"

definition http11_tr204 :: "http11_action jump" where [http11_code]:
  "http11_tr204 = ([Mark], 27)"

definition http11_tr224 :: "http11_action jump" where [http11_code]:
  "http11_tr224 = ([Request_path], 196)"

definition http11_tr227 :: "http11_action jump" where [http11_code]:
  "http11_tr227 = ([Xml, Done], 349)"

definition http11_tr228 :: "http11_action jump" where [http11_code]:
  "http11_tr228 = ([Request_path], 199)"

definition http11_tr232 :: "http11_action jump" where [http11_code]:
  "http11_tr232 = ([Mark], 200)"

definition http11_tr235 :: "http11_action jump" where [http11_code]:
  "http11_tr235 = ([Json, Done], 349)"

subsection \<open>States\<close>

definition http11_st1 :: "bool \<Rightarrow> int \<Rightarrow> http11_action jump" where [http11_code]:
  "http11_st1 r c =
     (if c = 60 then http11_tr2 else if c = 64 then http11_tr3 else
      if c > 57 then (if 65 \<le> c \<and> c \<le> 90 then http11_tr0 else goto 0)
      else if c \<ge> 48 then http11_tr0 else goto 0)"

definition http11_st2 :: "bool \<Rightarrow> int \<Rightarrow> http11_action jump" where [http11_code]:
  "http11_st2 r c =
     (if c = 32 then http11_tr4 else
      if c > 57 then (if 65 \<le> c \<and> c \<le> 90 then goto 175 else goto 0)
      else if c \<ge> 48 then goto 175 else goto 0)"

definition http11_st3 :: "bool \<Rightarrow> int \<Rightarrow> http11_action jump" where [http11_code]:
  "http11_st3 r c =
     (let w = widec r c in
      if w = 32 then http11_tr6 else if w = 33 then http11_tr7 else
      if w = 35 then http11_tr8 else if w = 37 then http11_tr9 else
      if w = 47 then http11_tr10 else if w = 59 then http11_tr7 else
      if w = 61 then http11_tr7 else if w = 63 then http11_tr11 else
      if w = 64 then http11_tr7 else if w = 95 then http11_tr7 else
      if w = 126 then http11_tr7 else if w = 606 then http11_tr7 else
      if w = 635 then http11_tr7 else if w = 637 then http11_tr7 else
      if w < 65 then (if 36 \<le> w \<and> w \<le> 57 then http11_tr7 else goto 0)
      else if w > 90 then (if 97 \<le> w \<and> w \<le> 122 then http11_tr12 else goto 0)
      else http11_tr12)"

definition http11_st4 :: "bool \<Rightarrow> int \<Rightarrow> http11_action jump" where [http11_code]:
  "http11_st4 r c =
     (if c = 72 then http11_tr13 else goto 0)"

definition http11_st5 :: "bool \<Rightarrow> int \<Rightarrow> http11_action jump" where [http11_code]:
  "http11_st5 r c =
     (if c = 84 then goto 6 else goto 0)"

definition http11_st6 :: "bool \<Rightarrow> int \<Rightarrow> http11_action jump" where [http11_code]:
  "http11_st6 r c =
     (if c = 84 then goto 7 else goto 0)"

definition http11_st7 :: "bool \<Rightarrow> int \<Rightarrow> http11_action jump" where [http11_code]:
  "http11_st7 r c =
     (if c = 80 then goto 8 else goto 0)"

definition http11_st8 :: "bool \<Rightarrow> int \<Rightarrow> http11_action jump" where [http11_code]:
  "http11_st8 r c =
     (if c = 47 then goto 9 else goto 0)"

definition http11_st9 :: "bool \<Rightarrow> int \<Rightarrow> http11_action jump" where [http11_code]:
  "http11_st9 r c =
     (if c = 49 then goto 10 else goto 0)"

definition http11_st10 :: "bool \<Rightarrow> int \<Rightarrow> http11_action jump" where [http11_code]:
  "http11_st10 r c =
     (if c = 46 then goto 11 else goto 0)"

definition http11_st11 :: "bool \<Rightarrow> int \<Rightarrow> http11_action jump" where [http11_code]:
  "http11_st11 r c =
     (if 48 \<le> c \<and> c \<le> 49 then goto 12 else goto 0)"

definition http11_st12 :: "bool \<Rightarrow> int \<Rightarrow> http11_action jump" where [http11_code]:
  "http11_st12 r c =
     (if c = 10 then http11_tr21 else if c = 13 then http11_tr22 else goto 0)"

definition http11_st13 :: "bool \<Rightarrow> int \<Rightarrow> http11_action jump" where [http11_code]:
  "http11_st13 r c =
     (if c = 10 then http11_tr24 else if c = 13 then http11_tr25 else
      if c = 33 then http11_tr23 else if c = 124 then http11_tr23 else
      if c = 126 then http11_tr23 else
      if c < 42 then (if c < 11 then (if 1 \<le> c \<and> c \<le> 8 then http11_tr23 else goto 0)
        else if c > 31 then (if 35 \<le> c \<and> c \<le> 39 then http11_tr23 else goto 0)
        else http11_tr23)
      else if c > 43 then (if c < 48 then (if 45 \<le> c \<and> c \<le> 46 then http11_tr23 else goto 0)
        else if c > 57 then (if c > 90 then (if 94 \<le> c \<and> c \<le> 122 then http11_tr23 else goto 0)
          else if c \<ge> 65 then http11_tr23 else goto 0)
        else http11_tr23)
      else http11_tr23)"

definition http11_st14 :: "bool \<Rightarrow> int \<Rightarrow> http11_action jump" where [http11_code]:
  "http11_st14 r c =
     (if c = 33 then goto 14 else if c = 58 then http11_tr27 else if c = 124 then goto 14 else
      if c = 126 then goto 14 else
      if c < 42 then (if c < 10 then (if 1 \<le> c \<and> c \<le> 8 then goto 14 else goto 0)
        else if c > 31 then (if 35 \<le> c \<and> c \<le> 39 then goto 14 else goto 0) else goto 14)
      else if c > 43 then (if c < 48 then (if 45 \<le> c \<and> c \<le> 46 then goto 14 else goto 0)
        else if c > 57 then (if c > 90 then (if 94 \<le> c \<and> c \<le> 122 then goto 14 else goto 0)
          else if c \<ge> 65 then goto 14 else goto 0)
        else goto 14)
      else goto 14)"

definition http11_st15 :: "bool \<Rightarrow> int \<Rightarrow> http11_action jump" where [http11_code]:
  "http11_st15 r c =
     (if c = 0 then goto 0 else if c = 9 then http11_tr29 else if c = 10 then http11_tr30 else
      if c = 13 then http11_tr31 else if c = 32 then http11_tr29 else
      if c = 127 then goto 0 else http11_tr28)"

definition http11_st16 :: "bool \<Rightarrow> int \<Rightarrow> http11_action jump" where [http11_code]:
  "http11_st16 r c =
     (if c = 0 then goto 0 else if c = 10 then http11_tr33 else if c = 13 then http11_tr34 else
      if c = 127 then goto 0 else goto 16)"

definition http11_st17 :: "bool \<Rightarrow> int \<Rightarrow> http11_action jump" where [http11_code]:
  "http11_st17 r c =
     (if c = 10 then goto 13 else goto 0)"

definition http11_st18 :: "bool \<Rightarrow> int \<Rightarrow> http11_action jump" where [http11_code]:
  "http11_st18 r c =
     (if c = 10 then http11_tr36 else if c = 33 then goto 14 else
      if c = 58 then http11_tr27 else if c = 124 then goto 14 else if c = 126 then goto 14 else
      if c < 42 then (if c < 11 then (if 1 \<le> c \<and> c \<le> 8 then goto 14 else goto 0)
        else if c > 31 then (if 35 \<le> c \<and> c \<le> 39 then goto 14 else goto 0) else goto 14)
      else if c > 43 then (if c < 48 then (if 45 \<le> c \<and> c \<le> 46 then goto 14 else goto 0)
        else if c > 57 then (if c > 90 then (if 94 \<le> c \<and> c \<le> 122 then goto 14 else goto 0)
          else if c \<ge> 65 then goto 14 else goto 0)
        else goto 14)
      else goto 14)"

definition http11_st19 :: "bool \<Rightarrow> int \<Rightarrow> http11_action jump" where [http11_code]:
  "http11_st19 r c =
     (let w = widec r c in
      if w = 32 then http11_tr37 else if w = 33 then goto 19 else
      if w = 35 then http11_tr39 else if w = 37 then goto 24 else if w = 47 then goto 26 else
      if w = 59 then goto 19 else if w = 61 then goto 19 else if w = 63 then http11_tr42 else
      if w = 95 then goto 19 else if w = 126 then goto 19 else if w = 606 then goto 19 else
      if w = 635 then goto 19 else if w = 637 then goto 19 else
      if w < 64 then (if 36 \<le> w \<and> w \<le> 57 then goto 19 else goto 0)
      else if w > 90 then (if 97 \<le> w \<and> w \<le> 122 then goto 19 else goto 0) else goto 19)"

definition http11_st20 :: "bool \<Rightarrow> int \<Rightarrow> http11_action jump" where [http11_code]:
  "http11_st20 r c =
     (let w = widec r c in
      if w = 32 then http11_tr44 else if w = 33 then http11_tr43 else
      if w = 37 then http11_tr45 else if w = 61 then http11_tr43 else
      if w = 95 then http11_tr43 else if w = 126 then http11_tr43 else
      if w = 606 then http11_tr43 else if w = 635 then http11_tr43 else
      if w = 637 then http11_tr43 else
      if w < 36 then (if w \<le> -1 then http11_tr43 else goto 0)
      else if w > 59 then (if w > 90 then (if 97 \<le> w \<and> w \<le> 122 then http11_tr43 else goto 0)
        else if w \<ge> 63 then http11_tr43 else goto 0)
      else http11_tr43)"

definition http11_st21 :: "bool \<Rightarrow> int \<Rightarrow> http11_action jump" where [http11_code]:
  "http11_st21 r c =
     (let w = widec r c in
      if w = 32 then http11_tr47 else if w = 33 then goto 21 else if w = 37 then goto 22 else
      if w = 61 then goto 21 else if w = 95 then goto 21 else if w = 126 then goto 21 else
      if w = 606 then goto 21 else if w = 635 then goto 21 else if w = 637 then goto 21 else
      if w < 36 then (if w \<le> -1 then goto 21 else goto 0)
      else if w > 59 then (if w > 90 then (if 97 \<le> w \<and> w \<le> 122 then goto 21 else goto 0)
        else if w \<ge> 63 then goto 21 else goto 0)
      else goto 21)"

definition http11_st22 :: "bool \<Rightarrow> int \<Rightarrow> http11_action jump" where [http11_code]:
  "http11_st22 r c =
     (if c < 65 then (if 48 \<le> c \<and> c \<le> 57 then goto 23 else goto 0)
      else if c > 70 then (if 97 \<le> c \<and> c \<le> 102 then goto 23 else goto 0) else goto 23)"

definition http11_st23 :: "bool \<Rightarrow> int \<Rightarrow> http11_action jump" where [http11_code]:
  "http11_st23 r c =
     (if c < 65 then (if 48 \<le> c \<and> c \<le> 57 then goto 21 else goto 0)
      else if c > 70 then (if 97 \<le> c \<and> c \<le> 102 then goto 21 else goto 0) else goto 21)"

definition http11_st24 :: "bool \<Rightarrow> int \<Rightarrow> http11_action jump" where [http11_code]:
  "http11_st24 r c =
     (if c < 65 then (if 48 \<le> c \<and> c \<le> 57 then goto 25 else goto 0)
      else if c > 70 then (if 97 \<le> c \<and> c \<le> 102 then goto 25 else goto 0) else goto 25)"

definition http11_st25 :: "bool \<Rightarrow> int \<Rightarrow> http11_action jump" where [http11_code]:
  "http11_st25 r c =
     (if c < 65 then (if 48 \<le> c \<and> c \<le> 57 then goto 19 else goto 0)
      else if c > 70 then (if 97 \<le> c \<and> c \<le> 102 then goto 19 else goto 0) else goto 19)"

definition http11_st26 :: "bool \<Rightarrow> int \<Rightarrow> http11_action jump" where [http11_code]:
  "http11_st26 r c =
     (let w = widec r c in
      if w = 32 then http11_tr37 else if w = 33 then goto 26 else
      if w = 35 then http11_tr39 else if w = 37 then goto 27 else if w = 61 then goto 26 else
      if w = 63 then http11_tr42 else if w = 95 then goto 26 else if w = 126 then goto 26 else
      if w = 606 then goto 26 else if w = 635 then goto 26 else if w = 637 then goto 26 else
      if w < 36 then (if w \<le> -1 then goto 26 else goto 0)
      else if w > 59 then (if w > 90 then (if 97 \<le> w \<and> w \<le> 122 then goto 26 else goto 0)
        else if w \<ge> 64 then goto 26 else goto 0)
      else goto 26)"

definition http11_st27 :: "bool \<Rightarrow> int \<Rightarrow> http11_action jump" where [http11_code]:
  "http11_st27 r c =
     (if c < 65 then (if 48 \<le> c \<and> c \<le> 57 then goto 28 else goto 0)
      else if c > 70 then (if 97 \<le> c \<and> c \<le> 102 then goto 28 else goto 0) else goto 28)"

definition http11_st28 :: "bool \<Rightarrow> int \<Rightarrow> http11_action jump" where [http11_code]:
  "http11_st28 r c =
     (if c < 65 then (if 48 \<le> c \<and> c \<le> 57 then goto 26 else goto 0)
      else if c > 70 then (if 97 \<le> c \<and> c \<le> 102 then goto 26 else goto 0) else goto 26)"

definition http11_st29 :: "bool \<Rightarrow> int \<Rightarrow> http11_action jump" where [http11_code]:
  "http11_st29 r c =
     (let w = widec r c in
      if w = 32 then http11_tr54 else if w = 33 then http11_tr53 else
      if w = 35 then http11_tr55 else if w = 37 then http11_tr56 else
      if w = 61 then http11_tr53 else if w = 95 then http11_tr53 else
      if w = 126 then http11_tr53 else if w = 606 then http11_tr53 else
      if w = 635 then http11_tr53 else if w = 637 then http11_tr53 else
      if w < 36 then (if w \<le> -1 then http11_tr53 else goto 0)
      else if w > 59 then (if w > 90 then (if 97 \<le> w \<and> w \<le> 122 then http11_tr53 else goto 0)
        else if w \<ge> 63 then http11_tr53 else goto 0)
      else http11_tr53)"

definition http11_st30 :: "bool \<Rightarrow> int \<Rightarrow> http11_action jump" where [http11_code]:
  "http11_st30 r c =
     (let w = widec r c in
      if w = 32 then http11_tr58 else if w = 33 then goto 30 else
      if w = 35 then http11_tr59 else if w = 37 then goto 31 else if w = 61 then goto 30 else
      if w = 95 then goto 30 else if w = 126 then goto 30 else if w = 606 then goto 30 else
      if w = 635 then goto 30 else if w = 637 then goto 30 else
      if w < 36 then (if w \<le> -1 then goto 30 else goto 0)
      else if w > 59 then (if w > 90 then (if 97 \<le> w \<and> w \<le> 122 then goto 30 else goto 0)
        else if w \<ge> 63 then goto 30 else goto 0)
      else goto 30)"

definition http11_st31 :: "bool \<Rightarrow> int \<Rightarrow> http11_action jump" where [http11_code]:
  "http11_st31 r c =
     (if c < 65 then (if 48 \<le> c \<and> c \<le> 57 then goto 32 else goto 0)
      else if c > 70 then (if 97 \<le> c \<and> c \<le> 102 then goto 32 else goto 0) else goto 32)"

definition http11_st32 :: "bool \<Rightarrow> int \<Rightarrow> http11_action jump" where [http11_code]:
  "http11_st32 r c =
     (if c < 65 then (if 48 \<le> c \<and> c \<le> 57 then goto 30 else goto 0)
      else if c > 70 then (if 97 \<le> c \<and> c \<le> 102 then goto 30 else goto 0) else goto 30)"

definition http11_st33 :: "bool \<Rightarrow> int \<Rightarrow> http11_action jump" where [http11_code]:
  "http11_st33 r c =
     (let w = widec r c in
      if w = 32 then http11_tr37 else if w = 33 then goto 26 else
      if w = 35 then http11_tr39 else if w = 37 then goto 27 else if w = 47 then goto 34 else
      if w = 61 then goto 26 else if w = 63 then http11_tr42 else if w = 95 then goto 26 else
      if w = 126 then goto 26 else if w = 606 then goto 26 else if w = 635 then goto 26 else
      if w = 637 then goto 26 else
      if w < 36 then (if w \<le> -1 then goto 26 else goto 0)
      else if w > 59 then (if w > 90 then (if 97 \<le> w \<and> w \<le> 122 then goto 26 else goto 0)
        else if w \<ge> 64 then goto 26 else goto 0)
      else goto 26)"

definition http11_st34 :: "bool \<Rightarrow> int \<Rightarrow> http11_action jump" where [http11_code]:
  "http11_st34 r c =
     (let w = widec r c in
      if w = 32 then http11_tr37 else if w = 33 then goto 35 else
      if w = 35 then http11_tr39 else if w = 37 then goto 36 else if w = 47 then goto 26 else
      if w = 58 then goto 38 else if w = 61 then goto 35 else if w = 63 then http11_tr42 else
      if w = 64 then goto 42 else if w = 91 then goto 47 else if w = 95 then goto 35 else
      if w = 126 then goto 35 else if w = 606 then goto 35 else if w = 635 then goto 35 else
      if w = 637 then goto 35 else
      if w < 65 then (if 36 \<le> w \<and> w \<le> 59 then goto 35 else goto 0)
      else if w > 90 then (if 97 \<le> w \<and> w \<le> 122 then goto 35 else goto 0) else goto 35)"

definition http11_st35 :: "bool \<Rightarrow> int \<Rightarrow> http11_action jump" where [http11_code]:
  "http11_st35 r c =
     (let w = widec r c in
      if w = 32 then http11_tr37 else if w = 33 then goto 35 else
      if w = 35 then http11_tr39 else if w = 37 then goto 36 else if w = 47 then goto 26 else
      if w = 58 then goto 38 else if w = 61 then goto 35 else if w = 63 then http11_tr42 else
      if w = 64 then goto 42 else if w = 95 then goto 35 else if w = 126 then goto 35 else
      if w = 606 then goto 35 else if w = 635 then goto 35 else if w = 637 then goto 35 else
      if w < 65 then (if 36 \<le> w \<and> w \<le> 59 then goto 35 else goto 0)
      else if w > 90 then (if 97 \<le> w \<and> w \<le> 122 then goto 35 else goto 0) else goto 35)"

definition http11_st36 :: "bool \<Rightarrow> int \<Rightarrow> http11_action jump" where [http11_code]:
  "http11_st36 r c =
     (if c < 65 then (if 48 \<le> c \<and> c \<le> 57 then goto 37 else goto 0)
      else if c > 70 then (if 97 \<le> c \<and> c \<le> 102 then goto 37 else goto 0) else goto 37)"

definition http11_st37 :: "bool \<Rightarrow> int \<Rightarrow> http11_action jump" where [http11_code]:
  "http11_st37 r c =
     (if c < 65 then (if 48 \<le> c \<and> c \<le> 57 then goto 35 else goto 0)
      else if c > 70 then (if 97 \<le> c \<and> c \<le> 102 then goto 35 else goto 0) else goto 35)"

definition http11_st38 :: "bool \<Rightarrow> int \<Rightarrow> http11_action jump" where [http11_code]:
  "http11_st38 r c =
     (let w = widec r c in
      if w = 32 then http11_tr37 else if w = 33 then goto 39 else
      if w = 35 then http11_tr39 else if w = 37 then goto 40 else if w = 47 then goto 26 else
      if w = 61 then goto 39 else if w = 63 then http11_tr42 else if w = 64 then goto 42 else
      if w = 95 then goto 39 else if w = 126 then goto 39 else if w = 606 then goto 39 else
      if w = 635 then goto 39 else if w = 637 then goto 39 else
      if w < 58 then (if w > 46 then (if 48 \<le> w \<and> w \<le> 57 then goto 38 else goto 0)
        else if w \<ge> 36 then goto 39 else goto 0)
      else if w > 59 then (if w > 90 then (if 97 \<le> w \<and> w \<le> 122 then goto 39 else goto 0)
        else if w \<ge> 65 then goto 39 else goto 0)
      else goto 39)"

definition http11_st39 :: "bool \<Rightarrow> int \<Rightarrow> http11_action jump" where [http11_code]:
  "http11_st39 r c =
     (let w = widec r c in
      if w = 33 then goto 39 else if w = 37 then goto 40 else if w = 61 then goto 39 else
      if w = 64 then goto 42 else if w = 95 then goto 39 else if w = 126 then goto 39 else
      if w = 606 then goto 39 else if w = 635 then goto 39 else if w = 637 then goto 39 else
      if w < 48 then (if 36 \<le> w \<and> w \<le> 46 then goto 39 else goto 0)
      else if w > 59 then (if w > 90 then (if 97 \<le> w \<and> w \<le> 122 then goto 39 else goto 0)
        else if w \<ge> 65 then goto 39 else goto 0)
      else goto 39)"

definition http11_st40 :: "bool \<Rightarrow> int \<Rightarrow> http11_action jump" where [http11_code]:
  "http11_st40 r c =
     (if c < 65 then (if 48 \<le> c \<and> c \<le> 57 then goto 41 else goto 0)
      else if c > 70 then (if 97 \<le> c \<and> c \<le> 102 then goto 41 else goto 0) else goto 41)"

definition http11_st41 :: "bool \<Rightarrow> int \<Rightarrow> http11_action jump" where [http11_code]:
  "http11_st41 r c =
     (if c < 65 then (if 48 \<le> c \<and> c \<le> 57 then goto 39 else goto 0)
      else if c > 70 then (if 97 \<le> c \<and> c \<le> 102 then goto 39 else goto 0) else goto 39)"

definition http11_st42 :: "bool \<Rightarrow> int \<Rightarrow> http11_action jump" where [http11_code]:
  "http11_st42 r c =
     (let w = widec r c in
      if w = 32 then http11_tr37 else if w = 33 then goto 43 else
      if w = 35 then http11_tr39 else if w = 37 then goto 44 else if w = 47 then goto 26 else
      if w = 58 then goto 46 else if w = 61 then goto 43 else if w = 63 then http11_tr42 else
      if w = 91 then goto 47 else if w = 95 then goto 43 else if w = 126 then goto 43 else
      if w = 606 then goto 43 else if w = 635 then goto 43 else if w = 637 then goto 43 else
      if w < 65 then (if 36 \<le> w \<and> w \<le> 59 then goto 43 else goto 0)
      else if w > 90 then (if 97 \<le> w \<and> w \<le> 122 then goto 43 else goto 0) else goto 43)"

definition http11_st43 :: "bool \<Rightarrow> int \<Rightarrow> http11_action jump" where [http11_code]:
  "http11_st43 r c =
     (let w = widec r c in
      if w = 32 then http11_tr37 else if w = 33 then goto 43 else
      if w = 35 then http11_tr39 else if w = 37 then goto 44 else if w = 47 then goto 26 else
      if w = 58 then goto 46 else if w = 61 then goto 43 else if w = 63 then http11_tr42 else
      if w = 95 then goto 43 else if w = 126 then goto 43 else if w = 606 then goto 43 else
      if w = 635 then goto 43 else if w = 637 then goto 43 else
      if w < 65 then (if 36 \<le> w \<and> w \<le> 59 then goto 43 else goto 0)
      else if w > 90 then (if 97 \<le> w \<and> w \<le> 122 then goto 43 else goto 0) else goto 43)"

definition http11_st44 :: "bool \<Rightarrow> int \<Rightarrow> http11_action jump" where [http11_code]:
  "http11_st44 r c =
     (if c < 65 then (if 48 \<le> c \<and> c \<le> 57 then goto 45 else goto 0)
      else if c > 70 then (if 97 \<le> c \<and> c \<le> 102 then goto 45 else goto 0) else goto 45)"

definition http11_st45 :: "bool \<Rightarrow> int \<Rightarrow> http11_action jump" where [http11_code]:
  "http11_st45 r c =
     (if c < 65 then (if 48 \<le> c \<and> c \<le> 57 then goto 43 else goto 0)
      else if c > 70 then (if 97 \<le> c \<and> c \<le> 102 then goto 43 else goto 0) else goto 43)"

definition http11_st46 :: "bool \<Rightarrow> int \<Rightarrow> http11_action jump" where [http11_code]:
  "http11_st46 r c =
     (if c = 32 then http11_tr37 else if c = 35 then http11_tr39 else
      if c = 47 then goto 26 else if c = 63 then http11_tr42 else
      if 48 \<le> c \<and> c \<le> 57 then goto 46 else goto 0)"

definition http11_st47 :: "bool \<Rightarrow> int \<Rightarrow> http11_action jump" where [http11_code]:
  "http11_st47 r c =
     (if c = 6 then goto 48 else if c = 58 then goto 167 else if c = 118 then goto 169 else
      if c < 65 then (if 48 \<le> c \<and> c \<le> 57 then goto 91 else goto 0)
      else if c > 70 then (if 97 \<le> c \<and> c \<le> 102 then goto 91 else goto 0) else goto 91)"

definition http11_st48 :: "bool \<Rightarrow> int \<Rightarrow> http11_action jump" where [http11_code]:
  "http11_st48 r c =
     (if c < 65 then (if 48 \<le> c \<and> c \<le> 57 then goto 49 else goto 0)
      else if c > 70 then (if 97 \<le> c \<and> c \<le> 102 then goto 49 else goto 0) else goto 49)"

definition http11_st49 :: "bool \<Rightarrow> int \<Rightarrow> http11_action jump" where [http11_code]:
  "http11_st49 r c =
     (if c = 58 then goto 53 else
      if c < 65 then (if 48 \<le> c \<and> c \<le> 57 then goto 50 else goto 0)
      else if c > 70 then (if 97 \<le> c \<and> c \<le> 102 then goto 50 else goto 0) else goto 50)"

definition http11_st50 :: "bool \<Rightarrow> int \<Rightarrow> http11_action jump" where [http11_code]:
  "http11_st50 r c =
     (if c = 58 then goto 53 else
      if c < 65 then (if 48 \<le> c \<and> c \<le> 57 then goto 51 else goto 0)
      else if c > 70 then (if 97 \<le> c \<and> c \<le> 102 then goto 51 else goto 0) else goto 51)"

definition http11_st51 :: "bool \<Rightarrow> int \<Rightarrow> http11_action jump" where [http11_code]:
  "http11_st51 r c =
     (if c = 58 then goto 53 else
      if c < 65 then (if 48 \<le> c \<and> c \<le> 57 then goto 52 else goto 0)
      else if c > 70 then (if 97 \<le> c \<and> c \<le> 102 then goto 52 else goto 0) else goto 52)"

definition http11_st52 :: "bool \<Rightarrow> int \<Rightarrow> http11_action jump" where [http11_code]:
  "http11_st52 r c =
     (if c = 58 then goto 53 else goto 0)"

definition http11_st53 :: "bool \<Rightarrow> int \<Rightarrow> http11_action jump" where [http11_code]:
  "http11_st53 r c =
     (if c = 49 then goto 84 else if c = 50 then goto 87 else
      if c < 65 then (if 48 \<le> c \<and> c \<le> 57 then goto 54 else goto 0)
      else if c > 70 then (if 97 \<le> c \<and> c \<le> 102 then goto 90 else goto 0) else goto 90)"

definition http11_st54 :: "bool \<Rightarrow> int \<Rightarrow> http11_action jump" where [http11_code]:
  "http11_st54 r c =
     (if c = 46 then goto 55 else if c = 58 then goto 80 else
      if c < 65 then (if 48 \<le> c \<and> c \<le> 57 then goto 77 else goto 0)
      else if c > 70 then (if 97 \<le> c \<and> c \<le> 102 then goto 77 else goto 0) else goto 77)"

definition http11_st55 :: "bool \<Rightarrow> int \<Rightarrow> http11_action jump" where [http11_code]:
  "http11_st55 r c =
     (if c = 49 then goto 72 else if c = 50 then goto 74 else
      if 48 \<le> c \<and> c \<le> 57 then goto 56 else goto 0)"

definition http11_st56 :: "bool \<Rightarrow> int \<Rightarrow> http11_action jump" where [http11_code]:
  "http11_st56 r c =
     (if c = 46 then goto 57 else goto 0)"

definition http11_st57 :: "bool \<Rightarrow> int \<Rightarrow> http11_action jump" where [http11_code]:
  "http11_st57 r c =
     (if c = 49 then goto 67 else if c = 50 then goto 69 else
      if 48 \<le> c \<and> c \<le> 57 then goto 58 else goto 0)"

definition http11_st58 :: "bool \<Rightarrow> int \<Rightarrow> http11_action jump" where [http11_code]:
  "http11_st58 r c =
     (if c = 46 then goto 59 else goto 0)"

definition http11_st59 :: "bool \<Rightarrow> int \<Rightarrow> http11_action jump" where [http11_code]:
  "http11_st59 r c =
     (if c = 49 then goto 62 else if c = 50 then goto 64 else
      if 48 \<le> c \<and> c \<le> 57 then goto 60 else goto 0)"

definition http11_st60 :: "bool \<Rightarrow> int \<Rightarrow> http11_action jump" where [http11_code]:
  "http11_st60 r c =
     (if c = 93 then goto 61 else goto 0)"

definition http11_st61 :: "bool \<Rightarrow> int \<Rightarrow> http11_action jump" where [http11_code]:
  "http11_st61 r c =
     (if c = 32 then http11_tr37 else if c = 35 then http11_tr39 else
      if c = 47 then goto 26 else if c = 58 then goto 46 else if c = 63 then http11_tr42 else
      goto 0)"

definition http11_st62 :: "bool \<Rightarrow> int \<Rightarrow> http11_action jump" where [http11_code]:
  "http11_st62 r c =
     (if c = 93 then goto 61 else if 48 \<le> c \<and> c \<le> 57 then goto 63 else goto 0)"

definition http11_st63 :: "bool \<Rightarrow> int \<Rightarrow> http11_action jump" where [http11_code]:
  "http11_st63 r c =
     (if c = 93 then goto 61 else if 48 \<le> c \<and> c \<le> 57 then goto 60 else goto 0)"

definition http11_st64 :: "bool \<Rightarrow> int \<Rightarrow> http11_action jump" where [http11_code]:
  "http11_st64 r c =
     (if c = 48 then goto 65 else if c = 53 then goto 66 else if c = 93 then goto 61 else goto 0)"

definition http11_st65 :: "bool \<Rightarrow> int \<Rightarrow> http11_action jump" where [http11_code]:
  "http11_st65 r c =
     (if 48 \<le> c \<and> c \<le> 57 then goto 60 else goto 0)"

definition http11_st66 :: "bool \<Rightarrow> int \<Rightarrow> http11_action jump" where [http11_code]:
  "http11_st66 r c =
     (if c = 48 then goto 60 else goto 0)"

definition http11_st67 :: "bool \<Rightarrow> int \<Rightarrow> http11_action jump" where [http11_code]:
  "http11_st67 r c =
     (if c = 46 then goto 59 else if 48 \<le> c \<and> c \<le> 57 then goto 68 else goto 0)"

definition http11_st68 :: "bool \<Rightarrow> int \<Rightarrow> http11_action jump" where [http11_code]:
  "http11_st68 r c =
     (if c = 46 then goto 59 else if 48 \<le> c \<and> c \<le> 57 then goto 58 else goto 0)"

definition http11_st69 :: "bool \<Rightarrow> int \<Rightarrow> http11_action jump" where [http11_code]:
  "http11_st69 r c =
     (if c = 46 then goto 59 else if c = 48 then goto 70 else if c = 53 then goto 71 else goto 0)"

definition http11_st70 :: "bool \<Rightarrow> int \<Rightarrow> http11_action jump" where [http11_code]:
  "http11_st70 r c =
     (if 48 \<le> c \<and> c \<le> 57 then goto 58 else goto 0)"

definition http11_st71 :: "bool \<Rightarrow> int \<Rightarrow> http11_action jump" where [http11_code]:
  "http11_st71 r c =
     (if c = 48 then goto 58 else goto 0)"

definition http11_st72 :: "bool \<Rightarrow> int \<Rightarrow> http11_action jump" where [http11_code]:
  "http11_st72 r c =
     (if c = 46 then goto 57 else if 48 \<le> c \<and> c \<le> 57 then goto 73 else goto 0)"

definition http11_st73 :: "bool \<Rightarrow> int \<Rightarrow> http11_action jump" where [http11_code]:
  "http11_st73 r c =
     (if c = 46 then goto 57 else if 48 \<le> c \<and> c \<le> 57 then goto 56 else goto 0)"

definition http11_st74 :: "bool \<Rightarrow> int \<Rightarrow> http11_action jump" where [http11_code]:
  "http11_st74 r c =
     (if c = 46 then goto 57 else if c = 48 then goto 75 else if c = 53 then goto 76 else goto 0)"

definition http11_st75 :: "bool \<Rightarrow> int \<Rightarrow> http11_action jump" where [http11_code]:
  "http11_st75 r c =
     (if 48 \<le> c \<and> c \<le> 57 then goto 56 else goto 0)"

definition http11_st76 :: "bool \<Rightarrow> int \<Rightarrow> http11_action jump" where [http11_code]:
  "http11_st76 r c =
     (if c = 48 then goto 56 else goto 0)"

definition http11_st77 :: "bool \<Rightarrow> int \<Rightarrow> http11_action jump" where [http11_code]:
  "http11_st77 r c =
     (if c = 58 then goto 80 else
      if c < 65 then (if 48 \<le> c \<and> c \<le> 57 then goto 78 else goto 0)
      else if c > 70 then (if 97 \<le> c \<and> c \<le> 102 then goto 78 else goto 0) else goto 78)"

definition http11_st78 :: "bool \<Rightarrow> int \<Rightarrow> http11_action jump" where [http11_code]:
  "http11_st78 r c =
     (if c = 58 then goto 80 else
      if c < 65 then (if 48 \<le> c \<and> c \<le> 57 then goto 79 else goto 0)
      else if c > 70 then (if 97 \<le> c \<and> c \<le> 102 then goto 79 else goto 0) else goto 79)"

definition http11_st79 :: "bool \<Rightarrow> int \<Rightarrow> http11_action jump" where [http11_code]:
  "http11_st79 r c =
     (if c = 58 then goto 80 else goto 0)"

definition http11_st80 :: "bool \<Rightarrow> int \<Rightarrow> http11_action jump" where [http11_code]:
  "http11_st80 r c =
     (if c < 65 then (if 48 \<le> c \<and> c \<le> 57 then goto 81 else goto 0)
      else if c > 70 then (if 97 \<le> c \<and> c \<le> 102 then goto 81 else goto 0) else goto 81)"

definition http11_st81 :: "bool \<Rightarrow> int \<Rightarrow> http11_action jump" where [http11_code]:
  "http11_st81 r c =
     (if c = 93 then goto 61 else
      if c < 65 then (if 48 \<le> c \<and> c \<le> 57 then goto 82 else goto 0)
      else if c > 70 then (if 97 \<le> c \<and> c \<le> 102 then goto 82 else goto 0) else goto 82)"

definition http11_st82 :: "bool \<Rightarrow> int \<Rightarrow> http11_action jump" where [http11_code]:
  "http11_st82 r c =
     (if c = 93 then goto 61 else
      if c < 65 then (if 48 \<le> c \<and> c \<le> 57 then goto 83 else goto 0)
      else if c > 70 then (if 97 \<le> c \<and> c \<le> 102 then goto 83 else goto 0) else goto 83)"

definition http11_st83 :: "bool \<Rightarrow> int \<Rightarrow> http11_action jump" where [http11_code]:
  "http11_st83 r c =
     (if c = 93 then goto 61 else
      if c < 65 then (if 48 \<le> c \<and> c \<le> 57 then goto 60 else goto 0)
      else if c > 70 then (if 97 \<le> c \<and> c \<le> 102 then goto 60 else goto 0) else goto 60)"

definition http11_st84 :: "bool \<Rightarrow> int \<Rightarrow> http11_action jump" where [http11_code]:
  "http11_st84 r c =
     (if c = 46 then goto 55 else if c = 58 then goto 80 else
      if c < 65 then (if 48 \<le> c \<and> c \<le> 57 then goto 85 else goto 0)
      else if c > 70 then (if 97 \<le> c \<and> c \<le> 102 then goto 77 else goto 0) else goto 77)"

definition http11_st85 :: "bool \<Rightarrow> int \<Rightarrow> http11_action jump" where [http11_code]:
  "http11_st85 r c =
     (if c = 46 then goto 55 else if c = 58 then goto 80 else
      if c < 65 then (if 48 \<le> c \<and> c \<le> 57 then goto 86 else goto 0)
      else if c > 70 then (if 97 \<le> c \<and> c \<le> 102 then goto 78 else goto 0) else goto 78)"

definition http11_st86 :: "bool \<Rightarrow> int \<Rightarrow> http11_action jump" where [http11_code]:
  "http11_st86 r c =
     (if c = 46 then goto 55 else if c = 58 then goto 80 else
      if c < 65 then (if 48 \<le> c \<and> c \<le> 57 then goto 79 else goto 0)
      else if c > 70 then (if 97 \<le> c \<and> c \<le> 102 then goto 79 else goto 0) else goto 79)"

definition http11_st87 :: "bool \<Rightarrow> int \<Rightarrow> http11_action jump" where [http11_code]:
  "http11_st87 r c =
     (if c = 46 then goto 55 else if c = 48 then goto 88 else if c = 53 then goto 89 else
      if c = 58 then goto 80 else
      if c < 65 then (if 49 \<le> c \<and> c \<le> 57 then goto 77 else goto 0)
      else if c > 70 then (if 97 \<le> c \<and> c \<le> 102 then goto 77 else goto 0) else goto 77)"

definition http11_st88 :: "bool \<Rightarrow> int \<Rightarrow> http11_action jump" where [http11_code]:
  "http11_st88 r c =
     (if c = 58 then goto 80 else
      if c < 65 then (if 48 \<le> c \<and> c \<le> 57 then goto 86 else goto 0)
      else if c > 70 then (if 97 \<le> c \<and> c \<le> 102 then goto 78 else goto 0) else goto 78)"

definition http11_st89 :: "bool \<Rightarrow> int \<Rightarrow> http11_action jump" where [http11_code]:
  "http11_st89 r c =
     (if c = 48 then goto 86 else if c = 58 then goto 80 else
      if c < 65 then (if 49 \<le> c \<and> c \<le> 57 then goto 78 else goto 0)
      else if c > 70 then (if 97 \<le> c \<and> c \<le> 102 then goto 78 else goto 0) else goto 78)"

definition http11_st90 :: "bool \<Rightarrow> int \<Rightarrow> http11_action jump" where [http11_code]:
  "http11_st90 r c =
     (if c = 58 then goto 80 else
      if c < 65 then (if 48 \<le> c \<and> c \<le> 57 then goto 77 else goto 0)
      else if c > 70 then (if 97 \<le> c \<and> c \<le> 102 then goto 77 else goto 0) else goto 77)"

definition http11_st91 :: "bool \<Rightarrow> int \<Rightarrow> http11_action jump" where [http11_code]:
  "http11_st91 r c =
     (if c = 58 then goto 95 else
      if c < 65 then (if 48 \<le> c \<and> c \<le> 57 then goto 92 else goto 0)
      else if c > 70 then (if 97 \<le> c \<and> c \<le> 102 then goto 92 else goto 0) else goto 92)"

definition http11_st92 :: "bool \<Rightarrow> int \<Rightarrow> http11_action jump" where [http11_code]:
  "http11_st92 r c =
     (if c = 58 then goto 95 else
      if c < 65 then (if 48 \<le> c \<and> c \<le> 57 then goto 93 else goto 0)
      else if c > 70 then (if 97 \<le> c \<and> c \<le> 102 then goto 93 else goto 0) else goto 93)"

definition http11_st93 :: "bool \<Rightarrow> int \<Rightarrow> http11_action jump" where [http11_code]:
  "http11_st93 r c =
     (if c = 58 then goto 95 else
      if c < 65 then (if 48 \<le> c \<and> c \<le> 57 then goto 94 else goto 0)
      else if c > 70 then (if 97 \<le> c \<and> c \<le> 102 then goto 94 else goto 0) else goto 94)"

definition http11_st94 :: "bool \<Rightarrow> int \<Rightarrow> http11_action jump" where [http11_code]:
  "http11_st94 r c =
     (if c = 58 then goto 95 else goto 0)"

definition http11_st95 :: "bool \<Rightarrow> int \<Rightarrow> http11_action jump" where [http11_code]:
  "http11_st95 r c =
     (if c = 58 then goto 166 else
      if c < 65 then (if 48 \<le> c \<and> c \<le> 57 then goto 96 else goto 0)
      else if c > 70 then (if 97 \<le> c \<and> c \<le> 102 then goto 96 else goto 0) else goto 96)"

definition http11_st96 :: "bool \<Rightarrow> int \<Rightarrow> http11_action jump" where [http11_code]:
  "http11_st96 r c =
     (if c = 58 then goto 100 else
      if c < 65 then (if 48 \<le> c \<and> c \<le> 57 then goto 97 else goto 0)
      else if c > 70 then (if 97 \<le> c \<and> c \<le> 102 then goto 97 else goto 0) else goto 97)"

definition http11_st97 :: "bool \<Rightarrow> int \<Rightarrow> http11_action jump" where [http11_code]:
  "http11_st97 r c =
     (if c = 58 then goto 100 else
      if c < 65 then (if 48 \<le> c \<and> c \<le> 57 then goto 98 else goto 0)
      else if c > 70 then (if 97 \<le> c \<and> c \<le> 102 then goto 98 else goto 0) else goto 98)"

definition http11_st98 :: "bool \<Rightarrow> int \<Rightarrow> http11_action jump" where [http11_code]:
  "http11_st98 r c =
     (if c = 58 then goto 100 else
      if c < 65 then (if 48 \<le> c \<and> c \<le> 57 then goto 99 else goto 0)
      else if c > 70 then (if 97 \<le> c \<and> c \<le> 102 then goto 99 else goto 0) else goto 99)"

definition http11_st99 :: "bool \<Rightarrow> int \<Rightarrow> http11_action jump" where [http11_code]:
  "http11_st99 r c =
     (if c = 58 then goto 100 else goto 0)"

definition http11_st100 :: "bool \<Rightarrow> int \<Rightarrow> http11_action jump" where [http11_code]:
  "http11_st100 r c =
     (if c = 58 then goto 165 else
      if c < 65 then (if 48 \<le> c \<and> c \<le> 57 then goto 101 else goto 0)
      else if c > 70 then (if 97 \<le> c \<and> c \<le> 102 then goto 101 else goto 0) else goto 101)"

definition http11_st101 :: "bool \<Rightarrow> int \<Rightarrow> http11_action jump" where [http11_code]:
  "http11_st101 r c =
     (if c = 58 then goto 105 else
      if c < 65 then (if 48 \<le> c \<and> c \<le> 57 then goto 102 else goto 0)
      else if c > 70 then (if 97 \<le> c \<and> c \<le> 102 then goto 102 else goto 0) else goto 102)"

definition http11_st102 :: "bool \<Rightarrow> int \<Rightarrow> http11_action jump" where [http11_code]:
  "http11_st102 r c =
     (if c = 58 then goto 105 else
      if c < 65 then (if 48 \<le> c \<and> c \<le> 57 then goto 103 else goto 0)
      else if c > 70 then (if 97 \<le> c \<and> c \<le> 102 then goto 103 else goto 0) else goto 103)"

definition http11_st103 :: "bool \<Rightarrow> int \<Rightarrow> http11_action jump" where [http11_code]:
  "http11_st103 r c =
     (if c = 58 then goto 105 else
      if c < 65 then (if 48 \<le> c \<and> c \<le> 57 then goto 104 else goto 0)
      else if c > 70 then (if 97 \<le> c \<and> c \<le> 102 then goto 104 else goto 0) else goto 104)"

definition http11_st104 :: "bool \<Rightarrow> int \<Rightarrow> http11_action jump" where [http11_code]:
  "http11_st104 r c =
     (if c = 58 then goto 105 else goto 0)"

definition http11_st105 :: "bool \<Rightarrow> int \<Rightarrow> http11_action jump" where [http11_code]:
  "http11_st105 r c =
     (if c = 58 then goto 164 else
      if c < 65 then (if 48 \<le> c \<and> c \<le> 57 then goto 106 else goto 0)
      else if c > 70 then (if 97 \<le> c \<and> c \<le> 102 then goto 106 else goto 0) else goto 106)"

definition http11_st106 :: "bool \<Rightarrow> int \<Rightarrow> http11_action jump" where [http11_code]:
  "http11_st106 r c =
     (if c = 58 then goto 110 else
      if c < 65 then (if 48 \<le> c \<and> c \<le> 57 then goto 107 else goto 0)
      else if c > 70 then (if 97 \<le> c \<and> c \<le> 102 then goto 107 else goto 0) else goto 107)"

definition http11_st107 :: "bool \<Rightarrow> int \<Rightarrow> http11_action jump" where [http11_code]:
  "http11_st107 r c =
     (if c = 58 then goto 110 else
      if c < 65 then (if 48 \<le> c \<and> c \<le> 57 then goto 108 else goto 0)
      else if c > 70 then (if 97 \<le> c \<and> c \<le> 102 then goto 108 else goto 0) else goto 108)"

definition http11_st108 :: "bool \<Rightarrow> int \<Rightarrow> http11_action jump" where [http11_code]:
  "http11_st108 r c =
     (if c = 58 then goto 110 else
      if c < 65 then (if 48 \<le> c \<and> c \<le> 57 then goto 109 else goto 0)
      else if c > 70 then (if 97 \<le> c \<and> c \<le> 102 then goto 109 else goto 0) else goto 109)"

definition http11_st109 :: "bool \<Rightarrow> int \<Rightarrow> http11_action jump" where [http11_code]:
  "http11_st109 r c =
     (if c = 58 then goto 110 else goto 0)"

definition http11_st110 :: "bool \<Rightarrow> int \<Rightarrow> http11_action jump" where [http11_code]:
  "http11_st110 r c =
     (if c = 58 then goto 163 else
      if c < 65 then (if 48 \<le> c \<and> c \<le> 57 then goto 111 else goto 0)
      else if c > 70 then (if 97 \<le> c \<and> c \<le> 102 then goto 111 else goto 0) else goto 111)"

definition http11_st111 :: "bool \<Rightarrow> int \<Rightarrow> http11_action jump" where [http11_code]:
  "http11_st111 r c =
     (if c = 58 then goto 115 else
      if c < 65 then (if 48 \<le> c \<and> c \<le> 57 then goto 112 else goto 0)
      else if c > 70 then (if 97 \<le> c \<and> c \<le> 102 then goto 112 else goto 0) else goto 112)"

definition http11_st112 :: "bool \<Rightarrow> int \<Rightarrow> http11_action jump" where [http11_code]:
  "http11_st112 r c =
     (if c = 58 then goto 115 else
      if c < 65 then (if 48 \<le> c \<and> c \<le> 57 then goto 113 else goto 0)
      else if c > 70 then (if 97 \<le> c \<and> c \<le> 102 then goto 113 else goto 0) else goto 113)"

definition http11_st113 :: "bool \<Rightarrow> int \<Rightarrow> http11_action jump" where [http11_code]:
  "http11_st113 r c =
     (if c = 58 then goto 115 else
      if c < 65 then (if 48 \<le> c \<and> c \<le> 57 then goto 114 else goto 0)
      else if c > 70 then (if 97 \<le> c \<and> c \<le> 102 then goto 114 else goto 0) else goto 114)"

definition http11_st114 :: "bool \<Rightarrow> int \<Rightarrow> http11_action jump" where [http11_code]:
  "http11_st114 r c =
     (if c = 58 then goto 115 else goto 0)"

definition http11_st115 :: "bool \<Rightarrow> int \<Rightarrow> http11_action jump" where [http11_code]:
  "http11_st115 r c =
     (if c = 58 then goto 151 else
      if c < 65 then (if 48 \<le> c \<and> c \<le> 57 then goto 116 else goto 0)
      else if c > 70 then (if 97 \<le> c \<and> c \<le> 102 then goto 116 else goto 0) else goto 116)"

definition http11_st116 :: "bool \<Rightarrow> int \<Rightarrow> http11_action jump" where [http11_code]:
  "http11_st116 r c =
     (if c = 58 then goto 120 else
      if c < 65 then (if 48 \<le> c \<and> c \<le> 57 then goto 117 else goto 0)
      else if c > 70 then (if 97 \<le> c \<and> c \<le> 102 then goto 117 else goto 0) else goto 117)"

definition http11_st117 :: "bool \<Rightarrow> int \<Rightarrow> http11_action jump" where [http11_code]:
  "http11_st117 r c =
     (if c = 58 then goto 120 else
      if c < 65 then (if 48 \<le> c \<and> c \<le> 57 then goto 118 else goto 0)
      else if c > 70 then (if 97 \<le> c \<and> c \<le> 102 then goto 118 else goto 0) else goto 118)"

definition http11_st118 :: "bool \<Rightarrow> int \<Rightarrow> http11_action jump" where [http11_code]:
  "http11_st118 r c =
     (if c = 58 then goto 120 else
      if c < 65 then (if 48 \<le> c \<and> c \<le> 57 then goto 119 else goto 0)
      else if c > 70 then (if 97 \<le> c \<and> c \<le> 102 then goto 119 else goto 0) else goto 119)"

definition http11_st119 :: "bool \<Rightarrow> int \<Rightarrow> http11_action jump" where [http11_code]:
  "http11_st119 r c =
     (if c = 58 then goto 120 else goto 0)"

definition http11_st120 :: "bool \<Rightarrow> int \<Rightarrow> http11_action jump" where [http11_code]:
  "http11_st120 r c =
     (if c = 58 then goto 150 else
      if c < 65 then (if 48 \<le> c \<and> c \<le> 57 then goto 121 else goto 0)
      else if c > 70 then (if 97 \<le> c \<and> c \<le> 102 then goto 121 else goto 0) else goto 121)"

definition http11_st121 :: "bool \<Rightarrow> int \<Rightarrow> http11_action jump" where [http11_code]:
  "http11_st121 r c =
     (if c = 58 then goto 125 else
      if c < 65 then (if 48 \<le> c \<and> c \<le> 57 then goto 122 else goto 0)
      else if c > 70 then (if 97 \<le> c \<and> c \<le> 102 then goto 122 else goto 0) else goto 122)"

definition http11_st122 :: "bool \<Rightarrow> int \<Rightarrow> http11_action jump" where [http11_code]:
  "http11_st122 r c =
     (if c = 58 then goto 125 else
      if c < 65 then (if 48 \<le> c \<and> c \<le> 57 then goto 123 else goto 0)
      else if c > 70 then (if 97 \<le> c \<and> c \<le> 102 then goto 123 else goto 0) else goto 123)"

definition http11_st123 :: "bool \<Rightarrow> int \<Rightarrow> http11_action jump" where [http11_code]:
  "http11_st123 r c =
     (if c = 58 then goto 125 else
      if c < 65 then (if 48 \<le> c \<and> c \<le> 57 then goto 124 else goto 0)
      else if c > 70 then (if 97 \<le> c \<and> c \<le> 102 then goto 124 else goto 0) else goto 124)"

definition http11_st124 :: "bool \<Rightarrow> int \<Rightarrow> http11_action jump" where [http11_code]:
  "http11_st124 r c =
     (if c = 58 then goto 125 else goto 0)"

definition http11_st125 :: "bool \<Rightarrow> int \<Rightarrow> http11_action jump" where [http11_code]:
  "http11_st125 r c =
     (if c = 58 then goto 126 else
      if c < 65 then (if 48 \<le> c \<and> c \<le> 57 then goto 121 else goto 0)
      else if c > 70 then (if 97 \<le> c \<and> c \<le> 102 then goto 121 else goto 0) else goto 121)"

definition http11_st126 :: "bool \<Rightarrow> int \<Rightarrow> http11_action jump" where [http11_code]:
  "http11_st126 r c =
     (if c = 49 then goto 143 else if c = 50 then goto 146 else if c = 93 then goto 61 else
      if c < 48 then (if 2 \<le> c \<and> c \<le> 3 then goto 48 else goto 0)
      else if c > 57 then (if c > 70 then (if 97 \<le> c \<and> c \<le> 102 then goto 149 else goto 0)
        else if c \<ge> 65 then goto 149 else goto 0)
      else goto 127)"

definition http11_st127 :: "bool \<Rightarrow> int \<Rightarrow> http11_action jump" where [http11_code]:
  "http11_st127 r c =
     (if c = 46 then goto 55 else if c = 58 then goto 131 else if c = 93 then goto 61 else
      if c < 65 then (if 48 \<le> c \<and> c \<le> 57 then goto 128 else goto 0)
      else if c > 70 then (if 97 \<le> c \<and> c \<le> 102 then goto 128 else goto 0) else goto 128)"

definition http11_st128 :: "bool \<Rightarrow> int \<Rightarrow> http11_action jump" where [http11_code]:
  "http11_st128 r c =
     (if c = 58 then goto 131 else if c = 93 then goto 61 else
      if c < 65 then (if 48 \<le> c \<and> c \<le> 57 then goto 129 else goto 0)
      else if c > 70 then (if 97 \<le> c \<and> c \<le> 102 then goto 129 else goto 0) else goto 129)"

definition http11_st129 :: "bool \<Rightarrow> int \<Rightarrow> http11_action jump" where [http11_code]:
  "http11_st129 r c =
     (if c = 58 then goto 131 else if c = 93 then goto 61 else
      if c < 65 then (if 48 \<le> c \<and> c \<le> 57 then goto 130 else goto 0)
      else if c > 70 then (if 97 \<le> c \<and> c \<le> 102 then goto 130 else goto 0) else goto 130)"

definition http11_st130 :: "bool \<Rightarrow> int \<Rightarrow> http11_action jump" where [http11_code]:
  "http11_st130 r c =
     (if c = 58 then goto 131 else if c = 93 then goto 61 else goto 0)"

definition http11_st131 :: "bool \<Rightarrow> int \<Rightarrow> http11_action jump" where [http11_code]:
  "http11_st131 r c =
     (if c = 49 then goto 136 else if c = 50 then goto 139 else
      if c < 65 then (if 48 \<le> c \<and> c \<le> 57 then goto 132 else goto 0)
      else if c > 70 then (if 97 \<le> c \<and> c \<le> 102 then goto 142 else goto 0) else goto 142)"

definition http11_st132 :: "bool \<Rightarrow> int \<Rightarrow> http11_action jump" where [http11_code]:
  "http11_st132 r c =
     (if c = 46 then goto 55 else if c = 58 then goto 80 else if c = 93 then goto 61 else
      if c < 65 then (if 48 \<le> c \<and> c \<le> 57 then goto 133 else goto 0)
      else if c > 70 then (if 97 \<le> c \<and> c \<le> 102 then goto 133 else goto 0) else goto 133)"

definition http11_st133 :: "bool \<Rightarrow> int \<Rightarrow> http11_action jump" where [http11_code]:
  "http11_st133 r c =
     (if c = 58 then goto 80 else if c = 93 then goto 61 else
      if c < 65 then (if 48 \<le> c \<and> c \<le> 57 then goto 134 else goto 0)
      else if c > 70 then (if 97 \<le> c \<and> c \<le> 102 then goto 134 else goto 0) else goto 134)"

definition http11_st134 :: "bool \<Rightarrow> int \<Rightarrow> http11_action jump" where [http11_code]:
  "http11_st134 r c =
     (if c = 58 then goto 80 else if c = 93 then goto 61 else
      if c < 65 then (if 48 \<le> c \<and> c \<le> 57 then goto 135 else goto 0)
      else if c > 70 then (if 97 \<le> c \<and> c \<le> 102 then goto 135 else goto 0) else goto 135)"

definition http11_st135 :: "bool \<Rightarrow> int \<Rightarrow> http11_action jump" where [http11_code]:
  "http11_st135 r c =
     (if c = 58 then goto 80 else if c = 93 then goto 61 else goto 0)"

definition http11_st136 :: "bool \<Rightarrow> int \<Rightarrow> http11_action jump" where [http11_code]:
  "http11_st136 r c =
     (if c = 46 then goto 55 else if c = 58 then goto 80 else if c = 93 then goto 61 else
      if c < 65 then (if 48 \<le> c \<and> c \<le> 57 then goto 137 else goto 0)
      else if c > 70 then (if 97 \<le> c \<and> c \<le> 102 then goto 133 else goto 0) else goto 133)"

definition http11_st137 :: "bool \<Rightarrow> int \<Rightarrow> http11_action jump" where [http11_code]:
  "http11_st137 r c =
     (if c = 46 then goto 55 else if c = 58 then goto 80 else if c = 93 then goto 61 else
      if c < 65 then (if 48 \<le> c \<and> c \<le> 57 then goto 138 else goto 0)
      else if c > 70 then (if 97 \<le> c \<and> c \<le> 102 then goto 134 else goto 0) else goto 134)"

definition http11_st138 :: "bool \<Rightarrow> int \<Rightarrow> http11_action jump" where [http11_code]:
  "http11_st138 r c =
     (if c = 46 then goto 55 else if c = 58 then goto 80 else if c = 93 then goto 61 else
      if c < 65 then (if 48 \<le> c \<and> c \<le> 57 then goto 135 else goto 0)
      else if c > 70 then (if 97 \<le> c \<and> c \<le> 102 then goto 135 else goto 0) else goto 135)"

definition http11_st139 :: "bool \<Rightarrow> int \<Rightarrow> http11_action jump" where [http11_code]:
  "http11_st139 r c =
     (if c = 46 then goto 55 else if c = 48 then goto 140 else if c = 53 then goto 141 else
      if c = 58 then goto 80 else if c = 93 then goto 61 else
      if c < 65 then (if 49 \<le> c \<and> c \<le> 57 then goto 133 else goto 0)
      else if c > 70 then (if 97 \<le> c \<and> c \<le> 102 then goto 133 else goto 0) else goto 133)"

definition http11_st140 :: "bool \<Rightarrow> int \<Rightarrow> http11_action jump" where [http11_code]:
  "http11_st140 r c =
     (if c = 58 then goto 80 else if c = 93 then goto 61 else
      if c < 65 then (if 48 \<le> c \<and> c \<le> 57 then goto 138 else goto 0)
      else if c > 70 then (if 97 \<le> c \<and> c \<le> 102 then goto 134 else goto 0) else goto 134)"

definition http11_st141 :: "bool \<Rightarrow> int \<Rightarrow> http11_action jump" where [http11_code]:
  "http11_st141 r c =
     (if c = 48 then goto 138 else if c = 58 then goto 80 else if c = 93 then goto 61 else
      if c < 65 then (if 49 \<le> c \<and> c \<le> 57 then goto 134 else goto 0)
      else if c > 70 then (if 97 \<le> c \<and> c \<le> 102 then goto 134 else goto 0) else goto 134)"

definition http11_st142 :: "bool \<Rightarrow> int \<Rightarrow> http11_action jump" where [http11_code]:
  "http11_st142 r c =
     (if c = 58 then goto 80 else if c = 93 then goto 61 else
      if c < 65 then (if 48 \<le> c \<and> c \<le> 57 then goto 133 else goto 0)
      else if c > 70 then (if 97 \<le> c \<and> c \<le> 102 then goto 133 else goto 0) else goto 133)"

definition http11_st143 :: "bool \<Rightarrow> int \<Rightarrow> http11_action jump" where [http11_code]:
  "http11_st143 r c =
     (if c = 46 then goto 55 else if c = 58 then goto 131 else if c = 93 then goto 61 else
      if c < 65 then (if 48 \<le> c \<and> c \<le> 57 then goto 144 else goto 0)
      else if c > 70 then (if 97 \<le> c \<and> c \<le> 102 then goto 128 else goto 0) else goto 128)"

definition http11_st144 :: "bool \<Rightarrow> int \<Rightarrow> http11_action jump" where [http11_code]:
  "http11_st144 r c =
     (if c = 46 then goto 55 else if c = 58 then goto 131 else if c = 93 then goto 61 else
      if c < 65 then (if 48 \<le> c \<and> c \<le> 57 then goto 145 else goto 0)
      else if c > 70 then (if 97 \<le> c \<and> c \<le> 102 then goto 129 else goto 0) else goto 129)"

definition http11_st145 :: "bool \<Rightarrow> int \<Rightarrow> http11_action jump" where [http11_code]:
  "http11_st145 r c =
     (if c = 46 then goto 55 else if c = 58 then goto 131 else if c = 93 then goto 61 else
      if c < 65 then (if 48 \<le> c \<and> c \<le> 57 then goto 130 else goto 0)
      else if c > 70 then (if 97 \<le> c \<and> c \<le> 102 then goto 130 else goto 0) else goto 130)"

definition http11_st146 :: "bool \<Rightarrow> int \<Rightarrow> http11_action jump" where [http11_code]:
  "http11_st146 r c =
     (if c = 46 then goto 55 else if c = 48 then goto 147 else if c = 53 then goto 148 else
      if c = 58 then goto 131 else if c = 93 then goto 61 else
      if c < 65 then (if 49 \<le> c \<and> c \<le> 57 then goto 128 else goto 0)
      else if c > 70 then (if 97 \<le> c \<and> c \<le> 102 then goto 128 else goto 0) else goto 128)"

definition http11_st147 :: "bool \<Rightarrow> int \<Rightarrow> http11_action jump" where [http11_code]:
  "http11_st147 r c =
     (if c = 58 then goto 131 else if c = 93 then goto 61 else
      if c < 65 then (if 48 \<le> c \<and> c \<le> 57 then goto 145 else goto 0)
      else if c > 70 then (if 97 \<le> c \<and> c \<le> 102 then goto 129 else goto 0) else goto 129)"

definition http11_st148 :: "bool \<Rightarrow> int \<Rightarrow> http11_action jump" where [http11_code]:
  "http11_st148 r c =
     (if c = 48 then goto 145 else if c = 58 then goto 131 else if c = 93 then goto 61 else
      if c < 65 then (if 49 \<le> c \<and> c \<le> 57 then goto 129 else goto 0)
      else if c > 70 then (if 97 \<le> c \<and> c \<le> 102 then goto 129 else goto 0) else goto 129)"

definition http11_st149 :: "bool \<Rightarrow> int \<Rightarrow> http11_action jump" where [http11_code]:
  "http11_st149 r c =
     (if c = 58 then goto 131 else if c = 93 then goto 61 else
      if c < 65 then (if 48 \<le> c \<and> c \<le> 57 then goto 128 else goto 0)
      else if c > 70 then (if 97 \<le> c \<and> c \<le> 102 then goto 128 else goto 0) else goto 128)"

definition http11_st150 :: "bool \<Rightarrow> int \<Rightarrow> http11_action jump" where [http11_code]:
  "http11_st150 r c =
     (if c = 49 then goto 143 else if c = 50 then goto 146 else
      if c < 48 then (if 2 \<le> c \<and> c \<le> 3 then goto 48 else goto 0)
      else if c > 57 then (if c > 70 then (if 97 \<le> c \<and> c \<le> 102 then goto 149 else goto 0)
        else if c \<ge> 65 then goto 149 else goto 0)
      else goto 127)"

definition http11_st151 :: "bool \<Rightarrow> int \<Rightarrow> http11_action jump" where [http11_code]:
  "http11_st151 r c =
     (if c = 49 then goto 156 else if c = 50 then goto 159 else
      if c < 48 then (if 2 \<le> c \<and> c \<le> 3 then goto 48 else goto 0)
      else if c > 57 then (if c > 70 then (if 97 \<le> c \<and> c \<le> 102 then goto 162 else goto 0)
        else if c \<ge> 65 then goto 162 else goto 0)
      else goto 152)"

definition http11_st152 :: "bool \<Rightarrow> int \<Rightarrow> http11_action jump" where [http11_code]:
  "http11_st152 r c =
     (if c = 46 then goto 55 else if c = 58 then goto 131 else
      if c < 65 then (if 48 \<le> c \<and> c \<le> 57 then goto 153 else goto 0)
      else if c > 70 then (if 97 \<le> c \<and> c \<le> 102 then goto 153 else goto 0) else goto 153)"

definition http11_st153 :: "bool \<Rightarrow> int \<Rightarrow> http11_action jump" where [http11_code]:
  "http11_st153 r c =
     (if c = 58 then goto 131 else
      if c < 65 then (if 48 \<le> c \<and> c \<le> 57 then goto 154 else goto 0)
      else if c > 70 then (if 97 \<le> c \<and> c \<le> 102 then goto 154 else goto 0) else goto 154)"

definition http11_st154 :: "bool \<Rightarrow> int \<Rightarrow> http11_action jump" where [http11_code]:
  "http11_st154 r c =
     (if c = 58 then goto 131 else
      if c < 65 then (if 48 \<le> c \<and> c \<le> 57 then goto 155 else goto 0)
      else if c > 70 then (if 97 \<le> c \<and> c \<le> 102 then goto 155 else goto 0) else goto 155)"

definition http11_st155 :: "bool \<Rightarrow> int \<Rightarrow> http11_action jump" where [http11_code]:
  "http11_st155 r c =
     (if c = 58 then goto 131 else goto 0)"

definition http11_st156 :: "bool \<Rightarrow> int \<Rightarrow> http11_action jump" where [http11_code]:
  "http11_st156 r c =
     (if c = 46 then goto 55 else if c = 58 then goto 131 else
      if c < 65 then (if 48 \<le> c \<and> c \<le> 57 then goto 157 else goto 0)
      else if c > 70 then (if 97 \<le> c \<and> c \<le> 102 then goto 153 else goto 0) else goto 153)"

definition http11_st157 :: "bool \<Rightarrow> int \<Rightarrow> http11_action jump" where [http11_code]:
  "http11_st157 r c =
     (if c = 46 then goto 55 else if c = 58 then goto 131 else
      if c < 65 then (if 48 \<le> c \<and> c \<le> 57 then goto 158 else goto 0)
      else if c > 70 then (if 97 \<le> c \<and> c \<le> 102 then goto 154 else goto 0) else goto 154)"

definition http11_st158 :: "bool \<Rightarrow> int \<Rightarrow> http11_action jump" where [http11_code]:
  "http11_st158 r c =
     (if c = 46 then goto 55 else if c = 58 then goto 131 else
      if c < 65 then (if 48 \<le> c \<and> c \<le> 57 then goto 155 else goto 0)
      else if c > 70 then (if 97 \<le> c \<and> c \<le> 102 then goto 155 else goto 0) else goto 155)"

definition http11_st159 :: "bool \<Rightarrow> int \<Rightarrow> http11_action jump" where [http11_code]:
  "http11_st159 r c =
     (if c = 46 then goto 55 else if c = 48 then goto 160 else if c = 53 then goto 161 else
      if c = 58 then goto 131 else
      if c < 65 then (if 49 \<le> c \<and> c \<le> 57 then goto 153 else goto 0)
      else if c > 70 then (if 97 \<le> c \<and> c \<le> 102 then goto 153 else goto 0) else goto 153)"

definition http11_st160 :: "bool \<Rightarrow> int \<Rightarrow> http11_action jump" where [http11_code]:
  "http11_st160 r c =
     (if c = 58 then goto 131 else
      if c < 65 then (if 48 \<le> c \<and> c \<le> 57 then goto 158 else goto 0)
      else if c > 70 then (if 97 \<le> c \<and> c \<le> 102 then goto 154 else goto 0) else goto 154)"

definition http11_st161 :: "bool \<Rightarrow> int \<Rightarrow> http11_action jump" where [http11_code]:
  "http11_st161 r c =
     (if c = 48 then goto 158 else if c = 58 then goto 131 else
      if c < 65 then (if 49 \<le> c \<and> c \<le> 57 then goto 154 else goto 0)
      else if c > 70 then (if 97 \<le> c \<and> c \<le> 102 then goto 154 else goto 0) else goto 154)"

definition http11_st162 :: "bool \<Rightarrow> int \<Rightarrow> http11_action jump" where [http11_code]:
  "http11_st162 r c =
     (if c = 58 then goto 131 else
      if c < 65 then (if 48 \<le> c \<and> c \<le> 57 then goto 153 else goto 0)
      else if c > 70 then (if 97 \<le> c \<and> c \<le> 102 then goto 153 else goto 0) else goto 153)"

definition http11_st163 :: "bool \<Rightarrow> int \<Rightarrow> http11_action jump" where [http11_code]:
  "http11_st163 r c =
     (if c < 48 then (if 2 \<le> c \<and> c \<le> 3 then goto 48 else goto 0)
      else if c > 57 then (if c > 70 then (if 97 \<le> c \<and> c \<le> 102 then goto 49 else goto 0)
        else if c \<ge> 65 then goto 49 else goto 0)
      else goto 49)"

definition http11_st164 :: "bool \<Rightarrow> int \<Rightarrow> http11_action jump" where [http11_code]:
  "http11_st164 r c =
     (if 2 \<le> c \<and> c \<le> 3 then goto 48 else goto 0)"

definition http11_st165 :: "bool \<Rightarrow> int \<Rightarrow> http11_action jump" where [http11_code]:
  "http11_st165 r c =
     (if c = 3 then goto 48 else goto 0)"

definition http11_st166 :: "bool \<Rightarrow> int \<Rightarrow> http11_action jump" where [http11_code]:
  "http11_st166 r c =
     (if c = 4 then goto 48 else goto 0)"

definition http11_st167 :: "bool \<Rightarrow> int \<Rightarrow> http11_action jump" where [http11_code]:
  "http11_st167 r c =
     (if c = 58 then goto 168 else goto 0)"

definition http11_st168 :: "bool \<Rightarrow> int \<Rightarrow> http11_action jump" where [http11_code]:
  "http11_st168 r c =
     (if c = 49 then goto 143 else if c = 50 then goto 146 else if c = 93 then goto 61 else
      if c < 48 then (if 2 \<le> c \<and> c \<le> 5 then goto 48 else goto 0)
      else if c > 57 then (if c > 70 then (if 97 \<le> c \<and> c \<le> 102 then goto 149 else goto 0)
        else if c \<ge> 65 then goto 149 else goto 0)
      else goto 127)"

definition http11_st169 :: "bool \<Rightarrow> int \<Rightarrow> http11_action jump" where [http11_code]:
  "http11_st169 r c =
     (if c < 65 then (if 48 \<le> c \<and> c \<le> 57 then goto 170 else goto 0)
      else if c > 70 then (if 97 \<le> c \<and> c \<le> 102 then goto 170 else goto 0) else goto 170)"

definition http11_st170 :: "bool \<Rightarrow> int \<Rightarrow> http11_action jump" where [http11_code]:
  "http11_st170 r c =
     (if c = 46 then goto 171 else
      if c < 65 then (if 48 \<le> c \<and> c \<le> 57 then goto 170 else goto 0)
      else if c > 70 then (if 97 \<le> c \<and> c \<le> 102 then goto 170 else goto 0) else goto 170)"

definition http11_st171 :: "bool \<Rightarrow> int \<Rightarrow> http11_action jump" where [http11_code]:
  "http11_st171 r c =
     (let w = widec r c in
      if w = 33 then goto 172 else if w = 36 then goto 172 else if w = 61 then goto 172 else
      if w = 95 then goto 172 else if w = 126 then goto 172 else if w = 606 then goto 172 else
      if w = 635 then goto 172 else if w = 637 then goto 172 else
      if w < 48 then (if 38 \<le> w \<and> w \<le> 46 then goto 172 else goto 0)
      else if w > 59 then (if w > 90 then (if 97 \<le> w \<and> w \<le> 122 then goto 172 else goto 0)
        else if w \<ge> 65 then goto 172 else goto 0)
      else goto 172)"

definition http11_st172 :: "bool \<Rightarrow> int \<Rightarrow> http11_action jump" where [http11_code]:
  "http11_st172 r c =
     (let w = widec r c in
      if w = 33 then goto 172 else if w = 36 then goto 172 else if w = 61 then goto 172 else
      if w = 93 then goto 61 else if w = 95 then goto 172 else if w = 126 then goto 172 else
      if w = 606 then goto 172 else if w = 635 then goto 172 else if w = 637 then goto 172 else
      if w < 48 then (if 38 \<le> w \<and> w \<le> 46 then goto 172 else goto 0)
      else if w > 59 then (if w > 90 then (if 97 \<le> w \<and> w \<le> 122 then goto 172 else goto 0)
        else if w \<ge> 65 then goto 172 else goto 0)
      else goto 172)"

definition http11_st173 :: "bool \<Rightarrow> int \<Rightarrow> http11_action jump" where [http11_code]:
  "http11_st173 r c =
     (let w = widec r c in
      if w = 32 then http11_tr37 else if w = 33 then goto 19 else
      if w = 35 then http11_tr39 else if w = 37 then goto 24 else if w = 43 then goto 173 else
      if w = 47 then goto 26 else if w = 58 then goto 174 else if w = 59 then goto 19 else
      if w = 61 then goto 19 else if w = 63 then http11_tr42 else if w = 64 then goto 19 else
      if w = 95 then goto 19 else if w = 126 then goto 19 else if w = 606 then goto 19 else
      if w = 635 then goto 19 else if w = 637 then goto 19 else
      if w < 45 then (if 36 \<le> w \<and> w \<le> 44 then goto 19 else goto 0)
      else if w > 57 then (if w > 90 then (if 97 \<le> w \<and> w \<le> 122 then goto 173 else goto 0)
        else if w \<ge> 65 then goto 173 else goto 0)
      else goto 173)"

definition http11_st174 :: "bool \<Rightarrow> int \<Rightarrow> http11_action jump" where [http11_code]:
  "http11_st174 r c =
     (let w = widec r c in
      if w = 32 then http11_tr6 else if w = 33 then http11_tr203 else
      if w = 35 then http11_tr8 else if w = 37 then http11_tr204 else
      if w = 47 then http11_tr10 else if w = 61 then http11_tr203 else
      if w = 63 then http11_tr11 else if w = 95 then http11_tr203 else
      if w = 126 then http11_tr203 else if w = 606 then http11_tr203 else
      if w = 635 then http11_tr203 else if w = 637 then http11_tr203 else
      if w < 36 then (if w \<le> -1 then http11_tr203 else goto 0)
      else if w > 59 then (if w > 90 then (if 97 \<le> w \<and> w \<le> 122 then http11_tr203 else goto 0)
        else if w \<ge> 64 then http11_tr203 else goto 0)
      else http11_tr203)"

definition http11_st175 :: "bool \<Rightarrow> int \<Rightarrow> http11_action jump" where [http11_code]:
  "http11_st175 r c =
     (if c = 32 then http11_tr4 else
      if c > 57 then (if 65 \<le> c \<and> c \<le> 90 then goto 176 else goto 0)
      else if c \<ge> 48 then goto 176 else goto 0)"

definition http11_st176 :: "bool \<Rightarrow> int \<Rightarrow> http11_action jump" where [http11_code]:
  "http11_st176 r c =
     (if c = 32 then http11_tr4 else
      if c > 57 then (if 65 \<le> c \<and> c \<le> 90 then goto 177 else goto 0)
      else if c \<ge> 48 then goto 177 else goto 0)"

definition http11_st177 :: "bool \<Rightarrow> int \<Rightarrow> http11_action jump" where [http11_code]:
  "http11_st177 r c =
     (if c = 32 then http11_tr4 else
      if c > 57 then (if 65 \<le> c \<and> c \<le> 90 then goto 178 else goto 0)
      else if c \<ge> 48 then goto 178 else goto 0)"

definition http11_st178 :: "bool \<Rightarrow> int \<Rightarrow> http11_action jump" where [http11_code]:
  "http11_st178 r c =
     (if c = 32 then http11_tr4 else
      if c > 57 then (if 65 \<le> c \<and> c \<le> 90 then goto 179 else goto 0)
      else if c \<ge> 48 then goto 179 else goto 0)"

definition http11_st179 :: "bool \<Rightarrow> int \<Rightarrow> http11_action jump" where [http11_code]:
  "http11_st179 r c =
     (if c = 32 then http11_tr4 else
      if c > 57 then (if 65 \<le> c \<and> c \<le> 90 then goto 180 else goto 0)
      else if c \<ge> 48 then goto 180 else goto 0)"

definition http11_st180 :: "bool \<Rightarrow> int \<Rightarrow> http11_action jump" where [http11_code]:
  "http11_st180 r c =
     (if c = 32 then http11_tr4 else
      if c > 57 then (if 65 \<le> c \<and> c \<le> 90 then goto 181 else goto 0)
      else if c \<ge> 48 then goto 181 else goto 0)"

definition http11_st181 :: "bool \<Rightarrow> int \<Rightarrow> http11_action jump" where [http11_code]:
  "http11_st181 r c =
     (if c = 32 then http11_tr4 else
      if c > 57 then (if 65 \<le> c \<and> c \<le> 90 then goto 182 else goto 0)
      else if c \<ge> 48 then goto 182 else goto 0)"

definition http11_st182 :: "bool \<Rightarrow> int \<Rightarrow> http11_action jump" where [http11_code]:
  "http11_st182 r c =
     (if c = 32 then http11_tr4 else
      if c > 57 then (if 65 \<le> c \<and> c \<le> 90 then goto 183 else goto 0)
      else if c \<ge> 48 then goto 183 else goto 0)"

definition http11_st183 :: "bool \<Rightarrow> int \<Rightarrow> http11_action jump" where [http11_code]:
  "http11_st183 r c =
     (if c = 32 then http11_tr4 else
      if c > 57 then (if 65 \<le> c \<and> c \<le> 90 then goto 184 else goto 0)
      else if c \<ge> 48 then goto 184 else goto 0)"

definition http11_st184 :: "bool \<Rightarrow> int \<Rightarrow> http11_action jump" where [http11_code]:
  "http11_st184 r c =
     (if c = 32 then http11_tr4 else
      if c > 57 then (if 65 \<le> c \<and> c \<le> 90 then goto 185 else goto 0)
      else if c \<ge> 48 then goto 185 else goto 0)"

definition http11_st185 :: "bool \<Rightarrow> int \<Rightarrow> http11_action jump" where [http11_code]:
  "http11_st185 r c =
     (if c = 32 then http11_tr4 else
      if c > 57 then (if 65 \<le> c \<and> c \<le> 90 then goto 186 else goto 0)
      else if c \<ge> 48 then goto 186 else goto 0)"

definition http11_st186 :: "bool \<Rightarrow> int \<Rightarrow> http11_action jump" where [http11_code]:
  "http11_st186 r c =
     (if c = 32 then http11_tr4 else
      if c > 57 then (if 65 \<le> c \<and> c \<le> 90 then goto 187 else goto 0)
      else if c \<ge> 48 then goto 187 else goto 0)"

definition http11_st187 :: "bool \<Rightarrow> int \<Rightarrow> http11_action jump" where [http11_code]:
  "http11_st187 r c =
     (if c = 32 then http11_tr4 else
      if c > 57 then (if 65 \<le> c \<and> c \<le> 90 then goto 188 else goto 0)
      else if c \<ge> 48 then goto 188 else goto 0)"

definition http11_st188 :: "bool \<Rightarrow> int \<Rightarrow> http11_action jump" where [http11_code]:
  "http11_st188 r c =
     (if c = 32 then http11_tr4 else
      if c > 57 then (if 65 \<le> c \<and> c \<le> 90 then goto 189 else goto 0)
      else if c \<ge> 48 then goto 189 else goto 0)"

definition http11_st189 :: "bool \<Rightarrow> int \<Rightarrow> http11_action jump" where [http11_code]:
  "http11_st189 r c =
     (if c = 32 then http11_tr4 else
      if c > 57 then (if 65 \<le> c \<and> c \<le> 90 then goto 190 else goto 0)
      else if c \<ge> 48 then goto 190 else goto 0)"

definition http11_st190 :: "bool \<Rightarrow> int \<Rightarrow> http11_action jump" where [http11_code]:
  "http11_st190 r c =
     (if c = 32 then http11_tr4 else
      if c > 57 then (if 65 \<le> c \<and> c \<le> 90 then goto 191 else goto 0)
      else if c \<ge> 48 then goto 191 else goto 0)"

definition http11_st191 :: "bool \<Rightarrow> int \<Rightarrow> http11_action jump" where [http11_code]:
  "http11_st191 r c =
     (if c = 32 then http11_tr4 else
      if c > 57 then (if 65 \<le> c \<and> c \<le> 90 then goto 192 else goto 0)
      else if c \<ge> 48 then goto 192 else goto 0)"

definition http11_st192 :: "bool \<Rightarrow> int \<Rightarrow> http11_action jump" where [http11_code]:
  "http11_st192 r c =
     (if c = 32 then http11_tr4 else
      if c > 57 then (if 65 \<le> c \<and> c \<le> 90 then goto 193 else goto 0)
      else if c \<ge> 48 then goto 193 else goto 0)"

definition http11_st193 :: "bool \<Rightarrow> int \<Rightarrow> http11_action jump" where [http11_code]:
  "http11_st193 r c =
     (if c = 32 then http11_tr4 else goto 0)"

definition http11_st194 :: "bool \<Rightarrow> int \<Rightarrow> http11_action jump" where [http11_code]:
  "http11_st194 r c =
     (if c < 48 then (if 45 \<le> c \<and> c \<le> 46 then goto 195 else goto 0)
      else if c > 57 then (if c > 90 then (if 97 \<le> c \<and> c \<le> 122 then goto 195 else goto 0)
        else if c \<ge> 65 then goto 195 else goto 0)
      else goto 195)"

definition http11_st195 :: "bool \<Rightarrow> int \<Rightarrow> http11_action jump" where [http11_code]:
  "http11_st195 r c =
     (if c = 32 then http11_tr224 else if c = 47 then http11_tr224 else
      if c = 62 then http11_tr224 else
      if c < 45 then (if 9 \<le> c \<and> c \<le> 13 then http11_tr224 else goto 0)
      else if c > 57 then (if c > 90 then (if 97 \<le> c \<and> c \<le> 122 then goto 195 else goto 0)
        else if c \<ge> 65 then goto 195 else goto 0)
      else goto 195)"

definition http11_st196 :: "bool \<Rightarrow> int \<Rightarrow> http11_action jump" where [http11_code]:
  "http11_st196 r c =
     (if c = 62 then goto 197 else goto 196)"

definition http11_st197 :: "bool \<Rightarrow> int \<Rightarrow> http11_action jump" where [http11_code]:
  "http11_st197 r c =
     (if c = 0 then http11_tr227 else if c = 62 then goto 197 else goto 196)"

definition http11_st198 :: "bool \<Rightarrow> int \<Rightarrow> http11_action jump" where [http11_code]:
  "http11_st198 r c =
     (let w = widec r c in
      if w = 32 then http11_tr228 else if w = 33 then goto 202 else
      if w = 37 then goto 203 else if w = 47 then goto 208 else if w = 59 then goto 202 else
      if w = 61 then goto 202 else if w = 95 then goto 202 else if w = 126 then goto 202 else
      if w = 606 then goto 202 else if w = 635 then goto 202 else if w = 637 then goto 202 else
      if w < 64 then (if 36 \<le> w \<and> w \<le> 57 then goto 202 else goto 0)
      else if w > 90 then (if 97 \<le> w \<and> w \<le> 122 then goto 202 else goto 0) else goto 202)"

definition http11_st199 :: "bool \<Rightarrow> int \<Rightarrow> http11_action jump" where [http11_code]:
  "http11_st199 r c =
     (if c = 123 then http11_tr232 else goto 0)"

definition http11_st200 :: "bool \<Rightarrow> int \<Rightarrow> http11_action jump" where [http11_code]:
  "http11_st200 r c =
     (if c = 125 then goto 201 else goto 200)"

definition http11_st201 :: "bool \<Rightarrow> int \<Rightarrow> http11_action jump" where [http11_code]:
  "http11_st201 r c =
     (if c = 0 then http11_tr235 else if c = 125 then goto 201 else goto 200)"

definition http11_st202 :: "bool \<Rightarrow> int \<Rightarrow> http11_action jump" where [http11_code]:
  "http11_st202 r c =
     (let w = widec r c in
      if w = 32 then http11_tr228 else if w = 33 then goto 202 else
      if w = 37 then goto 203 else if w = 47 then goto 205 else if w = 59 then goto 202 else
      if w = 61 then goto 202 else if w = 95 then goto 202 else if w = 126 then goto 202 else
      if w = 606 then goto 202 else if w = 635 then goto 202 else if w = 637 then goto 202 else
      if w < 64 then (if 36 \<le> w \<and> w \<le> 57 then goto 202 else goto 0)
      else if w > 90 then (if 97 \<le> w \<and> w \<le> 122 then goto 202 else goto 0) else goto 202)"

definition http11_st203 :: "bool \<Rightarrow> int \<Rightarrow> http11_action jump" where [http11_code]:
  "http11_st203 r c =
     (if c < 65 then (if 48 \<le> c \<and> c \<le> 57 then goto 204 else goto 0)
      else if c > 70 then (if 97 \<le> c \<and> c \<le> 102 then goto 204 else goto 0) else goto 204)"

definition http11_st204 :: "bool \<Rightarrow> int \<Rightarrow> http11_action jump" where [http11_code]:
  "http11_st204 r c =
     (if c < 65 then (if 48 \<le> c \<and> c \<le> 57 then goto 202 else goto 0)
      else if c > 70 then (if 97 \<le> c \<and> c \<le> 102 then goto 202 else goto 0) else goto 202)"

definition http11_st205 :: "bool \<Rightarrow> int \<Rightarrow> http11_action jump" where [http11_code]:
  "http11_st205 r c =
     (let w = widec r c in
      if w = 32 then http11_tr228 else if w = 33 then goto 205 else
      if w = 37 then goto 206 else if w = 61 then goto 205 else if w = 95 then goto 205 else
      if w = 126 then goto 205 else if w = 606 then goto 205 else if w = 635 then goto 205 else
      if w = 637 then goto 205 else
      if w < 36 then (if w \<le> -1 then goto 205 else goto 0)
      else if w > 59 then (if w > 90 then (if 97 \<le> w \<and> w \<le> 122 then goto 205 else goto 0)
        else if w \<ge> 64 then goto 205 else goto 0)
      else goto 205)"

definition http11_st206 :: "bool \<Rightarrow> int \<Rightarrow> http11_action jump" where [http11_code]:
  "http11_st206 r c =
     (if c < 65 then (if 48 \<le> c \<and> c \<le> 57 then goto 207 else goto 0)
      else if c > 70 then (if 97 \<le> c \<and> c \<le> 102 then goto 207 else goto 0) else goto 207)"

definition http11_st207 :: "bool \<Rightarrow> int \<Rightarrow> http11_action jump" where [http11_code]:
  "http11_st207 r c =
     (if c < 65 then (if 48 \<le> c \<and> c \<le> 57 then goto 205 else goto 0)
      else if c > 70 then (if 97 \<le> c \<and> c \<le> 102 then goto 205 else goto 0) else goto 205)"

definition http11_st208 :: "bool \<Rightarrow> int \<Rightarrow> http11_action jump" where [http11_code]:
  "http11_st208 r c =
     (let w = widec r c in
      if w = 32 then http11_tr228 else if w = 33 then goto 205 else
      if w = 37 then goto 206 else if w = 47 then goto 209 else if w = 61 then goto 205 else
      if w = 95 then goto 205 else if w = 126 then goto 205 else if w = 606 then goto 205 else
      if w = 635 then goto 205 else if w = 637 then goto 205 else
      if w < 36 then (if w \<le> -1 then goto 205 else goto 0)
      else if w > 59 then (if w > 90 then (if 97 \<le> w \<and> w \<le> 122 then goto 205 else goto 0)
        else if w \<ge> 64 then goto 205 else goto 0)
      else goto 205)"

definition http11_st209 :: "bool \<Rightarrow> int \<Rightarrow> http11_action jump" where [http11_code]:
  "http11_st209 r c =
     (let w = widec r c in
      if w = 32 then http11_tr228 else if w = 33 then goto 210 else
      if w = 37 then goto 211 else if w = 47 then goto 205 else if w = 58 then goto 213 else
      if w = 61 then goto 210 else if w = 64 then goto 217 else if w = 91 then goto 222 else
      if w = 95 then goto 210 else if w = 126 then goto 210 else if w = 606 then goto 210 else
      if w = 635 then goto 210 else if w = 637 then goto 210 else
      if w < 65 then (if 36 \<le> w \<and> w \<le> 59 then goto 210 else goto 0)
      else if w > 90 then (if 97 \<le> w \<and> w \<le> 122 then goto 210 else goto 0) else goto 210)"

definition http11_st210 :: "bool \<Rightarrow> int \<Rightarrow> http11_action jump" where [http11_code]:
  "http11_st210 r c =
     (let w = widec r c in
      if w = 32 then http11_tr228 else if w = 33 then goto 210 else
      if w = 37 then goto 211 else if w = 47 then goto 205 else if w = 58 then goto 213 else
      if w = 61 then goto 210 else if w = 64 then goto 217 else if w = 95 then goto 210 else
      if w = 126 then goto 210 else if w = 606 then goto 210 else if w = 635 then goto 210 else
      if w = 637 then goto 210 else
      if w < 65 then (if 36 \<le> w \<and> w \<le> 59 then goto 210 else goto 0)
      else if w > 90 then (if 97 \<le> w \<and> w \<le> 122 then goto 210 else goto 0) else goto 210)"

definition http11_st211 :: "bool \<Rightarrow> int \<Rightarrow> http11_action jump" where [http11_code]:
  "http11_st211 r c =
     (if c < 65 then (if 48 \<le> c \<and> c \<le> 57 then goto 212 else goto 0)
      else if c > 70 then (if 97 \<le> c \<and> c \<le> 102 then goto 212 else goto 0) else goto 212)"

definition http11_st212 :: "bool \<Rightarrow> int \<Rightarrow> http11_action jump" where [http11_code]:
  "http11_st212 r c =
     (if c < 65 then (if 48 \<le> c \<and> c \<le> 57 then goto 210 else goto 0)
      else if c > 70 then (if 97 \<le> c \<and> c \<le> 102 then goto 210 else goto 0) else goto 210)"

definition http11_st213 :: "bool \<Rightarrow> int \<Rightarrow> http11_action jump" where [http11_code]:
  "http11_st213 r c =
     (let w = widec r c in
      if w = 32 then http11_tr228 else if w = 33 then goto 214 else
      if w = 37 then goto 215 else if w = 47 then goto 205 else if w = 61 then goto 214 else
      if w = 64 then goto 217 else if w = 95 then goto 214 else if w = 126 then goto 214 else
      if w = 606 then goto 214 else if w = 635 then goto 214 else if w = 637 then goto 214 else
      if w < 58 then (if w > 46 then (if 48 \<le> w \<and> w \<le> 57 then goto 213 else goto 0)
        else if w \<ge> 36 then goto 214 else goto 0)
      else if w > 59 then (if w > 90 then (if 97 \<le> w \<and> w \<le> 122 then goto 214 else goto 0)
        else if w \<ge> 65 then goto 214 else goto 0)
      else goto 214)"

definition http11_st214 :: "bool \<Rightarrow> int \<Rightarrow> http11_action jump" where [http11_code]:
  "http11_st214 r c =
     (let w = widec r c in
      if w = 33 then goto 214 else if w = 37 then goto 215 else if w = 61 then goto 214 else
      if w = 64 then goto 217 else if w = 95 then goto 214 else if w = 126 then goto 214 else
      if w = 606 then goto 214 else if w = 635 then goto 214 else if w = 637 then goto 214 else
      if w < 48 then (if 36 \<le> w \<and> w \<le> 46 then goto 214 else goto 0)
      else if w > 59 then (if w > 90 then (if 97 \<le> w \<and> w \<le> 122 then goto 214 else goto 0)
        else if w \<ge> 65 then goto 214 else goto 0)
      else goto 214)"

definition http11_st215 :: "bool \<Rightarrow> int \<Rightarrow> http11_action jump" where [http11_code]:
  "http11_st215 r c =
     (if c < 65 then (if 48 \<le> c \<and> c \<le> 57 then goto 216 else goto 0)
      else if c > 70 then (if 97 \<le> c \<and> c \<le> 102 then goto 216 else goto 0) else goto 216)"

definition http11_st216 :: "bool \<Rightarrow> int \<Rightarrow> http11_action jump" where [http11_code]:
  "http11_st216 r c =
     (if c < 65 then (if 48 \<le> c \<and> c \<le> 57 then goto 214 else goto 0)
      else if c > 70 then (if 97 \<le> c \<and> c \<le> 102 then goto 214 else goto 0) else goto 214)"

definition http11_st217 :: "bool \<Rightarrow> int \<Rightarrow> http11_action jump" where [http11_code]:
  "http11_st217 r c =
     (let w = widec r c in
      if w = 32 then http11_tr228 else if w = 33 then goto 218 else
      if w = 37 then goto 219 else if w = 47 then goto 205 else if w = 58 then goto 221 else
      if w = 61 then goto 218 else if w = 91 then goto 222 else if w = 95 then goto 218 else
      if w = 126 then goto 218 else if w = 606 then goto 218 else if w = 635 then goto 218 else
      if w = 637 then goto 218 else
      if w < 65 then (if 36 \<le> w \<and> w \<le> 59 then goto 218 else goto 0)
      else if w > 90 then (if 97 \<le> w \<and> w \<le> 122 then goto 218 else goto 0) else goto 218)"

definition http11_st218 :: "bool \<Rightarrow> int \<Rightarrow> http11_action jump" where [http11_code]:
  "http11_st218 r c =
     (let w = widec r c in
      if w = 32 then http11_tr228 else if w = 33 then goto 218 else
      if w = 37 then goto 219 else if w = 47 then goto 205 else if w = 58 then goto 221 else
      if w = 61 then goto 218 else if w = 95 then goto 218 else if w = 126 then goto 218 else
      if w = 606 then goto 218 else if w = 635 then goto 218 else if w = 637 then goto 218 else
      if w < 65 then (if 36 \<le> w \<and> w \<le> 59 then goto 218 else goto 0)
      else if w > 90 then (if 97 \<le> w \<and> w \<le> 122 then goto 218 else goto 0) else goto 218)"

definition http11_st219 :: "bool \<Rightarrow> int \<Rightarrow> http11_action jump" where [http11_code]:
  "http11_st219 r c =
     (if c < 65 then (if 48 \<le> c \<and> c \<le> 57 then goto 220 else goto 0)
      else if c > 70 then (if 97 \<le> c \<and> c \<le> 102 then goto 220 else goto 0) else goto 220)"

definition http11_st220 :: "bool \<Rightarrow> int \<Rightarrow> http11_action jump" where [http11_code]:
  "http11_st220 r c =
     (if c < 65 then (if 48 \<le> c \<and> c \<le> 57 then goto 218 else goto 0)
      else if c > 70 then (if 97 \<le> c \<and> c \<le> 102 then goto 218 else goto 0) else goto 218)"

definition http11_st221 :: "bool \<Rightarrow> int \<Rightarrow> http11_action jump" where [http11_code]:
  "http11_st221 r c =
     (if c = 32 then http11_tr228 else if c = 47 then goto 205 else
      if 48 \<le> c \<and> c \<le> 57 then goto 221 else goto 0)"

definition http11_st222 :: "bool \<Rightarrow> int \<Rightarrow> http11_action jump" where [http11_code]:
  "http11_st222 r c =
     (if c = 6 then goto 223 else if c = 58 then goto 342 else if c = 118 then goto 344 else
      if c < 65 then (if 48 \<le> c \<and> c \<le> 57 then goto 266 else goto 0)
      else if c > 70 then (if 97 \<le> c \<and> c \<le> 102 then goto 266 else goto 0) else goto 266)"

definition http11_st223 :: "bool \<Rightarrow> int \<Rightarrow> http11_action jump" where [http11_code]:
  "http11_st223 r c =
     (if c < 65 then (if 48 \<le> c \<and> c \<le> 57 then goto 224 else goto 0)
      else if c > 70 then (if 97 \<le> c \<and> c \<le> 102 then goto 224 else goto 0) else goto 224)"

definition http11_st224 :: "bool \<Rightarrow> int \<Rightarrow> http11_action jump" where [http11_code]:
  "http11_st224 r c =
     (if c = 58 then goto 228 else
      if c < 65 then (if 48 \<le> c \<and> c \<le> 57 then goto 225 else goto 0)
      else if c > 70 then (if 97 \<le> c \<and> c \<le> 102 then goto 225 else goto 0) else goto 225)"

definition http11_st225 :: "bool \<Rightarrow> int \<Rightarrow> http11_action jump" where [http11_code]:
  "http11_st225 r c =
     (if c = 58 then goto 228 else
      if c < 65 then (if 48 \<le> c \<and> c \<le> 57 then goto 226 else goto 0)
      else if c > 70 then (if 97 \<le> c \<and> c \<le> 102 then goto 226 else goto 0) else goto 226)"

definition http11_st226 :: "bool \<Rightarrow> int \<Rightarrow> http11_action jump" where [http11_code]:
  "http11_st226 r c =
     (if c = 58 then goto 228 else
      if c < 65 then (if 48 \<le> c \<and> c \<le> 57 then goto 227 else goto 0)
      else if c > 70 then (if 97 \<le> c \<and> c \<le> 102 then goto 227 else goto 0) else goto 227)"

definition http11_st227 :: "bool \<Rightarrow> int \<Rightarrow> http11_action jump" where [http11_code]:
  "http11_st227 r c =
     (if c = 58 then goto 228 else goto 0)"

definition http11_st228 :: "bool \<Rightarrow> int \<Rightarrow> http11_action jump" where [http11_code]:
  "http11_st228 r c =
     (if c = 49 then goto 259 else if c = 50 then goto 262 else
      if c < 65 then (if 48 \<le> c \<and> c \<le> 57 then goto 229 else goto 0)
      else if c > 70 then (if 97 \<le> c \<and> c \<le> 102 then goto 265 else goto 0) else goto 265)"

definition http11_st229 :: "bool \<Rightarrow> int \<Rightarrow> http11_action jump" where [http11_code]:
  "http11_st229 r c =
     (if c = 46 then goto 230 else if c = 58 then goto 255 else
      if c < 65 then (if 48 \<le> c \<and> c \<le> 57 then goto 252 else goto 0)
      else if c > 70 then (if 97 \<le> c \<and> c \<le> 102 then goto 252 else goto 0) else goto 252)"

definition http11_st230 :: "bool \<Rightarrow> int \<Rightarrow> http11_action jump" where [http11_code]:
  "http11_st230 r c =
     (if c = 49 then goto 247 else if c = 50 then goto 249 else
      if 48 \<le> c \<and> c \<le> 57 then goto 231 else goto 0)"

definition http11_st231 :: "bool \<Rightarrow> int \<Rightarrow> http11_action jump" where [http11_code]:
  "http11_st231 r c =
     (if c = 46 then goto 232 else goto 0)"

definition http11_st232 :: "bool \<Rightarrow> int \<Rightarrow> http11_action jump" where [http11_code]:
  "http11_st232 r c =
     (if c = 49 then goto 242 else if c = 50 then goto 244 else
      if 48 \<le> c \<and> c \<le> 57 then goto 233 else goto 0)"

definition http11_st233 :: "bool \<Rightarrow> int \<Rightarrow> http11_action jump" where [http11_code]:
  "http11_st233 r c =
     (if c = 46 then goto 234 else goto 0)"

definition http11_st234 :: "bool \<Rightarrow> int \<Rightarrow> http11_action jump" where [http11_code]:
  "http11_st234 r c =
     (if c = 49 then goto 237 else if c = 50 then goto 239 else
      if 48 \<le> c \<and> c \<le> 57 then goto 235 else goto 0)"

definition http11_st235 :: "bool \<Rightarrow> int \<Rightarrow> http11_action jump" where [http11_code]:
  "http11_st235 r c =
     (if c = 93 then goto 236 else goto 0)"

definition http11_st236 :: "bool \<Rightarrow> int \<Rightarrow> http11_action jump" where [http11_code]:
  "http11_st236 r c =
     (if c = 32 then http11_tr228 else if c = 47 then goto 205 else
      if c = 58 then goto 221 else goto 0)"

definition http11_st237 :: "bool \<Rightarrow> int \<Rightarrow> http11_action jump" where [http11_code]:
  "http11_st237 r c =
     (if c = 93 then goto 236 else if 48 \<le> c \<and> c \<le> 57 then goto 238 else goto 0)"

definition http11_st238 :: "bool \<Rightarrow> int \<Rightarrow> http11_action jump" where [http11_code]:
  "http11_st238 r c =
     (if c = 93 then goto 236 else if 48 \<le> c \<and> c \<le> 57 then goto 235 else goto 0)"

definition http11_st239 :: "bool \<Rightarrow> int \<Rightarrow> http11_action jump" where [http11_code]:
  "http11_st239 r c =
     (if c = 48 then goto 240 else if c = 53 then goto 241 else if c = 93 then goto 236 else
      goto 0)"

definition http11_st240 :: "bool \<Rightarrow> int \<Rightarrow> http11_action jump" where [http11_code]:
  "http11_st240 r c =
     (if 48 \<le> c \<and> c \<le> 57 then goto 235 else goto 0)"

definition http11_st241 :: "bool \<Rightarrow> int \<Rightarrow> http11_action jump" where [http11_code]:
  "http11_st241 r c =
     (if c = 48 then goto 235 else goto 0)"

definition http11_st242 :: "bool \<Rightarrow> int \<Rightarrow> http11_action jump" where [http11_code]:
  "http11_st242 r c =
     (if c = 46 then goto 234 else if 48 \<le> c \<and> c \<le> 57 then goto 243 else goto 0)"

definition http11_st243 :: "bool \<Rightarrow> int \<Rightarrow> http11_action jump" where [http11_code]:
  "http11_st243 r c =
     (if c = 46 then goto 234 else if 48 \<le> c \<and> c \<le> 57 then goto 233 else goto 0)"

definition http11_st244 :: "bool \<Rightarrow> int \<Rightarrow> http11_action jump" where [http11_code]:
  "http11_st244 r c =
     (if c = 46 then goto 234 else if c = 48 then goto 245 else if c = 53 then goto 246 else
      goto 0)"

definition http11_st245 :: "bool \<Rightarrow> int \<Rightarrow> http11_action jump" where [http11_code]:
  "http11_st245 r c =
     (if 48 \<le> c \<and> c \<le> 57 then goto 233 else goto 0)"

definition http11_st246 :: "bool \<Rightarrow> int \<Rightarrow> http11_action jump" where [http11_code]:
  "http11_st246 r c =
     (if c = 48 then goto 233 else goto 0)"

definition http11_st247 :: "bool \<Rightarrow> int \<Rightarrow> http11_action jump" where [http11_code]:
  "http11_st247 r c =
     (if c = 46 then goto 232 else if 48 \<le> c \<and> c \<le> 57 then goto 248 else goto 0)"

definition http11_st248 :: "bool \<Rightarrow> int \<Rightarrow> http11_action jump" where [http11_code]:
  "http11_st248 r c =
     (if c = 46 then goto 232 else if 48 \<le> c \<and> c \<le> 57 then goto 231 else goto 0)"

definition http11_st249 :: "bool \<Rightarrow> int \<Rightarrow> http11_action jump" where [http11_code]:
  "http11_st249 r c =
     (if c = 46 then goto 232 else if c = 48 then goto 250 else if c = 53 then goto 251 else
      goto 0)"

definition http11_st250 :: "bool \<Rightarrow> int \<Rightarrow> http11_action jump" where [http11_code]:
  "http11_st250 r c =
     (if 48 \<le> c \<and> c \<le> 57 then goto 231 else goto 0)"

definition http11_st251 :: "bool \<Rightarrow> int \<Rightarrow> http11_action jump" where [http11_code]:
  "http11_st251 r c =
     (if c = 48 then goto 231 else goto 0)"

definition http11_st252 :: "bool \<Rightarrow> int \<Rightarrow> http11_action jump" where [http11_code]:
  "http11_st252 r c =
     (if c = 58 then goto 255 else
      if c < 65 then (if 48 \<le> c \<and> c \<le> 57 then goto 253 else goto 0)
      else if c > 70 then (if 97 \<le> c \<and> c \<le> 102 then goto 253 else goto 0) else goto 253)"

definition http11_st253 :: "bool \<Rightarrow> int \<Rightarrow> http11_action jump" where [http11_code]:
  "http11_st253 r c =
     (if c = 58 then goto 255 else
      if c < 65 then (if 48 \<le> c \<and> c \<le> 57 then goto 254 else goto 0)
      else if c > 70 then (if 97 \<le> c \<and> c \<le> 102 then goto 254 else goto 0) else goto 254)"

definition http11_st254 :: "bool \<Rightarrow> int \<Rightarrow> http11_action jump" where [http11_code]:
  "http11_st254 r c =
     (if c = 58 then goto 255 else goto 0)"

definition http11_st255 :: "bool \<Rightarrow> int \<Rightarrow> http11_action jump" where [http11_code]:
  "http11_st255 r c =
     (if c < 65 then (if 48 \<le> c \<and> c \<le> 57 then goto 256 else goto 0)
      else if c > 70 then (if 97 \<le> c \<and> c \<le> 102 then goto 256 else goto 0) else goto 256)"

definition http11_st256 :: "bool \<Rightarrow> int \<Rightarrow> http11_action jump" where [http11_code]:
  "http11_st256 r c =
     (if c = 93 then goto 236 else
      if c < 65 then (if 48 \<le> c \<and> c \<le> 57 then goto 257 else goto 0)
      else if c > 70 then (if 97 \<le> c \<and> c \<le> 102 then goto 257 else goto 0) else goto 257)"

definition http11_st257 :: "bool \<Rightarrow> int \<Rightarrow> http11_action jump" where [http11_code]:
  "http11_st257 r c =
     (if c = 93 then goto 236 else
      if c < 65 then (if 48 \<le> c \<and> c \<le> 57 then goto 258 else goto 0)
      else if c > 70 then (if 97 \<le> c \<and> c \<le> 102 then goto 258 else goto 0) else goto 258)"

definition http11_st258 :: "bool \<Rightarrow> int \<Rightarrow> http11_action jump" where [http11_code]:
  "http11_st258 r c =
     (if c = 93 then goto 236 else
      if c < 65 then (if 48 \<le> c \<and> c \<le> 57 then goto 235 else goto 0)
      else if c > 70 then (if 97 \<le> c \<and> c \<le> 102 then goto 235 else goto 0) else goto 235)"

definition http11_st259 :: "bool \<Rightarrow> int \<Rightarrow> http11_action jump" where [http11_code]:
  "http11_st259 r c =
     (if c = 46 then goto 230 else if c = 58 then goto 255 else
      if c < 65 then (if 48 \<le> c \<and> c \<le> 57 then goto 260 else goto 0)
      else if c > 70 then (if 97 \<le> c \<and> c \<le> 102 then goto 252 else goto 0) else goto 252)"

definition http11_st260 :: "bool \<Rightarrow> int \<Rightarrow> http11_action jump" where [http11_code]:
  "http11_st260 r c =
     (if c = 46 then goto 230 else if c = 58 then goto 255 else
      if c < 65 then (if 48 \<le> c \<and> c \<le> 57 then goto 261 else goto 0)
      else if c > 70 then (if 97 \<le> c \<and> c \<le> 102 then goto 253 else goto 0) else goto 253)"

definition http11_st261 :: "bool \<Rightarrow> int \<Rightarrow> http11_action jump" where [http11_code]:
  "http11_st261 r c =
     (if c = 46 then goto 230 else if c = 58 then goto 255 else
      if c < 65 then (if 48 \<le> c \<and> c \<le> 57 then goto 254 else goto 0)
      else if c > 70 then (if 97 \<le> c \<and> c \<le> 102 then goto 254 else goto 0) else goto 254)"

definition http11_st262 :: "bool \<Rightarrow> int \<Rightarrow> http11_action jump" where [http11_code]:
  "http11_st262 r c =
     (if c = 46 then goto 230 else if c = 48 then goto 263 else if c = 53 then goto 264 else
      if c = 58 then goto 255 else
      if c < 65 then (if 49 \<le> c \<and> c \<le> 57 then goto 252 else goto 0)
      else if c > 70 then (if 97 \<le> c \<and> c \<le> 102 then goto 252 else goto 0) else goto 252)"

definition http11_st263 :: "bool \<Rightarrow> int \<Rightarrow> http11_action jump" where [http11_code]:
  "http11_st263 r c =
     (if c = 58 then goto 255 else
      if c < 65 then (if 48 \<le> c \<and> c \<le> 57 then goto 261 else goto 0)
      else if c > 70 then (if 97 \<le> c \<and> c \<le> 102 then goto 253 else goto 0) else goto 253)"

definition http11_st264 :: "bool \<Rightarrow> int \<Rightarrow> http11_action jump" where [http11_code]:
  "http11_st264 r c =
     (if c = 48 then goto 261 else if c = 58 then goto 255 else
      if c < 65 then (if 49 \<le> c \<and> c \<le> 57 then goto 253 else goto 0)
      else if c > 70 then (if 97 \<le> c \<and> c \<le> 102 then goto 253 else goto 0) else goto 253)"

definition http11_st265 :: "bool \<Rightarrow> int \<Rightarrow> http11_action jump" where [http11_code]:
  "http11_st265 r c =
     (if c = 58 then goto 255 else
      if c < 65 then (if 48 \<le> c \<and> c \<le> 57 then goto 252 else goto 0)
      else if c > 70 then (if 97 \<le> c \<and> c \<le> 102 then goto 252 else goto 0) else goto 252)"

definition http11_st266 :: "bool \<Rightarrow> int \<Rightarrow> http11_action jump" where [http11_code]:
  "http11_st266 r c =
     (if c = 58 then goto 270 else
      if c < 65 then (if 48 \<le> c \<and> c \<le> 57 then goto 267 else goto 0)
      else if c > 70 then (if 97 \<le> c \<and> c \<le> 102 then goto 267 else goto 0) else goto 267)"

definition http11_st267 :: "bool \<Rightarrow> int \<Rightarrow> http11_action jump" where [http11_code]:
  "http11_st267 r c =
     (if c = 58 then goto 270 else
      if c < 65 then (if 48 \<le> c \<and> c \<le> 57 then goto 268 else goto 0)
      else if c > 70 then (if 97 \<le> c \<and> c \<le> 102 then goto 268 else goto 0) else goto 268)"

definition http11_st268 :: "bool \<Rightarrow> int \<Rightarrow> http11_action jump" where [http11_code]:
  "http11_st268 r c =
     (if c = 58 then goto 270 else
      if c < 65 then (if 48 \<le> c \<and> c \<le> 57 then goto 269 else goto 0)
      else if c > 70 then (if 97 \<le> c \<and> c \<le> 102 then goto 269 else goto 0) else goto 269)"

definition http11_st269 :: "bool \<Rightarrow> int \<Rightarrow> http11_action jump" where [http11_code]:
  "http11_st269 r c =
     (if c = 58 then goto 270 else goto 0)"

definition http11_st270 :: "bool \<Rightarrow> int \<Rightarrow> http11_action jump" where [http11_code]:
  "http11_st270 r c =
     (if c = 58 then goto 341 else
      if c < 65 then (if 48 \<le> c \<and> c \<le> 57 then goto 271 else goto 0)
      else if c > 70 then (if 97 \<le> c \<and> c \<le> 102 then goto 271 else goto 0) else goto 271)"

definition http11_st271 :: "bool \<Rightarrow> int \<Rightarrow> http11_action jump" where [http11_code]:
  "http11_st271 r c =
     (if c = 58 then goto 275 else
      if c < 65 then (if 48 \<le> c \<and> c \<le> 57 then goto 272 else goto 0)
      else if c > 70 then (if 97 \<le> c \<and> c \<le> 102 then goto 272 else goto 0) else goto 272)"

definition http11_st272 :: "bool \<Rightarrow> int \<Rightarrow> http11_action jump" where [http11_code]:
  "http11_st272 r c =
     (if c = 58 then goto 275 else
      if c < 65 then (if 48 \<le> c \<and> c \<le> 57 then goto 273 else goto 0)
      else if c > 70 then (if 97 \<le> c \<and> c \<le> 102 then goto 273 else goto 0) else goto 273)"

definition http11_st273 :: "bool \<Rightarrow> int \<Rightarrow> http11_action jump" where [http11_code]:
  "http11_st273 r c =
     (if c = 58 then goto 275 else
      if c < 65 then (if 48 \<le> c \<and> c \<le> 57 then goto 274 else goto 0)
      else if c > 70 then (if 97 \<le> c \<and> c \<le> 102 then goto 274 else goto 0) else goto 274)"

definition http11_st274 :: "bool \<Rightarrow> int \<Rightarrow> http11_action jump" where [http11_code]:
  "http11_st274 r c =
     (if c = 58 then goto 275 else goto 0)"

definition http11_st275 :: "bool \<Rightarrow> int \<Rightarrow> http11_action jump" where [http11_code]:
  "http11_st275 r c =
     (if c = 58 then goto 340 else
      if c < 65 then (if 48 \<le> c \<and> c \<le> 57 then goto 276 else goto 0)
      else if c > 70 then (if 97 \<le> c \<and> c \<le> 102 then goto 276 else goto 0) else goto 276)"

definition http11_st276 :: "bool \<Rightarrow> int \<Rightarrow> http11_action jump" where [http11_code]:
  "http11_st276 r c =
     (if c = 58 then goto 280 else
      if c < 65 then (if 48 \<le> c \<and> c \<le> 57 then goto 277 else goto 0)
      else if c > 70 then (if 97 \<le> c \<and> c \<le> 102 then goto 277 else goto 0) else goto 277)"

definition http11_st277 :: "bool \<Rightarrow> int \<Rightarrow> http11_action jump" where [http11_code]:
  "http11_st277 r c =
     (if c = 58 then goto 280 else
      if c < 65 then (if 48 \<le> c \<and> c \<le> 57 then goto 278 else goto 0)
      else if c > 70 then (if 97 \<le> c \<and> c \<le> 102 then goto 278 else goto 0) else goto 278)"

definition http11_st278 :: "bool \<Rightarrow> int \<Rightarrow> http11_action jump" where [http11_code]:
  "http11_st278 r c =
     (if c = 58 then goto 280 else
      if c < 65 then (if 48 \<le> c \<and> c \<le> 57 then goto 279 else goto 0)
      else if c > 70 then (if 97 \<le> c \<and> c \<le> 102 then goto 279 else goto 0) else goto 279)"

definition http11_st279 :: "bool \<Rightarrow> int \<Rightarrow> http11_action jump" where [http11_code]:
  "http11_st279 r c =
     (if c = 58 then goto 280 else goto 0)"

definition http11_st280 :: "bool \<Rightarrow> int \<Rightarrow> http11_action jump" where [http11_code]:
  "http11_st280 r c =
     (if c = 58 then goto 339 else
      if c < 65 then (if 48 \<le> c \<and> c \<le> 57 then goto 281 else goto 0)
      else if c > 70 then (if 97 \<le> c \<and> c \<le> 102 then goto 281 else goto 0) else goto 281)"

definition http11_st281 :: "bool \<Rightarrow> int \<Rightarrow> http11_action jump" where [http11_code]:
  "http11_st281 r c =
     (if c = 58 then goto 285 else
      if c < 65 then (if 48 \<le> c \<and> c \<le> 57 then goto 282 else goto 0)
      else if c > 70 then (if 97 \<le> c \<and> c \<le> 102 then goto 282 else goto 0) else goto 282)"

definition http11_st282 :: "bool \<Rightarrow> int \<Rightarrow> http11_action jump" where [http11_code]:
  "http11_st282 r c =
     (if c = 58 then goto 285 else
      if c < 65 then (if 48 \<le> c \<and> c \<le> 57 then goto 283 else goto 0)
      else if c > 70 then (if 97 \<le> c \<and> c \<le> 102 then goto 283 else goto 0) else goto 283)"

definition http11_st283 :: "bool \<Rightarrow> int \<Rightarrow> http11_action jump" where [http11_code]:
  "http11_st283 r c =
     (if c = 58 then goto 285 else
      if c < 65 then (if 48 \<le> c \<and> c \<le> 57 then goto 284 else goto 0)
      else if c > 70 then (if 97 \<le> c \<and> c \<le> 102 then goto 284 else goto 0) else goto 284)"

definition http11_st284 :: "bool \<Rightarrow> int \<Rightarrow> http11_action jump" where [http11_code]:
  "http11_st284 r c =
     (if c = 58 then goto 285 else goto 0)"

definition http11_st285 :: "bool \<Rightarrow> int \<Rightarrow> http11_action jump" where [http11_code]:
  "http11_st285 r c =
     (if c = 58 then goto 338 else
      if c < 65 then (if 48 \<le> c \<and> c \<le> 57 then goto 286 else goto 0)
      else if c > 70 then (if 97 \<le> c \<and> c \<le> 102 then goto 286 else goto 0) else goto 286)"

definition http11_st286 :: "bool \<Rightarrow> int \<Rightarrow> http11_action jump" where [http11_code]:
  "http11_st286 r c =
     (if c = 58 then goto 290 else
      if c < 65 then (if 48 \<le> c \<and> c \<le> 57 then goto 287 else goto 0)
      else if c > 70 then (if 97 \<le> c \<and> c \<le> 102 then goto 287 else goto 0) else goto 287)"

definition http11_st287 :: "bool \<Rightarrow> int \<Rightarrow> http11_action jump" where [http11_code]:
  "http11_st287 r c =
     (if c = 58 then goto 290 else
      if c < 65 then (if 48 \<le> c \<and> c \<le> 57 then goto 288 else goto 0)
      else if c > 70 then (if 97 \<le> c \<and> c \<le> 102 then goto 288 else goto 0) else goto 288)"

definition http11_st288 :: "bool \<Rightarrow> int \<Rightarrow> http11_action jump" where [http11_code]:
  "http11_st288 r c =
     (if c = 58 then goto 290 else
      if c < 65 then (if 48 \<le> c \<and> c \<le> 57 then goto 289 else goto 0)
      else if c > 70 then (if 97 \<le> c \<and> c \<le> 102 then goto 289 else goto 0) else goto 289)"

definition http11_st289 :: "bool \<Rightarrow> int \<Rightarrow> http11_action jump" where [http11_code]:
  "http11_st289 r c =
     (if c = 58 then goto 290 else goto 0)"

definition http11_st290 :: "bool \<Rightarrow> int \<Rightarrow> http11_action jump" where [http11_code]:
  "http11_st290 r c =
     (if c = 58 then goto 326 else
      if c < 65 then (if 48 \<le> c \<and> c \<le> 57 then goto 291 else goto 0)
      else if c > 70 then (if 97 \<le> c \<and> c \<le> 102 then goto 291 else goto 0) else goto 291)"

definition http11_st291 :: "bool \<Rightarrow> int \<Rightarrow> http11_action jump" where [http11_code]:
  "http11_st291 r c =
     (if c = 58 then goto 295 else
      if c < 65 then (if 48 \<le> c \<and> c \<le> 57 then goto 292 else goto 0)
      else if c > 70 then (if 97 \<le> c \<and> c \<le> 102 then goto 292 else goto 0) else goto 292)"

definition http11_st292 :: "bool \<Rightarrow> int \<Rightarrow> http11_action jump" where [http11_code]:
  "http11_st292 r c =
     (if c = 58 then goto 295 else
      if c < 65 then (if 48 \<le> c \<and> c \<le> 57 then goto 293 else goto 0)
      else if c > 70 then (if 97 \<le> c \<and> c \<le> 102 then goto 293 else goto 0) else goto 293)"

definition http11_st293 :: "bool \<Rightarrow> int \<Rightarrow> http11_action jump" where [http11_code]:
  "http11_st293 r c =
     (if c = 58 then goto 295 else
      if c < 65 then (if 48 \<le> c \<and> c \<le> 57 then goto 294 else goto 0)
      else if c > 70 then (if 97 \<le> c \<and> c \<le> 102 then goto 294 else goto 0) else goto 294)"

definition http11_st294 :: "bool \<Rightarrow> int \<Rightarrow> http11_action jump" where [http11_code]:
  "http11_st294 r c =
     (if c = 58 then goto 295 else goto 0)"

definition http11_st295 :: "bool \<Rightarrow> int \<Rightarrow> http11_action jump" where [http11_code]:
  "http11_st295 r c =
     (if c = 58 then goto 325 else
      if c < 65 then (if 48 \<le> c \<and> c \<le> 57 then goto 296 else goto 0)
      else if c > 70 then (if 97 \<le> c \<and> c \<le> 102 then goto 296 else goto 0) else goto 296)"

definition http11_st296 :: "bool \<Rightarrow> int \<Rightarrow> http11_action jump" where [http11_code]:
  "http11_st296 r c =
     (if c = 58 then goto 300 else
      if c < 65 then (if 48 \<le> c \<and> c \<le> 57 then goto 297 else goto 0)
      else if c > 70 then (if 97 \<le> c \<and> c \<le> 102 then goto 297 else goto 0) else goto 297)"

definition http11_st297 :: "bool \<Rightarrow> int \<Rightarrow> http11_action jump" where [http11_code]:
  "http11_st297 r c =
     (if c = 58 then goto 300 else
      if c < 65 then (if 48 \<le> c \<and> c \<le> 57 then goto 298 else goto 0)
      else if c > 70 then (if 97 \<le> c \<and> c \<le> 102 then goto 298 else goto 0) else goto 298)"

definition http11_st298 :: "bool \<Rightarrow> int \<Rightarrow> http11_action jump" where [http11_code]:
  "http11_st298 r c =
     (if c = 58 then goto 300 else
      if c < 65 then (if 48 \<le> c \<and> c \<le> 57 then goto 299 else goto 0)
      else if c > 70 then (if 97 \<le> c \<and> c \<le> 102 then goto 299 else goto 0) else goto 299)"

definition http11_st299 :: "bool \<Rightarrow> int \<Rightarrow> http11_action jump" where [http11_code]:
  "http11_st299 r c =
     (if c = 58 then goto 300 else goto 0)"

definition http11_st300 :: "bool \<Rightarrow> int \<Rightarrow> http11_action jump" where [http11_code]:
  "http11_st300 r c =
     (if c = 58 then goto 301 else
      if c < 65 then (if 48 \<le> c \<and> c \<le> 57 then goto 296 else goto 0)
      else if c > 70 then (if 97 \<le> c \<and> c \<le> 102 then goto 296 else goto 0) else goto 296)"

definition http11_st301 :: "bool \<Rightarrow> int \<Rightarrow> http11_action jump" where [http11_code]:
  "http11_st301 r c =
     (if c = 49 then goto 318 else if c = 50 then goto 321 else if c = 93 then goto 236 else
      if c < 48 then (if 2 \<le> c \<and> c \<le> 3 then goto 223 else goto 0)
      else if c > 57 then (if c > 70 then (if 97 \<le> c \<and> c \<le> 102 then goto 324 else goto 0)
        else if c \<ge> 65 then goto 324 else goto 0)
      else goto 302)"

definition http11_st302 :: "bool \<Rightarrow> int \<Rightarrow> http11_action jump" where [http11_code]:
  "http11_st302 r c =
     (if c = 46 then goto 230 else if c = 58 then goto 306 else if c = 93 then goto 236 else
      if c < 65 then (if 48 \<le> c \<and> c \<le> 57 then goto 303 else goto 0)
      else if c > 70 then (if 97 \<le> c \<and> c \<le> 102 then goto 303 else goto 0) else goto 303)"

definition http11_st303 :: "bool \<Rightarrow> int \<Rightarrow> http11_action jump" where [http11_code]:
  "http11_st303 r c =
     (if c = 58 then goto 306 else if c = 93 then goto 236 else
      if c < 65 then (if 48 \<le> c \<and> c \<le> 57 then goto 304 else goto 0)
      else if c > 70 then (if 97 \<le> c \<and> c \<le> 102 then goto 304 else goto 0) else goto 304)"

definition http11_st304 :: "bool \<Rightarrow> int \<Rightarrow> http11_action jump" where [http11_code]:
  "http11_st304 r c =
     (if c = 58 then goto 306 else if c = 93 then goto 236 else
      if c < 65 then (if 48 \<le> c \<and> c \<le> 57 then goto 305 else goto 0)
      else if c > 70 then (if 97 \<le> c \<and> c \<le> 102 then goto 305 else goto 0) else goto 305)"

definition http11_st305 :: "bool \<Rightarrow> int \<Rightarrow> http11_action jump" where [http11_code]:
  "http11_st305 r c =
     (if c = 58 then goto 306 else if c = 93 then goto 236 else goto 0)"

definition http11_st306 :: "bool \<Rightarrow> int \<Rightarrow> http11_action jump" where [http11_code]:
  "http11_st306 r c =
     (if c = 49 then goto 311 else if c = 50 then goto 314 else
      if c < 65 then (if 48 \<le> c \<and> c \<le> 57 then goto 307 else goto 0)
      else if c > 70 then (if 97 \<le> c \<and> c \<le> 102 then goto 317 else goto 0) else goto 317)"

definition http11_st307 :: "bool \<Rightarrow> int \<Rightarrow> http11_action jump" where [http11_code]:
  "http11_st307 r c =
     (if c = 46 then goto 230 else if c = 58 then goto 255 else if c = 93 then goto 236 else
      if c < 65 then (if 48 \<le> c \<and> c \<le> 57 then goto 308 else goto 0)
      else if c > 70 then (if 97 \<le> c \<and> c \<le> 102 then goto 308 else goto 0) else goto 308)"

definition http11_st308 :: "bool \<Rightarrow> int \<Rightarrow> http11_action jump" where [http11_code]:
  "http11_st308 r c =
     (if c = 58 then goto 255 else if c = 93 then goto 236 else
      if c < 65 then (if 48 \<le> c \<and> c \<le> 57 then goto 309 else goto 0)
      else if c > 70 then (if 97 \<le> c \<and> c \<le> 102 then goto 309 else goto 0) else goto 309)"

definition http11_st309 :: "bool \<Rightarrow> int \<Rightarrow> http11_action jump" where [http11_code]:
  "http11_st309 r c =
     (if c = 58 then goto 255 else if c = 93 then goto 236 else
      if c < 65 then (if 48 \<le> c \<and> c \<le> 57 then goto 310 else goto 0)
      else if c > 70 then (if 97 \<le> c \<and> c \<le> 102 then goto 310 else goto 0) else goto 310)"

definition http11_st310 :: "bool \<Rightarrow> int \<Rightarrow> http11_action jump" where [http11_code]:
  "http11_st310 r c =
     (if c = 58 then goto 255 else if c = 93 then goto 236 else goto 0)"

definition http11_st311 :: "bool \<Rightarrow> int \<Rightarrow> http11_action jump" where [http11_code]:
  "http11_st311 r c =
     (if c = 46 then goto 230 else if c = 58 then goto 255 else if c = 93 then goto 236 else
      if c < 65 then (if 48 \<le> c \<and> c \<le> 57 then goto 312 else goto 0)
      else if c > 70 then (if 97 \<le> c \<and> c \<le> 102 then goto 308 else goto 0) else goto 308)"

definition http11_st312 :: "bool \<Rightarrow> int \<Rightarrow> http11_action jump" where [http11_code]:
  "http11_st312 r c =
     (if c = 46 then goto 230 else if c = 58 then goto 255 else if c = 93 then goto 236 else
      if c < 65 then (if 48 \<le> c \<and> c \<le> 57 then goto 313 else goto 0)
      else if c > 70 then (if 97 \<le> c \<and> c \<le> 102 then goto 309 else goto 0) else goto 309)"

definition http11_st313 :: "bool \<Rightarrow> int \<Rightarrow> http11_action jump" where [http11_code]:
  "http11_st313 r c =
     (if c = 46 then goto 230 else if c = 58 then goto 255 else if c = 93 then goto 236 else
      if c < 65 then (if 48 \<le> c \<and> c \<le> 57 then goto 310 else goto 0)
      else if c > 70 then (if 97 \<le> c \<and> c \<le> 102 then goto 310 else goto 0) else goto 310)"

definition http11_st314 :: "bool \<Rightarrow> int \<Rightarrow> http11_action jump" where [http11_code]:
  "http11_st314 r c =
     (if c = 46 then goto 230 else if c = 48 then goto 315 else if c = 53 then goto 316 else
      if c = 58 then goto 255 else if c = 93 then goto 236 else
      if c < 65 then (if 49 \<le> c \<and> c \<le> 57 then goto 308 else goto 0)
      else if c > 70 then (if 97 \<le> c \<and> c \<le> 102 then goto 308 else goto 0) else goto 308)"

definition http11_st315 :: "bool \<Rightarrow> int \<Rightarrow> http11_action jump" where [http11_code]:
  "http11_st315 r c =
     (if c = 58 then goto 255 else if c = 93 then goto 236 else
      if c < 65 then (if 48 \<le> c \<and> c \<le> 57 then goto 313 else goto 0)
      else if c > 70 then (if 97 \<le> c \<and> c \<le> 102 then goto 309 else goto 0) else goto 309)"

definition http11_st316 :: "bool \<Rightarrow> int \<Rightarrow> http11_action jump" where [http11_code]:
  "http11_st316 r c =
     (if c = 48 then goto 313 else if c = 58 then goto 255 else if c = 93 then goto 236 else
      if c < 65 then (if 49 \<le> c \<and> c \<le> 57 then goto 309 else goto 0)
      else if c > 70 then (if 97 \<le> c \<and> c \<le> 102 then goto 309 else goto 0) else goto 309)"

definition http11_st317 :: "bool \<Rightarrow> int \<Rightarrow> http11_action jump" where [http11_code]:
  "http11_st317 r c =
     (if c = 58 then goto 255 else if c = 93 then goto 236 else
      if c < 65 then (if 48 \<le> c \<and> c \<le> 57 then goto 308 else goto 0)
      else if c > 70 then (if 97 \<le> c \<and> c \<le> 102 then goto 308 else goto 0) else goto 308)"

definition http11_st318 :: "bool \<Rightarrow> int \<Rightarrow> http11_action jump" where [http11_code]:
  "http11_st318 r c =
     (if c = 46 then goto 230 else if c = 58 then goto 306 else if c = 93 then goto 236 else
      if c < 65 then (if 48 \<le> c \<and> c \<le> 57 then goto 319 else goto 0)
      else if c > 70 then (if 97 \<le> c \<and> c \<le> 102 then goto 303 else goto 0) else goto 303)"

definition http11_st319 :: "bool \<Rightarrow> int \<Rightarrow> http11_action jump" where [http11_code]:
  "http11_st319 r c =
     (if c = 46 then goto 230 else if c = 58 then goto 306 else if c = 93 then goto 236 else
      if c < 65 then (if 48 \<le> c \<and> c \<le> 57 then goto 320 else goto 0)
      else if c > 70 then (if 97 \<le> c \<and> c \<le> 102 then goto 304 else goto 0) else goto 304)"

definition http11_st320 :: "bool \<Rightarrow> int \<Rightarrow> http11_action jump" where [http11_code]:
  "http11_st320 r c =
     (if c = 46 then goto 230 else if c = 58 then goto 306 else if c = 93 then goto 236 else
      if c < 65 then (if 48 \<le> c \<and> c \<le> 57 then goto 305 else goto 0)
      else if c > 70 then (if 97 \<le> c \<and> c \<le> 102 then goto 305 else goto 0) else goto 305)"

definition http11_st321 :: "bool \<Rightarrow> int \<Rightarrow> http11_action jump" where [http11_code]:
  "http11_st321 r c =
     (if c = 46 then goto 230 else if c = 48 then goto 322 else if c = 53 then goto 323 else
      if c = 58 then goto 306 else if c = 93 then goto 236 else
      if c < 65 then (if 49 \<le> c \<and> c \<le> 57 then goto 303 else goto 0)
      else if c > 70 then (if 97 \<le> c \<and> c \<le> 102 then goto 303 else goto 0) else goto 303)"

definition http11_st322 :: "bool \<Rightarrow> int \<Rightarrow> http11_action jump" where [http11_code]:
  "http11_st322 r c =
     (if c = 58 then goto 306 else if c = 93 then goto 236 else
      if c < 65 then (if 48 \<le> c \<and> c \<le> 57 then goto 320 else goto 0)
      else if c > 70 then (if 97 \<le> c \<and> c \<le> 102 then goto 304 else goto 0) else goto 304)"

definition http11_st323 :: "bool \<Rightarrow> int \<Rightarrow> http11_action jump" where [http11_code]:
  "http11_st323 r c =
     (if c = 48 then goto 320 else if c = 58 then goto 306 else if c = 93 then goto 236 else
      if c < 65 then (if 49 \<le> c \<and> c \<le> 57 then goto 304 else goto 0)
      else if c > 70 then (if 97 \<le> c \<and> c \<le> 102 then goto 304 else goto 0) else goto 304)"

definition http11_st324 :: "bool \<Rightarrow> int \<Rightarrow> http11_action jump" where [http11_code]:
  "http11_st324 r c =
     (if c = 58 then goto 306 else if c = 93 then goto 236 else
      if c < 65 then (if 48 \<le> c \<and> c \<le> 57 then goto 303 else goto 0)
      else if c > 70 then (if 97 \<le> c \<and> c \<le> 102 then goto 303 else goto 0) else goto 303)"

definition http11_st325 :: "bool \<Rightarrow> int \<Rightarrow> http11_action jump" where [http11_code]:
  "http11_st325 r c =
     (if c = 49 then goto 318 else if c = 50 then goto 321 else
      if c < 48 then (if 2 \<le> c \<and> c \<le> 3 then goto 223 else goto 0)
      else if c > 57 then (if c > 70 then (if 97 \<le> c \<and> c \<le> 102 then goto 324 else goto 0)
        else if c \<ge> 65 then goto 324 else goto 0)
      else goto 302)"

definition http11_st326 :: "bool \<Rightarrow> int \<Rightarrow> http11_action jump" where [http11_code]:
  "http11_st326 r c =
     (if c = 49 then goto 331 else if c = 50 then goto 334 else
      if c < 48 then (if 2 \<le> c \<and> c \<le> 3 then goto 223 else goto 0)
      else if c > 57 then (if c > 70 then (if 97 \<le> c \<and> c \<le> 102 then goto 337 else goto 0)
        else if c \<ge> 65 then goto 337 else goto 0)
      else goto 327)"

definition http11_st327 :: "bool \<Rightarrow> int \<Rightarrow> http11_action jump" where [http11_code]:
  "http11_st327 r c =
     (if c = 46 then goto 230 else if c = 58 then goto 306 else
      if c < 65 then (if 48 \<le> c \<and> c \<le> 57 then goto 328 else goto 0)
      else if c > 70 then (if 97 \<le> c \<and> c \<le> 102 then goto 328 else goto 0) else goto 328)"

definition http11_st328 :: "bool \<Rightarrow> int \<Rightarrow> http11_action jump" where [http11_code]:
  "http11_st328 r c =
     (if c = 58 then goto 306 else
      if c < 65 then (if 48 \<le> c \<and> c \<le> 57 then goto 329 else goto 0)
      else if c > 70 then (if 97 \<le> c \<and> c \<le> 102 then goto 329 else goto 0) else goto 329)"

definition http11_st329 :: "bool \<Rightarrow> int \<Rightarrow> http11_action jump" where [http11_code]:
  "http11_st329 r c =
     (if c = 58 then goto 306 else
      if c < 65 then (if 48 \<le> c \<and> c \<le> 57 then goto 330 else goto 0)
      else if c > 70 then (if 97 \<le> c \<and> c \<le> 102 then goto 330 else goto 0) else goto 330)"

definition http11_st330 :: "bool \<Rightarrow> int \<Rightarrow> http11_action jump" where [http11_code]:
  "http11_st330 r c =
     (if c = 58 then goto 306 else goto 0)"

definition http11_st331 :: "bool \<Rightarrow> int \<Rightarrow> http11_action jump" where [http11_code]:
  "http11_st331 r c =
     (if c = 46 then goto 230 else if c = 58 then goto 306 else
      if c < 65 then (if 48 \<le> c \<and> c \<le> 57 then goto 332 else goto 0)
      else if c > 70 then (if 97 \<le> c \<and> c \<le> 102 then goto 328 else goto 0) else goto 328)"

definition http11_st332 :: "bool \<Rightarrow> int \<Rightarrow> http11_action jump" where [http11_code]:
  "http11_st332 r c =
     (if c = 46 then goto 230 else if c = 58 then goto 306 else
      if c < 65 then (if 48 \<le> c \<and> c \<le> 57 then goto 333 else goto 0)
      else if c > 70 then (if 97 \<le> c \<and> c \<le> 102 then goto 329 else goto 0) else goto 329)"

definition http11_st333 :: "bool \<Rightarrow> int \<Rightarrow> http11_action jump" where [http11_code]:
  "http11_st333 r c =
     (if c = 46 then goto 230 else if c = 58 then goto 306 else
      if c < 65 then (if 48 \<le> c \<and> c \<le> 57 then goto 330 else goto 0)
      else if c > 70 then (if 97 \<le> c \<and> c \<le> 102 then goto 330 else goto 0) else goto 330)"

definition http11_st334 :: "bool \<Rightarrow> int \<Rightarrow> http11_action jump" where [http11_code]:
  "http11_st334 r c =
     (if c = 46 then goto 230 else if c = 48 then goto 335 else if c = 53 then goto 336 else
      if c = 58 then goto 306 else
      if c < 65 then (if 49 \<le> c \<and> c \<le> 57 then goto 328 else goto 0)
      else if c > 70 then (if 97 \<le> c \<and> c \<le> 102 then goto 328 else goto 0) else goto 328)"

definition http11_st335 :: "bool \<Rightarrow> int \<Rightarrow> http11_action jump" where [http11_code]:
  "http11_st335 r c =
     (if c = 58 then goto 306 else
      if c < 65 then (if 48 \<le> c \<and> c \<le> 57 then goto 333 else goto 0)
      else if c > 70 then (if 97 \<le> c \<and> c \<le> 102 then goto 329 else goto 0) else goto 329)"

definition http11_st336 :: "bool \<Rightarrow> int \<Rightarrow> http11_action jump" where [http11_code]:
  "http11_st336 r c =
     (if c = 48 then goto 333 else if c = 58 then goto 306 else
      if c < 65 then (if 49 \<le> c \<and> c \<le> 57 then goto 329 else goto 0)
      else if c > 70 then (if 97 \<le> c \<and> c \<le> 102 then goto 329 else goto 0) else goto 329)"

definition http11_st337 :: "bool \<Rightarrow> int \<Rightarrow> http11_action jump" where [http11_code]:
  "http11_st337 r c =
     (if c = 58 then goto 306 else
      if c < 65 then (if 48 \<le> c \<and> c \<le> 57 then goto 328 else goto 0)
      else if c > 70 then (if 97 \<le> c \<and> c \<le> 102 then goto 328 else goto 0) else goto 328)"

definition http11_st338 :: "bool \<Rightarrow> int \<Rightarrow> http11_action jump" where [http11_code]:
  "http11_st338 r c =
     (if c < 48 then (if 2 \<le> c \<and> c \<le> 3 then goto 223 else goto 0)
      else if c > 57 then (if c > 70 then (if 97 \<le> c \<and> c \<le> 102 then goto 224 else goto 0)
        else if c \<ge> 65 then goto 224 else goto 0)
      else goto 224)"

definition http11_st339 :: "bool \<Rightarrow> int \<Rightarrow> http11_action jump" where [http11_code]:
  "http11_st339 r c =
     (if 2 \<le> c \<and> c \<le> 3 then goto 223 else goto 0)"

definition http11_st340 :: "bool \<Rightarrow> int \<Rightarrow> http11_action jump" where [http11_code]:
  "http11_st340 r c =
     (if c = 3 then goto 223 else goto 0)"

definition http11_st341 :: "bool \<Rightarrow> int \<Rightarrow> http11_action jump" where [http11_code]:
  "http11_st341 r c =
     (if c = 4 then goto 223 else goto 0)"

definition http11_st342 :: "bool \<Rightarrow> int \<Rightarrow> http11_action jump" where [http11_code]:
  "http11_st342 r c =
     (if c = 58 then goto 343 else goto 0)"

definition http11_st343 :: "bool \<Rightarrow> int \<Rightarrow> http11_action jump" where [http11_code]:
  "http11_st343 r c =
     (if c = 49 then goto 318 else if c = 50 then goto 321 else if c = 93 then goto 236 else
      if c < 48 then (if 2 \<le> c \<and> c \<le> 5 then goto 223 else goto 0)
      else if c > 57 then (if c > 70 then (if 97 \<le> c \<and> c \<le> 102 then goto 324 else goto 0)
        else if c \<ge> 65 then goto 324 else goto 0)
      else goto 302)"

definition http11_st344 :: "bool \<Rightarrow> int \<Rightarrow> http11_action jump" where [http11_code]:
  "http11_st344 r c =
     (if c < 65 then (if 48 \<le> c \<and> c \<le> 57 then goto 345 else goto 0)
      else if c > 70 then (if 97 \<le> c \<and> c \<le> 102 then goto 345 else goto 0) else goto 345)"

definition http11_st345 :: "bool \<Rightarrow> int \<Rightarrow> http11_action jump" where [http11_code]:
  "http11_st345 r c =
     (if c = 46 then goto 346 else
      if c < 65 then (if 48 \<le> c \<and> c \<le> 57 then goto 345 else goto 0)
      else if c > 70 then (if 97 \<le> c \<and> c \<le> 102 then goto 345 else goto 0) else goto 345)"

definition http11_st346 :: "bool \<Rightarrow> int \<Rightarrow> http11_action jump" where [http11_code]:
  "http11_st346 r c =
     (let w = widec r c in
      if w = 33 then goto 347 else if w = 36 then goto 347 else if w = 61 then goto 347 else
      if w = 95 then goto 347 else if w = 126 then goto 347 else if w = 606 then goto 347 else
      if w = 635 then goto 347 else if w = 637 then goto 347 else
      if w < 48 then (if 38 \<le> w \<and> w \<le> 46 then goto 347 else goto 0)
      else if w > 59 then (if w > 90 then (if 97 \<le> w \<and> w \<le> 122 then goto 347 else goto 0)
        else if w \<ge> 65 then goto 347 else goto 0)
      else goto 347)"

definition http11_st347 :: "bool \<Rightarrow> int \<Rightarrow> http11_action jump" where [http11_code]:
  "http11_st347 r c =
     (let w = widec r c in
      if w = 33 then goto 347 else if w = 36 then goto 347 else if w = 61 then goto 347 else
      if w = 93 then goto 236 else if w = 95 then goto 347 else if w = 126 then goto 347 else
      if w = 606 then goto 347 else if w = 635 then goto 347 else if w = 637 then goto 347 else
      if w < 48 then (if 38 \<le> w \<and> w \<le> 46 then goto 347 else goto 0)
      else if w > 59 then (if w > 90 then (if 97 \<le> w \<and> w \<le> 122 then goto 347 else goto 0)
        else if w \<ge> 65 then goto 347 else goto 0)
      else goto 347)"

definition http11_st348 :: "bool \<Rightarrow> int \<Rightarrow> http11_action jump" where [http11_code]:
  "http11_st348 r c =
     (if c = 33 then goto 14 else if c = 58 then http11_tr27 else if c = 124 then goto 14 else
      if c = 126 then goto 14 else
      if c < 42 then (if c < 10 then (if 1 \<le> c \<and> c \<le> 8 then goto 14 else goto 0)
        else if c > 31 then (if 35 \<le> c \<and> c \<le> 39 then goto 14 else goto 0) else goto 14)
      else if c > 43 then (if c < 48 then (if 45 \<le> c \<and> c \<le> 46 then goto 14 else goto 0)
        else if c > 57 then (if c > 90 then (if 94 \<le> c \<and> c \<le> 122 then goto 14 else goto 0)
          else if c \<ge> 65 then goto 14 else goto 0)
        else goto 14)
      else goto 14)"

definition http11_st349 :: "bool \<Rightarrow> int \<Rightarrow> http11_action jump" where [http11_code]:
  "http11_st349 r c =
     goto 0"

subsection \<open>The step function\<close>

text \<open>
  \<open>switch (cs)\<close>: the code of the current state. State 0 has no label of its own, and a
  number past the last state falls out of the switch as it does.
\<close>

definition http11_states :: "(bool \<Rightarrow> int \<Rightarrow> http11_action jump) list" where
  "http11_states =
   [(\<lambda>r c. goto 0),
    http11_st1, http11_st2, http11_st3, http11_st4, http11_st5, http11_st6, http11_st7,
    http11_st8, http11_st9, http11_st10, http11_st11, http11_st12, http11_st13, http11_st14,
    http11_st15, http11_st16, http11_st17, http11_st18, http11_st19, http11_st20, http11_st21,
    http11_st22, http11_st23, http11_st24, http11_st25, http11_st26, http11_st27, http11_st28,
    http11_st29, http11_st30, http11_st31, http11_st32, http11_st33, http11_st34, http11_st35,
    http11_st36, http11_st37, http11_st38, http11_st39, http11_st40, http11_st41, http11_st42,
    http11_st43, http11_st44, http11_st45, http11_st46, http11_st47, http11_st48, http11_st49,
    http11_st50, http11_st51, http11_st52, http11_st53, http11_st54, http11_st55, http11_st56,
    http11_st57, http11_st58, http11_st59, http11_st60, http11_st61, http11_st62, http11_st63,
    http11_st64, http11_st65, http11_st66, http11_st67, http11_st68, http11_st69, http11_st70,
    http11_st71, http11_st72, http11_st73, http11_st74, http11_st75, http11_st76, http11_st77,
    http11_st78, http11_st79, http11_st80, http11_st81, http11_st82, http11_st83, http11_st84,
    http11_st85, http11_st86, http11_st87, http11_st88, http11_st89, http11_st90, http11_st91,
    http11_st92, http11_st93, http11_st94, http11_st95, http11_st96, http11_st97, http11_st98,
    http11_st99, http11_st100, http11_st101, http11_st102, http11_st103, http11_st104,
    http11_st105, http11_st106, http11_st107, http11_st108, http11_st109, http11_st110,
    http11_st111, http11_st112, http11_st113, http11_st114, http11_st115, http11_st116,
    http11_st117, http11_st118, http11_st119, http11_st120, http11_st121, http11_st122,
    http11_st123, http11_st124, http11_st125, http11_st126, http11_st127, http11_st128,
    http11_st129, http11_st130, http11_st131, http11_st132, http11_st133, http11_st134,
    http11_st135, http11_st136, http11_st137, http11_st138, http11_st139, http11_st140,
    http11_st141, http11_st142, http11_st143, http11_st144, http11_st145, http11_st146,
    http11_st147, http11_st148, http11_st149, http11_st150, http11_st151, http11_st152,
    http11_st153, http11_st154, http11_st155, http11_st156, http11_st157, http11_st158,
    http11_st159, http11_st160, http11_st161, http11_st162, http11_st163, http11_st164,
    http11_st165, http11_st166, http11_st167, http11_st168, http11_st169, http11_st170,
    http11_st171, http11_st172, http11_st173, http11_st174, http11_st175, http11_st176,
    http11_st177, http11_st178, http11_st179, http11_st180, http11_st181, http11_st182,
    http11_st183, http11_st184, http11_st185, http11_st186, http11_st187, http11_st188,
    http11_st189, http11_st190, http11_st191, http11_st192, http11_st193, http11_st194,
    http11_st195, http11_st196, http11_st197, http11_st198, http11_st199, http11_st200,
    http11_st201, http11_st202, http11_st203, http11_st204, http11_st205, http11_st206,
    http11_st207, http11_st208, http11_st209, http11_st210, http11_st211, http11_st212,
    http11_st213, http11_st214, http11_st215, http11_st216, http11_st217, http11_st218,
    http11_st219, http11_st220, http11_st221, http11_st222, http11_st223, http11_st224,
    http11_st225, http11_st226, http11_st227, http11_st228, http11_st229, http11_st230,
    http11_st231, http11_st232, http11_st233, http11_st234, http11_st235, http11_st236,
    http11_st237, http11_st238, http11_st239, http11_st240, http11_st241, http11_st242,
    http11_st243, http11_st244, http11_st245, http11_st246, http11_st247, http11_st248,
    http11_st249, http11_st250, http11_st251, http11_st252, http11_st253, http11_st254,
    http11_st255, http11_st256, http11_st257, http11_st258, http11_st259, http11_st260,
    http11_st261, http11_st262, http11_st263, http11_st264, http11_st265, http11_st266,
    http11_st267, http11_st268, http11_st269, http11_st270, http11_st271, http11_st272,
    http11_st273, http11_st274, http11_st275, http11_st276, http11_st277, http11_st278,
    http11_st279, http11_st280, http11_st281, http11_st282, http11_st283, http11_st284,
    http11_st285, http11_st286, http11_st287, http11_st288, http11_st289, http11_st290,
    http11_st291, http11_st292, http11_st293, http11_st294, http11_st295, http11_st296,
    http11_st297, http11_st298, http11_st299, http11_st300, http11_st301, http11_st302,
    http11_st303, http11_st304, http11_st305, http11_st306, http11_st307, http11_st308,
    http11_st309, http11_st310, http11_st311, http11_st312, http11_st313, http11_st314,
    http11_st315, http11_st316, http11_st317, http11_st318, http11_st319, http11_st320,
    http11_st321, http11_st322, http11_st323, http11_st324, http11_st325, http11_st326,
    http11_st327, http11_st328, http11_st329, http11_st330, http11_st331, http11_st332,
    http11_st333, http11_st334, http11_st335, http11_st336, http11_st337, http11_st338,
    http11_st339, http11_st340, http11_st341, http11_st342, http11_st343, http11_st344,
    http11_st345, http11_st346, http11_st347, http11_st348, http11_st349]"

definition http11_step :: "bool \<Rightarrow> http11_action ragel_step" where
  "http11_step r cs c = (if cs < length http11_states then (http11_states ! cs) r c else goto 0)"

end
