(* ===== verification/Civan_Http11.thy ===== *)
theory Civan_Http11
  imports Civan_Http11_Machine
begin

section \<open>The HTTP request parser: \<open>http_parser_init\<close>, \<open>execute\<close>, \<open>finish\<close>\<close>

text \<open>
  The functions of \<open>civan/http/http11_parser.rl.cc\<close> around the automaton of
  \<open>Civan_Http11_Machine\<close>, with \<open>struct http_parser\<close> of \<open>http11_parser.h\<close>. The parser stores
  positions in the buffer (\<open>MARK\<close>), and calls back with a pointer into the buffer and a
  length; every callback of \<open>HttpRequestParser\<close> is set, so none of the null tests skips a
  call. A callback is an event: the bytes from the pointer to the end of the buffer, and the
  length, which is a \<open>size_t\<close> and may be wrong.
\<close>

subsection \<open>State and actions\<close>

record http_parser =
  hp_cs :: nat
  hp_body_start :: nat
  hp_content_len :: int
  hp_nread :: nat
  hp_mark :: nat
  hp_field_start :: nat
  hp_field_len :: nat
  hp_query_start :: nat
  hp_xml_sent :: bool
  hp_json_sent :: bool
  hp_uri_relaxed :: bool

datatype parser_event =
    Ev_request_method "u8 list" nat
  | Ev_request_uri "u8 list" nat
  | Ev_fragment "u8 list" nat
  | Ev_request_path "u8 list" nat
  | Ev_query_string "u8 list" nat
  | Ev_http_version "u8 list" nat
  | Ev_header_done "u8 list" nat
  | Ev_http_field "u8 list" nat "u8 list" nat

definition http_parser_start :: nat where "http_parser_start = 1"
definition http_parser_first_final :: nat where "http_parser_first_final = 348"
definition http_parser_error :: nat where "http_parser_error = 0"

text \<open>
  The fields that are not assigned keep what the memory \<open>m\<close> of the object held:
  \<open>query_start\<close> and \<open>uri_relaxed\<close> are among them.
\<close>

definition http_parser_init :: "http_parser \<Rightarrow> http_parser" where
  "http_parser_init m = m\<lparr>hp_cs := http_parser_start, hp_body_start := 0, hp_content_len := 0,
     hp_mark := 0, hp_nread := 0, hp_field_len := 0, hp_field_start := 0,
     hp_xml_sent := False, hp_json_sent := False\<rparr>"

definition PTR_TO :: "u8 list \<Rightarrow> nat \<Rightarrow> u8 list" where
  "PTR_TO buffer m = drop m buffer"

definition LEN :: "nat \<Rightarrow> nat \<Rightarrow> nat" where
  "LEN at fpc = sz_sub fpc at"

definition http11_done :: "u8 list \<Rightarrow> nat \<Rightarrow> http_parser \<times> parser_event list \<Rightarrow> http_parser \<times> parser_event list" where
  "http11_done buffer p s = (case s of (P, evs) \<Rightarrow>
     if hp_xml_sent P \<or> hp_json_sent P
     then (P\<lparr>hp_body_start := hp_mark P, hp_content_len := as_int (sz_sub p (hp_mark P) + 1)\<rparr>, evs)
     else (P\<lparr>hp_body_start := p + 1\<rparr>,
           evs @ [Ev_header_done (PTR_TO buffer (p + 1)) (length buffer - p - 1)]))"

fun http11_act :: "u8 list \<Rightarrow> (http11_action, http_parser \<times> parser_event list) ragel_act" where
  "http11_act buffer Mark p (P, evs) = ((P\<lparr>hp_mark := p\<rparr>, evs), False)"
| "http11_act buffer Start_field p (P, evs) = ((P\<lparr>hp_field_start := p\<rparr>, evs), False)"
| "http11_act buffer Write_field p (P, evs) = ((P\<lparr>hp_field_len := LEN (hp_field_start P) p\<rparr>, evs), False)"
| "http11_act buffer Start_value p (P, evs) = ((P\<lparr>hp_mark := p\<rparr>, evs), False)"
| "http11_act buffer Write_value p (P, evs) =
     ((P, evs @ [Ev_http_field (PTR_TO buffer (hp_field_start P)) (hp_field_len P)
                   (PTR_TO buffer (hp_mark P)) (LEN (hp_mark P) p)]), False)"
| "http11_act buffer Request_method p (P, evs) =
     ((P, evs @ [Ev_request_method (PTR_TO buffer (hp_mark P)) (LEN (hp_mark P) p)]), False)"
| "http11_act buffer Request_uri p (P, evs) =
     ((P, evs @ [Ev_request_uri (PTR_TO buffer (hp_mark P)) (LEN (hp_mark P) p)]), False)"
| "http11_act buffer Fragment p (P, evs) =
     ((P, evs @ [Ev_fragment (PTR_TO buffer (hp_mark P)) (LEN (hp_mark P) p)]), False)"
| "http11_act buffer Start_query p (P, evs) = ((P\<lparr>hp_query_start := p\<rparr>, evs), False)"
| "http11_act buffer Query_string p (P, evs) =
     ((P, evs @ [Ev_query_string (PTR_TO buffer (hp_query_start P)) (LEN (hp_query_start P) p)]), False)"
| "http11_act buffer Http_version p (P, evs) =
     ((P, evs @ [Ev_http_version (PTR_TO buffer (hp_mark P)) (LEN (hp_mark P) p)]), False)"
| "http11_act buffer Request_path p (P, evs) =
     ((P, evs @ [Ev_request_path (PTR_TO buffer (hp_mark P)) (LEN (hp_mark P) p)]), False)"
| "http11_act buffer Done p s = (http11_done buffer p s, True)"
| "http11_act buffer Xml p (P, evs) = ((P\<lparr>hp_xml_sent := True\<rparr>, evs), False)"
| "http11_act buffer Json p (P, evs) = ((P\<lparr>hp_json_sent := True\<rparr>, evs), False)"

subsection \<open>The functions of the parser\<close>

definition http_parser_has_error :: "http_parser \<Rightarrow> bool" where
  "http_parser_has_error P \<longleftrightarrow> hp_cs P = http_parser_error"

definition http_parser_is_finished :: "http_parser \<Rightarrow> bool" where
  "http_parser_is_finished P \<longleftrightarrow> hp_cs P \<ge> http_parser_first_final"

definition http_parser_finish :: "http_parser \<Rightarrow> int" where
  "http_parser_finish P =
     (if http_parser_has_error P then -1 else if http_parser_is_finished P then 1 else 0)"

text \<open>The positions of the last call are forgotten; \<open>query_start\<close> is not.\<close>

definition http11_reset :: "http_parser \<Rightarrow> http_parser" where
  "http11_reset P = P\<lparr>hp_nread := 0, hp_mark := 0, hp_field_len := 0, hp_field_start := 0\<rparr>"

text \<open>\<open>cs\<close> is stored unless the parser was in the error state already.\<close>

definition http_parser_execute ::
  "http_parser \<Rightarrow> u8 list \<Rightarrow> nat \<Rightarrow> (nat \<times> http_parser \<times> parser_event list) res" where
  "http_parser_execute P buffer off =
     (let len = length buffer in
      if len = 0 then Inr (0, P, [])
      else guard_else AssertFail (off \<le> len)
          (guard_else AssertFail (int (len - off) = as_int len - as_int off)
            (let P0 = http11_reset P;
                 (p, cs, P1, evs) = ragel_exec (http11_step (hp_uri_relaxed P0)) (http11_act buffer)
                   (drop off buffer) off (hp_cs P0) (P0, []);
                 P2 = (if \<not> http_parser_has_error P1 then P1\<lparr>hp_cs := cs\<rparr> else P1);
                 P3 = P2\<lparr>hp_nread := hp_nread P2 + (p - off)\<rparr>
             in guard_else AssertFail (p \<le> len \<and> hp_nread P3 \<le> len \<and> hp_body_start P3 \<le> len
                  \<and> hp_mark P3 < len \<and> hp_field_len P3 \<le> len \<and> hp_field_start P3 < len)
                  (Inr (hp_nread P3, P3, evs)))))"

subsection \<open>What the states rely on\<close>

text \<open>
  The states where a query has begun, and where the name of a field has been measured. An
  action that reports a query or a field needs that this has happened on every way to it.
\<close>

definition ty_query :: "nat \<Rightarrow> bool" where
  "ty_query n \<longleftrightarrow> 30 \<le> n \<and> n \<le> 32"

definition ty_field :: "nat \<Rightarrow> bool" where
  "ty_field n \<longleftrightarrow> n = 15 \<or> n = 16"

fun http11_flow :: "http11_action list \<Rightarrow> bool \<times> bool \<Rightarrow> (bool \<times> bool) option" where
  "http11_flow [] qf = Some qf"
| "http11_flow (a # as) (q, f) =
     (case a of Start_query \<Rightarrow> http11_flow as (True, f)
      | Query_string \<Rightarrow> if q then http11_flow as (q, f) else None
      | Start_field \<Rightarrow> http11_flow as (q, False)
      | Write_field \<Rightarrow> http11_flow as (q, True)
      | Write_value \<Rightarrow> if f then http11_flow as (q, f) else None
      | _ \<Rightarrow> http11_flow as (q, f))"

text \<open>A jump also leads to a state of the table, and to a final state by \<open>done\<close> only.\<close>

definition http11_jump_ok :: "nat \<Rightarrow> http11_action jump \<Rightarrow> bool" where
  "http11_jump_ok n j = (case j of (acts, t) \<Rightarrow>
     t \<le> 349 \<and> (t \<ge> 348 \<longleftrightarrow> Done \<in> set acts) \<and> Done \<notin> set (butlast acts) \<and>
     (case http11_flow acts (ty_query n, ty_field n) of None \<Rightarrow> False
      | Some (q, f) \<Rightarrow> (ty_query t \<longrightarrow> q) \<and> (ty_field t \<longrightarrow> f)))"

lemma http11_jump_if: "http11_jump_ok n x \<Longrightarrow> http11_jump_ok n y \<Longrightarrow> http11_jump_ok n (if b then x else y)"
  by simp

lemma http11_jump_goto:
  "http11_jump_ok n (goto t) \<longleftrightarrow> t < 348 \<and> (30 \<le> t \<and> t \<le> 32 \<longrightarrow> ty_query n) \<and> (t = 15 \<or> t = 16 \<longrightarrow> ty_field n)"
  by (auto simp: http11_jump_ok_def ty_query_def ty_field_def)

lemma http11_states_typed: "states_ok (\<lambda>n st. \<forall>r c. http11_jump_ok n (st r c)) 0 http11_states"
  unfolding http11_states_def
  by (simp only: states_ok_simps, intro conjI allI TrueI; (simp only: http11_code Let_def)?; (intro http11_jump_if)?;
      simp add: http11_jump_goto ty_query_def ty_field_def; simp add: http11_jump_ok_def ty_query_def ty_field_def)

lemma http11_step_typed: "http11_jump_ok cs (http11_step r cs c)"
  using states_ok_nth [OF http11_states_typed, of cs] by (simp add: http11_step_def) (simp add: http11_jump_ok_def ty_query_def ty_field_def)

subsection \<open>Every position is in range\<close>

fun event_in_range :: "parser_event \<Rightarrow> bool" where
  "event_in_range (Ev_request_method at n) = (n \<le> length at)"
| "event_in_range (Ev_request_uri at n) = (n \<le> length at)"
| "event_in_range (Ev_fragment at n) = (n \<le> length at)"
| "event_in_range (Ev_request_path at n) = (n \<le> length at)"
| "event_in_range (Ev_query_string at n) = (n \<le> length at)"
| "event_in_range (Ev_http_version at n) = (n \<le> length at)"
| "event_in_range (Ev_header_done at n) = (n \<le> length at)"
| "event_in_range (Ev_http_field f fn v vn) = (fn \<le> length f \<and> vn \<le> length v)"

text \<open>
  The marks are in range in any case; the start of a query, which no call resets, and with it
  what is reported, only where it was in range at the start (the flag \<open>g\<close>).
\<close>

fun http11_inv :: "bool \<Rightarrow> u8 list \<Rightarrow> bool \<times> bool \<Rightarrow> nat \<Rightarrow> http_parser \<times> parser_event list \<Rightarrow> bool" where
  "http11_inv g buffer (q, f) p (P, evs) \<longleftrightarrow>
     p \<le> length buffer \<and> hp_mark P \<le> p \<and> hp_mark P < length buffer \<and>
     hp_field_start P \<le> p \<and> hp_field_start P < length buffer \<and> hp_field_len P \<le> length buffer \<and>
     hp_body_start P \<le> length buffer \<and> hp_nread P = 0 \<and>
     (f \<longrightarrow> hp_field_start P + hp_field_len P \<le> p) \<and>
     (g \<longrightarrow> (q \<longrightarrow> hp_query_start P \<le> p) \<and> list_all event_in_range evs)"

lemma http11_act_inv:
  assumes "http11_inv g buffer (q, f) p s" "p < length buffer" "http11_flow [a] (q, f) = Some qf"
  shows "http11_inv g buffer qf p (fst (http11_act buffer a p s))"
  using assms
  by (cases s; cases a; cases qf)
     (auto simp: http11_done_def LEN_def PTR_TO_def split: if_splits)

lemma http11_flow_Cons:
  "http11_flow (a # as) qf = (case http11_flow [a] qf of None \<Rightarrow> None | Some qf' \<Rightarrow> http11_flow as qf')"
  by (cases qf; cases a) auto

lemma http11_act_continues: "snd (http11_act buffer a p s) \<longleftrightarrow> a = Done"
  by (cases s; cases a) simp_all

text \<open>An action that leaves the machine is the last one of its jump.\<close>

lemma http11_actions_inv:
  "http11_inv g buffer qf p s \<Longrightarrow> p < length buffer \<Longrightarrow> http11_flow acts qf = Some qf' \<Longrightarrow> Done \<notin> set (butlast acts) \<Longrightarrow>
   http11_inv g buffer qf' p (fst (ragel_actions (http11_act buffer) acts p s))"
proof (induction acts arbitrary: qf s)
  case (Cons a as)
  obtain qf1 where f: "http11_flow [a] qf = Some qf1" "http11_flow as qf1 = Some qf'"
    using Cons.prems(3) http11_flow_Cons [of a as qf] by (auto split: option.splits)
  obtain s1 stop where s1: "http11_act buffer a p s = (s1, stop)" by fastforce
  have inv: "http11_inv g buffer qf1 p s1"
    using http11_act_inv [OF _ Cons.prems(2), of g "fst qf" "snd qf" s a qf1] Cons.prems(1) f(1) s1 by simp
  show ?case
  proof (cases "as = []")
    case True
    then show ?thesis using inv f(2) s1 by simp
  next
    case False
    then have "\<not> stop" "Done \<notin> set (butlast as)"
      using Cons.prems(4) http11_act_continues [of buffer a p s] s1 by auto
    then show ?thesis using Cons.IH [OF inv Cons.prems(2) f(2)] s1 by simp
  qed
qed simp

definition http11_ty :: "bool \<Rightarrow> u8 list \<Rightarrow> nat \<Rightarrow> nat \<Rightarrow> http_parser \<times> parser_event list \<Rightarrow> bool" where
  "http11_ty g buffer cs = http11_inv g buffer (ty_query cs, ty_field cs)"

lemma http11_inv_mono:
  "http11_inv g buffer (q, f) p s \<Longrightarrow> p < length buffer \<Longrightarrow> (q' \<longrightarrow> q) \<Longrightarrow> (f' \<longrightarrow> f) \<Longrightarrow> http11_inv g buffer (q', f') (Suc p) s"
  by (cases s) auto

interpretation http11_machine: ragel_typed "http11_step r" "http11_act buffer" "http11_ty g buffer" "length buffer"
  for r buffer g
proof
  fix cs p s c acts t
  assume "http11_ty g buffer cs p s" and p: "p < length buffer" and j: "http11_step r cs c = (acts, t)"
  then have inv: "http11_inv g buffer (ty_query cs, ty_field cs) p s" by (simp add: http11_ty_def)
  obtain q f where "http11_flow acts (ty_query cs, ty_field cs) = Some (q, f)" "Done \<notin> set (butlast acts)"
    "ty_query t \<longrightarrow> q" "ty_field t \<longrightarrow> f"
    using http11_step_typed [of cs r c] j by (auto simp: http11_jump_ok_def split: option.splits)
  then show "http11_ty g buffer t (Suc p) (fst (ragel_actions (http11_act buffer) acts p s))"
    unfolding http11_ty_def using http11_actions_inv [OF inv p] http11_inv_mono p by blast
qed

lemma http11_act_frame:
  "hp_cs (fst (fst (http11_act buffer a p s))) = hp_cs (fst s)"
  "hp_uri_relaxed (fst (fst (http11_act buffer a p s))) = hp_uri_relaxed (fst s)"
  by (cases s; cases a; simp add: http11_done_def)+

text \<open>
  One call of \<open>http_parser_execute\<close>: from a position that is in range no assertion fails, and
  everything it reports is in the buffer.
\<close>

lemma http11_execute_eq:
  assumes "buffer \<noteq> []" "off \<le> length buffer" "length buffer < 2 ^ 31" "hp_body_start P \<le> length buffer"
    and x: "ragel_exec (http11_step (hp_uri_relaxed P)) (http11_act buffer) (drop off buffer) off (hp_cs P)
      (http11_reset P, []) = (p, cs, P1, evs)"
  shows "http_parser_execute P buffer off =
      Inr (p - off, P1\<lparr>hp_cs := if hp_cs P = 0 then 0 else cs, hp_nread := p - off\<rparr>, evs)"
    and "(ty_query (hp_cs P) \<Longrightarrow> hp_query_start P \<le> off) \<Longrightarrow> list_all event_in_range evs"
proof -
  have s0: "hp_cs (http11_reset P) = hp_cs P" "hp_uri_relaxed (http11_reset P) = hp_uri_relaxed P"
    by (simp_all add: http11_reset_def)
  have p: "off \<le> p" "p \<le> length buffer" using ragel_exec_bounds [OF x] assms(2) by auto
  have ty: "\<exists>q. http11_ty g buffer q p (P1, evs)"
    if "g \<Longrightarrow> ty_query (hp_cs P) \<Longrightarrow> hp_query_start P \<le> off" for g
    using http11_machine.exec_typed [OF _ _ x, of g] that assms(1-4) by (auto simp: http11_ty_def http11_reset_def)
  from ty [of False] have r: "hp_mark P1 < length buffer" "hp_field_start P1 < length buffer"
    "hp_field_len P1 \<le> length buffer" "hp_body_start P1 \<le> length buffer" "hp_nread P1 = 0"
    by (auto simp: http11_ty_def)
  have "hp_cs (fst (snd (snd (p, cs, P1, evs)))) = hp_cs (fst (http11_reset P, [] :: parser_event list))"
    unfolding x [symmetric] by (rule ragel_exec_frame [where f = "\<lambda>s. hp_cs (fst s)"]) (rule http11_act_frame)
  then have c: "hp_cs P1 = hp_cs P" using s0 by simp
  have "as_int (length buffer) - as_int off = int (length buffer - off)" using assms(2,3) by (simp add: of_nat_diff)
  then show "http_parser_execute P buffer off =
      Inr (p - off, P1\<lparr>hp_cs := if hp_cs P = 0 then 0 else cs, hp_nread := p - off\<rparr>, evs)"
    using x p r assms(1,2) c
    by (cases "hp_cs P = 0")
       (simp_all add: http_parser_execute_def guard_else_def Let_def s0 http_parser_has_error_def http_parser_error_def)
  show "list_all event_in_range evs" if "ty_query (hp_cs P) \<Longrightarrow> hp_query_start P \<le> off"
    using ty [of True] that by (auto simp: http11_ty_def)
qed

text \<open>
  Until the head is complete, a call either refuses a byte or consumes the whole buffer, and
  does not store where the body starts.
\<close>

lemma http11_act_body: "a \<noteq> Done \<Longrightarrow> hp_body_start (fst (fst (http11_act buffer a p s))) = hp_body_start (fst s)"
  by (cases s; cases a) simp_all

lemma http11_actions_stop: "snd (ragel_actions (http11_act buffer) acts p s) \<longleftrightarrow> Done \<in> set acts"
proof (induction acts arbitrary: s)
  case (Cons a as)
  then show ?case using http11_act_continues [of buffer a p s] by (auto split: prod.split)
qed simp

lemma http11_actions_body:
  "Done \<notin> set acts \<Longrightarrow> hp_body_start (fst (fst (ragel_actions (http11_act buffer) acts p s))) = hp_body_start (fst s)"
proof (induction acts arbitrary: s)
  case (Cons a as)
  obtain s1 st where a: "http11_act buffer a p s = (s1, st)" by fastforce
  have "\<not> st" "hp_body_start (fst s1) = hp_body_start (fst s)"
    using Cons.prems a http11_act_continues [of buffer a p s] http11_act_body [of a buffer p s] by auto
  with Cons a show ?case by simp
qed simp

lemma http11_exec_unfinished:
  "ragel_exec (http11_step r) (http11_act buffer) xs p cs s = (p', cs', s') \<Longrightarrow> cs' < 348 \<Longrightarrow>
   hp_body_start (fst s') = hp_body_start (fst s) \<and> (cs' \<noteq> 0 \<longrightarrow> p' = p + length xs)"
proof (induction xs arbitrary: p cs s)
  case (Cons ch rest)
  obtain acts t where j: "http11_step r cs (schar ch) = (acts, t)" by fastforce
  obtain s1 stop where a: "ragel_actions (http11_act buffer) acts p s = (s1, stop)" by fastforce
  have d: "t \<ge> 348 \<longleftrightarrow> Done \<in> set acts"
    using http11_step_typed [of cs r "schar ch"] j by (simp add: http11_jump_ok_def)
  have st: "stop \<longleftrightarrow> Done \<in> set acts" using http11_actions_stop [of buffer acts p s] a by simp
  show ?case
  proof (cases "Done \<in> set acts")
    case True
    then show ?thesis using Cons.prems d st j a by simp
  next
    case False
    have "hp_body_start (fst s1) = hp_body_start (fst s)" using http11_actions_body [OF False, of buffer p s] a by simp
    then show ?thesis using Cons.prems Cons.IH [of "Suc p" t s1] False st j a by (auto split: if_splits)
  qed
qed simp

subsection \<open>A call keeps the parser well-typed\<close>

text \<open>
  Between two calls the parser is in a state of the table and, unless the head is complete,
  has not stored where the body starts.
\<close>

definition http_parser_typed :: "http_parser \<Rightarrow> bool" where
  "http_parser_typed P \<longleftrightarrow> hp_cs P \<le> 349 \<and> (hp_cs P < http_parser_first_final \<longrightarrow> hp_body_start P = 0)"

lemma http11_exec_states:
  "ragel_exec (http11_step r) act xs p cs s = (p', cs', s') \<Longrightarrow> cs \<le> 349 \<Longrightarrow> cs' \<le> 349"
proof (induction xs arbitrary: p cs s)
  case (Cons ch rest)
  have "snd (http11_step r cs (schar ch)) \<le> 349"
    using http11_step_typed [of cs r "schar ch"] by (simp add: http11_jump_ok_def split: prod.splits)
  with Cons show ?case by (auto split: prod.splits if_splits)
qed simp

lemma http11_call:
  assumes "http_parser_typed P" "\<not> http_parser_is_finished P" "buffer \<noteq> []" "length buffer < 2 ^ 31"
  obtains n P' evs where "http_parser_execute P buffer 0 = Inr (n, P', evs)" "http_parser_typed P'" "n \<le> length buffer"
    "http_parser_finish P' = 0 \<Longrightarrow> n = length buffer" "\<not> ty_query (hp_cs P) \<Longrightarrow> list_all event_in_range evs"
proof -
  have b: "hp_body_start P = 0" "hp_cs P \<le> 349"
    using assms(1,2) by (auto simp: http_parser_typed_def http_parser_is_finished_def)
  obtain n cs P1 evs where x: "ragel_exec (http11_step (hp_uri_relaxed P)) (http11_act buffer) (drop 0 buffer) 0 (hp_cs P)
      (http11_reset P, []) = (n, cs, P1, evs)" by (metis prod.collapse)
  define Q where "Q = P1\<lparr>hp_cs := if hp_cs P = 0 then 0 else cs, hp_nread := n - 0\<rparr>"
  note eq = http11_execute_eq [OF assms(3) _ assms(4) _ x, folded Q_def]
  have cs: "cs \<le> 349" by (rule http11_exec_states [OF x b(2)])
  have u: "cs < 348 \<Longrightarrow> hp_body_start Q = 0 \<and> (cs \<noteq> 0 \<longrightarrow> n = length buffer)"
    using http11_exec_unfinished [OF x] b(1) by (simp add: Q_def http11_reset_def)
  have z: "hp_cs P = 0 \<Longrightarrow> cs < 348" using x assms(3) by (cases buffer) (auto simp: http11_step_def http11_states_def)
  show thesis
  proof (rule that [of "n - 0" Q evs])
    show "http_parser_execute P buffer 0 = Inr (n - 0, Q, evs)" using eq(1) b(1) by simp
    show "http_parser_typed Q" using cs u z by (auto simp: http_parser_typed_def Q_def http_parser_first_final_def)
    show "n - 0 \<le> length buffer" using ragel_exec_bounds [OF x] by simp
    show "n - 0 = length buffer" if "http_parser_finish Q = 0"
      using that u by (auto simp: Q_def http_parser_finish_def http_parser_has_error_def http_parser_is_finished_def
          http_parser_error_def http_parser_first_final_def split: if_splits)
    show "list_all event_in_range evs" if "\<not> ty_query (hp_cs P)" using eq(2) that b(1) by simp
  qed
qed


text \<open>The memory of a parser object, for the examples.\<close>

definition sample_mem :: http_parser where
  "sample_mem = \<lparr>hp_cs = 0, hp_body_start = 0, hp_content_len = 0, hp_nread = 0, hp_mark = 0, hp_field_start = 0,
     hp_field_len = 0, hp_query_start = 0, hp_xml_sent = False, hp_json_sent = False, hp_uri_relaxed = False\<rparr>"


end
