(* ===== verification/Civan_Text.thy ===== *)
theory Civan_Text
  imports Civan_Prelude
begin

section \<open>Text: literals, C strings and printed numbers\<close>

text \<open>
  A \<open>std::string\<close> is its list of bytes. \<open>lit\<close> is a string literal, \<open>c_str\<close> what a C
  function sees of a string (the bytes before the first zero), \<open>show_nat\<close> and \<open>show_hex\<close>
  what a stream prints for an unsigned number.
\<close>

subsection \<open>Literals and C strings\<close>

definition lit :: "string \<Rightarrow> u8 list" where
  "lit s = map of_char s"

definition c_str :: "u8 list \<Rightarrow> u8 list" where
  "c_str s = takeWhile (\<lambda>c. c \<noteq> 0) s"

text \<open>\<open>tolower\<close> of the C locale.\<close>

definition c_tolower :: "u8 \<Rightarrow> u8" where
  "c_tolower c = (if 0x41 \<le> c \<and> c \<le> 0x5A then c + 0x20 else c)"

abbreviation no_nul :: "u8 list \<Rightarrow> bool" where
  "no_nul s \<equiv> 0 \<notin> set s"

lemma c_str_no_nul [simp]: "no_nul (c_str s)"
  by (auto simp: c_str_def dest: set_takeWhileD)

subsection \<open>Strings from slices\<close>

text \<open>
  \<open>std::string(at, length)\<close> throws \<open>std::length_error\<close> for a length no string can have; a
  smaller one that reaches past the data reads bytes that are not part of it.
\<close>

definition std_string :: "u8 list \<Rightarrow> nat \<Rightarrow> u8 list res" where
  "std_string at n = (if n \<le> length at then Inr (take n at) else if n \<ge> 2 ^ 62 then Inl LogicError else Inl BadPointer)"

lemma std_string_in_range [simp]: "n \<le> length at \<Longrightarrow> std_string at n = Inr (take n at)"
  by (simp add: std_string_def)

lemma std_string_fault: "std_string at n = Inl e \<Longrightarrow> e = LogicError \<or> e = BadPointer"
  by (auto simp: std_string_def split: if_splits)

subsection \<open>Numbers\<close>

fun show_nat :: "nat \<Rightarrow> u8 list" where
  "show_nat n = (if n < 10 then [0x30 + of_nat n] else show_nat (n div 10) @ [0x30 + of_nat (n mod 10)])"

declare show_nat.simps [simp del]

fun show_hex :: "nat \<Rightarrow> u8 list" where
  "show_hex n = (let d = n mod 16; c = of_nat (if d < 10 then 0x30 + d else 0x57 + d) in
     if n < 16 then [c] else show_hex (n div 16) @ [c])"

declare show_hex.simps [simp del]

text \<open>The number a run of decimal digits denotes.\<close>

definition digits_value :: "u8 list \<Rightarrow> nat" where
  "digits_value s = foldl (\<lambda>n c. n * 10 + (unat c - 48)) 0 s"

lemma unat_digit: "d < 10 \<Longrightarrow> unat (0x30 + of_nat d :: u8) = 48 + d"
  by (simp add: unat_word_ariths unsigned_of_nat take_bit_eq_mod)

lemma digits_value_show: "digits_value (show_nat n) = n"
proof (induction n rule: show_nat.induct)
  case (1 n)
  then show ?case
    by (subst show_nat.simps) (auto simp: digits_value_def unat_digit)
qed

lemma show_nat_inject [simp]: "show_nat a = show_nat b \<longleftrightarrow> a = b"
  by (metis digits_value_show)

lemma show_nat_digit: "c \<in> set (show_nat n) \<Longrightarrow> 0x30 \<le> c \<and> c \<le> 0x39"
proof (induction n rule: show_nat.induct)
  case (1 n)
  have "d < 10 \<Longrightarrow> 0x30 \<le> (0x30 + of_nat d :: u8) \<and> (0x30 + of_nat d :: u8) \<le> 0x39" for d
    by (simp add: word_le_nat_alt unat_digit)
  with 1 show ?case by (subst (asm) show_nat.simps) (auto split: if_splits)
qed

lemma show_nat_nonempty [simp]: "show_nat n \<noteq> []"
  by (subst show_nat.simps) simp

subsection \<open>Numbers read by the C library\<close>

text \<open>
  \<open>strtol\<close> without an end pointer: blanks, a sign, for base 16 a prefix \<open>0x\<close> before a digit, and the
  digits; the result saturates. \<open>atoi\<close> converts it to \<open>int\<close>.
\<close>

definition c_isspace :: "u8 \<Rightarrow> bool" where
  "c_isspace c \<longleftrightarrow> c = 0x20 \<or> 0x09 \<le> c \<and> c \<le> 0x0D"

definition digit_of :: "u8 \<Rightarrow> nat" where
  "digit_of c = (if 0x30 \<le> c \<and> c \<le> 0x39 then unat c - 48 else if 0x41 \<le> c \<and> c \<le> 0x5A then unat c - 55
     else if 0x61 \<le> c \<and> c \<le> 0x7A then unat c - 87 else 36)"

definition strtol_sign :: "u8 list \<Rightarrow> bool \<times> u8 list" where
  "strtol_sign s = (case s of c # t \<Rightarrow> if c = 0x2D then (True, t) else if c = 0x2B then (False, t) else (False, s)
     | [] \<Rightarrow> (False, s))"

definition strtol_prefix :: "nat \<Rightarrow> u8 list \<Rightarrow> u8 list" where
  "strtol_prefix base s = (case s of
     a # x # d # t \<Rightarrow> if base = 16 \<and> a = 0x30 \<and> (x = 0x78 \<or> x = 0x58) \<and> digit_of d < 16 then d # t else s
     | _ \<Rightarrow> s)"

definition base_value :: "nat \<Rightarrow> u8 list \<Rightarrow> nat" where
  "base_value base s = foldl (\<lambda>n c. n * base + digit_of c) 0 s"

definition strtol :: "nat \<Rightarrow> u8 list \<Rightarrow> int" where
  "strtol base s =
     (let (neg, t) = strtol_sign (dropWhile c_isspace s);
          v = int (base_value base (takeWhile (\<lambda>c. digit_of c < base) (strtol_prefix base t)))
      in if neg then max (- (2 ^ 63)) (- v) else min (2 ^ 63 - 1) v)"

definition long_to_int :: "int \<Rightarrow> int" where
  "long_to_int v = signed_take_bit 31 v"

definition atoi :: "u8 list \<Rightarrow> int" where
  "atoi s = long_to_int (strtol 10 s)"

lemma digit_of_decimal: "0x30 \<le> c \<Longrightarrow> c \<le> 0x39 \<Longrightarrow> digit_of c = unat c - 48 \<and> digit_of c < 10"
  by (auto simp: digit_of_def word_le_nat_alt)

lemma base_value_decimal: "(\<And>c. c \<in> set s \<Longrightarrow> 0x30 \<le> c \<and> c \<le> 0x39) \<Longrightarrow> base_value 10 s = digits_value s"
  unfolding base_value_def digits_value_def by (intro foldl_cong) (auto simp: digit_of_decimal)

lemma strtol_show_nat:
  assumes "n < 2 ^ 63" "case t of [] \<Rightarrow> True | c # _ \<Rightarrow> 10 \<le> digit_of c"
  shows "strtol 10 (show_nat n @ t) = int n"
proof -
  have dg: "0x30 \<le> c \<and> c \<le> 0x39" if "c \<in> set (show_nat n)" for c using show_nat_digit [OF that] .
  obtain c s where s: "show_nat n = c # s" by (cases "show_nat n") auto
  have "\<not> c_isspace c" "c \<noteq> 0x2D" "c \<noteq> 0x2B" using dg [of c] s by (auto simp: c_isspace_def word_le_nat_alt)
  then have 1: "strtol_sign (dropWhile c_isspace (show_nat n @ t)) = (False, show_nat n @ t)"
    by (simp add: s strtol_sign_def)
  have 2: "strtol_prefix 10 u = u" for u by (simp add: strtol_prefix_def split: list.split)
  have "takeWhile (\<lambda>c. digit_of c < 10) t = []" using assms(2) by (cases t) auto
  moreover have "\<forall>c\<in>set (show_nat n). digit_of c < 10" using dg digit_of_decimal by blast
  ultimately have 3: "takeWhile (\<lambda>c. digit_of c < 10) (show_nat n @ t) = show_nat n"
    by (simp add: takeWhile_append)
  show ?thesis using assms(1) by (simp add: strtol_def 1 2 3 base_value_decimal [OF dg] digits_value_show)
qed

lemma atoi_show_nat: "n < 2 ^ 31 \<Longrightarrow> case t of [] \<Rightarrow> True | c # _ \<Rightarrow> 10 \<le> digit_of c \<Longrightarrow> atoi (show_nat n @ t) = int n"
  by (simp add: atoi_def long_to_int_def strtol_show_nat signed_take_bit_int_eq_self)

subsection \<open>Literals, continued\<close>

lemma unat_of_char [simp]: "unat (of_char c :: u8) = of_char c"
  by (simp add: unat_of_nat flip: of_nat_of_char [where 'a = "8 word"])

lemma of_char_u8_eq [simp]: "(of_char c :: u8) = of_char d \<longleftrightarrow> c = d"
  by (metis unat_of_char of_char_eq_iff)

lemma of_char_zero: "of_char c = (0 :: u8) \<longleftrightarrow> c = CHR 0x00"
proof -
  have "of_char (CHR 0x00) = (0 :: u8)" by simp
  then show ?thesis by (metis of_char_u8_eq)
qed

lemma lit_no_nul: "0 \<in> set (lit s) \<longleftrightarrow> CHR 0x00 \<in> set s"
proof -
  have "0 \<in> set (lit s) \<longleftrightarrow> (\<exists>c\<in>set s. of_char c = (0 :: u8))"
    unfolding lit_def set_map image_iff by (simp only: eq_commute [of "0 :: u8"])
  then show ?thesis by (simp only: of_char_zero) blast
qed

lemma lit_eq [simp]: "lit a = lit b \<longleftrightarrow> a = b"
  by (simp add: lit_def inj_map_eq_map inj_def)

lemma lit_simps [simp]: "length (lit a) = length a" "take n (lit a) = lit (take n a)" "lit a = [] \<longleftrightarrow> a = []"
  by (simp_all add: lit_def take_map)

end
