(* ===== verification/Civan_Uri_Text.thy ===== *)
theory Civan_Uri_Text
  imports Civan_Ragel Civan_Text
begin

section \<open>Characters of URIs and header fields\<close>

text \<open>
  The character classes of RFC 3986 and RFC 7230 in which the theorems about the automata are
  stated, as numbers of bytes, and the runs of an automaton over a text of such a class, in
  which a percent sign takes two hexadecimal digits.
\<close>

definition is_upper :: "u8 \<Rightarrow> bool" where "is_upper c \<longleftrightarrow> 0x41 \<le> uint c \<and> uint c \<le> 0x5A"
definition is_lower :: "u8 \<Rightarrow> bool" where "is_lower c \<longleftrightarrow> 0x61 \<le> uint c \<and> uint c \<le> 0x7A"
definition is_digit :: "u8 \<Rightarrow> bool" where "is_digit c \<longleftrightarrow> 0x30 \<le> uint c \<and> uint c \<le> 0x39"

definition is_xdigit :: "u8 \<Rightarrow> bool" where
  "is_xdigit c \<longleftrightarrow> is_digit c \<or> 0x41 \<le> uint c \<and> uint c \<le> 0x46 \<or> 0x61 \<le> uint c \<and> uint c \<le> 0x66"

text \<open>\<open>- . _ ~\<close> and the letters and digits; \<open>! $ & ' ( ) * + , ; =\<close>.\<close>

definition unreserved :: "u8 \<Rightarrow> bool" where
  "unreserved c \<longleftrightarrow> is_upper c \<or> is_lower c \<or> is_digit c \<or> uint c \<in> {0x2D, 0x2E, 0x5F, 0x7E}"

definition sub_delim :: "u8 \<Rightarrow> bool" where
  "sub_delim c \<longleftrightarrow> uint c \<in> {0x21, 0x24, 0x26, 0x27, 0x28, 0x29, 0x2A, 0x2B, 0x2C, 0x3B, 0x3D}"

text \<open>A character of a path segment, other than a percent sign; bytes above 127 are allowed.\<close>

definition pchar :: "u8 \<Rightarrow> bool" where
  "pchar c \<longleftrightarrow> unreserved c \<or> sub_delim c \<or> uint c \<in> {0x3A, 0x40} \<or> 0x80 \<le> uint c"

definition path_char :: "u8 \<Rightarrow> bool" where "path_char c \<longleftrightarrow> pchar c \<or> uint c = 0x2F"
definition query_char :: "u8 \<Rightarrow> bool" where "query_char c \<longleftrightarrow> path_char c \<or> uint c = 0x3F"

text \<open>A character of a header name; a byte of a header value.\<close>

definition token_char :: "u8 \<Rightarrow> bool" where
  "token_char c \<longleftrightarrow> is_upper c \<or> is_lower c \<or> is_digit c \<or>
     uint c \<in> {0x21, 0x23, 0x24, 0x25, 0x26, 0x27, 0x2A, 0x2B, 0x2D, 0x2E, 0x5E, 0x5F, 0x60, 0x7C, 0x7E}"

definition value_char :: "u8 \<Rightarrow> bool" where
  "value_char c \<longleftrightarrow> uint c \<notin> {0, 0x0A, 0x0D, 0x7F}"

text \<open>A header line.\<close>

definition field_line :: "u8 list \<times> u8 list \<Rightarrow> u8 list" where
  "field_line h = fst h @ [0x3A, 0x20] @ snd h @ [0x0D, 0x0A]"

named_theorems char_class \<open>definitions of the character classes\<close>

lemmas [char_class] = is_upper_def is_lower_def is_digit_def is_xdigit_def unreserved_def sub_delim_def
  pchar_def path_char_def query_char_def token_char_def value_char_def

text \<open>A text over a class, with escapes.\<close>

fun uri_text :: "(u8 \<Rightarrow> bool) \<Rightarrow> u8 list \<Rightarrow> bool" where
  "uri_text ok [] = True"
| "uri_text ok (c # s) =
     (if c = 0x25 then (case s of a # b # t \<Rightarrow> is_xdigit a \<and> is_xdigit b \<and> uri_text ok t | _ \<Rightarrow> False)
      else ok c \<and> uri_text ok s)"

lemma schar_if: "schar c = (if uint c < 0x80 then uint c else uint c - 0x100)"
  by (simp add: schar_def word_less_def)

lemma schar_inject: "schar c = schar d \<longleftrightarrow> c = d"
proof
  assume "schar c = schar d"
  then have "uint c = uint d"
    using uint_u8_range [of c] uint_u8_range [of d] by (simp only: schar_if split: if_splits)
  then show "c = d" by (simp add: word_uint_eq_iff)
qed simp

lemma schar_numeral: "schar 0x25 = 37" "schar 0x20 = 32" "schar 0x2F = 47" "schar 0x3F = 63" "schar 0x23 = 35"
  "schar 0x3A = 58" "schar 0x0D = 13" "schar 0x0A = 10"
  by (simp_all add: schar_def)

lemma ragel_run_uri_text:
  assumes "\<And>c. ok c \<Longrightarrow> c \<noteq> 0x25 \<Longrightarrow> step q (schar c) = goto q" "step q 37 = goto q1"
    and "\<And>c. is_xdigit c \<Longrightarrow> step q1 (schar c) = goto q2" "\<And>c. is_xdigit c \<Longrightarrow> step q2 (schar c) = goto q"
    and nz: "q \<noteq> 0" "q1 \<noteq> 0" "q2 \<noteq> 0"
  shows "uri_text ok xs \<Longrightarrow> ragel_run step act xs p q s = Some (q, s)"
proof (induction "length xs" arbitrary: xs p rule: less_induct)
  case less
  show ?case
  proof (cases xs)
    case (Cons c cs)
    show ?thesis
    proof (cases "c = 0x25")
      case True
      then obtain a b t where "cs = a # b # t" "is_xdigit a" "is_xdigit b" "uri_text ok t"
        using less.prems Cons by (auto split: list.splits)
      then show ?thesis using less.hyps [of t] Cons True assms(2-4) nz by (simp add: schar_numeral)
    next
      case False
      then show ?thesis using less.hyps [of cs] less.prems Cons assms(1) [of c] nz by simp
    qed
  qed simp
qed

end
