(* ===== verification/Civan_Http11_Grammar.thy ===== *)
theory Civan_Http11_Grammar
  imports Civan_Http11 Civan_Uri_Text
begin

section \<open>What the request automaton does on a well-formed request\<close>

text \<open>
  The runs of the automaton over the parts of a request head: the method, the target, the
  version, a header line, the empty line. Each lemma gives the state the run ends in, the
  positions it stores and the callbacks it makes.
\<close>

abbreviation http11_run :: "bool \<Rightarrow> u8 list \<Rightarrow> u8 list \<Rightarrow> nat \<Rightarrow> nat \<Rightarrow> http_parser \<times> parser_event list \<Rightarrow>
    (nat \<times> http_parser \<times> parser_event list) option" where
  "http11_run r buffer \<equiv> ragel_run (http11_step r) (http11_act buffer)"

text \<open>The states that a request head passes through.\<close>

lemma http11_at:
  "http11_step r (Suc 0) = http11_st1 r" "http11_step r 1 = http11_st1 r" "http11_step r 2 = http11_st2 r" "http11_step r 3 = http11_st3 r"
  "http11_step r 4 = http11_st4 r" "http11_step r 5 = http11_st5 r" "http11_step r 6 = http11_st6 r"
  "http11_step r 7 = http11_st7 r" "http11_step r 8 = http11_st8 r" "http11_step r 9 = http11_st9 r"
  "http11_step r 10 = http11_st10 r" "http11_step r 11 = http11_st11 r" "http11_step r 12 = http11_st12 r"
  "http11_step r 13 = http11_st13 r" "http11_step r 14 = http11_st14 r" "http11_step r 15 = http11_st15 r"
  "http11_step r 16 = http11_st16 r" "http11_step r 17 = http11_st17 r" "http11_step r 18 = http11_st18 r"
  "http11_step r 20 = http11_st20 r" "http11_step r 21 = http11_st21 r" "http11_step r 22 = http11_st22 r"
  "http11_step r 23 = http11_st23 r" "http11_step r 26 = http11_st26 r" "http11_step r 27 = http11_st27 r"
  "http11_step r 28 = http11_st28 r" "http11_step r 29 = http11_st29 r" "http11_step r 30 = http11_st30 r"
  "http11_step r 31 = http11_st31 r" "http11_step r 32 = http11_st32 r" "http11_step r 33 = http11_st33 r"
  "http11_step r 175 = http11_st175 r" "http11_step r 176 = http11_st176 r"
  "http11_step r 177 = http11_st177 r" "http11_step r 178 = http11_st178 r"
  "http11_step r 179 = http11_st179 r" "http11_step r 180 = http11_st180 r"
  "http11_step r 181 = http11_st181 r" "http11_step r 182 = http11_st182 r"
  "http11_step r 183 = http11_st183 r" "http11_step r 184 = http11_st184 r"
  "http11_step r 185 = http11_st185 r" "http11_step r 186 = http11_st186 r"
  "http11_step r 187 = http11_st187 r" "http11_step r 188 = http11_st188 r"
  "http11_step r 189 = http11_st189 r" "http11_step r 190 = http11_st190 r"
  "http11_step r 191 = http11_st191 r" "http11_step r 192 = http11_st192 r"
  "http11_step r 193 = http11_st193 r"
  by (simp_all add: fun_eq_iff http11_step_def http11_states_def)

lemmas http11_eval = http11_at http11_code

subsection \<open>The method\<close>

text \<open>The states count the characters of the method.\<close>

definition method_state :: "nat \<Rightarrow> nat" where
  "method_state k = (if k = 0 then 1 else if k = 1 then 2 else 173 + k)"

definition method_char :: "u8 \<Rightarrow> bool" where "method_char c \<longleftrightarrow> is_upper c \<or> is_digit c"

lemma method_char_range: "method_char c \<Longrightarrow> 65 \<le> schar c \<and> schar c \<le> 90 \<or> 48 \<le> schar c \<and> schar c \<le> 57"
  by (auto simp: method_char_def char_class schar_if)

lemma method_counts:
  assumes "0 < k" "k \<le> 20" "65 \<le> c \<and> c \<le> 90 \<or> 48 \<le> c \<and> c \<le> 57"
  shows "k < 20 \<Longrightarrow> http11_step r (method_state k) c = goto (method_state (Suc k))"
    and "http11_step r (method_state k) 32 = ([Request_method], 3)"
proof -
  have "k \<in> {1, 2, 3, 4, 5, 6, 7, 8, 9, 10, 11, 12, 13, 14, 15, 16, 17, 18, 19, 20}" using assms(1,2) by (simp, arith)
  then show "k < 20 \<Longrightarrow> http11_step r (method_state k) c = goto (method_state (Suc k))"
    "http11_step r (method_state k) 32 = ([Request_method], 3)"
    using assms(3) by (elim insertE emptyE; simp add: http11_eval method_state_def; arith?)+
qed

lemma run_method_loop:
  "list_all method_char m \<Longrightarrow> 0 < k \<Longrightarrow> k + length m \<le> 20 \<Longrightarrow>
   http11_run r buffer m p (method_state k) s = Some (method_state (k + length m), s)"
proof (induction m arbitrary: k p)
  case (Cons c m)
  have "http11_step r (method_state k) (schar c) = goto (method_state (Suc k))"
    using Cons.prems method_char_range [of c] by (intro method_counts) auto
  moreover have "method_state (Suc k) \<noteq> 0" by (simp add: method_state_def)
  ultimately show ?case using Cons by simp
qed simp

lemma run_method:
  assumes "list_all method_char m" "m \<noteq> []" "length m \<le> 20"
  shows "http11_run r buffer (m @ [0x20]) p 1 (P, evs) =
    Some (3, P\<lparr>hp_mark := p\<rparr>, evs @ [Ev_request_method (drop p buffer) (length m)])"
proof (cases m)
  case (Cons c m')
  have c: "65 \<le> schar c \<and> schar c \<le> 90 \<or> 48 \<le> schar c \<and> schar c \<le> 57"
    using assms Cons method_char_range [of c] by simp
  then have "http11_step r 1 (schar c) = ([Mark], method_state 1)"
    by (auto simp: http11_eval method_state_def)
  moreover have "http11_run r buffer m' (Suc p) (method_state 1) s = Some (method_state (length m), s)" for s
    using run_method_loop [of m' 1] assms Cons by simp
  moreover have "http11_step r (method_state (length m)) 32 = ([Request_method], 3)"
    using assms c by (intro method_counts) auto
  ultimately show ?thesis
    by (simp add: Cons ragel_run_append schar_numeral method_state_def LEN_def PTR_TO_def)
qed (use assms in simp)

subsection \<open>The request target\<close>

text \<open>A path that starts with a single slash.\<close>

definition path_ok :: "u8 list \<Rightarrow> bool" where
  "path_ok path \<longleftrightarrow> (case path of [] \<Rightarrow> False | c # s \<Rightarrow>
     c = 0x2F \<and> uri_text path_char s \<and> (case s of [] \<Rightarrow> True | d # _ \<Rightarrow> d \<noteq> 0x2F))"

lemma xdigit_range: "is_xdigit c \<Longrightarrow> 48 \<le> schar c \<and> schar c \<le> 57 \<or> 65 \<le> schar c \<and> schar c \<le> 70 \<or> 97 \<le> schar c \<and> schar c \<le> 102"
  by (auto simp: char_class schar_if)

lemma escape_states:
  assumes "is_xdigit c" "(n, t) \<in> {(27, 28), (28, 26), (31, 32), (32, 30), (22, 23), (23, 21)}"
  shows "http11_step r n (schar c) = goto t"
  using xdigit_range [OF assms(1)] assms(2) by (auto simp: http11_eval)

text \<open>The widened comparison agrees with the plain one on the characters of the classes.\<close>

lemma widec_query_char: "query_char c \<Longrightarrow> widec r (schar c) = schar c"
  using uint_u8_range [of c] by (auto simp: char_class widec_def schar_if)

lemma query_char_range:
  assumes "query_char c"
  shows "schar c \<in> {33, 36, 61, 95, 126} \<or> schar c \<le> -1 \<or> 38 \<le> schar c \<and> schar c \<le> 59 \<or>
    63 \<le> schar c \<and> schar c \<le> 90 \<or> 97 \<le> schar c \<and> schar c \<le> 122"
  using assms uint_u8_range [of c] by (auto simp: char_class schar_if)

lemma text_states:
  assumes "query_char c" "c \<noteq> 0x25"
  shows "http11_step r 30 (schar c) = goto 30" "http11_step r 21 (schar c) = goto 21"
    "schar c \<noteq> 63 \<Longrightarrow> http11_step r 26 (schar c) = goto 26"
  using query_char_range [OF assms(1)] widec_query_char [OF assms(1), of r]
  by (auto simp: http11_eval Let_def)

lemma path_text:
  assumes "uri_text path_char s"
  shows "http11_run r buffer s p 26 st = Some (26, st)"
proof (rule ragel_run_uri_text [where ?q1.0 = 27 and ?q2.0 = 28, OF _ _ _ _ _ _ _ assms])
  fix c assume "path_char c" "c \<noteq> 0x25"
  then show "http11_step r 26 (schar c) = goto 26"
    using uint_u8_range [of c] by (intro text_states(3)) (auto simp: char_class schar_if)
next
  show "http11_step r 26 37 = goto 27" by (simp add: http11_eval widec_def)
qed (simp_all add: escape_states)

lemma query_text:
  assumes "uri_text query_char s"
  shows "http11_run r buffer s p 30 st = Some (30, st)"
proof (rule ragel_run_uri_text [where ?q1.0 = 31 and ?q2.0 = 32, OF _ _ _ _ _ _ _ assms])
  show "http11_step r 30 37 = goto 31" by (simp add: http11_eval widec_def)
qed (simp_all add: escape_states text_states)

lemma fragment_text:
  assumes "uri_text query_char s"
  shows "http11_run r buffer s p 21 st = Some (21, st)"
proof (rule ragel_run_uri_text [where ?q1.0 = 22 and ?q2.0 = 23, OF _ _ _ _ _ _ _ assms])
  show "http11_step r 21 37 = goto 22" by (simp add: http11_eval widec_def)
qed (simp_all add: escape_states text_states)

text \<open>The state behind the first slash differs from the later ones on a slash only.\<close>

lemma after_slash: "c \<noteq> 47 \<Longrightarrow> http11_step r 33 c = http11_step r 26 c"
  by (simp add: http11_eval Let_def widec_def)

lemma run_path:
  assumes "path_ok path"
  obtains q where "q = 26 \<or> q = 33"
    "\<And>buffer p P evs. http11_run r buffer path p 3 (P, evs) = Some (q, P\<lparr>hp_mark := p\<rparr>, evs)"
proof -
  obtain s where s: "path = 0x2F # s" "uri_text path_char s" "s = [] \<or> hd s \<noteq> 0x2F"
    using assms by (auto simp: path_ok_def split: list.splits)
  have j: "http11_step r 3 47 = ([Mark], 33)" by (simp add: http11_eval widec_def)
  show thesis
  proof (cases s)
    case Nil
    then show thesis using that [of 33] s(1) j by (simp add: schar_numeral)
  next
    case (Cons c t)
    then have "schar c \<noteq> 47" using s(3) schar_inject [of c "0x2F"] by (auto simp: schar_numeral)
    then have "http11_run r buffer s p 33 st = http11_run r buffer s p 26 st" for buffer p st
      by (simp add: Cons after_slash)
    then show thesis using that [of 26] s(1) j path_text [OF s(2)] by (simp add: schar_numeral)
  qed
qed

text \<open>The first character of a query or a fragment stores where it starts.\<close>

lemma query_start: "http11_step r 29 c = (case http11_step r 30 c of (acts, t) \<Rightarrow> (if t = 0 then goto 0 else (Start_query # acts, t)))"
  by (simp add: http11_eval Let_def)

lemma fragment_start: "http11_step r 20 c = (case http11_step r 21 c of (acts, t) \<Rightarrow> (if t = 0 then goto 0 else (Mark # acts, t)))"
  by (simp add: http11_eval Let_def)

text \<open>
  The rest of the target and the blank behind it: the path is reported, then the query and
  the fragment where there are any.
\<close>

definition target_text :: "u8 list \<Rightarrow> u8 list \<Rightarrow> u8 list \<Rightarrow> u8 list" where
  "target_text path query fragment = path @ (if query = [] then [] else 0x3F # query)
     @ (if fragment = [] then [] else 0x23 # fragment)"

lemma path_end:
  assumes "q = 26 \<or> q = 33"
  shows "http11_step r q 32 = ([Request_path, Request_uri], 4)" "http11_step r q 63 = ([Request_path], 29)"
    "http11_step r q 35 = ([Request_path, Request_uri], 20)"
  using assms by (auto simp: http11_eval widec_def)

lemma query_end:
  "http11_step r 30 32 = ([Query_string, Request_uri], 4)" "http11_step r 30 35 = ([Query_string, Request_uri], 20)"
  "http11_step r 21 32 = ([Fragment], 4)"
  by (simp_all add: http11_eval widec_def)

lemma run_query:
  assumes "uri_text query_char query" "query \<noteq> []"
  shows "http11_run r buffer query p 29 (P, evs) = Some (30, P\<lparr>hp_query_start := p\<rparr>, evs)"
proof (cases query)
  case (Cons c cs)
  obtain acts t where j: "http11_step r 30 (schar c) = (acts, t)" by fastforce
  have "http11_run r buffer query p 30 (P\<lparr>hp_query_start := p\<rparr>, evs) = Some (30, P\<lparr>hp_query_start := p\<rparr>, evs)"
    by (rule query_text [OF assms(1)])
  then show ?thesis using Cons j by (auto simp: query_start split: if_splits prod.splits)
qed (use assms in simp)

lemma run_fragment:
  assumes "uri_text query_char fragment" "fragment \<noteq> []"
  shows "http11_run r buffer fragment p 20 (P, evs) = Some (21, P\<lparr>hp_mark := p\<rparr>, evs)"
proof (cases fragment)
  case (Cons c cs)
  obtain acts t where j: "http11_step r 21 (schar c) = (acts, t)" by fastforce
  have "http11_run r buffer fragment p 21 (P\<lparr>hp_mark := p\<rparr>, evs) = Some (21, P\<lparr>hp_mark := p\<rparr>, evs)"
    by (rule fragment_text [OF assms(1)])
  then show ?thesis using Cons j by (auto simp: fragment_start split: if_splits prod.splits)
qed (use assms in simp)

definition target_events :: "u8 list \<Rightarrow> nat \<Rightarrow> u8 list \<Rightarrow> u8 list \<Rightarrow> u8 list \<Rightarrow> parser_event list" where
  "target_events buffer p path query fragment =
     (let uri = length path + (if query = [] then 0 else Suc (length query)) in
      Ev_request_path (drop p buffer) (length path)
      # (if query = [] then [] else [Ev_query_string (drop (Suc (p + length path)) buffer) (length query)])
      @ Ev_request_uri (drop p buffer) uri
      # (if fragment = [] then [] else [Ev_fragment (drop (Suc (p + uri)) buffer) (length fragment)]))"

definition target_marks :: "nat \<Rightarrow> u8 list \<Rightarrow> u8 list \<Rightarrow> u8 list \<Rightarrow> http_parser \<Rightarrow> http_parser" where
  "target_marks p path query fragment P =
     (let P1 = P\<lparr>hp_mark := p\<rparr>;
          P2 = (if query = [] then P1 else P1\<lparr>hp_query_start := Suc (p + length path)\<rparr>);
          uri = length path + (if query = [] then 0 else Suc (length query))
      in if fragment = [] then P2 else P2\<lparr>hp_mark := Suc (p + uri)\<rparr>)"

lemma run_target:
  assumes "path_ok path" "uri_text query_char query" "uri_text query_char fragment"
  shows "http11_run r buffer (target_text path query fragment @ [0x20]) p 3 (P, evs) =
      Some (4, target_marks p path query fragment P, evs @ target_events buffer p path query fragment)"
proof -
  obtain q where q: "q = 26 \<or> q = 33"
      "\<And>buffer p P evs. http11_run r buffer path p 3 (P, evs) = Some (q, P\<lparr>hp_mark := p\<rparr>, evs)"
    using run_path [OF assms(1), of r] by blast
  note e = path_end [OF q(1), of r] query_end [of r]
  have p: "http11_run r buffer (path @ xs) p 3 (P, evs) = http11_run r buffer xs (p + length path) q (P\<lparr>hp_mark := p\<rparr>, evs)" for xs
    by (simp add: ragel_run_append q(2))
  show ?thesis
  proof (cases "query = []"; cases "fragment = []")
    assume "query = []" "fragment = []"
    then show ?thesis
      by (simp add: target_text_def target_events_def target_marks_def p q(2) e schar_numeral LEN_def PTR_TO_def Let_def)
  next
    assume n: "query = []" "fragment \<noteq> []"
    then show ?thesis
      by (simp add: target_text_def target_events_def target_marks_def p q(2) e schar_numeral LEN_def PTR_TO_def Let_def
          ragel_run_append run_fragment [OF assms(3)])
  next
    assume n: "query \<noteq> []" "fragment = []"
    then show ?thesis
      by (simp add: target_text_def target_events_def target_marks_def p q(2) e schar_numeral LEN_def PTR_TO_def Let_def
          ragel_run_append run_query [OF assms(2)])
  next
    assume n: "query \<noteq> []" "fragment \<noteq> []"
    then show ?thesis
      by (simp add: target_text_def target_events_def target_marks_def p q(2) e schar_numeral LEN_def PTR_TO_def Let_def
          ragel_run_append run_query [OF assms(2)] run_fragment [OF assms(3)] add.assoc)
  qed
qed

subsection \<open>The version\<close>

lemma run_version:
  assumes "d = 0x30 \<or> d = 0x31"
  shows "http11_run r buffer (lit ''HTTP/1.'' @ [d, 0x0D, 0x0A]) p 4 (P, evs) =
      Some (13, P\<lparr>hp_mark := p\<rparr>, evs @ [Ev_http_version (drop p buffer) 8])"
proof -
  have "schar d = 48 \<or> schar d = 49" using assms by (auto simp: schar_def)
  then show ?thesis
    by (auto simp: lit_def http11_eval schar_def LEN_def PTR_TO_def)
qed

subsection \<open>Header lines\<close>

text \<open>The value must not start with a blank, which the automaton skips.\<close>

definition field_ok :: "u8 list \<times> u8 list \<Rightarrow> bool" where
  "field_ok h \<longleftrightarrow> fst h \<noteq> [] \<and> list_all token_char (fst h) \<and> list_all value_char (snd h) \<and>
     (case snd h of [] \<Rightarrow> True | c # _ \<Rightarrow> c \<noteq> 0x20 \<and> c \<noteq> 0x09)"

lemma token_states:
  assumes "token_char c"
  shows "http11_step r 13 (schar c) = ([Start_field], 14)" "http11_step r 14 (schar c) = goto 14"
proof -
  have "schar c \<in> {33, 124, 126} \<or> 35 \<le> schar c \<and> schar c \<le> 39 \<or> 42 \<le> schar c \<and> schar c \<le> 43 \<or>
    45 \<le> schar c \<and> schar c \<le> 46 \<or> 48 \<le> schar c \<and> schar c \<le> 57 \<or> 65 \<le> schar c \<and> schar c \<le> 90 \<or>
    94 \<le> schar c \<and> schar c \<le> 122"
    using assms unfolding char_class schar_if by (elim disjE insertE emptyE; simp)
  then show "http11_step r 13 (schar c) = ([Start_field], 14)" "http11_step r 14 (schar c) = goto 14"
    by (elim disjE insertE emptyE conjE; simp add: http11_eval)+
qed

lemma value_states:
  assumes "value_char c"
  shows "http11_step r 16 (schar c) = goto 16"
    "c \<noteq> 0x20 \<Longrightarrow> c \<noteq> 0x09 \<Longrightarrow> http11_step r 15 (schar c) = ([Start_value], 16)"
proof -
  have "schar c \<noteq> 0 \<and> schar c \<noteq> 10 \<and> schar c \<noteq> 13 \<and> schar c \<noteq> 127"
    using assms uint_u8_range [of c] by (auto simp: char_class schar_if)
  moreover have "c \<noteq> 0x20 \<Longrightarrow> schar c \<noteq> 32" "c \<noteq> 0x09 \<Longrightarrow> schar c \<noteq> 9"
    using schar_inject [of c "0x20"] schar_inject [of c "0x09"] by (simp_all add: schar_def)
  ultimately show "http11_step r 16 (schar c) = goto 16"
    "c \<noteq> 0x20 \<Longrightarrow> c \<noteq> 0x09 \<Longrightarrow> http11_step r 15 (schar c) = ([Start_value], 16)"
    by (simp_all add: http11_eval)
qed

lemma field_punctuation:
  "http11_step r 14 58 = ([Write_field], 15)" "http11_step r 15 32 = ([Start_value], 15)"
  "http11_step r 15 13 = ([Start_value, Write_value], 17)" "http11_step r 16 13 = ([Write_value], 17)"
  "http11_step r 17 10 = goto 13" "http11_step r 13 13 = ([Start_field], 18)" "http11_step r 18 10 = ([Done], 348)"
  by (simp_all add: http11_eval)

definition field_event :: "u8 list \<Rightarrow> nat \<Rightarrow> u8 list \<times> u8 list \<Rightarrow> parser_event" where
  "field_event buffer p h = Ev_http_field (drop p buffer) (length (fst h))
     (drop (p + length (fst h) + 2) buffer) (length (snd h))"

definition field_marks :: "nat \<Rightarrow> u8 list \<times> u8 list \<Rightarrow> http_parser \<Rightarrow> http_parser" where
  "field_marks p h P = P\<lparr>hp_field_start := p, hp_field_len := length (fst h), hp_mark := p + length (fst h) + 2\<rparr>"

lemma run_field_name:
  assumes "list_all token_char k" "k \<noteq> []"
  shows "http11_run r buffer (k @ [0x3A, 0x20]) p 13 (P, evs) =
    Some (15, P\<lparr>hp_field_start := p, hp_field_len := length k, hp_mark := Suc (p + length k)\<rparr>, evs)"
proof (cases k)
  case (Cons c cs)
  have "http11_run r buffer cs (Suc p) 14 s = Some (14, s)" for s
    using assms Cons by (intro ragel_run_loop) (auto simp: list_all_iff token_states)
  then show ?thesis
    using assms Cons by (simp add: token_states field_punctuation schar_numeral ragel_run_append LEN_def)
qed (use assms in simp)

lemma run_field_value:
  assumes "list_all value_char v" "case v of [] \<Rightarrow> True | c # _ \<Rightarrow> c \<noteq> 0x20 \<and> c \<noteq> 0x09"
  shows "http11_run r buffer (v @ [0x0D, 0x0A]) p 15 (P, evs) =
    Some (13, P\<lparr>hp_mark := p\<rparr>, evs @ [Ev_http_field (drop (hp_field_start P) buffer) (hp_field_len P) (drop p buffer) (length v)])"
proof (cases v)
  case Nil
  then show ?thesis by (simp add: field_punctuation schar_numeral LEN_def PTR_TO_def)
next
  case (Cons c cs)
  have "http11_run r buffer cs (Suc p) 16 s = Some (16, s)" for s
    using assms(1) Cons by (intro ragel_run_loop) (auto simp: list_all_iff value_states)
  then show ?thesis
    using assms Cons by (simp add: value_states field_punctuation schar_numeral ragel_run_append LEN_def PTR_TO_def)
qed

lemma run_field:
  assumes "field_ok h"
  shows "http11_run r buffer (field_line h) p 13 (P, evs) = Some (13, field_marks p h P, evs @ [field_event buffer p h])"
proof -
  have "field_line h = (fst h @ [0x3A, 0x20]) @ (snd h @ [0x0D, 0x0A])" by (simp add: field_line_def)
  moreover note run_field_name [of "fst h" r buffer p P evs]
    run_field_value [of "snd h" r buffer "p + length (fst h @ [0x3A, 0x20])"]
  ultimately show ?thesis
    using assms by (simp only: ragel_run_append [of _ _ "fst h @ [0x3A, 0x20]"])
      (simp add: field_ok_def field_event_def field_marks_def)
qed

fun field_events :: "u8 list \<Rightarrow> nat \<Rightarrow> (u8 list \<times> u8 list) list \<Rightarrow> parser_event list" where
  "field_events buffer p [] = []"
| "field_events buffer p (h # hs) = field_event buffer p h # field_events buffer (p + length (field_line h)) hs"

fun fields_marks :: "nat \<Rightarrow> (u8 list \<times> u8 list) list \<Rightarrow> http_parser \<Rightarrow> http_parser" where
  "fields_marks p [] P = P"
| "fields_marks p (h # hs) P = fields_marks (p + length (field_line h)) hs (field_marks p h P)"

lemma run_fields:
  "list_all field_ok hs \<Longrightarrow> http11_run r buffer (concat (map field_line hs)) p 13 (P, evs) =
     Some (13, fields_marks p hs P, evs @ field_events buffer p hs)"
  by (induction hs arbitrary: p P evs) (simp_all add: ragel_run_append run_field)

text \<open>The marks of the parts leave the rest of the parser alone.\<close>

lemma marks_frame:
  "hp_body_start (target_marks p path query fragment P) = hp_body_start P"
  "hp_xml_sent (target_marks p path query fragment P) = hp_xml_sent P"
  "hp_json_sent (target_marks p path query fragment P) = hp_json_sent P"
  "hp_cs (target_marks p path query fragment P) = hp_cs P"
  by (simp_all add: target_marks_def Let_def)

lemma fields_marks_frame:
  "hp_body_start (fields_marks p hs P) = hp_body_start P" "hp_xml_sent (fields_marks p hs P) = hp_xml_sent P"
  "hp_json_sent (fields_marks p hs P) = hp_json_sent P" "hp_cs (fields_marks p hs P) = hp_cs P"
  by (induction hs arbitrary: p P) (simp_all add: field_marks_def)

subsection \<open>The whole head\<close>

text \<open>What a callback is told, by its name.\<close>

fun event_text :: "parser_event \<Rightarrow> string \<times> u8 list list" where
  "event_text (Ev_request_method at n) = (''request_method'', [take n at])"
| "event_text (Ev_request_uri at n) = (''request_uri'', [take n at])"
| "event_text (Ev_fragment at n) = (''fragment'', [take n at])"
| "event_text (Ev_request_path at n) = (''request_path'', [take n at])"
| "event_text (Ev_query_string at n) = (''query_string'', [take n at])"
| "event_text (Ev_http_version at n) = (''http_version'', [take n at])"
| "event_text (Ev_header_done at n) = (''header_done'', [take n at])"
| "event_text (Ev_http_field f fn v vn) = (''http_field'', [take fn f, take vn v])"

definition request_head :: "u8 list \<Rightarrow> u8 list \<Rightarrow> u8 list \<Rightarrow> u8 list \<Rightarrow> u8 \<Rightarrow> (u8 list \<times> u8 list) list \<Rightarrow> u8 list" where
  "request_head m path query fragment d hs =
     (m @ [0x20]) @ (target_text path query fragment @ [0x20]) @ (lit ''HTTP/1.'' @ [d, 0x0D, 0x0A])
     @ concat (map field_line hs) @ [0x0D, 0x0A]"

definition request_head_ok :: "u8 list \<Rightarrow> u8 list \<Rightarrow> u8 list \<Rightarrow> u8 list \<Rightarrow> u8 \<Rightarrow> (u8 list \<times> u8 list) list \<Rightarrow> bool" where
  "request_head_ok m path query fragment d hs \<longleftrightarrow> list_all method_char m \<and> m \<noteq> [] \<and> length m \<le> 20 \<and>
     path_ok path \<and> uri_text query_char query \<and> uri_text query_char fragment \<and> (d = 0x30 \<or> d = 0x31) \<and>
     list_all field_ok hs"

lemma field_events_text:
  "drop p buffer = concat (map field_line hs) @ rest \<Longrightarrow>
   map event_text (field_events buffer p hs) = map (\<lambda>(k, v). (''http_field'', [k, v])) hs"
proof (induction hs arbitrary: p)
  case (Cons h hs)
  obtain k v where h: "h = (k, v)" by fastforce
  have d: "drop (p + n) buffer = drop n (field_line h @ concat (map field_line hs) @ rest)" for n
    using Cons.prems by (simp flip: drop_drop add: add.commute)
  then have "drop (p + length (field_line h)) buffer = concat (map field_line hs) @ rest" by simp
  moreover have "event_text (field_event buffer p h) = (''http_field'', [k, v])"
    using d [of 0] d [of "length k + 2"] by (simp add: field_event_def h field_line_def add.assoc)
  ultimately show ?case using Cons.IH h by simp
qed simp

lemma target_events_text:
  assumes "drop p buffer = target_text path query fragment @ rest"
  shows "map event_text (target_events buffer p path query fragment) =
     (''request_path'', [path]) # (if query = [] then [] else [(''query_string'', [query])])
     @ (''request_uri'', [path @ (if query = [] then [] else 0x3F # query)])
     # (if fragment = [] then [] else [(''fragment'', [fragment])])"
proof -
  have d: "drop (p + n) buffer = drop n (target_text path query fragment @ rest)" for n
    using assms by (simp flip: drop_drop add: add.commute)
  show ?thesis
    using d [of 0] d [of "Suc (length path)"] d [of "Suc (length path + (if query = [] then 0 else Suc (length query)))"]
    by (simp add: target_events_def Let_def target_text_def)
qed

lemma exec_head_end:
  assumes "\<not> hp_xml_sent P" "\<not> hp_json_sent P"
  shows "ragel_exec (http11_step r) (http11_act buffer) ([0x0D, 0x0A] @ body) p 13 (P, evs) =
    (p + 2, 348, P\<lparr>hp_field_start := p, hp_body_start := p + 2\<rparr>,
     evs @ [Ev_header_done (drop (p + 2) buffer) (length buffer - (p + 2))])"
  using assms by (simp add: field_punctuation schar_numeral http11_done_def PTR_TO_def)

text \<open>The request line, then any number of header lines, leave the automaton between two lines.\<close>

definition request_line :: "u8 list \<Rightarrow> u8 list \<Rightarrow> u8 list \<Rightarrow> u8 list \<Rightarrow> u8 \<Rightarrow> u8 list" where
  "request_line m path query fragment d =
     (m @ [0x20]) @ (target_text path query fragment @ [0x20]) @ (lit ''HTTP/1.'' @ [d, 0x0D, 0x0A])"

lemma request_head_lines:
  "request_head m path query fragment d (hs @ hs') =
     (request_line m path query fragment d @ concat (map field_line hs)) @ concat (map field_line hs') @ [0x0D, 0x0A]"
  by (simp add: request_head_def request_line_def)

definition line_calls :: "u8 list \<Rightarrow> u8 list \<Rightarrow> u8 list \<Rightarrow> u8 list \<Rightarrow> u8 \<Rightarrow> (string \<times> u8 list list) list" where
  "line_calls m path query fragment d =
     [(''request_method'', [m]), (''request_path'', [path])]
     @ (if query = [] then [] else [(''query_string'', [query])])
     @ [(''request_uri'', [path @ (if query = [] then [] else 0x3F # query)])]
     @ (if fragment = [] then [] else [(''fragment'', [fragment])])
     @ [(''http_version'', [lit ''HTTP/1.'' @ [d]])]"

definition field_calls :: "(u8 list \<times> u8 list) list \<Rightarrow> (string \<times> u8 list list) list" where
  "field_calls = map (\<lambda>(k, v). (''http_field'', [k, v]))"

lemma run_request_line:
  assumes ok: "request_head_ok m path query fragment d hs"
    and buffer: "buffer = request_line m path query fragment d @ rest"
  obtains P' evs where "http11_run r buffer (request_line m path query fragment d) 0 1 (P, []) = Some (13, P', evs)"
    "map event_text evs = line_calls m path query fragment d"
    "hp_body_start P' = hp_body_start P" "hp_xml_sent P' = hp_xml_sent P" "hp_json_sent P' = hp_json_sent P"
proof -
  define a where "a = m @ [0x20]"
  define b where "b = target_text path query fragment @ [0x20]"
  define c where "c = lit ''HTTP/1.'' @ [d, 0x0D, 0x0A]"
  have line: "request_line m path query fragment d = a @ b @ c" by (simp add: request_line_def a_def b_def c_def)
  define P1 where "P1 = target_marks (length a) path query fragment (P\<lparr>hp_mark := 0\<rparr>)"
  define evs where "evs = [Ev_request_method buffer (length m)] @ target_events buffer (length a) path query fragment
    @ [Ev_http_version (drop (length a + length b) buffer) 8]"
  have ra: "http11_run r buffer a 0 1 (P, []) = Some (3, P\<lparr>hp_mark := 0\<rparr>, [Ev_request_method buffer (length m)])"
    using run_method [of m r buffer 0 P "[]"] ok by (simp add: a_def request_head_ok_def)
  have rb: "http11_run r buffer b (length a) 3 (P', es) =
      Some (4, target_marks (length a) path query fragment P', es @ target_events buffer (length a) path query fragment)" for P' es
    unfolding b_def by (rule run_target) (use ok in \<open>simp_all add: request_head_ok_def\<close>)
  have rc: "http11_run r buffer c p 4 (P', es) = Some (13, P'\<lparr>hp_mark := p\<rparr>, es @ [Ev_http_version (drop p buffer) 8])" for p P' es
    unfolding c_def by (rule run_version) (use ok in \<open>simp add: request_head_ok_def\<close>)
  have "http11_run r buffer (a @ b @ c) 0 1 (P, []) = Some (13, P1\<lparr>hp_mark := length a + length b\<rparr>, evs)"
    by (simp add: ragel_run_append ra [unfolded One_nat_def] rb rc P1_def evs_def)
  moreover have "map event_text (target_events buffer (length a) path query fragment) =
     (''request_path'', [path]) # (if query = [] then [] else [(''query_string'', [query])])
     @ (''request_uri'', [path @ (if query = [] then [] else 0x3F # query)])
     # (if fragment = [] then [] else [(''fragment'', [fragment])])"
    by (rule target_events_text [where rest = "0x20 # c @ rest"]) (simp add: buffer line b_def)
  moreover have "take (length m) buffer = m" "take 8 (drop (length a + length b) buffer) = lit ''HTTP/1.'' @ [d]"
    by (simp_all add: buffer line a_def c_def lit_def)
  ultimately show thesis
    using that [of "P1\<lparr>hp_mark := length a + length b\<rparr>" evs]
    by (simp add: line evs_def line_calls_def P1_def marks_frame)
qed

lemma run_request_lines:
  assumes ok: "request_head_ok m path query fragment d hs"
    and buffer: "buffer = (request_line m path query fragment d @ concat (map field_line hs)) @ rest"
  obtains P' evs where
    "http11_run r buffer (request_line m path query fragment d @ concat (map field_line hs)) 0 1 (P, []) = Some (13, P', evs)"
    "map event_text evs = line_calls m path query fragment d @ field_calls hs"
    "hp_body_start P' = hp_body_start P" "hp_xml_sent P' = hp_xml_sent P" "hp_json_sent P' = hp_json_sent P"
proof -
  let ?l = "request_line m path query fragment d"
  have "buffer = ?l @ concat (map field_line hs) @ rest" by (simp add: buffer)
  then obtain P1 evs where l: "http11_run r buffer ?l 0 1 (P, []) = Some (13, P1, evs)"
      "map event_text evs = line_calls m path query fragment d"
      "hp_body_start P1 = hp_body_start P" "hp_xml_sent P1 = hp_xml_sent P" "hp_json_sent P1 = hp_json_sent P"
    by (rule run_request_line [OF ok])
  have "list_all field_ok hs" using ok by (simp add: request_head_ok_def)
  then have "http11_run r buffer (?l @ concat (map field_line hs)) 0 1 (P, []) =
      Some (13, fields_marks (length ?l) hs P1, evs @ field_events buffer (length ?l) hs)"
    using l(1) by (simp add: ragel_run_append run_fields)
  moreover have "map event_text (field_events buffer (length ?l) hs) = field_calls hs"
    unfolding field_calls_def by (rule field_events_text [where rest = rest]) (simp add: buffer)
  ultimately show thesis
    using that [of "fields_marks (length ?l) hs P1" "evs @ field_events buffer (length ?l) hs"] l(2-)
    by (simp add: fields_marks_frame)
qed

text \<open>From between two lines: the remaining header lines and the empty line.\<close>

lemma exec_fields_end:
  assumes "list_all field_ok hs" "\<not> hp_xml_sent P" "\<not> hp_json_sent P"
    and buffer: "drop p buffer = concat (map field_line hs) @ [0x0D, 0x0A] @ body"
  obtains P' evs' where "ragel_exec (http11_step r) (http11_act buffer) (concat (map field_line hs) @ [0x0D, 0x0A] @ body) p 13 (P, evs) =
      (p + length (concat (map field_line hs)) + 2, 348, P', evs @ evs')"
    "hp_body_start P' = p + length (concat (map field_line hs)) + 2"
    "map event_text evs' = field_calls hs @ [(''header_done'', [body])]"
proof -
  define n where "n = p + length (concat (map field_line hs))"
  have "drop (n + 2) buffer = drop (length (concat (map field_line hs)) + 2) (drop p buffer)"
    by (simp add: n_def add.commute add.left_commute)
  then have b: "drop (n + 2) buffer = body" unfolding buffer by simp
  then have "length buffer - (n + 2) = length body" by (metis length_drop)
  moreover have "map event_text (field_events buffer p hs) = field_calls hs"
    unfolding field_calls_def by (rule field_events_text [OF buffer])
  moreover have "ragel_exec (http11_step r) (http11_act buffer) (concat (map field_line hs) @ [0x0D, 0x0A] @ body) p 13 (P, evs) =
      ragel_exec (http11_step r) (http11_act buffer) ([0x0D, 0x0A] @ body) n 13 (fields_marks p hs P, evs @ field_events buffer p hs)"
    unfolding n_def by (rule ragel_exec_append [OF run_fields [OF assms(1)]])
  ultimately show thesis
    using that [of _ "field_events buffer p hs @ [Ev_header_done (drop (n + 2) buffer) (length buffer - (n + 2))]"]
      exec_head_end [of "fields_marks p hs P" r buffer body n] assms(2,3) b
    by (simp add: n_def fields_marks_frame)
qed

subsection \<open>One call and two calls of the parser\<close>

lemma init_fields [simp]:
  "hp_cs (http_parser_init mem) = 1" "hp_body_start (http_parser_init mem) = 0"
  "hp_xml_sent (http_parser_init mem) = False" "hp_json_sent (http_parser_init mem) = False"
  "hp_uri_relaxed (http_parser_init mem) = hp_uri_relaxed mem"
  by (simp_all add: http_parser_init_def http_parser_start_def)

lemma reset_fields [simp]:
  "hp_cs (http11_reset P) = hp_cs P" "hp_body_start (http11_reset P) = hp_body_start P"
  "hp_xml_sent (http11_reset P) = hp_xml_sent P" "hp_json_sent (http11_reset P) = hp_json_sent P"
  by (simp_all add: http11_reset_def)

lemma execute_lines:
  assumes ok: "request_head_ok m path query fragment d hs"
    and len: "length (request_line m path query fragment d @ concat (map field_line hs)) < 2 ^ 31"
  obtains P' evs where
    "http_parser_execute (http_parser_init mem) (request_line m path query fragment d @ concat (map field_line hs)) 0 =
       Inr (length (request_line m path query fragment d @ concat (map field_line hs)), P', evs)"
    "hp_cs P' = 13" "hp_body_start P' = 0" "\<not> hp_xml_sent P'" "\<not> hp_json_sent P'"
    "map event_text evs = line_calls m path query fragment d @ field_calls hs"
proof -
  let ?b = "request_line m path query fragment d @ concat (map field_line hs)" and ?P = "http_parser_init mem"
  have ne: "?b \<noteq> []" by (simp add: request_line_def)
  obtain P1 evs where r: "http11_run (hp_uri_relaxed ?P) ?b ?b 0 1 (http11_reset ?P, []) = Some (13, P1, evs)"
    "map event_text evs = line_calls m path query fragment d @ field_calls hs"
    "hp_body_start P1 = 0" "\<not> hp_xml_sent P1" "\<not> hp_json_sent P1"
    by (rule run_request_lines [OF ok, where rest = "[]" and P = "http11_reset ?P"]) simp_all
  have "http_parser_execute ?P ?b 0 = Inr (length ?b - 0, P1\<lparr>hp_cs := if hp_cs ?P = 0 then 0 else 13, hp_nread := length ?b - 0\<rparr>, evs)"
    using ragel_exec_run [OF r(1)] ne len
    by (intro http11_execute_eq(1)) simp_all
  then show thesis using that r by simp
qed

lemma execute_rest:
  assumes ok: "list_all field_ok hs" and P: "hp_cs P = 13" "hp_body_start P = 0" "\<not> hp_xml_sent P" "\<not> hp_json_sent P"
    and len: "length (concat (map field_line hs) @ [0x0D, 0x0A] @ body) < 2 ^ 31"
  obtains P' evs where
    "http_parser_execute P (concat (map field_line hs) @ [0x0D, 0x0A] @ body) 0 =
       Inr (length (concat (map field_line hs)) + 2, P', evs)"
    "http_parser_finish P' = 1" "hp_body_start P' = length (concat (map field_line hs)) + 2"
    "map event_text evs = field_calls hs @ [(''header_done'', [body])]"
proof -
  let ?b = "concat (map field_line hs) @ [0x0D, 0x0A] @ body"
  obtain P1 evs where x: "ragel_exec (http11_step (hp_uri_relaxed P)) (http11_act ?b) ?b 0 13 (http11_reset P, []) =
      (0 + length (concat (map field_line hs)) + 2, 348, P1, [] @ evs)"
    "hp_body_start P1 = 0 + length (concat (map field_line hs)) + 2"
    "map event_text evs = field_calls hs @ [(''header_done'', [body])]"
    by (rule exec_fields_end [OF ok, where P = "http11_reset P" and p = 0 and buffer = ?b and body = body
          and r = "hp_uri_relaxed P" and evs = "[]"]) (use P in simp_all)
  have "http_parser_execute P ?b 0 = Inr (length (concat (map field_line hs)) + 2 - 0,
      P1\<lparr>hp_cs := if hp_cs P = 0 then 0 else 348, hp_nread := length (concat (map field_line hs)) + 2 - 0\<rparr>, evs)"
    using x(1) P len by (intro http11_execute_eq(1)) simp_all
  then show thesis
    using that x P by (simp add: http_parser_finish_def http_parser_has_error_def http_parser_is_finished_def
        http_parser_error_def http_parser_first_final_def)
qed

lemma execute_request:
  assumes "request_head_ok m path query fragment d hs"
    and "length (request_head m path query fragment d hs @ body) < 2 ^ 31"
  obtains P evs where "http_parser_execute (http_parser_init mem) (request_head m path query fragment d hs @ body) 0 =
      Inr (length (request_head m path query fragment d hs), P, evs)"
    "http_parser_finish P = 1" "hp_body_start P = length (request_head m path query fragment d hs)"
    "map event_text evs = line_calls m path query fragment d @ field_calls hs @ [(''header_done'', [body])]"
    "list_all event_in_range evs"
proof -
  let ?h = "request_head m path query fragment d hs" and ?P = "http_parser_init mem"
  let ?l = "request_line m path query fragment d" and ?f = "concat (map field_line hs)"
  let ?buf = "?h @ body"
  have h: "?buf = ?l @ ?f @ [0x0D, 0x0A] @ body" by (simp add: request_head_def request_line_def)
  obtain P1 evs where l: "http11_run (hp_uri_relaxed ?P) ?buf ?l 0 1 (http11_reset ?P, []) = Some (13, P1, evs)"
    "map event_text evs = line_calls m path query fragment d"
    "hp_body_start P1 = 0" "\<not> hp_xml_sent P1" "\<not> hp_json_sent P1"
    by (rule run_request_line [OF assms(1) h, where P = "http11_reset ?P"]) simp_all
  obtain P2 evs' where x: "ragel_exec (http11_step (hp_uri_relaxed ?P)) (http11_act ?buf) (?f @ [0x0D, 0x0A] @ body) (length ?l) 13 (P1, evs) =
      (length ?l + length ?f + 2, 348, P2, evs @ evs')"
    "hp_body_start P2 = length ?l + length ?f + 2" "map event_text evs' = field_calls hs @ [(''header_done'', [body])]"
    by (rule exec_fields_end [of hs P1 "length ?l" ?buf body])
       (use assms(1) l in \<open>simp_all add: h request_head_ok_def\<close>)
  have "ragel_exec (http11_step (hp_uri_relaxed ?P)) (http11_act ?buf) ?buf 0 1 (http11_reset ?P, []) =
      (length ?l + length ?f + 2, 348, P2, evs @ evs')"
    using ragel_exec_append [OF l(1), of "?f @ [0x0D, 0x0A] @ body"] x(1) by (simp add: h)
  then have y: "ragel_exec (http11_step (hp_uri_relaxed ?P)) (http11_act ?buf) (drop 0 ?buf) 0 (hp_cs ?P) (http11_reset ?P, []) =
      (length ?l + length ?f + 2, 348, P2, evs @ evs')" by simp
  have "http_parser_execute ?P ?buf 0 = Inr (length ?l + length ?f + 2 - 0,
      P2\<lparr>hp_cs := if hp_cs ?P = 0 then 0 else 348, hp_nread := length ?l + length ?f + 2 - 0\<rparr>, evs @ evs')"
    using assms(2) by (intro http11_execute_eq(1) [OF _ _ _ _ y]) (simp_all add: request_head_def)
  moreover have "list_all event_in_range (evs @ evs')"
    using assms(2) by (intro http11_execute_eq(2) [OF _ _ _ _ y]) (simp_all add: request_head_def ty_query_def)
  moreover have "length ?h = length ?l + length ?f + 2" by (simp add: request_head_def request_line_def)
  ultimately show thesis
    using that x l by (simp add: http_parser_finish_def http_parser_has_error_def http_parser_is_finished_def
        http_parser_error_def http_parser_first_final_def)
qed

subsection \<open>Properties of the request automaton\<close>

text \<open>
  Property C11. The automaton reads what the grammar describes: on a request line with a method of up to
  twenty capitals and digits, a target with an absolute path, an optional query and
  fragment, and version 1.0 or 1.1, then header lines and the empty line, one call of
  \<open>http_parser_execute\<close> on a fresh parser consumes exactly the head, finishes, and calls back
  with exactly the parts, in order, whatever follows and whatever the uninitialised fields of
  the parser held.
\<close>

theorem http11_parses_request:
  assumes "request_head_ok m path query fragment d hs"
    and "length (request_head m path query fragment d hs @ body) < 2 ^ 31"
  shows "\<exists>P evs. http_parser_execute (http_parser_init mem) (request_head m path query fragment d hs @ body) 0 =
      Inr (length (request_head m path query fragment d hs), P, evs) \<and>
    http_parser_finish P = 1 \<and> hp_body_start P = length (request_head m path query fragment d hs) \<and>
    map event_text evs = line_calls m path query fragment d @ field_calls hs @ [(''header_done'', [body])]"
  by (rule execute_request [OF assms, of mem]) blast

theorem http11_parses_request_witness:
  "\<exists>P evs. http_parser_execute (http_parser_init sample_mem)
      (request_head (lit ''GET'') (lit ''/a%20b'') (lit ''q=1'') (lit ''top'') 0x31 [(lit ''Host'', lit ''h'')] @ [1, 2]) 0 =
      Inr (length (request_head (lit ''GET'') (lit ''/a%20b'') (lit ''q=1'') (lit ''top'') 0x31 [(lit ''Host'', lit ''h'')]), P, evs)"
proof -
  have "request_head_ok (lit ''GET'') (lit ''/a%20b'') (lit ''q=1'') (lit ''top'') 0x31 [(lit ''Host'', lit ''h'')]"
    by code_simp
  moreover have "length (request_head (lit ''GET'') (lit ''/a%20b'') (lit ''q=1'') (lit ''top'') 0x31 [(lit ''Host'', lit ''h'')] @ [1, 2 :: u8]) < 2 ^ 31"
    by (simp add: request_head_def target_text_def field_line_def)
  ultimately show ?thesis using http11_parses_request by blast
qed

text \<open>
  Property C25. The head may arrive in two reads that meet between two lines: the second call goes on
  where the first one stopped, and together they make the same calls.
\<close>

theorem http11_split_between_lines:
  assumes ok: "request_head_ok m path query fragment d (hs @ hs')"
    and len: "length (request_head m path query fragment d (hs @ hs') @ body) < 2 ^ 31"
  shows "\<exists>P1 evs1 P2 evs2.
    http_parser_execute (http_parser_init mem) (request_line m path query fragment d @ concat (map field_line hs)) 0 =
      Inr (length (request_line m path query fragment d @ concat (map field_line hs)), P1, evs1) \<and>
    http_parser_finish P1 = 0 \<and>
    http_parser_execute P1 (concat (map field_line hs') @ [0x0D, 0x0A] @ body) 0 =
      Inr (length (concat (map field_line hs')) + 2, P2, evs2) \<and>
    http_parser_finish P2 = 1 \<and>
    map event_text (evs1 @ evs2) = line_calls m path query fragment d @ field_calls (hs @ hs') @ [(''header_done'', [body])]"
proof -
  have ok1: "request_head_ok m path query fragment d hs" and ok2: "list_all field_ok hs'"
    using ok by (simp_all add: request_head_ok_def)
  have len1: "length (request_line m path query fragment d @ concat (map field_line hs)) < 2 ^ 31"
    and len2: "length (concat (map field_line hs') @ [0x0D, 0x0A] @ body) < 2 ^ 31"
    using len by (simp_all add: request_head_lines)
  obtain P1 evs1 where 1: "http_parser_execute (http_parser_init mem) (request_line m path query fragment d @ concat (map field_line hs)) 0 =
      Inr (length (request_line m path query fragment d @ concat (map field_line hs)), P1, evs1)"
    "hp_cs P1 = 13" "hp_body_start P1 = 0" "\<not> hp_xml_sent P1" "\<not> hp_json_sent P1"
    "map event_text evs1 = line_calls m path query fragment d @ field_calls hs"
    by (rule execute_lines [OF ok1 len1])
  obtain P2 evs2 where 2: "http_parser_execute P1 (concat (map field_line hs') @ [0x0D, 0x0A] @ body) 0 =
      Inr (length (concat (map field_line hs')) + 2, P2, evs2)" "http_parser_finish P2 = 1"
    "map event_text evs2 = field_calls hs' @ [(''header_done'', [body])]"
    by (rule execute_rest [OF ok2 1(2-5) len2])
  have "http_parser_finish P1 = 0"
    using 1(2) by (simp add: http_parser_finish_def http_parser_has_error_def http_parser_is_finished_def
        http_parser_error_def http_parser_first_final_def)
  with 1 2 show ?thesis by (simp add: field_calls_def)
qed

theorem http11_split_between_lines_witness:
  "\<exists>P1 evs1 P2 evs2.
    http_parser_execute (http_parser_init sample_mem) (request_line (lit ''GET'') (lit ''/'') [] [] 0x31) 0 =
      Inr (length (request_line (lit ''GET'') (lit ''/'') [] [] 0x31), P1, evs1) \<and>
    http_parser_execute P1 (field_line (lit ''Host'', lit ''h'') @ [0x0D, 0x0A]) 0 = Inr (11, P2, evs2)"
proof -
  have "request_head_ok (lit ''GET'') (lit ''/'') [] [] 0x31 ([] @ [(lit ''Host'', lit ''h'')])" by code_simp
  moreover have "length (request_head (lit ''GET'') (lit ''/'') [] [] 0x31 ([] @ [(lit ''Host'', lit ''h'')]) @ []) < 2 ^ 31"
    by (simp add: request_head_def target_text_def field_line_def)
  ultimately show ?thesis
    using http11_split_between_lines [where hs = "[]" and hs' = "[(lit ''Host'', lit ''h'')]" and body = "[]" and mem = sample_mem]
    by (fastforce simp: field_line_def)
qed

subsection \<open>A read that ends inside a token\<close>

text \<open>
  The next call starts with the marks at the front of the new buffer. Of a path it reports
  the part behind the split only; of a query, whose start is still counted from the front
  of the old buffer, it reports a length below zero as a \<open>size_t\<close> where the rest is
  shorter than what came before it.
\<close>

definition version_end :: "u8 \<Rightarrow> u8 list" where
  "version_end d = (lit ''HTTP/1.'' @ [d, 0x0D, 0x0A]) @ [0x0D, 0x0A]"

lemma exec_version_end:
  assumes "d = 0x30 \<or> d = 0x31" "\<not> hp_xml_sent P" "\<not> hp_json_sent P" "drop p buffer = version_end d @ body"
  obtains P' evs' where "ragel_exec (http11_step r) (http11_act buffer) (version_end d @ body) p 4 (P, evs) = (p + 12, 348, P', evs @ evs')"
    "map event_text evs' = [(''http_version'', [lit ''HTTP/1.'' @ [d]]), (''header_done'', [body])]"
proof -
  have "drop (p + 10) buffer = drop 10 (drop p buffer)" by (simp add: add.commute)
  also have "\<dots> = concat (map field_line []) @ [0x0D, 0x0A] @ body"
    unfolding assms(4) by (simp add: version_end_def lit_def)
  finally have b: "drop (p + 10) buffer = concat (map field_line []) @ [0x0D, 0x0A] @ body" .
  obtain P' evs' where e: "ragel_exec (http11_step r) (http11_act buffer) (concat (map field_line []) @ [0x0D, 0x0A] @ body) (p + 10) 13
      (P\<lparr>hp_mark := p\<rparr>, evs @ [Ev_http_version (drop p buffer) 8]) =
      (p + 10 + length (concat (map field_line [])) + 2, 348, P', (evs @ [Ev_http_version (drop p buffer) 8]) @ evs')"
    "map event_text evs' = field_calls [] @ [(''header_done'', [body])]"
    by (rule exec_fields_end [OF _ _ _ b, where P = "P\<lparr>hp_mark := p\<rparr>" and r = r
          and evs = "evs @ [Ev_http_version (drop p buffer) 8]"]) (use assms in simp_all)
  have len: "length (lit ''HTTP/1.'' @ [d, 0x0D, 0x0A]) = 10" by simp
  have "take 8 (drop p buffer) = lit ''HTTP/1.'' @ [d]"
    unfolding assms(4) by (simp add: version_end_def lit_def)
  moreover have "ragel_exec (http11_step r) (http11_act buffer) (version_end d @ body) p 4 (P, evs) =
      ragel_exec (http11_step r) (http11_act buffer) ([0x0D, 0x0A] @ body) (p + 10) 13
        (P\<lparr>hp_mark := p\<rparr>, evs @ [Ev_http_version (drop p buffer) 8])"
    using ragel_exec_append [OF run_version [OF assms(1), where r = r and buffer = buffer and p = p and P = P and evs = evs],
        of "[0x0D, 0x0A] @ body"] len
    by (simp only: version_end_def append_assoc)
  ultimately show thesis
    using that [of P' "Ev_http_version (drop p buffer) 8 # evs'"] e by (simp add: field_calls_def del: ragel_exec.simps)
qed

lemma execute_in_path:
  assumes P: "hp_cs P = 26" "hp_body_start P = 0" "\<not> hp_xml_sent P" "\<not> hp_json_sent P"
    and ok: "uri_text path_char s" "d = 0x30 \<or> d = 0x31" and len: "length (s @ [0x20] @ version_end d @ body) < 2 ^ 31"
  obtains P' evs where "http_parser_execute P (s @ [0x20] @ version_end d @ body) 0 = Inr (length s + 13, P', evs)"
    "http_parser_finish P' = 1"
    "map event_text evs = [(''request_path'', [s]), (''request_uri'', [s]), (''http_version'', [lit ''HTTP/1.'' @ [d]]), (''header_done'', [body])]"
    "list_all event_in_range evs"
proof -
  let ?b = "s @ [0x20] @ version_end d @ body" and ?P = "http11_reset P"
  let ?evs = "[Ev_request_path ?b (length s), Ev_request_uri ?b (length s)]"
  have "http11_run (hp_uri_relaxed P) ?b (s @ [0x20]) 0 26 (?P, []) = Some (4, ?P, ?evs)"
    by (simp add: ragel_run_append path_text [OF ok(1)] path_end schar_numeral LEN_def PTR_TO_def http11_reset_def)
  then have x: "ragel_exec (http11_step (hp_uri_relaxed P)) (http11_act ?b) ?b 0 26 (?P, []) =
      ragel_exec (http11_step (hp_uri_relaxed P)) (http11_act ?b) (version_end d @ body) (length s + 1) 4 (?P, ?evs)"
    using ragel_exec_append [of _ _ "s @ [0x20]" 0 26 "(?P, [])" 4 "(?P, ?evs)" "version_end d @ body"] by simp
  obtain P' evs' where e: "ragel_exec (http11_step (hp_uri_relaxed P)) (http11_act ?b) (version_end d @ body) (length s + 1) 4 (?P, ?evs) =
      (length s + 1 + 12, 348, P', ?evs @ evs')"
    "map event_text evs' = [(''http_version'', [lit ''HTTP/1.'' @ [d]]), (''header_done'', [body])]"
    by (rule exec_version_end [where P = ?P and p = "length s + 1" and buffer = ?b and d = d and body = body
          and r = "hp_uri_relaxed P" and evs = ?evs]) (use ok(2) P in simp_all)
  have y: "ragel_exec (http11_step (hp_uri_relaxed P)) (http11_act ?b) (drop 0 ?b) 0 (hp_cs P) (?P, []) =
      (length s + 13, 348, P', ?evs @ evs')"
    using x e(1) P(1) by simp
  have "http_parser_execute P ?b 0 = Inr (length s + 13 - 0,
      P'\<lparr>hp_cs := if hp_cs P = 0 then 0 else 348, hp_nread := length s + 13 - 0\<rparr>, ?evs @ evs')"
    using P len by (intro http11_execute_eq(1) [OF _ _ _ _ y]) simp_all
  moreover have "list_all event_in_range (?evs @ evs')"
    using P len by (intro http11_execute_eq(2) [OF _ _ _ _ y]) (simp_all add: ty_query_def)
  ultimately show thesis
    using that e(2) P(1) by (simp add: http_parser_finish_def http_parser_has_error_def http_parser_is_finished_def
        http_parser_error_def http_parser_first_final_def)
qed

lemma execute_in_query:
  assumes P: "hp_cs P = 30" "hp_body_start P = 0" "\<not> hp_xml_sent P" "\<not> hp_json_sent P"
    and ok: "uri_text query_char s" "d = 0x30 \<or> d = 0x31" and len: "length (s @ [0x20] @ version_end d @ body) < 2 ^ 31"
  obtains P' evs where "http_parser_execute P (s @ [0x20] @ version_end d @ body) 0 =
     Inr (length s + 13, P', Ev_query_string (drop (hp_query_start P) (s @ [0x20] @ version_end d @ body))
            (sz_sub (length s) (hp_query_start P)) # evs)"
proof -
  let ?b = "s @ [0x20] @ version_end d @ body" and ?P = "http11_reset P"
  let ?evs = "[Ev_query_string (drop (hp_query_start P) ?b) (sz_sub (length s) (hp_query_start P)), Ev_request_uri ?b (length s)]"
  have "http11_run (hp_uri_relaxed P) ?b (s @ [0x20]) 0 30 (?P, []) = Some (4, ?P, ?evs)"
    by (simp add: ragel_run_append query_text [OF ok(1)] query_end schar_numeral LEN_def PTR_TO_def http11_reset_def)
  then have x: "ragel_exec (http11_step (hp_uri_relaxed P)) (http11_act ?b) ?b 0 30 (?P, []) =
      ragel_exec (http11_step (hp_uri_relaxed P)) (http11_act ?b) (version_end d @ body) (length s + 1) 4 (?P, ?evs)"
    using ragel_exec_append [of _ _ "s @ [0x20]" 0 30 "(?P, [])" 4 "(?P, ?evs)" "version_end d @ body"] by simp
  obtain P' evs' where e: "ragel_exec (http11_step (hp_uri_relaxed P)) (http11_act ?b) (version_end d @ body) (length s + 1) 4 (?P, ?evs) =
      (length s + 1 + 12, 348, P', ?evs @ evs')"
    by (rule exec_version_end [where P = ?P and p = "length s + 1" and buffer = ?b and d = d and body = body
          and r = "hp_uri_relaxed P" and evs = ?evs]) (use ok(2) P in simp_all)
  have "http_parser_execute P ?b 0 = Inr (length s + 13 - 0,
      P'\<lparr>hp_cs := if hp_cs P = 0 then 0 else 348, hp_nread := length s + 13 - 0\<rparr>, ?evs @ evs')"
    using x e(1) P len by (intro http11_execute_eq(1)) simp_all
  then show thesis using that by simp
qed

text \<open>The first call, cut off inside the path or inside the query.\<close>

lemma execute_cut:
  assumes ok: "list_all method_char m" "m \<noteq> []" "length m \<le> 20"
    and run: "\<And>buffer P evs. http11_run (hp_uri_relaxed mem) buffer t (length m + 1) 3 (P, evs) = Some (q, f P, evs @ es buffer)"
    and f: "\<And>P. hp_body_start (f P) = hp_body_start P" "\<And>P. hp_xml_sent (f P) = hp_xml_sent P" "\<And>P. hp_json_sent (f P) = hp_json_sent P"
    and len: "length (m @ [0x20] @ t) < 2 ^ 31"
  shows "\<exists>P1. http_parser_execute (http_parser_init mem) (m @ [0x20] @ t) 0 =
      Inr (length (m @ [0x20] @ t), P1, Ev_request_method (m @ [0x20] @ t) (length m) # es (m @ [0x20] @ t)) \<and>
    hp_cs P1 = q \<and> hp_body_start P1 = 0 \<and> \<not> hp_xml_sent P1 \<and> \<not> hp_json_sent P1 \<and>
    hp_query_start P1 = hp_query_start (f ((http11_reset (http_parser_init mem))\<lparr>hp_mark := 0\<rparr>))"
proof -
  let ?b = "m @ [0x20] @ t" and ?P = "http_parser_init mem"
  have "http11_run (hp_uri_relaxed mem) ?b (m @ [0x20]) 0 1 (http11_reset ?P, []) =
      Some (3, (http11_reset ?P)\<lparr>hp_mark := 0\<rparr>, [Ev_request_method ?b (length m)])"
    using run_method [OF ok, of "hp_uri_relaxed mem" ?b 0 "http11_reset ?P" "[]"] by simp
  then have "http11_run (hp_uri_relaxed mem) ?b ((m @ [0x20]) @ t) 0 1 (http11_reset ?P, []) =
      Some (q, f ((http11_reset ?P)\<lparr>hp_mark := 0\<rparr>), [Ev_request_method ?b (length m)] @ es ?b)"
    using run [of ?b] by (simp only: ragel_run_append [of _ _ "m @ [0x20]"]) simp
  then have "ragel_exec (http11_step (hp_uri_relaxed ?P)) (http11_act ?b) (drop 0 ?b) 0 (hp_cs ?P) (http11_reset ?P, []) =
      (length ?b, q, f ((http11_reset ?P)\<lparr>hp_mark := 0\<rparr>), [Ev_request_method ?b (length m)] @ es ?b)"
    using ragel_exec_run by fastforce
  then have "http_parser_execute ?P ?b 0 = Inr (length ?b - 0, (f ((http11_reset ?P)\<lparr>hp_mark := 0\<rparr>))
      \<lparr>hp_cs := if hp_cs ?P = 0 then 0 else q, hp_nread := length ?b - 0\<rparr>, [Ev_request_method ?b (length m)] @ es ?b)"
    using len by (intro http11_execute_eq(1)) simp_all
  then show ?thesis using f by simp
qed

lemma execute_split_path:
  assumes m: "list_all method_char m" "m \<noteq> []" "length m \<le> 20"
    and s: "uri_text path_char s1" "s1 \<noteq> []" "hd s1 \<noteq> 0x2F" "uri_text path_char s2" "d = 0x30 \<or> d = 0x31"
    and len: "length (m @ [0x20, 0x2F] @ s1) < 2 ^ 31" "length (s2 @ [0x20] @ version_end d @ body) < 2 ^ 31"
  shows "\<exists>P1 evs1 P2 evs2.
    http_parser_execute (http_parser_init mem) (m @ [0x20, 0x2F] @ s1) 0 = Inr (length (m @ [0x20, 0x2F] @ s1), P1, evs1) \<and>
    http_parser_execute P1 (s2 @ [0x20] @ version_end d @ body) 0 = Inr (length s2 + 13, P2, evs2) \<and>
    http_parser_finish P2 = 1 \<and>
    map event_text (evs1 @ evs2) = [(''request_method'', [m]), (''request_path'', [s2]), (''request_uri'', [s2]),
      (''http_version'', [lit ''HTTP/1.'' @ [d]]), (''header_done'', [body])] \<and>
    list_all event_in_range (evs1 @ evs2)"
proof -
  obtain c t where c: "s1 = c # t" using s(2) by (cases s1) auto
  then have "schar c \<noteq> 47" using s(3) schar_inject [of c "0x2F"] by (auto simp: schar_numeral)
  then have "http11_run r buffer s1 p 33 st = http11_run r buffer s1 p 26 st" for r buffer p st
    by (simp add: c after_slash)
  moreover have "http11_step r 3 47 = ([Mark], 33)" for r by (simp add: http11_eval widec_def)
  ultimately have run: "http11_run r buffer (0x2F # s1) p 3 (P, evs) = Some (26, P\<lparr>hp_mark := p\<rparr>, evs @ [])" for r buffer p P evs
    using path_text [OF s(1)] by (simp add: schar_numeral)
  have "\<exists>P1. http_parser_execute (http_parser_init mem) (m @ [0x20] @ 0x2F # s1) 0 =
      Inr (length (m @ [0x20] @ 0x2F # s1), P1, Ev_request_method (m @ [0x20] @ 0x2F # s1) (length m) # []) \<and>
    hp_cs P1 = 26 \<and> hp_body_start P1 = 0 \<and> \<not> hp_xml_sent P1 \<and> \<not> hp_json_sent P1 \<and>
    hp_query_start P1 = hp_query_start ((http11_reset (http_parser_init mem))\<lparr>hp_mark := 0\<rparr>\<lparr>hp_mark := length m + 1\<rparr>)"
    using len(1) by (intro execute_cut [OF m run]) simp_all
  then obtain P1 where 1: "http_parser_execute (http_parser_init mem) (m @ [0x20, 0x2F] @ s1) 0 =
      Inr (length (m @ [0x20, 0x2F] @ s1), P1, [Ev_request_method (m @ [0x20, 0x2F] @ s1) (length m)])"
    "hp_cs P1 = 26" "hp_body_start P1 = 0" "\<not> hp_xml_sent P1" "\<not> hp_json_sent P1" by auto
  obtain P2 evs2 where "http_parser_execute P1 (s2 @ [0x20] @ version_end d @ body) 0 = Inr (length s2 + 13, P2, evs2)"
    "http_parser_finish P2 = 1"
    "map event_text evs2 = [(''request_path'', [s2]), (''request_uri'', [s2]), (''http_version'', [lit ''HTTP/1.'' @ [d]]), (''header_done'', [body])]"
    "list_all event_in_range evs2"
    by (rule execute_in_path [OF 1(2-5) s(4,5) len(2)])
  with 1(1) show ?thesis by auto
qed

lemma execute_split_query:
  assumes m: "list_all method_char m" "m \<noteq> []" "length m \<le> 20" and path: "path_ok path"
    and q: "uri_text query_char q1" "q1 \<noteq> []" "uri_text query_char q2" "length q2 < length m + length path + 2"
    and d: "d = 0x30 \<or> d = 0x31"
    and len: "length (m @ [0x20] @ path @ 0x3F # q1) < 2 ^ 31" "length (q2 @ [0x20] @ version_end d @ body) < 2 ^ 31"
  shows "\<exists>P1 evs1 P2 evs2 at.
    http_parser_execute (http_parser_init mem) (m @ [0x20] @ path @ 0x3F # q1) 0 =
      Inr (length (m @ [0x20] @ path @ 0x3F # q1), P1, evs1) \<and>
    map event_text evs1 = [(''request_method'', [m]), (''request_path'', [path])] \<and> list_all event_in_range evs1 \<and>
    http_parser_execute P1 (q2 @ [0x20] @ version_end d @ body) 0 =
      Inr (length q2 + 13, P2, Ev_query_string at (2 ^ 64 - (length m + length path + 2 - length q2)) # evs2) \<and>
    length at \<le> length (q2 @ [0x20] @ version_end d @ body)"
proof -
  obtain qs where qs: "qs = 26 \<or> qs = 33"
      "\<And>buffer p P evs. http11_run (hp_uri_relaxed mem) buffer path p 3 (P, evs) = Some (qs, P\<lparr>hp_mark := p\<rparr>, evs)"
    using run_path [OF path, of "hp_uri_relaxed mem"] by blast
  have run: "http11_run (hp_uri_relaxed mem) buffer (path @ 0x3F # q1) (length m + 1) 3 (P, evs) =
      Some (30, P\<lparr>hp_mark := length m + 1, hp_query_start := length m + length path + 2\<rparr>,
        evs @ [Ev_request_path (drop (length m + 1) buffer) (length path)])" for buffer P evs
    by (simp add: ragel_run_append qs(2) path_end [OF qs(1)] schar_numeral run_query [OF q(1,2)] LEN_def PTR_TO_def)
  have "\<exists>P1. http_parser_execute (http_parser_init mem) (m @ [0x20] @ path @ 0x3F # q1) 0 =
      Inr (length (m @ [0x20] @ path @ 0x3F # q1), P1, Ev_request_method (m @ [0x20] @ path @ 0x3F # q1) (length m)
        # [Ev_request_path (drop (length m + 1) (m @ [0x20] @ path @ 0x3F # q1)) (length path)]) \<and>
    hp_cs P1 = 30 \<and> hp_body_start P1 = 0 \<and> \<not> hp_xml_sent P1 \<and> \<not> hp_json_sent P1 \<and>
    hp_query_start P1 = hp_query_start ((http11_reset (http_parser_init mem))\<lparr>hp_mark := 0\<rparr>
      \<lparr>hp_mark := length m + 1, hp_query_start := length m + length path + 2\<rparr>)"
    using len(1) by (intro execute_cut [OF m run]) simp_all
  then obtain P1 evs1 where 1: "http_parser_execute (http_parser_init mem) (m @ [0x20] @ path @ 0x3F # q1) 0 =
      Inr (length (m @ [0x20] @ path @ 0x3F # q1), P1, evs1)"
    "map event_text evs1 = [(''request_method'', [m]), (''request_path'', [path])]" "list_all event_in_range evs1"
    "hp_cs P1 = 30" "hp_body_start P1 = 0" "\<not> hp_xml_sent P1" "\<not> hp_json_sent P1"
    "hp_query_start P1 = length m + length path + 2" by auto
  have "sz_sub (length q2) (hp_query_start P1) = 2 ^ 64 - (length m + length path + 2 - length q2)"
    unfolding 1(8) by (rule sz_sub_wrap [OF q(4)]) (use m(3) len(1) in simp)
  moreover have "length (drop n xs) \<le> length xs" for n and xs :: "u8 list" by simp
  ultimately show ?thesis using 1(1-3) by (metis execute_in_query [OF 1(4-7) q(3) d len(2)])
qed

subsection \<open>Where the grammar is not the one it names\<close>

text \<open>
  \<open>HTTP_CTL = (0 - 31) | 127\<close> is the zero byte and 127: the minus sign is a difference of sets
  in Ragel, not a range. A header name may hold control characters, a line feed among them.
\<close>

lemma name_takes_controls: "1 \<le> c \<and> c \<le> 8 \<or> 10 \<le> c \<and> c \<le> 31 \<Longrightarrow> http11_step r 14 c = goto 14"
  by (auto simp: http11_eval)

text \<open>
  A number in front of a group, as in \<open>6( h16 ":" )\<close>, is the byte 6 and not a repetition: an
  IPv6 address in full is refused.
\<close>

lemma ipv6_full_refused: "http11_run r buffer (lit ''GET //[1:2:3:4:5:6:7:8]/'') 0 1 (P, evs) = None"
  by (simp add: lit_def schar_def http11_step_def http11_states_def http11_code widec_def)

end
