(* ===== verification/Civan_Std_Map.thy ===== *)
theory Civan_Std_Map
  imports Civan_Prelude
begin

section \<open>\<open>std::map\<close> with a comparator\<close>

text \<open>
  The operations of \<open>std::map\<close> the sources use, on the list of its entries in iteration
  order: \<open>find\<close>, \<open>insert\<close> (which keeps an entry that is there), \<open>operator[]\<close> with an
  assignment (which overwrites the value and keeps the key as first spelled) and
  \<open>erase\<close>. Keys are equivalent when neither is less than the other, so the comparator
  has to be a strict weak order; the locale proves the laws of a finite map from that.
\<close>

definition map_find :: "('k \<Rightarrow> 'k \<Rightarrow> bool) \<Rightarrow> 'k \<Rightarrow> ('k \<times> 'v) list \<Rightarrow> 'v option" where
  "map_find lt k m = (case dropWhile (\<lambda>e. lt (fst e) k) m of [] \<Rightarrow> None
     | e # _ \<Rightarrow> if lt k (fst e) then None else Some (snd e))"

definition map_set :: "('k \<Rightarrow> 'k \<Rightarrow> bool) \<Rightarrow> 'k \<Rightarrow> 'v \<Rightarrow> ('k \<times> 'v) list \<Rightarrow> ('k \<times> 'v) list" where
  "map_set lt k v m = takeWhile (\<lambda>e. lt (fst e) k) m @
     (case dropWhile (\<lambda>e. lt (fst e) k) m of [] \<Rightarrow> [(k, v)]
      | e # es \<Rightarrow> if lt k (fst e) then (k, v) # e # es else (fst e, v) # es)"

definition map_insert :: "('k \<Rightarrow> 'k \<Rightarrow> bool) \<Rightarrow> 'k \<Rightarrow> 'v \<Rightarrow> ('k \<times> 'v) list \<Rightarrow> ('k \<times> 'v) list" where
  "map_insert lt k v m = (if map_find lt k m = None then map_set lt k v m else m)"

definition map_erase :: "('k \<Rightarrow> 'k \<Rightarrow> bool) \<Rightarrow> 'k \<Rightarrow> ('k \<times> 'v) list \<Rightarrow> ('k \<times> 'v) list" where
  "map_erase lt k m = filter (\<lambda>e. lt (fst e) k \<or> lt k (fst e)) m"

lemma bex_conj_const:
  "(\<And>e. Q e \<Longrightarrow> P e = R) \<Longrightarrow> (\<exists>e\<in>A. P e \<and> Q e) = (R \<and> (\<exists>e\<in>A. Q e))"
  by blast

lemma option_guarded: "(\<And>v. x = Some v \<longleftrightarrow> P \<and> y = Some v) \<Longrightarrow> x = (if P then y else None)"
  by (metis not_None_eq)

locale map_order =
  fixes lt :: "'k \<Rightarrow> 'k \<Rightarrow> bool"
  assumes irrefl: "\<not> lt x x"
    and trans: "lt x y \<Longrightarrow> lt y z \<Longrightarrow> lt x z"
    and weak: "lt x z \<Longrightarrow> lt x y \<or> lt y z"
begin

abbreviation keys_ordered :: "('k \<times> 'v) list \<Rightarrow> bool" where
  "keys_ordered m \<equiv> sorted_wrt (\<lambda>a b. lt (fst a) (fst b)) m"

abbreviation same :: "'k \<Rightarrow> 'k \<Rightarrow> bool" where
  "same x y \<equiv> \<not> lt x y \<and> \<not> lt y x"

lemma same_lt: "same x y \<Longrightarrow> lt x z \<longleftrightarrow> lt y z" "same x y \<Longrightarrow> lt z x \<longleftrightarrow> lt z y"
  using weak trans irrefl by blast+

lemma find_Cons:
  "keys_ordered (e # m) \<Longrightarrow> map_find lt k (e # m) =
     (if lt (fst e) k then map_find lt k m else if lt k (fst e) then None else Some (snd e))"
  by (simp add: map_find_def)

lemma set_Cons:
  "map_set lt k v (e # m) =
     (if lt (fst e) k then e # map_set lt k v m else if lt k (fst e) then (k, v) # e # m else (fst e, v) # m)"
  by (simp add: map_set_def)

lemma set_keys: "e \<in> set (map_set lt k v m) \<Longrightarrow> fst e = k \<or> (\<exists>e'\<in>set m. fst e = fst e')"
  by (induction m) (auto simp: set_Cons map_set_def [of _ _ _ "[]"] split: if_splits)

lemma set_ordered: "keys_ordered m \<Longrightarrow> keys_ordered (map_set lt k v m)"
proof (induction m)
  case (Cons e m)
  then have "lt (fst e) k \<Longrightarrow> \<forall>x\<in>set (map_set lt k v m). lt (fst e) (fst x)"
    using set_keys [of _ k v m] by fastforce
  moreover have "lt k (fst e) \<Longrightarrow> \<forall>x\<in>set m. lt k (fst x)" using Cons.prems trans by auto
  ultimately show ?case using Cons by (auto simp: set_Cons)
qed (simp add: map_set_def)

lemma find_set:
  "keys_ordered m \<Longrightarrow> map_find lt k' (map_set lt k v m) = (if same k k' then Some v else map_find lt k' m)"
proof (induction m)
  case Nil
  then show ?case by (auto simp: map_set_def map_find_def)
next
  case (Cons e m)
  have o: "keys_ordered (map_set lt k v (e # m))" using set_ordered [OF Cons.prems] .
  have m: "keys_ordered m" "\<forall>x\<in>set m. lt (fst e) (fst x)" using Cons.prems by auto
  consider "lt (fst e) k" | "lt k (fst e)" | "same k (fst e)" using trans irrefl by blast
  then show ?case
  proof cases
    case 1
    then have "map_find lt k' (map_set lt k v (e # m)) =
      (if lt (fst e) k' then map_find lt k' (map_set lt k v m) else if lt k' (fst e) then None else Some (snd e))"
      using o by (simp add: set_Cons find_Cons)
    moreover have "same k k' \<Longrightarrow> lt (fst e) k'" using 1 same_lt by blast
    ultimately show ?thesis using Cons.IH [OF m(1)] find_Cons [OF Cons.prems, of k'] by auto
  next
    case 2
    then have s: "map_set lt k v (e # m) = (k, v) # e # m" using trans irrefl by (auto simp: set_Cons)
    have "map_find lt k' (e # m) = None" if "\<not> lt k k'" "lt k' k"
      using that 2 trans [of k' k "fst e"] irrefl trans find_Cons [OF Cons.prems, of k'] by (metis)
    then show ?thesis using o unfolding s by (auto simp: find_Cons)
  next
    case 3
    then have s: "map_set lt k v (e # m) = (fst e, v) # m" by (auto simp: set_Cons)
    show ?thesis
      using o 3 find_Cons [OF Cons.prems, of k'] same_lt [OF 3] unfolding s by (auto simp: find_Cons)
  qed
qed

lemma insert_ordered: "keys_ordered m \<Longrightarrow> keys_ordered (map_insert lt k v m)"
  by (simp add: map_insert_def set_ordered)

lemma find_same:
  fixes m :: "('k \<times> 'v) list"
  assumes s: "same k k'"
  shows "map_find lt k m = map_find lt k' m"
proof -
  have "lt (fst e) k \<longleftrightarrow> lt (fst e) k'" "lt k (fst e) \<longleftrightarrow> lt k' (fst e)" for e :: "'k \<times> 'v"
    using same_lt [OF s] by auto
  then show ?thesis by (simp only: map_find_def)
qed

lemma find_insert:
  "keys_ordered m \<Longrightarrow> map_find lt k' (map_insert lt k v m) =
     (if same k k' \<and> map_find lt k m = None then Some v else map_find lt k' m)"
  using find_set [of m k' k v] by (auto simp: map_insert_def)

lemma erase_ordered: "keys_ordered m \<Longrightarrow> keys_ordered (map_erase lt k m)"
  by (simp add: map_erase_def sorted_wrt_filter)

lemma find_mem:
  "keys_ordered m \<Longrightarrow> map_find lt k m = Some v \<longleftrightarrow> (\<exists>e\<in>set m. same k (fst e) \<and> snd e = v)"
proof (induction m)
  case Nil
  then show ?case by (simp add: map_find_def)
next
  case (Cons e m)
  have above: "x \<in> set m \<Longrightarrow> lt (fst e) (fst x)" for x using Cons.prems by auto
  have f: "map_find lt k (e # m) = (if lt (fst e) k then map_find lt k m
     else if lt k (fst e) then None else Some (snd e))" by (rule find_Cons [OF Cons.prems])
  consider "lt (fst e) k" | "\<not> lt (fst e) k" "lt k (fst e)" | "same k (fst e)" by blast
  then show ?case
  proof cases
    case 1
    with Cons f show ?thesis by simp
  next
    case 2
    then have "x \<in> set m \<Longrightarrow> lt k (fst x)" for x using above trans by blast
    with 2 f show ?thesis by simp
  next
    case 3
    then have "x \<in> set m \<Longrightarrow> lt k (fst x)" for x using above same_lt by blast
    with 3 f show ?thesis by auto
  qed
qed

lemma find_erase:
  assumes "keys_ordered m"
  shows "map_find lt k' (map_erase lt k m) = (if same k k' then None else map_find lt k' m)"
proof -
  have agree: "same k' x \<Longrightarrow> (lt x k \<or> lt k x) \<longleftrightarrow> \<not> same k k'" for x
    using same_lt [of k' x] by blast
  have "map_find lt k' (map_erase lt k m) = Some v \<longleftrightarrow>
      (\<exists>e\<in>set m. (lt (fst e) k \<or> lt k (fst e)) \<and> same k' (fst e) \<and> snd e = v)" for v
    unfolding find_mem [OF erase_ordered [OF assms, of k], of k' v]
    unfolding map_erase_def set_filter by blast
  moreover have "(\<exists>e\<in>set m. (lt (fst e) k \<or> lt k (fst e)) \<and> same k' (fst e) \<and> snd e = v) \<longleftrightarrow>
      \<not> same k k' \<and> (\<exists>e\<in>set m. same k' (fst e) \<and> snd e = v)" for v
    by (rule bex_conj_const) (use agree in simp)
  ultimately have "map_find lt k' (map_erase lt k m) = Some v \<longleftrightarrow> \<not> same k k' \<and> map_find lt k' m = Some v" for v
    using find_mem [OF assms, of k' v] by simp
  from option_guarded [OF this] show ?thesis by auto
qed

end

end
