(* ===== verification/Civan_Util.thy ===== *)
theory Civan_Util
  imports Civan_Prelude
begin

section \<open>String utilities: \<open>civan/util.cc\<close>\<close>

text \<open>
  \<open>StringUtil::UrlEncode\<close>, \<open>UrlDecode\<close>, \<open>Trim\<close>, \<open>TrimLeft\<close> and \<open>TrimRight\<close> on
  \<open>std::string\<close> values, which are lists of bytes. The two URL routines copy the string
  only from the first byte they change on; the model has that lazy copy (\<open>ss\<close>, null
  until then), and the lemmas show it equal to the plain byte-by-byte definition.
\<close>

unbundle bit_operations_syntax

type_synonym bytes = "u8 list"

subsection \<open>Tables\<close>

definition uri_chars :: "nat list" where
  "uri_chars =
    [0, 0, 0, 0, 0, 0, 0, 0,   0, 0, 0, 0, 0, 0, 0, 0,
     0, 0, 0, 0, 0, 0, 0, 0,   0, 0, 0, 0, 0, 0, 0, 0,
     0, 0, 0, 0, 0, 0, 0, 0,   0, 0, 0, 0, 0, 1, 1, 0,
     1, 1, 1, 1, 1, 1, 1, 1,   1, 1, 0, 0, 0, 1, 0, 0,
     0, 1, 1, 1, 1, 1, 1, 1,   1, 1, 1, 1, 1, 1, 1, 1,
     1, 1, 1, 1, 1, 1, 1, 1,   1, 1, 1, 0, 0, 0, 0, 1,
     0, 1, 1, 1, 1, 1, 1, 1,   1, 1, 1, 1, 1, 1, 1, 1,
     1, 1, 1, 1, 1, 1, 1, 1,   1, 1, 1, 0, 0, 0, 1, 0] @ replicate 128 0"

definition xdigit_chars :: "nat list" where
  "xdigit_chars = replicate 48 0 @
    [0, 1, 2, 3, 4, 5, 6, 7, 8, 9, 0, 0, 0, 0, 0, 0,
     0, 10, 11, 12, 13, 14, 15, 0, 0, 0, 0, 0, 0, 0, 0, 0,
     0, 0, 0, 0, 0, 0, 0, 0, 0, 0, 0, 0, 0, 0, 0, 0,
     0, 10, 11, 12, 13, 14, 15, 0, 0, 0, 0, 0, 0, 0, 0, 0] @ replicate 144 0"

definition CHAR_IS_UNRESERVED :: "u8 \<Rightarrow> bool" where
  "CHAR_IS_UNRESERVED c \<longleftrightarrow> uri_chars ! unat c \<noteq> 0"

definition hexdigits :: "nat \<Rightarrow> u8" where
  "hexdigits n = [0x30, 0x31, 0x32, 0x33, 0x34, 0x35, 0x36, 0x37, 0x38, 0x39, 0x41, 0x42, 0x43, 0x44, 0x45, 0x46] ! n"

definition isxdigit :: "u8 \<Rightarrow> bool" where
  "isxdigit c \<longleftrightarrow> 0x30 \<le> c \<and> c \<le> 0x39 \<or> 0x41 \<le> c \<and> c \<le> 0x46 \<or> 0x61 \<le> c \<and> c \<le> 0x66"

subsection \<open>URL encoding and decoding\<close>

definition enc_char :: "bool \<Rightarrow> u8 \<Rightarrow> bytes" where
  "enc_char space_as_plus c =
     (if c = 0x20 \<and> space_as_plus then [0x2B]
      else [0x25, hexdigits (unat c div 16), hexdigits (unat c mod 16)])"

text \<open>\<open>pre\<close> is what lies before the cursor, \<open>str.c_str()\<close> up to \<open>c\<close>.\<close>

fun enc_loop :: "bool \<Rightarrow> bytes \<Rightarrow> bytes option \<Rightarrow> bytes \<Rightarrow> bytes option" where
  "enc_loop sp pre ss [] = ss"
| "enc_loop sp pre ss (c # cs) =
     (if \<not> CHAR_IS_UNRESERVED c
      then enc_loop sp (pre @ [c]) (Some ((case ss of None \<Rightarrow> pre | Some s \<Rightarrow> s) @ enc_char sp c)) cs
      else enc_loop sp (pre @ [c]) (map_option (\<lambda>s. s @ [c]) ss) cs)"

definition UrlEncode :: "bool \<Rightarrow> bytes \<Rightarrow> bytes" where
  "UrlEncode sp str = (case enc_loop sp [] None str of None \<Rightarrow> str | Some s \<Rightarrow> s)"

definition xbyte :: "u8 \<Rightarrow> u8 \<Rightarrow> u8" where
  "xbyte a b = push_bit 4 (of_nat (xdigit_chars ! unat a)) OR of_nat (xdigit_chars ! unat b)"

fun is_escape :: "bytes \<Rightarrow> bool" where
  "is_escape (a # b # cs) = (isxdigit a \<and> isxdigit b)"
| "is_escape _ = False"

function dec_loop :: "bool \<Rightarrow> bytes \<Rightarrow> bytes option \<Rightarrow> bytes \<Rightarrow> bytes option" where
  "dec_loop sp pre ss [] = ss"
| "dec_loop sp pre ss (c # cs) =
     (let s0 = (case ss of None \<Rightarrow> pre | Some s \<Rightarrow> s) in
      if c = 0x2B \<and> sp then dec_loop sp (pre @ [c]) (Some (s0 @ [0x20])) cs
      else if c = 0x25 \<and> is_escape cs
      then dec_loop sp (pre @ c # take 2 cs) (Some (s0 @ [xbyte (cs ! 0) (cs ! 1)])) (drop 2 cs)
      else dec_loop sp (pre @ [c]) (map_option (\<lambda>s. s @ [c]) ss) cs)"
  by pat_completeness auto
termination
  by (relation "measure (\<lambda>(sp, pre, ss, cs). length cs)") auto

definition UrlDecode :: "bool \<Rightarrow> bytes \<Rightarrow> bytes" where
  "UrlDecode sp str = (case dec_loop sp [] None str of None \<Rightarrow> str | Some s \<Rightarrow> s)"

subsection \<open>Trimming\<close>

fun find_first_not_of :: "bytes \<Rightarrow> bytes \<Rightarrow> nat option" where
  "find_first_not_of d [] = None"
| "find_first_not_of d (c # cs) = (if c \<notin> set d then Some 0 else map_option Suc (find_first_not_of d cs))"

definition find_last_not_of :: "bytes \<Rightarrow> bytes \<Rightarrow> nat option" where
  "find_last_not_of d s = map_option (\<lambda>i. length s - 1 - i) (find_first_not_of d (rev s))"

definition substr :: "nat \<Rightarrow> nat \<Rightarrow> bytes \<Rightarrow> bytes" where
  "substr pos n s = take n (drop pos s)"

definition Trim :: "bytes \<Rightarrow> bytes \<Rightarrow> bytes" where
  "Trim d str = (case find_first_not_of d str of None \<Rightarrow> []
     | Some b \<Rightarrow> substr b (the (find_last_not_of d str) - b + 1) str)"

definition TrimLeft :: "bytes \<Rightarrow> bytes \<Rightarrow> bytes" where
  "TrimLeft d str = (case find_first_not_of d str of None \<Rightarrow> [] | Some b \<Rightarrow> drop b str)"

definition TrimRight :: "bytes \<Rightarrow> bytes \<Rightarrow> bytes" where
  "TrimRight d str = (case find_last_not_of d str of None \<Rightarrow> [] | Some e \<Rightarrow> substr 0 e str)"

subsection \<open>The lazy copies equal the plain definitions\<close>

definition url_encode_ref :: "bool \<Rightarrow> bytes \<Rightarrow> bytes" where
  "url_encode_ref sp s = concat (map (\<lambda>c. if CHAR_IS_UNRESERVED c then [c] else enc_char sp c) s)"

function url_decode_ref :: "bool \<Rightarrow> bytes \<Rightarrow> bytes" where
  "url_decode_ref sp [] = []"
| "url_decode_ref sp (c # cs) =
     (if c = 0x2B \<and> sp then 0x20 # url_decode_ref sp cs
      else if c = 0x25 \<and> is_escape cs then xbyte (cs ! 0) (cs ! 1) # url_decode_ref sp (drop 2 cs)
      else c # url_decode_ref sp cs)"
  by pat_completeness auto
termination
  by (relation "measure (\<lambda>(sp, cs). length cs)") auto

lemma enc_loop_Some: "enc_loop sp pre (Some s) cs = Some (s @ url_encode_ref sp cs)"
  by (induction cs arbitrary: pre s) (simp_all add: url_encode_ref_def)

lemma enc_loop_None:
  "enc_loop sp pre None cs = (if list_all CHAR_IS_UNRESERVED cs then None else Some (pre @ url_encode_ref sp cs))"
  by (induction cs arbitrary: pre) (auto simp: enc_loop_Some url_encode_ref_def)

lemma url_encode_ref_id: "list_all CHAR_IS_UNRESERVED s \<Longrightarrow> url_encode_ref sp s = s"
  by (induction s) (simp_all add: url_encode_ref_def)

lemma UrlEncode_ref: "UrlEncode sp s = url_encode_ref sp s"
  by (simp add: UrlEncode_def enc_loop_None url_encode_ref_id)

lemma dec_loop_Some: "dec_loop sp pre (Some s) cs = Some (s @ url_decode_ref sp cs)"
proof (induction "length cs" arbitrary: pre s cs rule: less_induct)
  case less
  show ?case
  proof (cases cs)
    case (Cons c cs')
    have "dec_loop sp p (Some t) cs' = Some (t @ url_decode_ref sp cs')"
      "dec_loop sp p (Some t) (drop 2 cs') = Some (t @ url_decode_ref sp (drop 2 cs'))" for p t
      using less [of cs'] less [of "drop 2 cs'"] Cons by auto
    then show ?thesis by (cases sp) (simp_all add: Cons)
  qed simp
qed

lemma dec_loop_None:
  "case dec_loop sp pre None cs of None \<Rightarrow> url_decode_ref sp cs = cs | Some s \<Rightarrow> s = pre @ url_decode_ref sp cs"
proof (induction cs arbitrary: pre)
  case (Cons c cs)
  show ?case
  proof (cases "c = 0x2B \<and> sp \<or> c = 0x25 \<and> is_escape cs")
    case True
    then show ?thesis by (auto simp: dec_loop_Some Let_def)
  next
    case False
    then show ?thesis using Cons [of "pre @ [c]"] by (auto simp: Let_def split: option.splits)
  qed
qed simp

lemma UrlDecode_ref: "UrlDecode sp s = url_decode_ref sp s"
proof (cases "dec_loop sp [] None s")
  case None
  then have "url_decode_ref sp s = s" using dec_loop_None [where sp = sp and pre = "[]" and cs = s] by (simp only: option.case)
  with None show ?thesis by (simp only: UrlDecode_def option.case)
next
  case (Some r)
  then show ?thesis using dec_loop_None [where sp = sp and pre = "[]" and cs = s] by (simp add: UrlDecode_def)
qed

subsection \<open>Decoding inverts encoding\<close>

lemma reserved_controls:
  "\<not> CHAR_IS_UNRESERVED 0x25" "\<not> CHAR_IS_UNRESERVED 0x2B" "\<not> CHAR_IS_UNRESERVED 0x20"
  by (code_simp, code_simp, code_simp)

lemma hexdigits_all:
  "list_all (\<lambda>n. isxdigit (hexdigits n) \<and> xdigit_chars ! unat (hexdigits n) = n) [0..<16]"
  by code_simp

lemma hexdigits_ok:
  "n < 16 \<Longrightarrow> isxdigit (hexdigits n)" "n < 16 \<Longrightarrow> xdigit_chars ! unat (hexdigits n) = n"
  using hexdigits_all by (simp_all add: list_all_iff)

lemma nibbles:
  fixes c :: u8
  shows "push_bit 4 (of_nat (unat c div 16)) OR of_nat (unat c mod 16) = c"
proof -
  have d: "of_nat (unat c div 16) = drop_bit 4 c"
    by (rule unsigned_word_eqI [where 'a = nat])
       (simp add: unat_drop_bit_div unsigned_of_nat take_bit_eq_mod div_less_iff_less_mult less_trans [OF unsigned_less])
  have m: "of_nat (unat c mod 16) = take_bit 4 c"
    by (rule unsigned_word_eqI [where 'a = nat])
       (simp add: unsigned_take_bit_eq unsigned_of_nat flip: take_bit_eq_mod [of 4, simplified])
  show ?thesis
    unfolding d m by (rule bit_word_eqI) (auto simp: bit_or_iff bit_push_bit_iff bit_drop_bit_eq bit_take_bit_iff)
qed

lemma decode_enc_char:
  "url_decode_ref sp ((if CHAR_IS_UNRESERVED c then [c] else enc_char sp c) @ r) = c # url_decode_ref sp r"
proof (cases "CHAR_IS_UNRESERVED c")
  case True
  then have "c \<noteq> 0x25" "c \<noteq> 0x2B" using reserved_controls by auto
  with True show ?thesis by simp
next
  case False
  have "unat c < 256" using unsigned_less [of c] by simp
  then have h: "unat c div 16 < 16" "unat c mod 16 < 16" by auto
  note hx = hexdigits_ok [OF h(1)] hexdigits_ok [OF h(2)]
  show ?thesis
  proof (cases "c = 0x20 \<and> sp")
    case True
    with False show ?thesis by (simp add: enc_char_def)
  next
    case nsp: False
    have "xbyte (hexdigits (unat c div 16)) (hexdigits (unat c mod 16)) = c"
      unfolding xbyte_def hx by (rule nibbles)
    with False nsp hx show ?thesis by (auto simp: enc_char_def)
  qed
qed

subsection \<open>Trimming, by what it keeps\<close>

lemma find_first_dropWhile:
  "case find_first_not_of d s of None \<Rightarrow> dropWhile (\<lambda>c. c \<in> set d) s = []
   | Some i \<Rightarrow> i < length s \<and> s ! i \<notin> set d \<and> drop i s = dropWhile (\<lambda>c. c \<in> set d) s"
  by (induction s) (auto split: option.splits)

definition trim_right_ref :: "bytes \<Rightarrow> bytes \<Rightarrow> bytes" where
  "trim_right_ref d s = rev (dropWhile (\<lambda>c. c \<in> set d) (rev s))"

lemma find_last_spec:
  "case find_last_not_of d s of None \<Rightarrow> trim_right_ref d s = []
   | Some e \<Rightarrow> e < length s \<and> s ! e \<notin> set d \<and> trim_right_ref d s = take (Suc e) s"
proof (cases "find_first_not_of d (rev s)")
  case None
  then show ?thesis using find_first_dropWhile [of d "rev s"] by (simp add: find_last_not_of_def trim_right_ref_def)
next
  case (Some i)
  then have i: "i < length s" "rev s ! i \<notin> set d" "drop i (rev s) = dropWhile (\<lambda>c. c \<in> set d) (rev s)"
    using find_first_dropWhile [of d "rev s"] by auto
  have "rev (drop i (rev s)) = take (Suc (length s - 1 - i)) s"
    using i(1) by (simp add: rev_drop Suc_diff_Suc)
  then show ?thesis
    using Some i by (simp add: find_last_not_of_def trim_right_ref_def rev_nth)
qed

subsection \<open>Properties of the string utilities\<close>

text \<open>
  Property C36. \<open>UrlDecode\<close> inverts \<open>UrlEncode\<close> on every byte string, with blanks as plus
  signs or not, and both equal their byte-by-byte definitions although they copy
  lazily.
\<close>

theorem url_roundtrip:
  "UrlDecode sp (UrlEncode sp s) = s \<and> UrlEncode sp s = url_encode_ref sp s \<and> UrlDecode sp s = url_decode_ref sp s"
proof -
  have "url_decode_ref sp (url_encode_ref sp s) = s"
  proof (induction s)
    case (Cons c s)
    have "url_encode_ref sp (c # s) = (if CHAR_IS_UNRESERVED c then [c] else enc_char sp c) @ url_encode_ref sp s"
      by (simp add: url_encode_ref_def)
    with Cons decode_enc_char [of sp c "url_encode_ref sp s"] show ?case by simp
  qed (simp add: url_encode_ref_def)
  then show ?thesis by (simp add: UrlEncode_ref UrlDecode_ref)
qed

text \<open>
  \<open>TrimLeft\<close> drops exactly the leading delimiters. \<open>TrimRight\<close> drops the
  trailing delimiters and, when something is left, its last character as well, because
  \<open>substr\<close> is given the index of that character as a length.
\<close>

theorem trim_behaviour:
  "TrimLeft d s = dropWhile (\<lambda>c. c \<in> set d) s \<and> TrimRight d s = butlast (trim_right_ref d s)"
proof
  show "TrimLeft d s = dropWhile (\<lambda>c. c \<in> set d) s"
  proof (cases "find_first_not_of d s")
    case None
    then have "dropWhile (\<lambda>c. c \<in> set d) s = []" using find_first_dropWhile [of d s] by simp
    with None show ?thesis by (simp only: TrimLeft_def option.case)
  next
    case (Some i)
    then show ?thesis using find_first_dropWhile [of d s] by (simp add: TrimLeft_def)
  qed
  show "TrimRight d s = butlast (trim_right_ref d s)"
    using find_last_spec [of d s]
    by (cases "find_last_not_of d s") (simp_all add: TrimRight_def substr_def butlast_take)
qed

end
