(* ===== verification/Civan_Http.thy ===== *)
theory Civan_Http
  imports Civan_Std_Map Civan_Util Civan_Text
begin

section \<open>HTTP messages: \<open>civan/http/http.cc\<close> and \<open>http.h\<close>\<close>

text \<open>
  The method and status tables, the case-insensitive header map, and the request and
  response objects with their lazily parsed parameters and cookies. A \<open>std::string\<close> is
  its list of bytes; \<open>MapType\<close> is the \<open>std::map\<close> of \<open>Civan_Std_Map\<close> under
  \<open>CaseInsensitiveLess\<close>, whose order laws are shown here. \<open>boost::lexical_cast\<close> and
  \<open>civan::Time2Str\<close> (which calls \<open>localtime_r\<close> and \<open>strftime\<close>) are arguments of the
  operations that use them.
\<close>

subsection \<open>C strings\<close>

text \<open>\<open>strcasecmp\<close> on the bytes before the terminating zero, which compares as zero.\<close>

fun strcasecmp :: "bytes \<Rightarrow> bytes \<Rightarrow> int" where
  "strcasecmp [] [] = 0"
| "strcasecmp [] (b # bs) = - uint (c_tolower b)"
| "strcasecmp (a # as) [] = uint (c_tolower a)"
| "strcasecmp (a # as) (b # bs) =
     (if c_tolower a = c_tolower b then strcasecmp as bs else uint (c_tolower a) - uint (c_tolower b))"

fun strcasestr :: "bytes \<Rightarrow> bytes \<Rightarrow> bool" where
  "strcasestr [] needle = (needle = [])"
| "strcasestr (c # cs) needle =
     (map c_tolower (take (length needle) (c # cs)) = map c_tolower needle \<or> strcasestr cs needle)"

subsection \<open>Methods and statuses\<close>

datatype HttpMethod =
    DELETE | GET | HEAD | POST | PUT | CONNECT | OPTIONS | TRACE | COPY | LOCK | MKCOL | MOVE |
    PROPFIND | PROPPATCH | SEARCH | UNLOCK | BIND | REBIND | UNBIND | ACL | REPORT |
    MKACTIVITY | CHECKOUT | MERGE | MSEARCH | NOTIFY | SUBSCRIBE | UNSUBSCRIBE | PATCH |
    PURGE | MKCALENDAR | LINK | UNLINK | SOURCE | INVALID_METHOD

definition HTTP_METHOD_MAP :: "(nat \<times> HttpMethod \<times> string) list" where
  "HTTP_METHOD_MAP =
    [(0, DELETE, ''DELETE''), (1, GET, ''GET''), (2, HEAD, ''HEAD''), (3, POST, ''POST''),
     (4, PUT, ''PUT''), (5, CONNECT, ''CONNECT''), (6, OPTIONS, ''OPTIONS''),
     (7, TRACE, ''TRACE''), (8, COPY, ''COPY''), (9, LOCK, ''LOCK''), (10, MKCOL, ''MKCOL''),
     (11, MOVE, ''MOVE''), (12, PROPFIND, ''PROPFIND''), (13, PROPPATCH, ''PROPPATCH''),
     (14, SEARCH, ''SEARCH''), (15, UNLOCK, ''UNLOCK''), (16, BIND, ''BIND''),
     (17, REBIND, ''REBIND''), (18, UNBIND, ''UNBIND''), (19, ACL, ''ACL''),
     (20, REPORT, ''REPORT''), (21, MKACTIVITY, ''MKACTIVITY''), (22, CHECKOUT, ''CHECKOUT''),
     (23, MERGE, ''MERGE''), (24, MSEARCH, ''M-SEARCH''), (25, NOTIFY, ''NOTIFY''),
     (26, SUBSCRIBE, ''SUBSCRIBE''), (27, UNSUBSCRIBE, ''UNSUBSCRIBE''),
     (28, PATCH, ''PATCH''), (29, PURGE, ''PURGE''), (30, MKCALENDAR, ''MKCALENDAR''),
     (31, LINK, ''LINK''), (32, UNLINK, ''UNLINK''), (33, SOURCE, ''SOURCE'')]"

text \<open>
  \<open>HttpStatus\<close> is an enumeration over \<open>int\<close>, and the client parser casts any code into
  it: a status is its number here, and the table has the named ones.
\<close>

type_synonym HttpStatus = int

definition HTTP_STATUS_MAP :: "(HttpStatus \<times> string \<times> string) list" where
  "HTTP_STATUS_MAP =
    [(100, ''CONTINUE'', ''Continue''),
     (101, ''SWITCHING_PROTOCOLS'', ''Switching Protocols''),
     (102, ''PROCESSING'', ''Processing''), (200, ''OK'', ''OK''),
     (201, ''CREATED'', ''Created''), (202, ''ACCEPTED'', ''Accepted''),
     (203, ''NON_AUTHORITATIVE_INFORMATION'', ''Non-Authoritative Information''),
     (204, ''NO_CONTENT'', ''No Content''), (205, ''RESET_CONTENT'', ''Reset Content''),
     (206, ''PARTIAL_CONTENT'', ''Partial Content''),
     (207, ''MULTI_STATUS'', ''Multi-Status''),
     (208, ''ALREADY_REPORTED'', ''Already Reported''), (226, ''IM_USED'', ''IM Used''),
     (300, ''MULTIPLE_CHOICES'', ''Multiple Choices''),
     (301, ''MOVED_PERMANENTLY'', ''Moved Permanently''), (302, ''FOUND'', ''Found''),
     (303, ''SEE_OTHER'', ''See Other''), (304, ''NOT_MODIFIED'', ''Not Modified''),
     (305, ''USE_PROXY'', ''Use Proxy''),
     (307, ''TEMPORARY_REDIRECT'', ''Temporary Redirect''),
     (308, ''PERMANENT_REDIRECT'', ''Permanent Redirect''),
     (400, ''BAD_REQUEST'', ''Bad Request''), (401, ''UNAUTHORIZED'', ''Unauthorized''),
     (402, ''PAYMENT_REQUIRED'', ''Payment Required''), (403, ''FORBIDDEN'', ''Forbidden''),
     (404, ''NOT_FOUND'', ''Not Found''),
     (405, ''METHOD_NOT_ALLOWED'', ''Method Not Allowed''),
     (406, ''NOT_ACCEPTABLE'', ''Not Acceptable''),
     (407, ''PROXY_AUTHENTICATION_REQUIRED'', ''Proxy Authentication Required''),
     (408, ''REQUEST_TIMEOUT'', ''Request Timeout''), (409, ''CONFLICT'', ''Conflict''),
     (410, ''GONE'', ''Gone''), (411, ''LENGTH_REQUIRED'', ''Length Required''),
     (412, ''PRECONDITION_FAILED'', ''Precondition Failed''),
     (413, ''PAYLOAD_TOO_LARGE'', ''Payload Too Large''),
     (414, ''URI_TOO_LONG'', ''URI Too Long''),
     (415, ''UNSUPPORTED_MEDIA_TYPE'', ''Unsupported Media Type''),
     (416, ''RANGE_NOT_SATISFIABLE'', ''Range Not Satisfiable''),
     (417, ''EXPECTATION_FAILED'', ''Expectation Failed''),
     (421, ''MISDIRECTED_REQUEST'', ''Misdirected Request''),
     (422, ''UNPROCESSABLE_ENTITY'', ''Unprocessable Entity''), (423, ''LOCKED'', ''Locked''),
     (424, ''FAILED_DEPENDENCY'', ''Failed Dependency''),
     (426, ''UPGRADE_REQUIRED'', ''Upgrade Required''),
     (428, ''PRECONDITION_REQUIRED'', ''Precondition Required''),
     (429, ''TOO_MANY_REQUESTS'', ''Too Many Requests''),
     (431, ''REQUEST_HEADER_FIELDS_TOO_LARGE'', ''Request Header Fields Too Large''),
     (451, ''UNAVAILABLE_FOR_LEGAL_REASONS'', ''Unavailable For Legal Reasons''),
     (500, ''INTERNAL_SERVER_ERROR'', ''Internal Server Error''),
     (501, ''NOT_IMPLEMENTED'', ''Not Implemented''), (502, ''BAD_GATEWAY'', ''Bad Gateway''),
     (503, ''SERVICE_UNAVAILABLE'', ''Service Unavailable''),
     (504, ''GATEWAY_TIMEOUT'', ''Gateway Timeout''),
     (505, ''HTTP_VERSION_NOT_SUPPORTED'', ''HTTP Version Not Supported''),
     (506, ''VARIANT_ALSO_NEGOTIATES'', ''Variant Also Negotiates''),
     (507, ''INSUFFICIENT_STORAGE'', ''Insufficient Storage''),
     (508, ''LOOP_DETECTED'', ''Loop Detected''), (510, ''NOT_EXTENDED'', ''Not Extended''),
     (511, ''NETWORK_AUTHENTICATION_REQUIRED'', ''Network Authentication Required'')]"


fun first_method :: "(string \<Rightarrow> bool) \<Rightarrow> (nat \<times> HttpMethod \<times> string) list \<Rightarrow> HttpMethod" where
  "first_method match [] = INVALID_METHOD"
| "first_method match ((num, name, str) # rest) = (if match str then name else first_method match rest)"

definition StringToHttpMethod :: "bytes \<Rightarrow> HttpMethod" where
  "StringToHttpMethod m = first_method (\<lambda>str. lit str = c_str m) HTTP_METHOD_MAP"

text \<open>The argument of \<open>CharsToHttpMethod\<close> is the memory from the pointer on.\<close>

definition CharsToHttpMethod :: "bytes \<Rightarrow> HttpMethod" where
  "CharsToHttpMethod m = first_method (\<lambda>str. take (length str) (c_str m) = lit str) HTTP_METHOD_MAP"

definition s_method_string :: "bytes list" where
  "s_method_string = map (\<lambda>(num, name, str). lit str) HTTP_METHOD_MAP"

definition method_index :: "HttpMethod \<Rightarrow> nat" where
  "method_index m = (case find (\<lambda>(num, name, str). name = m) HTTP_METHOD_MAP of
     Some (num, _) \<Rightarrow> num | None \<Rightarrow> 34)"

definition HttpMethodToString :: "HttpMethod \<Rightarrow> bytes" where
  "HttpMethodToString m = (let idx = method_index m in
     if idx \<ge> length s_method_string then lit ''<unknown>'' else s_method_string ! idx)"

definition HttpStatusToString :: "HttpStatus \<Rightarrow> bytes" where
  "HttpStatusToString s = (case find (\<lambda>(code, name, msg). code = s) HTTP_STATUS_MAP of
     Some (_, _, msg) \<Rightarrow> lit msg | None \<Rightarrow> lit ''<unknown>'')"

subsection \<open>Header maps\<close>

definition CaseInsensitiveLess :: "bytes \<Rightarrow> bytes \<Rightarrow> bool" where
  "CaseInsensitiveLess lhs rhs \<longleftrightarrow> strcasecmp (c_str lhs) (c_str rhs) < 0"

type_synonym MapType = "(bytes \<times> bytes) list"

abbreviation MapType_find :: "bytes \<Rightarrow> MapType \<Rightarrow> bytes option" where
  "MapType_find \<equiv> map_find CaseInsensitiveLess"

abbreviation MapType_set :: "bytes \<Rightarrow> bytes \<Rightarrow> MapType \<Rightarrow> MapType" where
  "MapType_set \<equiv> map_set CaseInsensitiveLess"

abbreviation MapType_insert :: "bytes \<Rightarrow> bytes \<Rightarrow> MapType \<Rightarrow> MapType" where
  "MapType_insert \<equiv> map_insert CaseInsensitiveLess"

abbreviation MapType_erase :: "bytes \<Rightarrow> MapType \<Rightarrow> MapType" where
  "MapType_erase \<equiv> map_erase CaseInsensitiveLess"

text \<open>The returned flag and the value left in \<open>val\<close>; a cast that throws is \<open>None\<close>.\<close>

definition checkGetAs :: "(bytes \<Rightarrow> 'a option) \<Rightarrow> MapType \<Rightarrow> bytes \<Rightarrow> 'a \<Rightarrow> bool \<times> 'a" where
  "checkGetAs lexical_cast m key def = (case MapType_find key m of None \<Rightarrow> (False, def)
     | Some s \<Rightarrow> (case lexical_cast s of Some v \<Rightarrow> (True, v) | None \<Rightarrow> (False, def)))"

definition getAs :: "(bytes \<Rightarrow> 'a option) \<Rightarrow> MapType \<Rightarrow> bytes \<Rightarrow> 'a \<Rightarrow> 'a" where
  "getAs lexical_cast m key def = (case MapType_find key m of None \<Rightarrow> def
     | Some s \<Rightarrow> (case lexical_cast s of Some v \<Rightarrow> v | None \<Rightarrow> def))"

subsection \<open>Parameter strings\<close>

fun find_char :: "u8 \<Rightarrow> bytes \<Rightarrow> nat option" where
  "find_char c [] = None"
| "find_char c (d # ds) = (if d = c then Some 0 else map_option Suc (find_char c ds))"

text \<open>\<open>str.find(c, pos)\<close>: the first position from \<open>pos\<close> on, \<open>None\<close> for \<open>npos\<close>.\<close>

definition find_from :: "u8 \<Rightarrow> bytes \<Rightarrow> nat \<Rightarrow> nat option" where
  "find_from c str pos = map_option (\<lambda>i. pos + i) (find_char c (drop pos str))"

lemma find_char_bound: "find_char c s = Some i \<Longrightarrow> i < length s"
  by (induction s arbitrary: i) (auto split: if_splits)

lemma find_from_bound: "find_from c s pos = Some p \<Longrightarrow> pos \<le> p \<and> p < length s"
  using find_char_bound [of c "drop pos s"] by (force simp: find_from_def)

text \<open>
  The macro \<open>PARSE_PARAM\<close>: the key runs from \<open>pos\<close> to the next equals sign, the value
  from there to the next separator; the loop ends where either search fails.
\<close>

function PARSE_PARAM :: "u8 \<Rightarrow> (bytes \<Rightarrow> bytes) \<Rightarrow> bytes \<Rightarrow> nat \<Rightarrow> MapType \<Rightarrow> MapType" where
  "PARSE_PARAM flag trim str pos m =
     (case find_from 0x3D str pos of None \<Rightarrow> m
      | Some key \<Rightarrow>
          (let name = trim (substr pos (key - pos) str)
           in case find_from flag str key of
                None \<Rightarrow> MapType_insert name (UrlDecode True (drop (key + 1) str)) m
              | Some p \<Rightarrow> PARSE_PARAM flag trim str (Suc p)
                  (MapType_insert name (UrlDecode True (substr (key + 1) (p - key - 1) str)) m)))"
  by pat_completeness auto
termination
  by (relation "measure (\<lambda>(flag, trim, str, pos, m). length str - pos)")
     (auto dest!: find_from_bound)

declare PARSE_PARAM.simps [simp del]

subsection \<open>Requests\<close>

record HttpRequest =
  m_method :: HttpMethod
  m_version :: u8
  m_close :: bool
  m_websocket :: bool
  m_parserParamFlag :: u8
  m_path :: bytes
  m_query :: bytes
  m_fragment :: bytes
  m_body :: bytes
  m_headers :: MapType
  m_params :: MapType
  m_cookies :: MapType

definition HttpRequest_ctor :: "u8 \<Rightarrow> bool \<Rightarrow> HttpRequest" where
  "HttpRequest_ctor version close = \<lparr>m_method = GET, m_version = version, m_close = close,
     m_websocket = False, m_parserParamFlag = 0, m_path = lit ''/'', m_query = [], m_fragment = [],
     m_body = [], m_headers = [], m_params = [], m_cookies = []\<rparr>"

definition or_default :: "bytes option \<Rightarrow> bytes \<Rightarrow> bytes" where
  "or_default it def = (case it of None \<Rightarrow> def | Some v \<Rightarrow> v)"

definition HttpRequest_getHeader :: "HttpRequest \<Rightarrow> bytes \<Rightarrow> bytes \<Rightarrow> bytes" where
  "HttpRequest_getHeader r key def = or_default (MapType_find key (m_headers r)) def"

definition HttpRequest_setHeader :: "bytes \<Rightarrow> bytes \<Rightarrow> HttpRequest \<Rightarrow> HttpRequest" where
  "HttpRequest_setHeader key val r = r\<lparr>m_headers := MapType_set key val (m_headers r)\<rparr>"

definition HttpRequest_setParam :: "bytes \<Rightarrow> bytes \<Rightarrow> HttpRequest \<Rightarrow> HttpRequest" where
  "HttpRequest_setParam key val r = r\<lparr>m_params := MapType_set key val (m_params r)\<rparr>"

definition HttpRequest_setCookie :: "bytes \<Rightarrow> bytes \<Rightarrow> HttpRequest \<Rightarrow> HttpRequest" where
  "HttpRequest_setCookie key val r = r\<lparr>m_cookies := MapType_set key val (m_cookies r)\<rparr>"

definition HttpRequest_delHeader :: "bytes \<Rightarrow> HttpRequest \<Rightarrow> HttpRequest" where
  "HttpRequest_delHeader key r = r\<lparr>m_headers := MapType_erase key (m_headers r)\<rparr>"

definition HttpRequest_delParam :: "bytes \<Rightarrow> HttpRequest \<Rightarrow> HttpRequest" where
  "HttpRequest_delParam key r = r\<lparr>m_params := MapType_erase key (m_params r)\<rparr>"

definition HttpRequest_delCookie :: "bytes \<Rightarrow> HttpRequest \<Rightarrow> HttpRequest" where
  "HttpRequest_delCookie key r = r\<lparr>m_cookies := MapType_erase key (m_cookies r)\<rparr>"

definition HttpRequest_init :: "HttpRequest \<Rightarrow> HttpRequest" where
  "HttpRequest_init r = (let conn = HttpRequest_getHeader r (lit ''connection'') [] in
     if conn \<noteq> []
     then if strcasecmp (c_str conn) (lit ''keep-alive'') = 0 then r\<lparr>m_close := False\<rparr> else r\<lparr>m_close := True\<rparr>
     else r)"

definition initQueryParam :: "HttpRequest \<Rightarrow> HttpRequest" where
  "initQueryParam r =
     (if m_parserParamFlag r AND 0x1 \<noteq> 0 then r
      else r\<lparr>m_params := PARSE_PARAM 0x26 id (m_query r) 0 (m_params r),
             m_parserParamFlag := m_parserParamFlag r OR 0x1\<rparr>)"

definition initBodyParam :: "HttpRequest \<Rightarrow> HttpRequest" where
  "initBodyParam r =
     (if m_parserParamFlag r AND 0x2 \<noteq> 0 then r
      else let content_type = HttpRequest_getHeader r (lit ''content-type'') [] in
        if \<not> strcasestr (c_str content_type) (lit ''application/x-www-form-urlencoded'')
        then r\<lparr>m_parserParamFlag := m_parserParamFlag r OR 0x2\<rparr>
        else r\<lparr>m_params := PARSE_PARAM 0x26 id (m_body r) 0 (m_params r),
               m_parserParamFlag := m_parserParamFlag r OR 0x2\<rparr>)"

text \<open>The default delimiters of \<open>Trim\<close>: blank, tab, carriage return and line feed.\<close>

definition trim_default :: bytes where
  "trim_default = [0x20, 0x09, 0x0D, 0x0A]"

definition initCookies :: "HttpRequest \<Rightarrow> HttpRequest" where
  "initCookies r =
     (if m_parserParamFlag r AND 0x4 \<noteq> 0 then r
      else let cookie = HttpRequest_getHeader r (lit ''cookie'') [] in
        if cookie = [] then r\<lparr>m_parserParamFlag := m_parserParamFlag r OR 0x4\<rparr>
        else r\<lparr>m_cookies := PARSE_PARAM 0x3B (Trim trim_default) cookie 0 (m_cookies r),
               m_parserParamFlag := m_parserParamFlag r OR 0x4\<rparr>)"

definition initParam :: "HttpRequest \<Rightarrow> HttpRequest" where
  "initParam r = initCookies (initBodyParam (initQueryParam r))"

definition HttpRequest_getParam :: "bytes \<Rightarrow> bytes \<Rightarrow> HttpRequest \<Rightarrow> bytes \<times> HttpRequest" where
  "HttpRequest_getParam key def r = (let r' = initBodyParam (initQueryParam r)
     in (or_default (MapType_find key (m_params r')) def, r'))"

definition HttpRequest_getCookie :: "bytes \<Rightarrow> bytes \<Rightarrow> HttpRequest \<Rightarrow> bytes \<times> HttpRequest" where
  "HttpRequest_getCookie key def r = (let r' = initCookies r
     in (or_default (MapType_find key (m_cookies r')) def, r'))"

text \<open>The \<open>has\<close> operations return the flag, and the value when there is one.\<close>

definition HttpRequest_hasHeader :: "bytes \<Rightarrow> HttpRequest \<Rightarrow> bytes option" where
  "HttpRequest_hasHeader key r = MapType_find key (m_headers r)"

definition HttpRequest_hasParam :: "bytes \<Rightarrow> HttpRequest \<Rightarrow> bytes option \<times> HttpRequest" where
  "HttpRequest_hasParam key r = (let r' = initBodyParam (initQueryParam r) in (MapType_find key (m_params r'), r'))"

definition HttpRequest_hasCookie :: "bytes \<Rightarrow> HttpRequest \<Rightarrow> bytes option \<times> HttpRequest" where
  "HttpRequest_hasCookie key r = (let r' = initCookies r in (MapType_find key (m_cookies r'), r'))"

definition checkGetHeaderAs :: "(bytes \<Rightarrow> 'a option) \<Rightarrow> bytes \<Rightarrow> 'a \<Rightarrow> HttpRequest \<Rightarrow> bool \<times> 'a" where
  "checkGetHeaderAs cast key def r = checkGetAs cast (m_headers r) key def"

definition getHeaderAs :: "(bytes \<Rightarrow> 'a option) \<Rightarrow> bytes \<Rightarrow> 'a \<Rightarrow> HttpRequest \<Rightarrow> 'a" where
  "getHeaderAs cast key def r = getAs cast (m_headers r) key def"

definition checkGetParamAs :: "(bytes \<Rightarrow> 'a option) \<Rightarrow> bytes \<Rightarrow> 'a \<Rightarrow> HttpRequest \<Rightarrow> (bool \<times> 'a) \<times> HttpRequest" where
  "checkGetParamAs cast key def r = (let r' = initBodyParam (initQueryParam r)
     in (checkGetAs cast (m_params r') key def, r'))"

definition getParamAs :: "(bytes \<Rightarrow> 'a option) \<Rightarrow> bytes \<Rightarrow> 'a \<Rightarrow> HttpRequest \<Rightarrow> 'a \<times> HttpRequest" where
  "getParamAs cast key def r = (let r' = initBodyParam (initQueryParam r)
     in (getAs cast (m_params r') key def, r'))"

definition checkGetCookieAs :: "(bytes \<Rightarrow> 'a option) \<Rightarrow> bytes \<Rightarrow> 'a \<Rightarrow> HttpRequest \<Rightarrow> (bool \<times> 'a) \<times> HttpRequest" where
  "checkGetCookieAs cast key def r = (let r' = initCookies r in (checkGetAs cast (m_cookies r') key def, r'))"

definition getCookieAs :: "(bytes \<Rightarrow> 'a option) \<Rightarrow> bytes \<Rightarrow> 'a \<Rightarrow> HttpRequest \<Rightarrow> 'a \<times> HttpRequest" where
  "getCookieAs cast key def r = (let r' = initCookies r in (getAs cast (m_cookies r') key def, r'))"

subsection \<open>Writing messages\<close>

definition crlf :: bytes where
  "crlf = [0x0D, 0x0A]"

definition show_version :: "u8 \<Rightarrow> bytes" where
  "show_version v = show_nat (unat (drop_bit 4 v)) @ lit ''.'' @ show_nat (unat (v AND 0x0F))"

definition header_line :: "bytes \<times> bytes \<Rightarrow> bytes" where
  "header_line i = fst i @ lit '': '' @ snd i @ crlf"

definition dump_headers :: "bool \<Rightarrow> MapType \<Rightarrow> bytes" where
  "dump_headers websocket hs = concat (map (\<lambda>i.
     if \<not> websocket \<and> strcasecmp (c_str (fst i)) (lit ''connection'') = 0 then [] else header_line i) hs)"

definition dump_connection :: "bool \<Rightarrow> bool \<Rightarrow> bytes" where
  "dump_connection websocket close =
     (if \<not> websocket then lit ''connection: '' @ (if close then lit ''close'' else lit ''keep-alive'') @ crlf else [])"

definition dump_body :: "bytes \<Rightarrow> bytes" where
  "dump_body b = (if b \<noteq> [] then lit ''content-length: '' @ show_nat (length b) @ crlf @ crlf @ b else crlf)"

definition HttpRequest_dump :: "HttpRequest \<Rightarrow> bytes" where
  "HttpRequest_dump r =
     HttpMethodToString (m_method r) @ lit '' '' @ m_path r
     @ (if m_query r = [] then [] else lit ''?'') @ m_query r
     @ (if m_fragment r = [] then [] else lit ''#'') @ m_fragment r
     @ lit '' HTTP/'' @ show_version (m_version r) @ crlf
     @ dump_connection (m_websocket r) (m_close r)
     @ dump_headers (m_websocket r) (m_headers r)
     @ dump_body (m_body r)"

subsection \<open>Responses\<close>

record HttpResponse =
  r_status :: HttpStatus
  r_version :: u8
  r_close :: bool
  r_websocket :: bool
  r_body :: bytes
  r_reason :: bytes
  r_headers :: MapType
  r_cookies :: "bytes list"

definition HttpResponse_ctor :: "u8 \<Rightarrow> bool \<Rightarrow> HttpResponse" where
  "HttpResponse_ctor version close = \<lparr>r_status = 200, r_version = version, r_close = close,
     r_websocket = False, r_body = [], r_reason = [], r_headers = [], r_cookies = []\<rparr>"

definition createResponse :: "HttpRequest \<Rightarrow> HttpResponse" where
  "createResponse r = HttpResponse_ctor (m_version r) (m_close r)"

definition HttpResponse_getHeader :: "HttpResponse \<Rightarrow> bytes \<Rightarrow> bytes \<Rightarrow> bytes" where
  "HttpResponse_getHeader r key def = or_default (MapType_find key (r_headers r)) def"

definition HttpResponse_setHeader :: "bytes \<Rightarrow> bytes \<Rightarrow> HttpResponse \<Rightarrow> HttpResponse" where
  "HttpResponse_setHeader key val r = r\<lparr>r_headers := MapType_set key val (r_headers r)\<rparr>"

definition HttpResponse_delHeader :: "bytes \<Rightarrow> HttpResponse \<Rightarrow> HttpResponse" where
  "HttpResponse_delHeader key r = r\<lparr>r_headers := MapType_erase key (r_headers r)\<rparr>"

definition HttpResponse_checkGetHeaderAs :: "(bytes \<Rightarrow> 'a option) \<Rightarrow> bytes \<Rightarrow> 'a \<Rightarrow> HttpResponse \<Rightarrow> bool \<times> 'a" where
  "HttpResponse_checkGetHeaderAs cast key def r = checkGetAs cast (r_headers r) key def"

definition HttpResponse_getHeaderAs :: "(bytes \<Rightarrow> 'a option) \<Rightarrow> bytes \<Rightarrow> 'a \<Rightarrow> HttpResponse \<Rightarrow> 'a" where
  "HttpResponse_getHeaderAs cast key def r = getAs cast (r_headers r) key def"

definition setRedirect :: "bytes \<Rightarrow> HttpResponse \<Rightarrow> HttpResponse" where
  "setRedirect uri r = HttpResponse_setHeader (lit ''Location'') uri (r\<lparr>r_status := 302\<rparr>)"

definition HttpResponse_setCookie ::
  "(int \<Rightarrow> string \<Rightarrow> bytes) \<Rightarrow> bytes \<Rightarrow> bytes \<Rightarrow> int \<Rightarrow> bytes \<Rightarrow> bytes \<Rightarrow> bool \<Rightarrow> HttpResponse \<Rightarrow> HttpResponse" where
  "HttpResponse_setCookie Time2Str key val expired path domain secure r =
     r\<lparr>r_cookies := r_cookies r @ [key @ lit ''='' @ val
        @ (if expired > 0 then lit '';expires='' @ Time2Str expired ''%a, %d %b %Y %H:%M:%S'' @ lit '' GMT'' else [])
        @ (if domain \<noteq> [] then lit '';domain='' @ domain else [])
        @ (if path \<noteq> [] then lit '';path='' @ path else [])
        @ (if secure then lit '';secure'' else [])]\<rparr>"

definition HttpResponse_dump :: "HttpResponse \<Rightarrow> bytes" where
  "HttpResponse_dump r =
     lit ''HTTP/'' @ show_version (r_version r) @ lit '' '' @ show_nat (nat (r_status r mod 2 ^ 32)) @ lit '' ''
     @ (if r_reason r = [] then HttpStatusToString (r_status r) else r_reason r) @ crlf
     @ dump_headers (r_websocket r) (r_headers r)
     @ concat (map (\<lambda>i. lit ''Set-Cookie: '' @ i @ crlf) (r_cookies r))
     @ dump_connection (r_websocket r) (r_close r)
     @ dump_body (r_body r)"

subsection \<open>The case-insensitive order\<close>

lemma c_tolower_nonzero: "c \<noteq> 0 \<Longrightarrow> 0 < uint (c_tolower c)"
proof -
  assume c: "c \<noteq> 0"
  have "c_tolower c \<noteq> 0"
  proof (cases "0x41 \<le> c \<and> c \<le> 0x5A")
    case True
    have "c \<noteq> - 0x20" using True by (auto simp: word_le_nat_alt)
    with True show ?thesis by (simp add: c_tolower_def add_eq_0_iff2)
  qed (auto simp: c_tolower_def c)
  then show ?thesis by (simp add: less_le uint_0_iff)
qed

lemma strcasecmp_flip: "strcasecmp b a = - strcasecmp a b"
  by (induction a b rule: strcasecmp.induct) auto

lemma strcasecmp_zero: "no_nul a \<Longrightarrow> no_nul b \<Longrightarrow> strcasecmp a b = 0 \<longleftrightarrow> map c_tolower a = map c_tolower b"
proof (induction a b rule: strcasecmp.induct)
  case (2 b bs)
  then show ?case using c_tolower_nonzero [of b] by auto
next
  case (3 a as)
  then show ?case using c_tolower_nonzero [of a] by auto
next
  case (4 a as b bs)
  then show ?case using word_uint_eq_iff [of "c_tolower a" "c_tolower b"] by simp
qed simp

lemma strcasecmp_refl: "strcasecmp a a = 0"
  by (induction a) auto

lemma strcasecmp_trans:
  "no_nul a \<Longrightarrow> no_nul b \<Longrightarrow> no_nul c \<Longrightarrow> strcasecmp a b < 0 \<Longrightarrow> strcasecmp b c \<le> 0 \<Longrightarrow> strcasecmp a c < 0"
proof (induction a b arbitrary: c rule: strcasecmp.induct)
  case (2 b bs)
  then show ?case
    using c_tolower_nonzero [of b] c_tolower_nonzero [of "hd c"] by (cases c) auto
next
  case (3 a as)
  then show ?case using c_tolower_nonzero [of a] by auto
next
  case (4 a as b bs)
  then show ?case
    using c_tolower_nonzero [of b] word_uint_eq_iff [of "c_tolower b" "c_tolower (hd c)"]
    by (cases c) (auto split: if_splits)
qed auto

interpretation headers: map_order CaseInsensitiveLess
proof
  show "\<not> CaseInsensitiveLess x x" for x by (simp add: CaseInsensitiveLess_def strcasecmp_refl)
  show "CaseInsensitiveLess x y \<Longrightarrow> CaseInsensitiveLess y z \<Longrightarrow> CaseInsensitiveLess x z" for x y z
    using strcasecmp_trans [of "c_str x" "c_str y" "c_str z"] by (simp add: CaseInsensitiveLess_def)
  show "CaseInsensitiveLess x z \<Longrightarrow> CaseInsensitiveLess x y \<or> CaseInsensitiveLess y z" for x z y
    using strcasecmp_trans [of "c_str x" "c_str z" "c_str y"] strcasecmp_flip [of "c_str y" "c_str z"]
    by (force simp: CaseInsensitiveLess_def)
qed

text \<open>Two names are the same header when they agree up to case before the first zero byte.\<close>

definition same_name :: "bytes \<Rightarrow> bytes \<Rightarrow> bool" where
  "same_name a b \<longleftrightarrow> map c_tolower (c_str a) = map c_tolower (c_str b)"

lemma same_iff: "headers.same a b \<longleftrightarrow> same_name a b"
  using strcasecmp_zero [of "c_str a" "c_str b"] strcasecmp_flip [of "c_str a" "c_str b"]
  by (auto simp: CaseInsensitiveLess_def same_name_def)

lemmas find_set_name = headers.find_set [unfolded same_iff]
lemmas find_insert_name = headers.find_insert [unfolded same_iff]
lemmas find_erase_name = headers.find_erase [unfolded same_iff]

subsection \<open>Method names\<close>

lemma method_table:
  "map fst HTTP_METHOD_MAP = [0..<34]"
  "list_all (\<lambda>(num, name, str). method_index name = num \<and> name \<noteq> INVALID_METHOD
     \<and> CHR 0x00 \<notin> set str) HTTP_METHOD_MAP"
  "list_all (\<lambda>(num, name, str). list_all (\<lambda>(num', name', str').
     take (length str) str' = str \<longrightarrow> name = name') HTTP_METHOD_MAP) HTTP_METHOD_MAP"
  by code_simp+

lemma method_prefix_free:
  assumes "(num, m, str) \<in> set HTTP_METHOD_MAP" "(num', m', str') \<in> set HTTP_METHOD_MAP" "take (length str) str' = str"
  shows "m = m'"
  using bspec [OF bspec [OF method_table(3) [unfolded list_all_iff] assms(1), unfolded prod.case] assms(2)] assms(3)
  by simp

lemma method_listed: "m \<noteq> INVALID_METHOD \<Longrightarrow> \<exists>num str. (num, m, str) \<in> set HTTP_METHOD_MAP"
  by (cases m) (auto simp: HTTP_METHOD_MAP_def)

lemma method_string:
  assumes m: "m \<noteq> INVALID_METHOD"
  obtains num str where "(num, m, str) \<in> set HTTP_METHOD_MAP" "HttpMethodToString m = lit str" "CHR 0x00 \<notin> set str"
proof -
  obtain num str where e: "(num, m, str) \<in> set HTTP_METHOD_MAP" using method_listed [OF m] by blast
  then obtain i where i: "i < length HTTP_METHOD_MAP" "HTTP_METHOD_MAP ! i = (num, m, str)"
    by (auto simp: in_set_conv_nth)
  have len: "length HTTP_METHOD_MAP = 34" using arg_cong [OF method_table(1), of length] by simp
  have "num = i"
    using arg_cong [OF method_table(1), of "\<lambda>l. l ! i"] i len by simp
  moreover have idx: "method_index m = num" and nz: "CHR 0x00 \<notin> set str"
    using bspec [OF method_table(2) [unfolded list_all_iff] e, unfolded prod.case] by blast+
  ultimately have "HttpMethodToString m = lit str"
    using i len by (simp add: HttpMethodToString_def s_method_string_def)
  with that e nz show thesis by blast
qed

lemma first_method_unique:
  "(num, m, str) \<in> set table \<Longrightarrow> match str \<Longrightarrow>
   (\<And>num' m' str'. (num', m', str') \<in> set table \<Longrightarrow> match str' \<Longrightarrow> m' = m) \<Longrightarrow> first_method match table = m"
proof (induction table)
  case (Cons e table)
  obtain n' m' s' where e: "e = (n', m', s')" by (cases e)
  show ?case
  proof (cases "match s'")
    case True
    then have "m' = m" using Cons.prems(3) [of n' m' s'] by (simp add: e)
    with True show ?thesis by (simp add: e)
  next
    case False
    then have "(num, m, str) \<in> set table" using Cons.prems(1,2) by (auto simp: e)
    moreover have "match str' \<Longrightarrow> (num', m', str') \<in> set table \<Longrightarrow> m' = m" for num' m' str'
      using Cons.prems(3) [of num' m' str'] by simp
    ultimately have "first_method match table = m" using Cons.IH Cons.prems(2) by blast
    with False show ?thesis by (simp add: e)
  qed
qed simp

subsection \<open>Parsing a parameter string\<close>

text \<open>What a client sends for a list of parameters, with the values encoded.\<close>

fun join_params :: "u8 \<Rightarrow> (bytes \<times> bytes) list \<Rightarrow> bytes" where
  "join_params flag [] = []"
| "join_params flag [(k, v)] = k @ 0x3D # UrlEncode True v"
| "join_params flag ((k, v) # ps) = k @ 0x3D # UrlEncode True v @ flag # join_params flag ps"

definition first_named :: "bytes \<Rightarrow> (bytes \<times> bytes) list \<Rightarrow> bytes option" where
  "first_named key ps = map_option snd (find (\<lambda>(k, v). same_name k key) ps)"

lemma find_char_absent: "c \<notin> set s \<Longrightarrow> find_char c s = None"
  by (induction s) auto

lemma find_char_first: "c \<notin> set a \<Longrightarrow> find_char c (a @ c # r) = Some (length a)"
  by (induction a) auto

lemma find_from_append: "find_from c (pre @ s) (length pre) = map_option (\<lambda>i. length pre + i) (find_char c s)"
  by (simp add: find_from_def)

lemma hexdigits_unreserved: "n < 16 \<Longrightarrow> CHAR_IS_UNRESERVED (hexdigits n)"
proof -
  have "list_all (\<lambda>n. CHAR_IS_UNRESERVED (hexdigits n)) [0..<16]" by code_simp
  then show "n < 16 \<Longrightarrow> CHAR_IS_UNRESERVED (hexdigits n)" by (simp add: list_all_iff)
qed

lemma UrlEncode_chars: "c \<in> set (UrlEncode sp s) \<Longrightarrow> CHAR_IS_UNRESERVED c \<or> c = 0x2B \<or> c = 0x25"
proof -
  have "unat d div 16 < 16" "unat d mod 16 < 16" for d :: u8 using unsigned_less [of d, where 'a = nat] by auto
  then show "c \<in> set (UrlEncode sp s) \<Longrightarrow> CHAR_IS_UNRESERVED c \<or> c = 0x2B \<or> c = 0x25"
    by (auto simp: UrlEncode_ref url_encode_ref_def enc_char_def hexdigits_unreserved split: if_splits)
qed

lemma separators_reserved: "\<not> CHAR_IS_UNRESERVED 0x26" "\<not> CHAR_IS_UNRESERVED 0x3B"
  by code_simp+

lemma separator_free: "0x26 \<notin> set (UrlEncode sp v)" "0x3B \<notin> set (UrlEncode sp v)"
  using UrlEncode_chars [of _ sp v] separators_reserved by force+

lemma decode_encode: "UrlDecode sp (UrlEncode sp s) = s"
proof -
  have "url_decode_ref sp (url_encode_ref sp s) = s"
    by (induction s) (simp_all add: url_encode_ref_def decode_enc_char [simplified])
  then show ?thesis by (simp add: UrlEncode_ref UrlDecode_ref)
qed

lemma PARSE_PARAM_step:
  assumes "0x3D \<notin> set k" and "flag \<notin> set e" and "flag \<noteq> 0x3D"
  shows "PARSE_PARAM flag trim (pre @ k @ 0x3D # e) (length pre) m =
      MapType_insert (trim k) (UrlDecode True e) m"
    and "PARSE_PARAM flag trim (pre @ k @ 0x3D # e @ flag # r) (length pre) m =
      PARSE_PARAM flag trim (pre @ k @ 0x3D # e @ flag # r) (length (pre @ k @ 0x3D # e @ [flag]))
        (MapType_insert (trim k) (UrlDecode True e) m)"
proof -
  have key: "find_from 0x3D (pre @ k @ 0x3D # r) (length pre) = Some (length pre + length k)" for r
    using assms(1) by (simp add: find_from_append find_char_first)
  have none: "find_from flag (pre @ k @ 0x3D # e) (length pre + length k) = None"
    using find_from_append [of flag "pre @ k" "0x3D # e"] assms by (simp add: find_char_absent)
  have sep: "find_from flag (pre @ k @ 0x3D # e @ flag # r) (length pre + length k) =
      Some (length pre + length k + Suc (length e))"
    using find_from_append [of flag "pre @ k" "0x3D # e @ flag # r"] assms by (simp add: find_char_first)
  show "PARSE_PARAM flag trim (pre @ k @ 0x3D # e) (length pre) m =
      MapType_insert (trim k) (UrlDecode True e) m"
    by (subst PARSE_PARAM.simps) (simp add: key none substr_def)
  show "PARSE_PARAM flag trim (pre @ k @ 0x3D # e @ flag # r) (length pre) m =
      PARSE_PARAM flag trim (pre @ k @ 0x3D # e @ flag # r) (length (pre @ k @ 0x3D # e @ [flag]))
        (MapType_insert (trim k) (UrlDecode True e) m)"
    by (subst PARSE_PARAM.simps) (simp add: key sep substr_def add.assoc)
qed

lemma PARSE_PARAM_join:
  assumes flag: "flag = 0x26 \<or> flag = 0x3B"
  shows "\<forall>(k, v)\<in>set ps. 0x3D \<notin> set k \<Longrightarrow>
    PARSE_PARAM flag trim (pre @ join_params flag ps) (length pre) m =
      fold (\<lambda>(k, v). MapType_insert (trim k) v) ps m"
  using flag
proof (induction flag ps arbitrary: pre m rule: join_params.induct)
  case (1 flag)
  then show ?case by (simp add: PARSE_PARAM.simps find_from_def)
next
  case (2 flag k v)
  then show ?case
    using PARSE_PARAM_step(1) [of k flag "UrlEncode True v" trim pre m] separator_free [of True v]
    by (auto simp: decode_encode)
next
  case (3 flag k v p ps)
  let ?pre = "pre @ k @ 0x3D # UrlEncode True v @ [flag]"
  have IH: "PARSE_PARAM flag trim (?pre @ join_params flag (p # ps)) (length ?pre) m =
      fold (\<lambda>(k, v). MapType_insert (trim k) v) (p # ps) m" for m
    using 3 by (intro "3.IH") auto
  show ?case
    using PARSE_PARAM_step(2) [of k flag "UrlEncode True v" trim pre "join_params flag (p # ps)" m]
      separator_free [of True v] "3.prems" IH [of "MapType_insert (trim k) v m"]
    by (auto simp: decode_encode)
qed

lemma find_fold_insert:
  "headers.keys_ordered m \<Longrightarrow> MapType_find key (fold (\<lambda>(k, v). MapType_insert k v) ps m) =
     (case MapType_find key m of Some v \<Rightarrow> Some v | None \<Rightarrow> first_named key ps)"
proof (induction ps arbitrary: m)
  case Nil
  then show ?case by (simp add: first_named_def split: option.split)
next
  case (Cons p ps)
  obtain k v where p: "p = (k, v)" by fastforce
  have "same_name k key \<Longrightarrow> MapType_find k m = MapType_find key m"
    using headers.find_same [of k key m] same_iff [of k key] by simp
  then show ?case
    using Cons.IH [OF headers.insert_ordered [OF Cons.prems], of k v] find_insert_name [OF Cons.prems, of key k v]
    by (auto simp: p first_named_def split: option.splits)
qed

lemma PARSE_PARAM_find:
  assumes "\<forall>(k, v)\<in>set ps. 0x3D \<notin> set k" and "flag = 0x26 \<or> flag = 0x3B" and "headers.keys_ordered m"
  shows "MapType_find key (PARSE_PARAM flag trim (join_params flag ps) 0 m) =
      (case MapType_find key m of Some v \<Rightarrow> Some v | None \<Rightarrow> first_named key (map (apfst trim) ps))"
proof -
  have "fold (\<lambda>(k, v). MapType_insert (trim k) v) ps m = fold (\<lambda>(k, v). MapType_insert k v) (map (apfst trim) ps) m"
    by (induction ps arbitrary: m) auto
  then show ?thesis
    using PARSE_PARAM_join [OF assms(2,1), of trim "[]" m] find_fold_insert [OF assms(3), of key "map (apfst trim) ps"]
    by simp
qed

lemma PARSE_PARAM_ordered:
  "headers.keys_ordered m \<Longrightarrow> headers.keys_ordered (PARSE_PARAM flag trim str pos m)"
proof (induction flag trim str pos m rule: PARSE_PARAM.induct)
  case (1 flag trim str pos m)
  then show ?case
    by (subst PARSE_PARAM.simps) (auto simp: Let_def headers.insert_ordered split: option.split)
qed

lemma first_named_append:
  "first_named key (ps @ qs) = (case first_named key ps of Some v \<Rightarrow> Some v | None \<Rightarrow> first_named key qs)"
  by (induction ps) (auto simp: first_named_def)

text \<open>The request's three maps stay ordered under every operation that writes them.\<close>

definition request_ok :: "HttpRequest \<Rightarrow> bool" where
  "request_ok r \<longleftrightarrow> sorted_wrt (\<lambda>a b. CaseInsensitiveLess (fst a) (fst b)) (m_headers r)
     \<and> sorted_wrt (\<lambda>a b. CaseInsensitiveLess (fst a) (fst b)) (m_params r)
     \<and> sorted_wrt (\<lambda>a b. CaseInsensitiveLess (fst a) (fst b)) (m_cookies r)"

lemmas request_defs = HttpRequest_setHeader_def HttpRequest_setParam_def HttpRequest_setCookie_def
  HttpRequest_delHeader_def HttpRequest_delParam_def HttpRequest_delCookie_def HttpRequest_init_def

lemmas init_defs = initQueryParam_def initBodyParam_def initCookies_def

lemma inits_ok:
  "request_ok r \<Longrightarrow> request_ok (initQueryParam r)"
  "request_ok r \<Longrightarrow> request_ok (initBodyParam r)"
  "request_ok r \<Longrightarrow> request_ok (initCookies r)"
  by (simp_all add: request_ok_def init_defs Let_def PARSE_PARAM_ordered)

lemma request_ops_ok:
  "request_ok (HttpRequest_ctor version close)"
  "request_ok r \<Longrightarrow> request_ok (HttpRequest_setHeader k v r)" "request_ok r \<Longrightarrow> request_ok (HttpRequest_setParam k v r)"
  "request_ok r \<Longrightarrow> request_ok (HttpRequest_setCookie k v r)" "request_ok r \<Longrightarrow> request_ok (HttpRequest_delHeader k r)"
  "request_ok r \<Longrightarrow> request_ok (HttpRequest_delParam k r)" "request_ok r \<Longrightarrow> request_ok (HttpRequest_delCookie k r)"
  "request_ok r \<Longrightarrow> request_ok (HttpRequest_init r)"
  by (simp_all add: request_ok_def request_defs HttpRequest_ctor_def Let_def headers.set_ordered headers.erase_ordered)

text \<open>The sequences of operations on one request, with the lazy initialisations as steps.\<close>

inductive request_step :: "HttpRequest \<Rightarrow> HttpRequest \<Rightarrow> bool" where
  set_header: "request_step r (HttpRequest_setHeader k v r)"
| set_param: "request_step r (HttpRequest_setParam k v r)"
| set_cookie: "request_step r (HttpRequest_setCookie k v r)"
| del_header: "request_step r (HttpRequest_delHeader k r)"
| del_param: "request_step r (HttpRequest_delParam k r)"
| del_cookie: "request_step r (HttpRequest_delCookie k r)"
| init: "request_step r (HttpRequest_init r)"
| query: "request_step r (initQueryParam r)"
| body: "request_step r (initBodyParam r)"
| cookies: "request_step r (initCookies r)"

lemma request_step_ok: "request_step r r' \<Longrightarrow> request_ok r \<Longrightarrow> request_ok r'"
  by (induction rule: request_step.induct) (simp_all add: request_ops_ok inits_ok)

lemma request_steps_ok: "request_step\<^sup>*\<^sup>* r r' \<Longrightarrow> request_ok r \<Longrightarrow> request_ok r'"
  by (induction rule: rtranclp_induct) (auto intro: request_step_ok)

lemma parse_flags:
  "m_parserParamFlag (initQueryParam r) AND 0x1 \<noteq> 0"
  "m_parserParamFlag (initBodyParam r) AND 0x2 \<noteq> 0"
  "m_parserParamFlag (initCookies r) AND 0x4 \<noteq> 0"
  by (auto simp: init_defs Let_def bit.conj_disj_distrib2)

subsection \<open>Properties of the HTTP messages\<close>

text \<open>
  The three method tables agree: the printed name of every method is read
  back by \<open>StringToHttpMethod\<close>, and \<open>CharsToHttpMethod\<close>, which compares only as many bytes
  as each name has, finds it at the front of any longer text, because no name is a
  prefix of another.
\<close>

theorem http_method_names:
  assumes m: "m \<noteq> INVALID_METHOD"
  shows "StringToHttpMethod (HttpMethodToString m) = m \<and> CharsToHttpMethod (HttpMethodToString m @ rest) = m"
proof -
  obtain num str where e: "(num, m, str) \<in> set HTTP_METHOD_MAP" and str: "HttpMethodToString m = lit str"
      and nz: "CHR 0x00 \<notin> set str" by (rule method_string [OF m])
  have nonzero: "c \<noteq> 0" if "c \<in> set (lit str)" for c :: u8
    using that nz unfolding lit_no_nul [symmetric] by blast
  then have c: "c_str (lit str @ r) = lit str @ c_str r" for r
    by (simp add: c_str_def takeWhile_append2)
  have pre: "m' = m" if "(num', m', str') \<in> set HTTP_METHOD_MAP" "take (length str') str = str'" for num' m' str'
    using method_prefix_free [OF that(1) e that(2)] by simp
  have pre': "m' = m" if "(num', m', str') \<in> set HTTP_METHOD_MAP" "take (length str) str' = str" for num' m' str'
    using method_prefix_free [OF e that(1) that(2)] by simp
  have "StringToHttpMethod (lit str) = m"
  proof -
    have "c_str (lit str) = lit str" using c [of "[]"] by (simp only: append_Nil2) (simp add: c_str_def)
    then show ?thesis
      unfolding StringToHttpMethod_def by (intro first_method_unique [OF e]) (auto dest: pre)
  qed
  moreover have "CharsToHttpMethod (lit str @ rest) = m"
    unfolding CharsToHttpMethod_def c
  proof (rule first_method_unique [OF e])
    fix num' m' str'
    assume t: "(num', m', str') \<in> set HTTP_METHOD_MAP" and q: "take (length str') (lit str @ c_str rest) = lit str'"
    show "m' = m"
    proof (cases "length str' \<le> length str")
      case True
      then show ?thesis using q by (intro pre [OF t]) simp
    next
      case False
      then have "take (length str) (lit str') = lit str" unfolding q [symmetric] by simp
      then show ?thesis by (intro pre' [OF t]) simp
    qed
  qed simp
  ultimately show ?thesis by (simp add: str)
qed

theorem http_method_names_witness:
  "MSEARCH \<noteq> INVALID_METHOD \<and> CharsToHttpMethod (HttpMethodToString MSEARCH @ [0x20, 0x2F]) = MSEARCH"
  using http_method_names [of MSEARCH "[0x20, 0x2F]"] by simp

text \<open>
  Header, parameter and cookie maps behave as maps over case-insensitive names in every
  state an operation sequence reaches: after \<open>setHeader\<close>, \<open>getHeader\<close> returns the new
  value for every spelling of the name and leaves other names alone, and after
  \<open>delHeader\<close> the name is absent.
\<close>

theorem http_header_map:
  assumes "request_step\<^sup>*\<^sup>* (HttpRequest_ctor version close) r"
  shows "HttpRequest_getHeader (HttpRequest_setHeader k v r) k' def =
      (if same_name k k' then v else HttpRequest_getHeader r k' def)
    \<and> HttpRequest_getHeader (HttpRequest_delHeader k r) k' def =
      (if same_name k k' then def else HttpRequest_getHeader r k' def)"
proof -
  have "request_ok r" using request_steps_ok [OF assms] request_ops_ok(1) by blast
  then have "headers.keys_ordered (m_headers r)" by (simp add: request_ok_def)
  then show ?thesis
    by (simp add: HttpRequest_getHeader_def HttpRequest_setHeader_def HttpRequest_delHeader_def
        find_set_name find_erase_name or_default_def)
qed

theorem http_header_map_witness:
  "HttpRequest_getHeader (HttpRequest_setHeader (lit ''Host'') [1] (HttpRequest_ctor 0x11 True)) (lit ''hOST'') [] = [1]"
proof -
  have "same_name (lit ''Host'') (lit ''hOST'')" by code_simp
  then show ?thesis 
    using http_header_map [OF rtranclp.rtrancl_refl, where k = "lit ''Host''" and v = "[1]"] by simp
qed

text \<open>
  Property C30. Parameters are recovered: on a fresh request whose query and
  form-encoded body are joined from names without an equals sign and URL-encoded values,
  \<open>getParam\<close> returns the value of the first pair of that name (up to case), query
  before body, and the default otherwise; a body of another content type is ignored. A
  second call parses nothing again.
\<close>

theorem http_params_roundtrip:
  assumes "\<forall>(k, v)\<in>set ps. 0x3D \<notin> set k" and "\<forall>(k, v)\<in>set qs. 0x3D \<notin> set k"
    and "m_query r = join_params 0x26 ps" and "m_body r = join_params 0x26 qs"
    and "m_params r = []" and "m_parserParamFlag r = 0"
  shows "fst (HttpRequest_getParam key def r) = or_default (first_named key (ps @
      (if strcasestr (c_str (HttpRequest_getHeader r (lit ''content-type'') []))
            (lit ''application/x-www-form-urlencoded'') then qs else []))) def
    \<and> snd (HttpRequest_getParam key' def' (snd (HttpRequest_getParam key def r))) = snd (HttpRequest_getParam key def r)"
proof -
  let ?form = "strcasestr (c_str (HttpRequest_getHeader r (lit ''content-type'') [])) (lit ''application/x-www-form-urlencoded'')"
  let ?m = "PARSE_PARAM 0x26 id (join_params 0x26 ps) 0 []"
  let ?r = "initBodyParam (initQueryParam r)"
  have id: "map (apfst id) xs = xs" for xs :: "(bytes \<times> bytes) list" by (induction xs) auto
  have m: "headers.keys_ordered ?m" by (rule PARSE_PARAM_ordered) simp
  have "m_params ?r = (if ?form then PARSE_PARAM 0x26 id (join_params 0x26 qs) 0 ?m else ?m)"
    using assms by (auto simp: init_defs Let_def HttpRequest_getHeader_def)
  moreover have q: "MapType_find key ?m = first_named key ps"
    using PARSE_PARAM_find [OF assms(1), of "0x26" "[]" key id] by (simp add: id map_find_def)
  moreover have "MapType_find key (PARSE_PARAM 0x26 id (join_params 0x26 qs) 0 ?m) = first_named key (ps @ qs)"
    using PARSE_PARAM_find [OF assms(2) _ m, of "0x26" key id] unfolding id by (simp add: first_named_append q)
  moreover have again: "initBodyParam (initQueryParam ?r) = ?r"
  proof -
    have "m_parserParamFlag ?r = 3" using assms by (simp add: init_defs Let_def)
    then show ?thesis by (simp add: init_defs)
  qed
  ultimately show ?thesis by (simp add: HttpRequest_getParam_def Let_def)
qed

theorem http_params_roundtrip_witness:
  "fst (HttpRequest_getParam (lit ''ID'') [] ((HttpRequest_ctor 0x11 True)
     \<lparr>m_query := join_params 0x26 [(lit ''id'', lit ''a&b''), (lit ''x'', [])]\<rparr>)) = lit ''a&b''"
proof -
  let ?r = "(HttpRequest_ctor 0x11 True) \<lparr>m_query := join_params 0x26 [(lit ''id'', lit ''a&b''), (lit ''x'', [])]\<rparr>"
  have "\<forall>(k, v)\<in>set [(lit ''id'', lit ''a&b''), (lit ''x'', [])]. 0x3D \<notin> set k" by (simp add: lit_def)
  moreover have "same_name (lit ''id'') (lit ''ID'')" by code_simp
  ultimately show ?thesis
    using http_params_roundtrip [of "[(lit ''id'', lit ''a&b''), (lit ''x'', [])]" "[]" ?r "lit ''ID''" "[]"]
    by (simp add: HttpRequest_ctor_def first_named_def or_default_def)
qed

text \<open>
  Cookies are recovered from a \<open>Cookie\<close> header joined with semicolons from
  names without an equals sign and URL-encoded values, with blanks around the names
  dropped: \<open>getCookie\<close> returns the first pair whose trimmed name is the key.
\<close>

theorem http_cookies_roundtrip:
  assumes "\<forall>(k, v)\<in>set ps. 0x3D \<notin> set k"
    and "HttpRequest_getHeader r (lit ''cookie'') [] = join_params 0x3B ps"
    and "m_cookies r = []" and "m_parserParamFlag r AND 0x4 = 0"
  shows "fst (HttpRequest_getCookie key def r) =
    or_default (first_named key (map (apfst (Trim trim_default)) ps)) def"
proof (cases "ps = []")
  case True
  then show ?thesis
    using assms by (simp add: HttpRequest_getCookie_def initCookies_def Let_def first_named_def map_find_def)
next
  case False
  then obtain k v ps' where ps: "ps = (k, v) # ps'" by (cases ps) auto
  have "join_params 0x3B ps \<noteq> []" by (cases ps') (simp_all add: ps)
  moreover have "MapType_find key (PARSE_PARAM 0x3B (Trim trim_default) (join_params 0x3B ps) 0 []) =
      first_named key (map (apfst (Trim trim_default)) ps)"
    using PARSE_PARAM_find [OF assms(1), of "0x3B" "[]" key "Trim trim_default"] by (simp add: map_find_def)
  ultimately show ?thesis
    using assms by (simp add: HttpRequest_getCookie_def initCookies_def Let_def)
qed

theorem http_cookies_roundtrip_witness:
  "fst (HttpRequest_getCookie (lit ''uid'') [] (HttpRequest_setHeader (lit ''Cookie'')
     (join_params 0x3B [(lit ''sid'', [1]), (lit '' uid'', [0x3B])]) (HttpRequest_ctor 0x11 True))) = [0x3B]"
proof -
  let ?ps = "[(lit ''sid'', [1]), (lit '' uid'', [0x3B])]"
  let ?r = "HttpRequest_setHeader (lit ''Cookie'') (join_params 0x3B ?ps) (HttpRequest_ctor 0x11 True)"
  have "\<forall>(k, v)\<in>set ?ps. 0x3D \<notin> set k" by (simp add: lit_def)
  moreover have "HttpRequest_getHeader ?r (lit ''cookie'') [] = join_params 0x3B ?ps" by code_simp
  moreover have "m_cookies ?r = []" "m_parserParamFlag ?r AND 0x4 = 0"
    by (simp_all add: HttpRequest_setHeader_def HttpRequest_ctor_def)
  moreover have "first_named (lit ''uid'') (map (apfst (Trim trim_default)) ?ps) = Some [0x3B]" by code_simp
  ultimately show ?thesis
    using http_cookies_roundtrip [of ?ps ?r "lit ''uid''" "[]"] by (simp add: or_default_def)
qed

end
