(* ===== verification/Civan_Http_Parser.thy ===== *)
theory Civan_Http_Parser
  imports Civan_Http11_Grammar Civan_Http
begin

section \<open>The request parser: \<open>HttpRequestParser\<close> of \<open>civan/http/http_parser.cc\<close>\<close>

text \<open>
  The callbacks that build an \<open>HttpRequest\<close> from what the automaton reports, and the parser
  object around them. The theorems show that a request that \<open>HttpRequest::dump\<close> prints is
  read back.
\<close>

subsection \<open>Callbacks\<close>

record HttpRequestParser =
  rp_parser :: http_parser
  rp_data :: HttpRequest
  rp_error :: int

text \<open>\<open>mem\<close> is what the memory of \<open>m_parser\<close> held, of which \<open>http_parser_init\<close> keeps two fields.\<close>

definition new_HttpRequestParser :: "http_parser \<Rightarrow> HttpRequestParser" where
  "new_HttpRequestParser mem =
     \<lparr>rp_parser = http_parser_init mem, rp_data = HttpRequest_ctor 0x11 True, rp_error = 0\<rparr>"

definition setError :: "int \<Rightarrow> HttpRequestParser \<Rightarrow> HttpRequestParser" where
  "setError v p = p\<lparr>rp_error := v\<rparr>"

definition upd_data :: "(HttpRequest \<Rightarrow> HttpRequest) \<Rightarrow> HttpRequestParser \<Rightarrow> HttpRequestParser" where
  "upd_data f p = p\<lparr>rp_data := f (rp_data p)\<rparr>"

definition on_request_method :: "u8 list \<Rightarrow> nat \<Rightarrow> HttpRequestParser \<Rightarrow> HttpRequestParser res" where
  "on_request_method at n p = (let m = CharsToHttpMethod at in
     if m = INVALID_METHOD then Inr (setError 1000 p) else Inr (upd_data (m_method_update (\<lambda>_. m)) p))"

definition on_request_fragment :: "u8 list \<Rightarrow> nat \<Rightarrow> HttpRequestParser \<Rightarrow> HttpRequestParser res" where
  "on_request_fragment at n p = rbind (std_string at n) (\<lambda>s. Inr (upd_data (m_fragment_update (\<lambda>_. s)) p))"

definition on_request_path :: "u8 list \<Rightarrow> nat \<Rightarrow> HttpRequestParser \<Rightarrow> HttpRequestParser res" where
  "on_request_path at n p = rbind (std_string at n) (\<lambda>s. Inr (upd_data (m_path_update (\<lambda>_. s)) p))"

definition on_request_query :: "u8 list \<Rightarrow> nat \<Rightarrow> HttpRequestParser \<Rightarrow> HttpRequestParser res" where
  "on_request_query at n p = rbind (std_string at n) (\<lambda>s. Inr (upd_data (m_query_update (\<lambda>_. s)) p))"

text \<open>\<open>strncmp(a, b, n) == 0\<close>\<close>

definition strncmp_eq :: "u8 list \<Rightarrow> u8 list \<Rightarrow> nat \<Rightarrow> bool" where
  "strncmp_eq a b n \<longleftrightarrow> take n (c_str a) = take n (c_str b)"

definition on_request_version :: "u8 list \<Rightarrow> nat \<Rightarrow> HttpRequestParser \<Rightarrow> HttpRequestParser res" where
  "on_request_version at n p =
     (if strncmp_eq at (lit ''HTTP/1.1'') n then Inr (upd_data (m_version_update (\<lambda>_. 0x11)) p)
      else if strncmp_eq at (lit ''HTTP/1.0'') n then Inr (upd_data (m_version_update (\<lambda>_. 0x10)) p)
      else Inr (setError 1001 p))"

definition on_request_http_field ::
  "u8 list \<Rightarrow> nat \<Rightarrow> u8 list \<Rightarrow> nat \<Rightarrow> HttpRequestParser \<Rightarrow> HttpRequestParser res" where
  "on_request_http_field field flen value vlen p =
     (if flen = 0 then Inr p
      else rbind (std_string field flen) (\<lambda>k. rbind (std_string value vlen) (\<lambda>v.
        Inr (upd_data (HttpRequest_setHeader k v) p))))"

fun on_event :: "parser_event \<Rightarrow> HttpRequestParser \<Rightarrow> HttpRequestParser res" where
  "on_event (Ev_request_method at n) p = on_request_method at n p"
| "on_event (Ev_request_uri at n) p = Inr p"
| "on_event (Ev_fragment at n) p = on_request_fragment at n p"
| "on_event (Ev_request_path at n) p = on_request_path at n p"
| "on_event (Ev_query_string at n) p = on_request_query at n p"
| "on_event (Ev_http_version at n) p = on_request_version at n p"
| "on_event (Ev_header_done at n) p = Inr p"
| "on_event (Ev_http_field field flen value vlen) p = on_request_http_field field flen value vlen p"

fun on_events :: "parser_event list \<Rightarrow> HttpRequestParser \<Rightarrow> HttpRequestParser res" where
  "on_events [] p = Inr p"
| "on_events (e # es) p = rbind (on_event e p) (on_events es)"

text \<open>\<open>execute\<close> returns the bytes consumed; the rest of the data moves to the front.\<close>

definition RequestParser_execute ::
  "u8 list \<Rightarrow> HttpRequestParser \<Rightarrow> (nat \<times> u8 list \<times> HttpRequestParser) res" where
  "RequestParser_execute data p =
     rbind (http_parser_execute (rp_parser p) data 0) (\<lambda>(offset, q, evs).
     rbind (on_events evs p) (\<lambda>p'. Inr (offset, drop offset data, p'\<lparr>rp_parser := q\<rparr>)))"

definition RequestParser_isFinished :: "HttpRequestParser \<Rightarrow> int" where
  "RequestParser_isFinished p = http_parser_finish (rp_parser p)"

definition RequestParser_hasError :: "HttpRequestParser \<Rightarrow> bool" where
  "RequestParser_hasError p \<longleftrightarrow> rp_error p \<noteq> 0 \<or> http_parser_has_error (rp_parser p)"

definition getContentLength :: "(u8 list \<Rightarrow> u64 option) \<Rightarrow> HttpRequestParser \<Rightarrow> u64" where
  "getContentLength lexical_cast p = getHeaderAs lexical_cast (lit ''content-length'') 0 (rp_data p)"

subsection \<open>Callbacks on slices of the buffer\<close>

lemma on_event_in_range: "event_in_range e \<Longrightarrow> \<exists>p'. on_event e p = Inr p' \<and> rp_parser p' = rp_parser p"
  by (cases e)
     (auto simp: on_request_method_def on_request_fragment_def on_request_path_def on_request_query_def
       on_request_version_def on_request_http_field_def setError_def upd_data_def Let_def)

lemma on_events_in_range: "list_all event_in_range evs \<Longrightarrow> \<exists>p'. on_events evs p = Inr p'"
proof (induction evs arbitrary: p)
  case (Cons e evs)
  then obtain p1 where "on_event e p = Inr p1" using on_event_in_range [of e p] by auto
  with Cons show ?case by simp
qed simp

text \<open>
  What a callback does to the request, by the text it is told; \<open>call_ok\<close> excludes the texts that
  set an error or are ignored.
\<close>

definition apply_call :: "string \<times> u8 list list \<Rightarrow> HttpRequest \<Rightarrow> HttpRequest" where
  "apply_call c r = (case snd c of
     [t] \<Rightarrow>
       if fst c = ''request_method'' then r\<lparr>m_method := StringToHttpMethod t\<rparr>
       else if fst c = ''request_path'' then r\<lparr>m_path := t\<rparr>
       else if fst c = ''query_string'' then r\<lparr>m_query := t\<rparr>
       else if fst c = ''fragment'' then r\<lparr>m_fragment := t\<rparr>
       else if fst c = ''http_version'' then r\<lparr>m_version := if t = lit ''HTTP/1.1'' then 0x11 else 0x10\<rparr>
       else r
   | [k, v] \<Rightarrow> HttpRequest_setHeader k v r
   | _ \<Rightarrow> r)"

definition call_ok :: "string \<times> u8 list list \<Rightarrow> bool" where
  "call_ok c \<longleftrightarrow>
     (fst c = ''request_method'' \<longrightarrow> (\<exists>m. m \<noteq> INVALID_METHOD \<and> snd c = [HttpMethodToString m])) \<and>
     (fst c = ''http_version'' \<longrightarrow> snd c = [lit ''HTTP/1.1''] \<or> snd c = [lit ''HTTP/1.0'']) \<and>
     (fst c = ''http_field'' \<longrightarrow> hd (snd c) \<noteq> [])"

lemma version_text:
  assumes "take n at = lit v" "n \<le> length at" "CHR 0x00 \<notin> set v" "CHR 0x00 \<notin> set w" "length w = length v"
  shows "strncmp_eq at (lit w) n \<longleftrightarrow> w = v"
proof -
  have n: "n = length v" using assms(1,2) by (metis length_take lit_simps(1) min.absorb2)
  have nz: "c \<noteq> 0" if "c \<in> set (lit v) \<or> c \<in> set (lit w)" for c :: u8
    using that assms(3,4) lit_no_nul by blast
  have "at = lit v @ drop n at" using assms(1) by (metis append_take_drop_id)
  then have "c_str at = lit v @ c_str (drop n at)"
    using nz by (metis (mono_tags, lifting) c_str_def takeWhile_append2)
  moreover have "c_str (lit w) = lit w" using nz by (simp add: c_str_def takeWhile_eq_all_conv)
  ultimately show ?thesis using n assms(5) by (auto simp: strncmp_eq_def)
qed

lemma on_event_text:
  assumes "event_in_range e" "call_ok (event_text e)"
  shows "on_event e p = Inr (p\<lparr>rp_data := apply_call (event_text e) (rp_data p)\<rparr>)"
proof (cases e)
  case (Ev_request_method at n)
  then obtain m where m: "m \<noteq> INVALID_METHOD" "take n at = HttpMethodToString m"
    using assms(2) by (auto simp: call_ok_def)
  then have "at = HttpMethodToString m @ drop n at" by (metis append_take_drop_id)
  then have "CharsToHttpMethod at = m" using http_method_names [OF m(1)] by metis
  then show ?thesis
    using Ev_request_method m http_method_names [OF m(1)]
    by (simp add: on_request_method_def upd_data_def apply_call_def)
next
  case (Ev_http_version at n)
  then have t: "n \<le> length at" "take n at = lit ''HTTP/1.1'' \<or> take n at = lit ''HTTP/1.0''"
    using assms by (auto simp: call_ok_def)
  then have "strncmp_eq at (lit ''HTTP/1.1'') n \<longleftrightarrow> take n at = lit ''HTTP/1.1''"
    "strncmp_eq at (lit ''HTTP/1.0'') n \<longleftrightarrow> take n at = lit ''HTTP/1.0''"
    using version_text [of n at "''HTTP/1.1''"] version_text [of n at "''HTTP/1.0''"] by auto
  with t Ev_http_version show ?thesis
    by (auto simp: on_request_version_def upd_data_def apply_call_def)
next
  case (Ev_http_field f fn v vn)
  then show ?thesis
    using assms by (auto simp: on_request_http_field_def upd_data_def apply_call_def call_ok_def)
qed (use assms in \<open>simp_all add: on_request_path_def on_request_query_def on_request_fragment_def upd_data_def apply_call_def\<close>)

lemma on_events_text:
  "list_all event_in_range evs \<Longrightarrow> list_all call_ok (map event_text evs) \<Longrightarrow>
   on_events evs p = Inr (p\<lparr>rp_data := fold apply_call (map event_text evs) (rp_data p)\<rparr>)"
  by (induction evs arbitrary: p) (simp_all add: on_event_text)

text \<open>
  Between two calls for one request, the automaton is inside the head and has not stored where
  the body starts. From there a call ends with an exception of a callback, or in such a state
  with all data consumed, or with an error or a complete head.
\<close>

definition rp_ready :: "HttpRequestParser \<Rightarrow> bool" where
  "rp_ready p \<longleftrightarrow> http_parser_typed (rp_parser p) \<and> \<not> http_parser_is_finished (rp_parser p)"

lemma new_parser_ready: "rp_ready (new_HttpRequestParser mem)"
  by (simp add: rp_ready_def new_HttpRequestParser_def http_parser_typed_def http_parser_is_finished_def
      http_parser_init_def http_parser_start_def http_parser_first_final_def)

lemma on_event_fault: "on_event ev p = Inl e \<Longrightarrow> e = LogicError \<or> e = BadPointer"
proof -
  have b: "rbind (std_string at n) f = Inl e \<Longrightarrow> (\<And>s. f s = Inl e \<Longrightarrow> e = LogicError \<or> e = BadPointer) \<Longrightarrow> e = LogicError \<or> e = BadPointer"
    for at n and f :: "u8 list \<Rightarrow> HttpRequestParser res"
    by (cases "std_string at n") (auto dest: std_string_fault)
  show "on_event ev p = Inl e \<Longrightarrow> e = LogicError \<or> e = BadPointer"
    by (cases ev)
       (auto simp: on_request_method_def on_request_fragment_def on_request_path_def on_request_query_def
         on_request_version_def on_request_http_field_def Let_def split: if_splits dest!: b)
qed

lemma on_events_fault: "on_events evs p = Inl e \<Longrightarrow> e = LogicError \<or> e = BadPointer"
proof (induction evs arbitrary: p)
  case (Cons ev evs)
  then show ?case using on_event_fault [of ev p e] by (cases "on_event ev p") auto
qed simp

lemma RequestParser_execute_cases:
  assumes "rp_ready p" "length data < 2 ^ 31"
  obtains e where "RequestParser_execute data p = Inl e" "e = LogicError \<or> e = BadPointer"
  | n p' where "RequestParser_execute data p = Inr (n, drop n data, p')"
    "RequestParser_isFinished p' = 0 \<Longrightarrow> data \<noteq> [] \<Longrightarrow> n = length data \<and> rp_ready p'"
proof (cases "data = []")
  case True
  then have "RequestParser_execute data p = Inr (0, [], p\<lparr>rp_parser := rp_parser p\<rparr>)"
    by (simp add: RequestParser_execute_def http_parser_execute_def)
  then show thesis using that(2) [of 0] True by simp
next
  case False
  obtain n Q evs where e: "http_parser_execute (rp_parser p) data 0 = Inr (n, Q, evs)" "http_parser_typed Q"
    "http_parser_finish Q = 0 \<Longrightarrow> n = length data"
    using http11_call [OF _ _ False assms(2)] assms(1) unfolding rp_ready_def by metis
  show thesis
  proof (cases "on_events evs p")
    case (Inl f)
    then show thesis using that(1) on_events_fault [OF Inl] e(1) by (simp add: RequestParser_execute_def)
  next
    case (Inr p1)
    then have "RequestParser_execute data p = Inr (n, drop n data, p1\<lparr>rp_parser := Q\<rparr>)"
      using e(1) by (simp add: RequestParser_execute_def)
    then show thesis
      using that(2) [of n "p1\<lparr>rp_parser := Q\<rparr>"] e(2,3)
      by (simp add: RequestParser_isFinished_def rp_ready_def http_parser_finish_def split: if_splits)
  qed
qed

subsection \<open>Reading back what \<open>dump\<close> prints\<close>

definition connection_field :: "bool \<Rightarrow> u8 list \<times> u8 list" where
  "connection_field close = (lit ''connection'', if close then lit ''close'' else lit ''keep-alive'')"

definition is_connection :: "u8 list \<times> u8 list \<Rightarrow> bool" where
  "is_connection i \<longleftrightarrow> strcasecmp (c_str (fst i)) (lit ''connection'') = 0"

definition length_field :: "u8 list \<Rightarrow> (u8 list \<times> u8 list) list" where
  "length_field body = (if body = [] then [] else [(lit ''content-length'', show_nat (length body))])"

text \<open>The header lines of a printed request, in order.\<close>

definition printed_fields :: "HttpRequest \<Rightarrow> (u8 list \<times> u8 list) list" where
  "printed_fields r = (if m_websocket r then m_headers r
     else connection_field (m_close r) # filter (\<lambda>i. \<not> is_connection i) (m_headers r)) @ length_field (m_body r)"

lemma header_line_field: "header_line h = field_line h"
  by (simp add: header_line_def field_line_def crlf_def lit_def)

lemma dump_headers_fields:
  "dump_headers w hs = concat (map field_line (if w then hs else filter (\<lambda>i. \<not> is_connection i) hs))"
  by (induction hs) (simp_all add: dump_headers_def is_connection_def header_line_field)

lemma dump_connection_field: "dump_connection w close = (if w then [] else field_line (connection_field close))"
  by (simp add: dump_connection_def field_line_def connection_field_def crlf_def lit_def)

lemma dump_body_field: "dump_body b = concat (map field_line (length_field b)) @ [0x0D, 0x0A] @ b"
  by (simp add: dump_body_def length_field_def field_line_def crlf_def lit_def)

definition version_digit :: "u8 \<Rightarrow> u8" where
  "version_digit v = (if v = 0x11 then 0x31 else 0x30)"

lemma show_version_digit: "v = 0x11 \<or> v = 0x10 \<Longrightarrow> show_version v = lit ''1.'' @ [version_digit v]"
  by (auto simp: show_version_def version_digit_def show_nat.simps [of "Suc 0"] show_nat.simps [of 0] lit_def)

lemma dump_request_head:
  assumes "m_version r = 0x11 \<or> m_version r = 0x10"
  shows "HttpRequest_dump r = request_head (HttpMethodToString (m_method r)) (m_path r) (m_query r) (m_fragment r)
     (version_digit (m_version r)) (printed_fields r) @ m_body r"
  using show_version_digit [OF assms]
  by (simp add: HttpRequest_dump_def request_head_def target_text_def dump_headers_fields dump_connection_field
      dump_body_field printed_fields_def crlf_def lit_def)

text \<open>
  The requests that can be read back. The grammar has no method with a hyphen, so \<open>M-SEARCH\<close>
  is not among them.
\<close>

definition printable :: "HttpRequest \<Rightarrow> bool" where
  "printable r \<longleftrightarrow> m_method r \<noteq> INVALID_METHOD \<and> m_method r \<noteq> MSEARCH \<and> (m_version r = 0x11 \<or> m_version r = 0x10) \<and>
     path_ok (m_path r) \<and> uri_text query_char (m_query r) \<and> uri_text query_char (m_fragment r) \<and>
     list_all field_ok (m_headers r) \<and> sorted_wrt (\<lambda>a b. CaseInsensitiveLess (fst a) (fst b)) (m_headers r)"

lemma method_table_chars:
  "list_all (\<lambda>(num, name, str). name = MSEARCH \<or> list_all method_char (lit str) \<and> str \<noteq> [] \<and> length str \<le> 20) HTTP_METHOD_MAP"
  by code_simp

lemma method_chars:
  assumes "m \<noteq> INVALID_METHOD" "m \<noteq> MSEARCH"
  shows "list_all method_char (HttpMethodToString m) \<and> HttpMethodToString m \<noteq> [] \<and> length (HttpMethodToString m) \<le> 20"
proof -
  obtain num str where e: "(num, m, str) \<in> set HTTP_METHOD_MAP" "HttpMethodToString m = lit str"
    using method_string [OF assms(1)] by metis
  then show ?thesis
    using bspec [OF method_table_chars [unfolded list_all_iff] e(1), unfolded prod.case] assms(2)
    by (simp add: list_all_iff)
qed

lemma digit_value: "list_all value_char (show_nat n) \<and> (case show_nat n of [] \<Rightarrow> True | c # _ \<Rightarrow> c \<noteq> 0x20 \<and> c \<noteq> 0x09)"
proof -
  have "value_char c \<and> c \<noteq> 0x20 \<and> c \<noteq> 0x09" if "c \<in> set (show_nat n)" for c
    using show_nat_digit [OF that] by (auto simp: value_char_def word_le_def)
  then show ?thesis by (auto simp: list_all_iff split: list.splits)
qed

lemma printed_fields_ok: "list_all field_ok (m_headers r) \<Longrightarrow> list_all field_ok (printed_fields r)"
proof -
  have "field_ok (connection_field True)" "field_ok (connection_field False)" by code_simp+
  then have "field_ok (connection_field c)" for c by (cases c) simp_all
  moreover have "field_ok (lit ''content-length'', show_nat n)" for n
  proof -
    have "list_all token_char (lit ''content-length'')" by code_simp
    then show ?thesis using digit_value [of n] by (simp add: field_ok_def)
  qed
  ultimately show "list_all field_ok (m_headers r) \<Longrightarrow> list_all field_ok (printed_fields r)"
    by (auto simp: printed_fields_def length_field_def list_all_iff)
qed

lemma printable_head:
  assumes "printable r"
  shows "request_head_ok (HttpMethodToString (m_method r)) (m_path r) (m_query r) (m_fragment r)
     (version_digit (m_version r)) (printed_fields r)"
  using assms method_chars [of "m_method r"] printed_fields_ok [of r]
  by (auto simp: printable_def request_head_ok_def version_digit_def)

text \<open>The header map that a sequence of field callbacks builds: the last line of a name counts.\<close>

lemma fold_field_calls:
  "fold apply_call (field_calls fs) r = r\<lparr>m_headers := fold (\<lambda>(k, v). MapType_set k v) fs (m_headers r)\<rparr>"
  by (induction fs arbitrary: r) (auto simp: field_calls_def apply_call_def HttpRequest_setHeader_def)

lemma find_fold_set:
  "headers.keys_ordered m \<Longrightarrow> MapType_find key (fold (\<lambda>(k, v). MapType_set k v) fs m) =
     (case first_named key (rev fs) of Some v \<Rightarrow> Some v | None \<Rightarrow> MapType_find key m)"
proof (induction fs arbitrary: m)
  case (Cons f fs)
  obtain k v where f: "f = (k, v)" by fastforce
  have "first_named key [(k, v)] = (if same_name k key then Some v else None)" by (simp add: first_named_def)
  then show ?case
    using Cons.IH [OF headers.set_ordered [OF Cons.prems], of k v] find_set_name [OF Cons.prems, of key k v]
    by (simp add: f first_named_append split: option.split)
qed (simp add: first_named_def)

lemma first_named_SomeD: "first_named key hs = Some v \<Longrightarrow> \<exists>e\<in>set hs. same_name (fst e) key \<and> snd e = v"
  by (induction hs) (auto simp: first_named_def split: if_splits)

lemma first_named_NoneD: "first_named key hs = None \<Longrightarrow> e \<in> set hs \<Longrightarrow> \<not> same_name (fst e) key"
  by (induction hs) (auto simp: first_named_def split: if_splits)

lemma same_name_sym: "same_name a b \<longleftrightarrow> same_name b a"
  by (auto simp: same_name_def)

text \<open>In an ordered map the direction of the search does not matter.\<close>

lemma first_named_ordered:
  assumes "headers.keys_ordered hs" "set hs' = set hs"
  shows "first_named key hs' = MapType_find key hs"
proof -
  have m: "MapType_find key hs = Some v \<longleftrightarrow> (\<exists>e\<in>set hs. same_name (fst e) key \<and> snd e = v)" for v
    using headers.find_mem [OF assms(1), of key v] same_iff same_name_sym by auto
  show ?thesis
  proof (cases "first_named key hs'")
    case None
    then show ?thesis using first_named_NoneD [OF None] m assms(2) by (cases "MapType_find key hs") auto
  next
    case (Some v)
    then have "MapType_find key hs = Some v" using first_named_SomeD [OF Some] m assms(2) by simp
    then show ?thesis using Some by simp
  qed
qed

lemma is_connection_name: "is_connection i \<longleftrightarrow> same_name (fst i) (lit ''connection'')"
proof -
  have "no_nul (lit ''connection'')" using lit_no_nul [of "''connection''"] by simp
  moreover have "c_str (lit ''connection'') = lit ''connection''" by code_simp
  ultimately show ?thesis
    using strcasecmp_zero [of "c_str (fst i)" "lit ''connection''"] by (simp add: is_connection_def same_name_def)
qed

lemma find_without_connection:
  assumes "headers.keys_ordered hs"
  shows "MapType_find key (filter (\<lambda>i. \<not> is_connection i) hs) =
    (if same_name key (lit ''connection'') then None else MapType_find key hs)"
proof -
  have "filter (\<lambda>i. \<not> is_connection i) hs = MapType_erase (lit ''connection'') hs"
    unfolding map_erase_def is_connection_name using same_iff by (intro filter_cong) auto
  then show ?thesis using find_erase_name [OF assms, of key "lit ''connection''"] same_name_sym by auto
qed

lemma find_printed_fields:
  assumes "headers.keys_ordered (m_headers r)"
  shows "first_named key (rev (printed_fields r)) =
    (if m_body r \<noteq> [] \<and> same_name key (lit ''content-length'') then Some (show_nat (length (m_body r)))
     else if \<not> m_websocket r \<and> same_name key (lit ''connection'') then Some (snd (connection_field (m_close r)))
     else MapType_find key (m_headers r))"
proof -
  have one: "first_named key [(k, v)] = (if same_name key k then Some v else None)" for k v
    by (simp add: first_named_def same_name_sym)
  have f: "first_named key (rev (filter (\<lambda>i. \<not> is_connection i) (m_headers r))) =
      (if same_name key (lit ''connection'') then None else MapType_find key (m_headers r))"
    unfolding find_without_connection [OF assms, symmetric]
    by (rule first_named_ordered) (simp_all add: sorted_wrt_filter assms)
  have w: "first_named key (rev (m_headers r)) = MapType_find key (m_headers r)"
    by (rule first_named_ordered [OF assms]) simp
  have n: "first_named key [] = None" by (simp add: first_named_def)
  show ?thesis
    by (simp add: printed_fields_def length_field_def first_named_append f w one n connection_field_def split: option.split)
qed

lemma parse_printed:
  assumes "printable r" "length (HttpRequest_dump r) < 2 ^ 31"
  obtains P where "http_parser_finish P = 1" "\<not> http_parser_has_error P"
    "RequestParser_execute (HttpRequest_dump r) (new_HttpRequestParser mem) =
      Inr (length (HttpRequest_dump r) - length (m_body r), m_body r,
        \<lparr>rp_parser = P, rp_data = (HttpRequest_ctor 0x11 True)\<lparr>m_method := m_method r, m_path := m_path r, m_query := m_query r,
           m_fragment := m_fragment r, m_version := m_version r,
           m_headers := fold (\<lambda>(k, v). MapType_set k v) (printed_fields r) []\<rparr>, rp_error = 0\<rparr>)"
proof -
  have v: "m_version r = 0x11 \<or> m_version r = 0x10" and mt: "m_method r \<noteq> INVALID_METHOD"
    using assms(1) by (auto simp: printable_def)
  note d = dump_request_head [OF v]
  let ?calls = "line_calls (HttpMethodToString (m_method r)) (m_path r) (m_query r) (m_fragment r) (version_digit (m_version r))
    @ field_calls (printed_fields r) @ [(''header_done'', [m_body r])]"
  let ?head = "request_head (HttpMethodToString (m_method r)) (m_path r) (m_query r) (m_fragment r) (version_digit (m_version r)) (printed_fields r)"
  have len: "length (?head @ m_body r) < 2 ^ 31" using assms(2) by (simp add: d)
  obtain P evs where y: "http_parser_execute (http_parser_init mem) (?head @ m_body r) 0 = Inr (length ?head, P, evs)"
    "http_parser_finish P = 1" "map event_text evs = ?calls" "list_all event_in_range evs"
    by (rule execute_request [OF printable_head [OF assms(1)] len, of mem])
  have n: "length ?head = length (HttpRequest_dump r) - length (m_body r)" unfolding d by simp
  have x: "http_parser_execute (http_parser_init mem) (HttpRequest_dump r) 0 =
      Inr (length (HttpRequest_dump r) - length (m_body r), P, evs)"
    using y(1) unfolding n unfolding d .
  have vt: "lit ''HTTP/1.'' @ [version_digit (m_version r)] = lit (if m_version r = 0x11 then ''HTTP/1.1'' else ''HTTP/1.0'')"
    by (simp add: version_digit_def lit_def)
  have "list_all field_ok (printed_fields r)" using assms(1) by (simp add: printable_def printed_fields_ok)
  then have "list_all call_ok (field_calls (printed_fields r))"
    by (auto simp: list_all_iff field_calls_def call_ok_def field_ok_def)
  moreover have "list_all call_ok (line_calls (HttpMethodToString (m_method r)) (m_path r) (m_query r) (m_fragment r) (version_digit (m_version r)))"
    using mt by (auto simp: line_calls_def call_ok_def vt)
  ultimately have "list_all call_ok (map event_text evs)" by (simp add: y(3) call_ok_def)
  from on_events_text [OF y(4) this] have "on_events evs (new_HttpRequestParser mem) =
      Inr ((new_HttpRequestParser mem)\<lparr>rp_data := fold apply_call ?calls (HttpRequest_ctor 0x11 True)\<rparr>)"
    by (simp add: y(3) new_HttpRequestParser_def)
  moreover have "fold apply_call ?calls (HttpRequest_ctor 0x11 True) = (HttpRequest_ctor 0x11 True)\<lparr>m_method := m_method r, m_path := m_path r,
      m_query := m_query r, m_fragment := m_fragment r, m_version := m_version r,
      m_headers := fold (\<lambda>(k, v). MapType_set k v) (printed_fields r) []\<rparr>"
    using http_method_names [OF mt] v vt by (auto simp: line_calls_def apply_call_def fold_field_calls HttpRequest_ctor_def)
  moreover have "drop (length (HttpRequest_dump r) - length (m_body r)) (HttpRequest_dump r) = m_body r" by (simp add: d)
  ultimately show thesis
    using that [OF y(2)] x y(2)
    by (simp add: RequestParser_execute_def new_HttpRequestParser_def http_parser_finish_def split: if_splits)
qed

subsection \<open>Properties of the request parser\<close>

text \<open>
  Property C3. A printed request is read back: one call of \<open>execute\<close> on what \<open>HttpRequest::dump\<close> prints for a
  request with a legal method, target, version and headers finishes without error, leaves
  exactly the body unparsed, and yields a request with the same method, version, path, query
  and fragment, and with the same headers up to case, where the connection header tells the
  printed \<open>close\<close> flag and the content length the size of the body.
\<close>

theorem http_request_roundtrip:
  assumes "printable r" "length (HttpRequest_dump r) < 2 ^ 31"
  shows "\<exists>p. RequestParser_execute (HttpRequest_dump r) (new_HttpRequestParser mem) =
      Inr (length (HttpRequest_dump r) - length (m_body r), m_body r, p) \<and>
    RequestParser_isFinished p = 1 \<and> \<not> RequestParser_hasError p \<and>
    m_method (rp_data p) = m_method r \<and> m_version (rp_data p) = m_version r \<and> m_path (rp_data p) = m_path r \<and>
    m_query (rp_data p) = m_query r \<and> m_fragment (rp_data p) = m_fragment r \<and>
    (\<forall>key def. HttpRequest_getHeader (rp_data p) key def =
      (if m_body r \<noteq> [] \<and> same_name key (lit ''content-length'') then show_nat (length (m_body r))
       else if \<not> m_websocket r \<and> same_name key (lit ''connection'') then (if m_close r then lit ''close'' else lit ''keep-alive'')
       else HttpRequest_getHeader r key def))"
proof -
  obtain P where x: "http_parser_finish P = 1" "\<not> http_parser_has_error P"
    "RequestParser_execute (HttpRequest_dump r) (new_HttpRequestParser mem) =
      Inr (length (HttpRequest_dump r) - length (m_body r), m_body r,
        \<lparr>rp_parser = P, rp_data = (HttpRequest_ctor 0x11 True)\<lparr>m_method := m_method r, m_path := m_path r, m_query := m_query r,
           m_fragment := m_fragment r, m_version := m_version r,
           m_headers := fold (\<lambda>(k, v). MapType_set k v) (printed_fields r) []\<rparr>, rp_error = 0\<rparr>)"
    by (rule parse_printed [OF assms])
  have "headers.keys_ordered (m_headers r)" using assms(1) by (simp add: printable_def)
  note f = find_printed_fields [OF this]
  have "MapType_find key (fold (\<lambda>(k, v). MapType_set k v) (printed_fields r) []) = first_named key (rev (printed_fields r))" for key
    using find_fold_set [of "[]" key "printed_fields r"] by (simp add: map_find_def split: option.split)
  then show ?thesis
    using x by (simp add: RequestParser_isFinished_def RequestParser_hasError_def HttpRequest_getHeader_def f
        or_default_def connection_field_def)
qed

definition sample_request :: HttpRequest where
  "sample_request = (HttpRequest_ctor 0x11 False)\<lparr>m_method := POST, m_path := lit ''/a%20b'', m_query := lit ''q=1'',
     m_headers := [(lit ''Host'', lit ''h'')], m_body := [1, 2]\<rparr>"

theorem http_request_roundtrip_witness:
  "\<exists>p. RequestParser_execute (HttpRequest_dump sample_request) (new_HttpRequestParser sample_mem) =
      Inr (length (HttpRequest_dump sample_request) - length (m_body sample_request), m_body sample_request, p) \<and>
    m_method (rp_data p) = POST \<and> HttpRequest_getHeader (rp_data p) (lit ''HOST'') [] = lit ''h''"
proof -
  have "printable sample_request" by code_simp
  moreover have "length (HttpRequest_dump sample_request) < 1000" by code_simp
  then have "length (HttpRequest_dump sample_request) < 2 ^ 31" by simp
  moreover have "HttpRequest_getHeader sample_request (lit ''HOST'') [] = lit ''h''"
    "\<not> same_name (lit ''HOST'') (lit ''content-length'')" "\<not> same_name (lit ''HOST'') (lit ''connection'')"
    "m_method sample_request = POST"
    by code_simp+
  ultimately show ?thesis using http_request_roundtrip [of sample_request sample_mem] by auto
qed

text \<open>
  Property C38. A request that arrives in two reads is not always read back. When the reads meet inside the
  path, the request is accepted with the part behind the cut as its path: the mark of its
  beginning is reset to the start of the second buffer.
\<close>

theorem request_cut_in_path:
  assumes m: "m \<noteq> INVALID_METHOD" "m \<noteq> MSEARCH"
    and s: "uri_text path_char s1" "s1 \<noteq> []" "hd s1 \<noteq> 0x2F" "uri_text path_char s2"
    and len: "length (HttpMethodToString m @ [0x20, 0x2F] @ s1) < 2 ^ 31" "length (s2 @ [0x20] @ version_end 0x31 @ body) < 2 ^ 31"
  shows "\<exists>p1 p2. RequestParser_execute (HttpMethodToString m @ [0x20, 0x2F] @ s1) (new_HttpRequestParser mem) =
      Inr (length (HttpMethodToString m @ [0x20, 0x2F] @ s1), [], p1) \<and>
    RequestParser_execute (s2 @ [0x20] @ version_end 0x31 @ body) p1 = Inr (length s2 + 13, body, p2) \<and>
    RequestParser_isFinished p2 = 1 \<and> \<not> RequestParser_hasError p2 \<and>
    m_method (rp_data p2) = m \<and> m_path (rp_data p2) = s2"
proof -
  have mc: "list_all method_char (HttpMethodToString m)" "HttpMethodToString m \<noteq> []" "length (HttpMethodToString m) \<le> 20"
    using method_chars [OF m] by simp_all
  obtain P1 evs1 P2 evs2 where x:
    "http_parser_execute (http_parser_init mem) (HttpMethodToString m @ [0x20, 0x2F] @ s1) 0 =
       Inr (length (HttpMethodToString m @ [0x20, 0x2F] @ s1), P1, evs1)"
    "http_parser_execute P1 (s2 @ [0x20] @ version_end 0x31 @ body) 0 = Inr (length s2 + 13, P2, evs2)"
    "http_parser_finish P2 = 1"
    "map event_text (evs1 @ evs2) = [(''request_method'', [HttpMethodToString m]), (''request_path'', [s2]), (''request_uri'', [s2]),
      (''http_version'', [lit ''HTTP/1.'' @ [0x31]]), (''header_done'', [body])]"
    "list_all event_in_range (evs1 @ evs2)"
    using execute_split_path [OF mc s disjI2 [OF refl] len, of mem] by (elim exE conjE) (rule that)
  have v: "lit ''HTTP/1.'' @ [0x31] = lit ''HTTP/1.1''" by (simp add: lit_def)
  have c: "list_all call_ok (map event_text (evs1 @ evs2))" unfolding x(4) v using m(1) by (auto simp: call_ok_def)
  let ?r = "\<lambda>evs. fold apply_call (map event_text evs)"
  have e1: "on_events evs1 (new_HttpRequestParser mem) =
      Inr ((new_HttpRequestParser mem)\<lparr>rp_data := ?r evs1 (HttpRequest_ctor 0x11 True)\<rparr>)"
    using on_events_text [of evs1 "new_HttpRequestParser mem"] x(5) c by (simp add: new_HttpRequestParser_def)
  have e2: "on_events evs2 p = Inr (p\<lparr>rp_data := ?r evs2 (rp_data p)\<rparr>)" for p
    using on_events_text [of evs2 p] x(5) c by simp
  have "?r evs2 (?r evs1 (HttpRequest_ctor 0x11 True)) = ?r (evs1 @ evs2) (HttpRequest_ctor 0x11 True)" by simp
  also have "\<dots> = (HttpRequest_ctor 0x11 True)\<lparr>m_method := m, m_path := s2\<rparr>"
    unfolding x(4) v using http_method_names [OF m(1)] by (simp add: apply_call_def HttpRequest_ctor_def)
  finally have f: "?r evs2 (?r evs1 (HttpRequest_ctor 0x11 True)) = \<dots>" .
  have "RequestParser_execute (HttpMethodToString m @ [0x20, 0x2F] @ s1) (new_HttpRequestParser mem) =
      Inr (length (HttpMethodToString m @ [0x20, 0x2F] @ s1), [],
        \<lparr>rp_parser = P1, rp_data = ?r evs1 (HttpRequest_ctor 0x11 True), rp_error = 0\<rparr>)"
    using x(1) e1 by (simp add: RequestParser_execute_def new_HttpRequestParser_def)
  moreover have "drop (length s2 + 13) (s2 @ [0x20] @ version_end 0x31 @ body) = body" by (simp add: version_end_def lit_def)
  then have "RequestParser_execute (s2 @ [0x20] @ version_end 0x31 @ body)
      \<lparr>rp_parser = P1, rp_data = ?r evs1 (HttpRequest_ctor 0x11 True), rp_error = 0\<rparr> =
      Inr (length s2 + 13, body, \<lparr>rp_parser = P2, rp_data = (HttpRequest_ctor 0x11 True)\<lparr>m_method := m, m_path := s2\<rparr>, rp_error = 0\<rparr>)"
    using x(2) e2 f by (simp add: RequestParser_execute_def)
  ultimately show ?thesis
    using x(3) by (simp add: RequestParser_isFinished_def RequestParser_hasError_def http_parser_finish_def split: if_splits)
qed

theorem request_cut_in_path_witness:
  "\<exists>p1 p2. RequestParser_execute (HttpMethodToString GET @ [0x20, 0x2F] @ lit ''ind'') (new_HttpRequestParser sample_mem) =
      Inr (length (HttpMethodToString GET @ [0x20, 0x2F] @ lit ''ind''), [], p1) \<and>
    RequestParser_execute (lit ''ex'' @ [0x20] @ version_end 0x31 @ []) p1 = Inr (length (lit ''ex'') + 13, [], p2) \<and>
    RequestParser_isFinished p2 = 1 \<and> \<not> RequestParser_hasError p2 \<and>
    m_method (rp_data p2) = GET \<and> m_path (rp_data p2) = lit ''ex''"
proof (rule request_cut_in_path)
  show "uri_text path_char (lit ''ind'')" "uri_text path_char (lit ''ex'')" by code_simp+
  show "length (HttpMethodToString GET @ [0x20, 0x2F] @ lit ''ind'') < 2 ^ 31"
    using method_chars [of GET] by simp
qed (simp_all add: lit_def version_end_def)

text \<open>
  When the reads meet inside the query, and the rest of it is shorter than what came before
  it, the query callback builds a string of negative length and throws \<open>std::length_error\<close>: the
  start of the query is still its position in the first buffer.
\<close>

theorem request_cut_in_query:
  assumes m: "m \<noteq> INVALID_METHOD" "m \<noteq> MSEARCH" and path: "path_ok path"
    and q: "uri_text query_char q1" "q1 \<noteq> []" "uri_text query_char q2" "length q2 < length (HttpMethodToString m) + length path + 2"
    and len: "length (HttpMethodToString m @ [0x20] @ path @ 0x3F # q1) < 2 ^ 31" "length (q2 @ [0x20] @ version_end 0x31 @ body) < 2 ^ 31"
  shows "\<exists>p1. RequestParser_execute (HttpMethodToString m @ [0x20] @ path @ 0x3F # q1) (new_HttpRequestParser mem) =
      Inr (length (HttpMethodToString m @ [0x20] @ path @ 0x3F # q1), [], p1) \<and>
    RequestParser_execute (q2 @ [0x20] @ version_end 0x31 @ body) p1 = Inl LogicError"
proof -
  have mc: "list_all method_char (HttpMethodToString m)" "HttpMethodToString m \<noteq> []" "length (HttpMethodToString m) \<le> 20"
    using method_chars [OF m] by simp_all
  let ?n = "2 ^ 64 - (length (HttpMethodToString m) + length path + 2 - length q2)"
  obtain P1 evs1 P2 evs2 at where x:
    "http_parser_execute (http_parser_init mem) (HttpMethodToString m @ [0x20] @ path @ 0x3F # q1) 0 =
      Inr (length (HttpMethodToString m @ [0x20] @ path @ 0x3F # q1), P1, evs1)"
    "map event_text evs1 = [(''request_method'', [HttpMethodToString m]), (''request_path'', [path])]" "list_all event_in_range evs1"
    "http_parser_execute P1 (q2 @ [0x20] @ version_end 0x31 @ body) 0 =
      Inr (length q2 + 13, P2, Ev_query_string at ?n # evs2)" "length at \<le> length (q2 @ [0x20] @ version_end 0x31 @ body)"
    using execute_split_query [OF mc path q disjI2 [OF refl] len, of mem] by (elim exE conjE) (rule that)
  have c: "list_all call_ok (map event_text evs1)" unfolding x(2) using m(1) by (auto simp: call_ok_def)
  have "RequestParser_execute (HttpMethodToString m @ [0x20] @ path @ 0x3F # q1) (new_HttpRequestParser mem) =
      Inr (length (HttpMethodToString m @ [0x20] @ path @ 0x3F # q1), [],
        (new_HttpRequestParser mem)\<lparr>rp_data := fold apply_call (map event_text evs1) (HttpRequest_ctor 0x11 True), rp_parser := P1\<rparr>)"
    using x(1) on_events_text [OF x(3) c, of "new_HttpRequestParser mem"]
    by (simp add: RequestParser_execute_def new_HttpRequestParser_def)
  moreover have "?n \<ge> 2 ^ 62" "length at < ?n" using x(5) len mc by auto
  then have "std_string at ?n = Inl LogicError" by (simp add: std_string_def)
  then have "RequestParser_execute (q2 @ [0x20] @ version_end 0x31 @ body) p = Inl LogicError" if "rp_parser p = P1" for p
    using x(4) that by (simp add: RequestParser_execute_def on_request_query_def)
  ultimately show ?thesis by simp
qed

theorem request_cut_in_query_witness:
  "\<exists>p1. RequestParser_execute (HttpMethodToString GET @ [0x20] @ lit ''/'' @ 0x3F # lit ''a='') (new_HttpRequestParser sample_mem) =
      Inr (length (HttpMethodToString GET @ [0x20] @ lit ''/'' @ 0x3F # lit ''a=''), [], p1) \<and>
    RequestParser_execute (lit ''b'' @ [0x20] @ version_end 0x31 @ []) p1 = Inl LogicError"
proof (rule request_cut_in_query)
  show "path_ok (lit ''/'')" "uri_text query_char (lit ''a='')" "uri_text query_char (lit ''b'')" by code_simp+
  show "length (HttpMethodToString GET @ [0x20] @ lit ''/'' @ 0x3F # lit ''a='') < 2 ^ 31"
    using method_chars [of GET] by simp
qed (simp_all add: lit_def version_end_def)

end
