(* ===== verification/Civan_Servlet.thy ===== *)
theory Civan_Servlet
  imports Civan_Http
begin

section \<open>Servlets: \<open>civan/http/servlet.cc\<close> and \<open>servlet.h\<close>\<close>

text \<open>
  The servlet dispatcher of the HTTP server: exact paths in \<open>m_datas\<close>, shell patterns
  in \<open>m_globs\<close> in the order they were added, and a default. A servlet is its virtual
  \<open>handle\<close>; \<open>Servlet::ptr\<close> may be null, which is \<open>None\<close>. The C library's \<open>fnmatch\<close> is an
  argument: whether a pattern matches a path. The operations are serialised by
  \<open>m_mutex\<close>, so a history of the dispatcher is a list of operations.
\<close>

type_synonym 'se servlet_cb = "HttpRequest \<Rightarrow> HttpResponse \<Rightarrow> 'se \<Rightarrow> int \<times> HttpRequest \<times> HttpResponse \<times> 'se"

text \<open>\<open>UserServlet\<close> stands for a subclass a user of the library writes.\<close>

datatype 'se Servlet =
    FunctionServlet "'se servlet_cb"
  | NotFoundServlet bytes
  | UserServlet string "'se servlet_cb"

type_synonym 'se Servlet_ptr = "'se Servlet option"

fun getName :: "'se Servlet \<Rightarrow> string" where
  "getName (FunctionServlet cb) = ''FunctionServlet''"
| "getName (NotFoundServlet content) = ''NotFoundServlet''"
| "getName (UserServlet name cb) = name"

definition NotFoundServlet_content :: bytes where
  "NotFoundServlet_content = lit (concat
    [''<!DOCTYPE html>'',
     ''<html>'',
     ''<head>'',
     ''<title>Welcome to nginx!</title>'',
     ''<style>'',
     ''body {'',
     ''width: 35em;'',
     ''margin: 0 auto;'',
     ''font-family: Tahoma, Verdddddddddddana, Arial, sans-serif;'',
     ''    }'',
     ''</style>'',
     ''</head>'',
     ''<body>'',
     ''<h1>Welcomeddddddddddddddddddddddddddddddddddddddddd to nginx!</h1>'',
     ''<p>If you see this page, the nginxdddddddddddd web server is successfully installed and'',
     ''working. Further configuration is reqfdufffffffffffffffffffffffffffffffffffffffffffffffffffffffffffffffffffffffffffffffired.</p>'',
     ''<p>For online documentation and support please refer to'',
     ''<a href='',
     ''Commercial support is available at'',
     ''<a href='',
     ''<p><em>Thank you for using nginx.</em></p>'',
     ''</body>'',
     ''</html>''])"

definition new_NotFoundServlet :: "'se Servlet" where
  "new_NotFoundServlet = NotFoundServlet NotFoundServlet_content"

definition NotFoundServlet_handle :: "bytes \<Rightarrow> 'se servlet_cb" where
  "NotFoundServlet_handle content request response session =
     (0, request,
      (HttpResponse_setHeader (lit ''Content-Type'') (lit ''text/html'')
        (HttpResponse_setHeader (lit ''Server'') (lit ''civan/1.0.0'') (response\<lparr>r_status := 200\<rparr>)))\<lparr>r_body := content\<rparr>,
      session)"

fun Servlet_handle :: "'se Servlet \<Rightarrow> 'se servlet_cb" where
  "Servlet_handle (FunctionServlet cb) = cb"
| "Servlet_handle (NotFoundServlet content) = NotFoundServlet_handle content"
| "Servlet_handle (UserServlet name cb) = cb"

subsection \<open>The dispatcher\<close>

record 'se ServletDispatch =
  m_datas :: "bytes \<rightharpoonup> 'se Servlet_ptr"
  m_globs :: "(bytes \<times> 'se Servlet_ptr) list"
  m_default :: "'se Servlet_ptr"

definition new_ServletDispatch :: "'se ServletDispatch" where
  "new_ServletDispatch = \<lparr>m_datas = Map.empty, m_globs = [], m_default = Some new_NotFoundServlet\<rparr>"

definition addServlet :: "bytes \<Rightarrow> 'se Servlet_ptr \<Rightarrow> 'se ServletDispatch \<Rightarrow> 'se ServletDispatch" where
  "addServlet uri slt d = d\<lparr>m_datas := (m_datas d)(uri \<mapsto> slt)\<rparr>"

definition addServlet_cb :: "bytes \<Rightarrow> 'se servlet_cb \<Rightarrow> 'se ServletDispatch \<Rightarrow> 'se ServletDispatch" where
  "addServlet_cb uri cb d = d\<lparr>m_datas := (m_datas d)(uri \<mapsto> Some (FunctionServlet cb))\<rparr>"

text \<open>The loop that erases the first entry of that name and stops.\<close>

fun erase_first :: "bytes \<Rightarrow> (bytes \<times> 'a) list \<Rightarrow> (bytes \<times> 'a) list" where
  "erase_first uri [] = []"
| "erase_first uri (it # rest) = (if fst it = uri then rest else it # erase_first uri rest)"

definition addGlobServlet :: "bytes \<Rightarrow> 'se Servlet_ptr \<Rightarrow> 'se ServletDispatch \<Rightarrow> 'se ServletDispatch" where
  "addGlobServlet uri slt d = d\<lparr>m_globs := erase_first uri (m_globs d) @ [(uri, slt)]\<rparr>"

definition addGlobServlet_cb :: "bytes \<Rightarrow> 'se servlet_cb \<Rightarrow> 'se ServletDispatch \<Rightarrow> 'se ServletDispatch" where
  "addGlobServlet_cb uri cb d = addGlobServlet uri (Some (FunctionServlet cb)) d"

definition delServlet :: "bytes \<Rightarrow> 'se ServletDispatch \<Rightarrow> 'se ServletDispatch" where
  "delServlet uri d = d\<lparr>m_datas := (m_datas d)(uri := None)\<rparr>"

definition delGlobServlet :: "bytes \<Rightarrow> 'se ServletDispatch \<Rightarrow> 'se ServletDispatch" where
  "delGlobServlet uri d = d\<lparr>m_globs := erase_first uri (m_globs d)\<rparr>"

definition setDefault :: "'se Servlet_ptr \<Rightarrow> 'se ServletDispatch \<Rightarrow> 'se ServletDispatch" where
  "setDefault v d = d\<lparr>m_default := v\<rparr>"

definition getServlet :: "bytes \<Rightarrow> 'se ServletDispatch \<Rightarrow> 'se Servlet_ptr" where
  "getServlet uri d = (case m_datas d uri of None \<Rightarrow> None | Some slt \<Rightarrow> slt)"

definition getGlobServlet :: "bytes \<Rightarrow> 'se ServletDispatch \<Rightarrow> 'se Servlet_ptr" where
  "getGlobServlet uri d = (case find (\<lambda>it. fst it = uri) (m_globs d) of None \<Rightarrow> None | Some it \<Rightarrow> snd it)"

definition getMatchedServlet ::
  "(bytes \<Rightarrow> bytes \<Rightarrow> bool) \<Rightarrow> bytes \<Rightarrow> 'se ServletDispatch \<Rightarrow> 'se Servlet_ptr" where
  "getMatchedServlet fnmatch uri d = (case m_datas d uri of Some slt \<Rightarrow> slt
     | None \<Rightarrow> (case find (\<lambda>it. fnmatch (c_str (fst it)) (c_str uri)) (m_globs d) of
         Some it \<Rightarrow> snd it | None \<Rightarrow> m_default d))"

definition ServletDispatch_handle :: "(bytes \<Rightarrow> bytes \<Rightarrow> bool) \<Rightarrow> 'se ServletDispatch \<Rightarrow> 'se servlet_cb" where
  "ServletDispatch_handle fnmatch d request response session =
     (case getMatchedServlet fnmatch (m_path request) d of
        Some slt \<Rightarrow> (0, snd (Servlet_handle slt request response session))
      | None \<Rightarrow> (0, request, response, session))"

subsection \<open>Histories of the dispatcher and what they promise\<close>

datatype 'se dispatch_op =
    AddServlet bytes "'se Servlet_ptr"
  | AddServletCb bytes "'se servlet_cb"
  | AddGlob bytes "'se Servlet_ptr"
  | AddGlobCb bytes "'se servlet_cb"
  | DelServlet bytes
  | DelGlob bytes
  | SetDefault "'se Servlet_ptr"

fun run_op :: "'se dispatch_op \<Rightarrow> 'se ServletDispatch \<Rightarrow> 'se ServletDispatch" where
  "run_op (AddServlet uri slt) d = addServlet uri slt d"
| "run_op (AddServletCb uri cb) d = addServlet_cb uri cb d"
| "run_op (AddGlob uri slt) d = addGlobServlet uri slt d"
| "run_op (AddGlobCb uri cb) d = addGlobServlet_cb uri cb d"
| "run_op (DelServlet uri) d = delServlet uri d"
| "run_op (DelGlob uri) d = delGlobServlet uri d"
| "run_op (SetDefault v) d = setDefault v d"

definition dispatch_after :: "'se dispatch_op list \<Rightarrow> 'se ServletDispatch" where
  "dispatch_after ops = fold run_op ops new_ServletDispatch"

text \<open>
  The specification reads the history itself, latest operation first: an exact path
  is what was last said of it, and a pattern counts where it was last added unless it
  was deleted since.
\<close>

fun spec_exact :: "bytes \<Rightarrow> 'se dispatch_op list \<Rightarrow> 'se Servlet_ptr option" where
  "spec_exact uri [] = None"
| "spec_exact uri (AddServlet u slt # ops) = (if u = uri then Some slt else spec_exact uri ops)"
| "spec_exact uri (AddServletCb u cb # ops) = (if u = uri then Some (Some (FunctionServlet cb)) else spec_exact uri ops)"
| "spec_exact uri (DelServlet u # ops) = (if u = uri then None else spec_exact uri ops)"
| "spec_exact uri (_ # ops) = spec_exact uri ops"

fun spec_globs :: "bytes set \<Rightarrow> 'se dispatch_op list \<Rightarrow> (bytes \<times> 'se Servlet_ptr) list" where
  "spec_globs gone [] = []"
| "spec_globs gone (AddGlob u slt # ops) = (if u \<in> gone then spec_globs gone ops else (u, slt) # spec_globs (insert u gone) ops)"
| "spec_globs gone (AddGlobCb u cb # ops) =
     (if u \<in> gone then spec_globs gone ops else (u, Some (FunctionServlet cb)) # spec_globs (insert u gone) ops)"
| "spec_globs gone (DelGlob u # ops) = spec_globs (insert u gone) ops"
| "spec_globs gone (_ # ops) = spec_globs gone ops"

fun spec_default :: "'se dispatch_op list \<Rightarrow> 'se Servlet_ptr" where
  "spec_default [] = Some new_NotFoundServlet"
| "spec_default (SetDefault v # ops) = v"
| "spec_default (_ # ops) = spec_default ops"

lemma dispatch_after_snoc: "dispatch_after (ops @ [op]) = run_op op (dispatch_after ops)"
  by (simp add: dispatch_after_def)

lemmas dispatch_defs = addServlet_def addServlet_cb_def addGlobServlet_def addGlobServlet_cb_def
  delServlet_def delGlobServlet_def setDefault_def

lemma erase_first_filter: "distinct (map fst xs) \<Longrightarrow> erase_first u xs = filter (\<lambda>it. fst it \<noteq> u) xs"
proof (induction xs)
  case (Cons x xs)
  then have "fst x = u \<Longrightarrow> filter (\<lambda>it. fst it \<noteq> u) xs = xs" by (auto simp: filter_id_conv image_iff)
  with Cons show ?case by simp
qed simp

lemma spec_globs_gone: "spec_globs gone ops = filter (\<lambda>it. fst it \<notin> gone) (spec_globs {} ops)"
proof -
  have "spec_globs (g \<union> h) ops = filter (\<lambda>it. fst it \<notin> g) (spec_globs h ops)" for g h
  proof (induction h ops arbitrary: g rule: spec_globs.induct)
    case (2 h u slt ops)
    have "u \<in> g \<Longrightarrow> g \<union> insert u h = g \<union> h" by blast
    then show ?case using 2 by (cases "u \<in> h"; cases "u \<in> g") (simp_all flip: Un_insert_right, metis)
  next
    case (3 h u cb ops)
    have "u \<in> g \<Longrightarrow> g \<union> insert u h = g \<union> h" by blast
    then show ?case using 3 by (cases "u \<in> h"; cases "u \<in> g") (simp_all flip: Un_insert_right, metis)
  next
    case (4 h u ops)
    then show ?case by (simp flip: Un_insert_right)
  qed simp_all
  from this [of gone "{}"] show ?thesis by simp
qed

lemma dispatch_exact: "m_datas (dispatch_after ops) uri = spec_exact uri (rev ops)"
proof (induction ops rule: rev_induct)
  case (snoc op ops)
  then show ?case by (cases op) (simp_all add: dispatch_after_snoc dispatch_defs)
qed (simp add: dispatch_after_def new_ServletDispatch_def)

lemma dispatch_globs:
  "m_globs (dispatch_after ops) = rev (spec_globs {} (rev ops)) \<and> distinct (map fst (m_globs (dispatch_after ops)))"
proof (induction ops rule: rev_induct)
  case (snoc op ops)
  then show ?case
    by (cases op) (auto simp: dispatch_after_snoc dispatch_defs erase_first_filter spec_globs_gone [of "{_}"]
        rev_filter distinct_map_filter)
qed (simp add: dispatch_after_def new_ServletDispatch_def)

lemma dispatch_default: "m_default (dispatch_after ops) = spec_default (rev ops)"
proof (induction ops rule: rev_induct)
  case (snoc op ops)
  then show ?case by (cases op) (simp_all add: dispatch_after_snoc dispatch_defs)
qed (simp add: dispatch_after_def new_ServletDispatch_def)

subsection \<open>Properties of the dispatcher\<close>

text \<open>
  Property C31. After every history of registrations, the servlet for a path is the
  one the history specifies: an exact registration that stands wins over every
  pattern, then the pattern that has been registered longest without being deleted
  or registered anew, then the default.
\<close>

theorem servlet_dispatch_spec:
  "getMatchedServlet fnmatch uri (dispatch_after ops) =
     (case spec_exact uri (rev ops) of Some slt \<Rightarrow> slt
      | None \<Rightarrow> (case find (\<lambda>it. fnmatch (c_str (fst it)) (c_str uri)) (rev (spec_globs {} (rev ops))) of
          Some it \<Rightarrow> snd it | None \<Rightarrow> spec_default (rev ops)))"
  using dispatch_globs [of ops] 
  by (simp add: getMatchedServlet_def dispatch_exact dispatch_default cong: option.case_cong)

text \<open>
  The answer to an unknown path: a dispatcher on which nothing matches the
  request's path and no default was set answers with the built-in page, with status 200
  although the servlet is the one for pages that are not found; the other fields of the
  response are as before.
\<close>

theorem servlet_unknown_path:
  assumes "\<forall>op\<in>set ops. case op of SetDefault v \<Rightarrow> False | _ \<Rightarrow> True"
    and "spec_exact (m_path request) (rev ops) = None"
    and "\<forall>it\<in>set (spec_globs {} (rev ops)). \<not> fnmatch (c_str (fst it)) (c_str (m_path request))"
  shows "ServletDispatch_handle fnmatch (dispatch_after ops) request response session =
    (0, request, response\<lparr>r_status := 200, r_body := NotFoundServlet_content,
       r_headers := MapType_set (lit ''Content-Type'') (lit ''text/html'')
         (MapType_set (lit ''Server'') (lit ''civan/1.0.0'') (r_headers response))\<rparr>, session)"
proof -
  have "spec_default ops' = Some new_NotFoundServlet"
    if "\<forall>op\<in>set ops'. case op of SetDefault v \<Rightarrow> False | _ \<Rightarrow> True" for ops' :: "'a dispatch_op list"
    using that by (induction ops' rule: spec_default.induct) auto
  then have "spec_default (rev ops) = Some new_NotFoundServlet" using assms(1) by simp
  moreover have "find (\<lambda>it. fnmatch (c_str (fst it)) (c_str (m_path request))) (rev (spec_globs {} (rev ops))) = None"
    using assms(3) unfolding find_None_iff by auto
  ultimately show ?thesis
    using assms(2) dispatch_globs [of ops]
    by (simp add: ServletDispatch_handle_def getMatchedServlet_def dispatch_exact dispatch_default
        new_NotFoundServlet_def NotFoundServlet_handle_def HttpResponse_setHeader_def)
qed

theorem servlet_unknown_path_witness:
  "r_status (fst (snd (snd (ServletDispatch_handle (=) (dispatch_after [AddServlet (lit ''/a'') None])
     (HttpRequest_ctor 0x11 True) ((HttpResponse_ctor 0x11 True)\<lparr>r_status := 404\<rparr>) ())))) = 200"
  using servlet_unknown_path [of "[AddServlet (lit ''/a'') None]" "HttpRequest_ctor 0x11 True" "(=)"
    "(HttpResponse_ctor 0x11 True)\<lparr>r_status := 404\<rparr>" "()"]
  by (simp add: HttpRequest_ctor_def)

end
