(* ===== verification/Civan_Socket.thy ===== *)
theory Civan_Socket
  imports Civan_Prelude "HOL-Library.Signed_Division"
begin

section \<open>Sockets: \<open>civan/socket.cc\<close> and \<open>socket.h\<close>\<close>

text \<open>
  The class \<open>Socket\<close>: a descriptor that is created on demand, the connected flag and the
  two cached addresses. The system calls it makes (hooked or not) and the lookup of the
  descriptor manager are one argument, a record of functions on a system state \<open>'k\<close>; an
  address is a value of a type \<open>'a\<close> with a family, \<open>UnknownAddress\<close> of a family being
  given as well. What the socket relies on of the descriptor calls is \<open>sys_laws\<close>: \<open>socket\<close>
  and \<open>accept\<close> return \<open>-1\<close> or a descriptor that was not open, \<open>close\<close> closes its
  argument, and the other calls open and close nothing.
\<close>

record ('k, 'a) sys =
  sys_socket :: "int \<Rightarrow> int \<Rightarrow> int \<Rightarrow> 'k \<Rightarrow> int \<times> 'k"
  sys_accept :: "int \<Rightarrow> 'k \<Rightarrow> int \<times> 'k"
  sys_bind :: "int \<Rightarrow> 'a \<Rightarrow> 'k \<Rightarrow> int \<times> 'k"
  sys_connect :: "int \<Rightarrow> 'a \<Rightarrow> 'k \<Rightarrow> int \<times> 'k"
  sys_connect_with_timeout :: "int \<Rightarrow> 'a \<Rightarrow> u64 \<Rightarrow> 'k \<Rightarrow> int \<times> 'k"
  sys_listen :: "int \<Rightarrow> int \<Rightarrow> 'k \<Rightarrow> int \<times> 'k"
  sys_close :: "int \<Rightarrow> 'k \<Rightarrow> 'k"
  sys_send :: "int \<Rightarrow> u8 list \<Rightarrow> 'k \<Rightarrow> int \<times> 'k"
  sys_recv :: "int \<Rightarrow> nat \<Rightarrow> 'k \<Rightarrow> (int \<times> u8 list) \<times> 'k"
  sys_sendto :: "int \<Rightarrow> u8 list \<Rightarrow> 'a \<Rightarrow> 'k \<Rightarrow> int \<times> 'k"
  sys_recvfrom :: "int \<Rightarrow> nat \<Rightarrow> 'k \<Rightarrow> (int \<times> u8 list) \<times> 'k"
  sys_getpeername :: "int \<Rightarrow> 'k \<Rightarrow> 'a option"
  sys_getsockname :: "int \<Rightarrow> 'k \<Rightarrow> 'a option"
  sys_setsockopt :: "int \<Rightarrow> int \<Rightarrow> int \<Rightarrow> int list \<Rightarrow> 'k \<Rightarrow> int \<times> 'k"
  sys_getsockopt :: "int \<Rightarrow> int \<Rightarrow> int \<Rightarrow> 'k \<Rightarrow> int option"
  sys_fd_timeout :: "int \<Rightarrow> int \<Rightarrow> 'k \<Rightarrow> int option"
  sys_cancel_read :: "int \<Rightarrow> 'k \<Rightarrow> bool \<times> 'k"
  sys_cancel_write :: "int \<Rightarrow> 'k \<Rightarrow> bool \<times> 'k"
  sys_cancel_all :: "int \<Rightarrow> 'k \<Rightarrow> bool \<times> 'k"
  sys_fdmgr_socket :: "int \<Rightarrow> 'k \<Rightarrow> bool"
  addr_family :: "'a \<Rightarrow> int"
  UnknownAddress :: "int \<Rightarrow> 'a"

subsection \<open>The object\<close>

record 'a Socket =
  m_sock :: int
  m_family :: int
  m_type :: int
  m_protocol :: int
  m_isConnected :: bool
  m_localAddress :: "'a option"
  m_remoteAddress :: "'a option"

definition AF_UNIX :: int where "AF_UNIX = 1"
definition AF_INET :: int where "AF_INET = 2"
definition AF_INET6 :: int where "AF_INET6 = 10"
definition SOCK_STREAM :: int where "SOCK_STREAM = 1"
definition SOCK_DGRAM :: int where "SOCK_DGRAM = 2"
definition SOL_SOCKET :: int where "SOL_SOCKET = 1"
definition SO_REUSEADDR :: int where "SO_REUSEADDR = 2"
definition SO_ERROR :: int where "SO_ERROR = 4"
definition SO_RCVTIMEO :: int where "SO_RCVTIMEO = 20"
definition SO_SNDTIMEO :: int where "SO_SNDTIMEO = 21"
definition IPPROTO_TCP :: int where "IPPROTO_TCP = 6"
definition TCP_NODELAY :: int where "TCP_NODELAY = 1"

definition new_Socket :: "int \<Rightarrow> int \<Rightarrow> int \<Rightarrow> 'a Socket" where
  "new_Socket family type protocol = \<lparr>m_sock = -1, m_family = family, m_type = type, m_protocol = protocol,
     m_isConnected = False, m_localAddress = None, m_remoteAddress = None\<rparr>"

definition CreateTCP :: "('k, 'a) sys \<Rightarrow> 'a \<Rightarrow> 'a Socket" where
  "CreateTCP S address = new_Socket (addr_family S address) SOCK_STREAM 0"

definition CreateUDP :: "('k, 'a) sys \<Rightarrow> 'a \<Rightarrow> 'a Socket" where
  "CreateUDP S address = new_Socket (addr_family S address) SOCK_DGRAM 0"

definition CreateTCPSocket :: "'a Socket" where
  "CreateTCPSocket = new_Socket AF_INET SOCK_STREAM 0"

definition CreateUDPSocket :: "'a Socket" where
  "CreateUDPSocket = new_Socket AF_INET SOCK_DGRAM 0"

definition CreateTCPSocket6 :: "'a Socket" where
  "CreateTCPSocket6 = new_Socket AF_INET6 SOCK_STREAM 0"

definition CreateUDPSocket6 :: "'a Socket" where
  "CreateUDPSocket6 = new_Socket AF_INET6 SOCK_DGRAM 0"

definition CreateUninxTCPSocket :: "'a Socket" where
  "CreateUninxTCPSocket = new_Socket AF_UNIX SOCK_STREAM 0"

definition CreateUnixUDPSocket :: "'a Socket" where
  "CreateUnixUDPSocket = new_Socket AF_UNIX SOCK_DGRAM 0"

definition isValid :: "'a Socket \<Rightarrow> bool" where
  "isValid s \<longleftrightarrow> m_sock s \<noteq> -1"

text \<open>An option value is its list of fields: one integer, or the two of a \<open>timeval\<close>.\<close>

definition setOption :: "('k, 'a) sys \<Rightarrow> int \<Rightarrow> int \<Rightarrow> int list \<Rightarrow> 'a Socket \<Rightarrow> 'k \<Rightarrow> bool \<times> 'k" where
  "setOption S level opt val s k = (let (rt, k') = sys_setsockopt S (m_sock s) level opt val k in (rt = 0, k'))"

definition getOption :: "('k, 'a) sys \<Rightarrow> int \<Rightarrow> int \<Rightarrow> 'a Socket \<Rightarrow> 'k \<Rightarrow> int option" where
  "getOption S level opt s k = sys_getsockopt S (m_sock s) level opt k"

definition getError :: "('k, 'a) sys \<Rightarrow> 'a Socket \<Rightarrow> 'k \<Rightarrow> int" where
  "getError S s k = (case getOption S SOL_SOCKET SO_ERROR s k of None \<Rightarrow> -1 | Some error \<Rightarrow> error)"

definition timeval_of :: "int \<Rightarrow> int list" where
  "timeval_of v = [signed_take_bit 31 (v sdiv 1000), signed_take_bit 31 (v smod 1000 * 1000)]"

definition setSendTimeout :: "('k, 'a) sys \<Rightarrow> int \<Rightarrow> 'a Socket \<Rightarrow> 'k \<Rightarrow> bool \<times> 'k" where
  "setSendTimeout S v s k = setOption S SOL_SOCKET SO_SNDTIMEO (timeval_of v) s k"

definition setRecvTimeout :: "('k, 'a) sys \<Rightarrow> int \<Rightarrow> 'a Socket \<Rightarrow> 'k \<Rightarrow> bool \<times> 'k" where
  "setRecvTimeout S v s k = setOption S SOL_SOCKET SO_RCVTIMEO (timeval_of v) s k"

definition getSendTimeout :: "('k, 'a) sys \<Rightarrow> 'a Socket \<Rightarrow> 'k \<Rightarrow> int" where
  "getSendTimeout S s k = (case sys_fd_timeout S (m_sock s) SO_SNDTIMEO k of Some t \<Rightarrow> t | None \<Rightarrow> -1)"

definition getRecvTimeout :: "('k, 'a) sys \<Rightarrow> 'a Socket \<Rightarrow> 'k \<Rightarrow> int" where
  "getRecvTimeout S s k = (case sys_fd_timeout S (m_sock s) SO_RCVTIMEO k of Some t \<Rightarrow> t | None \<Rightarrow> -1)"

definition cancelRead :: "('k, 'a) sys \<Rightarrow> 'a Socket \<Rightarrow> 'k \<Rightarrow> bool \<times> 'k" where
  "cancelRead S s k = sys_cancel_read S (m_sock s) k"

definition cancelWrite :: "('k, 'a) sys \<Rightarrow> 'a Socket \<Rightarrow> 'k \<Rightarrow> bool \<times> 'k" where
  "cancelWrite S s k = sys_cancel_write S (m_sock s) k"

definition cancelAccept :: "('k, 'a) sys \<Rightarrow> 'a Socket \<Rightarrow> 'k \<Rightarrow> bool \<times> 'k" where
  "cancelAccept S s k = sys_cancel_read S (m_sock s) k"

definition Socket_cancelAll :: "('k, 'a) sys \<Rightarrow> 'a Socket \<Rightarrow> 'k \<Rightarrow> bool \<times> 'k" where
  "Socket_cancelAll S s k = sys_cancel_all S (m_sock s) k"

definition initSock :: "('k, 'a) sys \<Rightarrow> 'a Socket \<Rightarrow> 'k \<Rightarrow> 'k" where
  "initSock S s k = (let k1 = snd (setOption S SOL_SOCKET SO_REUSEADDR [1] s k) in
     if m_type s = SOCK_STREAM then snd (setOption S IPPROTO_TCP TCP_NODELAY [1] s k1) else k1)"

definition newSock :: "('k, 'a) sys \<Rightarrow> 'a Socket \<Rightarrow> 'k \<Rightarrow> 'a Socket \<times> 'k" where
  "newSock S s k = (let (fd, k1) = sys_socket S (m_family s) (m_type s) (m_protocol s) k;
       s' = s\<lparr>m_sock := fd\<rparr>
     in if fd \<noteq> -1 then (s', initSock S s' k1) else (s', k1))"

text \<open>The two getters cache what the system returned and leave the cache empty on failure.\<close>

definition getRemoteAddress :: "('k, 'a) sys \<Rightarrow> 'a Socket \<Rightarrow> 'k \<Rightarrow> 'a \<times> 'a Socket" where
  "getRemoteAddress S s k = (case m_remoteAddress s of Some a \<Rightarrow> (a, s)
     | None \<Rightarrow> (case sys_getpeername S (m_sock s) k of
         None \<Rightarrow> (UnknownAddress S (m_family s), s)
       | Some result \<Rightarrow> (result, s\<lparr>m_remoteAddress := Some result\<rparr>)))"

definition getLocalAddress :: "('k, 'a) sys \<Rightarrow> 'a Socket \<Rightarrow> 'k \<Rightarrow> 'a \<times> 'a Socket" where
  "getLocalAddress S s k = (case m_localAddress s of Some a \<Rightarrow> (a, s)
     | None \<Rightarrow> (case sys_getsockname S (m_sock s) k of
         None \<Rightarrow> (UnknownAddress S (m_family s), s)
       | Some result \<Rightarrow> (result, s\<lparr>m_localAddress := Some result\<rparr>)))"

definition Socket_init :: "('k, 'a) sys \<Rightarrow> int \<Rightarrow> 'a Socket \<Rightarrow> 'k \<Rightarrow> bool \<times> 'a Socket \<times> 'k" where
  "Socket_init S sock s k =
     (if sys_fdmgr_socket S sock k
      then let s1 = s\<lparr>m_sock := sock, m_isConnected := True\<rparr>;
               k1 = initSock S s1 k;
               s2 = snd (getLocalAddress S s1 k1);
               s3 = snd (getRemoteAddress S s2 k1)
           in (True, s3, k1)
      else (False, s, k))"

definition Socket_accept :: "('k, 'a) sys \<Rightarrow> 'a Socket \<Rightarrow> 'k \<Rightarrow> 'a Socket option \<times> 'k" where
  "Socket_accept S s k =
     (let sock = new_Socket (m_family s) (m_type s) (m_protocol s);
          (newsock, k1) = sys_accept S (m_sock s) k
      in if newsock = -1 then (None, k1)
         else let (ok, sock', k2) = Socket_init S newsock sock k1
              in if ok then (Some sock', k2) else (None, k2))"

definition Socket_close :: "('k, 'a) sys \<Rightarrow> 'a Socket \<Rightarrow> 'k \<Rightarrow> bool \<times> 'a Socket \<times> 'k" where
  "Socket_close S s k =
     (if \<not> m_isConnected s \<and> m_sock s = -1 then (True, s, k)
      else let s1 = s\<lparr>m_isConnected := False\<rparr>
           in if m_sock s \<noteq> -1 then (False, s1\<lparr>m_sock := -1\<rparr>, sys_close S (m_sock s) k) else (False, s1, k))"

text \<open>What \<open>bind\<close> and \<open>connect\<close> start with: a descriptor is created where there is none.\<close>

definition ensure_sock :: "('k, 'a) sys \<Rightarrow> 'a Socket \<Rightarrow> 'k \<Rightarrow> 'a Socket \<times> 'k" where
  "ensure_sock S s k = (if \<not> isValid s then newSock S s k else (s, k))"

definition connect_call :: "('k, 'a) sys \<Rightarrow> 'a \<Rightarrow> u64 \<Rightarrow> 'a Socket \<Rightarrow> 'k \<Rightarrow> int \<times> 'k" where
  "connect_call S addr timeout_ms s k =
     (if timeout_ms = -1 then sys_connect S (m_sock s) addr k
      else sys_connect_with_timeout S (m_sock s) addr timeout_ms k)"

definition Socket_bind :: "('k, 'a) sys \<Rightarrow> 'a \<Rightarrow> 'a Socket \<Rightarrow> 'k \<Rightarrow> bool \<times> 'a Socket \<times> 'k" where
  "Socket_bind S addr s k =
     (let (s1, k1) = ensure_sock S s k in
      if \<not> isValid s1 then (False, s1, k1)
      else if addr_family S addr \<noteq> m_family s1 then (False, s1, k1)
      else let (rt, k2) = sys_bind S (m_sock s1) addr k1
           in if rt \<noteq> 0 then (False, s1, k2) else (True, snd (getLocalAddress S s1 k2), k2))"

definition Socket_connect :: "('k, 'a) sys \<Rightarrow> 'a \<Rightarrow> u64 \<Rightarrow> 'a Socket \<Rightarrow> 'k \<Rightarrow> bool \<times> 'a Socket \<times> 'k" where
  "Socket_connect S addr timeout_ms s k =
     (let (s1, k1) = ensure_sock S s k in
      if \<not> isValid s1 then (False, s1, k1)
      else if addr_family S addr \<noteq> m_family s1 then (False, s1, k1)
      else let (rt, k2) = connect_call S addr timeout_ms s1 k1
           in if rt \<noteq> 0 then (False, snd (Socket_close S s1 k2))
              else let s2 = s1\<lparr>m_isConnected := True\<rparr>;
                       s3 = snd (getRemoteAddress S s2 k2)
                   in (True, snd (getLocalAddress S s3 k2), k2))"

definition Socket_listen :: "('k, 'a) sys \<Rightarrow> int \<Rightarrow> 'a Socket \<Rightarrow> 'k \<Rightarrow> bool \<times> 'k" where
  "Socket_listen S backlog s k =
     (if \<not> isValid s then (False, k) else (True, snd (sys_listen S (m_sock s) backlog k)))"

definition Socket_send :: "('k, 'a) sys \<Rightarrow> u8 list \<Rightarrow> 'a Socket \<Rightarrow> 'k \<Rightarrow> int \<times> 'k" where
  "Socket_send S buffer s k = (if m_isConnected s then sys_send S (m_sock s) buffer k else (-1, k))"

definition Socket_recv :: "('k, 'a) sys \<Rightarrow> nat \<Rightarrow> 'a Socket \<Rightarrow> 'k \<Rightarrow> (int \<times> u8 list) \<times> 'k" where
  "Socket_recv S len s k = (if m_isConnected s then sys_recv S (m_sock s) len k else ((-1, []), k))"

definition Socket_sendTo :: "('k, 'a) sys \<Rightarrow> u8 list \<Rightarrow> 'a \<Rightarrow> 'a Socket \<Rightarrow> 'k \<Rightarrow> int \<times> 'k" where
  "Socket_sendTo S buffer to s k = (if m_isConnected s then sys_sendto S (m_sock s) buffer to k else (-1, k))"

definition Socket_recvFrom :: "('k, 'a) sys \<Rightarrow> nat \<Rightarrow> 'a Socket \<Rightarrow> 'k \<Rightarrow> (int \<times> u8 list) \<times> 'k" where
  "Socket_recvFrom S len s k = (if m_isConnected s then sys_recvfrom S (m_sock s) len k else ((-1, []), k))"

subsection \<open>Laws of the descriptor calls\<close>

definition sys_laws :: "('k, 'a) sys \<Rightarrow> ('k \<Rightarrow> int set) \<Rightarrow> bool" where
  "sys_laws S opened \<longleftrightarrow>
     (\<forall>f t p k. case sys_socket S f t p k of (fd, k') \<Rightarrow>
        (fd = -1 \<and> opened k' = opened k) \<or> (fd \<noteq> -1 \<and> fd \<notin> opened k \<and> opened k' = insert fd (opened k))) \<and>
     (\<forall>l k. case sys_accept S l k of (fd, k') \<Rightarrow>
        (fd = -1 \<and> opened k' = opened k) \<or> (fd \<noteq> -1 \<and> fd \<notin> opened k \<and> opened k' = insert fd (opened k))) \<and>
     (\<forall>fd k. opened (sys_close S fd k) = opened k - {fd}) \<and>
     (\<forall>fd a k. opened (snd (sys_bind S fd a k)) = opened k) \<and>
     (\<forall>fd a k. opened (snd (sys_connect S fd a k)) = opened k) \<and>
     (\<forall>fd a t k. opened (snd (sys_connect_with_timeout S fd a t k)) = opened k) \<and>
     (\<forall>fd b k. opened (snd (sys_listen S fd b k)) = opened k) \<and>
     (\<forall>fd b k. opened (snd (sys_send S fd b k)) = opened k) \<and>
     (\<forall>fd n k. opened (snd (sys_recv S fd n k)) = opened k) \<and>
     (\<forall>fd b a k. opened (snd (sys_sendto S fd b a k)) = opened k) \<and>
     (\<forall>fd n k. opened (snd (sys_recvfrom S fd n k)) = opened k) \<and>
     (\<forall>fd l p v k. opened (snd (sys_setsockopt S fd l p v k)) = opened k) \<and>
     (\<forall>fd k. opened (snd (sys_cancel_read S fd k)) = opened k) \<and>
     (\<forall>fd k. opened (snd (sys_cancel_write S fd k)) = opened k) \<and>
     (\<forall>fd k. opened (snd (sys_cancel_all S fd k)) = opened k)"

text \<open>The member calls on one socket, as steps of the object and the system.\<close>

inductive socket_step :: "('k, 'a) sys \<Rightarrow> 'a Socket \<times> 'k \<Rightarrow> 'a Socket \<times> 'k \<Rightarrow> bool" for S where
  bind: "socket_step S (s, k) (snd (Socket_bind S addr s k))"
| connect: "socket_step S (s, k) (snd (Socket_connect S addr t s k))"
| listen: "socket_step S (s, k) (s, snd (Socket_listen S backlog s k))"
| close: "socket_step S (s, k) (snd (Socket_close S s k))"
| send: "socket_step S (s, k) (s, snd (Socket_send S buf s k))"
| recv: "socket_step S (s, k) (s, snd (Socket_recv S n s k))"
| sendTo: "socket_step S (s, k) (s, snd (Socket_sendTo S buf addr s k))"
| recvFrom: "socket_step S (s, k) (s, snd (Socket_recvFrom S n s k))"
| remote: "socket_step S (s, k) (snd (getRemoteAddress S s k), k)"
| local: "socket_step S (s, k) (snd (getLocalAddress S s k), k)"
| cancel_read: "socket_step S (s, k) (s, snd (cancelRead S s k))"
| cancel_write: "socket_step S (s, k) (s, snd (cancelWrite S s k))"
| cancel_accept: "socket_step S (s, k) (s, snd (cancelAccept S s k))"
| cancel_all: "socket_step S (s, k) (s, snd (Socket_cancelAll S s k))"
| send_timeout: "socket_step S (s, k) (s, snd (setSendTimeout S t s k))"
| recv_timeout: "socket_step S (s, k) (s, snd (setRecvTimeout S t s k))"
| option: "socket_step S (s, k) (s, snd (setOption S l p v s k))"

text \<open>
  The socket owns exactly the descriptors that are open beyond \<open>base\<close>, at most one,
  and it is connected only with a descriptor.
\<close>

definition sock_owns :: "('k \<Rightarrow> int set) \<Rightarrow> int set \<Rightarrow> 'a Socket \<times> 'k \<Rightarrow> bool" where
  "sock_owns opened base sk \<longleftrightarrow>
     opened (snd sk) = base \<union> (if m_sock (fst sk) = -1 then {} else {m_sock (fst sk)}) \<and>
     m_sock (fst sk) \<notin> base \<and> -1 \<notin> base \<and> (m_isConnected (fst sk) \<longrightarrow> m_sock (fst sk) \<noteq> -1)"

lemma getters_keep [simp]:
  "m_sock (snd (getRemoteAddress S s k)) = m_sock s" "m_isConnected (snd (getRemoteAddress S s k)) = m_isConnected s"
  "m_sock (snd (getLocalAddress S s k)) = m_sock s" "m_isConnected (snd (getLocalAddress S s k)) = m_isConnected s"
  by (simp_all add: getRemoteAddress_def getLocalAddress_def split: option.split)

lemma sys_lawsD:
  assumes "sys_laws S opened"
  shows "opened (sys_close S fd k) = opened k - {fd}" "opened (snd (sys_bind S fd a k)) = opened k"
    "opened (snd (sys_connect S fd a k)) = opened k" "opened (snd (sys_connect_with_timeout S fd a t k)) = opened k"
    "opened (snd (sys_listen S fd b k)) = opened k" "opened (snd (sys_send S fd buf k)) = opened k"
    "opened (snd (sys_recv S fd n k)) = opened k" "opened (snd (sys_sendto S fd buf a k)) = opened k"
    "opened (snd (sys_recvfrom S fd n k)) = opened k" "opened (snd (sys_setsockopt S fd l p v k)) = opened k"
    "opened (snd (sys_cancel_read S fd k)) = opened k" "opened (snd (sys_cancel_write S fd k)) = opened k"
    "opened (snd (sys_cancel_all S fd k)) = opened k"
  using assms unfolding sys_laws_def by metis+

lemma sys_laws_new:
  assumes "sys_laws S opened"
  shows "sys_socket S f t p k = (fd, k') \<Longrightarrow>
      (fd = -1 \<and> opened k' = opened k) \<or> (fd \<noteq> -1 \<and> fd \<notin> opened k \<and> opened k' = insert fd (opened k))"
    and "sys_accept S l k = (fd, k') \<Longrightarrow>
      (fd = -1 \<and> opened k' = opened k) \<or> (fd \<noteq> -1 \<and> fd \<notin> opened k \<and> opened k' = insert fd (opened k))"
proof -
  have "case sys_socket S f t p k of (fd, k') \<Rightarrow>
      (fd = -1 \<and> opened k' = opened k) \<or> (fd \<noteq> -1 \<and> fd \<notin> opened k \<and> opened k' = insert fd (opened k))"
    by (rule assms [unfolded sys_laws_def, THEN conjunct1, THEN spec, THEN spec, THEN spec, THEN spec])
  then show "sys_socket S f t p k = (fd, k') \<Longrightarrow>
      (fd = -1 \<and> opened k' = opened k) \<or> (fd \<noteq> -1 \<and> fd \<notin> opened k \<and> opened k' = insert fd (opened k))" by simp
  have "case sys_accept S l k of (fd, k') \<Rightarrow>
      (fd = -1 \<and> opened k' = opened k) \<or> (fd \<noteq> -1 \<and> fd \<notin> opened k \<and> opened k' = insert fd (opened k))"
    by (rule assms [unfolded sys_laws_def, THEN conjunct2, THEN conjunct1, THEN spec, THEN spec])
  then show "sys_accept S l k = (fd, k') \<Longrightarrow>
      (fd = -1 \<and> opened k' = opened k) \<or> (fd \<noteq> -1 \<and> fd \<notin> opened k \<and> opened k' = insert fd (opened k))" by simp
qed

lemma setOption_opened: "sys_laws S opened \<Longrightarrow> opened (snd (setOption S l p v s k)) = opened k"
  by (simp add: setOption_def sys_lawsD case_prod_beta)

lemma initSock_opened: "sys_laws S opened \<Longrightarrow> opened (initSock S s k) = opened k"
  by (simp add: initSock_def setOption_opened Let_def)

lemma close_owns:
  assumes "sys_laws S opened" "sock_owns opened base (s, k)"
  shows "sock_owns opened base (snd (Socket_close S s k))" "m_sock (fst (snd (Socket_close S s k))) = -1"
    "\<not> m_isConnected (fst (snd (Socket_close S s k)))"
  using assms by (auto simp: Socket_close_def sock_owns_def sys_lawsD Let_def)

lemma newSock_owns:
  assumes "sys_laws S opened" "sock_owns opened base (s, k)" "m_sock s = -1"
  shows "sock_owns opened base (newSock S s k)"
proof -
  obtain fd k' where e: "sys_socket S (m_family s) (m_type s) (m_protocol s) k = (fd, k')" by fastforce
  show ?thesis
  proof (cases "fd = -1")
    case True
    then show ?thesis
      using sys_laws_new(1) [OF assms(1) e] assms(2,3) by (simp add: newSock_def e sock_owns_def)
  next
    case False
    then have "opened k' = insert fd (opened k)" "fd \<notin> opened k" using sys_laws_new(1) [OF assms(1) e] by auto
    with False show ?thesis
      using assms(2,3) initSock_opened [OF assms(1)] by (simp add: newSock_def e sock_owns_def Let_def)
  qed
qed

lemma sock_owns_cong:
  "sock_owns opened base (s, k) \<Longrightarrow> m_sock s' = m_sock s \<Longrightarrow> m_isConnected s' \<longrightarrow> m_isConnected s \<or> m_sock s \<noteq> -1 \<Longrightarrow>
   opened k' = opened k \<Longrightarrow> sock_owns opened base (s', k')"
  by (auto simp: sock_owns_def)

lemma acquire_owns:
  assumes "sys_laws S opened" "sock_owns opened base (s, k)"
  shows "sock_owns opened base (ensure_sock S s k)"
  using assms newSock_owns [OF assms] by (simp add: ensure_sock_def isValid_def)

lemma bind_owns:
  assumes "sys_laws S opened" "sock_owns opened base (s, k)"
  shows "sock_owns opened base (snd (Socket_bind S addr s k))"
proof -
  obtain s1 k1 where a: "ensure_sock S s k = (s1, k1)" by fastforce
  have o: "sock_owns opened base (s1, k1)" using acquire_owns [OF assms] a by simp
  obtain rt k2 where b: "sys_bind S (m_sock s1) addr k1 = (rt, k2)" by fastforce
  have "opened k2 = opened k1" using sys_lawsD(2) [OF assms(1), of "m_sock s1" addr k1] b by simp
  with o show ?thesis by (auto simp: Socket_bind_def a b intro: sock_owns_cong)
qed

lemma connect_owns:
  assumes "sys_laws S opened" "sock_owns opened base (s, k)"
  shows "sock_owns opened base (snd (Socket_connect S addr t s k))"
proof -
  obtain s1 k1 where a: "ensure_sock S s k = (s1, k1)" by fastforce
  have o: "sock_owns opened base (s1, k1)" using acquire_owns [OF assms] a by simp
  obtain rt k2 where b: "connect_call S addr t s1 k1 = (rt, k2)" by fastforce
  have "opened (snd (connect_call S addr t s1 k1)) = opened k1"
    using assms(1) by (simp add: connect_call_def sys_lawsD)
  then have "opened k2 = opened k1" by (simp add: b)
  with o have o2: "sock_owns opened base (s1, k2)" by (auto intro: sock_owns_cong)
  show ?thesis
  proof (cases "isValid s1 \<and> addr_family S addr = m_family s1 \<and> rt = 0")
    case True
    then show ?thesis
      using o2 by (auto simp: Socket_connect_def a b isValid_def Let_def intro: sock_owns_cong)
  next
    case False
    then show ?thesis
      using o close_owns(1) [OF assms(1) o2] by (auto simp: Socket_connect_def a b Let_def)
  qed
qed

lemma socket_step_owns:
  assumes "socket_step S sk sk'" "sys_laws S opened" "sock_owns opened base sk"
  shows "sock_owns opened base sk'"
  using assms
proof (induction rule: socket_step.induct)
  case (bind s k addr)
  then show ?case by (rule bind_owns)
next
  case (connect s k addr t)
  then show ?case by (rule connect_owns)
next
  case (close s k)
  then show ?case by (rule close_owns)
qed (auto simp: Socket_listen_def Socket_send_def Socket_recv_def Socket_sendTo_def Socket_recvFrom_def
    cancelRead_def cancelWrite_def cancelAccept_def Socket_cancelAll_def setSendTimeout_def setRecvTimeout_def sys_lawsD setOption_opened elim: sock_owns_cong)

subsection \<open>A system that satisfies the laws\<close>

text \<open>
  The state is the list of open descriptors, a new one is one above the largest, every
  other call succeeds, and the descriptor manager knows the odd descriptors.
\<close>

definition fresh_fd :: "int list \<Rightarrow> int" where
  "fresh_fd k = foldr max k 2 + 1"

definition list_sys :: "(int list, int) sys" where
  "list_sys = \<lparr>sys_socket = \<lambda>f t p k. (fresh_fd k, fresh_fd k # k), sys_accept = \<lambda>l k. (fresh_fd k, fresh_fd k # k),
     sys_bind = \<lambda>fd a k. (0, k), sys_connect = \<lambda>fd a k. (0, k), sys_connect_with_timeout = \<lambda>fd a t k. (0, k),
     sys_listen = \<lambda>fd b k. (0, k), sys_close = \<lambda>fd k. removeAll fd k, sys_send = \<lambda>fd b k. (int (length b), k),
     sys_recv = \<lambda>fd n k. ((0, []), k), sys_sendto = \<lambda>fd b a k. (int (length b), k), sys_recvfrom = \<lambda>fd n k. ((0, []), k),
     sys_getpeername = \<lambda>fd k. Some 2, sys_getsockname = \<lambda>fd k. Some 2, sys_setsockopt = \<lambda>fd l p v k. (0, k),
     sys_getsockopt = \<lambda>fd l p k. Some 0, sys_fd_timeout = \<lambda>fd p k. None, sys_cancel_read = \<lambda>fd k. (False, k),
     sys_cancel_write = \<lambda>fd k. (False, k), sys_cancel_all = \<lambda>fd k. (False, k),
     sys_fdmgr_socket = \<lambda>fd k. odd fd, addr_family = id, UnknownAddress = id\<rparr>"

lemma fresh_fd_new: "fresh_fd k \<notin> set k" "fresh_fd k \<noteq> - 1"
proof -
  have "x \<in> set k \<Longrightarrow> x \<le> foldr max k 2" "2 \<le> foldr max k 2" for x
    by (induction k) auto
  then show "fresh_fd k \<notin> set k" "fresh_fd k \<noteq> - 1" by (force simp: fresh_fd_def)+
qed

lemma list_sys_laws: "sys_laws list_sys set"
  by (simp add: sys_laws_def list_sys_def fresh_fd_new)

subsection \<open>Properties of the socket\<close>

text \<open>
  Property C27. A socket neither leaks nor double-closes its descriptor: after any
  sequence of member calls, the open descriptors are those that were open before it was
  created plus the one it holds, it is connected only while it holds one, and \<open>close\<close>
  (the destructor) gives back exactly the descriptors open at the start.
\<close>

theorem socket_owns_descriptor:
  assumes "sys_laws S opened" "-1 \<notin> opened k0"
    and "(socket_step S)\<^sup>*\<^sup>* (new_Socket family type protocol, k0) (s, k)"
  shows "opened k = opened k0 \<union> (if m_sock s = -1 then {} else {m_sock s}) \<and> m_sock s \<notin> opened k0
    \<and> (m_isConnected s \<longrightarrow> m_sock s \<noteq> -1) \<and> opened (snd (snd (Socket_close S s k))) = opened k0"
proof -
  have "sock_owns opened (opened k0) (s, k)"
    using assms(3)
  proof (induction "(s, k)" arbitrary: s k rule: rtranclp_induct)
    case base
    then show ?case using assms(2) by (simp add: sock_owns_def new_Socket_def)
  next
    case (step y s k)
    then show ?case using socket_step_owns [OF step.hyps(2) assms(1)] by (metis prod.collapse)
  qed
  with close_owns [OF assms(1) this] show ?thesis by (simp add: sock_owns_def)
qed

theorem socket_owns_descriptor_witness:
  "set (snd (snd (Socket_connect list_sys 2 5 (new_Socket 2 1 0) [7]))) = {8, 7}
   \<and> (let (ok, s, k) = Socket_connect list_sys 2 5 (new_Socket 2 1 0) [7] in set (snd (snd (Socket_close list_sys s k))) = {7})"
proof -
  obtain s k where c: "snd (Socket_connect list_sys 2 5 (new_Socket 2 1 0) [7]) = (s, k)" by fastforce
  have "(socket_step list_sys)\<^sup>*\<^sup>* (new_Socket 2 1 0, [7]) (s, k)"
    using socket_step.connect [of list_sys "new_Socket 2 1 0" "[7]" 2 5] unfolding c by blast
  from socket_owns_descriptor [OF list_sys_laws _ this] have "set (snd (snd (Socket_close list_sys s k))) = {7}" by simp
  moreover have "set (snd (snd (Socket_connect list_sys 2 5 (new_Socket 2 1 0) [7]))) = {8, 7}" by code_simp
  ultimately show ?thesis by (cases "Socket_connect list_sys 2 5 (new_Socket 2 1 0) [7]") (use c in simp)
qed

lemma accept_owned:
  assumes "sys_laws S opened" "-1 \<notin> opened k" "sys_accept S (m_sock s) k = (fd, k1)" "fd \<noteq> -1"
  shows "if sys_fdmgr_socket S fd k1
    then \<exists>s' k'. Socket_accept S s k = (Some s', k') \<and> sock_owns opened (opened k) (s', k') \<and> m_sock s' = fd \<and> m_isConnected s'
    else Socket_accept S s k = (None, k1) \<and> opened k1 = insert fd (opened k) \<and> fd \<notin> opened k"
proof (cases "sys_fdmgr_socket S fd k1")
  case True
  then show ?thesis
    using sys_laws_new(2) [OF assms(1,3)] assms
    by (auto simp: Socket_accept_def Socket_init_def Let_def sock_owns_def initSock_opened)
next
  case False
  then show ?thesis
    using sys_laws_new(2) [OF assms(1,3)] assms by (auto simp: Socket_accept_def Socket_init_def)
qed

text \<open>
  An accepted connection that the descriptor manager does not know as an
  open socket is dropped without being closed: \<open>accept\<close> returns null and the new
  descriptor stays open with no owner. In every other case the returned socket owns it.
\<close>

theorem socket_accept_ownership:
  assumes "sys_laws S opened" "-1 \<notin> opened k" "sys_accept S (m_sock s) k = (fd, k1)" "fd \<noteq> -1"
  shows "if sys_fdmgr_socket S fd k1
    then \<exists>s' k'. Socket_accept S s k = (Some s', k') \<and> sock_owns opened (opened k) (s', k') \<and> m_sock s' = fd \<and> m_isConnected s'
    else Socket_accept S s k = (None, k1) \<and> opened k1 = insert fd (opened k) \<and> fd \<notin> opened k"
  using accept_owned [OF assms] .

theorem socket_accept_ownership_witness:
  "Socket_accept list_sys (new_Socket 2 1 0) [3] = (None, [4, 3])"
  using socket_accept_ownership [OF list_sys_laws, of "[3]" "new_Socket 2 1 0" 4 "[4, 3]"]
  by (simp add: list_sys_def fresh_fd_def new_Socket_def)

end
