(* ===== verification/Civan_Stream.thy ===== *)
theory Civan_Stream
  imports Civan_ByteArray_IO Civan_Socket
begin

section \<open>Streams: \<open>civan/stream.cc\<close> and \<open>socket_stream.cc\<close>\<close>

text \<open>
  \<open>Stream\<close> turns one virtual \<open>read\<close> or \<open>write\<close>, which may move fewer bytes than asked for,
  into \<open>readFixSize\<close> and \<open>writeFixSize\<close>; the virtual function is an argument of the four
  loops. \<open>SocketStream\<close> implements it by a \<open>Socket\<close>, for memory and for a \<open>ByteArray\<close>,
  whose nodes it hands to the system as scatter/gather buffers. What a connection does
  is stated by \<open>conn_laws\<close>: a receive delivers a prefix of what is still to come, a send
  takes a prefix of what it is given, and a call that returns no positive count moves
  nothing.
\<close>

subsection \<open>The loops of \<open>Stream\<close>\<close>

text \<open>The first component is the early return, \<open>None\<close> where the loop ran to its end.\<close>

function readFix_loop ::
  "(nat \<Rightarrow> 'k \<Rightarrow> (int \<times> u8 list) \<times> 'k) \<Rightarrow> int \<Rightarrow> u8 list \<Rightarrow> 'k \<Rightarrow> int option \<times> u8 list \<times> 'k" where
  "readFix_loop rd left buf k =
     (if left > 0
      then let ((len, d), k') = rd (nat left) k
           in if len \<le> 0 then (Some len, buf, k') else readFix_loop rd (left - len) (buf @ d) k'
      else (None, buf, k))"
  by pat_completeness auto
termination
  by (relation "measure (\<lambda>(rd, left, buf, k). nat left)") auto

definition readFixSize ::
  "(nat \<Rightarrow> 'k \<Rightarrow> (int \<times> u8 list) \<times> 'k) \<Rightarrow> nat \<Rightarrow> 'k \<Rightarrow> int \<times> u8 list \<times> 'k" where
  "readFixSize rd n k = (case readFix_loop rd (int n) [] k of
     (Some e, r) \<Rightarrow> (e, r) | (None, r) \<Rightarrow> (as_int n, r))"

function writeFix_loop :: "(u8 list \<Rightarrow> 'k \<Rightarrow> int \<times> 'k) \<Rightarrow> u8 list \<Rightarrow> nat \<Rightarrow> int \<Rightarrow> 'k \<Rightarrow> int option \<times> 'k" where
  "writeFix_loop wr buffer offset left k =
     (if left > 0
      then let (len, k') = wr (take (nat left) (drop offset buffer)) k
           in if len \<le> 0 then (Some len, k') else writeFix_loop wr buffer (offset + nat len) (left - len) k'
      else (None, k))"
  by pat_completeness auto
termination
  by (relation "measure (\<lambda>(wr, buffer, offset, left, k). nat left)") auto

definition writeFixSize :: "(u8 list \<Rightarrow> 'k \<Rightarrow> int \<times> 'k) \<Rightarrow> u8 list \<Rightarrow> 'k \<Rightarrow> int \<times> 'k" where
  "writeFixSize wr buffer k = (case writeFix_loop wr buffer 0 (int (length buffer)) k of
     (Some e, r) \<Rightarrow> (e, r) | (None, r) \<Rightarrow> (as_int (length buffer), r))"

text \<open>
  The two loops on a \<open>ByteArray\<close> have one shape; the argument is the virtual \<open>read\<close> or
  \<open>write\<close>, which may fault in the buffer.
\<close>

function fix_loop_ba ::
  "(bytearray \<Rightarrow> nat \<Rightarrow> 'k \<Rightarrow> (int \<times> bytearray \<times> 'k) res) \<Rightarrow> int \<Rightarrow> bytearray \<Rightarrow> 'k \<Rightarrow>
   (int option \<times> bytearray \<times> 'k) res" where
  "fix_loop_ba io left ba k =
     (if left > 0
      then rbind (io ba (nat left) k) (\<lambda>(len, ba', k').
             if len \<le> 0 then Inr (Some len, ba', k') else fix_loop_ba io (left - len) ba' k')
      else Inr (None, ba, k))"
  by pat_completeness auto
termination
  by (relation "measure (\<lambda>(io, left, ba, k). nat left)") auto

definition fixSize_ba ::
  "(bytearray \<Rightarrow> nat \<Rightarrow> 'k \<Rightarrow> (int \<times> bytearray \<times> 'k) res) \<Rightarrow> bytearray \<Rightarrow> nat \<Rightarrow> 'k \<Rightarrow> (int \<times> bytearray \<times> 'k) res" where
  "fixSize_ba io ba n k = rbind (fix_loop_ba io (int n) ba k) (\<lambda>(e, r).
     Inr (case e of Some len \<Rightarrow> (len, r) | None \<Rightarrow> (as_int n, r)))"

declare readFix_loop.simps [simp del] writeFix_loop.simps [simp del] fix_loop_ba.simps [simp del]

subsection \<open>\<open>SocketStream\<close>\<close>

record 'a SocketStream =
  ss_socket :: "'a Socket option"
  ss_owner :: bool

definition new_SocketStream :: "'a Socket option \<Rightarrow> bool \<Rightarrow> 'a SocketStream" where
  "new_SocketStream sock owner = \<lparr>ss_socket = sock, ss_owner = owner\<rparr>"

definition SocketStream_isConnected :: "'a SocketStream \<Rightarrow> bool" where
  "SocketStream_isConnected ss = (case ss_socket ss of None \<Rightarrow> False | Some s \<Rightarrow> m_isConnected s)"

definition SocketStream_close :: "('k, 'a) sys \<Rightarrow> 'a SocketStream \<Rightarrow> 'k \<Rightarrow> 'a SocketStream \<times> 'k" where
  "SocketStream_close S ss k = (case ss_socket ss of None \<Rightarrow> (ss, k)
     | Some s \<Rightarrow> (let (_, s', k') = Socket_close S s k in (ss\<lparr>ss_socket := Some s'\<rparr>, k')))"

definition delete_SocketStream :: "('k, 'a) sys \<Rightarrow> 'a SocketStream \<Rightarrow> 'k \<Rightarrow> 'a SocketStream \<times> 'k" where
  "delete_SocketStream S ss k = (if ss_owner ss \<and> ss_socket ss \<noteq> None then SocketStream_close S ss k else (ss, k))"

text \<open>The addresses of the peer and of the socket, and their printed forms; \<open>show_addr\<close> is \<open>toString\<close>.\<close>

definition SocketStream_getRemoteAddress :: "('k, 'a) sys \<Rightarrow> 'a SocketStream \<Rightarrow> 'k \<Rightarrow> 'a option \<times> 'a SocketStream" where
  "SocketStream_getRemoteAddress S ss k = (case ss_socket ss of None \<Rightarrow> (None, ss)
     | Some s \<Rightarrow> (let (a, s') = getRemoteAddress S s k in (Some a, ss\<lparr>ss_socket := Some s'\<rparr>)))"

definition SocketStream_getLocalAddress :: "('k, 'a) sys \<Rightarrow> 'a SocketStream \<Rightarrow> 'k \<Rightarrow> 'a option \<times> 'a SocketStream" where
  "SocketStream_getLocalAddress S ss k = (case ss_socket ss of None \<Rightarrow> (None, ss)
     | Some s \<Rightarrow> (let (a, s') = getLocalAddress S s k in (Some a, ss\<lparr>ss_socket := Some s'\<rparr>)))"

definition getRemoteAddressString :: "('a \<Rightarrow> u8 list) \<Rightarrow> ('k, 'a) sys \<Rightarrow> 'a SocketStream \<Rightarrow> 'k \<Rightarrow> u8 list \<times> 'a SocketStream" where
  "getRemoteAddressString show_addr S ss k = (let (a, ss') = SocketStream_getRemoteAddress S ss k
     in (case a of None \<Rightarrow> [] | Some a \<Rightarrow> show_addr a, ss'))"

definition getLocalAddressString :: "('a \<Rightarrow> u8 list) \<Rightarrow> ('k, 'a) sys \<Rightarrow> 'a SocketStream \<Rightarrow> 'k \<Rightarrow> u8 list \<times> 'a SocketStream" where
  "getLocalAddressString show_addr S ss k = (let (a, ss') = SocketStream_getLocalAddress S ss k
     in (case a of None \<Rightarrow> [] | Some a \<Rightarrow> show_addr a, ss'))"

text \<open>An address that the system told is kept: later calls answer the same, whatever the system says then.\<close>

lemma stream_address_cached:
  assumes "ss_socket ss = Some s" "SocketStream_getRemoteAddress S ss k = (Some a, ss1)" "m_remoteAddress s \<noteq> None \<or> sys_getpeername S (m_sock s) k \<noteq> None"
  shows "SocketStream_getRemoteAddress S' ss1 k' = (Some a, ss1)"
  using assms by (auto simp: SocketStream_getRemoteAddress_def getRemoteAddress_def split: option.splits)

definition SocketStream_read :: "('k, 'a) sys \<Rightarrow> 'a SocketStream \<Rightarrow> nat \<Rightarrow> 'k \<Rightarrow> (int \<times> u8 list) \<times> 'k" where
  "SocketStream_read S ss len k =
     (if \<not> SocketStream_isConnected ss then ((-1, []), k) else Socket_recv S len (the (ss_socket ss)) k)"

definition SocketStream_write :: "('k, 'a) sys \<Rightarrow> 'a SocketStream \<Rightarrow> u8 list \<Rightarrow> 'k \<Rightarrow> int \<times> 'k" where
  "SocketStream_write S ss buffer k =
     (if \<not> SocketStream_isConnected ss then (-1, k) else Socket_send S buffer (the (ss_socket ss)) k)"

text \<open>What \<open>recvmsg\<close> does with the bytes it got: it fills the buffers in order.\<close>

fun scatter :: "'b list list \<Rightarrow> iovec list \<Rightarrow> 'b list \<Rightarrow> 'b list list" where
  "scatter ns [] d = ns"
| "scatter ns (v # vs) d =
     scatter (ns[iov_node v := overwrite (ns ! iov_node v) (iov_off v) (take (iov_len v) d)]) vs (drop (iov_len v) d)"

definition SocketStream_read_ba ::
  "('k, 'a) sys \<Rightarrow> 'a SocketStream \<Rightarrow> bytearray \<Rightarrow> nat \<Rightarrow> 'k \<Rightarrow> (int \<times> bytearray \<times> 'k) res" where
  "SocketStream_read_ba S ss ba len k =
     (if \<not> SocketStream_isConnected ss then Inr (-1, ba, k)
      else rbind (getWriteBuffers ba len) (\<lambda>(n, iovs, ba1).
        let ((rt, d), k') = Socket_recv S (sum_list (map iov_len iovs)) (the (ss_socket ss)) k;
            ba2 = ba1\<lparr>m_nodes := scatter (m_nodes ba1) iovs (map Some d)\<rparr>
        in if rt > 0 then rbind (setPosition ba2 (m_position ba2 + nat rt)) (\<lambda>ba3. Inr (rt, ba3, k'))
           else Inr (rt, ba2, k')))"

text \<open>A byte of the buffer that was never written is sent with the value \<open>junk\<close>.\<close>

definition cell_byte :: "u8 \<Rightarrow> cell \<Rightarrow> u8" where
  "cell_byte junk c = (case c of Some b \<Rightarrow> b | None \<Rightarrow> junk)"

definition SocketStream_write_ba ::
  "u8 \<Rightarrow> ('k, 'a) sys \<Rightarrow> 'a SocketStream \<Rightarrow> bytearray \<Rightarrow> nat \<Rightarrow> 'k \<Rightarrow> (int \<times> bytearray \<times> 'k) res" where
  "SocketStream_write_ba junk S ss ba len k =
     (if \<not> SocketStream_isConnected ss then Inr (-1, ba, k)
      else rbind (getReadBuffers ba len) (\<lambda>(n, iovs).
        let (rt, k') = Socket_send S (map (cell_byte junk) (gather (m_nodes ba) iovs)) (the (ss_socket ss)) k
        in if rt > 0 then rbind (setPosition ba (m_position ba + nat rt)) (\<lambda>ba'. Inr (rt, ba', k'))
           else Inr (rt, ba, k')))"

subsection \<open>Laws of a connection\<close>

definition conn_laws :: "('k, 'a) sys \<Rightarrow> int \<Rightarrow> ('k \<Rightarrow> u8 list) \<Rightarrow> ('k \<Rightarrow> u8 list) \<Rightarrow> bool" where
  "conn_laws S fd incoming outgoing \<longleftrightarrow>
     (\<forall>n k len d k'. sys_recv S fd n k = ((len, d), k') \<longrightarrow> outgoing k' = outgoing k \<and>
        (len \<le> 0 \<and> d = [] \<and> incoming k' = incoming k \<or>
         0 < len \<and> len \<le> int n \<and> int (length d) = len \<and> incoming k = d @ incoming k')) \<and>
     (\<forall>bs k len k'. sys_send S fd bs k = (len, k') \<longrightarrow> incoming k' = incoming k \<and>
        (len \<le> 0 \<and> outgoing k' = outgoing k \<or>
         0 < len \<and> len \<le> int (length bs) \<and> outgoing k' = outgoing k @ take (nat len) bs))"

text \<open>A stream on a connected socket with the descriptor \<open>fd\<close>.\<close>

definition on_conn :: "'a SocketStream \<Rightarrow> int \<Rightarrow> bool" where
  "on_conn ss fd \<longleftrightarrow> (\<exists>s. ss_socket ss = Some s \<and> m_isConnected s \<and> m_sock s = fd)"

lemma on_conn_io:
  assumes "on_conn ss fd"
  shows "SocketStream_isConnected ss" "SocketStream_read S ss = sys_recv S fd"
    "SocketStream_write S ss = sys_send S fd"
    "Socket_recv S n (the (ss_socket ss)) = sys_recv S fd n"
    "Socket_send S bs (the (ss_socket ss)) = sys_send S fd bs"
  using assms by (auto simp: on_conn_def SocketStream_isConnected_def SocketStream_read_def SocketStream_write_def
      Socket_recv_def Socket_send_def fun_eq_iff)

lemma recv_law:
  assumes "conn_laws S fd incoming outgoing" "sys_recv S fd n k = ((len, d), k')"
  obtains "len \<le> 0" "d = []" "incoming k' = incoming k" "outgoing k' = outgoing k"
  | "0 < len" "len \<le> int n" "int (length d) = len" "incoming k = d @ incoming k'" "outgoing k' = outgoing k"
  using assms unfolding conn_laws_def by blast

lemma send_law:
  assumes "conn_laws S fd incoming outgoing" "sys_send S fd bs k = (len, k')"
  obtains "len \<le> 0" "outgoing k' = outgoing k" "incoming k' = incoming k"
  | "0 < len" "len \<le> int (length bs)" "outgoing k' = outgoing k @ take (nat len) bs" "incoming k' = incoming k"
  using assms unfolding conn_laws_def by blast

subsection \<open>Memory buffers\<close>

lemma readFix_loop_ok:
  assumes "conn_laws S fd incoming outgoing" "readFix_loop (sys_recv S fd) left buf k = (e, buf', k')"
  shows "\<exists>d. buf' = buf @ d \<and> incoming k = d @ incoming k' \<and> outgoing k' = outgoing k \<and>
    (case e of None \<Rightarrow> length d = nat left | Some len \<Rightarrow> len \<le> 0 \<and> length d < nat left)"
  using assms(2)
proof (induction "sys_recv S fd" left buf k rule: readFix_loop.induct)
  case (1 left buf k)
  show ?case
  proof (cases "left > 0")
    case False
    then show ?thesis using 1 by (simp add: readFix_loop.simps)
  next
    case True
    obtain len d k1 where r: "sys_recv S fd (nat left) k = ((len, d), k1)" by (metis prod.collapse)
    show ?thesis
      using assms(1) r
    proof (cases rule: recv_law)
      case 1
      then show ?thesis using "1.prems" True r by (auto simp: readFix_loop.simps [of _ left])
    next
      case 2
      then have "readFix_loop (sys_recv S fd) (left - len) (buf @ d) k1 = (e, buf', k')"
        using "1.prems" True r by (simp add: readFix_loop.simps [of _ left])
      from "1.hyps" [OF True r [symmetric] refl refl _ this] 2 True
      obtain d' where "buf' = buf @ d @ d'" "incoming k1 = d' @ incoming k'" "outgoing k' = outgoing k1"
        "case e of None \<Rightarrow> length d' = nat (left - len) | Some len' \<Rightarrow> len' \<le> 0 \<and> length d' < nat (left - len)"
        by auto
      with 2 True show ?thesis
        by (intro exI [of _ "d @ d'"]) (auto split: option.splits)
    qed
  qed
qed

lemma writeFix_loop_ok:
  assumes "conn_laws S fd incoming outgoing"
  shows "writeFix_loop (sys_send S fd) buffer offset left k = (e, k') \<Longrightarrow> offset + nat left = length buffer \<Longrightarrow>
    \<exists>n. outgoing k' = outgoing k @ take n (drop offset buffer) \<and> incoming k' = incoming k \<and>
    (case e of None \<Rightarrow> n = nat left | Some len \<Rightarrow> len \<le> 0 \<and> n < nat left)"
proof (induction "sys_send S fd" buffer offset left k rule: writeFix_loop.induct)
  case (1 buffer offset left k)
  show ?case
  proof (cases "left > 0")
    case False
    then show ?thesis using 1 by (auto simp: writeFix_loop.simps)
  next
    case True
    obtain len k1 where r: "sys_send S fd (take (nat left) (drop offset buffer)) k = (len, k1)" by fastforce
    show ?thesis
      using assms r
    proof (cases rule: send_law)
      case 1
      then show ?thesis
        using "1.prems" True r by (intro exI [of _ 0]) (auto simp: writeFix_loop.simps [of _ _ _ left])
    next
      case 2
      then have l: "len \<le> left" using "1.prems"(2) True by simp
      from 2 have "writeFix_loop (sys_send S fd) buffer (offset + nat len) (left - len) k1 = (e, k')"
        using "1.prems"(1) True r by (simp add: writeFix_loop.simps [of _ _ _ left])
      moreover have "offset + nat len + nat (left - len) = length buffer" using "1.prems"(2) 2 l by arith
      moreover have "\<not> len \<le> 0" using 2 by simp
      ultimately
      obtain n where n: "outgoing k' = outgoing k1 @ take n (drop (offset + nat len) buffer)" "incoming k' = incoming k1"
        "case e of None \<Rightarrow> n = nat (left - len) | Some len' \<Rightarrow> len' \<le> 0 \<and> n < nat (left - len)"
        using "1.hyps" [OF True r [symmetric] refl] by blast
      have "take (nat len) (take (nat left) (drop offset buffer)) @ take n (drop (offset + nat len) buffer)
          = take (nat len + n) (drop offset buffer)"
        using l 2 by (simp add: take_add min_absorb1 nat_mono) (simp add: add.commute)
      with n 2 l show ?thesis
        by (intro exI [of _ "nat len + n"]) (auto split: option.splits)
    qed
  qed
qed

subsection \<open>Scatter\<close>

lemma overwrite_continue:
  assumes "p \<le> length xs"
  shows "overwrite (overwrite xs p d) (p + length d) e = overwrite xs p (d @ e)"
proof -
  have "overwrite (overwrite xs p d) (p + length d) e = (take p xs @ d) @ e @ drop (p + length d + length e) xs"
    using assms by (simp add: overwrite_def [of "overwrite xs p d"] take_overwrite_all)
  then show ?thesis by (simp add: overwrite_def add.assoc)
qed

lemma iov_loop_scatter:
  assumes "iov_loop szof ns i npos ncap len = Inr vs" "uniform b ns'" "length ns' = length ns" "0 < b"
    "\<And>j. j < length ns \<Longrightarrow> szof j = b" "i < length ns" "npos < b" "ncap = b - npos"
    "i * b + npos + len \<le> length ns * b" "length d \<le> len"
  shows "concat (scatter ns' vs d) = overwrite (concat ns') (i * b + npos) d \<and> uniform b (scatter ns' vs d)
    \<and> length (scatter ns' vs d) = length ns'"
  using assms
proof (induction szof ns i npos ncap len arbitrary: ns' vs d rule: iov_loop.induct)
  case (1 szof ns i npos ncap len)
  note u = "1.prems"(2) and ln = "1.prems"(3) and b = "1.prems"(4) and sz = "1.prems"(5) and i = "1.prems"(6)
    and np = "1.prems"(7,8)
  have upd: "concat (ns'[i := overwrite (ns' ! i) npos e]) = overwrite (concat ns') (i * b + npos) e"
    "uniform b (ns'[i := overwrite (ns' ! i) npos e])" if "npos + length e \<le> b" for e
    using concat_update_overwrite [OF u, of i npos e] u i ln that
    by (simp_all add: uniform_update)
  consider "len = 0" | "len \<noteq> 0" "len \<le> ncap" | "ncap < len" by linarith
  then show ?case
  proof cases
    case 1
    then show ?thesis using "1.prems" by (simp add: iov_loop.simps)
  next
    case 2
    then have "vs = [\<lparr>iov_node = i, iov_off = npos, iov_len = len\<rparr>]"
      using "1.prems"(1) i by (simp add: iov_loop.simps [of _ _ i])
    then show ?thesis using upd [of d] 2 np "1.prems"(10) by simp
  next
    case 3
    have "i * b + b < length ns * b" using 3 np "1.prems"(9) by linarith
    then have si: "Suc i < length ns" by (metis add.commute mult_Suc mult_less_cancel2)
    obtain vs' where vs': "iov_loop szof ns (Suc i) 0 (szof (Suc i)) (len - ncap) = Inr vs'"
      and vs: "vs = \<lparr>iov_node = i, iov_off = npos, iov_len = ncap\<rparr> # vs'"
      using "1.prems"(1) 3 si by (auto simp: iov_loop.simps [of _ _ i])
    let ?e = "take ncap d"
    let ?n = "ns'[i := overwrite (ns' ! i) npos ?e]"
    have e: "npos + length ?e \<le> b" using np by simp
    have e1: "i * b + npos + ncap = Suc i * b" using np by simp
    have IH: "concat (scatter ?n vs' (drop ncap d)) = overwrite (concat ?n) (Suc i * b + 0) (drop ncap d) \<and>
        uniform b (scatter ?n vs' (drop ncap d)) \<and> length (scatter ?n vs' (drop ncap d)) = length ?n"
      by (rule "1.IH" [OF _ _ si vs' upd(2) [OF e] _ b sz si b])
         (use 3 sz si ln e1 "1.prems"(9,10) in auto)
    have "overwrite (overwrite (concat ns') (i * b + npos) ?e) (Suc i * b) (drop ncap d) =
        overwrite (concat ns') (i * b + npos) d"
    proof (cases "length d \<le> ncap")
      case False
      then have "length ?e = ncap" by simp
      moreover have "i * b + npos + ncap \<le> length (concat ns')"
        unfolding e1 length_concat_uniform [OF u] using si ln by (intro mult_le_mono1) simp
      ultimately show ?thesis
        using overwrite_overwrite [of "i * b + npos" ?e "concat ns'" "drop ncap d"] e1 by simp
    qed simp
    with IH upd(1) [OF e] show ?thesis by (simp add: vs)
  qed
qed

lemma read_ba_ok:
  assumes laws: "conn_laws S fd incoming outgoing" and on: "on_conn ss fd"
    and wf: "ba_wf ba" and cur: "cur_wr ba" and n: "0 < n"
  shows "\<exists>len ba' k'. SocketStream_read_ba S ss ba n k = Inr (len, ba', k') \<and> ba_wf ba' \<and> outgoing k' = outgoing k \<and>
    (len \<le> 0 \<and> cur_wr ba' \<and> m_position ba' = m_position ba \<and> content ba' = content ba \<and> incoming k' = incoming k \<or>
     0 < len \<and> len \<le> int n \<and> m_position ba' = m_position ba + nat len \<and>
       incoming k = take (nat len) (incoming k) @ incoming k' \<and> nat len \<le> length (incoming k) \<and>
       content ba' = overwrite (content ba) (m_position ba) (map Some (take (nat len) (incoming k))) \<and>
       cur_rd ba' \<and> (len < int n \<longrightarrow> cur_wr ba'))"
proof -
  obtain iovs ba1 where w: "getWriteBuffers ba n = Inr (n, iovs, ba1)" "ba_wf ba1" "cur_wr ba1"
    "m_position ba1 = m_position ba" "m_size ba1 = m_size ba" "content ba1 = content ba"
    "m_baseSize ba1 = m_baseSize ba" "m_position ba + n \<le> m_capacity ba1" "sum_list (map iov_len iovs) = n"
    using getWriteBuffers_ok [OF wf cur, of n] by blast
  let ?b = "m_baseSize ba" and ?p = "m_position ba"
  note w1 = ba_wfD [OF w(2), unfolded w(4,5,7)]
  have i: "?p div ?b < length (m_nodes ba1)" using w(8) n w1(4) by (simp add: less_mult_imp_div_less)
  have loop: "iov_loop (\<lambda>j. length (m_nodes ba1 ! j)) (m_nodes ba1) (?p div ?b) (?p mod ?b) (?b - ?p mod ?b) n = Inr iovs"
  proof -
    have "m_cur ba1 = Some (?p div ?b)" using w(3,4,7,8) n by (simp add: cur_wr_def)
    then show ?thesis
      using w(1) n i w1(1,3) w(4,7) by (auto simp: getWriteBuffers_def Let_def split: if_splits)
  qed
  have sc: "concat (scatter (m_nodes ba1) iovs d) = overwrite (flat ba1) ?p d" "uniform ?b (scatter (m_nodes ba1) iovs d)"
    "length (scatter (m_nodes ba1) iovs d) = length (m_nodes ba1)" if "length d \<le> n" for d
    using iov_loop_scatter [OF loop w1(3) refl w1(1) _ i _ refl _ that] w1 w(8) by (simp_all add: flat_def)
  obtain len d k' where r: "sys_recv S fd n k = ((len, d), k')" by (metis prod.collapse)
  let ?ba2 = "ba1\<lparr>m_nodes := scatter (m_nodes ba1) iovs (map Some d)\<rparr>"
  show ?thesis
    using laws r
  proof (cases rule: recv_law)
    case 1
    have "?ba2 = ba1" if "length (scatter (m_nodes ba1) iovs []) = length (m_nodes ba1)"
    proof -
      have "scatter ns vs [] = ns" for ns :: "cell list list" and vs by (induction vs arbitrary: ns) simp_all
      then show ?thesis using 1 by simp
    qed
    then have "?ba2 = ba1" using sc(3) [of "[]"] by simp
    with 1 w r show ?thesis by (simp add: SocketStream_read_ba_def on_conn_io [OF on])
  next
    case 2
    have ld: "length (map Some d) \<le> n" and nl: "nat len = length d" using 2 by simp_all
    have f2: "flat ?ba2 = overwrite (flat ba1) ?p (map Some d)" using sc(1) [OF ld] by (simp add: flat_def)
    have wf2: "ba_wf ?ba2" using w(2) sc(2,3) [OF ld] w(7) by (simp add: ba_wf_def) (metis length_0_conv)
    have le: "m_position ?ba2 + nat len \<le> m_capacity ?ba2" using 2 w(4,8) by simp
    from setPosition_ok [OF wf2 le] obtain ba3 where b3: "setPosition ?ba2 (m_position ?ba2 + nat len) = Inr ba3"
      "ba_wf ba3" "cur_rd ba3" "m_position ba3 = ?p + nat len" "m_size ba3 = max (?p + nat len) (m_size ba)"
      "flat ba3 = flat ?ba2" "m_capacity ba3 = m_capacity ba1" "m_baseSize ba3 = ?b"
      using w(4,5,7) by auto
    have "content ba3 = overwrite (content ba) ?p (map Some d)"
    proof -
      have "?p + length (map Some d) \<le> length (flat ba1)" using w(2,4,8) 2 by simp
      then show ?thesis
        using take_max_overwrite [of ?p "m_size ba" "map Some d" "flat ba1"] b3(5,6) f2 w1(5,6) w(2,5,6) 2
        by (simp add: content_def nl)
    qed
    moreover have "cur_wr ba3" if "len < int n"
    proof -
      have "m_position ba3 < m_capacity ba3" using that 2 b3(4,7) w(8) by linarith
      then show ?thesis using cur_rd_below [OF b3(2)] b3(3) by blast
    qed
    moreover have "take (nat len) (incoming k) = d" using 2 by auto
    ultimately show ?thesis
      using 2 w(1,9) r b3 by (auto simp: SocketStream_read_ba_def Let_def on_conn_io [OF on])
  qed
qed

lemma read_loop_ba_ok:
  assumes laws: "conn_laws S fd incoming outgoing" and on: "on_conn ss fd"
  shows "ba_wf ba \<Longrightarrow> cur_wr ba \<Longrightarrow> \<exists>e ba' k' d. fix_loop_ba (SocketStream_read_ba S ss) left ba k = Inr (e, ba', k') \<and>
    ba_wf ba' \<and> incoming k = d @ incoming k' \<and> outgoing k' = outgoing k \<and>
    content ba' = overwrite (content ba) (m_position ba) (map Some d) \<and> m_position ba' = m_position ba + length d \<and>
    (case e of None \<Rightarrow> length d = nat left | Some len \<Rightarrow> len \<le> 0 \<and> length d < nat left)"
proof (induction "nat left" arbitrary: left ba k rule: less_induct)
  case less
  show ?case
  proof (cases "left > 0")
    case False
    then show ?thesis using less.prems by (auto simp: fix_loop_ba.simps [of _ left])
  next
    case True
    obtain len ba1 k1 where r: "SocketStream_read_ba S ss ba (nat left) k = Inr (len, ba1, k1)" and wf1: "ba_wf ba1"
      and out: "outgoing k1 = outgoing k"
      and c: "len \<le> 0 \<and> cur_wr ba1 \<and> m_position ba1 = m_position ba \<and> content ba1 = content ba \<and> incoming k1 = incoming k \<or>
        0 < len \<and> len \<le> int (nat left) \<and> m_position ba1 = m_position ba + nat len \<and>
        incoming k = take (nat len) (incoming k) @ incoming k1 \<and> nat len \<le> length (incoming k) \<and>
        content ba1 = overwrite (content ba) (m_position ba) (map Some (take (nat len) (incoming k))) \<and>
        cur_rd ba1 \<and> (len < int (nat left) \<longrightarrow> cur_wr ba1)"
      using read_ba_ok [OF laws on less.prems, of "nat left" k] True by auto
    show ?thesis
    proof (cases "len \<le> 0")
      case True
      then show ?thesis
        using r c out wf1 \<open>left > 0\<close> by (intro exI [of _ "[]"] exI [of _ "Some len"]) (auto simp: fix_loop_ba.simps [of _ left])
    next
      case False
      let ?d = "take (nat len) (incoming k)"
      have step: "fix_loop_ba (SocketStream_read_ba S ss) left ba k = fix_loop_ba (SocketStream_read_ba S ss) (left - len) ba1 k1"
        using False r True by (simp add: fix_loop_ba.simps [of _ left])
      have ld: "length ?d = nat len" and pl: "m_position ba \<le> length (content ba)"
        using c False ba_wfD(5) [OF less.prems(1)] less.prems(1) by auto
      show ?thesis
      proof (cases "len = left")
        case True
        then show ?thesis
          using c False out wf1 step ld by (intro exI [of _ ?d] exI [of _ None]) (auto simp: fix_loop_ba.simps [of _ 0])
      next
        case ne: False
        then have "nat (left - len) < nat left" "cur_wr ba1" using c False True by auto
        from less.hyps [OF this(1) wf1 this(2), of k1] obtain e ba' k' d where
          h: "fix_loop_ba (SocketStream_read_ba S ss) (left - len) ba1 k1 = Inr (e, ba', k')" "ba_wf ba'"
          "incoming k1 = d @ incoming k'" "outgoing k' = outgoing k1"
          "content ba' = overwrite (content ba1) (m_position ba1) (map Some d)" "m_position ba' = m_position ba1 + length d"
          "case e of None \<Rightarrow> length d = nat (left - len) | Some len' \<Rightarrow> len' \<le> 0 \<and> length d < nat (left - len)" by blast
        have sum: "nat len + nat (left - len) = nat left" using c False True by auto
        have "content ba' = overwrite (content ba) (m_position ba) (map Some (?d @ d))"
          using h(5) c False overwrite_continue [OF pl, of "map Some ?d" "map Some d"] ld by simp
        then show ?thesis
          using h c False out step ld sum
          by (intro exI [of _ "?d @ d"] exI [of _ e] exI [of _ ba'] exI [of _ k']) (auto split: option.splits)
      qed
    qed
  qed
qed

lemma write_ba_ok:
  assumes laws: "conn_laws S fd incoming outgoing" and on: "on_conn ss fd"
    and wf: "ba_wf ba" and cur: "cur_rd ba"
  shows "\<exists>len ba' k'. SocketStream_write_ba junk S ss ba n k = Inr (len, ba', k') \<and> ba_wf ba' \<and> cur_rd ba' \<and>
    incoming k' = incoming k \<and> content ba' = content ba \<and>
    (len \<le> 0 \<and> m_position ba' = m_position ba \<and> outgoing k' = outgoing k \<or>
     0 < len \<and> len \<le> int n \<and> nat len \<le> length (rest ba) \<and> m_position ba' = m_position ba + nat len \<and>
       outgoing k' = outgoing k @ map (cell_byte junk) (take (nat len) (rest ba)))"
proof -
  obtain iovs where w: "getReadBuffers ba n = Inr (min (length (rest ba)) n, iovs)" "gather (m_nodes ba) iovs = take n (rest ba)"
    using getReadBuffers_ok [OF wf cur] by blast
  obtain len k' where r: "sys_send S fd (map (cell_byte junk) (take n (rest ba))) k = (len, k')" by fastforce
  show ?thesis
    using laws r
  proof (cases rule: send_law)
    case 1
    then show ?thesis using w r wf cur by (simp add: SocketStream_write_ba_def on_conn_io [OF on])
  next
    case 2
    then have l: "nat len \<le> length (rest ba)" "nat len \<le> n" by auto
    then have le: "m_position ba + nat len \<le> m_size ba" using wf ba_wfD(5) [OF wf] by auto
    then have "m_position ba + nat len \<le> m_capacity ba" using ba_wfD(6) [OF wf] by linarith
    from setPosition_ok [OF wf this] obtain ba' where b: "setPosition ba (m_position ba + nat len) = Inr ba'"
      "ba_wf ba'" "cur_rd ba'" "m_position ba' = m_position ba + nat len" "m_size ba' = max (m_position ba + nat len) (m_size ba)"
      "flat ba' = flat ba" by blast
    have "content ba' = content ba" using b le by (simp add: content_def max_def)
    moreover have "take (nat len) (map (cell_byte junk) (take n (rest ba))) = map (cell_byte junk) (take (nat len) (rest ba))"
      using l by (simp add: take_map min_def)
    ultimately show ?thesis
      using 2 l w r b by (simp add: SocketStream_write_ba_def on_conn_io [OF on] take_map)
  qed
qed

lemma write_loop_ba_ok:
  assumes laws: "conn_laws S fd incoming outgoing" and on: "on_conn ss fd"
  shows "ba_wf ba \<Longrightarrow> cur_rd ba \<Longrightarrow> \<exists>e ba' k' n. fix_loop_ba (SocketStream_write_ba junk S ss) left ba k = Inr (e, ba', k') \<and>
    ba_wf ba' \<and> cur_rd ba' \<and> incoming k' = incoming k \<and> content ba' = content ba \<and> n \<le> length (rest ba) \<and>
    outgoing k' = outgoing k @ map (cell_byte junk) (take n (rest ba)) \<and> m_position ba' = m_position ba + n \<and>
    (case e of None \<Rightarrow> n = nat left | Some len \<Rightarrow> len \<le> 0 \<and> n < nat left)"
proof (induction "nat left" arbitrary: left ba k rule: less_induct)
  case less
  show ?case
  proof (cases "left > 0")
    case False
    then show ?thesis using less.prems by (auto simp: fix_loop_ba.simps [of _ left])
  next
    case True
    obtain len ba1 k1 where r: "SocketStream_write_ba junk S ss ba (nat left) k = Inr (len, ba1, k1)"
      and wf1: "ba_wf ba1" "cur_rd ba1" "incoming k1 = incoming k" "content ba1 = content ba"
      and c: "len \<le> 0 \<and> m_position ba1 = m_position ba \<and> outgoing k1 = outgoing k \<or>
       0 < len \<and> len \<le> int (nat left) \<and> nat len \<le> length (rest ba) \<and> m_position ba1 = m_position ba + nat len \<and>
       outgoing k1 = outgoing k @ map (cell_byte junk) (take (nat len) (rest ba))"
      using write_ba_ok [OF laws on less.prems, of junk "nat left" k] by blast
    show ?thesis
    proof (cases "len \<le> 0")
      case True
      then show ?thesis
        using r c wf1 \<open>left > 0\<close> by (intro exI [of _ 0] exI [of _ "Some len"]) (auto simp: fix_loop_ba.simps [of _ left])
    next
      case False
      have step: "fix_loop_ba (SocketStream_write_ba junk S ss) left ba k = fix_loop_ba (SocketStream_write_ba junk S ss) (left - len) ba1 k1"
        using False r True by (simp add: fix_loop_ba.simps [of _ left])
      have rest1: "rest ba1 = drop (nat len) (rest ba)" using c False wf1 by (simp add: rest_def add.commute)
      have "nat (left - len) < nat left" using False True by auto
      from less.hyps [OF this wf1(1,2), of k1] obtain e ba' k' n where
        h: "fix_loop_ba (SocketStream_write_ba junk S ss) (left - len) ba1 k1 = Inr (e, ba', k')" "ba_wf ba'" "cur_rd ba'"
        "incoming k' = incoming k1" "content ba' = content ba1" "n \<le> length (rest ba1)"
        "outgoing k' = outgoing k1 @ map (cell_byte junk) (take n (rest ba1))" "m_position ba' = m_position ba1 + n"
        "case e of None \<Rightarrow> n = nat (left - len) | Some len' \<Rightarrow> len' \<le> 0 \<and> n < nat (left - len)" by blast
      have sum: "nat len + nat (left - len) = nat left" using c False True by auto
      have "outgoing k' = outgoing k @ map (cell_byte junk) (take (nat len + n) (rest ba))"
        using h(7) c False rest1 by (simp add: take_add)
      moreover have "nat len + n \<le> length (rest ba)" using h(6) c False unfolding rest1 length_drop by linarith
      ultimately show ?thesis
        using h c False wf1 step sum
        by (intro exI [of _ "nat len + n"] exI [of _ e] exI [of _ ba'] exI [of _ k']) (auto split: option.splits)
    qed
  qed
qed

subsection \<open>A connection that satisfies the laws\<close>

text \<open>
  The state is what is still to come and what was sent; a receive gives at most two
  bytes and a send takes at most three.
\<close>

definition pipe_sys :: "(u8 list \<times> u8 list, int) sys" where
  "pipe_sys = \<lparr>sys_socket = \<lambda>f t p k. (-1, k), sys_accept = \<lambda>l k. (-1, k),
     sys_bind = \<lambda>fd a k. (0, k), sys_connect = \<lambda>fd a k. (0, k), sys_connect_with_timeout = \<lambda>fd a t k. (0, k),
     sys_listen = \<lambda>fd b k. (0, k), sys_close = \<lambda>fd k. k,
     sys_send = \<lambda>fd b (i, out). (int (min 3 (length b)), i, out @ take 3 b),
     sys_recv = \<lambda>fd n (i, out). ((int (length (take (min 2 n) i)), take (min 2 n) i), drop (min 2 n) i, out),
     sys_sendto = \<lambda>fd b a k. (-1, k), sys_recvfrom = \<lambda>fd n k. ((-1, []), k),
     sys_getpeername = \<lambda>fd k. None, sys_getsockname = \<lambda>fd k. None, sys_setsockopt = \<lambda>fd l p v k. (0, k),
     sys_getsockopt = \<lambda>fd l p k. None, sys_fd_timeout = \<lambda>fd p k. None, sys_cancel_read = \<lambda>fd k. (False, k),
     sys_cancel_write = \<lambda>fd k. (False, k), sys_cancel_all = \<lambda>fd k. (False, k),
     sys_fdmgr_socket = \<lambda>fd k. True, addr_family = id, UnknownAddress = id\<rparr>"

lemma pipe_laws: "conn_laws pipe_sys fd fst snd"
  by (auto simp: conn_laws_def pipe_sys_def min_def split: if_splits)

definition pipe_stream :: "int SocketStream" where
  "pipe_stream = \<lparr>ss_socket = Some ((new_Socket 2 1 0)\<lparr>m_sock := 5, m_isConnected := True\<rparr>), ss_owner = True\<rparr>"

lemma pipe_on: "on_conn pipe_stream 5"
  by (simp add: on_conn_def pipe_stream_def)

subsection \<open>Properties of the streams\<close>

text \<open>
  Property C22. Sending: however the system splits the sends, \<open>writeFixSize\<close> either
  returns the length after the connection took exactly those bytes in order, or
  returns the first non-positive count after a proper prefix. For a \<open>ByteArray\<close> the
  read position moves by exactly the bytes that were sent, the content stays, and no
  null node is dereferenced.
\<close>

theorem stream_send_exact:
  assumes "conn_laws S fd incoming outgoing" "on_conn ss fd" "length bs < 2 ^ 31"
    and "ba_wf ba" "cur_rd ba" "rest ba = map Some bs"
  shows "(\<exists>r k' n. writeFixSize (SocketStream_write S ss) bs k = (r, k') \<and> outgoing k' = outgoing k @ take n bs \<and>
      (r = int (length bs) \<and> n = length bs \<or> r \<le> 0 \<and> n < length bs)) \<and>
    (\<exists>r ba' k' n. fixSize_ba (SocketStream_write_ba junk S ss) ba (length bs) k = Inr (r, ba', k') \<and>
      outgoing k' = outgoing k @ take n bs \<and> m_position ba' = m_position ba + n \<and> content ba' = content ba \<and> ba_wf ba' \<and>
      (r = int (length bs) \<and> n = length bs \<or> r \<le> 0 \<and> n < length bs))"
proof
  obtain e k' where w: "writeFix_loop (sys_send S fd) bs 0 (int (length bs)) k = (e, k')" by fastforce
  from writeFix_loop_ok [OF assms(1) w] obtain n where "outgoing k' = outgoing k @ take n bs"
    "case e of None \<Rightarrow> n = length bs | Some len \<Rightarrow> len \<le> 0 \<and> n < length bs"
    by (auto simp del: append_same_eq cong: option.case_cong)
  with w assms(3) show "\<exists>r k' n. writeFixSize (SocketStream_write S ss) bs k = (r, k') \<and> outgoing k' = outgoing k @ take n bs \<and>
      (r = int (length bs) \<and> n = length bs \<or> r \<le> 0 \<and> n < length bs)"
    by (cases e) (auto simp: writeFixSize_def on_conn_io [OF assms(2)] intro: exI [of _ n])
  obtain e ba' k' n where h: "fix_loop_ba (SocketStream_write_ba junk S ss) (int (length bs)) ba k = Inr (e, ba', k')"
    "ba_wf ba'" "content ba' = content ba" "outgoing k' = outgoing k @ map (cell_byte junk) (take n (rest ba))"
    "m_position ba' = m_position ba + n" "case e of None \<Rightarrow> n = length bs | Some len \<Rightarrow> len \<le> 0 \<and> n < length bs"
    using write_loop_ba_ok [OF assms(1,2,4,5), of junk "int (length bs)" k] unfolding nat_int by blast
  have "map (cell_byte junk) (take n (rest ba)) = take n bs"
    by (simp add: assms(6) take_map comp_def cell_byte_def)
  with h assms(3) show "\<exists>r ba' k' n. fixSize_ba (SocketStream_write_ba junk S ss) ba (length bs) k = Inr (r, ba', k') \<and>
      outgoing k' = outgoing k @ take n bs \<and> m_position ba' = m_position ba + n \<and> content ba' = content ba \<and> ba_wf ba' \<and>
      (r = int (length bs) \<and> n = length bs \<or> r \<le> 0 \<and> n < length bs)"
    by (cases e) (auto simp: fixSize_ba_def)
qed

text \<open>
  Property C23. Receiving: however the system splits the data, \<open>readFixSize\<close> either
  returns the length with exactly the next bytes of the connection, or the first
  non-positive count with the fewer bytes that came; what follows stays for the next
  call. Into a \<open>ByteArray\<close> the bytes are written at the position across node boundaries,
  as one flat overwrite, and the position ends behind them.
\<close>

theorem stream_recv_exact:
  assumes "conn_laws S fd incoming outgoing" "on_conn ss fd" "n < 2 ^ 31" "ba_wf ba" "cur_wr ba"
  shows "(\<exists>r d k'. readFixSize (SocketStream_read S ss) n k = (r, d, k') \<and> incoming k = d @ incoming k' \<and>
      (r = int n \<and> length d = n \<or> r \<le> 0 \<and> length d < n)) \<and>
    (\<exists>r ba' k' d. fixSize_ba (SocketStream_read_ba S ss) ba n k = Inr (r, ba', k') \<and> incoming k = d @ incoming k' \<and>
      content ba' = overwrite (content ba) (m_position ba) (map Some d) \<and> m_position ba' = m_position ba + length d \<and>
      ba_wf ba' \<and> (r = int n \<and> length d = n \<or> r \<le> 0 \<and> length d < n))"
proof
  obtain e d k' where w: "readFix_loop (sys_recv S fd) (int n) [] k = (e, d, k')" by (metis prod.collapse)
  from readFix_loop_ok [OF assms(1) w] have "incoming k = d @ incoming k'"
    "case e of None \<Rightarrow> length d = n | Some len \<Rightarrow> len \<le> 0 \<and> length d < n"
    by (simp_all cong: option.case_cong)
  with w assms(3) show "\<exists>r d k'. readFixSize (SocketStream_read S ss) n k = (r, d, k') \<and> incoming k = d @ incoming k' \<and>
      (r = int n \<and> length d = n \<or> r \<le> 0 \<and> length d < n)"
    by (cases e) (auto simp: readFixSize_def on_conn_io [OF assms(2)])
  obtain e ba' k' d where "fix_loop_ba (SocketStream_read_ba S ss) (int n) ba k = Inr (e, ba', k')"
    "ba_wf ba'" "incoming k = d @ incoming k'" "content ba' = overwrite (content ba) (m_position ba) (map Some d)"
    "m_position ba' = m_position ba + length d" "case e of None \<Rightarrow> length d = n | Some len \<Rightarrow> len \<le> 0 \<and> length d < n"
    using read_loop_ba_ok [OF assms(1,2,4,5), of "int n" k] unfolding nat_int by blast
  with assms(3) show "\<exists>r ba' k' d. fixSize_ba (SocketStream_read_ba S ss) ba n k = Inr (r, ba', k') \<and> incoming k = d @ incoming k' \<and>
      content ba' = overwrite (content ba) (m_position ba) (map Some d) \<and> m_position ba' = m_position ba + length d \<and>
      ba_wf ba' \<and> (r = int n \<and> length d = n \<or> r \<le> 0 \<and> length d < n)"
    by (cases e) (auto simp: fixSize_ba_def)
qed

theorem stream_recv_exact_witness:
  "\<exists>r ba' k' d. fixSize_ba (SocketStream_read_ba pipe_sys pipe_stream) (new_ByteArray 2) 5 ([1, 2, 3, 4, 5, 6], []) = Inr (r, ba', k')
     \<and> [1, 2, 3, 4, 5, 6] = d @ fst k' \<and> content ba' = map Some d"
  using stream_recv_exact [OF pipe_laws pipe_on, of 5 "new_ByteArray 2" "([1, 2, 3, 4, 5, 6], [])"] new_ByteArray_wf [of 2]
  by (fastforce simp: new_ByteArray_def content_def overwrite_def)

theorem stream_send_exact_witness:
  "\<exists>r k' n. writeFixSize (SocketStream_write pipe_sys pipe_stream) [1, 2, 3, 4] ([], [9]) = (r, k')
     \<and> snd k' = [9] @ take n [1, 2, 3, 4]"
proof -
  obtain ba where "ba_write (new_ByteArray 2) (map Some [1, 2, 3, 4]) = Inr ba" "ba_wf ba" "content ba = map Some [1, 2, 3, 4]"
    using write_nonempty [of "new_ByteArray 2" "map Some [1, 2, 3, 4]"] new_ByteArray_wf [of 2]
    by (auto simp: new_ByteArray_def content_def overwrite_def)
  with rewind_ok [of ba] obtain ba' where "ba_wf ba'" "cur_rd ba'" "rest ba' = map Some [1, 2, 3, 4]"
    by (auto simp: ba_readable_def)
  from stream_send_exact [OF pipe_laws pipe_on _ this, of "([], [9])" 0] show ?thesis by auto
qed

end
