(* ===== verification/Civan_Http_Server.thy ===== *)
theory Civan_Http_Server
  imports Civan_Http_Parser Civan_Servlet Civan_Stream
begin

section \<open>HTTP sessions and the server\<close>

text \<open>
  \<open>civan/http/http_session.cc\<close> and \<open>http_server.cc\<close>: the receive loop of \<open>HttpSession\<close> over the
  request parser of \<open>Civan_Http_Parser\<close> and the streams, and the keep-alive loop of
  \<open>HttpServer\<close>. A loop that does not end is \<open>None\<close>; the lemmas show that on a connection with
  finitely many bytes to come every call ends.
\<close>

subsection \<open>Receiving a request\<close>

text \<open>
  The environment of a session: the system, what the memory of a new parser holds,
  \<open>lexical_cast\<close> to \<open>uint64_t\<close> and the configured buffer size. \<open>None\<close> as the second component is the null request.
\<close>

record ('k, 'a) http_env =
  env_sys :: "('k, 'a) sys"
  env_mem :: http_parser
  env_cast :: "u8 list \<Rightarrow> u64 option"
  env_buff_size :: nat

text \<open>
  The loop reads behind the unparsed bytes \<open>data\<close> that the last round left. The inner \<open>Inl\<close> is
  the early return, with the stream closed; a fault is an exception of a callback.
\<close>

partial_function (option) recv_loop ::
  "('k, 'a) http_env \<Rightarrow> 'a SocketStream \<Rightarrow> u8 list \<Rightarrow> HttpRequestParser \<Rightarrow> 'k \<Rightarrow>
   ('a SocketStream \<times> 'k + u8 list \<times> HttpRequestParser \<times> 'k) res option" where
  "recv_loop E ss data p k =
     (let ((len, d), k1) = SocketStream_read (env_sys E) ss (env_buff_size E - length data) k in
      if len \<le> 0 then Some (Inr (Inl (SocketStream_close (env_sys E) ss k1)))
      else case RequestParser_execute (data @ d) p of Inl e \<Rightarrow> Some (Inl e)
      | Inr (nparse, data', p') \<Rightarrow>
        if RequestParser_hasError p' then Some (Inr (Inl (SocketStream_close (env_sys E) ss k1)))
        else if length data' = env_buff_size E then Some (Inr (Inl (SocketStream_close (env_sys E) ss k1)))
        else if RequestParser_isFinished p' \<noteq> 0 then Some (Inr (Inr (data', p', k1)))
        else recv_loop E ss data' p' k1)"

text \<open>
  The body: \<open>length\<close> bytes are allocated, the unparsed bytes are copied, and where they
  are not enough, \<open>length\<close> more (not \<open>length - offset\<close>) are read behind them. A write
  past the end of the allocation is \<open>BadPointer\<close>.
\<close>

definition recv_body ::
  "('k, 'a) http_env \<Rightarrow> 'a SocketStream \<Rightarrow> nat \<Rightarrow> u8 list \<Rightarrow> 'k \<Rightarrow> (u8 list option \<times> 'a SocketStream \<times> 'k) res" where
  "recv_body E ss len data k =
     (if len > length data
      then let (r, d, k1) = readFixSize (SocketStream_read (env_sys E) ss) len k
           in if length data + length d > len then Inl BadPointer
              else if r \<le> 0 then Inr (None, SocketStream_close (env_sys E) ss k1)
              else Inr (Some (data @ d), ss, k1)
      else Inr (Some (take len data), ss, k))"

definition recvRequest ::
  "('k, 'a) http_env \<Rightarrow> 'a SocketStream \<Rightarrow> 'k \<Rightarrow> (HttpRequest option \<times> 'a SocketStream \<times> 'k) res option" where
  "recvRequest E ss k =
     (case recv_loop E ss [] (new_HttpRequestParser (env_mem E)) k of
        None \<Rightarrow> None
      | Some (Inl e) \<Rightarrow> Some (Inl e)
      | Some (Inr (Inl (ss', k1))) \<Rightarrow> Some (Inr (None, ss', k1))
      | Some (Inr (Inr (data, p, k1))) \<Rightarrow> Some (
          let len = sint (getContentLength (env_cast E) p) in
          if len > 0
          then rbind (recv_body E ss (nat len) data k1) (\<lambda>(body, ss', k2). case body of
                 None \<Rightarrow> Inr (None, ss', k2)
               | Some b \<Rightarrow> Inr (Some (HttpRequest_init (rp_data (upd_data (m_body_update (\<lambda>_. b)) p))), ss', k2))
          else Inr (Some (HttpRequest_init (rp_data p)), ss, k1)))"

definition sendResponse :: "('k, 'a) http_env \<Rightarrow> 'a SocketStream \<Rightarrow> HttpResponse \<Rightarrow> 'k \<Rightarrow> int \<times> 'k" where
  "sendResponse E ss rsp k = writeFixSize (SocketStream_write (env_sys E) ss) (HttpResponse_dump rsp) k"

subsection \<open>The server\<close>

type_synonym ('k, 'a) session = "'a SocketStream \<times> 'k"

text \<open>\<open>n\<close> counts the requests answered on the connection.\<close>

partial_function (option) client_loop ::
  "(bytes \<Rightarrow> bytes \<Rightarrow> bool) \<Rightarrow> ('k, 'a) http_env \<Rightarrow> bool \<Rightarrow> ('k, 'a) session ServletDispatch \<Rightarrow>
   'a SocketStream \<Rightarrow> 'k \<Rightarrow> nat \<Rightarrow> (nat \<times> 'a SocketStream \<times> 'k) res option" where
  "client_loop fnmatch E keepalive d ss k n =
     (case recvRequest E ss k of
        None \<Rightarrow> None
      | Some (Inl e) \<Rightarrow> Some (Inl e)
      | Some (Inr (None, ss1, k1)) \<Rightarrow> Some (Inr (n, ss1, k1))
      | Some (Inr (Some req, ss1, k1)) \<Rightarrow>
          (let rsp = HttpResponse_ctor (m_version req) (m_close req \<or> \<not> keepalive);
               (_, req', rsp', ss2, k2) = ServletDispatch_handle fnmatch d req rsp (ss1, k1);
               (_, k3) = sendResponse E ss2 rsp' k2
           in if \<not> keepalive \<or> m_close req' then Some (Inr (Suc n, ss2, k3))
              else client_loop fnmatch E keepalive d ss2 k3 (Suc n)))"

definition handleClient ::
  "(bytes \<Rightarrow> bytes \<Rightarrow> bool) \<Rightarrow> ('k, 'a) http_env \<Rightarrow> bool \<Rightarrow> ('k, 'a) session ServletDispatch \<Rightarrow>
   'a Socket \<Rightarrow> 'k \<Rightarrow> (nat \<times> 'a SocketStream \<times> 'k) res option" where
  "handleClient fnmatch E keepalive d client k =
     map_option (\<lambda>r. rbind r (\<lambda>(n, ss, k'). Inr (n, SocketStream_close (env_sys E) ss k')))
       (client_loop fnmatch E keepalive d (new_SocketStream (Some client) True) k 0)"

subsection \<open>Every call ends on a finite connection\<close>

lemma close_disconnects: "SocketStream_close S ss k = (ss', k') \<Longrightarrow> \<not> SocketStream_isConnected ss'"
  by (auto simp: SocketStream_close_def SocketStream_isConnected_def Socket_close_def Let_def
      split: option.splits if_splits)

text \<open>What a fault of a session can be: an exception of a callback, or a body that overruns its memory.\<close>

definition session_fault :: "fault \<Rightarrow> bool" where
  "session_fault e \<longleftrightarrow> e = LogicError \<or> e = BadPointer"

lemma recv_loop_ends:
  assumes laws: "conn_laws (env_sys E) fd incoming outgoing" and on: "on_conn ss fd" and size: "env_buff_size E < 2 ^ 31"
    and "length data \<le> env_buff_size E" "rp_ready p"
  shows "(\<exists>e. recv_loop E ss data p k = Some (Inl e) \<and> session_fault e) \<or>
    (\<exists>ss' k'. recv_loop E ss data p k = Some (Inr (Inl (ss', k'))) \<and> \<not> SocketStream_isConnected ss') \<or>
    (\<exists>data' p' k'. recv_loop E ss data p k = Some (Inr (Inr (data', p', k'))) \<and>
       length (incoming k') < length (incoming k) \<and> outgoing k' = outgoing k)"
  using assms(4,5)
proof (induction "length (incoming k)" arbitrary: data p k rule: less_induct)
  case less
  note io = on_conn_io(2) [OF on, of "env_sys E"]
  obtain len d k1 where r: "sys_recv (env_sys E) fd (env_buff_size E - length data) k = ((len, d), k1)" by (metis prod.collapse)
  obtain ss' k' where cl: "SocketStream_close (env_sys E) ss k1 = (ss', k')" by fastforce
  have dis: "\<not> SocketStream_isConnected ss'" by (rule close_disconnects [OF cl])
  show ?case
    using laws r
  proof (cases rule: recv_law)
    case 1
    then have "recv_loop E ss data p k = Some (Inr (Inl (ss', k')))" by (subst recv_loop.simps) (simp add: io r cl)
    then show ?thesis using dis by blast
  next
    case 2
    have sm: "length (incoming k1) < length (incoming k)" and ne: "data @ d \<noteq> []" using 2 by auto
    have small: "length (data @ d) < 2 ^ 31" using 2 size less.prems(1) by auto
    show ?thesis
      using less.prems(2) small
    proof (cases rule: RequestParser_execute_cases)
      case (1 e)
      then have "recv_loop E ss data p k = Some (Inl e)" using 2 by (subst recv_loop.simps) (simp add: io r)
      then show ?thesis using 1(2) by (simp add: session_fault_def)
    next
      case (2 n p')
      have step: "recv_loop E ss data p k =
         (if RequestParser_hasError p' \<or> length (drop n (data @ d)) = env_buff_size E then Some (Inr (Inl (ss', k')))
          else if RequestParser_isFinished p' \<noteq> 0 then Some (Inr (Inr (drop n (data @ d), p', k1)))
          else recv_loop E ss (drop n (data @ d)) p' k1)"
        using \<open>0 < len\<close> by (subst recv_loop.simps) (simp add: io r cl 2(1))
      have IH: "RequestParser_isFinished p' = 0 \<Longrightarrow> ?thesis"
        if "\<not> (RequestParser_hasError p' \<or> length (drop n (data @ d)) = env_buff_size E)"
        using less.hyps [OF sm, of "drop n (data @ d)" p'] 2(2) ne sm step that \<open>outgoing k1 = outgoing k\<close> by auto
      then show ?thesis using step dis sm \<open>outgoing k1 = outgoing k\<close> by (auto split: if_splits)
    qed
  qed
qed

lemma readFixSize_ok:
  assumes "conn_laws S fd incoming outgoing" "on_conn ss fd" "readFixSize (SocketStream_read S ss) n k = (r, d, k')"
  shows "incoming k = d @ incoming k'" "outgoing k' = outgoing k" "length d = n \<or> r \<le> 0 \<and> length d < n"
    "n < 2 ^ 31 \<Longrightarrow> length d = n \<Longrightarrow> r = int n"
proof -
  obtain e d' k1 where w: "readFix_loop (sys_recv S fd) (int n) [] k = (e, d', k1)" by (metis prod.collapse)
  have q: "incoming k = d' @ incoming k1" "outgoing k1 = outgoing k"
    "case e of None \<Rightarrow> length d' = n | Some len \<Rightarrow> len \<le> 0 \<and> length d' < n"
    using readFix_loop_ok [OF assms(1) w] by (simp_all cong: option.case_cong)
  have "d' = d \<and> k1 = k' \<and> r = (case e of None \<Rightarrow> as_int n | Some len \<Rightarrow> len)"
    using assms(3) w by (cases e) (simp_all add: readFixSize_def on_conn_io [OF assms(2)])
  with q show "incoming k = d @ incoming k'" "outgoing k' = outgoing k" "length d = n \<or> r \<le> 0 \<and> length d < n"
    "n < 2 ^ 31 \<Longrightarrow> length d = n \<Longrightarrow> r = int n"
    by (auto split: option.splits)
qed

lemma recv_body_ends:
  assumes laws: "conn_laws (env_sys E) fd incoming outgoing" and on: "on_conn ss fd"
  shows "recv_body E ss len data k = Inl BadPointer \<or>
    (\<exists>ss' k'. recv_body E ss len data k = Inr (None, ss', k') \<and> \<not> SocketStream_isConnected ss') \<or>
    (\<exists>b k'. recv_body E ss len data k = Inr (Some b, ss, k') \<and> length (incoming k') \<le> length (incoming k))"
proof (cases "len > length data")
  case True
  obtain r d k1 where w: "readFixSize (SocketStream_read (env_sys E) ss) len k = (r, d, k1)" by (metis prod.collapse)
  obtain ss' k' where cl: "SocketStream_close (env_sys E) ss k1 = (ss', k')" by fastforce
  have "\<not> SocketStream_isConnected ss'" by (rule close_disconnects [OF cl])
  moreover have "length (incoming k1) \<le> length (incoming k)" using readFixSize_ok(1) [OF laws on w] by simp
  ultimately show ?thesis using True by (auto simp: recv_body_def w cl)
qed (simp add: recv_body_def)

lemma recvRequest_ends:
  assumes laws: "conn_laws (env_sys E) fd incoming outgoing" and on: "on_conn ss fd" and size: "env_buff_size E < 2 ^ 31"
  shows "(\<exists>e. recvRequest E ss k = Some (Inl e) \<and> session_fault e) \<or>
    (\<exists>ss' k'. recvRequest E ss k = Some (Inr (None, ss', k')) \<and> \<not> SocketStream_isConnected ss') \<or>
    (\<exists>rq k'. recvRequest E ss k = Some (Inr (Some rq, ss, k')) \<and> length (incoming k') < length (incoming k))"
  using recv_loop_ends [OF laws on size, of "[]" "new_HttpRequestParser (env_mem E)" k, simplified, OF new_parser_ready]
proof (elim disjE exE conjE)
  fix data' p' k'
  assume r: "recv_loop E ss [] (new_HttpRequestParser (env_mem E)) k = Some (Inr (Inr (data', p', k')))"
    and sm: "length (incoming k') < length (incoming k)"
  let ?len = "sint (getContentLength (env_cast E) p')"
  show ?thesis
  proof (cases "?len > 0")
    case True
    have e: "recvRequest E ss k = Some (rbind (recv_body E ss (nat ?len) data' k') (\<lambda>(body, ss', k2). case body of
                 None \<Rightarrow> Inr (None, ss', k2)
               | Some b \<Rightarrow> Inr (Some (HttpRequest_init (rp_data (upd_data (m_body_update (\<lambda>_. b)) p'))), ss', k2)))"
      using True by (simp add: recvRequest_def r)
    from recv_body_ends [OF laws on, of "nat ?len" data' k'] show ?thesis
      unfolding e using sm by (fastforce simp: session_fault_def)
  next
    case False
    then show ?thesis using sm by (simp add: recvRequest_def r)
  qed
qed (auto simp: recvRequest_def)

text \<open>The servlets answer through the response and leave the connection to the server.\<close>

definition session_untouched :: "(bytes \<Rightarrow> bytes \<Rightarrow> bool) \<Rightarrow> 'se ServletDispatch \<Rightarrow> bool" where
  "session_untouched fnmatch d \<longleftrightarrow>
     (\<forall>rq rsp se. snd (snd (snd (ServletDispatch_handle fnmatch d rq rsp se))) = se)"

lemma sendResponse_incoming:
  assumes "conn_laws (env_sys E) fd incoming outgoing" "on_conn ss fd" "sendResponse E ss rsp k = (r, k')"
  shows "incoming k' = incoming k"
proof -
  obtain e k1 where w: "writeFix_loop (sys_send (env_sys E) fd) (HttpResponse_dump rsp) 0 (int (length (HttpResponse_dump rsp))) k = (e, k1)"
    by fastforce
  have "k1 = k'" using assms(3) w by (cases e) (simp_all add: sendResponse_def writeFixSize_def on_conn_io [OF assms(2)])
  with writeFix_loop_ok [OF assms(1) w] show ?thesis by auto
qed

lemma client_loop_ends:
  assumes laws: "conn_laws (env_sys E) fd incoming outgoing" and on: "on_conn ss fd" and un: "session_untouched fnmatch d"
    and size: "env_buff_size E < 2 ^ 31"
  shows "(\<exists>e. client_loop fnmatch E keepalive d ss k n = Some (Inl e) \<and> session_fault e) \<or>
    (\<exists>n' ss' k'. client_loop fnmatch E keepalive d ss k n = Some (Inr (n', ss', k')) \<and> n \<le> n' \<and>
       n' \<le> n + length (incoming k) \<and> (\<not> keepalive \<longrightarrow> n' \<le> Suc n))"
proof (induction "length (incoming k)" arbitrary: k n rule: less_induct)
  case less
  consider e where "recvRequest E ss k = Some (Inl e)" "session_fault e"
    | ss' k' where "recvRequest E ss k = Some (Inr (None, ss', k'))"
    | rq k1 where "recvRequest E ss k = Some (Inr (Some rq, ss, k1))" "length (incoming k1) < length (incoming k)"
    using recvRequest_ends [OF laws on size, of k] by blast
  then show ?case
  proof cases
    case (1 e)
    then have "client_loop fnmatch E keepalive d ss k n = Some (Inl e)" by (subst client_loop.simps) simp
    then show ?thesis using 1(2) by blast
  next
    case 2
    then have "client_loop fnmatch E keepalive d ss k n = Some (Inr (n, ss', k'))" by (subst client_loop.simps) simp
    then show ?thesis by simp
  next
    case 3
    let ?rsp = "HttpResponse_ctor (m_version rq) (m_close rq \<or> \<not> keepalive)"
    obtain r rq' rsp' where h: "ServletDispatch_handle fnmatch d rq ?rsp (ss, k1) = (r, rq', rsp', ss, k1)"
      using un unfolding session_untouched_def by (metis prod.collapse)
    obtain sr k3 where sd: "sendResponse E ss rsp' k1 = (sr, k3)" by fastforce
    have inc: "length (incoming k3) < length (incoming k)"
      using sendResponse_incoming [OF laws on sd] 3(2) by simp
    have step: "client_loop fnmatch E keepalive d ss k n = (if \<not> keepalive \<or> m_close rq' then Some (Inr (Suc n, ss, k3))
        else client_loop fnmatch E keepalive d ss k3 (Suc n))"
      by (subst client_loop.simps) (simp add: 3(1) h sd)
    show ?thesis
    proof (cases "\<not> keepalive \<or> m_close rq'")
      case True
      then show ?thesis using inc step by auto
    next
      case False
      then show ?thesis using less [OF inc, of "Suc n"] inc step by auto
    qed
  qed
qed

subsection \<open>An environment for examples\<close>

definition pipe_env :: "(u8 list \<times> u8 list, int) http_env" where
  "pipe_env = \<lparr>env_sys = pipe_sys, env_mem = sample_mem, env_cast = \<lambda>s. None, env_buff_size = 4096\<rparr>"

lemma default_untouched: "session_untouched fnmatch new_ServletDispatch"
  by (simp add: session_untouched_def ServletDispatch_handle_def getMatchedServlet_def new_ServletDispatch_def
      new_NotFoundServlet_def NotFoundServlet_handle_def)

subsection \<open>Properties of the server\<close>





end
