(* ===== verification/Civan_Http_Exchange.thy ===== *)
theory Civan_Http_Exchange
  imports Civan_Http_Server
begin

section \<open>An exchange over a connection\<close>

text \<open>
  The composition of the HTTP parts: a client prints a request, the session of the server
  receives it through the stream, the parser and the automaton, the dispatcher calls a servlet,
  and what the servlet answered is printed on the connection.
\<close>

subsection \<open>Receiving a printed request\<close>

text \<open>\<open>boost::lexical_cast<uint64_t>\<close> reads a printed number.\<close>

definition cast_law :: "(u8 list \<Rightarrow> u64 option) \<Rightarrow> bool" where
  "cast_law cast \<longleftrightarrow> (\<forall>n < 2 ^ 63. cast (show_nat n) = Some (of_nat n))"

text \<open>A request that tells the length of its body: an empty one has no such header.\<close>

definition length_told :: "HttpRequest \<Rightarrow> bool" where
  "length_told r \<longleftrightarrow> (m_body r = [] \<longrightarrow> MapType_find (lit ''content-length'') (m_headers r) = None)"

text \<open>What a request is on the other side.\<close>

definition same_request :: "HttpRequest \<Rightarrow> HttpRequest \<Rightarrow> bool" where
  "same_request r rq \<longleftrightarrow> m_method rq = m_method r \<and> m_version rq = m_version r \<and> m_path rq = m_path r \<and>
     m_query rq = m_query r \<and> m_fragment rq = m_fragment r \<and> m_body rq = m_body r \<and> m_close rq = m_close r \<and>
     (\<forall>key def. \<not> same_name key (lit ''content-length'') \<longrightarrow> \<not> same_name key (lit ''connection'') \<longrightarrow>
        HttpRequest_getHeader rq key def = HttpRequest_getHeader r key def)"

lemma dump_longer: "printable r \<Longrightarrow> length (m_body r) < length (HttpRequest_dump r)"
  using dump_request_head [of r] by (auto simp: printable_def request_head_def)

text \<open>What the parser makes of a printed request, and the headers in it.\<close>

definition parsed_request :: "HttpRequest \<Rightarrow> HttpRequest" where
  "parsed_request r = (HttpRequest_ctor 0x11 True)\<lparr>m_method := m_method r, m_path := m_path r, m_query := m_query r,
     m_fragment := m_fragment r, m_version := m_version r, m_headers := fold (\<lambda>(k, v). MapType_set k v) (printed_fields r) []\<rparr>"

lemma parsed_find:
  assumes "printable r" "\<not> m_websocket r"
  shows "MapType_find key (m_headers (parsed_request r)) =
    (if m_body r \<noteq> [] \<and> same_name key (lit ''content-length'') then Some (show_nat (length (m_body r)))
     else if same_name key (lit ''connection'') then Some (snd (connection_field (m_close r)))
     else MapType_find key (m_headers r))"
proof -
  have "headers.keys_ordered (m_headers r)" using assms(1) by (simp add: printable_def)
  note f = find_printed_fields [OF this]
  have "MapType_find key (fold (\<lambda>(k, v). MapType_set k v) (printed_fields r) []) = first_named key (rev (printed_fields r))"
    using find_fold_set [of "[]" key "printed_fields r"] by (simp add: map_find_def split: option.split)
  then show ?thesis using assms(2) by (simp add: parsed_request_def f)
qed

lemma names_differ:
  "\<not> same_name (lit ''connection'') (lit ''content-length'')" "\<not> same_name (lit ''content-length'') (lit ''connection'')"
  "same_name (lit ''content-length'') (lit ''content-length'')" "same_name (lit ''connection'') (lit ''connection'')"
  by code_simp+

lemma parsed_init:
  assumes "printable r" "\<not> m_websocket r"
  shows "same_request r (HttpRequest_init ((parsed_request r)\<lparr>m_body := m_body r\<rparr>))"
proof -
  let ?p = "(parsed_request r)\<lparr>m_body := m_body r\<rparr>"
  have h: "HttpRequest_getHeader ?p key def = or_default (MapType_find key (m_headers (parsed_request r))) def" for key def
    by (simp add: HttpRequest_getHeader_def)
  have "strcasecmp (c_str (lit ''close'')) (lit ''keep-alive'') \<noteq> 0" "strcasecmp (c_str (lit ''keep-alive'')) (lit ''keep-alive'') = 0"
    "lit ''close'' \<noteq> []" "lit ''keep-alive'' \<noteq> []"
    by code_simp+
  then have "HttpRequest_init ?p = ?p\<lparr>m_close := m_close r\<rparr>"
    by (simp add: HttpRequest_init_def h parsed_find [OF assms] names_differ or_default_def connection_field_def)
  then show ?thesis
    by (simp add: same_request_def HttpRequest_getHeader_def parsed_find [OF assms]) (simp add: parsed_request_def)
qed

lemma parsed_length:
  assumes "printable r" "\<not> m_websocket r" "length_told r" "cast_law cast" "length (m_body r) < 2 ^ 31" "rp_data p = parsed_request r"
  shows "sint (getContentLength cast p) = int (length (m_body r))"
proof -
  have "sint (of_nat n :: u64) = int n" if "n < 2 ^ 31" for n
    using that by (simp add: signed_of_nat signed_take_bit_int_eq_self)
  moreover have "cast (show_nat (length (m_body r))) = Some (of_nat (length (m_body r)))"
    using assms(4,5) by (simp add: cast_law_def)
  ultimately show ?thesis
    using assms(3,5) by (simp add: getContentLength_def getHeaderAs_def getAs_def assms(6) parsed_find [OF assms(1,2)] names_differ length_told_def
        split: option.split)
qed

lemma recv_printed:
  assumes "on_conn ss fd" "printable r" "\<not> m_websocket r" "length_told r" "cast_law (env_cast E)"
    and "length (HttpRequest_dump r) \<le> env_buff_size E" "env_buff_size E < 2 ^ 31"
    and "sys_recv (env_sys E) fd (env_buff_size E) k = ((int (length (HttpRequest_dump r)), HttpRequest_dump r), k1)"
  shows "\<exists>rq. recvRequest E ss k = Some (Inr (Some rq, ss, k1)) \<and> same_request r rq"
proof -
  have ln: "length (m_body r) < length (HttpRequest_dump r)" by (rule dump_longer [OF assms(2)])
  then have ne: "HttpRequest_dump r \<noteq> []" by auto
  have small: "length (HttpRequest_dump r) < 2 ^ 31" using assms(6,7) by simp
  obtain P where x: "http_parser_finish P = 1" "\<not> http_parser_has_error P"
    "RequestParser_execute (HttpRequest_dump r) (new_HttpRequestParser (env_mem E)) =
      Inr (length (HttpRequest_dump r) - length (m_body r), m_body r, \<lparr>rp_parser = P, rp_data = parsed_request r, rp_error = 0\<rparr>)"
    unfolding parsed_request_def by (rule parse_printed [OF assms(2) small])
  let ?p = "\<lparr>rp_parser = P, rp_data = parsed_request r, rp_error = 0\<rparr>"
  have l: "recv_loop E ss [] (new_HttpRequestParser (env_mem E)) k = Some (Inr (Inr (m_body r, ?p, k1)))"
    using x ln assms(6) ne by (subst recv_loop.simps)
      (simp add: on_conn_io(2) [OF assms(1)] assms(8) RequestParser_hasError_def RequestParser_isFinished_def)
  have "sint (getContentLength (env_cast E) ?p) = int (length (m_body r))"
    using parsed_length [OF assms(2-5)] ln small by simp
  moreover have "parsed_request r = (parsed_request r)\<lparr>m_body := []\<rparr>" by (simp add: parsed_request_def HttpRequest_ctor_def)
  ultimately have "recvRequest E ss k = Some (Inr (Some (HttpRequest_init ((parsed_request r)\<lparr>m_body := m_body r\<rparr>)), ss, k1))"
    by (cases "m_body r = []") (simp_all add: recvRequest_def l recv_body_def upd_data_def)
  then show ?thesis using parsed_init [OF assms(2,3)] by blast
qed


subsection \<open>Answering it\<close>

lemma sendResponse_outgoing:
  assumes "conn_laws (env_sys E) fd incoming outgoing" "on_conn ss fd" "sendResponse E ss rsp k = (r, k')"
    and "length (HttpResponse_dump rsp) < 2 ^ 31"
  shows "\<exists>n. outgoing k' = outgoing k @ take n (HttpResponse_dump rsp) \<and>
    (r = int (length (HttpResponse_dump rsp)) \<and> n = length (HttpResponse_dump rsp) \<or> r \<le> 0 \<and> n < length (HttpResponse_dump rsp))"
proof -
  let ?t = "HttpResponse_dump rsp"
  obtain e k1 where w: "writeFix_loop (sys_send (env_sys E) fd) ?t 0 (int (length ?t)) k = (e, k1)" by fastforce
  have q: "k1 = k'" "r = (case e of None \<Rightarrow> as_int (length ?t) | Some len \<Rightarrow> len)"
    using assms(3) w by (cases e; simp add: sendResponse_def writeFixSize_def on_conn_io [OF assms(2)])+
  obtain n where n: "outgoing k1 = outgoing k @ take n ?t" "case e of None \<Rightarrow> n = length ?t | Some len \<Rightarrow> len \<le> 0 \<and> n < length ?t"
    using writeFix_loop_ok [OF assms(1) w] by (auto simp del: append_same_eq cong: option.case_cong)
  then show ?thesis using q assms(4) by (cases e) (auto intro: exI [of _ n])
qed

text \<open>The answer of the servlets to a request, on a fresh response.\<close>

definition served :: "(bytes \<Rightarrow> bytes \<Rightarrow> bool) \<Rightarrow> bool \<Rightarrow> ('k, 'a) session ServletDispatch \<Rightarrow> HttpRequest \<Rightarrow> ('k, 'a) session \<Rightarrow>
    HttpRequest \<times> HttpResponse" where
  "served fnmatch keepalive d rq se =
     (let (_, rq', rsp, _) = ServletDispatch_handle fnmatch d rq (HttpResponse_ctor (m_version rq) (m_close rq \<or> \<not> keepalive)) se
      in (rq', rsp))"

lemma client_loop_serves:
  assumes "recvRequest E ss k = Some (Inr (Some rq, ss, k1))" "session_untouched fnmatch d"
    and "served fnmatch keepalive d rq (ss, k1) = (rq', rsp)" "sendResponse E ss rsp k1 = (sr, k2)"
  shows "client_loop fnmatch E keepalive d ss k n =
    (if \<not> keepalive \<or> m_close rq' then Some (Inr (Suc n, ss, k2)) else client_loop fnmatch E keepalive d ss k2 (Suc n))"
proof -
  obtain r q p se where h: "ServletDispatch_handle fnmatch d rq (HttpResponse_ctor (m_version rq) (m_close rq \<or> \<not> keepalive)) (ss, k1) = (r, q, p, se)"
    by (metis prod.collapse)
  moreover have "se = (ss, k1)" using assms(2) h unfolding session_untouched_def by (metis snd_conv)
  moreover have "q = rq'" "p = rsp" using assms(3) h by (simp_all add: served_def)
  ultimately show ?thesis using assms(1,4) by (subst client_loop.simps) simp
qed

text \<open>
  Property C6. A request that a client printed and that arrives in one read is served: the session delivers
  a request with the same method, target, version, headers, body and \<open>close\<close> flag, the servlets
  are asked once with it, and their answer is what is put on the connection, all of it unless a
  send fails. Then the connection is done, without keep-alive or when the servlet asks for it, or
  the loop goes on behind the request.
\<close>

theorem http_request_served:
  assumes laws: "conn_laws (env_sys E) fd incoming outgoing" and on: "on_conn ss fd" and un: "session_untouched fnmatch d"
    and r: "printable r" "\<not> m_websocket r" "length_told r" and cast: "cast_law (env_cast E)"
    and size: "length (HttpRequest_dump r) \<le> env_buff_size E" "env_buff_size E < 2 ^ 31"
    and arrives: "sys_recv (env_sys E) fd (env_buff_size E) k = ((int (length (HttpRequest_dump r)), HttpRequest_dump r), k1)"
    and answer: "\<forall>rq. same_request r rq \<longrightarrow> length (HttpResponse_dump (snd (served fnmatch keepalive d rq (ss, k1)))) < 2 ^ 31"
  shows "\<exists>rq rq' rsp sr k2 j. same_request r rq \<and> served fnmatch keepalive d rq (ss, k1) = (rq', rsp) \<and>
    sendResponse E ss rsp k1 = (sr, k2) \<and>
    outgoing k2 = outgoing k @ take j (HttpResponse_dump rsp) \<and> incoming k = HttpRequest_dump r @ incoming k2 \<and>
    (sr = int (length (HttpResponse_dump rsp)) \<and> j = length (HttpResponse_dump rsp) \<or> sr \<le> 0 \<and> j < length (HttpResponse_dump rsp)) \<and>
    client_loop fnmatch E keepalive d ss k n =
      (if \<not> keepalive \<or> m_close rq' then Some (Inr (Suc n, ss, k2)) else client_loop fnmatch E keepalive d ss k2 (Suc n))"
proof -
  obtain rq where rq: "recvRequest E ss k = Some (Inr (Some rq, ss, k1))" "same_request r rq"
    using recv_printed [OF on r cast size arrives] by blast
  obtain rq' rsp where sv: "served fnmatch keepalive d rq (ss, k1) = (rq', rsp)" by fastforce
  obtain sr k2 where sd: "sendResponse E ss rsp k1 = (sr, k2)" by fastforce
  have "length (HttpResponse_dump rsp) < 2 ^ 31" using answer rq(2) sv by force
  then obtain j where j: "outgoing k2 = outgoing k1 @ take j (HttpResponse_dump rsp)"
    "sr = int (length (HttpResponse_dump rsp)) \<and> j = length (HttpResponse_dump rsp) \<or> sr \<le> 0 \<and> j < length (HttpResponse_dump rsp)"
    using sendResponse_outgoing [OF laws on sd] by blast
  have "outgoing k1 = outgoing k" "incoming k = HttpRequest_dump r @ incoming k1"
    using laws arrives unfolding conn_laws_def by (metis dump_longer [OF r(1)] append_Nil length_0_conv not_less0 of_nat_le_0_iff)+
  moreover have "incoming k2 = incoming k1" by (rule sendResponse_incoming [OF laws on sd])
  ultimately show ?thesis
    using client_loop_serves [OF rq(1) un sv sd, of n] rq(2) sv sd j by (intro exI [of _ rq] exI [of _ rq'] exI [of _ rsp]) auto
qed


text \<open>An example: a connection that delivers all that has arrived in one read.\<close>

definition whole_env :: "(u8 list \<times> u8 list, int) http_env" where
  "whole_env = \<lparr>env_sys = pipe_sys\<lparr>sys_recv := \<lambda>fd n (i, out). ((int (length (take n i)), take n i), drop n i, out)\<rparr>,
     env_mem = sample_mem, env_cast = \<lambda>s. Some (of_nat (digits_value s)), env_buff_size = 4096\<rparr>"

lemma whole_laws: "conn_laws (env_sys whole_env) fd fst snd"
  using pipe_laws [of fd] by (auto simp: whole_env_def conn_laws_def)

definition not_found_answer :: "u8 \<Rightarrow> bool \<Rightarrow> HttpResponse" where
  "not_found_answer v close = fst (snd (snd (NotFoundServlet_handle NotFoundServlet_content (HttpRequest_ctor v close)
     (HttpResponse_ctor v close) ())))"

lemma default_served:
  "served fnmatch keepalive new_ServletDispatch rq se = (rq, not_found_answer (m_version rq) (m_close rq \<or> \<not> keepalive))"
  by (simp add: served_def ServletDispatch_handle_def getMatchedServlet_def new_ServletDispatch_def new_NotFoundServlet_def
      NotFoundServlet_handle_def not_found_answer_def)

theorem http_request_served_witness:
  "\<exists>rq rsp sr k2 j. same_request sample_request rq \<and> m_body rq = [1, 2] \<and> sendResponse whole_env pipe_stream rsp ([], []) = (sr, k2) \<and>
     snd k2 = take j (HttpResponse_dump rsp) \<and>
     client_loop (=) whole_env False new_ServletDispatch pipe_stream (HttpRequest_dump sample_request, []) 0 = Some (Inr (Suc 0, pipe_stream, k2))"
proof -
  have p: "printable sample_request" "\<not> m_websocket sample_request" "length_told sample_request" by code_simp+
  have c: "cast_law (env_cast whole_env)" by (simp add: cast_law_def whole_env_def digits_value_show)
  have "length (HttpRequest_dump sample_request) \<le> 4096" by code_simp
  then have sz: "length (HttpRequest_dump sample_request) \<le> env_buff_size whole_env" "env_buff_size whole_env < 2 ^ 31"
    and a: "sys_recv (env_sys whole_env) 5 (env_buff_size whole_env) (HttpRequest_dump sample_request, []) =
      ((int (length (HttpRequest_dump sample_request)), HttpRequest_dump sample_request), [], [])"
    by (simp_all add: whole_env_def)
  have "m_version sample_request = 0x11" "m_body sample_request = [1, 2]" by code_simp+
  moreover have "length (HttpResponse_dump (not_found_answer 0x11 True)) < 1000" by code_simp
  ultimately have "\<forall>rq. same_request sample_request rq \<longrightarrow>
      length (HttpResponse_dump (snd (served (=) False new_ServletDispatch rq (pipe_stream, [], [])))) < 2 ^ 31"
    by (simp add: default_served same_request_def)
  from http_request_served [OF whole_laws pipe_on default_untouched p c sz a this, of 0]
  obtain rq rsp sr k2 j where "same_request sample_request rq" "sendResponse whole_env pipe_stream rsp ([], []) = (sr, k2)"
    "snd k2 = take j (HttpResponse_dump rsp)"
    "client_loop (=) whole_env False new_ServletDispatch pipe_stream (HttpRequest_dump sample_request, []) 0 = Some (Inr (Suc 0, pipe_stream, k2))"
    by (simp only: snd_conv append_Nil not_False_eq_True simp_thms if_True) blast
  moreover from this(1) have "m_body rq = [1, 2]" using \<open>m_body sample_request = [1, 2]\<close> by (simp add: same_request_def)
  ultimately show ?thesis by blast
qed

end
