(* ===== verification/Civan_Client_Machine.thy ===== *)
theory Civan_Client_Machine
  imports Civan_Ragel
begin

section \<open>The HTTP response automaton: \<open>civan/http/httpclient_parser.rl.cc\<close>\<close>

text \<open>
  The machine of \<open>httpclient_parser_execute\<close>, label by label, in the form of
  \<open>Civan_Http11_Machine\<close>. The actions are named as in \<open>httpclient_parser.rl\<close>.
\<close>

named_theorems client_code \<open>the labels of the response automaton\<close>

datatype client_action =
    C_mark | C_start_field | C_write_field | C_start_value | C_write_content_len
  | C_write_connection_close | C_write_value | C_reason_phrase | C_status_code | C_http_version
  | C_chunk_size | C_trans_chunked | C_done

subsection \<open>Transitions with actions\<close>

definition client_tr0 :: "client_action jump" where [client_code]:
  "client_tr0 = ([C_mark], 2)"

definition client_tr2 :: "client_action jump" where [client_code]:
  "client_tr2 = ([C_mark], 8)"

definition client_tr3 :: "client_action jump" where [client_code]:
  "client_tr3 = ([C_chunk_size, C_done], 120)"

definition client_tr4 :: "client_action jump" where [client_code]:
  "client_tr4 = ([C_chunk_size], 3)"

definition client_tr6 :: "client_action jump" where [client_code]:
  "client_tr6 = ([C_chunk_size], 4)"

definition client_tr7 :: "client_action jump" where [client_code]:
  "client_tr7 = ([C_done], 120)"

definition client_tr8 :: "client_action jump" where [client_code]:
  "client_tr8 = ([C_start_field], 5)"

definition client_tr9 :: "client_action jump" where [client_code]:
  "client_tr9 = ([C_write_field, C_start_value, C_write_value, C_done], 120)"

definition client_tr10 :: "client_action jump" where [client_code]:
  "client_tr10 = ([C_write_field, C_start_value, C_write_value], 3)"

definition client_tr12 :: "client_action jump" where [client_code]:
  "client_tr12 = ([C_write_field, C_start_value, C_write_value], 4)"

definition client_tr13 :: "client_action jump" where [client_code]:
  "client_tr13 = ([C_write_field, C_start_value], 6)"

definition client_tr14 :: "client_action jump" where [client_code]:
  "client_tr14 = ([C_start_value], 7)"

definition client_tr15 :: "client_action jump" where [client_code]:
  "client_tr15 = ([C_write_value, C_done], 120)"

definition client_tr16 :: "client_action jump" where [client_code]:
  "client_tr16 = ([C_write_value], 3)"

definition client_tr18 :: "client_action jump" where [client_code]:
  "client_tr18 = ([C_write_value], 4)"

definition client_tr26 :: "client_action jump" where [client_code]:
  "client_tr26 = ([C_http_version], 16)"

definition client_tr27 :: "client_action jump" where [client_code]:
  "client_tr27 = ([C_mark], 17)"

definition client_tr28 :: "client_action jump" where [client_code]:
  "client_tr28 = ([C_status_code], 18)"

definition client_tr30 :: "client_action jump" where [client_code]:
  "client_tr30 = ([C_mark], 19)"

definition client_tr32 :: "client_action jump" where [client_code]:
  "client_tr32 = ([C_reason_phrase], 20)"

definition client_tr33 :: "client_action jump" where [client_code]:
  "client_tr33 = ([C_reason_phrase], 24)"

definition client_tr35 :: "client_action jump" where [client_code]:
  "client_tr35 = ([C_start_field], 21)"

definition client_tr36 :: "client_action jump" where [client_code]:
  "client_tr36 = ([C_start_field], 25)"

definition client_tr37 :: "client_action jump" where [client_code]:
  "client_tr37 = ([C_start_field], 44)"

definition client_tr39 :: "client_action jump" where [client_code]:
  "client_tr39 = ([C_write_field], 22)"

definition client_tr40 :: "client_action jump" where [client_code]:
  "client_tr40 = ([C_start_value], 23)"

definition client_tr41 :: "client_action jump" where [client_code]:
  "client_tr41 = ([C_start_value], 22)"

definition client_tr42 :: "client_action jump" where [client_code]:
  "client_tr42 = ([C_start_value, C_write_value], 20)"

definition client_tr43 :: "client_action jump" where [client_code]:
  "client_tr43 = ([C_start_value, C_write_value], 24)"

definition client_tr45 :: "client_action jump" where [client_code]:
  "client_tr45 = ([C_write_value], 20)"

definition client_tr46 :: "client_action jump" where [client_code]:
  "client_tr46 = ([C_write_value], 24)"

definition client_tr58 :: "client_action jump" where [client_code]:
  "client_tr58 = ([C_write_field], 35)"

definition client_tr59 :: "client_action jump" where [client_code]:
  "client_tr59 = ([C_start_value], 35)"

definition client_tr60 :: "client_action jump" where [client_code]:
  "client_tr60 = ([C_start_value, C_write_value], 36)"

definition client_tr61 :: "client_action jump" where [client_code]:
  "client_tr61 = ([C_start_value, C_write_value], 95)"

definition client_tr62 :: "client_action jump" where [client_code]:
  "client_tr62 = ([C_start_value], 96)"

definition client_tr64 :: "client_action jump" where [client_code]:
  "client_tr64 = ([C_done], 122)"

definition client_tr66 :: "client_action jump" where [client_code]:
  "client_tr66 = ([C_start_field], 90)"

definition client_tr74 :: "client_action jump" where [client_code]:
  "client_tr74 = ([C_write_connection_close, C_done], 120)"

definition client_tr75 :: "client_action jump" where [client_code]:
  "client_tr75 = ([C_write_connection_close], 3)"

definition client_tr76 :: "client_action jump" where [client_code]:
  "client_tr76 = ([C_write_connection_close, C_start_field], 21)"

definition client_tr77 :: "client_action jump" where [client_code]:
  "client_tr77 = ([C_write_connection_close, C_start_field], 25)"

definition client_tr78 :: "client_action jump" where [client_code]:
  "client_tr78 = ([C_write_connection_close, C_start_field], 44)"

definition client_tr95 :: "client_action jump" where [client_code]:
  "client_tr95 = ([C_write_field], 61)"

definition client_tr96 :: "client_action jump" where [client_code]:
  "client_tr96 = ([C_start_value], 61)"

definition client_tr97 :: "client_action jump" where [client_code]:
  "client_tr97 = ([C_start_value, C_write_value], 62)"

definition client_tr98 :: "client_action jump" where [client_code]:
  "client_tr98 = ([C_start_value, C_write_value], 80)"

definition client_tr99 :: "client_action jump" where [client_code]:
  "client_tr99 = ([C_start_value], 81)"

definition client_tr101 :: "client_action jump" where [client_code]:
  "client_tr101 = ([C_done], 121)"

definition client_tr103 :: "client_action jump" where [client_code]:
  "client_tr103 = ([C_start_value, C_start_field], 73)"

definition client_tr104 :: "client_action jump" where [client_code]:
  "client_tr104 = ([C_start_value], 64)"

definition client_tr111 :: "client_action jump" where [client_code]:
  "client_tr111 = ([C_write_value, C_trans_chunked], 20)"

definition client_tr112 :: "client_action jump" where [client_code]:
  "client_tr112 = ([C_write_value], 71)"

definition client_tr113 :: "client_action jump" where [client_code]:
  "client_tr113 = ([C_trans_chunked], 20)"

definition client_tr136 :: "client_action jump" where [client_code]:
  "client_tr136 = ([C_write_value], 43)"

definition client_tr137 :: "client_action jump" where [client_code]:
  "client_tr137 = ([C_write_value], 88)"

definition client_tr148 :: "client_action jump" where [client_code]:
  "client_tr148 = ([C_write_field], 112)"

definition client_tr149 :: "client_action jump" where [client_code]:
  "client_tr149 = ([C_start_value], 112)"

definition client_tr150 :: "client_action jump" where [client_code]:
  "client_tr150 = ([C_start_value, C_write_value], 113)"

definition client_tr151 :: "client_action jump" where [client_code]:
  "client_tr151 = ([C_start_value, C_write_value], 118)"

definition client_tr152 :: "client_action jump" where [client_code]:
  "client_tr152 = ([C_start_value], 119)"

definition client_tr154 :: "client_action jump" where [client_code]:
  "client_tr154 = ([C_done], 123)"

definition client_tr156 :: "client_action jump" where [client_code]:
  "client_tr156 = ([C_start_value, C_start_field], 117)"

definition client_tr157 :: "client_action jump" where [client_code]:
  "client_tr157 = ([C_start_value], 115)"

definition client_tr158 :: "client_action jump" where [client_code]:
  "client_tr158 = ([C_write_content_len, C_write_value], 20)"

definition client_tr159 :: "client_action jump" where [client_code]:
  "client_tr159 = ([C_write_content_len, C_write_value], 24)"

subsection \<open>States\<close>

definition client_st1 :: "int \<Rightarrow> client_action jump" where [client_code]:
  "client_st1 c =
     (if c = 72 then client_tr2 else
      if c < 65 then (if 48 \<le> c \<and> c \<le> 57 then client_tr0 else goto 0)
      else if c > 70 then (if 97 \<le> c \<and> c \<le> 102 then client_tr0 else goto 0)
      else client_tr0)"

definition client_st2 :: "int \<Rightarrow> client_action jump" where [client_code]:
  "client_st2 c =
     (if c = 10 then client_tr3 else if c = 13 then client_tr4 else
      if c = 59 then client_tr6 else
      if c < 65 then (if 48 \<le> c \<and> c \<le> 57 then goto 2 else goto 0)
      else if c > 70 then (if 97 \<le> c \<and> c \<le> 102 then goto 2 else goto 0) else goto 2)"

definition client_st3 :: "int \<Rightarrow> client_action jump" where [client_code]:
  "client_st3 c =
     (if c = 10 then client_tr7 else goto 0)"

definition client_st4 :: "int \<Rightarrow> client_action jump" where [client_code]:
  "client_st4 c =
     (if c = 33 then client_tr8 else if c = 124 then client_tr8 else
      if c = 126 then client_tr8 else
      if c < 45 then (if c > 39 then (if 42 \<le> c \<and> c \<le> 43 then client_tr8 else goto 0)
        else if c \<ge> 35 then client_tr8 else goto 0)
      else if c > 46 then (if c < 65 then (if 48 \<le> c \<and> c \<le> 57 then client_tr8 else goto 0)
        else if c > 90 then (if 94 \<le> c \<and> c \<le> 122 then client_tr8 else goto 0)
        else client_tr8)
      else client_tr8)"

definition client_st5 :: "int \<Rightarrow> client_action jump" where [client_code]:
  "client_st5 c =
     (if c = 10 then client_tr9 else if c = 13 then client_tr10 else if c = 33 then goto 5 else
      if c = 59 then client_tr12 else if c = 61 then client_tr13 else
      if c = 124 then goto 5 else if c = 126 then goto 5 else
      if c < 45 then (if c > 39 then (if 42 \<le> c \<and> c \<le> 43 then goto 5 else goto 0)
        else if c \<ge> 35 then goto 5 else goto 0)
      else if c > 46 then (if c < 65 then (if 48 \<le> c \<and> c \<le> 57 then goto 5 else goto 0)
        else if c > 90 then (if 94 \<le> c \<and> c \<le> 122 then goto 5 else goto 0) else goto 5)
      else goto 5)"

definition client_st6 :: "int \<Rightarrow> client_action jump" where [client_code]:
  "client_st6 c =
     (if c = 33 then client_tr14 else if c = 124 then client_tr14 else
      if c = 126 then client_tr14 else
      if c < 45 then (if c > 39 then (if 42 \<le> c \<and> c \<le> 43 then client_tr14 else goto 0)
        else if c \<ge> 35 then client_tr14 else goto 0)
      else if c > 46 then (if c < 65 then (if 48 \<le> c \<and> c \<le> 57 then client_tr14 else goto 0)
        else if c > 90 then (if 94 \<le> c \<and> c \<le> 122 then client_tr14 else goto 0)
        else client_tr14)
      else client_tr14)"

definition client_st7 :: "int \<Rightarrow> client_action jump" where [client_code]:
  "client_st7 c =
     (if c = 10 then client_tr15 else if c = 13 then client_tr16 else
      if c = 33 then goto 7 else if c = 59 then client_tr18 else if c = 124 then goto 7 else
      if c = 126 then goto 7 else
      if c < 45 then (if c > 39 then (if 42 \<le> c \<and> c \<le> 43 then goto 7 else goto 0)
        else if c \<ge> 35 then goto 7 else goto 0)
      else if c > 46 then (if c < 65 then (if 48 \<le> c \<and> c \<le> 57 then goto 7 else goto 0)
        else if c > 90 then (if 94 \<le> c \<and> c \<le> 122 then goto 7 else goto 0) else goto 7)
      else goto 7)"

definition client_st8 :: "int \<Rightarrow> client_action jump" where [client_code]:
  "client_st8 c =
     (if c = 84 then goto 9 else goto 0)"

definition client_st9 :: "int \<Rightarrow> client_action jump" where [client_code]:
  "client_st9 c =
     (if c = 84 then goto 10 else goto 0)"

definition client_st10 :: "int \<Rightarrow> client_action jump" where [client_code]:
  "client_st10 c =
     (if c = 80 then goto 11 else goto 0)"

definition client_st11 :: "int \<Rightarrow> client_action jump" where [client_code]:
  "client_st11 c =
     (if c = 47 then goto 12 else goto 0)"

definition client_st12 :: "int \<Rightarrow> client_action jump" where [client_code]:
  "client_st12 c =
     (if 48 \<le> c \<and> c \<le> 57 then goto 13 else goto 0)"

definition client_st13 :: "int \<Rightarrow> client_action jump" where [client_code]:
  "client_st13 c =
     (if c = 46 then goto 14 else if 48 \<le> c \<and> c \<le> 57 then goto 13 else goto 0)"

definition client_st14 :: "int \<Rightarrow> client_action jump" where [client_code]:
  "client_st14 c =
     (if 48 \<le> c \<and> c \<le> 57 then goto 15 else goto 0)"

definition client_st15 :: "int \<Rightarrow> client_action jump" where [client_code]:
  "client_st15 c =
     (if c = 32 then client_tr26 else if 48 \<le> c \<and> c \<le> 57 then goto 15 else goto 0)"

definition client_st16 :: "int \<Rightarrow> client_action jump" where [client_code]:
  "client_st16 c =
     (if 48 \<le> c \<and> c \<le> 57 then client_tr27 else goto 0)"

definition client_st17 :: "int \<Rightarrow> client_action jump" where [client_code]:
  "client_st17 c =
     (if c = 32 then client_tr28 else if 48 \<le> c \<and> c \<le> 57 then goto 17 else goto 0)"

definition client_st18 :: "int \<Rightarrow> client_action jump" where [client_code]:
  "client_st18 c =
     (if c = 10 then goto 0 else client_tr30)"

definition client_st19 :: "int \<Rightarrow> client_action jump" where [client_code]:
  "client_st19 c =
     (if c = 10 then client_tr32 else if c = 13 then client_tr33 else goto 19)"

definition client_st20 :: "int \<Rightarrow> client_action jump" where [client_code]:
  "client_st20 c =
     (if c = 10 then client_tr7 else if c = 13 then goto 3 else if c = 33 then client_tr35 else
      if c = 67 then client_tr36 else if c = 84 then client_tr37 else
      if c = 99 then client_tr36 else if c = 116 then client_tr37 else
      if c = 124 then client_tr35 else if c = 126 then client_tr35 else
      if c < 45 then (if c > 39 then (if 42 \<le> c \<and> c \<le> 43 then client_tr35 else goto 0)
        else if c \<ge> 35 then client_tr35 else goto 0)
      else if c > 46 then (if c < 65 then (if 48 \<le> c \<and> c \<le> 57 then client_tr35 else goto 0)
        else if c > 90 then (if 94 \<le> c \<and> c \<le> 122 then client_tr35 else goto 0)
        else client_tr35)
      else client_tr35)"

definition client_st21 :: "int \<Rightarrow> client_action jump" where [client_code]:
  "client_st21 c =
     (if c = 33 then goto 21 else if c = 58 then client_tr39 else if c = 124 then goto 21 else
      if c = 126 then goto 21 else
      if c < 45 then (if c > 39 then (if 42 \<le> c \<and> c \<le> 43 then goto 21 else goto 0)
        else if c \<ge> 35 then goto 21 else goto 0)
      else if c > 46 then (if c < 65 then (if 48 \<le> c \<and> c \<le> 57 then goto 21 else goto 0)
        else if c > 90 then (if 94 \<le> c \<and> c \<le> 122 then goto 21 else goto 0) else goto 21)
      else goto 21)"

definition client_st22 :: "int \<Rightarrow> client_action jump" where [client_code]:
  "client_st22 c =
     (if c = 10 then client_tr42 else if c = 13 then client_tr43 else
      if c = 32 then client_tr41 else
      if 9 \<le> c \<and> c \<le> 12 then client_tr41 else client_tr40)"

definition client_st23 :: "int \<Rightarrow> client_action jump" where [client_code]:
  "client_st23 c =
     (if c = 10 then client_tr45 else if c = 13 then client_tr46 else goto 23)"

definition client_st24 :: "int \<Rightarrow> client_action jump" where [client_code]:
  "client_st24 c =
     (if c = 10 then goto 20 else goto 0)"

definition client_st25 :: "int \<Rightarrow> client_action jump" where [client_code]:
  "client_st25 c =
     (if c = 33 then goto 21 else if c = 58 then client_tr39 else if c = 79 then goto 26 else
      if c = 111 then goto 26 else if c = 124 then goto 21 else if c = 126 then goto 21 else
      if c < 45 then (if c > 39 then (if 42 \<le> c \<and> c \<le> 43 then goto 21 else goto 0)
        else if c \<ge> 35 then goto 21 else goto 0)
      else if c > 46 then (if c < 65 then (if 48 \<le> c \<and> c \<le> 57 then goto 21 else goto 0)
        else if c > 90 then (if 94 \<le> c \<and> c \<le> 122 then goto 21 else goto 0) else goto 21)
      else goto 21)"

definition client_st26 :: "int \<Rightarrow> client_action jump" where [client_code]:
  "client_st26 c =
     (if c = 33 then goto 21 else if c = 58 then client_tr39 else if c = 78 then goto 27 else
      if c = 110 then goto 27 else if c = 124 then goto 21 else if c = 126 then goto 21 else
      if c < 45 then (if c > 39 then (if 42 \<le> c \<and> c \<le> 43 then goto 21 else goto 0)
        else if c \<ge> 35 then goto 21 else goto 0)
      else if c > 46 then (if c < 65 then (if 48 \<le> c \<and> c \<le> 57 then goto 21 else goto 0)
        else if c > 90 then (if 94 \<le> c \<and> c \<le> 122 then goto 21 else goto 0) else goto 21)
      else goto 21)"

definition client_st27 :: "int \<Rightarrow> client_action jump" where [client_code]:
  "client_st27 c =
     (if c = 33 then goto 21 else if c = 58 then client_tr39 else if c = 78 then goto 28 else
      if c = 84 then goto 101 else if c = 110 then goto 28 else if c = 116 then goto 101 else
      if c = 124 then goto 21 else if c = 126 then goto 21 else
      if c < 45 then (if c > 39 then (if 42 \<le> c \<and> c \<le> 43 then goto 21 else goto 0)
        else if c \<ge> 35 then goto 21 else goto 0)
      else if c > 46 then (if c < 65 then (if 48 \<le> c \<and> c \<le> 57 then goto 21 else goto 0)
        else if c > 90 then (if 94 \<le> c \<and> c \<le> 122 then goto 21 else goto 0) else goto 21)
      else goto 21)"

definition client_st28 :: "int \<Rightarrow> client_action jump" where [client_code]:
  "client_st28 c =
     (if c = 33 then goto 21 else if c = 58 then client_tr39 else if c = 69 then goto 29 else
      if c = 101 then goto 29 else if c = 124 then goto 21 else if c = 126 then goto 21 else
      if c < 45 then (if c > 39 then (if 42 \<le> c \<and> c \<le> 43 then goto 21 else goto 0)
        else if c \<ge> 35 then goto 21 else goto 0)
      else if c > 46 then (if c < 65 then (if 48 \<le> c \<and> c \<le> 57 then goto 21 else goto 0)
        else if c > 90 then (if 94 \<le> c \<and> c \<le> 122 then goto 21 else goto 0) else goto 21)
      else goto 21)"

definition client_st29 :: "int \<Rightarrow> client_action jump" where [client_code]:
  "client_st29 c =
     (if c = 33 then goto 21 else if c = 58 then client_tr39 else if c = 67 then goto 30 else
      if c = 99 then goto 30 else if c = 124 then goto 21 else if c = 126 then goto 21 else
      if c < 45 then (if c > 39 then (if 42 \<le> c \<and> c \<le> 43 then goto 21 else goto 0)
        else if c \<ge> 35 then goto 21 else goto 0)
      else if c > 46 then (if c < 65 then (if 48 \<le> c \<and> c \<le> 57 then goto 21 else goto 0)
        else if c > 90 then (if 94 \<le> c \<and> c \<le> 122 then goto 21 else goto 0) else goto 21)
      else goto 21)"

definition client_st30 :: "int \<Rightarrow> client_action jump" where [client_code]:
  "client_st30 c =
     (if c = 33 then goto 21 else if c = 58 then client_tr39 else if c = 84 then goto 31 else
      if c = 116 then goto 31 else if c = 124 then goto 21 else if c = 126 then goto 21 else
      if c < 45 then (if c > 39 then (if 42 \<le> c \<and> c \<le> 43 then goto 21 else goto 0)
        else if c \<ge> 35 then goto 21 else goto 0)
      else if c > 46 then (if c < 65 then (if 48 \<le> c \<and> c \<le> 57 then goto 21 else goto 0)
        else if c > 90 then (if 94 \<le> c \<and> c \<le> 122 then goto 21 else goto 0) else goto 21)
      else goto 21)"

definition client_st31 :: "int \<Rightarrow> client_action jump" where [client_code]:
  "client_st31 c =
     (if c = 33 then goto 21 else if c = 58 then client_tr39 else if c = 73 then goto 32 else
      if c = 105 then goto 32 else if c = 124 then goto 21 else if c = 126 then goto 21 else
      if c < 45 then (if c > 39 then (if 42 \<le> c \<and> c \<le> 43 then goto 21 else goto 0)
        else if c \<ge> 35 then goto 21 else goto 0)
      else if c > 46 then (if c < 65 then (if 48 \<le> c \<and> c \<le> 57 then goto 21 else goto 0)
        else if c > 90 then (if 94 \<le> c \<and> c \<le> 122 then goto 21 else goto 0) else goto 21)
      else goto 21)"

definition client_st32 :: "int \<Rightarrow> client_action jump" where [client_code]:
  "client_st32 c =
     (if c = 33 then goto 21 else if c = 58 then client_tr39 else if c = 79 then goto 33 else
      if c = 111 then goto 33 else if c = 124 then goto 21 else if c = 126 then goto 21 else
      if c < 45 then (if c > 39 then (if 42 \<le> c \<and> c \<le> 43 then goto 21 else goto 0)
        else if c \<ge> 35 then goto 21 else goto 0)
      else if c > 46 then (if c < 65 then (if 48 \<le> c \<and> c \<le> 57 then goto 21 else goto 0)
        else if c > 90 then (if 94 \<le> c \<and> c \<le> 122 then goto 21 else goto 0) else goto 21)
      else goto 21)"

definition client_st33 :: "int \<Rightarrow> client_action jump" where [client_code]:
  "client_st33 c =
     (if c = 33 then goto 21 else if c = 58 then client_tr39 else if c = 78 then goto 34 else
      if c = 110 then goto 34 else if c = 124 then goto 21 else if c = 126 then goto 21 else
      if c < 45 then (if c > 39 then (if 42 \<le> c \<and> c \<le> 43 then goto 21 else goto 0)
        else if c \<ge> 35 then goto 21 else goto 0)
      else if c > 46 then (if c < 65 then (if 48 \<le> c \<and> c \<le> 57 then goto 21 else goto 0)
        else if c > 90 then (if 94 \<le> c \<and> c \<le> 122 then goto 21 else goto 0) else goto 21)
      else goto 21)"

definition client_st34 :: "int \<Rightarrow> client_action jump" where [client_code]:
  "client_st34 c =
     (if c = 33 then goto 21 else if c = 58 then client_tr58 else if c = 124 then goto 21 else
      if c = 126 then goto 21 else
      if c < 45 then (if c > 39 then (if 42 \<le> c \<and> c \<le> 43 then goto 21 else goto 0)
        else if c \<ge> 35 then goto 21 else goto 0)
      else if c > 46 then (if c < 65 then (if 48 \<le> c \<and> c \<le> 57 then goto 21 else goto 0)
        else if c > 90 then (if 94 \<le> c \<and> c \<le> 122 then goto 21 else goto 0) else goto 21)
      else goto 21)"

definition client_st35 :: "int \<Rightarrow> client_action jump" where [client_code]:
  "client_st35 c =
     (if c = 10 then client_tr60 else if c = 13 then client_tr61 else
      if c = 32 then client_tr59 else if c = 67 then client_tr62 else
      if c = 99 then client_tr62 else
      if 9 \<le> c \<and> c \<le> 12 then client_tr59 else client_tr40)"

definition client_st36 :: "int \<Rightarrow> client_action jump" where [client_code]:
  "client_st36 c =
     (if c = 10 then client_tr64 else if c = 13 then goto 89 else if c = 32 then goto 37 else
      if c = 33 then client_tr35 else if c = 67 then client_tr66 else
      if c = 84 then client_tr37 else if c = 99 then client_tr66 else
      if c = 116 then client_tr37 else if c = 124 then client_tr35 else
      if c = 126 then client_tr35 else
      if c < 45 then (if c < 35 then (if 9 \<le> c \<and> c \<le> 12 then goto 37 else goto 0)
        else if c > 39 then (if 42 \<le> c \<and> c \<le> 43 then client_tr35 else goto 0)
        else client_tr35)
      else if c > 46 then (if c < 65 then (if 48 \<le> c \<and> c \<le> 57 then client_tr35 else goto 0)
        else if c > 90 then (if 94 \<le> c \<and> c \<le> 122 then client_tr35 else goto 0)
        else client_tr35)
      else client_tr35)"

definition client_st37 :: "int \<Rightarrow> client_action jump" where [client_code]:
  "client_st37 c =
     (if c = 32 then goto 37 else if c = 67 then goto 38 else if c = 99 then goto 38 else
      if 9 \<le> c \<and> c \<le> 13 then goto 37 else goto 0)"

definition client_st38 :: "int \<Rightarrow> client_action jump" where [client_code]:
  "client_st38 c =
     (if c = 76 then goto 39 else if c = 108 then goto 39 else goto 0)"

definition client_st39 :: "int \<Rightarrow> client_action jump" where [client_code]:
  "client_st39 c =
     (if c = 79 then goto 40 else if c = 111 then goto 40 else goto 0)"

definition client_st40 :: "int \<Rightarrow> client_action jump" where [client_code]:
  "client_st40 c =
     (if c = 83 then goto 41 else if c = 115 then goto 41 else goto 0)"

definition client_st41 :: "int \<Rightarrow> client_action jump" where [client_code]:
  "client_st41 c =
     (if c = 69 then goto 42 else if c = 101 then goto 42 else goto 0)"

definition client_st42 :: "int \<Rightarrow> client_action jump" where [client_code]:
  "client_st42 c =
     (if c = 10 then goto 43 else if c = 13 then goto 88 else goto 0)"

definition client_st43 :: "int \<Rightarrow> client_action jump" where [client_code]:
  "client_st43 c =
     (if c = 10 then client_tr74 else if c = 13 then client_tr75 else
      if c = 33 then client_tr76 else if c = 67 then client_tr77 else
      if c = 84 then client_tr78 else if c = 99 then client_tr77 else
      if c = 116 then client_tr78 else if c = 124 then client_tr76 else
      if c = 126 then client_tr76 else
      if c < 45 then (if c > 39 then (if 42 \<le> c \<and> c \<le> 43 then client_tr76 else goto 0)
        else if c \<ge> 35 then client_tr76 else goto 0)
      else if c > 46 then (if c < 65 then (if 48 \<le> c \<and> c \<le> 57 then client_tr76 else goto 0)
        else if c > 90 then (if 94 \<le> c \<and> c \<le> 122 then client_tr76 else goto 0)
        else client_tr76)
      else client_tr76)"

definition client_st44 :: "int \<Rightarrow> client_action jump" where [client_code]:
  "client_st44 c =
     (if c = 33 then goto 21 else if c = 58 then client_tr39 else if c = 82 then goto 45 else
      if c = 114 then goto 45 else if c = 124 then goto 21 else if c = 126 then goto 21 else
      if c < 45 then (if c > 39 then (if 42 \<le> c \<and> c \<le> 43 then goto 21 else goto 0)
        else if c \<ge> 35 then goto 21 else goto 0)
      else if c > 46 then (if c < 65 then (if 48 \<le> c \<and> c \<le> 57 then goto 21 else goto 0)
        else if c > 90 then (if 94 \<le> c \<and> c \<le> 122 then goto 21 else goto 0) else goto 21)
      else goto 21)"

definition client_st45 :: "int \<Rightarrow> client_action jump" where [client_code]:
  "client_st45 c =
     (if c = 33 then goto 21 else if c = 58 then client_tr39 else if c = 65 then goto 46 else
      if c = 97 then goto 46 else if c = 124 then goto 21 else if c = 126 then goto 21 else
      if c < 45 then (if c > 39 then (if 42 \<le> c \<and> c \<le> 43 then goto 21 else goto 0)
        else if c \<ge> 35 then goto 21 else goto 0)
      else if c > 46 then (if c < 66 then (if 48 \<le> c \<and> c \<le> 57 then goto 21 else goto 0)
        else if c > 90 then (if 94 \<le> c \<and> c \<le> 122 then goto 21 else goto 0) else goto 21)
      else goto 21)"

definition client_st46 :: "int \<Rightarrow> client_action jump" where [client_code]:
  "client_st46 c =
     (if c = 33 then goto 21 else if c = 58 then client_tr39 else if c = 78 then goto 47 else
      if c = 110 then goto 47 else if c = 124 then goto 21 else if c = 126 then goto 21 else
      if c < 45 then (if c > 39 then (if 42 \<le> c \<and> c \<le> 43 then goto 21 else goto 0)
        else if c \<ge> 35 then goto 21 else goto 0)
      else if c > 46 then (if c < 65 then (if 48 \<le> c \<and> c \<le> 57 then goto 21 else goto 0)
        else if c > 90 then (if 94 \<le> c \<and> c \<le> 122 then goto 21 else goto 0) else goto 21)
      else goto 21)"

definition client_st47 :: "int \<Rightarrow> client_action jump" where [client_code]:
  "client_st47 c =
     (if c = 33 then goto 21 else if c = 58 then client_tr39 else if c = 83 then goto 48 else
      if c = 115 then goto 48 else if c = 124 then goto 21 else if c = 126 then goto 21 else
      if c < 45 then (if c > 39 then (if 42 \<le> c \<and> c \<le> 43 then goto 21 else goto 0)
        else if c \<ge> 35 then goto 21 else goto 0)
      else if c > 46 then (if c < 65 then (if 48 \<le> c \<and> c \<le> 57 then goto 21 else goto 0)
        else if c > 90 then (if 94 \<le> c \<and> c \<le> 122 then goto 21 else goto 0) else goto 21)
      else goto 21)"

definition client_st48 :: "int \<Rightarrow> client_action jump" where [client_code]:
  "client_st48 c =
     (if c = 33 then goto 21 else if c = 58 then client_tr39 else if c = 70 then goto 49 else
      if c = 102 then goto 49 else if c = 124 then goto 21 else if c = 126 then goto 21 else
      if c < 45 then (if c > 39 then (if 42 \<le> c \<and> c \<le> 43 then goto 21 else goto 0)
        else if c \<ge> 35 then goto 21 else goto 0)
      else if c > 46 then (if c < 65 then (if 48 \<le> c \<and> c \<le> 57 then goto 21 else goto 0)
        else if c > 90 then (if 94 \<le> c \<and> c \<le> 122 then goto 21 else goto 0) else goto 21)
      else goto 21)"

definition client_st49 :: "int \<Rightarrow> client_action jump" where [client_code]:
  "client_st49 c =
     (if c = 33 then goto 21 else if c = 58 then client_tr39 else if c = 69 then goto 50 else
      if c = 101 then goto 50 else if c = 124 then goto 21 else if c = 126 then goto 21 else
      if c < 45 then (if c > 39 then (if 42 \<le> c \<and> c \<le> 43 then goto 21 else goto 0)
        else if c \<ge> 35 then goto 21 else goto 0)
      else if c > 46 then (if c < 65 then (if 48 \<le> c \<and> c \<le> 57 then goto 21 else goto 0)
        else if c > 90 then (if 94 \<le> c \<and> c \<le> 122 then goto 21 else goto 0) else goto 21)
      else goto 21)"

definition client_st50 :: "int \<Rightarrow> client_action jump" where [client_code]:
  "client_st50 c =
     (if c = 33 then goto 21 else if c = 58 then client_tr39 else if c = 82 then goto 51 else
      if c = 114 then goto 51 else if c = 124 then goto 21 else if c = 126 then goto 21 else
      if c < 45 then (if c > 39 then (if 42 \<le> c \<and> c \<le> 43 then goto 21 else goto 0)
        else if c \<ge> 35 then goto 21 else goto 0)
      else if c > 46 then (if c < 65 then (if 48 \<le> c \<and> c \<le> 57 then goto 21 else goto 0)
        else if c > 90 then (if 94 \<le> c \<and> c \<le> 122 then goto 21 else goto 0) else goto 21)
      else goto 21)"

definition client_st51 :: "int \<Rightarrow> client_action jump" where [client_code]:
  "client_st51 c =
     (if c = 33 then goto 21 else if c = 45 then goto 52 else if c = 46 then goto 21 else
      if c = 58 then client_tr39 else if c = 124 then goto 21 else if c = 126 then goto 21 else
      if c < 48 then (if c > 39 then (if 42 \<le> c \<and> c \<le> 43 then goto 21 else goto 0)
        else if c \<ge> 35 then goto 21 else goto 0)
      else if c > 57 then (if c > 90 then (if 94 \<le> c \<and> c \<le> 122 then goto 21 else goto 0)
        else if c \<ge> 65 then goto 21 else goto 0)
      else goto 21)"

definition client_st52 :: "int \<Rightarrow> client_action jump" where [client_code]:
  "client_st52 c =
     (if c = 33 then goto 21 else if c = 58 then client_tr39 else if c = 69 then goto 53 else
      if c = 101 then goto 53 else if c = 124 then goto 21 else if c = 126 then goto 21 else
      if c < 45 then (if c > 39 then (if 42 \<le> c \<and> c \<le> 43 then goto 21 else goto 0)
        else if c \<ge> 35 then goto 21 else goto 0)
      else if c > 46 then (if c < 65 then (if 48 \<le> c \<and> c \<le> 57 then goto 21 else goto 0)
        else if c > 90 then (if 94 \<le> c \<and> c \<le> 122 then goto 21 else goto 0) else goto 21)
      else goto 21)"

definition client_st53 :: "int \<Rightarrow> client_action jump" where [client_code]:
  "client_st53 c =
     (if c = 33 then goto 21 else if c = 58 then client_tr39 else if c = 78 then goto 54 else
      if c = 110 then goto 54 else if c = 124 then goto 21 else if c = 126 then goto 21 else
      if c < 45 then (if c > 39 then (if 42 \<le> c \<and> c \<le> 43 then goto 21 else goto 0)
        else if c \<ge> 35 then goto 21 else goto 0)
      else if c > 46 then (if c < 65 then (if 48 \<le> c \<and> c \<le> 57 then goto 21 else goto 0)
        else if c > 90 then (if 94 \<le> c \<and> c \<le> 122 then goto 21 else goto 0) else goto 21)
      else goto 21)"

definition client_st54 :: "int \<Rightarrow> client_action jump" where [client_code]:
  "client_st54 c =
     (if c = 33 then goto 21 else if c = 58 then client_tr39 else if c = 67 then goto 55 else
      if c = 99 then goto 55 else if c = 124 then goto 21 else if c = 126 then goto 21 else
      if c < 45 then (if c > 39 then (if 42 \<le> c \<and> c \<le> 43 then goto 21 else goto 0)
        else if c \<ge> 35 then goto 21 else goto 0)
      else if c > 46 then (if c < 65 then (if 48 \<le> c \<and> c \<le> 57 then goto 21 else goto 0)
        else if c > 90 then (if 94 \<le> c \<and> c \<le> 122 then goto 21 else goto 0) else goto 21)
      else goto 21)"

definition client_st55 :: "int \<Rightarrow> client_action jump" where [client_code]:
  "client_st55 c =
     (if c = 33 then goto 21 else if c = 58 then client_tr39 else if c = 79 then goto 56 else
      if c = 111 then goto 56 else if c = 124 then goto 21 else if c = 126 then goto 21 else
      if c < 45 then (if c > 39 then (if 42 \<le> c \<and> c \<le> 43 then goto 21 else goto 0)
        else if c \<ge> 35 then goto 21 else goto 0)
      else if c > 46 then (if c < 65 then (if 48 \<le> c \<and> c \<le> 57 then goto 21 else goto 0)
        else if c > 90 then (if 94 \<le> c \<and> c \<le> 122 then goto 21 else goto 0) else goto 21)
      else goto 21)"

definition client_st56 :: "int \<Rightarrow> client_action jump" where [client_code]:
  "client_st56 c =
     (if c = 33 then goto 21 else if c = 58 then client_tr39 else if c = 68 then goto 57 else
      if c = 100 then goto 57 else if c = 124 then goto 21 else if c = 126 then goto 21 else
      if c < 45 then (if c > 39 then (if 42 \<le> c \<and> c \<le> 43 then goto 21 else goto 0)
        else if c \<ge> 35 then goto 21 else goto 0)
      else if c > 46 then (if c < 65 then (if 48 \<le> c \<and> c \<le> 57 then goto 21 else goto 0)
        else if c > 90 then (if 94 \<le> c \<and> c \<le> 122 then goto 21 else goto 0) else goto 21)
      else goto 21)"

definition client_st57 :: "int \<Rightarrow> client_action jump" where [client_code]:
  "client_st57 c =
     (if c = 33 then goto 21 else if c = 58 then client_tr39 else if c = 73 then goto 58 else
      if c = 105 then goto 58 else if c = 124 then goto 21 else if c = 126 then goto 21 else
      if c < 45 then (if c > 39 then (if 42 \<le> c \<and> c \<le> 43 then goto 21 else goto 0)
        else if c \<ge> 35 then goto 21 else goto 0)
      else if c > 46 then (if c < 65 then (if 48 \<le> c \<and> c \<le> 57 then goto 21 else goto 0)
        else if c > 90 then (if 94 \<le> c \<and> c \<le> 122 then goto 21 else goto 0) else goto 21)
      else goto 21)"

definition client_st58 :: "int \<Rightarrow> client_action jump" where [client_code]:
  "client_st58 c =
     (if c = 33 then goto 21 else if c = 58 then client_tr39 else if c = 78 then goto 59 else
      if c = 110 then goto 59 else if c = 124 then goto 21 else if c = 126 then goto 21 else
      if c < 45 then (if c > 39 then (if 42 \<le> c \<and> c \<le> 43 then goto 21 else goto 0)
        else if c \<ge> 35 then goto 21 else goto 0)
      else if c > 46 then (if c < 65 then (if 48 \<le> c \<and> c \<le> 57 then goto 21 else goto 0)
        else if c > 90 then (if 94 \<le> c \<and> c \<le> 122 then goto 21 else goto 0) else goto 21)
      else goto 21)"

definition client_st59 :: "int \<Rightarrow> client_action jump" where [client_code]:
  "client_st59 c =
     (if c = 33 then goto 21 else if c = 58 then client_tr39 else if c = 71 then goto 60 else
      if c = 103 then goto 60 else if c = 124 then goto 21 else if c = 126 then goto 21 else
      if c < 45 then (if c > 39 then (if 42 \<le> c \<and> c \<le> 43 then goto 21 else goto 0)
        else if c \<ge> 35 then goto 21 else goto 0)
      else if c > 46 then (if c < 65 then (if 48 \<le> c \<and> c \<le> 57 then goto 21 else goto 0)
        else if c > 90 then (if 94 \<le> c \<and> c \<le> 122 then goto 21 else goto 0) else goto 21)
      else goto 21)"

definition client_st60 :: "int \<Rightarrow> client_action jump" where [client_code]:
  "client_st60 c =
     (if c = 33 then goto 21 else if c = 58 then client_tr95 else if c = 124 then goto 21 else
      if c = 126 then goto 21 else
      if c < 45 then (if c > 39 then (if 42 \<le> c \<and> c \<le> 43 then goto 21 else goto 0)
        else if c \<ge> 35 then goto 21 else goto 0)
      else if c > 46 then (if c < 65 then (if 48 \<le> c \<and> c \<le> 57 then goto 21 else goto 0)
        else if c > 90 then (if 94 \<le> c \<and> c \<le> 122 then goto 21 else goto 0) else goto 21)
      else goto 21)"

definition client_st61 :: "int \<Rightarrow> client_action jump" where [client_code]:
  "client_st61 c =
     (if c = 10 then client_tr97 else if c = 13 then client_tr98 else
      if c = 32 then client_tr96 else if c = 67 then client_tr99 else
      if c = 99 then client_tr99 else
      if 9 \<le> c \<and> c \<le> 12 then client_tr96 else client_tr40)"

definition client_st62 :: "int \<Rightarrow> client_action jump" where [client_code]:
  "client_st62 c =
     (if c = 10 then client_tr101 else if c = 13 then goto 72 else if c = 32 then goto 63 else
      if c = 33 then client_tr35 else if c = 67 then client_tr103 else
      if c = 84 then client_tr37 else if c = 99 then client_tr103 else
      if c = 116 then client_tr37 else if c = 124 then client_tr35 else
      if c = 126 then client_tr35 else
      if c < 45 then (if c < 35 then (if 9 \<le> c \<and> c \<le> 12 then goto 63 else goto 0)
        else if c > 39 then (if 42 \<le> c \<and> c \<le> 43 then client_tr35 else goto 0)
        else client_tr35)
      else if c > 46 then (if c < 65 then (if 48 \<le> c \<and> c \<le> 57 then client_tr35 else goto 0)
        else if c > 90 then (if 94 \<le> c \<and> c \<le> 122 then client_tr35 else goto 0)
        else client_tr35)
      else client_tr35)"

definition client_st63 :: "int \<Rightarrow> client_action jump" where [client_code]:
  "client_st63 c =
     (if c = 32 then goto 63 else if c = 67 then client_tr104 else
      if c = 99 then client_tr104 else if 9 \<le> c \<and> c \<le> 13 then goto 63 else goto 0)"

definition client_st64 :: "int \<Rightarrow> client_action jump" where [client_code]:
  "client_st64 c =
     (if c = 72 then goto 65 else if c = 104 then goto 65 else goto 0)"

definition client_st65 :: "int \<Rightarrow> client_action jump" where [client_code]:
  "client_st65 c =
     (if c = 85 then goto 66 else if c = 117 then goto 66 else goto 0)"

definition client_st66 :: "int \<Rightarrow> client_action jump" where [client_code]:
  "client_st66 c =
     (if c = 78 then goto 67 else if c = 110 then goto 67 else goto 0)"

definition client_st67 :: "int \<Rightarrow> client_action jump" where [client_code]:
  "client_st67 c =
     (if c = 75 then goto 68 else if c = 107 then goto 68 else goto 0)"

definition client_st68 :: "int \<Rightarrow> client_action jump" where [client_code]:
  "client_st68 c =
     (if c = 69 then goto 69 else if c = 101 then goto 69 else goto 0)"

definition client_st69 :: "int \<Rightarrow> client_action jump" where [client_code]:
  "client_st69 c =
     (if c = 68 then goto 70 else if c = 100 then goto 70 else goto 0)"

definition client_st70 :: "int \<Rightarrow> client_action jump" where [client_code]:
  "client_st70 c =
     (if c = 10 then client_tr111 else if c = 13 then client_tr112 else goto 0)"

definition client_st71 :: "int \<Rightarrow> client_action jump" where [client_code]:
  "client_st71 c =
     (if c = 10 then client_tr113 else goto 0)"

definition client_st72 :: "int \<Rightarrow> client_action jump" where [client_code]:
  "client_st72 c =
     (if c = 10 then client_tr101 else if c = 32 then goto 63 else
      if c = 67 then client_tr104 else if c = 99 then client_tr104 else
      if 9 \<le> c \<and> c \<le> 13 then goto 63 else goto 0)"

definition client_st73 :: "int \<Rightarrow> client_action jump" where [client_code]:
  "client_st73 c =
     (if c = 33 then goto 21 else if c = 58 then client_tr39 else if c = 72 then goto 74 else
      if c = 79 then goto 26 else if c = 104 then goto 74 else if c = 111 then goto 26 else
      if c = 124 then goto 21 else if c = 126 then goto 21 else
      if c < 45 then (if c > 39 then (if 42 \<le> c \<and> c \<le> 43 then goto 21 else goto 0)
        else if c \<ge> 35 then goto 21 else goto 0)
      else if c > 46 then (if c < 65 then (if 48 \<le> c \<and> c \<le> 57 then goto 21 else goto 0)
        else if c > 90 then (if 94 \<le> c \<and> c \<le> 122 then goto 21 else goto 0) else goto 21)
      else goto 21)"

definition client_st74 :: "int \<Rightarrow> client_action jump" where [client_code]:
  "client_st74 c =
     (if c = 33 then goto 21 else if c = 58 then client_tr39 else if c = 85 then goto 75 else
      if c = 117 then goto 75 else if c = 124 then goto 21 else if c = 126 then goto 21 else
      if c < 45 then (if c > 39 then (if 42 \<le> c \<and> c \<le> 43 then goto 21 else goto 0)
        else if c \<ge> 35 then goto 21 else goto 0)
      else if c > 46 then (if c < 65 then (if 48 \<le> c \<and> c \<le> 57 then goto 21 else goto 0)
        else if c > 90 then (if 94 \<le> c \<and> c \<le> 122 then goto 21 else goto 0) else goto 21)
      else goto 21)"

definition client_st75 :: "int \<Rightarrow> client_action jump" where [client_code]:
  "client_st75 c =
     (if c = 33 then goto 21 else if c = 58 then client_tr39 else if c = 78 then goto 76 else
      if c = 110 then goto 76 else if c = 124 then goto 21 else if c = 126 then goto 21 else
      if c < 45 then (if c > 39 then (if 42 \<le> c \<and> c \<le> 43 then goto 21 else goto 0)
        else if c \<ge> 35 then goto 21 else goto 0)
      else if c > 46 then (if c < 65 then (if 48 \<le> c \<and> c \<le> 57 then goto 21 else goto 0)
        else if c > 90 then (if 94 \<le> c \<and> c \<le> 122 then goto 21 else goto 0) else goto 21)
      else goto 21)"

definition client_st76 :: "int \<Rightarrow> client_action jump" where [client_code]:
  "client_st76 c =
     (if c = 33 then goto 21 else if c = 58 then client_tr39 else if c = 75 then goto 77 else
      if c = 107 then goto 77 else if c = 124 then goto 21 else if c = 126 then goto 21 else
      if c < 45 then (if c > 39 then (if 42 \<le> c \<and> c \<le> 43 then goto 21 else goto 0)
        else if c \<ge> 35 then goto 21 else goto 0)
      else if c > 46 then (if c < 65 then (if 48 \<le> c \<and> c \<le> 57 then goto 21 else goto 0)
        else if c > 90 then (if 94 \<le> c \<and> c \<le> 122 then goto 21 else goto 0) else goto 21)
      else goto 21)"

definition client_st77 :: "int \<Rightarrow> client_action jump" where [client_code]:
  "client_st77 c =
     (if c = 33 then goto 21 else if c = 58 then client_tr39 else if c = 69 then goto 78 else
      if c = 101 then goto 78 else if c = 124 then goto 21 else if c = 126 then goto 21 else
      if c < 45 then (if c > 39 then (if 42 \<le> c \<and> c \<le> 43 then goto 21 else goto 0)
        else if c \<ge> 35 then goto 21 else goto 0)
      else if c > 46 then (if c < 65 then (if 48 \<le> c \<and> c \<le> 57 then goto 21 else goto 0)
        else if c > 90 then (if 94 \<le> c \<and> c \<le> 122 then goto 21 else goto 0) else goto 21)
      else goto 21)"

definition client_st78 :: "int \<Rightarrow> client_action jump" where [client_code]:
  "client_st78 c =
     (if c = 33 then goto 21 else if c = 58 then client_tr39 else if c = 68 then goto 79 else
      if c = 100 then goto 79 else if c = 124 then goto 21 else if c = 126 then goto 21 else
      if c < 45 then (if c > 39 then (if 42 \<le> c \<and> c \<le> 43 then goto 21 else goto 0)
        else if c \<ge> 35 then goto 21 else goto 0)
      else if c > 46 then (if c < 65 then (if 48 \<le> c \<and> c \<le> 57 then goto 21 else goto 0)
        else if c > 90 then (if 94 \<le> c \<and> c \<le> 122 then goto 21 else goto 0) else goto 21)
      else goto 21)"

definition client_st79 :: "int \<Rightarrow> client_action jump" where [client_code]:
  "client_st79 c =
     (if c = 10 then client_tr111 else if c = 13 then client_tr112 else
      if c = 33 then goto 21 else if c = 58 then client_tr39 else if c = 124 then goto 21 else
      if c = 126 then goto 21 else
      if c < 45 then (if c > 39 then (if 42 \<le> c \<and> c \<le> 43 then goto 21 else goto 0)
        else if c \<ge> 35 then goto 21 else goto 0)
      else if c > 46 then (if c < 65 then (if 48 \<le> c \<and> c \<le> 57 then goto 21 else goto 0)
        else if c > 90 then (if 94 \<le> c \<and> c \<le> 122 then goto 21 else goto 0) else goto 21)
      else goto 21)"

definition client_st80 :: "int \<Rightarrow> client_action jump" where [client_code]:
  "client_st80 c =
     (if c = 10 then goto 62 else if c = 32 then goto 63 else if c = 67 then client_tr104 else
      if c = 99 then client_tr104 else if 9 \<le> c \<and> c \<le> 13 then goto 63 else goto 0)"

definition client_st81 :: "int \<Rightarrow> client_action jump" where [client_code]:
  "client_st81 c =
     (if c = 10 then client_tr45 else if c = 13 then client_tr46 else
      if c = 72 then goto 82 else if c = 104 then goto 82 else goto 23)"

definition client_st82 :: "int \<Rightarrow> client_action jump" where [client_code]:
  "client_st82 c =
     (if c = 10 then client_tr45 else if c = 13 then client_tr46 else
      if c = 85 then goto 83 else if c = 117 then goto 83 else goto 23)"

definition client_st83 :: "int \<Rightarrow> client_action jump" where [client_code]:
  "client_st83 c =
     (if c = 10 then client_tr45 else if c = 13 then client_tr46 else
      if c = 78 then goto 84 else if c = 110 then goto 84 else goto 23)"

definition client_st84 :: "int \<Rightarrow> client_action jump" where [client_code]:
  "client_st84 c =
     (if c = 10 then client_tr45 else if c = 13 then client_tr46 else
      if c = 75 then goto 85 else if c = 107 then goto 85 else goto 23)"

definition client_st85 :: "int \<Rightarrow> client_action jump" where [client_code]:
  "client_st85 c =
     (if c = 10 then client_tr45 else if c = 13 then client_tr46 else
      if c = 69 then goto 86 else if c = 101 then goto 86 else goto 23)"

definition client_st86 :: "int \<Rightarrow> client_action jump" where [client_code]:
  "client_st86 c =
     (if c = 10 then client_tr45 else if c = 13 then client_tr46 else
      if c = 68 then goto 87 else if c = 100 then goto 87 else goto 23)"

definition client_st87 :: "int \<Rightarrow> client_action jump" where [client_code]:
  "client_st87 c =
     (if c = 10 then client_tr111 else if c = 13 then client_tr112 else goto 23)"

definition client_st88 :: "int \<Rightarrow> client_action jump" where [client_code]:
  "client_st88 c =
     (if c = 10 then goto 43 else goto 0)"

definition client_st89 :: "int \<Rightarrow> client_action jump" where [client_code]:
  "client_st89 c =
     (if c = 10 then client_tr64 else if c = 32 then goto 37 else if c = 67 then goto 38 else
      if c = 99 then goto 38 else if 9 \<le> c \<and> c \<le> 13 then goto 37 else goto 0)"

definition client_st90 :: "int \<Rightarrow> client_action jump" where [client_code]:
  "client_st90 c =
     (if c = 33 then goto 21 else if c = 58 then client_tr39 else if c = 76 then goto 91 else
      if c = 79 then goto 26 else if c = 108 then goto 91 else if c = 111 then goto 26 else
      if c = 124 then goto 21 else if c = 126 then goto 21 else
      if c < 45 then (if c > 39 then (if 42 \<le> c \<and> c \<le> 43 then goto 21 else goto 0)
        else if c \<ge> 35 then goto 21 else goto 0)
      else if c > 46 then (if c < 65 then (if 48 \<le> c \<and> c \<le> 57 then goto 21 else goto 0)
        else if c > 90 then (if 94 \<le> c \<and> c \<le> 122 then goto 21 else goto 0) else goto 21)
      else goto 21)"

definition client_st91 :: "int \<Rightarrow> client_action jump" where [client_code]:
  "client_st91 c =
     (if c = 33 then goto 21 else if c = 58 then client_tr39 else if c = 79 then goto 92 else
      if c = 111 then goto 92 else if c = 124 then goto 21 else if c = 126 then goto 21 else
      if c < 45 then (if c > 39 then (if 42 \<le> c \<and> c \<le> 43 then goto 21 else goto 0)
        else if c \<ge> 35 then goto 21 else goto 0)
      else if c > 46 then (if c < 65 then (if 48 \<le> c \<and> c \<le> 57 then goto 21 else goto 0)
        else if c > 90 then (if 94 \<le> c \<and> c \<le> 122 then goto 21 else goto 0) else goto 21)
      else goto 21)"

definition client_st92 :: "int \<Rightarrow> client_action jump" where [client_code]:
  "client_st92 c =
     (if c = 33 then goto 21 else if c = 58 then client_tr39 else if c = 83 then goto 93 else
      if c = 115 then goto 93 else if c = 124 then goto 21 else if c = 126 then goto 21 else
      if c < 45 then (if c > 39 then (if 42 \<le> c \<and> c \<le> 43 then goto 21 else goto 0)
        else if c \<ge> 35 then goto 21 else goto 0)
      else if c > 46 then (if c < 65 then (if 48 \<le> c \<and> c \<le> 57 then goto 21 else goto 0)
        else if c > 90 then (if 94 \<le> c \<and> c \<le> 122 then goto 21 else goto 0) else goto 21)
      else goto 21)"

definition client_st93 :: "int \<Rightarrow> client_action jump" where [client_code]:
  "client_st93 c =
     (if c = 33 then goto 21 else if c = 58 then client_tr39 else if c = 69 then goto 94 else
      if c = 101 then goto 94 else if c = 124 then goto 21 else if c = 126 then goto 21 else
      if c < 45 then (if c > 39 then (if 42 \<le> c \<and> c \<le> 43 then goto 21 else goto 0)
        else if c \<ge> 35 then goto 21 else goto 0)
      else if c > 46 then (if c < 65 then (if 48 \<le> c \<and> c \<le> 57 then goto 21 else goto 0)
        else if c > 90 then (if 94 \<le> c \<and> c \<le> 122 then goto 21 else goto 0) else goto 21)
      else goto 21)"

definition client_st94 :: "int \<Rightarrow> client_action jump" where [client_code]:
  "client_st94 c =
     (if c = 10 then goto 43 else if c = 13 then goto 88 else if c = 33 then goto 21 else
      if c = 58 then client_tr39 else if c = 124 then goto 21 else if c = 126 then goto 21 else
      if c < 45 then (if c > 39 then (if 42 \<le> c \<and> c \<le> 43 then goto 21 else goto 0)
        else if c \<ge> 35 then goto 21 else goto 0)
      else if c > 46 then (if c < 65 then (if 48 \<le> c \<and> c \<le> 57 then goto 21 else goto 0)
        else if c > 90 then (if 94 \<le> c \<and> c \<le> 122 then goto 21 else goto 0) else goto 21)
      else goto 21)"

definition client_st95 :: "int \<Rightarrow> client_action jump" where [client_code]:
  "client_st95 c =
     (if c = 10 then goto 36 else if c = 32 then goto 37 else if c = 67 then goto 38 else
      if c = 99 then goto 38 else if 9 \<le> c \<and> c \<le> 13 then goto 37 else goto 0)"

definition client_st96 :: "int \<Rightarrow> client_action jump" where [client_code]:
  "client_st96 c =
     (if c = 10 then client_tr45 else if c = 13 then client_tr46 else
      if c = 76 then goto 97 else if c = 108 then goto 97 else goto 23)"

definition client_st97 :: "int \<Rightarrow> client_action jump" where [client_code]:
  "client_st97 c =
     (if c = 10 then client_tr45 else if c = 13 then client_tr46 else
      if c = 79 then goto 98 else if c = 111 then goto 98 else goto 23)"

definition client_st98 :: "int \<Rightarrow> client_action jump" where [client_code]:
  "client_st98 c =
     (if c = 10 then client_tr45 else if c = 13 then client_tr46 else
      if c = 83 then goto 99 else if c = 115 then goto 99 else goto 23)"

definition client_st99 :: "int \<Rightarrow> client_action jump" where [client_code]:
  "client_st99 c =
     (if c = 10 then client_tr45 else if c = 13 then client_tr46 else
      if c = 69 then goto 100 else if c = 101 then goto 100 else goto 23)"

definition client_st100 :: "int \<Rightarrow> client_action jump" where [client_code]:
  "client_st100 c =
     (if c = 10 then client_tr136 else if c = 13 then client_tr137 else goto 23)"

definition client_st101 :: "int \<Rightarrow> client_action jump" where [client_code]:
  "client_st101 c =
     (if c = 33 then goto 21 else if c = 58 then client_tr39 else if c = 69 then goto 102 else
      if c = 101 then goto 102 else if c = 124 then goto 21 else if c = 126 then goto 21 else
      if c < 45 then (if c > 39 then (if 42 \<le> c \<and> c \<le> 43 then goto 21 else goto 0)
        else if c \<ge> 35 then goto 21 else goto 0)
      else if c > 46 then (if c < 65 then (if 48 \<le> c \<and> c \<le> 57 then goto 21 else goto 0)
        else if c > 90 then (if 94 \<le> c \<and> c \<le> 122 then goto 21 else goto 0) else goto 21)
      else goto 21)"

definition client_st102 :: "int \<Rightarrow> client_action jump" where [client_code]:
  "client_st102 c =
     (if c = 33 then goto 21 else if c = 58 then client_tr39 else if c = 78 then goto 103 else
      if c = 110 then goto 103 else if c = 124 then goto 21 else if c = 126 then goto 21 else
      if c < 45 then (if c > 39 then (if 42 \<le> c \<and> c \<le> 43 then goto 21 else goto 0)
        else if c \<ge> 35 then goto 21 else goto 0)
      else if c > 46 then (if c < 65 then (if 48 \<le> c \<and> c \<le> 57 then goto 21 else goto 0)
        else if c > 90 then (if 94 \<le> c \<and> c \<le> 122 then goto 21 else goto 0) else goto 21)
      else goto 21)"

definition client_st103 :: "int \<Rightarrow> client_action jump" where [client_code]:
  "client_st103 c =
     (if c = 33 then goto 21 else if c = 58 then client_tr39 else if c = 84 then goto 104 else
      if c = 116 then goto 104 else if c = 124 then goto 21 else if c = 126 then goto 21 else
      if c < 45 then (if c > 39 then (if 42 \<le> c \<and> c \<le> 43 then goto 21 else goto 0)
        else if c \<ge> 35 then goto 21 else goto 0)
      else if c > 46 then (if c < 65 then (if 48 \<le> c \<and> c \<le> 57 then goto 21 else goto 0)
        else if c > 90 then (if 94 \<le> c \<and> c \<le> 122 then goto 21 else goto 0) else goto 21)
      else goto 21)"

definition client_st104 :: "int \<Rightarrow> client_action jump" where [client_code]:
  "client_st104 c =
     (if c = 33 then goto 21 else if c = 45 then goto 105 else if c = 46 then goto 21 else
      if c = 58 then client_tr39 else if c = 124 then goto 21 else if c = 126 then goto 21 else
      if c < 48 then (if c > 39 then (if 42 \<le> c \<and> c \<le> 43 then goto 21 else goto 0)
        else if c \<ge> 35 then goto 21 else goto 0)
      else if c > 57 then (if c > 90 then (if 94 \<le> c \<and> c \<le> 122 then goto 21 else goto 0)
        else if c \<ge> 65 then goto 21 else goto 0)
      else goto 21)"

definition client_st105 :: "int \<Rightarrow> client_action jump" where [client_code]:
  "client_st105 c =
     (if c = 33 then goto 21 else if c = 58 then client_tr39 else if c = 76 then goto 106 else
      if c = 108 then goto 106 else if c = 124 then goto 21 else if c = 126 then goto 21 else
      if c < 45 then (if c > 39 then (if 42 \<le> c \<and> c \<le> 43 then goto 21 else goto 0)
        else if c \<ge> 35 then goto 21 else goto 0)
      else if c > 46 then (if c < 65 then (if 48 \<le> c \<and> c \<le> 57 then goto 21 else goto 0)
        else if c > 90 then (if 94 \<le> c \<and> c \<le> 122 then goto 21 else goto 0) else goto 21)
      else goto 21)"

definition client_st106 :: "int \<Rightarrow> client_action jump" where [client_code]:
  "client_st106 c =
     (if c = 33 then goto 21 else if c = 58 then client_tr39 else if c = 69 then goto 107 else
      if c = 101 then goto 107 else if c = 124 then goto 21 else if c = 126 then goto 21 else
      if c < 45 then (if c > 39 then (if 42 \<le> c \<and> c \<le> 43 then goto 21 else goto 0)
        else if c \<ge> 35 then goto 21 else goto 0)
      else if c > 46 then (if c < 65 then (if 48 \<le> c \<and> c \<le> 57 then goto 21 else goto 0)
        else if c > 90 then (if 94 \<le> c \<and> c \<le> 122 then goto 21 else goto 0) else goto 21)
      else goto 21)"

definition client_st107 :: "int \<Rightarrow> client_action jump" where [client_code]:
  "client_st107 c =
     (if c = 33 then goto 21 else if c = 58 then client_tr39 else if c = 78 then goto 108 else
      if c = 110 then goto 108 else if c = 124 then goto 21 else if c = 126 then goto 21 else
      if c < 45 then (if c > 39 then (if 42 \<le> c \<and> c \<le> 43 then goto 21 else goto 0)
        else if c \<ge> 35 then goto 21 else goto 0)
      else if c > 46 then (if c < 65 then (if 48 \<le> c \<and> c \<le> 57 then goto 21 else goto 0)
        else if c > 90 then (if 94 \<le> c \<and> c \<le> 122 then goto 21 else goto 0) else goto 21)
      else goto 21)"

definition client_st108 :: "int \<Rightarrow> client_action jump" where [client_code]:
  "client_st108 c =
     (if c = 33 then goto 21 else if c = 58 then client_tr39 else if c = 71 then goto 109 else
      if c = 103 then goto 109 else if c = 124 then goto 21 else if c = 126 then goto 21 else
      if c < 45 then (if c > 39 then (if 42 \<le> c \<and> c \<le> 43 then goto 21 else goto 0)
        else if c \<ge> 35 then goto 21 else goto 0)
      else if c > 46 then (if c < 65 then (if 48 \<le> c \<and> c \<le> 57 then goto 21 else goto 0)
        else if c > 90 then (if 94 \<le> c \<and> c \<le> 122 then goto 21 else goto 0) else goto 21)
      else goto 21)"

definition client_st109 :: "int \<Rightarrow> client_action jump" where [client_code]:
  "client_st109 c =
     (if c = 33 then goto 21 else if c = 58 then client_tr39 else if c = 84 then goto 110 else
      if c = 116 then goto 110 else if c = 124 then goto 21 else if c = 126 then goto 21 else
      if c < 45 then (if c > 39 then (if 42 \<le> c \<and> c \<le> 43 then goto 21 else goto 0)
        else if c \<ge> 35 then goto 21 else goto 0)
      else if c > 46 then (if c < 65 then (if 48 \<le> c \<and> c \<le> 57 then goto 21 else goto 0)
        else if c > 90 then (if 94 \<le> c \<and> c \<le> 122 then goto 21 else goto 0) else goto 21)
      else goto 21)"

definition client_st110 :: "int \<Rightarrow> client_action jump" where [client_code]:
  "client_st110 c =
     (if c = 33 then goto 21 else if c = 58 then client_tr39 else if c = 72 then goto 111 else
      if c = 104 then goto 111 else if c = 124 then goto 21 else if c = 126 then goto 21 else
      if c < 45 then (if c > 39 then (if 42 \<le> c \<and> c \<le> 43 then goto 21 else goto 0)
        else if c \<ge> 35 then goto 21 else goto 0)
      else if c > 46 then (if c < 65 then (if 48 \<le> c \<and> c \<le> 57 then goto 21 else goto 0)
        else if c > 90 then (if 94 \<le> c \<and> c \<le> 122 then goto 21 else goto 0) else goto 21)
      else goto 21)"

definition client_st111 :: "int \<Rightarrow> client_action jump" where [client_code]:
  "client_st111 c =
     (if c = 33 then goto 21 else if c = 58 then client_tr148 else if c = 124 then goto 21 else
      if c = 126 then goto 21 else
      if c < 45 then (if c > 39 then (if 42 \<le> c \<and> c \<le> 43 then goto 21 else goto 0)
        else if c \<ge> 35 then goto 21 else goto 0)
      else if c > 46 then (if c < 65 then (if 48 \<le> c \<and> c \<le> 57 then goto 21 else goto 0)
        else if c > 90 then (if 94 \<le> c \<and> c \<le> 122 then goto 21 else goto 0) else goto 21)
      else goto 21)"

definition client_st112 :: "int \<Rightarrow> client_action jump" where [client_code]:
  "client_st112 c =
     (if c = 10 then client_tr150 else if c = 13 then client_tr151 else
      if c = 32 then client_tr149 else
      if c > 12 then (if 48 \<le> c \<and> c \<le> 57 then client_tr152 else client_tr40)
      else if c \<ge> 9 then client_tr149 else client_tr40)"

definition client_st113 :: "int \<Rightarrow> client_action jump" where [client_code]:
  "client_st113 c =
     (if c = 10 then client_tr154 else if c = 13 then goto 116 else
      if c = 32 then goto 114 else if c = 33 then client_tr35 else
      if c = 67 then client_tr36 else if c = 84 then client_tr37 else
      if c = 99 then client_tr36 else if c = 116 then client_tr37 else
      if c = 124 then client_tr35 else if c = 126 then client_tr35 else
      if c < 45 then (if c < 35 then (if 9 \<le> c \<and> c \<le> 12 then goto 114 else goto 0)
        else if c > 39 then (if 42 \<le> c \<and> c \<le> 43 then client_tr35 else goto 0)
        else client_tr35)
      else if c > 46 then (if c < 65 then (if 48 \<le> c \<and> c \<le> 57 then client_tr156 else goto 0)
        else if c > 90 then (if 94 \<le> c \<and> c \<le> 122 then client_tr35 else goto 0)
        else client_tr35)
      else client_tr35)"

definition client_st114 :: "int \<Rightarrow> client_action jump" where [client_code]:
  "client_st114 c =
     (if c = 32 then goto 114 else
      if c > 13 then (if 48 \<le> c \<and> c \<le> 57 then client_tr157 else goto 0)
      else if c \<ge> 9 then goto 114 else goto 0)"

definition client_st115 :: "int \<Rightarrow> client_action jump" where [client_code]:
  "client_st115 c =
     (if c = 10 then client_tr158 else if c = 13 then client_tr159 else
      if 48 \<le> c \<and> c \<le> 57 then goto 115 else goto 0)"

definition client_st116 :: "int \<Rightarrow> client_action jump" where [client_code]:
  "client_st116 c =
     (if c = 10 then client_tr154 else if c = 32 then goto 114 else
      if c > 13 then (if 48 \<le> c \<and> c \<le> 57 then client_tr157 else goto 0)
      else if c \<ge> 9 then goto 114 else goto 0)"

definition client_st117 :: "int \<Rightarrow> client_action jump" where [client_code]:
  "client_st117 c =
     (if c = 10 then client_tr158 else if c = 13 then client_tr159 else
      if c = 33 then goto 21 else if c = 58 then client_tr39 else if c = 124 then goto 21 else
      if c = 126 then goto 21 else
      if c < 45 then (if c > 39 then (if 42 \<le> c \<and> c \<le> 43 then goto 21 else goto 0)
        else if c \<ge> 35 then goto 21 else goto 0)
      else if c > 46 then (if c < 65 then (if 48 \<le> c \<and> c \<le> 57 then goto 117 else goto 0)
        else if c > 90 then (if 94 \<le> c \<and> c \<le> 122 then goto 21 else goto 0) else goto 21)
      else goto 21)"

definition client_st118 :: "int \<Rightarrow> client_action jump" where [client_code]:
  "client_st118 c =
     (if c = 10 then goto 113 else if c = 32 then goto 114 else
      if c > 13 then (if 48 \<le> c \<and> c \<le> 57 then client_tr157 else goto 0)
      else if c \<ge> 9 then goto 114 else goto 0)"

definition client_st119 :: "int \<Rightarrow> client_action jump" where [client_code]:
  "client_st119 c =
     (if c = 10 then client_tr158 else if c = 13 then client_tr159 else
      if 48 \<le> c \<and> c \<le> 57 then goto 119 else goto 23)"

definition client_st120 :: "int \<Rightarrow> client_action jump" where [client_code]:
  "client_st120 c =
     goto 0"

definition client_st121 :: "int \<Rightarrow> client_action jump" where [client_code]:
  "client_st121 c =
     (if c = 32 then goto 63 else if c = 67 then client_tr104 else
      if c = 99 then client_tr104 else if 9 \<le> c \<and> c \<le> 13 then goto 63 else goto 0)"

definition client_st122 :: "int \<Rightarrow> client_action jump" where [client_code]:
  "client_st122 c =
     (if c = 32 then goto 37 else if c = 67 then goto 38 else if c = 99 then goto 38 else
      if 9 \<le> c \<and> c \<le> 13 then goto 37 else goto 0)"

definition client_st123 :: "int \<Rightarrow> client_action jump" where [client_code]:
  "client_st123 c =
     (if c = 32 then goto 114 else
      if c > 13 then (if 48 \<le> c \<and> c \<le> 57 then client_tr157 else goto 0)
      else if c \<ge> 9 then goto 114 else goto 0)"

subsection \<open>The step function\<close>

text \<open>
  \<open>switch (cs)\<close>: the code of the current state.
\<close>

definition client_states :: "(int \<Rightarrow> client_action jump) list" where
  "client_states =
   [(\<lambda>c. goto 0),
    client_st1, client_st2, client_st3, client_st4, client_st5, client_st6, client_st7,
    client_st8, client_st9, client_st10, client_st11, client_st12, client_st13, client_st14,
    client_st15, client_st16, client_st17, client_st18, client_st19, client_st20, client_st21,
    client_st22, client_st23, client_st24, client_st25, client_st26, client_st27, client_st28,
    client_st29, client_st30, client_st31, client_st32, client_st33, client_st34, client_st35,
    client_st36, client_st37, client_st38, client_st39, client_st40, client_st41, client_st42,
    client_st43, client_st44, client_st45, client_st46, client_st47, client_st48, client_st49,
    client_st50, client_st51, client_st52, client_st53, client_st54, client_st55, client_st56,
    client_st57, client_st58, client_st59, client_st60, client_st61, client_st62, client_st63,
    client_st64, client_st65, client_st66, client_st67, client_st68, client_st69, client_st70,
    client_st71, client_st72, client_st73, client_st74, client_st75, client_st76, client_st77,
    client_st78, client_st79, client_st80, client_st81, client_st82, client_st83, client_st84,
    client_st85, client_st86, client_st87, client_st88, client_st89, client_st90, client_st91,
    client_st92, client_st93, client_st94, client_st95, client_st96, client_st97, client_st98,
    client_st99, client_st100, client_st101, client_st102, client_st103, client_st104,
    client_st105, client_st106, client_st107, client_st108, client_st109, client_st110,
    client_st111, client_st112, client_st113, client_st114, client_st115, client_st116,
    client_st117, client_st118, client_st119, client_st120, client_st121, client_st122,
    client_st123]"

definition client_step :: "client_action ragel_step" where
  "client_step cs c = (if cs < length client_states then (client_states ! cs) c else goto 0)"

end
