(* ===== verification/Civan_Client.thy ===== *)
theory Civan_Client
  imports Civan_Client_Machine Civan_Http11 Civan_Text
begin

section \<open>The HTTP response parser: \<open>httpclient_parser_init\<close>, \<open>execute\<close>, \<open>finish\<close>\<close>

text \<open>
  The functions of \<open>civan/http/httpclient_parser.rl.cc\<close> around the automaton of
  \<open>Civan_Client_Machine\<close>, with \<open>struct httpclient_parser\<close> of \<open>httpclient_parser.h\<close>. A buffer is the
  memory \<open>mem\<close> from its start, with the terminator that the code requires behind the \<open>len\<close>
  bytes of data. As in \<open>Civan_Http11\<close>, a callback is an event with the pointers and lengths it
  is told; all of them are set by \<open>HttpResponseParser\<close>.
\<close>

subsection \<open>State and actions\<close>

record httpclient_parser =
  hc_cs :: nat
  hc_body_start :: nat
  hc_content_len :: int
  hc_status :: int
  hc_chunked :: bool
  hc_chunks_done :: bool
  hc_close :: bool
  hc_nread :: nat
  hc_mark :: nat
  hc_field_start :: nat
  hc_field_len :: nat

datatype client_event =
    Ev_reason_phrase "u8 list" nat
  | Ev_status_code "u8 list" nat
  | Ev_chunk_size "u8 list" nat
  | Ev_last_chunk "u8 list" nat
  | Ev_response_version "u8 list" nat
  | Ev_response_done "u8 list" nat
  | Ev_response_field "u8 list" nat "u8 list" nat

definition httpclient_parser_start :: nat where "httpclient_parser_start = 1"
definition httpclient_parser_first_final :: nat where "httpclient_parser_first_final = 120"
definition httpclient_parser_error :: nat where "httpclient_parser_error = 0"

text \<open>\<open>status\<close> keeps what the memory \<open>m\<close> of the object held.\<close>

definition httpclient_parser_init :: "httpclient_parser \<Rightarrow> httpclient_parser" where
  "httpclient_parser_init m = m\<lparr>hc_cs := httpclient_parser_start, hc_body_start := 0, hc_content_len := -1,
     hc_chunked := False, hc_chunks_done := False, hc_mark := 0, hc_nread := 0, hc_field_len := 0,
     hc_field_start := 0, hc_close := False\<rparr>"

definition client_chunk_size ::
  "u8 list \<Rightarrow> nat \<Rightarrow> httpclient_parser \<times> client_event list \<Rightarrow> httpclient_parser \<times> client_event list" where
  "client_chunk_size mem p s = (case s of (P, evs) \<Rightarrow>
     let n = long_to_int (strtol 16 (PTR_TO mem (hc_mark P))) in
     (P\<lparr>hc_chunked := True, hc_content_len := n, hc_chunks_done := n \<le> 0\<rparr>,
      evs @ [(if n \<le> 0 then Ev_last_chunk else Ev_chunk_size) (PTR_TO mem (hc_mark P)) (LEN (hc_mark P) p)]))"

fun client_act :: "u8 list \<Rightarrow> nat \<Rightarrow> (client_action, httpclient_parser \<times> client_event list) ragel_act" where
  "client_act mem len C_mark p (P, evs) = ((P\<lparr>hc_mark := p\<rparr>, evs), False)"
| "client_act mem len C_start_field p (P, evs) = ((P\<lparr>hc_field_start := p\<rparr>, evs), False)"
| "client_act mem len C_write_field p (P, evs) = ((P\<lparr>hc_field_len := LEN (hc_field_start P) p\<rparr>, evs), False)"
| "client_act mem len C_start_value p (P, evs) = ((P\<lparr>hc_mark := p\<rparr>, evs), False)"
| "client_act mem len C_write_content_len p (P, evs) =
     ((P\<lparr>hc_content_len := long_to_int (strtol 10 (PTR_TO mem (hc_mark P)))\<rparr>, evs), False)"
| "client_act mem len C_write_connection_close p (P, evs) = ((P\<lparr>hc_close := True\<rparr>, evs), False)"
| "client_act mem len C_write_value p (P, evs) =
     ((P, evs @ [Ev_response_field (PTR_TO mem (hc_field_start P)) (hc_field_len P)
                   (PTR_TO mem (hc_mark P)) (LEN (hc_mark P) p)]), False)"
| "client_act mem len C_reason_phrase p (P, evs) =
     ((P, evs @ [Ev_reason_phrase (PTR_TO mem (hc_mark P)) (LEN (hc_mark P) p)]), False)"
| "client_act mem len C_status_code p (P, evs) =
     ((P\<lparr>hc_status := long_to_int (strtol 10 (PTR_TO mem (hc_mark P)))\<rparr>,
       evs @ [Ev_status_code (PTR_TO mem (hc_mark P)) (LEN (hc_mark P) p)]), False)"
| "client_act mem len C_http_version p (P, evs) =
     ((P, evs @ [Ev_response_version (PTR_TO mem (hc_mark P)) (LEN (hc_mark P) p)]), False)"
| "client_act mem len C_chunk_size p s = (client_chunk_size mem p s, False)"
| "client_act mem len C_trans_chunked p (P, evs) = ((P\<lparr>hc_chunked := True\<rparr>, evs), False)"
| "client_act mem len C_done p (P, evs) =
     ((P\<lparr>hc_body_start := p + 1\<rparr>, evs @ [Ev_response_done (PTR_TO mem (p + 1)) (len - p - 1)]), True)"

subsection \<open>The functions of the parser\<close>

definition httpclient_parser_has_error :: "httpclient_parser \<Rightarrow> bool" where
  "httpclient_parser_has_error P \<longleftrightarrow> hc_cs P = httpclient_parser_error"

definition httpclient_parser_is_finished :: "httpclient_parser \<Rightarrow> bool" where
  "httpclient_parser_is_finished P \<longleftrightarrow> hc_cs P = httpclient_parser_first_final"

definition httpclient_parser_finish :: "httpclient_parser \<Rightarrow> int" where
  "httpclient_parser_finish P =
     (if httpclient_parser_has_error P then -1 else if httpclient_parser_is_finished P then 1 else 0)"

definition client_reset :: "httpclient_parser \<Rightarrow> httpclient_parser" where
  "client_reset P = P\<lparr>hc_nread := 0, hc_mark := 0, hc_field_len := 0, hc_field_start := 0\<rparr>"

text \<open>\<open>check\<close> returns -1 where the assertions of the request parser abort.\<close>

definition httpclient_parser_execute ::
  "httpclient_parser \<Rightarrow> u8 list \<Rightarrow> nat \<Rightarrow> nat \<Rightarrow> (int \<times> httpclient_parser \<times> client_event list) res" where
  "httpclient_parser_execute P mem len off =
     guard_else AssertFail (off \<le> len)
    (guard_else BadPointer (len < length mem)
    (guard_else AssertFail (mem ! len = 0)
    (guard_else AssertFail (int (len - off) = as_int len - as_int off)
      (let P0 = client_reset P;
           (p, cs, P1, evs) = ragel_exec client_step (client_act mem len) (drop off (take len mem)) off (hc_cs P0) (P0, []);
           P2 = P1\<lparr>hc_cs := cs, hc_nread := hc_nread P1 + (p - off)\<rparr>
       in guard_else AssertFail (p \<le> len \<and> hc_nread P2 \<le> len \<and> hc_body_start P2 \<le> len)
            (Inr (if hc_mark P2 < len \<and> hc_field_len P2 \<le> len \<and> hc_field_start P2 < len
                  then as_int (hc_nread P2) else -1, P2, evs))))))"

subsection \<open>Every call returns\<close>

text \<open>
  The positions are in range in every state. For the slice of a field this is not so, since a
  name can begin while the value of the field before it is still read: see
  \<open>Civan_Response_Parser\<close>.
\<close>

fun client_inv :: "nat \<Rightarrow> nat \<Rightarrow> httpclient_parser \<times> client_event list \<Rightarrow> bool" where
  "client_inv len p (P, evs) \<longleftrightarrow> p \<le> len \<and> hc_mark P \<le> p \<and> hc_mark P < len \<and> hc_field_start P \<le> p \<and>
     hc_field_start P < len \<and> hc_field_len P \<le> len \<and> hc_body_start P \<le> len \<and> hc_nread P = 0"

lemma client_act_inv: "client_inv len p s \<Longrightarrow> p < len \<Longrightarrow> client_inv len p (fst (client_act mem len a p s))"
  by (cases s; cases a) (auto simp: LEN_def client_chunk_size_def Let_def)

lemma client_actions_inv:
  "client_inv len p s \<Longrightarrow> p < len \<Longrightarrow> client_inv len p (fst (ragel_actions (client_act mem len) acts p s))"
proof (induction acts arbitrary: s)
  case (Cons a as)
  then show ?case using client_act_inv [of len p s mem a] by (auto split: prod.split)
qed simp

interpretation client_machine: ragel_typed client_step "client_act mem len" "\<lambda>cs. client_inv len" len for mem len
proof
  fix p s and acts :: "client_action list"
  assume "client_inv len p s" "p < len"
  then show "client_inv len (Suc p) (fst (ragel_actions (client_act mem len) acts p s))"
    using client_actions_inv [of len p s mem acts] by (cases "fst (ragel_actions (client_act mem len) acts p s)") auto
qed

lemma client_execute_eq:
  assumes "0 < len" "off \<le> len" "len < 2 ^ 31" "len < length mem" "mem ! len = 0" "hc_body_start P \<le> len"
    and x: "ragel_exec client_step (client_act mem len) (drop off (take len mem)) off (hc_cs P) (client_reset P, []) = (p, cs, P1, evs)"
  shows "httpclient_parser_execute P mem len off = Inr (int (p - off), P1\<lparr>hc_cs := cs, hc_nread := p - off\<rparr>, evs)"
proof -
  have p: "off \<le> p" "p \<le> len" using ragel_exec_bounds [OF x] assms(2,4) by auto
  have "\<exists>q. client_inv len p (P1, evs)"
    using client_machine.exec_typed [OF _ _ x] assms by (auto simp: client_reset_def)
  then have r: "hc_mark P1 < len" "hc_field_start P1 < len" "hc_field_len P1 \<le> len" "hc_body_start P1 \<le> len" "hc_nread P1 = 0"
    by auto
  have "hc_cs (client_reset P) = hc_cs P" by (simp add: client_reset_def)
  moreover have "as_int len - as_int off = int (len - off)" using assms(2,3) by (simp add: of_nat_diff)
  ultimately show ?thesis
    using x p r assms by (simp add: httpclient_parser_execute_def guard_else_def Let_def)
qed

text \<open>
  On a non-empty terminated buffer \<open>httpclient_parser_execute\<close> fails no assertion and returns the
  number of bytes it consumed, never -1.
\<close>

theorem client_execute_total:
  assumes "0 < len" "off \<le> len" "len < 2 ^ 31" "len < length mem" "mem ! len = 0" "hc_body_start P \<le> len"
  shows "\<exists>n P' evs. httpclient_parser_execute P mem len off = Inr (int n, P', evs) \<and> n \<le> len - off \<and> hc_nread P' = n"
proof -
  obtain p cs P1 evs where x: "ragel_exec client_step (client_act mem len) (drop off (take len mem)) off (hc_cs P) (client_reset P, []) = (p, cs, P1, evs)"
    by (metis prod.collapse)
  have "p - off \<le> len - off" using ragel_exec_bounds [OF x] assms(4) by auto
  then show ?thesis using client_execute_eq [OF assms x] by auto
qed

text \<open>The empty buffer is refused with -1: the mark is not before its end.\<close>

lemma client_execute_empty:
  assumes "mem \<noteq> []" "hd mem = 0" "hc_body_start P = 0"
  shows "\<exists>P'. httpclient_parser_execute P mem 0 0 = Inr (-1, P', [])"
  using assms by (cases mem) (simp_all add: httpclient_parser_execute_def guard_else_def client_reset_def as_int_def)

end
