(* ===== verification/Civan_Client_Grammar.thy ===== *)
theory Civan_Client_Grammar
  imports Civan_Client Civan_Uri_Text
begin

section \<open>What the response automaton does on a well-formed response\<close>

text \<open>
  The header part of the automaton runs several readings of a line in parallel: any field, and
  the fields \<open>Content-Length\<close>, \<open>Connection\<close> and \<open>Transfer-Encoding\<close>, to whose values it reacts. Its
  states fall into groups by their place in a line, and the group of the next state and the
  reported slices depend on the group only. That every state of a group leads to the right
  group is checked by evaluation.
\<close>

subsection \<open>The groups of states\<close>

lemma client_at:
  "client_step (Suc 0) = client_st1" "client_step 1 = client_st1" "client_step 3 = client_st3"
  "client_step 8 = client_st8" "client_step 9 = client_st9" "client_step 10 = client_st10"
  "client_step 11 = client_st11" "client_step 12 = client_st12" "client_step 13 = client_st13"
  "client_step 14 = client_st14" "client_step 15 = client_st15" "client_step 16 = client_st16"
  "client_step 17 = client_st17" "client_step 18 = client_st18" "client_step 19 = client_st19"
  "client_step 20 = client_st20" "client_step 21 = client_st21" "client_step 22 = client_st22"
  "client_step 23 = client_st23" "client_step 24 = client_st24" "client_step 25 = client_st25"
  "client_step 26 = client_st26" "client_step 27 = client_st27" "client_step 28 = client_st28"
  "client_step 29 = client_st29" "client_step 30 = client_st30" "client_step 31 = client_st31"
  "client_step 32 = client_st32" "client_step 33 = client_st33" "client_step 34 = client_st34"
  "client_step 35 = client_st35" "client_step 36 = client_st36" "client_step 43 = client_st43"
  "client_step 44 = client_st44" "client_step 45 = client_st45" "client_step 46 = client_st46"
  "client_step 47 = client_st47" "client_step 48 = client_st48" "client_step 49 = client_st49"
  "client_step 50 = client_st50" "client_step 51 = client_st51" "client_step 52 = client_st52"
  "client_step 53 = client_st53" "client_step 54 = client_st54" "client_step 55 = client_st55"
  "client_step 56 = client_st56" "client_step 57 = client_st57" "client_step 58 = client_st58"
  "client_step 59 = client_st59" "client_step 60 = client_st60" "client_step 61 = client_st61"
  "client_step 62 = client_st62" "client_step 71 = client_st71" "client_step 72 = client_st72"
  "client_step 73 = client_st73" "client_step 74 = client_st74" "client_step 75 = client_st75"
  "client_step 76 = client_st76" "client_step 77 = client_st77" "client_step 78 = client_st78"
  "client_step 79 = client_st79" "client_step 80 = client_st80" "client_step 81 = client_st81"
  "client_step 82 = client_st82" "client_step 83 = client_st83" "client_step 84 = client_st84"
  "client_step 85 = client_st85" "client_step 86 = client_st86" "client_step 87 = client_st87"
  "client_step 88 = client_st88" "client_step 89 = client_st89" "client_step 90 = client_st90"
  "client_step 91 = client_st91" "client_step 92 = client_st92" "client_step 93 = client_st93"
  "client_step 94 = client_st94" "client_step 95 = client_st95" "client_step 96 = client_st96"
  "client_step 97 = client_st97" "client_step 98 = client_st98" "client_step 99 = client_st99"
  "client_step 100 = client_st100" "client_step 101 = client_st101" "client_step 102 = client_st102"
  "client_step 103 = client_st103" "client_step 104 = client_st104" "client_step 105 = client_st105"
  "client_step 106 = client_st106" "client_step 107 = client_st107" "client_step 108 = client_st108"
  "client_step 109 = client_st109" "client_step 110 = client_st110" "client_step 111 = client_st111"
  "client_step 112 = client_st112" "client_step 113 = client_st113" "client_step 116 = client_st116"
  "client_step 117 = client_st117" "client_step 118 = client_st118" "client_step 119 = client_st119"
  by (simp_all add: fun_eq_iff client_step_def client_states_def)

lemmas client_eval = client_at client_code

text \<open>
  At the start of a line, in a name, before and in a value, and behind the carriage return of
  a field; the states behind an empty value of one of the three fields come apart.
\<close>

definition line_states :: "nat list" where "line_states = [20, 43]"
definition empty_line_states :: "nat list" where "empty_line_states = [20, 36, 62, 113]"
definition name_states :: "nat list" where
  "name_states = [21, 25, 26, 27, 28, 29, 30, 31, 32, 33, 34, 44, 45, 46, 47, 48, 49, 50, 51, 52,
     53, 54, 55, 56, 57, 58, 59, 60, 73, 74, 75, 76, 77, 78, 79, 90, 91, 92, 93, 94,
     101, 102, 103, 104, 105, 106, 107, 108, 109, 110, 111, 117]"
definition start_states :: "nat list" where "start_states = [22, 35, 61, 112]"
definition value_states :: "nat list" where
  "value_states = [23, 81, 82, 83, 84, 85, 86, 87, 96, 97, 98, 99, 100, 119]"
definition cr_states :: "nat list" where "cr_states = [24, 71, 88]"
definition empty_cr_states :: "nat list" where "empty_cr_states = [24, 80, 95, 118]"

lemmas client_groups = line_states_def empty_line_states_def start_states_def cr_states_def empty_cr_states_def
  name_states_def value_states_def

definition token_codes :: "int list" where
  "token_codes = [33, 35, 36, 37, 38, 39, 42, 43, 45, 46, 48, 49, 50, 51, 52, 53, 54, 55, 56, 57, 65,
     66, 67, 68, 69, 70, 71, 72, 73, 74, 75, 76, 77, 78, 79, 80, 81, 82, 83, 84, 85, 86,
     87, 88, 89, 90, 94, 95, 96, 97, 98, 99, 100, 101, 102, 103, 104, 105, 106, 107,
     108, 109, 110, 111, 112, 113, 114, 115, 116, 117, 118, 119, 120, 121, 122, 124, 126]"

abbreviation client_lead :: "nat list \<Rightarrow> (int \<Rightarrow> bool) \<Rightarrow> client_action list list \<Rightarrow> nat list \<Rightarrow> bool" where
  "client_lead \<equiv> ragel_lead client_step"

lemmas group_members = client_groups [THEN group_member, unfolded list.pred_inject]
lemmas group_all = client_groups [THEN group_each]

lemmas lead_eval = ragel_lead_def list_all_append group_all list.pred_inject all_codes token_codes_def

lemma lead_name:
  "client_lead (line_states @ empty_line_states) (\<lambda>c. c \<in> set token_codes)
     [[C_start_field], [C_start_value, C_start_field], [C_write_connection_close, C_start_field]] name_states"
  "client_lead name_states (\<lambda>c. c \<in> set token_codes) [[]] name_states"
  "client_lead name_states (\<lambda>c. c = 58) [[C_write_field]] start_states"
  by (simp_all only: lead_eval, (intro conjI TrueI allI impI; simp add: client_eval group_members)+)

definition blank_code :: "int \<Rightarrow> bool" where "blank_code c \<longleftrightarrow> c = 9 \<or> c = 11 \<or> c = 12 \<or> c = 32"

lemma lead_value:
  "client_lead start_states (\<lambda>c. c = 32) [[C_start_value]] start_states"
  "client_lead start_states (\<lambda>c. c \<noteq> 10 \<and> c \<noteq> 13 \<and> \<not> blank_code c) [[C_start_value]] value_states"
  "client_lead value_states (\<lambda>c. c \<noteq> 10 \<and> c \<noteq> 13) [[]] value_states"
  by (simp_all only: lead_eval, (intro conjI TrueI allI impI; auto simp add: client_eval group_members blank_code_def)+)

lemma lead_crlf:
  "client_lead start_states (\<lambda>c. c = 13) [[C_start_value, C_write_value]] empty_cr_states"
  "client_lead value_states (\<lambda>c. c = 13) [[C_write_value], [C_write_content_len, C_write_value]] cr_states"
  "client_lead cr_states (\<lambda>c. c = 10) [[], [C_trans_chunked]] line_states"
  "client_lead empty_cr_states (\<lambda>c. c = 10) [[]] empty_line_states"
  "client_lead line_states (\<lambda>c. c = 13) [[], [C_write_connection_close]] [3]"
  by (simp_all add: lead_eval client_eval group_members in_group_def client_groups)

subsection \<open>Runs over a header line\<close>

abbreviation client_run :: "u8 list \<Rightarrow> nat \<Rightarrow> u8 list \<Rightarrow> nat \<Rightarrow> nat \<Rightarrow> httpclient_parser \<times> client_event list \<Rightarrow>
    (nat \<times> httpclient_parser \<times> client_event list) option" where
  "client_run mem len \<equiv> ragel_run client_step (client_act mem len)"

text \<open>What a header line leaves alone in any case.\<close>

definition client_kept :: "httpclient_parser \<Rightarrow> httpclient_parser \<Rightarrow> bool" where
  "client_kept P P' \<longleftrightarrow> hc_body_start P' = hc_body_start P \<and> hc_cs P' = hc_cs P \<and> hc_status P' = hc_status P"

lemma client_kept_trans: "client_kept P P' \<Longrightarrow> client_kept P' P'' \<Longrightarrow> client_kept P P''"
  by (simp add: client_kept_def)

lemma drop_prefix: "drop p mem = xs @ ys \<Longrightarrow> drop (p + length xs) mem = ys"
  by (metis append_eq_conv_conj add.commute drop_drop)

lemma groups_nonzero: "0 \<notin> set line_states" "0 \<notin> set empty_line_states" "0 \<notin> set name_states" "0 \<notin> set start_states"
  "0 \<notin> set value_states" "0 \<notin> set cr_states" "0 \<notin> set empty_cr_states"
  by (simp_all add: client_groups)

definition client_value_char :: "u8 \<Rightarrow> bool" where
  "client_value_char c \<longleftrightarrow> uint c \<notin> {0x0A, 0x0D}"

definition client_blank :: "u8 \<Rightarrow> bool" where
  "client_blank c \<longleftrightarrow> uint c \<in> {0x09, 0x0B, 0x0C, 0x20}"

text \<open>Blanks in front of a value are skipped, so a value does not start with one.\<close>

definition client_field_ok :: "u8 list \<times> u8 list \<Rightarrow> bool" where
  "client_field_ok h \<longleftrightarrow> fst h \<noteq> [] \<and> list_all token_char (fst h) \<and> list_all client_value_char (snd h) \<and>
     (case snd h of [] \<Rightarrow> True | c # _ \<Rightarrow> \<not> client_blank c)"

lemma token_code: "token_char c \<Longrightarrow> schar c \<in> set token_codes"
proof -
  have e: "token_codes = [33] @ [35..39] @ [42, 43, 45, 46] @ [48..57] @ [65..90] @ [94..122] @ [124, 126]"
    by (simp add: token_codes_def upto_rec_numeral)
  show "token_char c \<Longrightarrow> schar c \<in> set token_codes"
    unfolding char_class schar_if e set_append set_upto by (elim disjE insertE emptyE; simp)
qed

lemma value_code:
  "client_value_char c \<Longrightarrow> schar c \<noteq> 10 \<and> schar c \<noteq> 13" "\<not> client_blank c \<Longrightarrow> \<not> blank_code (schar c)"
  using uint_u8_range [of c] by (auto simp: client_value_char_def client_blank_def blank_code_def schar_if)

lemma run_client_name:
  assumes "q \<in> set (line_states @ empty_line_states)" "list_all token_char k" "k \<noteq> []"
  shows "\<exists>q' P'. client_run mem len (k @ [0x3A, 0x20]) p q (P, evs) = Some (q', P', evs) \<and> q' \<in> set start_states \<and>
    client_kept P P' \<and> hc_field_start P' = p \<and> hc_field_len P' = length k"
proof -
  obtain c cs where k: "k = c # cs" using assms(3) by (cases k) auto
  have tk: "token_char c" "list_all (\<lambda>c. schar c \<in> set token_codes) cs"
    using assms(2) token_code by (auto simp: k list_all_iff)
  obtain acts q1 where 1: "client_step q (schar c) = (acts, q1)" "q1 \<in> set name_states"
    "acts \<in> {[C_start_field], [C_start_value, C_start_field], [C_write_connection_close, C_start_field]}"
    using ragel_leadD [OF lead_name(1) assms(1) token_code [OF tk(1)]] by auto
  obtain P1 where 2: "ragel_actions (client_act mem len) acts p (P, evs) = ((P1, evs), False)" "client_kept P P1" "hc_field_start P1 = p"
    using 1(3) by (auto simp: client_kept_def)
  obtain q2 where 3: "client_run mem len cs (Suc p) q1 (P1, evs) = Some (q2, P1, evs)" "q2 \<in> set name_states"
    using ragel_run_group [OF lead_name(2) groups_nonzero(3) 1(2) tk(2), of "client_act mem len"] by blast
  obtain q3 where 4: "client_step q2 58 = ([C_write_field], q3)" "q3 \<in> set start_states"
    using ragel_leadD [OF lead_name(3) 3(2)] by auto
  obtain q4 where 5: "client_step q3 32 = ([C_start_value], q4)" "q4 \<in> set start_states"
    using ragel_leadD [OF lead_value(1) 4(2)] by auto
  have "q1 \<noteq> 0" "q3 \<noteq> 0" "q4 \<noteq> 0" using 1(2) 4(2) 5(2) groups_nonzero by metis+
  then show ?thesis
    using 1(1) 2 3 4 5 by (simp add: k ragel_run_append schar_numeral LEN_def client_kept_def)
qed

lemma run_client_value:
  assumes "q \<in> set start_states" "list_all client_value_char v" "case v of [] \<Rightarrow> True | c # _ \<Rightarrow> \<not> client_blank c"
  shows "\<exists>q' P'. client_run mem len (v @ [0x0D, 0x0A]) p q (P, evs) = Some (q', P', evs @
      [Ev_response_field (drop (hc_field_start P) mem) (hc_field_len P) (drop p mem) (length v)]) \<and> client_kept P P' \<and>
    q' \<in> set (line_states @ empty_line_states) \<and> (v \<noteq> [] \<longrightarrow> q' \<in> set line_states)"
proof (cases v)
  case Nil
  obtain q1 where 1: "client_step q 13 = ([C_start_value, C_write_value], q1)" "q1 \<in> set empty_cr_states"
    using ragel_leadD [OF lead_crlf(1) assms(1)] by auto
  obtain q2 where 2: "client_step q1 10 = ([], q2)" "q2 \<in> set empty_line_states"
    using ragel_leadD [OF lead_crlf(4) 1(2)] by auto
  have "q1 \<noteq> 0" "q2 \<noteq> 0" using 1(2) 2(2) groups_nonzero by metis+
  then show ?thesis using 1 2 by (simp add: Nil schar_numeral LEN_def PTR_TO_def client_kept_def)
next
  case (Cons c cs)
  have vc: "schar c \<noteq> 10 \<and> schar c \<noteq> 13 \<and> \<not> blank_code (schar c)" "list_all (\<lambda>c. schar c \<noteq> 10 \<and> schar c \<noteq> 13) cs"
    using assms(2,3) value_code by (auto simp: Cons list_all_iff)
  obtain q1 where 1: "client_step q (schar c) = ([C_start_value], q1)" "q1 \<in> set value_states"
    using ragel_leadD [OF lead_value(2) assms(1) vc(1)] by auto
  obtain q2 where 2: "client_run mem len cs (Suc p) q1 (P\<lparr>hc_mark := p\<rparr>, evs) = Some (q2, P\<lparr>hc_mark := p\<rparr>, evs)" "q2 \<in> set value_states"
    using ragel_run_group [OF lead_value(3) groups_nonzero(5) 1(2) vc(2), of "client_act mem len"] by blast
  obtain acts q3 where 3: "client_step q2 13 = (acts, q3)" "acts \<in> {[C_write_value], [C_write_content_len, C_write_value]}" "q3 \<in> set cr_states"
    using ragel_leadD [OF lead_crlf(2) 2(2)] by auto
  obtain acts' q4 where 4: "client_step q3 10 = (acts', q4)" "acts' \<in> {[], [C_trans_chunked]}" "q4 \<in> set line_states"
    using ragel_leadD [OF lead_crlf(3) 3(3)] by auto
  have "q1 \<noteq> 0" "q3 \<noteq> 0" "q4 \<noteq> 0" using 1(2) 3(3) 4(3) groups_nonzero by metis+
  then show ?thesis
    using 1(1) 2(1) 3(1,2) 4 by (auto simp: Cons ragel_run_append schar_numeral LEN_def PTR_TO_def client_kept_def)
qed

text \<open>\<open>rest\<close> is what follows the line in the buffer.\<close>

definition client_field_event :: "u8 list \<Rightarrow> u8 list \<times> u8 list \<Rightarrow> client_event" where
  "client_field_event rest h = Ev_response_field (field_line h @ rest) (length (fst h))
     (snd h @ [0x0D, 0x0A] @ rest) (length (snd h))"

lemma run_client_field:
  assumes "client_field_ok h" "q \<in> set (line_states @ empty_line_states)" "drop p mem = field_line h @ rest"
  shows "\<exists>q' P'. client_run mem len (field_line h) p q (P, evs) = Some (q', P', evs @ [client_field_event rest h]) \<and>
    client_kept P P' \<and> q' \<in> set (line_states @ empty_line_states) \<and> (snd h \<noteq> [] \<longrightarrow> q' \<in> set line_states)"
proof -
  have l: "field_line h = (fst h @ [0x3A, 0x20]) @ (snd h @ [0x0D, 0x0A])" by (simp add: field_line_def)
  have d: "drop (p + length (fst h @ [0x3A, 0x20])) mem = snd h @ [0x0D, 0x0A] @ rest"
    by (rule drop_prefix) (simp add: assms(3) field_line_def)
  obtain q1 P1 where 1: "client_run mem len (fst h @ [0x3A, 0x20]) p q (P, evs) = Some (q1, P1, evs)" "q1 \<in> set start_states"
    "client_kept P P1" "hc_field_start P1 = p" "hc_field_len P1 = length (fst h)"
    using run_client_name [OF assms(2), of "fst h"] assms(1) unfolding client_field_ok_def by blast
  obtain q2 P2 where 2: "client_run mem len (snd h @ [0x0D, 0x0A]) (p + length (fst h @ [0x3A, 0x20])) q1 (P1, evs) =
      Some (q2, P2, evs @ [client_field_event rest h])" "client_kept P1 P2"
    "q2 \<in> set (line_states @ empty_line_states)" "snd h \<noteq> [] \<longrightarrow> q2 \<in> set line_states"
    using run_client_value [OF 1(2), of "snd h" mem len "p + length (fst h @ [0x3A, 0x20])" P1 evs] assms(1,3) 1(4,5) d
    unfolding client_field_ok_def client_field_event_def by auto
  show ?thesis using 1 2 client_kept_trans [OF 1(3) 2(2)] unfolding l by (simp only: ragel_run_append) auto
qed

fun client_field_events :: "u8 list \<Rightarrow> (u8 list \<times> u8 list) list \<Rightarrow> client_event list" where
  "client_field_events rest [] = []"
| "client_field_events rest (h # hs) =
     client_field_event (concat (map field_line hs) @ rest) h # client_field_events rest hs"

text \<open>
  After the last field the machine is at the start of a line; behind an empty value it may be in
  a state that still reads that value.
\<close>

lemma run_client_fields:
  "list_all client_field_ok hs \<Longrightarrow> q \<in> set (line_states @ empty_line_states) \<Longrightarrow>
   drop p mem = concat (map field_line hs) @ rest \<Longrightarrow> if hs = [] then q \<in> set line_states else snd (last hs) \<noteq> [] \<Longrightarrow>
   \<exists>q' P'. client_run mem len (concat (map field_line hs)) p q (P, evs) = Some (q', P', evs @ client_field_events rest hs) \<and>
     client_kept P P' \<and> q' \<in> set line_states"
proof (induction hs arbitrary: p q P evs)
  case (Cons h hs)
  let ?rest = "concat (map field_line hs) @ rest"
  obtain q1 P1 where 1: "client_run mem len (field_line h) p q (P, evs) = Some (q1, P1, evs @ [client_field_event ?rest h])"
    "client_kept P P1" "q1 \<in> set (line_states @ empty_line_states)" "snd h \<noteq> [] \<longrightarrow> q1 \<in> set line_states"
    using run_client_field [of h q p mem ?rest len P evs] Cons.prems by auto
  have "drop (p + length (field_line h)) mem = ?rest"
    by (rule drop_prefix) (simp add: Cons.prems(3))
  then obtain q2 P2 where 2: "client_run mem len (concat (map field_line hs)) (p + length (field_line h)) q1 (P1, evs @ [client_field_event ?rest h]) =
      Some (q2, P2, (evs @ [client_field_event ?rest h]) @ client_field_events rest hs)" "client_kept P1 P2" "q2 \<in> set line_states"
    using Cons.IH [OF _ 1(3), of "p + length (field_line h)" P1 "evs @ [client_field_event ?rest h]"] Cons.prems(1,4) 1(4) by (auto split: if_splits)
  then show ?case using 1(1) client_kept_trans [OF 1(2)] by (simp add: ragel_run_append)
qed (auto simp: client_kept_def)

subsection \<open>The status line and the whole head\<close>

definition status_line :: "u8 \<Rightarrow> u8 list \<Rightarrow> u8 list \<Rightarrow> u8 list" where
  "status_line d code reason = lit ''HTTP/1.'' @ [d, 0x20] @ code @ [0x20] @ reason @ [0x0D, 0x0A]"

definition response_head :: "u8 \<Rightarrow> u8 list \<Rightarrow> u8 list \<Rightarrow> (u8 list \<times> u8 list) list \<Rightarrow> u8 list" where
  "response_head d code reason hs = status_line d code reason @ concat (map field_line hs) @ [0x0D, 0x0A]"

definition status_events :: "u8 \<Rightarrow> u8 list \<Rightarrow> u8 list \<Rightarrow> u8 list \<Rightarrow> client_event list" where
  "status_events d code reason rest =
     [Ev_response_version (status_line d code reason @ rest) 8,
      Ev_status_code (code @ [0x20] @ reason @ [0x0D, 0x0A] @ rest) (length code),
      Ev_reason_phrase (reason @ [0x0D, 0x0A] @ rest) (length reason)]"

lemma digit_code: "is_digit c \<Longrightarrow> 48 \<le> schar c \<and> schar c \<le> 57"
  by (auto simp: char_class schar_if)

lemma status_states:
  "48 \<le> c \<and> c \<le> 57 \<Longrightarrow> client_step 14 c = goto 15" "client_step 15 32 = ([C_http_version], 16)"
  "48 \<le> c \<and> c \<le> 57 \<Longrightarrow> client_step 16 c = ([C_mark], 17)" "48 \<le> c \<and> c \<le> 57 \<Longrightarrow> client_step 17 c = goto 17"
  "client_step 17 32 = ([C_status_code], 18)"
  "c \<noteq> 10 \<and> c \<noteq> 13 \<Longrightarrow> client_step 18 c = ([C_mark], 19)" "c \<noteq> 10 \<and> c \<noteq> 13 \<Longrightarrow> client_step 19 c = goto 19"
  "client_step 19 13 = ([C_reason_phrase], 24)" "client_step 24 10 = goto 20"
  by (simp_all add: client_eval)

lemma run_status_version:
  assumes "is_digit d"
  shows "client_run mem len (lit ''HTTP/1.'' @ [d, 0x20]) p 1 (P, evs) =
    Some (16, P\<lparr>hc_mark := p\<rparr>, evs @ [Ev_response_version (drop p mem) 8])"
  using digit_code [OF assms]
  by (simp add: lit_def client_eval schar_def [of "0x48"] schar_def [of "0x54"] schar_def [of "0x50"] schar_def [of "0x31"] schar_def [of "0x2E"]
      schar_numeral LEN_def PTR_TO_def)

lemma run_status_code:
  assumes "list_all is_digit code" "code \<noteq> []"
  shows "client_run mem len (code @ [0x20]) p 16 (P, evs) =
    Some (18, P\<lparr>hc_mark := p, hc_status := long_to_int (strtol 10 (drop p mem))\<rparr>, evs @ [Ev_status_code (drop p mem) (length code)])"
proof (cases code)
  case (Cons c cs)
  have "client_run mem len cs (Suc p) 17 s = Some (17, s)" for s
    using assms Cons by (intro ragel_run_loop) (auto simp: list_all_iff status_states digit_code)
  then show ?thesis
    using assms Cons by (simp add: status_states digit_code schar_numeral ragel_run_append LEN_def PTR_TO_def)
qed (use assms in simp)

lemma run_status_reason:
  assumes "list_all client_value_char reason" "reason \<noteq> []"
  shows "client_run mem len (reason @ [0x0D, 0x0A]) p 18 (P, evs) =
    Some (20, P\<lparr>hc_mark := p\<rparr>, evs @ [Ev_reason_phrase (drop p mem) (length reason)])"
proof (cases reason)
  case (Cons c cs)
  have "client_run mem len cs (Suc p) 19 s = Some (19, s)" for s
    using assms Cons by (intro ragel_run_loop) (auto simp: list_all_iff status_states value_code)
  then show ?thesis
    using assms Cons by (simp add: status_states value_code schar_numeral ragel_run_append LEN_def PTR_TO_def)
qed (use assms in simp)

lemma run_status_line:
  assumes "is_digit d" "list_all is_digit code" "code \<noteq> []" "list_all client_value_char reason" "reason \<noteq> []"
    and "drop p mem = status_line d code reason @ rest"
  shows "\<exists>P'. client_run mem len (status_line d code reason) p 1 (P, evs) = Some (20, P', evs @ status_events d code reason rest) \<and>
    hc_body_start P' = hc_body_start P \<and> hc_cs P' = hc_cs P"
proof -
  have l: "status_line d code reason = (lit ''HTTP/1.'' @ [d, 0x20]) @ (code @ [0x20]) @ (reason @ [0x0D, 0x0A])"
    by (simp add: status_line_def)
  have d1: "drop (p + length (lit ''HTTP/1.'' @ [d, 0x20])) mem = code @ [0x20] @ reason @ [0x0D, 0x0A] @ rest"
    by (rule drop_prefix) (simp add: assms(6) l)
  have d2: "drop (p + length (lit ''HTTP/1.'' @ [d, 0x20]) + length (code @ [0x20])) mem = reason @ [0x0D, 0x0A] @ rest"
    by (rule drop_prefix) (simp add: d1 [simplified])
  show ?thesis
    unfolding l
    by (simp only: ragel_run_append [of _ _ "lit ''HTTP/1.'' @ [d, 0x20]"] ragel_run_append [of _ _ "code @ [0x20]"] run_status_version [OF assms(1)] option.case prod.case run_status_code [OF assms(2,3)]
        run_status_reason [OF assms(4,5)] d1 d2 assms(6))
       (simp add: status_events_def l)
qed

lemma client_exec_end:
  assumes "q \<in> set line_states"
  shows "\<exists>P'. ragel_exec client_step (client_act mem len) ([0x0D, 0x0A] @ body) p q (P, evs) =
    (p + 2, 120, P', evs @ [Ev_response_done (drop (p + 2) mem) (len - p - 2)]) \<and> hc_body_start P' = p + 2"
proof -
  obtain acts where "client_step q 13 = (acts, 3)" "acts \<in> {[], [C_write_connection_close]}"
    using ragel_leadD [OF lead_crlf(5) assms] by auto
  moreover have "client_step 3 10 = ([C_done], 120)" by (simp add: client_eval)
  ultimately show ?thesis by (auto simp: schar_numeral PTR_TO_def)
qed

definition response_head_ok :: "u8 \<Rightarrow> u8 list \<Rightarrow> u8 list \<Rightarrow> (u8 list \<times> u8 list) list \<Rightarrow> bool" where
  "response_head_ok d code reason hs \<longleftrightarrow> is_digit d \<and> list_all is_digit code \<and> code \<noteq> [] \<and>
     list_all client_value_char reason \<and> reason \<noteq> [] \<and> list_all client_field_ok hs \<and> (hs \<noteq> [] \<longrightarrow> snd (last hs) \<noteq> [])"

definition response_events :: "u8 \<Rightarrow> u8 list \<Rightarrow> u8 list \<Rightarrow> (u8 list \<times> u8 list) list \<Rightarrow> u8 list \<Rightarrow> nat \<Rightarrow> client_event list" where
  "response_events d code reason hs rest n =
     status_events d code reason (concat (map field_line hs) @ [0x0D, 0x0A] @ rest) @
     client_field_events ([0x0D, 0x0A] @ rest) hs @ [Ev_response_done rest n]"

text \<open>The lines of a head, from the start of a buffer that goes on with \<open>rest\<close>.\<close>

lemma run_response_lines:
  assumes "response_head_ok d code reason hs" "mem = status_line d code reason @ concat (map field_line hs) @ rest"
  shows "\<exists>q P'. client_run mem len (status_line d code reason @ concat (map field_line hs)) 0 1 (P, []) =
      Some (q, P', status_events d code reason (concat (map field_line hs) @ rest) @ client_field_events rest hs) \<and>
    q \<in> set line_states \<and> hc_body_start P' = hc_body_start P"
proof -
  obtain P1 where 1: "client_run mem len (status_line d code reason) 0 1 (P, []) =
      Some (20, P1, [] @ status_events d code reason (concat (map field_line hs) @ rest))" "hc_body_start P1 = hc_body_start P"
    using run_status_line [of d code reason 0 mem "concat (map field_line hs) @ rest" len P "[]"] assms
    by (auto simp: response_head_ok_def)
  have d: "drop (length (status_line d code reason)) mem = concat (map field_line hs) @ rest" by (simp add: assms(2))
  have q: "20 \<in> set (line_states @ empty_line_states)" "20 \<in> set line_states" by (simp_all add: client_groups)
  have l: "if hs = [] then 20 \<in> set line_states else snd (last hs) \<noteq> []" "list_all client_field_ok hs"
    using assms(1) q(2) by (simp_all add: response_head_ok_def)
  obtain q2 P2 where 2: "client_run mem len (concat (map field_line hs)) (length (status_line d code reason)) 20
      (P1, status_events d code reason (concat (map field_line hs) @ rest)) =
      Some (q2, P2, status_events d code reason (concat (map field_line hs) @ rest) @ client_field_events rest hs)"
    "client_kept P1 P2" "q2 \<in> set line_states"
    using run_client_fields [OF l(2) q(1) d l(1)] by blast
  show ?thesis using 1 2 by (simp add: ragel_run_append client_kept_def)
qed

lemma execute_response:
  assumes ok: "response_head_ok d code reason hs"
    and mem: "mem = response_head d code reason hs @ body @ 0 # extra" "len = length (response_head d code reason hs @ body)" "len < 2 ^ 31"
  obtains P where "httpclient_parser_execute (httpclient_parser_init m) mem len 0 =
      Inr (int (length (response_head d code reason hs)), P, response_events d code reason hs (body @ 0 # extra) (length body))"
    "httpclient_parser_finish P = 1" "hc_body_start P = length (response_head d code reason hs)"
proof -
  let ?P = "httpclient_parser_init m"
  let ?lines = "status_line d code reason @ concat (map field_line hs)"
  have h: "response_head d code reason hs = ?lines @ [0x0D, 0x0A]" by (simp add: response_head_def)
  have mem': "mem = status_line d code reason @ concat (map field_line hs) @ ([0x0D, 0x0A] @ body @ 0 # extra)"
    by (simp add: mem(1) h)
  obtain q P1 where 1: "client_run mem len ?lines 0 1 (client_reset ?P, []) = Some (q, P1,
      status_events d code reason (concat (map field_line hs) @ [0x0D, 0x0A] @ body @ 0 # extra) @
      client_field_events ([0x0D, 0x0A] @ body @ 0 # extra) hs)" "q \<in> set line_states"
    using run_response_lines [OF ok mem', of len "client_reset ?P"] by blast
  have n: "len - length ?lines - 2 = length body" by (simp add: mem(2) h)
  have dr: "drop (length ?lines + 2) mem = body @ 0 # extra" by (simp add: mem(1) h)
  obtain P2 where 2: "ragel_exec client_step (client_act mem len) ([0x0D, 0x0A] @ body) (length ?lines) q (P1,
      status_events d code reason (concat (map field_line hs) @ [0x0D, 0x0A] @ body @ 0 # extra) @
      client_field_events ([0x0D, 0x0A] @ body @ 0 # extra) hs) =
    (length ?lines + 2, 120, P2, response_events d code reason hs (body @ 0 # extra) (length body))" "hc_body_start P2 = length ?lines + 2"
    using client_exec_end [OF 1(2), of mem len body "length ?lines" P1 "status_events d code reason
      (concat (map field_line hs) @ [0x0D, 0x0A] @ body @ 0 # extra) @ client_field_events ([0x0D, 0x0A] @ body @ 0 # extra) hs"]
    unfolding n dr response_events_def by auto
  have tk: "drop 0 (take len mem) = ?lines @ [0x0D, 0x0A] @ body" by (simp add: mem(1,2) h)
  have x: "ragel_exec client_step (client_act mem len) (drop 0 (take len mem)) 0 (hc_cs ?P) (client_reset ?P, []) =
    (length ?lines + 2, 120, P2, response_events d code reason hs (body @ 0 # extra) (length body))"
    unfolding tk using ragel_exec_append [OF 1(1)] 2(1) by (simp add: httpclient_parser_init_def httpclient_parser_start_def)
  have l: "0 < len" "len < length mem" "mem ! len = 0" by (simp_all add: mem(1,2) h nth_append)
  have "httpclient_parser_execute ?P mem len 0 = Inr (int (length ?lines + 2 - 0), P2\<lparr>hc_cs := 120, hc_nread := length ?lines + 2 - 0\<rparr>,
      response_events d code reason hs (body @ 0 # extra) (length body))"
    by (rule client_execute_eq [OF l(1) _ mem(3) l(2,3) _ x]) (simp_all add: httpclient_parser_init_def)
  moreover have "length ?lines + 2 - 0 = length (response_head d code reason hs)" by (simp add: h)
  ultimately show thesis
    using that [of "P2\<lparr>hc_cs := 120, hc_nread := length ?lines + 2 - 0\<rparr>"] 2(2)
    by (simp add: h httpclient_parser_finish_def httpclient_parser_has_error_def httpclient_parser_is_finished_def
        httpclient_parser_error_def httpclient_parser_first_final_def)
qed

subsection \<open>The readings in parallel go wrong\<close>

text \<open>
  Blanks in front of a value may be line ends. After \<open>Transfer-Encoding:\<close> and a line end, the word
  \<open>chunked\<close> is read both as the value of that field and as a name that starts a new one: the start
  of the field is moved to the word, its length stays the 17 of the first name, and the end of
  the line reports 17 bytes from there.
\<close>

lemma run_folded_chunked:
  assumes "q \<in> set line_states"
  shows "\<exists>P'. client_run mem len (lit ''Transfer-Encoding:'' @ [0x0D, 0x0A] @ lit ''chunked'' @ [0x0D]) p q (P, evs) =
    Some (71, P', evs @ [Ev_response_field (drop p mem) 17 (drop (p + 18) mem) 0,
      Ev_response_field (drop (p + 20) mem) 17 (drop (p + 20) mem) 7])"
  using assms unfolding line_states_def list.set
  by (elim insertE emptyE; simp add: lit_def client_eval schar_def LEN_def PTR_TO_def; simp add: eval_nat_numeral)

text \<open>
  Behind an empty \<open>Connection\<close> field the end of the head leads to state 122, which is final but not
  the one that \<open>is_finished\<close> tests.
\<close>

lemma exec_empty_connection:
  assumes "q \<in> set line_states"
  shows "\<exists>P' evs'. ragel_exec client_step (client_act mem len) (field_line (lit ''Connection'', []) @ [0x0D, 0x0A] @ body) p q (P, evs) =
    (p + 16, 122, P', evs')"
  using assms unfolding line_states_def list.set
  by (elim insertE emptyE; simp add: field_line_def lit_def client_eval schar_def LEN_def PTR_TO_def)

end
