(* ===== verification/Civan_Response_Parser.thy ===== *)
theory Civan_Response_Parser
  imports Civan_Client_Grammar Civan_Http_Parser
begin

section \<open>The response parser: \<open>HttpResponseParser\<close> of \<open>civan/http/http_parser.cc\<close>\<close>

text \<open>
  The callbacks that build an \<open>HttpResponse\<close> from what the automaton reports, and the parser
  object around them. A response that \<open>HttpResponse::dump\<close> prints is read back; a response with a
  folded \<open>Transfer-Encoding\<close> field makes the parser read past its buffer.
\<close>

subsection \<open>Callbacks\<close>

record HttpResponseParser =
  sp_parser :: httpclient_parser
  sp_data :: HttpResponse
  sp_error :: int

definition new_HttpResponseParser :: "httpclient_parser \<Rightarrow> HttpResponseParser" where
  "new_HttpResponseParser m =
     \<lparr>sp_parser = httpclient_parser_init m, sp_data = HttpResponse_ctor 0x11 True, sp_error = 0\<rparr>"

definition ResponseParser_setError :: "int \<Rightarrow> HttpResponseParser \<Rightarrow> HttpResponseParser" where
  "ResponseParser_setError v p = p\<lparr>sp_error := v\<rparr>"

definition upd_response :: "(HttpResponse \<Rightarrow> HttpResponse) \<Rightarrow> HttpResponseParser \<Rightarrow> HttpResponseParser" where
  "upd_response f p = p\<lparr>sp_data := f (sp_data p)\<rparr>"

definition on_response_reason :: "u8 list \<Rightarrow> nat \<Rightarrow> HttpResponseParser \<Rightarrow> HttpResponseParser res" where
  "on_response_reason at n p = rbind (std_string at n) (\<lambda>s. Inr (upd_response (r_reason_update (\<lambda>_. s)) p))"

definition on_response_status :: "u8 list \<Rightarrow> nat \<Rightarrow> HttpResponseParser \<Rightarrow> HttpResponseParser res" where
  "on_response_status at n p = Inr (upd_response (r_status_update (\<lambda>_. atoi at)) p)"

definition on_response_version :: "u8 list \<Rightarrow> nat \<Rightarrow> HttpResponseParser \<Rightarrow> HttpResponseParser res" where
  "on_response_version at n p =
     (if strncmp_eq at (lit ''HTTP/1.1'') n then Inr (upd_response (r_version_update (\<lambda>_. 0x11)) p)
      else if strncmp_eq at (lit ''HTTP/1.0'') n then Inr (upd_response (r_version_update (\<lambda>_. 0x10)) p)
      else Inr (ResponseParser_setError 1001 p))"

definition on_response_http_field ::
  "u8 list \<Rightarrow> nat \<Rightarrow> u8 list \<Rightarrow> nat \<Rightarrow> HttpResponseParser \<Rightarrow> HttpResponseParser res" where
  "on_response_http_field field flen value vlen p =
     (if flen = 0 then Inr p
      else rbind (std_string field flen) (\<lambda>k. rbind (std_string value vlen) (\<lambda>v.
        Inr (upd_response (HttpResponse_setHeader k v) p))))"

text \<open>The callbacks for a chunk, the last chunk and the end of the head do nothing.\<close>

fun on_response_event :: "client_event \<Rightarrow> HttpResponseParser \<Rightarrow> HttpResponseParser res" where
  "on_response_event (Ev_reason_phrase at n) p = on_response_reason at n p"
| "on_response_event (Ev_status_code at n) p = on_response_status at n p"
| "on_response_event (Ev_chunk_size at n) p = Inr p"
| "on_response_event (Ev_last_chunk at n) p = Inr p"
| "on_response_event (Ev_response_version at n) p = on_response_version at n p"
| "on_response_event (Ev_response_done at n) p = Inr p"
| "on_response_event (Ev_response_field field flen value vlen) p = on_response_http_field field flen value vlen p"

fun on_response_events :: "client_event list \<Rightarrow> HttpResponseParser \<Rightarrow> HttpResponseParser res" where
  "on_response_events [] p = Inr p"
| "on_response_events (e # es) p = rbind (on_response_event e p) (on_response_events es)"

text \<open>
  \<open>memmove(data, data + offset, len - offset)\<close> on the memory behind \<open>data\<close>. The result of the
  automaton is converted to \<open>size_t\<close>: -1 is the largest offset, and the copy then starts in
  front of the data.
\<close>

definition move_front :: "u8 list \<Rightarrow> nat \<Rightarrow> int \<Rightarrow> (nat \<times> u8 list) res" where
  "move_front mem len offset =
     (if 0 \<le> offset \<and> offset \<le> int len \<and> len \<le> length mem
      then Inr (nat offset, take (len - nat offset) (drop (nat offset) mem) @ drop (len - nat offset) mem)
      else Inl BadPointer)"

definition ResponseParser_execute ::
  "u8 list \<Rightarrow> nat \<Rightarrow> bool \<Rightarrow> HttpResponseParser \<Rightarrow> (nat \<times> u8 list \<times> HttpResponseParser) res" where
  "ResponseParser_execute mem len chunck p =
     rbind (httpclient_parser_execute (if chunck then httpclient_parser_init (sp_parser p) else sp_parser p) mem len 0)
       (\<lambda>(offset, q, evs). rbind (on_response_events evs p)
       (\<lambda>p'. rbind (move_front mem len offset) (\<lambda>(n, mem'). Inr (n, mem', p'\<lparr>sp_parser := q\<rparr>))))"

definition ResponseParser_isFinished :: "HttpResponseParser \<Rightarrow> int" where
  "ResponseParser_isFinished p = httpclient_parser_finish (sp_parser p)"

definition ResponseParser_hasError :: "HttpResponseParser \<Rightarrow> bool" where
  "ResponseParser_hasError p \<longleftrightarrow> sp_error p \<noteq> 0 \<or> httpclient_parser_has_error (sp_parser p)"

definition ResponseParser_getContentLength :: "(u8 list \<Rightarrow> u64 option) \<Rightarrow> HttpResponseParser \<Rightarrow> u64" where
  "ResponseParser_getContentLength lexical_cast p = HttpResponse_getHeaderAs lexical_cast (lit ''content-length'') 0 (sp_data p)"

subsection \<open>The callbacks of a well-formed head\<close>

lemma on_response_events_append:
  "on_response_events (xs @ ys) p = rbind (on_response_events xs p) (on_response_events ys)"
  by (induction xs arbitrary: p) (simp_all add: rbind_assoc cong: rbind_cong)

lemma on_client_fields:
  "list_all client_field_ok hs \<Longrightarrow> on_response_events (client_field_events rest hs) p =
     Inr (p\<lparr>sp_data := (sp_data p)\<lparr>r_headers := fold (\<lambda>(k, v). MapType_set k v) hs (r_headers (sp_data p))\<rparr>\<rparr>)"
proof (induction hs arbitrary: p)
  case (Cons h hs)
  then show ?case
    by (cases h) (simp add: client_field_event_def on_response_http_field_def client_field_ok_def field_line_def upd_response_def
        HttpResponse_setHeader_def)
qed simp

lemma version_at:
  assumes "d = version_digit v" "v = 0x11 \<or> v = 0x10"
  shows "strncmp_eq (status_line d code reason @ rest) (lit ''HTTP/1.1'') 8 \<longleftrightarrow> v = 0x11"
    "strncmp_eq (status_line d code reason @ rest) (lit ''HTTP/1.0'') 8 \<longleftrightarrow> v = 0x10"
proof -
  have "take 8 (status_line d code reason @ rest) = lit (if v = 0x11 then ''HTTP/1.1'' else ''HTTP/1.0'')"
    using assms by (auto simp: status_line_def version_digit_def lit_def)
  then show "strncmp_eq (status_line d code reason @ rest) (lit ''HTTP/1.1'') 8 \<longleftrightarrow> v = 0x11"
    "strncmp_eq (status_line d code reason @ rest) (lit ''HTTP/1.0'') 8 \<longleftrightarrow> v = 0x10"
    using version_text [of 8 "status_line d code reason @ rest" "if v = 0x11 then ''HTTP/1.1'' else ''HTTP/1.0''"] assms(2)
    by (auto simp: status_line_def)
qed

lemma on_status_events:
  assumes "v = 0x11 \<or> v = 0x10" "k < 2 ^ 31"
  shows "on_response_events (status_events (version_digit v) (show_nat k) reason rest) p =
    Inr (p\<lparr>sp_data := (sp_data p)\<lparr>r_version := v, r_status := int k, r_reason := reason\<rparr>\<rparr>)"
proof -
  have "digit_of 0x20 = 36" by code_simp
  then have "atoi (show_nat k @ 0x20 # t) = int k" for t using assms(2) by (intro atoi_show_nat) simp_all
  then show ?thesis
    using assms(1) version_at [OF refl assms(1)]
    by (auto simp: status_events_def on_response_version_def on_response_status_def on_response_reason_def upd_response_def)
qed

subsection \<open>Reading back what \<open>dump\<close> prints\<close>

definition cookie_fields :: "bytes list \<Rightarrow> (bytes \<times> bytes) list" where
  "cookie_fields cs = map (\<lambda>c. (lit ''Set-Cookie'', c)) cs"

text \<open>The header lines of a printed response, in order.\<close>

definition printed_response_fields :: "HttpResponse \<Rightarrow> (bytes \<times> bytes) list" where
  "printed_response_fields r =
     (if r_websocket r then r_headers r else filter (\<lambda>i. \<not> is_connection i) (r_headers r)) @
     cookie_fields (r_cookies r) @ (if r_websocket r then [] else [connection_field (r_close r)]) @ length_field (r_body r)"

definition printed_reason :: "HttpResponse \<Rightarrow> bytes" where
  "printed_reason r = (if r_reason r = [] then HttpStatusToString (r_status r) else r_reason r)"

text \<open>
  The responses that can be read back. Only for a web socket can the last line be one of the
  response's own headers; its value must not be empty then.
\<close>

definition printable_response :: "HttpResponse \<Rightarrow> bool" where
  "printable_response r \<longleftrightarrow> (r_version r = 0x11 \<or> r_version r = 0x10) \<and> 0 \<le> r_status r \<and> r_status r < 2 ^ 31 \<and>
     list_all client_value_char (r_reason r) \<and> list_all client_field_ok (r_headers r) \<and>
     list_all client_field_ok (cookie_fields (r_cookies r)) \<and>
     sorted_wrt (\<lambda>a b. CaseInsensitiveLess (fst a) (fst b)) (r_headers r) \<and>
     (r_websocket r \<longrightarrow> printed_response_fields r = [] \<or> snd (last (printed_response_fields r)) \<noteq> [])"

lemma dump_response_head:
  assumes "printable_response r"
  shows "HttpResponse_dump r = response_head (version_digit (r_version r)) (show_nat (nat (r_status r))) (printed_reason r)
     (printed_response_fields r) @ r_body r"
proof -
  have v: "r_version r = 0x11 \<or> r_version r = 0x10" and k: "0 \<le> r_status r" "r_status r < 2 ^ 31"
    using assms by (auto simp: printable_response_def)
  have "concat (map (\<lambda>i. lit ''Set-Cookie: '' @ i @ crlf) cs) = concat (map field_line (cookie_fields cs))" for cs
    by (induction cs) (simp_all add: cookie_fields_def field_line_def crlf_def lit_def)
  moreover have "r_status r mod 2 ^ 32 = r_status r" using k by simp
  ultimately show ?thesis
    using show_version_digit [OF v]
    by (simp add: HttpResponse_dump_def response_head_def status_line_def dump_headers_fields dump_connection_field
        dump_body_field printed_response_fields_def printed_reason_def crlf_def lit_def)
qed

lemma status_texts: "list_all (\<lambda>(code, name, msg). msg \<noteq> [] \<and> list_all client_value_char (lit msg)) HTTP_STATUS_MAP"
  by code_simp

lemma status_text: "HttpStatusToString s \<noteq> [] \<and> list_all client_value_char (HttpStatusToString s)"
proof (cases "find (\<lambda>(code, name, msg). code = s) HTTP_STATUS_MAP")
  case None
  have "list_all client_value_char (lit ''<unknown>'')" by code_simp
  then show ?thesis using None by (simp add: HttpStatusToString_def)
next
  case (Some e)
  obtain code name msg where e: "e = (code, name, msg)" by (cases e) auto
  have "e \<in> set HTTP_STATUS_MAP" using Some unfolding find_Some_iff by (metis nth_mem)
  then show ?thesis
    using bspec [OF status_texts [unfolded list_all_iff]] Some by (fastforce simp: HttpStatusToString_def e list_all_iff)
qed

lemma show_nat_digits: "list_all is_digit (show_nat n)"
  using show_nat_digit by (auto simp: list_all_iff is_digit_def word_le_def)

lemma length_field_client_ok: "client_field_ok (lit ''content-length'', show_nat n)"
proof -
  have "client_value_char c \<and> \<not> client_blank c" if "c \<in> set (show_nat n)" for c
    using show_nat_digit [OF that] by (auto simp: client_value_char_def client_blank_def word_le_def)
  moreover have "list_all token_char (lit ''content-length'')" by code_simp
  ultimately show ?thesis by (auto simp: client_field_ok_def list_all_iff split: list.splits)
qed

lemma printable_response_head:
  assumes "printable_response r"
  shows "response_head_ok (version_digit (r_version r)) (show_nat (nat (r_status r))) (printed_reason r) (printed_response_fields r)"
proof -
  have "client_field_ok (connection_field True)" "client_field_ok (connection_field False)" by code_simp+
  then have c: "client_field_ok (connection_field b)" for b by (cases b) simp_all
  have "list_all client_field_ok (printed_response_fields r)"
    using assms c length_field_client_ok
    by (auto simp: printable_response_def printed_response_fields_def length_field_def list_all_iff)
  moreover have "printed_response_fields r \<noteq> [] \<longrightarrow> snd (last (printed_response_fields r)) \<noteq> []"
    using assms by (cases "r_websocket r")
      (auto simp: printable_response_def printed_response_fields_def length_field_def connection_field_def)
  moreover have "is_digit (version_digit (r_version r))" by (simp add: version_digit_def is_digit_def)
  moreover have "printed_reason r \<noteq> [] \<and> list_all client_value_char (printed_reason r)"
    using assms status_text by (simp add: printed_reason_def printable_response_def)
  ultimately show ?thesis by (simp add: response_head_ok_def show_nat_digits)
qed

lemma first_named_cookies: "first_named key (rev (cookie_fields cs)) =
    (if cs \<noteq> [] \<and> same_name key (lit ''Set-Cookie'') then Some (last cs) else None)"
  by (induction cs rule: rev_induct) (auto simp: cookie_fields_def first_named_def same_name_sym)

lemma find_response_fields:
  assumes "headers.keys_ordered (r_headers r)"
  shows "first_named key (rev (printed_response_fields r)) =
    (if r_body r \<noteq> [] \<and> same_name key (lit ''content-length'') then Some (show_nat (length (r_body r)))
     else if \<not> r_websocket r \<and> same_name key (lit ''connection'') then Some (snd (connection_field (r_close r)))
     else if r_cookies r \<noteq> [] \<and> same_name key (lit ''Set-Cookie'') then Some (last (r_cookies r))
     else MapType_find key (r_headers r))"
proof -
  have one: "first_named key ((k, v) # ps) = (if same_name key k then Some v else first_named key ps)" for k v ps
    by (simp add: first_named_def same_name_sym)
  have f: "first_named key (rev (filter (\<lambda>i. \<not> is_connection i) (r_headers r))) =
      (if same_name key (lit ''connection'') then None else MapType_find key (r_headers r))"
    unfolding find_without_connection [OF assms, symmetric]
    by (rule first_named_ordered) (simp_all add: sorted_wrt_filter assms)
  have w: "first_named key (rev (r_headers r)) = MapType_find key (r_headers r)"
    by (rule first_named_ordered [OF assms]) simp
  have n: "first_named key [] = None" by (simp add: first_named_def)
  show ?thesis
    by (simp add: printed_response_fields_def length_field_def first_named_append first_named_cookies f w one n
        connection_field_def split: option.split)
qed

subsection \<open>Properties of the response parser\<close>

text \<open>
  Property C4. A printed response is read back: one call of \<open>execute\<close> on what \<open>HttpResponse::dump\<close> prints, with a
  terminator behind it, finishes without error, moves the body to the front of the buffer, and
  yields a response with the same status, version and reason (the standard one where none was
  set), and with the same headers up to case, where the last cookie stands for all of them,
  the connection header tells the \<open>close\<close> flag and the content length the size of the body.
\<close>

theorem http_response_roundtrip:
  assumes "printable_response r" "length (HttpResponse_dump r) < 2 ^ 31"
  shows "\<exists>p mem'. ResponseParser_execute (HttpResponse_dump r @ 0 # extra) (length (HttpResponse_dump r)) False (new_HttpResponseParser m) =
      Inr (length (HttpResponse_dump r) - length (r_body r), r_body r @ mem', p) \<and>
    ResponseParser_isFinished p = 1 \<and> \<not> ResponseParser_hasError p \<and>
    r_status (sp_data p) = r_status r \<and> r_version (sp_data p) = r_version r \<and> r_reason (sp_data p) = printed_reason r \<and>
    (\<forall>key def. HttpResponse_getHeader (sp_data p) key def =
      (if r_body r \<noteq> [] \<and> same_name key (lit ''content-length'') then show_nat (length (r_body r))
       else if \<not> r_websocket r \<and> same_name key (lit ''connection'') then (if r_close r then lit ''close'' else lit ''keep-alive'')
       else if r_cookies r \<noteq> [] \<and> same_name key (lit ''Set-Cookie'') then last (r_cookies r)
       else HttpResponse_getHeader r key def))"
proof -
  let ?d = "version_digit (r_version r)" and ?code = "show_nat (nat (r_status r))" and ?hs = "printed_response_fields r"
  let ?head = "response_head ?d ?code (printed_reason r) ?hs"
  note d = dump_response_head [OF assms(1)]
  have v: "r_version r = 0x11 \<or> r_version r = 0x10" and k: "0 \<le> r_status r" "nat (r_status r) < 2 ^ 31"
    and o: "headers.keys_ordered (r_headers r)"
    using assms(1) by (auto simp: printable_response_def)
  have ok: "list_all client_field_ok ?hs" using printable_response_head [OF assms(1)] by (simp add: response_head_ok_def)
  obtain P where x: "httpclient_parser_execute (httpclient_parser_init m) (HttpResponse_dump r @ 0 # extra) (length (HttpResponse_dump r)) 0 =
      Inr (int (length ?head), P, response_events ?d ?code (printed_reason r) ?hs (r_body r @ 0 # extra) (length (r_body r)))"
    "httpclient_parser_finish P = 1"
    by (rule execute_response [OF printable_response_head [OF assms(1)], of "HttpResponse_dump r @ 0 # extra" "r_body r" extra
          "length (HttpResponse_dump r)" m]) (use assms(2) in \<open>simp_all add: d\<close>)
  define D where "D = (HttpResponse_ctor 0x11 True)\<lparr>r_version := r_version r, r_status := r_status r, r_reason := printed_reason r,
      r_headers := fold (\<lambda>(k, v). MapType_set k v) ?hs []\<rparr>"
  have e: "on_response_events (response_events ?d ?code (printed_reason r) ?hs (r_body r @ 0 # extra) (length (r_body r)))
      (new_HttpResponseParser m) = Inr ((new_HttpResponseParser m)\<lparr>sp_data := D\<rparr>)"
    using on_status_events [OF v k(2)] on_client_fields [OF ok] k(1)
    by (simp add: response_events_def on_response_events_append D_def new_HttpResponseParser_def HttpResponse_ctor_def)
  have mv: "move_front (HttpResponse_dump r @ 0 # extra) (length (HttpResponse_dump r)) (int (length ?head)) =
      Inr (length ?head, r_body r @ drop (length (r_body r)) (HttpResponse_dump r @ 0 # extra))"
    by (simp add: move_front_def d)
  have n: "length ?head = length (HttpResponse_dump r) - length (r_body r)" by (simp add: d)
  have "MapType_find key (fold (\<lambda>(k, v). MapType_set k v) ?hs []) = first_named key (rev ?hs)" for key
    using find_fold_set [of "[]" key ?hs] by (simp add: map_find_def split: option.split)
  then have "HttpResponse_getHeader D key def =
      (if r_body r \<noteq> [] \<and> same_name key (lit ''content-length'') then show_nat (length (r_body r))
       else if \<not> r_websocket r \<and> same_name key (lit ''connection'') then (if r_close r then lit ''close'' else lit ''keep-alive'')
       else if r_cookies r \<noteq> [] \<and> same_name key (lit ''Set-Cookie'') then last (r_cookies r)
       else HttpResponse_getHeader r key def)" for key "def"
    by (simp add: D_def HttpResponse_getHeader_def find_response_fields [OF o] or_default_def connection_field_def)
  moreover have "ResponseParser_execute (HttpResponse_dump r @ 0 # extra) (length (HttpResponse_dump r)) False (new_HttpResponseParser m) =
      Inr (length (HttpResponse_dump r) - length (r_body r), r_body r @ drop (length (r_body r)) (HttpResponse_dump r @ 0 # extra),
        (new_HttpResponseParser m)\<lparr>sp_data := D, sp_parser := P\<rparr>)"
    using x(1) e mv by (simp add: ResponseParser_execute_def n [symmetric] new_HttpResponseParser_def)
  ultimately show ?thesis
    using x(2) by (auto simp: ResponseParser_isFinished_def ResponseParser_hasError_def new_HttpResponseParser_def D_def
        httpclient_parser_finish_def split: if_splits)
qed

text \<open>An example; \<open>sample_client\<close> is the memory of the parser.\<close>

definition sample_client :: httpclient_parser where
  "sample_client = \<lparr>hc_cs = 0, hc_body_start = 0, hc_content_len = 0, hc_status = 0, hc_chunked = False, hc_chunks_done = False,
     hc_close = False, hc_nread = 0, hc_mark = 0, hc_field_start = 0, hc_field_len = 0\<rparr>"

definition sample_response :: HttpResponse where
  "sample_response = (HttpResponse_ctor 0x11 False)\<lparr>r_status := 404, r_headers := [(lit ''Server'', lit ''civan'')],
     r_cookies := [lit ''a=b''], r_body := [1, 2]\<rparr>"

theorem http_response_roundtrip_witness:
  "\<exists>p mem'. ResponseParser_execute (HttpResponse_dump sample_response @ [0]) (length (HttpResponse_dump sample_response)) False
      (new_HttpResponseParser sample_client) =
      Inr (length (HttpResponse_dump sample_response) - length (r_body sample_response), r_body sample_response @ mem', p) \<and>
    r_status (sp_data p) = 404 \<and> HttpResponse_getHeader (sp_data p) (lit ''SERVER'') [] = lit ''civan''"
proof -
  have "printable_response sample_response" by code_simp
  moreover have "length (HttpResponse_dump sample_response) < 1000" by code_simp
  then have "length (HttpResponse_dump sample_response) < 2 ^ 31" by simp
  moreover have "HttpResponse_getHeader sample_response (lit ''SERVER'') [] = lit ''civan''"
    "\<not> same_name (lit ''SERVER'') (lit ''content-length'')" "\<not> same_name (lit ''SERVER'') (lit ''connection'')"
    "\<not> same_name (lit ''SERVER'') (lit ''Set-Cookie'')" "r_status sample_response = 404"
    by code_simp+
  ultimately show ?thesis using http_response_roundtrip [of sample_response "[]" sample_client] by auto
qed

lemma on_status_events_ok: "\<exists>p'. on_response_events (status_events d code reason rest) p = Inr p'"
  by (simp add: status_events_def on_response_version_def on_response_status_def on_response_reason_def)

text \<open>
  After any well-formed status line and headers, a \<open>Transfer-Encoding\<close> field whose value stands on the
  next line makes the parser hand a slice to the field callback that reaches 8 bytes behind the
  terminator of the buffer: the construction of the name reads memory that is not part of it.
\<close>

theorem response_folded_overread:
  assumes ok: "response_head_ok d code reason hs"
    and tx: "t = status_line d code reason @ concat (map field_line hs) @ lit ''Transfer-Encoding:'' @ [0x0D, 0x0A] @ lit ''chunked'' @ [0x0D]"
    and len: "length t < 2 ^ 31" "length extra < 8"
  shows "ResponseParser_execute (t @ 0 # extra) (length t) False (new_HttpResponseParser m) = Inl BadPointer"
proof -
  let ?lines = "status_line d code reason @ concat (map field_line hs)"
  let ?fold = "lit ''Transfer-Encoding:'' @ [0x0D, 0x0A] @ lit ''chunked'' @ [0x0D] :: u8 list"
  let ?P = "httpclient_parser_init m"
  have t: "t = ?lines @ ?fold" by (simp add: tx)
  have mem: "t @ 0 # extra = status_line d code reason @ concat (map field_line hs) @ ?fold @ 0 # extra" by (simp add: tx)
  obtain q P1 E where 1: "client_run (t @ 0 # extra) (length t) ?lines 0 1 (client_reset ?P, []) = Some (q, P1, E)" "q \<in> set line_states"
    "E = status_events d code reason (concat (map field_line hs) @ ?fold @ 0 # extra) @ client_field_events (?fold @ 0 # extra) hs"
    using run_response_lines [OF ok mem, of "length t" "client_reset ?P"] by blast
  obtain P2 where 2: "client_run (t @ 0 # extra) (length t) ?fold (length ?lines) q (P1, E) = Some (71, P2, E @
      [Ev_response_field (drop (length ?lines) (t @ 0 # extra)) 17 (drop (length ?lines + 18) (t @ 0 # extra)) 0,
       Ev_response_field (drop (length ?lines + 20) (t @ 0 # extra)) 17 (drop (length ?lines + 20) (t @ 0 # extra)) 7])"
    using run_folded_chunked [OF 1(2)] by blast
  have run: "client_run (t @ 0 # extra) (length t) t 0 1 (client_reset ?P, []) = Some (71, P2, E @
      [Ev_response_field (drop (length ?lines) (t @ 0 # extra)) 17 (drop (length ?lines + 18) (t @ 0 # extra)) 0,
       Ev_response_field (drop (length ?lines + 20) (t @ 0 # extra)) 17 (drop (length ?lines + 20) (t @ 0 # extra)) 7])"
    (is "_ = Some (_, _, ?E)")
    unfolding t by (subst ragel_run_append) (use 1(1) 2 in \<open>simp add: t\<close>)
  have tk: "drop 0 (take (length t) (t @ 0 # extra)) = t" "hc_cs ?P = 1"
    by (simp_all add: httpclient_parser_init_def httpclient_parser_start_def)
  have x: "ragel_exec client_step (client_act (t @ 0 # extra) (length t)) (drop 0 (take (length t) (t @ 0 # extra))) 0
      (hc_cs ?P) (client_reset ?P, []) = (0 + length t, 71, P2, ?E)"
    unfolding tk by (rule ragel_exec_run [OF run])
  have "0 < length t" by (simp add: tx)
  then have y: "httpclient_parser_execute ?P (t @ 0 # extra) (length t) 0 =
      Inr (int (0 + length t - 0), P2\<lparr>hc_cs := 71, hc_nread := 0 + length t - 0\<rparr>, ?E)"
    by (intro client_execute_eq [OF _ _ len(1) _ _ _ x]) (simp_all add: httpclient_parser_init_def)
  have dr: "drop (length ?lines) (t @ 0 # extra) = ?fold @ 0 # extra"
    "drop (length ?lines + 18) (t @ 0 # extra) = [0x0D, 0x0A] @ lit ''chunked'' @ [0x0D] @ 0 # extra"
    "drop (length ?lines + 20) (t @ 0 # extra) = lit ''chunked'' @ [0x0D] @ 0 # extra"
    by (simp_all add: t lit_def)
  have "list_all client_field_ok hs" using ok by (simp add: response_head_ok_def)
  then obtain p' where "on_response_events E (new_HttpResponseParser m) = Inr p'"
    using on_status_events_ok [of d code reason "concat (map field_line hs) @ ?fold @ 0 # extra" "new_HttpResponseParser m"]
    by (auto simp: 1(3) on_response_events_append on_client_fields)
  moreover have "std_string (lit ''chunked'' @ [0x0D] @ 0 # extra) 17 = Inl BadPointer"
    using len(2) by (simp add: std_string_def)
  ultimately have "on_response_events ?E (new_HttpResponseParser m) = Inl BadPointer"
    unfolding dr by (simp add: on_response_events_append on_response_http_field_def)
  then show ?thesis using y by (simp add: ResponseParser_execute_def new_HttpResponseParser_def)
qed

theorem response_folded_overread_witness:
  "ResponseParser_execute ((status_line 0x31 (lit ''200'') (lit ''OK'') @ lit ''Transfer-Encoding:'' @ [0x0D, 0x0A] @ lit ''chunked'' @ [0x0D]) @ [0])
     (length (status_line 0x31 (lit ''200'') (lit ''OK'') @ lit ''Transfer-Encoding:'' @ [0x0D, 0x0A] @ lit ''chunked'' @ [0x0D]))
     False (new_HttpResponseParser sample_client) = Inl BadPointer"
proof (rule response_folded_overread)
  show "response_head_ok 0x31 (lit ''200'') (lit ''OK'') []" by code_simp
qed (simp_all add: status_line_def)

text \<open>
  A complete head whose last field is \<open>Connection\<close> with an empty value is consumed to its end, yet
  \<open>isFinished\<close> tells that more data is needed: the automaton has several final states, and only
  the first one is tested.
\<close>

theorem response_not_finished:
  assumes ok: "response_head_ok d code reason hs"
    and tx: "t = status_line d code reason @ concat (map field_line hs) @ field_line (lit ''Connection'', []) @ [0x0D, 0x0A]"
    and len: "length (t @ body) < 2 ^ 31"
  shows "\<exists>P evs. httpclient_parser_execute (httpclient_parser_init m) (t @ body @ 0 # extra) (length (t @ body)) 0 =
      Inr (int (length t), P, evs) \<and> httpclient_parser_finish P = 0 \<and> \<not> httpclient_parser_has_error P"
proof -
  let ?lines = "status_line d code reason @ concat (map field_line hs)"
  let ?tail = "field_line (lit ''Connection'', []) @ [0x0D, 0x0A]"
  let ?mem = "t @ body @ 0 # extra" and ?n = "length (t @ body)"
  let ?P = "httpclient_parser_init m"
  have t: "t = ?lines @ ?tail" by (simp add: tx)
  have mem: "?mem = status_line d code reason @ concat (map field_line hs) @ ?tail @ body @ 0 # extra" by (simp add: tx)
  obtain q P1 E where 1: "client_run ?mem ?n ?lines 0 1 (client_reset ?P, []) = Some (q, P1, E)" "q \<in> set line_states"
    using run_response_lines [OF ok mem, of ?n "client_reset ?P"] by blast
  obtain P2 E2 where 2: "ragel_exec client_step (client_act ?mem ?n) (?tail @ body) (length ?lines) q (P1, E) = (length ?lines + 16, 122, P2, E2)"
    using exec_empty_connection [OF 1(2), of ?mem ?n body "length ?lines" P1 E] by auto
  have "drop 0 (take ?n ?mem) = ?lines @ ?tail @ body" by (simp add: t)
  then have x: "ragel_exec client_step (client_act ?mem ?n) (drop 0 (take ?n ?mem)) 0 (hc_cs ?P) (client_reset ?P, []) =
      (length ?lines + 16, 122, P2, E2)"
    using ragel_exec_append [OF 1(1), of "?tail @ body"] 2 by (simp add: httpclient_parser_init_def httpclient_parser_start_def)
  have "httpclient_parser_execute ?P ?mem ?n 0 =
      Inr (int (length ?lines + 16 - 0), P2\<lparr>hc_cs := 122, hc_nread := length ?lines + 16 - 0\<rparr>, E2)"
    by (rule client_execute_eq [OF _ _ len _ _ _ x]) (simp_all add: tx nth_append httpclient_parser_init_def)
  moreover have "length ?lines + 16 - 0 = length t" by (simp add: t field_line_def)
  ultimately show ?thesis
    by (simp add: httpclient_parser_finish_def httpclient_parser_has_error_def httpclient_parser_is_finished_def
        httpclient_parser_error_def httpclient_parser_first_final_def)
qed

theorem response_not_finished_witness:
  "\<exists>P evs. httpclient_parser_execute (httpclient_parser_init sample_client)
      ((status_line 0x31 (lit ''200'') (lit ''OK'') @ field_line (lit ''Connection'', []) @ [0x0D, 0x0A]) @ [] @ [0])
      (length ((status_line 0x31 (lit ''200'') (lit ''OK'') @ field_line (lit ''Connection'', []) @ [0x0D, 0x0A]) @ [])) 0 =
      Inr (33, P, evs) \<and> httpclient_parser_finish P = 0"
proof -
  have "response_head_ok 0x31 (lit ''200'') (lit ''OK'') []" by code_simp
  from response_not_finished [OF this refl, of "[]" sample_client "[]"] show ?thesis
    by (simp add: status_line_def field_line_def) blast
qed

text \<open>With no data, \<open>execute\<close> copies from in front of its buffer.\<close>

lemma response_empty_faults:
  assumes "hc_body_start (sp_parser p) = 0"
  shows "ResponseParser_execute (0 # extra) 0 chunck p = Inl BadPointer"
proof -
  have "hc_body_start (httpclient_parser_init P) = 0" for P by (simp add: httpclient_parser_init_def)
  then have "\<exists>P'. httpclient_parser_execute (if chunck then httpclient_parser_init (sp_parser p) else sp_parser p) (0 # extra) 0 0 =
      Inr (-1, P', [])"
    using client_execute_empty [of "0 # extra"] assms by simp
  then show ?thesis by (auto simp: ResponseParser_execute_def move_front_def)
qed

end
