(* ===== verification/Civan_Uri_Machine.thy ===== *)
theory Civan_Uri_Machine
  imports Civan_Ragel
begin

section \<open>The URI automaton: \<open>civan/uri.rl.cc\<close>\<close>

text \<open>
  The machine of \<open>Uri::Create\<close>, label by label, in the form of \<open>Civan_Http11_Machine\<close>. The actions
  are named as in \<open>uri.rl\<close>. \<open>uri_eof\<close> is the switch at the end of the input.
\<close>

named_theorems uri_code \<open>the labels of the URI automaton\<close>

datatype uri_action =
    U_marku | U_markh | U_save_scheme | U_save_port | U_save_userinfo | U_save_host | U_save_path
  | U_save_query | U_save_fragment

subsection \<open>Transitions with actions\<close>

definition uri_tr38 :: "uri_action jump" where [uri_code]:
  "uri_tr38 = ([U_save_userinfo], 469)"

definition uri_tr263 :: "uri_action jump" where [uri_code]:
  "uri_tr263 = ([U_save_userinfo], 522)"

definition uri_tr461 :: "uri_action jump" where [uri_code]:
  "uri_tr461 = ([U_marku], 508)"

definition uri_tr462 :: "uri_action jump" where [uri_code]:
  "uri_tr462 = ([U_marku], 454)"

definition uri_tr463 :: "uri_action jump" where [uri_code]:
  "uri_tr463 = ([U_marku], 1)"

definition uri_tr466 :: "uri_action jump" where [uri_code]:
  "uri_tr466 = ([U_marku], 457)"

definition uri_tr467 :: "uri_action jump" where [uri_code]:
  "uri_tr467 = ([U_marku, U_save_query], 453)"

definition uri_tr468 :: "uri_action jump" where [uri_code]:
  "uri_tr468 = ([U_marku], 7)"

definition uri_tr469 :: "uri_action jump" where [uri_code]:
  "uri_tr469 = ([U_save_query], 453)"

definition uri_tr472 :: "uri_action jump" where [uri_code]:
  "uri_tr472 = ([U_markh], 9)"

definition uri_tr473 :: "uri_action jump" where [uri_code]:
  "uri_tr473 = ([U_markh], 467)"

definition uri_tr474 :: "uri_action jump" where [uri_code]:
  "uri_tr474 = ([U_markh, U_save_host], 453)"

definition uri_tr475 :: "uri_action jump" where [uri_code]:
  "uri_tr475 = ([U_markh], 31)"

definition uri_tr476 :: "uri_action jump" where [uri_code]:
  "uri_tr476 = ([U_markh, U_save_host], 455)"

definition uri_tr477 :: "uri_action jump" where [uri_code]:
  "uri_tr477 = ([U_markh], 490)"

definition uri_tr478 :: "uri_action jump" where [uri_code]:
  "uri_tr478 = ([U_markh], 504)"

definition uri_tr479 :: "uri_action jump" where [uri_code]:
  "uri_tr479 = ([U_markh], 506)"

definition uri_tr480 :: "uri_action jump" where [uri_code]:
  "uri_tr480 = ([U_markh], 505)"

definition uri_tr481 :: "uri_action jump" where [uri_code]:
  "uri_tr481 = ([U_markh, U_save_host], 468)"

definition uri_tr482 :: "uri_action jump" where [uri_code]:
  "uri_tr482 = ([U_markh, U_save_host], 456)"

definition uri_tr483 :: "uri_action jump" where [uri_code]:
  "uri_tr483 = ([U_markh, U_save_userinfo], 469)"

definition uri_tr484 :: "uri_action jump" where [uri_code]:
  "uri_tr484 = ([U_markh], 38)"

definition uri_tr485 :: "uri_action jump" where [uri_code]:
  "uri_tr485 = ([U_save_host], 453)"

definition uri_tr486 :: "uri_action jump" where [uri_code]:
  "uri_tr486 = ([U_save_host], 455)"

definition uri_tr487 :: "uri_action jump" where [uri_code]:
  "uri_tr487 = ([U_save_host], 461)"

definition uri_tr488 :: "uri_action jump" where [uri_code]:
  "uri_tr488 = ([U_save_host], 456)"

definition uri_tr489 :: "uri_action jump" where [uri_code]:
  "uri_tr489 = ([U_markh, U_save_port], 453)"

definition uri_tr490 :: "uri_action jump" where [uri_code]:
  "uri_tr490 = ([U_markh, U_save_port], 455)"

definition uri_tr491 :: "uri_action jump" where [uri_code]:
  "uri_tr491 = ([U_markh], 462)"

definition uri_tr492 :: "uri_action jump" where [uri_code]:
  "uri_tr492 = ([U_markh, U_save_port], 456)"

definition uri_tr493 :: "uri_action jump" where [uri_code]:
  "uri_tr493 = ([U_save_port], 453)"

definition uri_tr494 :: "uri_action jump" where [uri_code]:
  "uri_tr494 = ([U_save_port], 455)"

definition uri_tr496 :: "uri_action jump" where [uri_code]:
  "uri_tr496 = ([U_save_port], 456)"

definition uri_tr499 :: "uri_action jump" where [uri_code]:
  "uri_tr499 = ([U_save_host], 468)"

definition uri_tr500 :: "uri_action jump" where [uri_code]:
  "uri_tr500 = ([U_markh], 489)"

definition uri_tr501 :: "uri_action jump" where [uri_code]:
  "uri_tr501 = ([U_markh], 470)"

definition uri_tr502 :: "uri_action jump" where [uri_code]:
  "uri_tr502 = ([U_markh], 36)"

definition uri_tr503 :: "uri_action jump" where [uri_code]:
  "uri_tr503 = ([U_markh], 471)"

definition uri_tr504 :: "uri_action jump" where [uri_code]:
  "uri_tr504 = ([U_markh], 485)"

definition uri_tr505 :: "uri_action jump" where [uri_code]:
  "uri_tr505 = ([U_markh], 487)"

definition uri_tr506 :: "uri_action jump" where [uri_code]:
  "uri_tr506 = ([U_markh], 486)"

definition uri_tr507 :: "uri_action jump" where [uri_code]:
  "uri_tr507 = ([U_markh, U_save_host], 461)"

definition uri_tr543 :: "uri_action jump" where [uri_code]:
  "uri_tr543 = ([U_save_scheme], 509)"

definition uri_tr546 :: "uri_action jump" where [uri_code]:
  "uri_tr546 = ([U_markh], 229)"

definition uri_tr547 :: "uri_action jump" where [uri_code]:
  "uri_tr547 = ([U_markh], 520)"

definition uri_tr548 :: "uri_action jump" where [uri_code]:
  "uri_tr548 = ([U_markh, U_save_host, U_save_path], 453)"

definition uri_tr549 :: "uri_action jump" where [uri_code]:
  "uri_tr549 = ([U_markh], 253)"

definition uri_tr550 :: "uri_action jump" where [uri_code]:
  "uri_tr550 = ([U_markh, U_save_host], 513)"

definition uri_tr551 :: "uri_action jump" where [uri_code]:
  "uri_tr551 = ([U_markh], 543)"

definition uri_tr552 :: "uri_action jump" where [uri_code]:
  "uri_tr552 = ([U_markh], 557)"

definition uri_tr553 :: "uri_action jump" where [uri_code]:
  "uri_tr553 = ([U_markh], 559)"

definition uri_tr554 :: "uri_action jump" where [uri_code]:
  "uri_tr554 = ([U_markh], 558)"

definition uri_tr555 :: "uri_action jump" where [uri_code]:
  "uri_tr555 = ([U_markh, U_save_host], 521)"

definition uri_tr556 :: "uri_action jump" where [uri_code]:
  "uri_tr556 = ([U_markh, U_save_host, U_save_path], 456)"

definition uri_tr557 :: "uri_action jump" where [uri_code]:
  "uri_tr557 = ([U_markh, U_save_userinfo], 522)"

definition uri_tr558 :: "uri_action jump" where [uri_code]:
  "uri_tr558 = ([U_markh], 260)"

definition uri_tr559 :: "uri_action jump" where [uri_code]:
  "uri_tr559 = ([U_save_host, U_markh, U_save_path], 453)"

definition uri_tr560 :: "uri_action jump" where [uri_code]:
  "uri_tr560 = ([U_save_host, U_markh], 513)"

definition uri_tr561 :: "uri_action jump" where [uri_code]:
  "uri_tr561 = ([U_save_host], 514)"

definition uri_tr562 :: "uri_action jump" where [uri_code]:
  "uri_tr562 = ([U_save_host, U_markh, U_save_path], 456)"

definition uri_tr563 :: "uri_action jump" where [uri_code]:
  "uri_tr563 = ([U_save_path], 453)"

definition uri_tr565 :: "uri_action jump" where [uri_code]:
  "uri_tr565 = ([U_save_path], 456)"

definition uri_tr566 :: "uri_action jump" where [uri_code]:
  "uri_tr566 = ([U_markh, U_save_port, U_save_path], 453)"

definition uri_tr567 :: "uri_action jump" where [uri_code]:
  "uri_tr567 = ([U_markh, U_save_port], 513)"

definition uri_tr568 :: "uri_action jump" where [uri_code]:
  "uri_tr568 = ([U_markh], 515)"

definition uri_tr569 :: "uri_action jump" where [uri_code]:
  "uri_tr569 = ([U_markh, U_save_port, U_save_path], 456)"

definition uri_tr570 :: "uri_action jump" where [uri_code]:
  "uri_tr570 = ([U_save_port, U_markh, U_save_path], 453)"

definition uri_tr571 :: "uri_action jump" where [uri_code]:
  "uri_tr571 = ([U_save_port, U_markh], 513)"

definition uri_tr573 :: "uri_action jump" where [uri_code]:
  "uri_tr573 = ([U_save_port, U_markh, U_save_path], 456)"

definition uri_tr576 :: "uri_action jump" where [uri_code]:
  "uri_tr576 = ([U_save_host], 521)"

definition uri_tr577 :: "uri_action jump" where [uri_code]:
  "uri_tr577 = ([U_markh], 542)"

definition uri_tr578 :: "uri_action jump" where [uri_code]:
  "uri_tr578 = ([U_markh], 523)"

definition uri_tr579 :: "uri_action jump" where [uri_code]:
  "uri_tr579 = ([U_markh], 258)"

definition uri_tr580 :: "uri_action jump" where [uri_code]:
  "uri_tr580 = ([U_markh], 524)"

definition uri_tr581 :: "uri_action jump" where [uri_code]:
  "uri_tr581 = ([U_markh], 538)"

definition uri_tr582 :: "uri_action jump" where [uri_code]:
  "uri_tr582 = ([U_markh], 540)"

definition uri_tr583 :: "uri_action jump" where [uri_code]:
  "uri_tr583 = ([U_markh], 539)"

definition uri_tr584 :: "uri_action jump" where [uri_code]:
  "uri_tr584 = ([U_markh, U_save_host], 514)"

subsection \<open>States\<close>

definition uri_st1 :: "int \<Rightarrow> uri_action jump" where [uri_code]:
  "uri_st1 c =
     (if c < 65 then (if 48 \<le> c \<and> c \<le> 57 then goto 2 else goto 0)
      else if c > 70 then (if 97 \<le> c \<and> c \<le> 102 then goto 2 else goto 0) else goto 2)"

definition uri_st2 :: "int \<Rightarrow> uri_action jump" where [uri_code]:
  "uri_st2 c =
     (if c < 65 then (if 48 \<le> c \<and> c \<le> 57 then goto 454 else goto 0)
      else if c > 70 then (if 97 \<le> c \<and> c \<le> 102 then goto 454 else goto 0) else goto 454)"

definition uri_st3 :: "int \<Rightarrow> uri_action jump" where [uri_code]:
  "uri_st3 c =
     (if c < 65 then (if 48 \<le> c \<and> c \<le> 57 then goto 4 else goto 0)
      else if c > 70 then (if 97 \<le> c \<and> c \<le> 102 then goto 4 else goto 0) else goto 4)"

definition uri_st4 :: "int \<Rightarrow> uri_action jump" where [uri_code]:
  "uri_st4 c =
     (if c < 65 then (if 48 \<le> c \<and> c \<le> 57 then goto 452 else goto 0)
      else if c > 70 then (if 97 \<le> c \<and> c \<le> 102 then goto 452 else goto 0) else goto 452)"

definition uri_st5 :: "int \<Rightarrow> uri_action jump" where [uri_code]:
  "uri_st5 c =
     (if c < 65 then (if 48 \<le> c \<and> c \<le> 57 then goto 6 else goto 0)
      else if c > 70 then (if 97 \<le> c \<and> c \<le> 102 then goto 6 else goto 0) else goto 6)"

definition uri_st6 :: "int \<Rightarrow> uri_action jump" where [uri_code]:
  "uri_st6 c =
     (if c < 65 then (if 48 \<le> c \<and> c \<le> 57 then goto 455 else goto 0)
      else if c > 70 then (if 97 \<le> c \<and> c \<le> 102 then goto 455 else goto 0) else goto 455)"

definition uri_st7 :: "int \<Rightarrow> uri_action jump" where [uri_code]:
  "uri_st7 c =
     (if c < 65 then (if 48 \<le> c \<and> c \<le> 57 then goto 8 else goto 0)
      else if c > 70 then (if 97 \<le> c \<and> c \<le> 102 then goto 8 else goto 0) else goto 8)"

definition uri_st8 :: "int \<Rightarrow> uri_action jump" where [uri_code]:
  "uri_st8 c =
     (if c < 65 then (if 48 \<le> c \<and> c \<le> 57 then goto 457 else goto 0)
      else if c > 70 then (if 97 \<le> c \<and> c \<le> 102 then goto 457 else goto 0) else goto 457)"

definition uri_st9 :: "int \<Rightarrow> uri_action jump" where [uri_code]:
  "uri_st9 c =
     (if 48 \<le> c \<and> c \<le> 52 then goto 10 else goto 0)"

definition uri_st10 :: "int \<Rightarrow> uri_action jump" where [uri_code]:
  "uri_st10 c =
     (if 48 \<le> c \<and> c \<le> 57 then goto 11 else goto 0)"

definition uri_st11 :: "int \<Rightarrow> uri_action jump" where [uri_code]:
  "uri_st11 c =
     (if c = 46 then goto 12 else goto 0)"

definition uri_st12 :: "int \<Rightarrow> uri_action jump" where [uri_code]:
  "uri_st12 c =
     (if c = 2 then goto 13 else if c = 48 then goto 15 else if c = 49 then goto 27 else
      if c = 50 then goto 29 else if 51 \<le> c \<and> c \<le> 57 then goto 28 else goto 0)"

definition uri_st13 :: "int \<Rightarrow> uri_action jump" where [uri_code]:
  "uri_st13 c =
     (if 48 \<le> c \<and> c \<le> 52 then goto 14 else goto 0)"

definition uri_st14 :: "int \<Rightarrow> uri_action jump" where [uri_code]:
  "uri_st14 c =
     (if 48 \<le> c \<and> c \<le> 57 then goto 15 else goto 0)"

definition uri_st15 :: "int \<Rightarrow> uri_action jump" where [uri_code]:
  "uri_st15 c =
     (if c = 46 then goto 16 else goto 0)"

definition uri_st16 :: "int \<Rightarrow> uri_action jump" where [uri_code]:
  "uri_st16 c =
     (if c = 2 then goto 17 else if c = 48 then goto 19 else if c = 49 then goto 23 else
      if c = 50 then goto 25 else if 51 \<le> c \<and> c \<le> 57 then goto 24 else goto 0)"

definition uri_st17 :: "int \<Rightarrow> uri_action jump" where [uri_code]:
  "uri_st17 c =
     (if 48 \<le> c \<and> c \<le> 52 then goto 18 else goto 0)"

definition uri_st18 :: "int \<Rightarrow> uri_action jump" where [uri_code]:
  "uri_st18 c =
     (if 48 \<le> c \<and> c \<le> 57 then goto 19 else goto 0)"

definition uri_st19 :: "int \<Rightarrow> uri_action jump" where [uri_code]:
  "uri_st19 c =
     (if c = 46 then goto 20 else goto 0)"

definition uri_st20 :: "int \<Rightarrow> uri_action jump" where [uri_code]:
  "uri_st20 c =
     (if c = 2 then goto 21 else if c = 48 then goto 460 else if c = 49 then goto 463 else
      if c = 50 then goto 465 else if 51 \<le> c \<and> c \<le> 57 then goto 464 else goto 0)"

definition uri_st21 :: "int \<Rightarrow> uri_action jump" where [uri_code]:
  "uri_st21 c =
     (if 48 \<le> c \<and> c \<le> 52 then goto 22 else goto 0)"

definition uri_st22 :: "int \<Rightarrow> uri_action jump" where [uri_code]:
  "uri_st22 c =
     (if 48 \<le> c \<and> c \<le> 57 then goto 460 else goto 0)"

definition uri_st23 :: "int \<Rightarrow> uri_action jump" where [uri_code]:
  "uri_st23 c =
     (if c = 46 then goto 20 else if 48 \<le> c \<and> c \<le> 57 then goto 24 else goto 0)"

definition uri_st24 :: "int \<Rightarrow> uri_action jump" where [uri_code]:
  "uri_st24 c =
     (if c = 46 then goto 20 else if 48 \<le> c \<and> c \<le> 57 then goto 19 else goto 0)"

definition uri_st25 :: "int \<Rightarrow> uri_action jump" where [uri_code]:
  "uri_st25 c =
     (if c = 46 then goto 20 else if c = 53 then goto 26 else
      if 48 \<le> c \<and> c \<le> 57 then goto 19 else goto 0)"

definition uri_st26 :: "int \<Rightarrow> uri_action jump" where [uri_code]:
  "uri_st26 c =
     (if c = 46 then goto 20 else if 48 \<le> c \<and> c \<le> 53 then goto 19 else goto 0)"

definition uri_st27 :: "int \<Rightarrow> uri_action jump" where [uri_code]:
  "uri_st27 c =
     (if c = 46 then goto 16 else if 48 \<le> c \<and> c \<le> 57 then goto 28 else goto 0)"

definition uri_st28 :: "int \<Rightarrow> uri_action jump" where [uri_code]:
  "uri_st28 c =
     (if c = 46 then goto 16 else if 48 \<le> c \<and> c \<le> 57 then goto 15 else goto 0)"

definition uri_st29 :: "int \<Rightarrow> uri_action jump" where [uri_code]:
  "uri_st29 c =
     (if c = 46 then goto 16 else if c = 53 then goto 30 else
      if 48 \<le> c \<and> c \<le> 57 then goto 15 else goto 0)"

definition uri_st30 :: "int \<Rightarrow> uri_action jump" where [uri_code]:
  "uri_st30 c =
     (if c = 46 then goto 16 else if 48 \<le> c \<and> c \<le> 53 then goto 15 else goto 0)"

definition uri_st31 :: "int \<Rightarrow> uri_action jump" where [uri_code]:
  "uri_st31 c =
     (if c < 65 then (if 48 \<le> c \<and> c \<le> 57 then goto 32 else goto 0)
      else if c > 70 then (if 97 \<le> c \<and> c \<le> 102 then goto 32 else goto 0) else goto 32)"

definition uri_st32 :: "int \<Rightarrow> uri_action jump" where [uri_code]:
  "uri_st32 c =
     (if c < 65 then (if 48 \<le> c \<and> c \<le> 57 then goto 467 else goto 0)
      else if c > 70 then (if 97 \<le> c \<and> c \<le> 102 then goto 467 else goto 0) else goto 467)"

definition uri_st33 :: "int \<Rightarrow> uri_action jump" where [uri_code]:
  "uri_st33 c =
     (if c = 33 then goto 33 else if c = 37 then goto 34 else if c = 61 then goto 33 else
      if c = 64 then uri_tr38 else if c = 95 then goto 33 else if c = 126 then goto 33 else
      if c < 48 then (if 36 \<le> c \<and> c \<le> 46 then goto 33 else goto 0)
      else if c > 59 then (if c > 90 then (if 97 \<le> c \<and> c \<le> 122 then goto 33 else goto 0)
        else if c \<ge> 65 then goto 33 else goto 0)
      else goto 33)"

definition uri_st34 :: "int \<Rightarrow> uri_action jump" where [uri_code]:
  "uri_st34 c =
     (if c < 65 then (if 48 \<le> c \<and> c \<le> 57 then goto 35 else goto 0)
      else if c > 70 then (if 97 \<le> c \<and> c \<le> 102 then goto 35 else goto 0) else goto 35)"

definition uri_st35 :: "int \<Rightarrow> uri_action jump" where [uri_code]:
  "uri_st35 c =
     (if c < 65 then (if 48 \<le> c \<and> c \<le> 57 then goto 33 else goto 0)
      else if c > 70 then (if 97 \<le> c \<and> c \<le> 102 then goto 33 else goto 0) else goto 33)"

definition uri_st36 :: "int \<Rightarrow> uri_action jump" where [uri_code]:
  "uri_st36 c =
     (if c < 65 then (if 48 \<le> c \<and> c \<le> 57 then goto 37 else goto 0)
      else if c > 70 then (if 97 \<le> c \<and> c \<le> 102 then goto 37 else goto 0) else goto 37)"

definition uri_st37 :: "int \<Rightarrow> uri_action jump" where [uri_code]:
  "uri_st37 c =
     (if c < 65 then (if 48 \<le> c \<and> c \<le> 57 then goto 470 else goto 0)
      else if c > 70 then (if 97 \<le> c \<and> c \<le> 102 then goto 470 else goto 0) else goto 470)"

definition uri_st38 :: "int \<Rightarrow> uri_action jump" where [uri_code]:
  "uri_st38 c =
     (if c = 58 then goto 146 else if c = 118 then goto 225 else
      if c < 65 then (if 48 \<le> c \<and> c \<le> 57 then goto 39 else goto 0)
      else if c > 70 then (if 97 \<le> c \<and> c \<le> 102 then goto 39 else goto 0) else goto 39)"

definition uri_st39 :: "int \<Rightarrow> uri_action jump" where [uri_code]:
  "uri_st39 c =
     (if c = 58 then goto 43 else
      if c < 65 then (if 48 \<le> c \<and> c \<le> 57 then goto 40 else goto 0)
      else if c > 70 then (if 97 \<le> c \<and> c \<le> 102 then goto 40 else goto 0) else goto 40)"

definition uri_st40 :: "int \<Rightarrow> uri_action jump" where [uri_code]:
  "uri_st40 c =
     (if c = 58 then goto 43 else
      if c < 65 then (if 48 \<le> c \<and> c \<le> 57 then goto 41 else goto 0)
      else if c > 70 then (if 97 \<le> c \<and> c \<le> 102 then goto 41 else goto 0) else goto 41)"

definition uri_st41 :: "int \<Rightarrow> uri_action jump" where [uri_code]:
  "uri_st41 c =
     (if c = 58 then goto 43 else
      if c < 65 then (if 48 \<le> c \<and> c \<le> 57 then goto 42 else goto 0)
      else if c > 70 then (if 97 \<le> c \<and> c \<le> 102 then goto 42 else goto 0) else goto 42)"

definition uri_st42 :: "int \<Rightarrow> uri_action jump" where [uri_code]:
  "uri_st42 c =
     (if c = 58 then goto 43 else goto 0)"

definition uri_st43 :: "int \<Rightarrow> uri_action jump" where [uri_code]:
  "uri_st43 c =
     (if c = 58 then goto 141 else
      if c < 65 then (if 48 \<le> c \<and> c \<le> 57 then goto 44 else goto 0)
      else if c > 70 then (if 97 \<le> c \<and> c \<le> 102 then goto 44 else goto 0) else goto 44)"

definition uri_st44 :: "int \<Rightarrow> uri_action jump" where [uri_code]:
  "uri_st44 c =
     (if c = 58 then goto 48 else
      if c < 65 then (if 48 \<le> c \<and> c \<le> 57 then goto 45 else goto 0)
      else if c > 70 then (if 97 \<le> c \<and> c \<le> 102 then goto 45 else goto 0) else goto 45)"

definition uri_st45 :: "int \<Rightarrow> uri_action jump" where [uri_code]:
  "uri_st45 c =
     (if c = 58 then goto 48 else
      if c < 65 then (if 48 \<le> c \<and> c \<le> 57 then goto 46 else goto 0)
      else if c > 70 then (if 97 \<le> c \<and> c \<le> 102 then goto 46 else goto 0) else goto 46)"

definition uri_st46 :: "int \<Rightarrow> uri_action jump" where [uri_code]:
  "uri_st46 c =
     (if c = 58 then goto 48 else
      if c < 65 then (if 48 \<le> c \<and> c \<le> 57 then goto 47 else goto 0)
      else if c > 70 then (if 97 \<le> c \<and> c \<le> 102 then goto 47 else goto 0) else goto 47)"

definition uri_st47 :: "int \<Rightarrow> uri_action jump" where [uri_code]:
  "uri_st47 c =
     (if c = 58 then goto 48 else goto 0)"

definition uri_st48 :: "int \<Rightarrow> uri_action jump" where [uri_code]:
  "uri_st48 c =
     (if c = 58 then goto 136 else
      if c < 65 then (if 48 \<le> c \<and> c \<le> 57 then goto 49 else goto 0)
      else if c > 70 then (if 97 \<le> c \<and> c \<le> 102 then goto 49 else goto 0) else goto 49)"

definition uri_st49 :: "int \<Rightarrow> uri_action jump" where [uri_code]:
  "uri_st49 c =
     (if c = 58 then goto 53 else
      if c < 65 then (if 48 \<le> c \<and> c \<le> 57 then goto 50 else goto 0)
      else if c > 70 then (if 97 \<le> c \<and> c \<le> 102 then goto 50 else goto 0) else goto 50)"

definition uri_st50 :: "int \<Rightarrow> uri_action jump" where [uri_code]:
  "uri_st50 c =
     (if c = 58 then goto 53 else
      if c < 65 then (if 48 \<le> c \<and> c \<le> 57 then goto 51 else goto 0)
      else if c > 70 then (if 97 \<le> c \<and> c \<le> 102 then goto 51 else goto 0) else goto 51)"

definition uri_st51 :: "int \<Rightarrow> uri_action jump" where [uri_code]:
  "uri_st51 c =
     (if c = 58 then goto 53 else
      if c < 65 then (if 48 \<le> c \<and> c \<le> 57 then goto 52 else goto 0)
      else if c > 70 then (if 97 \<le> c \<and> c \<le> 102 then goto 52 else goto 0) else goto 52)"

definition uri_st52 :: "int \<Rightarrow> uri_action jump" where [uri_code]:
  "uri_st52 c =
     (if c = 58 then goto 53 else goto 0)"

definition uri_st53 :: "int \<Rightarrow> uri_action jump" where [uri_code]:
  "uri_st53 c =
     (if c = 58 then goto 131 else
      if c < 65 then (if 48 \<le> c \<and> c \<le> 57 then goto 54 else goto 0)
      else if c > 70 then (if 97 \<le> c \<and> c \<le> 102 then goto 54 else goto 0) else goto 54)"

definition uri_st54 :: "int \<Rightarrow> uri_action jump" where [uri_code]:
  "uri_st54 c =
     (if c = 58 then goto 58 else
      if c < 65 then (if 48 \<le> c \<and> c \<le> 57 then goto 55 else goto 0)
      else if c > 70 then (if 97 \<le> c \<and> c \<le> 102 then goto 55 else goto 0) else goto 55)"

definition uri_st55 :: "int \<Rightarrow> uri_action jump" where [uri_code]:
  "uri_st55 c =
     (if c = 58 then goto 58 else
      if c < 65 then (if 48 \<le> c \<and> c \<le> 57 then goto 56 else goto 0)
      else if c > 70 then (if 97 \<le> c \<and> c \<le> 102 then goto 56 else goto 0) else goto 56)"

definition uri_st56 :: "int \<Rightarrow> uri_action jump" where [uri_code]:
  "uri_st56 c =
     (if c = 58 then goto 58 else
      if c < 65 then (if 48 \<le> c \<and> c \<le> 57 then goto 57 else goto 0)
      else if c > 70 then (if 97 \<le> c \<and> c \<le> 102 then goto 57 else goto 0) else goto 57)"

definition uri_st57 :: "int \<Rightarrow> uri_action jump" where [uri_code]:
  "uri_st57 c =
     (if c = 58 then goto 58 else goto 0)"

definition uri_st58 :: "int \<Rightarrow> uri_action jump" where [uri_code]:
  "uri_st58 c =
     (if c = 58 then goto 126 else
      if c < 65 then (if 48 \<le> c \<and> c \<le> 57 then goto 59 else goto 0)
      else if c > 70 then (if 97 \<le> c \<and> c \<le> 102 then goto 59 else goto 0) else goto 59)"

definition uri_st59 :: "int \<Rightarrow> uri_action jump" where [uri_code]:
  "uri_st59 c =
     (if c = 58 then goto 63 else
      if c < 65 then (if 48 \<le> c \<and> c \<le> 57 then goto 60 else goto 0)
      else if c > 70 then (if 97 \<le> c \<and> c \<le> 102 then goto 60 else goto 0) else goto 60)"

definition uri_st60 :: "int \<Rightarrow> uri_action jump" where [uri_code]:
  "uri_st60 c =
     (if c = 58 then goto 63 else
      if c < 65 then (if 48 \<le> c \<and> c \<le> 57 then goto 61 else goto 0)
      else if c > 70 then (if 97 \<le> c \<and> c \<le> 102 then goto 61 else goto 0) else goto 61)"

definition uri_st61 :: "int \<Rightarrow> uri_action jump" where [uri_code]:
  "uri_st61 c =
     (if c = 58 then goto 63 else
      if c < 65 then (if 48 \<le> c \<and> c \<le> 57 then goto 62 else goto 0)
      else if c > 70 then (if 97 \<le> c \<and> c \<le> 102 then goto 62 else goto 0) else goto 62)"

definition uri_st62 :: "int \<Rightarrow> uri_action jump" where [uri_code]:
  "uri_st62 c =
     (if c = 58 then goto 63 else goto 0)"

definition uri_st63 :: "int \<Rightarrow> uri_action jump" where [uri_code]:
  "uri_st63 c =
     (if c = 58 then goto 113 else
      if c < 65 then (if 48 \<le> c \<and> c \<le> 57 then goto 64 else goto 0)
      else if c > 70 then (if 97 \<le> c \<and> c \<le> 102 then goto 64 else goto 0) else goto 64)"

definition uri_st64 :: "int \<Rightarrow> uri_action jump" where [uri_code]:
  "uri_st64 c =
     (if c = 58 then goto 68 else
      if c < 65 then (if 48 \<le> c \<and> c \<le> 57 then goto 65 else goto 0)
      else if c > 70 then (if 97 \<le> c \<and> c \<le> 102 then goto 65 else goto 0) else goto 65)"

definition uri_st65 :: "int \<Rightarrow> uri_action jump" where [uri_code]:
  "uri_st65 c =
     (if c = 58 then goto 68 else
      if c < 65 then (if 48 \<le> c \<and> c \<le> 57 then goto 66 else goto 0)
      else if c > 70 then (if 97 \<le> c \<and> c \<le> 102 then goto 66 else goto 0) else goto 66)"

definition uri_st66 :: "int \<Rightarrow> uri_action jump" where [uri_code]:
  "uri_st66 c =
     (if c = 58 then goto 68 else
      if c < 65 then (if 48 \<le> c \<and> c \<le> 57 then goto 67 else goto 0)
      else if c > 70 then (if 97 \<le> c \<and> c \<le> 102 then goto 67 else goto 0) else goto 67)"

definition uri_st67 :: "int \<Rightarrow> uri_action jump" where [uri_code]:
  "uri_st67 c =
     (if c = 58 then goto 68 else goto 0)"

definition uri_st68 :: "int \<Rightarrow> uri_action jump" where [uri_code]:
  "uri_st68 c =
     (if c = 2 then goto 69 else if c = 48 then goto 96 else if c = 49 then goto 104 else
      if c = 50 then goto 107 else if c = 58 then goto 111 else
      if c < 65 then (if 51 \<le> c \<and> c \<le> 57 then goto 110 else goto 0)
      else if c > 70 then (if 97 \<le> c \<and> c \<le> 102 then goto 112 else goto 0) else goto 112)"

definition uri_st69 :: "int \<Rightarrow> uri_action jump" where [uri_code]:
  "uri_st69 c =
     (if 48 \<le> c \<and> c \<le> 52 then goto 70 else goto 0)"

definition uri_st70 :: "int \<Rightarrow> uri_action jump" where [uri_code]:
  "uri_st70 c =
     (if 48 \<le> c \<and> c \<le> 57 then goto 71 else goto 0)"

definition uri_st71 :: "int \<Rightarrow> uri_action jump" where [uri_code]:
  "uri_st71 c =
     (if c = 46 then goto 72 else goto 0)"

definition uri_st72 :: "int \<Rightarrow> uri_action jump" where [uri_code]:
  "uri_st72 c =
     (if c = 2 then goto 73 else if c = 48 then goto 75 else if c = 49 then goto 92 else
      if c = 50 then goto 94 else if 51 \<le> c \<and> c \<le> 57 then goto 93 else goto 0)"

definition uri_st73 :: "int \<Rightarrow> uri_action jump" where [uri_code]:
  "uri_st73 c =
     (if 48 \<le> c \<and> c \<le> 52 then goto 74 else goto 0)"

definition uri_st74 :: "int \<Rightarrow> uri_action jump" where [uri_code]:
  "uri_st74 c =
     (if 48 \<le> c \<and> c \<le> 57 then goto 75 else goto 0)"

definition uri_st75 :: "int \<Rightarrow> uri_action jump" where [uri_code]:
  "uri_st75 c =
     (if c = 46 then goto 76 else goto 0)"

definition uri_st76 :: "int \<Rightarrow> uri_action jump" where [uri_code]:
  "uri_st76 c =
     (if c = 2 then goto 77 else if c = 48 then goto 79 else if c = 49 then goto 88 else
      if c = 50 then goto 90 else if 51 \<le> c \<and> c \<le> 57 then goto 89 else goto 0)"

definition uri_st77 :: "int \<Rightarrow> uri_action jump" where [uri_code]:
  "uri_st77 c =
     (if 48 \<le> c \<and> c \<le> 52 then goto 78 else goto 0)"

definition uri_st78 :: "int \<Rightarrow> uri_action jump" where [uri_code]:
  "uri_st78 c =
     (if 48 \<le> c \<and> c \<le> 57 then goto 79 else goto 0)"

definition uri_st79 :: "int \<Rightarrow> uri_action jump" where [uri_code]:
  "uri_st79 c =
     (if c = 46 then goto 80 else goto 0)"

definition uri_st80 :: "int \<Rightarrow> uri_action jump" where [uri_code]:
  "uri_st80 c =
     (if c = 2 then goto 81 else if c = 48 then goto 83 else if c = 49 then goto 84 else
      if c = 50 then goto 86 else if 51 \<le> c \<and> c \<le> 57 then goto 85 else goto 0)"

definition uri_st81 :: "int \<Rightarrow> uri_action jump" where [uri_code]:
  "uri_st81 c =
     (if 48 \<le> c \<and> c \<le> 52 then goto 82 else goto 0)"

definition uri_st82 :: "int \<Rightarrow> uri_action jump" where [uri_code]:
  "uri_st82 c =
     (if 48 \<le> c \<and> c \<le> 57 then goto 83 else goto 0)"

definition uri_st83 :: "int \<Rightarrow> uri_action jump" where [uri_code]:
  "uri_st83 c =
     (if c = 93 then goto 460 else goto 0)"

definition uri_st84 :: "int \<Rightarrow> uri_action jump" where [uri_code]:
  "uri_st84 c =
     (if c = 93 then goto 460 else if 48 \<le> c \<and> c \<le> 57 then goto 85 else goto 0)"

definition uri_st85 :: "int \<Rightarrow> uri_action jump" where [uri_code]:
  "uri_st85 c =
     (if c = 93 then goto 460 else if 48 \<le> c \<and> c \<le> 57 then goto 83 else goto 0)"

definition uri_st86 :: "int \<Rightarrow> uri_action jump" where [uri_code]:
  "uri_st86 c =
     (if c = 53 then goto 87 else if c = 93 then goto 460 else
      if 48 \<le> c \<and> c \<le> 57 then goto 83 else goto 0)"

definition uri_st87 :: "int \<Rightarrow> uri_action jump" where [uri_code]:
  "uri_st87 c =
     (if c = 93 then goto 460 else if 48 \<le> c \<and> c \<le> 53 then goto 83 else goto 0)"

definition uri_st88 :: "int \<Rightarrow> uri_action jump" where [uri_code]:
  "uri_st88 c =
     (if c = 46 then goto 80 else if 48 \<le> c \<and> c \<le> 57 then goto 89 else goto 0)"

definition uri_st89 :: "int \<Rightarrow> uri_action jump" where [uri_code]:
  "uri_st89 c =
     (if c = 46 then goto 80 else if 48 \<le> c \<and> c \<le> 57 then goto 79 else goto 0)"

definition uri_st90 :: "int \<Rightarrow> uri_action jump" where [uri_code]:
  "uri_st90 c =
     (if c = 46 then goto 80 else if c = 53 then goto 91 else
      if 48 \<le> c \<and> c \<le> 57 then goto 79 else goto 0)"

definition uri_st91 :: "int \<Rightarrow> uri_action jump" where [uri_code]:
  "uri_st91 c =
     (if c = 46 then goto 80 else if 48 \<le> c \<and> c \<le> 53 then goto 79 else goto 0)"

definition uri_st92 :: "int \<Rightarrow> uri_action jump" where [uri_code]:
  "uri_st92 c =
     (if c = 46 then goto 76 else if 48 \<le> c \<and> c \<le> 57 then goto 93 else goto 0)"

definition uri_st93 :: "int \<Rightarrow> uri_action jump" where [uri_code]:
  "uri_st93 c =
     (if c = 46 then goto 76 else if 48 \<le> c \<and> c \<le> 57 then goto 75 else goto 0)"

definition uri_st94 :: "int \<Rightarrow> uri_action jump" where [uri_code]:
  "uri_st94 c =
     (if c = 46 then goto 76 else if c = 53 then goto 95 else
      if 48 \<le> c \<and> c \<le> 57 then goto 75 else goto 0)"

definition uri_st95 :: "int \<Rightarrow> uri_action jump" where [uri_code]:
  "uri_st95 c =
     (if c = 46 then goto 76 else if 48 \<le> c \<and> c \<le> 53 then goto 75 else goto 0)"

definition uri_st96 :: "int \<Rightarrow> uri_action jump" where [uri_code]:
  "uri_st96 c =
     (if c = 46 then goto 72 else if c = 58 then goto 100 else
      if c < 65 then (if 48 \<le> c \<and> c \<le> 57 then goto 97 else goto 0)
      else if c > 70 then (if 97 \<le> c \<and> c \<le> 102 then goto 97 else goto 0) else goto 97)"

definition uri_st97 :: "int \<Rightarrow> uri_action jump" where [uri_code]:
  "uri_st97 c =
     (if c = 58 then goto 100 else
      if c < 65 then (if 48 \<le> c \<and> c \<le> 57 then goto 98 else goto 0)
      else if c > 70 then (if 97 \<le> c \<and> c \<le> 102 then goto 98 else goto 0) else goto 98)"

definition uri_st98 :: "int \<Rightarrow> uri_action jump" where [uri_code]:
  "uri_st98 c =
     (if c = 58 then goto 100 else
      if c < 65 then (if 48 \<le> c \<and> c \<le> 57 then goto 99 else goto 0)
      else if c > 70 then (if 97 \<le> c \<and> c \<le> 102 then goto 99 else goto 0) else goto 99)"

definition uri_st99 :: "int \<Rightarrow> uri_action jump" where [uri_code]:
  "uri_st99 c =
     (if c = 58 then goto 100 else goto 0)"

definition uri_st100 :: "int \<Rightarrow> uri_action jump" where [uri_code]:
  "uri_st100 c =
     (if c = 58 then goto 83 else
      if c < 65 then (if 48 \<le> c \<and> c \<le> 57 then goto 101 else goto 0)
      else if c > 70 then (if 97 \<le> c \<and> c \<le> 102 then goto 101 else goto 0) else goto 101)"

definition uri_st101 :: "int \<Rightarrow> uri_action jump" where [uri_code]:
  "uri_st101 c =
     (if c = 93 then goto 460 else
      if c < 65 then (if 48 \<le> c \<and> c \<le> 57 then goto 102 else goto 0)
      else if c > 70 then (if 97 \<le> c \<and> c \<le> 102 then goto 102 else goto 0) else goto 102)"

definition uri_st102 :: "int \<Rightarrow> uri_action jump" where [uri_code]:
  "uri_st102 c =
     (if c = 93 then goto 460 else
      if c < 65 then (if 48 \<le> c \<and> c \<le> 57 then goto 103 else goto 0)
      else if c > 70 then (if 97 \<le> c \<and> c \<le> 102 then goto 103 else goto 0) else goto 103)"

definition uri_st103 :: "int \<Rightarrow> uri_action jump" where [uri_code]:
  "uri_st103 c =
     (if c = 93 then goto 460 else
      if c < 65 then (if 48 \<le> c \<and> c \<le> 57 then goto 83 else goto 0)
      else if c > 70 then (if 97 \<le> c \<and> c \<le> 102 then goto 83 else goto 0) else goto 83)"

definition uri_st104 :: "int \<Rightarrow> uri_action jump" where [uri_code]:
  "uri_st104 c =
     (if c = 46 then goto 72 else if c = 58 then goto 100 else
      if c < 65 then (if 48 \<le> c \<and> c \<le> 57 then goto 105 else goto 0)
      else if c > 70 then (if 97 \<le> c \<and> c \<le> 102 then goto 97 else goto 0) else goto 97)"

definition uri_st105 :: "int \<Rightarrow> uri_action jump" where [uri_code]:
  "uri_st105 c =
     (if c = 46 then goto 72 else if c = 58 then goto 100 else
      if c < 65 then (if 48 \<le> c \<and> c \<le> 57 then goto 106 else goto 0)
      else if c > 70 then (if 97 \<le> c \<and> c \<le> 102 then goto 98 else goto 0) else goto 98)"

definition uri_st106 :: "int \<Rightarrow> uri_action jump" where [uri_code]:
  "uri_st106 c =
     (if c = 46 then goto 72 else if c = 58 then goto 100 else
      if c < 65 then (if 48 \<le> c \<and> c \<le> 57 then goto 99 else goto 0)
      else if c > 70 then (if 97 \<le> c \<and> c \<le> 102 then goto 99 else goto 0) else goto 99)"

definition uri_st107 :: "int \<Rightarrow> uri_action jump" where [uri_code]:
  "uri_st107 c =
     (if c = 46 then goto 72 else if c = 53 then goto 109 else if c = 58 then goto 100 else
      if c < 65 then (if 48 \<le> c \<and> c \<le> 57 then goto 108 else goto 0)
      else if c > 70 then (if 97 \<le> c \<and> c \<le> 102 then goto 97 else goto 0) else goto 97)"

definition uri_st108 :: "int \<Rightarrow> uri_action jump" where [uri_code]:
  "uri_st108 c =
     (if c = 46 then goto 72 else if c = 58 then goto 100 else
      if c < 65 then (if 48 \<le> c \<and> c \<le> 57 then goto 98 else goto 0)
      else if c > 70 then (if 97 \<le> c \<and> c \<le> 102 then goto 98 else goto 0) else goto 98)"

definition uri_st109 :: "int \<Rightarrow> uri_action jump" where [uri_code]:
  "uri_st109 c =
     (if c = 46 then goto 72 else if c = 58 then goto 100 else
      if c < 54 then (if 48 \<le> c \<and> c \<le> 53 then goto 106 else goto 0)
      else if c > 57 then (if c > 70 then (if 97 \<le> c \<and> c \<le> 102 then goto 98 else goto 0)
        else if c \<ge> 65 then goto 98 else goto 0)
      else goto 98)"

definition uri_st110 :: "int \<Rightarrow> uri_action jump" where [uri_code]:
  "uri_st110 c =
     (if c = 46 then goto 72 else if c = 58 then goto 100 else
      if c < 65 then (if 48 \<le> c \<and> c \<le> 57 then goto 108 else goto 0)
      else if c > 70 then (if 97 \<le> c \<and> c \<le> 102 then goto 97 else goto 0) else goto 97)"

definition uri_st111 :: "int \<Rightarrow> uri_action jump" where [uri_code]:
  "uri_st111 c =
     (if c < 65 then (if 48 \<le> c \<and> c \<le> 57 then goto 101 else goto 0)
      else if c > 70 then (if 97 \<le> c \<and> c \<le> 102 then goto 101 else goto 0) else goto 101)"

definition uri_st112 :: "int \<Rightarrow> uri_action jump" where [uri_code]:
  "uri_st112 c =
     (if c = 58 then goto 100 else
      if c < 65 then (if 48 \<le> c \<and> c \<le> 57 then goto 97 else goto 0)
      else if c > 70 then (if 97 \<le> c \<and> c \<le> 102 then goto 97 else goto 0) else goto 97)"

definition uri_st113 :: "int \<Rightarrow> uri_action jump" where [uri_code]:
  "uri_st113 c =
     (if c = 2 then goto 69 else if c = 48 then goto 114 else if c = 49 then goto 118 else
      if c = 50 then goto 121 else
      if c < 65 then (if 51 \<le> c \<and> c \<le> 57 then goto 124 else goto 0)
      else if c > 70 then (if 97 \<le> c \<and> c \<le> 102 then goto 125 else goto 0) else goto 125)"

definition uri_st114 :: "int \<Rightarrow> uri_action jump" where [uri_code]:
  "uri_st114 c =
     (if c = 46 then goto 72 else if c = 58 then goto 111 else
      if c < 65 then (if 48 \<le> c \<and> c \<le> 57 then goto 115 else goto 0)
      else if c > 70 then (if 97 \<le> c \<and> c \<le> 102 then goto 115 else goto 0) else goto 115)"

definition uri_st115 :: "int \<Rightarrow> uri_action jump" where [uri_code]:
  "uri_st115 c =
     (if c = 58 then goto 111 else
      if c < 65 then (if 48 \<le> c \<and> c \<le> 57 then goto 116 else goto 0)
      else if c > 70 then (if 97 \<le> c \<and> c \<le> 102 then goto 116 else goto 0) else goto 116)"

definition uri_st116 :: "int \<Rightarrow> uri_action jump" where [uri_code]:
  "uri_st116 c =
     (if c = 58 then goto 111 else
      if c < 65 then (if 48 \<le> c \<and> c \<le> 57 then goto 117 else goto 0)
      else if c > 70 then (if 97 \<le> c \<and> c \<le> 102 then goto 117 else goto 0) else goto 117)"

definition uri_st117 :: "int \<Rightarrow> uri_action jump" where [uri_code]:
  "uri_st117 c =
     (if c = 58 then goto 111 else goto 0)"

definition uri_st118 :: "int \<Rightarrow> uri_action jump" where [uri_code]:
  "uri_st118 c =
     (if c = 46 then goto 72 else if c = 58 then goto 111 else
      if c < 65 then (if 48 \<le> c \<and> c \<le> 57 then goto 119 else goto 0)
      else if c > 70 then (if 97 \<le> c \<and> c \<le> 102 then goto 115 else goto 0) else goto 115)"

definition uri_st119 :: "int \<Rightarrow> uri_action jump" where [uri_code]:
  "uri_st119 c =
     (if c = 46 then goto 72 else if c = 58 then goto 111 else
      if c < 65 then (if 48 \<le> c \<and> c \<le> 57 then goto 120 else goto 0)
      else if c > 70 then (if 97 \<le> c \<and> c \<le> 102 then goto 116 else goto 0) else goto 116)"

definition uri_st120 :: "int \<Rightarrow> uri_action jump" where [uri_code]:
  "uri_st120 c =
     (if c = 46 then goto 72 else if c = 58 then goto 111 else
      if c < 65 then (if 48 \<le> c \<and> c \<le> 57 then goto 117 else goto 0)
      else if c > 70 then (if 97 \<le> c \<and> c \<le> 102 then goto 117 else goto 0) else goto 117)"

definition uri_st121 :: "int \<Rightarrow> uri_action jump" where [uri_code]:
  "uri_st121 c =
     (if c = 46 then goto 72 else if c = 53 then goto 123 else if c = 58 then goto 111 else
      if c < 65 then (if 48 \<le> c \<and> c \<le> 57 then goto 122 else goto 0)
      else if c > 70 then (if 97 \<le> c \<and> c \<le> 102 then goto 115 else goto 0) else goto 115)"

definition uri_st122 :: "int \<Rightarrow> uri_action jump" where [uri_code]:
  "uri_st122 c =
     (if c = 46 then goto 72 else if c = 58 then goto 111 else
      if c < 65 then (if 48 \<le> c \<and> c \<le> 57 then goto 116 else goto 0)
      else if c > 70 then (if 97 \<le> c \<and> c \<le> 102 then goto 116 else goto 0) else goto 116)"

definition uri_st123 :: "int \<Rightarrow> uri_action jump" where [uri_code]:
  "uri_st123 c =
     (if c = 46 then goto 72 else if c = 58 then goto 111 else
      if c < 54 then (if 48 \<le> c \<and> c \<le> 53 then goto 120 else goto 0)
      else if c > 57 then (if c > 70 then (if 97 \<le> c \<and> c \<le> 102 then goto 116 else goto 0)
        else if c \<ge> 65 then goto 116 else goto 0)
      else goto 116)"

definition uri_st124 :: "int \<Rightarrow> uri_action jump" where [uri_code]:
  "uri_st124 c =
     (if c = 46 then goto 72 else if c = 58 then goto 111 else
      if c < 65 then (if 48 \<le> c \<and> c \<le> 57 then goto 122 else goto 0)
      else if c > 70 then (if 97 \<le> c \<and> c \<le> 102 then goto 115 else goto 0) else goto 115)"

definition uri_st125 :: "int \<Rightarrow> uri_action jump" where [uri_code]:
  "uri_st125 c =
     (if c = 58 then goto 111 else
      if c < 65 then (if 48 \<le> c \<and> c \<le> 57 then goto 115 else goto 0)
      else if c > 70 then (if 97 \<le> c \<and> c \<le> 102 then goto 115 else goto 0) else goto 115)"

definition uri_st126 :: "int \<Rightarrow> uri_action jump" where [uri_code]:
  "uri_st126 c =
     (if c < 65 then (if 48 \<le> c \<and> c \<le> 57 then goto 127 else goto 0)
      else if c > 70 then (if 97 \<le> c \<and> c \<le> 102 then goto 127 else goto 0) else goto 127)"

definition uri_st127 :: "int \<Rightarrow> uri_action jump" where [uri_code]:
  "uri_st127 c =
     (if c = 58 then goto 113 else
      if c < 65 then (if 48 \<le> c \<and> c \<le> 57 then goto 128 else goto 0)
      else if c > 70 then (if 97 \<le> c \<and> c \<le> 102 then goto 128 else goto 0) else goto 128)"

definition uri_st128 :: "int \<Rightarrow> uri_action jump" where [uri_code]:
  "uri_st128 c =
     (if c = 58 then goto 113 else
      if c < 65 then (if 48 \<le> c \<and> c \<le> 57 then goto 129 else goto 0)
      else if c > 70 then (if 97 \<le> c \<and> c \<le> 102 then goto 129 else goto 0) else goto 129)"

definition uri_st129 :: "int \<Rightarrow> uri_action jump" where [uri_code]:
  "uri_st129 c =
     (if c = 58 then goto 113 else
      if c < 65 then (if 48 \<le> c \<and> c \<le> 57 then goto 130 else goto 0)
      else if c > 70 then (if 97 \<le> c \<and> c \<le> 102 then goto 130 else goto 0) else goto 130)"

definition uri_st130 :: "int \<Rightarrow> uri_action jump" where [uri_code]:
  "uri_st130 c =
     (if c = 58 then goto 113 else goto 0)"

definition uri_st131 :: "int \<Rightarrow> uri_action jump" where [uri_code]:
  "uri_st131 c =
     (if c < 65 then (if 48 \<le> c \<and> c \<le> 57 then goto 132 else goto 0)
      else if c > 70 then (if 97 \<le> c \<and> c \<le> 102 then goto 132 else goto 0) else goto 132)"

definition uri_st132 :: "int \<Rightarrow> uri_action jump" where [uri_code]:
  "uri_st132 c =
     (if c = 58 then goto 126 else
      if c < 65 then (if 48 \<le> c \<and> c \<le> 57 then goto 133 else goto 0)
      else if c > 70 then (if 97 \<le> c \<and> c \<le> 102 then goto 133 else goto 0) else goto 133)"

definition uri_st133 :: "int \<Rightarrow> uri_action jump" where [uri_code]:
  "uri_st133 c =
     (if c = 58 then goto 126 else
      if c < 65 then (if 48 \<le> c \<and> c \<le> 57 then goto 134 else goto 0)
      else if c > 70 then (if 97 \<le> c \<and> c \<le> 102 then goto 134 else goto 0) else goto 134)"

definition uri_st134 :: "int \<Rightarrow> uri_action jump" where [uri_code]:
  "uri_st134 c =
     (if c = 58 then goto 126 else
      if c < 65 then (if 48 \<le> c \<and> c \<le> 57 then goto 135 else goto 0)
      else if c > 70 then (if 97 \<le> c \<and> c \<le> 102 then goto 135 else goto 0) else goto 135)"

definition uri_st135 :: "int \<Rightarrow> uri_action jump" where [uri_code]:
  "uri_st135 c =
     (if c = 58 then goto 126 else goto 0)"

definition uri_st136 :: "int \<Rightarrow> uri_action jump" where [uri_code]:
  "uri_st136 c =
     (if c < 65 then (if 48 \<le> c \<and> c \<le> 57 then goto 137 else goto 0)
      else if c > 70 then (if 97 \<le> c \<and> c \<le> 102 then goto 137 else goto 0) else goto 137)"

definition uri_st137 :: "int \<Rightarrow> uri_action jump" where [uri_code]:
  "uri_st137 c =
     (if c = 58 then goto 131 else
      if c < 65 then (if 48 \<le> c \<and> c \<le> 57 then goto 138 else goto 0)
      else if c > 70 then (if 97 \<le> c \<and> c \<le> 102 then goto 138 else goto 0) else goto 138)"

definition uri_st138 :: "int \<Rightarrow> uri_action jump" where [uri_code]:
  "uri_st138 c =
     (if c = 58 then goto 131 else
      if c < 65 then (if 48 \<le> c \<and> c \<le> 57 then goto 139 else goto 0)
      else if c > 70 then (if 97 \<le> c \<and> c \<le> 102 then goto 139 else goto 0) else goto 139)"

definition uri_st139 :: "int \<Rightarrow> uri_action jump" where [uri_code]:
  "uri_st139 c =
     (if c = 58 then goto 131 else
      if c < 65 then (if 48 \<le> c \<and> c \<le> 57 then goto 140 else goto 0)
      else if c > 70 then (if 97 \<le> c \<and> c \<le> 102 then goto 140 else goto 0) else goto 140)"

definition uri_st140 :: "int \<Rightarrow> uri_action jump" where [uri_code]:
  "uri_st140 c =
     (if c = 58 then goto 131 else goto 0)"

definition uri_st141 :: "int \<Rightarrow> uri_action jump" where [uri_code]:
  "uri_st141 c =
     (if c < 65 then (if 48 \<le> c \<and> c \<le> 57 then goto 142 else goto 0)
      else if c > 70 then (if 97 \<le> c \<and> c \<le> 102 then goto 142 else goto 0) else goto 142)"

definition uri_st142 :: "int \<Rightarrow> uri_action jump" where [uri_code]:
  "uri_st142 c =
     (if c = 58 then goto 136 else
      if c < 65 then (if 48 \<le> c \<and> c \<le> 57 then goto 143 else goto 0)
      else if c > 70 then (if 97 \<le> c \<and> c \<le> 102 then goto 143 else goto 0) else goto 143)"

definition uri_st143 :: "int \<Rightarrow> uri_action jump" where [uri_code]:
  "uri_st143 c =
     (if c = 58 then goto 136 else
      if c < 65 then (if 48 \<le> c \<and> c \<le> 57 then goto 144 else goto 0)
      else if c > 70 then (if 97 \<le> c \<and> c \<le> 102 then goto 144 else goto 0) else goto 144)"

definition uri_st144 :: "int \<Rightarrow> uri_action jump" where [uri_code]:
  "uri_st144 c =
     (if c = 58 then goto 136 else
      if c < 65 then (if 48 \<le> c \<and> c \<le> 57 then goto 145 else goto 0)
      else if c > 70 then (if 97 \<le> c \<and> c \<le> 102 then goto 145 else goto 0) else goto 145)"

definition uri_st145 :: "int \<Rightarrow> uri_action jump" where [uri_code]:
  "uri_st145 c =
     (if c = 58 then goto 136 else goto 0)"

definition uri_st146 :: "int \<Rightarrow> uri_action jump" where [uri_code]:
  "uri_st146 c =
     (if c = 58 then goto 147 else goto 0)"

definition uri_st147 :: "int \<Rightarrow> uri_action jump" where [uri_code]:
  "uri_st147 c =
     (if c = 2 then goto 69 else if c = 48 then goto 148 else if c = 49 then goto 217 else
      if c = 50 then goto 220 else if c = 93 then goto 460 else
      if c < 65 then (if 51 \<le> c \<and> c \<le> 57 then goto 223 else goto 0)
      else if c > 70 then (if 97 \<le> c \<and> c \<le> 102 then goto 224 else goto 0) else goto 224)"

definition uri_st148 :: "int \<Rightarrow> uri_action jump" where [uri_code]:
  "uri_st148 c =
     (if c = 46 then goto 72 else if c = 58 then goto 152 else if c = 93 then goto 460 else
      if c < 65 then (if 48 \<le> c \<and> c \<le> 57 then goto 149 else goto 0)
      else if c > 70 then (if 97 \<le> c \<and> c \<le> 102 then goto 149 else goto 0) else goto 149)"

definition uri_st149 :: "int \<Rightarrow> uri_action jump" where [uri_code]:
  "uri_st149 c =
     (if c = 58 then goto 152 else if c = 93 then goto 460 else
      if c < 65 then (if 48 \<le> c \<and> c \<le> 57 then goto 150 else goto 0)
      else if c > 70 then (if 97 \<le> c \<and> c \<le> 102 then goto 150 else goto 0) else goto 150)"

definition uri_st150 :: "int \<Rightarrow> uri_action jump" where [uri_code]:
  "uri_st150 c =
     (if c = 58 then goto 152 else if c = 93 then goto 460 else
      if c < 65 then (if 48 \<le> c \<and> c \<le> 57 then goto 151 else goto 0)
      else if c > 70 then (if 97 \<le> c \<and> c \<le> 102 then goto 151 else goto 0) else goto 151)"

definition uri_st151 :: "int \<Rightarrow> uri_action jump" where [uri_code]:
  "uri_st151 c =
     (if c = 58 then goto 152 else if c = 93 then goto 460 else goto 0)"

definition uri_st152 :: "int \<Rightarrow> uri_action jump" where [uri_code]:
  "uri_st152 c =
     (if c = 2 then goto 69 else if c = 48 then goto 153 else if c = 49 then goto 209 else
      if c = 50 then goto 212 else
      if c < 65 then (if 51 \<le> c \<and> c \<le> 57 then goto 215 else goto 0)
      else if c > 70 then (if 97 \<le> c \<and> c \<le> 102 then goto 216 else goto 0) else goto 216)"

definition uri_st153 :: "int \<Rightarrow> uri_action jump" where [uri_code]:
  "uri_st153 c =
     (if c = 46 then goto 72 else if c = 58 then goto 157 else if c = 93 then goto 460 else
      if c < 65 then (if 48 \<le> c \<and> c \<le> 57 then goto 154 else goto 0)
      else if c > 70 then (if 97 \<le> c \<and> c \<le> 102 then goto 154 else goto 0) else goto 154)"

definition uri_st154 :: "int \<Rightarrow> uri_action jump" where [uri_code]:
  "uri_st154 c =
     (if c = 58 then goto 157 else if c = 93 then goto 460 else
      if c < 65 then (if 48 \<le> c \<and> c \<le> 57 then goto 155 else goto 0)
      else if c > 70 then (if 97 \<le> c \<and> c \<le> 102 then goto 155 else goto 0) else goto 155)"

definition uri_st155 :: "int \<Rightarrow> uri_action jump" where [uri_code]:
  "uri_st155 c =
     (if c = 58 then goto 157 else if c = 93 then goto 460 else
      if c < 65 then (if 48 \<le> c \<and> c \<le> 57 then goto 156 else goto 0)
      else if c > 70 then (if 97 \<le> c \<and> c \<le> 102 then goto 156 else goto 0) else goto 156)"

definition uri_st156 :: "int \<Rightarrow> uri_action jump" where [uri_code]:
  "uri_st156 c =
     (if c = 58 then goto 157 else if c = 93 then goto 460 else goto 0)"

definition uri_st157 :: "int \<Rightarrow> uri_action jump" where [uri_code]:
  "uri_st157 c =
     (if c = 2 then goto 69 else if c = 48 then goto 158 else if c = 49 then goto 201 else
      if c = 50 then goto 204 else
      if c < 65 then (if 51 \<le> c \<and> c \<le> 57 then goto 207 else goto 0)
      else if c > 70 then (if 97 \<le> c \<and> c \<le> 102 then goto 208 else goto 0) else goto 208)"

definition uri_st158 :: "int \<Rightarrow> uri_action jump" where [uri_code]:
  "uri_st158 c =
     (if c = 46 then goto 72 else if c = 58 then goto 162 else if c = 93 then goto 460 else
      if c < 65 then (if 48 \<le> c \<and> c \<le> 57 then goto 159 else goto 0)
      else if c > 70 then (if 97 \<le> c \<and> c \<le> 102 then goto 159 else goto 0) else goto 159)"

definition uri_st159 :: "int \<Rightarrow> uri_action jump" where [uri_code]:
  "uri_st159 c =
     (if c = 58 then goto 162 else if c = 93 then goto 460 else
      if c < 65 then (if 48 \<le> c \<and> c \<le> 57 then goto 160 else goto 0)
      else if c > 70 then (if 97 \<le> c \<and> c \<le> 102 then goto 160 else goto 0) else goto 160)"

definition uri_st160 :: "int \<Rightarrow> uri_action jump" where [uri_code]:
  "uri_st160 c =
     (if c = 58 then goto 162 else if c = 93 then goto 460 else
      if c < 65 then (if 48 \<le> c \<and> c \<le> 57 then goto 161 else goto 0)
      else if c > 70 then (if 97 \<le> c \<and> c \<le> 102 then goto 161 else goto 0) else goto 161)"

definition uri_st161 :: "int \<Rightarrow> uri_action jump" where [uri_code]:
  "uri_st161 c =
     (if c = 58 then goto 162 else if c = 93 then goto 460 else goto 0)"

definition uri_st162 :: "int \<Rightarrow> uri_action jump" where [uri_code]:
  "uri_st162 c =
     (if c = 2 then goto 69 else if c = 48 then goto 163 else if c = 49 then goto 193 else
      if c = 50 then goto 196 else
      if c < 65 then (if 51 \<le> c \<and> c \<le> 57 then goto 199 else goto 0)
      else if c > 70 then (if 97 \<le> c \<and> c \<le> 102 then goto 200 else goto 0) else goto 200)"

definition uri_st163 :: "int \<Rightarrow> uri_action jump" where [uri_code]:
  "uri_st163 c =
     (if c = 46 then goto 72 else if c = 58 then goto 167 else if c = 93 then goto 460 else
      if c < 65 then (if 48 \<le> c \<and> c \<le> 57 then goto 164 else goto 0)
      else if c > 70 then (if 97 \<le> c \<and> c \<le> 102 then goto 164 else goto 0) else goto 164)"

definition uri_st164 :: "int \<Rightarrow> uri_action jump" where [uri_code]:
  "uri_st164 c =
     (if c = 58 then goto 167 else if c = 93 then goto 460 else
      if c < 65 then (if 48 \<le> c \<and> c \<le> 57 then goto 165 else goto 0)
      else if c > 70 then (if 97 \<le> c \<and> c \<le> 102 then goto 165 else goto 0) else goto 165)"

definition uri_st165 :: "int \<Rightarrow> uri_action jump" where [uri_code]:
  "uri_st165 c =
     (if c = 58 then goto 167 else if c = 93 then goto 460 else
      if c < 65 then (if 48 \<le> c \<and> c \<le> 57 then goto 166 else goto 0)
      else if c > 70 then (if 97 \<le> c \<and> c \<le> 102 then goto 166 else goto 0) else goto 166)"

definition uri_st166 :: "int \<Rightarrow> uri_action jump" where [uri_code]:
  "uri_st166 c =
     (if c = 58 then goto 167 else if c = 93 then goto 460 else goto 0)"

definition uri_st167 :: "int \<Rightarrow> uri_action jump" where [uri_code]:
  "uri_st167 c =
     (if c = 2 then goto 69 else if c = 48 then goto 168 else if c = 49 then goto 185 else
      if c = 50 then goto 188 else
      if c < 65 then (if 51 \<le> c \<and> c \<le> 57 then goto 191 else goto 0)
      else if c > 70 then (if 97 \<le> c \<and> c \<le> 102 then goto 192 else goto 0) else goto 192)"

definition uri_st168 :: "int \<Rightarrow> uri_action jump" where [uri_code]:
  "uri_st168 c =
     (if c = 46 then goto 72 else if c = 58 then goto 172 else if c = 93 then goto 460 else
      if c < 65 then (if 48 \<le> c \<and> c \<le> 57 then goto 169 else goto 0)
      else if c > 70 then (if 97 \<le> c \<and> c \<le> 102 then goto 169 else goto 0) else goto 169)"

definition uri_st169 :: "int \<Rightarrow> uri_action jump" where [uri_code]:
  "uri_st169 c =
     (if c = 58 then goto 172 else if c = 93 then goto 460 else
      if c < 65 then (if 48 \<le> c \<and> c \<le> 57 then goto 170 else goto 0)
      else if c > 70 then (if 97 \<le> c \<and> c \<le> 102 then goto 170 else goto 0) else goto 170)"

definition uri_st170 :: "int \<Rightarrow> uri_action jump" where [uri_code]:
  "uri_st170 c =
     (if c = 58 then goto 172 else if c = 93 then goto 460 else
      if c < 65 then (if 48 \<le> c \<and> c \<le> 57 then goto 171 else goto 0)
      else if c > 70 then (if 97 \<le> c \<and> c \<le> 102 then goto 171 else goto 0) else goto 171)"

definition uri_st171 :: "int \<Rightarrow> uri_action jump" where [uri_code]:
  "uri_st171 c =
     (if c = 58 then goto 172 else if c = 93 then goto 460 else goto 0)"

definition uri_st172 :: "int \<Rightarrow> uri_action jump" where [uri_code]:
  "uri_st172 c =
     (if c = 2 then goto 69 else if c = 48 then goto 173 else if c = 49 then goto 177 else
      if c = 50 then goto 180 else
      if c < 65 then (if 51 \<le> c \<and> c \<le> 57 then goto 183 else goto 0)
      else if c > 70 then (if 97 \<le> c \<and> c \<le> 102 then goto 184 else goto 0) else goto 184)"

definition uri_st173 :: "int \<Rightarrow> uri_action jump" where [uri_code]:
  "uri_st173 c =
     (if c = 46 then goto 72 else if c = 58 then goto 111 else if c = 93 then goto 460 else
      if c < 65 then (if 48 \<le> c \<and> c \<le> 57 then goto 174 else goto 0)
      else if c > 70 then (if 97 \<le> c \<and> c \<le> 102 then goto 174 else goto 0) else goto 174)"

definition uri_st174 :: "int \<Rightarrow> uri_action jump" where [uri_code]:
  "uri_st174 c =
     (if c = 58 then goto 111 else if c = 93 then goto 460 else
      if c < 65 then (if 48 \<le> c \<and> c \<le> 57 then goto 175 else goto 0)
      else if c > 70 then (if 97 \<le> c \<and> c \<le> 102 then goto 175 else goto 0) else goto 175)"

definition uri_st175 :: "int \<Rightarrow> uri_action jump" where [uri_code]:
  "uri_st175 c =
     (if c = 58 then goto 111 else if c = 93 then goto 460 else
      if c < 65 then (if 48 \<le> c \<and> c \<le> 57 then goto 176 else goto 0)
      else if c > 70 then (if 97 \<le> c \<and> c \<le> 102 then goto 176 else goto 0) else goto 176)"

definition uri_st176 :: "int \<Rightarrow> uri_action jump" where [uri_code]:
  "uri_st176 c =
     (if c = 58 then goto 111 else if c = 93 then goto 460 else goto 0)"

definition uri_st177 :: "int \<Rightarrow> uri_action jump" where [uri_code]:
  "uri_st177 c =
     (if c = 46 then goto 72 else if c = 58 then goto 111 else if c = 93 then goto 460 else
      if c < 65 then (if 48 \<le> c \<and> c \<le> 57 then goto 178 else goto 0)
      else if c > 70 then (if 97 \<le> c \<and> c \<le> 102 then goto 174 else goto 0) else goto 174)"

definition uri_st178 :: "int \<Rightarrow> uri_action jump" where [uri_code]:
  "uri_st178 c =
     (if c = 46 then goto 72 else if c = 58 then goto 111 else if c = 93 then goto 460 else
      if c < 65 then (if 48 \<le> c \<and> c \<le> 57 then goto 179 else goto 0)
      else if c > 70 then (if 97 \<le> c \<and> c \<le> 102 then goto 175 else goto 0) else goto 175)"

definition uri_st179 :: "int \<Rightarrow> uri_action jump" where [uri_code]:
  "uri_st179 c =
     (if c = 46 then goto 72 else if c = 58 then goto 111 else if c = 93 then goto 460 else
      if c < 65 then (if 48 \<le> c \<and> c \<le> 57 then goto 176 else goto 0)
      else if c > 70 then (if 97 \<le> c \<and> c \<le> 102 then goto 176 else goto 0) else goto 176)"

definition uri_st180 :: "int \<Rightarrow> uri_action jump" where [uri_code]:
  "uri_st180 c =
     (if c = 46 then goto 72 else if c = 53 then goto 182 else if c = 58 then goto 111 else
      if c = 93 then goto 460 else
      if c < 65 then (if 48 \<le> c \<and> c \<le> 57 then goto 181 else goto 0)
      else if c > 70 then (if 97 \<le> c \<and> c \<le> 102 then goto 174 else goto 0) else goto 174)"

definition uri_st181 :: "int \<Rightarrow> uri_action jump" where [uri_code]:
  "uri_st181 c =
     (if c = 46 then goto 72 else if c = 58 then goto 111 else if c = 93 then goto 460 else
      if c < 65 then (if 48 \<le> c \<and> c \<le> 57 then goto 175 else goto 0)
      else if c > 70 then (if 97 \<le> c \<and> c \<le> 102 then goto 175 else goto 0) else goto 175)"

definition uri_st182 :: "int \<Rightarrow> uri_action jump" where [uri_code]:
  "uri_st182 c =
     (if c = 46 then goto 72 else if c = 58 then goto 111 else if c = 93 then goto 460 else
      if c < 54 then (if 48 \<le> c \<and> c \<le> 53 then goto 179 else goto 0)
      else if c > 57 then (if c > 70 then (if 97 \<le> c \<and> c \<le> 102 then goto 175 else goto 0)
        else if c \<ge> 65 then goto 175 else goto 0)
      else goto 175)"

definition uri_st183 :: "int \<Rightarrow> uri_action jump" where [uri_code]:
  "uri_st183 c =
     (if c = 46 then goto 72 else if c = 58 then goto 111 else if c = 93 then goto 460 else
      if c < 65 then (if 48 \<le> c \<and> c \<le> 57 then goto 181 else goto 0)
      else if c > 70 then (if 97 \<le> c \<and> c \<le> 102 then goto 174 else goto 0) else goto 174)"

definition uri_st184 :: "int \<Rightarrow> uri_action jump" where [uri_code]:
  "uri_st184 c =
     (if c = 58 then goto 111 else if c = 93 then goto 460 else
      if c < 65 then (if 48 \<le> c \<and> c \<le> 57 then goto 174 else goto 0)
      else if c > 70 then (if 97 \<le> c \<and> c \<le> 102 then goto 174 else goto 0) else goto 174)"

definition uri_st185 :: "int \<Rightarrow> uri_action jump" where [uri_code]:
  "uri_st185 c =
     (if c = 46 then goto 72 else if c = 58 then goto 172 else if c = 93 then goto 460 else
      if c < 65 then (if 48 \<le> c \<and> c \<le> 57 then goto 186 else goto 0)
      else if c > 70 then (if 97 \<le> c \<and> c \<le> 102 then goto 169 else goto 0) else goto 169)"

definition uri_st186 :: "int \<Rightarrow> uri_action jump" where [uri_code]:
  "uri_st186 c =
     (if c = 46 then goto 72 else if c = 58 then goto 172 else if c = 93 then goto 460 else
      if c < 65 then (if 48 \<le> c \<and> c \<le> 57 then goto 187 else goto 0)
      else if c > 70 then (if 97 \<le> c \<and> c \<le> 102 then goto 170 else goto 0) else goto 170)"

definition uri_st187 :: "int \<Rightarrow> uri_action jump" where [uri_code]:
  "uri_st187 c =
     (if c = 46 then goto 72 else if c = 58 then goto 172 else if c = 93 then goto 460 else
      if c < 65 then (if 48 \<le> c \<and> c \<le> 57 then goto 171 else goto 0)
      else if c > 70 then (if 97 \<le> c \<and> c \<le> 102 then goto 171 else goto 0) else goto 171)"

definition uri_st188 :: "int \<Rightarrow> uri_action jump" where [uri_code]:
  "uri_st188 c =
     (if c = 46 then goto 72 else if c = 53 then goto 190 else if c = 58 then goto 172 else
      if c = 93 then goto 460 else
      if c < 65 then (if 48 \<le> c \<and> c \<le> 57 then goto 189 else goto 0)
      else if c > 70 then (if 97 \<le> c \<and> c \<le> 102 then goto 169 else goto 0) else goto 169)"

definition uri_st189 :: "int \<Rightarrow> uri_action jump" where [uri_code]:
  "uri_st189 c =
     (if c = 46 then goto 72 else if c = 58 then goto 172 else if c = 93 then goto 460 else
      if c < 65 then (if 48 \<le> c \<and> c \<le> 57 then goto 170 else goto 0)
      else if c > 70 then (if 97 \<le> c \<and> c \<le> 102 then goto 170 else goto 0) else goto 170)"

definition uri_st190 :: "int \<Rightarrow> uri_action jump" where [uri_code]:
  "uri_st190 c =
     (if c = 46 then goto 72 else if c = 58 then goto 172 else if c = 93 then goto 460 else
      if c < 54 then (if 48 \<le> c \<and> c \<le> 53 then goto 187 else goto 0)
      else if c > 57 then (if c > 70 then (if 97 \<le> c \<and> c \<le> 102 then goto 170 else goto 0)
        else if c \<ge> 65 then goto 170 else goto 0)
      else goto 170)"

definition uri_st191 :: "int \<Rightarrow> uri_action jump" where [uri_code]:
  "uri_st191 c =
     (if c = 46 then goto 72 else if c = 58 then goto 172 else if c = 93 then goto 460 else
      if c < 65 then (if 48 \<le> c \<and> c \<le> 57 then goto 189 else goto 0)
      else if c > 70 then (if 97 \<le> c \<and> c \<le> 102 then goto 169 else goto 0) else goto 169)"

definition uri_st192 :: "int \<Rightarrow> uri_action jump" where [uri_code]:
  "uri_st192 c =
     (if c = 58 then goto 172 else if c = 93 then goto 460 else
      if c < 65 then (if 48 \<le> c \<and> c \<le> 57 then goto 169 else goto 0)
      else if c > 70 then (if 97 \<le> c \<and> c \<le> 102 then goto 169 else goto 0) else goto 169)"

definition uri_st193 :: "int \<Rightarrow> uri_action jump" where [uri_code]:
  "uri_st193 c =
     (if c = 46 then goto 72 else if c = 58 then goto 167 else if c = 93 then goto 460 else
      if c < 65 then (if 48 \<le> c \<and> c \<le> 57 then goto 194 else goto 0)
      else if c > 70 then (if 97 \<le> c \<and> c \<le> 102 then goto 164 else goto 0) else goto 164)"

definition uri_st194 :: "int \<Rightarrow> uri_action jump" where [uri_code]:
  "uri_st194 c =
     (if c = 46 then goto 72 else if c = 58 then goto 167 else if c = 93 then goto 460 else
      if c < 65 then (if 48 \<le> c \<and> c \<le> 57 then goto 195 else goto 0)
      else if c > 70 then (if 97 \<le> c \<and> c \<le> 102 then goto 165 else goto 0) else goto 165)"

definition uri_st195 :: "int \<Rightarrow> uri_action jump" where [uri_code]:
  "uri_st195 c =
     (if c = 46 then goto 72 else if c = 58 then goto 167 else if c = 93 then goto 460 else
      if c < 65 then (if 48 \<le> c \<and> c \<le> 57 then goto 166 else goto 0)
      else if c > 70 then (if 97 \<le> c \<and> c \<le> 102 then goto 166 else goto 0) else goto 166)"

definition uri_st196 :: "int \<Rightarrow> uri_action jump" where [uri_code]:
  "uri_st196 c =
     (if c = 46 then goto 72 else if c = 53 then goto 198 else if c = 58 then goto 167 else
      if c = 93 then goto 460 else
      if c < 65 then (if 48 \<le> c \<and> c \<le> 57 then goto 197 else goto 0)
      else if c > 70 then (if 97 \<le> c \<and> c \<le> 102 then goto 164 else goto 0) else goto 164)"

definition uri_st197 :: "int \<Rightarrow> uri_action jump" where [uri_code]:
  "uri_st197 c =
     (if c = 46 then goto 72 else if c = 58 then goto 167 else if c = 93 then goto 460 else
      if c < 65 then (if 48 \<le> c \<and> c \<le> 57 then goto 165 else goto 0)
      else if c > 70 then (if 97 \<le> c \<and> c \<le> 102 then goto 165 else goto 0) else goto 165)"

definition uri_st198 :: "int \<Rightarrow> uri_action jump" where [uri_code]:
  "uri_st198 c =
     (if c = 46 then goto 72 else if c = 58 then goto 167 else if c = 93 then goto 460 else
      if c < 54 then (if 48 \<le> c \<and> c \<le> 53 then goto 195 else goto 0)
      else if c > 57 then (if c > 70 then (if 97 \<le> c \<and> c \<le> 102 then goto 165 else goto 0)
        else if c \<ge> 65 then goto 165 else goto 0)
      else goto 165)"

definition uri_st199 :: "int \<Rightarrow> uri_action jump" where [uri_code]:
  "uri_st199 c =
     (if c = 46 then goto 72 else if c = 58 then goto 167 else if c = 93 then goto 460 else
      if c < 65 then (if 48 \<le> c \<and> c \<le> 57 then goto 197 else goto 0)
      else if c > 70 then (if 97 \<le> c \<and> c \<le> 102 then goto 164 else goto 0) else goto 164)"

definition uri_st200 :: "int \<Rightarrow> uri_action jump" where [uri_code]:
  "uri_st200 c =
     (if c = 58 then goto 167 else if c = 93 then goto 460 else
      if c < 65 then (if 48 \<le> c \<and> c \<le> 57 then goto 164 else goto 0)
      else if c > 70 then (if 97 \<le> c \<and> c \<le> 102 then goto 164 else goto 0) else goto 164)"

definition uri_st201 :: "int \<Rightarrow> uri_action jump" where [uri_code]:
  "uri_st201 c =
     (if c = 46 then goto 72 else if c = 58 then goto 162 else if c = 93 then goto 460 else
      if c < 65 then (if 48 \<le> c \<and> c \<le> 57 then goto 202 else goto 0)
      else if c > 70 then (if 97 \<le> c \<and> c \<le> 102 then goto 159 else goto 0) else goto 159)"

definition uri_st202 :: "int \<Rightarrow> uri_action jump" where [uri_code]:
  "uri_st202 c =
     (if c = 46 then goto 72 else if c = 58 then goto 162 else if c = 93 then goto 460 else
      if c < 65 then (if 48 \<le> c \<and> c \<le> 57 then goto 203 else goto 0)
      else if c > 70 then (if 97 \<le> c \<and> c \<le> 102 then goto 160 else goto 0) else goto 160)"

definition uri_st203 :: "int \<Rightarrow> uri_action jump" where [uri_code]:
  "uri_st203 c =
     (if c = 46 then goto 72 else if c = 58 then goto 162 else if c = 93 then goto 460 else
      if c < 65 then (if 48 \<le> c \<and> c \<le> 57 then goto 161 else goto 0)
      else if c > 70 then (if 97 \<le> c \<and> c \<le> 102 then goto 161 else goto 0) else goto 161)"

definition uri_st204 :: "int \<Rightarrow> uri_action jump" where [uri_code]:
  "uri_st204 c =
     (if c = 46 then goto 72 else if c = 53 then goto 206 else if c = 58 then goto 162 else
      if c = 93 then goto 460 else
      if c < 65 then (if 48 \<le> c \<and> c \<le> 57 then goto 205 else goto 0)
      else if c > 70 then (if 97 \<le> c \<and> c \<le> 102 then goto 159 else goto 0) else goto 159)"

definition uri_st205 :: "int \<Rightarrow> uri_action jump" where [uri_code]:
  "uri_st205 c =
     (if c = 46 then goto 72 else if c = 58 then goto 162 else if c = 93 then goto 460 else
      if c < 65 then (if 48 \<le> c \<and> c \<le> 57 then goto 160 else goto 0)
      else if c > 70 then (if 97 \<le> c \<and> c \<le> 102 then goto 160 else goto 0) else goto 160)"

definition uri_st206 :: "int \<Rightarrow> uri_action jump" where [uri_code]:
  "uri_st206 c =
     (if c = 46 then goto 72 else if c = 58 then goto 162 else if c = 93 then goto 460 else
      if c < 54 then (if 48 \<le> c \<and> c \<le> 53 then goto 203 else goto 0)
      else if c > 57 then (if c > 70 then (if 97 \<le> c \<and> c \<le> 102 then goto 160 else goto 0)
        else if c \<ge> 65 then goto 160 else goto 0)
      else goto 160)"

definition uri_st207 :: "int \<Rightarrow> uri_action jump" where [uri_code]:
  "uri_st207 c =
     (if c = 46 then goto 72 else if c = 58 then goto 162 else if c = 93 then goto 460 else
      if c < 65 then (if 48 \<le> c \<and> c \<le> 57 then goto 205 else goto 0)
      else if c > 70 then (if 97 \<le> c \<and> c \<le> 102 then goto 159 else goto 0) else goto 159)"

definition uri_st208 :: "int \<Rightarrow> uri_action jump" where [uri_code]:
  "uri_st208 c =
     (if c = 58 then goto 162 else if c = 93 then goto 460 else
      if c < 65 then (if 48 \<le> c \<and> c \<le> 57 then goto 159 else goto 0)
      else if c > 70 then (if 97 \<le> c \<and> c \<le> 102 then goto 159 else goto 0) else goto 159)"

definition uri_st209 :: "int \<Rightarrow> uri_action jump" where [uri_code]:
  "uri_st209 c =
     (if c = 46 then goto 72 else if c = 58 then goto 157 else if c = 93 then goto 460 else
      if c < 65 then (if 48 \<le> c \<and> c \<le> 57 then goto 210 else goto 0)
      else if c > 70 then (if 97 \<le> c \<and> c \<le> 102 then goto 154 else goto 0) else goto 154)"

definition uri_st210 :: "int \<Rightarrow> uri_action jump" where [uri_code]:
  "uri_st210 c =
     (if c = 46 then goto 72 else if c = 58 then goto 157 else if c = 93 then goto 460 else
      if c < 65 then (if 48 \<le> c \<and> c \<le> 57 then goto 211 else goto 0)
      else if c > 70 then (if 97 \<le> c \<and> c \<le> 102 then goto 155 else goto 0) else goto 155)"

definition uri_st211 :: "int \<Rightarrow> uri_action jump" where [uri_code]:
  "uri_st211 c =
     (if c = 46 then goto 72 else if c = 58 then goto 157 else if c = 93 then goto 460 else
      if c < 65 then (if 48 \<le> c \<and> c \<le> 57 then goto 156 else goto 0)
      else if c > 70 then (if 97 \<le> c \<and> c \<le> 102 then goto 156 else goto 0) else goto 156)"

definition uri_st212 :: "int \<Rightarrow> uri_action jump" where [uri_code]:
  "uri_st212 c =
     (if c = 46 then goto 72 else if c = 53 then goto 214 else if c = 58 then goto 157 else
      if c = 93 then goto 460 else
      if c < 65 then (if 48 \<le> c \<and> c \<le> 57 then goto 213 else goto 0)
      else if c > 70 then (if 97 \<le> c \<and> c \<le> 102 then goto 154 else goto 0) else goto 154)"

definition uri_st213 :: "int \<Rightarrow> uri_action jump" where [uri_code]:
  "uri_st213 c =
     (if c = 46 then goto 72 else if c = 58 then goto 157 else if c = 93 then goto 460 else
      if c < 65 then (if 48 \<le> c \<and> c \<le> 57 then goto 155 else goto 0)
      else if c > 70 then (if 97 \<le> c \<and> c \<le> 102 then goto 155 else goto 0) else goto 155)"

definition uri_st214 :: "int \<Rightarrow> uri_action jump" where [uri_code]:
  "uri_st214 c =
     (if c = 46 then goto 72 else if c = 58 then goto 157 else if c = 93 then goto 460 else
      if c < 54 then (if 48 \<le> c \<and> c \<le> 53 then goto 211 else goto 0)
      else if c > 57 then (if c > 70 then (if 97 \<le> c \<and> c \<le> 102 then goto 155 else goto 0)
        else if c \<ge> 65 then goto 155 else goto 0)
      else goto 155)"

definition uri_st215 :: "int \<Rightarrow> uri_action jump" where [uri_code]:
  "uri_st215 c =
     (if c = 46 then goto 72 else if c = 58 then goto 157 else if c = 93 then goto 460 else
      if c < 65 then (if 48 \<le> c \<and> c \<le> 57 then goto 213 else goto 0)
      else if c > 70 then (if 97 \<le> c \<and> c \<le> 102 then goto 154 else goto 0) else goto 154)"

definition uri_st216 :: "int \<Rightarrow> uri_action jump" where [uri_code]:
  "uri_st216 c =
     (if c = 58 then goto 157 else if c = 93 then goto 460 else
      if c < 65 then (if 48 \<le> c \<and> c \<le> 57 then goto 154 else goto 0)
      else if c > 70 then (if 97 \<le> c \<and> c \<le> 102 then goto 154 else goto 0) else goto 154)"

definition uri_st217 :: "int \<Rightarrow> uri_action jump" where [uri_code]:
  "uri_st217 c =
     (if c = 46 then goto 72 else if c = 58 then goto 152 else if c = 93 then goto 460 else
      if c < 65 then (if 48 \<le> c \<and> c \<le> 57 then goto 218 else goto 0)
      else if c > 70 then (if 97 \<le> c \<and> c \<le> 102 then goto 149 else goto 0) else goto 149)"

definition uri_st218 :: "int \<Rightarrow> uri_action jump" where [uri_code]:
  "uri_st218 c =
     (if c = 46 then goto 72 else if c = 58 then goto 152 else if c = 93 then goto 460 else
      if c < 65 then (if 48 \<le> c \<and> c \<le> 57 then goto 219 else goto 0)
      else if c > 70 then (if 97 \<le> c \<and> c \<le> 102 then goto 150 else goto 0) else goto 150)"

definition uri_st219 :: "int \<Rightarrow> uri_action jump" where [uri_code]:
  "uri_st219 c =
     (if c = 46 then goto 72 else if c = 58 then goto 152 else if c = 93 then goto 460 else
      if c < 65 then (if 48 \<le> c \<and> c \<le> 57 then goto 151 else goto 0)
      else if c > 70 then (if 97 \<le> c \<and> c \<le> 102 then goto 151 else goto 0) else goto 151)"

definition uri_st220 :: "int \<Rightarrow> uri_action jump" where [uri_code]:
  "uri_st220 c =
     (if c = 46 then goto 72 else if c = 53 then goto 222 else if c = 58 then goto 152 else
      if c = 93 then goto 460 else
      if c < 65 then (if 48 \<le> c \<and> c \<le> 57 then goto 221 else goto 0)
      else if c > 70 then (if 97 \<le> c \<and> c \<le> 102 then goto 149 else goto 0) else goto 149)"

definition uri_st221 :: "int \<Rightarrow> uri_action jump" where [uri_code]:
  "uri_st221 c =
     (if c = 46 then goto 72 else if c = 58 then goto 152 else if c = 93 then goto 460 else
      if c < 65 then (if 48 \<le> c \<and> c \<le> 57 then goto 150 else goto 0)
      else if c > 70 then (if 97 \<le> c \<and> c \<le> 102 then goto 150 else goto 0) else goto 150)"

definition uri_st222 :: "int \<Rightarrow> uri_action jump" where [uri_code]:
  "uri_st222 c =
     (if c = 46 then goto 72 else if c = 58 then goto 152 else if c = 93 then goto 460 else
      if c < 54 then (if 48 \<le> c \<and> c \<le> 53 then goto 219 else goto 0)
      else if c > 57 then (if c > 70 then (if 97 \<le> c \<and> c \<le> 102 then goto 150 else goto 0)
        else if c \<ge> 65 then goto 150 else goto 0)
      else goto 150)"

definition uri_st223 :: "int \<Rightarrow> uri_action jump" where [uri_code]:
  "uri_st223 c =
     (if c = 46 then goto 72 else if c = 58 then goto 152 else if c = 93 then goto 460 else
      if c < 65 then (if 48 \<le> c \<and> c \<le> 57 then goto 221 else goto 0)
      else if c > 70 then (if 97 \<le> c \<and> c \<le> 102 then goto 149 else goto 0) else goto 149)"

definition uri_st224 :: "int \<Rightarrow> uri_action jump" where [uri_code]:
  "uri_st224 c =
     (if c = 58 then goto 152 else if c = 93 then goto 460 else
      if c < 65 then (if 48 \<le> c \<and> c \<le> 57 then goto 149 else goto 0)
      else if c > 70 then (if 97 \<le> c \<and> c \<le> 102 then goto 149 else goto 0) else goto 149)"

definition uri_st225 :: "int \<Rightarrow> uri_action jump" where [uri_code]:
  "uri_st225 c =
     (if c < 65 then (if 48 \<le> c \<and> c \<le> 57 then goto 226 else goto 0)
      else if c > 70 then (if 97 \<le> c \<and> c \<le> 102 then goto 226 else goto 0) else goto 226)"

definition uri_st226 :: "int \<Rightarrow> uri_action jump" where [uri_code]:
  "uri_st226 c =
     (if c = 46 then goto 227 else
      if c < 65 then (if 48 \<le> c \<and> c \<le> 57 then goto 226 else goto 0)
      else if c > 70 then (if 97 \<le> c \<and> c \<le> 102 then goto 226 else goto 0) else goto 226)"

definition uri_st227 :: "int \<Rightarrow> uri_action jump" where [uri_code]:
  "uri_st227 c =
     (if c = 33 then goto 228 else if c = 36 then goto 228 else if c = 61 then goto 228 else
      if c = 95 then goto 228 else if c = 126 then goto 228 else
      if c < 48 then (if 38 \<le> c \<and> c \<le> 46 then goto 228 else goto 0)
      else if c > 59 then (if c > 90 then (if 97 \<le> c \<and> c \<le> 122 then goto 228 else goto 0)
        else if c \<ge> 65 then goto 228 else goto 0)
      else goto 228)"

definition uri_st228 :: "int \<Rightarrow> uri_action jump" where [uri_code]:
  "uri_st228 c =
     (if c = 33 then goto 228 else if c = 36 then goto 228 else if c = 61 then goto 228 else
      if c = 93 then goto 460 else if c = 95 then goto 228 else if c = 126 then goto 228 else
      if c < 48 then (if 38 \<le> c \<and> c \<le> 46 then goto 228 else goto 0)
      else if c > 59 then (if c > 90 then (if 97 \<le> c \<and> c \<le> 122 then goto 228 else goto 0)
        else if c \<ge> 65 then goto 228 else goto 0)
      else goto 228)"

definition uri_st229 :: "int \<Rightarrow> uri_action jump" where [uri_code]:
  "uri_st229 c =
     (if 48 \<le> c \<and> c \<le> 52 then goto 230 else goto 0)"

definition uri_st230 :: "int \<Rightarrow> uri_action jump" where [uri_code]:
  "uri_st230 c =
     (if 48 \<le> c \<and> c \<le> 57 then goto 231 else goto 0)"

definition uri_st231 :: "int \<Rightarrow> uri_action jump" where [uri_code]:
  "uri_st231 c =
     (if c = 46 then goto 232 else goto 0)"

definition uri_st232 :: "int \<Rightarrow> uri_action jump" where [uri_code]:
  "uri_st232 c =
     (if c = 2 then goto 233 else if c = 48 then goto 235 else if c = 49 then goto 249 else
      if c = 50 then goto 251 else if 51 \<le> c \<and> c \<le> 57 then goto 250 else goto 0)"

definition uri_st233 :: "int \<Rightarrow> uri_action jump" where [uri_code]:
  "uri_st233 c =
     (if 48 \<le> c \<and> c \<le> 52 then goto 234 else goto 0)"

definition uri_st234 :: "int \<Rightarrow> uri_action jump" where [uri_code]:
  "uri_st234 c =
     (if 48 \<le> c \<and> c \<le> 57 then goto 235 else goto 0)"

definition uri_st235 :: "int \<Rightarrow> uri_action jump" where [uri_code]:
  "uri_st235 c =
     (if c = 46 then goto 236 else goto 0)"

definition uri_st236 :: "int \<Rightarrow> uri_action jump" where [uri_code]:
  "uri_st236 c =
     (if c = 2 then goto 237 else if c = 48 then goto 239 else if c = 49 then goto 245 else
      if c = 50 then goto 247 else if 51 \<le> c \<and> c \<le> 57 then goto 246 else goto 0)"

definition uri_st237 :: "int \<Rightarrow> uri_action jump" where [uri_code]:
  "uri_st237 c =
     (if 48 \<le> c \<and> c \<le> 52 then goto 238 else goto 0)"

definition uri_st238 :: "int \<Rightarrow> uri_action jump" where [uri_code]:
  "uri_st238 c =
     (if 48 \<le> c \<and> c \<le> 57 then goto 239 else goto 0)"

definition uri_st239 :: "int \<Rightarrow> uri_action jump" where [uri_code]:
  "uri_st239 c =
     (if c = 46 then goto 240 else goto 0)"

definition uri_st240 :: "int \<Rightarrow> uri_action jump" where [uri_code]:
  "uri_st240 c =
     (if c = 2 then goto 241 else if c = 48 then goto 512 else if c = 49 then goto 516 else
      if c = 50 then goto 518 else if 51 \<le> c \<and> c \<le> 57 then goto 517 else goto 0)"

definition uri_st241 :: "int \<Rightarrow> uri_action jump" where [uri_code]:
  "uri_st241 c =
     (if 48 \<le> c \<and> c \<le> 52 then goto 242 else goto 0)"

definition uri_st242 :: "int \<Rightarrow> uri_action jump" where [uri_code]:
  "uri_st242 c =
     (if 48 \<le> c \<and> c \<le> 57 then goto 512 else goto 0)"

definition uri_st243 :: "int \<Rightarrow> uri_action jump" where [uri_code]:
  "uri_st243 c =
     (if c < 65 then (if 48 \<le> c \<and> c \<le> 57 then goto 244 else goto 0)
      else if c > 70 then (if 97 \<le> c \<and> c \<le> 102 then goto 244 else goto 0) else goto 244)"

definition uri_st244 :: "int \<Rightarrow> uri_action jump" where [uri_code]:
  "uri_st244 c =
     (if c < 65 then (if 48 \<le> c \<and> c \<le> 57 then goto 513 else goto 0)
      else if c > 70 then (if 97 \<le> c \<and> c \<le> 102 then goto 513 else goto 0) else goto 513)"

definition uri_st245 :: "int \<Rightarrow> uri_action jump" where [uri_code]:
  "uri_st245 c =
     (if c = 46 then goto 240 else if 48 \<le> c \<and> c \<le> 57 then goto 246 else goto 0)"

definition uri_st246 :: "int \<Rightarrow> uri_action jump" where [uri_code]:
  "uri_st246 c =
     (if c = 46 then goto 240 else if 48 \<le> c \<and> c \<le> 57 then goto 239 else goto 0)"

definition uri_st247 :: "int \<Rightarrow> uri_action jump" where [uri_code]:
  "uri_st247 c =
     (if c = 46 then goto 240 else if c = 53 then goto 248 else
      if 48 \<le> c \<and> c \<le> 57 then goto 239 else goto 0)"

definition uri_st248 :: "int \<Rightarrow> uri_action jump" where [uri_code]:
  "uri_st248 c =
     (if c = 46 then goto 240 else if 48 \<le> c \<and> c \<le> 53 then goto 239 else goto 0)"

definition uri_st249 :: "int \<Rightarrow> uri_action jump" where [uri_code]:
  "uri_st249 c =
     (if c = 46 then goto 236 else if 48 \<le> c \<and> c \<le> 57 then goto 250 else goto 0)"

definition uri_st250 :: "int \<Rightarrow> uri_action jump" where [uri_code]:
  "uri_st250 c =
     (if c = 46 then goto 236 else if 48 \<le> c \<and> c \<le> 57 then goto 235 else goto 0)"

definition uri_st251 :: "int \<Rightarrow> uri_action jump" where [uri_code]:
  "uri_st251 c =
     (if c = 46 then goto 236 else if c = 53 then goto 252 else
      if 48 \<le> c \<and> c \<le> 57 then goto 235 else goto 0)"

definition uri_st252 :: "int \<Rightarrow> uri_action jump" where [uri_code]:
  "uri_st252 c =
     (if c = 46 then goto 236 else if 48 \<le> c \<and> c \<le> 53 then goto 235 else goto 0)"

definition uri_st253 :: "int \<Rightarrow> uri_action jump" where [uri_code]:
  "uri_st253 c =
     (if c < 65 then (if 48 \<le> c \<and> c \<le> 57 then goto 254 else goto 0)
      else if c > 70 then (if 97 \<le> c \<and> c \<le> 102 then goto 254 else goto 0) else goto 254)"

definition uri_st254 :: "int \<Rightarrow> uri_action jump" where [uri_code]:
  "uri_st254 c =
     (if c < 65 then (if 48 \<le> c \<and> c \<le> 57 then goto 520 else goto 0)
      else if c > 70 then (if 97 \<le> c \<and> c \<le> 102 then goto 520 else goto 0) else goto 520)"

definition uri_st255 :: "int \<Rightarrow> uri_action jump" where [uri_code]:
  "uri_st255 c =
     (if c = 33 then goto 255 else if c = 37 then goto 256 else if c = 61 then goto 255 else
      if c = 64 then uri_tr263 else if c = 95 then goto 255 else if c = 126 then goto 255 else
      if c < 48 then (if 36 \<le> c \<and> c \<le> 46 then goto 255 else goto 0)
      else if c > 59 then (if c > 90 then (if 97 \<le> c \<and> c \<le> 122 then goto 255 else goto 0)
        else if c \<ge> 65 then goto 255 else goto 0)
      else goto 255)"

definition uri_st256 :: "int \<Rightarrow> uri_action jump" where [uri_code]:
  "uri_st256 c =
     (if c < 65 then (if 48 \<le> c \<and> c \<le> 57 then goto 257 else goto 0)
      else if c > 70 then (if 97 \<le> c \<and> c \<le> 102 then goto 257 else goto 0) else goto 257)"

definition uri_st257 :: "int \<Rightarrow> uri_action jump" where [uri_code]:
  "uri_st257 c =
     (if c < 65 then (if 48 \<le> c \<and> c \<le> 57 then goto 255 else goto 0)
      else if c > 70 then (if 97 \<le> c \<and> c \<le> 102 then goto 255 else goto 0) else goto 255)"

definition uri_st258 :: "int \<Rightarrow> uri_action jump" where [uri_code]:
  "uri_st258 c =
     (if c < 65 then (if 48 \<le> c \<and> c \<le> 57 then goto 259 else goto 0)
      else if c > 70 then (if 97 \<le> c \<and> c \<le> 102 then goto 259 else goto 0) else goto 259)"

definition uri_st259 :: "int \<Rightarrow> uri_action jump" where [uri_code]:
  "uri_st259 c =
     (if c < 65 then (if 48 \<le> c \<and> c \<le> 57 then goto 523 else goto 0)
      else if c > 70 then (if 97 \<le> c \<and> c \<le> 102 then goto 523 else goto 0) else goto 523)"

definition uri_st260 :: "int \<Rightarrow> uri_action jump" where [uri_code]:
  "uri_st260 c =
     (if c = 58 then goto 368 else if c = 118 then goto 447 else
      if c < 65 then (if 48 \<le> c \<and> c \<le> 57 then goto 261 else goto 0)
      else if c > 70 then (if 97 \<le> c \<and> c \<le> 102 then goto 261 else goto 0) else goto 261)"

definition uri_st261 :: "int \<Rightarrow> uri_action jump" where [uri_code]:
  "uri_st261 c =
     (if c = 58 then goto 265 else
      if c < 65 then (if 48 \<le> c \<and> c \<le> 57 then goto 262 else goto 0)
      else if c > 70 then (if 97 \<le> c \<and> c \<le> 102 then goto 262 else goto 0) else goto 262)"

definition uri_st262 :: "int \<Rightarrow> uri_action jump" where [uri_code]:
  "uri_st262 c =
     (if c = 58 then goto 265 else
      if c < 65 then (if 48 \<le> c \<and> c \<le> 57 then goto 263 else goto 0)
      else if c > 70 then (if 97 \<le> c \<and> c \<le> 102 then goto 263 else goto 0) else goto 263)"

definition uri_st263 :: "int \<Rightarrow> uri_action jump" where [uri_code]:
  "uri_st263 c =
     (if c = 58 then goto 265 else
      if c < 65 then (if 48 \<le> c \<and> c \<le> 57 then goto 264 else goto 0)
      else if c > 70 then (if 97 \<le> c \<and> c \<le> 102 then goto 264 else goto 0) else goto 264)"

definition uri_st264 :: "int \<Rightarrow> uri_action jump" where [uri_code]:
  "uri_st264 c =
     (if c = 58 then goto 265 else goto 0)"

definition uri_st265 :: "int \<Rightarrow> uri_action jump" where [uri_code]:
  "uri_st265 c =
     (if c = 58 then goto 363 else
      if c < 65 then (if 48 \<le> c \<and> c \<le> 57 then goto 266 else goto 0)
      else if c > 70 then (if 97 \<le> c \<and> c \<le> 102 then goto 266 else goto 0) else goto 266)"

definition uri_st266 :: "int \<Rightarrow> uri_action jump" where [uri_code]:
  "uri_st266 c =
     (if c = 58 then goto 270 else
      if c < 65 then (if 48 \<le> c \<and> c \<le> 57 then goto 267 else goto 0)
      else if c > 70 then (if 97 \<le> c \<and> c \<le> 102 then goto 267 else goto 0) else goto 267)"

definition uri_st267 :: "int \<Rightarrow> uri_action jump" where [uri_code]:
  "uri_st267 c =
     (if c = 58 then goto 270 else
      if c < 65 then (if 48 \<le> c \<and> c \<le> 57 then goto 268 else goto 0)
      else if c > 70 then (if 97 \<le> c \<and> c \<le> 102 then goto 268 else goto 0) else goto 268)"

definition uri_st268 :: "int \<Rightarrow> uri_action jump" where [uri_code]:
  "uri_st268 c =
     (if c = 58 then goto 270 else
      if c < 65 then (if 48 \<le> c \<and> c \<le> 57 then goto 269 else goto 0)
      else if c > 70 then (if 97 \<le> c \<and> c \<le> 102 then goto 269 else goto 0) else goto 269)"

definition uri_st269 :: "int \<Rightarrow> uri_action jump" where [uri_code]:
  "uri_st269 c =
     (if c = 58 then goto 270 else goto 0)"

definition uri_st270 :: "int \<Rightarrow> uri_action jump" where [uri_code]:
  "uri_st270 c =
     (if c = 58 then goto 358 else
      if c < 65 then (if 48 \<le> c \<and> c \<le> 57 then goto 271 else goto 0)
      else if c > 70 then (if 97 \<le> c \<and> c \<le> 102 then goto 271 else goto 0) else goto 271)"

definition uri_st271 :: "int \<Rightarrow> uri_action jump" where [uri_code]:
  "uri_st271 c =
     (if c = 58 then goto 275 else
      if c < 65 then (if 48 \<le> c \<and> c \<le> 57 then goto 272 else goto 0)
      else if c > 70 then (if 97 \<le> c \<and> c \<le> 102 then goto 272 else goto 0) else goto 272)"

definition uri_st272 :: "int \<Rightarrow> uri_action jump" where [uri_code]:
  "uri_st272 c =
     (if c = 58 then goto 275 else
      if c < 65 then (if 48 \<le> c \<and> c \<le> 57 then goto 273 else goto 0)
      else if c > 70 then (if 97 \<le> c \<and> c \<le> 102 then goto 273 else goto 0) else goto 273)"

definition uri_st273 :: "int \<Rightarrow> uri_action jump" where [uri_code]:
  "uri_st273 c =
     (if c = 58 then goto 275 else
      if c < 65 then (if 48 \<le> c \<and> c \<le> 57 then goto 274 else goto 0)
      else if c > 70 then (if 97 \<le> c \<and> c \<le> 102 then goto 274 else goto 0) else goto 274)"

definition uri_st274 :: "int \<Rightarrow> uri_action jump" where [uri_code]:
  "uri_st274 c =
     (if c = 58 then goto 275 else goto 0)"

definition uri_st275 :: "int \<Rightarrow> uri_action jump" where [uri_code]:
  "uri_st275 c =
     (if c = 58 then goto 353 else
      if c < 65 then (if 48 \<le> c \<and> c \<le> 57 then goto 276 else goto 0)
      else if c > 70 then (if 97 \<le> c \<and> c \<le> 102 then goto 276 else goto 0) else goto 276)"

definition uri_st276 :: "int \<Rightarrow> uri_action jump" where [uri_code]:
  "uri_st276 c =
     (if c = 58 then goto 280 else
      if c < 65 then (if 48 \<le> c \<and> c \<le> 57 then goto 277 else goto 0)
      else if c > 70 then (if 97 \<le> c \<and> c \<le> 102 then goto 277 else goto 0) else goto 277)"

definition uri_st277 :: "int \<Rightarrow> uri_action jump" where [uri_code]:
  "uri_st277 c =
     (if c = 58 then goto 280 else
      if c < 65 then (if 48 \<le> c \<and> c \<le> 57 then goto 278 else goto 0)
      else if c > 70 then (if 97 \<le> c \<and> c \<le> 102 then goto 278 else goto 0) else goto 278)"

definition uri_st278 :: "int \<Rightarrow> uri_action jump" where [uri_code]:
  "uri_st278 c =
     (if c = 58 then goto 280 else
      if c < 65 then (if 48 \<le> c \<and> c \<le> 57 then goto 279 else goto 0)
      else if c > 70 then (if 97 \<le> c \<and> c \<le> 102 then goto 279 else goto 0) else goto 279)"

definition uri_st279 :: "int \<Rightarrow> uri_action jump" where [uri_code]:
  "uri_st279 c =
     (if c = 58 then goto 280 else goto 0)"

definition uri_st280 :: "int \<Rightarrow> uri_action jump" where [uri_code]:
  "uri_st280 c =
     (if c = 58 then goto 348 else
      if c < 65 then (if 48 \<le> c \<and> c \<le> 57 then goto 281 else goto 0)
      else if c > 70 then (if 97 \<le> c \<and> c \<le> 102 then goto 281 else goto 0) else goto 281)"

definition uri_st281 :: "int \<Rightarrow> uri_action jump" where [uri_code]:
  "uri_st281 c =
     (if c = 58 then goto 285 else
      if c < 65 then (if 48 \<le> c \<and> c \<le> 57 then goto 282 else goto 0)
      else if c > 70 then (if 97 \<le> c \<and> c \<le> 102 then goto 282 else goto 0) else goto 282)"

definition uri_st282 :: "int \<Rightarrow> uri_action jump" where [uri_code]:
  "uri_st282 c =
     (if c = 58 then goto 285 else
      if c < 65 then (if 48 \<le> c \<and> c \<le> 57 then goto 283 else goto 0)
      else if c > 70 then (if 97 \<le> c \<and> c \<le> 102 then goto 283 else goto 0) else goto 283)"

definition uri_st283 :: "int \<Rightarrow> uri_action jump" where [uri_code]:
  "uri_st283 c =
     (if c = 58 then goto 285 else
      if c < 65 then (if 48 \<le> c \<and> c \<le> 57 then goto 284 else goto 0)
      else if c > 70 then (if 97 \<le> c \<and> c \<le> 102 then goto 284 else goto 0) else goto 284)"

definition uri_st284 :: "int \<Rightarrow> uri_action jump" where [uri_code]:
  "uri_st284 c =
     (if c = 58 then goto 285 else goto 0)"

definition uri_st285 :: "int \<Rightarrow> uri_action jump" where [uri_code]:
  "uri_st285 c =
     (if c = 58 then goto 335 else
      if c < 65 then (if 48 \<le> c \<and> c \<le> 57 then goto 286 else goto 0)
      else if c > 70 then (if 97 \<le> c \<and> c \<le> 102 then goto 286 else goto 0) else goto 286)"

definition uri_st286 :: "int \<Rightarrow> uri_action jump" where [uri_code]:
  "uri_st286 c =
     (if c = 58 then goto 290 else
      if c < 65 then (if 48 \<le> c \<and> c \<le> 57 then goto 287 else goto 0)
      else if c > 70 then (if 97 \<le> c \<and> c \<le> 102 then goto 287 else goto 0) else goto 287)"

definition uri_st287 :: "int \<Rightarrow> uri_action jump" where [uri_code]:
  "uri_st287 c =
     (if c = 58 then goto 290 else
      if c < 65 then (if 48 \<le> c \<and> c \<le> 57 then goto 288 else goto 0)
      else if c > 70 then (if 97 \<le> c \<and> c \<le> 102 then goto 288 else goto 0) else goto 288)"

definition uri_st288 :: "int \<Rightarrow> uri_action jump" where [uri_code]:
  "uri_st288 c =
     (if c = 58 then goto 290 else
      if c < 65 then (if 48 \<le> c \<and> c \<le> 57 then goto 289 else goto 0)
      else if c > 70 then (if 97 \<le> c \<and> c \<le> 102 then goto 289 else goto 0) else goto 289)"

definition uri_st289 :: "int \<Rightarrow> uri_action jump" where [uri_code]:
  "uri_st289 c =
     (if c = 58 then goto 290 else goto 0)"

definition uri_st290 :: "int \<Rightarrow> uri_action jump" where [uri_code]:
  "uri_st290 c =
     (if c = 2 then goto 291 else if c = 48 then goto 318 else if c = 49 then goto 326 else
      if c = 50 then goto 329 else if c = 58 then goto 333 else
      if c < 65 then (if 51 \<le> c \<and> c \<le> 57 then goto 332 else goto 0)
      else if c > 70 then (if 97 \<le> c \<and> c \<le> 102 then goto 334 else goto 0) else goto 334)"

definition uri_st291 :: "int \<Rightarrow> uri_action jump" where [uri_code]:
  "uri_st291 c =
     (if 48 \<le> c \<and> c \<le> 52 then goto 292 else goto 0)"

definition uri_st292 :: "int \<Rightarrow> uri_action jump" where [uri_code]:
  "uri_st292 c =
     (if 48 \<le> c \<and> c \<le> 57 then goto 293 else goto 0)"

definition uri_st293 :: "int \<Rightarrow> uri_action jump" where [uri_code]:
  "uri_st293 c =
     (if c = 46 then goto 294 else goto 0)"

definition uri_st294 :: "int \<Rightarrow> uri_action jump" where [uri_code]:
  "uri_st294 c =
     (if c = 2 then goto 295 else if c = 48 then goto 297 else if c = 49 then goto 314 else
      if c = 50 then goto 316 else if 51 \<le> c \<and> c \<le> 57 then goto 315 else goto 0)"

definition uri_st295 :: "int \<Rightarrow> uri_action jump" where [uri_code]:
  "uri_st295 c =
     (if 48 \<le> c \<and> c \<le> 52 then goto 296 else goto 0)"

definition uri_st296 :: "int \<Rightarrow> uri_action jump" where [uri_code]:
  "uri_st296 c =
     (if 48 \<le> c \<and> c \<le> 57 then goto 297 else goto 0)"

definition uri_st297 :: "int \<Rightarrow> uri_action jump" where [uri_code]:
  "uri_st297 c =
     (if c = 46 then goto 298 else goto 0)"

definition uri_st298 :: "int \<Rightarrow> uri_action jump" where [uri_code]:
  "uri_st298 c =
     (if c = 2 then goto 299 else if c = 48 then goto 301 else if c = 49 then goto 310 else
      if c = 50 then goto 312 else if 51 \<le> c \<and> c \<le> 57 then goto 311 else goto 0)"

definition uri_st299 :: "int \<Rightarrow> uri_action jump" where [uri_code]:
  "uri_st299 c =
     (if 48 \<le> c \<and> c \<le> 52 then goto 300 else goto 0)"

definition uri_st300 :: "int \<Rightarrow> uri_action jump" where [uri_code]:
  "uri_st300 c =
     (if 48 \<le> c \<and> c \<le> 57 then goto 301 else goto 0)"

definition uri_st301 :: "int \<Rightarrow> uri_action jump" where [uri_code]:
  "uri_st301 c =
     (if c = 46 then goto 302 else goto 0)"

definition uri_st302 :: "int \<Rightarrow> uri_action jump" where [uri_code]:
  "uri_st302 c =
     (if c = 2 then goto 303 else if c = 48 then goto 305 else if c = 49 then goto 306 else
      if c = 50 then goto 308 else if 51 \<le> c \<and> c \<le> 57 then goto 307 else goto 0)"

definition uri_st303 :: "int \<Rightarrow> uri_action jump" where [uri_code]:
  "uri_st303 c =
     (if 48 \<le> c \<and> c \<le> 52 then goto 304 else goto 0)"

definition uri_st304 :: "int \<Rightarrow> uri_action jump" where [uri_code]:
  "uri_st304 c =
     (if 48 \<le> c \<and> c \<le> 57 then goto 305 else goto 0)"

definition uri_st305 :: "int \<Rightarrow> uri_action jump" where [uri_code]:
  "uri_st305 c =
     (if c = 93 then goto 512 else goto 0)"

definition uri_st306 :: "int \<Rightarrow> uri_action jump" where [uri_code]:
  "uri_st306 c =
     (if c = 93 then goto 512 else if 48 \<le> c \<and> c \<le> 57 then goto 307 else goto 0)"

definition uri_st307 :: "int \<Rightarrow> uri_action jump" where [uri_code]:
  "uri_st307 c =
     (if c = 93 then goto 512 else if 48 \<le> c \<and> c \<le> 57 then goto 305 else goto 0)"

definition uri_st308 :: "int \<Rightarrow> uri_action jump" where [uri_code]:
  "uri_st308 c =
     (if c = 53 then goto 309 else if c = 93 then goto 512 else
      if 48 \<le> c \<and> c \<le> 57 then goto 305 else goto 0)"

definition uri_st309 :: "int \<Rightarrow> uri_action jump" where [uri_code]:
  "uri_st309 c =
     (if c = 93 then goto 512 else if 48 \<le> c \<and> c \<le> 53 then goto 305 else goto 0)"

definition uri_st310 :: "int \<Rightarrow> uri_action jump" where [uri_code]:
  "uri_st310 c =
     (if c = 46 then goto 302 else if 48 \<le> c \<and> c \<le> 57 then goto 311 else goto 0)"

definition uri_st311 :: "int \<Rightarrow> uri_action jump" where [uri_code]:
  "uri_st311 c =
     (if c = 46 then goto 302 else if 48 \<le> c \<and> c \<le> 57 then goto 301 else goto 0)"

definition uri_st312 :: "int \<Rightarrow> uri_action jump" where [uri_code]:
  "uri_st312 c =
     (if c = 46 then goto 302 else if c = 53 then goto 313 else
      if 48 \<le> c \<and> c \<le> 57 then goto 301 else goto 0)"

definition uri_st313 :: "int \<Rightarrow> uri_action jump" where [uri_code]:
  "uri_st313 c =
     (if c = 46 then goto 302 else if 48 \<le> c \<and> c \<le> 53 then goto 301 else goto 0)"

definition uri_st314 :: "int \<Rightarrow> uri_action jump" where [uri_code]:
  "uri_st314 c =
     (if c = 46 then goto 298 else if 48 \<le> c \<and> c \<le> 57 then goto 315 else goto 0)"

definition uri_st315 :: "int \<Rightarrow> uri_action jump" where [uri_code]:
  "uri_st315 c =
     (if c = 46 then goto 298 else if 48 \<le> c \<and> c \<le> 57 then goto 297 else goto 0)"

definition uri_st316 :: "int \<Rightarrow> uri_action jump" where [uri_code]:
  "uri_st316 c =
     (if c = 46 then goto 298 else if c = 53 then goto 317 else
      if 48 \<le> c \<and> c \<le> 57 then goto 297 else goto 0)"

definition uri_st317 :: "int \<Rightarrow> uri_action jump" where [uri_code]:
  "uri_st317 c =
     (if c = 46 then goto 298 else if 48 \<le> c \<and> c \<le> 53 then goto 297 else goto 0)"

definition uri_st318 :: "int \<Rightarrow> uri_action jump" where [uri_code]:
  "uri_st318 c =
     (if c = 46 then goto 294 else if c = 58 then goto 322 else
      if c < 65 then (if 48 \<le> c \<and> c \<le> 57 then goto 319 else goto 0)
      else if c > 70 then (if 97 \<le> c \<and> c \<le> 102 then goto 319 else goto 0) else goto 319)"

definition uri_st319 :: "int \<Rightarrow> uri_action jump" where [uri_code]:
  "uri_st319 c =
     (if c = 58 then goto 322 else
      if c < 65 then (if 48 \<le> c \<and> c \<le> 57 then goto 320 else goto 0)
      else if c > 70 then (if 97 \<le> c \<and> c \<le> 102 then goto 320 else goto 0) else goto 320)"

definition uri_st320 :: "int \<Rightarrow> uri_action jump" where [uri_code]:
  "uri_st320 c =
     (if c = 58 then goto 322 else
      if c < 65 then (if 48 \<le> c \<and> c \<le> 57 then goto 321 else goto 0)
      else if c > 70 then (if 97 \<le> c \<and> c \<le> 102 then goto 321 else goto 0) else goto 321)"

definition uri_st321 :: "int \<Rightarrow> uri_action jump" where [uri_code]:
  "uri_st321 c =
     (if c = 58 then goto 322 else goto 0)"

definition uri_st322 :: "int \<Rightarrow> uri_action jump" where [uri_code]:
  "uri_st322 c =
     (if c = 58 then goto 305 else
      if c < 65 then (if 48 \<le> c \<and> c \<le> 57 then goto 323 else goto 0)
      else if c > 70 then (if 97 \<le> c \<and> c \<le> 102 then goto 323 else goto 0) else goto 323)"

definition uri_st323 :: "int \<Rightarrow> uri_action jump" where [uri_code]:
  "uri_st323 c =
     (if c = 93 then goto 512 else
      if c < 65 then (if 48 \<le> c \<and> c \<le> 57 then goto 324 else goto 0)
      else if c > 70 then (if 97 \<le> c \<and> c \<le> 102 then goto 324 else goto 0) else goto 324)"

definition uri_st324 :: "int \<Rightarrow> uri_action jump" where [uri_code]:
  "uri_st324 c =
     (if c = 93 then goto 512 else
      if c < 65 then (if 48 \<le> c \<and> c \<le> 57 then goto 325 else goto 0)
      else if c > 70 then (if 97 \<le> c \<and> c \<le> 102 then goto 325 else goto 0) else goto 325)"

definition uri_st325 :: "int \<Rightarrow> uri_action jump" where [uri_code]:
  "uri_st325 c =
     (if c = 93 then goto 512 else
      if c < 65 then (if 48 \<le> c \<and> c \<le> 57 then goto 305 else goto 0)
      else if c > 70 then (if 97 \<le> c \<and> c \<le> 102 then goto 305 else goto 0) else goto 305)"

definition uri_st326 :: "int \<Rightarrow> uri_action jump" where [uri_code]:
  "uri_st326 c =
     (if c = 46 then goto 294 else if c = 58 then goto 322 else
      if c < 65 then (if 48 \<le> c \<and> c \<le> 57 then goto 327 else goto 0)
      else if c > 70 then (if 97 \<le> c \<and> c \<le> 102 then goto 319 else goto 0) else goto 319)"

definition uri_st327 :: "int \<Rightarrow> uri_action jump" where [uri_code]:
  "uri_st327 c =
     (if c = 46 then goto 294 else if c = 58 then goto 322 else
      if c < 65 then (if 48 \<le> c \<and> c \<le> 57 then goto 328 else goto 0)
      else if c > 70 then (if 97 \<le> c \<and> c \<le> 102 then goto 320 else goto 0) else goto 320)"

definition uri_st328 :: "int \<Rightarrow> uri_action jump" where [uri_code]:
  "uri_st328 c =
     (if c = 46 then goto 294 else if c = 58 then goto 322 else
      if c < 65 then (if 48 \<le> c \<and> c \<le> 57 then goto 321 else goto 0)
      else if c > 70 then (if 97 \<le> c \<and> c \<le> 102 then goto 321 else goto 0) else goto 321)"

definition uri_st329 :: "int \<Rightarrow> uri_action jump" where [uri_code]:
  "uri_st329 c =
     (if c = 46 then goto 294 else if c = 53 then goto 331 else if c = 58 then goto 322 else
      if c < 65 then (if 48 \<le> c \<and> c \<le> 57 then goto 330 else goto 0)
      else if c > 70 then (if 97 \<le> c \<and> c \<le> 102 then goto 319 else goto 0) else goto 319)"

definition uri_st330 :: "int \<Rightarrow> uri_action jump" where [uri_code]:
  "uri_st330 c =
     (if c = 46 then goto 294 else if c = 58 then goto 322 else
      if c < 65 then (if 48 \<le> c \<and> c \<le> 57 then goto 320 else goto 0)
      else if c > 70 then (if 97 \<le> c \<and> c \<le> 102 then goto 320 else goto 0) else goto 320)"

definition uri_st331 :: "int \<Rightarrow> uri_action jump" where [uri_code]:
  "uri_st331 c =
     (if c = 46 then goto 294 else if c = 58 then goto 322 else
      if c < 54 then (if 48 \<le> c \<and> c \<le> 53 then goto 328 else goto 0)
      else if c > 57 then (if c > 70 then (if 97 \<le> c \<and> c \<le> 102 then goto 320 else goto 0)
        else if c \<ge> 65 then goto 320 else goto 0)
      else goto 320)"

definition uri_st332 :: "int \<Rightarrow> uri_action jump" where [uri_code]:
  "uri_st332 c =
     (if c = 46 then goto 294 else if c = 58 then goto 322 else
      if c < 65 then (if 48 \<le> c \<and> c \<le> 57 then goto 330 else goto 0)
      else if c > 70 then (if 97 \<le> c \<and> c \<le> 102 then goto 319 else goto 0) else goto 319)"

definition uri_st333 :: "int \<Rightarrow> uri_action jump" where [uri_code]:
  "uri_st333 c =
     (if c < 65 then (if 48 \<le> c \<and> c \<le> 57 then goto 323 else goto 0)
      else if c > 70 then (if 97 \<le> c \<and> c \<le> 102 then goto 323 else goto 0) else goto 323)"

definition uri_st334 :: "int \<Rightarrow> uri_action jump" where [uri_code]:
  "uri_st334 c =
     (if c = 58 then goto 322 else
      if c < 65 then (if 48 \<le> c \<and> c \<le> 57 then goto 319 else goto 0)
      else if c > 70 then (if 97 \<le> c \<and> c \<le> 102 then goto 319 else goto 0) else goto 319)"

definition uri_st335 :: "int \<Rightarrow> uri_action jump" where [uri_code]:
  "uri_st335 c =
     (if c = 2 then goto 291 else if c = 48 then goto 336 else if c = 49 then goto 340 else
      if c = 50 then goto 343 else
      if c < 65 then (if 51 \<le> c \<and> c \<le> 57 then goto 346 else goto 0)
      else if c > 70 then (if 97 \<le> c \<and> c \<le> 102 then goto 347 else goto 0) else goto 347)"

definition uri_st336 :: "int \<Rightarrow> uri_action jump" where [uri_code]:
  "uri_st336 c =
     (if c = 46 then goto 294 else if c = 58 then goto 333 else
      if c < 65 then (if 48 \<le> c \<and> c \<le> 57 then goto 337 else goto 0)
      else if c > 70 then (if 97 \<le> c \<and> c \<le> 102 then goto 337 else goto 0) else goto 337)"

definition uri_st337 :: "int \<Rightarrow> uri_action jump" where [uri_code]:
  "uri_st337 c =
     (if c = 58 then goto 333 else
      if c < 65 then (if 48 \<le> c \<and> c \<le> 57 then goto 338 else goto 0)
      else if c > 70 then (if 97 \<le> c \<and> c \<le> 102 then goto 338 else goto 0) else goto 338)"

definition uri_st338 :: "int \<Rightarrow> uri_action jump" where [uri_code]:
  "uri_st338 c =
     (if c = 58 then goto 333 else
      if c < 65 then (if 48 \<le> c \<and> c \<le> 57 then goto 339 else goto 0)
      else if c > 70 then (if 97 \<le> c \<and> c \<le> 102 then goto 339 else goto 0) else goto 339)"

definition uri_st339 :: "int \<Rightarrow> uri_action jump" where [uri_code]:
  "uri_st339 c =
     (if c = 58 then goto 333 else goto 0)"

definition uri_st340 :: "int \<Rightarrow> uri_action jump" where [uri_code]:
  "uri_st340 c =
     (if c = 46 then goto 294 else if c = 58 then goto 333 else
      if c < 65 then (if 48 \<le> c \<and> c \<le> 57 then goto 341 else goto 0)
      else if c > 70 then (if 97 \<le> c \<and> c \<le> 102 then goto 337 else goto 0) else goto 337)"

definition uri_st341 :: "int \<Rightarrow> uri_action jump" where [uri_code]:
  "uri_st341 c =
     (if c = 46 then goto 294 else if c = 58 then goto 333 else
      if c < 65 then (if 48 \<le> c \<and> c \<le> 57 then goto 342 else goto 0)
      else if c > 70 then (if 97 \<le> c \<and> c \<le> 102 then goto 338 else goto 0) else goto 338)"

definition uri_st342 :: "int \<Rightarrow> uri_action jump" where [uri_code]:
  "uri_st342 c =
     (if c = 46 then goto 294 else if c = 58 then goto 333 else
      if c < 65 then (if 48 \<le> c \<and> c \<le> 57 then goto 339 else goto 0)
      else if c > 70 then (if 97 \<le> c \<and> c \<le> 102 then goto 339 else goto 0) else goto 339)"

definition uri_st343 :: "int \<Rightarrow> uri_action jump" where [uri_code]:
  "uri_st343 c =
     (if c = 46 then goto 294 else if c = 53 then goto 345 else if c = 58 then goto 333 else
      if c < 65 then (if 48 \<le> c \<and> c \<le> 57 then goto 344 else goto 0)
      else if c > 70 then (if 97 \<le> c \<and> c \<le> 102 then goto 337 else goto 0) else goto 337)"

definition uri_st344 :: "int \<Rightarrow> uri_action jump" where [uri_code]:
  "uri_st344 c =
     (if c = 46 then goto 294 else if c = 58 then goto 333 else
      if c < 65 then (if 48 \<le> c \<and> c \<le> 57 then goto 338 else goto 0)
      else if c > 70 then (if 97 \<le> c \<and> c \<le> 102 then goto 338 else goto 0) else goto 338)"

definition uri_st345 :: "int \<Rightarrow> uri_action jump" where [uri_code]:
  "uri_st345 c =
     (if c = 46 then goto 294 else if c = 58 then goto 333 else
      if c < 54 then (if 48 \<le> c \<and> c \<le> 53 then goto 342 else goto 0)
      else if c > 57 then (if c > 70 then (if 97 \<le> c \<and> c \<le> 102 then goto 338 else goto 0)
        else if c \<ge> 65 then goto 338 else goto 0)
      else goto 338)"

definition uri_st346 :: "int \<Rightarrow> uri_action jump" where [uri_code]:
  "uri_st346 c =
     (if c = 46 then goto 294 else if c = 58 then goto 333 else
      if c < 65 then (if 48 \<le> c \<and> c \<le> 57 then goto 344 else goto 0)
      else if c > 70 then (if 97 \<le> c \<and> c \<le> 102 then goto 337 else goto 0) else goto 337)"

definition uri_st347 :: "int \<Rightarrow> uri_action jump" where [uri_code]:
  "uri_st347 c =
     (if c = 58 then goto 333 else
      if c < 65 then (if 48 \<le> c \<and> c \<le> 57 then goto 337 else goto 0)
      else if c > 70 then (if 97 \<le> c \<and> c \<le> 102 then goto 337 else goto 0) else goto 337)"

definition uri_st348 :: "int \<Rightarrow> uri_action jump" where [uri_code]:
  "uri_st348 c =
     (if c < 65 then (if 48 \<le> c \<and> c \<le> 57 then goto 349 else goto 0)
      else if c > 70 then (if 97 \<le> c \<and> c \<le> 102 then goto 349 else goto 0) else goto 349)"

definition uri_st349 :: "int \<Rightarrow> uri_action jump" where [uri_code]:
  "uri_st349 c =
     (if c = 58 then goto 335 else
      if c < 65 then (if 48 \<le> c \<and> c \<le> 57 then goto 350 else goto 0)
      else if c > 70 then (if 97 \<le> c \<and> c \<le> 102 then goto 350 else goto 0) else goto 350)"

definition uri_st350 :: "int \<Rightarrow> uri_action jump" where [uri_code]:
  "uri_st350 c =
     (if c = 58 then goto 335 else
      if c < 65 then (if 48 \<le> c \<and> c \<le> 57 then goto 351 else goto 0)
      else if c > 70 then (if 97 \<le> c \<and> c \<le> 102 then goto 351 else goto 0) else goto 351)"

definition uri_st351 :: "int \<Rightarrow> uri_action jump" where [uri_code]:
  "uri_st351 c =
     (if c = 58 then goto 335 else
      if c < 65 then (if 48 \<le> c \<and> c \<le> 57 then goto 352 else goto 0)
      else if c > 70 then (if 97 \<le> c \<and> c \<le> 102 then goto 352 else goto 0) else goto 352)"

definition uri_st352 :: "int \<Rightarrow> uri_action jump" where [uri_code]:
  "uri_st352 c =
     (if c = 58 then goto 335 else goto 0)"

definition uri_st353 :: "int \<Rightarrow> uri_action jump" where [uri_code]:
  "uri_st353 c =
     (if c < 65 then (if 48 \<le> c \<and> c \<le> 57 then goto 354 else goto 0)
      else if c > 70 then (if 97 \<le> c \<and> c \<le> 102 then goto 354 else goto 0) else goto 354)"

definition uri_st354 :: "int \<Rightarrow> uri_action jump" where [uri_code]:
  "uri_st354 c =
     (if c = 58 then goto 348 else
      if c < 65 then (if 48 \<le> c \<and> c \<le> 57 then goto 355 else goto 0)
      else if c > 70 then (if 97 \<le> c \<and> c \<le> 102 then goto 355 else goto 0) else goto 355)"

definition uri_st355 :: "int \<Rightarrow> uri_action jump" where [uri_code]:
  "uri_st355 c =
     (if c = 58 then goto 348 else
      if c < 65 then (if 48 \<le> c \<and> c \<le> 57 then goto 356 else goto 0)
      else if c > 70 then (if 97 \<le> c \<and> c \<le> 102 then goto 356 else goto 0) else goto 356)"

definition uri_st356 :: "int \<Rightarrow> uri_action jump" where [uri_code]:
  "uri_st356 c =
     (if c = 58 then goto 348 else
      if c < 65 then (if 48 \<le> c \<and> c \<le> 57 then goto 357 else goto 0)
      else if c > 70 then (if 97 \<le> c \<and> c \<le> 102 then goto 357 else goto 0) else goto 357)"

definition uri_st357 :: "int \<Rightarrow> uri_action jump" where [uri_code]:
  "uri_st357 c =
     (if c = 58 then goto 348 else goto 0)"

definition uri_st358 :: "int \<Rightarrow> uri_action jump" where [uri_code]:
  "uri_st358 c =
     (if c < 65 then (if 48 \<le> c \<and> c \<le> 57 then goto 359 else goto 0)
      else if c > 70 then (if 97 \<le> c \<and> c \<le> 102 then goto 359 else goto 0) else goto 359)"

definition uri_st359 :: "int \<Rightarrow> uri_action jump" where [uri_code]:
  "uri_st359 c =
     (if c = 58 then goto 353 else
      if c < 65 then (if 48 \<le> c \<and> c \<le> 57 then goto 360 else goto 0)
      else if c > 70 then (if 97 \<le> c \<and> c \<le> 102 then goto 360 else goto 0) else goto 360)"

definition uri_st360 :: "int \<Rightarrow> uri_action jump" where [uri_code]:
  "uri_st360 c =
     (if c = 58 then goto 353 else
      if c < 65 then (if 48 \<le> c \<and> c \<le> 57 then goto 361 else goto 0)
      else if c > 70 then (if 97 \<le> c \<and> c \<le> 102 then goto 361 else goto 0) else goto 361)"

definition uri_st361 :: "int \<Rightarrow> uri_action jump" where [uri_code]:
  "uri_st361 c =
     (if c = 58 then goto 353 else
      if c < 65 then (if 48 \<le> c \<and> c \<le> 57 then goto 362 else goto 0)
      else if c > 70 then (if 97 \<le> c \<and> c \<le> 102 then goto 362 else goto 0) else goto 362)"

definition uri_st362 :: "int \<Rightarrow> uri_action jump" where [uri_code]:
  "uri_st362 c =
     (if c = 58 then goto 353 else goto 0)"

definition uri_st363 :: "int \<Rightarrow> uri_action jump" where [uri_code]:
  "uri_st363 c =
     (if c < 65 then (if 48 \<le> c \<and> c \<le> 57 then goto 364 else goto 0)
      else if c > 70 then (if 97 \<le> c \<and> c \<le> 102 then goto 364 else goto 0) else goto 364)"

definition uri_st364 :: "int \<Rightarrow> uri_action jump" where [uri_code]:
  "uri_st364 c =
     (if c = 58 then goto 358 else
      if c < 65 then (if 48 \<le> c \<and> c \<le> 57 then goto 365 else goto 0)
      else if c > 70 then (if 97 \<le> c \<and> c \<le> 102 then goto 365 else goto 0) else goto 365)"

definition uri_st365 :: "int \<Rightarrow> uri_action jump" where [uri_code]:
  "uri_st365 c =
     (if c = 58 then goto 358 else
      if c < 65 then (if 48 \<le> c \<and> c \<le> 57 then goto 366 else goto 0)
      else if c > 70 then (if 97 \<le> c \<and> c \<le> 102 then goto 366 else goto 0) else goto 366)"

definition uri_st366 :: "int \<Rightarrow> uri_action jump" where [uri_code]:
  "uri_st366 c =
     (if c = 58 then goto 358 else
      if c < 65 then (if 48 \<le> c \<and> c \<le> 57 then goto 367 else goto 0)
      else if c > 70 then (if 97 \<le> c \<and> c \<le> 102 then goto 367 else goto 0) else goto 367)"

definition uri_st367 :: "int \<Rightarrow> uri_action jump" where [uri_code]:
  "uri_st367 c =
     (if c = 58 then goto 358 else goto 0)"

definition uri_st368 :: "int \<Rightarrow> uri_action jump" where [uri_code]:
  "uri_st368 c =
     (if c = 58 then goto 369 else goto 0)"

definition uri_st369 :: "int \<Rightarrow> uri_action jump" where [uri_code]:
  "uri_st369 c =
     (if c = 2 then goto 291 else if c = 48 then goto 370 else if c = 49 then goto 439 else
      if c = 50 then goto 442 else if c = 93 then goto 512 else
      if c < 65 then (if 51 \<le> c \<and> c \<le> 57 then goto 445 else goto 0)
      else if c > 70 then (if 97 \<le> c \<and> c \<le> 102 then goto 446 else goto 0) else goto 446)"

definition uri_st370 :: "int \<Rightarrow> uri_action jump" where [uri_code]:
  "uri_st370 c =
     (if c = 46 then goto 294 else if c = 58 then goto 374 else if c = 93 then goto 512 else
      if c < 65 then (if 48 \<le> c \<and> c \<le> 57 then goto 371 else goto 0)
      else if c > 70 then (if 97 \<le> c \<and> c \<le> 102 then goto 371 else goto 0) else goto 371)"

definition uri_st371 :: "int \<Rightarrow> uri_action jump" where [uri_code]:
  "uri_st371 c =
     (if c = 58 then goto 374 else if c = 93 then goto 512 else
      if c < 65 then (if 48 \<le> c \<and> c \<le> 57 then goto 372 else goto 0)
      else if c > 70 then (if 97 \<le> c \<and> c \<le> 102 then goto 372 else goto 0) else goto 372)"

definition uri_st372 :: "int \<Rightarrow> uri_action jump" where [uri_code]:
  "uri_st372 c =
     (if c = 58 then goto 374 else if c = 93 then goto 512 else
      if c < 65 then (if 48 \<le> c \<and> c \<le> 57 then goto 373 else goto 0)
      else if c > 70 then (if 97 \<le> c \<and> c \<le> 102 then goto 373 else goto 0) else goto 373)"

definition uri_st373 :: "int \<Rightarrow> uri_action jump" where [uri_code]:
  "uri_st373 c =
     (if c = 58 then goto 374 else if c = 93 then goto 512 else goto 0)"

definition uri_st374 :: "int \<Rightarrow> uri_action jump" where [uri_code]:
  "uri_st374 c =
     (if c = 2 then goto 291 else if c = 48 then goto 375 else if c = 49 then goto 431 else
      if c = 50 then goto 434 else
      if c < 65 then (if 51 \<le> c \<and> c \<le> 57 then goto 437 else goto 0)
      else if c > 70 then (if 97 \<le> c \<and> c \<le> 102 then goto 438 else goto 0) else goto 438)"

definition uri_st375 :: "int \<Rightarrow> uri_action jump" where [uri_code]:
  "uri_st375 c =
     (if c = 46 then goto 294 else if c = 58 then goto 379 else if c = 93 then goto 512 else
      if c < 65 then (if 48 \<le> c \<and> c \<le> 57 then goto 376 else goto 0)
      else if c > 70 then (if 97 \<le> c \<and> c \<le> 102 then goto 376 else goto 0) else goto 376)"

definition uri_st376 :: "int \<Rightarrow> uri_action jump" where [uri_code]:
  "uri_st376 c =
     (if c = 58 then goto 379 else if c = 93 then goto 512 else
      if c < 65 then (if 48 \<le> c \<and> c \<le> 57 then goto 377 else goto 0)
      else if c > 70 then (if 97 \<le> c \<and> c \<le> 102 then goto 377 else goto 0) else goto 377)"

definition uri_st377 :: "int \<Rightarrow> uri_action jump" where [uri_code]:
  "uri_st377 c =
     (if c = 58 then goto 379 else if c = 93 then goto 512 else
      if c < 65 then (if 48 \<le> c \<and> c \<le> 57 then goto 378 else goto 0)
      else if c > 70 then (if 97 \<le> c \<and> c \<le> 102 then goto 378 else goto 0) else goto 378)"

definition uri_st378 :: "int \<Rightarrow> uri_action jump" where [uri_code]:
  "uri_st378 c =
     (if c = 58 then goto 379 else if c = 93 then goto 512 else goto 0)"

definition uri_st379 :: "int \<Rightarrow> uri_action jump" where [uri_code]:
  "uri_st379 c =
     (if c = 2 then goto 291 else if c = 48 then goto 380 else if c = 49 then goto 423 else
      if c = 50 then goto 426 else
      if c < 65 then (if 51 \<le> c \<and> c \<le> 57 then goto 429 else goto 0)
      else if c > 70 then (if 97 \<le> c \<and> c \<le> 102 then goto 430 else goto 0) else goto 430)"

definition uri_st380 :: "int \<Rightarrow> uri_action jump" where [uri_code]:
  "uri_st380 c =
     (if c = 46 then goto 294 else if c = 58 then goto 384 else if c = 93 then goto 512 else
      if c < 65 then (if 48 \<le> c \<and> c \<le> 57 then goto 381 else goto 0)
      else if c > 70 then (if 97 \<le> c \<and> c \<le> 102 then goto 381 else goto 0) else goto 381)"

definition uri_st381 :: "int \<Rightarrow> uri_action jump" where [uri_code]:
  "uri_st381 c =
     (if c = 58 then goto 384 else if c = 93 then goto 512 else
      if c < 65 then (if 48 \<le> c \<and> c \<le> 57 then goto 382 else goto 0)
      else if c > 70 then (if 97 \<le> c \<and> c \<le> 102 then goto 382 else goto 0) else goto 382)"

definition uri_st382 :: "int \<Rightarrow> uri_action jump" where [uri_code]:
  "uri_st382 c =
     (if c = 58 then goto 384 else if c = 93 then goto 512 else
      if c < 65 then (if 48 \<le> c \<and> c \<le> 57 then goto 383 else goto 0)
      else if c > 70 then (if 97 \<le> c \<and> c \<le> 102 then goto 383 else goto 0) else goto 383)"

definition uri_st383 :: "int \<Rightarrow> uri_action jump" where [uri_code]:
  "uri_st383 c =
     (if c = 58 then goto 384 else if c = 93 then goto 512 else goto 0)"

definition uri_st384 :: "int \<Rightarrow> uri_action jump" where [uri_code]:
  "uri_st384 c =
     (if c = 2 then goto 291 else if c = 48 then goto 385 else if c = 49 then goto 415 else
      if c = 50 then goto 418 else
      if c < 65 then (if 51 \<le> c \<and> c \<le> 57 then goto 421 else goto 0)
      else if c > 70 then (if 97 \<le> c \<and> c \<le> 102 then goto 422 else goto 0) else goto 422)"

definition uri_st385 :: "int \<Rightarrow> uri_action jump" where [uri_code]:
  "uri_st385 c =
     (if c = 46 then goto 294 else if c = 58 then goto 389 else if c = 93 then goto 512 else
      if c < 65 then (if 48 \<le> c \<and> c \<le> 57 then goto 386 else goto 0)
      else if c > 70 then (if 97 \<le> c \<and> c \<le> 102 then goto 386 else goto 0) else goto 386)"

definition uri_st386 :: "int \<Rightarrow> uri_action jump" where [uri_code]:
  "uri_st386 c =
     (if c = 58 then goto 389 else if c = 93 then goto 512 else
      if c < 65 then (if 48 \<le> c \<and> c \<le> 57 then goto 387 else goto 0)
      else if c > 70 then (if 97 \<le> c \<and> c \<le> 102 then goto 387 else goto 0) else goto 387)"

definition uri_st387 :: "int \<Rightarrow> uri_action jump" where [uri_code]:
  "uri_st387 c =
     (if c = 58 then goto 389 else if c = 93 then goto 512 else
      if c < 65 then (if 48 \<le> c \<and> c \<le> 57 then goto 388 else goto 0)
      else if c > 70 then (if 97 \<le> c \<and> c \<le> 102 then goto 388 else goto 0) else goto 388)"

definition uri_st388 :: "int \<Rightarrow> uri_action jump" where [uri_code]:
  "uri_st388 c =
     (if c = 58 then goto 389 else if c = 93 then goto 512 else goto 0)"

definition uri_st389 :: "int \<Rightarrow> uri_action jump" where [uri_code]:
  "uri_st389 c =
     (if c = 2 then goto 291 else if c = 48 then goto 390 else if c = 49 then goto 407 else
      if c = 50 then goto 410 else
      if c < 65 then (if 51 \<le> c \<and> c \<le> 57 then goto 413 else goto 0)
      else if c > 70 then (if 97 \<le> c \<and> c \<le> 102 then goto 414 else goto 0) else goto 414)"

definition uri_st390 :: "int \<Rightarrow> uri_action jump" where [uri_code]:
  "uri_st390 c =
     (if c = 46 then goto 294 else if c = 58 then goto 394 else if c = 93 then goto 512 else
      if c < 65 then (if 48 \<le> c \<and> c \<le> 57 then goto 391 else goto 0)
      else if c > 70 then (if 97 \<le> c \<and> c \<le> 102 then goto 391 else goto 0) else goto 391)"

definition uri_st391 :: "int \<Rightarrow> uri_action jump" where [uri_code]:
  "uri_st391 c =
     (if c = 58 then goto 394 else if c = 93 then goto 512 else
      if c < 65 then (if 48 \<le> c \<and> c \<le> 57 then goto 392 else goto 0)
      else if c > 70 then (if 97 \<le> c \<and> c \<le> 102 then goto 392 else goto 0) else goto 392)"

definition uri_st392 :: "int \<Rightarrow> uri_action jump" where [uri_code]:
  "uri_st392 c =
     (if c = 58 then goto 394 else if c = 93 then goto 512 else
      if c < 65 then (if 48 \<le> c \<and> c \<le> 57 then goto 393 else goto 0)
      else if c > 70 then (if 97 \<le> c \<and> c \<le> 102 then goto 393 else goto 0) else goto 393)"

definition uri_st393 :: "int \<Rightarrow> uri_action jump" where [uri_code]:
  "uri_st393 c =
     (if c = 58 then goto 394 else if c = 93 then goto 512 else goto 0)"

definition uri_st394 :: "int \<Rightarrow> uri_action jump" where [uri_code]:
  "uri_st394 c =
     (if c = 2 then goto 291 else if c = 48 then goto 395 else if c = 49 then goto 399 else
      if c = 50 then goto 402 else
      if c < 65 then (if 51 \<le> c \<and> c \<le> 57 then goto 405 else goto 0)
      else if c > 70 then (if 97 \<le> c \<and> c \<le> 102 then goto 406 else goto 0) else goto 406)"

definition uri_st395 :: "int \<Rightarrow> uri_action jump" where [uri_code]:
  "uri_st395 c =
     (if c = 46 then goto 294 else if c = 58 then goto 333 else if c = 93 then goto 512 else
      if c < 65 then (if 48 \<le> c \<and> c \<le> 57 then goto 396 else goto 0)
      else if c > 70 then (if 97 \<le> c \<and> c \<le> 102 then goto 396 else goto 0) else goto 396)"

definition uri_st396 :: "int \<Rightarrow> uri_action jump" where [uri_code]:
  "uri_st396 c =
     (if c = 58 then goto 333 else if c = 93 then goto 512 else
      if c < 65 then (if 48 \<le> c \<and> c \<le> 57 then goto 397 else goto 0)
      else if c > 70 then (if 97 \<le> c \<and> c \<le> 102 then goto 397 else goto 0) else goto 397)"

definition uri_st397 :: "int \<Rightarrow> uri_action jump" where [uri_code]:
  "uri_st397 c =
     (if c = 58 then goto 333 else if c = 93 then goto 512 else
      if c < 65 then (if 48 \<le> c \<and> c \<le> 57 then goto 398 else goto 0)
      else if c > 70 then (if 97 \<le> c \<and> c \<le> 102 then goto 398 else goto 0) else goto 398)"

definition uri_st398 :: "int \<Rightarrow> uri_action jump" where [uri_code]:
  "uri_st398 c =
     (if c = 58 then goto 333 else if c = 93 then goto 512 else goto 0)"

definition uri_st399 :: "int \<Rightarrow> uri_action jump" where [uri_code]:
  "uri_st399 c =
     (if c = 46 then goto 294 else if c = 58 then goto 333 else if c = 93 then goto 512 else
      if c < 65 then (if 48 \<le> c \<and> c \<le> 57 then goto 400 else goto 0)
      else if c > 70 then (if 97 \<le> c \<and> c \<le> 102 then goto 396 else goto 0) else goto 396)"

definition uri_st400 :: "int \<Rightarrow> uri_action jump" where [uri_code]:
  "uri_st400 c =
     (if c = 46 then goto 294 else if c = 58 then goto 333 else if c = 93 then goto 512 else
      if c < 65 then (if 48 \<le> c \<and> c \<le> 57 then goto 401 else goto 0)
      else if c > 70 then (if 97 \<le> c \<and> c \<le> 102 then goto 397 else goto 0) else goto 397)"

definition uri_st401 :: "int \<Rightarrow> uri_action jump" where [uri_code]:
  "uri_st401 c =
     (if c = 46 then goto 294 else if c = 58 then goto 333 else if c = 93 then goto 512 else
      if c < 65 then (if 48 \<le> c \<and> c \<le> 57 then goto 398 else goto 0)
      else if c > 70 then (if 97 \<le> c \<and> c \<le> 102 then goto 398 else goto 0) else goto 398)"

definition uri_st402 :: "int \<Rightarrow> uri_action jump" where [uri_code]:
  "uri_st402 c =
     (if c = 46 then goto 294 else if c = 53 then goto 404 else if c = 58 then goto 333 else
      if c = 93 then goto 512 else
      if c < 65 then (if 48 \<le> c \<and> c \<le> 57 then goto 403 else goto 0)
      else if c > 70 then (if 97 \<le> c \<and> c \<le> 102 then goto 396 else goto 0) else goto 396)"

definition uri_st403 :: "int \<Rightarrow> uri_action jump" where [uri_code]:
  "uri_st403 c =
     (if c = 46 then goto 294 else if c = 58 then goto 333 else if c = 93 then goto 512 else
      if c < 65 then (if 48 \<le> c \<and> c \<le> 57 then goto 397 else goto 0)
      else if c > 70 then (if 97 \<le> c \<and> c \<le> 102 then goto 397 else goto 0) else goto 397)"

definition uri_st404 :: "int \<Rightarrow> uri_action jump" where [uri_code]:
  "uri_st404 c =
     (if c = 46 then goto 294 else if c = 58 then goto 333 else if c = 93 then goto 512 else
      if c < 54 then (if 48 \<le> c \<and> c \<le> 53 then goto 401 else goto 0)
      else if c > 57 then (if c > 70 then (if 97 \<le> c \<and> c \<le> 102 then goto 397 else goto 0)
        else if c \<ge> 65 then goto 397 else goto 0)
      else goto 397)"

definition uri_st405 :: "int \<Rightarrow> uri_action jump" where [uri_code]:
  "uri_st405 c =
     (if c = 46 then goto 294 else if c = 58 then goto 333 else if c = 93 then goto 512 else
      if c < 65 then (if 48 \<le> c \<and> c \<le> 57 then goto 403 else goto 0)
      else if c > 70 then (if 97 \<le> c \<and> c \<le> 102 then goto 396 else goto 0) else goto 396)"

definition uri_st406 :: "int \<Rightarrow> uri_action jump" where [uri_code]:
  "uri_st406 c =
     (if c = 58 then goto 333 else if c = 93 then goto 512 else
      if c < 65 then (if 48 \<le> c \<and> c \<le> 57 then goto 396 else goto 0)
      else if c > 70 then (if 97 \<le> c \<and> c \<le> 102 then goto 396 else goto 0) else goto 396)"

definition uri_st407 :: "int \<Rightarrow> uri_action jump" where [uri_code]:
  "uri_st407 c =
     (if c = 46 then goto 294 else if c = 58 then goto 394 else if c = 93 then goto 512 else
      if c < 65 then (if 48 \<le> c \<and> c \<le> 57 then goto 408 else goto 0)
      else if c > 70 then (if 97 \<le> c \<and> c \<le> 102 then goto 391 else goto 0) else goto 391)"

definition uri_st408 :: "int \<Rightarrow> uri_action jump" where [uri_code]:
  "uri_st408 c =
     (if c = 46 then goto 294 else if c = 58 then goto 394 else if c = 93 then goto 512 else
      if c < 65 then (if 48 \<le> c \<and> c \<le> 57 then goto 409 else goto 0)
      else if c > 70 then (if 97 \<le> c \<and> c \<le> 102 then goto 392 else goto 0) else goto 392)"

definition uri_st409 :: "int \<Rightarrow> uri_action jump" where [uri_code]:
  "uri_st409 c =
     (if c = 46 then goto 294 else if c = 58 then goto 394 else if c = 93 then goto 512 else
      if c < 65 then (if 48 \<le> c \<and> c \<le> 57 then goto 393 else goto 0)
      else if c > 70 then (if 97 \<le> c \<and> c \<le> 102 then goto 393 else goto 0) else goto 393)"

definition uri_st410 :: "int \<Rightarrow> uri_action jump" where [uri_code]:
  "uri_st410 c =
     (if c = 46 then goto 294 else if c = 53 then goto 412 else if c = 58 then goto 394 else
      if c = 93 then goto 512 else
      if c < 65 then (if 48 \<le> c \<and> c \<le> 57 then goto 411 else goto 0)
      else if c > 70 then (if 97 \<le> c \<and> c \<le> 102 then goto 391 else goto 0) else goto 391)"

definition uri_st411 :: "int \<Rightarrow> uri_action jump" where [uri_code]:
  "uri_st411 c =
     (if c = 46 then goto 294 else if c = 58 then goto 394 else if c = 93 then goto 512 else
      if c < 65 then (if 48 \<le> c \<and> c \<le> 57 then goto 392 else goto 0)
      else if c > 70 then (if 97 \<le> c \<and> c \<le> 102 then goto 392 else goto 0) else goto 392)"

definition uri_st412 :: "int \<Rightarrow> uri_action jump" where [uri_code]:
  "uri_st412 c =
     (if c = 46 then goto 294 else if c = 58 then goto 394 else if c = 93 then goto 512 else
      if c < 54 then (if 48 \<le> c \<and> c \<le> 53 then goto 409 else goto 0)
      else if c > 57 then (if c > 70 then (if 97 \<le> c \<and> c \<le> 102 then goto 392 else goto 0)
        else if c \<ge> 65 then goto 392 else goto 0)
      else goto 392)"

definition uri_st413 :: "int \<Rightarrow> uri_action jump" where [uri_code]:
  "uri_st413 c =
     (if c = 46 then goto 294 else if c = 58 then goto 394 else if c = 93 then goto 512 else
      if c < 65 then (if 48 \<le> c \<and> c \<le> 57 then goto 411 else goto 0)
      else if c > 70 then (if 97 \<le> c \<and> c \<le> 102 then goto 391 else goto 0) else goto 391)"

definition uri_st414 :: "int \<Rightarrow> uri_action jump" where [uri_code]:
  "uri_st414 c =
     (if c = 58 then goto 394 else if c = 93 then goto 512 else
      if c < 65 then (if 48 \<le> c \<and> c \<le> 57 then goto 391 else goto 0)
      else if c > 70 then (if 97 \<le> c \<and> c \<le> 102 then goto 391 else goto 0) else goto 391)"

definition uri_st415 :: "int \<Rightarrow> uri_action jump" where [uri_code]:
  "uri_st415 c =
     (if c = 46 then goto 294 else if c = 58 then goto 389 else if c = 93 then goto 512 else
      if c < 65 then (if 48 \<le> c \<and> c \<le> 57 then goto 416 else goto 0)
      else if c > 70 then (if 97 \<le> c \<and> c \<le> 102 then goto 386 else goto 0) else goto 386)"

definition uri_st416 :: "int \<Rightarrow> uri_action jump" where [uri_code]:
  "uri_st416 c =
     (if c = 46 then goto 294 else if c = 58 then goto 389 else if c = 93 then goto 512 else
      if c < 65 then (if 48 \<le> c \<and> c \<le> 57 then goto 417 else goto 0)
      else if c > 70 then (if 97 \<le> c \<and> c \<le> 102 then goto 387 else goto 0) else goto 387)"

definition uri_st417 :: "int \<Rightarrow> uri_action jump" where [uri_code]:
  "uri_st417 c =
     (if c = 46 then goto 294 else if c = 58 then goto 389 else if c = 93 then goto 512 else
      if c < 65 then (if 48 \<le> c \<and> c \<le> 57 then goto 388 else goto 0)
      else if c > 70 then (if 97 \<le> c \<and> c \<le> 102 then goto 388 else goto 0) else goto 388)"

definition uri_st418 :: "int \<Rightarrow> uri_action jump" where [uri_code]:
  "uri_st418 c =
     (if c = 46 then goto 294 else if c = 53 then goto 420 else if c = 58 then goto 389 else
      if c = 93 then goto 512 else
      if c < 65 then (if 48 \<le> c \<and> c \<le> 57 then goto 419 else goto 0)
      else if c > 70 then (if 97 \<le> c \<and> c \<le> 102 then goto 386 else goto 0) else goto 386)"

definition uri_st419 :: "int \<Rightarrow> uri_action jump" where [uri_code]:
  "uri_st419 c =
     (if c = 46 then goto 294 else if c = 58 then goto 389 else if c = 93 then goto 512 else
      if c < 65 then (if 48 \<le> c \<and> c \<le> 57 then goto 387 else goto 0)
      else if c > 70 then (if 97 \<le> c \<and> c \<le> 102 then goto 387 else goto 0) else goto 387)"

definition uri_st420 :: "int \<Rightarrow> uri_action jump" where [uri_code]:
  "uri_st420 c =
     (if c = 46 then goto 294 else if c = 58 then goto 389 else if c = 93 then goto 512 else
      if c < 54 then (if 48 \<le> c \<and> c \<le> 53 then goto 417 else goto 0)
      else if c > 57 then (if c > 70 then (if 97 \<le> c \<and> c \<le> 102 then goto 387 else goto 0)
        else if c \<ge> 65 then goto 387 else goto 0)
      else goto 387)"

definition uri_st421 :: "int \<Rightarrow> uri_action jump" where [uri_code]:
  "uri_st421 c =
     (if c = 46 then goto 294 else if c = 58 then goto 389 else if c = 93 then goto 512 else
      if c < 65 then (if 48 \<le> c \<and> c \<le> 57 then goto 419 else goto 0)
      else if c > 70 then (if 97 \<le> c \<and> c \<le> 102 then goto 386 else goto 0) else goto 386)"

definition uri_st422 :: "int \<Rightarrow> uri_action jump" where [uri_code]:
  "uri_st422 c =
     (if c = 58 then goto 389 else if c = 93 then goto 512 else
      if c < 65 then (if 48 \<le> c \<and> c \<le> 57 then goto 386 else goto 0)
      else if c > 70 then (if 97 \<le> c \<and> c \<le> 102 then goto 386 else goto 0) else goto 386)"

definition uri_st423 :: "int \<Rightarrow> uri_action jump" where [uri_code]:
  "uri_st423 c =
     (if c = 46 then goto 294 else if c = 58 then goto 384 else if c = 93 then goto 512 else
      if c < 65 then (if 48 \<le> c \<and> c \<le> 57 then goto 424 else goto 0)
      else if c > 70 then (if 97 \<le> c \<and> c \<le> 102 then goto 381 else goto 0) else goto 381)"

definition uri_st424 :: "int \<Rightarrow> uri_action jump" where [uri_code]:
  "uri_st424 c =
     (if c = 46 then goto 294 else if c = 58 then goto 384 else if c = 93 then goto 512 else
      if c < 65 then (if 48 \<le> c \<and> c \<le> 57 then goto 425 else goto 0)
      else if c > 70 then (if 97 \<le> c \<and> c \<le> 102 then goto 382 else goto 0) else goto 382)"

definition uri_st425 :: "int \<Rightarrow> uri_action jump" where [uri_code]:
  "uri_st425 c =
     (if c = 46 then goto 294 else if c = 58 then goto 384 else if c = 93 then goto 512 else
      if c < 65 then (if 48 \<le> c \<and> c \<le> 57 then goto 383 else goto 0)
      else if c > 70 then (if 97 \<le> c \<and> c \<le> 102 then goto 383 else goto 0) else goto 383)"

definition uri_st426 :: "int \<Rightarrow> uri_action jump" where [uri_code]:
  "uri_st426 c =
     (if c = 46 then goto 294 else if c = 53 then goto 428 else if c = 58 then goto 384 else
      if c = 93 then goto 512 else
      if c < 65 then (if 48 \<le> c \<and> c \<le> 57 then goto 427 else goto 0)
      else if c > 70 then (if 97 \<le> c \<and> c \<le> 102 then goto 381 else goto 0) else goto 381)"

definition uri_st427 :: "int \<Rightarrow> uri_action jump" where [uri_code]:
  "uri_st427 c =
     (if c = 46 then goto 294 else if c = 58 then goto 384 else if c = 93 then goto 512 else
      if c < 65 then (if 48 \<le> c \<and> c \<le> 57 then goto 382 else goto 0)
      else if c > 70 then (if 97 \<le> c \<and> c \<le> 102 then goto 382 else goto 0) else goto 382)"

definition uri_st428 :: "int \<Rightarrow> uri_action jump" where [uri_code]:
  "uri_st428 c =
     (if c = 46 then goto 294 else if c = 58 then goto 384 else if c = 93 then goto 512 else
      if c < 54 then (if 48 \<le> c \<and> c \<le> 53 then goto 425 else goto 0)
      else if c > 57 then (if c > 70 then (if 97 \<le> c \<and> c \<le> 102 then goto 382 else goto 0)
        else if c \<ge> 65 then goto 382 else goto 0)
      else goto 382)"

definition uri_st429 :: "int \<Rightarrow> uri_action jump" where [uri_code]:
  "uri_st429 c =
     (if c = 46 then goto 294 else if c = 58 then goto 384 else if c = 93 then goto 512 else
      if c < 65 then (if 48 \<le> c \<and> c \<le> 57 then goto 427 else goto 0)
      else if c > 70 then (if 97 \<le> c \<and> c \<le> 102 then goto 381 else goto 0) else goto 381)"

definition uri_st430 :: "int \<Rightarrow> uri_action jump" where [uri_code]:
  "uri_st430 c =
     (if c = 58 then goto 384 else if c = 93 then goto 512 else
      if c < 65 then (if 48 \<le> c \<and> c \<le> 57 then goto 381 else goto 0)
      else if c > 70 then (if 97 \<le> c \<and> c \<le> 102 then goto 381 else goto 0) else goto 381)"

definition uri_st431 :: "int \<Rightarrow> uri_action jump" where [uri_code]:
  "uri_st431 c =
     (if c = 46 then goto 294 else if c = 58 then goto 379 else if c = 93 then goto 512 else
      if c < 65 then (if 48 \<le> c \<and> c \<le> 57 then goto 432 else goto 0)
      else if c > 70 then (if 97 \<le> c \<and> c \<le> 102 then goto 376 else goto 0) else goto 376)"

definition uri_st432 :: "int \<Rightarrow> uri_action jump" where [uri_code]:
  "uri_st432 c =
     (if c = 46 then goto 294 else if c = 58 then goto 379 else if c = 93 then goto 512 else
      if c < 65 then (if 48 \<le> c \<and> c \<le> 57 then goto 433 else goto 0)
      else if c > 70 then (if 97 \<le> c \<and> c \<le> 102 then goto 377 else goto 0) else goto 377)"

definition uri_st433 :: "int \<Rightarrow> uri_action jump" where [uri_code]:
  "uri_st433 c =
     (if c = 46 then goto 294 else if c = 58 then goto 379 else if c = 93 then goto 512 else
      if c < 65 then (if 48 \<le> c \<and> c \<le> 57 then goto 378 else goto 0)
      else if c > 70 then (if 97 \<le> c \<and> c \<le> 102 then goto 378 else goto 0) else goto 378)"

definition uri_st434 :: "int \<Rightarrow> uri_action jump" where [uri_code]:
  "uri_st434 c =
     (if c = 46 then goto 294 else if c = 53 then goto 436 else if c = 58 then goto 379 else
      if c = 93 then goto 512 else
      if c < 65 then (if 48 \<le> c \<and> c \<le> 57 then goto 435 else goto 0)
      else if c > 70 then (if 97 \<le> c \<and> c \<le> 102 then goto 376 else goto 0) else goto 376)"

definition uri_st435 :: "int \<Rightarrow> uri_action jump" where [uri_code]:
  "uri_st435 c =
     (if c = 46 then goto 294 else if c = 58 then goto 379 else if c = 93 then goto 512 else
      if c < 65 then (if 48 \<le> c \<and> c \<le> 57 then goto 377 else goto 0)
      else if c > 70 then (if 97 \<le> c \<and> c \<le> 102 then goto 377 else goto 0) else goto 377)"

definition uri_st436 :: "int \<Rightarrow> uri_action jump" where [uri_code]:
  "uri_st436 c =
     (if c = 46 then goto 294 else if c = 58 then goto 379 else if c = 93 then goto 512 else
      if c < 54 then (if 48 \<le> c \<and> c \<le> 53 then goto 433 else goto 0)
      else if c > 57 then (if c > 70 then (if 97 \<le> c \<and> c \<le> 102 then goto 377 else goto 0)
        else if c \<ge> 65 then goto 377 else goto 0)
      else goto 377)"

definition uri_st437 :: "int \<Rightarrow> uri_action jump" where [uri_code]:
  "uri_st437 c =
     (if c = 46 then goto 294 else if c = 58 then goto 379 else if c = 93 then goto 512 else
      if c < 65 then (if 48 \<le> c \<and> c \<le> 57 then goto 435 else goto 0)
      else if c > 70 then (if 97 \<le> c \<and> c \<le> 102 then goto 376 else goto 0) else goto 376)"

definition uri_st438 :: "int \<Rightarrow> uri_action jump" where [uri_code]:
  "uri_st438 c =
     (if c = 58 then goto 379 else if c = 93 then goto 512 else
      if c < 65 then (if 48 \<le> c \<and> c \<le> 57 then goto 376 else goto 0)
      else if c > 70 then (if 97 \<le> c \<and> c \<le> 102 then goto 376 else goto 0) else goto 376)"

definition uri_st439 :: "int \<Rightarrow> uri_action jump" where [uri_code]:
  "uri_st439 c =
     (if c = 46 then goto 294 else if c = 58 then goto 374 else if c = 93 then goto 512 else
      if c < 65 then (if 48 \<le> c \<and> c \<le> 57 then goto 440 else goto 0)
      else if c > 70 then (if 97 \<le> c \<and> c \<le> 102 then goto 371 else goto 0) else goto 371)"

definition uri_st440 :: "int \<Rightarrow> uri_action jump" where [uri_code]:
  "uri_st440 c =
     (if c = 46 then goto 294 else if c = 58 then goto 374 else if c = 93 then goto 512 else
      if c < 65 then (if 48 \<le> c \<and> c \<le> 57 then goto 441 else goto 0)
      else if c > 70 then (if 97 \<le> c \<and> c \<le> 102 then goto 372 else goto 0) else goto 372)"

definition uri_st441 :: "int \<Rightarrow> uri_action jump" where [uri_code]:
  "uri_st441 c =
     (if c = 46 then goto 294 else if c = 58 then goto 374 else if c = 93 then goto 512 else
      if c < 65 then (if 48 \<le> c \<and> c \<le> 57 then goto 373 else goto 0)
      else if c > 70 then (if 97 \<le> c \<and> c \<le> 102 then goto 373 else goto 0) else goto 373)"

definition uri_st442 :: "int \<Rightarrow> uri_action jump" where [uri_code]:
  "uri_st442 c =
     (if c = 46 then goto 294 else if c = 53 then goto 444 else if c = 58 then goto 374 else
      if c = 93 then goto 512 else
      if c < 65 then (if 48 \<le> c \<and> c \<le> 57 then goto 443 else goto 0)
      else if c > 70 then (if 97 \<le> c \<and> c \<le> 102 then goto 371 else goto 0) else goto 371)"

definition uri_st443 :: "int \<Rightarrow> uri_action jump" where [uri_code]:
  "uri_st443 c =
     (if c = 46 then goto 294 else if c = 58 then goto 374 else if c = 93 then goto 512 else
      if c < 65 then (if 48 \<le> c \<and> c \<le> 57 then goto 372 else goto 0)
      else if c > 70 then (if 97 \<le> c \<and> c \<le> 102 then goto 372 else goto 0) else goto 372)"

definition uri_st444 :: "int \<Rightarrow> uri_action jump" where [uri_code]:
  "uri_st444 c =
     (if c = 46 then goto 294 else if c = 58 then goto 374 else if c = 93 then goto 512 else
      if c < 54 then (if 48 \<le> c \<and> c \<le> 53 then goto 441 else goto 0)
      else if c > 57 then (if c > 70 then (if 97 \<le> c \<and> c \<le> 102 then goto 372 else goto 0)
        else if c \<ge> 65 then goto 372 else goto 0)
      else goto 372)"

definition uri_st445 :: "int \<Rightarrow> uri_action jump" where [uri_code]:
  "uri_st445 c =
     (if c = 46 then goto 294 else if c = 58 then goto 374 else if c = 93 then goto 512 else
      if c < 65 then (if 48 \<le> c \<and> c \<le> 57 then goto 443 else goto 0)
      else if c > 70 then (if 97 \<le> c \<and> c \<le> 102 then goto 371 else goto 0) else goto 371)"

definition uri_st446 :: "int \<Rightarrow> uri_action jump" where [uri_code]:
  "uri_st446 c =
     (if c = 58 then goto 374 else if c = 93 then goto 512 else
      if c < 65 then (if 48 \<le> c \<and> c \<le> 57 then goto 371 else goto 0)
      else if c > 70 then (if 97 \<le> c \<and> c \<le> 102 then goto 371 else goto 0) else goto 371)"

definition uri_st447 :: "int \<Rightarrow> uri_action jump" where [uri_code]:
  "uri_st447 c =
     (if c < 65 then (if 48 \<le> c \<and> c \<le> 57 then goto 448 else goto 0)
      else if c > 70 then (if 97 \<le> c \<and> c \<le> 102 then goto 448 else goto 0) else goto 448)"

definition uri_st448 :: "int \<Rightarrow> uri_action jump" where [uri_code]:
  "uri_st448 c =
     (if c = 46 then goto 449 else
      if c < 65 then (if 48 \<le> c \<and> c \<le> 57 then goto 448 else goto 0)
      else if c > 70 then (if 97 \<le> c \<and> c \<le> 102 then goto 448 else goto 0) else goto 448)"

definition uri_st449 :: "int \<Rightarrow> uri_action jump" where [uri_code]:
  "uri_st449 c =
     (if c = 33 then goto 450 else if c = 36 then goto 450 else if c = 61 then goto 450 else
      if c = 95 then goto 450 else if c = 126 then goto 450 else
      if c < 48 then (if 38 \<le> c \<and> c \<le> 46 then goto 450 else goto 0)
      else if c > 59 then (if c > 90 then (if 97 \<le> c \<and> c \<le> 122 then goto 450 else goto 0)
        else if c \<ge> 65 then goto 450 else goto 0)
      else goto 450)"

definition uri_st450 :: "int \<Rightarrow> uri_action jump" where [uri_code]:
  "uri_st450 c =
     (if c = 33 then goto 450 else if c = 36 then goto 450 else if c = 61 then goto 450 else
      if c = 93 then goto 512 else if c = 95 then goto 450 else if c = 126 then goto 450 else
      if c < 48 then (if 38 \<le> c \<and> c \<le> 46 then goto 450 else goto 0)
      else if c > 59 then (if c > 90 then (if 97 \<le> c \<and> c \<le> 122 then goto 450 else goto 0)
        else if c \<ge> 65 then goto 450 else goto 0)
      else goto 450)"

definition uri_st451 :: "int \<Rightarrow> uri_action jump" where [uri_code]:
  "uri_st451 c =
     (if c = 34 then goto 0 else if c = 35 then goto 453 else if c = 37 then goto 3 else
      if c = 47 then goto 458 else if c = 58 then goto 0 else if c = 60 then goto 0 else
      if c = 62 then goto 0 else if c = 63 then goto 456 else if c = 96 then goto 0 else
      if c = 127 then goto 0 else
      if c < 91 then (if c > 32 then (if 65 \<le> c \<and> c \<le> 90 then uri_tr461 else goto 452)
        else if c \<ge> 0 then goto 0 else goto 452)
      else if c > 94 then (if c > 122 then (if 123 \<le> c \<and> c \<le> 125 then goto 0 else goto 452)
        else if c \<ge> 97 then uri_tr461 else goto 452)
      else goto 0)"

definition uri_st452 :: "int \<Rightarrow> uri_action jump" where [uri_code]:
  "uri_st452 c =
     (if c = 34 then goto 0 else if c = 35 then goto 453 else if c = 37 then goto 3 else
      if c = 47 then goto 455 else if c = 58 then goto 0 else if c = 60 then goto 0 else
      if c = 62 then goto 0 else if c = 63 then goto 456 else if c = 96 then goto 0 else
      if c = 127 then goto 0 else
      if c < 91 then (if 0 \<le> c \<and> c \<le> 32 then goto 0 else goto 452)
      else if c > 94 then (if 123 \<le> c \<and> c \<le> 125 then goto 0 else goto 452) else goto 0)"

definition uri_st453 :: "int \<Rightarrow> uri_action jump" where [uri_code]:
  "uri_st453 c =
     (if c = 37 then uri_tr463 else if c = 60 then goto 0 else if c = 62 then goto 0 else
      if c = 96 then goto 0 else if c = 127 then goto 0 else
      if c < 34 then (if 0 \<le> c \<and> c \<le> 32 then goto 0 else uri_tr462)
      else if c > 35 then (if c > 94 then (if 123 \<le> c \<and> c \<le> 125 then goto 0 else uri_tr462)
        else if c \<ge> 91 then goto 0 else uri_tr462)
      else goto 0)"

definition uri_st454 :: "int \<Rightarrow> uri_action jump" where [uri_code]:
  "uri_st454 c =
     (if c = 37 then goto 1 else if c = 60 then goto 0 else if c = 62 then goto 0 else
      if c = 96 then goto 0 else if c = 127 then goto 0 else
      if c < 34 then (if 0 \<le> c \<and> c \<le> 32 then goto 0 else goto 454)
      else if c > 35 then (if c > 94 then (if 123 \<le> c \<and> c \<le> 125 then goto 0 else goto 454)
        else if c \<ge> 91 then goto 0 else goto 454)
      else goto 0)"

definition uri_st455 :: "int \<Rightarrow> uri_action jump" where [uri_code]:
  "uri_st455 c =
     (if c = 34 then goto 0 else if c = 35 then goto 453 else if c = 37 then goto 5 else
      if c = 60 then goto 0 else if c = 62 then goto 0 else if c = 63 then goto 456 else
      if c = 96 then goto 0 else if c = 127 then goto 0 else
      if c < 91 then (if 0 \<le> c \<and> c \<le> 32 then goto 0 else goto 455)
      else if c > 94 then (if 123 \<le> c \<and> c \<le> 125 then goto 0 else goto 455) else goto 0)"

definition uri_st456 :: "int \<Rightarrow> uri_action jump" where [uri_code]:
  "uri_st456 c =
     (if c = 34 then goto 0 else if c = 35 then uri_tr467 else if c = 37 then uri_tr468 else
      if c = 60 then goto 0 else if c = 62 then goto 0 else if c = 96 then goto 0 else
      if c = 127 then goto 0 else
      if c < 91 then (if 0 \<le> c \<and> c \<le> 32 then goto 0 else uri_tr466)
      else if c > 94 then (if 123 \<le> c \<and> c \<le> 125 then goto 0 else uri_tr466) else goto 0)"

definition uri_st457 :: "int \<Rightarrow> uri_action jump" where [uri_code]:
  "uri_st457 c =
     (if c = 34 then goto 0 else if c = 35 then uri_tr469 else if c = 37 then goto 7 else
      if c = 60 then goto 0 else if c = 62 then goto 0 else if c = 96 then goto 0 else
      if c = 127 then goto 0 else
      if c < 91 then (if 0 \<le> c \<and> c \<le> 32 then goto 0 else goto 457)
      else if c > 94 then (if 123 \<le> c \<and> c \<le> 125 then goto 0 else goto 457) else goto 0)"

definition uri_st458 :: "int \<Rightarrow> uri_action jump" where [uri_code]:
  "uri_st458 c =
     (if c = 34 then goto 0 else if c = 35 then goto 453 else if c = 37 then goto 5 else
      if c = 47 then goto 459 else if c = 60 then goto 0 else if c = 62 then goto 0 else
      if c = 63 then goto 456 else if c = 96 then goto 0 else if c = 127 then goto 0 else
      if c < 91 then (if 0 \<le> c \<and> c \<le> 32 then goto 0 else goto 455)
      else if c > 94 then (if 123 \<le> c \<and> c \<le> 125 then goto 0 else goto 455) else goto 0)"

definition uri_st459 :: "int \<Rightarrow> uri_action jump" where [uri_code]:
  "uri_st459 c =
     (if c = 2 then uri_tr472 else if c = 33 then uri_tr473 else if c = 35 then uri_tr474 else
      if c = 37 then uri_tr475 else if c = 47 then uri_tr476 else if c = 48 then uri_tr477 else
      if c = 49 then uri_tr478 else if c = 50 then uri_tr479 else if c = 58 then uri_tr481 else
      if c = 59 then uri_tr473 else if c = 61 then uri_tr473 else if c = 63 then uri_tr482 else
      if c = 64 then uri_tr483 else if c = 91 then uri_tr484 else if c = 95 then uri_tr473 else
      if c = 126 then uri_tr473 else
      if c < 51 then (if 36 \<le> c \<and> c \<le> 46 then uri_tr473 else goto 0)
      else if c > 57 then (if c > 90 then (if 97 \<le> c \<and> c \<le> 122 then uri_tr473 else goto 0)
        else if c \<ge> 65 then uri_tr473 else goto 0)
      else uri_tr480)"

definition uri_st460 :: "int \<Rightarrow> uri_action jump" where [uri_code]:
  "uri_st460 c =
     (if c = 35 then uri_tr485 else if c = 47 then uri_tr486 else if c = 58 then uri_tr487 else
      if c = 63 then uri_tr488 else goto 0)"

definition uri_st461 :: "int \<Rightarrow> uri_action jump" where [uri_code]:
  "uri_st461 c =
     (if c = 35 then uri_tr489 else if c = 47 then uri_tr490 else if c = 63 then uri_tr492 else
      if 48 \<le> c \<and> c \<le> 57 then uri_tr491 else goto 0)"

definition uri_st462 :: "int \<Rightarrow> uri_action jump" where [uri_code]:
  "uri_st462 c =
     (if c = 35 then uri_tr493 else if c = 47 then uri_tr494 else if c = 63 then uri_tr496 else
      if 48 \<le> c \<and> c \<le> 57 then goto 462 else goto 0)"

definition uri_st463 :: "int \<Rightarrow> uri_action jump" where [uri_code]:
  "uri_st463 c =
     (if c = 35 then uri_tr485 else if c = 47 then uri_tr486 else if c = 58 then uri_tr487 else
      if c = 63 then uri_tr488 else if 48 \<le> c \<and> c \<le> 57 then goto 464 else goto 0)"

definition uri_st464 :: "int \<Rightarrow> uri_action jump" where [uri_code]:
  "uri_st464 c =
     (if c = 35 then uri_tr485 else if c = 47 then uri_tr486 else if c = 58 then uri_tr487 else
      if c = 63 then uri_tr488 else if 48 \<le> c \<and> c \<le> 57 then goto 460 else goto 0)"

definition uri_st465 :: "int \<Rightarrow> uri_action jump" where [uri_code]:
  "uri_st465 c =
     (if c = 35 then uri_tr485 else if c = 47 then uri_tr486 else if c = 53 then goto 466 else
      if c = 58 then uri_tr487 else if c = 63 then uri_tr488 else
      if 48 \<le> c \<and> c \<le> 57 then goto 460 else goto 0)"

definition uri_st466 :: "int \<Rightarrow> uri_action jump" where [uri_code]:
  "uri_st466 c =
     (if c = 35 then uri_tr485 else if c = 47 then uri_tr486 else if c = 58 then uri_tr487 else
      if c = 63 then uri_tr488 else if 48 \<le> c \<and> c \<le> 53 then goto 460 else goto 0)"

definition uri_st467 :: "int \<Rightarrow> uri_action jump" where [uri_code]:
  "uri_st467 c =
     (if c = 33 then goto 467 else if c = 35 then uri_tr485 else if c = 37 then goto 31 else
      if c = 47 then uri_tr486 else if c = 58 then uri_tr499 else if c = 61 then goto 467 else
      if c = 63 then uri_tr488 else if c = 64 then uri_tr38 else if c = 95 then goto 467 else
      if c = 126 then goto 467 else
      if c < 65 then (if 36 \<le> c \<and> c \<le> 59 then goto 467 else goto 0)
      else if c > 90 then (if 97 \<le> c \<and> c \<le> 122 then goto 467 else goto 0) else goto 467)"

definition uri_st468 :: "int \<Rightarrow> uri_action jump" where [uri_code]:
  "uri_st468 c =
     (if c = 33 then goto 33 else if c = 35 then uri_tr489 else if c = 37 then goto 34 else
      if c = 47 then uri_tr490 else if c = 61 then goto 33 else if c = 63 then uri_tr492 else
      if c = 64 then uri_tr38 else if c = 95 then goto 33 else if c = 126 then goto 33 else
      if c < 58 then (if c > 46 then (if 48 \<le> c \<and> c \<le> 57 then uri_tr500 else goto 0)
        else if c \<ge> 36 then goto 33 else goto 0)
      else if c > 59 then (if c > 90 then (if 97 \<le> c \<and> c \<le> 122 then goto 33 else goto 0)
        else if c \<ge> 65 then goto 33 else goto 0)
      else goto 33)"

definition uri_st469 :: "int \<Rightarrow> uri_action jump" where [uri_code]:
  "uri_st469 c =
     (if c = 2 then uri_tr472 else if c = 33 then uri_tr501 else if c = 35 then uri_tr474 else
      if c = 37 then uri_tr502 else if c = 47 then uri_tr476 else if c = 48 then uri_tr503 else
      if c = 49 then uri_tr504 else if c = 50 then uri_tr505 else if c = 58 then uri_tr507 else
      if c = 59 then uri_tr501 else if c = 61 then uri_tr501 else if c = 63 then uri_tr482 else
      if c = 91 then uri_tr484 else if c = 95 then uri_tr501 else
      if c = 126 then uri_tr501 else
      if c < 51 then (if 36 \<le> c \<and> c \<le> 46 then uri_tr501 else goto 0)
      else if c > 57 then (if c > 90 then (if 97 \<le> c \<and> c \<le> 122 then uri_tr501 else goto 0)
        else if c \<ge> 65 then uri_tr501 else goto 0)
      else uri_tr506)"

definition uri_st470 :: "int \<Rightarrow> uri_action jump" where [uri_code]:
  "uri_st470 c =
     (if c = 33 then goto 470 else if c = 35 then uri_tr485 else if c = 37 then goto 36 else
      if c = 47 then uri_tr486 else if c = 58 then uri_tr487 else if c = 61 then goto 470 else
      if c = 63 then uri_tr488 else if c = 95 then goto 470 else if c = 126 then goto 470 else
      if c < 65 then (if 36 \<le> c \<and> c \<le> 59 then goto 470 else goto 0)
      else if c > 90 then (if 97 \<le> c \<and> c \<le> 122 then goto 470 else goto 0) else goto 470)"

definition uri_st471 :: "int \<Rightarrow> uri_action jump" where [uri_code]:
  "uri_st471 c =
     (if c = 33 then goto 470 else if c = 35 then uri_tr485 else if c = 37 then goto 36 else
      if c = 46 then goto 472 else if c = 47 then uri_tr486 else if c = 58 then uri_tr487 else
      if c = 61 then goto 470 else if c = 63 then uri_tr488 else if c = 95 then goto 470 else
      if c = 126 then goto 470 else
      if c < 65 then (if 36 \<le> c \<and> c \<le> 59 then goto 470 else goto 0)
      else if c > 90 then (if 97 \<le> c \<and> c \<le> 122 then goto 470 else goto 0) else goto 470)"

definition uri_st472 :: "int \<Rightarrow> uri_action jump" where [uri_code]:
  "uri_st472 c =
     (if c = 2 then goto 13 else if c = 33 then goto 470 else if c = 35 then uri_tr485 else
      if c = 37 then goto 36 else if c = 47 then uri_tr486 else if c = 48 then goto 473 else
      if c = 49 then goto 481 else if c = 50 then goto 483 else if c = 58 then uri_tr487 else
      if c = 59 then goto 470 else if c = 61 then goto 470 else if c = 63 then uri_tr488 else
      if c = 95 then goto 470 else if c = 126 then goto 470 else
      if c < 51 then (if 36 \<le> c \<and> c \<le> 46 then goto 470 else goto 0)
      else if c > 57 then (if c > 90 then (if 97 \<le> c \<and> c \<le> 122 then goto 470 else goto 0)
        else if c \<ge> 65 then goto 470 else goto 0)
      else goto 482)"

definition uri_st473 :: "int \<Rightarrow> uri_action jump" where [uri_code]:
  "uri_st473 c =
     (if c = 33 then goto 470 else if c = 35 then uri_tr485 else if c = 37 then goto 36 else
      if c = 46 then goto 474 else if c = 47 then uri_tr486 else if c = 58 then uri_tr487 else
      if c = 61 then goto 470 else if c = 63 then uri_tr488 else if c = 95 then goto 470 else
      if c = 126 then goto 470 else
      if c < 65 then (if 36 \<le> c \<and> c \<le> 59 then goto 470 else goto 0)
      else if c > 90 then (if 97 \<le> c \<and> c \<le> 122 then goto 470 else goto 0) else goto 470)"

definition uri_st474 :: "int \<Rightarrow> uri_action jump" where [uri_code]:
  "uri_st474 c =
     (if c = 2 then goto 17 else if c = 33 then goto 470 else if c = 35 then uri_tr485 else
      if c = 37 then goto 36 else if c = 47 then uri_tr486 else if c = 48 then goto 475 else
      if c = 49 then goto 477 else if c = 50 then goto 479 else if c = 58 then uri_tr487 else
      if c = 59 then goto 470 else if c = 61 then goto 470 else if c = 63 then uri_tr488 else
      if c = 95 then goto 470 else if c = 126 then goto 470 else
      if c < 51 then (if 36 \<le> c \<and> c \<le> 46 then goto 470 else goto 0)
      else if c > 57 then (if c > 90 then (if 97 \<le> c \<and> c \<le> 122 then goto 470 else goto 0)
        else if c \<ge> 65 then goto 470 else goto 0)
      else goto 478)"

definition uri_st475 :: "int \<Rightarrow> uri_action jump" where [uri_code]:
  "uri_st475 c =
     (if c = 33 then goto 470 else if c = 35 then uri_tr485 else if c = 37 then goto 36 else
      if c = 46 then goto 476 else if c = 47 then uri_tr486 else if c = 58 then uri_tr487 else
      if c = 61 then goto 470 else if c = 63 then uri_tr488 else if c = 95 then goto 470 else
      if c = 126 then goto 470 else
      if c < 65 then (if 36 \<le> c \<and> c \<le> 59 then goto 470 else goto 0)
      else if c > 90 then (if 97 \<le> c \<and> c \<le> 122 then goto 470 else goto 0) else goto 470)"

definition uri_st476 :: "int \<Rightarrow> uri_action jump" where [uri_code]:
  "uri_st476 c =
     (if c = 2 then goto 21 else if c = 33 then goto 470 else if c = 35 then uri_tr485 else
      if c = 37 then goto 36 else if c = 47 then uri_tr486 else if c = 58 then uri_tr487 else
      if c = 61 then goto 470 else if c = 63 then uri_tr488 else if c = 95 then goto 470 else
      if c = 126 then goto 470 else
      if c < 65 then (if 36 \<le> c \<and> c \<le> 59 then goto 470 else goto 0)
      else if c > 90 then (if 97 \<le> c \<and> c \<le> 122 then goto 470 else goto 0) else goto 470)"

definition uri_st477 :: "int \<Rightarrow> uri_action jump" where [uri_code]:
  "uri_st477 c =
     (if c = 33 then goto 470 else if c = 35 then uri_tr485 else if c = 37 then goto 36 else
      if c = 46 then goto 476 else if c = 47 then uri_tr486 else if c = 58 then uri_tr487 else
      if c = 59 then goto 470 else if c = 61 then goto 470 else if c = 63 then uri_tr488 else
      if c = 95 then goto 470 else if c = 126 then goto 470 else
      if c < 48 then (if 36 \<le> c \<and> c \<le> 45 then goto 470 else goto 0)
      else if c > 57 then (if c > 90 then (if 97 \<le> c \<and> c \<le> 122 then goto 470 else goto 0)
        else if c \<ge> 65 then goto 470 else goto 0)
      else goto 478)"

definition uri_st478 :: "int \<Rightarrow> uri_action jump" where [uri_code]:
  "uri_st478 c =
     (if c = 33 then goto 470 else if c = 35 then uri_tr485 else if c = 37 then goto 36 else
      if c = 46 then goto 476 else if c = 47 then uri_tr486 else if c = 58 then uri_tr487 else
      if c = 59 then goto 470 else if c = 61 then goto 470 else if c = 63 then uri_tr488 else
      if c = 95 then goto 470 else if c = 126 then goto 470 else
      if c < 48 then (if 36 \<le> c \<and> c \<le> 45 then goto 470 else goto 0)
      else if c > 57 then (if c > 90 then (if 97 \<le> c \<and> c \<le> 122 then goto 470 else goto 0)
        else if c \<ge> 65 then goto 470 else goto 0)
      else goto 475)"

definition uri_st479 :: "int \<Rightarrow> uri_action jump" where [uri_code]:
  "uri_st479 c =
     (if c = 33 then goto 470 else if c = 35 then uri_tr485 else if c = 37 then goto 36 else
      if c = 46 then goto 476 else if c = 47 then uri_tr486 else if c = 53 then goto 480 else
      if c = 58 then uri_tr487 else if c = 59 then goto 470 else if c = 61 then goto 470 else
      if c = 63 then uri_tr488 else if c = 95 then goto 470 else if c = 126 then goto 470 else
      if c < 48 then (if 36 \<le> c \<and> c \<le> 45 then goto 470 else goto 0)
      else if c > 57 then (if c > 90 then (if 97 \<le> c \<and> c \<le> 122 then goto 470 else goto 0)
        else if c \<ge> 65 then goto 470 else goto 0)
      else goto 475)"

definition uri_st480 :: "int \<Rightarrow> uri_action jump" where [uri_code]:
  "uri_st480 c =
     (if c = 33 then goto 470 else if c = 35 then uri_tr485 else if c = 37 then goto 36 else
      if c = 46 then goto 476 else if c = 47 then uri_tr486 else if c = 58 then uri_tr487 else
      if c = 61 then goto 470 else if c = 63 then uri_tr488 else if c = 95 then goto 470 else
      if c = 126 then goto 470 else
      if c < 54 then (if c > 45 then (if 48 \<le> c \<and> c \<le> 53 then goto 475 else goto 0)
        else if c \<ge> 36 then goto 470 else goto 0)
      else if c > 59 then (if c > 90 then (if 97 \<le> c \<and> c \<le> 122 then goto 470 else goto 0)
        else if c \<ge> 65 then goto 470 else goto 0)
      else goto 470)"

definition uri_st481 :: "int \<Rightarrow> uri_action jump" where [uri_code]:
  "uri_st481 c =
     (if c = 33 then goto 470 else if c = 35 then uri_tr485 else if c = 37 then goto 36 else
      if c = 46 then goto 474 else if c = 47 then uri_tr486 else if c = 58 then uri_tr487 else
      if c = 59 then goto 470 else if c = 61 then goto 470 else if c = 63 then uri_tr488 else
      if c = 95 then goto 470 else if c = 126 then goto 470 else
      if c < 48 then (if 36 \<le> c \<and> c \<le> 45 then goto 470 else goto 0)
      else if c > 57 then (if c > 90 then (if 97 \<le> c \<and> c \<le> 122 then goto 470 else goto 0)
        else if c \<ge> 65 then goto 470 else goto 0)
      else goto 482)"

definition uri_st482 :: "int \<Rightarrow> uri_action jump" where [uri_code]:
  "uri_st482 c =
     (if c = 33 then goto 470 else if c = 35 then uri_tr485 else if c = 37 then goto 36 else
      if c = 46 then goto 474 else if c = 47 then uri_tr486 else if c = 58 then uri_tr487 else
      if c = 59 then goto 470 else if c = 61 then goto 470 else if c = 63 then uri_tr488 else
      if c = 95 then goto 470 else if c = 126 then goto 470 else
      if c < 48 then (if 36 \<le> c \<and> c \<le> 45 then goto 470 else goto 0)
      else if c > 57 then (if c > 90 then (if 97 \<le> c \<and> c \<le> 122 then goto 470 else goto 0)
        else if c \<ge> 65 then goto 470 else goto 0)
      else goto 473)"

definition uri_st483 :: "int \<Rightarrow> uri_action jump" where [uri_code]:
  "uri_st483 c =
     (if c = 33 then goto 470 else if c = 35 then uri_tr485 else if c = 37 then goto 36 else
      if c = 46 then goto 474 else if c = 47 then uri_tr486 else if c = 53 then goto 484 else
      if c = 58 then uri_tr487 else if c = 59 then goto 470 else if c = 61 then goto 470 else
      if c = 63 then uri_tr488 else if c = 95 then goto 470 else if c = 126 then goto 470 else
      if c < 48 then (if 36 \<le> c \<and> c \<le> 45 then goto 470 else goto 0)
      else if c > 57 then (if c > 90 then (if 97 \<le> c \<and> c \<le> 122 then goto 470 else goto 0)
        else if c \<ge> 65 then goto 470 else goto 0)
      else goto 473)"

definition uri_st484 :: "int \<Rightarrow> uri_action jump" where [uri_code]:
  "uri_st484 c =
     (if c = 33 then goto 470 else if c = 35 then uri_tr485 else if c = 37 then goto 36 else
      if c = 46 then goto 474 else if c = 47 then uri_tr486 else if c = 58 then uri_tr487 else
      if c = 61 then goto 470 else if c = 63 then uri_tr488 else if c = 95 then goto 470 else
      if c = 126 then goto 470 else
      if c < 54 then (if c > 45 then (if 48 \<le> c \<and> c \<le> 53 then goto 473 else goto 0)
        else if c \<ge> 36 then goto 470 else goto 0)
      else if c > 59 then (if c > 90 then (if 97 \<le> c \<and> c \<le> 122 then goto 470 else goto 0)
        else if c \<ge> 65 then goto 470 else goto 0)
      else goto 470)"

definition uri_st485 :: "int \<Rightarrow> uri_action jump" where [uri_code]:
  "uri_st485 c =
     (if c = 33 then goto 470 else if c = 35 then uri_tr485 else if c = 37 then goto 36 else
      if c = 46 then goto 472 else if c = 47 then uri_tr486 else if c = 58 then uri_tr487 else
      if c = 59 then goto 470 else if c = 61 then goto 470 else if c = 63 then uri_tr488 else
      if c = 95 then goto 470 else if c = 126 then goto 470 else
      if c < 48 then (if 36 \<le> c \<and> c \<le> 45 then goto 470 else goto 0)
      else if c > 57 then (if c > 90 then (if 97 \<le> c \<and> c \<le> 122 then goto 470 else goto 0)
        else if c \<ge> 65 then goto 470 else goto 0)
      else goto 486)"

definition uri_st486 :: "int \<Rightarrow> uri_action jump" where [uri_code]:
  "uri_st486 c =
     (if c = 33 then goto 470 else if c = 35 then uri_tr485 else if c = 37 then goto 36 else
      if c = 46 then goto 472 else if c = 47 then uri_tr486 else if c = 58 then uri_tr487 else
      if c = 59 then goto 470 else if c = 61 then goto 470 else if c = 63 then uri_tr488 else
      if c = 95 then goto 470 else if c = 126 then goto 470 else
      if c < 48 then (if 36 \<le> c \<and> c \<le> 45 then goto 470 else goto 0)
      else if c > 57 then (if c > 90 then (if 97 \<le> c \<and> c \<le> 122 then goto 470 else goto 0)
        else if c \<ge> 65 then goto 470 else goto 0)
      else goto 471)"

definition uri_st487 :: "int \<Rightarrow> uri_action jump" where [uri_code]:
  "uri_st487 c =
     (if c = 33 then goto 470 else if c = 35 then uri_tr485 else if c = 37 then goto 36 else
      if c = 46 then goto 472 else if c = 47 then uri_tr486 else if c = 53 then goto 488 else
      if c = 58 then uri_tr487 else if c = 59 then goto 470 else if c = 61 then goto 470 else
      if c = 63 then uri_tr488 else if c = 95 then goto 470 else if c = 126 then goto 470 else
      if c < 48 then (if 36 \<le> c \<and> c \<le> 45 then goto 470 else goto 0)
      else if c > 57 then (if c > 90 then (if 97 \<le> c \<and> c \<le> 122 then goto 470 else goto 0)
        else if c \<ge> 65 then goto 470 else goto 0)
      else goto 471)"

definition uri_st488 :: "int \<Rightarrow> uri_action jump" where [uri_code]:
  "uri_st488 c =
     (if c = 33 then goto 470 else if c = 35 then uri_tr485 else if c = 37 then goto 36 else
      if c = 46 then goto 472 else if c = 47 then uri_tr486 else if c = 58 then uri_tr487 else
      if c = 61 then goto 470 else if c = 63 then uri_tr488 else if c = 95 then goto 470 else
      if c = 126 then goto 470 else
      if c < 54 then (if c > 45 then (if 48 \<le> c \<and> c \<le> 53 then goto 471 else goto 0)
        else if c \<ge> 36 then goto 470 else goto 0)
      else if c > 59 then (if c > 90 then (if 97 \<le> c \<and> c \<le> 122 then goto 470 else goto 0)
        else if c \<ge> 65 then goto 470 else goto 0)
      else goto 470)"

definition uri_st489 :: "int \<Rightarrow> uri_action jump" where [uri_code]:
  "uri_st489 c =
     (if c = 33 then goto 33 else if c = 35 then uri_tr493 else if c = 37 then goto 34 else
      if c = 47 then uri_tr494 else if c = 61 then goto 33 else if c = 63 then uri_tr496 else
      if c = 64 then uri_tr38 else if c = 95 then goto 33 else if c = 126 then goto 33 else
      if c < 58 then (if c > 46 then (if 48 \<le> c \<and> c \<le> 57 then goto 489 else goto 0)
        else if c \<ge> 36 then goto 33 else goto 0)
      else if c > 59 then (if c > 90 then (if 97 \<le> c \<and> c \<le> 122 then goto 33 else goto 0)
        else if c \<ge> 65 then goto 33 else goto 0)
      else goto 33)"

definition uri_st490 :: "int \<Rightarrow> uri_action jump" where [uri_code]:
  "uri_st490 c =
     (if c = 33 then goto 467 else if c = 35 then uri_tr485 else if c = 37 then goto 31 else
      if c = 46 then goto 491 else if c = 47 then uri_tr486 else if c = 58 then uri_tr499 else
      if c = 61 then goto 467 else if c = 63 then uri_tr488 else if c = 64 then uri_tr38 else
      if c = 95 then goto 467 else if c = 126 then goto 467 else
      if c < 65 then (if 36 \<le> c \<and> c \<le> 59 then goto 467 else goto 0)
      else if c > 90 then (if 97 \<le> c \<and> c \<le> 122 then goto 467 else goto 0) else goto 467)"

definition uri_st491 :: "int \<Rightarrow> uri_action jump" where [uri_code]:
  "uri_st491 c =
     (if c = 2 then goto 13 else if c = 33 then goto 467 else if c = 35 then uri_tr485 else
      if c = 37 then goto 31 else if c = 47 then uri_tr486 else if c = 48 then goto 492 else
      if c = 49 then goto 500 else if c = 50 then goto 502 else if c = 58 then uri_tr499 else
      if c = 59 then goto 467 else if c = 61 then goto 467 else if c = 63 then uri_tr488 else
      if c = 64 then uri_tr38 else if c = 95 then goto 467 else if c = 126 then goto 467 else
      if c < 51 then (if 36 \<le> c \<and> c \<le> 46 then goto 467 else goto 0)
      else if c > 57 then (if c > 90 then (if 97 \<le> c \<and> c \<le> 122 then goto 467 else goto 0)
        else if c \<ge> 65 then goto 467 else goto 0)
      else goto 501)"

definition uri_st492 :: "int \<Rightarrow> uri_action jump" where [uri_code]:
  "uri_st492 c =
     (if c = 33 then goto 467 else if c = 35 then uri_tr485 else if c = 37 then goto 31 else
      if c = 46 then goto 493 else if c = 47 then uri_tr486 else if c = 58 then uri_tr499 else
      if c = 61 then goto 467 else if c = 63 then uri_tr488 else if c = 64 then uri_tr38 else
      if c = 95 then goto 467 else if c = 126 then goto 467 else
      if c < 65 then (if 36 \<le> c \<and> c \<le> 59 then goto 467 else goto 0)
      else if c > 90 then (if 97 \<le> c \<and> c \<le> 122 then goto 467 else goto 0) else goto 467)"

definition uri_st493 :: "int \<Rightarrow> uri_action jump" where [uri_code]:
  "uri_st493 c =
     (if c = 2 then goto 17 else if c = 33 then goto 467 else if c = 35 then uri_tr485 else
      if c = 37 then goto 31 else if c = 47 then uri_tr486 else if c = 48 then goto 494 else
      if c = 49 then goto 496 else if c = 50 then goto 498 else if c = 58 then uri_tr499 else
      if c = 59 then goto 467 else if c = 61 then goto 467 else if c = 63 then uri_tr488 else
      if c = 64 then uri_tr38 else if c = 95 then goto 467 else if c = 126 then goto 467 else
      if c < 51 then (if 36 \<le> c \<and> c \<le> 46 then goto 467 else goto 0)
      else if c > 57 then (if c > 90 then (if 97 \<le> c \<and> c \<le> 122 then goto 467 else goto 0)
        else if c \<ge> 65 then goto 467 else goto 0)
      else goto 497)"

definition uri_st494 :: "int \<Rightarrow> uri_action jump" where [uri_code]:
  "uri_st494 c =
     (if c = 33 then goto 467 else if c = 35 then uri_tr485 else if c = 37 then goto 31 else
      if c = 46 then goto 495 else if c = 47 then uri_tr486 else if c = 58 then uri_tr499 else
      if c = 61 then goto 467 else if c = 63 then uri_tr488 else if c = 64 then uri_tr38 else
      if c = 95 then goto 467 else if c = 126 then goto 467 else
      if c < 65 then (if 36 \<le> c \<and> c \<le> 59 then goto 467 else goto 0)
      else if c > 90 then (if 97 \<le> c \<and> c \<le> 122 then goto 467 else goto 0) else goto 467)"

definition uri_st495 :: "int \<Rightarrow> uri_action jump" where [uri_code]:
  "uri_st495 c =
     (if c = 2 then goto 21 else if c = 33 then goto 467 else if c = 35 then uri_tr485 else
      if c = 37 then goto 31 else if c = 47 then uri_tr486 else if c = 58 then uri_tr499 else
      if c = 61 then goto 467 else if c = 63 then uri_tr488 else if c = 64 then uri_tr38 else
      if c = 95 then goto 467 else if c = 126 then goto 467 else
      if c < 65 then (if 36 \<le> c \<and> c \<le> 59 then goto 467 else goto 0)
      else if c > 90 then (if 97 \<le> c \<and> c \<le> 122 then goto 467 else goto 0) else goto 467)"

definition uri_st496 :: "int \<Rightarrow> uri_action jump" where [uri_code]:
  "uri_st496 c =
     (if c = 33 then goto 467 else if c = 35 then uri_tr485 else if c = 37 then goto 31 else
      if c = 46 then goto 495 else if c = 47 then uri_tr486 else if c = 58 then uri_tr499 else
      if c = 59 then goto 467 else if c = 61 then goto 467 else if c = 63 then uri_tr488 else
      if c = 64 then uri_tr38 else if c = 95 then goto 467 else if c = 126 then goto 467 else
      if c < 48 then (if 36 \<le> c \<and> c \<le> 45 then goto 467 else goto 0)
      else if c > 57 then (if c > 90 then (if 97 \<le> c \<and> c \<le> 122 then goto 467 else goto 0)
        else if c \<ge> 65 then goto 467 else goto 0)
      else goto 497)"

definition uri_st497 :: "int \<Rightarrow> uri_action jump" where [uri_code]:
  "uri_st497 c =
     (if c = 33 then goto 467 else if c = 35 then uri_tr485 else if c = 37 then goto 31 else
      if c = 46 then goto 495 else if c = 47 then uri_tr486 else if c = 58 then uri_tr499 else
      if c = 59 then goto 467 else if c = 61 then goto 467 else if c = 63 then uri_tr488 else
      if c = 64 then uri_tr38 else if c = 95 then goto 467 else if c = 126 then goto 467 else
      if c < 48 then (if 36 \<le> c \<and> c \<le> 45 then goto 467 else goto 0)
      else if c > 57 then (if c > 90 then (if 97 \<le> c \<and> c \<le> 122 then goto 467 else goto 0)
        else if c \<ge> 65 then goto 467 else goto 0)
      else goto 494)"

definition uri_st498 :: "int \<Rightarrow> uri_action jump" where [uri_code]:
  "uri_st498 c =
     (if c = 33 then goto 467 else if c = 35 then uri_tr485 else if c = 37 then goto 31 else
      if c = 46 then goto 495 else if c = 47 then uri_tr486 else if c = 53 then goto 499 else
      if c = 58 then uri_tr499 else if c = 59 then goto 467 else if c = 61 then goto 467 else
      if c = 63 then uri_tr488 else if c = 64 then uri_tr38 else if c = 95 then goto 467 else
      if c = 126 then goto 467 else
      if c < 48 then (if 36 \<le> c \<and> c \<le> 45 then goto 467 else goto 0)
      else if c > 57 then (if c > 90 then (if 97 \<le> c \<and> c \<le> 122 then goto 467 else goto 0)
        else if c \<ge> 65 then goto 467 else goto 0)
      else goto 494)"

definition uri_st499 :: "int \<Rightarrow> uri_action jump" where [uri_code]:
  "uri_st499 c =
     (if c = 33 then goto 467 else if c = 35 then uri_tr485 else if c = 37 then goto 31 else
      if c = 46 then goto 495 else if c = 47 then uri_tr486 else if c = 58 then uri_tr499 else
      if c = 61 then goto 467 else if c = 63 then uri_tr488 else if c = 64 then uri_tr38 else
      if c = 95 then goto 467 else if c = 126 then goto 467 else
      if c < 54 then (if c > 45 then (if 48 \<le> c \<and> c \<le> 53 then goto 494 else goto 0)
        else if c \<ge> 36 then goto 467 else goto 0)
      else if c > 59 then (if c > 90 then (if 97 \<le> c \<and> c \<le> 122 then goto 467 else goto 0)
        else if c \<ge> 65 then goto 467 else goto 0)
      else goto 467)"

definition uri_st500 :: "int \<Rightarrow> uri_action jump" where [uri_code]:
  "uri_st500 c =
     (if c = 33 then goto 467 else if c = 35 then uri_tr485 else if c = 37 then goto 31 else
      if c = 46 then goto 493 else if c = 47 then uri_tr486 else if c = 58 then uri_tr499 else
      if c = 59 then goto 467 else if c = 61 then goto 467 else if c = 63 then uri_tr488 else
      if c = 64 then uri_tr38 else if c = 95 then goto 467 else if c = 126 then goto 467 else
      if c < 48 then (if 36 \<le> c \<and> c \<le> 45 then goto 467 else goto 0)
      else if c > 57 then (if c > 90 then (if 97 \<le> c \<and> c \<le> 122 then goto 467 else goto 0)
        else if c \<ge> 65 then goto 467 else goto 0)
      else goto 501)"

definition uri_st501 :: "int \<Rightarrow> uri_action jump" where [uri_code]:
  "uri_st501 c =
     (if c = 33 then goto 467 else if c = 35 then uri_tr485 else if c = 37 then goto 31 else
      if c = 46 then goto 493 else if c = 47 then uri_tr486 else if c = 58 then uri_tr499 else
      if c = 59 then goto 467 else if c = 61 then goto 467 else if c = 63 then uri_tr488 else
      if c = 64 then uri_tr38 else if c = 95 then goto 467 else if c = 126 then goto 467 else
      if c < 48 then (if 36 \<le> c \<and> c \<le> 45 then goto 467 else goto 0)
      else if c > 57 then (if c > 90 then (if 97 \<le> c \<and> c \<le> 122 then goto 467 else goto 0)
        else if c \<ge> 65 then goto 467 else goto 0)
      else goto 492)"

definition uri_st502 :: "int \<Rightarrow> uri_action jump" where [uri_code]:
  "uri_st502 c =
     (if c = 33 then goto 467 else if c = 35 then uri_tr485 else if c = 37 then goto 31 else
      if c = 46 then goto 493 else if c = 47 then uri_tr486 else if c = 53 then goto 503 else
      if c = 58 then uri_tr499 else if c = 59 then goto 467 else if c = 61 then goto 467 else
      if c = 63 then uri_tr488 else if c = 64 then uri_tr38 else if c = 95 then goto 467 else
      if c = 126 then goto 467 else
      if c < 48 then (if 36 \<le> c \<and> c \<le> 45 then goto 467 else goto 0)
      else if c > 57 then (if c > 90 then (if 97 \<le> c \<and> c \<le> 122 then goto 467 else goto 0)
        else if c \<ge> 65 then goto 467 else goto 0)
      else goto 492)"

definition uri_st503 :: "int \<Rightarrow> uri_action jump" where [uri_code]:
  "uri_st503 c =
     (if c = 33 then goto 467 else if c = 35 then uri_tr485 else if c = 37 then goto 31 else
      if c = 46 then goto 493 else if c = 47 then uri_tr486 else if c = 58 then uri_tr499 else
      if c = 61 then goto 467 else if c = 63 then uri_tr488 else if c = 64 then uri_tr38 else
      if c = 95 then goto 467 else if c = 126 then goto 467 else
      if c < 54 then (if c > 45 then (if 48 \<le> c \<and> c \<le> 53 then goto 492 else goto 0)
        else if c \<ge> 36 then goto 467 else goto 0)
      else if c > 59 then (if c > 90 then (if 97 \<le> c \<and> c \<le> 122 then goto 467 else goto 0)
        else if c \<ge> 65 then goto 467 else goto 0)
      else goto 467)"

definition uri_st504 :: "int \<Rightarrow> uri_action jump" where [uri_code]:
  "uri_st504 c =
     (if c = 33 then goto 467 else if c = 35 then uri_tr485 else if c = 37 then goto 31 else
      if c = 46 then goto 491 else if c = 47 then uri_tr486 else if c = 58 then uri_tr499 else
      if c = 59 then goto 467 else if c = 61 then goto 467 else if c = 63 then uri_tr488 else
      if c = 64 then uri_tr38 else if c = 95 then goto 467 else if c = 126 then goto 467 else
      if c < 48 then (if 36 \<le> c \<and> c \<le> 45 then goto 467 else goto 0)
      else if c > 57 then (if c > 90 then (if 97 \<le> c \<and> c \<le> 122 then goto 467 else goto 0)
        else if c \<ge> 65 then goto 467 else goto 0)
      else goto 505)"

definition uri_st505 :: "int \<Rightarrow> uri_action jump" where [uri_code]:
  "uri_st505 c =
     (if c = 33 then goto 467 else if c = 35 then uri_tr485 else if c = 37 then goto 31 else
      if c = 46 then goto 491 else if c = 47 then uri_tr486 else if c = 58 then uri_tr499 else
      if c = 59 then goto 467 else if c = 61 then goto 467 else if c = 63 then uri_tr488 else
      if c = 64 then uri_tr38 else if c = 95 then goto 467 else if c = 126 then goto 467 else
      if c < 48 then (if 36 \<le> c \<and> c \<le> 45 then goto 467 else goto 0)
      else if c > 57 then (if c > 90 then (if 97 \<le> c \<and> c \<le> 122 then goto 467 else goto 0)
        else if c \<ge> 65 then goto 467 else goto 0)
      else goto 490)"

definition uri_st506 :: "int \<Rightarrow> uri_action jump" where [uri_code]:
  "uri_st506 c =
     (if c = 33 then goto 467 else if c = 35 then uri_tr485 else if c = 37 then goto 31 else
      if c = 46 then goto 491 else if c = 47 then uri_tr486 else if c = 53 then goto 507 else
      if c = 58 then uri_tr499 else if c = 59 then goto 467 else if c = 61 then goto 467 else
      if c = 63 then uri_tr488 else if c = 64 then uri_tr38 else if c = 95 then goto 467 else
      if c = 126 then goto 467 else
      if c < 48 then (if 36 \<le> c \<and> c \<le> 45 then goto 467 else goto 0)
      else if c > 57 then (if c > 90 then (if 97 \<le> c \<and> c \<le> 122 then goto 467 else goto 0)
        else if c \<ge> 65 then goto 467 else goto 0)
      else goto 490)"

definition uri_st507 :: "int \<Rightarrow> uri_action jump" where [uri_code]:
  "uri_st507 c =
     (if c = 33 then goto 467 else if c = 35 then uri_tr485 else if c = 37 then goto 31 else
      if c = 46 then goto 491 else if c = 47 then uri_tr486 else if c = 58 then uri_tr499 else
      if c = 61 then goto 467 else if c = 63 then uri_tr488 else if c = 64 then uri_tr38 else
      if c = 95 then goto 467 else if c = 126 then goto 467 else
      if c < 54 then (if c > 45 then (if 48 \<le> c \<and> c \<le> 53 then goto 490 else goto 0)
        else if c \<ge> 36 then goto 467 else goto 0)
      else if c > 59 then (if c > 90 then (if 97 \<le> c \<and> c \<le> 122 then goto 467 else goto 0)
        else if c \<ge> 65 then goto 467 else goto 0)
      else goto 467)"

definition uri_st508 :: "int \<Rightarrow> uri_action jump" where [uri_code]:
  "uri_st508 c =
     (if c = 34 then goto 0 else if c = 35 then goto 453 else if c = 37 then goto 3 else
      if c = 43 then goto 508 else if c = 47 then goto 455 else if c = 58 then uri_tr543 else
      if c = 60 then goto 0 else if c = 62 then goto 0 else if c = 63 then goto 456 else
      if c = 96 then goto 0 else if c = 127 then goto 0 else
      if c < 65 then (if c > 32 then (if 45 \<le> c \<and> c \<le> 57 then goto 508 else goto 452)
        else if c \<ge> 0 then goto 0 else goto 452)
      else if c > 90 then (if c < 97 then (if 91 \<le> c \<and> c \<le> 94 then goto 0 else goto 452)
        else if c > 122 then (if 123 \<le> c \<and> c \<le> 125 then goto 0 else goto 452)
        else goto 508)
      else goto 508)"

definition uri_st509 :: "int \<Rightarrow> uri_action jump" where [uri_code]:
  "uri_st509 c =
     (if c = 34 then goto 0 else if c = 35 then goto 453 else if c = 37 then goto 5 else
      if c = 47 then goto 510 else if c = 60 then goto 0 else if c = 62 then goto 0 else
      if c = 63 then goto 456 else if c = 96 then goto 0 else if c = 127 then goto 0 else
      if c < 91 then (if 0 \<le> c \<and> c \<le> 32 then goto 0 else goto 455)
      else if c > 94 then (if 123 \<le> c \<and> c \<le> 125 then goto 0 else goto 455) else goto 0)"

definition uri_st510 :: "int \<Rightarrow> uri_action jump" where [uri_code]:
  "uri_st510 c =
     (if c = 34 then goto 0 else if c = 35 then goto 453 else if c = 37 then goto 5 else
      if c = 47 then goto 511 else if c = 60 then goto 0 else if c = 62 then goto 0 else
      if c = 63 then goto 456 else if c = 96 then goto 0 else if c = 127 then goto 0 else
      if c < 91 then (if 0 \<le> c \<and> c \<le> 32 then goto 0 else goto 455)
      else if c > 94 then (if 123 \<le> c \<and> c \<le> 125 then goto 0 else goto 455) else goto 0)"

definition uri_st511 :: "int \<Rightarrow> uri_action jump" where [uri_code]:
  "uri_st511 c =
     (if c = 2 then uri_tr546 else if c = 33 then uri_tr547 else if c = 35 then uri_tr548 else
      if c = 37 then uri_tr549 else if c = 47 then uri_tr550 else if c = 48 then uri_tr551 else
      if c = 49 then uri_tr552 else if c = 50 then uri_tr553 else if c = 58 then uri_tr555 else
      if c = 59 then uri_tr547 else if c = 61 then uri_tr547 else if c = 63 then uri_tr556 else
      if c = 64 then uri_tr557 else if c = 91 then uri_tr558 else if c = 95 then uri_tr547 else
      if c = 126 then uri_tr547 else
      if c < 51 then (if 36 \<le> c \<and> c \<le> 46 then uri_tr547 else goto 0)
      else if c > 57 then (if c > 90 then (if 97 \<le> c \<and> c \<le> 122 then uri_tr547 else goto 0)
        else if c \<ge> 65 then uri_tr547 else goto 0)
      else uri_tr554)"

definition uri_st512 :: "int \<Rightarrow> uri_action jump" where [uri_code]:
  "uri_st512 c =
     (if c = 35 then uri_tr559 else if c = 47 then uri_tr560 else if c = 58 then uri_tr561 else
      if c = 63 then uri_tr562 else goto 0)"

definition uri_st513 :: "int \<Rightarrow> uri_action jump" where [uri_code]:
  "uri_st513 c =
     (if c = 34 then goto 0 else if c = 35 then uri_tr563 else if c = 37 then goto 243 else
      if c = 60 then goto 0 else if c = 62 then goto 0 else if c = 63 then uri_tr565 else
      if c = 96 then goto 0 else if c = 127 then goto 0 else
      if c < 91 then (if 0 \<le> c \<and> c \<le> 32 then goto 0 else goto 513)
      else if c > 94 then (if 123 \<le> c \<and> c \<le> 125 then goto 0 else goto 513) else goto 0)"

definition uri_st514 :: "int \<Rightarrow> uri_action jump" where [uri_code]:
  "uri_st514 c =
     (if c = 35 then uri_tr566 else if c = 47 then uri_tr567 else if c = 63 then uri_tr569 else
      if 48 \<le> c \<and> c \<le> 57 then uri_tr568 else goto 0)"

definition uri_st515 :: "int \<Rightarrow> uri_action jump" where [uri_code]:
  "uri_st515 c =
     (if c = 35 then uri_tr570 else if c = 47 then uri_tr571 else if c = 63 then uri_tr573 else
      if 48 \<le> c \<and> c \<le> 57 then goto 515 else goto 0)"

definition uri_st516 :: "int \<Rightarrow> uri_action jump" where [uri_code]:
  "uri_st516 c =
     (if c = 35 then uri_tr559 else if c = 47 then uri_tr560 else if c = 58 then uri_tr561 else
      if c = 63 then uri_tr562 else if 48 \<le> c \<and> c \<le> 57 then goto 517 else goto 0)"

definition uri_st517 :: "int \<Rightarrow> uri_action jump" where [uri_code]:
  "uri_st517 c =
     (if c = 35 then uri_tr559 else if c = 47 then uri_tr560 else if c = 58 then uri_tr561 else
      if c = 63 then uri_tr562 else if 48 \<le> c \<and> c \<le> 57 then goto 512 else goto 0)"

definition uri_st518 :: "int \<Rightarrow> uri_action jump" where [uri_code]:
  "uri_st518 c =
     (if c = 35 then uri_tr559 else if c = 47 then uri_tr560 else if c = 53 then goto 519 else
      if c = 58 then uri_tr561 else if c = 63 then uri_tr562 else
      if 48 \<le> c \<and> c \<le> 57 then goto 512 else goto 0)"

definition uri_st519 :: "int \<Rightarrow> uri_action jump" where [uri_code]:
  "uri_st519 c =
     (if c = 35 then uri_tr559 else if c = 47 then uri_tr560 else if c = 58 then uri_tr561 else
      if c = 63 then uri_tr562 else if 48 \<le> c \<and> c \<le> 53 then goto 512 else goto 0)"

definition uri_st520 :: "int \<Rightarrow> uri_action jump" where [uri_code]:
  "uri_st520 c =
     (if c = 33 then goto 520 else if c = 35 then uri_tr559 else if c = 37 then goto 253 else
      if c = 47 then uri_tr560 else if c = 58 then uri_tr576 else if c = 61 then goto 520 else
      if c = 63 then uri_tr562 else if c = 64 then uri_tr263 else if c = 95 then goto 520 else
      if c = 126 then goto 520 else
      if c < 65 then (if 36 \<le> c \<and> c \<le> 59 then goto 520 else goto 0)
      else if c > 90 then (if 97 \<le> c \<and> c \<le> 122 then goto 520 else goto 0) else goto 520)"

definition uri_st521 :: "int \<Rightarrow> uri_action jump" where [uri_code]:
  "uri_st521 c =
     (if c = 33 then goto 255 else if c = 35 then uri_tr566 else if c = 37 then goto 256 else
      if c = 47 then uri_tr567 else if c = 61 then goto 255 else if c = 63 then uri_tr569 else
      if c = 64 then uri_tr263 else if c = 95 then goto 255 else if c = 126 then goto 255 else
      if c < 58 then (if c > 46 then (if 48 \<le> c \<and> c \<le> 57 then uri_tr577 else goto 0)
        else if c \<ge> 36 then goto 255 else goto 0)
      else if c > 59 then (if c > 90 then (if 97 \<le> c \<and> c \<le> 122 then goto 255 else goto 0)
        else if c \<ge> 65 then goto 255 else goto 0)
      else goto 255)"

definition uri_st522 :: "int \<Rightarrow> uri_action jump" where [uri_code]:
  "uri_st522 c =
     (if c = 2 then uri_tr546 else if c = 33 then uri_tr578 else if c = 35 then uri_tr548 else
      if c = 37 then uri_tr579 else if c = 47 then uri_tr550 else if c = 48 then uri_tr580 else
      if c = 49 then uri_tr581 else if c = 50 then uri_tr582 else if c = 58 then uri_tr584 else
      if c = 59 then uri_tr578 else if c = 61 then uri_tr578 else if c = 63 then uri_tr556 else
      if c = 91 then uri_tr558 else if c = 95 then uri_tr578 else
      if c = 126 then uri_tr578 else
      if c < 51 then (if 36 \<le> c \<and> c \<le> 46 then uri_tr578 else goto 0)
      else if c > 57 then (if c > 90 then (if 97 \<le> c \<and> c \<le> 122 then uri_tr578 else goto 0)
        else if c \<ge> 65 then uri_tr578 else goto 0)
      else uri_tr583)"

definition uri_st523 :: "int \<Rightarrow> uri_action jump" where [uri_code]:
  "uri_st523 c =
     (if c = 33 then goto 523 else if c = 35 then uri_tr559 else if c = 37 then goto 258 else
      if c = 47 then uri_tr560 else if c = 58 then uri_tr561 else if c = 61 then goto 523 else
      if c = 63 then uri_tr562 else if c = 95 then goto 523 else if c = 126 then goto 523 else
      if c < 65 then (if 36 \<le> c \<and> c \<le> 59 then goto 523 else goto 0)
      else if c > 90 then (if 97 \<le> c \<and> c \<le> 122 then goto 523 else goto 0) else goto 523)"

definition uri_st524 :: "int \<Rightarrow> uri_action jump" where [uri_code]:
  "uri_st524 c =
     (if c = 33 then goto 523 else if c = 35 then uri_tr559 else if c = 37 then goto 258 else
      if c = 46 then goto 525 else if c = 47 then uri_tr560 else if c = 58 then uri_tr561 else
      if c = 61 then goto 523 else if c = 63 then uri_tr562 else if c = 95 then goto 523 else
      if c = 126 then goto 523 else
      if c < 65 then (if 36 \<le> c \<and> c \<le> 59 then goto 523 else goto 0)
      else if c > 90 then (if 97 \<le> c \<and> c \<le> 122 then goto 523 else goto 0) else goto 523)"

definition uri_st525 :: "int \<Rightarrow> uri_action jump" where [uri_code]:
  "uri_st525 c =
     (if c = 2 then goto 233 else if c = 33 then goto 523 else if c = 35 then uri_tr559 else
      if c = 37 then goto 258 else if c = 47 then uri_tr560 else if c = 48 then goto 526 else
      if c = 49 then goto 534 else if c = 50 then goto 536 else if c = 58 then uri_tr561 else
      if c = 59 then goto 523 else if c = 61 then goto 523 else if c = 63 then uri_tr562 else
      if c = 95 then goto 523 else if c = 126 then goto 523 else
      if c < 51 then (if 36 \<le> c \<and> c \<le> 46 then goto 523 else goto 0)
      else if c > 57 then (if c > 90 then (if 97 \<le> c \<and> c \<le> 122 then goto 523 else goto 0)
        else if c \<ge> 65 then goto 523 else goto 0)
      else goto 535)"

definition uri_st526 :: "int \<Rightarrow> uri_action jump" where [uri_code]:
  "uri_st526 c =
     (if c = 33 then goto 523 else if c = 35 then uri_tr559 else if c = 37 then goto 258 else
      if c = 46 then goto 527 else if c = 47 then uri_tr560 else if c = 58 then uri_tr561 else
      if c = 61 then goto 523 else if c = 63 then uri_tr562 else if c = 95 then goto 523 else
      if c = 126 then goto 523 else
      if c < 65 then (if 36 \<le> c \<and> c \<le> 59 then goto 523 else goto 0)
      else if c > 90 then (if 97 \<le> c \<and> c \<le> 122 then goto 523 else goto 0) else goto 523)"

definition uri_st527 :: "int \<Rightarrow> uri_action jump" where [uri_code]:
  "uri_st527 c =
     (if c = 2 then goto 237 else if c = 33 then goto 523 else if c = 35 then uri_tr559 else
      if c = 37 then goto 258 else if c = 47 then uri_tr560 else if c = 48 then goto 528 else
      if c = 49 then goto 530 else if c = 50 then goto 532 else if c = 58 then uri_tr561 else
      if c = 59 then goto 523 else if c = 61 then goto 523 else if c = 63 then uri_tr562 else
      if c = 95 then goto 523 else if c = 126 then goto 523 else
      if c < 51 then (if 36 \<le> c \<and> c \<le> 46 then goto 523 else goto 0)
      else if c > 57 then (if c > 90 then (if 97 \<le> c \<and> c \<le> 122 then goto 523 else goto 0)
        else if c \<ge> 65 then goto 523 else goto 0)
      else goto 531)"

definition uri_st528 :: "int \<Rightarrow> uri_action jump" where [uri_code]:
  "uri_st528 c =
     (if c = 33 then goto 523 else if c = 35 then uri_tr559 else if c = 37 then goto 258 else
      if c = 46 then goto 529 else if c = 47 then uri_tr560 else if c = 58 then uri_tr561 else
      if c = 61 then goto 523 else if c = 63 then uri_tr562 else if c = 95 then goto 523 else
      if c = 126 then goto 523 else
      if c < 65 then (if 36 \<le> c \<and> c \<le> 59 then goto 523 else goto 0)
      else if c > 90 then (if 97 \<le> c \<and> c \<le> 122 then goto 523 else goto 0) else goto 523)"

definition uri_st529 :: "int \<Rightarrow> uri_action jump" where [uri_code]:
  "uri_st529 c =
     (if c = 2 then goto 241 else if c = 33 then goto 523 else if c = 35 then uri_tr559 else
      if c = 37 then goto 258 else if c = 47 then uri_tr560 else if c = 58 then uri_tr561 else
      if c = 61 then goto 523 else if c = 63 then uri_tr562 else if c = 95 then goto 523 else
      if c = 126 then goto 523 else
      if c < 65 then (if 36 \<le> c \<and> c \<le> 59 then goto 523 else goto 0)
      else if c > 90 then (if 97 \<le> c \<and> c \<le> 122 then goto 523 else goto 0) else goto 523)"

definition uri_st530 :: "int \<Rightarrow> uri_action jump" where [uri_code]:
  "uri_st530 c =
     (if c = 33 then goto 523 else if c = 35 then uri_tr559 else if c = 37 then goto 258 else
      if c = 46 then goto 529 else if c = 47 then uri_tr560 else if c = 58 then uri_tr561 else
      if c = 59 then goto 523 else if c = 61 then goto 523 else if c = 63 then uri_tr562 else
      if c = 95 then goto 523 else if c = 126 then goto 523 else
      if c < 48 then (if 36 \<le> c \<and> c \<le> 45 then goto 523 else goto 0)
      else if c > 57 then (if c > 90 then (if 97 \<le> c \<and> c \<le> 122 then goto 523 else goto 0)
        else if c \<ge> 65 then goto 523 else goto 0)
      else goto 531)"

definition uri_st531 :: "int \<Rightarrow> uri_action jump" where [uri_code]:
  "uri_st531 c =
     (if c = 33 then goto 523 else if c = 35 then uri_tr559 else if c = 37 then goto 258 else
      if c = 46 then goto 529 else if c = 47 then uri_tr560 else if c = 58 then uri_tr561 else
      if c = 59 then goto 523 else if c = 61 then goto 523 else if c = 63 then uri_tr562 else
      if c = 95 then goto 523 else if c = 126 then goto 523 else
      if c < 48 then (if 36 \<le> c \<and> c \<le> 45 then goto 523 else goto 0)
      else if c > 57 then (if c > 90 then (if 97 \<le> c \<and> c \<le> 122 then goto 523 else goto 0)
        else if c \<ge> 65 then goto 523 else goto 0)
      else goto 528)"

definition uri_st532 :: "int \<Rightarrow> uri_action jump" where [uri_code]:
  "uri_st532 c =
     (if c = 33 then goto 523 else if c = 35 then uri_tr559 else if c = 37 then goto 258 else
      if c = 46 then goto 529 else if c = 47 then uri_tr560 else if c = 53 then goto 533 else
      if c = 58 then uri_tr561 else if c = 59 then goto 523 else if c = 61 then goto 523 else
      if c = 63 then uri_tr562 else if c = 95 then goto 523 else if c = 126 then goto 523 else
      if c < 48 then (if 36 \<le> c \<and> c \<le> 45 then goto 523 else goto 0)
      else if c > 57 then (if c > 90 then (if 97 \<le> c \<and> c \<le> 122 then goto 523 else goto 0)
        else if c \<ge> 65 then goto 523 else goto 0)
      else goto 528)"

definition uri_st533 :: "int \<Rightarrow> uri_action jump" where [uri_code]:
  "uri_st533 c =
     (if c = 33 then goto 523 else if c = 35 then uri_tr559 else if c = 37 then goto 258 else
      if c = 46 then goto 529 else if c = 47 then uri_tr560 else if c = 58 then uri_tr561 else
      if c = 61 then goto 523 else if c = 63 then uri_tr562 else if c = 95 then goto 523 else
      if c = 126 then goto 523 else
      if c < 54 then (if c > 45 then (if 48 \<le> c \<and> c \<le> 53 then goto 528 else goto 0)
        else if c \<ge> 36 then goto 523 else goto 0)
      else if c > 59 then (if c > 90 then (if 97 \<le> c \<and> c \<le> 122 then goto 523 else goto 0)
        else if c \<ge> 65 then goto 523 else goto 0)
      else goto 523)"

definition uri_st534 :: "int \<Rightarrow> uri_action jump" where [uri_code]:
  "uri_st534 c =
     (if c = 33 then goto 523 else if c = 35 then uri_tr559 else if c = 37 then goto 258 else
      if c = 46 then goto 527 else if c = 47 then uri_tr560 else if c = 58 then uri_tr561 else
      if c = 59 then goto 523 else if c = 61 then goto 523 else if c = 63 then uri_tr562 else
      if c = 95 then goto 523 else if c = 126 then goto 523 else
      if c < 48 then (if 36 \<le> c \<and> c \<le> 45 then goto 523 else goto 0)
      else if c > 57 then (if c > 90 then (if 97 \<le> c \<and> c \<le> 122 then goto 523 else goto 0)
        else if c \<ge> 65 then goto 523 else goto 0)
      else goto 535)"

definition uri_st535 :: "int \<Rightarrow> uri_action jump" where [uri_code]:
  "uri_st535 c =
     (if c = 33 then goto 523 else if c = 35 then uri_tr559 else if c = 37 then goto 258 else
      if c = 46 then goto 527 else if c = 47 then uri_tr560 else if c = 58 then uri_tr561 else
      if c = 59 then goto 523 else if c = 61 then goto 523 else if c = 63 then uri_tr562 else
      if c = 95 then goto 523 else if c = 126 then goto 523 else
      if c < 48 then (if 36 \<le> c \<and> c \<le> 45 then goto 523 else goto 0)
      else if c > 57 then (if c > 90 then (if 97 \<le> c \<and> c \<le> 122 then goto 523 else goto 0)
        else if c \<ge> 65 then goto 523 else goto 0)
      else goto 526)"

definition uri_st536 :: "int \<Rightarrow> uri_action jump" where [uri_code]:
  "uri_st536 c =
     (if c = 33 then goto 523 else if c = 35 then uri_tr559 else if c = 37 then goto 258 else
      if c = 46 then goto 527 else if c = 47 then uri_tr560 else if c = 53 then goto 537 else
      if c = 58 then uri_tr561 else if c = 59 then goto 523 else if c = 61 then goto 523 else
      if c = 63 then uri_tr562 else if c = 95 then goto 523 else if c = 126 then goto 523 else
      if c < 48 then (if 36 \<le> c \<and> c \<le> 45 then goto 523 else goto 0)
      else if c > 57 then (if c > 90 then (if 97 \<le> c \<and> c \<le> 122 then goto 523 else goto 0)
        else if c \<ge> 65 then goto 523 else goto 0)
      else goto 526)"

definition uri_st537 :: "int \<Rightarrow> uri_action jump" where [uri_code]:
  "uri_st537 c =
     (if c = 33 then goto 523 else if c = 35 then uri_tr559 else if c = 37 then goto 258 else
      if c = 46 then goto 527 else if c = 47 then uri_tr560 else if c = 58 then uri_tr561 else
      if c = 61 then goto 523 else if c = 63 then uri_tr562 else if c = 95 then goto 523 else
      if c = 126 then goto 523 else
      if c < 54 then (if c > 45 then (if 48 \<le> c \<and> c \<le> 53 then goto 526 else goto 0)
        else if c \<ge> 36 then goto 523 else goto 0)
      else if c > 59 then (if c > 90 then (if 97 \<le> c \<and> c \<le> 122 then goto 523 else goto 0)
        else if c \<ge> 65 then goto 523 else goto 0)
      else goto 523)"

definition uri_st538 :: "int \<Rightarrow> uri_action jump" where [uri_code]:
  "uri_st538 c =
     (if c = 33 then goto 523 else if c = 35 then uri_tr559 else if c = 37 then goto 258 else
      if c = 46 then goto 525 else if c = 47 then uri_tr560 else if c = 58 then uri_tr561 else
      if c = 59 then goto 523 else if c = 61 then goto 523 else if c = 63 then uri_tr562 else
      if c = 95 then goto 523 else if c = 126 then goto 523 else
      if c < 48 then (if 36 \<le> c \<and> c \<le> 45 then goto 523 else goto 0)
      else if c > 57 then (if c > 90 then (if 97 \<le> c \<and> c \<le> 122 then goto 523 else goto 0)
        else if c \<ge> 65 then goto 523 else goto 0)
      else goto 539)"

definition uri_st539 :: "int \<Rightarrow> uri_action jump" where [uri_code]:
  "uri_st539 c =
     (if c = 33 then goto 523 else if c = 35 then uri_tr559 else if c = 37 then goto 258 else
      if c = 46 then goto 525 else if c = 47 then uri_tr560 else if c = 58 then uri_tr561 else
      if c = 59 then goto 523 else if c = 61 then goto 523 else if c = 63 then uri_tr562 else
      if c = 95 then goto 523 else if c = 126 then goto 523 else
      if c < 48 then (if 36 \<le> c \<and> c \<le> 45 then goto 523 else goto 0)
      else if c > 57 then (if c > 90 then (if 97 \<le> c \<and> c \<le> 122 then goto 523 else goto 0)
        else if c \<ge> 65 then goto 523 else goto 0)
      else goto 524)"

definition uri_st540 :: "int \<Rightarrow> uri_action jump" where [uri_code]:
  "uri_st540 c =
     (if c = 33 then goto 523 else if c = 35 then uri_tr559 else if c = 37 then goto 258 else
      if c = 46 then goto 525 else if c = 47 then uri_tr560 else if c = 53 then goto 541 else
      if c = 58 then uri_tr561 else if c = 59 then goto 523 else if c = 61 then goto 523 else
      if c = 63 then uri_tr562 else if c = 95 then goto 523 else if c = 126 then goto 523 else
      if c < 48 then (if 36 \<le> c \<and> c \<le> 45 then goto 523 else goto 0)
      else if c > 57 then (if c > 90 then (if 97 \<le> c \<and> c \<le> 122 then goto 523 else goto 0)
        else if c \<ge> 65 then goto 523 else goto 0)
      else goto 524)"

definition uri_st541 :: "int \<Rightarrow> uri_action jump" where [uri_code]:
  "uri_st541 c =
     (if c = 33 then goto 523 else if c = 35 then uri_tr559 else if c = 37 then goto 258 else
      if c = 46 then goto 525 else if c = 47 then uri_tr560 else if c = 58 then uri_tr561 else
      if c = 61 then goto 523 else if c = 63 then uri_tr562 else if c = 95 then goto 523 else
      if c = 126 then goto 523 else
      if c < 54 then (if c > 45 then (if 48 \<le> c \<and> c \<le> 53 then goto 524 else goto 0)
        else if c \<ge> 36 then goto 523 else goto 0)
      else if c > 59 then (if c > 90 then (if 97 \<le> c \<and> c \<le> 122 then goto 523 else goto 0)
        else if c \<ge> 65 then goto 523 else goto 0)
      else goto 523)"

definition uri_st542 :: "int \<Rightarrow> uri_action jump" where [uri_code]:
  "uri_st542 c =
     (if c = 33 then goto 255 else if c = 35 then uri_tr570 else if c = 37 then goto 256 else
      if c = 47 then uri_tr571 else if c = 61 then goto 255 else if c = 63 then uri_tr573 else
      if c = 64 then uri_tr263 else if c = 95 then goto 255 else if c = 126 then goto 255 else
      if c < 58 then (if c > 46 then (if 48 \<le> c \<and> c \<le> 57 then goto 542 else goto 0)
        else if c \<ge> 36 then goto 255 else goto 0)
      else if c > 59 then (if c > 90 then (if 97 \<le> c \<and> c \<le> 122 then goto 255 else goto 0)
        else if c \<ge> 65 then goto 255 else goto 0)
      else goto 255)"

definition uri_st543 :: "int \<Rightarrow> uri_action jump" where [uri_code]:
  "uri_st543 c =
     (if c = 33 then goto 520 else if c = 35 then uri_tr559 else if c = 37 then goto 253 else
      if c = 46 then goto 544 else if c = 47 then uri_tr560 else if c = 58 then uri_tr576 else
      if c = 61 then goto 520 else if c = 63 then uri_tr562 else if c = 64 then uri_tr263 else
      if c = 95 then goto 520 else if c = 126 then goto 520 else
      if c < 65 then (if 36 \<le> c \<and> c \<le> 59 then goto 520 else goto 0)
      else if c > 90 then (if 97 \<le> c \<and> c \<le> 122 then goto 520 else goto 0) else goto 520)"

definition uri_st544 :: "int \<Rightarrow> uri_action jump" where [uri_code]:
  "uri_st544 c =
     (if c = 2 then goto 233 else if c = 33 then goto 520 else if c = 35 then uri_tr559 else
      if c = 37 then goto 253 else if c = 47 then uri_tr560 else if c = 48 then goto 545 else
      if c = 49 then goto 553 else if c = 50 then goto 555 else if c = 58 then uri_tr576 else
      if c = 59 then goto 520 else if c = 61 then goto 520 else if c = 63 then uri_tr562 else
      if c = 64 then uri_tr263 else if c = 95 then goto 520 else if c = 126 then goto 520 else
      if c < 51 then (if 36 \<le> c \<and> c \<le> 46 then goto 520 else goto 0)
      else if c > 57 then (if c > 90 then (if 97 \<le> c \<and> c \<le> 122 then goto 520 else goto 0)
        else if c \<ge> 65 then goto 520 else goto 0)
      else goto 554)"

definition uri_st545 :: "int \<Rightarrow> uri_action jump" where [uri_code]:
  "uri_st545 c =
     (if c = 33 then goto 520 else if c = 35 then uri_tr559 else if c = 37 then goto 253 else
      if c = 46 then goto 546 else if c = 47 then uri_tr560 else if c = 58 then uri_tr576 else
      if c = 61 then goto 520 else if c = 63 then uri_tr562 else if c = 64 then uri_tr263 else
      if c = 95 then goto 520 else if c = 126 then goto 520 else
      if c < 65 then (if 36 \<le> c \<and> c \<le> 59 then goto 520 else goto 0)
      else if c > 90 then (if 97 \<le> c \<and> c \<le> 122 then goto 520 else goto 0) else goto 520)"

definition uri_st546 :: "int \<Rightarrow> uri_action jump" where [uri_code]:
  "uri_st546 c =
     (if c = 2 then goto 237 else if c = 33 then goto 520 else if c = 35 then uri_tr559 else
      if c = 37 then goto 253 else if c = 47 then uri_tr560 else if c = 48 then goto 547 else
      if c = 49 then goto 549 else if c = 50 then goto 551 else if c = 58 then uri_tr576 else
      if c = 59 then goto 520 else if c = 61 then goto 520 else if c = 63 then uri_tr562 else
      if c = 64 then uri_tr263 else if c = 95 then goto 520 else if c = 126 then goto 520 else
      if c < 51 then (if 36 \<le> c \<and> c \<le> 46 then goto 520 else goto 0)
      else if c > 57 then (if c > 90 then (if 97 \<le> c \<and> c \<le> 122 then goto 520 else goto 0)
        else if c \<ge> 65 then goto 520 else goto 0)
      else goto 550)"

definition uri_st547 :: "int \<Rightarrow> uri_action jump" where [uri_code]:
  "uri_st547 c =
     (if c = 33 then goto 520 else if c = 35 then uri_tr559 else if c = 37 then goto 253 else
      if c = 46 then goto 548 else if c = 47 then uri_tr560 else if c = 58 then uri_tr576 else
      if c = 61 then goto 520 else if c = 63 then uri_tr562 else if c = 64 then uri_tr263 else
      if c = 95 then goto 520 else if c = 126 then goto 520 else
      if c < 65 then (if 36 \<le> c \<and> c \<le> 59 then goto 520 else goto 0)
      else if c > 90 then (if 97 \<le> c \<and> c \<le> 122 then goto 520 else goto 0) else goto 520)"

definition uri_st548 :: "int \<Rightarrow> uri_action jump" where [uri_code]:
  "uri_st548 c =
     (if c = 2 then goto 241 else if c = 33 then goto 520 else if c = 35 then uri_tr559 else
      if c = 37 then goto 253 else if c = 47 then uri_tr560 else if c = 58 then uri_tr576 else
      if c = 61 then goto 520 else if c = 63 then uri_tr562 else if c = 64 then uri_tr263 else
      if c = 95 then goto 520 else if c = 126 then goto 520 else
      if c < 65 then (if 36 \<le> c \<and> c \<le> 59 then goto 520 else goto 0)
      else if c > 90 then (if 97 \<le> c \<and> c \<le> 122 then goto 520 else goto 0) else goto 520)"

definition uri_st549 :: "int \<Rightarrow> uri_action jump" where [uri_code]:
  "uri_st549 c =
     (if c = 33 then goto 520 else if c = 35 then uri_tr559 else if c = 37 then goto 253 else
      if c = 46 then goto 548 else if c = 47 then uri_tr560 else if c = 58 then uri_tr576 else
      if c = 59 then goto 520 else if c = 61 then goto 520 else if c = 63 then uri_tr562 else
      if c = 64 then uri_tr263 else if c = 95 then goto 520 else if c = 126 then goto 520 else
      if c < 48 then (if 36 \<le> c \<and> c \<le> 45 then goto 520 else goto 0)
      else if c > 57 then (if c > 90 then (if 97 \<le> c \<and> c \<le> 122 then goto 520 else goto 0)
        else if c \<ge> 65 then goto 520 else goto 0)
      else goto 550)"

definition uri_st550 :: "int \<Rightarrow> uri_action jump" where [uri_code]:
  "uri_st550 c =
     (if c = 33 then goto 520 else if c = 35 then uri_tr559 else if c = 37 then goto 253 else
      if c = 46 then goto 548 else if c = 47 then uri_tr560 else if c = 58 then uri_tr576 else
      if c = 59 then goto 520 else if c = 61 then goto 520 else if c = 63 then uri_tr562 else
      if c = 64 then uri_tr263 else if c = 95 then goto 520 else if c = 126 then goto 520 else
      if c < 48 then (if 36 \<le> c \<and> c \<le> 45 then goto 520 else goto 0)
      else if c > 57 then (if c > 90 then (if 97 \<le> c \<and> c \<le> 122 then goto 520 else goto 0)
        else if c \<ge> 65 then goto 520 else goto 0)
      else goto 547)"

definition uri_st551 :: "int \<Rightarrow> uri_action jump" where [uri_code]:
  "uri_st551 c =
     (if c = 33 then goto 520 else if c = 35 then uri_tr559 else if c = 37 then goto 253 else
      if c = 46 then goto 548 else if c = 47 then uri_tr560 else if c = 53 then goto 552 else
      if c = 58 then uri_tr576 else if c = 59 then goto 520 else if c = 61 then goto 520 else
      if c = 63 then uri_tr562 else if c = 64 then uri_tr263 else if c = 95 then goto 520 else
      if c = 126 then goto 520 else
      if c < 48 then (if 36 \<le> c \<and> c \<le> 45 then goto 520 else goto 0)
      else if c > 57 then (if c > 90 then (if 97 \<le> c \<and> c \<le> 122 then goto 520 else goto 0)
        else if c \<ge> 65 then goto 520 else goto 0)
      else goto 547)"

definition uri_st552 :: "int \<Rightarrow> uri_action jump" where [uri_code]:
  "uri_st552 c =
     (if c = 33 then goto 520 else if c = 35 then uri_tr559 else if c = 37 then goto 253 else
      if c = 46 then goto 548 else if c = 47 then uri_tr560 else if c = 58 then uri_tr576 else
      if c = 61 then goto 520 else if c = 63 then uri_tr562 else if c = 64 then uri_tr263 else
      if c = 95 then goto 520 else if c = 126 then goto 520 else
      if c < 54 then (if c > 45 then (if 48 \<le> c \<and> c \<le> 53 then goto 547 else goto 0)
        else if c \<ge> 36 then goto 520 else goto 0)
      else if c > 59 then (if c > 90 then (if 97 \<le> c \<and> c \<le> 122 then goto 520 else goto 0)
        else if c \<ge> 65 then goto 520 else goto 0)
      else goto 520)"

definition uri_st553 :: "int \<Rightarrow> uri_action jump" where [uri_code]:
  "uri_st553 c =
     (if c = 33 then goto 520 else if c = 35 then uri_tr559 else if c = 37 then goto 253 else
      if c = 46 then goto 546 else if c = 47 then uri_tr560 else if c = 58 then uri_tr576 else
      if c = 59 then goto 520 else if c = 61 then goto 520 else if c = 63 then uri_tr562 else
      if c = 64 then uri_tr263 else if c = 95 then goto 520 else if c = 126 then goto 520 else
      if c < 48 then (if 36 \<le> c \<and> c \<le> 45 then goto 520 else goto 0)
      else if c > 57 then (if c > 90 then (if 97 \<le> c \<and> c \<le> 122 then goto 520 else goto 0)
        else if c \<ge> 65 then goto 520 else goto 0)
      else goto 554)"

definition uri_st554 :: "int \<Rightarrow> uri_action jump" where [uri_code]:
  "uri_st554 c =
     (if c = 33 then goto 520 else if c = 35 then uri_tr559 else if c = 37 then goto 253 else
      if c = 46 then goto 546 else if c = 47 then uri_tr560 else if c = 58 then uri_tr576 else
      if c = 59 then goto 520 else if c = 61 then goto 520 else if c = 63 then uri_tr562 else
      if c = 64 then uri_tr263 else if c = 95 then goto 520 else if c = 126 then goto 520 else
      if c < 48 then (if 36 \<le> c \<and> c \<le> 45 then goto 520 else goto 0)
      else if c > 57 then (if c > 90 then (if 97 \<le> c \<and> c \<le> 122 then goto 520 else goto 0)
        else if c \<ge> 65 then goto 520 else goto 0)
      else goto 545)"

definition uri_st555 :: "int \<Rightarrow> uri_action jump" where [uri_code]:
  "uri_st555 c =
     (if c = 33 then goto 520 else if c = 35 then uri_tr559 else if c = 37 then goto 253 else
      if c = 46 then goto 546 else if c = 47 then uri_tr560 else if c = 53 then goto 556 else
      if c = 58 then uri_tr576 else if c = 59 then goto 520 else if c = 61 then goto 520 else
      if c = 63 then uri_tr562 else if c = 64 then uri_tr263 else if c = 95 then goto 520 else
      if c = 126 then goto 520 else
      if c < 48 then (if 36 \<le> c \<and> c \<le> 45 then goto 520 else goto 0)
      else if c > 57 then (if c > 90 then (if 97 \<le> c \<and> c \<le> 122 then goto 520 else goto 0)
        else if c \<ge> 65 then goto 520 else goto 0)
      else goto 545)"

definition uri_st556 :: "int \<Rightarrow> uri_action jump" where [uri_code]:
  "uri_st556 c =
     (if c = 33 then goto 520 else if c = 35 then uri_tr559 else if c = 37 then goto 253 else
      if c = 46 then goto 546 else if c = 47 then uri_tr560 else if c = 58 then uri_tr576 else
      if c = 61 then goto 520 else if c = 63 then uri_tr562 else if c = 64 then uri_tr263 else
      if c = 95 then goto 520 else if c = 126 then goto 520 else
      if c < 54 then (if c > 45 then (if 48 \<le> c \<and> c \<le> 53 then goto 545 else goto 0)
        else if c \<ge> 36 then goto 520 else goto 0)
      else if c > 59 then (if c > 90 then (if 97 \<le> c \<and> c \<le> 122 then goto 520 else goto 0)
        else if c \<ge> 65 then goto 520 else goto 0)
      else goto 520)"

definition uri_st557 :: "int \<Rightarrow> uri_action jump" where [uri_code]:
  "uri_st557 c =
     (if c = 33 then goto 520 else if c = 35 then uri_tr559 else if c = 37 then goto 253 else
      if c = 46 then goto 544 else if c = 47 then uri_tr560 else if c = 58 then uri_tr576 else
      if c = 59 then goto 520 else if c = 61 then goto 520 else if c = 63 then uri_tr562 else
      if c = 64 then uri_tr263 else if c = 95 then goto 520 else if c = 126 then goto 520 else
      if c < 48 then (if 36 \<le> c \<and> c \<le> 45 then goto 520 else goto 0)
      else if c > 57 then (if c > 90 then (if 97 \<le> c \<and> c \<le> 122 then goto 520 else goto 0)
        else if c \<ge> 65 then goto 520 else goto 0)
      else goto 558)"

definition uri_st558 :: "int \<Rightarrow> uri_action jump" where [uri_code]:
  "uri_st558 c =
     (if c = 33 then goto 520 else if c = 35 then uri_tr559 else if c = 37 then goto 253 else
      if c = 46 then goto 544 else if c = 47 then uri_tr560 else if c = 58 then uri_tr576 else
      if c = 59 then goto 520 else if c = 61 then goto 520 else if c = 63 then uri_tr562 else
      if c = 64 then uri_tr263 else if c = 95 then goto 520 else if c = 126 then goto 520 else
      if c < 48 then (if 36 \<le> c \<and> c \<le> 45 then goto 520 else goto 0)
      else if c > 57 then (if c > 90 then (if 97 \<le> c \<and> c \<le> 122 then goto 520 else goto 0)
        else if c \<ge> 65 then goto 520 else goto 0)
      else goto 543)"

definition uri_st559 :: "int \<Rightarrow> uri_action jump" where [uri_code]:
  "uri_st559 c =
     (if c = 33 then goto 520 else if c = 35 then uri_tr559 else if c = 37 then goto 253 else
      if c = 46 then goto 544 else if c = 47 then uri_tr560 else if c = 53 then goto 560 else
      if c = 58 then uri_tr576 else if c = 59 then goto 520 else if c = 61 then goto 520 else
      if c = 63 then uri_tr562 else if c = 64 then uri_tr263 else if c = 95 then goto 520 else
      if c = 126 then goto 520 else
      if c < 48 then (if 36 \<le> c \<and> c \<le> 45 then goto 520 else goto 0)
      else if c > 57 then (if c > 90 then (if 97 \<le> c \<and> c \<le> 122 then goto 520 else goto 0)
        else if c \<ge> 65 then goto 520 else goto 0)
      else goto 543)"

definition uri_st560 :: "int \<Rightarrow> uri_action jump" where [uri_code]:
  "uri_st560 c =
     (if c = 33 then goto 520 else if c = 35 then uri_tr559 else if c = 37 then goto 253 else
      if c = 46 then goto 544 else if c = 47 then uri_tr560 else if c = 58 then uri_tr576 else
      if c = 61 then goto 520 else if c = 63 then uri_tr562 else if c = 64 then uri_tr263 else
      if c = 95 then goto 520 else if c = 126 then goto 520 else
      if c < 54 then (if c > 45 then (if 48 \<le> c \<and> c \<le> 53 then goto 543 else goto 0)
        else if c \<ge> 36 then goto 520 else goto 0)
      else if c > 59 then (if c > 90 then (if 97 \<le> c \<and> c \<le> 122 then goto 520 else goto 0)
        else if c \<ge> 65 then goto 520 else goto 0)
      else goto 520)"

subsection \<open>The step function\<close>

text \<open>
  \<open>switch (cs)\<close>: the code of the current state.
\<close>

definition uri_states :: "(int \<Rightarrow> uri_action jump) list" where
  "uri_states =
   [(\<lambda>c. goto 0),
    uri_st1, uri_st2, uri_st3, uri_st4, uri_st5, uri_st6, uri_st7, uri_st8, uri_st9, uri_st10,
    uri_st11, uri_st12, uri_st13, uri_st14, uri_st15, uri_st16, uri_st17, uri_st18, uri_st19,
    uri_st20, uri_st21, uri_st22, uri_st23, uri_st24, uri_st25, uri_st26, uri_st27, uri_st28,
    uri_st29, uri_st30, uri_st31, uri_st32, uri_st33, uri_st34, uri_st35, uri_st36, uri_st37,
    uri_st38, uri_st39, uri_st40, uri_st41, uri_st42, uri_st43, uri_st44, uri_st45, uri_st46,
    uri_st47, uri_st48, uri_st49, uri_st50, uri_st51, uri_st52, uri_st53, uri_st54, uri_st55,
    uri_st56, uri_st57, uri_st58, uri_st59, uri_st60, uri_st61, uri_st62, uri_st63, uri_st64,
    uri_st65, uri_st66, uri_st67, uri_st68, uri_st69, uri_st70, uri_st71, uri_st72, uri_st73,
    uri_st74, uri_st75, uri_st76, uri_st77, uri_st78, uri_st79, uri_st80, uri_st81, uri_st82,
    uri_st83, uri_st84, uri_st85, uri_st86, uri_st87, uri_st88, uri_st89, uri_st90, uri_st91,
    uri_st92, uri_st93, uri_st94, uri_st95, uri_st96, uri_st97, uri_st98, uri_st99, uri_st100,
    uri_st101, uri_st102, uri_st103, uri_st104, uri_st105, uri_st106, uri_st107, uri_st108,
    uri_st109, uri_st110, uri_st111, uri_st112, uri_st113, uri_st114, uri_st115, uri_st116,
    uri_st117, uri_st118, uri_st119, uri_st120, uri_st121, uri_st122, uri_st123, uri_st124,
    uri_st125, uri_st126, uri_st127, uri_st128, uri_st129, uri_st130, uri_st131, uri_st132,
    uri_st133, uri_st134, uri_st135, uri_st136, uri_st137, uri_st138, uri_st139, uri_st140,
    uri_st141, uri_st142, uri_st143, uri_st144, uri_st145, uri_st146, uri_st147, uri_st148,
    uri_st149, uri_st150, uri_st151, uri_st152, uri_st153, uri_st154, uri_st155, uri_st156,
    uri_st157, uri_st158, uri_st159, uri_st160, uri_st161, uri_st162, uri_st163, uri_st164,
    uri_st165, uri_st166, uri_st167, uri_st168, uri_st169, uri_st170, uri_st171, uri_st172,
    uri_st173, uri_st174, uri_st175, uri_st176, uri_st177, uri_st178, uri_st179, uri_st180,
    uri_st181, uri_st182, uri_st183, uri_st184, uri_st185, uri_st186, uri_st187, uri_st188,
    uri_st189, uri_st190, uri_st191, uri_st192, uri_st193, uri_st194, uri_st195, uri_st196,
    uri_st197, uri_st198, uri_st199, uri_st200, uri_st201, uri_st202, uri_st203, uri_st204,
    uri_st205, uri_st206, uri_st207, uri_st208, uri_st209, uri_st210, uri_st211, uri_st212,
    uri_st213, uri_st214, uri_st215, uri_st216, uri_st217, uri_st218, uri_st219, uri_st220,
    uri_st221, uri_st222, uri_st223, uri_st224, uri_st225, uri_st226, uri_st227, uri_st228,
    uri_st229, uri_st230, uri_st231, uri_st232, uri_st233, uri_st234, uri_st235, uri_st236,
    uri_st237, uri_st238, uri_st239, uri_st240, uri_st241, uri_st242, uri_st243, uri_st244,
    uri_st245, uri_st246, uri_st247, uri_st248, uri_st249, uri_st250, uri_st251, uri_st252,
    uri_st253, uri_st254, uri_st255, uri_st256, uri_st257, uri_st258, uri_st259, uri_st260,
    uri_st261, uri_st262, uri_st263, uri_st264, uri_st265, uri_st266, uri_st267, uri_st268,
    uri_st269, uri_st270, uri_st271, uri_st272, uri_st273, uri_st274, uri_st275, uri_st276,
    uri_st277, uri_st278, uri_st279, uri_st280, uri_st281, uri_st282, uri_st283, uri_st284,
    uri_st285, uri_st286, uri_st287, uri_st288, uri_st289, uri_st290, uri_st291, uri_st292,
    uri_st293, uri_st294, uri_st295, uri_st296, uri_st297, uri_st298, uri_st299, uri_st300,
    uri_st301, uri_st302, uri_st303, uri_st304, uri_st305, uri_st306, uri_st307, uri_st308,
    uri_st309, uri_st310, uri_st311, uri_st312, uri_st313, uri_st314, uri_st315, uri_st316,
    uri_st317, uri_st318, uri_st319, uri_st320, uri_st321, uri_st322, uri_st323, uri_st324,
    uri_st325, uri_st326, uri_st327, uri_st328, uri_st329, uri_st330, uri_st331, uri_st332,
    uri_st333, uri_st334, uri_st335, uri_st336, uri_st337, uri_st338, uri_st339, uri_st340,
    uri_st341, uri_st342, uri_st343, uri_st344, uri_st345, uri_st346, uri_st347, uri_st348,
    uri_st349, uri_st350, uri_st351, uri_st352, uri_st353, uri_st354, uri_st355, uri_st356,
    uri_st357, uri_st358, uri_st359, uri_st360, uri_st361, uri_st362, uri_st363, uri_st364,
    uri_st365, uri_st366, uri_st367, uri_st368, uri_st369, uri_st370, uri_st371, uri_st372,
    uri_st373, uri_st374, uri_st375, uri_st376, uri_st377, uri_st378, uri_st379, uri_st380,
    uri_st381, uri_st382, uri_st383, uri_st384, uri_st385, uri_st386, uri_st387, uri_st388,
    uri_st389, uri_st390, uri_st391, uri_st392, uri_st393, uri_st394, uri_st395, uri_st396,
    uri_st397, uri_st398, uri_st399, uri_st400, uri_st401, uri_st402, uri_st403, uri_st404,
    uri_st405, uri_st406, uri_st407, uri_st408, uri_st409, uri_st410, uri_st411, uri_st412,
    uri_st413, uri_st414, uri_st415, uri_st416, uri_st417, uri_st418, uri_st419, uri_st420,
    uri_st421, uri_st422, uri_st423, uri_st424, uri_st425, uri_st426, uri_st427, uri_st428,
    uri_st429, uri_st430, uri_st431, uri_st432, uri_st433, uri_st434, uri_st435, uri_st436,
    uri_st437, uri_st438, uri_st439, uri_st440, uri_st441, uri_st442, uri_st443, uri_st444,
    uri_st445, uri_st446, uri_st447, uri_st448, uri_st449, uri_st450, uri_st451, uri_st452,
    uri_st453, uri_st454, uri_st455, uri_st456, uri_st457, uri_st458, uri_st459, uri_st460,
    uri_st461, uri_st462, uri_st463, uri_st464, uri_st465, uri_st466, uri_st467, uri_st468,
    uri_st469, uri_st470, uri_st471, uri_st472, uri_st473, uri_st474, uri_st475, uri_st476,
    uri_st477, uri_st478, uri_st479, uri_st480, uri_st481, uri_st482, uri_st483, uri_st484,
    uri_st485, uri_st486, uri_st487, uri_st488, uri_st489, uri_st490, uri_st491, uri_st492,
    uri_st493, uri_st494, uri_st495, uri_st496, uri_st497, uri_st498, uri_st499, uri_st500,
    uri_st501, uri_st502, uri_st503, uri_st504, uri_st505, uri_st506, uri_st507, uri_st508,
    uri_st509, uri_st510, uri_st511, uri_st512, uri_st513, uri_st514, uri_st515, uri_st516,
    uri_st517, uri_st518, uri_st519, uri_st520, uri_st521, uri_st522, uri_st523, uri_st524,
    uri_st525, uri_st526, uri_st527, uri_st528, uri_st529, uri_st530, uri_st531, uri_st532,
    uri_st533, uri_st534, uri_st535, uri_st536, uri_st537, uri_st538, uri_st539, uri_st540,
    uri_st541, uri_st542, uri_st543, uri_st544, uri_st545, uri_st546, uri_st547, uri_st548,
    uri_st549, uri_st550, uri_st551, uri_st552, uri_st553, uri_st554, uri_st555, uri_st556,
    uri_st557, uri_st558, uri_st559, uri_st560]"

definition uri_step :: "uri_action ragel_step" where
  "uri_step cs c = (if cs < length uri_states then (uri_states ! cs) c else goto 0)"

text \<open>The actions of a state when the input ends in it.\<close>

definition uri_eof :: "nat \<Rightarrow> uri_action list" where
  "uri_eof cs =
     (if cs = 462 \<or> cs = 489 then [U_save_port]
      else if cs = 460 \<or> 463 \<le> cs \<and> cs \<le> 467 \<or> 470 \<le> cs \<and> cs \<le> 488 \<or> 490 \<le> cs \<and> cs \<le> 507 then [U_save_host]
      else if cs = 513 then [U_save_path]
      else if cs = 457 then [U_save_query]
      else if cs = 454 then [U_save_fragment]
      else if cs = 456 then [U_marku, U_save_query]
      else if cs = 453 then [U_marku, U_save_fragment]
      else if cs = 461 \<or> cs = 468 then [U_markh, U_save_port]
      else if cs = 459 \<or> cs = 469 then [U_markh, U_save_host]
      else if cs = 514 \<or> cs = 521 then [U_markh, U_save_port, U_save_path]
      else if cs = 511 \<or> cs = 522 then [U_markh, U_save_host, U_save_path]
      else if cs = 515 \<or> cs = 542 then [U_save_port, U_markh, U_save_path]
      else if cs = 512 \<or> 516 \<le> cs \<and> cs \<le> 520 \<or> 523 \<le> cs \<and> cs \<le> 541 \<or> 543 \<le> cs \<and> cs \<le> 560 then [U_save_host, U_markh, U_save_path]
      else [])"

end
