(* ===== verification/Civan_Address.thy ===== *)
theory Civan_Address
  imports Civan_Endian Civan_Text
begin

section \<open>Addresses: \<open>civan/address.cc\<close> and \<open>address.h\<close>\<close>

text \<open>
  IPv4, IPv6, Unix and unknown socket addresses over the C structures they wrap, their
  printing, comparison, and network arithmetic, and the splitting of a host string into
  node and service. The port and the IPv4 address are stored in network byte order; the
  byte order of the host is the argument \<open>h\<close>, as in \<open>Civan_Endian\<close>. The resolver
  (\<open>getaddrinfo\<close>, \<open>getifaddrs\<close>, \<open>inet_pton\<close>) is an argument of what calls it.
\<close>

subsection \<open>Masks and bit counts\<close>

text \<open>
  The shift is of an \<open>int\<close> by a \<open>size_t\<close>: by 32 or more it is undefined. The difference
  below it wraps as in the 32-bit registers.
\<close>

definition CreateMask :: "nat \<Rightarrow> u32 \<Rightarrow> 'a::len word res" where
  "CreateMask width bits = (let sh = sz_sub width (unat bits) in
     if 32 \<le> sh then Inl BadShift else Inr (ucast (push_bit sh 1 - 1 :: u32)))"

lemma and_minus_1_less: "w \<noteq> 0 \<Longrightarrow> unat (w AND (w - 1)) < unat (w :: 'a::len word)"
proof -
  assume "w \<noteq> 0"
  then have "unat (w - 1) < unat w" by (simp add: unat_minus_one unat_gt_0)
  then show ?thesis using word_and_le1 [of w "w - 1"] by (simp add: word_le_nat_alt)
qed

function CountBytes :: "'a::len word \<Rightarrow> nat" where
  "CountBytes w = (if w = 0 then 0 else Suc (CountBytes (w AND (w - 1))))"
  by pat_completeness auto
termination
  by (relation "measure unat") (simp_all add: and_minus_1_less)

declare CountBytes.simps [simp del]

subsection \<open>The structures\<close>

record sockaddr_in =
  sin_family :: u16
  sin_port :: u16
  s_addr :: u32
  sin_zero :: "u8 list"

record sockaddr_in6 =
  sin6_family :: u16
  sin6_port :: u16
  sin6_flowinfo :: u32
  s6_addr :: "u8 list"
  sin6_scope_id :: u32

record sockaddr_un =
  sun_family :: u16
  sun_path :: "u8 list"

record sockaddr =
  sa_family :: u16
  sa_data :: "u8 list"

datatype Address =
    IPv4Address sockaddr_in
  | IPv6Address sockaddr_in6
  | UnixAddress sockaddr_un nat
  | UnknownAddress sockaddr

definition AF_UNSPEC :: u16 where "AF_UNSPEC = 0"
definition AF_UNIX_v :: u16 where "AF_UNIX_v = 1"
definition AF_INET_v :: u16 where "AF_INET_v = 2"
definition AF_INET6_v :: u16 where "AF_INET6_v = 10"

fun getAddr :: "endian \<Rightarrow> Address \<Rightarrow> u8 list" where
  "getAddr h (IPv4Address a) = mem_bytes h (sin_family a) @ mem_bytes h (sin_port a) @ mem_bytes h (s_addr a) @ sin_zero a"
| "getAddr h (IPv6Address a) = mem_bytes h (sin6_family a) @ mem_bytes h (sin6_port a) @ mem_bytes h (sin6_flowinfo a)
     @ s6_addr a @ mem_bytes h (sin6_scope_id a)"
| "getAddr h (UnixAddress a n) = mem_bytes h (sun_family a) @ sun_path a"
| "getAddr h (UnknownAddress a) = mem_bytes h (sa_family a) @ sa_data a"

fun getAddrLen :: "Address \<Rightarrow> nat" where
  "getAddrLen (IPv4Address a) = 16"
| "getAddrLen (IPv6Address a) = 28"
| "getAddrLen (UnixAddress a n) = n"
| "getAddrLen (UnknownAddress a) = 16"

fun getFamily :: "Address \<Rightarrow> u16" where
  "getFamily (IPv4Address a) = sin_family a"
| "getFamily (IPv6Address a) = sin6_family a"
| "getFamily (UnixAddress a n) = sun_family a"
| "getFamily (UnknownAddress a) = sa_family a"

subsection \<open>Comparison\<close>

fun memcmp :: "u8 list \<Rightarrow> u8 list \<Rightarrow> int" where
  "memcmp (a # as) (b # bs) = (if a = b then memcmp as bs else uint a - uint b)"
| "memcmp _ _ = 0"

definition Address_less :: "endian \<Rightarrow> Address \<Rightarrow> Address \<Rightarrow> bool" where
  "Address_less h a rhs =
     (let minlen = min (getAddrLen a) (getAddrLen rhs);
          result = memcmp (take minlen (getAddr h a)) (take minlen (getAddr h rhs))
      in if result < 0 then True else if result > 0 then False
         else if getAddrLen a < getAddrLen rhs then True else False)"

definition Address_eq :: "endian \<Rightarrow> Address \<Rightarrow> Address \<Rightarrow> bool" where
  "Address_eq h a rhs \<longleftrightarrow> getAddrLen a = getAddrLen rhs \<and>
     memcmp (take (getAddrLen a) (getAddr h a)) (take (getAddrLen a) (getAddr h rhs)) = 0"

definition Address_neq :: "endian \<Rightarrow> Address \<Rightarrow> Address \<Rightarrow> bool" where
  "Address_neq h a rhs \<longleftrightarrow> \<not> Address_eq h a rhs"

subsection \<open>IPv4\<close>

definition new_IPv4Address :: "endian \<Rightarrow> u32 \<Rightarrow> u16 \<Rightarrow> sockaddr_in" where
  "new_IPv4Address h address port = \<lparr>sin_family = AF_INET_v, sin_port = byteswapOnLittleEndian h port,
     s_addr = byteswapOnLittleEndian h address, sin_zero = replicate 8 0\<rparr>"

text \<open>\<open>inet_pton\<close> gives the address in network order, or fails.\<close>

definition IPv4Address_Create :: "endian \<Rightarrow> (u8 list \<Rightarrow> u32 option) \<Rightarrow> u8 list \<Rightarrow> u16 \<Rightarrow> sockaddr_in option" where
  "IPv4Address_Create h inet_pton address port = (case inet_pton address of None \<Rightarrow> None
     | Some w \<Rightarrow> Some ((new_IPv4Address h 0 0)\<lparr>s_addr := w, sin_port := byteswapOnLittleEndian h port\<rparr>))"

definition IPv4_insert :: "endian \<Rightarrow> sockaddr_in \<Rightarrow> u8 list" where
  "IPv4_insert h a = (let addr = byteswapOnLittleEndian h (s_addr a) in
     show_nat (unat (drop_bit 24 addr AND 0xff)) @ lit ''.'' @ show_nat (unat (drop_bit 16 addr AND 0xff)) @ lit ''.''
     @ show_nat (unat (drop_bit 8 addr AND 0xff)) @ lit ''.'' @ show_nat (unat (addr AND 0xff))
     @ lit '':'' @ show_nat (unat (byteswapOnLittleEndian h (sin_port a))))"

definition IPv4_broadcastAddress :: "endian \<Rightarrow> sockaddr_in \<Rightarrow> u32 \<Rightarrow> sockaddr_in option res" where
  "IPv4_broadcastAddress h a prefix_len =
     (if prefix_len > 32 then Inr None
      else rbind (CreateMask 32 prefix_len) (\<lambda>m. Inr (Some (a\<lparr>s_addr := s_addr a OR byteswapOnLittleEndian h m\<rparr>))))"

definition IPv4_networdAddress :: "endian \<Rightarrow> sockaddr_in \<Rightarrow> u32 \<Rightarrow> sockaddr_in option res" where
  "IPv4_networdAddress h a prefix_len =
     (if prefix_len > 32 then Inr None
      else rbind (CreateMask 32 prefix_len) (\<lambda>m. Inr (Some (a\<lparr>s_addr := s_addr a AND byteswapOnLittleEndian h m\<rparr>))))"

definition IPv4_subnetMask :: "endian \<Rightarrow> u32 \<Rightarrow> sockaddr_in res" where
  "IPv4_subnetMask h prefix_len = rbind (CreateMask 32 prefix_len) (\<lambda>m.
     Inr \<lparr>sin_family = AF_INET_v, sin_port = 0, s_addr = NOT (byteswapOnLittleEndian h m), sin_zero = replicate 8 0\<rparr>)"

definition IPv4_getPort :: "endian \<Rightarrow> sockaddr_in \<Rightarrow> u16" where
  "IPv4_getPort h a = byteswapOnLittleEndian h (sin_port a)"

definition IPv4_setPort :: "endian \<Rightarrow> u16 \<Rightarrow> sockaddr_in \<Rightarrow> sockaddr_in" where
  "IPv4_setPort h v a = a\<lparr>sin_port := byteswapOnLittleEndian h v\<rparr>"

subsection \<open>IPv6\<close>

definition new_IPv6Address :: sockaddr_in6 where
  "new_IPv6Address = \<lparr>sin6_family = AF_INET6_v, sin6_port = 0, sin6_flowinfo = 0, s6_addr = replicate 16 0, sin6_scope_id = 0\<rparr>"

definition new_IPv6Address_of :: "endian \<Rightarrow> u8 list \<Rightarrow> u16 \<Rightarrow> sockaddr_in6" where
  "new_IPv6Address_of h address port =
     new_IPv6Address\<lparr>sin6_port := byteswapOnLittleEndian h port, s6_addr := take 16 address\<rparr>"

definition IPv6Address_Create :: "endian \<Rightarrow> (u8 list \<Rightarrow> u8 list option) \<Rightarrow> u8 list \<Rightarrow> u16 \<Rightarrow> sockaddr_in6 option" where
  "IPv6Address_Create h inet_pton address port = (case inet_pton address of None \<Rightarrow> None
     | Some bs \<Rightarrow> Some (new_IPv6Address\<lparr>s6_addr := bs, sin6_port := byteswapOnLittleEndian h port\<rparr>))"

text \<open>\<open>s6_addr16[i]\<close> as the host reads it.\<close>

definition s6_addr16 :: "endian \<Rightarrow> sockaddr_in6 \<Rightarrow> nat \<Rightarrow> u16" where
  "s6_addr16 h a i = mem_word h [s6_addr a ! (2 * i), s6_addr a ! (2 * i + 1)]"

text \<open>The loop over the eight groups, from group \<open>i\<close> on; the result says whether a gap was written.\<close>

function v6_groups :: "endian \<Rightarrow> (nat \<Rightarrow> u16) \<Rightarrow> nat \<Rightarrow> bool \<Rightarrow> u8 list \<times> bool" where
  "v6_groups h addr i used_zeros =
     (if 8 \<le> i then ([], used_zeros)
      else if addr i = 0 \<and> \<not> used_zeros then v6_groups h addr (Suc i) used_zeros
      else
        let gap = (i \<noteq> 0 \<and> addr (i - 1) = 0 \<and> \<not> used_zeros);
            (os, used) = v6_groups h addr (Suc i) (used_zeros \<or> gap)
        in ((if gap then lit '':'' else []) @ (if i \<noteq> 0 then lit '':'' else [])
            @ show_hex (unat (byteswapOnLittleEndian h (addr i))) @ os, used))"
  by pat_completeness auto
termination
  by (relation "measure (\<lambda>(h, addr, i, u). 8 - i)") auto

declare v6_groups.simps [simp del]

definition IPv6_insert :: "endian \<Rightarrow> sockaddr_in6 \<Rightarrow> u8 list" where
  "IPv6_insert h a = (let addr = s6_addr16 h a; (os, used_zeros) = v6_groups h addr 0 False in
     lit ''['' @ os @ (if \<not> used_zeros \<and> addr 7 = 0 then lit ''::'' else [])
     @ lit '']:'' @ show_nat (unat (byteswapOnLittleEndian h (sin6_port a))))"

text \<open>Byte \<open>prefix_len / 8\<close> of the sixteen; past them the access is out of bounds.\<close>

definition v6_byte :: "sockaddr_in6 \<Rightarrow> nat \<Rightarrow> u8 res" where
  "v6_byte a i = (if i < 16 then Inr (s6_addr a ! i) else Inl BadPointer)"

definition IPv6_broadcastAddress :: "sockaddr_in6 \<Rightarrow> u32 \<Rightarrow> sockaddr_in6 res" where
  "IPv6_broadcastAddress a prefix_len = (let i = unat prefix_len div 8 in
     rbind (v6_byte a i) (\<lambda>b. rbind (CreateMask 8 (prefix_len mod 8)) (\<lambda>m.
       Inr (a\<lparr>s6_addr := take i (s6_addr a) @ [b OR m] @ replicate (15 - i) 0xff\<rparr>))))"

definition IPv6_networdAddress :: "sockaddr_in6 \<Rightarrow> u32 \<Rightarrow> sockaddr_in6 res" where
  "IPv6_networdAddress a prefix_len = (let i = unat prefix_len div 8 in
     rbind (v6_byte a i) (\<lambda>b. rbind (CreateMask 8 (prefix_len mod 8)) (\<lambda>m.
       Inr (a\<lparr>s6_addr := (s6_addr a)[i := b AND m]\<rparr>))))"

text \<open>\<open>subnetMask\<close> returns the mask and clears the address it is called on.\<close>

definition IPv6_subnetMask :: "sockaddr_in6 \<Rightarrow> u32 \<Rightarrow> (sockaddr_in6 \<times> sockaddr_in6) res" where
  "IPv6_subnetMask a prefix_len = (let i = unat prefix_len div 8 in
     rbind (v6_byte a i) (\<lambda>_. rbind (CreateMask 8 (prefix_len mod 8)) (\<lambda>m.
       Inr (a\<lparr>s6_addr := replicate i 0xff @ [NOT m] @ drop (Suc i) (s6_addr a)\<rparr>, new_IPv6Address))))"

definition IPv6_getPort :: "endian \<Rightarrow> sockaddr_in6 \<Rightarrow> u16" where
  "IPv6_getPort h a = byteswapOnLittleEndian h (sin6_port a)"

definition IPv6_setPort :: "endian \<Rightarrow> u16 \<Rightarrow> sockaddr_in6 \<Rightarrow> sockaddr_in6" where
  "IPv6_setPort h v a = a\<lparr>sin6_port := byteswapOnLittleEndian h v\<rparr>"

subsection \<open>Unix and unknown addresses\<close>

definition sun_path_size :: nat where "sun_path_size = 108"
definition sun_path_offset :: nat where "sun_path_offset = 2"

definition new_UnixAddress :: Address where
  "new_UnixAddress = UnixAddress \<lparr>sun_family = AF_UNIX_v, sun_path = replicate sun_path_size 0\<rparr> (sun_path_offset + (sun_path_size - 1))"

text \<open>\<open>m_length\<close> is 32 bits wide while it is computed.\<close>

definition unix_path_length :: "u8 list \<Rightarrow> u32" where
  "unix_path_length path = (let m_length = of_nat (length path + 1) in
     if path \<noteq> [] \<and> path ! 0 = 0 then m_length - 1 else m_length)"

definition new_UnixAddress_path :: "u8 list \<Rightarrow> Address res" where
  "new_UnixAddress_path path = (let n = unat (unix_path_length path) in
      if n > sun_path_size then Inl LogicError
      else Inr (UnixAddress \<lparr>sun_family = AF_UNIX_v, sun_path = overwrite (replicate sun_path_size 0) 0 (take n (path @ [0]))\<rparr>
                  (n + sun_path_offset)))"

fun setAddrLen :: "nat \<Rightarrow> Address \<Rightarrow> Address" where
  "setAddrLen v (UnixAddress a n) = UnixAddress a v"
| "setAddrLen v a = a"

text \<open>
  An abstract path is printed by its length, any other up to its zero; both may run past
  the structure, for a length that \<open>setAddrLen\<close> set or a path with no zero.
\<close>

definition Unix_insert :: "sockaddr_un \<Rightarrow> nat \<Rightarrow> u8 list res" where
  "Unix_insert a n =
     (if n > sun_path_offset \<and> sun_path a ! 0 = 0
      then if n - sun_path_offset > length (sun_path a) then Inl BadPointer
           else Inr (lit [CHR 0x5C, CHR 0x30] @ take (n - sun_path_offset - 1) (drop 1 (sun_path a)))
      else if 0 \<in> set (sun_path a) then Inr (c_str (sun_path a)) else Inl BadPointer)"

definition new_UnknownAddress :: "u16 \<Rightarrow> Address" where
  "new_UnknownAddress family = UnknownAddress \<lparr>sa_family = family, sa_data = replicate 14 0\<rparr>"

definition Unknown_insert :: "sockaddr \<Rightarrow> u8 list" where
  "Unknown_insert a = lit ''[UnknownAddress family='' @ show_nat (unat (sa_family a)) @ lit '']''"

fun Address_toString :: "endian \<Rightarrow> Address \<Rightarrow> u8 list res" where
  "Address_toString h (IPv4Address a) = Inr (IPv4_insert h a)"
| "Address_toString h (IPv6Address a) = Inr (IPv6_insert h a)"
| "Address_toString h (UnixAddress a n) = Unix_insert a n"
| "Address_toString h (UnknownAddress a) = Inr (Unknown_insert a)"

subsection \<open>From memory to addresses\<close>

text \<open>
  A \<open>sockaddr*\<close> is the bytes behind it; reading a structure larger than they are is a
  bad access.
\<close>

definition mem_slice :: "nat \<Rightarrow> nat \<Rightarrow> u8 list \<Rightarrow> u8 list" where
  "mem_slice off n bs = take n (drop off bs)"

definition mem_family :: "endian \<Rightarrow> u8 list \<Rightarrow> u16" where
  "mem_family h bs = mem_word h (mem_slice 0 2 bs)"

definition as_sockaddr_in :: "endian \<Rightarrow> u8 list \<Rightarrow> sockaddr_in res" where
  "as_sockaddr_in h bs = guard_else BadPointer (16 \<le> length bs) (Inr \<lparr>sin_family = mem_family h bs,
     sin_port = mem_word h (mem_slice 2 2 bs), s_addr = mem_word h (mem_slice 4 4 bs), sin_zero = mem_slice 8 8 bs\<rparr>)"

definition as_sockaddr_in6 :: "endian \<Rightarrow> u8 list \<Rightarrow> sockaddr_in6 res" where
  "as_sockaddr_in6 h bs = guard_else BadPointer (28 \<le> length bs) (Inr \<lparr>sin6_family = mem_family h bs,
     sin6_port = mem_word h (mem_slice 2 2 bs), sin6_flowinfo = mem_word h (mem_slice 4 4 bs),
     s6_addr = mem_slice 8 16 bs, sin6_scope_id = mem_word h (mem_slice 24 4 bs)\<rparr>)"

definition as_sockaddr :: "endian \<Rightarrow> u8 list \<Rightarrow> sockaddr res" where
  "as_sockaddr h bs = guard_else BadPointer (16 \<le> length bs) (Inr \<lparr>sa_family = mem_family h bs,
     sa_data = mem_slice 2 14 bs\<rparr>)"

definition Address_Create :: "endian \<Rightarrow> u8 list option \<Rightarrow> Address option res" where
  "Address_Create h addr = (case addr of None \<Rightarrow> Inr None
     | Some bs \<Rightarrow>
         if length bs < 2 then Inl BadPointer
         else if mem_family h bs = AF_INET_v then rbind (as_sockaddr_in h bs) (\<lambda>a. Inr (Some (IPv4Address a)))
         else if mem_family h bs = AF_INET6_v then rbind (as_sockaddr_in6 h bs) (\<lambda>a. Inr (Some (IPv6Address a)))
         else rbind (as_sockaddr h bs) (\<lambda>a. Inr (Some (UnknownAddress a))))"

subsection \<open>Resolving\<close>

text \<open>\<open>memchr(s, c, n)\<close> as the offset of the first match.\<close>

fun memchr :: "u8 \<Rightarrow> u8 list \<Rightarrow> nat option" where
  "memchr c [] = None"
| "memchr c (d # ds) = (if d = c then Some 0 else map_option Suc (memchr c ds))"

text \<open>
  The node and the service of a host string: first the bracketed form, then the form
  with one colon. \<open>service\<close> is a pointer into the host string, so it stands for the rest
  of the string; \<open>*(endipv6 + 1)\<close> past the end reads the terminating zero.
\<close>

definition split_bracket :: "u8 list \<Rightarrow> u8 list \<times> u8 list option" where
  "split_bracket host =
     (if host \<noteq> [] \<and> host ! 0 = 0x5B
      then case memchr 0x5D (drop 1 host) of
          None \<Rightarrow> ([], None)
        | Some e \<Rightarrow> (take e (drop 1 host),
            if (host @ [0]) ! (e + 2) = 0x3A then Some (drop (e + 3) host) else None)
      else ([], None))"

definition split_host :: "u8 list \<Rightarrow> u8 list \<times> u8 list option" where
  "split_host host =
     (let (node, service) = split_bracket host;
          (node1, service1) =
            (if node = []
             then case memchr 0x3A host of
                 None \<Rightarrow> ([], None)
               | Some i \<Rightarrow> (if memchr 0x3A (drop (i + 1) host) = None
                           then (take i host, Some (drop (i + 1) host)) else ([], Some (drop i host)))
             else (node, service))
      in (if node1 = [] then host else node1, service1))"

text \<open>
  \<open>getaddrinfo\<close> gets the node, the service and the hints (family, type, protocol) and
  gives the list of \<open>ai_addr\<close>, or an error.
\<close>

type_synonym resolver = "u8 list \<Rightarrow> u8 list option \<Rightarrow> int \<times> int \<times> int \<Rightarrow> u8 list option list option"

fun create_all :: "endian \<Rightarrow> Address option list \<Rightarrow> u8 list option list \<Rightarrow> Address option list res" where
  "create_all h result [] = Inr result"
| "create_all h result (n # next) = rbind (Address_Create h n) (\<lambda>a. create_all h (result @ [a]) next)"

definition Address_Lookup ::
  "endian \<Rightarrow> resolver \<Rightarrow> Address option list \<Rightarrow> u8 list \<Rightarrow> int \<times> int \<times> int \<Rightarrow> (bool \<times> Address option list) res" where
  "Address_Lookup h getaddrinfo result host hints = (let (node, service) = split_host host in
     case getaddrinfo (c_str node) (map_option c_str service) hints of
       None \<Rightarrow> Inr (False, result)
     | Some results \<Rightarrow> rbind (create_all h result results) (\<lambda>r. Inr (True, r)))"

definition LookupAny :: "endian \<Rightarrow> resolver \<Rightarrow> u8 list \<Rightarrow> int \<times> int \<times> int \<Rightarrow> Address option res" where
  "LookupAny h getaddrinfo host hints = rbind (Address_Lookup h getaddrinfo [] host hints) (\<lambda>(ok, result).
     if \<not> ok then Inr None else case result of [] \<Rightarrow> Inl BadPointer | a # _ \<Rightarrow> Inr a)"

fun is_ip :: "Address option \<Rightarrow> bool" where
  "is_ip (Some (IPv4Address a)) = True"
| "is_ip (Some (IPv6Address a)) = True"
| "is_ip _ = False"

definition LookupAnyIPAddress :: "endian \<Rightarrow> resolver \<Rightarrow> u8 list \<Rightarrow> int \<times> int \<times> int \<Rightarrow> Address option res" where
  "LookupAnyIPAddress h getaddrinfo host hints = rbind (Address_Lookup h getaddrinfo [] host hints) (\<lambda>(ok, result).
     Inr (if ok then case find is_ip result of None \<Rightarrow> None | Some a \<Rightarrow> a else None))"

fun setPort :: "endian \<Rightarrow> u16 \<Rightarrow> Address \<Rightarrow> Address" where
  "setPort h v (IPv4Address a) = IPv4Address (IPv4_setPort h v a)"
| "setPort h v (IPv6Address a) = IPv6Address (IPv6_setPort h v a)"
| "setPort h v a = a"

definition IPAddress_Create :: "endian \<Rightarrow> resolver \<Rightarrow> u8 list \<Rightarrow> u16 \<Rightarrow> Address option res" where
  "IPAddress_Create h getaddrinfo address port = (case getaddrinfo address None (uint AF_UNSPEC, 0, 0) of
       None \<Rightarrow> Inr None
     | Some [] \<Rightarrow> Inl BadPointer
     | Some (r # _) \<Rightarrow> rbind (Address_Create h r) (\<lambda>a.
         Inr (if is_ip a then map_option (setPort h port) a else None)))"

subsection \<open>Interfaces\<close>

text \<open>
  One entry of \<open>getifaddrs\<close>. Its address and its netmask may be null; the code reads
  both without a test.
\<close>

record ifaddrs =
  ifa_name :: "u8 list"
  ifa_addr :: "u8 list option"
  ifa_netmask :: "u8 list option"

definition sa_deref :: "u8 list option \<Rightarrow> nat \<Rightarrow> u8 list res" where
  "sa_deref p n = (case p of None \<Rightarrow> Inl BadPointer | Some bs \<Rightarrow> guard_else BadPointer (n \<le> length bs) (Inr bs))"

definition if_address :: "endian \<Rightarrow> int \<Rightarrow> ifaddrs \<Rightarrow> (Address \<times> nat) option res" where
  "if_address h family next = rbind (sa_deref (ifa_addr next) 2) (\<lambda>bs.
     if family \<noteq> uint AF_UNSPEC \<and> family \<noteq> uint (mem_family h bs) then Inr None
     else if mem_family h bs = AF_INET_v then
       rbind (Address_Create h (Some bs)) (\<lambda>addr. rbind (sa_deref (ifa_netmask next) 8) (\<lambda>m.
         Inr (map_option (\<lambda>a. (a, CountBytes (mem_word h (mem_slice 4 4 m) :: u32))) addr)))
     else if mem_family h bs = AF_INET6_v then
       rbind (Address_Create h (Some bs)) (\<lambda>addr. rbind (sa_deref (ifa_netmask next) 24) (\<lambda>m.
         Inr (map_option (\<lambda>a. (a, sum_list (map CountBytes (mem_slice 8 16 m)))) addr)))
     else Inr None)"

text \<open>The multimap as the list of its entries in insertion order.\<close>

type_synonym ifmap = "(u8 list \<times> Address \<times> nat) list"

fun interface_loop :: "endian \<Rightarrow> int \<Rightarrow> ifmap \<Rightarrow> ifaddrs list \<Rightarrow> ifmap res" where
  "interface_loop h family result [] = Inr result"
| "interface_loop h family result (e # next) = rbind (if_address h family e) (\<lambda>r.
     interface_loop h family (case r of None \<Rightarrow> result | Some ap \<Rightarrow> result @ [(ifa_name e, ap)]) next)"

definition GetInterfaceAddress_all :: "endian \<Rightarrow> ifaddrs list option \<Rightarrow> ifmap \<Rightarrow> int \<Rightarrow> (bool \<times> ifmap) res" where
  "GetInterfaceAddress_all h ifs result family = (case ifs of None \<Rightarrow> Inr (False, result)
     | Some es \<Rightarrow> rbind (interface_loop h family result es) (\<lambda>r. Inr (True, r)))"

definition GetInterfaceAddress ::
  "endian \<Rightarrow> ifaddrs list option \<Rightarrow> (Address \<times> nat) list \<Rightarrow> u8 list \<Rightarrow> int \<Rightarrow> (bool \<times> (Address \<times> nat) list) res" where
  "GetInterfaceAddress h ifs result iface family =
     (if iface = [] \<or> iface = lit ''*''
      then Inr (True, result
                @ (if family = uint AF_INET_v \<or> family = uint AF_UNSPEC then [(IPv4Address (new_IPv4Address h 0 0), 0)] else [])
                @ (if family = uint AF_INET6_v \<or> family = uint AF_UNSPEC then [(IPv6Address new_IPv6Address, 0)] else []))
      else rbind (GetInterfaceAddress_all h ifs [] family) (\<lambda>(ok, results).
        Inr (if ok then (True, result @ map snd (filter (\<lambda>e. fst e = iface) results)) else (False, result))))"

subsection \<open>Order\<close>

definition addr_bytes :: "endian \<Rightarrow> Address \<Rightarrow> u8 list" where
  "addr_bytes h a = take (getAddrLen a) (getAddr h a)"

text \<open>The length an address states is the length of the structure or less.\<close>

definition addr_ok :: "endian \<Rightarrow> Address \<Rightarrow> bool" where
  "addr_ok h a \<longleftrightarrow> getAddrLen a \<le> length (getAddr h a)"

lemma memcmp_eq: "length xs = length ys \<Longrightarrow> memcmp xs ys = 0 \<longleftrightarrow> xs = ys"
  by (induction xs ys rule: memcmp.induct) (auto simp: word_uint_eq_iff)

lemma memcmp_less: "ord_class.lexordp xs ys \<longleftrightarrow> (let m = min (length xs) (length ys); r = memcmp (take m xs) (take m ys) in
    r < 0 \<or> r = 0 \<and> length xs < length ys)"
proof (induction xs arbitrary: ys)
  case Nil
  then show ?case by (cases ys) auto
next
  case (Cons x xs)
  then show ?case by (cases ys) (auto simp: word_less_def Let_def word_uint_eq_iff)
qed

lemma Address_less_lex:
  assumes "addr_ok h a" "addr_ok h b"
  shows "Address_less h a b \<longleftrightarrow> ord_class.lexordp (addr_bytes h a) (addr_bytes h b)"
  using assms unfolding memcmp_less by (auto simp: Address_less_def addr_bytes_def addr_ok_def Let_def min_def)

lemma length_addr_bytes: "addr_ok h a \<Longrightarrow> length (addr_bytes h a) = getAddrLen a"
  by (simp add: addr_bytes_def addr_ok_def)

lemma Address_eq_bytes:
  assumes "addr_ok h a" "addr_ok h b"
  shows "Address_eq h a b \<longleftrightarrow> addr_bytes h a = addr_bytes h b"
proof
  assume "Address_eq h a b"
  then show "addr_bytes h a = addr_bytes h b"
    using assms memcmp_eq [of "addr_bytes h a" "addr_bytes h b"] by (auto simp: Address_eq_def addr_bytes_def addr_ok_def)
next
  assume e: "addr_bytes h a = addr_bytes h b"
  then have "getAddrLen a = getAddrLen b"
    using assms by (metis length_addr_bytes)
  with e assms show "Address_eq h a b"
    using memcmp_eq [of "addr_bytes h a" "addr_bytes h b"] by (simp add: Address_eq_def addr_bytes_def)
qed




subsection \<open>Counting bits\<close>

text \<open>\<open>value & (value - 1)\<close> clears the lowest set bit, so \<open>CountBytes\<close> counts the set bits.\<close>

fun ones :: "nat \<Rightarrow> nat" where
  "ones n = (if n = 0 then 0 else n mod 2 + ones (n div 2))"

declare ones.simps [simp del]

lemma ones_double [simp]: "ones (2 * n) = ones n" "ones (Suc (2 * n)) = Suc (ones n)" "ones 0 = 0"
  by (subst ones.simps; simp; subst ones.simps; simp)+

lemma ones_clear_lowest: "0 < n \<Longrightarrow> ones n = Suc (ones (n AND (n - 1 :: nat)))"
proof (induction n rule: ones.induct)
  case (1 n)
  show ?case
  proof (cases "even n")
    case True
    with 1(2) obtain k where k: "n = 2 * k" "0 < k" by (auto elim: evenE)
    have "n AND (n - 1) = 2 * (k AND (k - 1))"
      using k by (subst and_rec) (auto simp: div2_Suc_Suc  algebra_simps intro: arg_cong2 [where f = "(AND)"])
    with k 1(1) show ?thesis by simp
  next
    case False
    then obtain k where k: "n = Suc (2 * k)" by (auto elim: oddE)
    have "n AND (n - 1) = 2 * k" using k by (subst and_rec) simp
    with k show ?thesis by simp
  qed
qed

lemma CountBytes_ones: "CountBytes w = ones (unat w)"
proof (induction w rule: CountBytes.induct)
  case (1 w)
  show ?case
  proof (cases "w = 0")
    case True
    then show ?thesis by (simp add: CountBytes.simps)
  next
    case False
    then have "unat (w AND (w - 1)) = unat w AND (unat w - 1)" by (simp add: unsigned_and_eq unat_minus_one)
    with False 1 ones_clear_lowest [of "unat w"] show ?thesis
      by (subst CountBytes.simps) (simp add: unat_gt_0)
  qed
qed

lemma nat_bit_less: "bit (m :: nat) x \<Longrightarrow> x < m"
proof -
  assume "bit m x"
  then have "m div 2 ^ x \<noteq> 0" by (metis bit_iff_odd even_zero)
  then have "2 ^ x \<le> m" by (simp add: div_eq_0_iff)
  then show "x < m" using less_exp [of x] by linarith
qed

lemma ones_card: "ones n = card {i. bit n i}"
proof (induction n rule: ones.induct)
  case (1 n)
  show ?case
  proof (cases "n = 0")
    case False
    have "{i. bit n i} = (if odd n then {0} else {}) \<union> Suc ` {i. bit (n div 2) i}"
      by (auto simp: bit_Suc image_iff) (metis bit_0 bit_Suc not0_implies_Suc)+
    moreover have "finite {i. bit (n div 2) i}"
      by (rule finite_subset [of _ "{..<n div 2}"]) (auto dest: nat_bit_less)
    ultimately have "card {i. bit n i} = n mod 2 + card {i. bit (n div 2) i}"
      by (auto simp: card_image odd_iff_mod_2_eq_one)
    with 1 False show ?thesis by (subst ones.simps) simp
  qed simp
qed

lemma CountBytes_card: "CountBytes w = card {i. bit w i}"
  by (simp add: CountBytes_ones ones_card bit_unsigned_iff)

subsection \<open>Network arithmetic\<close>

lemma bit_byteswap: "bit (byteswap (w :: u32)) k \<longleftrightarrow> k < 32 \<and> bit w (8 * (3 - k div 8) + k mod 8)"
  by (auto simp: byteswap_def bit_word_of_le rev_nth nth_bytes_le bit_simps less_mult_imp_div_less)

lemma byteswap_bitwise:
  "byteswapOnLittleEndian h (a OR b) = (byteswapOnLittleEndian h a OR byteswapOnLittleEndian h b :: u32)"
  "byteswapOnLittleEndian h (a AND b) = (byteswapOnLittleEndian h a AND byteswapOnLittleEndian h b :: u32)"
  "byteswapOnLittleEndian h (NOT a) = (NOT (byteswapOnLittleEndian h a) :: u32)"
  unfolding byteswapOnLittleEndian_def
  by (auto intro!: bit_word_eqI simp: bit_byteswap bit_simps)

text \<open>The address as a number, its most significant byte first.\<close>

definition v4_value :: "endian \<Rightarrow> sockaddr_in \<Rightarrow> u32" where
  "v4_value h a = byteswapOnLittleEndian h (s_addr a)"

lemma unat_u32: "n < 2 ^ 32 \<Longrightarrow> unat (of_nat n :: u32) = n"
  by (simp add: unsigned_of_nat take_bit_nat_eq_self)

lemma swap_bit_index: "bij_betw (\<lambda>k. 8 * (3 - k div 8) + k mod 8) {..<32} {..<32 :: nat}"
proof (rule bij_betw_byWitness [where f' = "\<lambda>k. 8 * (3 - k div 8) + k mod 8"])
  show "\<forall>k\<in>{..<32}. 8 * (3 - (8 * (3 - k div 8) + k mod 8) div 8) + (8 * (3 - k div 8) + k mod 8) mod 8 = (k :: nat)"
  proof
    fix k :: nat assume "k \<in> {..<32}"
    then have "k div 8 < 4" by simp
    then show "8 * (3 - (8 * (3 - k div 8) + k mod 8) div 8) + (8 * (3 - k div 8) + k mod 8) mod 8 = k"
      by (simp add: div_add)
  qed
  then show "\<forall>k\<in>{..<32}. 8 * (3 - (8 * (3 - k div 8) + k mod 8) div 8) + (8 * (3 - k div 8) + k mod 8) mod 8 = (k :: nat)" .
  show "(\<lambda>k. 8 * (3 - k div 8) + k mod 8) ` {..<32} \<subseteq> {..<32 :: nat}"
    "(\<lambda>k. 8 * (3 - k div 8) + k mod 8) ` {..<32} \<subseteq> {..<32 :: nat}"
    by auto
qed

lemma bij_betw_filter: "bij_betw f A A \<Longrightarrow> bij_betw f {k \<in> A. P (f k)} {k \<in> A. P k}"
  by (auto simp: bij_betw_def intro: inj_on_subset)

lemma CountBytes_byteswap: "CountBytes (byteswapOnLittleEndian h (w :: u32)) = CountBytes w"
proof -
  have "{k. bit w k} = {k \<in> {..<32}. bit w k}" by (auto dest: bit_imp_le_length)
  moreover have "{k. bit (byteswap w) k} = {k \<in> {..<32}. bit w (8 * (3 - k div 8) + k mod 8)}"
    by (auto simp: bit_byteswap)
  ultimately have "card {k. bit (byteswap w) k} = card {k. bit w k}"
    using bij_betw_same_card [OF bij_betw_filter [OF swap_bit_index, of "bit w"]] by simp
  then show ?thesis by (simp add: byteswapOnLittleEndian_def CountBytes_card)
qed

lemma CountBytes_netmask:
  assumes "p \<le> 32"
  shows "CountBytes (NOT (mask (32 - p)) :: u32) = p"
proof -
  have "{k. bit (NOT (mask (32 - p)) :: u32) k} = {32 - p..<32}" using assms by (auto simp: bit_simps)
  then show ?thesis using assms by (simp add: CountBytes_card)
qed

lemma CreateMask_mask:
  assumes "1 \<le> p" "p \<le> 32"
  shows "CreateMask 32 (of_nat p) = Inr (mask (32 - p) :: u32)"
proof -
  have "unat (of_nat p :: u32) = p" using assms(2) by (simp add: unat_u32)
  then show ?thesis using assms by (simp add: CreateMask_def Let_def mask_eq_exp_minus_1 push_bit_of_1)
qed

text \<open>
  The IPv4 network arithmetic, on the address as a number: for a prefix of 1 to
  32 bits, \<open>broadcastAddress\<close> sets the host bits, \<open>subnetMask\<close> has exactly the prefix bits
  and counting its bits as \<open>GetInterfaceAddress\<close> does gives the prefix back, while
  \<open>networdAddress\<close> keeps the host bits and clears the network bits (it uses the host mask,
  not its complement). Prefix 0 shifts by 32 bits, and a longer prefix than 32 is refused by
  the first two and shifts by too much in the third.
\<close>

theorem address_v4_networks:
  "\<forall>p. (1 \<le> p \<and> p \<le> 32 \<longrightarrow>
      (\<exists>b n s. IPv4_broadcastAddress h a (of_nat p) = Inr (Some b) \<and> v4_value h b = v4_value h a OR mask (32 - p)
        \<and> IPv4_networdAddress h a (of_nat p) = Inr (Some n) \<and> v4_value h n = v4_value h a AND mask (32 - p)
        \<and> IPv4_subnetMask h (of_nat p) = Inr s \<and> v4_value h s = NOT (mask (32 - p)) \<and> CountBytes (s_addr s) = p)) \<and>
    (p = 0 \<longrightarrow> IPv4_broadcastAddress h a (of_nat p) = Inl BadShift \<and> IPv4_subnetMask h (of_nat p) = Inl BadShift) \<and>
    (32 < p \<and> p < 2 ^ 32 \<longrightarrow> IPv4_broadcastAddress h a (of_nat p) = Inr None
        \<and> IPv4_networdAddress h a (of_nat p) = Inr None \<and> IPv4_subnetMask h (of_nat p) = Inl BadShift)"
proof (intro allI conjI impI)
  fix p :: nat
  assume p: "1 \<le> p \<and> p \<le> 32"
  then have "CountBytes (NOT (byteswapOnLittleEndian h (mask (32 - p) :: u32))) = p"
    using CountBytes_netmask [of p] by (simp add: CountBytes_byteswap flip: byteswap_bitwise)
  moreover have "\<not> 32 < (of_nat p :: u32)" using p by (simp add: word_less_nat_alt unat_u32)
  ultimately show "\<exists>b n s. IPv4_broadcastAddress h a (of_nat p) = Inr (Some b) \<and> v4_value h b = v4_value h a OR mask (32 - p)
        \<and> IPv4_networdAddress h a (of_nat p) = Inr (Some n) \<and> v4_value h n = v4_value h a AND mask (32 - p)
        \<and> IPv4_subnetMask h (of_nat p) = Inr s \<and> v4_value h s = NOT (mask (32 - p)) \<and> CountBytes (s_addr s) = p"
    using p by (simp add: IPv4_broadcastAddress_def IPv4_networdAddress_def IPv4_subnetMask_def CreateMask_mask
      v4_value_def byteswap_bitwise byteswapOnLittleEndian_involution)
next
  fix p :: nat
  assume "p = 0"
  then show "IPv4_broadcastAddress h a (of_nat p) = Inl BadShift" "IPv4_subnetMask h (of_nat p) = Inl BadShift"
    by (simp_all add: IPv4_broadcastAddress_def IPv4_subnetMask_def CreateMask_def)
next
  fix p :: nat
  assume p: "32 < p \<and> p < 2 ^ 32"
  then have u: "unat (of_nat p :: u32) = p" by (simp add: unat_u32)
  with p show "IPv4_broadcastAddress h a (of_nat p) = Inr None" "IPv4_networdAddress h a (of_nat p) = Inr None"
    by (simp_all add: IPv4_broadcastAddress_def IPv4_networdAddress_def word_less_nat_alt)
  show "IPv4_subnetMask h (of_nat p) = Inl BadShift"
    using p u by (auto simp: IPv4_subnetMask_def CreateMask_def sz_sub_def Let_def)
qed

theorem address_v4_networks_witness:
  "\<exists>b s. IPv4_broadcastAddress CIVAN_LITTLE_ENDIAN (new_IPv4Address CIVAN_LITTLE_ENDIAN 0xC0A80105 80) (of_nat 24) = Inr (Some b)
     \<and> v4_value CIVAN_LITTLE_ENDIAN b = 0xC0A801FF \<and> IPv4_subnetMask CIVAN_LITTLE_ENDIAN (of_nat 24) = Inr s \<and> CountBytes (s_addr s) = 24"
proof -
  let ?h = CIVAN_LITTLE_ENDIAN and ?a = "new_IPv4Address CIVAN_LITTLE_ENDIAN 0xC0A80105 80"
  have "1 \<le> (24::nat) \<and> (24::nat) \<le> 32" by simp
  with address_v4_networks [of ?h ?a] obtain b s where
    "IPv4_broadcastAddress ?h ?a (of_nat 24) = Inr (Some b)" "v4_value ?h b = v4_value ?h ?a OR mask (32 - 24)"
    "IPv4_subnetMask ?h (of_nat 24) = Inr s" "CountBytes (s_addr s) = 24" by blast
  moreover have "v4_value ?h ?a OR mask (32 - 24) = 0xC0A801FF" by code_simp
  ultimately show ?thesis by metis
qed

subsection \<open>From addresses to memory and back\<close>

text \<open>The structures as the constructors build them: arrays of their size, and the family of their class.\<close>

fun addr_wf :: "Address \<Rightarrow> bool" where
  "addr_wf (IPv4Address a) \<longleftrightarrow> sin_family a = AF_INET_v \<and> length (sin_zero a) = 8"
| "addr_wf (IPv6Address a) \<longleftrightarrow> sin6_family a = AF_INET6_v \<and> length (s6_addr a) = 16"
| "addr_wf (UnixAddress a n) \<longleftrightarrow> sun_family a = AF_UNIX_v \<and> length (sun_path a) = sun_path_size
     \<and> n \<le> sun_path_offset + sun_path_size"
| "addr_wf (UnknownAddress a) \<longleftrightarrow> sa_family a \<notin> {AF_INET_v, AF_INET6_v} \<and> length (sa_data a) = 14"

lemmas af_defs = AF_UNSPEC_def AF_UNIX_v_def AF_INET_v_def AF_INET6_v_def
lemmas mem_defs = mem_slice_def mem_family_def as_sockaddr_in_def as_sockaddr_in6_def as_sockaddr_def guard_else_def

lemma addr_wf_ok: "addr_wf a \<Longrightarrow> addr_ok h a"
  by (cases a) (auto simp: addr_ok_def sun_path_size_def sun_path_offset_def)

lemma mem_family_getAddr: "addr_wf a \<Longrightarrow> mem_family h (getAddr h a) = getFamily a"
  by (cases a) (simp_all add: mem_defs mem_word_mem_bytes)

text \<open>
  The bytes of an address that is handed to a system call give the same
  address when they come back through \<open>Address::Create\<close>: for IPv4, IPv6 and unknown
  addresses. A Unix address comes back as an unknown address of family \<open>AF_UNIX\<close> with the
  first fourteen bytes of its path.
\<close>

theorem address_create_roundtrip:
  assumes "addr_wf a"
  shows "Address_Create h (Some (getAddr h a)) = Inr (Some (case a of
     UnixAddress u n \<Rightarrow> UnknownAddress \<lparr>sa_family = AF_UNIX_v, sa_data = take 14 (sun_path u)\<rparr> | _ \<Rightarrow> a))"
proof -
  have fam: "mem_family h (getAddr h a) = getFamily a" by (rule mem_family_getAddr [OF assms])
  show ?thesis
  proof (cases a)
    case (IPv4Address x)
    with assms fam show ?thesis by (simp add: Address_Create_def mem_defs mem_word_mem_bytes)
  next
    case (IPv6Address x)
    with assms fam show ?thesis by (simp add: Address_Create_def mem_defs mem_word_mem_bytes af_defs)
  next
    case (UnixAddress x n)
    with assms fam show ?thesis by (simp add: Address_Create_def mem_defs mem_word_mem_bytes af_defs sun_path_size_def)
  next
    case (UnknownAddress x)
    with assms fam show ?thesis by (simp add: Address_Create_def mem_defs mem_word_mem_bytes)
  qed
qed

theorem address_create_roundtrip_witness:
  "Address_Create CIVAN_LITTLE_ENDIAN (Some (getAddr CIVAN_LITTLE_ENDIAN (IPv4Address (new_IPv4Address CIVAN_LITTLE_ENDIAN 0x7F000001 80))))
    = Inr (Some (IPv4Address (new_IPv4Address CIVAN_LITTLE_ENDIAN 0x7F000001 80)))"
  using address_create_roundtrip [of "IPv4Address (new_IPv4Address CIVAN_LITTLE_ENDIAN 0x7F000001 80)" CIVAN_LITTLE_ENDIAN]
  by (simp add: new_IPv4Address_def)

subsection \<open>Unix paths\<close>

text \<open>
  A path of at most 107 bytes gives a Unix address whose printed form is the
  path, whose length counts the terminating zero, and which is well-formed; an abstract path
  (its first byte is zero) of at most 108 bytes is kept without a terminator and printed
  behind a backslash and a zero; a longer path raises \<open>logic_error\<close>.
\<close>

theorem unix_address_paths:
  assumes "length path + 1 < 2 ^ 32"
  shows "if path \<noteq> [] \<and> hd path = 0
    then if length path > 108 then new_UnixAddress_path path = Inl LogicError
      else \<exists>a. new_UnixAddress_path path = Inr a \<and> addr_wf a \<and> getAddrLen a = length path + 2
        \<and> Address_toString h a = Inr (lit [CHR 0x5C, CHR 0x30] @ tl path)
    else if length path > 107 then new_UnixAddress_path path = Inl LogicError
      else \<exists>a. new_UnixAddress_path path = Inr a \<and> addr_wf a \<and> getAddrLen a = length path + 3
        \<and> (no_nul path \<and> path \<noteq> [] \<longrightarrow> Address_toString h a = Inr path)"
proof (cases "path \<noteq> [] \<and> hd path = 0")
  case True
  then obtain t where path: "path = 0 # t" by (cases path) auto
  have "unix_path_length path = of_nat (length path)" using path by (simp add: unix_path_length_def)
  then have "unat (unix_path_length path) = length path" using assms by (simp add: unat_u32)
  with path show ?thesis
    by (simp add: new_UnixAddress_path_def sun_path_size_def sun_path_offset_def overwrite_def Unix_insert_def)
next
  case False
  then have "unix_path_length path = of_nat (length path + 1)"
    unfolding unix_path_length_def by (cases path) (auto simp: Let_def)
  then have n: "unat (unix_path_length path) = length path + 1" using assms unat_u32 [of "length path + 1"] by simp
  have "c_str (path @ 0 # r) = path" if "no_nul path" for r
    using that by (simp add: c_str_def takeWhile_append)
  with n False show ?thesis
    by (cases path) (auto simp: new_UnixAddress_path_def sun_path_size_def sun_path_offset_def overwrite_def Unix_insert_def)
qed

theorem unix_address_paths_witness:
  "Address_toString CIVAN_LITTLE_ENDIAN (case new_UnixAddress_path (lit ''/tmp/s'') of Inr a \<Rightarrow> a) = Inr (lit ''/tmp/s'')"
proof -
  have "no_nul (lit ''/tmp/s'') \<and> lit ''/tmp/s'' \<noteq> []" "\<not> (lit ''/tmp/s'' \<noteq> [] \<and> hd (lit ''/tmp/s'') = 0)"
    by (simp_all add: lit_no_nul lit_def)
  with unix_address_paths [of "lit ''/tmp/s''" CIVAN_LITTLE_ENDIAN] show ?thesis by (auto split: if_splits)
qed

subsection \<open>Hosts\<close>

lemma memchr_None [simp]: "memchr c xs = None \<longleftrightarrow> c \<notin> set xs"
  by (induction xs) auto

lemma memchr_notin: "c \<notin> set xs \<Longrightarrow> memchr c xs = None"
  by simp

lemma memchr_append [simp]: "c \<notin> set xs \<Longrightarrow> memchr c (xs @ c # ys) = Some (length xs)"
  by (induction xs) auto

lemma split_bracket_other: "host = [] \<or> hd host \<noteq> 0x5B \<Longrightarrow> split_bracket host = ([], None)"
  by (cases host) (auto simp: split_bracket_def)

lemma split_host_bracket:
  assumes "0x5D \<notin> set n" "n \<noteq> []"
  shows "split_host (0x5B # n @ 0x5D # 0x3A # s) = (n, Some s)" "split_host (0x5B # n @ [0x5D]) = (n, None)"
proof -
  have "split_bracket (0x5B # n @ 0x5D # 0x3A # s) = (n, Some s)" "split_bracket (0x5B # n @ [0x5D]) = (n, None)"
    using assms by (simp_all add: split_bracket_def nth_append numeral_3_eq_3)
  with assms show "split_host (0x5B # n @ 0x5D # 0x3A # s) = (n, Some s)" "split_host (0x5B # n @ [0x5D]) = (n, None)"
    by (simp_all add: split_host_def)
qed

lemma split_host_colon:
  assumes "0x3A \<notin> set n" "n \<noteq> []" "hd n \<noteq> 0x5B"
  shows "split_host (n @ 0x3A # s) = (if 0x3A \<in> set s then (n @ 0x3A # s, Some (0x3A # s)) else (n, Some s))"
    and "split_host n = (n, None)"
proof -
  have b: "split_bracket (n @ 0x3A # s) = ([], None)" "split_bracket n = ([], None)"
    using assms by (auto intro!: split_bracket_other)
  with assms show "split_host (n @ 0x3A # s) = (if 0x3A \<in> set s then (n @ 0x3A # s, Some (0x3A # s)) else (n, Some s))"
    by (simp add: split_host_def)
  show "split_host n = (n, None)" using b(2) assms(1) by (simp add: split_host_def memchr_notin)
qed

text \<open>
  What \<open>Address::Lookup\<close> asks the resolver for: \<open>name\<close> and \<open>name:service\<close> are
  split at the colon, \<open>[v6]\<close> and \<open>[v6]:service\<close> at the bracket. An IPv6 address without
  brackets (two or more colons) is looked up whole, but with everything from its first colon
  on as the service, since the pointer is not reset.
\<close>

theorem address_host_forms:
  assumes "0x3A \<notin> set n" "n \<noteq> []" "hd n \<noteq> 0x5B" "0x5D \<notin> set v" "v \<noteq> []" "0x3A \<notin> set s"
  shows "split_host n = (n, None) \<and> split_host (n @ 0x3A # s) = (n, Some s)
    \<and> split_host (0x5B # v @ [0x5D]) = (v, None) \<and> split_host (0x5B # v @ 0x5D # 0x3A # s) = (v, Some s)
    \<and> split_host (n @ 0x3A # s @ 0x3A # t) = (n @ 0x3A # s @ 0x3A # t, Some (0x3A # s @ 0x3A # t))"
  using split_host_colon [OF assms(1-3)] split_host_bracket [OF assms(4,5)] assms(6) by simp

theorem address_host_forms_witness:
  "split_host (lit ''localhost:80'') = (lit ''localhost'', Some (lit ''80''))
   \<and> split_host (lit ''[::1]:80'') = (lit ''::1'', Some (lit ''80''))
   \<and> split_host (lit ''fe80::1'') = (lit ''fe80::1'', Some (lit ''::1''))"
proof -
  have "split_host (lit ''localhost:80'') = (lit ''localhost'', Some (lit ''80''))"
    "split_host (lit ''[::1]:80'') = (lit ''::1'', Some (lit ''80''))"
    using address_host_forms [of "lit ''localhost''" "lit ''::1''" "lit ''80''" "[]"] by (simp_all add: lit_def)
  moreover have "split_host (lit ''fe80::1'') = (lit ''fe80::1'', Some (lit ''::1''))"
    using address_host_forms [of "lit ''fe80''" "lit ''::1''" "[]" "lit ''1''"] by (simp add: lit_def)
  ultimately show ?thesis by blast
qed

subsection \<open>Printing and splitting\<close>

lemma show_nat_avoids: "c < 0x30 \<or> 0x39 < c \<Longrightarrow> c \<notin> set (show_nat n)"
  using show_nat_digit [of c n] by (auto simp: not_le)

lemma show_hex_avoids: "c \<in> {0x3A, 0x5B, 0x5D} \<Longrightarrow> c \<notin> set (show_hex n)"
proof (induction n rule: show_hex.induct)
  case (1 n)
  let ?m = "if n mod 16 < 10 then 48 + n mod 16 else 87 + n mod 16"
  have u: "unat (of_nat m :: u8) = m" if "m < 256" for m using that by (simp add: unsigned_of_nat take_bit_nat_eq_self)
  have "of_nat ?m \<noteq> c"
  proof
    assume "of_nat ?m = c"
    then have "unat c = ?m" using u [of ?m] by simp
    with 1(2) show False by (auto split: if_splits)
  qed
  with 1 show ?case by (subst show_hex.simps) (auto simp: Let_def)
qed

lemma show_hex_nonempty [simp]: "show_hex n \<noteq> []"
  by (subst show_hex.simps) (simp add: Let_def)

lemma v6_groups_cases:
  "8 \<le> i \<Longrightarrow> v6_groups h addr i used = ([], used)"
  "i < 8 \<Longrightarrow> addr i = 0 \<Longrightarrow> \<not> used \<Longrightarrow> v6_groups h addr i used = v6_groups h addr (Suc i) used"
  "i < 8 \<Longrightarrow> addr i \<noteq> 0 \<or> used \<Longrightarrow> \<exists>u pre. set pre \<subseteq> {0x3A} \<and>
     fst (v6_groups h addr i used) = pre @ show_hex (unat (byteswapOnLittleEndian h (addr i))) @ fst (v6_groups h addr (Suc i) u)
     \<and> snd (v6_groups h addr i used) = snd (v6_groups h addr (Suc i) u)"
proof -
  show "8 \<le> i \<Longrightarrow> v6_groups h addr i used = ([], used)"
    "i < 8 \<Longrightarrow> addr i = 0 \<Longrightarrow> \<not> used \<Longrightarrow> v6_groups h addr i used = v6_groups h addr (Suc i) used"
    by (subst v6_groups.simps, simp)+
  assume "i < 8" "addr i \<noteq> 0 \<or> used"
  then show "\<exists>u pre. set pre \<subseteq> {0x3A} \<and>
     fst (v6_groups h addr i used) = pre @ show_hex (unat (byteswapOnLittleEndian h (addr i))) @ fst (v6_groups h addr (Suc i) u)
     \<and> snd (v6_groups h addr i used) = snd (v6_groups h addr (Suc i) u)"
    by (intro exI [of _ "used \<or> (i \<noteq> 0 \<and> addr (i - 1) = 0 \<and> \<not> used)"]
          exI [of _ "(if i \<noteq> 0 \<and> addr (i - 1) = 0 \<and> \<not> used then lit '':'' else []) @ (if i \<noteq> 0 then lit '':'' else [])"])
      (auto simp: v6_groups.simps [of h addr i used] Let_def lit_def split: prod.split)
qed

lemma v6_groups_avoids: "c \<in> {0x5B, 0x5D} \<Longrightarrow> c \<notin> set (fst (v6_groups h addr i used))"
proof (induction "8 - i" arbitrary: i used)
  case 0
  then show ?case by (simp add: v6_groups_cases(1))
next
  case (Suc k)
  then have i: "i < 8" "k = 8 - Suc i" by simp_all
  note IH = Suc.hyps(1) [OF i(2) Suc.prems]
  show ?case
  proof (cases "addr i \<noteq> 0 \<or> used")
    case True
    from v6_groups_cases(3) [of i addr used h, OF i(1) True] obtain u pre where "set pre \<subseteq> {0x3A}"
      "fst (v6_groups h addr i used) = pre @ show_hex (unat (byteswapOnLittleEndian h (addr i))) @ fst (v6_groups h addr (Suc i) u)"
      by blast
    moreover have "c \<noteq> 0x3A" "c \<notin> set (show_hex (unat (byteswapOnLittleEndian h (addr i))))"
      using Suc.prems show_hex_avoids [of c] by auto
    ultimately show ?thesis using IH [of u] by auto
  next
    case False
    then show ?thesis using IH [of used] v6_groups_cases(2) [of i addr used h] i(1) by simp
  qed
qed

lemma v6_groups_empty:
  "i < 8 \<Longrightarrow> fst (v6_groups h addr i used) = [] \<Longrightarrow> addr 7 = 0 \<and> \<not> snd (v6_groups h addr i used)"
proof (induction "8 - i" arbitrary: i used)
  case (Suc k)
  have n: "\<not> (addr i \<noteq> 0 \<or> used)"
    using Suc.prems v6_groups_cases(3) [of i addr used h] by fastforce
  then have e: "v6_groups h addr i used = v6_groups h addr (Suc i) used"
    using Suc.prems(1) v6_groups_cases(2) [of i addr used h] by simp
  show ?case
  proof (cases "i = 7")
    case True
    then show ?thesis using n e v6_groups_cases(1) [of 8 h addr used] by simp
  next
    case False
    then show ?thesis using e Suc.prems Suc.hyps(1) [of "Suc i" used] Suc.hyps(2) by simp
  qed
qed simp

text \<open>The two texts without the port.\<close>

definition v4_text :: "u32 \<Rightarrow> u8 list" where
  "v4_text addr = show_nat (unat (drop_bit 24 addr AND 0xff)) @ 0x2E # show_nat (unat (drop_bit 16 addr AND 0xff)) @ 0x2E #
     show_nat (unat (drop_bit 8 addr AND 0xff)) @ 0x2E # show_nat (unat (addr AND 0xff))"

definition v6_text :: "endian \<Rightarrow> sockaddr_in6 \<Rightarrow> u8 list" where
  "v6_text h a = (let (os, used_zeros) = v6_groups h (s6_addr16 h a) 0 False in
     os @ (if \<not> used_zeros \<and> s6_addr16 h a 7 = 0 then lit ''::'' else []))"

lemma separator_inject:
  "c \<notin> set xs \<Longrightarrow> c \<notin> set xs' \<Longrightarrow> xs @ c # ys = xs' @ c # ys' \<longleftrightarrow> xs = xs' \<and> ys = ys'"
proof (induction xs arbitrary: xs')
  case Nil
  then show ?case by (cases xs') auto
next
  case (Cons x xs)
  then show ?case by (cases xs') auto
qed

lemma quad_inject:
  assumes "drop_bit 24 x AND 0xff = drop_bit 24 y AND (0xff :: u32)" "drop_bit 16 x AND 0xff = drop_bit 16 y AND 0xff"
    "drop_bit 8 x AND 0xff = drop_bit 8 y AND 0xff" "x AND 0xff = y AND 0xff"
  shows "x = y"
proof (rule bit_word_eqI)
  fix n assume n: "n < LENGTH(32)"
  have m: "(0xff :: u32) = mask 8" by (simp add: mask_eq_exp_minus_1)
  have b: "bit x (k + i) = bit y (k + i)" if "drop_bit k x AND 0xff = drop_bit k y AND 0xff" "i < 8" for k i
  proof -
    have "bit (drop_bit k x AND mask 8) i = bit (drop_bit k y AND mask 8) i" using that(1) by (simp only: m)
    then show ?thesis using that(2) by (simp add: bit_simps)
  qed
  consider "n < 8" | "8 \<le> n" "n < 16" | "16 \<le> n" "n < 24" | "24 \<le> n" using n by linarith
  then show "bit x n = bit y n"
    using n b [OF assms(1), of "n - 24"] b [OF assms(2), of "n - 16"] b [OF assms(3), of "n - 8"] b [of 0 n] assms(4)
    by cases simp_all
qed

lemma v4_text_inject: "v4_text x = v4_text y \<longleftrightarrow> x = y"
proof -
  have "0x2E \<notin> set (show_nat k)" for k by (rule show_nat_avoids) simp
  then show ?thesis
    using quad_inject [of x y] by (auto simp: v4_text_def separator_inject simp flip: word_unat_eq_iff)
qed

lemma v4_text_host: "0x3A \<notin> set (v4_text x) \<and> v4_text x \<noteq> [] \<and> hd (v4_text x) \<noteq> 0x5B"
proof -
  have n: "0x3A \<notin> set (show_nat k)" "0x5B \<notin> set (show_nat k)" for k by (rule show_nat_avoids, simp)+
  have "hd (v4_text x) = hd (show_nat (unat (drop_bit 24 x AND 0xff)))" unfolding v4_text_def by simp
  then have "hd (v4_text x) \<noteq> 0x5B" using n(2) by (metis hd_in_set show_nat_nonempty)
  with n(1) show ?thesis unfolding v4_text_def by simp
qed

lemma v6_text_host: "0x5D \<notin> set (v6_text h a) \<and> v6_text h a \<noteq> []"
proof -
  obtain os used where g: "v6_groups h (s6_addr16 h a) 0 False = (os, used)" by fastforce
  then have "0x5D \<notin> set os" using v6_groups_avoids [of "0x5D" h "s6_addr16 h a" 0 False] by simp
  moreover have "os = [] \<longrightarrow> s6_addr16 h a 7 = 0 \<and> \<not> used"
    using v6_groups_empty [of 0 h "s6_addr16 h a" False] g by simp
  ultimately show ?thesis by (auto simp: v6_text_def g lit_def)
qed

text \<open>
  What \<open>toString\<close> prints for an IP address is a host that \<open>Lookup\<close> splits into
  the printed address and the decimal port: the dotted quad for IPv4, the groups between the
  brackets for IPv6. Two IPv4 addresses that print alike are the same address and port.
\<close>

theorem address_print_split:
  "split_host (IPv4_insert h a) = (v4_text (v4_value h a), Some (show_nat (unat (IPv4_getPort h a))))
   \<and> split_host (IPv6_insert h c) = (v6_text h c, Some (show_nat (unat (IPv6_getPort h c))))
   \<and> (IPv4_insert h a = IPv4_insert h b \<longleftrightarrow> v4_value h a = v4_value h b \<and> IPv4_getPort h a = IPv4_getPort h b)"
proof -
  have i4: "IPv4_insert h x = v4_text (v4_value h x) @ 0x3A # show_nat (unat (IPv4_getPort h x))" for x
    by (simp add: IPv4_insert_def v4_text_def v4_value_def IPv4_getPort_def lit_def Let_def)
  have i6: "IPv6_insert h c = 0x5B # v6_text h c @ 0x5D # 0x3A # show_nat (unat (IPv6_getPort h c))"
    by (simp add: IPv6_insert_def v6_text_def IPv6_getPort_def lit_def Let_def split: prod.split)
  have port: "0x3A \<notin> set (show_nat k)" for k by (rule show_nat_avoids) simp
  have inj: "IPv4_insert h a = IPv4_insert h b \<longleftrightarrow> v4_value h a = v4_value h b \<and> IPv4_getPort h a = IPv4_getPort h b"
    unfolding i4 using v4_text_host by (simp add: separator_inject v4_text_inject flip: word_unat_eq_iff)
  show ?thesis
    using inj v4_text_host [of "v4_value h a"] split_host_colon(1) [of "v4_text (v4_value h a)"] port
      split_host_bracket(1) [of "v6_text h c"] v6_text_host [of h c] unfolding i6 i4 [of a] by simp
qed

end
