(* ===== verification/Civan_Uri.thy ===== *)
theory Civan_Uri
  imports Civan_Uri_Machine Civan_Uri_Text Civan_Address
begin

section \<open>URIs: \<open>Uri\<close> of \<open>civan/uri.rl.cc\<close>\<close>

text \<open>
  \<open>Uri::Create\<close> around the automaton of \<open>Civan_Uri_Machine\<close>, with the other members of the class. The
  local \<open>mark\<close> of the parser is a position of the string or null; an action that uses a null
  mark faults: \<open>std::string(NULL, n)\<close> throws \<open>std::logic_error\<close>, \<open>atoi(NULL)\<close> reads through it. A
  typing of the states tells where the mark is set. It has a gap, at the end of an empty port,
  and this is where \<open>Create\<close> throws.
\<close>

subsection \<open>The class\<close>

record Uri =
  u_scheme :: "u8 list"
  u_userinfo :: "u8 list"
  u_host :: "u8 list"
  u_path :: "u8 list"
  u_query :: "u8 list"
  u_fragment :: "u8 list"
  u_port :: int

definition new_Uri :: Uri where
  "new_Uri = \<lparr>u_scheme = [], u_userinfo = [], u_host = [], u_path = [], u_query = [], u_fragment = [], u_port = 0\<rparr>"

definition isDefaultPort :: "Uri \<Rightarrow> bool" where
  "isDefaultPort u =
     (if u_port u = 0 then True
      else if u_scheme u = lit ''http'' \<or> u_scheme u = lit ''ws'' then u_port u = 80
      else if u_scheme u = lit ''https'' \<or> u_scheme u = lit ''wss'' then u_port u = 443
      else False)"

definition Uri_getPath :: "Uri \<Rightarrow> u8 list" where
  "Uri_getPath u = (if u_path u = [] then lit ''/'' else u_path u)"

definition Uri_getPort :: "Uri \<Rightarrow> int" where
  "Uri_getPort u =
     (if u_port u \<noteq> 0 then u_port u
      else if u_scheme u = lit ''http'' \<or> u_scheme u = lit ''ws'' then 80
      else if u_scheme u = lit ''https'' \<or> u_scheme u = lit ''wss'' then 443
      else u_port u)"

text \<open>\<open>std::to_string(m_port)\<close>\<close>

definition show_int :: "int \<Rightarrow> u8 list" where
  "show_int i = (if i < 0 then 0x2D # show_nat (nat (- i)) else show_nat (nat i))"

definition Uri_dump :: "Uri \<Rightarrow> u8 list" where
  "Uri_dump u =
     u_scheme u @ lit ''://'' @ u_userinfo u @ (if u_userinfo u = [] then [] else lit ''@'') @ u_host u @
     (if isDefaultPort u then [] else lit '':'' @ show_int (u_port u)) @ Uri_getPath u @
     (if u_query u = [] then [] else lit ''?'') @ u_query u @
     (if u_fragment u = [] then [] else lit ''#'') @ u_fragment u"

text \<open>The default hints of \<open>LookupAnyIPAddress\<close> are \<open>AF_INET\<close> and no type or protocol.\<close>

definition createAddress :: "endian \<Rightarrow> resolver \<Rightarrow> Uri \<Rightarrow> Address option res" where
  "createAddress h getaddrinfo u =
     rbind (LookupAnyIPAddress h getaddrinfo (u_host u) (uint AF_INET_v, 0, 0)) (\<lambda>addr.
       Inr (map_option (setPort h (word_of_int (Uri_getPort u))) addr))"

subsection \<open>The actions\<close>

type_synonym uri_state = "nat option \<times> Uri"

text \<open>\<open>std::string(mark, p - mark)\<close>\<close>

definition mark_string :: "u8 list \<Rightarrow> nat option \<Rightarrow> nat \<Rightarrow> u8 list res" where
  "mark_string str mark p = (case mark of None \<Rightarrow> Inl LogicError | Some k \<Rightarrow> std_string (drop k str) (sz_sub p k))"

fun uri_do :: "u8 list \<Rightarrow> uri_action \<Rightarrow> nat \<Rightarrow> uri_state \<Rightarrow> uri_state res" where
  "uri_do str U_marku p (mark, u) = Inr (Some p, u)"
| "uri_do str U_markh p (mark, u) = Inr (Some p, u)"
| "uri_do str U_save_scheme p (mark, u) = rbind (mark_string str mark p) (\<lambda>s. Inr (None, u\<lparr>u_scheme := s\<rparr>))"
| "uri_do str U_save_port p (mark, u) = (case mark of None \<Rightarrow> Inl BadPointer
     | Some k \<Rightarrow> Inr (None, if p \<noteq> k then u\<lparr>u_port := atoi (drop k (str @ [0]))\<rparr> else u))"
| "uri_do str U_save_userinfo p (mark, u) = (case mark of None \<Rightarrow> Inr (None, u)
     | Some k \<Rightarrow> rbind (mark_string str mark p) (\<lambda>s. Inr (None, u\<lparr>u_userinfo := s\<rparr>)))"
| "uri_do str U_save_host p (mark, u) = (case mark of None \<Rightarrow> Inr (mark, u)
     | Some k \<Rightarrow> rbind (mark_string str mark p) (\<lambda>s. Inr (mark, u\<lparr>u_host := s\<rparr>)))"
| "uri_do str U_save_path p (mark, u) = rbind (mark_string str mark p) (\<lambda>s. Inr (None, u\<lparr>u_path := s\<rparr>))"
| "uri_do str U_save_query p (mark, u) = rbind (mark_string str mark p) (\<lambda>s. Inr (None, u\<lparr>u_query := s\<rparr>))"
| "uri_do str U_save_fragment p (mark, u) = rbind (mark_string str mark p) (\<lambda>s. Inr (None, u\<lparr>u_fragment := s\<rparr>))"

text \<open>A fault ends the call; the automaton of the model runs on with it.\<close>

definition uri_act :: "u8 list \<Rightarrow> (uri_action, uri_state res) ragel_act" where
  "uri_act str a p s = (rbind s (uri_do str a p), False)"

definition uri_parser_start :: nat where "uri_parser_start = 451"
definition uri_parser_first_final :: nat where "uri_parser_first_final = 451"
definition uri_parser_error :: nat where "uri_parser_error = 0"

text \<open>\<open>None\<close> is the null pointer. The error state leaves the machine before the switch at its end.\<close>

definition Uri_Create :: "u8 list \<Rightarrow> Uri option res" where
  "Uri_Create uristr =
     (let (p, cs, s) = ragel_exec uri_step (uri_act uristr) uristr 0 uri_parser_start (Inr (None, new_Uri));
          s' = (if cs = uri_parser_error then s else fst (ragel_actions (uri_act uristr) (uri_eof cs) p s))
      in rbind s' (\<lambda>(mark, uri). Inr (if cs = uri_parser_error then None
           else if uri_parser_first_final \<le> cs then Some uri else None)))"

subsection \<open>Where the mark is set\<close>

text \<open>
  In the states of \<open>ty_mark\<close> the mark is a position; \<open>at_port\<close> are the states behind the colon of an
  authority in front of the port, and \<open>pre_slash\<close> those that can be reached without a slash.
\<close>

definition ty_mark :: "nat \<Rightarrow> bool" where
  "ty_mark n \<longleftrightarrow> \<not> (3 \<le> n \<and> n \<le> 6 \<or> 451 \<le> n \<and> n \<le> 453 \<or> n = 455 \<or> n = 456 \<or> n = 458 \<or> n = 459 \<or> n = 469 \<or>
     509 \<le> n \<and> n \<le> 511 \<or> n = 522)"

definition at_port :: "nat \<Rightarrow> bool" where
  "at_port n \<longleftrightarrow> n = 514 \<or> n = 521"

definition pre_slash :: "nat \<Rightarrow> bool" where
  "pre_slash n \<longleftrightarrow> n \<le> 8 \<or> 451 \<le> n \<and> n \<le> 457 \<or> n = 508 \<or> n = 509"

text \<open>The bytes at which a port ends, as the automaton sees them: \<open># / ?\<close>.\<close>

definition port_end :: "int \<Rightarrow> bool" where
  "port_end c \<longleftrightarrow> c = 35 \<or> c = 47 \<or> c = 63"

fun uri_flow :: "uri_action list \<Rightarrow> bool \<Rightarrow> bool option" where
  "uri_flow [] m = Some m"
| "uri_flow (a # as) m =
     (case a of U_marku \<Rightarrow> uri_flow as True
      | U_markh \<Rightarrow> uri_flow as True
      | U_save_userinfo \<Rightarrow> uri_flow as False
      | U_save_host \<Rightarrow> uri_flow as m
      | _ \<Rightarrow> if m then uri_flow as False else None)"

text \<open>What a jump out of a state with or without a mark needs and gives.\<close>

definition mark_ok :: "bool \<Rightarrow> uri_action jump \<Rightarrow> bool" where
  "mark_ok b j \<longleftrightarrow> (case uri_flow (fst j) b of None \<Rightarrow> False | Some m \<Rightarrow> ty_mark (snd j) \<and> snd j \<noteq> 0 \<longrightarrow> m)"

definition port_ok :: "int \<Rightarrow> uri_action jump \<Rightarrow> bool" where
  "port_ok c j \<longleftrightarrow> (at_port (snd j) \<longrightarrow> c = 58)"

definition slash_ok :: "int \<Rightarrow> uri_action jump \<Rightarrow> bool" where
  "slash_ok c j \<longleftrightarrow> pre_slash (snd j) \<or> c = 47"

lemma uri_jump_if:
  "mark_ok m x \<Longrightarrow> mark_ok m y \<Longrightarrow> mark_ok m (if b then x else y)"
  "(b \<Longrightarrow> port_ok c x) \<Longrightarrow> (\<not> b \<Longrightarrow> port_ok c y) \<Longrightarrow> port_ok c (if b then x else y)"
  "(b \<Longrightarrow> slash_ok c x) \<Longrightarrow> (\<not> b \<Longrightarrow> slash_ok c y) \<Longrightarrow> slash_ok c (if b then x else y)"
  by simp_all

lemma mark_ok_goto: "mark_ok True (goto t)"
  by (simp add: mark_ok_def)

lemmas ty_eval = ty_mark_def pre_slash_def rel_simps simp_thms One_nat_def [symmetric]

lemma uri_states_mark: "states_ok (\<lambda>n st. \<not> at_port n \<longrightarrow> (\<forall>c. mark_ok (ty_mark n) (st c))) 0 uri_states"
  unfolding uri_states_def
  by (simp only: states_ok_simps, intro conjI allI impI TrueI; (simp only: uri_code ty_eval)?; (intro uri_jump_if)?;
      (simp only: mark_ok_goto)?; simp add: mark_ok_def ty_mark_def at_port_def)

lemma uri_states_port: "states_ok (\<lambda>n st. \<forall>c. port_ok c (st c)) 0 uri_states"
  unfolding uri_states_def
  by (simp only: states_ok_simps, intro conjI allI impI TrueI; (simp only: uri_code)?; (intro uri_jump_if)?;
      simp (no_asm_simp) add: port_ok_def at_port_def)

lemma uri_states_slash: "states_ok (\<lambda>n st. pre_slash n \<longrightarrow> (\<forall>c. slash_ok c (st c))) 0 uri_states"
  unfolding uri_states_def
  by (simp only: states_ok_simps ty_eval, intro conjI allI impI TrueI; (simp only: uri_code)?; (intro uri_jump_if)?;
      simp (no_asm_simp) add: slash_ok_def pre_slash_def)

lemma uri_at_port: "uri_step 514 = uri_st514" "uri_step 521 = uri_st521"
  by (simp_all add: fun_eq_iff uri_step_def uri_states_def)

lemma uri_step_typed:
  "\<not> (at_port cs \<and> port_end c) \<Longrightarrow> mark_ok (ty_mark cs) (uri_step cs c)"
  "port_ok c (uri_step cs c)"
  "pre_slash cs \<Longrightarrow> slash_ok c (uri_step cs c)"
proof -
  have "mark_ok (ty_mark cs) (uri_step cs c)" if "\<not> at_port cs"
    using states_ok_nth [OF uri_states_mark, of cs] that by (simp add: uri_step_def mark_ok_def)
  moreover have "mark_ok (ty_mark cs) (uri_step cs c)" if "at_port cs" "\<not> port_end c"
    using that unfolding at_port_def port_end_def
    by (elim disjE) (simp_all add: uri_at_port uri_code mark_ok_def ty_mark_def)
  ultimately show "\<not> (at_port cs \<and> port_end c) \<Longrightarrow> mark_ok (ty_mark cs) (uri_step cs c)" by blast
  show "port_ok c (uri_step cs c)"
    using states_ok_nth [OF uri_states_port, of cs] by (simp add: uri_step_def port_ok_def at_port_def)
  show "pre_slash cs \<Longrightarrow> slash_ok c (uri_step cs c)"
    using states_ok_nth [OF uri_states_slash, of cs] by (simp add: uri_step_def slash_ok_def pre_slash_def)
qed

subsection \<open>Without an empty port there is no fault\<close>

text \<open>A colon is followed by a byte that does not end a port.\<close>

fun no_empty_port :: "u8 list \<Rightarrow> bool" where
  "no_empty_port [] = True"
| "no_empty_port (c # s) = ((c = 0x3A \<longrightarrow> s \<noteq> [] \<and> hd s \<notin> {0x23, 0x2F, 0x3F}) \<and> no_empty_port s)"

lemma no_empty_port_dropWhile: "no_empty_port s \<Longrightarrow> no_empty_port (dropWhile P s)"
  by (induction s) auto

definition uri_inv :: "u8 list \<Rightarrow> bool \<Rightarrow> nat \<Rightarrow> uri_state res \<Rightarrow> bool" where
  "uri_inv str m p s \<longleftrightarrow> (\<exists>mark u. s = Inr (mark, u) \<and> (m \<longrightarrow> mark \<noteq> None) \<and> (\<forall>k. mark = Some k \<longrightarrow> k \<le> p) \<and> p \<le> length str)"

lemma uri_act_inv:
  assumes "uri_inv str m p s" "uri_flow [a] m = Some m'"
  shows "uri_inv str m' p (fst (uri_act str a p s))"
proof -
  obtain mark u where s: "s = Inr (mark, u)" "m \<longrightarrow> mark \<noteq> None" "\<forall>k. mark = Some k \<longrightarrow> k \<le> p" "p \<le> length str"
    using assms(1) by (auto simp: uri_inv_def)
  have t: "mark_string str (Some k) p = Inr (take (p - k) (drop k str))" if "k \<le> p" for k
    using that s(4) by (simp add: mark_string_def)
  show ?thesis using s assms(2) by (cases a; cases mark) (auto simp: uri_inv_def uri_act_def t split: if_splits)
qed

lemma uri_flow_Cons:
  "uri_flow (a # as) m = (case uri_flow [a] m of None \<Rightarrow> None | Some m' \<Rightarrow> uri_flow as m')"
  by (cases a) simp_all

lemma uri_actions_Cons:
  "ragel_actions (uri_act str) (a # as) p s = ragel_actions (uri_act str) as p (fst (uri_act str a p s))"
  by (simp add: uri_act_def)

lemma uri_actions_stop: "snd (ragel_actions (uri_act str) as p s) = False"
  by (induction as arbitrary: s) (simp_all add: uri_act_def)

lemma uri_actions_inv:
  "uri_inv str m p s \<Longrightarrow> uri_flow acts m = Some m' \<Longrightarrow> uri_inv str m' p (fst (ragel_actions (uri_act str) acts p s))"
proof (induction acts arbitrary: m s)
  case (Cons a as)
  obtain m1 where m1: "uri_flow [a] m = Some m1" "uri_flow as m1 = Some m'"
    using Cons.prems(2) uri_flow_Cons [of a as m] by (auto split: option.splits)
  show ?case
    unfolding uri_actions_Cons by (rule Cons.IH [OF uri_act_inv [OF Cons.prems(1) m1(1)] m1(2)])
qed simp

lemma uri_inv_Suc: "uri_inv str m p s \<Longrightarrow> (m' \<longrightarrow> m) \<Longrightarrow> p < length str \<Longrightarrow> uri_inv str m' (Suc p) s"
  by (auto simp: uri_inv_def le_Suc_eq)

text \<open>What the input still to come must be like, by the state.\<close>

definition uri_input :: "nat \<Rightarrow> u8 list \<Rightarrow> bool" where
  "uri_input cs xs \<longleftrightarrow> (at_port cs \<longrightarrow> xs \<noteq> [] \<and> \<not> port_end (schar (hd xs))) \<and>
     no_empty_port (if pre_slash cs then dropWhile (\<lambda>c. c \<noteq> 0x2F) xs else xs)"

lemma port_codes: "schar c = 58 \<longleftrightarrow> c = 0x3A" "schar c = 47 \<longleftrightarrow> c = 0x2F" "port_end (schar c) \<longleftrightarrow> c \<in> {0x23, 0x2F, 0x3F}"
  using schar_inject [of c "0x3A"] schar_inject [of c "0x2F"] schar_inject [of c "0x23"] schar_inject [of c "0x3F"]
  by (auto simp: port_end_def schar_numeral)

lemma uri_input_step:
  assumes "uri_input cs (ch # rest)" "uri_step cs (schar ch) = (acts, t)"
  shows "uri_input t rest"
proof -
  have pt: "at_port t \<Longrightarrow> ch = 0x3A \<and> \<not> pre_slash cs"
    using uri_step_typed(2) [of "schar ch" cs] uri_step_typed(3) [of cs "schar ch"] assms(2) port_codes [of ch]
    by (auto simp: port_ok_def slash_ok_def at_port_def pre_slash_def)
  have sl: "pre_slash cs \<Longrightarrow> \<not> pre_slash t \<Longrightarrow> ch = 0x2F"
    using uri_step_typed(3) [of cs "schar ch"] assms(2) port_codes [of ch] by (simp add: slash_ok_def)
  have "no_empty_port rest" if "\<not> pre_slash cs \<or> ch = 0x2F"
    using assms(1) that by (cases "pre_slash cs") (auto simp: uri_input_def)
  moreover have "no_empty_port (dropWhile (\<lambda>c. c \<noteq> 0x2F) rest)" if "pre_slash cs" "ch \<noteq> 0x2F"
    using assms(1) that by (simp add: uri_input_def)
  ultimately have "no_empty_port (if pre_slash t then dropWhile (\<lambda>c. c \<noteq> 0x2F) rest else rest)"
    using sl no_empty_port_dropWhile by auto
  moreover have "rest \<noteq> [] \<and> \<not> port_end (schar (hd rest))" if "at_port t"
    using assms(1) pt [OF that] by (auto simp: uri_input_def port_codes)
  ultimately show ?thesis by (simp add: uri_input_def)
qed

lemma uri_exec_safe:
  "uri_inv str (ty_mark cs) p s \<Longrightarrow> p + length xs \<le> length str \<Longrightarrow> uri_input cs xs \<Longrightarrow>
   ragel_exec uri_step (uri_act str) xs p cs s = (p', cs', s') \<Longrightarrow>
   uri_inv str (cs' \<noteq> 0 \<and> ty_mark cs') p' s' \<and> (cs' \<noteq> 0 \<longrightarrow> \<not> at_port cs')"
proof (induction xs arbitrary: p cs s)
  case Nil
  then show ?case by (auto simp: uri_input_def uri_inv_def)
next
  case (Cons ch rest)
  obtain acts t where j: "uri_step cs (schar ch) = (acts, t)" by fastforce
  show ?case
  proof (cases "t = 0")
    case True
    then show ?thesis using Cons.prems j by (auto simp: uri_inv_def)
  next
    case False
    have "\<not> (at_port cs \<and> port_end (schar ch))" using Cons.prems(3) by (auto simp: uri_input_def)
    then obtain m where m: "uri_flow acts (ty_mark cs) = Some m" "ty_mark t \<longrightarrow> m"
      using uri_step_typed(1) [of cs "schar ch"] j False by (auto simp: mark_ok_def split: option.splits)
    obtain s1 where s1: "ragel_actions (uri_act str) acts p s = (s1, False)"
      using uri_actions_stop [of str acts p s] by (metis prod.collapse)
    have "uri_inv str m p s1" using uri_actions_inv [OF Cons.prems(1) m(1)] s1 by simp
    then have i: "uri_inv str (ty_mark t) (Suc p) s1" using uri_inv_Suc m(2) Cons.prems(2) by auto
    show ?thesis
      using Cons.IH [OF i _ uri_input_step [OF Cons.prems(3) j]] Cons.prems(2,4) j s1 False by simp
  qed
qed

lemma uri_eof_typed: "\<not> at_port cs \<Longrightarrow> \<exists>m. uri_flow (uri_eof cs) (ty_mark cs) = Some m"
  by (auto simp: uri_eof_def ty_mark_def at_port_def)

text \<open>
  Property C13. \<open>Uri::Create\<close> never uses a null mark, reads only its string, and so returns, on every string in which
  no colon behind the first slash is followed by the end of the string or by a byte that ends a
  port (a slash, a question mark or a hash).
\<close>

theorem uri_create_safe:
  assumes "no_empty_port (dropWhile (\<lambda>c. c \<noteq> 0x2F) uristr)"
  shows "\<exists>r. Uri_Create uristr = Inr r"
proof -
  obtain p cs s where x: "ragel_exec uri_step (uri_act uristr) uristr 0 451 (Inr (None, new_Uri)) = (p, cs, s)"
    by (metis prod.collapse)
  have "uri_inv uristr (ty_mark 451) 0 (Inr (None, new_Uri))" by (simp add: uri_inv_def ty_mark_def)
  moreover have "uri_input 451 uristr" using assms by (simp add: uri_input_def at_port_def pre_slash_def)
  ultimately have i: "uri_inv uristr (cs \<noteq> 0 \<and> ty_mark cs) p s" "cs \<noteq> 0 \<longrightarrow> \<not> at_port cs"
    using uri_exec_safe [OF _ _ _ x] by simp_all
  show ?thesis
  proof (cases "cs = 0")
    case True
    then show ?thesis using x i(1) by (auto simp: Uri_Create_def uri_parser_start_def uri_parser_error_def uri_inv_def)
  next
    case False
    then obtain m where "uri_flow (uri_eof cs) (ty_mark cs) = Some m" using uri_eof_typed i(2) by blast
    then have "uri_inv uristr m p (fst (ragel_actions (uri_act uristr) (uri_eof cs) p s))"
      using uri_actions_inv i(1) False by simp
    then show ?thesis using x False
      by (auto simp: Uri_Create_def uri_parser_start_def uri_parser_error_def uri_inv_def)
  qed
qed

theorem uri_create_safe_witness: "\<exists>r. Uri_Create (lit ''http://host:80/path?q'') = Inr r"
proof (rule uri_create_safe)
  show "no_empty_port (dropWhile (\<lambda>c. c \<noteq> 0x2F) (lit ''http://host:80/path?q''))" by code_simp
qed

end
