(* ===== verification/Civan_Uri_Grammar.thy ===== *)
theory Civan_Uri_Grammar
  imports Civan_Uri
begin

section \<open>What \<open>Uri::Create\<close> does on a well-formed URI\<close>

text \<open>
  The runs of the automaton over the parts of a URI with an authority. Host and user name are
  read in parallel, and beside them the readings of an IPv4 address, so these texts are read in
  groups of states. The theorems show that a URI that \<open>Uri::toString\<close> prints is read back, and where
  the parser goes wrong.
\<close>

subsection \<open>States and codes\<close>

lemma uri_at:
  "uri_step (Suc 0) = uri_st1" "uri_step 1 = uri_st1" "uri_step 2 = uri_st2" "uri_step 7 = uri_st7"
  "uri_step 8 = uri_st8" "uri_step 243 = uri_st243" "uri_step 244 = uri_st244" "uri_step 253 = uri_st253"
  "uri_step 254 = uri_st254" "uri_step 258 = uri_st258" "uri_step 259 = uri_st259" "uri_step 451 = uri_st451"
  "uri_step 453 = uri_st453" "uri_step 454 = uri_st454" "uri_step 456 = uri_st456" "uri_step 457 = uri_st457"
  "uri_step 508 = uri_st508" "uri_step 509 = uri_st509" "uri_step 510 = uri_st510" "uri_step 511 = uri_st511"
  "uri_step 513 = uri_st513" "uri_step 514 = uri_st514" "uri_step 515 = uri_st515" "uri_step 520 = uri_st520"
  "uri_step 521 = uri_st521" "uri_step 522 = uri_st522" "uri_step 523 = uri_st523" "uri_step 524 = uri_st524"
  "uri_step 525 = uri_st525" "uri_step 526 = uri_st526" "uri_step 527 = uri_st527" "uri_step 528 = uri_st528"
  "uri_step 529 = uri_st529" "uri_step 530 = uri_st530" "uri_step 531 = uri_st531" "uri_step 532 = uri_st532"
  "uri_step 533 = uri_st533" "uri_step 534 = uri_st534" "uri_step 535 = uri_st535" "uri_step 536 = uri_st536"
  "uri_step 537 = uri_st537" "uri_step 538 = uri_st538" "uri_step 539 = uri_st539" "uri_step 540 = uri_st540"
  "uri_step 541 = uri_st541" "uri_step 542 = uri_st542" "uri_step 543 = uri_st543" "uri_step 544 = uri_st544"
  "uri_step 545 = uri_st545" "uri_step 546 = uri_st546" "uri_step 547 = uri_st547" "uri_step 548 = uri_st548"
  "uri_step 549 = uri_st549" "uri_step 550 = uri_st550" "uri_step 551 = uri_st551" "uri_step 552 = uri_st552"
  "uri_step 553 = uri_st553" "uri_step 554 = uri_st554" "uri_step 555 = uri_st555" "uri_step 556 = uri_st556"
  "uri_step 557 = uri_st557" "uri_step 558 = uri_st558" "uri_step 559 = uri_st559" "uri_step 560 = uri_st560"
  by (simp_all add: fun_eq_iff uri_step_def uri_states_def)

lemmas uri_eval = uri_at uri_code

text \<open>The first name of an authority, which may be a user name, and the host behind a user name.\<close>

definition name_group :: "nat list" where
  "name_group = [520, 543, 544, 545, 546, 547, 548, 549, 550, 551, 552, 553, 554, 555, 556, 557,
     558, 559, 560]"

definition host_group :: "nat list" where
  "host_group = [523, 524, 525, 526, 527, 528, 529, 530, 531, 532, 533, 534, 535, 536, 537, 538,
     539, 540, 541]"

lemmas uri_groups = name_group_def host_group_def
lemmas uri_members = uri_groups [THEN group_member, unfolded list.pred_inject]
lemmas uri_group_all = uri_groups [THEN group_each]

definition host_char :: "u8 \<Rightarrow> bool" where
  "host_char c \<longleftrightarrow> unreserved c \<or> sub_delim c"

definition host_codes :: "int list" where
  "host_codes = [33, 36, 38, 39, 40, 41, 42, 43, 44, 45, 46, 48, 49, 50, 51, 52, 53, 54, 55, 56, 57,
     59, 61, 65, 66, 67, 68, 69, 70, 71, 72, 73, 74, 75, 76, 77, 78, 79, 80, 81, 82, 83,
     84, 85, 86, 87, 88, 89, 90, 95, 97, 98, 99, 100, 101, 102, 103, 104, 105, 106, 107,
     108, 109, 110, 111, 112, 113, 114, 115, 116, 117, 118, 119, 120, 121, 122, 126]"

definition xdigit_codes :: "int list" where
  "xdigit_codes = [48, 49, 50, 51, 52, 53, 54, 55, 56, 57, 65, 66, 67, 68, 69, 70, 97, 98, 99, 100,
     101, 102]"

definition path_code :: "int \<Rightarrow> bool" where
  "path_code c \<longleftrightarrow> c < 0 \<or> c = 33 \<or> c = 36 \<or> 38 \<le> c \<and> c \<le> 59 \<or> c = 61 \<or> 64 \<le> c \<and> c \<le> 90 \<or> c = 95 \<or> 97 \<le> c \<and> c \<le> 122 \<or> c = 126"

definition query_code :: "int \<Rightarrow> bool" where
  "query_code c \<longleftrightarrow> path_code c \<or> c = 63"

lemma host_code: "host_char c \<Longrightarrow> schar c \<in> set host_codes"
proof -
  have e: "host_codes = [33, 36] @ [38..46] @ [48..57] @ [59, 61] @ [65..90] @ [95] @ [97..122] @ [126]"
    by (simp add: host_codes_def upto_rec_numeral)
  show "host_char c \<Longrightarrow> schar c \<in> set host_codes"
    unfolding host_char_def char_class schar_if e set_append set_upto by (elim disjE insertE emptyE; simp)
qed

lemma xdigit_code: "is_xdigit c \<Longrightarrow> schar c \<in> set xdigit_codes"
proof -
  have e: "xdigit_codes = [48..57] @ [65..70] @ [97..102]" by (simp add: xdigit_codes_def upto_rec_numeral)
  show "is_xdigit c \<Longrightarrow> schar c \<in> set xdigit_codes"
    unfolding char_class schar_if e set_append set_upto by (elim disjE insertE emptyE; simp)
qed

lemma path_query_code: "path_char c \<Longrightarrow> path_code (schar c)" "query_char c \<Longrightarrow> query_code (schar c)"
proof -
  show p: "path_code (schar c)" if "path_char c" for c
    using that uint_u8_range [of c] unfolding path_code_def char_class schar_if by (elim disjE insertE emptyE; simp)
  have "uint c = 0x3F \<Longrightarrow> schar c = 63" by (simp add: schar_if)
  then show "query_char c \<Longrightarrow> query_code (schar c)" using p [of c] by (auto simp: query_code_def query_char_def)
qed

subsection \<open>Texts with escapes\<close>

text \<open>A group of states that a text keeps, with the two states of an escape.\<close>

locale escaped_stay =
  fixes step :: "'a ragel_step"
    and qs :: "nat list"
    and q1 q2 :: nat
    and ok :: "u8 \<Rightarrow> bool"
    and code :: "int \<Rightarrow> bool"
  assumes stay: "ragel_lead step qs code [[]] qs"
    and escape: "ragel_lead step qs (\<lambda>c. c = 37) [[]] [q1]" "ragel_lead step [q1] (\<lambda>c. c \<in> set xdigit_codes) [[]] [q2]"
      "ragel_lead step [q2] (\<lambda>c. c \<in> set xdigit_codes) [[]] qs"
    and nonzero: "0 \<notin> set qs" "q1 \<noteq> 0" "q2 \<noteq> 0"
    and codes: "ok c \<Longrightarrow> code (schar c)"
begin

lemma run_escape:
  assumes "is_xdigit x" "is_xdigit y"
  shows "\<exists>q\<in>set qs. ragel_run step act (x # y # t) p q1 s = ragel_run step act t (p + 2) q s"
proof -
  have 1: "step q1 (schar x) = ([], q2)" using ragel_leadD [OF escape(2) _ xdigit_code [OF assms(1)]] by auto
  obtain q where 2: "step q2 (schar y) = ([], q)" "q \<in> set qs"
    using ragel_leadD [OF escape(3) _ xdigit_code [OF assms(2)]] by auto
  have "q \<noteq> 0" using 2(2) nonzero(1) by metis
  then show ?thesis using 1 2 nonzero by (intro bexI [of _ q]) simp_all
qed

lemma run_text: "q \<in> set qs \<Longrightarrow> uri_text ok xs \<Longrightarrow> \<exists>q'\<in>set qs. ragel_run step act xs p q s = Some (q', s)"
proof (induction "length xs" arbitrary: xs p q rule: less_induct)
  case less
  show ?case
  proof (cases xs)
    case (Cons c cs)
    show ?thesis
    proof (cases "c = 0x25")
      case True
      then obtain x y t where t: "cs = x # y # t" "is_xdigit x" "is_xdigit y" "uri_text ok t"
        using less.prems(2) Cons by (auto split: list.splits)
      obtain q' where "q' \<in> set qs" "ragel_run step act (x # y # t) (Suc p) q1 s = ragel_run step act t (Suc p + 2) q' s"
        using run_escape [OF t(2,3), of act] by blast
      moreover have "step q (schar c) = ([], q1)" using ragel_leadD [OF escape(1) less.prems(1)] True by (auto simp: schar_numeral)
      ultimately show ?thesis using less.hyps [of t q' "Suc p + 2"] t Cons nonzero by simp
    next
      case False
      then have "code (schar c)" "uri_text ok cs" using less.prems(2) Cons codes by auto
      then obtain q' where "step q (schar c) = ([], q')" "q' \<in> set qs" using ragel_leadD [OF stay less.prems(1)] by auto
      moreover from this have "q' \<noteq> 0" using nonzero(1) by metis
      ultimately show ?thesis using less.hyps [of cs q' "Suc p"] Cons \<open>uri_text ok cs\<close> by simp
    qed
  qed (use less in simp)
qed

end

text \<open>The state \<open>e\<close> in front of the text enters the group with the action \<open>a\<close>.\<close>

locale escaped_text = escaped_stay step qs q1 q2 ok code
  for step :: "'a ragel_step" and qs q1 q2 ok code +
  fixes e :: nat
    and a :: 'a
  assumes enter: "ragel_lead step [e] code [[a]] qs" "step e 37 = ([a], q1)"
begin

lemma run_enter:
  assumes "uri_text ok xs" "xs \<noteq> []" "act a p s = (s', False)"
  shows "\<exists>q\<in>set qs. ragel_run step act xs p e s = Some (q, s')"
proof -
  obtain c cs where xs: "xs = c # cs" using assms(2) by (cases xs) auto
  show ?thesis
  proof (cases "c = 0x25")
    case True
    then obtain x y t where t: "cs = x # y # t" "is_xdigit x" "is_xdigit y" "uri_text ok t"
      using assms(1) xs by (auto split: list.splits)
    obtain q' where q: "q' \<in> set qs" "ragel_run step act (x # y # t) (Suc p) q1 s' = ragel_run step act t (Suc p + 2) q' s'"
      using run_escape [OF t(2,3), of act] by blast
    then show ?thesis
      using run_text [OF q(1) t(4), of act "Suc p + 2" s'] t(1) xs True assms(3) enter(2) nonzero by (simp add: schar_numeral)
  next
    case False
    then have c: "code (schar c)" "uri_text ok cs" using assms(1) xs codes by auto
    then obtain q' where q: "step e (schar c) = ([a], q')" "q' \<in> set qs" using ragel_leadD [OF enter(1)] by auto
    have "q' \<noteq> 0" using q(2) nonzero(1) by metis
    then show ?thesis using run_text [OF q(2) c(2), of act "Suc p" s'] q(1) xs assms(3) by simp
  qed
qed

end

lemmas uri_lead_eval = ragel_lead_def uri_group_all list.pred_inject all_codes host_codes_def xdigit_codes_def

lemma name_leads:
  "ragel_lead uri_step name_group (\<lambda>c. c \<in> set host_codes) [[]] name_group"
  "ragel_lead uri_step name_group (\<lambda>c. c = 37) [[]] [253]"
  "ragel_lead uri_step [253] (\<lambda>c. c \<in> set xdigit_codes) [[]] [254]"
  "ragel_lead uri_step [254] (\<lambda>c. c \<in> set xdigit_codes) [[]] name_group"
  "ragel_lead uri_step [511] (\<lambda>c. c \<in> set host_codes) [[U_markh]] name_group"
  by (simp_all only: uri_lead_eval, (intro conjI TrueI allI impI; simp add: uri_eval uri_members in_group_def [of "[x]" for x])+)

lemma host_leads:
  "ragel_lead uri_step host_group (\<lambda>c. c \<in> set host_codes) [[]] host_group"
  "ragel_lead uri_step host_group (\<lambda>c. c = 37) [[]] [258]"
  "ragel_lead uri_step [258] (\<lambda>c. c \<in> set xdigit_codes) [[]] [259]"
  "ragel_lead uri_step [259] (\<lambda>c. c \<in> set xdigit_codes) [[]] host_group"
  "ragel_lead uri_step [522] (\<lambda>c. c \<in> set host_codes) [[U_markh]] host_group"
  by (simp_all only: uri_lead_eval, (intro conjI TrueI allI impI; simp add: uri_eval uri_members in_group_def [of "[x]" for x])+)

lemma path_leads:
  "ragel_lead uri_step [513] path_code [[]] [513]"
  "ragel_lead uri_step [513] (\<lambda>c. c = 37) [[]] [243]"
  "ragel_lead uri_step [243] (\<lambda>c. c \<in> set xdigit_codes) [[]] [244]"
  "ragel_lead uri_step [244] (\<lambda>c. c \<in> set xdigit_codes) [[]] [513]"
  by (simp_all add: uri_lead_eval uri_eval in_group_def) (auto simp: path_code_def)

lemma query_leads:
  "ragel_lead uri_step [457] query_code [[]] [457]"
  "ragel_lead uri_step [457] (\<lambda>c. c = 37) [[]] [7]"
  "ragel_lead uri_step [7] (\<lambda>c. c \<in> set xdigit_codes) [[]] [8]"
  "ragel_lead uri_step [8] (\<lambda>c. c \<in> set xdigit_codes) [[]] [457]"
  "ragel_lead uri_step [456] query_code [[U_marku]] [457]"
  by (simp_all add: uri_lead_eval uri_eval in_group_def) (auto simp: path_code_def query_code_def)

lemma fragment_leads:
  "ragel_lead uri_step [454] query_code [[]] [454]"
  "ragel_lead uri_step [454] (\<lambda>c. c = 37) [[]] [1]"
  "ragel_lead uri_step [1] (\<lambda>c. c \<in> set xdigit_codes) [[]] [2]"
  "ragel_lead uri_step [2] (\<lambda>c. c \<in> set xdigit_codes) [[]] [454]"
  "ragel_lead uri_step [453] query_code [[U_marku]] [454]"
  by (simp_all add: uri_lead_eval uri_eval in_group_def) (auto simp: path_code_def query_code_def)

interpretation uri_name: escaped_text uri_step name_group 253 254 host_char "\<lambda>c. c \<in> set host_codes" 511 U_markh
  by unfold_locales (rule name_leads host_code | simp add: uri_eval name_group_def)+

interpretation uri_host: escaped_text uri_step host_group 258 259 host_char "\<lambda>c. c \<in> set host_codes" 522 U_markh
  by unfold_locales (rule host_leads host_code | simp add: uri_eval host_group_def)+

interpretation uri_query: escaped_text uri_step "[457]" 7 8 query_char query_code 456 U_marku
  by unfold_locales (rule query_leads path_query_code | simp add: uri_eval)+

interpretation uri_fragment: escaped_text uri_step "[454]" 1 2 query_char query_code 453 U_marku
  by unfold_locales (rule fragment_leads path_query_code | simp add: uri_eval)+

interpretation uri_path: escaped_stay uri_step "[513]" 243 244 path_char path_code
  by unfold_locales (rule path_leads path_query_code | simp)+

subsection \<open>The parts of a URI\<close>

abbreviation uri_run :: "u8 list \<Rightarrow> u8 list \<Rightarrow> nat \<Rightarrow> nat \<Rightarrow> uri_state res \<Rightarrow> (nat \<times> uri_state res) option" where
  "uri_run str \<equiv> ragel_run uri_step (uri_act str)"

lemmas uri_acts = uri_act_def rbind.simps uri_do.simps

text \<open>\<open>part str k p s\<close>: the bytes of \<open>str\<close> from \<open>k\<close> to \<open>p\<close> are \<open>s\<close>.\<close>

definition part :: "u8 list \<Rightarrow> nat \<Rightarrow> nat \<Rightarrow> u8 list \<Rightarrow> bool" where
  "part str k p s \<longleftrightarrow> p = k + length s \<and> (\<exists>rest. drop k str = s @ rest)"

lemma mark_string_part: "part str k p s \<Longrightarrow> mark_string str (Some k) p = Inr s"
proof -
  assume "part str k p s"
  then obtain rest where r: "p = k + length s" "drop k str = s @ rest" by (auto simp: part_def)
  have "p - k \<le> length (drop k str)" unfolding r(2) by (simp add: r(1))
  then show ?thesis by (simp only: mark_string_def option.case sz_sub_le std_string_in_range r) (simp add: r)
qed

definition scheme_ok :: "u8 list \<Rightarrow> bool" where
  "scheme_ok s \<longleftrightarrow> s \<noteq> [] \<and> (is_upper (hd s) \<or> is_lower (hd s)) \<and>
     list_all (\<lambda>c. is_upper c \<or> is_lower c \<or> is_digit c \<or> uint c \<in> {0x2B, 0x2D, 0x2E}) s"

lemma scheme_states:
  "is_upper c \<or> is_lower c \<Longrightarrow> uri_step 451 (schar c) = ([U_marku], 508)"
  "is_upper c \<or> is_lower c \<or> is_digit c \<or> uint c \<in> {0x2B, 0x2D, 0x2E} \<Longrightarrow> uri_step 508 (schar c) = goto 508"
  unfolding char_class schar_if by (elim disjE insertE emptyE; simp add: uri_eval)+

lemma slash_states:
  "uri_step 508 58 = ([U_save_scheme], 509)" "uri_step 509 47 = goto 510" "uri_step 510 47 = goto 511"
  by (simp_all add: uri_eval)

lemma run_scheme:
  assumes "scheme_ok sch" "str = sch @ lit ''://'' @ rest"
  shows "uri_run str (sch @ lit ''://'') 0 451 (Inr (None, u)) = Some (511, Inr (None, u\<lparr>u_scheme := sch\<rparr>))"
proof -
  obtain c cs where s: "sch = c # cs" using assms(1) by (cases sch) (auto simp: scheme_ok_def)
  have 1: "uri_step 451 (schar c) = ([U_marku], 508)" using assms(1) s by (intro scheme_states(1)) (simp add: scheme_ok_def)
  have "uri_run str cs (Suc 0) 508 t = Some (508, t)" for t
    using assms(1) s by (intro ragel_run_loop) (auto simp: scheme_ok_def list_all_iff scheme_states(2))
  with 1 have r: "uri_run str sch 0 451 (Inr (None, u)) = Some (508, Inr (Some 0, u))"
    by (simp add: s uri_acts)
  have "mark_string str (Some 0) (length sch) = Inr sch" by (rule mark_string_part) (simp add: part_def assms(2))
  moreover have "lit ''://'' = [0x3A, 0x2F, 0x2F]" by (simp add: lit_def)
  ultimately show ?thesis using r by (simp add: ragel_run_append slash_states schar_numeral uri_acts)
qed

lemma group_ends:
  "ragel_lead uri_step name_group (\<lambda>c. c = 64) [[U_save_userinfo]] [522]"
  "ragel_lead uri_step name_group (\<lambda>c. c = 58) [[U_save_host]] [521]"
  "ragel_lead uri_step name_group (\<lambda>c. c = 47) [[U_save_host, U_markh]] [513]"
  "ragel_lead uri_step host_group (\<lambda>c. c = 58) [[U_save_host]] [514]"
  "ragel_lead uri_step host_group (\<lambda>c. c = 47) [[U_save_host, U_markh]] [513]"
  by (simp_all add: uri_lead_eval uri_eval in_group_def)

lemma port_states:
  "48 \<le> c \<and> c \<le> 57 \<Longrightarrow> uri_step 514 c = ([U_markh], 515)" "48 \<le> c \<and> c \<le> 57 \<Longrightarrow> uri_step 515 c = goto 515"
  "48 \<le> c \<and> c \<le> 57 \<Longrightarrow> uri_step 521 c = ([U_markh], 542)" "48 \<le> c \<and> c \<le> 57 \<Longrightarrow> uri_step 542 c = goto 542"
  "uri_step 515 47 = ([U_save_port, U_markh], 513)" "uri_step 542 47 = ([U_save_port, U_markh], 513)"
  "uri_step 514 47 = ([U_markh, U_save_port], 513)" "uri_step 521 47 = ([U_markh, U_save_port], 513)"
  by (simp_all add: uri_eval)

text \<open>A user name: its start is marked, and the at sign saves it.\<close>

lemma run_userinfo:
  assumes "uri_text host_char ui" "ui \<noteq> []" "drop p str = ui @ rest"
  shows "uri_run str (ui @ lit ''@'') p 511 (Inr (None, u)) = Some (522, Inr (None, u\<lparr>u_userinfo := ui\<rparr>))"
proof -
  obtain q where 1: "uri_run str ui p 511 (Inr (None, u)) = Some (q, Inr (Some p, u))" "q \<in> set name_group"
    using uri_name.run_enter [OF assms(1,2), of "uri_act str" p "Inr (None, u)"] by (auto simp: uri_acts)
  have 2: "uri_step q 64 = ([U_save_userinfo], 522)" using ragel_leadD [OF group_ends(1) 1(2)] by auto
  have "mark_string str (Some p) (p + length ui) = Inr ui" by (rule mark_string_part) (auto simp: part_def assms(3))
  moreover have "schar 0x40 = 64" "lit ''@'' = [0x40]" by (simp_all add: schar_def lit_def)
  ultimately show ?thesis using 1(1) 2 by (simp add: ragel_run_append uri_acts)
qed

lemma group_eof:
  "list_all (\<lambda>q. uri_eof q = [U_save_host, U_markh, U_save_path]) name_group"
  "list_all (\<lambda>q. uri_eof q = [U_save_host, U_markh, U_save_path]) host_group"
  by (simp_all only: uri_group_all list.pred_inject) (simp_all add: uri_eof_def)

text \<open>The host, in front of the first slash or colon, after a user name or without one.\<close>

lemma run_host:
  assumes "uri_text host_char h" "h \<noteq> []" "e = 511 \<or> e = 522"
  shows "\<exists>q. uri_run str h p e (Inr (m, u)) = Some (q, Inr (Some p, u)) \<and>
    uri_step q 58 = ([U_save_host], if e = 511 then 521 else 514) \<and> uri_step q 47 = ([U_save_host, U_markh], 513) \<and>
    uri_eof q = [U_save_host, U_markh, U_save_path]"
proof (cases "e = 511")
  case True
  obtain q where 1: "uri_run str h p 511 (Inr (m, u)) = Some (q, Inr (Some p, u))" "q \<in> set name_group"
    using uri_name.run_enter [OF assms(1,2), of "uri_act str" p "Inr (m, u)"] by (auto simp: uri_acts)
  moreover have "uri_eof q = [U_save_host, U_markh, U_save_path]" using group_eof(1) 1(2) by (simp add: list_all_iff)
  ultimately show ?thesis
    using ragel_leadD [OF group_ends(2) 1(2)] ragel_leadD [OF group_ends(3) 1(2)] True by auto
next
  case False
  obtain q where 1: "uri_run str h p 522 (Inr (m, u)) = Some (q, Inr (Some p, u))" "q \<in> set host_group"
    using uri_host.run_enter [OF assms(1,2), of "uri_act str" p "Inr (m, u)"] by (auto simp: uri_acts)
  moreover have "uri_eof q = [U_save_host, U_markh, U_save_path]" using group_eof(2) 1(2) by (simp add: list_all_iff)
  ultimately show ?thesis
    using ragel_leadD [OF group_ends(4) 1(2)] ragel_leadD [OF group_ends(5) 1(2)] False assms(3) by auto
qed

text \<open>A port, in front of the slash of the path.\<close>

lemma show_nat_codes: "c \<in> set (show_nat n) \<Longrightarrow> 48 \<le> schar c \<and> schar c \<le> 57"
  using show_nat_digit [of c n] by (auto simp: schar_if word_le_def)

lemma run_digits:
  "uri_run str (show_nat n) p 514 (Inr (m, u)) = Some (515, Inr (Some p, u))"
  "uri_run str (show_nat n) p 521 (Inr (m, u)) = Some (542, Inr (Some p, u))"
proof -
  obtain c cs where s: "show_nat n = c # cs" using show_nat_nonempty [of n] by (cases "show_nat n") auto
  note st = port_states(1-4) [OF show_nat_codes, of _ n]
  have "uri_run str cs (Suc p) 515 t = Some (515, t)" "uri_run str cs (Suc p) 542 t = Some (542, t)" for t
    using s st by (intro ragel_run_loop; simp)+
  then show "uri_run str (show_nat n) p 514 (Inr (m, u)) = Some (515, Inr (Some p, u))"
    "uri_run str (show_nat n) p 521 (Inr (m, u)) = Some (542, Inr (Some p, u))"
    using st s by (simp_all add: uri_acts)
qed

lemma run_port:
  assumes "n < 2 ^ 31" "drop p str = show_nat n @ 0x2F # rest" "e = 514 \<or> e = 521"
  shows "uri_run str (show_nat n @ [0x2F]) p e (Inr (m, u)) =
    Some (513, Inr (Some (p + length (show_nat n)), u\<lparr>u_port := int n\<rparr>))"
proof -
  define f where "f = (if e = 514 then 515 else 542 :: nat)"
  have 1: "uri_run str (show_nat n) p e (Inr (m, u)) = Some (f, Inr (Some p, u))"
    using run_digits [of str n p m u] assms(3) by (auto simp: f_def)
  have "p \<le> length str" using assms(2) drop_all [of str p] by (cases "p \<le> length str") auto
  then have "atoi (drop p (str @ [0])) = int n" using assms(1,2) by (simp add: atoi_show_nat digit_of_def)
  then have "uri_act str U_save_port (p + length (show_nat n)) (Inr (Some p, u)) = (Inr (None, u\<lparr>u_port := int n\<rparr>), False)"
    by (simp add: uri_acts)
  moreover have "uri_step f 47 = ([U_save_port, U_markh], 513)" using port_states(5,6) by (simp add: f_def)
  ultimately show ?thesis using 1 by (simp add: ragel_run_append schar_numeral uri_act_def)
qed

subsection \<open>The end of a URI\<close>

text \<open>\<open>uri_ends str xs p cs s u\<close>: from the state \<open>cs\<close> the rest \<open>xs\<close> of the string is accepted, with the URI \<open>u\<close>.\<close>

definition uri_ends :: "u8 list \<Rightarrow> u8 list \<Rightarrow> nat \<Rightarrow> nat \<Rightarrow> uri_state res \<Rightarrow> Uri res \<Rightarrow> bool" where
  "uri_ends str xs p cs s r \<longleftrightarrow> (\<exists>cs' s'. uri_run str xs p cs s = Some (cs', s') \<and> 451 \<le> cs' \<and>
     rbind (fst (ragel_actions (uri_act str) (uri_eof cs') (p + length xs) s')) (\<lambda>(m, u). Inr u) = r)"

lemma uri_ends_append:
  "uri_run str xs p cs s = Some (cs', s') \<Longrightarrow> uri_ends str ys (p + length xs) cs' s' r \<Longrightarrow> uri_ends str (xs @ ys) p cs s r"
  by (auto simp: uri_ends_def ragel_run_append add.assoc)

lemma uri_ends_create:
  assumes "uri_ends str str 0 451 (Inr (None, new_Uri)) r"
  shows "Uri_Create str = rbind r (\<lambda>u. Inr (Some u))"
proof -
  obtain cs' s' where e: "uri_run str str 0 451 (Inr (None, new_Uri)) = Some (cs', s')" "451 \<le> cs'"
    "rbind (fst (ragel_actions (uri_act str) (uri_eof cs') (length str) s')) (\<lambda>(m, u). Inr u) = r"
    using assms by (auto simp: uri_ends_def)
  have "rbind t (\<lambda>(m, u). Inr (Some u)) = rbind (rbind t (\<lambda>(m, u). Inr u)) (\<lambda>u. Inr (Some u))" for t :: "uri_state res"
    by (cases t) (simp_all split: prod.split)
  then show ?thesis using ragel_exec_run [OF e(1)] e(2,3)
    by (simp add: Uri_Create_def uri_parser_start_def uri_parser_error_def uri_parser_first_final_def)
qed

lemma end_states:
  "uri_eof 513 = [U_save_path]" "uri_eof 457 = [U_save_query]" "uri_eof 454 = [U_save_fragment]"
  "uri_eof 514 = [U_markh, U_save_port, U_save_path]" "uri_eof 521 = [U_markh, U_save_port, U_save_path]"
  "uri_step 513 63 = ([U_save_path], 456)" "uri_step 513 35 = ([U_save_path], 453)" "uri_step 457 35 = ([U_save_query], 453)"
  by (simp_all add: uri_eof_def uri_eval)

lemma ends_fragment:
  assumes "uri_text query_char f" "f \<noteq> []" "drop p str = f"
  shows "uri_ends str f p 453 (Inr (m, u)) (Inr (u\<lparr>u_fragment := f\<rparr>))"
proof -
  have "uri_run str f p 453 (Inr (m, u)) = Some (454, Inr (Some p, u))"
    using uri_fragment.run_enter [OF assms(1,2), of "uri_act str" p "Inr (m, u)"] by (auto simp: uri_acts)
  moreover have "mark_string str (Some p) (p + length f) = Inr f" by (rule mark_string_part) (simp add: part_def assms(3))
  ultimately show ?thesis by (simp add: uri_ends_def end_states uri_acts)
qed

text \<open>A fragment and a query, as they are printed, behind the state \<open>cs\<close> that saves \<open>w\<close> on a hash.\<close>

definition fragment_text :: "u8 list \<Rightarrow> u8 list" where
  "fragment_text f = (if f = [] then [] else 0x23 # f)"

definition query_text :: "u8 list \<Rightarrow> u8 list" where
  "query_text q = (if q = [] then [] else 0x3F # q)"

lemma ends_hash:
  assumes "uri_text query_char f" "drop p str = fragment_text f" "451 \<le> cs"
    and "uri_step cs 35 = ([a], 453)" "uri_eof cs = [a]" "uri_act str a p (Inr s) = (Inr (None, u), False)"
  shows "uri_ends str (fragment_text f) p cs (Inr s) (Inr (if f = [] then u else u\<lparr>u_fragment := f\<rparr>))"
proof (cases "f = []")
  case True
  then show ?thesis using assms by (simp add: uri_ends_def fragment_text_def)
next
  case False
  have "drop (Suc p) str = f" using assms(2) False by (simp add: fragment_text_def drop_Suc tl_drop [symmetric])
  moreover have "uri_run str [0x23] p cs (Inr s) = Some (453, Inr (None, u))" using assms(4,6) by (simp add: schar_numeral)
  ultimately show ?thesis
    using uri_ends_append [of str "[0x23]" p cs "Inr s" 453] ends_fragment [OF assms(1) False] False
    by (simp add: fragment_text_def)
qed


lemma drop_front: "str = xs @ ys \<Longrightarrow> k = length xs \<Longrightarrow> drop k str = ys"
  by simp

lemma drop_Suc_part: "drop p str = c # xs \<Longrightarrow> drop (Suc p) str = xs"
  by (simp add: drop_Suc tl_drop [symmetric])

text \<open>The query and the fragment behind a path that starts at \<open>k\<close>.\<close>

definition with_query :: "u8 list \<Rightarrow> u8 list \<Rightarrow> Uri \<Rightarrow> Uri" where
  "with_query q f u = (let v = (if q = [] then u else u\<lparr>u_query := q\<rparr>) in if f = [] then v else v\<lparr>u_fragment := f\<rparr>)"

lemma ends_query:
  assumes "uri_text query_char q" "uri_text query_char f" "drop p str = query_text q @ fragment_text f"
    and "uri_act str U_save_path p (Inr s) = (Inr (None, u), False)"
  shows "uri_ends str (query_text q @ fragment_text f) p 513 (Inr s) (Inr (with_query q f u))"
proof (cases "q = []")
  case True
  then show ?thesis
    using assms ends_hash [of f p str 513 U_save_path s u] by (simp add: end_states query_text_def with_query_def)
next
  case False
  have d: "drop (Suc p) str = q @ fragment_text f" using assms(3) False by (intro drop_Suc_part) (simp add: query_text_def)
  have "uri_run str [0x3F] p 513 (Inr s) = Some (456, Inr (None, u))" using assms(4) by (simp add: schar_numeral end_states)
  moreover have "uri_run str q (Suc p) 456 (Inr (None, u)) = Some (457, Inr (Some (Suc p), u))"
    using uri_query.run_enter [OF assms(1) False, of "uri_act str" "Suc p" "Inr (None, u)"] by (auto simp: uri_acts)
  ultimately have 1: "uri_run str (query_text q) p 513 (Inr s) = Some (457, Inr (Some (Suc p), u))"
    using False ragel_run_append [of uri_step "uri_act str" "[0x3F]" q] by (simp add: query_text_def)
  let ?p = "Suc p + length q"
  have "mark_string str (Some (Suc p)) ?p = Inr q" by (rule mark_string_part) (simp add: part_def d)
  then have a: "uri_act str U_save_query ?p (Inr (Some (Suc p), u)) = (Inr (None, u\<lparr>u_query := q\<rparr>), False)" by (simp add: uri_acts)
  have "drop ?p str = drop (length q) (drop (Suc p) str)" by (simp add: add.commute)
  then have "drop ?p str = fragment_text f" by (simp only: d) simp
  from ends_hash [OF assms(2) this _ _ _ a, of 457]
  have "uri_ends str (fragment_text f) ?p 457 (Inr (Some (Suc p), u)) (Inr (with_query q f u))"
    using False by (simp add: end_states with_query_def Let_def)
  then show ?thesis using uri_ends_append [OF 1] False by (simp add: query_text_def)
qed

lemma ends_path:
  assumes "uri_text path_char t" "uri_text query_char q" "uri_text query_char f"
    and "drop k str = 0x2F # t @ query_text q @ fragment_text f"
  shows "uri_ends str (t @ query_text q @ fragment_text f) (Suc k) 513 (Inr (Some k, u))
    (Inr (with_query q f (u\<lparr>u_path := 0x2F # t\<rparr>)))"
proof (rule uri_ends_append)
  let ?p = "Suc k + length t"
  show "uri_run str t (Suc k) 513 (Inr (Some k, u)) = Some (513, Inr (Some k, u))"
    using uri_path.run_text [OF _ assms(1), of 513 "uri_act str" "Suc k" "Inr (Some k, u)"] by simp
  have d: "drop (Suc k) str = t @ query_text q @ fragment_text f" using assms(4) by (rule drop_Suc_part)
  have "drop ?p str = drop (length t) (drop (Suc k) str)" by (simp add: add.commute)
  then have e: "drop ?p str = query_text q @ fragment_text f" by (simp only: d) simp
  have "mark_string str (Some k) ?p = Inr (0x2F # t)" by (rule mark_string_part) (simp add: part_def assms(4))
  then have "uri_act str U_save_path ?p (Inr (Some k, u)) = (Inr (None, u\<lparr>u_path := 0x2F # t\<rparr>), False)" by (simp add: uri_acts)
  then show "uri_ends str (query_text q @ fragment_text f) ?p 513 (Inr (Some k, u))
    (Inr (with_query q f (u\<lparr>u_path := 0x2F # t\<rparr>)))"
    by (rule ends_query [OF assms(2,3) e])
qed


subsection \<open>The authority\<close>

definition user_text :: "u8 list \<Rightarrow> u8 list" where
  "user_text ui = (if ui = [] then [] else ui @ lit ''@'')"

definition port_text :: "nat \<Rightarrow> bool \<Rightarrow> u8 list" where
  "port_text n dflt = (if dflt then [] else 0x3A # show_nat n)"

lemma run_host_port:
  assumes "uri_text host_char h" "h \<noteq> []" "e = 511 \<or> e = 522" "n < 2 ^ 31"
    and d: "drop p str = h @ port_text n dflt @ 0x2F # rest" "u_port u = 0"
  shows "uri_run str (h @ port_text n dflt @ [0x2F]) p e (Inr (m, u)) =
    Some (513, Inr (Some (p + length (h @ port_text n dflt)), u\<lparr>u_host := h, u_port := (if dflt then 0 else int n)\<rparr>))"
proof -
  obtain q where q: "uri_run str h p e (Inr (m, u)) = Some (q, Inr (Some p, u))"
    "uri_step q 58 = ([U_save_host], if e = 511 then 521 else 514)" "uri_step q 47 = ([U_save_host, U_markh], 513)"
    using run_host [OF assms(1-3)] by blast
  have 1: "mark_string str (Some p) (p + length h) = Inr h" by (rule mark_string_part) (simp add: part_def d)
  have dp: "drop (p + length h) str = port_text n dflt @ 0x2F # rest"
    using arg_cong [OF d(1), of "drop (length h)"] by (simp add: add.commute)
  show ?thesis
  proof (cases dflt)
    case True
    then show ?thesis using q(1,3) 1 d(2) by (simp add: ragel_run_append port_text_def schar_numeral uri_acts)
  next
    case False
    have "drop (Suc (p + length h)) str = show_nat n @ 0x2F # rest"
      using dp False by (intro drop_Suc_part) (simp add: port_text_def)
    then have "uri_run str (show_nat n @ [0x2F]) (Suc (p + length h)) (if e = 511 then 521 else 514) (Inr (Some p, u\<lparr>u_host := h\<rparr>)) =
      Some (513, Inr (Some (Suc (p + length h) + length (show_nat n)), u\<lparr>u_host := h, u_port := int n\<rparr>))"
      by (intro run_port [OF assms(4)]) simp_all
    then show ?thesis using q(1,2) 1 False by (simp add: ragel_run_append [of _ _ h] port_text_def schar_numeral uri_acts)
  qed
qed

lemma run_authority:
  assumes "uri_text host_char ui" "uri_text host_char h" "h \<noteq> []" "n < 2 ^ 31" "u_userinfo u = []" "u_port u = 0"
    and d: "drop p str = user_text ui @ h @ port_text n dflt @ 0x2F # rest"
  shows "uri_run str (user_text ui @ h @ port_text n dflt @ [0x2F]) p 511 (Inr (None, u)) =
    Some (513, Inr (Some (p + length (user_text ui @ h @ port_text n dflt)),
      u\<lparr>u_userinfo := ui, u_host := h, u_port := (if dflt then 0 else int n)\<rparr>))"
proof (cases "ui = []")
  case True
  moreover have "u\<lparr>u_userinfo := []\<rparr> = u" using assms(5) by simp
  ultimately show ?thesis
    using run_host_port [OF assms(2,3) _ assms(4), of 511 p str dflt rest u] d assms(6) by (simp add: user_text_def)
next
  case False
  have 1: "uri_run str (user_text ui) p 511 (Inr (None, u)) = Some (522, Inr (None, u\<lparr>u_userinfo := ui\<rparr>))"
    using run_userinfo [OF assms(1) False, of p str] d False by (simp add: user_text_def)
  have "drop (p + length (user_text ui)) str = h @ port_text n dflt @ 0x2F # rest"
    using arg_cong [OF d, of "drop (length (user_text ui))"] by (simp add: add.commute)
  from run_host_port [OF assms(2,3) _ assms(4) this, of 522 "u\<lparr>u_userinfo := ui\<rparr>"]
  show ?thesis using 1 assms(6) by (simp add: ragel_run_append [of _ _ "user_text ui"] add.assoc)
qed

subsection \<open>Reading back what \<open>dump\<close> prints\<close>

definition uri_ok :: "Uri \<Rightarrow> bool" where
  "uri_ok u \<longleftrightarrow> scheme_ok (u_scheme u) \<and> uri_text host_char (u_userinfo u) \<and>
     uri_text host_char (u_host u) \<and> u_host u \<noteq> [] \<and> 0 \<le> u_port u \<and> u_port u < 2 ^ 31 \<and>
     (u_path u \<noteq> [] \<longrightarrow> hd (u_path u) = 0x2F \<and> uri_text path_char (tl (u_path u))) \<and>
     uri_text query_char (u_query u) \<and> uri_text query_char (u_fragment u)"

definition uri_normal :: "Uri \<Rightarrow> Uri" where
  "uri_normal u = u\<lparr>u_path := Uri_getPath u, u_port := (if isDefaultPort u then 0 else u_port u)\<rparr>"

lemma uri_dump_parts:
  assumes "0 \<le> u_port u" "Uri_getPath u = 0x2F # t"
  shows "Uri_dump u = (u_scheme u @ lit ''://'') @
    (user_text (u_userinfo u) @ u_host u @ port_text (nat (u_port u)) (isDefaultPort u) @ [0x2F]) @
    t @ query_text (u_query u) @ fragment_text (u_fragment u)"
proof -
  have "lit '':'' = [0x3A]" "lit ''?'' = [0x3F]" "lit ''#'' = [0x23]" by (simp_all add: lit_def)
  then show ?thesis
    using assms by (simp add: Uri_dump_def user_text_def port_text_def query_text_def fragment_text_def show_int_def)
qed

lemma uri_normal_parts:
  assumes "0 \<le> u_port u" "Uri_getPath u = 0x2F # t"
  shows "with_query (u_query u) (u_fragment u) (new_Uri\<lparr>u_scheme := u_scheme u, u_userinfo := u_userinfo u,
    u_host := u_host u, u_port := (if isDefaultPort u then 0 else int (nat (u_port u))), u_path := 0x2F # t\<rparr>) = uri_normal u"
  using assms by (simp add: with_query_def uri_normal_def new_Uri_def Let_def)

text \<open>
  Property C5. What \<open>Uri::toString\<close> prints of a URI with a scheme and a host, whose parts are texts of their
  classes, \<open>Uri::Create\<close> reads back: the same parts, except that an empty path has become the
  slash and the default port of the scheme is not kept; the path and the port that \<open>getPath\<close> and
  \<open>getPort\<close> give are the same.
\<close>

theorem uri_roundtrip:
  assumes "uri_ok u"
  shows "Uri_Create (Uri_dump u) = Inr (Some (uri_normal u)) \<and>
    Uri_getPath (uri_normal u) = Uri_getPath u \<and> Uri_getPort (uri_normal u) = Uri_getPort u"
proof -
  obtain t where t: "Uri_getPath u = 0x2F # t" "uri_text path_char t"
    using assms by (cases "u_path u") (auto simp: uri_ok_def Uri_getPath_def lit_def)
  have ok: "scheme_ok (u_scheme u)" "uri_text host_char (u_userinfo u)" "uri_text host_char (u_host u)" "u_host u \<noteq> []"
    "0 \<le> u_port u" "nat (u_port u) < 2 ^ 31" "uri_text query_char (u_query u)" "uri_text query_char (u_fragment u)"
    using assms by (simp_all add: uri_ok_def nat_less_iff)
  let ?str = "Uri_dump u" and ?pre = "u_scheme u @ lit ''://''" and ?tail = "query_text (u_query u) @ fragment_text (u_fragment u)"
    and ?auth = "user_text (u_userinfo u) @ u_host u @ port_text (nat (u_port u)) (isDefaultPort u)"
    and ?u1 = "new_Uri\<lparr>u_scheme := u_scheme u\<rparr>"
  note d = uri_dump_parts [OF ok(5) t(1)]
  have 1: "uri_run ?str ?pre 0 451 (Inr (None, new_Uri)) = Some (511, Inr (None, ?u1))"
    by (rule run_scheme [OF ok(1)]) (simp add: d)
  have "drop (length ?pre) ?str = (?auth @ [0x2F]) @ t @ ?tail" by (rule drop_front [OF _ refl]) (simp add: d)
  then have 2: "uri_run ?str (?auth @ [0x2F]) (length ?pre) 511 (Inr (None, ?u1)) =
    Some (513, Inr (Some (length ?pre + length ?auth),
      ?u1\<lparr>u_userinfo := u_userinfo u, u_host := u_host u, u_port := (if isDefaultPort u then 0 else int (nat (u_port u)))\<rparr>))"
    using run_authority [OF ok(2-4,6), of ?u1 "length ?pre" ?str "isDefaultPort u" "t @ ?tail"] by (simp add: new_Uri_def)
  have 3: "drop (length ?pre + length ?auth) ?str = 0x2F # t @ ?tail" by (rule drop_front [of _ "?pre @ ?auth"]) (simp_all add: d)
  have 4: "uri_ends ?str (t @ ?tail) (length ?pre + length (?auth @ [0x2F])) 513 (Inr (Some (length ?pre + length ?auth),
      ?u1\<lparr>u_userinfo := u_userinfo u, u_host := u_host u, u_port := (if isDefaultPort u then 0 else int (nat (u_port u)))\<rparr>))
      (Inr (uri_normal u))"
    using ends_path [OF t(2) ok(7,8) 3, of "?u1\<lparr>u_userinfo := u_userinfo u, u_host := u_host u,
      u_port := (if isDefaultPort u then 0 else int (nat (u_port u)))\<rparr>"] uri_normal_parts [OF ok(5) t(1)] by simp
  have "uri_ends ?str (?pre @ (?auth @ [0x2F]) @ t @ ?tail) 0 451 (Inr (None, new_Uri)) (Inr (uri_normal u))"
    by (rule uri_ends_append [OF 1, unfolded add_0, OF uri_ends_append [OF 2 4]])
  then have "uri_ends ?str ?str 0 451 (Inr (None, new_Uri)) (Inr (uri_normal u))" by (simp only: d append_assoc)
  from uri_ends_create [OF this] show ?thesis
    by (auto simp: uri_normal_def Uri_getPath_def Uri_getPort_def isDefaultPort_def)
qed


theorem uri_roundtrip_witness:
  "Uri_Create (lit ''http://me@h:8080/a%20b?k=v#f'') = Inr (Some
     \<lparr>u_scheme = lit ''http'', u_userinfo = lit ''me'', u_host = lit ''h'', u_path = lit ''/a%20b'', u_query = lit ''k=v'',
      u_fragment = lit ''f'', u_port = 8080\<rparr>)"
proof -
  let ?u = "\<lparr>u_scheme = lit ''http'', u_userinfo = lit ''me'', u_host = lit ''h'', u_path = lit ''/a%20b'', u_query = lit ''k=v'',
      u_fragment = lit ''f'', u_port = 8080\<rparr>"
  have "uri_ok ?u" by code_simp
  from uri_roundtrip [OF this] have "Uri_Create (Uri_dump ?u) = Inr (Some (uri_normal ?u))" by (rule conjunct1)
  moreover have "Uri_dump ?u = lit ''http://me@h:8080/a%20b?k=v#f''"
    by (simp add: Uri_dump_def Uri_getPath_def isDefaultPort_def show_int_def show_nat.simps lit_def)
  moreover have "uri_normal ?u = ?u" by (simp add: uri_normal_def Uri_getPath_def isDefaultPort_def lit_def)
  ultimately show ?thesis by simp
qed

subsection \<open>An empty port\<close>

text \<open>
  Behind the colon of an authority the mark is set and cleared at once when no digit follows, and
  the slash of the path does not set it again: the end of the path uses the null mark.
\<close>

lemma fault_stays: "snd (snd (ragel_exec uri_step (uri_act str) xs p cs (Inl e))) = Inl e"
proof (induction xs arbitrary: p cs)
  case (Cons c xs)
  have "ragel_actions (uri_act str) as p (Inl e) = (Inl e, False)" for as by (induction as) (simp_all add: uri_act_def)
  with Cons show ?case by (simp split: prod.split)
qed simp

lemma create_fault:
  assumes "uri_run str xs 0 451 (Inr (None, new_Uri)) = Some (cs, Inl e)" "str = xs @ ys"
  shows "Uri_Create str = Inl e"
proof -
  obtain p' cs' where "ragel_exec uri_step (uri_act str) str 0 451 (Inr (None, new_Uri)) = (p', cs', Inl e)"
    using ragel_exec_append [OF assms(1), of ys] fault_stays [of str ys "length xs" cs e] assms(2) by (metis add_0 prod.collapse)
  moreover have "fst (ragel_actions (uri_act str) as p (Inl e)) = Inl e" for as p by (induction as) (simp_all add: uri_act_def)
  ultimately show ?thesis by (simp add: Uri_Create_def uri_parser_start_def)
qed

text \<open>The states behind an empty port, and behind it and a path.\<close>

definition null_actions :: "nat \<Rightarrow> uri_action list" where
  "null_actions cs = (if cs = 513 then [U_save_path] else [U_markh, U_save_port, U_save_path])"

lemma null_states:
  assumes "cs = 513 \<or> cs = 514 \<or> cs = 521"
  shows "uri_eof cs = null_actions cs" "uri_step cs 35 = (null_actions cs, 453)" "uri_step cs 63 = (null_actions cs, 456)"
  using assms by (elim disjE; simp add: null_actions_def uri_eof_def uri_eval)+

lemma null_fault:
  "(cs = 513 \<longrightarrow> m = None) \<Longrightarrow> ragel_actions (uri_act str) (null_actions cs) p (Inr (m, u)) = (Inl LogicError, False)"
  by (simp add: null_actions_def uri_acts mark_string_def)

lemma null_end:
  assumes r: "uri_run str xs 0 451 (Inr (None, new_Uri)) = Some (cs, Inr (m, u))" "str = xs @ rest"
    and cs: "cs = 513 \<and> m = None \<or> cs = 514 \<or> cs = 521" and rest: "rest = [] \<or> hd rest \<in> {0x23, 0x3F}"
  shows "Uri_Create str = Inl LogicError"
proof (cases rest)
  case Nil
  have "uri_ends str str 0 451 (Inr (None, new_Uri)) (Inl LogicError)"
    using r cs Nil null_states(1) [of cs] null_fault [of cs m str "length xs" u] by (auto simp: uri_ends_def)
  then show ?thesis using uri_ends_create by force
next
  case (Cons c ys)
  then obtain t where "uri_step cs (schar c) = (null_actions cs, t)" "t \<noteq> 0"
    using rest cs null_states(2,3) [of cs] by (auto simp: schar_numeral)
  then have "uri_run str (xs @ [c]) 0 451 (Inr (None, new_Uri)) = Some (t, Inl LogicError)"
    using r(1) cs null_fault [of cs m str "length xs" u] by (auto simp: ragel_run_append)
  then show ?thesis using r(2) Cons by (intro create_fault [of _ "xs @ [c]" _ _ ys]) simp_all
qed

text \<open>
  Property C39. The port of RFC 3986 may be empty. \<open>Uri::Create\<close> throws \<open>std::logic_error\<close> on every URI of a scheme
  and an authority with an empty port, whatever comes behind its path.
\<close>

theorem uri_empty_port_throws:
  assumes "scheme_ok sch" "uri_text host_char ui" "uri_text host_char h" "h \<noteq> []"
    and "path = [] \<or> (\<exists>t. path = 0x2F # t \<and> uri_text path_char t)"
    and "rest = [] \<or> hd rest \<in> {0x23, 0x3F}"
  shows "Uri_Create (sch @ lit ''://'' @ user_text ui @ h @ lit '':'' @ path @ rest) = Inl LogicError"
proof -
  let ?pre = "sch @ lit ''://''" and ?u1 = "new_Uri\<lparr>u_scheme := sch\<rparr>"
  let ?str = "?pre @ user_text ui @ h @ 0x3A # path @ rest"
  have 1: "uri_run ?str ?pre 0 451 (Inr (None, new_Uri)) = Some (511, Inr (None, ?u1))"
    by (rule run_scheme [OF assms(1)]) simp
  obtain e u2 where 2: "uri_run ?str (?pre @ user_text ui) 0 451 (Inr (None, new_Uri)) = Some (e, Inr (None, u2))" "e = 511 \<or> e = 522"
  proof (cases "ui = []")
    case True
    then show ?thesis using that [of 511 ?u1] 1 by (simp add: user_text_def)
  next
    case False
    then show ?thesis
      using that [of 522 "?u1\<lparr>u_userinfo := ui\<rparr>"] 1 run_userinfo [OF assms(2) False, of "length ?pre" ?str "lit ''@'' @ h @ 0x3A # path @ rest" ?u1]
      by (simp add: ragel_run_append [of _ _ ?pre, simplified] user_text_def)
  qed
  let ?p = "length (?pre @ user_text ui)"
  obtain q where q: "uri_run ?str h ?p e (Inr (None, u2)) = Some (q, Inr (Some ?p, u2))"
    "uri_step q 58 = ([U_save_host], if e = 511 then 521 else 514)"
    using run_host [OF assms(3,4) 2(2)] by blast
  have "mark_string ?str (Some ?p) (?p + length h) = Inr h" by (rule mark_string_part) (simp add: part_def)
  then have 3: "uri_run ?str ((?pre @ user_text ui) @ h @ [0x3A]) 0 451 (Inr (None, new_Uri)) =
    Some (if e = 511 then 521 else 514, Inr (Some ?p, u2\<lparr>u_host := h\<rparr>))"
    using 2(1) q by (simp only: ragel_run_append [of _ _ "?pre @ user_text ui"]) (simp add: ragel_run_append schar_numeral uri_acts)
  have c: "lit '':'' = [0x3A]" by (simp add: lit_def)
  let ?f = "if e = 511 then 521 else 514" and ?xs = "(?pre @ user_text ui) @ h @ [0x3A]"
  from assms(5) show ?thesis
  proof (elim disjE exE conjE)
    assume "path = []"
    then show ?thesis using null_end [OF 3, of rest] assms(6) by (simp add: c)
  next
    fix t assume t: "path = 0x2F # t" "uri_text path_char t"
    have "uri_step ?f 47 = ([U_markh, U_save_port], 513)" using port_states(7,8) by simp
    then have "uri_run ?str [0x2F] (length ?xs) ?f (Inr (Some ?p, u2\<lparr>u_host := h\<rparr>)) = Some (513, Inr (None, u2\<lparr>u_host := h\<rparr>))"
      by (simp add: schar_numeral uri_acts)
    moreover have "uri_run ?str t (length ?xs + 1) 513 s = Some (513, s)" for s
      using uri_path.run_text [OF _ t(2), of 513 "uri_act ?str"] by simp
    ultimately have "uri_run ?str (?xs @ [0x2F] @ t) 0 451 (Inr (None, new_Uri)) = Some (513, Inr (None, u2\<lparr>u_host := h\<rparr>))"
      by (simp only: ragel_run_append [of _ _ ?xs] ragel_run_append [of _ _ "[0x2F]"] 3) simp
    then show ?thesis using null_end [of ?str "?xs @ [0x2F] @ t"] assms(6) t(1) by (simp add: c)
  qed
qed

theorem uri_empty_port_throws_witness:
  "Uri_Create (lit ''http://h:/'') = Inl LogicError"
proof -
  have "scheme_ok (lit ''http'')" "uri_text host_char []" "uri_text host_char (lit ''h'')" "lit ''h'' \<noteq> []"
    "lit ''/'' = [] \<or> (\<exists>t. lit ''/'' = 0x2F # t \<and> uri_text path_char t)"
    by (code_simp, code_simp, code_simp, code_simp, simp add: lit_def)
  from uri_empty_port_throws [OF this, of "[]"] show ?thesis by (simp add: lit_def user_text_def)
qed


subsection \<open>A password of digits\<close>

text \<open>
  The digits behind the first colon may be a port, so they are marked, and an at sign behind them
  saves only what is behind that mark as the user information.
\<close>

lemma uri_numeric_password:
  assumes "scheme_ok sch" "uri_text host_char ui" "ui \<noteq> []" "uri_text host_char h" "h \<noteq> []" "uri_text path_char t"
  shows "Uri_Create (sch @ lit ''://'' @ ui @ lit '':'' @ show_nat n @ lit ''@'' @ h @ 0x2F # t) = Inr (Some (new_Uri
    \<lparr>u_scheme := sch, u_userinfo := show_nat n, u_host := h, u_path := 0x2F # t\<rparr>))"
proof -
  let ?pre = "sch @ lit ''://''" and ?u1 = "new_Uri\<lparr>u_scheme := sch\<rparr>"
  let ?xs = "?pre @ ui @ [0x3A]"
  let ?ys = "?xs @ show_nat n @ [0x40]"
  let ?str = "?ys @ h @ 0x2F # t"
  have 1: "uri_run ?str ?pre 0 451 (Inr (None, new_Uri)) = Some (511, Inr (None, ?u1))"
    by (rule run_scheme [OF assms(1)]) simp
  let ?p = "length ?pre"
  obtain q where q: "uri_run ?str ui ?p 511 (Inr (None, ?u1)) = Some (q, Inr (Some ?p, ?u1))" "uri_step q 58 = ([U_save_host], 521)"
    using run_host [OF assms(2,3), of 511 ?str ?p None ?u1] by auto
  have "mark_string ?str (Some ?p) (?p + length ui) = Inr ui" by (rule mark_string_part) (simp add: part_def)
  then have 2: "uri_run ?str ?xs 0 451 (Inr (None, new_Uri)) = Some (521, Inr (Some ?p, ?u1\<lparr>u_host := ui\<rparr>))"
    using 1 q by (simp only: ragel_run_append [of _ _ ?pre]) (simp add: ragel_run_append schar_numeral uri_acts)
  let ?q = "length ?xs" and ?u2 = "?u1\<lparr>u_host := ui, u_userinfo := show_nat n\<rparr>"
  have 3: "uri_run ?str (show_nat n) ?q 521 (Inr (Some ?p, ?u1\<lparr>u_host := ui\<rparr>)) = Some (542, Inr (Some ?q, ?u1\<lparr>u_host := ui\<rparr>))"
    by (rule run_digits(2))
  have "mark_string ?str (Some ?q) (?q + length (show_nat n)) = Inr (show_nat n)" by (rule mark_string_part) (simp add: part_def)
  moreover have "uri_step 542 64 = ([U_save_userinfo], 522)" "schar 0x40 = 64" by (simp_all add: uri_eval schar_def)
  ultimately have 4: "uri_run ?str ?ys 0 451 (Inr (None, new_Uri)) = Some (522, Inr (None, ?u2))"
    using 2 3 by (simp only: ragel_run_append [of _ _ ?xs] ragel_run_append [of _ _ "show_nat n"]) (simp add: uri_acts)
  have 5: "uri_run ?str (h @ [0x2F]) (length ?ys) 522 (Inr (None, ?u2)) = Some (513, Inr (Some (length ?ys + length h), ?u2\<lparr>u_host := h, u_port := 0\<rparr>))"
    using run_host_port [OF assms(4,5), of 522 0 "length ?ys" ?str True t ?u2] by (simp add: port_text_def new_Uri_def)
  have "drop (length ?ys + length h) ?str = 0x2F # t" by (rule drop_front [of _ "?ys @ h"]) simp_all
  from ends_path [OF assms(6), of "[]" "[]", OF _ _ this [THEN trans]]
  have 6: "uri_ends ?str t (length ?ys + length (h @ [0x2F])) 513 (Inr (Some (length ?ys + length h), ?u2\<lparr>u_host := h, u_port := 0\<rparr>))
    (Inr (?u2\<lparr>u_host := h, u_port := 0, u_path := 0x2F # t\<rparr>))"
    by (simp add: query_text_def fragment_text_def with_query_def)
  have "uri_ends ?str (?ys @ (h @ [0x2F]) @ t) 0 451 (Inr (None, new_Uri)) (Inr (?u2\<lparr>u_host := h, u_port := 0, u_path := 0x2F # t\<rparr>))"
    by (rule uri_ends_append [OF 4, unfolded add_0, OF uri_ends_append [OF 5 6]])
  from uri_ends_create [of ?str] this show ?thesis by (simp add: lit_def new_Uri_def)
qed


text \<open>The path is kept only behind a scheme and an authority.\<close>

lemma uri_path_lost:
  "Uri_Create (lit ''/a/b'') = Inr (Some new_Uri)"
  "Uri_Create (lit ''//h/y'') = Inr (Some (new_Uri\<lparr>u_host := lit ''h''\<rparr>))"
  "Uri_Create (lit ''http:/x'') = Inr (Some (new_Uri\<lparr>u_scheme := lit ''http''\<rparr>))"
  by code_simp+

end
