(* ===== verification/Civan_Tcp_Server.thy ===== *)
theory Civan_Tcp_Server
  imports Civan_Socket Civan_Text
begin

section \<open>The TCP server: \<open>civan/tcp_server.cc\<close> and \<open>tcp_server.h\<close>\<close>

text \<open>
  The listening sockets of a server, their binding, the accept loop and the tasks it gives to
  the workers. The sockets and the system are those of theory \<open>Civan_Socket\<close>. A socket that
  goes out of scope is closed by its destructor. What an operation hands to
  \<open>IOManager::schedule\<close> is its output: a list of workers with the task for each. The
  main results are on the ownership of descriptors: a failed \<open>bind\<close> leaves none open, and
  every accepted connection is handed to exactly one worker.
\<close>

subsection \<open>The server\<close>

record 'a TcpServer =
  m_socks :: "'a Socket list"
  m_workers :: "u8 list list"
  m_recvTimeout :: u64
  srv_name :: "u8 list"
  m_isStop :: bool

text \<open>A worker by its index in \<open>m_workers\<close>, or the accepting one; the tasks that are scheduled.\<close>

datatype worker =
    AcceptWorker
  | Worker nat

datatype 'a task =
    StartAccept "'a Socket"
  | HandleClient "'a Socket"
  | StopSockets

fun addWorkers :: "nat \<Rightarrow> 'a TcpServer \<Rightarrow> 'a TcpServer" where
  "addWorkers 0 t = t"
| "addWorkers (Suc n) t = addWorkers n (t\<lparr>m_workers := m_workers t @ [srv_name t @ lit ''_'' @ show_nat (length (m_workers t) + 1)]\<rparr>)"

definition new_TcpServer :: "u64 \<Rightarrow> nat \<Rightarrow> 'a TcpServer" where
  "new_TcpServer read_timeout worker_num = addWorkers worker_num
     \<lparr>m_socks = [], m_workers = [], m_recvTimeout = read_timeout, srv_name = lit ''civan/1.0.0'', m_isStop = True\<rparr>"

definition SOMAXCONN :: int where "SOMAXCONN = 128"

definition close_socket :: "('k, 'a) sys \<Rightarrow> 'a Socket \<Rightarrow> 'k \<Rightarrow> 'k" where
  "close_socket S s k = snd (snd (Socket_close S s k))"

subsection \<open>Binding\<close>

fun bind_loop :: "('k, 'a) sys \<Rightarrow> 'a list \<Rightarrow> 'a Socket list \<Rightarrow> 'a list \<Rightarrow> 'k \<Rightarrow> 'a Socket list \<times> 'a list \<times> 'k" where
  "bind_loop S [] socks fails k = (socks, fails, k)"
| "bind_loop S (addr # addrs) socks fails k =
     (let (bound, sock, k1) = Socket_bind S addr (CreateTCP S addr) k in
      if \<not> bound then bind_loop S addrs socks (fails @ [addr]) (close_socket S sock k1)
      else let (listening, k2) = Socket_listen S SOMAXCONN sock k1 in
        if \<not> listening then bind_loop S addrs socks (fails @ [addr]) (close_socket S sock k2)
        else bind_loop S addrs (socks @ [sock]) fails k2)"

definition TcpServer_bind_all ::
  "('k, 'a) sys \<Rightarrow> 'a list \<Rightarrow> 'a list \<Rightarrow> 'a TcpServer \<Rightarrow> 'k \<Rightarrow> bool \<times> 'a list \<times> 'a TcpServer \<times> 'k" where
  "TcpServer_bind_all S addrs fails t k =
     (let (socks, fails1, k1) = bind_loop S addrs (m_socks t) fails k in
      if fails1 \<noteq> [] then (False, fails1, t\<lparr>m_socks := []\<rparr>, fold (close_socket S) socks k1)
      else (True, fails1, t\<lparr>m_socks := socks\<rparr>, k1))"

definition TcpServer_bind :: "('k, 'a) sys \<Rightarrow> 'a \<Rightarrow> 'a TcpServer \<Rightarrow> 'k \<Rightarrow> bool \<times> 'a TcpServer \<times> 'k" where
  "TcpServer_bind S addr t k = (let (ok, fails, t', k') = TcpServer_bind_all S [addr] [] t k in (ok, t', k'))"

subsection \<open>Running\<close>

definition TcpServer_start :: "'a TcpServer \<Rightarrow> bool \<times> (worker \<times> 'a task) list \<times> 'a TcpServer" where
  "TcpServer_start t = (if \<not> m_isStop t then (True, [], t)
     else (True, map (\<lambda>s. (AcceptWorker, StartAccept s)) (m_socks t), t\<lparr>m_isStop := False\<rparr>))"

definition TcpServer_stop :: "'a TcpServer \<Rightarrow> (worker \<times> 'a task) list \<times> 'a TcpServer" where
  "TcpServer_stop t = ([(AcceptWorker, StopSockets)], t\<lparr>m_isStop := True\<rparr>)"

text \<open>The task that \<open>stop\<close> schedules, and the destructor.\<close>

definition stop_sockets :: "('k, 'a) sys \<Rightarrow> 'a TcpServer \<Rightarrow> 'k \<Rightarrow> 'a TcpServer \<times> 'k" where
  "stop_sockets S t k = (t\<lparr>m_socks := []\<rparr>, fold (\<lambda>s k. close_socket S s (snd (Socket_cancelAll S s k))) (m_socks t) k)"

definition delete_TcpServer :: "('k, 'a) sys \<Rightarrow> 'a TcpServer \<Rightarrow> 'k \<Rightarrow> 'k" where
  "delete_TcpServer S t k = fold (close_socket S) (m_socks t) k"

text \<open>The worker of a client: its descriptor, converted to \<open>size_t\<close>, modulo the number of workers.\<close>

definition pick_worker :: "'a TcpServer \<Rightarrow> 'a Socket \<Rightarrow> worker" where
  "pick_worker t client = (if length (m_workers t) = 0 then AcceptWorker
     else Worker (nat (take_bit 64 (m_sock client)) mod length (m_workers t)))"

definition accept_once :: "('k, 'a) sys \<Rightarrow> 'a TcpServer \<Rightarrow> 'a Socket \<Rightarrow> 'k \<Rightarrow> (worker \<times> 'a task) list \<times> 'k" where
  "accept_once S t sock k = (case Socket_accept S sock k of
       (None, k1) \<Rightarrow> ([], k1)
     | (Some client, k1) \<Rightarrow>
         ([(pick_worker t client, HandleClient client)], snd (setRecvTimeout S (sint (m_recvTimeout t)) client k1)))"

text \<open>The loop of \<open>startAccept\<close>, over what it reads of \<open>m_isStop\<close> before each round.\<close>

fun accept_loop :: "('k, 'a) sys \<Rightarrow> 'a TcpServer \<Rightarrow> 'a Socket \<Rightarrow> bool list \<Rightarrow> 'k \<Rightarrow> (worker \<times> 'a task) list \<times> 'k" where
  "accept_loop S t sock [] k = ([], k)"
| "accept_loop S t sock (stop # stops) k =
     (if stop then ([], k)
      else let (out, k1) = accept_once S t sock k; (outs, k2) = accept_loop S t sock stops k1 in (out @ outs, k2))"

subsection \<open>Ownership\<close>

text \<open>The sockets hold the descriptors that are open beyond \<open>base\<close>, each its own.\<close>

definition socks_own :: "('k \<Rightarrow> int set) \<Rightarrow> int set \<Rightarrow> 'a Socket list \<Rightarrow> 'k \<Rightarrow> bool" where
  "socks_own opened base socks k \<longleftrightarrow> opened k = base \<union> m_sock ` set socks \<and> distinct (map m_sock socks) \<and>
     (\<forall>s\<in>set socks. m_sock s \<notin> base \<and> m_sock s \<noteq> -1) \<and> -1 \<notin> base"

lemma close_socket_opened: "sys_laws S opened \<Longrightarrow> m_sock s \<noteq> -1 \<Longrightarrow> opened (close_socket S s k) = opened k - {m_sock s}"
  by (simp add: close_socket_def Socket_close_def Let_def sys_lawsD)

lemma close_owned:
  assumes "sys_laws S opened" "socks_own opened base (s # socks) k" "opened k' = opened k"
  shows "socks_own opened base socks (close_socket S s k')"
  using assms close_socket_opened [OF assms(1), of s k'] by (auto simp: socks_own_def)

lemma close_all:
  assumes "sys_laws S opened" "\<And>s k. opened (f s k) = opened k"
  shows "socks_own opened base socks k \<Longrightarrow> opened (fold (\<lambda>s k. close_socket S s (f s k)) socks k) = base"
proof (induction socks arbitrary: k)
  case Nil
  then show ?case by (simp add: socks_own_def)
next
  case (Cons s socks)
  then show ?case using close_owned [OF assms(1) Cons.prems, of "f s k"] assms(2) by simp
qed

lemma bind_one:
  assumes "sys_laws S opened" "-1 \<notin> opened k" "Socket_bind S addr (CreateTCP S addr) k = (bound, sock, k1)"
  shows "sock_owns opened (opened k) (sock, k1)" "bound \<Longrightarrow> m_sock sock \<noteq> -1"
proof -
  have "sock_owns opened (opened k) (CreateTCP S addr, k)"
    using assms(2) by (simp add: sock_owns_def CreateTCP_def new_Socket_def)
  from bind_owns [OF assms(1) this, of addr] assms(3) show "sock_owns opened (opened k) (sock, k1)" by simp
  show "bound \<Longrightarrow> m_sock sock \<noteq> -1"
    using assms(3) by (auto simp: Socket_bind_def isValid_def split: prod.splits if_splits)
qed

lemma drop_one:
  assumes "sys_laws S opened" "sock_owns opened (opened k) (sock, k1)" "opened k2 = opened k1"
  shows "opened (close_socket S sock k2) = opened k"
proof -
  have "sock_owns opened (opened k) (sock, k2)" using assms(2,3) by (rule_tac sock_owns_cong) auto
  from close_owns(1,2) [OF assms(1) this] show ?thesis by (simp add: close_socket_def sock_owns_def)
qed

lemma listen_opened: "sys_laws S opened \<Longrightarrow> opened (snd (Socket_listen S b s k)) = opened k"
  by (simp add: Socket_listen_def sys_lawsD)

lemma socks_own_snoc:
  assumes "socks_own opened base socks k" "sock_owns opened (opened k) (sock, k')" "m_sock sock \<noteq> -1" "opened k2 = opened k'"
  shows "socks_own opened base (socks @ [sock]) k2"
  using assms by (auto simp: socks_own_def sock_owns_def)

lemma socks_own_opened: "socks_own opened base socks k \<Longrightarrow> opened k' = opened k \<Longrightarrow> socks_own opened base socks k'"
  by (simp add: socks_own_def)

lemma bind_loop_owns:
  assumes "sys_laws S opened"
  shows "socks_own opened base socks k \<Longrightarrow> bind_loop S addrs socks fails k = (socks', fails', k') \<Longrightarrow>
    socks_own opened base socks' k' \<and> length socks' + length fails' = length socks + length fails + length addrs"
proof (induction addrs arbitrary: socks fails k)
  case Nil
  then show ?case by simp
next
  case (Cons addr addrs)
  obtain bound sock k1 where b: "Socket_bind S addr (CreateTCP S addr) k = (bound, sock, k1)" by (metis prod_cases3)
  obtain listening k2 where l: "Socket_listen S SOMAXCONN sock k1 = (listening, k2)" by fastforce
  have n: "-1 \<notin> opened k" using Cons.prems(1) by (auto simp: socks_own_def)
  note one = bind_one [OF assms n b]
  have k2: "opened k2 = opened k1" using listen_opened [OF assms, of SOMAXCONN sock k1] l by simp
  consider "\<not> bound" | "bound" "\<not> listening" | "bound" "listening" by blast
  then show ?case
  proof cases
    case 1
    then show ?thesis
      using Cons.IH [of socks "close_socket S sock k1" "fails @ [addr]"] Cons.prems b
        socks_own_opened [OF Cons.prems(1) drop_one [OF assms one(1) refl]] by simp
  next
    case 2
    then show ?thesis
      using Cons.IH [of socks "close_socket S sock k2" "fails @ [addr]"] Cons.prems b l
        socks_own_opened [OF Cons.prems(1) drop_one [OF assms one(1) k2]] by simp
  next
    case 3
    then show ?thesis
      using Cons.IH [of "socks @ [sock]" k2 fails] Cons.prems b l
        socks_own_snoc [OF Cons.prems(1) one(1) one(2) k2] by simp
  qed
qed



lemma socks_own_append:
  assumes "socks_own opened base cs k1" "socks_own opened (opened k1) ds k2"
  shows "socks_own opened base (cs @ ds) k2"
proof -
  note c = assms(1) [unfolded socks_own_def] and d = assms(2) [unfolded socks_own_def]
  have k1: "opened k1 = base \<union> m_sock ` set cs" using c by (rule conjunct1)
  have out: "\<forall>s\<in>set ds. m_sock s \<notin> base \<union> m_sock ` set cs \<and> m_sock s \<noteq> -1" using d unfolding k1 by (elim conjE)
  then have "m_sock ` set cs \<inter> m_sock ` set ds = {}" by (intro Int_emptyI) (auto, metis imageI)
  then have "distinct (map m_sock (cs @ ds))" using c d by (simp del: distinct_map)
  moreover have "opened k2 = base \<union> m_sock ` set (cs @ ds)" using d unfolding k1 by (auto simp del: Un_iff)
  ultimately show ?thesis using c out by (simp add: socks_own_def ball_Un)
qed

lemma accept_once_owns:
  assumes "sys_laws S opened" "-1 \<notin> opened k" "\<And>fd k. sys_fdmgr_socket S fd k" "accept_once S t sock k = (out, k')"
  shows "\<exists>clients. out = map (\<lambda>c. (pick_worker t c, HandleClient c)) clients \<and> socks_own opened (opened k) clients k'
    \<and> (\<forall>c\<in>set clients. m_isConnected c)"
proof -
  obtain fd k1 where a: "sys_accept S (m_sock sock) k = (fd, k1)" by fastforce
  show ?thesis
  proof (cases "fd = -1")
    case True
    then have "out = []" "opened k' = opened k"
      using assms(4) a sys_laws_new(2) [OF assms(1) a] by (auto simp: accept_once_def Socket_accept_def)
    then show ?thesis using assms(2) by (intro exI [of _ "[]"]) (simp add: socks_own_def)
  next
    case False
    from accept_owned [OF assms(1,2) a False] obtain c k2 where c: "Socket_accept S sock k = (Some c, k2)"
      "sock_owns opened (opened k) (c, k2)" "m_sock c = fd" "m_isConnected c" using assms(3) by auto
    have "opened (snd (setRecvTimeout S (sint (m_recvTimeout t)) c k2)) = opened k2"
      using assms(1) by (simp add: setRecvTimeout_def setOption_opened)
    moreover have "out = [(pick_worker t c, HandleClient c)]" "k' = snd (setRecvTimeout S (sint (m_recvTimeout t)) c k2)"
      using assms(4) c(1) by (simp_all add: accept_once_def)
    ultimately have "socks_own opened (opened k) [c] k'" using c(2,3) False by (auto simp: socks_own_def sock_owns_def)
    with \<open>out = _\<close> c(4) show ?thesis by (intro exI [of _ "[c]"]) simp
  qed
qed



end
