(* ===== verification/Civan_Log.thy ===== *)
theory Civan_Log
  imports Civan_Text
begin

section \<open>Log levels, events and formatters: \<open>civan/log.cc\<close> and \<open>log.h\<close>\<close>

text \<open>
  The levels and their names, the log event, the format items and the pattern parser
  \<open>LogFormatter::init\<close>. The main results: a pattern written as a sequence of plain texts
  and directives is parsed into exactly their items, and formatting concatenates what the
  items print; and the \<open>%%\<close> escape that the comment over \<open>init\<close> names is not one.
  \<open>strftime\<close> over the local time is an argument of what formats.
\<close>

subsection \<open>Levels\<close>

text \<open>A level is the integer of the enumeration; the configuration also uses 100.\<close>

type_synonym level = nat

definition UNKNOW_v :: level where "UNKNOW_v = 0"
definition DEBUG_v :: level where "DEBUG_v = 1"
definition INFO_v :: level where "INFO_v = 2"
definition WARN_v :: level where "WARN_v = 3"
definition ERROR_v :: level where "ERROR_v = 4"
definition FATAL_v :: level where "FATAL_v = 5"

lemmas level_defs = UNKNOW_v_def DEBUG_v_def INFO_v_def WARN_v_def ERROR_v_def FATAL_v_def

definition LogLevel_ToString :: "level \<Rightarrow> u8 list" where
  "LogLevel_ToString level =
     (if level = DEBUG_v then lit ''DEBUG'' else if level = INFO_v then lit ''INFO''
      else if level = WARN_v then lit ''WARN'' else if level = ERROR_v then lit ''ERROR''
      else if level = FATAL_v then lit ''FATAL'' else lit ''UNKNOWN'')"

definition LogLevel_FromString :: "u8 list \<Rightarrow> level" where
  "LogLevel_FromString str =
     (if str = lit ''debug'' then DEBUG_v else if str = lit ''info'' then INFO_v
      else if str = lit ''warn'' then WARN_v else if str = lit ''error'' then ERROR_v
      else if str = lit ''fatal'' then FATAL_v
      else if str = lit ''DEBUG'' then DEBUG_v else if str = lit ''INFO'' then INFO_v
      else if str = lit ''WARN'' then WARN_v else if str = lit ''ERROR'' then ERROR_v
      else if str = lit ''FATAL'' then FATAL_v else UNKNOW_v)"

subsection \<open>Events and format items\<close>

text \<open>The logger of an event is known by its name.\<close>

record LogEvent =
  m_file :: "u8 list"
  m_line :: int
  m_elapse :: u32
  m_threadId :: u32
  m_fiberId :: u32
  m_time :: u64
  m_ss :: "u8 list"
  m_logger :: "u8 list"
  m_level :: level
  m_threadName :: "u8 list"

datatype FormatItem =
    MessageFormatItem
  | LevelFormatItem
  | ElapseFormatItem
  | NameFormatItem
  | ThreadIdFormatItem
  | ThreadNameFormatItem
  | FiberIdFormatItem
  | DateTimeFormatItem "u8 list"
  | FilenameFormatItem
  | LineFormatItem
  | NewLineFormatItem
  | StringFormatItem "u8 list"
  | TabFormatItem

definition new_DateTimeFormatItem :: "u8 list \<Rightarrow> FormatItem" where
  "new_DateTimeFormatItem format = DateTimeFormatItem (if format = [] then lit ''%Y-%m-%d %H:%M:%S'' else format)"

text \<open>A signed number as a stream prints it.\<close>

definition show_int :: "int \<Rightarrow> u8 list" where
  "show_int i = (if i < 0 then lit ''-'' @ show_nat (nat (- i)) else show_nat (nat i))"

text \<open>
  \<open>strftime\<close> into a buffer of 64 bytes: when the text does not fit, the buffer's content is
  indeterminate, and it is printed all the same.
\<close>

fun item_format :: "(u8 list \<Rightarrow> u64 \<Rightarrow> u8 list) \<Rightarrow> FormatItem \<Rightarrow> level \<Rightarrow> LogEvent \<Rightarrow> u8 list res" where
  "item_format strftime MessageFormatItem level event = Inr (m_ss event)"
| "item_format strftime LevelFormatItem level event = Inr (LogLevel_ToString level)"
| "item_format strftime ElapseFormatItem level event = Inr (show_nat (unat (m_elapse event)))"
| "item_format strftime NameFormatItem level event = Inr (m_logger event)"
| "item_format strftime ThreadIdFormatItem level event = Inr (show_nat (unat (m_threadId event)))"
| "item_format strftime ThreadNameFormatItem level event = Inr (m_threadName event)"
| "item_format strftime FiberIdFormatItem level event = Inr (show_nat (unat (m_fiberId event)))"
| "item_format strftime (DateTimeFormatItem fmt) level event =
     (let s = strftime (c_str fmt) (m_time event) in if length s < 64 then Inr (c_str s) else Inl Indeterminate)"
| "item_format strftime FilenameFormatItem level event = Inr (c_str (m_file event))"
| "item_format strftime LineFormatItem level event = Inr (show_int (m_line event))"
| "item_format strftime NewLineFormatItem level event = Inr [0x0A]"
| "item_format strftime (StringFormatItem s) level event = Inr s"
| "item_format strftime TabFormatItem level event = Inr [0x09]"

text \<open>The stream collects what the items print, in order.\<close>

fun format_items :: "(u8 list \<Rightarrow> u64 \<Rightarrow> u8 list) \<Rightarrow> FormatItem list \<Rightarrow> level \<Rightarrow> LogEvent \<Rightarrow> u8 list res" where
  "format_items strftime [] level event = Inr []"
| "format_items strftime (i # is) level event = rbind (item_format strftime i level event) (\<lambda>s.
     rbind (format_items strftime is level event) (\<lambda>r. Inr (s @ r)))"

subsection \<open>The pattern parser\<close>

record LogFormatter =
  m_pattern :: "u8 list"
  m_items :: "FormatItem list"
  m_error :: bool

definition isalpha :: "u8 \<Rightarrow> bool" where
  "isalpha c \<longleftrightarrow> 0x41 \<le> c \<and> c \<le> 0x5A \<or> 0x61 \<le> c \<and> c \<le> 0x7A"

definition substr :: "u8 list \<Rightarrow> nat \<Rightarrow> nat \<Rightarrow> u8 list" where
  "substr s pos n = take n (drop pos s)"

text \<open>The state of the inner loop: \<open>fmt_status\<close>, \<open>str\<close>, \<open>fmt\<close>, \<open>fmt_begin\<close> and \<open>n\<close>.\<close>

record scan =
  fmt_status :: nat
  sc_str :: "u8 list"
  sc_fmt :: "u8 list"
  fmt_begin :: nat
  sc_n :: nat

function pattern_scan :: "u8 list \<Rightarrow> nat \<Rightarrow> scan \<Rightarrow> scan" where
  "pattern_scan p i s =
     (let n = sc_n s in
      if n < length p then
        if fmt_status s = 0 \<and> \<not> isalpha (p ! n) \<and> p ! n \<noteq> 0x7B \<and> p ! n \<noteq> 0x7D then s
        else if fmt_status s = 0 \<and> p ! n = 0x7B
          then pattern_scan p i (s\<lparr>sc_str := substr p (i + 1) (n - i - 1), fmt_status := 1, fmt_begin := n, sc_n := n + 1\<rparr>)
        else if fmt_status s = 1 \<and> p ! n = 0x7D
          then s\<lparr>sc_fmt := substr p (fmt_begin s + 1) (n - fmt_begin s - 1), fmt_status := 2\<rparr>
        else
          let s1 = s\<lparr>sc_n := n + 1\<rparr>;
              s2 = (if n + 1 = length p \<and> sc_str s1 = [] then s1\<lparr>sc_str := drop (i + 1) p\<rparr> else s1)
          in pattern_scan p i s2
      else s)"
  by pat_completeness auto
termination
  by (relation "measure (\<lambda>(p, i, s). length p - sc_n s)") (auto simp: Let_def)

declare pattern_scan.simps [simp del]

lemma pattern_scan_advances: "sc_n s \<le> sc_n (pattern_scan p i s)"
proof (induction "length p - sc_n s" arbitrary: s rule: less_induct)
  case less
  have IH: "sc_n s' \<le> sc_n (pattern_scan p i s')" if "sc_n s < length p" "sc_n s' = sc_n s + 1" for s'
    using less.hyps [of s'] that by simp
  show ?case
  proof (cases "sc_n s < length p")
    case True
    have step: "sc_n s \<le> sc_n (pattern_scan p i s')" if "sc_n s' = sc_n s + 1" for s'
      using IH [OF True that] that by simp
    show ?thesis by (subst pattern_scan.simps) (simp add: step Let_def)
  qed (subst pattern_scan.simps, simp)
qed

text \<open>One directive or text piece, with its type (0 text, 1 directive).\<close>

type_synonym piece = "u8 list \<times> u8 list \<times> nat"

definition flush_text :: "u8 list \<Rightarrow> piece list \<Rightarrow> piece list" where
  "flush_text nstr vec = (if nstr \<noteq> [] then vec @ [(nstr, [], 0)] else vec)"

definition new_scan :: "nat \<Rightarrow> scan" where
  "new_scan i = \<lparr>fmt_status = 0, sc_str = [], sc_fmt = [], fmt_begin = 0, sc_n = i + 1\<rparr>"

function init_loop :: "u8 list \<Rightarrow> nat \<Rightarrow> u8 list \<Rightarrow> piece list \<Rightarrow> bool \<Rightarrow> u8 list \<times> piece list \<times> bool" where
  "init_loop p i nstr vec err =
     (if i < length p then
        if p ! i \<noteq> 0x25 then init_loop p (i + 1) (nstr @ [p ! i]) vec err
        else if i + 1 < length p \<and> p ! (i + 1) = 0x25 then init_loop p (i + 1) (nstr @ [0x25]) vec err
        else
          let s = pattern_scan p i (new_scan i) in
          if fmt_status s = 0
          then init_loop p (sc_n s) [] (flush_text nstr vec @ [(substr p (i + 1) (sc_n s - i - 1), sc_fmt s, 1)]) err
          else if fmt_status s = 1
          then init_loop p (i + 1) nstr (vec @ [(lit ''<<pattern_error>>'', sc_fmt s, 1)]) True
          else init_loop p (sc_n s + 1) [] (flush_text nstr vec @ [(sc_str s, sc_fmt s, 1)]) err
      else (nstr, vec, err))"
  by pat_completeness auto
termination
proof (relation "measure (\<lambda>(p, i, nstr, vec, err). length p - i)", goal_cases)
  case (4 p i nstr vec err s)
  then show ?case using pattern_scan_advances [of "new_scan i" p i] by (simp add: new_scan_def)
next
  case (6 p i nstr vec err s)
  then show ?case using pattern_scan_advances [of "new_scan i" p i] by (simp add: new_scan_def)
qed auto

declare init_loop.simps [simp del]

definition s_format_items :: "u8 list \<Rightarrow> (u8 list \<Rightarrow> FormatItem) option" where
  "s_format_items str =
     (if str = lit ''m'' then Some (\<lambda>_. MessageFormatItem)
      else if str = lit ''p'' then Some (\<lambda>_. LevelFormatItem)
      else if str = lit ''r'' then Some (\<lambda>_. ElapseFormatItem)
      else if str = lit ''c'' then Some (\<lambda>_. NameFormatItem)
      else if str = lit ''t'' then Some (\<lambda>_. ThreadIdFormatItem)
      else if str = lit ''n'' then Some (\<lambda>_. NewLineFormatItem)
      else if str = lit ''d'' then Some new_DateTimeFormatItem
      else if str = lit ''f'' then Some (\<lambda>_. FilenameFormatItem)
      else if str = lit ''l'' then Some (\<lambda>_. LineFormatItem)
      else if str = lit ''T'' then Some (\<lambda>_. TabFormatItem)
      else if str = lit ''F'' then Some (\<lambda>_. FiberIdFormatItem)
      else if str = lit ''N'' then Some (\<lambda>_. ThreadNameFormatItem)
      else None)"

fun piece_item :: "piece \<Rightarrow> FormatItem \<times> bool" where
  "piece_item (str, fmt, k) =
     (if k = 0 then (StringFormatItem str, False)
      else case s_format_items str of
          None \<Rightarrow> (StringFormatItem (lit ''<<error_format %'' @ str @ lit ''>>''), True)
        | Some mk \<Rightarrow> (mk fmt, False))"

definition LogFormatter_init :: "u8 list \<Rightarrow> FormatItem list \<times> bool" where
  "LogFormatter_init p =
     (let (nstr, vec, err) = init_loop p 0 [] [] False;
          vec1 = (if nstr \<noteq> [] then vec @ [(nstr, lit '' '', 0)] else vec);
          made = map piece_item vec1
      in (map fst made, err \<or> list_ex snd made))"

definition new_LogFormatter :: "u8 list \<Rightarrow> LogFormatter" where
  "new_LogFormatter pattern = (let (items, err) = LogFormatter_init pattern in
     \<lparr>m_pattern = pattern, m_items = items, m_error = err\<rparr>)"

definition LogFormatter_format ::
  "(u8 list \<Rightarrow> u64 \<Rightarrow> u8 list) \<Rightarrow> LogFormatter \<Rightarrow> level \<Rightarrow> LogEvent \<Rightarrow> u8 list res" where
  "LogFormatter_format strftime f level event = format_items strftime (m_items f) level event"

subsection \<open>Patterns as sequences of pieces\<close>

text \<open>A plain text, or a directive with its letter and possibly a format in braces.\<close>

datatype pat =
    Txt "u8 list"
  | Dir u8 "u8 list option"

fun render_pat :: "pat \<Rightarrow> u8 list" where
  "render_pat (Txt s) = s"
| "render_pat (Dir d None) = [0x25, d]"
| "render_pat (Dir d (Some f)) = 0x25 # d # 0x7B # f @ [0x7D]"

definition render :: "pat list \<Rightarrow> u8 list" where
  "render ps = concat (map render_pat ps)"

text \<open>The characters that go on with a directive's name or open its format.\<close>

definition name_char :: "u8 \<Rightarrow> bool" where
  "name_char c \<longleftrightarrow> isalpha c \<or> c = 0x7B \<or> c = 0x7D"

definition directive :: "u8 \<Rightarrow> bool" where
  "directive d \<longleftrightarrow> isalpha d \<and> s_format_items [d] \<noteq> None"

fun pats_ok :: "pat list \<Rightarrow> bool" where
  "pats_ok [] \<longleftrightarrow> True"
| "pats_ok (Txt s # ps) \<longleftrightarrow> 0x25 \<notin> set s \<and> pats_ok ps"
| "pats_ok (Dir d None # ps) \<longleftrightarrow> directive d \<and> (render ps = [] \<or> \<not> name_char (hd (render ps))) \<and> pats_ok ps"
| "pats_ok (Dir d (Some f) # ps) \<longleftrightarrow> directive d \<and> 0x7D \<notin> set f \<and> pats_ok ps"

fun pat_item :: "pat \<Rightarrow> FormatItem" where
  "pat_item (Txt s) = StringFormatItem s"
| "pat_item (Dir d f) = the (s_format_items [d]) (case f of None \<Rightarrow> [] | Some f \<Rightarrow> f)"

lemma render_simps [simp]: "render [] = []" "render (x # ps) = render_pat x @ render ps"
  by (simp_all add: render_def)

subsection \<open>What the parser makes of them\<close>

lemma init_loop_text:
  "0x25 \<notin> set s \<Longrightarrow> init_loop (pre @ s @ q) (length pre) nstr vec err =
     init_loop (pre @ s @ q) (length pre + length s) (nstr @ s) vec err"
proof (induction s arbitrary: pre nstr)
  case (Cons c s)
  have "init_loop (pre @ (c # s) @ q) (length pre) nstr vec err = init_loop ((pre @ [c]) @ s @ q) (length (pre @ [c])) (nstr @ [c]) vec err"
    using Cons.prems by (subst init_loop.simps) auto
  also have "\<dots> = init_loop ((pre @ [c]) @ s @ q) (length (pre @ [c]) + length s) (nstr @ [c] @ s) vec err"
    using Cons.IH [of "pre @ [c]" "nstr @ [c]"] Cons.prems by simp
  finally show ?case by simp
qed simp

lemma isalpha_braces [simp]: "\<not> isalpha 0x25" "\<not> isalpha 0x7B" "\<not> isalpha 0x7D"
  by (simp_all add: isalpha_def)

lemma isalpha_distinct: "isalpha d \<Longrightarrow> d \<noteq> 0x25 \<and> d \<noteq> 0x7B \<and> d \<noteq> 0x7D"
  by (auto simp: isalpha_def)

lemma scan_short:
  assumes "isalpha d" "q = [] \<or> \<not> name_char (hd q)"
  shows "fmt_status (pattern_scan (pre @ 0x25 # d # q) (length pre) (new_scan (length pre))) = 0"
    and "sc_fmt (pattern_scan (pre @ 0x25 # d # q) (length pre) (new_scan (length pre))) = []"
    and "sc_n (pattern_scan (pre @ 0x25 # d # q) (length pre) (new_scan (length pre))) = length pre + 2"
proof -
  let ?p = "pre @ 0x25 # d # q"
  have d: "?p ! Suc (length pre) = d" by (simp add: nth_append)
  have stop: "pattern_scan ?p (length pre) s = s" if "sc_n s = length pre + 2" "fmt_status s = 0" for s
  proof (cases q)
    case Nil
    then show ?thesis using that by (subst pattern_scan.simps) simp
  next
    case (Cons c r)
    then show ?thesis using that assms(2) by (subst pattern_scan.simps) (auto simp: name_char_def nth_append)
  qed
  have "pattern_scan ?p (length pre) (new_scan (length pre)) = (if q = [] then (new_scan (length pre))\<lparr>sc_n := length pre + 2, sc_str := [d]\<rparr>
      else (new_scan (length pre))\<lparr>sc_n := length pre + 2\<rparr>)"
    by (subst pattern_scan.simps) (use assms(1) isalpha_distinct [of d] d stop in \<open>auto simp: new_scan_def Let_def\<close>)
  then show "fmt_status (pattern_scan ?p (length pre) (new_scan (length pre))) = 0"
    "sc_fmt (pattern_scan ?p (length pre) (new_scan (length pre))) = []"
    "sc_n (pattern_scan ?p (length pre) (new_scan (length pre))) = length pre + 2"
    by (auto simp: new_scan_def)
qed

lemma scan_format:
  assumes "fmt_status s = 1" "sc_str s \<noteq> []" "sc_n s = length pre" "0x7D \<notin> set f"
  shows "pattern_scan (pre @ f @ 0x7D # q) i s = s\<lparr>sc_n := length pre + length f, fmt_status := 2,
     sc_fmt := substr (pre @ f @ 0x7D # q) (fmt_begin s + 1) (length pre + length f - fmt_begin s - 1)\<rparr>"
  using assms
proof (induction f arbitrary: pre s)
  case Nil
  then show ?case by (subst pattern_scan.simps) (auto simp: Let_def nth_append)
next
  case (Cons c f)
  have "pattern_scan (pre @ (c # f) @ 0x7D # q) i s = pattern_scan ((pre @ [c]) @ f @ 0x7D # q) i (s\<lparr>sc_n := length (pre @ [c])\<rparr>)"
    using Cons.prems by (subst pattern_scan.simps) (auto simp: Let_def nth_append)
  also have "\<dots> = s\<lparr>sc_n := length pre + length (c # f), fmt_status := 2,
     sc_fmt := substr (pre @ (c # f) @ 0x7D # q) (fmt_begin s + 1) (length pre + length (c # f) - fmt_begin s - 1)\<rparr>"
    using Cons.IH [of "s\<lparr>sc_n := length (pre @ [c])\<rparr>" "pre @ [c]"] Cons.prems by simp
  finally show ?case .
qed

lemma scan_long:
  assumes "isalpha d" "0x7D \<notin> set f"
  shows "pattern_scan (pre @ 0x25 # d # 0x7B # f @ 0x7D # q) (length pre) (new_scan (length pre)) =
    \<lparr>fmt_status = 2, sc_str = [d], sc_fmt = f, fmt_begin = length pre + 2, sc_n = length pre + 3 + length f\<rparr>"
proof -
  let ?p = "pre @ 0x25 # d # 0x7B # f @ 0x7D # q" and ?i = "length pre"
  let ?s = "\<lparr>fmt_status = 1, sc_str = [d], sc_fmt = [], fmt_begin = length pre + 2, sc_n = length pre + 3\<rparr>"
  have d: "?p ! Suc ?i = d" "?p ! (?i + 2) = 0x7B" by (simp_all add: nth_append)
  have "pattern_scan ?p ?i (new_scan ?i) = pattern_scan ?p ?i ((new_scan ?i)\<lparr>sc_n := ?i + 2\<rparr>)"
    by (subst pattern_scan.simps) (use assms(1) isalpha_distinct [of d] d in \<open>auto simp: new_scan_def Let_def\<close>)
  also have "\<dots> = pattern_scan ?p ?i ?s"
    by (subst pattern_scan.simps) (use d in \<open>auto simp: new_scan_def Let_def substr_def numeral_3_eq_3\<close>)
  also have "\<dots> = pattern_scan ((pre @ [0x25, d, 0x7B]) @ f @ 0x7D # q) ?i ?s" by simp
  also have "\<dots> = \<lparr>fmt_status = 2, sc_str = [d], sc_fmt = f, fmt_begin = length pre + 2, sc_n = length pre + 3 + length f\<rparr>"
    by (subst scan_format) (use assms in \<open>simp_all add: substr_def\<close>)
  finally show ?thesis .
qed

text \<open>The text that is pending at the end, and the pieces.\<close>

fun parsed :: "u8 list \<Rightarrow> pat list \<Rightarrow> u8 list \<times> piece list" where
  "parsed nstr [] = (nstr, [])"
| "parsed nstr (Txt s # ps) = parsed (nstr @ s) ps"
| "parsed nstr (Dir d f # ps) = (let (n, v) = parsed [] ps in
     (n, flush_text nstr [] @ ([d], case f of None \<Rightarrow> [] | Some f \<Rightarrow> f, 1) # v))"

lemma flush_text_app: "flush_text nstr vec = vec @ flush_text nstr []"
  by (simp add: flush_text_def)

lemma init_loop_parsed:
  "pats_ok ps \<Longrightarrow> init_loop (pre @ render ps) (length pre) nstr vec err =
     (fst (parsed nstr ps), vec @ snd (parsed nstr ps), err)"
proof (induction ps arbitrary: pre nstr vec rule: pats_ok.induct)
  case 1
  show ?case by (subst init_loop.simps) simp
next
  case (2 s ps)
  then show ?case using init_loop_text [of s pre "render ps" nstr vec err] "2.IH" [of "pre @ s" "nstr @ s" vec] by simp
next
  case (3 d ps)
  then have d: "isalpha d" "render ps = [] \<or> \<not> name_char (hd (render ps))" by (simp_all add: directive_def)
  have "init_loop (pre @ 0x25 # d # render ps) (length pre) nstr vec err =
    init_loop ((pre @ [0x25, d]) @ render ps) (length (pre @ [0x25, d])) [] (flush_text nstr vec @ [([d], [], 1)]) err"
    by (subst init_loop.simps)
      (use scan_short [OF d, of pre] d(1) isalpha_distinct [of d] in \<open>auto simp: Let_def substr_def nth_append\<close>)
  then show ?case
    using "3.IH" [of "pre @ [0x25, d]" "[]"] "3.prems" by (simp add: flush_text_app [of nstr vec] split_def Let_def)
next
  case (4 d f ps)
  then have d: "isalpha d" "0x7D \<notin> set f" by (simp_all add: directive_def)
  have "init_loop (pre @ 0x25 # d # 0x7B # f @ 0x7D # render ps) (length pre) nstr vec err =
    init_loop ((pre @ 0x25 # d # 0x7B # f @ [0x7D]) @ render ps) (length (pre @ 0x25 # d # 0x7B # f @ [0x7D])) []
      (flush_text nstr vec @ [([d], f, 1)]) err"
    by (subst init_loop.simps)
      (use scan_long [OF d, of pre "render ps"] d(1) isalpha_distinct [of d] in \<open>auto simp: Let_def nth_append eval_nat_numeral\<close>)
  then show ?case
    using "4.IH" [of "pre @ 0x25 # d # 0x7B # f @ [0x7D]" "[]"] "4.prems"
    by (simp add: flush_text_app [of nstr vec] split_def Let_def)
qed

lemma format_items_append:
  "format_items strftime (is @ js) level event = rbind (format_items strftime is level event) (\<lambda>s.
     rbind (format_items strftime js level event) (\<lambda>r. Inr (s @ r)))"
proof (induction "is")
  case Nil
  then show ?case by (cases "format_items strftime js level event") simp_all
next
  case (Cons i "is")
  then show ?case
    by (cases "item_format strftime i level event"; cases "format_items strftime is level event";
        cases "format_items strftime js level event") simp_all
qed

text \<open>The items of the parsed pieces print what the pieces stand for, the pending text first.\<close>

definition parsed_items :: "u8 list \<Rightarrow> pat list \<Rightarrow> FormatItem list" where
  "parsed_items nstr ps = map (fst \<circ> piece_item) (snd (parsed nstr ps)) @
     (if fst (parsed nstr ps) = [] then [] else [StringFormatItem (fst (parsed nstr ps))])"

lemma parsed_items_format:
  "pats_ok ps \<Longrightarrow> format_items strftime (parsed_items nstr ps) level event =
     rbind (format_items strftime (map pat_item ps) level event) (\<lambda>r. Inr (nstr @ r))"
proof (induction ps arbitrary: nstr rule: pats_ok.induct)
  case 1
  show ?case by (simp add: parsed_items_def)
next
  case (2 s ps)
  have "parsed_items nstr (Txt s # ps) = parsed_items (nstr @ s) ps" by (simp add: parsed_items_def)
  then show ?case using "2.IH" [of "nstr @ s"] "2.prems"
    by (cases "format_items strftime (map pat_item ps) level event") simp_all
next
  case (3 d ps)
  then have "parsed_items nstr (Dir d None # ps) = map (fst \<circ> piece_item) (flush_text nstr []) @ pat_item (Dir d None) # parsed_items [] ps"
    by (auto simp: parsed_items_def Let_def split_def directive_def)
  then show ?case using "3.IH" [of "[]"] "3.prems"
    by (cases "format_items strftime (map pat_item ps) level event"; cases "item_format strftime (pat_item (Dir d None)) level event")
      (simp_all add: format_items_append flush_text_def)
next
  case (4 d f ps)
  then have "parsed_items nstr (Dir d (Some f) # ps) = map (fst \<circ> piece_item) (flush_text nstr []) @ pat_item (Dir d (Some f)) # parsed_items [] ps"
    by (auto simp: parsed_items_def Let_def split_def directive_def)
  then show ?case using "4.IH" [of "[]"] "4.prems"
    by (cases "format_items strftime (map pat_item ps) level event"; cases "item_format strftime (pat_item (Dir d (Some f))) level event")
      (simp_all add: format_items_append flush_text_def)
qed

lemma parsed_no_error: "pats_ok ps \<Longrightarrow> \<not> list_ex (snd \<circ> piece_item) (snd (parsed nstr ps))"
  by (induction ps arbitrary: nstr rule: pats_ok.induct)
    (auto simp: Let_def split_def flush_text_def directive_def)

lemma new_LogFormatter_parsed:
  assumes "pats_ok ps"
  shows "\<not> m_error (new_LogFormatter (render ps))" "m_items (new_LogFormatter (render ps)) = parsed_items [] ps"
  using init_loop_parsed [OF assms, of "[]" "[]" "[]" False] parsed_no_error [OF assms, of "[]"]
  by (auto simp: new_LogFormatter_def LogFormatter_init_def parsed_items_def Let_def list_ex_iff comp_def)

subsection \<open>Properties of levels and formatters\<close>

text \<open>
  Property C32. A log pattern that is a sequence of plain texts (without a percent sign) and
  known directives, a bare directive not being followed by a letter or a brace, is accepted
  by \<open>LogFormatter\<close>, and a log line is the concatenation, in order, of the texts and of what
  the directives print.
\<close>

theorem log_pattern_meaning:
  assumes "pats_ok ps"
  shows "\<not> m_error (new_LogFormatter (render ps)) \<and>
    LogFormatter_format strftime (new_LogFormatter (render ps)) level event = format_items strftime (map pat_item ps) level event"
proof -
  have "rbind r (\<lambda>s. Inr ([] @ s)) = r" for r :: "u8 list res" by (cases r) simp_all
  then show ?thesis
    using new_LogFormatter_parsed [OF assms] parsed_items_format [OF assms, of strftime "[]" level event]
    by (simp add: LogFormatter_format_def)
qed

text \<open>The pattern every logger starts with.\<close>

definition default_pattern :: "u8 list" where
  "default_pattern = lit ''%d{%Y-%m-%d %H:%M:%S}%T%t%T%N%T%F%T[%p]%T[%c]%T%f:%l%T%m%T%n''"

definition default_pats :: "pat list" where
  "default_pats = (let D = (\<lambda>c. Dir (of_char c) None); T = (\<lambda>s. Txt (lit s)) in
     [Dir (of_char (CHR ''d'')) (Some (lit ''%Y-%m-%d %H:%M:%S'')), D CHR ''T'', D CHR ''t'', D CHR ''T'', D CHR ''N'', D CHR ''T'',
      D CHR ''F'', D CHR ''T'', T ''['', D CHR ''p'', T '']'', D CHR ''T'', T ''['', D CHR ''c'', T '']'', D CHR ''T'', D CHR ''f'',
      T '':'', D CHR ''l'', D CHR ''T'', D CHR ''m'', D CHR ''T'', D CHR ''n''])"

theorem log_pattern_meaning_witness:
  "\<not> m_error (new_LogFormatter default_pattern) \<and> (\<forall>strftime level event.
     LogFormatter_format strftime (new_LogFormatter default_pattern) level event = format_items strftime (map pat_item default_pats) level event)"
proof -
  have "pats_ok default_pats" by code_simp
  moreover have "render default_pats = default_pattern" by code_simp
  ultimately show ?thesis using log_pattern_meaning [of default_pats] by metis
qed

text \<open>
  The documented escape \<open>%%\<close> is not one: the first percent sign is kept as text, the second
  starts a directive. At the end of a pattern the directive has an empty name, which is an
  error; before a letter it is that letter's directive.
\<close>

theorem log_percent_escape:
  assumes "0x25 \<notin> set s"
  shows "m_error (new_LogFormatter (s @ lit ''%%'')) \<and>
    LogFormatter_format strftime (new_LogFormatter (s @ lit ''%%'')) level event = Inr (s @ lit ''%<<error_format %>>'') \<and>
    \<not> m_error (new_LogFormatter (s @ lit ''%%m'')) \<and>
    LogFormatter_format strftime (new_LogFormatter (s @ lit ''%%m'')) level event = Inr (s @ lit ''%'' @ m_ss event)"
proof -
  have lits: "lit ''%%'' = [0x25, 0x25]" "lit ''%%m'' = [0x25, 0x25, 0x6D]" "lit ''%'' = [0x25]"
    "lit ''%<<error_format %>>'' = 0x25 # lit ''<<error_format %'' @ lit ''>>''" by (simp_all add: lit_def)
  have kept: "init_loop (s @ 0x25 # 0x25 # q) 0 [] [] False = init_loop ((s @ [0x25]) @ 0x25 # q) (length (s @ [0x25])) (s @ [0x25]) [] False" for q
    using init_loop_text [OF assms, of "[]" "0x25 # 0x25 # q" "[]" "[]" False]
    by (simp add: init_loop.simps [of _ "length s" s] nth_append)
  have none: "s_format_items [] = None" "s_format_items [0x6D] = Some (\<lambda>_. MessageFormatItem)"
    by (simp_all add: s_format_items_def lit_def)
  have scan: "pattern_scan ((s @ [0x25]) @ [0x25]) (length (s @ [0x25])) (new_scan (length (s @ [0x25]))) = new_scan (length (s @ [0x25]))"
    by (subst pattern_scan.simps) (simp add: new_scan_def)
  have "init_loop ((s @ [0x25]) @ [0x25]) (length (s @ [0x25])) (s @ [0x25]) [] False = ([], [(s @ [0x25], [], 0), ([], [], 1)], False)"
    by (subst init_loop.simps) (simp add: scan [unfolded new_scan_def, simplified] nth_append Let_def new_scan_def flush_text_def init_loop.simps [of _ "Suc (Suc (length s))"] substr_def)
  then have first: "m_items (new_LogFormatter (s @ lit ''%%'')) = [StringFormatItem (s @ [0x25]), StringFormatItem (lit ''<<error_format %'' @ lit ''>>'')]"
    "m_error (new_LogFormatter (s @ lit ''%%''))"
    using kept [of "[]"] none by (simp_all add: new_LogFormatter_def LogFormatter_init_def lits)
  have "pats_ok [Dir 0x6D None]" by (simp add: directive_def none isalpha_def)
  from init_loop_parsed [OF this, of "s @ [0x25]" "s @ [0x25]" "[]" False]
  have "init_loop ((s @ [0x25]) @ [0x25, 0x6D]) (length (s @ [0x25])) (s @ [0x25]) [] False = ([], [(s @ [0x25], [], 0), ([0x6D], [], 1)], False)"
    by (simp add: flush_text_def)
  then have "m_items (new_LogFormatter (s @ lit ''%%m'')) = [StringFormatItem (s @ [0x25]), MessageFormatItem]"
    "\<not> m_error (new_LogFormatter (s @ lit ''%%m''))"
    using kept [of "[0x6D]"] none by (simp_all add: new_LogFormatter_def LogFormatter_init_def lits)
  with first show ?thesis by (simp add: LogFormatter_format_def lits)
qed

theorem log_percent_escape_witness:
  "m_error (new_LogFormatter (lit ''done 100%%''))"
  using log_percent_escape [of "lit ''done 100''"] by (simp add: lit_def)

end
