(* ===== verification/Civan_Logger.thy ===== *)
theory Civan_Logger
  imports Civan_Log Civan_Codec
begin

section \<open>Loggers, appenders and the logger manager: \<open>civan/log.cc\<close> and \<open>log.h\<close>\<close>

text \<open>
  A logger formats an event, prints it on its standard output appender and appends it to a
  \<open>ByteArray\<close>; its thread swaps that buffer with a second one and writes the second one to
  the file appenders. The model has the two buffers as the \<open>bytearray\<close>s of theory
  \<open>Civan_ByteArray\<close>; the thread's two atomic parts (the swap under the mutex, and the work on
  the buffer that only the thread uses) and the calls of \<open>log\<close> are the steps of a relation,
  in any order. The theorem is that no log line is lost, doubled or reordered. The second
  half is the manager of the loggers by name and the listener that applies a configuration.
\<close>

subsection \<open>Appenders\<close>

text \<open>
  An appender is known by its address \<open>ap_id\<close>. A file appender has its stream: whether it is
  good, and what was written to it. The standard output appender has no stream.
\<close>

record LogAppender =
  ap_id :: nat
  ap_level :: level
  ap_filename :: "u8 list"
  ap_stream :: "(bool \<times> cell list) option"

text \<open>\<open>log(ByteArray)\<close> is empty for the base class; \<open>FileLogAppender\<close> writes the buffer to its file.\<close>

definition appender_log :: "bytearray \<Rightarrow> LogAppender \<Rightarrow> LogAppender res" where
  "appender_log ba a = (case ap_stream a of None \<Rightarrow> Inr a
     | Some ofs \<Rightarrow> rbind (writeToFile ba ofs) (\<lambda>ofs'. Inr (a\<lparr>ap_stream := Some ofs'\<rparr>)))"

fun appenders_log :: "bytearray \<Rightarrow> LogAppender list \<Rightarrow> LogAppender list res" where
  "appenders_log ba [] = Inr []"
| "appenders_log ba (a # as) = rbind (appender_log ba a) (\<lambda>a'.
     rbind (appenders_log ba as) (\<lambda>as'. Inr (a' # as')))"

text \<open>\<open>open\<close> is what opening a file of that name for appending gives.\<close>

definition new_FileLogAppender :: "(u8 list \<Rightarrow> bool) \<Rightarrow> nat \<Rightarrow> u8 list \<Rightarrow> LogAppender" where
  "new_FileLogAppender file_opens addr name = \<lparr>ap_id = addr, ap_level = DEBUG_v, ap_filename = name,
     ap_stream = Some (file_opens name, [])\<rparr>"

definition new_StdoutLogAppender :: "nat \<Rightarrow> LogAppender" where
  "new_StdoutLogAppender addr = \<lparr>ap_id = addr, ap_level = DEBUG_v, ap_filename = [], ap_stream = None\<rparr>"

definition StdoutLogAppender_log :: "LogAppender \<Rightarrow> level \<Rightarrow> u8 list \<Rightarrow> u8 list \<Rightarrow> u8 list" where
  "StdoutLogAppender_log a level log_string out = (if level \<ge> ap_level a then out @ log_string else out)"

subsection \<open>Loggers\<close>

record Logger =
  lg_name :: "u8 list"
  lg_level :: level
  m_appenders :: "LogAppender list"
  m_stdoutAppender :: "LogAppender option"
  m_formatter :: LogFormatter
  currentBuffer :: bytearray
  bufferToWrite :: bytearray
  running :: bool

definition new_Logger :: "u8 list \<Rightarrow> nat \<Rightarrow> Logger" where
  "new_Logger name buffer_node_size = \<lparr>lg_name = name, lg_level = DEBUG_v, m_appenders = [], m_stdoutAppender = None,
     m_formatter = new_LogFormatter default_pattern, currentBuffer = new_ByteArray buffer_node_size,
     bufferToWrite = new_ByteArray buffer_node_size, running = True\<rparr>"

definition setFormatter :: "u8 list \<Rightarrow> Logger \<Rightarrow> Logger" where
  "setFormatter val l = (let new_val = new_LogFormatter val in
     if m_error new_val then l else l\<lparr>m_formatter := new_val\<rparr>)"

definition addAppender :: "LogAppender \<Rightarrow> Logger \<Rightarrow> Logger" where
  "addAppender a l = l\<lparr>m_appenders := m_appenders l @ [a]\<rparr>"

definition setStdoutAppender :: "nat \<Rightarrow> Logger \<Rightarrow> Logger" where
  "setStdoutAppender addr l = (if m_stdoutAppender l = None
     then l\<lparr>m_stdoutAppender := Some (new_StdoutLogAppender addr)\<rparr> else l)"

fun erase_appender :: "nat \<Rightarrow> LogAppender list \<Rightarrow> LogAppender list" where
  "erase_appender addr [] = []"
| "erase_appender addr (a # as) = (if ap_id a = addr then as else a # erase_appender addr as)"

definition deleteAppender :: "nat \<Rightarrow> Logger \<Rightarrow> Logger" where
  "deleteAppender addr l = l\<lparr>m_appenders := erase_appender addr (m_appenders l)\<rparr>"

definition clearAppenders :: "Logger \<Rightarrow> Logger" where
  "clearAppenders l = l\<lparr>m_appenders := [], m_stdoutAppender := None\<rparr>"

definition Logger_stop :: "Logger \<Rightarrow> Logger" where
  "Logger_stop l = l\<lparr>running := False\<rparr>"

text \<open>\<open>start\<close> is the same assignment as \<open>stop\<close>.\<close>

definition Logger_start :: "Logger \<Rightarrow> Logger" where
  "Logger_start l = l\<lparr>running := False\<rparr>"

text \<open>\<open>log\<close>, with the text on the standard output as a second state.\<close>

definition Logger_log ::
  "(u8 list \<Rightarrow> u64 \<Rightarrow> u8 list) \<Rightarrow> level \<Rightarrow> LogEvent \<Rightarrow> Logger \<Rightarrow> u8 list \<Rightarrow> (Logger \<times> u8 list) res" where
  "Logger_log strftime level event l out =
     (if level \<ge> lg_level l then
        rbind (LogFormatter_format strftime (m_formatter l) level event) (\<lambda>log_string.
          let out1 = (case m_stdoutAppender l of None \<Rightarrow> out | Some a \<Rightarrow> StdoutLogAppender_log a level log_string out) in
          rbind (writeStringWithoutLength (currentBuffer l) log_string) (\<lambda>b. Inr (l\<lparr>currentBuffer := b\<rparr>, out1)))
      else Inr (l, out))"

text \<open>
  One round of \<open>asyncLogFunc\<close>, in its two parts. The wait on the condition when the buffer
  is empty changes nothing: it gives other threads the mutex, as the scheduler of the
  threads may at any other point before the swap.
\<close>

definition async_swap :: "Logger \<Rightarrow> Logger" where
  "async_swap l = l\<lparr>currentBuffer := bufferToWrite l, bufferToWrite := currentBuffer l\<rparr>"

definition async_write :: "Logger \<Rightarrow> Logger res" where
  "async_write l = rbind (setPosition (bufferToWrite l) 0) (\<lambda>b.
     if getReadSize b \<noteq> 0
     then rbind (appenders_log b (m_appenders l)) (\<lambda>as. rbind (ba_clear b) (\<lambda>b'.
            Inr (l\<lparr>m_appenders := as, bufferToWrite := b'\<rparr>)))
     else Inr (l\<lparr>bufferToWrite := b\<rparr>))"

subsection \<open>The threads together\<close>

text \<open>
  Whether the logger's thread is between its swap and the end of the round (\<open>swapped\<close>); the
  standard output; and, for the statement, the text of the log calls so far.
\<close>

record logsys =
  logger :: Logger
  swapped :: bool
  stdout :: "u8 list"
  logged :: "u8 list"

inductive log_step :: "(u8 list \<Rightarrow> u64 \<Rightarrow> u8 list) \<Rightarrow> logsys \<Rightarrow> logsys \<Rightarrow> bool" for strftime where
  logs: "lg_level (logger s) \<le> level \<Longrightarrow> LogFormatter_format strftime (m_formatter (logger s)) level event = Inr line \<Longrightarrow>
    Logger_log strftime level event (logger s) (stdout s) = Inr (l', out') \<Longrightarrow>
    log_step strftime s (s\<lparr>logger := l', stdout := out', logged := logged s @ line\<rparr>)"
| filtered: "level < lg_level (logger s) \<Longrightarrow> Logger_log strftime level event (logger s) (stdout s) = Inr (l', out') \<Longrightarrow>
    log_step strftime s (s\<lparr>logger := l', stdout := out'\<rparr>)"
| swaps: "running (logger s) \<Longrightarrow> \<not> swapped s \<Longrightarrow> log_step strftime s (s\<lparr>logger := async_swap (logger s), swapped := True\<rparr>)"
| writes: "swapped s \<Longrightarrow> async_write (logger s) = Inr l' \<Longrightarrow> log_step strftime s (s\<lparr>logger := l', swapped := False\<rparr>)"
| stop: "log_step strftime s (s\<lparr>logger := Logger_stop (logger s)\<rparr>)"
| level: "log_step strftime s (s\<lparr>logger := (logger s)\<lparr>lg_level := v\<rparr>\<rparr>)"
| formatter: "log_step strftime s (s\<lparr>logger := setFormatter val (logger s)\<rparr>)"

inductive_cases log_stepE: "log_step strftime s s'"

subsection \<open>No line is lost\<close>

text \<open>What a good file stream holds, together with the two buffers, is what was logged.\<close>

definition stream_ok :: "cell list \<Rightarrow> LogAppender \<Rightarrow> bool" where
  "stream_ok d a \<longleftrightarrow> (case ap_stream a of Some (True, w) \<Rightarrow> w = d | _ \<Rightarrow> True)"

definition log_inv :: "logsys \<Rightarrow> bool" where
  "log_inv s \<longleftrightarrow> ba_tail (currentBuffer (logger s)) \<and> ba_tail (bufferToWrite (logger s)) \<and>
     (\<not> swapped s \<longrightarrow> content (bufferToWrite (logger s)) = []) \<and>
     (\<exists>d. d @ content (bufferToWrite (logger s)) @ content (currentBuffer (logger s)) = map Some (logged s) \<and>
        list_all (stream_ok d) (m_appenders (logger s)))"

lemma stream_okD: "stream_ok d a \<Longrightarrow> ap_stream a = Some (True, w) \<Longrightarrow> w = d"
  by (simp add: stream_ok_def)

lemma rewind_empty:
  assumes "ba_tail b" "content b = []"
  shows "setPosition b 0 = Inr b"
proof -
  have wf: "ba_wf b" and cur: "cur_wr b" and pos: "m_position b = m_size b" using assms(1) by (simp_all add: ba_tail_def)
  have z: "m_size b = 0" using length_content [OF wf] assms(2) by simp
  have "0 < length (m_nodes b)" "length (m_nodes b ! 0) = m_baseSize b" "0 < m_baseSize b" "0 < m_capacity b"
    using ba_wfD [OF wf] by (simp_all add: uniform_def)
  with cur pos z show ?thesis by (simp add: setPosition_def seek_loop.simps cur_wr_def)
qed

lemma clear_tail: "ba_wf b \<Longrightarrow> \<exists>b'. ba_clear b = Inr b' \<and> ba_tail b' \<and> content b' = []"
  using clear_ok [of b] by (auto simp: ba_tail_def)

lemma writeToFile_loop_bad:
  "writeToFile_loop ns b cur pos sz ofs = Inr x \<Longrightarrow> writeToFile_loop ns b cur pos sz (False, w) = Inr (False, w)"
proof (induction ns b cur pos sz ofs arbitrary: x rule: writeToFile_loop.induct)
  case (1 ns b cur pos sz ofs)
  show ?case
  proof (cases "sz > 0")
    case True
    then obtain i where i: "deref ns cur = Inr i"
      using "1.prems" by (auto simp: writeToFile_loop.simps [of ns b cur pos sz ofs])
    have "ofs_write (False, w) xs off len = (False, w)" for xs off len by (simp add: ofs_write_def)
    with "1.IH" [OF True i refl refl] "1.prems" True i show ?thesis
      by (simp add: writeToFile_loop.simps [of ns b cur pos sz] Let_def)
  qed (subst writeToFile_loop.simps, simp)
qed

lemma appenders_log_ok:
  assumes "ba_readable b" "m_position b = 0" "list_all (stream_ok d) as"
  shows "\<exists>as'. appenders_log b as = Inr as' \<and> list_all (stream_ok (d @ rest b)) as'"
  using assms(3)
proof (induction "as")
  case (Cons a "as")
  have "\<exists>a'. appender_log b a = Inr a' \<and> stream_ok (d @ rest b) a'"
  proof (cases "ap_stream a")
    case (Some ofs)
    then obtain g w where ofs: "ap_stream a = Some (g, w)" by (cases ofs) simp
    have good: "writeToFile b (True, w) = Inr (True, w @ rest b)"
      using writeToFile_aligned [of b w] assms(1,2) by (simp add: ba_readable_def)
    then have "writeToFile b (False, w) = Inr (False, w)"
      by (auto simp: writeToFile_def intro: writeToFile_loop_bad split: if_splits)
    with good show ?thesis using ofs Cons.prems by (cases g) (simp_all add: appender_log_def stream_ok_def)
  qed (simp add: appender_log_def stream_ok_def)
  with Cons show ?case by auto
qed simp

lemma async_write_ok:
  assumes "ba_tail (bufferToWrite l)" "list_all (stream_ok d) (m_appenders l)"
  shows "\<exists>l'. async_write l = Inr l' \<and> ba_tail (bufferToWrite l') \<and> content (bufferToWrite l') = [] \<and>
    currentBuffer l' = currentBuffer l \<and> list_all (stream_ok (d @ content (bufferToWrite l))) (m_appenders l')"
proof (cases "content (bufferToWrite l) = []")
  case True
  from rewind_empty [OF assms(1) this] have r: "setPosition (bufferToWrite l) 0 = Inr (bufferToWrite l)" .
  have "getReadSize (bufferToWrite l) = 0"
    using assms(1) by (simp add: ba_tail_def getReadSize_def)
  with r True assms show ?thesis by (simp add: async_write_def)
next
  case False
  have wf: "ba_wf (bufferToWrite l)" using assms(1) by (simp add: ba_tail_def)
  from rewind_ok [OF this] obtain b where b: "setPosition (bufferToWrite l) 0 = Inr b" "ba_readable b"
    "rest b = content (bufferToWrite l)" "m_position b = 0" by blast
  have wfb: "ba_wf b" using b(2) by (simp add: ba_readable_def)
  obtain b' where b': "ba_clear b = Inr b'" "ba_tail b'" "content b' = []" using clear_tail [OF wfb] by blast
  obtain as' where as': "appenders_log b (m_appenders l) = Inr as'" "list_all (stream_ok (d @ rest b)) as'"
    using appenders_log_ok [OF b(2,4) assms(2)] by blast
  have "getReadSize b \<noteq> 0" using False b(3) getReadSize_wf [OF wfb] by simp
  with b b' as' show ?thesis by (simp add: async_write_def)
qed

lemma Logger_log_ok:
  assumes "ba_tail (currentBuffer l)" "lg_level l \<le> level" "LogFormatter_format strftime (m_formatter l) level event = Inr line"
  shows "\<exists>l' out'. Logger_log strftime level event l out = Inr (l', out') \<and> ba_tail (currentBuffer l') \<and>
    content (currentBuffer l') = content (currentBuffer l) @ map Some line \<and> bufferToWrite l' = bufferToWrite l \<and>
    m_appenders l' = m_appenders l"
  using tail_sink.put_ok [OF assms(1), of "map Some line"] assms(2,3)
  by (auto simp: Logger_log_def writeStringWithoutLength_def Let_def)

lemma log_step_inv: "log_step strftime s s' \<Longrightarrow> log_inv s \<Longrightarrow> log_inv s'"
proof (induction rule: log_step.induct)
  case (logs s level event line l' out')
  obtain d where d: "d @ content (bufferToWrite (logger s)) @ content (currentBuffer (logger s)) = map Some (logged s)"
    "list_all (stream_ok d) (m_appenders (logger s))" using logs.prems by (auto simp: log_inv_def)
  have "ba_tail (currentBuffer (logger s))" using logs.prems by (simp add: log_inv_def)
  from Logger_log_ok [OF this logs(1,2), of "stdout s"] logs(3)
  have "ba_tail (currentBuffer l')" "content (currentBuffer l') = content (currentBuffer (logger s)) @ map Some line"
    "bufferToWrite l' = bufferToWrite (logger s)" "m_appenders l' = m_appenders (logger s)" by auto
  with d logs.prems show ?case by (auto simp: log_inv_def intro!: exI [of _ d])
next
  case (filtered level s event l' out')
  then show ?case by (simp add: Logger_log_def log_inv_def)
next
  case (swaps s)
  then show ?case by (auto simp: log_inv_def async_swap_def)
next
  case (writes s l')
  obtain d where d: "d @ content (bufferToWrite (logger s)) @ content (currentBuffer (logger s)) = map Some (logged s)"
    "list_all (stream_ok d) (m_appenders (logger s))" using writes.prems by (auto simp: log_inv_def)
  have "ba_tail (bufferToWrite (logger s))" using writes.prems by (simp add: log_inv_def)
  from async_write_ok [OF this d(2)] writes(2) d(1) writes.prems show ?case
    by (auto simp: log_inv_def intro!: exI [of _ "d @ content (bufferToWrite (logger s))"])
next
  case (stop s)
  then show ?case by (simp add: log_inv_def Logger_stop_def)
next
  case (level s v)
  then show ?case by (simp add: log_inv_def)
next
  case (formatter s val)
  then show ?case by (simp add: log_inv_def setFormatter_def Let_def)
qed

lemma log_steps_inv: "(log_step strftime)\<^sup>*\<^sup>* s s' \<Longrightarrow> log_inv s \<Longrightarrow> log_inv s'"
  by (induction rule: rtranclp_induct) (auto intro: log_step_inv)

text \<open>A logger of a positive node size with freshly opened appenders.\<close>

definition logger_start :: "Logger \<Rightarrow> bool" where
  "logger_start l \<longleftrightarrow> (\<exists>b. 0 < b \<and> currentBuffer l = new_ByteArray b \<and> bufferToWrite l = new_ByteArray b) \<and>
     list_all (stream_ok []) (m_appenders l)"

lemma logger_start_inv:
  "logger_start l \<Longrightarrow> log_inv \<lparr>logger = l, swapped = False, stdout = out, logged = []\<rparr>"
  using tail_new by (auto simp: logger_start_def log_inv_def new_ByteArray_def content_def)

text \<open>
  Property C16. The asynchronous logger loses, doubles and reorders nothing: after any
  interleaving of log calls with the rounds of the logger's thread, every file whose stream
  is good holds, followed by what the two buffers hold, exactly the lines logged so far; a
  log call fails only when its formatting does; and when the thread is not in the middle of
  a round, one more round succeeds and leaves all of the lines in every such file.
\<close>

theorem logger_no_loss:
  assumes "logger_start l0" "(log_step strftime)\<^sup>*\<^sup>* \<lparr>logger = l0, swapped = False, stdout = out, logged = []\<rparr> s"
  shows "(\<forall>a \<in> set (m_appenders (logger s)). \<forall>w. ap_stream a = Some (True, w) \<longrightarrow>
      w @ content (bufferToWrite (logger s)) @ content (currentBuffer (logger s)) = map Some (logged s))
    \<and> (\<forall>level event line. LogFormatter_format strftime (m_formatter (logger s)) level event = Inr line \<longrightarrow>
        is_ok (Logger_log strftime level event (logger s) (stdout s)))
    \<and> (\<not> swapped s \<longrightarrow> (\<exists>l'. async_write (async_swap (logger s)) = Inr l' \<and>
        (\<forall>a \<in> set (m_appenders l'). \<forall>w. ap_stream a = Some (True, w) \<longrightarrow> w = map Some (logged s))))"
proof (intro conjI allI impI ballI)
  have inv: "log_inv s" using log_steps_inv [OF assms(2) logger_start_inv [OF assms(1)]] .
  then obtain d where d: "d @ content (bufferToWrite (logger s)) @ content (currentBuffer (logger s)) = map Some (logged s)"
    "list_all (stream_ok d) (m_appenders (logger s))" by (auto simp: log_inv_def)
  have t: "ba_tail (currentBuffer (logger s))" "ba_tail (bufferToWrite (logger s))" using inv by (simp_all add: log_inv_def)
  show "w @ content (bufferToWrite (logger s)) @ content (currentBuffer (logger s)) = map Some (logged s)"
    if "a \<in> set (m_appenders (logger s))" "ap_stream a = Some (True, w)" for a w
    using d that by (auto simp: list_all_iff stream_ok_def)
  show "is_ok (Logger_log strftime level event (logger s) (stdout s))"
    if "LogFormatter_format strftime (m_formatter (logger s)) level event = Inr line" for level event line
    using Logger_log_ok [OF t(1) _ that, of "stdout s"] by (cases "lg_level (logger s) \<le> level") (auto simp: Logger_log_def)
  assume "\<not> swapped s"
  with inv have e: "content (bufferToWrite (logger s)) = []" by (simp add: log_inv_def)
  have "ba_tail (bufferToWrite (async_swap (logger s)))" "list_all (stream_ok d) (m_appenders (async_swap (logger s)))"
    using t d by (simp_all add: async_swap_def)
  from async_write_ok [OF this] obtain l' where "async_write (async_swap (logger s)) = Inr l'"
    "list_all (stream_ok (d @ content (currentBuffer (logger s)))) (m_appenders l')" by (auto simp: async_swap_def)
  then show "\<exists>l'. async_write (async_swap (logger s)) = Inr l' \<and>
        (\<forall>a \<in> set (m_appenders l'). \<forall>w. ap_stream a = Some (True, w) \<longrightarrow> w = map Some (logged s))"
    using d(1) e by (intro exI [of _ l']) (auto simp: list_all_iff dest!: stream_okD)
qed

definition demo_time :: "u8 list \<Rightarrow> u64 \<Rightarrow> u8 list" where
  "demo_time fmt t = lit ''noon''"

definition demo_event :: LogEvent where
  "demo_event = \<lparr>m_file = lit ''a.cc'', m_line = 7, m_elapse = 0, m_threadId = 1, m_fiberId = 2, m_time = 0,
     m_ss = lit ''hello'', m_logger = lit ''root'', m_level = INFO_v, m_threadName = lit ''main''\<rparr>"

definition demo_logger :: Logger where
  "demo_logger = addAppender (new_FileLogAppender (\<lambda>_. True) 1 (lit ''log.txt''))
     ((new_Logger (lit ''root'') 2)\<lparr>m_formatter := new_LogFormatter (lit ''%m'')\<rparr>)"

theorem logger_no_loss_witness:
  "\<exists>l' out'. Logger_log demo_time INFO_v demo_event demo_logger [] = Inr (l', out') \<and>
     content (bufferToWrite l') @ content (currentBuffer l') = map Some (lit ''hello'') \<and> is_ok (async_write (async_swap l'))"
proof -
  have start: "logger_start demo_logger"
    by (auto simp: logger_start_def demo_logger_def addAppender_def new_Logger_def new_FileLogAppender_def stream_ok_def
        intro!: exI [of _ "2 :: nat"])
  have p: "pats_ok [Dir 0x6D None]" by code_simp
  have "lit ''%m'' = render [Dir 0x6D None]" by code_simp
  then have f: "LogFormatter_format demo_time (m_formatter demo_logger) INFO_v demo_event = Inr (lit ''hello'')"
    using log_pattern_meaning [OF p, of demo_time INFO_v demo_event]
    by (simp add: demo_logger_def addAppender_def s_format_items_def lit_def demo_event_def)
  have lv: "lg_level demo_logger \<le> INFO_v" by (simp add: demo_logger_def addAppender_def new_Logger_def level_defs)
  have "ba_tail (currentBuffer demo_logger)" using tail_new [of 2] by (simp add: demo_logger_def addAppender_def new_Logger_def)
  from Logger_log_ok [OF this lv f] obtain l' out' where l: "Logger_log demo_time INFO_v demo_event demo_logger [] = Inr (l', out')"
    "m_appenders l' = m_appenders demo_logger" by blast
  have a: "\<lparr>ap_id = 1, ap_level = DEBUG_v, ap_filename = lit ''log.txt'', ap_stream = Some (True, [])\<rparr> \<in> set (m_appenders l')"
    by (simp add: l(2) demo_logger_def addAppender_def new_FileLogAppender_def)
  let ?s = "\<lparr>logger = demo_logger, swapped = False, stdout = [], logged = []\<rparr>"
  have "log_step demo_time ?s \<lparr>logger = l', swapped = False, stdout = out', logged = lit ''hello''\<rparr>"
    using log_step.logs [of ?s INFO_v demo_time demo_event "lit ''hello''" l' out'] lv f l(1) by simp
  from logger_no_loss [OF start r_into_rtranclp [of "log_step demo_time", OF this]] a l(1) show ?thesis by fastforce
qed

subsection \<open>The manager\<close>

text \<open>
  The loggers by name, and a counter for the addresses of new appenders. A pointer to a
  logger is its name.
\<close>

record LoggerManager =
  m_loggers :: "u8 list \<Rightarrow> Logger option"
  next_addr :: nat

definition getLogger :: "u8 list \<Rightarrow> LoggerManager \<Rightarrow> LoggerManager" where
  "getLogger name m = (case m_loggers m name of Some l \<Rightarrow> m
     | None \<Rightarrow> m\<lparr>m_loggers := (m_loggers m)(name \<mapsto> new_Logger name 4096)\<rparr>)"

definition new_LoggerManager :: LoggerManager where
  "new_LoggerManager = \<lparr>m_loggers = [lit ''root'' \<mapsto> setStdoutAppender 0 (new_Logger (lit ''root'') 4096)], next_addr = 1\<rparr>"

subsection \<open>Applying a configuration\<close>

record LogAppenderDefine =
  lad_type :: int
  lad_level :: level
  lad_file :: "u8 list"

record LogDefine =
  ld_name :: "u8 list"
  ld_level :: level
  ld_formatter :: "u8 list"
  ld_appenders :: "LogAppenderDefine list"
  ld_buffer_node_size :: u32

definition LogDefine_eq :: "LogDefine \<Rightarrow> LogDefine \<Rightarrow> bool" where
  "LogDefine_eq a b \<longleftrightarrow> ld_name a = ld_name b \<and> ld_level a = ld_level b \<and> ld_formatter a = ld_formatter b"

text \<open>The work on one logger, which is the logger and the address counter.\<close>

definition on_logger :: "u8 list \<Rightarrow> (Logger \<Rightarrow> nat \<Rightarrow> Logger \<times> nat) \<Rightarrow> LoggerManager \<Rightarrow> LoggerManager" where
  "on_logger name f m = (let m1 = getLogger name m; (l', n') = f (the (m_loggers m1 name)) (next_addr m1) in
     m1\<lparr>m_loggers := (m_loggers m1)(name \<mapsto> l'), next_addr := n'\<rparr>)"

fun add_defined :: "(u8 list \<Rightarrow> bool) \<Rightarrow> LogAppenderDefine list \<Rightarrow> Logger \<Rightarrow> nat \<Rightarrow> Logger \<times> nat" where
  "add_defined file_opens [] l n = (l, n)"
| "add_defined file_opens (a # as) l n =
     (if lad_type a = 1
      then add_defined file_opens as (addAppender ((new_FileLogAppender file_opens n (lad_file a))\<lparr>ap_level := lad_level a\<rparr>) l) (Suc n)
      else if lad_type a = 2 then add_defined file_opens as (setStdoutAppender n l) (Suc n)
      else add_defined file_opens as l n)"

definition cfg_new :: "(u8 list \<Rightarrow> bool) \<Rightarrow> LogDefine \<Rightarrow> Logger \<Rightarrow> nat \<Rightarrow> Logger \<times> nat" where
  "cfg_new file_opens i l n =
     (let l1 = l\<lparr>lg_level := ld_level i\<rparr>;
          l2 = (if ld_formatter i \<noteq> [] then setFormatter (ld_formatter i) l1 else l1)
      in add_defined file_opens (ld_appenders i) (clearAppenders l2) n)"

definition cfg_changed :: "(u8 list \<Rightarrow> bool) \<Rightarrow> LogDefine \<Rightarrow> LogDefine \<Rightarrow> Logger \<Rightarrow> nat \<Rightarrow> Logger \<times> nat" where
  "cfg_changed file_opens i it l n =
     (let l1 = l\<lparr>lg_level := ld_level i\<rparr>;
          l2 = (if ld_formatter i \<noteq> [] \<and> ld_formatter i \<noteq> ld_formatter it then setFormatter (ld_formatter i) l1 else l1)
      in if ld_appenders i \<noteq> ld_appenders it then add_defined file_opens (ld_appenders i) (clearAppenders l2) n else (l2, n))"

text \<open>A \<open>std::set\<close> of definitions is the list of them in the order of their names.\<close>

definition named :: "u8 list \<Rightarrow> LogDefine list \<Rightarrow> LogDefine option" where
  "named nm ds = find (\<lambda>d. ld_name d = nm) ds"

definition cfg_step :: "(u8 list \<Rightarrow> bool) \<Rightarrow> LogDefine list \<Rightarrow> LogDefine \<Rightarrow> LoggerManager \<Rightarrow> LoggerManager" where
  "cfg_step file_opens old_value i m = (case named (ld_name i) old_value of
       None \<Rightarrow> on_logger (ld_name i) (cfg_new file_opens i) m
     | Some it \<Rightarrow> if \<not> LogDefine_eq i it then on_logger (ld_name i) (cfg_changed file_opens i it) m else m)"

definition cfg_drop :: "LogDefine list \<Rightarrow> LogDefine \<Rightarrow> LoggerManager \<Rightarrow> LoggerManager" where
  "cfg_drop new_value i m = (case named (ld_name i) new_value of
       None \<Rightarrow> on_logger (ld_name i) (\<lambda>l n. (clearAppenders (l\<lparr>lg_level := 100\<rparr>), n)) m
     | Some _ \<Rightarrow> m)"

definition on_log_change :: "(u8 list \<Rightarrow> bool) \<Rightarrow> LogDefine list \<Rightarrow> LogDefine list \<Rightarrow> LoggerManager \<Rightarrow> LoggerManager" where
  "on_log_change file_opens old_value new_value m =
     fold (cfg_drop new_value) old_value (fold (cfg_step file_opens old_value) new_value m)"

subsection \<open>What a configuration change does\<close>

text \<open>Steps that each work on their own key.\<close>

lemma fold_local:
  assumes "\<forall>i m nm. nm \<noteq> key i \<longrightarrow> look (step i m) nm = look m nm"
  shows "nm \<notin> key ` set xs \<Longrightarrow> look (fold step xs m) nm = look m nm"
    and "distinct (map key xs) \<Longrightarrow> i \<in> set xs \<Longrightarrow>
      \<exists>m'. look m' (key i) = look m (key i) \<and> look (fold step xs m) (key i) = look (step i m') (key i)"
proof -
  have other: "nm \<notin> key ` set xs \<Longrightarrow> look (fold step xs m) nm = look m nm" for nm m xs
    using assms by (induction xs arbitrary: m) auto
  then show "nm \<notin> key ` set xs \<Longrightarrow> look (fold step xs m) nm = look m nm" .
  show "distinct (map key xs) \<Longrightarrow> i \<in> set xs \<Longrightarrow>
      \<exists>m'. look m' (key i) = look m (key i) \<and> look (fold step xs m) (key i) = look (step i m') (key i)"
  proof (induction xs arbitrary: m)
    case (Cons x xs)
    show ?case
    proof (cases "i = x")
      case True
      with Cons.prems(1) show ?thesis using other [of "key i" xs "step x m"] by auto
    next
      case False
      with Cons.prems have "key i \<in> key ` set xs" "key x \<notin> key ` set xs" by auto
      then have "key i \<noteq> key x" by metis
      then have "look (step x m) (key i) = look m (key i)" using assms by simp
      with Cons.IH [of "step x m"] Cons.prems False show ?thesis by auto
    qed
  qed simp
qed

lemma on_logger_look:
  "nm \<noteq> name \<Longrightarrow> m_loggers (on_logger name f m) nm = m_loggers m nm"
  "\<exists>n. m_loggers (on_logger name f m) name = Some (fst (f (case m_loggers m name of Some l \<Rightarrow> l | None \<Rightarrow> new_Logger name 4096) n))"
  by (auto simp: on_logger_def getLogger_def Let_def split_def split: option.splits)

lemma cfg_local:
  "nm \<noteq> ld_name i \<Longrightarrow> m_loggers (cfg_step file_opens old_value i m) nm = m_loggers m nm"
  "nm \<noteq> ld_name i \<Longrightarrow> m_loggers (cfg_drop new_value i m) nm = m_loggers m nm"
  by (auto simp: cfg_step_def cfg_drop_def on_logger_look split: option.splits)

text \<open>The appenders of a logger without their addresses and streams.\<close>

definition files_of :: "Logger \<Rightarrow> (level \<times> u8 list) list" where
  "files_of l = map (\<lambda>a. (ap_level a, ap_filename a)) (m_appenders l)"

definition wanted_files :: "LogDefine \<Rightarrow> (level \<times> u8 list) list" where
  "wanted_files i = map (\<lambda>a. (lad_level a, lad_file a)) (filter (\<lambda>a. lad_type a = 1) (ld_appenders i))"

lemma add_defined_view:
  "files_of (fst (add_defined file_opens as l n)) = files_of l @ map (\<lambda>a. (lad_level a, lad_file a)) (filter (\<lambda>a. lad_type a = 1) as)
   \<and> (m_stdoutAppender (fst (add_defined file_opens as l n)) \<noteq> None \<longleftrightarrow> m_stdoutAppender l \<noteq> None \<or> (\<exists>a\<in>set as. lad_type a = 2))
   \<and> lg_level (fst (add_defined file_opens as l n)) = lg_level l \<and> m_formatter (fst (add_defined file_opens as l n)) = m_formatter l"
  by (induction "as" arbitrary: l n)
    (auto simp: addAppender_def files_of_def new_FileLogAppender_def setStdoutAppender_def)

text \<open>
  What the listener of the \<open>logs\<close> configuration does, for old and new
  definitions with distinct names. A logger that is newly defined gets the defined level, the
  defined format when it is valid, exactly the defined files in order, and a standard output
  appender just when one is defined. A logger whose definition keeps its level and format is
  left alone, even when its appenders were changed, since \<open>operator==\<close> does not compare them.
  A logger that is defined no more is silenced. Every other logger is left alone.
\<close>

theorem log_config_applied:
  assumes "distinct (map ld_name old)" "distinct (map ld_name new)"
  shows "(\<forall>i\<in>set new. named (ld_name i) old = None \<longrightarrow>
      (\<exists>l. m_loggers (on_log_change file_opens old new m) (ld_name i) = Some l \<and> lg_level l = ld_level i \<and> files_of l = wanted_files i
        \<and> (m_stdoutAppender l \<noteq> None \<longleftrightarrow> (\<exists>a\<in>set (ld_appenders i). lad_type a = 2))
        \<and> (ld_formatter i \<noteq> [] \<and> \<not> m_error (new_LogFormatter (ld_formatter i)) \<longrightarrow> m_formatter l = new_LogFormatter (ld_formatter i))))
    \<and> (\<forall>i\<in>set new. \<forall>j. named (ld_name i) old = Some j \<and> LogDefine_eq i j \<longrightarrow>
        m_loggers (on_log_change file_opens old new m) (ld_name i) = m_loggers m (ld_name i))
    \<and> (\<forall>j\<in>set old. named (ld_name j) new = None \<longrightarrow>
      (\<exists>l. m_loggers (on_log_change file_opens old new m) (ld_name j) = Some l \<and> lg_level l = 100 \<and> m_appenders l = [] \<and> m_stdoutAppender l = None))
    \<and> (\<forall>nm. nm \<notin> ld_name ` set old \<and> nm \<notin> ld_name ` set new \<longrightarrow>
        m_loggers (on_log_change file_opens old new m) nm = m_loggers m nm)"
proof -
  let ?m1 = "fold (cfg_step file_opens old) new m"
  let ?m2 = "on_log_change file_opens old new m"
  have m2: "?m2 = fold (cfg_drop new) old ?m1" by (simp add: on_log_change_def)
  have "\<forall>i m nm. nm \<noteq> ld_name i \<longrightarrow> m_loggers (cfg_step file_opens old i m) nm = m_loggers m nm"
    "\<forall>i m nm. nm \<noteq> ld_name i \<longrightarrow> m_loggers (cfg_drop new i m) nm = m_loggers m nm" by (simp_all add: cfg_local)
  note step = fold_local [of ld_name m_loggers, OF this(1)] and drop = fold_local [of ld_name m_loggers, OF this(2)]
  have named_in: "named nm ds = None \<longleftrightarrow> nm \<notin> ld_name ` set ds" for nm ds by (auto simp: named_def find_None_iff)
  have keep: "m_loggers ?m2 (ld_name i) = m_loggers ?m1 (ld_name i)" if "i \<in> set new" for i
  proof (cases "ld_name i \<in> ld_name ` set old")
    case True
    then obtain j where j: "j \<in> set old" "ld_name j = ld_name i" by auto
    have "named (ld_name j) new \<noteq> None" using that j by (simp add: named_in)
    then have "cfg_drop new j m' = m'" for m' by (auto simp: cfg_drop_def)
    with drop(2) [OF assms(1) j(1), of ?m1] j(2) show ?thesis by (auto simp: m2)
  qed (simp add: m2 drop(1))
  have at: "\<exists>m'. m_loggers m' (ld_name i) = m_loggers m (ld_name i) \<and>
      m_loggers ?m2 (ld_name i) = m_loggers (cfg_step file_opens old i m') (ld_name i)" if "i \<in> set new" for i
    using step(2) [OF assms(2) that, of m] keep [OF that] by simp
  have c1: "\<exists>l. m_loggers ?m2 (ld_name i) = Some l \<and> lg_level l = ld_level i \<and> files_of l = wanted_files i
        \<and> (m_stdoutAppender l \<noteq> None \<longleftrightarrow> (\<exists>a\<in>set (ld_appenders i). lad_type a = 2))
        \<and> (ld_formatter i \<noteq> [] \<and> \<not> m_error (new_LogFormatter (ld_formatter i)) \<longrightarrow> m_formatter l = new_LogFormatter (ld_formatter i))"
    if i: "i \<in> set new" "named (ld_name i) old = None" for i
  proof -
    obtain m' where "m_loggers ?m2 (ld_name i) = m_loggers (on_logger (ld_name i) (cfg_new file_opens i) m') (ld_name i)"
      using at [OF i(1)] i(2) by (auto simp: cfg_step_def)
    with on_logger_look(2) [of "ld_name i" "cfg_new file_opens i" m'] obtain l n where
      "m_loggers ?m2 (ld_name i) = Some (fst (cfg_new file_opens i l n))" by auto
    then show ?thesis
      using add_defined_view [of file_opens "ld_appenders i"]
      by (auto simp: cfg_new_def Let_def clearAppenders_def setFormatter_def files_of_def wanted_files_def)
  qed
  have c3: "\<exists>l. m_loggers ?m2 (ld_name j) = Some l \<and> lg_level l = 100 \<and> m_appenders l = [] \<and> m_stdoutAppender l = None"
    if j: "j \<in> set old" "named (ld_name j) new = None" for j
  proof -
    obtain m' where "m_loggers ?m2 (ld_name j) = m_loggers (cfg_drop new j m') (ld_name j)"
      using drop(2) [OF assms(1) j(1), of ?m1] by (auto simp: m2)
    with on_logger_look(2) [of "ld_name j" "\<lambda>l n. (clearAppenders (l\<lparr>lg_level := 100\<rparr>), n)" m'] j(2)
    show ?thesis by (auto simp: cfg_drop_def clearAppenders_def)
  qed
  have c2: "m_loggers ?m2 (ld_name i) = m_loggers m (ld_name i)"
    if "i \<in> set new" "named (ld_name i) old = Some j" "LogDefine_eq i j" for i j
    using at [OF that(1)] that(2,3) by (auto simp: cfg_step_def)
  have c4: "m_loggers ?m2 nm = m_loggers m nm" if "nm \<notin> ld_name ` set old" "nm \<notin> ld_name ` set new" for nm
    using that by (simp add: m2 drop(1) step(1))
  show ?thesis using c1 c2 c3 c4 by blast
qed

theorem log_config_applied_witness:
  "m_loggers (on_log_change (\<lambda>_. True)
      [\<lparr>ld_name = lit ''sys'', ld_level = INFO_v, ld_formatter = [], ld_appenders = [], ld_buffer_node_size = 4096\<rparr>]
      [\<lparr>ld_name = lit ''sys'', ld_level = INFO_v, ld_formatter = [],
         ld_appenders = [\<lparr>lad_type = 1, lad_level = INFO_v, lad_file = lit ''sys.log''\<rparr>], ld_buffer_node_size = 4096\<rparr>]
      new_LoggerManager) (lit ''sys'') = None"
proof -
  let ?i = "\<lparr>ld_name = lit ''sys'', ld_level = INFO_v, ld_formatter = [], ld_appenders = [], ld_buffer_node_size = 4096\<rparr>"
  let ?j = "\<lparr>ld_name = lit ''sys'', ld_level = INFO_v, ld_formatter = [],
         ld_appenders = [\<lparr>lad_type = 1, lad_level = INFO_v, lad_file = lit ''sys.log''\<rparr>], ld_buffer_node_size = 4096\<rparr>"
  have "named (ld_name ?j) [?i] = Some ?i \<and> LogDefine_eq ?j ?i" by (simp add: named_def LogDefine_eq_def)
  moreover have "distinct (map ld_name [?i])" "distinct (map ld_name [?j])" by simp_all
  ultimately have "m_loggers (on_log_change (\<lambda>_. True) [?i] [?j] new_LoggerManager) (ld_name ?j) = m_loggers new_LoggerManager (ld_name ?j)"
    using log_config_applied [of "[?i]" "[?j]" "\<lambda>_. True" new_LoggerManager] by fastforce
  then show ?thesis by (simp add: new_LoggerManager_def)
qed

end
