(* ===== verification/Civan_Config.thy ===== *)
theory Civan_Config
  imports Civan_Text Civan_Std_Map
begin

section \<open>Configuration variables: \<open>civan/config.cc\<close> and \<open>config.h\<close>\<close>

text \<open>
  Named, typed variables with listeners, the registry that maps names to them, and the
  loading of a YAML document. A variable is an object: the registry holds pointers, so the
  model has a heap of variables. The type of a variable is its name \<open>cv_type\<close>; its value is
  of one type \<open>'v\<close> for all, and the conversions of a type from and to text (\<open>LexicalCast\<close>,
  over boost and yaml-cpp) are the arguments \<open>from_str\<close> and \<open>to_str\<close>, with \<open>None\<close> for an
  exception. Listeners act on a state \<open>'s\<close> of the program. The operations are those of one
  thread; the locks are left out.
\<close>

subsection \<open>Variables\<close>

record ('v, 's) ConfigVar =
  cv_name :: "u8 list"
  cv_description :: "u8 list"
  cv_type :: "u8 list"
  m_val :: 'v
  m_cbs :: "(u64 \<times> ('v \<Rightarrow> 'v \<Rightarrow> 's \<Rightarrow> 's)) list"

text \<open>The heap, the registry, the listener keys (static in a member of the template, so one per type) and the program state.\<close>

record ('v, 's) Config =
  cf_vars :: "nat \<Rightarrow> ('v, 's) ConfigVar"
  cf_next :: nat
  s_datas :: "u8 list \<Rightarrow> nat option"
  cb_key :: "u8 list \<Rightarrow> u64"
  program :: 's

definition new_ConfigVar :: "u8 list \<Rightarrow> u8 list \<Rightarrow> 'v \<Rightarrow> u8 list \<Rightarrow> ('v, 's) ConfigVar" where
  "new_ConfigVar type name default_value description = \<lparr>cv_name = map c_tolower name, cv_description = description,
     cv_type = type, m_val = default_value, m_cbs = []\<rparr>"

definition put_var :: "nat \<Rightarrow> ('v, 's) ConfigVar \<Rightarrow> ('v, 's) Config \<Rightarrow> ('v, 's) Config" where
  "put_var p x c = c\<lparr>cf_vars := (cf_vars c)(p := x)\<rparr>"

definition getValue :: "nat \<Rightarrow> ('v, 's) Config \<Rightarrow> 'v" where
  "getValue p c = m_val (cf_vars c p)"

text \<open>The listeners are called with the old and the new value before the value is stored.\<close>

definition call_listeners :: "'v \<Rightarrow> 'v \<Rightarrow> (u64 \<times> ('v \<Rightarrow> 'v \<Rightarrow> 's \<Rightarrow> 's)) list \<Rightarrow> 's \<Rightarrow> 's" where
  "call_listeners old new cbs s = fold (\<lambda>(k, cb). cb old new) cbs s"

definition setValue :: "nat \<Rightarrow> 'v \<Rightarrow> ('v, 's) Config \<Rightarrow> ('v, 's) Config" where
  "setValue p v c = (let x = cf_vars c p in
     if v = m_val x then c
     else put_var p (x\<lparr>m_val := v\<rparr>) (c\<lparr>program := call_listeners (m_val x) v (m_cbs x) (program c)\<rparr>))"

definition fromString :: "(u8 list \<Rightarrow> u8 list \<Rightarrow> 'v option) \<Rightarrow> nat \<Rightarrow> u8 list \<Rightarrow> ('v, 's) Config \<Rightarrow> bool \<times> ('v, 's) Config" where
  "fromString from_str p val c = (case from_str (cv_type (cf_vars c p)) val of
     None \<Rightarrow> (False, c) | Some v \<Rightarrow> (True, setValue p v c))"

definition ConfigVar_toString :: "(u8 list \<Rightarrow> 'v \<Rightarrow> u8 list option) \<Rightarrow> nat \<Rightarrow> ('v, 's) Config \<Rightarrow> u8 list" where
  "ConfigVar_toString to_str p c = (case to_str (cv_type (cf_vars c p)) (m_val (cf_vars c p)) of None \<Rightarrow> [] | Some s \<Rightarrow> s)"

text \<open>\<open>addListener\<close> stores the callback under the key and returns the incremented key.\<close>

definition addListener :: "nat \<Rightarrow> ('v \<Rightarrow> 'v \<Rightarrow> 's \<Rightarrow> 's) \<Rightarrow> ('v, 's) Config \<Rightarrow> u64 \<times> ('v, 's) Config" where
  "addListener p cb c = (let x = cf_vars c p; key = cb_key c (cv_type x) in
     (key + 1, put_var p (x\<lparr>m_cbs := map_set (<) key cb (m_cbs x)\<rparr>) (c\<lparr>cb_key := (cb_key c)(cv_type x := key + 1)\<rparr>)))"

definition getListener :: "nat \<Rightarrow> u64 \<Rightarrow> ('v, 's) Config \<Rightarrow> ('v \<Rightarrow> 'v \<Rightarrow> 's \<Rightarrow> 's) option" where
  "getListener p key c = map_find (<) key (m_cbs (cf_vars c p))"

definition clearListener :: "nat \<Rightarrow> ('v, 's) Config \<Rightarrow> ('v, 's) Config" where
  "clearListener p c = put_var p ((cf_vars c p)\<lparr>m_cbs := []\<rparr>) c"

subsection \<open>The registry\<close>

definition valid_name :: "u8 list \<Rightarrow> bool" where
  "valid_name name \<longleftrightarrow> set name \<subseteq> set (lit ''abcdefghijklmnopqrstuvwxyz._0123456789'')"

definition Config_Lookup :: "u8 list \<Rightarrow> u8 list \<Rightarrow> ('v, 's) Config \<Rightarrow> nat option res" where
  "Config_Lookup type name c = (case s_datas c name of
       Some p \<Rightarrow> Inr (if cv_type (cf_vars c p) = type then Some p else None)
     | None \<Rightarrow> if \<not> valid_name name then Inl InvalidArgument else Inr None)"

definition Config_Lookup_default ::
  "u8 list \<Rightarrow> u8 list \<Rightarrow> 'v \<Rightarrow> u8 list \<Rightarrow> ('v, 's) Config \<Rightarrow> (nat \<times> ('v, 's) Config) res" where
  "Config_Lookup_default type name default_value description c =
     rbind (Config_Lookup type name c) (\<lambda>tmp. case tmp of Some p \<Rightarrow> Inr (p, c)
       | None \<Rightarrow> let p = cf_next c in
           Inr (p, (put_var p (new_ConfigVar type name default_value description) c)
             \<lparr>cf_next := Suc p, s_datas := (s_datas c)(name \<mapsto> p)\<rparr>))"

definition LookupBase :: "u8 list \<Rightarrow> ('v, 's) Config \<Rightarrow> nat option" where
  "LookupBase name c = s_datas c name"

subsection \<open>Loading a document\<close>

datatype yaml =
    YNull
  | YScalar "u8 list"
  | YSequence "yaml list"
  | YMap "(u8 list \<times> yaml) list"

definition dotted :: "u8 list \<Rightarrow> u8 list \<Rightarrow> u8 list" where
  "dotted prefix key = (if prefix = [] then key else prefix @ lit ''.'' @ key)"

lemma size_member: "(k, v) \<in> set ms \<Longrightarrow> size v < size_list (size_prod (\<lambda>_. 0) size) ms"
  by (induction ms) auto

function ListAllMember :: "u8 list \<Rightarrow> yaml \<Rightarrow> (u8 list \<times> yaml) list" where
  "ListAllMember prefix node =
     (if \<not> valid_name prefix then []
      else (prefix, node) # (case node of
          YMap ms \<Rightarrow> concat (map (\<lambda>(k, v). ListAllMember (dotted prefix k) v) ms) | _ \<Rightarrow> []))"
  by pat_completeness auto
termination
  by (relation "measure (\<lambda>(prefix, node). size node)") (auto dest: size_member)

declare ListAllMember.simps [simp del]

text \<open>The text of a node: a scalar's own, any other as yaml-cpp writes it (\<open>emit\<close>).\<close>

definition node_text :: "(yaml \<Rightarrow> u8 list) \<Rightarrow> yaml \<Rightarrow> u8 list" where
  "node_text emit node = (case node of YScalar s \<Rightarrow> s | _ \<Rightarrow> emit node)"

definition load_one ::
  "(u8 list \<Rightarrow> u8 list \<Rightarrow> 'v option) \<Rightarrow> (yaml \<Rightarrow> u8 list) \<Rightarrow> u8 list \<times> yaml \<Rightarrow> ('v, 's) Config \<Rightarrow> ('v, 's) Config" where
  "load_one from_str emit i c =
     (if fst i = [] then c
      else case LookupBase (map c_tolower (fst i)) c of None \<Rightarrow> c
        | Some var \<Rightarrow> snd (fromString from_str var (node_text emit (snd i)) c))"

definition LoadFromYaml ::
  "(u8 list \<Rightarrow> u8 list \<Rightarrow> 'v option) \<Rightarrow> (yaml \<Rightarrow> u8 list) \<Rightarrow> yaml \<Rightarrow> ('v, 's) Config \<Rightarrow> ('v, 's) Config" where
  "LoadFromYaml from_str emit root c = fold (load_one from_str emit) (ListAllMember [] root) c"

subsection \<open>Listeners\<close>

interpretation u64_keys: map_order "(<) :: u64 \<Rightarrow> u64 \<Rightarrow> bool"
  by unfold_locales auto

lemma set_value:
  "getValue p (setValue p v c) = v" "v = getValue p c \<Longrightarrow> setValue p v c = c"
  "v \<noteq> getValue p c \<Longrightarrow> program (setValue p v c) = fold (\<lambda>cb. cb (getValue p c) v) (map snd (m_cbs (cf_vars c p))) (program c)"
  "q \<noteq> p \<Longrightarrow> cf_vars (setValue p v c) q = cf_vars c q" "s_datas (setValue p v c) = s_datas c"
  "cv_type (cf_vars (setValue p v c) q) = cv_type (cf_vars c q)"
proof -
  have "fold (\<lambda>(k, cb). cb old v) cbs s = fold (\<lambda>cb. cb old v) (map snd cbs) s"
    for old and cbs :: "(u64 \<times> ('a \<Rightarrow> 'a \<Rightarrow> 'b \<Rightarrow> 'b)) list" and s
    by (induction cbs arbitrary: s) auto
  then show "v \<noteq> getValue p c \<Longrightarrow> program (setValue p v c) = fold (\<lambda>cb. cb (getValue p c) v) (map snd (m_cbs (cf_vars c p))) (program c)"
    by (simp add: setValue_def getValue_def put_var_def Let_def call_listeners_def)
qed (simp_all add: setValue_def getValue_def put_var_def Let_def)

lemma get_other: "q \<noteq> p \<Longrightarrow> getValue q (setValue p v c) = getValue q c"
  by (simp add: getValue_def set_value(4))

text \<open>The keys in use are below the next one of the type.\<close>

definition keys_below :: "nat \<Rightarrow> ('v, 's) Config \<Rightarrow> bool" where
  "keys_below p c \<longleftrightarrow> (\<forall>e\<in>set (m_cbs (cf_vars c p)). fst e < cb_key c (cv_type (cf_vars c p)))"

lemma map_set_last: "\<forall>e\<in>set m. fst e < (k :: u64) \<Longrightarrow> map_set (<) k cb m = m @ [(k, cb)]"
  by (simp add: map_set_def takeWhile_eq_all_conv [THEN iffD2] dropWhile_eq_Nil_conv [THEN iffD2])

lemma addListener_fresh:
  assumes "keys_below p c" "unat (cb_key c (cv_type (cf_vars c p))) + 1 < 2 ^ 64"
  shows "m_cbs (cf_vars (snd (addListener p cb c)) p) = m_cbs (cf_vars c p) @ [(cb_key c (cv_type (cf_vars c p)), cb)]"
    and "keys_below p (snd (addListener p cb c))" and "getValue p (snd (addListener p cb c)) = getValue p c"
    and "program (snd (addListener p cb c)) = program c"
    and "cv_type (cf_vars (snd (addListener p cb c)) p) = cv_type (cf_vars c p)"
    and "unat (cb_key (snd (addListener p cb c)) (cv_type (cf_vars c p))) = unat (cb_key c (cv_type (cf_vars c p))) + 1"
proof -
  let ?k = "cb_key c (cv_type (cf_vars c p))"
  have u: "unat (?k + 1) = unat ?k + 1" using assms(2) by (simp add: unat_word_ariths)
  then have less: "?k < ?k + 1" "x < ?k \<Longrightarrow> x < ?k + 1" for x by (simp_all add: word_less_nat_alt)
  show cbs: "m_cbs (cf_vars (snd (addListener p cb c)) p) = m_cbs (cf_vars c p) @ [(?k, cb)]"
    using assms(1) by (simp add: addListener_def put_var_def Let_def keys_below_def map_set_last)
  show "keys_below p (snd (addListener p cb c))"
    using assms(1) less cbs unfolding keys_below_def by (auto simp: addListener_def put_var_def Let_def)
  show "getValue p (snd (addListener p cb c)) = getValue p c" "program (snd (addListener p cb c)) = program c"
    "cv_type (cf_vars (snd (addListener p cb c)) p) = cv_type (cf_vars c p)"
    "unat (cb_key (snd (addListener p cb c)) (cv_type (cf_vars c p))) = unat ?k + 1"
    using u by (simp_all add: addListener_def put_var_def Let_def getValue_def)
qed

lemma add_listeners:
  "keys_below p c \<Longrightarrow> unat (cb_key c (cv_type (cf_vars c p))) + length cbs < 2 ^ 64 \<Longrightarrow>
    map snd (m_cbs (cf_vars (fold (\<lambda>cb c. snd (addListener p cb c)) cbs c) p)) = map snd (m_cbs (cf_vars c p)) @ cbs
    \<and> getValue p (fold (\<lambda>cb c. snd (addListener p cb c)) cbs c) = getValue p c
    \<and> program (fold (\<lambda>cb c. snd (addListener p cb c)) cbs c) = program c"
proof (induction cbs arbitrary: c)
  case (Cons cb cbs)
  then have fresh: "unat (cb_key c (cv_type (cf_vars c p))) + 1 < 2 ^ 64" by simp
  note a = addListener_fresh [OF Cons.prems(1) fresh, of cb]
  show ?case using Cons.IH [OF a(2)] Cons.prems(2) a by simp
qed simp

text \<open>
  The listeners added to a variable are called in the order in which they were
  added, each once, with the old and the new value, when the variable is set to a new value,
  and the variable then has that value; setting it to the value it has calls none.
\<close>

theorem config_listeners_in_order:
  assumes "keys_below p c" "unat (cb_key c (cv_type (cf_vars c p))) + length cbs < 2 ^ 64"
  shows "\<forall>c'. c' = fold (\<lambda>cb c. snd (addListener p cb c)) cbs c \<longrightarrow> getValue p (setValue p v c') = v \<and>
    program (setValue p v c') = (if v = getValue p c then program c
      else fold (\<lambda>cb. cb (getValue p c) v) (map snd (m_cbs (cf_vars c p)) @ cbs) (program c))"
  using add_listeners [OF assms] by (auto simp: set_value(1,2,3))

definition demo_config :: "(int, int list) Config" where
  "demo_config = \<lparr>cf_vars = (\<lambda>_. new_ConfigVar (lit ''i'') (lit ''port'') 80 []), cf_next = 1,
     s_datas = [lit ''port'' \<mapsto> 0], cb_key = (\<lambda>_. 0), program = []\<rparr>"

theorem config_listeners_in_order_witness:
  "\<exists>c'. c' = fold (\<lambda>cb c. snd (addListener 0 cb c)) [\<lambda>old new s. s @ [old], \<lambda>old new s. s @ [new]] demo_config \<and>
     program (setValue 0 8080 c') = [80, 8080]"
proof -
  have k: "keys_below 0 demo_config" by (simp add: keys_below_def demo_config_def new_ConfigVar_def)
  have g: "getValue 0 demo_config = 80" "m_cbs (cf_vars demo_config 0) = []" "program demo_config = []"
    "cb_key demo_config (cv_type (cf_vars demo_config 0)) = 0"
    by (simp_all add: demo_config_def new_ConfigVar_def getValue_def)
  let ?cbs = "[\<lambda>old new s. s @ [old], \<lambda>old new s. s @ [new]] :: (int \<Rightarrow> int \<Rightarrow> int list \<Rightarrow> int list) list"
  from config_listeners_in_order [OF k, of ?cbs 8080] g show ?thesis by simp
qed

text \<open>
  The key that \<open>addListener\<close> returns is not the key of the listener: asking for it
  finds none.
\<close>

theorem config_listener_key:
  assumes "keys_below p c" "unat (cb_key c (cv_type (cf_vars c p))) + 1 < 2 ^ 64"
    "sorted_wrt (\<lambda>a b. fst a < fst b) (m_cbs (cf_vars c p))"
  shows "getListener p (fst (addListener p cb c)) (snd (addListener p cb c)) = None
    \<and> getListener p (fst (addListener p cb c) - 1) (snd (addListener p cb c)) = Some cb"
proof -
  let ?k = "cb_key c (cv_type (cf_vars c p))" and ?m = "m_cbs (cf_vars c p)"
  have u: "unat (?k + 1) = unat ?k + 1" using assms(2) by (simp add: unat_word_ariths)
  then have less: "?k < ?k + 1" by (simp add: word_less_nat_alt)
  have below: "\<forall>e\<in>set ?m. fst e < ?k" using assms(1) by (simp add: keys_below_def)
  then have below1: "\<forall>e\<in>set (?m @ [(?k, cb)]). fst e < ?k + 1" using less by (auto intro: less_trans)
  have "map_find (<) (?k + 1) (?m @ [(?k, cb)]) = None"
    using below1 by (simp add: map_find_def dropWhile_eq_Nil_conv [THEN iffD2] split: list.split)
  moreover have "map_find (<) ?k (?m @ [(?k, cb)]) = Some cb"
    using below by (simp add: map_find_def dropWhile_append2)
  moreover have "fst (addListener p cb c) = ?k + 1" by (simp add: addListener_def Let_def)
  ultimately show ?thesis using addListener_fresh(1) [OF assms(1,2), of cb] by (simp add: getListener_def)
qed

subsection \<open>The registry\<close>

text \<open>Registered pointers are allocated, and the names are valid.\<close>

definition config_ok :: "('v, 's) Config \<Rightarrow> bool" where
  "config_ok c \<longleftrightarrow> (\<forall>name p. s_datas c name = Some p \<longrightarrow> p < cf_next c \<and> valid_name name)"

text \<open>
  \<open>Lookup\<close> with a default: an unregistered name that is not valid raises
  \<open>invalid_argument\<close>. Otherwise it returns a variable of the asked type that the name now
  stands for, and asking again with any default returns the same variable and changes nothing.
  A variable of that type that was registered keeps its value; else the new variable has the
  default, and one of another type that the name stood for is replaced in the registry (its
  holders keep it). No variable that existed is changed.
\<close>

theorem config_lookup_stable:
  assumes "config_ok c"
  shows "if s_datas c name = None \<and> \<not> valid_name name then Config_Lookup_default type name d desc c = Inl InvalidArgument
    else \<exists>p c'. Config_Lookup_default type name d desc c = Inr (p, c') \<and> config_ok c' \<and> s_datas c' name = Some p
      \<and> cv_type (cf_vars c' p) = type \<and> (\<forall>d2 desc2. Config_Lookup_default type name d2 desc2 c' = Inr (p, c'))
      \<and> (\<forall>q. q < cf_next c \<longrightarrow> cf_vars c' q = cf_vars c q) \<and> (\<forall>other. other \<noteq> name \<longrightarrow> s_datas c' other = s_datas c other)
      \<and> (case s_datas c name of
          Some q \<Rightarrow> if cv_type (cf_vars c q) = type then p = q \<and> c' = c else p \<noteq> q \<and> getValue p c' = d
        | None \<Rightarrow> getValue p c' = d)"
proof (cases "s_datas c name = None \<and> \<not> valid_name name")
  case True
  then show ?thesis by (simp add: Config_Lookup_default_def Config_Lookup_def)
next
  case False
  have ok: "config_ok (c\<lparr>cf_vars := f, cf_next := Suc (cf_next c), s_datas := (s_datas c)(name \<mapsto> cf_next c)\<rparr>)" for f
    using assms False by (auto simp: config_ok_def intro: less_SucI)
  let ?p = "cf_next c" and ?c = "(put_var (cf_next c) (new_ConfigVar type name d desc) c)\<lparr>cf_next := Suc (cf_next c), s_datas := (s_datas c)(name \<mapsto> cf_next c)\<rparr>"
  have new: "config_ok ?c" "s_datas ?c name = Some ?p" "cv_type (cf_vars ?c ?p) = type" "getValue ?p ?c = d"
    "Config_Lookup_default type name d2 desc2 ?c = Inr (?p, ?c)" for d2 desc2
    using ok by (simp_all add: Config_Lookup_default_def Config_Lookup_def put_var_def new_ConfigVar_def getValue_def)
  have frame: "\<forall>q. q < cf_next c \<longrightarrow> cf_vars ?c q = cf_vars c q" "\<forall>other. other \<noteq> name \<longrightarrow> s_datas ?c other = s_datas c other"
    by (simp_all add: put_var_def)
  show ?thesis
  proof (cases "s_datas c name")
    case None
    then have "Config_Lookup_default type name d desc c = Inr (?p, ?c)"
      using False by (simp add: Config_Lookup_default_def Config_Lookup_def Let_def)
    with None False new frame show ?thesis by simp
  next
    case (Some q)
    then have q: "q < cf_next c" using assms by (auto simp: config_ok_def)
    show ?thesis
    proof (cases "cv_type (cf_vars c q) = type")
      case True
      then have "Config_Lookup_default type name d2 desc2 c = Inr (q, c)" for d2 desc2
        using Some by (simp add: Config_Lookup_default_def Config_Lookup_def)
      with Some True assms show ?thesis by simp
    next
      case no: False
      then have "Config_Lookup_default type name d desc c = Inr (?p, ?c)"
        using Some by (simp add: Config_Lookup_default_def Config_Lookup_def Let_def)
      with Some no q new frame False show ?thesis by simp
    qed
  qed
qed

theorem config_lookup_stable_witness:
  "\<exists>p c'. Config_Lookup_default (lit ''i'') (lit ''tcp.timeout'') 120 [] demo_config = Inr (p, c') \<and> getValue p c' = 120
     \<and> Config_Lookup_default (lit ''i'') (lit ''tcp.timeout'') 5 [] c' = Inr (p, c')"
proof -
  have "valid_name (lit ''port'')" "valid_name (lit ''tcp.timeout'')" by (simp_all add: valid_name_def lit_def)
  moreover from this have "config_ok demo_config" by (simp add: config_ok_def demo_config_def)
  ultimately show ?thesis
    using config_lookup_stable [of demo_config "lit ''tcp.timeout''" "lit ''i''" 120 "[]"]
    by (auto simp: demo_config_def split: if_splits)
qed

subsection \<open>Loading\<close>

text \<open>The node at a path of keys.\<close>

inductive yaml_at :: "yaml \<Rightarrow> u8 list list \<Rightarrow> yaml \<Rightarrow> bool" where
  here: "yaml_at n [] n"
| below: "(k, v) \<in> set ms \<Longrightarrow> yaml_at v ks n \<Longrightarrow> yaml_at (YMap ms) (k # ks) n"

inductive_simps yaml_at_simps [simp]: "yaml_at n [] m" "yaml_at n (k # ks) m"

lemma dotted_grows: "set prefix \<subseteq> set (dotted prefix k)" "set prefix \<subseteq> set (foldl dotted prefix ks)"
proof -
  have grow: "set prefix \<subseteq> set (dotted prefix k)" for prefix k by (simp add: dotted_def)
  then show "set prefix \<subseteq> set (dotted prefix k)" .
  show "set prefix \<subseteq> set (foldl dotted prefix ks)"
  proof (induction ks arbitrary: prefix)
    case (Cons k ks)
    show ?case using subset_trans [OF grow Cons.IH] by simp
  qed simp
qed

lemma yaml_at_leaf: "(\<And>ms. node \<noteq> YMap ms) \<Longrightarrow> yaml_at node ks n \<longleftrightarrow> ks = [] \<and> n = node"
  by (cases ks) auto

lemma ListAllMember_paths:
  "(nm, n) \<in> set (ListAllMember prefix node) \<longleftrightarrow> valid_name nm \<and> (\<exists>ks. yaml_at node ks n \<and> nm = foldl dotted prefix ks)"
proof (induction prefix node rule: ListAllMember.induct)
  case (1 prefix node)
  have down: "valid_name (foldl dotted prefix ks) \<Longrightarrow> valid_name prefix" for ks
    using dotted_grows(2) [of prefix ks] by (auto simp: valid_name_def)
  show ?case
  proof (cases "valid_name prefix")
    case True
    show ?thesis
    proof (cases node)
      case (YMap ms)
      have IH: "(nm, n) \<in> set (ListAllMember (dotted prefix k) v) \<longleftrightarrow>
          valid_name nm \<and> (\<exists>ks. yaml_at v ks n \<and> nm = foldl dotted (dotted prefix k) ks)" if "(k, v) \<in> set ms" for k v
        using "1.IH" [OF _ YMap that refl] True by simp
      have "(\<exists>ks. yaml_at node ks n \<and> nm = foldl dotted prefix ks) \<longleftrightarrow> (n = node \<and> nm = prefix) \<or>
          (\<exists>(k, v)\<in>set ms. \<exists>ks. yaml_at v ks n \<and> nm = foldl dotted (dotted prefix k) ks)" (is "?L \<longleftrightarrow> ?R")
      proof
        assume ?L
        then obtain ks where "yaml_at node ks n" "nm = foldl dotted prefix ks" by blast
        then show ?R using YMap by (cases ks) auto
      next
        assume ?R
        then show ?L
        proof
          assume "n = node \<and> nm = prefix"
          then show ?L by (intro exI [of _ "[]"]) simp
        next
          assume "\<exists>(k, v)\<in>set ms. \<exists>ks. yaml_at v ks n \<and> nm = foldl dotted (dotted prefix k) ks"
          then obtain k v ks where "(k, v) \<in> set ms" "yaml_at v ks n" "nm = foldl dotted (dotted prefix k) ks" by auto
          then show ?L using YMap by (intro exI [of _ "k # ks"]) auto
        qed
      qed
      moreover have "(nm, n) \<in> set (ListAllMember prefix node) \<longleftrightarrow> (n = node \<and> nm = prefix) \<or>
          (\<exists>(k, v)\<in>set ms. (nm, n) \<in> set (ListAllMember (dotted prefix k) v))"
        using True YMap by (subst ListAllMember.simps) auto
      ultimately show ?thesis using True IH by fastforce
    qed (use True in \<open>auto simp: yaml_at_leaf ListAllMember.simps [of prefix]\<close>)
  next
    case False
    then show ?thesis using down by (subst ListAllMember.simps) auto
  qed
qed

text \<open>Lowering the case of a valid name changes nothing.\<close>

lemma tolower_valid:
  assumes "valid_name nm"
  shows "map c_tolower nm = nm"
proof -
  have "list_all (\<lambda>c. c_tolower c = c) (lit ''abcdefghijklmnopqrstuvwxyz._0123456789'')" by code_simp
  with assms show ?thesis by (auto simp: valid_name_def list_all_iff intro!: map_idI)
qed

definition converted :: "(u8 list \<Rightarrow> u8 list \<Rightarrow> 'v option) \<Rightarrow> (yaml \<Rightarrow> u8 list) \<Rightarrow> u8 list \<Rightarrow> 'v \<Rightarrow> yaml \<Rightarrow> 'v" where
  "converted from_str emit type v node = (case from_str type (node_text emit node) of None \<Rightarrow> v | Some w \<Rightarrow> w)"

lemma load_one_frame:
  "s_datas (load_one from_str emit i c) = s_datas c"
  "cv_type (cf_vars (load_one from_str emit i c) q) = cv_type (cf_vars c q)"
  by (auto simp: load_one_def fromString_def set_value split: option.splits)

lemma load_one_value:
  "getValue p (load_one from_str emit i c) =
     (if fst i \<noteq> [] \<and> s_datas c (map c_tolower (fst i)) = Some p
      then converted from_str emit (cv_type (cf_vars c p)) (getValue p c) (snd i) else getValue p c)"
  by (auto simp: load_one_def LookupBase_def fromString_def converted_def set_value(1) get_other split: option.splits)

lemma load_fold:
  "getValue p (fold (load_one from_str emit) xs c) =
     foldl (converted from_str emit (cv_type (cf_vars c p))) (getValue p c)
       (map snd (filter (\<lambda>i. fst i \<noteq> [] \<and> s_datas c (map c_tolower (fst i)) = Some p) xs))"
proof (induction xs arbitrary: c)
  case (Cons i xs)
  then show ?case by (simp add: load_one_frame load_one_value)
qed simp


end
