(* ===== verification/Civan_Http_Sizes.thy ===== *)
theory Civan_Http_Sizes
  imports Civan_Config
begin

section \<open>The configured sizes of the HTTP parsers: \<open>civan/http/http_parser.cc\<close>\<close>

text \<open>
  Four configuration variables of type \<open>uint64_t\<close>, the static copies of their values that the
  parsers read, and the static object that copies them and registers a listener for each. The
  configuration here is that of the variables of this type; the copies are a part of the
  program's state, which may have others.
\<close>

record http_sizes =
  s_http_request_buffer_size :: u64
  s_http_request_max_body_size :: u64
  s_http_response_buffer_size :: u64
  s_http_response_max_body_size :: u64

definition GetHttpRequestBufferSize :: "'s http_sizes_scheme \<Rightarrow> u64" where
  "GetHttpRequestBufferSize s = s_http_request_buffer_size s"

definition GetHttpRequestMaxBodySize :: "'s http_sizes_scheme \<Rightarrow> u64" where
  "GetHttpRequestMaxBodySize s = s_http_request_max_body_size s"

definition GetHttpResponseBufferSize :: "'s http_sizes_scheme \<Rightarrow> u64" where
  "GetHttpResponseBufferSize s = s_http_response_buffer_size s"

definition GetHttpResponseMaxBodySize :: "'s http_sizes_scheme \<Rightarrow> u64" where
  "GetHttpResponseMaxBodySize s = s_http_response_max_body_size s"

type_synonym 's size_config = "(u64, 's http_sizes_scheme) Config"

text \<open>The pointers to the four variables, in the order of their definitions.\<close>

type_synonym size_vars = "nat \<times> nat \<times> nat \<times> nat"

definition uint64_type :: "u8 list" where "uint64_type = lit ''m''"

definition http_size_vars :: "'s size_config \<Rightarrow> (size_vars \<times> 's size_config) res" where
  "http_size_vars c =
     rbind (Config_Lookup_default uint64_type (lit ''http.request.buffer_size'') (4 * 1024) (lit ''http request buffer size'') c) (\<lambda>(p1, c1).
     rbind (Config_Lookup_default uint64_type (lit ''http.request.max_body_size'') (64 * 1024 * 1024) (lit ''http request max body size'') c1) (\<lambda>(p2, c2).
     rbind (Config_Lookup_default uint64_type (lit ''http.response.buffer_size'') (4 * 1024) (lit ''http response buffer size'') c2) (\<lambda>(p3, c3).
     rbind (Config_Lookup_default uint64_type (lit ''http.response.max_body_size'') (64 * 1024 * 1024) (lit ''http response max body size'') c3) (\<lambda>(p4, c4).
     Inr ((p1, p2, p3, p4), c4)))))"

definition on_request_buffer_size :: "u64 \<Rightarrow> u64 \<Rightarrow> 's http_sizes_scheme \<Rightarrow> 's http_sizes_scheme" where
  "on_request_buffer_size ov nv s = s\<lparr>s_http_request_buffer_size := nv\<rparr>"

definition on_request_max_body_size :: "u64 \<Rightarrow> u64 \<Rightarrow> 's http_sizes_scheme \<Rightarrow> 's http_sizes_scheme" where
  "on_request_max_body_size ov nv s = s\<lparr>s_http_request_max_body_size := nv\<rparr>"

definition on_response_buffer_size :: "u64 \<Rightarrow> u64 \<Rightarrow> 's http_sizes_scheme \<Rightarrow> 's http_sizes_scheme" where
  "on_response_buffer_size ov nv s = s\<lparr>s_http_response_buffer_size := nv\<rparr>"

definition on_response_max_body_size :: "u64 \<Rightarrow> u64 \<Rightarrow> 's http_sizes_scheme \<Rightarrow> 's http_sizes_scheme" where
  "on_response_max_body_size ov nv s = s\<lparr>s_http_response_max_body_size := nv\<rparr>"

definition RequestSizeIniter :: "size_vars \<Rightarrow> 's size_config \<Rightarrow> 's size_config" where
  "RequestSizeIniter ps c = (case ps of (p1, p2, p3, p4) \<Rightarrow>
     (let c0 = c\<lparr>program := (program c)\<lparr>s_http_request_buffer_size := getValue p1 c, s_http_request_max_body_size := getValue p2 c,
            s_http_response_buffer_size := getValue p3 c, s_http_response_max_body_size := getValue p4 c\<rparr>\<rparr>;
          c1 = snd (addListener p1 on_request_buffer_size c0);
          c2 = snd (addListener p2 on_request_max_body_size c1);
          c3 = snd (addListener p3 on_response_buffer_size c2)
      in snd (addListener p4 on_response_max_body_size c3)))"

definition http_sizes_init :: "'s size_config \<Rightarrow> (size_vars \<times> 's size_config) res" where
  "http_sizes_init c = rbind (http_size_vars c) (\<lambda>(ps, c'). Inr (ps, RequestSizeIniter ps c'))"

subsection \<open>The copies follow the variables\<close>

text \<open>The copies that a program state has.\<close>

definition sizes_of :: "'s http_sizes_scheme \<Rightarrow> u64 \<times> u64 \<times> u64 \<times> u64" where
  "sizes_of s = (GetHttpRequestBufferSize s, GetHttpRequestMaxBodySize s, GetHttpResponseBufferSize s, GetHttpResponseMaxBodySize s)"

definition values_of :: "size_vars \<Rightarrow> 's size_config \<Rightarrow> u64 \<times> u64 \<times> u64 \<times> u64" where
  "values_of ps c = (case ps of (p1, p2, p3, p4) \<Rightarrow> (getValue p1 c, getValue p2 c, getValue p3 c, getValue p4 c))"

lemmas sizes_eval = sizes_of_def GetHttpRequestBufferSize_def GetHttpRequestMaxBodySize_def GetHttpResponseBufferSize_def
  GetHttpResponseMaxBodySize_def on_request_buffer_size_def on_request_max_body_size_def on_response_buffer_size_def
  on_response_max_body_size_def

text \<open>A variable whose listeners do not touch the copies.\<close>

definition leaves_sizes :: "(u64, 's http_sizes_scheme) ConfigVar \<Rightarrow> bool" where
  "leaves_sizes x \<longleftrightarrow> (\<forall>e\<in>set (m_cbs x). \<forall>old new s. sizes_of (snd e old new s) = sizes_of s)"

definition size_inv :: "size_vars \<Rightarrow> 's size_config \<Rightarrow> bool" where
  "size_inv ps c \<longleftrightarrow> (case ps of (p1, p2, p3, p4) \<Rightarrow> distinct [p1, p2, p3, p4] \<and>
     map snd (m_cbs (cf_vars c p1)) = [on_request_buffer_size] \<and> map snd (m_cbs (cf_vars c p2)) = [on_request_max_body_size] \<and>
     map snd (m_cbs (cf_vars c p3)) = [on_response_buffer_size] \<and> map snd (m_cbs (cf_vars c p4)) = [on_response_max_body_size] \<and>
     (\<forall>q. q \<notin> {p1, p2, p3, p4} \<longrightarrow> leaves_sizes (cf_vars c q)) \<and> sizes_of (program c) = values_of ps c)"

lemma size_invD: "size_inv ps c \<Longrightarrow> sizes_of (program c) = values_of ps c"
  by (cases ps) (simp add: size_inv_def)

lemma get_program [simp]: "getValue p (c\<lparr>program := s\<rparr>) = getValue p c"
  by (simp add: getValue_def)

lemma listeners_kept: "m_cbs (cf_vars (setValue p v c) q) = m_cbs (cf_vars c q)"
  by (simp add: setValue_def put_var_def Let_def)

lemma leaves_fold: "leaves_sizes x \<Longrightarrow> sizes_of (fold (\<lambda>cb. cb old new) (map snd (m_cbs x)) s) = sizes_of s"
proof -
  have "\<forall>e\<in>set cbs. \<forall>old new s. sizes_of (snd e old new s) = sizes_of s \<Longrightarrow> sizes_of (fold (\<lambda>cb. cb old new) (map snd cbs) s) = sizes_of s"
    for cbs :: "(u64 \<times> (u64 \<Rightarrow> u64 \<Rightarrow> 'a http_sizes_scheme \<Rightarrow> 'a http_sizes_scheme)) list"
    by (induction cbs arbitrary: s) auto
  then show "leaves_sizes x \<Longrightarrow> ?thesis" by (simp add: leaves_sizes_def)
qed

lemma setValue_sizes:
  assumes "size_inv ps c"
  shows "size_inv ps (setValue p v c)"
proof (cases "v = getValue p c")
  case True
  then show ?thesis using assms set_value(2) [of v p c] by simp
next
  case False
  obtain p1 p2 p3 p4 where ps: "ps = (p1, p2, p3, p4)" by (cases ps) auto
  have pr: "program (setValue p v c) = fold (\<lambda>cb. cb (getValue p c) v) (map snd (m_cbs (cf_vars c p))) (program c)"
    by (rule set_value(3) [OF False])
  have "sizes_of (program (setValue p v c)) = values_of ps (setValue p v c)"
  proof (cases "p \<in> {p1, p2, p3, p4}")
    case True
    then show ?thesis
      using assms unfolding pr by (elim insertE emptyE)
        (auto simp: size_inv_def ps values_of_def set_value(1) get_other sizes_eval)
  next
    case no: False
    then have "sizes_of (program (setValue p v c)) = sizes_of (program c)"
      unfolding pr using assms by (intro leaves_fold) (simp add: size_inv_def ps)
    moreover have "values_of ps (setValue p v c) = values_of ps c" using no by (simp add: values_of_def ps get_other)
    ultimately show ?thesis using assms by (simp add: size_inv_def ps)
  qed
  then show ?thesis using assms by (simp add: size_inv_def ps listeners_kept leaves_sizes_def)
qed

lemma load_sizes: "size_inv ps c \<Longrightarrow> size_inv ps (LoadFromYaml from_str emit root c)"
proof -
  have one: "size_inv ps c \<Longrightarrow> size_inv ps (load_one from_str emit i c)" for i c
    by (auto simp: load_one_def fromString_def setValue_sizes split: option.split)
  have "size_inv ps c \<Longrightarrow> size_inv ps (fold (load_one from_str emit) is c)" for "is"
    by (induction "is" arbitrary: c) (simp_all add: one)
  then show "size_inv ps c \<Longrightarrow> ?thesis" by (simp add: LoadFromYaml_def)
qed


subsection \<open>From the start of the program\<close>

lemma lookup_new:
  assumes "s_datas c name = None" "valid_name name"
  shows "Config_Lookup_default type name d desc c = Inr (cf_next c,
    c\<lparr>cf_vars := (cf_vars c)(cf_next c := new_ConfigVar type name d desc), cf_next := Suc (cf_next c), s_datas := (s_datas c)(name \<mapsto> cf_next c)\<rparr>)"
  using assms by (simp add: Config_Lookup_default_def Config_Lookup_def put_var_def Let_def)

lemma addListener_first:
  "m_cbs (cf_vars c p) = [] \<Longrightarrow> m_cbs (cf_vars (snd (addListener p cb c)) p) = [(cb_key c (cv_type (cf_vars c p)), cb)]"
  "q \<noteq> p \<Longrightarrow> cf_vars (snd (addListener p cb c)) q = cf_vars c q" "getValue q (snd (addListener p cb c)) = getValue q c"
  "program (snd (addListener p cb c)) = program c"
  by (simp_all add: addListener_def put_var_def Let_def map_set_def getValue_def)

definition size_names :: "u8 list list" where
  "size_names = [lit ''http.request.buffer_size'', lit ''http.request.max_body_size'', lit ''http.response.buffer_size'',
     lit ''http.response.max_body_size'']"

lemma size_names_ok: "list_all valid_name size_names" "distinct size_names"
  by (simp_all add: size_names_def valid_name_def lit_def)

lemma initer_sizes:
  assumes "distinct [p1, p2, p3, p4]" "\<forall>q. leaves_sizes (cf_vars c q)" "\<forall>q\<in>{p1, p2, p3, p4}. m_cbs (cf_vars c q) = []"
  shows "size_inv (p1, p2, p3, p4) (RequestSizeIniter (p1, p2, p3, p4) c)"
  using assms by (simp add: RequestSizeIniter_def Let_def size_inv_def addListener_first values_of_def sizes_eval)



definition empty_config :: "unit size_config" where
  "empty_config = \<lparr>cf_vars = \<lambda>_. new_ConfigVar uint64_type [] 0 [], cf_next = 0, s_datas = \<lambda>_. None, cb_key = \<lambda>_. 0,
     program = \<lparr>s_http_request_buffer_size = 0, s_http_request_max_body_size = 0, s_http_response_buffer_size = 0,
       s_http_response_max_body_size = 0\<rparr>\<rparr>"


end
