(* ===== verification/Civan_Thread.thy ===== *)
theory Civan_Thread
  imports Civan_Text
begin

section \<open>Locks and threads: \<open>civan/mutex.h\<close> and \<open>thread.cc\<close>\<close>

text \<open>
  The spin lock \<open>CASLock\<close> with its guard \<open>ScopedLockImpl\<close>, used by any number of threads
  that interleave at the atomic operations, and the start of a \<open>Thread\<close>, whose
  constructor waits on a semaphore until the new thread has filled in the object. Both are
  step relations; the theorems are mutual exclusion, and that a constructed thread is
  complete.
\<close>

subsection \<open>\<open>CASLock\<close> and \<open>ScopedLockImpl\<close>\<close>

text \<open>\<open>atomic_flag_test_and_set\<close> gives the old value and sets the flag.\<close>

definition test_and_set :: "bool \<Rightarrow> bool \<times> bool" where
  "test_and_set flag = (flag, True)"

text \<open>One turn of the loop of \<open>lock\<close>: whether the lock is taken, and the flag.\<close>

definition CASLock_lock_turn :: "bool \<Rightarrow> bool \<times> bool" where
  "CASLock_lock_turn flag = (let (old, flag') = test_and_set flag in (\<not> old, flag'))"

definition CASLock_unlock :: "bool \<Rightarrow> bool" where
  "CASLock_unlock flag = False"

text \<open>
  A guard of one thread: none, one that is spinning in \<open>m_mutex.lock()\<close> (from the constructor
  or from \<open>lock\<close>), or one whose \<open>m_locked\<close> is known.
\<close>

datatype guard =
    NoGuard
  | Spinning
  | Guard bool

record 't cas_sys =
  m_mutex :: bool
  guard_of :: "'t \<Rightarrow> guard"

definition set_guard :: "'t \<Rightarrow> guard \<Rightarrow> 't cas_sys \<Rightarrow> 't cas_sys" where
  "set_guard t g s = s\<lparr>guard_of := (guard_of s)(t := g)\<rparr>"

definition guard_spin :: "'t \<Rightarrow> 't cas_sys \<Rightarrow> 't cas_sys" where
  "guard_spin t s = (let (got, flag) = CASLock_lock_turn (m_mutex s) in
     set_guard t (if got then Guard True else Spinning) (s\<lparr>m_mutex := flag\<rparr>))"

text \<open>\<open>lock\<close> on a guard that is locked does nothing; \<open>unlock\<close> on one that is not does nothing.\<close>

definition guard_lock :: "'t \<Rightarrow> 't cas_sys \<Rightarrow> 't cas_sys" where
  "guard_lock t s = (case guard_of s t of Guard False \<Rightarrow> set_guard t Spinning s | _ \<Rightarrow> s)"

definition guard_unlock :: "'t \<Rightarrow> 't cas_sys \<Rightarrow> 't cas_sys" where
  "guard_unlock t s = (case guard_of s t of
     Guard True \<Rightarrow> set_guard t (Guard False) (s\<lparr>m_mutex := CASLock_unlock (m_mutex s)\<rparr>) | _ \<Rightarrow> s)"

inductive cas_step :: "'t cas_sys \<Rightarrow> 't cas_sys \<Rightarrow> bool" where
  construct: "guard_of s t = NoGuard \<Longrightarrow> cas_step s (set_guard t Spinning s)"
| spin: "guard_of s t = Spinning \<Longrightarrow> cas_step s (guard_spin t s)"
| relock: "guard_of s t = Guard b \<Longrightarrow> cas_step s (guard_lock t s)"
| release: "guard_of s t = Guard b \<Longrightarrow> cas_step s (guard_unlock t s)"
| destroy: "guard_of s t = Guard b \<Longrightarrow> cas_step s (set_guard t NoGuard (guard_unlock t s))"

definition new_cas_sys :: "'t cas_sys" where
  "new_cas_sys = \<lparr>m_mutex = False, guard_of = \<lambda>_. NoGuard\<rparr>"

definition cas_inv :: "'t cas_sys \<Rightarrow> bool" where
  "cas_inv s \<longleftrightarrow> (m_mutex s \<longleftrightarrow> (\<exists>t. guard_of s t = Guard True)) \<and>
     (\<forall>t u. guard_of s t = Guard True \<longrightarrow> guard_of s u = Guard True \<longrightarrow> t = u)"

text \<open>Changing the guard of one thread: one that does not hold the lock may take it when it is free, or stay without it.\<close>

lemma cas_inv_keep:
  "cas_inv s \<Longrightarrow> guard_of s t \<noteq> Guard True \<Longrightarrow> g \<noteq> Guard True \<Longrightarrow> cas_inv (set_guard t g s)"
  unfolding cas_inv_def set_guard_def by (simp, metis)

lemma cas_inv_take:
  "cas_inv s \<Longrightarrow> \<not> m_mutex s \<Longrightarrow> cas_inv (set_guard t (Guard True) (s\<lparr>m_mutex := True\<rparr>))"
  by (auto simp: cas_inv_def set_guard_def)

lemma cas_inv_release:
  "cas_inv s \<Longrightarrow> guard_of s t = Guard True \<Longrightarrow> g \<noteq> Guard True \<Longrightarrow> cas_inv (set_guard t g (s\<lparr>m_mutex := False\<rparr>))"
  by (auto simp: cas_inv_def set_guard_def)

lemma set_guard_twice: "set_guard t g (set_guard t g' s) = set_guard t g s"
  by (simp add: set_guard_def)

lemma cas_step_inv: "cas_step s s' \<Longrightarrow> cas_inv s \<Longrightarrow> cas_inv s'"
proof (induction rule: cas_step.induct)
  case (construct s t)
  then show ?case by (simp add: cas_inv_keep)
next
  case (spin s t)
  then have "set_guard t Spinning (s\<lparr>m_mutex := True\<rparr>) = s" if "m_mutex s" using that by (simp add: set_guard_def fun_upd_idem)
  with spin show ?case by (cases "m_mutex s")
    (simp_all add: guard_spin_def CASLock_lock_turn_def test_and_set_def cas_inv_take)
next
  case (relock s t b)
  then show ?case by (cases b) (simp_all add: guard_lock_def cas_inv_keep)
next
  case (release s t b)
  then show ?case by (cases b) (simp_all add: guard_unlock_def CASLock_unlock_def cas_inv_release)
next
  case (destroy s t b)
  then show ?case
    by (cases b) (simp_all add: guard_unlock_def CASLock_unlock_def cas_inv_release cas_inv_keep set_guard_twice)
qed

lemma cas_reachable: "cas_step\<^sup>*\<^sup>* new_cas_sys s \<Longrightarrow> cas_inv s"
proof (induction rule: rtranclp_induct)
  case base
  then show ?case by (simp add: cas_inv_def new_cas_sys_def)
qed (rule cas_step_inv)

text \<open>
  Property C17. Mutual exclusion of the spin lock: however the guards of any number of threads
  lock, unlock and are destroyed, at most one guard holds the lock, and the flag is set just
  when one does. A thread that spins gets the lock at its next turn when no guard holds it, and
  releasing the lock frees it.
\<close>

theorem caslock_mutual_exclusion:
  assumes "cas_step\<^sup>*\<^sup>* new_cas_sys s"
  shows "(\<forall>t u. guard_of s t = Guard True \<and> guard_of s u = Guard True \<longrightarrow> t = u)
    \<and> (m_mutex s \<longleftrightarrow> (\<exists>t. guard_of s t = Guard True))
    \<and> (\<forall>t. guard_of s t = Spinning \<and> (\<forall>u. guard_of s u \<noteq> Guard True) \<longrightarrow> guard_of (guard_spin t s) t = Guard True)
    \<and> (\<forall>t. guard_of s t = Guard True \<longrightarrow> \<not> m_mutex (guard_unlock t s))"
proof -
  have inv: "cas_inv s" by (rule cas_reachable [OF assms])
  then have one: "\<forall>t u. guard_of s t = Guard True \<and> guard_of s u = Guard True \<longrightarrow> t = u"
    and flag: "m_mutex s \<longleftrightarrow> (\<exists>t. guard_of s t = Guard True)" by (auto simp: cas_inv_def)
  moreover from flag have "\<forall>t. guard_of s t = Spinning \<and> (\<forall>u. guard_of s u \<noteq> Guard True) \<longrightarrow> guard_of (guard_spin t s) t = Guard True"
    by (auto simp: guard_spin_def CASLock_lock_turn_def test_and_set_def set_guard_def)
  moreover have "\<forall>t. guard_of s t = Guard True \<longrightarrow> \<not> m_mutex (guard_unlock t s)"
    by (auto simp: guard_unlock_def set_guard_def CASLock_unlock_def)
  ultimately show ?thesis by blast
qed

theorem caslock_mutual_exclusion_witness:
  "guard_of (guard_spin 1 (set_guard 1 Spinning new_cas_sys)) (1 :: nat) = Guard True
   \<and> m_mutex (guard_spin 1 (set_guard 1 Spinning new_cas_sys :: nat cas_sys))
   \<and> \<not> m_mutex (guard_unlock 1 (guard_spin 1 (set_guard 1 Spinning new_cas_sys :: nat cas_sys)))"
proof -
  let ?s1 = "set_guard 1 Spinning new_cas_sys :: nat cas_sys"
  have "cas_step new_cas_sys ?s1" by (rule cas_step.construct) (simp add: new_cas_sys_def)
  moreover have "cas_step ?s1 (guard_spin 1 ?s1)" by (rule cas_step.spin) (simp add: set_guard_def)
  ultimately have "cas_step\<^sup>*\<^sup>* new_cas_sys (guard_spin 1 ?s1)" by (meson r_into_rtranclp rtranclp.rtrancl_into_rtrancl)
  from caslock_mutual_exclusion [OF this] have "m_mutex (guard_spin 1 ?s1) \<longleftrightarrow> (\<exists>t. guard_of (guard_spin 1 ?s1) t = Guard True)"
    "guard_of (guard_spin 1 ?s1) 1 = Guard True \<longrightarrow> \<not> m_mutex (guard_unlock 1 (guard_spin 1 ?s1))" by simp_all
  moreover have "guard_of (guard_spin 1 ?s1) 1 = Guard True" by code_simp
  ultimately show ?thesis by blast
qed

subsection \<open>Starting a thread\<close>

text \<open>
  The thread object, with -1 and 0 for the members that are not yet set, and the semaphore's
  count; where the constructor is (before \<open>pthread_create\<close>, in \<open>m_semaphore.wait()\<close>,
  returned), and where the new thread is in \<open>run\<close>.
\<close>

datatype creator_pc =
    Creating
  | Waiting
  | Returned

datatype run_pc =
    NotStarted
  | Entered
  | ThisSet
  | NameSet
  | IdSet
  | CbTaken
  | Notified
  | CbDone

record 'cb thread_sys =
  m_id :: int
  thr_name :: "u8 list"
  m_cb :: "'cb option"
  sem_count :: nat
  t_thread_set :: bool
  t_thread_name :: "u8 list"
  run_cb :: "'cb option"
  calls :: "'cb list"
  creator :: creator_pc
  runner :: run_pc

definition new_Thread :: "'cb \<Rightarrow> u8 list \<Rightarrow> 'cb thread_sys" where
  "new_Thread cb name = \<lparr>m_id = -1, thr_name = (if name = [] then lit ''UNKNOW'' else name), m_cb = Some cb, sem_count = 0,
     t_thread_set = False, t_thread_name = lit ''UNKNOW'', run_cb = None, calls = [], creator = Creating, runner = NotStarted\<rparr>"

text \<open>The statements of the constructor and of \<open>run\<close>, one step each; \<open>tid\<close> is the identifier the system gave the thread.\<close>

inductive thread_step :: "int \<Rightarrow> 'cb thread_sys \<Rightarrow> 'cb thread_sys \<Rightarrow> bool" for tid where
  create: "creator s = Creating \<Longrightarrow> thread_step tid s (s\<lparr>creator := Waiting, runner := Entered\<rparr>)"
| wait: "creator s = Waiting \<Longrightarrow> 0 < sem_count s \<Longrightarrow> thread_step tid s (s\<lparr>creator := Returned, sem_count := sem_count s - 1\<rparr>)"
| this: "runner s = Entered \<Longrightarrow> thread_step tid s (s\<lparr>t_thread_set := True, runner := ThisSet\<rparr>)"
| name: "runner s = ThisSet \<Longrightarrow> thread_step tid s (s\<lparr>t_thread_name := thr_name s, runner := NameSet\<rparr>)"
| id: "runner s = NameSet \<Longrightarrow> thread_step tid s (s\<lparr>m_id := tid, runner := IdSet\<rparr>)"
| swap: "runner s = IdSet \<Longrightarrow> thread_step tid s (s\<lparr>run_cb := m_cb s, m_cb := None, runner := CbTaken\<rparr>)"
| notify: "runner s = CbTaken \<Longrightarrow> thread_step tid s (s\<lparr>sem_count := sem_count s + 1, runner := Notified\<rparr>)"
| call: "runner s = Notified \<Longrightarrow> run_cb s = Some cb \<Longrightarrow> thread_step tid s (s\<lparr>calls := calls s @ [cb], runner := CbDone\<rparr>)"

definition thread_inv :: "int \<Rightarrow> 'cb \<Rightarrow> u8 list \<Rightarrow> 'cb thread_sys \<Rightarrow> bool" where
  "thread_inv tid cb name s \<longleftrightarrow> thr_name s = (if name = [] then lit ''UNKNOW'' else name) \<and>
     (creator s = Creating \<longleftrightarrow> runner s = NotStarted) \<and>
     (runner s \<in> {NameSet, IdSet, CbTaken, Notified, CbDone} \<longrightarrow> t_thread_name s = thr_name s \<and> t_thread_set s) \<and>
     (runner s = ThisSet \<longrightarrow> t_thread_set s) \<and>
     (runner s \<in> {IdSet, CbTaken, Notified, CbDone} \<longrightarrow> m_id s = tid) \<and>
     (if runner s \<in> {CbTaken, Notified, CbDone} then run_cb s = Some cb \<and> m_cb s = None else m_cb s = Some cb) \<and>
     calls s = (if runner s = CbDone then [cb] else []) \<and>
     sem_count s + (if creator s = Returned then 1 else 0) = (if runner s \<in> {Notified, CbDone} then 1 else 0)"

lemma thread_step_inv: "thread_step tid s s' \<Longrightarrow> thread_inv tid cb name s \<Longrightarrow> thread_inv tid cb name s'"
proof (induction rule: thread_step.induct)
  case (wait s)
  then show ?case by (cases "runner s") (simp_all add: thread_inv_def)
qed (simp_all add: thread_inv_def split: if_splits)

lemma thread_reachable: "(thread_step tid)\<^sup>*\<^sup>* (new_Thread cb name) s \<Longrightarrow> thread_inv tid cb name s"
proof (induction rule: rtranclp_induct)
  case base
  then show ?case by (simp add: thread_inv_def new_Thread_def)
qed (rule thread_step_inv)

text \<open>Every step is one of ten that happen once each.\<close>

definition steps_left :: "'cb thread_sys \<Rightarrow> nat" where
  "steps_left s = (case creator s of Creating \<Rightarrow> 2 | Waiting \<Rightarrow> 1 | Returned \<Rightarrow> 0) +
     (case runner s of NotStarted \<Rightarrow> 7 | Entered \<Rightarrow> 6 | ThisSet \<Rightarrow> 5 | NameSet \<Rightarrow> 4 | IdSet \<Rightarrow> 3 | CbTaken \<Rightarrow> 2 | Notified \<Rightarrow> 1 | CbDone \<Rightarrow> 0)"

lemma thread_progress:
  assumes "thread_inv tid cb name s" "\<not> (creator s = Returned \<and> runner s = CbDone)"
  shows "\<exists>s'. thread_step tid s s' \<and> steps_left s' < steps_left s"
proof (cases "runner s")
  case NotStarted
  then show ?thesis
    using assms(1) thread_step.create [of s tid] by (auto simp: thread_inv_def steps_left_def intro!: exI)
next
  case Notified
  then show ?thesis
    using assms(1) thread_step.call [of s cb tid] by (auto simp: thread_inv_def steps_left_def intro!: exI)
next
  case CbDone
  then have "creator s = Waiting" "0 < sem_count s" using assms by (cases "creator s"; auto simp: thread_inv_def)+
  then show ?thesis using thread_step.wait [of s tid] CbDone by (auto simp: steps_left_def intro!: exI)
next
  case Entered
  then show ?thesis using thread_step.this [of s tid] by (auto simp: steps_left_def intro!: exI)
next
  case ThisSet
  then show ?thesis using thread_step.name [of s tid] by (auto simp: steps_left_def intro!: exI)
next
  case NameSet
  then show ?thesis using thread_step.id [of s tid] by (auto simp: steps_left_def intro!: exI)
next
  case IdSet
  then show ?thesis using thread_step.swap [of s tid] by (auto simp: steps_left_def intro!: exI)
next
  case CbTaken
  then show ?thesis using thread_step.notify [of s tid] by (auto simp: steps_left_def intro!: exI)
qed

lemma thread_finishes:
  "thread_inv tid cb name s \<Longrightarrow> \<exists>s'. (thread_step tid)\<^sup>*\<^sup>* s s' \<and> creator s' = Returned \<and> runner s' = CbDone"
proof (induction "steps_left s" arbitrary: s rule: less_induct)
  case less
  show ?case
  proof (cases "creator s = Returned \<and> runner s = CbDone")
    case False
    with thread_progress [OF less.prems] obtain s1 where s1: "thread_step tid s s1" "steps_left s1 < steps_left s" by blast
    from less.hyps [OF s1(2) thread_step_inv [OF s1(1) less.prems]] s1(1) show ?thesis
      by (meson converse_rtranclp_into_rtranclp)
  qed blast
qed

text \<open>
  Property C19. When the constructor of a thread has returned, the new thread has set its
  identifier, its thread-local pointer and name, and has taken the callback out of the object;
  the callback is called at most once. The two threads cannot block each other: from every
  reachable state there is a continuation in which the constructor returns and the callback
  has been called.
\<close>

theorem thread_start_complete:
  assumes "(thread_step tid)\<^sup>*\<^sup>* (new_Thread cb name) s"
  shows "(creator s = Returned \<longrightarrow> m_id s = tid \<and> t_thread_set s \<and> t_thread_name s = (if name = [] then lit ''UNKNOW'' else name)
      \<and> m_cb s = None \<and> run_cb s = Some cb)
    \<and> (calls s = [] \<or> calls s = [cb])
    \<and> (\<exists>s'. (thread_step tid)\<^sup>*\<^sup>* s s' \<and> creator s' = Returned \<and> calls s' = [cb])"
proof -
  have inv: "thread_inv tid cb name s" by (rule thread_reachable [OF assms])
  from thread_finishes [OF this] obtain s' where s': "(thread_step tid)\<^sup>*\<^sup>* s s'" "creator s' = Returned" "runner s' = CbDone" by blast
  have "thread_inv tid cb name s'" using thread_reachable [OF rtranclp_trans [OF assms s'(1)]] .
  with s' have "calls s' = [cb]" by (simp add: thread_inv_def)
  with s' show ?thesis using inv by (cases "runner s") (auto simp: thread_inv_def)
qed

theorem thread_start_complete_witness:
  "\<exists>s'. (thread_step 42)\<^sup>*\<^sup>* (new_Thread (1 :: nat) (lit ''log'')) s' \<and> creator s' = Returned \<and> calls s' = [1]"
  using thread_start_complete [of 42 "1 :: nat" "lit ''log''", OF rtranclp.rtrancl_refl] by blast

end
