(* ===== verification/Civan_Sync.thy ===== *)
theory Civan_Sync
  imports Civan_Thread Civan_Prelude "HOL-Library.Signed_Division"
begin

section \<open>Guards over the locks of pthread, semaphores and conditions: \<open>civan/mutex.h\<close>\<close>

text \<open>
  The guard templates over the blocking locks. A lock is given by its state and by what a call
  of \<open>lock\<close> does to it: \<open>None\<close> is a call that has not returned. \<open>ScopedLockImpl\<close> is modelled for
  every such lock and its exclusion proved once, in a locale that \<open>Mutex\<close>, \<open>SpinLock\<close> and \<open>CASLock\<close>
  interpret; the two guards of \<open>RWMutex\<close> have their own system. The waits of \<open>Semaphore\<close> and
  \<open>Condition\<close> are loops over what the system calls return.
\<close>

subsection \<open>\<open>ScopedLockImpl<T>\<close>\<close>

text \<open>Each thread has at most one guard on the lock. \<open>Spinning\<close> is a guard inside \<open>m_mutex.lock()\<close>.\<close>

record ('l, 't) scoped_sys =
  sc_lock :: 'l
  sc_guard :: "'t \<Rightarrow> guard"

definition sc_set :: "'t \<Rightarrow> guard \<Rightarrow> ('l, 't) scoped_sys \<Rightarrow> ('l, 't) scoped_sys" where
  "sc_set t g s = s\<lparr>sc_guard := (sc_guard s)(t := g)\<rparr>"

definition ScopedLock_unlock :: "('l \<Rightarrow> 'l) \<Rightarrow> 't \<Rightarrow> ('l, 't) scoped_sys \<Rightarrow> ('l, 't) scoped_sys" where
  "ScopedLock_unlock unlock t s = (case sc_guard s t of
     Guard True \<Rightarrow> sc_set t (Guard False) (s\<lparr>sc_lock := unlock (sc_lock s)\<rparr>) | _ \<Rightarrow> s)"

inductive scoped_step :: "('l \<Rightarrow> 'l option) \<Rightarrow> ('l \<Rightarrow> 'l) \<Rightarrow> ('l, 't) scoped_sys \<Rightarrow> ('l, 't) scoped_sys \<Rightarrow> bool"
  for lock unlock where
  construct: "sc_guard s t = NoGuard \<Longrightarrow> scoped_step lock unlock s (sc_set t Spinning s)"
| acquire: "sc_guard s t = Spinning \<Longrightarrow> lock (sc_lock s) = Some l \<Longrightarrow>
    scoped_step lock unlock s (sc_set t (Guard True) (s\<lparr>sc_lock := l\<rparr>))"
| relock: "sc_guard s t = Guard False \<Longrightarrow> scoped_step lock unlock s (sc_set t Spinning s)"
| release: "sc_guard s t = Guard b \<Longrightarrow> scoped_step lock unlock s (ScopedLock_unlock unlock t s)"
| destroy: "sc_guard s t = Guard b \<Longrightarrow> scoped_step lock unlock s (sc_set t NoGuard (ScopedLock_unlock unlock t s))"

definition new_scoped :: "'l \<Rightarrow> ('l, 't) scoped_sys" where
  "new_scoped l = \<lparr>sc_lock = l, sc_guard = \<lambda>_. NoGuard\<rparr>"

text \<open>What a lock promises: its \<open>lock\<close> returns just when it is free and takes it, and \<open>unlock\<close> frees it.\<close>

locale exclusive_lock =
  fixes init :: 'l
    and lock :: "'l \<Rightarrow> 'l option"
    and unlock :: "'l \<Rightarrow> 'l"
  assumes init_free: "lock init \<noteq> None"
    and lock_takes: "lock l = Some l' \<Longrightarrow> lock l' = None"
    and unlock_frees: "lock l = None \<Longrightarrow> lock (unlock l) \<noteq> None"
begin

definition held :: "('l, 't) scoped_sys \<Rightarrow> 't \<Rightarrow> bool" where
  "held s t \<longleftrightarrow> sc_guard s t = Guard True"

definition guarded :: "('l, 't) scoped_sys \<Rightarrow> bool" where
  "guarded s \<longleftrightarrow> (lock (sc_lock s) = None \<longleftrightarrow> (\<exists>t. held s t)) \<and> (\<forall>t u. held s t \<longrightarrow> held s u \<longrightarrow> t = u)"

lemma inv_other:
  "guarded s \<Longrightarrow> \<not> held s t \<Longrightarrow> g \<noteq> Guard True \<Longrightarrow> guarded (sc_set t g s)"
  unfolding guarded_def held_def sc_set_def by (simp, metis)

lemma inv_unlock: "guarded s \<Longrightarrow> guarded (ScopedLock_unlock unlock t s) \<and> \<not> held (ScopedLock_unlock unlock t s) t"
proof (cases "held s t")
  case True
  assume i: "guarded s"
  have "lock (unlock (sc_lock s)) \<noteq> None" using i True unlock_frees by (auto simp: guarded_def)
  then show ?thesis using i True by (auto simp: guarded_def held_def ScopedLock_unlock_def sc_set_def)
next
  case False
  then have "ScopedLock_unlock unlock t s = s" by (auto simp: ScopedLock_unlock_def held_def split: guard.split bool.split)
  then show "guarded s \<Longrightarrow> ?thesis" using False by simp
qed

lemma step_inv: "scoped_step lock unlock s s' \<Longrightarrow> guarded s \<Longrightarrow> guarded s'"
proof (induction rule: scoped_step.induct)
  case (acquire s t l)
  then have "\<not> (\<exists>u. held s u)" by (simp add: guarded_def)
  then show ?case using lock_takes [OF acquire(2)] by (auto simp: guarded_def held_def sc_set_def)
qed (auto simp: held_def intro!: inv_other dest: inv_unlock)

lemma exclusion:
  assumes "(scoped_step lock unlock)\<^sup>*\<^sup>* (new_scoped init) s"
  shows "held s t \<Longrightarrow> held s u \<Longrightarrow> t = u" "lock (sc_lock s) = None \<longleftrightarrow> (\<exists>t. held s t)"
proof -
  have "guarded s" using assms
  proof (induction rule: rtranclp_induct)
    case base
    then show ?case using init_free by (simp add: guarded_def held_def new_scoped_def)
  qed (rule step_inv)
  then show "held s t \<Longrightarrow> held s u \<Longrightarrow> t = u" "lock (sc_lock s) = None \<longleftrightarrow> (\<exists>t. held s t)" by (auto simp: guarded_def)
qed

end

subsection \<open>The locks\<close>

text \<open>\<open>pthread_mutex_t\<close> and \<open>pthread_spinlock_t\<close>: whether they are locked.\<close>

definition Mutex_init :: bool where "Mutex_init = False"
definition Mutex_lock :: "bool \<Rightarrow> bool option" where "Mutex_lock m = (if m then None else Some True)"
definition Mutex_unlock :: "bool \<Rightarrow> bool" where "Mutex_unlock m = False"

definition SpinLock_init :: bool where "SpinLock_init = False"
definition SpinLock_lock :: "bool \<Rightarrow> bool option" where "SpinLock_lock m = (if m then None else Some True)"
definition SpinLock_unlock :: "bool \<Rightarrow> bool" where "SpinLock_unlock m = False"

definition CASLock_lock :: "bool \<Rightarrow> bool option" where
  "CASLock_lock flag = (case CASLock_lock_turn flag of (got, flag') \<Rightarrow> if got then Some flag' else None)"

interpretation mutex: exclusive_lock Mutex_init Mutex_lock Mutex_unlock
  by unfold_locales (auto simp: Mutex_init_def Mutex_lock_def Mutex_unlock_def split: if_splits)

interpretation spinlock: exclusive_lock SpinLock_init SpinLock_lock SpinLock_unlock
  by unfold_locales (auto simp: SpinLock_init_def SpinLock_lock_def SpinLock_unlock_def split: if_splits)

interpretation caslock: exclusive_lock False CASLock_lock CASLock_unlock
  by unfold_locales (auto simp: CASLock_lock_def CASLock_lock_turn_def test_and_set_def CASLock_unlock_def split: if_splits)

lemma mutex_exclusion:
  assumes "(scoped_step Mutex_lock Mutex_unlock)\<^sup>*\<^sup>* (new_scoped Mutex_init) s"
  shows "sc_guard s t = Guard True \<Longrightarrow> sc_guard s u = Guard True \<Longrightarrow> t = u" "sc_lock s \<longleftrightarrow> (\<exists>t. sc_guard s t = Guard True)"
  using mutex.exclusion [OF assms] by (auto simp: mutex.held_def Mutex_lock_def split: if_splits)


subsection \<open>\<open>RWMutex\<close> with \<open>ReadScopedLockImpl\<close> and \<open>WriteScopedLockImpl\<close>\<close>

text \<open>
  \<open>pthread_rwlock_t\<close>: the number of readers, and whether a writer holds it. \<open>pthread_rwlock_unlock\<close> gives
  back the lock that the caller holds. That waiting writers may go first only takes steps away.
\<close>

record rwlock =
  rw_readers :: nat
  rw_writer :: bool

definition RWMutex_init :: rwlock where
  "RWMutex_init = \<lparr>rw_readers = 0, rw_writer = False\<rparr>"

definition RWMutex_rdlock :: "rwlock \<Rightarrow> rwlock option" where
  "RWMutex_rdlock l = (if rw_writer l then None else Some (l\<lparr>rw_readers := Suc (rw_readers l)\<rparr>))"

definition RWMutex_wrlock :: "rwlock \<Rightarrow> rwlock option" where
  "RWMutex_wrlock l = (if rw_writer l \<or> 0 < rw_readers l then None else Some (l\<lparr>rw_writer := True\<rparr>))"

definition RWMutex_unlock :: "rwlock \<Rightarrow> rwlock" where
  "RWMutex_unlock l = (if rw_writer l then l\<lparr>rw_writer := False\<rparr> else l\<lparr>rw_readers := rw_readers l - 1\<rparr>)"

datatype rw_mode = Reading | Writing

definition rw_lock :: "rw_mode \<Rightarrow> rwlock \<Rightarrow> rwlock option" where
  "rw_lock m = (case m of Reading \<Rightarrow> RWMutex_rdlock | Writing \<Rightarrow> RWMutex_wrlock)"

record 't rw_sys =
  rw_lock_of :: rwlock
  rw_guard :: "'t \<Rightarrow> rw_mode \<times> guard"

definition rw_set :: "'t \<Rightarrow> rw_mode \<Rightarrow> guard \<Rightarrow> 't rw_sys \<Rightarrow> 't rw_sys" where
  "rw_set t m g s = s\<lparr>rw_guard := (rw_guard s)(t := (m, g))\<rparr>"

text \<open>\<open>unlock\<close> of both templates.\<close>

definition rw_guard_unlock :: "'t \<Rightarrow> 't rw_sys \<Rightarrow> 't rw_sys" where
  "rw_guard_unlock t s = (case rw_guard s t of
     (m, Guard True) \<Rightarrow> rw_set t m (Guard False) (s\<lparr>rw_lock_of := RWMutex_unlock (rw_lock_of s)\<rparr>) | _ \<Rightarrow> s)"

inductive rw_step :: "'t rw_sys \<Rightarrow> 't rw_sys \<Rightarrow> bool" where
  construct: "rw_guard s t = (m, NoGuard) \<Longrightarrow> rw_step s (rw_set t m' Spinning s)"
| acquire: "rw_guard s t = (m, Spinning) \<Longrightarrow> rw_lock m (rw_lock_of s) = Some l \<Longrightarrow>
    rw_step s (rw_set t m (Guard True) (s\<lparr>rw_lock_of := l\<rparr>))"
| relock: "rw_guard s t = (m, Guard False) \<Longrightarrow> rw_step s (rw_set t m Spinning s)"
| release: "rw_guard s t = (m, Guard b) \<Longrightarrow> rw_step s (rw_guard_unlock t s)"
| destroy: "rw_guard s t = (m, Guard b) \<Longrightarrow> rw_step s (rw_set t m NoGuard (rw_guard_unlock t s))"

definition new_rw_sys :: "'t rw_sys" where
  "new_rw_sys = \<lparr>rw_lock_of = RWMutex_init, rw_guard = \<lambda>_. (Reading, NoGuard)\<rparr>"

definition rw_holders :: "rw_mode \<Rightarrow> 't rw_sys \<Rightarrow> 't set" where
  "rw_holders m s = {t. rw_guard s t = (m, Guard True)}"

definition rw_inv :: "'t rw_sys \<Rightarrow> bool" where
  "rw_inv s \<longleftrightarrow> finite (rw_holders Reading s) \<and> card (rw_holders Reading s) = rw_readers (rw_lock_of s) \<and>
     (if rw_writer (rw_lock_of s) then rw_readers (rw_lock_of s) = 0 \<and> (\<exists>t. rw_holders Writing s = {t}) else rw_holders Writing s = {})"

lemma rw_holders_set:
  "rw_holders m (rw_set t m' g s) = (if m = m' \<and> g = Guard True then insert t (rw_holders m s) else rw_holders m s - {t})"
  by (auto simp: rw_holders_def rw_set_def)

lemma rw_holders_lock [simp]: "rw_holders m (s\<lparr>rw_lock_of := l\<rparr>) = rw_holders m s"
  by (simp add: rw_holders_def)

lemma rw_set_lock [simp]: "rw_lock_of (rw_set t m g s) = rw_lock_of s"
  by (simp add: rw_set_def)

lemma rw_guard_set [simp]: "rw_guard (rw_set t m g s) t = (m, g)"
  by (simp add: rw_set_def)

lemma rw_inv_other: "rw_inv s \<Longrightarrow> snd (rw_guard s t) \<noteq> Guard True \<Longrightarrow> g \<noteq> Guard True \<Longrightarrow> rw_inv (rw_set t m g s)"
proof -
  assume "snd (rw_guard s t) \<noteq> Guard True"
  then have "t \<notin> rw_holders m s" for m by (auto simp: rw_holders_def)
  then show "rw_inv s \<Longrightarrow> g \<noteq> Guard True \<Longrightarrow> rw_inv (rw_set t m g s)" by (simp add: rw_inv_def rw_holders_set)
qed

lemma rw_inv_acquire:
  assumes "rw_inv s" "rw_guard s t = (m, Spinning)" "rw_lock m (rw_lock_of s) = Some l"
  shows "rw_inv (rw_set t m (Guard True) (s\<lparr>rw_lock_of := l\<rparr>))"
proof (cases m)
  case Reading
  moreover have "t \<notin> rw_holders m s" for m using assms(2) by (simp add: rw_holders_def)
  ultimately show ?thesis
    using assms(1,3) by (auto simp: rw_inv_def rw_lock_def RWMutex_rdlock_def rw_holders_set split: if_splits)
next
  case Writing
  moreover have "t \<notin> rw_holders m s" for m using assms(2) by (simp add: rw_holders_def)
  ultimately show ?thesis
    using assms(1,3) by (auto simp: rw_inv_def rw_lock_def RWMutex_wrlock_def rw_holders_set split: if_splits)
qed

lemma rw_inv_unlock:
  assumes "rw_inv s"
  shows "rw_inv (rw_guard_unlock t s) \<and> snd (rw_guard (rw_guard_unlock t s) t) \<noteq> Guard True"
proof (cases "snd (rw_guard s t) = Guard True")
  case True
  then obtain m where g: "rw_guard s t = (m, Guard True)" by (metis prod.collapse)
  then have t: "t \<in> rw_holders m s" "\<And>m'. m' \<noteq> m \<Longrightarrow> t \<notin> rw_holders m' s" by (auto simp: rw_holders_def)
  have u: "rw_guard_unlock t s = rw_set t m (Guard False) (s\<lparr>rw_lock_of := RWMutex_unlock (rw_lock_of s)\<rparr>)" by (simp add: rw_guard_unlock_def g)
  have "rw_writer (rw_lock_of s) \<longleftrightarrow> m = Writing"
    using assms t(1) by (cases m) (auto simp: rw_inv_def split: if_splits)
  then show ?thesis
    using assms t by (cases m) (auto simp: u rw_inv_def rw_holders_set RWMutex_unlock_def split: if_splits)
next
  case False
  then have "rw_guard_unlock t s = s" by (auto simp: rw_guard_unlock_def split: prod.split guard.split bool.split)
  then show ?thesis using assms False by simp
qed

lemma rw_step_inv: "rw_step s s' \<Longrightarrow> rw_inv s \<Longrightarrow> rw_inv s'"
  by (induction rule: rw_step.induct) (auto intro!: rw_inv_other rw_inv_acquire dest: rw_inv_unlock)

lemma rw_reachable: "rw_step\<^sup>*\<^sup>* new_rw_sys s \<Longrightarrow> rw_inv s"
proof (induction rule: rtranclp_induct)
  case base
  then show ?case by (simp add: rw_inv_def new_rw_sys_def rw_holders_def RWMutex_init_def)
qed (rule rw_step_inv)


definition one_reader :: "nat rw_sys" where
  "one_reader = rw_set 1 Reading (Guard True) (rw_set 1 Reading Spinning new_rw_sys\<lparr>rw_lock_of := \<lparr>rw_readers = 1, rw_writer = False\<rparr>\<rparr>)"


subsection \<open>\<open>Semaphore\<close> and \<open>Condition\<close>\<close>

text \<open>
  The results of the system calls in the order they come, each with the value of \<open>errno\<close> behind
  it. \<open>None\<close>: the wait has not returned.
\<close>

definition EINTR :: int where "EINTR = 4"
definition ETIMEDOUT_v :: int where "ETIMEDOUT_v = 110"

fun wait_loop :: "(int \<times> int) list \<Rightarrow> unit res option" where
  "wait_loop [] = None"
| "wait_loop ((rt, err) # rs) =
     (if rt = 0 then Some (Inr ()) else if err \<noteq> EINTR then Some (Inl LogicError) else wait_loop rs)"

definition Semaphore_wait :: "(int \<times> int) list \<Rightarrow> unit res option" where
  "Semaphore_wait = wait_loop"

definition Semaphore_notify :: "int \<Rightarrow> unit res" where
  "Semaphore_notify rt = (if rt \<noteq> 0 then Inl LogicError else Inr ())"

definition Condition_wait :: "(int \<times> int) list \<Rightarrow> unit res option" where
  "Condition_wait = wait_loop"

definition Condition_notify :: "int \<Rightarrow> unit res" where
  "Condition_notify rt = (if rt \<noteq> 0 then Inl LogicError else Inr ())"

text \<open>
  The point in time of \<open>waitForSeconds\<close>, from the time now and the nanoseconds to wait, with the
  division of C. The result tells a time-out; every other result of the call counts as a wake-up.
\<close>

definition wait_until :: "int \<times> int \<Rightarrow> int \<Rightarrow> int \<times> int" where
  "wait_until now nanoseconds = (let (sec, nsec) = now; n = nsec + nanoseconds in (sec + n sdiv 1000000000, n smod 1000000000))"

definition waitForSeconds :: "(int \<times> int \<Rightarrow> int) \<Rightarrow> int \<times> int \<Rightarrow> int \<Rightarrow> bool" where
  "waitForSeconds timedwait now nanoseconds \<longleftrightarrow> timedwait (wait_until now nanoseconds) = ETIMEDOUT_v"

text \<open>Interrupted calls are repeated: the wait ends with the first call that was not interrupted.\<close>

lemma wait_loop_interrupts:
  "\<forall>r\<in>set rs. fst r \<noteq> 0 \<and> snd r = EINTR \<Longrightarrow> wait_loop (rs @ (rt, err) # more') =
     (if rt = 0 then Some (Inr ()) else if err \<noteq> EINTR then Some (Inl LogicError) else wait_loop more')"
  by (induction rs) auto

lemma wait_loop_blocked: "wait_loop rs = None \<longleftrightarrow> (\<forall>r\<in>set rs. fst r \<noteq> 0 \<and> snd r = EINTR)"
  by (induction rs) (auto split: prod.splits if_splits)

text \<open>The point in time is normal, and as far away as it should be.\<close>

lemma wait_until_exact:
  assumes "0 \<le> nsec" "nsec < 1000000000" "0 \<le> nanoseconds" "wait_until (sec, nsec) nanoseconds = (sec', nsec')"
  shows "0 \<le> nsec'" "nsec' < 1000000000" "sec' * 1000000000 + nsec' = sec * 1000000000 + nsec + nanoseconds"
proof -
  have d: "(nsec + nanoseconds) sdiv 1000000000 = (nsec + nanoseconds) div 1000000000"
    "(nsec + nanoseconds) smod 1000000000 = (nsec + nanoseconds) mod 1000000000"
    using assms(1,3) by (simp_all add: signed_divide_int_def signed_modulo_int_def sgn_if)
  then have e: "sec' = sec + (nsec + nanoseconds) div 1000000000" "nsec' = (nsec + nanoseconds) mod 1000000000"
    using assms(4) by (simp_all add: wait_until_def Let_def)
  show "0 \<le> nsec'" "nsec' < 1000000000" "sec' * 1000000000 + nsec' = sec * 1000000000 + nsec + nanoseconds"
    unfolding e using div_mult_mod_eq [of "nsec + nanoseconds" 1000000000] by (simp_all add: algebra_simps)
qed


subsection \<open>The end of a \<open>Thread\<close>\<close>

text \<open>
  The handle \<open>m_thread\<close>, 0 when there is none, and what was given back to the system by joining or
  detaching. \<open>pthread_join\<close> is an argument; its result 0 is success.
\<close>

record thread_handle =
  th_thread :: nat
  th_joined :: "nat list"
  th_detached :: "nat list"

definition Thread_join :: "(nat \<Rightarrow> int) \<Rightarrow> thread_handle \<Rightarrow> thread_handle res" where
  "Thread_join pthread_join h =
     (if th_thread h \<noteq> 0
      then if pthread_join (th_thread h) \<noteq> 0 then Inl LogicError
           else Inr (h\<lparr>th_joined := th_joined h @ [th_thread h], th_thread := 0\<rparr>)
      else Inr h)"

definition Thread_dtor :: "thread_handle \<Rightarrow> thread_handle" where
  "Thread_dtor h = (if th_thread h \<noteq> 0 then h\<lparr>th_detached := th_detached h @ [th_thread h]\<rparr> else h)"

text \<open>The thread locals \<open>t_thread\<close> and \<open>t_thread_name\<close>, and the names in the thread objects.\<close>

record 'p thread_locals =
  tl_thread :: "'p option"
  tl_name :: "u8 list"
  tl_names :: "'p \<Rightarrow> u8 list"

definition Thread_SetName :: "u8 list \<Rightarrow> 'p thread_locals \<Rightarrow> 'p thread_locals" where
  "Thread_SetName name l =
     (case tl_thread l of Some p \<Rightarrow> l\<lparr>tl_names := (tl_names l)(p := name), tl_name := name\<rparr> | None \<Rightarrow> l\<lparr>tl_name := name\<rparr>)"

text \<open>Joined any number of times and destroyed, a thread is given back exactly once.\<close>

fun join_times :: "(nat \<Rightarrow> int) \<Rightarrow> nat \<Rightarrow> thread_handle \<Rightarrow> thread_handle res" where
  "join_times pthread_join 0 h = Inr h"
| "join_times pthread_join (Suc n) h = rbind (Thread_join pthread_join h) (join_times pthread_join n)"

lemma join_none: "th_thread h = 0 \<Longrightarrow> join_times pthread_join n h = Inr h"
  by (induction n) (simp_all add: Thread_join_def)

lemma thread_given_back_once:
  assumes "p \<noteq> 0" "join_times pthread_join n \<lparr>th_thread = p, th_joined = [], th_detached = []\<rparr> = Inr h"
  shows "th_joined (Thread_dtor h) @ th_detached (Thread_dtor h) = [p]"
  using assms by (cases n) (auto simp: Thread_join_def Thread_dtor_def join_none split: if_splits)

lemma set_name_both: "tl_name (Thread_SetName name l) = name" "tl_thread l = Some p \<Longrightarrow> tl_names (Thread_SetName name l) p = name"
  by (auto simp: Thread_SetName_def split: option.split)

end
