(* ===== verification/Spec2Isabelle.thy ===== *)
theory Spec2Isabelle
  imports Civan_Codec Civan_Hook Civan_Http_Exchange Civan_Response_Parser Civan_Uri_Grammar Civan_Tcp_Server Civan_Logger Civan_Http_Sizes Civan_Sync
begin

text \<open>
  A verification development of \<^emph>\<open>civan\<close>, a C++ network library: fibers and a scheduler over
  several threads, an \<open>epoll\<close> based IO manager with timers, hooks that turn blocking calls of
  a fiber into waits on the IO manager, sockets, streams, an HTTP server with servlets,
  logging and configuration. All paths below are under \<open>src/civan/\<close>.

  \<^bold>\<open>How the parts work together.\<close> A \<open>Scheduler\<close> runs fibers and functions from one queue on its
  threads. \<open>IOManager\<close> is a scheduler that registers fibers or functions for the readiness of
  descriptors and, as a \<open>TimerManager\<close>, for points in time; its idle fiber waits in
  \<open>epoll_wait\<close> for at most the time to the next timer and schedules what became ready. The
  hooks make \<open>read\<close>, \<open>write\<close>, \<open>sleep\<close> and the like register the calling fiber and yield.
  \<open>Socket\<close> calls the (hooked) system functions, \<open>SocketStream\<close> reads and writes through a
  socket, \<open>HttpSession\<close> is such a stream, \<open>TcpServer\<close> accepts connections and schedules a handler
  for each, \<open>HttpServer\<close> parses requests with a generated automaton and dispatches them to
  servlets. \<open>ByteArray\<close> is the buffer of the streams and of the loggers.

  \<^bold>\<open>Conventions.\<close> A 64-bit build is assumed. Machine integers are words of their width where
  wrap-around matters; a \<open>size_t\<close> that only counts elements in memory is a \<open>nat\<close>, with its
  wrapping subtraction written out (\<open>sz_sub\<close>). A call ends in a value or in a \<open>fault\<close>
  (\<open>Civan_Prelude\<close>): an exception, a failed assertion, or behaviour that C++ leaves undefined.
  A string is its list of bytes. Pointers to shared objects are addresses in a heap, or names,
  where identity matters; a buffer cell that was never written is \<open>None\<close>. Threads interleave
  at the granularity of their critical sections and atomic operations: the models of the
  scheduler, timers, logger, lock and thread start are step relations, and the invariants are
  proved for every reachable state. System calls and library functions are
  arguments, with what is assumed of them as named predicates (\<open>epoll_laws\<close>, \<open>sys_laws\<close>,
  \<open>conn_laws\<close>, \<open>fcntl_laws\<close>), each with an instance.

  \<^bold>\<open>The theories.\<close>

  \<^item> \<open>Civan_Prelude\<close>: faults and the error monad, list overwriting, uniform chains of blocks.
    \<open>Civan_Text\<close>: literals, C strings, printed numbers. \<open>Civan_Std_Set\<close>, \<open>Civan_Std_Map\<close>:
    \<open>std::set\<close> and \<open>std::map\<close> over a comparator, as locales (\<open>set_order\<close>, \<open>map_order\<close>) whose laws the
    timers, the HTTP headers and the listeners' keys provide.

  \<^item> \<open>Civan_Endian\<close> (\<open>endian.h\<close>): byte swaps and memory order.

  \<^item> \<open>Civan_Byte_Specs\<close>: the interfaces of byte sinks and sources (\<open>byte_sink\<close>, \<open>byte_source\<close>).
    \<open>Civan_ByteArray\<close>, \<open>Civan_ByteArray_IO\<close> (\<open>bytearray.cc\<close>): the chain of nodes with its cursor;
    \<open>write\<close> refines the overwriting of a flat array, writing in pieces and reading in pieces
    round-trips, the scatter/gather vectors and files hold the right bytes; the two
    interfaces are interpreted on it. \<open>Civan_Codec\<close>: the fixed, varint, zigzag and string
    codecs as instances of \<open>byte_codec\<close>, their pairing (\<open>codec_pair\<close>) and length-prefixed strings
    (\<open>length_codec\<close>).

  \<^item> \<open>Civan_Timer\<close> (\<open>timer.cc\<close>): the set of timers stays sorted and duplicate-free, operations on
    live timers do not fault, expiry is exact, cancellation is final, the sleep is exact.

  \<^item> \<open>Civan_Fiber\<close> (\<open>fiber.cc\<close>): states and the current fiber of a thread. \<open>Civan_Scheduler\<close>
    (\<open>scheduler.cc\<close>): the run loop of every thread; a fiber is in one place only, the counters are
    exact. The exclusion theorem is about slices that end with \<open>READY\<close>, \<open>TERM\<close> or \<open>EXCEPT\<close>; that a
    held fiber that is rescheduled early breaks it is \<open>sched_hold_overwrites_exec\<close>.

  \<^item> \<open>Civan_IOManager\<close> (\<open>iomanager.cc\<close>): registrations agree with the interest set of \<open>epoll\<close> and the
    pending count; adding, cancelling and dispatching schedule each waiter exactly once.

  \<^item> \<open>Civan_Hook\<close> (\<open>hook.cc\<close>, \<open>fd_manager.cc\<close>): the retry loop of \<open>do_io\<close> gives the blocking meaning;
    the two views of the non-blocking flag.

  \<^item> \<open>Civan_Util\<close> (\<open>util.cc\<close>): URL coding against a reference definition, trimming.

  \<^item> \<open>Civan_Http\<close> (\<open>http/http.cc\<close>): methods, headers, parameters, cookies. \<open>Civan_Servlet\<close>
    (\<open>http/servlet.cc\<close>): the dispatch table against a specification by the history of its
    updates.

  \<^item> \<open>Civan_Ragel\<close>: automata in the goto form that ragel generates, the composition of their runs,
    and a locale (\<open>ragel_typed\<close>) for typings of the states that the transitions respect.
    \<open>Civan_Http11_Machine\<close> (\<open>http/http11_parser.rl.cc\<close>): the request automaton, one definition for
    each label with actions and for each of its 349 states. \<open>Civan_Http11\<close>: the parser around it,
    and that no call on a well-typed parser fails an assertion or reports a slice outside the
    buffer. \<open>Civan_Uri_Text\<close>, \<open>Civan_Http11_Grammar\<close>: what the automaton does on a well-formed head,
    in one read or in two.

  \<^item> \<open>Civan_Client_Machine\<close>, \<open>Civan_Client\<close> (\<open>http/httpclient_parser.rl.cc\<close>): the response automaton
    with its 123 states and its parser, in the same form. \<open>Civan_Client_Grammar\<close>: its runs over a
    well-formed head, by groups of states, since it reads several kinds of fields in parallel.

  \<^item> \<open>Civan_Http_Parser\<close>, \<open>Civan_Response_Parser\<close> (\<open>http/http_parser.cc\<close>): the callbacks of the two
    parsers; a printed request and a printed response are read back, what a read boundary
    inside the target of a request does, and where the response parser leaves its buffer. \<open>Civan_Http_Server\<close>
    (\<open>http_session.cc\<close>, \<open>http_server.cc\<close>): receiving a request, the loop of a connection. The two
    loops are \<open>partial_function\<close>s over \<open>option\<close>; that they return is a theorem, since every round
    takes at least one byte from the connection.

  \<^item> \<open>Civan_Http_Exchange\<close>: the composition of these parts; a printed request that arrives in one read
    is delivered with its parts and body, the servlets are asked once, and their answer is what
    goes out on the connection.

  \<^item> \<open>Civan_Socket\<close> (\<open>socket.cc\<close>), \<open>Civan_Stream\<close> (\<open>stream.cc\<close>, \<open>socket_stream.cc\<close>),
    \<open>Civan_Tcp_Server\<close> (\<open>tcp_server.cc\<close>): ownership of descriptors through every sequence of calls,
    exactness of the fixed-size transfers on a connection, all-or-nothing binding, and one
    handler per accepted connection.

  \<^item> \<open>Civan_Address\<close> (\<open>address.cc\<close>): addresses on the bytes of their structures; order, printing,
    host splitting, IPv4 networks.

  \<^item> \<open>Civan_Uri_Machine\<close>, \<open>Civan_Uri\<close> (\<open>uri.rl.cc\<close>): the URI automaton with its 560 states, \<open>Uri::Create\<close>
    around it, and a typing of the states that tells where its mark is set, so that it does not
    throw without an empty port. \<open>Civan_Uri_Grammar\<close>: a printed URI is read back; an empty port
    makes \<open>Create\<close> throw, a password of digits hides the user name.

  \<^item> \<open>Civan_Log\<close>, \<open>Civan_Logger\<close> (\<open>log.cc\<close>): the pattern language and its meaning; the asynchronous
    logger over two \<open>ByteArray\<close>s loses nothing; what a configuration change does.

  \<^item> \<open>Civan_Config\<close> (\<open>config.cc\<close>, \<open>config.h\<close>): variables, listeners, registry, loading of YAML.

    \<open>Civan_Http_Sizes\<close> (\<open>http/http_parser.cc\<close>): the sizes of the parsers follow their variables.

  \<^item> \<open>Civan_Thread\<close> (\<open>mutex.h\<close>, \<open>thread.cc\<close>): mutual exclusion of \<open>CASLock\<close> under its scoped guard; the
    handshake of a thread's constructor with the new thread. \<open>Civan_Sync\<close>: the guard over every
    exclusive lock (locale \<open>exclusive_lock\<close>, interpreted on the three locks), the two guards of
    \<open>RWMutex\<close>, the waits of semaphores and conditions, the end of a thread. What the pthread calls
    do to a lock is written out as POSIX documents it.

  \<^bold>\<open>Bounds.\<close> No loop is cut off by fuel. Loops over data are structural or have a measure; the
  accept loop runs over the sequence of values it reads of the stop flag, which any other
  thread may set. Theorems on transfers assume sizes below \<open>2 ^ 31\<close>, where the \<open>int\<close> results of
  the code are exact.

  \<^bold>\<open>Not modelled.\<close> The code generated by protoc; the conversions through yaml-cpp and boost; the machine context of
  fibers and their stacks; the resolution of the hooked functions with \<open>dlsym\<close>; and \<open>store/\<close>,
  which is unfinished and names types the repository does not have. Data races are modelled
  only where the code's own critical sections leave them (the gap in \<open>listExpiredCb\<close>, the write
  after \<open>swapIn\<close>).
\<close>

end
